(* ===== verification/Prelude.thy ===== *)
theory Prelude
  imports Main "HOL-Library.Word" "HOL-Library.Multiset" "HOL-Library.Sublist"
begin

text \<open>
  What every component of the development shares:
  \<^item> Go's errors as values and Go's fallible, state-changing functions as a state and
    error monad (\<open>go\<close>), with the rules that run it and the rules that carry an
    invariant through it;
  \<^item> the loops over slices the components use (first match, first replacement, first
    removal) and their lemmas;
  \<^item> the functions of Go's \<^verbatim>\<open>strings\<close> and \<^verbatim>\<open>strconv\<close> packages that the sources call;
  \<^item> \<^verbatim>\<open>sort.Slice\<close>.
\<close>

named_theorems go_run \<comment> \<open>equations that execute the monad's combinators\<close>
named_theorems keeps_intro \<comment> \<open>rules that carry an invariant through the combinators\<close>
named_theorems wf_simps \<comment> \<open>unfoldings of the components' well-formedness predicates\<close>

section \<open>Errors and fallible computations\<close>

text \<open>
  Go returns an error next to the result. The sentinel errors that some caller compares
  with are constructors of their own; every other error is \<open>ErrText\<close>.
\<close>

datatype go_error =
    ErrStopped
  | ErrNotExistingAccount
  | ErrResourceNotFound
  | ErrUserNotAvailable
  | ErrRemoteServerNotFound
  | ErrRemoteServerTimeout
  | ErrComponentNotFound string
  | ErrStreamClosedByPeer
  | ErrPageNotFound
  | ErrConnNotFound string
  | ErrIncompatibleProtocol
  | ErrSASL string
  | ErrPanic \<comment> \<open>a run-time panic\<close>
  | ErrDeadlock \<comment> \<open>waiting for a mutex that is never released\<close>
  | ErrNoReturn \<comment> \<open>a loop has used up the fuel of the model\<close>
  | ErrText string

type_synonym ('w, 'a) go = "'w \<Rightarrow> (go_error + 'a) \<times> 'w"

definition ret :: "'a \<Rightarrow> ('w, 'a) go" where
  "ret x = (\<lambda>w. (Inr x, w))"

definition throw :: "go_error \<Rightarrow> ('w, 'a) go" where
  "throw e = (\<lambda>w. (Inl e, w))"

text \<open>\<open>andthen m f\<close> is Go's \<^verbatim>\<open>x, err := m(); if err != nil { return err }; f(x)\<close>.\<close>

definition andthen :: "('w, 'a) go \<Rightarrow> ('a \<Rightarrow> ('w, 'b) go) \<Rightarrow> ('w, 'b) go" where
  "andthen m f = (\<lambda>w. case m w of (Inl e, w') \<Rightarrow> (Inl e, w') | (Inr x, w') \<Rightarrow> f x w')"

text \<open>\<open>attempt m\<close> hands the error to the caller as a value: Go's \<^verbatim>\<open>x, err := m()\<close> with
  \<^verbatim>\<open>err\<close> inspected afterwards.\<close>

definition attempt :: "('w, 'a) go \<Rightarrow> ('w, go_error + 'a) go" where
  "attempt m = (\<lambda>w. case m w of (r, w') \<Rightarrow> (Inr r, w'))"

text \<open>\<open>ignore m\<close> is Go's \<^verbatim>\<open>_ = m()\<close>.\<close>

definition ignore :: "('w, 'a) go \<Rightarrow> ('w, unit) go" where
  "ignore m = (\<lambda>w. (Inr (), snd (m w)))"

definition gets :: "('w \<Rightarrow> 'a) \<Rightarrow> ('w, 'a) go" where
  "gets f = (\<lambda>w. (Inr (f w), w))"

definition modify :: "('w \<Rightarrow> 'w) \<Rightarrow> ('w, unit) go" where
  "modify f = (\<lambda>w. (Inr (), f w))"

text \<open>A \<^verbatim>\<open>for ... range\<close> loop whose body may return an error.\<close>

fun for_each :: "'a list \<Rightarrow> ('a \<Rightarrow> ('w, unit) go) \<Rightarrow> ('w, unit) go" where
  "for_each [] f = ret ()"
| "for_each (x # xs) f = andthen (f x) (\<lambda>_. for_each xs f)"

text \<open>A sequence of operations, each run whatever the ones before it returned.\<close>

fun run_all :: "('o \<Rightarrow> ('w, 'a) go) \<Rightarrow> 'o list \<Rightarrow> 'w \<Rightarrow> (go_error + 'a) list \<times> 'w" where
  "run_all f [] w = ([], w)"
| "run_all f (x # xs) w = (case f x w of (r, w') \<Rightarrow> case run_all f xs w' of (rs, w'') \<Rightarrow> (r # rs, w''))"

lemma ret_run [go_run]: "ret x w = (Inr x, w)"
  by (simp add: ret_def)

lemma throw_run [go_run]: "throw e w = (Inl e, w)"
  by (simp add: throw_def)

lemma andthen_run [go_run]:
  "andthen m f w = (case m w of (Inl e, w') \<Rightarrow> (Inl e, w') | (Inr x, w') \<Rightarrow> f x w')"
  by (simp add: andthen_def)

lemma attempt_run [go_run]: "attempt m w = (Inr (fst (m w)), snd (m w))"
  by (simp add: attempt_def split_beta)

lemma ignore_run [go_run]: "ignore m w = (Inr (), snd (m w))"
  by (simp add: ignore_def)

lemma gets_run [go_run]: "gets f w = (Inr (f w), w)"
  by (simp add: gets_def)

lemma modify_run [go_run]: "modify f w = (Inr (), f w)"
  by (simp add: modify_def)

lemma andthen_ret_left [simp]: "andthen (ret x) f = f x"
  by (simp add: fun_eq_iff go_run)

lemma andthen_ret_right [simp]: "andthen m ret = m"
  by (simp add: fun_eq_iff go_run split: prod.splits sum.splits)

lemma andthen_assoc: "andthen (andthen m f) g = andthen m (\<lambda>x. andthen (f x) g)"
  by (simp add: fun_eq_iff go_run split: prod.splits sum.splits)

lemma for_each_append: "for_each (xs @ ys) f = andthen (for_each xs f) (\<lambda>_. for_each ys f)"
  by (induction xs) (simp_all add: andthen_assoc)

text \<open>A computation keeps a predicate when every run, failed ones included, keeps it.\<close>

definition keeps :: "('w \<Rightarrow> bool) \<Rightarrow> ('w, 'a) go \<Rightarrow> bool" where
  "keeps P m \<longleftrightarrow> (\<forall>w. P w \<longrightarrow> P (snd (m w)))"

lemma keepsI: "(\<And>w. P w \<Longrightarrow> P (snd (m w))) \<Longrightarrow> keeps P m"
  by (simp add: keeps_def)

lemma keepsD: "keeps P m \<Longrightarrow> P w \<Longrightarrow> P (snd (m w))"
  by (simp add: keeps_def)

lemma keeps_ret [keeps_intro]: "keeps P (ret x)"
  by (simp add: keeps_def go_run)

lemma keeps_throw [keeps_intro]: "keeps P (throw e)"
  by (simp add: keeps_def go_run)

lemma keeps_gets [keeps_intro]: "keeps P (gets f)"
  by (simp add: keeps_def go_run)

lemma keeps_andthen [keeps_intro]:
  assumes "keeps P m" and "\<And>x. keeps P (f x)"
  shows "keeps P (andthen m f)"
proof (rule keepsI)
  fix w assume "P w"
  with assms(1) have m: "P (snd (m w))" by (rule keepsD)
  show "P (snd (andthen m f w))"
    using m keepsD [OF assms(2)] by (auto simp: go_run split: prod.split sum.split)
qed

lemma keeps_attempt [keeps_intro]: "keeps P m \<Longrightarrow> keeps P (attempt m)"
  by (simp add: keeps_def go_run)

lemma keeps_ignore [keeps_intro]: "keeps P m \<Longrightarrow> keeps P (ignore m)"
  by (simp add: keeps_def go_run)

lemma keeps_for_each [keeps_intro]: "(\<And>x. keeps P (f x)) \<Longrightarrow> keeps P (for_each xs f)"
  by (induction xs) (auto intro: keeps_intro)

lemma keeps_if [keeps_intro]: "keeps P m \<Longrightarrow> keeps P m' \<Longrightarrow> keeps P (if b then m else m')"
  by simp

text \<open>
  \<open>triple P m Q I\<close>: from a state with \<open>P\<close> the computation returns with \<open>Q\<close>, or fails with \<open>I\<close>.
\<close>

definition triple ::
  "('w \<Rightarrow> bool) \<Rightarrow> ('w, 'a) go \<Rightarrow> ('a \<Rightarrow> 'w \<Rightarrow> bool) \<Rightarrow> ('w \<Rightarrow> bool) \<Rightarrow> bool" where
  "triple P m Q I \<longleftrightarrow> (\<forall>w. P w \<longrightarrow>
     (\<forall>x w'. m w = (Inr x, w') \<longrightarrow> Q x w') \<and> (\<forall>e w'. m w = (Inl e, w') \<longrightarrow> I w'))"

lemma triple_andthen:
  assumes "triple P m Q I" and "\<And>x. triple (Q x) (f x) R I"
  shows "triple P (andthen m f) R I"
  using assms unfolding triple_def
  by (fastforce simp: andthen_run split: prod.splits sum.splits)

lemma triple_weaken:
  assumes "triple P' m Q' I'" and "\<And>w. P w \<Longrightarrow> P' w" and "\<And>x w. Q' x w \<Longrightarrow> Q x w" and "\<And>w. I' w \<Longrightarrow> I w"
  shows "triple P m Q I"
  using assms unfolding triple_def by blast

lemma triple_keeps: "triple P m (\<lambda>_. P) P \<longleftrightarrow> keeps P m"
proof
  assume t: "triple P m (\<lambda>_. P) P"
  show "keeps P m"
  proof (rule keepsI)
    fix w assume "P w"
    obtain r w' where m: "m w = (r, w')" by fastforce
    with t \<open>P w\<close> have "P w'" unfolding triple_def by (cases r) blast+
    with m show "P (snd (m w))" by simp
  qed
next
  assume "keeps P m"
  then show "triple P m (\<lambda>_. P) P" unfolding triple_def keeps_def by (metis snd_conv)
qed

lemma keeps_triple: "keeps P m \<Longrightarrow> triple P m (\<lambda>_. P) P"
  by (simp add: triple_keeps)

section \<open>Loops over slices\<close>

text \<open>
  The sources walk slices for the first element that satisfies a test, and replace or
  cut out that element.
\<close>

fun find_first :: "('a \<Rightarrow> bool) \<Rightarrow> 'a list \<Rightarrow> 'a option" where
  "find_first p [] = None"
| "find_first p (x # xs) = (if p x then Some x else find_first p xs)"

fun replace_first :: "('a \<Rightarrow> bool) \<Rightarrow> 'a \<Rightarrow> 'a list \<Rightarrow> 'a list" where
  "replace_first p y [] = []"
| "replace_first p y (x # xs) = (if p x then y # xs else x # replace_first p y xs)"

fun remove_first :: "('a \<Rightarrow> bool) \<Rightarrow> 'a list \<Rightarrow> 'a list" where
  "remove_first p [] = []"
| "remove_first p (x # xs) = (if p x then xs else x # remove_first p xs)"

lemma find_first_None [simp]: "find_first p xs = None \<longleftrightarrow> (\<forall>x \<in> set xs. \<not> p x)"
  by (induction xs) auto

lemma find_first_SomeD: "find_first p xs = Some x \<Longrightarrow> x \<in> set xs \<and> p x"
  by (induction xs) (auto split: if_splits)

lemma find_first_append:
  "find_first p (xs @ ys) = (case find_first p xs of None \<Rightarrow> find_first p ys | Some x \<Rightarrow> Some x)"
  by (induction xs) auto

lemma set_remove_first_subset: "set (remove_first p xs) \<subseteq> set xs"
  by (induction xs) auto

lemma remove_first_id: "\<forall>x \<in> set xs. \<not> p x \<Longrightarrow> remove_first p xs = xs"
  by (induction xs) auto

lemma distinct_map_remove_first: "distinct (map f xs) \<Longrightarrow> distinct (map f (remove_first p xs))"
  by (induction xs) (auto dest: set_remove_first_subset [THEN subsetD])

text \<open>On slices whose keys are distinct, first-match operations are map operations.\<close>

lemma remove_first_key:
  assumes "distinct (map f xs)"
  shows "remove_first (\<lambda>x. f x = k) xs = filter (\<lambda>x. f x \<noteq> k) xs"
  using assms
proof (induction xs)
  case (Cons x xs)
  show ?case
  proof (cases "f x = k")
    case True
    with Cons.prems have "\<forall>y \<in> set xs. f y \<noteq> k" by (auto simp: image_iff)
    with True show ?thesis by (simp add: filter_id_conv)
  next
    case False
    with Cons show ?thesis by simp
  qed
qed simp

lemma find_first_filter_neq:
  "k' \<noteq> k \<Longrightarrow> find_first (\<lambda>x. f x = k') (filter (\<lambda>x. f x \<noteq> k) xs) = find_first (\<lambda>x. f x = k') xs"
  by (induction xs) auto

lemma find_first_key:
  "distinct (map f xs) \<Longrightarrow> x \<in> set xs \<Longrightarrow> find_first (\<lambda>y. f y = f x) xs = Some x"
  by (induction xs) (auto simp: image_iff)

lemma mset_remove_first: "find_first p xs = Some x \<Longrightarrow> mset (remove_first p xs) = mset xs - {#x#}"
proof (induction xs)
  case (Cons y xs)
  show ?case
  proof (cases "p y")
    case False
    with Cons.prems have f: "find_first p xs = Some x" by simp
    then have "x \<noteq> y" using False find_first_SomeD by fastforce
    with False Cons.IH [OF f] show ?thesis by (simp add: diff_add_mset_swap)
  qed (use Cons.prems in simp)
qed simp

lemma find_first_unique:
  assumes "x \<in> set xs" "p x" "\<And>y. y \<in> set xs \<Longrightarrow> p y \<Longrightarrow> y = x"
  shows "find_first p xs = Some x"
proof (cases "find_first p xs")
  case None
  with assms(1,2) show ?thesis by auto
next
  case (Some y)
  with assms(3) show ?thesis by (auto dest: find_first_SomeD)
qed

lemma replace_first_keys:
  "f y = k \<Longrightarrow> map f (replace_first (\<lambda>x. f x = k) y xs) = map f xs"
  by (induction xs) auto

lemma find_first_replace_first:
  assumes "f y = k"
  shows "find_first (\<lambda>x. f x = k') (replace_first (\<lambda>x. f x = k) y xs) =
    (if k' = k \<and> (\<exists>x \<in> set xs. f x = k) then Some y else find_first (\<lambda>x. f x = k') xs)"
  using assms by (induction xs) auto

section \<open>Strings\<close>

text \<open>\<^verbatim>\<open>strings.HasPrefix\<close>, \<^verbatim>\<open>strings.TrimPrefix\<close>, \<^verbatim>\<open>strings.HasSuffix\<close>.\<close>

definition has_prefix :: "string \<Rightarrow> string \<Rightarrow> bool" where
  "has_prefix s p \<longleftrightarrow> take (length p) s = p"

definition trim_prefix :: "string \<Rightarrow> string \<Rightarrow> string" where
  "trim_prefix s p = (if has_prefix s p then drop (length p) s else s)"

definition has_suffix :: "string \<Rightarrow> string \<Rightarrow> bool" where
  "has_suffix s t \<longleftrightarrow> length t \<le> length s \<and> drop (length s - length t) s = t"

lemma trim_prefix_append [simp]: "trim_prefix (p @ s) p = s"
  by (simp add: trim_prefix_def has_prefix_def)

lemma has_suffix_append [simp]: "has_suffix (s @ t) t"
  by (simp add: has_suffix_def)

lemma has_suffixE: "has_suffix s t \<Longrightarrow> \<exists>u. s = u @ t"
  unfolding has_suffix_def by (metis append_take_drop_id)

text \<open>\<^verbatim>\<open>strings.Split(s, sep)\<close> and \<^verbatim>\<open>bytes.Split\<close> for a separator of one character: the
  pieces between the separators, at least one.\<close>

fun split_on :: "'a \<Rightarrow> 'a list \<Rightarrow> 'a list list" where
  "split_on c [] = [[]]"
| "split_on c (x # xs) =
     (if x = c then [] # split_on c xs
      else case split_on c xs of [] \<Rightarrow> [[x]] | y # ys \<Rightarrow> (x # y) # ys)"

lemma split_on_ne [simp]: "split_on c xs \<noteq> []"
  by (induction xs) (auto split: list.splits)

lemma split_on_no_sep: "c \<notin> set xs \<Longrightarrow> split_on c xs = [xs]"
  by (induction xs) auto

lemma split_on_append:
  "c \<notin> set xs \<Longrightarrow> split_on c (xs @ c # ys) = xs # split_on c ys"
  by (induction xs) auto

lemma length_split_on: "length (split_on c xs) = Suc (count_list xs c)"
proof (induction xs)
  case (Cons x xs)
  then show ?case by (cases "split_on c xs") auto
qed simp

lemma count_list_pos [simp]: "0 < count_list xs c \<longleftrightarrow> c \<in> set xs"
  by (metis count_list_0_iff gr0I less_numeral_extra(3))

lemma split_on_concat: "split_on c xs = [a, b] \<Longrightarrow> xs = a @ c # b \<and> c \<notin> set a \<and> c \<notin> set b"
proof (induction xs arbitrary: a b)
  case (Cons x xs)
  show ?case
  proof (cases "x = c")
    case True
    with Cons.prems have "a = []" and s: "split_on c xs = [b]" by auto
    from s have "count_list xs c = 0"
      using length_split_on [of c xs] by simp
    then have "c \<notin> set xs" by (simp add: count_list_0_iff)
    with s have "b = xs" by (simp add: split_on_no_sep)
    with True \<open>a = []\<close> \<open>c \<notin> set xs\<close> show ?thesis by simp
  next
    case False
    with Cons.prems obtain a' where "split_on c xs = [a', b]" "a = x # a'"
      by (auto split: list.splits)
    with Cons.IH False show ?thesis by auto
  qed
qed simp

text \<open>Decimal numbers: \<^verbatim>\<open>strconv.Itoa\<close> / \<^verbatim>\<open>FormatUint\<close> on non-negative values, and the
  digit loop of \<^verbatim>\<open>ParseUint\<close> and \<^verbatim>\<open>Atoi\<close> (\<open>None\<close> is a syntax error).\<close>

definition digit_char :: "nat \<Rightarrow> char" where
  "digit_char d = char_of (48 + d)"

definition char_digit :: "char \<Rightarrow> nat option" where
  "char_digit c = (if 48 \<le> (of_char c :: nat) \<and> (of_char c :: nat) \<le> 57
     then Some (of_char c - 48) else None)"

fun itoa_nat :: "nat \<Rightarrow> string" where
  "itoa_nat n = (if n < 10 then [digit_char n] else itoa_nat (n div 10) @ [digit_char (n mod 10)])"

declare itoa_nat.simps [simp del]

fun digits_val :: "nat \<Rightarrow> string \<Rightarrow> nat option" where
  "digits_val acc [] = Some acc"
| "digits_val acc (c # cs) =
     (case char_digit c of None \<Rightarrow> None | Some d \<Rightarrow> digits_val (acc * 10 + d) cs)"

definition parse_nat :: "string \<Rightarrow> nat option" where
  "parse_nat s = (if s = [] then None else digits_val 0 s)"

lemma char_digit_digit_char [simp]: "d < 10 \<Longrightarrow> char_digit (digit_char d) = Some d"
  by (simp add: char_digit_def digit_char_def)

lemma digits_val_append:
  "digits_val acc (xs @ ys) = (case digits_val acc xs of None \<Rightarrow> None | Some v \<Rightarrow> digits_val v ys)"
  by (induction xs arbitrary: acc) (auto split: option.splits)

lemma itoa_nat_ne [simp]: "itoa_nat n \<noteq> []"
  by (subst itoa_nat.simps) simp

lemma digits_val_itoa_nat: "digits_val 0 (itoa_nat n) = Some n"
proof (induction n rule: itoa_nat.induct)
  case (1 n)
  show ?case
    by (cases "n < 10") (use 1 in \<open>simp_all add: itoa_nat.simps [of n] digits_val_append\<close>)
qed

lemma parse_nat_itoa [simp]: "parse_nat (itoa_nat n) = Some n"
  by (simp add: parse_nat_def digits_val_itoa_nat)

lemma set_itoa_nat: "set (itoa_nat n) \<subseteq> digit_char ` {..<10}"
proof (induction n rule: itoa_nat.induct)
  case (1 n)
  show ?case
    by (cases "n < 10") (use 1 in \<open>auto simp: itoa_nat.simps [of n]\<close>)
qed

text \<open>
  \<^verbatim>\<open>strconv.Itoa\<close> on a signed value, and \<^verbatim>\<open>strconv.ParseInt(s, 10, 64)\<close> (also \<^verbatim>\<open>Atoi\<close>): the
  value and whether the error is nil. A syntax error gives 0; a value out of range gives
  the nearest 64-bit value and an error.
\<close>

definition itoa :: "int \<Rightarrow> string" where
  "itoa i = (if i < 0 then CHR ''-'' # itoa_nat (nat (- i)) else itoa_nat (nat i))"

definition max_int64 :: int where
  "max_int64 = 9223372036854775807"

definition clamp_int64 :: "int \<Rightarrow> int \<times> bool" where
  "clamp_int64 v =
     (if v > max_int64 then (max_int64, False)
      else if v < - max_int64 - 1 then (- max_int64 - 1, False)
      else (v, True))"

definition parse_int :: "string \<Rightarrow> int \<times> bool" where
  "parse_int s =
     (let (neg, ds) = (case s of [] \<Rightarrow> (False, [])
                       | c # cs \<Rightarrow> if c = CHR ''-'' then (True, cs)
                                  else if c = CHR ''+'' then (False, cs) else (False, s))
      in case parse_nat ds of
           None \<Rightarrow> (0, False)
         | Some n \<Rightarrow> clamp_int64 (if neg then - int n else int n))"

lemma hd_itoa_nat: "\<exists>d < 10. hd (itoa_nat n) = digit_char d"
proof -
  have "hd (itoa_nat n) \<in> set (itoa_nat n)" by (rule hd_in_set) simp
  with set_itoa_nat [of n] have "hd (itoa_nat n) \<in> digit_char ` {..<10}" by blast
  then show ?thesis by auto
qed

lemma digit_char_sign: "d < 10 \<Longrightarrow> digit_char d \<noteq> CHR ''-'' \<and> digit_char d \<noteq> CHR ''+''"
proof -
  assume "d < 10"
  then have "char_digit (digit_char d) = Some d" by simp
  moreover have "char_digit (CHR ''-'') = None" "char_digit (CHR ''+'') = None"
    by (simp_all add: char_digit_def)
  ultimately show ?thesis by fastforce
qed

lemma parse_int_itoa:
  assumes "- max_int64 - 1 \<le> v" and "v \<le> max_int64"
  shows "parse_int (itoa v) = (v, True)"
proof (cases "v < 0")
  case True
  with assms show ?thesis by (simp add: parse_int_def itoa_def clamp_int64_def)
next
  case False
  obtain c cs where c: "itoa_nat (nat v) = c # cs" by (cases "itoa_nat (nat v)") auto
  with hd_itoa_nat [of "nat v"] have "c \<noteq> CHR ''-'' \<and> c \<noteq> CHR ''+''"
    by (auto dest: digit_char_sign)
  moreover from c have "parse_nat (c # cs) = Some (nat v)" by (metis parse_nat_itoa)
  ultimately show ?thesis
    using False assms c by (simp add: parse_int_def itoa_def clamp_int64_def)
qed

section \<open>Sorting\<close>

text \<open>
  \<^verbatim>\<open>sort.Slice(xs, less)\<close>: Go sorts slices of at most twelve elements by insertion (each
  element moves left while it is less than its left neighbour), which is what is written
  here; the order of equal elements of longer slices is not specified by Go, and nothing
  below depends on it.
\<close>

fun insert_left :: "('a \<Rightarrow> 'a \<Rightarrow> bool) \<Rightarrow> 'a \<Rightarrow> 'a list \<Rightarrow> 'a list" where
  "insert_left lt x [] = [x]"
| "insert_left lt x (y # ys) = (if lt x y then y # insert_left lt x ys else x # y # ys)"

text \<open>The sorted prefix is kept reversed, so that moving left is walking the list.\<close>

definition sort_slice :: "('a \<Rightarrow> 'a \<Rightarrow> bool) \<Rightarrow> 'a list \<Rightarrow> 'a list" where
  "sort_slice lt xs = rev (fold (insert_left lt) xs [])"

lemma mset_insert_left [simp]: "mset (insert_left lt x ys) = add_mset x (mset ys)"
  by (induction ys) auto

lemma mset_fold_insert_left: "mset (fold (insert_left lt) xs acc) = mset xs + mset acc"
  by (induction xs arbitrary: acc) auto

lemma mset_sort_slice [simp]: "mset (sort_slice lt xs) = mset xs"
  by (simp add: sort_slice_def mset_fold_insert_left)

lemma set_sort_slice [simp]: "set (sort_slice lt xs) = set xs"
  by (metis mset_sort_slice set_mset_mset)

lemma length_sort_slice [simp]: "length (sort_slice lt xs) = length xs"
  by (metis mset_sort_slice size_mset)

lemma set_insert_left [simp]: "set (insert_left lt x ys) = insert x (set ys)"
  by (induction ys) auto

text \<open>The result is sorted for every \<^verbatim>\<open>less\<close> that is a strict weak order.\<close>

definition weak_order :: "('a \<Rightarrow> 'a \<Rightarrow> bool) \<Rightarrow> bool" where
  "weak_order lt \<longleftrightarrow> (\<forall>a b. lt a b \<longrightarrow> \<not> lt b a) \<and> (\<forall>a b c. \<not> lt a b \<longrightarrow> \<not> lt b c \<longrightarrow> \<not> lt a c)"

lemma sorted_insert_left:
  assumes "weak_order lt" and "sorted_wrt (\<lambda>a b. \<not> lt a b) ys"
  shows "sorted_wrt (\<lambda>a b. \<not> lt a b) (insert_left lt x ys)"
  using assms(2)
proof (induction ys)
  case (Cons y ys)
  show ?case
  proof (cases "lt x y")
    case True
    then have "\<not> lt y x" using assms(1) unfolding weak_order_def by blast
    with True Cons.IH Cons.prems show ?thesis by simp
  next
    case False
    have "\<not> lt x z" if "z \<in> set ys" for z
    proof -
      have "\<not> lt y z" using that Cons.prems by simp
      with False assms(1) show ?thesis unfolding weak_order_def by blast
    qed
    with False Cons.prems show ?thesis by simp
  qed
qed simp

lemma sorted_sort_slice_wrt:
  assumes "weak_order lt"
  shows "sorted_wrt (\<lambda>a b. \<not> lt b a) (sort_slice lt xs)"
proof -
  have "sorted_wrt (\<lambda>a b. \<not> lt a b) acc \<Longrightarrow> sorted_wrt (\<lambda>a b. \<not> lt a b) (fold (insert_left lt) xs acc)" for acc
    by (induction xs arbitrary: acc) (simp_all add: sorted_insert_left [OF assms])
  then show ?thesis by (simp add: sort_slice_def sorted_wrt_rev)
qed

lemma weak_order_key:
  fixes key :: "'a \<Rightarrow> 'k::linorder"
  shows "weak_order (\<lambda>a b. key a > key b)" and "weak_order ((<) :: 'k \<Rightarrow> 'k \<Rightarrow> bool)"
  by (auto simp: weak_order_def)

lemma sorted_sort_slice:
  fixes key :: "'a \<Rightarrow> 'k::linorder"
  shows "sorted_wrt (\<lambda>a b. key a \<ge> key b) (sort_slice (\<lambda>a b. key a > key b) xs)"
  using sorted_sort_slice_wrt [OF weak_order_key(1), of key xs] by (simp add: not_less)

lemma sorted_sort_slice_asc: "sorted (sort_slice (<) (xs :: 'k::linorder list))"
  using sorted_sort_slice_wrt [OF weak_order_key(2), of xs] by (simp add: not_less)

end
