(* ===== verification/Stream_Queue.thy ===== *)
theory Stream_Queue
  imports Prelude
begin

text \<open>
  The queue of unacknowledged stanzas of a resumable stream and the map of such queues
  (\<^verbatim>\<open>src/pkg/module/xep0198/queue/queue.go\<close>).
  \<^item> \<open>queue\<close> is \<^verbatim>\<open>Queue\<close>; \<open>'st\<close> stands for stream references and \<open>'s\<close> for stanza
    pointers, so that \<open>=\<close> on \<open>'s\<close> is the pointer comparison of \<^verbatim>\<open>HandleOut\<close>.
  \<^item> Timers: \<^verbatim>\<open>time.AfterFunc\<close> starts a timer in the Go runtime and returns a handle.
    \<open>q_live\<close> holds the timers of the queue that have neither fired nor been stopped,
    \<open>q_rTm\<close> and \<open>q_discTm\<close> the handles the queue remembers.
  \<^item> What an operation does to the stream is the list of \<open>q_out\<close> actions it returns.
  The lemmas show the order of the h values, that the queue implements the counting
  specification of acknowledgements, and which timers can be running.
\<close>

section \<open>Data\<close>

type_synonym u32 = "32 word"
type_synonym byte = "8 word"

record 's qelement =
  Stanza :: 's
  H :: u32

datatype timer_cb = RequestAckCb | DisconnectCb

record timer =
  tm_id :: nat
  tm_cb :: timer_cb
  tm_after :: int

record ('st, 's) queue =
  q_stm :: 'st
  q_nc :: "byte list"
  q_reqAckInterval :: int
  q_waitForAckTimeout :: int
  q_elements :: "'s qelement list"
  q_outH :: u32
  q_inH :: u32
  q_rTm :: nat
  q_discTm :: "nat option"
  q_live :: "timer list"
  q_nextTm :: nat

datatype ('st, 's) q_out =
    SendR 'st
  | SendStanza 'st 's
  | DisconnectTimeout 'st

section \<open>Operations\<close>

definition incH :: "u32 \<Rightarrow> u32" where
  "incH h = (if h = 4294967294 then 0 else h + 1)"

text \<open>\<^verbatim>\<open>time.AfterFunc\<close> and \<^verbatim>\<open>Timer.Stop\<close>.\<close>

definition after_func :: "int \<Rightarrow> timer_cb \<Rightarrow> ('st, 's) queue \<Rightarrow> nat \<times> ('st, 's) queue" where
  "after_func d cb q =
     (q_nextTm q,
      q\<lparr>q_live := q_live q @ [\<lparr>tm_id = q_nextTm q, tm_cb = cb, tm_after = d\<rparr>],
        q_nextTm := Suc (q_nextTm q)\<rparr>)"

definition stop_timer :: "nat \<Rightarrow> ('st, 's) queue \<Rightarrow> ('st, 's) queue" where
  "stop_timer i q = q\<lparr>q_live := filter (\<lambda>t. tm_id t \<noteq> i) (q_live q)\<rparr>"

definition stop_opt :: "nat option \<Rightarrow> ('st, 's) queue \<Rightarrow> ('st, 's) queue" where
  "stop_opt t q = (case t of None \<Rightarrow> q | Some i \<Rightarrow> stop_timer i q)"

definition setRTimer :: "('st, 's) queue \<Rightarrow> ('st, 's) queue" where
  "setRTimer q =
     (let (t, q') = after_func (q_reqAckInterval q) RequestAckCb (stop_timer (q_rTm q) q)
      in q'\<lparr>q_rTm := t\<rparr>)"

definition newQueue ::
  "'st \<Rightarrow> byte list \<Rightarrow> 's qelement list \<Rightarrow> u32 \<Rightarrow> u32 \<Rightarrow> int \<Rightarrow> int \<Rightarrow> ('st, 's) queue" where
  "newQueue stm nonce els inH outH requestAckInterval waitForAckTimeout =
     (let sq = \<lparr>q_stm = stm, q_nc = nonce, q_reqAckInterval = requestAckInterval,
                q_waitForAckTimeout = waitForAckTimeout, q_elements = els,
                q_outH = outH, q_inH = inH, q_rTm = 0, q_discTm = None,
                q_live = [], q_nextTm = 0\<rparr>;
          (t, sq') = after_func requestAckInterval RequestAckCb sq
      in sq'\<lparr>q_rTm := t\<rparr>)"

definition HandleIn :: "('st, 's) queue \<Rightarrow> ('st, 's) queue" where
  "HandleIn q = (let q' = setRTimer q in q'\<lparr>q_inH := incH (q_inH q')\<rparr>)"

definition HandleOut :: "'s \<Rightarrow> ('st, 's) queue \<Rightarrow> ('st, 's) queue" where
  "HandleOut stanza q =
     (if \<exists>el \<in> set (q_elements q). Stanza el = stanza then q
      else let h = incH (q_outH q)
           in q\<lparr>q_outH := h, q_elements := q_elements q @ [\<lparr>Stanza = stanza, H = h\<rparr>]\<rparr>)"

definition SetStream :: "'st \<Rightarrow> ('st, 's) queue \<Rightarrow> ('st, 's) queue" where
  "SetStream stm q = q\<lparr>q_stm := stm\<rparr>"

definition GetStream :: "('st, 's) queue \<Rightarrow> 'st" where
  "GetStream q = q_stm q"

definition Nonce :: "('st, 's) queue \<Rightarrow> byte list" where
  "Nonce q = q_nc q"

text \<open>The loop of \<^verbatim>\<open>Acknowledge\<close>: the index of the last element whose h is at most \<open>h\<close>.\<close>

fun ack_index :: "u32 \<Rightarrow> nat \<Rightarrow> 's qelement list \<Rightarrow> nat option \<Rightarrow> nat option" where
  "ack_index h i [] j = j"
| "ack_index h i (e # es) j = ack_index h (Suc i) es (if H e \<le> h then Some i else j)"

definition Acknowledge :: "u32 \<Rightarrow> ('st, 's) queue \<Rightarrow> ('st, 's) queue" where
  "Acknowledge h q =
     (let q1 = stop_opt (q_discTm q) q;
          q2 = (case ack_index h 0 (q_elements q1) None of
                  None \<Rightarrow> q1
                | Some j \<Rightarrow> q1\<lparr>q_elements := drop (j + 1) (q_elements q1)\<rparr>)
      in setRTimer q2)"

definition SendPending :: "('st, 's) queue \<Rightarrow> ('st, 's) q_out list" where
  "SendPending q = map (\<lambda>e. SendStanza (q_stm q) (Stanza e)) (q_elements q)"

definition Elements :: "('st, 's) queue \<Rightarrow> 's qelement list" where
  "Elements q = q_elements q"

definition Len :: "('st, 's) queue \<Rightarrow> nat" where
  "Len q = length (q_elements q)"

definition InboundH :: "('st, 's) queue \<Rightarrow> u32" where
  "InboundH q = q_inH q"

definition OutboundH :: "('st, 's) queue \<Rightarrow> u32" where
  "OutboundH q = q_outH q"

definition ScheduleR :: "('st, 's) queue \<Rightarrow> ('st, 's) queue" where
  "ScheduleR q = setRTimer q"

definition CancelTimers :: "('st, 's) queue \<Rightarrow> ('st, 's) queue" where
  "CancelTimers q = stop_opt (q_discTm q) (stop_timer (q_rTm q) q)"

definition RequestAck :: "('st, 's) queue \<Rightarrow> ('st, 's) queue \<times> ('st, 's) q_out list" where
  "RequestAck q =
     (let (t, q') = after_func (q_waitForAckTimeout q) DisconnectCb q
      in (q'\<lparr>q_discTm := Some t\<rparr>, [SendR (q_stm q)]))"

text \<open>The runtime fires a running timer: the timer is spent and its function runs.\<close>

definition fire :: "nat \<Rightarrow> ('st, 's) queue \<Rightarrow> ('st, 's) queue \<times> ('st, 's) q_out list" where
  "fire i q =
     (case find_first (\<lambda>t. tm_id t = i) (q_live q) of
        None \<Rightarrow> (q, [])
      | Some t \<Rightarrow>
          (let q' = stop_timer i q
           in (case tm_cb t of
                 RequestAckCb \<Rightarrow> RequestAck q'
               | DisconnectCb \<Rightarrow> (q', [DisconnectTimeout (q_stm q')]))))"

subsection \<open>The queue map\<close>

type_synonym ('st, 's) queue_map = "string \<rightharpoonup> ('st, 's) queue"

definition NewQueueMap :: "('st, 's) queue_map" where
  "NewQueueMap = Map.empty"

definition qmSet :: "string \<Rightarrow> ('st, 's) queue \<Rightarrow> ('st, 's) queue_map \<Rightarrow> ('st, 's) queue_map" where
  "qmSet k q qm = qm(k \<mapsto> q)"

definition qmGet :: "string \<Rightarrow> ('st, 's) queue_map \<Rightarrow> ('st, 's) queue option" where
  "qmGet k qm = qm k"

definition qmDelete ::
  "string \<Rightarrow> ('st, 's) queue_map \<Rightarrow> ('st, 's) queue option \<times> ('st, 's) queue_map" where
  "qmDelete k qm = (let q = qm k in (q, if q \<noteq> None then qm(k := None) else qm))"

section \<open>Runs of a queue\<close>

datatype 's q_op = OpIn | OpOut 's | OpAck u32 | OpRequestAck | OpScheduleR | OpCancel | OpFire nat

fun q_step :: "('st, 's) queue \<Rightarrow> 's q_op \<Rightarrow> ('st, 's) queue" where
  "q_step q OpIn = HandleIn q"
| "q_step q (OpOut s) = HandleOut s q"
| "q_step q (OpAck h) = Acknowledge h q"
| "q_step q OpRequestAck = fst (RequestAck q)"
| "q_step q OpScheduleR = ScheduleR q"
| "q_step q OpCancel = CancelTimers q"
| "q_step q (OpFire i) = fst (fire i q)"

fun q_run :: "('st, 's) queue \<Rightarrow> 's q_op list \<Rightarrow> ('st, 's) queue" where
  "q_run q [] = q"
| "q_run q (x # xs) = q_run (q_step q x) xs"

lemma q_run_append: "q_run q (xs @ ys) = q_run (q_run q xs) ys"
  by (induction xs arbitrary: q) auto

section \<open>Frame lemmas\<close>

named_theorems q_frame

lemma after_func_frame [q_frame]:
  "q_elements (snd (after_func d cb q)) = q_elements q"
  "q_outH (snd (after_func d cb q)) = q_outH q"
  "q_inH (snd (after_func d cb q)) = q_inH q"
  "q_stm (snd (after_func d cb q)) = q_stm q"
  "q_nc (snd (after_func d cb q)) = q_nc q"
  by (simp_all add: after_func_def)

lemma stop_timer_frame [q_frame]:
  "q_elements (stop_timer i q) = q_elements q" "q_outH (stop_timer i q) = q_outH q"
  "q_inH (stop_timer i q) = q_inH q" "q_stm (stop_timer i q) = q_stm q"
  "q_nc (stop_timer i q) = q_nc q" "q_rTm (stop_timer i q) = q_rTm q"
  "q_discTm (stop_timer i q) = q_discTm q" "q_nextTm (stop_timer i q) = q_nextTm q"
  by (simp_all add: stop_timer_def)

lemma stop_opt_frame [q_frame]:
  "q_elements (stop_opt t q) = q_elements q" "q_outH (stop_opt t q) = q_outH q"
  "q_inH (stop_opt t q) = q_inH q" "q_stm (stop_opt t q) = q_stm q"
  "q_nc (stop_opt t q) = q_nc q" "q_rTm (stop_opt t q) = q_rTm q"
  "q_discTm (stop_opt t q) = q_discTm q" "q_nextTm (stop_opt t q) = q_nextTm q"
  by (simp_all add: stop_opt_def q_frame split: option.split)

lemma setRTimer_frame [q_frame]:
  "q_elements (setRTimer q) = q_elements q" "q_outH (setRTimer q) = q_outH q"
  "q_inH (setRTimer q) = q_inH q" "q_stm (setRTimer q) = q_stm q"
  "q_nc (setRTimer q) = q_nc q" "q_discTm (setRTimer q) = q_discTm q"
  by (simp_all add: setRTimer_def after_func_def q_frame)

lemma RequestAck_frame [q_frame]:
  "q_elements (fst (RequestAck q)) = q_elements q" "q_outH (fst (RequestAck q)) = q_outH q"
  "q_inH (fst (RequestAck q)) = q_inH q" "q_stm (fst (RequestAck q)) = q_stm q"
  "q_nc (fst (RequestAck q)) = q_nc q" "q_rTm (fst (RequestAck q)) = q_rTm q"
  by (simp_all add: RequestAck_def after_func_def)

lemma fire_frame [q_frame]:
  "q_elements (fst (fire i q)) = q_elements q" "q_outH (fst (fire i q)) = q_outH q"
  "q_inH (fst (fire i q)) = q_inH q" "q_stm (fst (fire i q)) = q_stm q"
  "q_nc (fst (fire i q)) = q_nc q"
  by (simp_all add: fire_def Let_def q_frame split: option.split timer_cb.split)

lemma HandleIn_frame [q_frame]:
  "q_elements (HandleIn q) = q_elements q" "q_outH (HandleIn q) = q_outH q"
  "q_stm (HandleIn q) = q_stm q" "q_nc (HandleIn q) = q_nc q"
  "q_inH (HandleIn q) = incH (q_inH q)"
  by (simp_all add: HandleIn_def q_frame)

lemma ScheduleR_frame [q_frame]:
  "q_elements (ScheduleR q) = q_elements q" "q_outH (ScheduleR q) = q_outH q"
  "q_inH (ScheduleR q) = q_inH q" "q_stm (ScheduleR q) = q_stm q" "q_nc (ScheduleR q) = q_nc q"
  by (simp_all add: ScheduleR_def q_frame)

lemma CancelTimers_frame [q_frame]:
  "q_elements (CancelTimers q) = q_elements q" "q_outH (CancelTimers q) = q_outH q"
  "q_inH (CancelTimers q) = q_inH q" "q_stm (CancelTimers q) = q_stm q"
  "q_nc (CancelTimers q) = q_nc q"
  by (simp_all add: CancelTimers_def q_frame)

lemma HandleOut_frame [q_frame]:
  "q_inH (HandleOut s q) = q_inH q" "q_stm (HandleOut s q) = q_stm q"
  "q_nc (HandleOut s q) = q_nc q" "q_rTm (HandleOut s q) = q_rTm q"
  "q_discTm (HandleOut s q) = q_discTm q" "q_live (HandleOut s q) = q_live q"
  by (simp_all add: HandleOut_def Let_def)

lemma Acknowledge_frame [q_frame]:
  "q_outH (Acknowledge h q) = q_outH q" "q_inH (Acknowledge h q) = q_inH q"
  "q_stm (Acknowledge h q) = q_stm q" "q_nc (Acknowledge h q) = q_nc q"
  by (simp_all add: Acknowledge_def Let_def q_frame split: option.split)

lemma newQueue_sel [q_frame]:
  "q_elements (newQueue stm nc els i out d d') = els"
  "q_outH (newQueue stm nc els i out d d') = out"
  "q_inH (newQueue stm nc els i out d d') = i"
  "q_stm (newQueue stm nc els i out d d') = stm"
  "q_nc (newQueue stm nc els i out d d') = nc"
  by (simp_all add: newQueue_def after_func_def)

section \<open>Acknowledgement\<close>

lemma ack_index_snoc:
  "ack_index h i (es @ [e]) j = (if H e \<le> h then Some (i + length es) else ack_index h i es j)"
  by (induction es arbitrary: i j) auto

lemma ack_index_bound: "ack_index h 0 es None = Some k \<Longrightarrow> k < length es"
proof (induction es rule: rev_induct)
  case (snoc e es)
  then show ?case by (auto simp: ack_index_snoc split: if_splits)
qed simp

text \<open>What an acknowledgement leaves: the elements after the last one that it covers.\<close>

definition unacked :: "u32 \<Rightarrow> 's qelement list \<Rightarrow> 's qelement list" where
  "unacked h es = rev (takeWhile (\<lambda>e. h < H e) (rev es))"

lemma ack_index_unacked:
  "(case ack_index h 0 es None of None \<Rightarrow> es | Some j \<Rightarrow> drop (j + 1) es) = unacked h es"
proof (induction es rule: rev_induct)
  case (snoc e es)
  show ?case
  proof (cases "H e \<le> h")
    case True
    then show ?thesis by (simp add: ack_index_snoc unacked_def)
  next
    case False
    then show ?thesis
      using snoc ack_index_bound [of h es]
      by (auto simp: ack_index_snoc unacked_def split: option.splits)
  qed
qed (simp add: unacked_def)

lemma Acknowledge_elements: "q_elements (Acknowledge h q) = unacked h (q_elements q)"
proof -
  let ?q1 = "stop_opt (q_discTm q) q"
  have "q_elements (Acknowledge h q) =
    (case ack_index h 0 (q_elements q) None of None \<Rightarrow> q_elements q
       | Some j \<Rightarrow> drop (j + 1) (q_elements q))"
    by (simp add: Acknowledge_def Let_def q_frame split: option.split)
  then show ?thesis by (simp only: ack_index_unacked)
qed

lemma unacked_suffix: "\<exists>k. unacked h es = drop k es"
  unfolding ack_index_unacked [symmetric]
  by (cases "ack_index h 0 es None") (auto intro: exI [of _ 0])

lemma unacked_filter:
  assumes "sorted_wrt (\<lambda>a b. H a \<le> H b) es"
  shows "unacked h es = filter (\<lambda>e. h < H e) es"
  using assms
proof (induction es rule: rev_induct)
  case (snoc e es)
  show ?case
  proof (cases "h < H e")
    case True
    with snoc show ?thesis by (simp add: unacked_def sorted_wrt_append)
  next
    case False
    with snoc.prems have "\<forall>x \<in> set es. \<not> h < H x"
      by (auto simp: sorted_wrt_append)
    then have "filter (\<lambda>e. h < H e) es = []" by (simp add: filter_empty_conv)
    with False show ?thesis by (simp add: unacked_def)
  qed
qed (simp add: unacked_def)

section \<open>Consecutive h values\<close>

text \<open>The pending elements carry consecutive h values, the last one the outbound h.\<close>

fun h_chain :: "u32 \<Rightarrow> 's qelement list \<Rightarrow> u32 \<Rightarrow> bool" where
  "h_chain b [] out \<longleftrightarrow> b = out"
| "h_chain b (e # es) out \<longleftrightarrow> H e = incH b \<and> h_chain (H e) es out"

definition h_consecutive :: "('st, 's) queue \<Rightarrow> bool" where
  "h_consecutive q \<longleftrightarrow> (\<exists>b. h_chain b (q_elements q) (q_outH q))"

lemma h_chain_snoc: "h_chain b (es @ [e]) out \<longleftrightarrow> (\<exists>m. h_chain b es m \<and> H e = incH m \<and> H e = out)"
  by (induction es arbitrary: b) auto

lemma h_chain_drop: "h_chain b es out \<Longrightarrow> \<exists>b'. h_chain b' (drop k es) out"
proof (induction es arbitrary: b k)
  case (Cons e es)
  then show ?case by (cases k) auto
qed auto

lemma h_consecutive_new [simp]: "h_consecutive (newQueue stm nc [] i out d d')"
  by (simp add: h_consecutive_def q_frame)

lemma h_consecutive_cong:
  "q_elements q' = q_elements q \<Longrightarrow> q_outH q' = q_outH q \<Longrightarrow> h_consecutive q' = h_consecutive q"
  by (simp add: h_consecutive_def)

lemma h_consecutive_out: "h_consecutive q \<Longrightarrow> h_consecutive (HandleOut s q)"
  by (auto simp: h_consecutive_def HandleOut_def Let_def h_chain_snoc)

lemma h_consecutive_ack: "h_consecutive q \<Longrightarrow> h_consecutive (Acknowledge h q)"
  using unacked_suffix [of h "q_elements q"] h_chain_drop
  by (metis Acknowledge_elements Acknowledge_frame(1) h_consecutive_def)

lemma h_consecutive_step: "h_consecutive q \<Longrightarrow> h_consecutive (q_step q x)"
proof (cases x)
  case (OpOut s)
  assume "h_consecutive q"
  with OpOut show ?thesis by (simp add: h_consecutive_out)
next
  case (OpAck h)
  assume "h_consecutive q"
  with OpAck show ?thesis by (simp add: h_consecutive_ack)
qed (simp_all add: h_consecutive_def q_frame)

section \<open>The specification of acknowledgements\<close>

text \<open>
  The abstract state of a resumable stream: every stanza put on the queue, in order, and
  how many of them the peer has acknowledged.
\<close>

record 's ack_spec =
  sent :: "'s list"
  acked :: nat

definition spec_init :: "'s ack_spec" where
  "spec_init = \<lparr>sent = [], acked = 0\<rparr>"

definition spec_pending :: "'s ack_spec \<Rightarrow> 's list" where
  "spec_pending a = drop (acked a) (sent a)"

definition spec_out :: "'s \<Rightarrow> 's ack_spec \<Rightarrow> 's ack_spec" where
  "spec_out s a = (if s \<in> set (spec_pending a) then a else a\<lparr>sent := sent a @ [s]\<rparr>)"

definition spec_ack :: "nat \<Rightarrow> 's ack_spec \<Rightarrow> 's ack_spec" where
  "spec_ack h a = a\<lparr>acked := max (acked a) (min h (length (sent a)))\<rparr>"

fun spec_step :: "'s ack_spec \<Rightarrow> 's q_op \<Rightarrow> 's ack_spec" where
  "spec_step a (OpOut s) = spec_out s a"
| "spec_step a (OpAck h) = spec_ack (unat h) a"
| "spec_step a _ = a"

fun spec_run :: "'s ack_spec \<Rightarrow> 's q_op list \<Rightarrow> 's ack_spec" where
  "spec_run a [] = a"
| "spec_run a (x # xs) = spec_run (spec_step a x) xs"

definition out_elements :: "'s list \<Rightarrow> nat \<Rightarrow> 's qelement list" where
  "out_elements ss n = map (\<lambda>i. \<lparr>Stanza = ss ! i, H = of_nat (Suc i)\<rparr>) [n..<length ss]"

definition refines :: "('st, 's) queue \<Rightarrow> 's ack_spec \<Rightarrow> bool" where
  "refines q a \<longleftrightarrow>
     acked a \<le> length (sent a) \<and> length (sent a) \<le> 4294967294 \<and>
     q_outH q = of_nat (length (sent a)) \<and> q_elements q = out_elements (sent a) (acked a)"

lemma refines_new: "refines (newQueue stm nc [] i 0 d d') spec_init"
  by (simp add: refines_def spec_init_def out_elements_def q_frame)

lemma refines_cong:
  "q_elements q' = q_elements q \<Longrightarrow> q_outH q' = q_outH q \<Longrightarrow> refines q' a = refines q a"
  by (simp add: refines_def)

lemma stanzas_out_elements: "map Stanza (out_elements ss n) = drop n ss"
  by (rule nth_equalityI) (simp_all add: out_elements_def)

lemma refines_pending: "refines q a \<Longrightarrow> map Stanza (q_elements q) = spec_pending a"
  by (simp add: refines_def stanzas_out_elements spec_pending_def)

lemma unat_h: "Suc i \<le> 4294967294 \<Longrightarrow> unat (of_nat (Suc i) :: u32) = Suc i"
  by (simp only: unat_of_nat take_bit_eq_mod) simp

lemma incH_of_nat: "n < 4294967294 \<Longrightarrow> incH (of_nat n) = of_nat (Suc n)"
proof -
  assume n: "n < 4294967294"
  have "(of_nat n :: u32) \<noteq> 4294967294"
  proof
    assume "(of_nat n :: u32) = 4294967294"
    then have "unat (of_nat n :: u32) = unat (4294967294 :: u32)" by simp
    with n show False by (simp add: unat_of_nat take_bit_eq_mod)
  qed
  then show ?thesis by (simp add: incH_def)
qed

lemma out_elements_snoc:
  "n \<le> length ss \<Longrightarrow>
   out_elements (ss @ [s]) n = out_elements ss n @ [\<lparr>Stanza = s, H = of_nat (Suc (length ss))\<rparr>]"
  by (simp add: out_elements_def nth_append)

lemma refines_out:
  assumes r: "refines q a" and "length (sent a) < 4294967294"
  shows "refines (HandleOut s q) (spec_out s a)"
proof -
  have iff: "(\<exists>el \<in> set (q_elements q). Stanza el = s) \<longleftrightarrow> s \<in> set (spec_pending a)"
    unfolding refines_pending [OF r, symmetric] by auto
  show ?thesis
  proof (cases "s \<in> set (spec_pending a)")
    case True
    with r iff show ?thesis by (simp add: HandleOut_def spec_out_def)
  next
    case False
    with r assms(2) iff show ?thesis
      by (simp add: HandleOut_def Let_def spec_out_def refines_def incH_of_nat out_elements_snoc)
  qed
qed

lemma filter_upt_ge:
  assumes "n \<le> k"
  shows "filter (\<lambda>i. m \<le> i) [n..<k] = [max n (min m k)..<k]"
proof -
  have "filter (\<lambda>i. m \<le> i) [n..<k] = [max n m..<k]"
    by (induction k) (auto simp: max_def)
  moreover have "[max n m..<k] = [max n (min m k)..<k]"
    using assms by (auto simp: max_def min_def)
  ultimately show ?thesis by simp
qed

lemma unacked_out_elements:
  assumes "n \<le> length ss" and len: "length ss \<le> 4294967294"
  shows "unacked h (out_elements ss n) = out_elements ss (max n (min (unat h) (length ss)))"
proof -
  have un: "unat (of_nat (Suc i) :: u32) = Suc i" if "i \<in> set [n..<length ss]" for i
    using that len by (simp del: of_nat_Suc add: unat_h)
  have "sorted_wrt (\<lambda>a b. H a \<le> H b) (out_elements ss n)"
    using un by (auto simp del: of_nat_Suc
        simp: out_elements_def sorted_wrt_map word_le_nat_alt sorted_wrt_iff_nth_less)
  then have "unacked h (out_elements ss n) = filter (\<lambda>e. h < H e) (out_elements ss n)"
    by (rule unacked_filter)
  also have "\<dots> = map (\<lambda>i. \<lparr>Stanza = ss ! i, H = of_nat (Suc i)\<rparr>)
      (filter (\<lambda>i. unat h \<le> i) [n..<length ss])"
    unfolding out_elements_def filter_map
    by (rule arg_cong [of _ _ "map _"], rule filter_cong)
      (auto simp del: of_nat_Suc simp: word_less_nat_alt un)
  also have "\<dots> = out_elements ss (max n (min (unat h) (length ss)))"
    using assms(1) by (simp add: filter_upt_ge out_elements_def)
  finally show ?thesis .
qed

lemma refines_ack: "refines q a \<Longrightarrow> refines (Acknowledge h q) (spec_ack (unat h) a)"
  by (simp add: refines_def spec_ack_def Acknowledge_elements unacked_out_elements q_frame)

lemma refines_step:
  assumes "refines q a" and "length (sent a) < 4294967294"
  shows "refines (q_step q x) (spec_step a x)"
  using assms refines_cong
  by (cases x) (auto simp: refines_out refines_ack q_frame intro: refines_cong [THEN iffD2])

lemma length_sent_step: "length (sent (spec_step a x)) \<le> Suc (length (sent a))"
  by (cases x) (simp_all add: spec_out_def spec_ack_def)

lemma refines_run:
  assumes "refines q a" and "length (sent a) + length xs \<le> 4294967294"
  shows "refines (q_run q xs) (spec_run a xs)"
  using assms
proof (induction xs arbitrary: q a)
  case (Cons x xs)
  from Cons.prems have "refines (q_step q x) (spec_step a x)"
    by (intro refines_step) simp_all
  moreover have "length (sent (spec_step a x)) + length xs \<le> 4294967294"
    using Cons.prems(2) length_sent_step [of a x] by simp
  ultimately show ?case using Cons.IH by simp
qed simp

section \<open>Timers\<close>

text \<open>
  Timer handles are fresh, and the only running timer that requests an acknowledgement is
  the one the queue remembers.
\<close>

definition timers_ok :: "('st, 's) queue \<Rightarrow> bool" where
  "timers_ok q \<longleftrightarrow>
     distinct (map tm_id (q_live q)) \<and> (\<forall>t \<in> set (q_live q). tm_id t < q_nextTm q) \<and>
     (\<forall>t \<in> set (q_live q). tm_cb t = RequestAckCb \<longrightarrow> tm_id t = q_rTm q) \<and>
     q_rTm q < q_nextTm q \<and> (\<forall>i. q_discTm q = Some i \<longrightarrow> i < q_nextTm q)"

text \<open>The running timers that will disconnect the stream.\<close>

definition disc_timers :: "('st, 's) queue \<Rightarrow> timer list" where
  "disc_timers q = filter (\<lambda>t. tm_cb t = DisconnectCb) (q_live q)"

lemma timers_ok_new: "timers_ok (newQueue stm nc els i out d d')"
  by (simp add: timers_ok_def newQueue_def after_func_def)

lemma timers_ok_cong:
  assumes "q_live q' = q_live q" "q_rTm q' = q_rTm q" "q_discTm q' = q_discTm q"
    "q_nextTm q' = q_nextTm q"
  shows "timers_ok q' = timers_ok q"
  using assms by (simp add: timers_ok_def)

lemma timers_ok_stop: "timers_ok q \<Longrightarrow> timers_ok (stop_timer i q)"
  by (auto simp: timers_ok_def stop_timer_def distinct_map_filter)

lemma timers_ok_stop_opt: "timers_ok q \<Longrightarrow> timers_ok (stop_opt t q)"
  by (simp add: stop_opt_def timers_ok_stop split: option.split)

lemma timers_ok_setRTimer: "timers_ok q \<Longrightarrow> timers_ok (setRTimer q)"
  by (auto simp: timers_ok_def setRTimer_def after_func_def stop_timer_def distinct_map_filter)

lemma timers_ok_RequestAck: "timers_ok q \<Longrightarrow> timers_ok (fst (RequestAck q))"
  by (auto simp: timers_ok_def RequestAck_def after_func_def)

lemma timers_ok_fire: "timers_ok q \<Longrightarrow> timers_ok (fst (fire i q))"
  by (simp add: fire_def Let_def timers_ok_RequestAck timers_ok_stop
      split: option.split timer_cb.split)

lemma timers_ok_HandleIn: "timers_ok q \<Longrightarrow> timers_ok (HandleIn q)"
  using timers_ok_setRTimer [of q] by (simp add: HandleIn_def Let_def timers_ok_def)

lemma timers_ok_HandleOut: "timers_ok q \<Longrightarrow> timers_ok (HandleOut s q)"
  by (simp add: HandleOut_def Let_def timers_ok_def)

lemma timers_ok_Acknowledge: "timers_ok q \<Longrightarrow> timers_ok (Acknowledge h q)"
proof -
  assume "timers_ok q"
  then have q1: "timers_ok (stop_opt (q_discTm q) q)" by (rule timers_ok_stop_opt)
  then have "timers_ok (stop_opt (q_discTm q) q\<lparr>q_elements := es\<rparr>)" for es
    by (simp add: timers_ok_def)
  with q1 show ?thesis
    by (auto simp: Acknowledge_def Let_def split: option.split intro: timers_ok_setRTimer)
qed

lemmas timers_ok_ops =
  timers_ok_HandleIn timers_ok_HandleOut timers_ok_Acknowledge timers_ok_RequestAck
  timers_ok_fire timers_ok_stop timers_ok_stop_opt timers_ok_setRTimer

lemma timers_ok_step: "timers_ok q \<Longrightarrow> timers_ok (q_step q x)"
  by (cases x) (simp_all add: timers_ok_ops ScheduleR_def CancelTimers_def)

lemma timers_ok_run: "timers_ok q \<Longrightarrow> timers_ok (q_run q xs)"
  by (induction xs arbitrary: q) (simp_all add: timers_ok_step)

lemma distinct_filter_key_le_1:
  "distinct (map f xs) \<Longrightarrow> \<forall>x \<in> set xs. P x \<longrightarrow> f x = k \<Longrightarrow> length (filter P xs) \<le> 1"
proof (induction xs)
  case (Cons x xs)
  show ?case
  proof (cases "P x")
    case True
    with Cons.prems have "\<forall>y \<in> set xs. \<not> P y" by (auto simp: image_iff)
    then have "filter P xs = []" by (simp add: filter_empty_conv)
    with True show ?thesis by simp
  next
    case False
    with Cons show ?thesis by simp
  qed
qed simp

lemma disc_timers_setRTimer:
  assumes "timers_ok q"
  shows "set (disc_timers (setRTimer q)) = {t \<in> set (disc_timers q). tm_id t \<noteq> q_rTm q}"
  by (auto simp: disc_timers_def setRTimer_def after_func_def stop_timer_def)

lemma disc_timers_Acknowledge:
  "set (disc_timers (Acknowledge h q)) =
     {t \<in> set (disc_timers q). Some (tm_id t) \<noteq> q_discTm q \<and> tm_id t \<noteq> q_rTm q}"
  by (auto simp: disc_timers_def Acknowledge_def Let_def setRTimer_def after_func_def
      stop_timer_def stop_opt_def split: option.splits)

lemma fire_disc:
  assumes "timers_ok q" and "t \<in> set (disc_timers q)"
  shows "snd (fire (tm_id t) q) = [DisconnectTimeout (q_stm q)]"
proof -
  from assms have "find_first (\<lambda>u. tm_id u = tm_id t) (q_live q) = Some t"
    by (intro find_first_key) (auto simp: timers_ok_def disc_timers_def)
  with assms(2) show ?thesis by (simp add: fire_def disc_timers_def q_frame)
qed

section \<open>The interface of the queue\<close>

text \<open>
  What the stream management module relies on: an outgoing stanza is appended unless it is
  already pending, an acknowledgement removes a prefix, and nothing else changes what is
  pending.
\<close>

locale ack_queue =
  fixes out :: "'s \<Rightarrow> 'q \<Rightarrow> 'q" and ack :: "u32 \<Rightarrow> 'q \<Rightarrow> 'q" and pending :: "'q \<Rightarrow> 's list"
  assumes pending_out:
      "pending (out s q) = (if s \<in> set (pending q) then pending q else pending q @ [s])"
    and pending_ack: "\<exists>k. pending (ack h q) = drop k (pending q)"
begin

lemma resend_all: "set ss \<subseteq> set (pending q) \<Longrightarrow> pending (fold out ss q) = pending q"
proof (induction ss arbitrary: q)
  case (Cons s ss)
  then have "pending (out s q) = pending q" by (simp add: pending_out)
  moreover from this Cons have "pending (fold out ss (out s q)) = pending (out s q)" by simp
  ultimately show ?case by simp
qed simp

lemma distinct_out: "distinct (pending q) \<Longrightarrow> distinct (pending (out s q))"
  by (simp add: pending_out)

lemma distinct_ack: "distinct (pending q) \<Longrightarrow> distinct (pending (ack h q))"
  using pending_ack [of h q] by (metis distinct_drop)

lemma fold_out_fresh:
  "distinct ss \<Longrightarrow> set ss \<inter> set (pending q) = {} \<Longrightarrow> pending (fold out ss q) = pending q @ ss"
proof (induction ss arbitrary: q)
  case (Cons s ss)
  then have "pending (out s q) = pending q @ [s]" by (auto simp: pending_out)
  with Cons show ?case by auto
qed simp

end

interpretation sq: ack_queue HandleOut Acknowledge "\<lambda>q. map Stanza (q_elements q)"
proof
  fix s and q :: "('st, 's) queue"
  show "map Stanza (q_elements (HandleOut s q)) =
    (if s \<in> set (map Stanza (q_elements q)) then map Stanza (q_elements q)
     else map Stanza (q_elements q) @ [s])"
    by (auto simp: HandleOut_def Let_def)
next
  fix h and q :: "('st, 's) queue"
  show "\<exists>k. map Stanza (q_elements (Acknowledge h q)) = drop k (map Stanza (q_elements q))"
    using unacked_suffix [of h "q_elements q"] by (auto simp: Acknowledge_elements drop_map)
qed

section \<open>Properties\<close>

text \<open>
  C21. The queue implements the counting specification of XEP-0198: after any sequence of
  operations on a fresh queue (shorter than the h counter's cycle), the pending stanzas are
  the stanzas sent so far without the acknowledged prefix, in order, and the outbound h
  value is the number of stanzas sent.
\<close>

theorem queue_refines_spec:
  assumes "length xs \<le> 4294967294"
  shows "map Stanza (q_elements (q_run (newQueue stm nc [] i 0 d d') xs)) =
           spec_pending (spec_run spec_init xs)
         \<and> q_outH (q_run (newQueue stm nc [] i 0 d d') xs) =
           of_nat (length (sent (spec_run spec_init xs)))"
proof -
  have "refines (q_run (newQueue stm nc [] i 0 d d') xs) (spec_run spec_init xs)"
    using assms by (intro refines_run refines_new) (simp add: spec_init_def)
  then show ?thesis by (simp add: refines_pending) (simp add: refines_def)
qed

theorem queue_refines_spec_witness:
  "map Stanza (q_elements (q_run (newQueue () [] [] 0 0 60 30)
     [OpOut (10::nat), OpOut 11, OpIn, OpAck 1, OpOut 12])) = [11, 12]"
  using queue_refines_spec [of "[OpOut (10::nat), OpOut 11, OpIn, OpAck 1, OpOut 12]" "()" "[]" 0 60 30]
  by (simp add: spec_init_def spec_out_def spec_ack_def spec_pending_def)

text \<open>
  Whatever happens to a queue whose timer handles are in order (as those of a new queue
  are), they stay in order and at most one timer that requests an acknowledgement is
  running.
\<close>

theorem one_request_timer:
  assumes "timers_ok q"
  shows "timers_ok (q_run q xs) \<and>
    length (filter (\<lambda>t. tm_cb t = RequestAckCb) (q_live (q_run q xs))) \<le> 1"
proof -
  from assms have ok: "timers_ok (q_run q xs)" by (rule timers_ok_run)
  then show ?thesis
    using distinct_filter_key_le_1
      [of tm_id "q_live (q_run q xs)" "\<lambda>t. tm_cb t = RequestAckCb" "q_rTm (q_run q xs)"]
    by (simp add: timers_ok_def)
qed

theorem one_request_timer_witness:
  "length (filter (\<lambda>t. tm_cb t = RequestAckCb)
     (q_live (q_run (newQueue () [] [] 0 0 60 30) [OpIn, OpIn, OpAck 3 :: nat q_op]))) \<le> 1"
  using one_request_timer [OF timers_ok_new, of "()" "[]" "[]" 0 0 60 30 "[OpIn, OpIn, OpAck 3 :: nat q_op]"]
  by simp

text \<open>
  Consecutive h values: whatever happens to a queue whose pending elements carry
  consecutive h values ending in the outbound h, they still do; in particular an element
  keeps the h value it was given while it is pending.
\<close>

theorem h_consecutive_run:
  assumes "h_consecutive q"
  shows "h_consecutive (q_run q xs)"
  using assms by (induction xs arbitrary: q) (simp_all add: h_consecutive_step)

theorem h_consecutive_run_witness:
  "h_consecutive (q_run (newQueue () [] [] 0 4294967293 60 30) [OpOut (1::nat), OpOut 2, OpOut 3])"
  by (rule h_consecutive_run) simp

text \<open>
  A disconnection timer is lost when an acknowledgement is requested twice: the second
  request overwrites the only handle, so that the acknowledgement that follows stops the
  second timer and the first one keeps running, and will disconnect the stream although
  the peer has answered.
\<close>

theorem request_twice_leaks_timer:
  assumes ok: "timers_ok q"
  shows "\<exists>t \<in> set (disc_timers (Acknowledge h (fst (RequestAck (fst (RequestAck q)))))).
    tm_id t = q_nextTm q \<and>
    snd (fire (tm_id t) (Acknowledge h (fst (RequestAck (fst (RequestAck q)))))) =
      [DisconnectTimeout (q_stm q)]"
proof -
  let ?q2 = "fst (RequestAck (fst (RequestAck q)))"
  let ?a = "Acknowledge h ?q2"
  let ?t = "\<lparr>tm_id = q_nextTm q, tm_cb = DisconnectCb, tm_after = q_waitForAckTimeout q\<rparr>"
  have "?t \<in> set (disc_timers ?q2)"
    by (simp add: disc_timers_def RequestAck_def after_func_def)
  moreover have "q_discTm ?q2 = Some (Suc (q_nextTm q))" and "q_rTm ?q2 = q_rTm q"
    by (simp_all add: RequestAck_def after_func_def)
  ultimately have t: "?t \<in> set (disc_timers ?a)"
    using ok by (simp add: disc_timers_Acknowledge timers_ok_def)
  have "timers_ok ?a" by (intro timers_ok_ops ok)
  from fire_disc [OF this t] have "snd (fire (q_nextTm q) ?a) = [DisconnectTimeout (q_stm q)]"
    by (simp add: q_frame)
  with t show ?thesis by (intro bexI [of _ ?t]) simp_all
qed

theorem request_twice_leaks_timer_witness:
  "\<exists>t \<in> set (disc_timers (Acknowledge 7
      (fst (RequestAck (fst (RequestAck (newQueue () [] ([] :: nat qelement list) 0 7 60 30))))))).
    tm_cb t = DisconnectCb"
  using request_twice_leaks_timer [OF timers_ok_new, of 7 "()" "[]" "[] :: nat qelement list" 0 7 60 30]
  by (auto simp: disc_timers_def)

text \<open>
  With at most one acknowledgement request outstanding the timers do what they should:
  an acknowledgement stops the disconnection, and cancelling leaves no timer running.
\<close>

theorem timers_stopped:
  assumes "timers_ok q" and "\<forall>t \<in> set (disc_timers q). q_discTm q = Some (tm_id t)"
  shows "disc_timers (Acknowledge h q) = [] \<and> q_live (CancelTimers q) = []"
proof
  have "set (disc_timers (Acknowledge h q)) = {}"
    using assms(2) by (auto simp: disc_timers_Acknowledge)
  then show "disc_timers (Acknowledge h q) = []" by simp
  have "tm_id t = q_rTm q \<or> q_discTm q = Some (tm_id t)" if "t \<in> set (q_live q)" for t
    using that assms by (cases "tm_cb t") (auto simp: timers_ok_def disc_timers_def)
  then show "q_live (CancelTimers q) = []"
    by (cases "q_discTm q")
      (force simp: CancelTimers_def stop_timer_def stop_opt_def filter_empty_conv)+
qed

theorem timers_stopped_witness:
  "q_live (CancelTimers (fst (RequestAck (newQueue () [] ([] :: nat qelement list) 0 0 60 30)))) = []"
  using timers_stopped [of "fst (RequestAck (newQueue () [] ([] :: nat qelement list) 0 0 60 30))"]
    timers_ok_RequestAck [OF timers_ok_new, of "()" "[]" "[] :: nat qelement list" 0 0 60 30]
  by (simp add: disc_timers_def RequestAck_def newQueue_def after_func_def)

subsection \<open>The cycle of the h counter\<close>

text \<open>
  \<open>incH\<close> skips the value \<open>2\<^sup>3\<^sup>2 - 1\<close>, so its cycle is one shorter than that of the counter
  XEP-0198 defines; and once the counter has wrapped, an acknowledgement of the element
  before the wrap also discards the elements after it.
\<close>

lemma incH_skips_max: "incH h \<noteq> 4294967295"
  by (auto simp: incH_def eq_diff_eq [symmetric])

lemma ack_before_wrap_discards_all:
  "map H (q_elements (q_run (newQueue () [] [] 0 4294967293 60 30)
      [OpOut (1::nat), OpOut 2, OpOut 3])) = [4294967294, 0, 1]
   \<and> q_elements (q_run (newQueue () [] [] 0 4294967293 60 30)
      [OpOut (1::nat), OpOut 2, OpOut 3, OpAck 4294967294]) = []"
  by (simp add: Acknowledge_elements unacked_def HandleOut_def Let_def newQueue_def after_func_def incH_def)

end
