(* ===== verification/Xmpp.thy ===== *)
theory Xmpp
  imports Prelude
begin

text \<open>
  XMPP data: addresses, elements and what the components know of a client resource.
  \<^item> Elements and addresses come from the \<^verbatim>\<open>stravaganza\<close> package, which is not part of the
    repository. \<open>element\<close> is what its builders are given (\<^verbatim>\<open>NewBuilder\<close>, \<^verbatim>\<open>WithAttribute\<close>,
    \<^verbatim>\<open>WithText\<close>, \<^verbatim>\<open>WithChild\<close>), \<open>jid\<close> the three parts its accessors return. The functions of
    the package are the fields of \<open>xlib\<close>; every definition that uses them takes them as
    its first argument \<open>X\<close>. A message, presence or iq is an element that the package
    classifies as such (\<open>StanzaKind\<close>, Go's dynamic type). Building a stanza from addresses
    that the server already holds is taken to succeed.
  \<^item> \<^verbatim>\<open>src/pkg/util/xmpp/xmpp.go\<close>: the stanza constructors.
  \<^item> \<^verbatim>\<open>src/pkg/model/c2s/model.go\<close>: the info set of a stream and the resource description.
  \<open>std_lib\<close> is a concrete instance of the package's functions for evaluating examples.
\<close>

section \<open>Addresses and elements\<close>

record jid =
  Node :: string
  Domain :: string
  Resource :: string

datatype element =
  Element (Name: string) (Attrs: "(string \<times> string) list") (Text: string)
    (AllChildren: "element list")

datatype stanza_kind = IQKind | PresenceKind | MessageKind | NotStanza

text \<open>The stream errors of the package: the reasons the repository names.\<close>

datatype stream_reason =
    InvalidXML | InvalidNamespace | HostUnknown | Conflict | InvalidFrom | PolicyViolation
  | RemoteConnectionFailed | ConnectionTimeout | UnsupportedStanzaType | UnsupportedVersion
  | NotAuthorized | ResourceConstraint | SystemShutdown | UndefinedCondition | InternalServerError

record stream_error =
  seReason :: stream_reason
  seLang :: string
  seText :: string
  seApplicationElement :: "element option"

definition stream_E :: "stream_reason \<Rightarrow> stream_error" where
  "stream_E reason = \<lparr>seReason = reason, seLang = [], seText = [], seApplicationElement = None\<rparr>"

record xlib =
  Attribute :: "element \<Rightarrow> string \<Rightarrow> string"
  WithAttribute :: "element \<Rightarrow> string \<Rightarrow> string \<Rightarrow> element"
  Child :: "element \<Rightarrow> string \<Rightarrow> element option"
  ChildNamespace :: "element \<Rightarrow> string \<Rightarrow> string \<Rightarrow> element option"
  Children :: "element \<Rightarrow> string \<Rightarrow> element list"
  StanzaKind :: "element \<Rightarrow> stanza_kind"
  FromJID :: "element \<Rightarrow> jid"
  ToJID :: "element \<Rightarrow> jid"
  IsGet :: "element \<Rightarrow> bool"
  IsSet :: "element \<Rightarrow> bool"
  IsResult :: "element \<Rightarrow> bool"
  IsError :: "element \<Rightarrow> bool"
  IsAvailable :: "element \<Rightarrow> bool"
  IsUnavailable :: "element \<Rightarrow> bool"
  Priority :: "element \<Rightarrow> int"
  ResultBuilder :: "element \<Rightarrow> element"
  ErrorStanza :: "string \<Rightarrow> element \<Rightarrow> element"
  StreamErrorElement :: "stream_error \<Rightarrow> element"
  NewJID :: "string \<Rightarrow> string \<Rightarrow> string \<Rightarrow> bool \<Rightarrow> jid option"
  NewJIDWithString :: "string \<Rightarrow> bool \<Rightarrow> jid option"
  JIDString :: "jid \<Rightarrow> string"
  ToBareJID :: "jid \<Rightarrow> jid"
  IsServer :: "jid \<Rightarrow> bool"
  IsBare :: "jid \<Rightarrow> bool"
  IsFull :: "jid \<Rightarrow> bool"
  IsFullWithUser :: "jid \<Rightarrow> bool"
  MatchesBare :: "jid \<Rightarrow> jid \<Rightarrow> bool"
  IsFullWithServer :: "jid \<Rightarrow> bool"
  MatchesDomain :: "jid \<Rightarrow> jid \<Rightarrow> bool"
  JIDMatches :: "jid \<Rightarrow> jid \<Rightarrow> bool"
  IsNormal :: "element \<Rightarrow> bool"
  IsChat :: "element \<Rightarrow> bool"
  IsMessageWithBody :: "element \<Rightarrow> bool"
  ErrorStanzaWith :: "string \<Rightarrow> element \<Rightarrow> string \<Rightarrow> element \<Rightarrow> element"

definition with_child :: "element \<Rightarrow> element \<Rightarrow> element" where
  "with_child e c = Element (Name e) (Attrs e) (Text e) (AllChildren e @ [c])"

abbreviation is_stanza :: "xlib \<Rightarrow> element \<Rightarrow> bool" where
  "is_stanza X e \<equiv> StanzaKind X e \<noteq> NotStanza"

section \<open>Stanza constructors\<close>

definition MakeResultIQ :: "xlib \<Rightarrow> element \<Rightarrow> element option \<Rightarrow> element" where
  "MakeResultIQ X iq queryChild =
     (let b = ResultBuilder X iq
      in case queryChild of None \<Rightarrow> b | Some q \<Rightarrow> with_child b q)"

definition MakePresence :: "xlib \<Rightarrow> jid \<Rightarrow> jid \<Rightarrow> string \<Rightarrow> element list \<Rightarrow> element" where
  "MakePresence X fromJID toJID typ children =
     Element ''presence''
       [(''from'', JIDString X fromJID), (''to'', JIDString X toJID), (''type'', typ)] []
       children"

definition MakeErrorStanza :: "xlib \<Rightarrow> element \<Rightarrow> string \<Rightarrow> element" where
  "MakeErrorStanza X stanza errReason = ErrorStanza X errReason stanza"

text \<open>\<open>stamp\<close> is the time already formatted by \<^verbatim>\<open>time.Format\<close>.\<close>

definition MakeDelayMessage :: "element \<Rightarrow> string \<Rightarrow> string \<Rightarrow> string \<Rightarrow> element" where
  "MakeDelayMessage stanza stamp from txt =
     with_child stanza
       (Element ''delay''
          [(''xmlns'', ''urn:xmpp:delay''), (''from'', from), (''stamp'', stamp)] txt [])"

definition MakeStanzaIDMessage :: "element \<Rightarrow> string \<Rightarrow> string \<Rightarrow> element" where
  "MakeStanzaIDMessage originalMsg stanzaID by_jid =
     with_child originalMsg
       (Element ''stanza-id''
          [(''xmlns'', ''urn:xmpp:sid:0''), (''by'', by_jid), (''id'', stanzaID)] [] [])"

definition MessageStanzaID :: "xlib \<Rightarrow> element \<Rightarrow> string" where
  "MessageStanzaID X msg =
     (case ChildNamespace X msg ''stanza-id'' ''urn:xmpp:sid:0'' of
        None \<Rightarrow> []
      | Some sidElem \<Rightarrow> Attribute X sidElem ''id'')"

definition MakeForwardedStanza :: "xlib \<Rightarrow> element \<Rightarrow> string option \<Rightarrow> element" where
  "MakeForwardedStanza X stanza stamp =
     (let b = Element ''forwarded'' [(''xmlns'', ''urn:xmpp:forward:0'')] []
                [WithAttribute X stanza ''xmlns'' ''jabber:client'']
      in case stamp of
           None \<Rightarrow> b
         | Some t \<Rightarrow> with_child b
             (Element ''delay'' [(''xmlns'', ''urn:xmpp:delay''), (''stamp'', t)] [] []))"

section \<open>The info set of a stream\<close>

type_synonym info_map = "string \<rightharpoonup> string"

definition NewInfoMap :: info_map where
  "NewInfoMap = Map.empty"

text \<open>Reading a missing key of a Go map gives the zero value.\<close>

definition infoString :: "info_map \<Rightarrow> string \<Rightarrow> string" where
  "infoString im k = (case im k of None \<Rightarrow> [] | Some v \<Rightarrow> v)"

text \<open>\<^verbatim>\<open>strconv.ParseBool\<close>: \<open>None\<close> is a syntax error.\<close>

definition parse_bool :: "string \<Rightarrow> bool option" where
  "parse_bool s =
     (if s \<in> {''1'', ''t'', ''T'', ''true'', ''TRUE'', ''True''} then Some True
      else if s \<in> {''0'', ''f'', ''F'', ''false'', ''FALSE'', ''False''} then Some False
      else None)"

definition infoBool :: "info_map \<Rightarrow> string \<Rightarrow> bool" where
  "infoBool im k = (case parse_bool (infoString im k) of None \<Rightarrow> False | Some v \<Rightarrow> v)"

definition infoInt :: "info_map \<Rightarrow> string \<Rightarrow> int" where
  "infoInt im k = fst (parse_int (infoString im k))"

definition SetString :: "string \<Rightarrow> string \<Rightarrow> info_map \<Rightarrow> info_map" where
  "SetString k v im = im(k \<mapsto> v)"

definition SetBool :: "string \<Rightarrow> bool \<Rightarrow> info_map \<Rightarrow> info_map" where
  "SetBool k v im = im(k \<mapsto> (if v then ''true'' else ''false''))"

definition SetInt :: "string \<Rightarrow> int \<Rightarrow> info_map \<Rightarrow> info_map" where
  "SetInt k v im = im(k \<mapsto> itoa v)"

definition NewInfoMapFromMap :: "info_map \<Rightarrow> info_map" where
  "NewInfoMapFromMap m = (\<lambda>k. m k)"

section \<open>Resource descriptions\<close>

record resource_desc =
  InstanceID :: string
  rJID :: jid
  rPresence :: "element option"
  rInfo :: info_map

definition NewResourceDesc :: "string \<Rightarrow> jid \<Rightarrow> element option \<Rightarrow> info_map \<Rightarrow> resource_desc" where
  "NewResourceDesc instanceID jd pr info =
     \<lparr>InstanceID = instanceID, rJID = jd, rPresence = pr, rInfo = info\<rparr>"

definition rIsAvailable :: "xlib \<Rightarrow> resource_desc \<Rightarrow> bool" where
  "rIsAvailable X r = (case rPresence r of None \<Rightarrow> False | Some p \<Rightarrow> IsAvailable X p)"

definition rPriority :: "xlib \<Rightarrow> resource_desc \<Rightarrow> int" where
  "rPriority X r = (case rPresence r of None \<Rightarrow> 0 | Some p \<Rightarrow> Priority X p)"

section \<open>A concrete library\<close>

text \<open>
  An instance of the package's functions with the documented behaviour on well-formed
  input, used only to evaluate examples.
\<close>

definition std_attr :: "element \<Rightarrow> string \<Rightarrow> string" where
  "std_attr e k = (case map_of (Attrs e) k of None \<Rightarrow> [] | Some v \<Rightarrow> v)"

definition std_jid_string :: "jid \<Rightarrow> string" where
  "std_jid_string j =
     (if Node j = [] then [] else Node j @ ''@'') @ Domain j @
     (if Resource j = [] then [] else CHR ''/'' # Resource j)"

definition std_parse_jid :: "string \<Rightarrow> jid option" where
  "std_parse_jid s =
     (let (l, r) = (case split_on (CHR ''/'') s of [a, b] \<Rightarrow> (a, b) | _ \<Rightarrow> (s, []));
          (n, d) = (case split_on (CHR ''@'') l of [a, b] \<Rightarrow> (a, b) | _ \<Rightarrow> ([], l))
      in Some \<lparr>Node = n, Domain = d, Resource = r\<rparr>)"

definition std_jid_of :: "string \<Rightarrow> jid" where
  "std_jid_of s = (case std_parse_jid s of None \<Rightarrow> \<lparr>Node = [], Domain = [], Resource = []\<rparr> | Some j \<Rightarrow> j)"

definition std_lib :: xlib where
  "std_lib = \<lparr>
     Attribute = std_attr,
     WithAttribute = (\<lambda>e k v. Element (Name e) ((k, v) # filter (\<lambda>a. fst a \<noteq> k) (Attrs e)) (Text e) (AllChildren e)),
     Child = (\<lambda>e n. find_first (\<lambda>c. Name c = n) (AllChildren e)),
     ChildNamespace = (\<lambda>e n ns. find_first (\<lambda>c. Name c = n \<and> std_attr c ''xmlns'' = ns) (AllChildren e)),
     Children = (\<lambda>e n. filter (\<lambda>c. Name c = n) (AllChildren e)),
     StanzaKind = (\<lambda>e. if Name e = ''iq'' then IQKind else if Name e = ''presence'' then PresenceKind
                      else if Name e = ''message'' then MessageKind else NotStanza),
     FromJID = (\<lambda>e. std_jid_of (std_attr e ''from'')),
     ToJID = (\<lambda>e. std_jid_of (std_attr e ''to'')),
     IsGet = (\<lambda>e. std_attr e ''type'' = ''get''),
     IsSet = (\<lambda>e. std_attr e ''type'' = ''set''),
     IsResult = (\<lambda>e. std_attr e ''type'' = ''result''),
     IsError = (\<lambda>e. std_attr e ''type'' = ''error''),
     IsAvailable = (\<lambda>e. std_attr e ''type'' = ''''),
     IsUnavailable = (\<lambda>e. std_attr e ''type'' = ''unavailable''),
     Priority = (\<lambda>e. case find_first (\<lambda>c. Name c = ''priority'') (AllChildren e) of
                      None \<Rightarrow> 0 | Some c \<Rightarrow> fst (parse_int (Text c))),
     ResultBuilder = (\<lambda>e. Element ''iq'' [(''id'', std_attr e ''id''), (''type'', ''result''),
                        (''from'', std_attr e ''to''), (''to'', std_attr e ''from'')] [] []),
     ErrorStanza = (\<lambda>r e. Element (Name e) [(''id'', std_attr e ''id''), (''type'', ''error''),
                        (''from'', std_attr e ''to''), (''to'', std_attr e ''from'')] []
                        [Element ''error'' [] [] [Element r [] [] []]]),
     StreamErrorElement = (\<lambda>se. Element ''stream:error'' [] (seText se)
                        (case seApplicationElement se of None \<Rightarrow> [] | Some a \<Rightarrow> [a])),
     NewJID = (\<lambda>n d r skip. Some \<lparr>Node = n, Domain = d, Resource = r\<rparr>),
     NewJIDWithString = (\<lambda>s skip. std_parse_jid s),
     JIDString = std_jid_string,
     ToBareJID = (\<lambda>j. j\<lparr>Resource := []\<rparr>),
     IsServer = (\<lambda>j. Node j = []),
     IsBare = (\<lambda>j. Node j \<noteq> [] \<and> Resource j = []),
     IsFull = (\<lambda>j. Resource j \<noteq> []),
     IsFullWithUser = (\<lambda>j. Node j \<noteq> [] \<and> Resource j \<noteq> []),
     MatchesBare = (\<lambda>a b. Node a = Node b \<and> Domain a = Domain b),
     IsFullWithServer = (\<lambda>j. Node j = [] \<and> Resource j \<noteq> []),
     MatchesDomain = (\<lambda>a b. Domain a = Domain b),
     JIDMatches = (\<lambda>a b. Domain a = Domain b \<and> (Node a = [] \<or> Node a = Node b) \<and>
                      (Resource a = [] \<or> Resource a = Resource b)),
     IsNormal = (\<lambda>e. std_attr e ''type'' = '''' \<or> std_attr e ''type'' = ''normal''),
     IsChat = (\<lambda>e. std_attr e ''type'' = ''chat''),
     IsMessageWithBody = (\<lambda>e. find_first (\<lambda>c. Name c = ''body'') (AllChildren e) \<noteq> None),
     ErrorStanzaWith = (\<lambda>r e txt app. Element (Name e) [(''id'', std_attr e ''id''), (''type'', ''error''),
                        (''from'', std_attr e ''to''), (''to'', std_attr e ''from'')] []
                        [Element ''error'' [] [] [Element r [] [] [], Element ''text'' [] txt [], app]])\<rparr>"

section \<open>Lemmas\<close>

lemma infoBool_SetBool [simp]: "infoBool (SetBool k v im) k' = (if k' = k then v else infoBool im k')"
  by (simp add: infoBool_def infoString_def SetBool_def parse_bool_def)

lemma infoInt_SetInt:
  assumes "- max_int64 - 1 \<le> v" "v \<le> max_int64"
  shows "infoInt (SetInt k v im) k = v"
  using parse_int_itoa [OF assms] by (simp add: infoInt_def infoString_def SetInt_def)

text \<open>
  What a component stores in the info set of a stream it reads back: strings, booleans
  and every 64-bit integer, and storing one key leaves the others alone.
\<close>

theorem info_map_roundtrip:
  assumes "- max_int64 - 1 \<le> n" and "n \<le> max_int64"
  shows "infoString (SetString k s im) k = s \<and> infoBool (SetBool k b im) k = b \<and>
    infoInt (SetInt k n im) k = n \<and>
    (k' \<noteq> k \<longrightarrow> infoString (SetInt k n im) k' = infoString im k'
      \<and> infoBool (SetBool k b im) k' = infoBool im k')"
  using assms by (simp add: infoInt_SetInt) (simp add: infoString_def SetString_def SetInt_def)

theorem info_map_roundtrip_witness:
  "infoInt (SetInt ''k'' (- 46) NewInfoMap) ''k'' = - 46"
  using info_map_roundtrip [of "- 46" "''k''" "''v''" NewInfoMap True "''l''"]
  by (simp add: max_int64_def)

end
