(* ===== verification/Hooks.thy ===== *)
theory Hooks
  imports Prelude
begin

text \<open>
  The hook registry (\<^verbatim>\<open>src/pkg/hook/hooks.go\<close>), through which the modules extend every
  other component. \<open>'w\<close> is the state the handlers act on and \<open>'i\<close> the hook's info
  value, which a handler may replace (in Go, mutate through its pointer) for the handlers
  after it and for the caller. A handler is identified by its code pointer (\<open>h_ptr\<close>), which
  is what \<^verbatim>\<open>RemoveHook\<close> compares. The lemmas show the order of the handlers and how a run
  stops.
\<close>

section \<open>Data\<close>

definition LowestPriority :: int where "LowestPriority = - 2147483648"
definition LowPriority :: int where "LowPriority = - 2147483648 + 1000"
definition DefaultPriority :: int where "DefaultPriority = 0"
definition HighPriority :: int where "HighPriority = 2147483647 - 1000"
definition HighestPriority :: int where "HighestPriority = 2147483647"

record ('w, 'i) handler =
  h_ptr :: nat
  h_fn :: "'i \<Rightarrow> ('w, 'i) go"
  h_prio :: int

type_synonym ('w, 'i) hooks = "string \<Rightarrow> ('w, 'i) handler list"

section \<open>Operations\<close>

definition NewHooks :: "('w, 'i) hooks" where
  "NewHooks = (\<lambda>_. [])"

definition AddHook ::
  "string \<Rightarrow> nat \<Rightarrow> ('i \<Rightarrow> ('w, 'i) go) \<Rightarrow> int \<Rightarrow> ('w, 'i) hooks \<Rightarrow> ('w, 'i) hooks" where
  "AddHook hook ptr hnd priority h =
     (let handlers = h hook @ [\<lparr>h_ptr = ptr, h_fn = hnd, h_prio = priority\<rparr>]
      in h(hook := sort_slice (\<lambda>a b. h_prio a > h_prio b) handlers))"

definition RemoveHook :: "string \<Rightarrow> nat \<Rightarrow> ('w, 'i) hooks \<Rightarrow> ('w, 'i) hooks" where
  "RemoveHook hook ptr h = h(hook := remove_first (\<lambda>x. h_ptr x = ptr) (h hook))"

text \<open>The loop of \<^verbatim>\<open>Run\<close>: whether a handler halted the run, and the info value at the end.\<close>

fun run_handlers :: "('w, 'i) handler list \<Rightarrow> 'i \<Rightarrow> ('w, bool \<times> 'i) go" where
  "run_handlers [] i = ret (False, i)"
| "run_handlers (h # hs) i =
     andthen (attempt (h_fn h i)) (\<lambda>r.
       case r of
         Inr i' \<Rightarrow> run_handlers hs i'
       | Inl e \<Rightarrow> if e = ErrStopped then ret (True, i) else throw e)"

definition Run :: "('w, 'i) hooks \<Rightarrow> string \<Rightarrow> 'i \<Rightarrow> ('w, bool \<times> 'i) go" where
  "Run h hook i = run_handlers (h hook) i"

section \<open>Lemmas\<close>

definition prio_sorted :: "('w, 'i) hooks \<Rightarrow> bool" where
  "prio_sorted h \<longleftrightarrow> (\<forall>hook. sorted_wrt (\<lambda>a b. h_prio a \<ge> h_prio b) (h hook))"

lemma prio_sorted_new: "prio_sorted NewHooks"
  by (simp add: prio_sorted_def NewHooks_def)

lemma prio_sorted_add: "prio_sorted h \<Longrightarrow> prio_sorted (AddHook hook ptr hnd p h)"
  by (simp add: prio_sorted_def AddHook_def Let_def sorted_sort_slice)

lemma sorted_wrt_remove_first: "sorted_wrt R xs \<Longrightarrow> sorted_wrt R (remove_first p xs)"
  by (induction xs) (auto dest: set_remove_first_subset [THEN subsetD])

lemma prio_sorted_remove: "prio_sorted h \<Longrightarrow> prio_sorted (RemoveHook hook ptr h)"
  by (simp add: prio_sorted_def RemoveHook_def sorted_wrt_remove_first)

lemma run_handlers_append:
  "run_handlers (xs @ ys) i =
     andthen (run_handlers xs i) (\<lambda>(halted, i'). if halted then ret (True, i') else run_handlers ys i')"
  by (induction xs arbitrary: i)
    (auto simp: fun_eq_iff go_run split: prod.split sum.split)

text \<open>A run keeps every predicate that all its handlers keep.\<close>

lemma keeps_run_handlers:
  assumes "\<And>h i. h \<in> set hs \<Longrightarrow> keeps P (h_fn h i)"
  shows "keeps P (run_handlers hs i)"
  using assms
proof (induction hs arbitrary: i)
  case (Cons h hs)
  have "keeps P (attempt (h_fn h i))" by (intro keeps_attempt Cons.prems) simp
  moreover have "keeps P (case r of Inr i' \<Rightarrow> run_handlers hs i'
      | Inl e \<Rightarrow> if e = ErrStopped then ret (True, i) else throw e)" for r
    using Cons by (cases r) (simp_all add: keeps_ret keeps_throw)
  ultimately show ?case by (simp only: run_handlers.simps) (rule keeps_andthen)
qed (simp add: keeps_ret)

lemma keeps_Run:
  assumes "\<And>h i. h \<in> set (hk hook) \<Longrightarrow> keeps P (h_fn h i)"
  shows "keeps P (Run hk hook i)"
  unfolding Run_def using assms by (rule keeps_run_handlers)

section \<open>Properties\<close>

text \<open>
  Adding a handler keeps the handlers of every hook in order of decreasing priority,
  adds exactly that handler to exactly that hook, and removing its pointer again restores
  the handlers of the hook when no handler with this pointer was registered before.
\<close>

theorem add_remove_hook:
  assumes sorted: "prio_sorted h" and fresh: "\<forall>x \<in> set (h hook). h_ptr x \<noteq> ptr"
  shows "prio_sorted (AddHook hook ptr hnd p h) \<and>
    mset (AddHook hook ptr hnd p h hook) =
      add_mset \<lparr>h_ptr = ptr, h_fn = hnd, h_prio = p\<rparr> (mset (h hook)) \<and>
    (\<forall>k. k \<noteq> hook \<longrightarrow> AddHook hook ptr hnd p h k = h k) \<and>
    prio_sorted (RemoveHook hook ptr (AddHook hook ptr hnd p h)) \<and>
    mset (RemoveHook hook ptr (AddHook hook ptr hnd p h) hook) = mset (h hook)"
proof -
  let ?n = "\<lparr>h_ptr = ptr, h_fn = hnd, h_prio = p\<rparr>"
  let ?h = "AddHook hook ptr hnd p h"
  have m: "mset (?h hook) = add_mset ?n (mset (h hook))"
    by (simp add: AddHook_def Let_def)
  have s: "prio_sorted ?h" using sorted by (rule prio_sorted_add)
  have "set (?h hook) = insert ?n (set (h hook))"
    by (simp add: AddHook_def Let_def)
  with fresh have "find_first (\<lambda>x. h_ptr x = ptr) (?h hook) = Some ?n"
    by (intro find_first_unique) auto
  then have "mset (RemoveHook hook ptr ?h hook) = mset (?h hook) - {#?n#}"
    by (simp add: RemoveHook_def mset_remove_first)
  with m s show ?thesis by (auto simp: prio_sorted_remove AddHook_def)
qed

theorem add_remove_hook_witness:
  "map h_ptr (RemoveHook ''x'' 7 (AddHook ''x'' 7 (\<lambda>i. ret (i::nat)) 5 (NewHooks :: (unit, nat) hooks)) ''x'') = []
   \<and> prio_sorted (AddHook ''x'' 7 (\<lambda>i. ret (i::nat)) 5 (NewHooks :: (unit, nat) hooks))"
  using add_remove_hook [OF prio_sorted_new, of "''x''" 7 "(\<lambda>i. ret i) :: nat \<Rightarrow> (unit, nat) go" 5]
  by (simp add: NewHooks_def)

text \<open>
  A run executes the handlers in order up to the first one that returns an error: when
  a handler stops the run, the caller sees a halted run and the effects of the handlers
  before it and its own, whatever handlers follow; any other error is returned, again with
  nothing executed after it.
\<close>

theorem run_stops_at_first_error:
  assumes pre: "run_handlers xs i w = (Inr (False, i'), w')"
    and h: "h_fn h i' w' = (Inl e, w'')"
  shows "run_handlers (xs @ h # ys) i w = (if e = ErrStopped then (Inr (True, i'), w'') else (Inl e, w''))"
  using assms by (simp add: run_handlers_append go_run)

theorem run_stops_at_first_error_witness:
  "run_handlers ([\<lparr>h_ptr = 1, h_fn = \<lambda>i w. (Inr (i + 1), Suc w), h_prio = 2\<rparr>] @
      \<lparr>h_ptr = 2, h_fn = \<lambda>i w. (Inl ErrStopped, Suc w), h_prio = 1\<rparr> #
      [\<lparr>h_ptr = 3, h_fn = \<lambda>i w. (Inr i, 99), h_prio = 0\<rparr>]) (5::nat) (0::nat)
   = (Inr (True, 6), 2)"
  by (subst run_stops_at_first_error [where e = ErrStopped and w'' = 2 and w' = 1 and i' = 6])
    (simp_all add: go_run)

end
