(* ===== verification/Resource_Manager.thy ===== *)
theory Resource_Manager
  imports Xmpp
begin

text \<open>
  The cluster-wide table of connected resources
  (\<^verbatim>\<open>src/pkg/cluster/resourcemanager/kvmanager.go\<close>).
  \<^item> \<open>kv_resources\<close> is \<^verbatim>\<open>kvResources\<close>: the resources one cluster instance has registered, by
    user name. \<open>kvm\<close> is \<^verbatim>\<open>kvManager\<close>: the shared key-value store (\<open>'k\<close>, etcd behind the
    \<^verbatim>\<open>kv.KV\<close> interface) and the table of every instance's resources.
  \<^item> The key-value store is reached through \<open>kv_ops\<close>, protocol buffers through \<open>codec\<close>, the
    local instance identifier is \<open>iid\<close>. Go iterates a map in an unspecified order; the order
    of an iteration over \<^verbatim>\<open>instRes\<close> is an argument (\<open>order\<close>).
  The lemmas show the laws of the table, the round trip of the store's keys and that an
  instance that processes another one's events holds the same resources.
\<close>

section \<open>Data\<close>

type_synonym kv_resources = "string \<rightharpoonup> resource_desc list"

record resource_info =
  riInstanceId :: string
  riDomain :: string
  riInfo :: info_map
  riPresence :: "element option"

record codec =
  Marshal :: "resource_info \<Rightarrow> go_error + string"
  Unmarshal :: "string \<Rightarrow> go_error + resource_info"
  BuildPresence :: "element \<Rightarrow> go_error + element"

record 'k kv_ops =
  kvPut :: "string \<Rightarrow> string \<Rightarrow> ('k, unit) go"
  kvDel :: "string \<Rightarrow> ('k, unit) go"
  kvGetPrefix :: "string \<Rightarrow> ('k, (string \<times> string) list) go"

record 'k kvm =
  kvState :: 'k
  instRes :: "string \<rightharpoonup> kv_resources"

datatype event_type = PutEvent | DelEvent

record watch_event =
  evType :: event_type
  evKey :: string
  evVal :: string

datatype watch_resp = WatchErr go_error | WatchEvents "watch_event list"

section \<open>The resources of one instance\<close>

definition rss_of :: "kv_resources \<Rightarrow> string \<Rightarrow> resource_desc list" where
  "rss_of store username = (case store username of None \<Rightarrow> [] | Some rss \<Rightarrow> rss)"

abbreviation has_resource :: "string \<Rightarrow> resource_desc \<Rightarrow> bool" where
  "has_resource resource res \<equiv> Resource (rJID res) = resource"

definition kvrGet :: "string \<Rightarrow> string \<Rightarrow> kv_resources \<Rightarrow> resource_desc option" where
  "kvrGet username resource store = find_first (has_resource resource) (rss_of store username)"

definition kvrGetAll :: "string \<Rightarrow> kv_resources \<Rightarrow> resource_desc list" where
  "kvrGetAll username store = rss_of store username"

definition kvrPut :: "resource_desc \<Rightarrow> kv_resources \<Rightarrow> kv_resources" where
  "kvrPut res store =
     (let username = Node (rJID res); resource = Resource (rJID res);
          rss = rss_of store username;
          found = (\<exists>r \<in> set rss. has_resource resource r);
          rss' = (if found then replace_first (has_resource resource) res rss else rss @ [res])
      in store(username \<mapsto> rss'))"

definition kvrDel :: "string \<Rightarrow> string \<Rightarrow> kv_resources \<Rightarrow> kv_resources" where
  "kvrDel username resource store =
     (let rss = rss_of store username
      in if \<exists>r \<in> set rss. has_resource resource r
         then (let rss' = remove_first (has_resource resource) rss
               in if length rss' > 0 then store(username \<mapsto> rss') else store(username := None))
         else store)"

section \<open>Keys and values of the store\<close>

definition resourceKeyPrefix :: string where
  "resourceKeyPrefix = ''r://''"

definition resourceKey :: "string \<Rightarrow> string \<Rightarrow> string \<Rightarrow> string" where
  "resourceKey iid username resource =
     resourceKeyPrefix @ username @ ''@'' @ resource @ ''/'' @ iid"

definition isLocalKey :: "string \<Rightarrow> string \<Rightarrow> bool" where
  "isLocalKey iid rKey = has_suffix rKey (''/'' @ iid)"

definition errInvalidKey :: "string \<Rightarrow> go_error" where
  "errInvalidKey rKey = ErrText (''invalid kv resource key: '' @ rKey)"

definition extractKeyInfo :: "string \<Rightarrow> go_error + (string \<times> string \<times> string)" where
  "extractKeyInfo rKey =
     (case split_on (CHR ''@'') (trim_prefix rKey resourceKeyPrefix) of
        [username, rest] \<Rightarrow>
          (case split_on (CHR ''/'') rest of
             [resource, instanceID] \<Rightarrow> Inr (username, resource, instanceID)
           | _ \<Rightarrow> Inl (errInvalidKey rKey))
      | _ \<Rightarrow> Inl (errInvalidKey rKey))"

definition resourceVal :: "codec \<Rightarrow> resource_desc \<Rightarrow> go_error + string" where
  "resourceVal C res =
     Marshal C \<lparr>riInstanceId = InstanceID res, riDomain = Domain (rJID res),
                riInfo = rInfo res, riPresence = rPresence res\<rparr>"

text \<open>
  \<^verbatim>\<open>jid.New\<close>'s error is ignored; a nil address would panic as soon as the description is
  stored, which is the \<open>ErrPanic\<close> branch.
\<close>

definition decodeResource :: "xlib \<Rightarrow> codec \<Rightarrow> string \<Rightarrow> string \<Rightarrow> go_error + resource_desc" where
  "decodeResource X C key val =
     (let invalid = ErrText (''invalid resource key format: '' @ key)
      in case split_on (CHR ''@'') (trim_prefix key resourceKeyPrefix) of
           [username, rest] \<Rightarrow>
             (case Unmarshal C val of
                Inl e \<Rightarrow> Inl e
              | Inr resInf \<Rightarrow>
                  (case split_on (CHR ''/'') rest of
                     [resource, _] \<Rightarrow>
                       (case NewJID X username (riDomain resInf) resource True of
                          None \<Rightarrow> Inl ErrPanic
                        | Some jd \<Rightarrow>
                            (case riPresence resInf of
                               None \<Rightarrow> Inr (NewResourceDesc (riInstanceId resInf) jd None
                                             (NewInfoMapFromMap (riInfo resInf)))
                             | Some p \<Rightarrow>
                                 (case BuildPresence C p of
                                    Inl e \<Rightarrow> Inl e
                                  | Inr pr \<Rightarrow> Inr (NewResourceDesc (riInstanceId resInf) jd (Some pr)
                                               (NewInfoMapFromMap (riInfo resInf))))))
                   | _ \<Rightarrow> Inl invalid))
         | _ \<Rightarrow> Inl invalid)"

fun decodeKVResources :: "xlib \<Rightarrow> codec \<Rightarrow> (string \<times> string) list \<Rightarrow> go_error + resource_desc list" where
  "decodeKVResources X C [] = Inr []"
| "decodeKVResources X C ((k, v) # kvs) =
     (case decodeResource X C k v of
        Inl e \<Rightarrow> Inl e
      | Inr res \<Rightarrow> map_sum id ((#) res) (decodeKVResources X C kvs))"

section \<open>The manager\<close>

definition NewKVManager :: "'k \<Rightarrow> 'k kvm" where
  "NewKVManager k = \<lparr>kvState = k, instRes = Map.empty\<rparr>"

definition lift_kv :: "('k, 'a) go \<Rightarrow> ('k kvm, 'a) go" where
  "lift_kv f = (\<lambda>m. case f (kvState m) of (r, k) \<Rightarrow> (r, m\<lparr>kvState := k\<rparr>))"

definition inMemPut :: "resource_desc \<Rightarrow> 'k kvm \<Rightarrow> 'k kvm" where
  "inMemPut res m =
     (let instID = InstanceID res;
          kvr = (case instRes m instID of None \<Rightarrow> Map.empty | Some kvr \<Rightarrow> kvr)
      in m\<lparr>instRes := (instRes m)(instID \<mapsto> kvrPut res kvr)\<rparr>)"

definition inMemDel :: "string \<Rightarrow> string \<Rightarrow> string \<Rightarrow> 'k kvm \<Rightarrow> 'k kvm" where
  "inMemDel username resource instanceID m =
     (case instRes m instanceID of
        None \<Rightarrow> m
      | Some kvr \<Rightarrow> m\<lparr>instRes := (instRes m)(instanceID \<mapsto> kvrDel username resource kvr)\<rparr>)"

definition PutResource ::
  "codec \<Rightarrow> 'k kv_ops \<Rightarrow> string \<Rightarrow> resource_desc \<Rightarrow> ('k kvm, unit) go" where
  "PutResource C K iid res =
     (case resourceVal C res of
        Inl e \<Rightarrow> throw e
      | Inr b \<Rightarrow>
          andthen (lift_kv (kvPut K (resourceKey iid (Node (rJID res)) (Resource (rJID res))) b))
            (\<lambda>_. modify (inMemPut res)))"

fun get_in_order :: "string list \<Rightarrow> (string \<rightharpoonup> kv_resources) \<Rightarrow> string \<Rightarrow> string \<Rightarrow> resource_desc option" where
  "get_in_order [] inst username resource = None"
| "get_in_order (i # order) inst username resource =
     (case inst i of
        None \<Rightarrow> get_in_order order inst username resource
      | Some kvr \<Rightarrow>
          (case kvrGet username resource kvr of
             Some res \<Rightarrow> Some res
           | None \<Rightarrow> get_in_order order inst username resource))"

definition GetResource :: "string list \<Rightarrow> string \<Rightarrow> string \<Rightarrow> ('k kvm, resource_desc option) go" where
  "GetResource order username resource =
     gets (\<lambda>m. get_in_order order (instRes m) username resource)"

definition GetResources :: "string list \<Rightarrow> string \<Rightarrow> ('k kvm, resource_desc list) go" where
  "GetResources order username =
     gets (\<lambda>m. concat (map (\<lambda>i. case instRes m i of None \<Rightarrow> [] | Some kvr \<Rightarrow> kvrGetAll username kvr) order))"

definition DelResource :: "'k kv_ops \<Rightarrow> string \<Rightarrow> string \<Rightarrow> string \<Rightarrow> ('k kvm, unit) go" where
  "DelResource K iid username resource =
     andthen (lift_kv (kvDel K (resourceKey iid username resource)))
       (\<lambda>_. modify (inMemDel username resource iid))"

definition onMemberListUpdated :: "string list \<Rightarrow> ('k kvm, unit) go" where
  "onMemberListUpdated unregisteredKeys =
     (if length unregisteredKeys = 0 then ret ()
      else modify (\<lambda>m. m\<lparr>instRes := fold (\<lambda>i inst. inst(i := None)) unregisteredKeys (instRes m)\<rparr>))"

definition getKVResources :: "xlib \<Rightarrow> codec \<Rightarrow> 'k kv_ops \<Rightarrow> ('k kvm, resource_desc list) go" where
  "getKVResources X C K =
     andthen (lift_kv (kvGetPrefix K resourceKeyPrefix)) (\<lambda>vs.
       case decodeKVResources X C vs of Inl e \<Rightarrow> throw e | Inr rss \<Rightarrow> ret rss)"

fun processKVEvents :: "xlib \<Rightarrow> codec \<Rightarrow> string \<Rightarrow> watch_event list \<Rightarrow> ('k kvm, unit) go" where
  "processKVEvents X C iid [] = ret ()"
| "processKVEvents X C iid (ev # evs) =
     (if isLocalKey iid (evKey ev) then processKVEvents X C iid evs
      else case evType ev of
        PutEvent \<Rightarrow>
          (case decodeResource X C (evKey ev) (evVal ev) of
             Inl e \<Rightarrow> throw e
           | Inr res \<Rightarrow> andthen (modify (inMemPut res)) (\<lambda>_. processKVEvents X C iid evs))
      | DelEvent \<Rightarrow>
          (case extractKeyInfo (evKey ev) of
             Inl e \<Rightarrow> throw e
           | Inr (username, resource, instanceID) \<Rightarrow>
               andthen (modify (inMemDel username resource instanceID))
                 (\<lambda>_. processKVEvents X C iid evs)))"

text \<open>
  \<^verbatim>\<open>watchKVResources\<close>: load what the store holds, then process what the watch channel
  delivers until it is closed; \<open>resps\<close> is what it delivers.
\<close>

definition watchKVResources ::
  "xlib \<Rightarrow> codec \<Rightarrow> 'k kv_ops \<Rightarrow> string \<Rightarrow> watch_resp list \<Rightarrow> ('k kvm, unit) go" where
  "watchKVResources X C K iid resps =
     andthen (getKVResources X C K) (\<lambda>rss.
       andthen (for_each rss (\<lambda>res. modify (inMemPut res))) (\<lambda>_.
         for_each resps (\<lambda>resp.
           case resp of
             WatchErr e \<Rightarrow> ret ()
           | WatchEvents evs \<Rightarrow> ignore (processKVEvents X C iid evs))))"

section \<open>Sequences of updates\<close>

datatype res_op = RPut resource_desc | RDel string string

fun res_step :: "(resource_desc \<Rightarrow> 's \<Rightarrow> 's) \<Rightarrow> (string \<Rightarrow> string \<Rightarrow> 's \<Rightarrow> 's) \<Rightarrow> res_op \<Rightarrow> 's \<Rightarrow> 's" where
  "res_step put del (RPut res) s = put res s"
| "res_step put del (RDel u r) s = del u r s"

text \<open>The abstract table: a map from user and resource names.\<close>

fun table_step :: "res_op \<Rightarrow> (string \<times> string \<rightharpoonup> resource_desc) \<Rightarrow> (string \<times> string \<rightharpoonup> resource_desc)" where
  "table_step (RPut res) t = t((Node (rJID res), Resource (rJID res)) \<mapsto> res)"
| "table_step (RDel u r) t = t((u, r) := None)"

fun res_apply :: "codec \<Rightarrow> 'k kv_ops \<Rightarrow> string \<Rightarrow> res_op \<Rightarrow> ('k kvm, unit) go" where
  "res_apply C K iid (RPut res) = PutResource C K iid res"
| "res_apply C K iid (RDel u r) = DelResource K iid u r"

text \<open>The event the store sends to its watchers for an update.\<close>

fun res_event :: "codec \<Rightarrow> string \<Rightarrow> res_op \<Rightarrow> watch_event list" where
  "res_event C iid (RPut res) =
     (case resourceVal C res of
        Inl e \<Rightarrow> []
      | Inr b \<Rightarrow> [\<lparr>evType = PutEvent,
           evKey = resourceKey iid (Node (rJID res)) (Resource (rJID res)), evVal = b\<rparr>])"
| "res_event C iid (RDel u r) = [\<lparr>evType = DelEvent, evKey = resourceKey iid u r, evVal = []\<rparr>]"

section \<open>Laws of the table of one instance\<close>

text \<open>The interface the manager relies on: a table of resources that an update changes at
  one user and resource name only.\<close>

locale resource_store =
  fixes put :: "resource_desc \<Rightarrow> 's \<Rightarrow> 's" and del :: "string \<Rightarrow> string \<Rightarrow> 's \<Rightarrow> 's"
    and get :: "string \<Rightarrow> string \<Rightarrow> 's \<Rightarrow> resource_desc option" and wf :: "'s \<Rightarrow> bool"
  assumes get_put: "wf s \<Longrightarrow> get u r (put res s) =
      (if u = Node (rJID res) \<and> r = Resource (rJID res) then Some res else get u r s)"
    and get_del: "wf s \<Longrightarrow> get u r (del u' r' s) = (if u = u' \<and> r = r' then None else get u r s)"
    and wf_put: "wf s \<Longrightarrow> wf (put res s)"
    and wf_del: "wf s \<Longrightarrow> wf (del u r s)"
begin

lemma wf_step: "wf s \<Longrightarrow> wf (res_step put del x s)"
  by (cases x) (simp_all add: wf_put wf_del)

lemma get_step:
  "wf s \<Longrightarrow> get u r (res_step put del x s) = table_step x (\<lambda>(u, r). get u r s) (u, r)"
  by (cases x) (auto simp: get_put get_del)

lemma run_table:
  "wf s \<Longrightarrow> wf (fold (res_step put del) xs s) \<and>
     (\<lambda>(u, r). get u r (fold (res_step put del) xs s)) = fold table_step xs (\<lambda>(u, r). get u r s)"
proof (induction xs arbitrary: s)
  case (Cons x xs)
  have "(\<lambda>(u, r). get u r (res_step put del x s)) = table_step x (\<lambda>(u, r). get u r s)"
    using get_step [OF Cons.prems] by (auto simp: fun_eq_iff)
  with Cons.IH [OF wf_step [OF Cons.prems]] show ?case by simp
qed simp

end

definition kvr_wf :: "kv_resources \<Rightarrow> bool" where
  "kvr_wf store \<longleftrightarrow> (\<forall>u rs. store u = Some rs \<longrightarrow>
     rs \<noteq> [] \<and> distinct (map (\<lambda>r. Resource (rJID r)) rs) \<and> (\<forall>r \<in> set rs. Node (rJID r) = u))"

lemma kvr_wf_empty [simp]: "kvr_wf Map.empty"
  by (simp add: kvr_wf_def)

lemma kvr_wf_rss: "kvr_wf store \<Longrightarrow> distinct (map (\<lambda>r. Resource (rJID r)) (rss_of store u))"
  by (auto simp: kvr_wf_def rss_of_def split: option.split)

lemma rss_of_upd: "rss_of (store(u := v)) u' = (if u' = u then (case v of None \<Rightarrow> [] | Some l \<Rightarrow> l) else rss_of store u')"
  by (simp add: rss_of_def)

lemma rss_of_put:
  "rss_of (kvrPut res store) u =
     (if u = Node (rJID res)
      then (if \<exists>r \<in> set (rss_of store u). has_resource (Resource (rJID res)) r
            then replace_first (has_resource (Resource (rJID res))) res (rss_of store u)
            else rss_of store u @ [res])
      else rss_of store u)"
  by (simp add: kvrPut_def Let_def rss_of_upd)

lemma rss_of_del:
  "rss_of (kvrDel u' r store) u =
     (if u = u' then remove_first (has_resource r) (rss_of store u) else rss_of store u)"
  by (auto simp: kvrDel_def Let_def rss_of_upd remove_first_id)

lemma set_replace_first: "set (replace_first p y xs) \<subseteq> insert y (set xs)"
  by (induction xs) auto

lemma replace_first_ne [simp]: "replace_first p y xs = [] \<longleftrightarrow> xs = []"
  by (cases xs) auto

lemma kvr_wf_iff:
  "kvr_wf store \<longleftrightarrow>
     (\<forall>u. (store u \<noteq> None \<longrightarrow> rss_of store u \<noteq> []) \<and>
       distinct (map (\<lambda>r. Resource (rJID r)) (rss_of store u)) \<and>
       (\<forall>r \<in> set (rss_of store u). Node (rJID r) = u))"
proof
  show "kvr_wf store \<Longrightarrow> \<forall>u. (store u \<noteq> None \<longrightarrow> rss_of store u \<noteq> []) \<and>
       distinct (map (\<lambda>r. Resource (rJID r)) (rss_of store u)) \<and>
       (\<forall>r \<in> set (rss_of store u). Node (rJID r) = u)"
    by (auto simp: kvr_wf_def rss_of_def split: option.splits)
next
  assume *: "\<forall>u. (store u \<noteq> None \<longrightarrow> rss_of store u \<noteq> []) \<and>
       distinct (map (\<lambda>r. Resource (rJID r)) (rss_of store u)) \<and>
       (\<forall>r \<in> set (rss_of store u). Node (rJID r) = u)"
  show "kvr_wf store"
    unfolding kvr_wf_def
  proof (intro allI impI)
    fix u rs assume "store u = Some rs"
    then show "rs \<noteq> [] \<and> distinct (map (\<lambda>r. Resource (rJID r)) rs) \<and> (\<forall>r\<in>set rs. Node (rJID r) = u)"
      using * [rule_format, of u] by (simp add: rss_of_def)
  qed
qed

lemma kvr_wf_put: "kvr_wf store \<Longrightarrow> kvr_wf (kvrPut res store)"
  unfolding kvr_wf_iff [of "kvrPut res store"]
proof (intro allI conjI impI)
  fix u assume wf: "kvr_wf store"
  let ?p = "has_resource (Resource (rJID res))"
  show "rss_of (kvrPut res store) u \<noteq> []" if "kvrPut res store u \<noteq> None"
    using that wf by (auto simp: kvr_wf_iff kvrPut_def Let_def rss_of_upd split: if_splits)
  show "distinct (map (\<lambda>r. Resource (rJID r)) (rss_of (kvrPut res store) u))"
    using kvr_wf_rss [OF wf, of u]
      replace_first_keys [of "\<lambda>r. Resource (rJID r)" res "Resource (rJID res)" "rss_of store u"]
    by (auto simp: rss_of_put)
  show "\<forall>r \<in> set (rss_of (kvrPut res store) u). Node (rJID r) = u"
    using wf set_replace_first [of ?p res "rss_of store u"] by (auto simp: rss_of_put kvr_wf_iff)
qed

lemma kvr_wf_del: "kvr_wf store \<Longrightarrow> kvr_wf (kvrDel u r store)"
  unfolding kvr_wf_iff [of "kvrDel u r store"]
proof (intro allI conjI impI)
  fix v assume wf: "kvr_wf store"
  show "rss_of (kvrDel u r store) v \<noteq> []" if "kvrDel u r store v \<noteq> None"
    using that wf by (auto simp: kvr_wf_iff kvrDel_def Let_def rss_of_upd split: if_splits)
  show "distinct (map (\<lambda>r. Resource (rJID r)) (rss_of (kvrDel u r store) v))"
    using kvr_wf_rss [OF wf, of v] by (auto simp: rss_of_del distinct_map_remove_first)
  show "\<forall>x \<in> set (rss_of (kvrDel u r store) v). Node (rJID x) = v"
    using wf set_remove_first_subset [of "has_resource r" "rss_of store v"]
    by (auto simp: rss_of_del kvr_wf_iff)
qed

lemma kvrGet_put:
  "kvrGet u r (kvrPut res store) =
     (if u = Node (rJID res) \<and> r = Resource (rJID res) then Some res else kvrGet u r store)"
proof (cases "\<exists>x \<in> set (rss_of store u). has_resource (Resource (rJID res)) x")
  case True
  then show ?thesis
    using find_first_replace_first
      [of "\<lambda>r. Resource (rJID r)" res "Resource (rJID res)" r "rss_of store u"]
    by (auto simp: kvrGet_def rss_of_put)
next
  case False
  then have "find_first (has_resource (Resource (rJID res))) (rss_of store u) = None" by simp
  with False show ?thesis
    by (cases "find_first (has_resource r) (rss_of store u)")
      (auto simp: kvrGet_def rss_of_put find_first_append simp del: find_first_None)
qed

lemma kvrGet_del:
  "kvr_wf store \<Longrightarrow> kvrGet u r (kvrDel u' r' store) = (if u = u' \<and> r = r' then None else kvrGet u r store)"
  using kvr_wf_rss [of store u]
  by (auto simp: kvrGet_def rss_of_del remove_first_key find_first_filter_neq)

interpretation kvr: resource_store kvrPut kvrDel kvrGet kvr_wf
  by unfold_locales (simp_all add: kvrGet_put kvrGet_del kvr_wf_put kvr_wf_del)

section \<open>Keys\<close>

definition safe_name :: "string \<Rightarrow> bool" where
  "safe_name s \<longleftrightarrow> CHR ''@'' \<notin> set s \<and> CHR ''/'' \<notin> set s"

lemma split_resource_key:
  assumes "CHR ''@'' \<notin> set u" and "safe_name r" and "safe_name iid"
  shows "split_on (CHR ''@'') (trim_prefix (resourceKey iid u r) resourceKeyPrefix) =
      [u, r @ ''/'' @ iid]"
    and "split_on (CHR ''/'') (r @ ''/'' @ iid) = [r, iid]"
  using assms by (simp_all add: resourceKey_def safe_name_def split_on_append split_on_no_sep)

lemma extractKeyInfo_resourceKey:
  assumes "CHR ''@'' \<notin> set u" and "safe_name r" and "safe_name iid"
  shows "extractKeyInfo (resourceKey iid u r) = Inr (u, r, iid)"
  using split_resource_key [OF assms] by (simp add: extractKeyInfo_def)

lemma isLocalKey_self [simp]: "isLocalKey iid (resourceKey iid u r)"
  using has_suffix_append [of "resourceKeyPrefix @ u @ ''@'' @ r" "''/'' @ iid"]
  by (simp add: isLocalKey_def resourceKey_def)

lemma isLocalKey_other:
  assumes "safe_name iid" and "safe_name iid'" and "iid \<noteq> iid'"
  shows "\<not> isLocalKey iid' (resourceKey iid u r)"
proof
  assume "isLocalKey iid' (resourceKey iid u r)"
  then obtain v where v: "resourceKey iid u r = v @ CHR ''/'' # iid'"
    by (auto simp: isLocalKey_def dest!: has_suffixE)
  have "rev iid @ CHR ''/'' # rev (resourceKeyPrefix @ u @ ''@'' @ r) =
      rev iid' @ CHR ''/'' # rev v"
    using arg_cong [OF v, of rev] by (simp add: resourceKey_def)
  moreover have "takeWhile (\<lambda>c. c \<noteq> CHR ''/'') (rev x @ CHR ''/'' # y) = rev x" if "safe_name x" for x y
    using that by (subst takeWhile_append2) (auto simp: safe_name_def)
  ultimately have "rev iid = rev iid'" using assms(1,2) by metis
  with assms(3) show False by simp
qed

text \<open>A resource name with a separator in it makes a key that no instance can read.\<close>

lemma extractKeyInfo_unsafe:
  assumes "CHR ''@'' \<notin> set u" and "\<not> safe_name r"
  shows "extractKeyInfo (resourceKey iid u r) = Inl (errInvalidKey (resourceKey iid u r))"
proof -
  let ?m = "trim_prefix (resourceKey iid u r) resourceKeyPrefix"
  have m: "?m = u @ CHR ''@'' # r @ ''/'' @ iid" by (simp add: resourceKey_def)
  show ?thesis
  proof (cases "CHR ''@'' \<in> set (r @ ''/'' @ iid)")
    case True
    then have "length (split_on (CHR ''@'') ?m) \<noteq> 2"
      using assms(1) by (simp add: m length_split_on count_list_0_iff [THEN iffD2])
    then show ?thesis
      by (auto simp: extractKeyInfo_def split: list.split)
  next
    case False
    then have "split_on (CHR ''@'') ?m = [u, r @ ''/'' @ iid]"
      using assms(1) by (simp add: m split_on_append split_on_no_sep)
    moreover from False assms(2) have "CHR ''/'' \<in> set r" by (auto simp: safe_name_def)
    then have "length (split_on (CHR ''/'') (r @ ''/'' @ iid)) \<noteq> 2"
      by (simp add: length_split_on count_list_0_iff)
    ultimately show ?thesis
      by (auto simp: extractKeyInfo_def split: list.split)
  qed
qed

section \<open>Replication\<close>

text \<open>
  What is relied on of protocol buffers and of the address constructor: decoding gives back
  what was encoded, and an address is made of the parts it is given.
\<close>

definition codec_roundtrip :: "codec \<Rightarrow> bool" where
  "codec_roundtrip C \<longleftrightarrow>
     (\<forall>ri b. Marshal C ri = Inr b \<longrightarrow> Unmarshal C b = Inr ri) \<and> (\<forall>p. BuildPresence C p = Inr p)"

definition newjid_parts :: "xlib \<Rightarrow> bool" where
  "newjid_parts X \<longleftrightarrow> (\<forall>n d r. NewJID X n d r True = Some \<lparr>Node = n, Domain = d, Resource = r\<rparr>)"

lemma decodeResource_resourceVal:
  assumes "codec_roundtrip C" and "newjid_parts X" and "resourceVal C res = Inr b"
    and "CHR ''@'' \<notin> set (Node (rJID res))" and "safe_name (Resource (rJID res))" and "safe_name iid"
  shows "decodeResource X C (resourceKey iid (Node (rJID res)) (Resource (rJID res))) b = Inr res"
proof -
  from assms(1,3) have "Unmarshal C b = Inr \<lparr>riInstanceId = InstanceID res,
      riDomain = Domain (rJID res), riInfo = rInfo res, riPresence = rPresence res\<rparr>"
    by (simp add: codec_roundtrip_def resourceVal_def)
  then show ?thesis
    using assms(1,2) split_resource_key [OF assms(4-6)]
    by (cases "rPresence res")
      (simp_all add: decodeResource_def Let_def codec_roundtrip_def newjid_parts_def
        NewResourceDesc_def NewInfoMapFromMap_def)
qed

lemma processKVEvents_append:
  "processKVEvents X C iid (xs @ ys) =
     andthen (processKVEvents X C iid xs) (\<lambda>_. processKVEvents X C iid ys)"
proof (induction xs)
  case (Cons x xs)
  then show ?case
    by (auto simp: fun_eq_iff go_run split: event_type.split sum.split prod.split)
qed simp

definition op_names_ok :: "string \<Rightarrow> res_op \<Rightarrow> bool" where
  "op_names_ok iid x = (case x of
      RPut res \<Rightarrow> InstanceID res = iid \<and> CHR ''@'' \<notin> set (Node (rJID res)) \<and> safe_name (Resource (rJID res))
    | RDel u r \<Rightarrow> CHR ''@'' \<notin> set u \<and> safe_name r)"

lemma res_apply_result:
  assumes "res_apply C K iid x a = (Inr (), a')" and "op_names_ok iid x"
  shows "instRes a' = (case x of RPut res \<Rightarrow> instRes (inMemPut res a)
      | RDel u r \<Rightarrow> instRes (inMemDel u r iid a))"
  using assms
  by (cases x) (auto simp: PutResource_def DelResource_def lift_kv_def inMemPut_def inMemDel_def
      go_run Let_def split: sum.splits prod.splits option.splits)

lemma replicate_step:
  assumes "codec_roundtrip C" and "newjid_parts X"
    and "safe_name idA" and "safe_name idB" and "idA \<noteq> idB" and "op_names_ok idA x"
    and a: "res_apply C K idA x a = (Inr (), a')" and eq: "instRes b idA = instRes a idA"
  shows "\<exists>b'. processKVEvents X C idB (res_event C idA x) b = (Inr (), b') \<and>
    instRes b' idA = instRes a' idA \<and> (\<forall>i. i \<noteq> idA \<longrightarrow> instRes b' i = instRes b i)"
proof (cases x)
  case (RPut res)
  with a obtain v where v: "resourceVal C res = Inr v"
    by (auto simp: PutResource_def go_run split: sum.splits)
  have "decodeResource X C (resourceKey idA (Node (rJID res)) (Resource (rJID res))) v = Inr res"
    using assms RPut v by (intro decodeResource_resourceVal) (auto simp: op_names_ok_def)
  then have "processKVEvents X C idB (res_event C idA x) b = (Inr (), inMemPut res b)"
    using RPut v isLocalKey_other [OF assms(3,4,5)] by (simp add: go_run)
  moreover have "InstanceID res = idA" using RPut assms(6) by (simp add: op_names_ok_def)
  ultimately show ?thesis
    using res_apply_result [OF a assms(6)] eq RPut by (auto simp: inMemPut_def Let_def)
next
  case (RDel u r)
  then have "extractKeyInfo (resourceKey idA u r) = Inr (u, r, idA)"
    using assms(3,6) by (intro extractKeyInfo_resourceKey) (auto simp: op_names_ok_def)
  then have "processKVEvents X C idB (res_event C idA x) b = (Inr (), inMemDel u r idA b)"
    using RDel isLocalKey_other [OF assms(3,4,5)] by (simp add: go_run)
  then show ?thesis
    using res_apply_result [OF a assms(6)] eq RDel by (auto simp: inMemDel_def split: option.splits)
qed

section \<open>Properties\<close>

text \<open>
  C22. Replication: when instance \<open>A\<close> performs a sequence of successful resource updates and
  instance \<open>B\<close> processes the events the store sends for them, \<open>B\<close> holds exactly the
  resources of \<open>A\<close> that \<open>A\<close> itself holds, and nothing it knows of other instances changes
  (names must not contain the separators of the key format).
\<close>

theorem replication:
  assumes "codec_roundtrip C" and "newjid_parts X"
    and "safe_name idA" and "safe_name idB" and "idA \<noteq> idB" and "\<forall>x \<in> set xs. op_names_ok idA x"
    and "for_each xs (res_apply C K idA) a = (Inr (), a')" and "instRes b idA = instRes a idA"
  shows "\<exists>b'. processKVEvents X C idB (concat (map (res_event C idA) xs)) b = (Inr (), b') \<and>
    instRes b' idA = instRes a' idA \<and> (\<forall>i. i \<noteq> idA \<longrightarrow> instRes b' i = instRes b i)"
  using assms(6-8)
proof (induction xs arbitrary: a b)
  case Nil
  then show ?case by (simp add: go_run)
next
  case (Cons x xs)
  from Cons.prems(2) obtain a1 where a1: "res_apply C K idA x a = (Inr (), a1)"
    and rest: "for_each xs (res_apply C K idA) a1 = (Inr (), a')"
    by (auto simp: go_run split: prod.splits sum.splits)
  have "op_names_ok idA x" using Cons.prems(1) by simp
  from replicate_step [OF assms(1-5) this a1 Cons.prems(3)] obtain b1
    where b1: "processKVEvents X C idB (res_event C idA x) b = (Inr (), b1)"
      "instRes b1 idA = instRes a1 idA" "\<forall>i. i \<noteq> idA \<longrightarrow> instRes b1 i = instRes b i" by blast
  from Cons.IH [OF _ rest b1(2)] Cons.prems(1) obtain b'
    where "processKVEvents X C idB (concat (map (res_event C idA) xs)) b1 = (Inr (), b')"
      "instRes b' idA = instRes a' idA" "\<forall>i. i \<noteq> idA \<longrightarrow> instRes b' i = instRes b1 i" by auto
  with b1 show ?case by (auto simp: processKVEvents_append go_run)
qed

text \<open>A codec that knows one value, and a store that accepts every write.\<close>

definition one_info :: resource_info where
  "one_info = \<lparr>riInstanceId = ''i1'', riDomain = ''jackal.im'', riInfo = Map.empty, riPresence = None\<rparr>"

definition one_codec :: codec where
  "one_codec = \<lparr>Marshal = (\<lambda>ri. if ri = one_info then Inr ''x'' else Inl ErrPanic),
     Unmarshal = (\<lambda>b. if b = ''x'' then Inr one_info else Inl ErrPanic), BuildPresence = Inr\<rparr>"

definition unit_kv :: "unit kv_ops" where
  "unit_kv = \<lparr>kvPut = (\<lambda>k v. ret ()), kvDel = (\<lambda>k. ret ()), kvGetPrefix = (\<lambda>p. ret [])\<rparr>"

definition one_res :: resource_desc where
  "one_res = NewResourceDesc ''i1'' \<lparr>Node = ''ortuman'', Domain = ''jackal.im'', Resource = ''yard''\<rparr> None Map.empty"

lemma codec_roundtrip_one: "codec_roundtrip one_codec"
  by (simp add: codec_roundtrip_def one_codec_def)

lemma newjid_parts_std: "newjid_parts std_lib"
  by (simp add: newjid_parts_def std_lib_def)

theorem replication_witness:
  "\<exists>b'. processKVEvents std_lib one_codec ''i2'' (concat (map (res_event one_codec ''i1'') [RPut one_res]))
      (NewKVManager ()) = (Inr (), b') \<and> instRes b' ''i1'' = Some [''ortuman'' \<mapsto> [one_res]]"
proof -
  let ?a = "inMemPut one_res (NewKVManager ())"
  have val: "resourceVal one_codec one_res = Inr ''x''"
    by (simp add: resourceVal_def one_codec_def one_info_def one_res_def NewResourceDesc_def)
  have run: "for_each [RPut one_res] (res_apply one_codec unit_kv ''i1'') (NewKVManager ()) = (Inr (), ?a)"
    by (simp add: val PutResource_def lift_kv_def unit_kv_def go_run NewKVManager_def)
  have names: "safe_name ''i1''" "safe_name ''i2''" "''i1'' \<noteq> ''i2''"
    "\<forall>x \<in> set [RPut one_res]. op_names_ok ''i1'' x"
    by (simp_all add: safe_name_def op_names_ok_def one_res_def NewResourceDesc_def)
  have "instRes ?a ''i1'' = Some [''ortuman'' \<mapsto> [one_res]]"
    by (simp add: inMemPut_def NewKVManager_def kvrPut_def rss_of_def Let_def one_res_def NewResourceDesc_def)
  with replication [OF codec_roundtrip_one newjid_parts_std names run, of "NewKVManager ()"]
  show ?thesis by auto
qed

text \<open>
  The resources of one instance are a table indexed by user and resource name: after any
  sequence of registrations and removals, in any order, looking up a name gives what the
  last operation on that name left, the resources of a user are distinct and his own, and
  no user keeps an empty list.
\<close>

theorem resource_table_runs:
  "kvr_wf (fold (res_step kvrPut kvrDel) xs Map.empty) \<and>
   (\<lambda>(u, r). kvrGet u r (fold (res_step kvrPut kvrDel) xs Map.empty)) = fold table_step xs Map.empty"
proof -
  have "(\<lambda>(u, r). kvrGet u r Map.empty) = Map.empty"
    by (simp add: fun_eq_iff kvrGet_def rss_of_def)
  with kvr.run_table [of Map.empty xs] show ?thesis by simp
qed

text \<open>
  Which keys of the store can be read back: the key of a user (without an at sign in
  the name) and a resource is read back exactly when the resource name has neither an at
  sign nor a slash; otherwise every reader of the key fails.
\<close>

theorem resource_key_readable:
  assumes "CHR ''@'' \<notin> set u" and "safe_name iid"
  shows "extractKeyInfo (resourceKey iid u r) =
    (if safe_name r then Inr (u, r, iid) else Inl (errInvalidKey (resourceKey iid u r)))"
  using extractKeyInfo_resourceKey [of u r iid] extractKeyInfo_unsafe [of u r iid] assms by simp

theorem resource_key_readable_witness:
  "extractKeyInfo (resourceKey ''i1'' ''ortuman'' ''home/laptop'') =
     Inl (errInvalidKey ''r://ortuman@home/laptop/i1'') \<and>
   extractKeyInfo (resourceKey ''i1'' ''ortuman'' ''yard'') = Inr (''ortuman'', ''yard'', ''i1'')"
  using resource_key_readable [of "''ortuman''" "''i1''" "''home/laptop''"]
    resource_key_readable [of "''ortuman''" "''i1''" "''yard''"]
  by (simp add: safe_name_def resourceKey_def resourceKeyPrefix_def)

lemma kvrGet_getAll: "kvrGet u r s = find_first (has_resource r) (kvrGetAll u s)"
  by (simp add: kvrGet_def kvrGetAll_def)

text \<open>
  The two lookups of the manager agree: \<^verbatim>\<open>GetResource\<close> finds a resource exactly when it is
  among those \<^verbatim>\<open>GetResources\<close> lists for the user, whatever instance registered it, and
  returns the first of them; neither changes the manager.
\<close>

theorem lookups_agree:
  "\<exists>rss. GetResources order username m = (Inr rss, m) \<and>
     GetResource order username resource m = (Inr (find_first (has_resource resource) rss), m)"
proof -
  have "get_in_order order inst username resource =
      find_first (has_resource resource)
        (concat (map (\<lambda>i. case inst i of None \<Rightarrow> [] | Some kvr \<Rightarrow> kvrGetAll username kvr) order))" for inst
    by (induction order) (auto simp: find_first_append kvrGet_getAll simp del: find_first_None split: option.split)
  then show ?thesis by (simp add: GetResources_def GetResource_def go_run)
qed

end
