(* ===== verification/Local_Router.thy ===== *)
theory Local_Router
  imports Xmpp "HOL-Library.Char_ord" "HOL-Library.List_Lexorder"
begin

text \<open>
  The streams connected to one server instance.
  \<^item> \<^verbatim>\<open>src/pkg/host/hosts.go\<close>: the domains the server serves.
  \<^item> \<^verbatim>\<open>src/pkg/c2s/resources.go\<close>: the bound streams of one user.
  \<^item> \<^verbatim>\<open>src/pkg/c2s/local_router.go\<close>: streams that are registered but not bound, by stream
    identifier, and bound streams, by user name.
  A client stream is reached through the \<^verbatim>\<open>stream.C2S\<close> interface; a value of that interface is
  a reference (a \<open>nat\<close>), its methods are the fields of \<open>c2s_ops\<close>, and \<open>'s\<close> is the state the
  methods read and change. The mutexes make each operation atomic. The lemmas show which
  stream a name resolves to after any sequence of operations.
\<close>

section \<open>Hosts\<close>

record 'cer hosts =
  defaultHost :: string
  hostCerts :: "string \<rightharpoonup> 'cer"

record host_config =
  cfgDomain :: string
  cfgCertFile :: string
  cfgPrivateKeyFile :: string

definition defaultDomain :: string where
  "defaultDomain = ''localhost''"

definition RegisterDefaultHost :: "string \<Rightarrow> 'cer \<Rightarrow> 'cer hosts \<Rightarrow> 'cer hosts" where
  "RegisterDefaultHost h cer hs = hs\<lparr>defaultHost := h, hostCerts := (hostCerts hs)(h \<mapsto> cer)\<rparr>"

definition RegisterHost :: "string \<Rightarrow> 'cer \<Rightarrow> 'cer hosts \<Rightarrow> 'cer hosts" where
  "RegisterHost h cer hs = hs\<lparr>hostCerts := (hostCerts hs)(h \<mapsto> cer)\<rparr>"

definition DefaultHostName :: "'cer hosts \<Rightarrow> string" where
  "DefaultHostName hs = defaultHost hs"

definition IsLocalHost :: "'cer hosts \<Rightarrow> string \<Rightarrow> bool" where
  "IsLocalHost hs h = (hostCerts hs h \<noteq> None)"

text \<open>The configuration loop; \<open>load\<close> is \<^verbatim>\<open>tlsutil.LoadCertificate\<close>, \<open>first\<close> is \<^verbatim>\<open>i == 0\<close>.\<close>

fun register_hosts ::
  "(string \<Rightarrow> string \<Rightarrow> string \<Rightarrow> go_error + 'cer) \<Rightarrow> bool \<Rightarrow> host_config list \<Rightarrow> 'cer hosts
   \<Rightarrow> go_error + 'cer hosts" where
  "register_hosts load first [] hs = Inr hs"
| "register_hosts load first (c # cs) hs =
     (case load (cfgPrivateKeyFile c) (cfgCertFile c) (cfgDomain c) of
        Inl e \<Rightarrow> Inl e
      | Inr cer \<Rightarrow> register_hosts load False cs
          (if first then RegisterDefaultHost (cfgDomain c) cer hs
           else RegisterHost (cfgDomain c) cer hs))"

definition NewHosts ::
  "(string \<Rightarrow> string \<Rightarrow> string \<Rightarrow> go_error + 'cer) \<Rightarrow> host_config list \<Rightarrow> go_error + 'cer hosts" where
  "NewHosts load cfg =
     (let hs = \<lparr>defaultHost = [], hostCerts = Map.empty\<rparr>
      in if length cfg = 0 then
           (case load [] [] defaultDomain of
              Inl e \<Rightarrow> Inl e
            | Inr cer \<Rightarrow> Inr (RegisterDefaultHost defaultDomain cer hs))
         else register_hosts load True cfg hs)"

text \<open>\<open>order\<close> is the order in which the map is iterated.\<close>

definition HostNames :: "string list \<Rightarrow> string list" where
  "HostNames order = sort_slice (<) order"

lemma register_hosts_dom:
  "register_hosts load first cfg hs = Inr hs' \<Longrightarrow>
     dom (hostCerts hs') = dom (hostCerts hs) \<union> cfgDomain ` set cfg \<and>
     defaultHost hs' = (if first \<and> cfg \<noteq> [] then cfgDomain (hd cfg) else defaultHost hs)"
  by (induction load first cfg hs rule: register_hosts.induct)
    (auto simp: RegisterDefaultHost_def RegisterHost_def split: sum.splits if_splits)

text \<open>
  The server serves exactly the configured domains, \<^verbatim>\<open>localhost\<close> when none is
  configured, and its default host is the first of them, which it serves.
\<close>

theorem hosts_configured:
  assumes "NewHosts load cfg = Inr hs"
  shows "(\<forall>h. IsLocalHost hs h \<longleftrightarrow> h \<in> (if cfg = [] then {defaultDomain} else cfgDomain ` set cfg)) \<and>
    DefaultHostName hs = (if cfg = [] then defaultDomain else cfgDomain (hd cfg)) \<and>
    IsLocalHost hs (DefaultHostName hs)"
proof (cases "cfg = []")
  case True
  with assms show ?thesis
    by (auto simp: NewHosts_def IsLocalHost_def DefaultHostName_def RegisterDefaultHost_def
        split: sum.splits if_splits)
next
  case False
  with assms register_hosts_dom [of load True cfg] have
    "dom (hostCerts hs) = cfgDomain ` set cfg" "defaultHost hs = cfgDomain (hd cfg)"
    by (auto simp: NewHosts_def Let_def)
  with False show ?thesis
    by (auto simp: IsLocalHost_def DefaultHostName_def dom_def)
qed

theorem hosts_configured_witness:
  "\<exists>hs. NewHosts (\<lambda>k c d. Inr ()) [\<lparr>cfgDomain = ''jackal.im'', cfgCertFile = [], cfgPrivateKeyFile = []\<rparr>] = Inr hs
     \<and> IsLocalHost hs ''jackal.im'' \<and> \<not> IsLocalHost hs ''localhost''"
proof -
  let ?cfg = "[\<lparr>cfgDomain = ''jackal.im'', cfgCertFile = [], cfgPrivateKeyFile = []\<rparr>]"
  obtain hs where hs: "NewHosts (\<lambda>k c d. Inr ()) ?cfg = Inr hs"
    by (simp add: NewHosts_def)
  with hosts_configured [OF hs] show ?thesis by auto
qed

section \<open>The bound streams of one user\<close>

type_synonym stream_id = "64 word"

record 's c2s_ops =
  stmID :: "nat \<Rightarrow> 's \<Rightarrow> stream_id"
  stmUsername :: "nat \<Rightarrow> 's \<Rightarrow> string"
  stmResource :: "nat \<Rightarrow> 's \<Rightarrow> string"
  stmSendElement :: "nat \<Rightarrow> element \<Rightarrow> ('s, unit) go"
  stmDisconnect :: "nat \<Rightarrow> stream_error \<Rightarrow> ('s, unit) go"

definition resBind :: "'s c2s_ops \<Rightarrow> 's \<Rightarrow> nat \<Rightarrow> nat list \<Rightarrow> nat list" where
  "resBind S w stm stms =
     (let res = stmResource S stm w
      in if \<exists>s \<in> set stms. stmResource S s w = res then stms else stms @ [stm])"

definition resUnbind :: "'s c2s_ops \<Rightarrow> 's \<Rightarrow> string \<Rightarrow> nat list \<Rightarrow> nat list" where
  "resUnbind S w res stms = remove_first (\<lambda>s. stmResource S s w = res) stms"

definition resStream :: "'s c2s_ops \<Rightarrow> 's \<Rightarrow> string \<Rightarrow> nat list \<Rightarrow> nat option" where
  "resStream S w res stms = find_first (\<lambda>s. stmResource S s w = res) stms"

fun resRoute :: "'s c2s_ops \<Rightarrow> element \<Rightarrow> string \<Rightarrow> nat list \<Rightarrow> ('s, unit) go" where
  "resRoute S stanza resource [] = ret ()"
| "resRoute S stanza resource (s # stms) =
     andthen (gets (stmResource S s)) (\<lambda>r.
       if r \<noteq> resource then resRoute S stanza resource stms
       else andthen (ignore (stmSendElement S s stanza)) (\<lambda>_. resRoute S stanza resource stms))"

definition resDisconnect :: "'s c2s_ops \<Rightarrow> string \<Rightarrow> stream_error \<Rightarrow> nat list \<Rightarrow> ('s, unit) go" where
  "resDisconnect S resource streamErr stms =
     andthen (gets (\<lambda>w. find_first (\<lambda>s. stmResource S s w = resource) stms)) (\<lambda>stm.
       case stm of None \<Rightarrow> ret () | Some s \<Rightarrow> stmDisconnect S s streamErr)"

section \<open>The local router\<close>

record 's local_router =
  lrStms :: "stream_id \<rightharpoonup> nat"
  lrBndRes :: "string \<rightharpoonup> nat list"
  lrWorld :: 's

definition NewLocalRouter :: "'s \<Rightarrow> 's local_router" where
  "NewLocalRouter w = \<lparr>lrStms = Map.empty, lrBndRes = Map.empty, lrWorld = w\<rparr>"

definition lift_stm :: "('s, 'a) go \<Rightarrow> ('s local_router, 'a) go" where
  "lift_stm f = (\<lambda>r. case f (lrWorld r) of (x, w) \<Rightarrow> (x, r\<lparr>lrWorld := w\<rparr>))"

definition stream_id_string :: "stream_id \<Rightarrow> string" where
  "stream_id_string i = ''c2s:'' @ itoa_nat (unat i)"

definition errAlreadyRegistered :: "stream_id \<Rightarrow> go_error" where
  "errAlreadyRegistered i = ErrText (''c2s: stream with id '' @ stream_id_string i @ '' already registered'')"

definition errStreamNotFound :: "stream_id \<Rightarrow> go_error" where
  "errStreamNotFound i = ErrText (''c2s: stream with id '' @ stream_id_string i @ '' not found'')"

definition lrRoute :: "'s c2s_ops \<Rightarrow> element \<Rightarrow> string \<Rightarrow> string \<Rightarrow> ('s local_router, unit) go" where
  "lrRoute S stanza username resource =
     andthen (gets (\<lambda>r. lrBndRes r username)) (\<lambda>rs.
       case rs of None \<Rightarrow> ret () | Some stms \<Rightarrow> lift_stm (resRoute S stanza resource stms))"

definition lrDisconnect :: "'s c2s_ops \<Rightarrow> string \<Rightarrow> string \<Rightarrow> stream_error \<Rightarrow> ('s local_router, unit) go" where
  "lrDisconnect S username resource streamErr =
     andthen (gets (\<lambda>r. lrBndRes r username)) (\<lambda>rs.
       case rs of None \<Rightarrow> ret () | Some stms \<Rightarrow> lift_stm (resDisconnect S resource streamErr stms))"

definition lrRegister :: "'s c2s_ops \<Rightarrow> nat \<Rightarrow> ('s local_router, unit) go" where
  "lrRegister S stm =
     andthen (gets (\<lambda>r. (stmID S stm (lrWorld r), lrStms r))) (\<lambda>(i, stms).
       if stms i \<noteq> None then throw (errAlreadyRegistered i)
       else modify (\<lambda>r. r\<lparr>lrStms := (lrStms r)(i \<mapsto> stm)\<rparr>))"

definition lrBind :: "'s c2s_ops \<Rightarrow> stream_id \<Rightarrow> ('s local_router, nat) go" where
  "lrBind S i =
     andthen (gets (\<lambda>r. lrStms r i)) (\<lambda>st.
       case st of
         None \<Rightarrow> throw (errStreamNotFound i)
       | Some stm \<Rightarrow>
           andthen (modify (\<lambda>r.
             let username = stmUsername S stm (lrWorld r);
                 rs = (case lrBndRes r username of None \<Rightarrow> [] | Some rs \<Rightarrow> rs)
             in r\<lparr>lrBndRes := (lrBndRes r)(username \<mapsto> resBind S (lrWorld r) stm rs),
                  lrStms := (lrStms r)(i := None)\<rparr>))
             (\<lambda>_. ret stm))"

definition lrUnregister :: "'s c2s_ops \<Rightarrow> nat \<Rightarrow> ('s local_router, unit) go" where
  "lrUnregister S stm =
     andthen (modify (\<lambda>r. r\<lparr>lrStms := (lrStms r)(stmID S stm (lrWorld r) := None)\<rparr>)) (\<lambda>_.
       andthen (gets (\<lambda>r. (lrWorld r, lrBndRes r (stmUsername S stm (lrWorld r))))) (\<lambda>(w, rs).
         case rs of
           None \<Rightarrow> ret ()
         | Some stms \<Rightarrow>
             (let username = stmUsername S stm w;
                  stms' = resUnbind S w (stmResource S stm w) stms
              in if length stms' = 0 then modify (\<lambda>r. r\<lparr>lrBndRes := (lrBndRes r)(username := None)\<rparr>)
                 else modify (\<lambda>r. r\<lparr>lrBndRes := (lrBndRes r)(username \<mapsto> stms')\<rparr>))))"

definition lrStream :: "'s c2s_ops \<Rightarrow> string \<Rightarrow> string \<Rightarrow> 's local_router \<Rightarrow> nat option" where
  "lrStream S username resource r =
     (case lrBndRes r username of None \<Rightarrow> None | Some stms \<Rightarrow> resStream S (lrWorld r) resource stms)"

text \<open>
  \<^verbatim>\<open>Stop\<close> disconnects every stream it finds; \<open>ids\<close> and \<open>users\<close> are the orders in which the two
  maps are iterated. The goroutines that wait for the streams are not modelled.
\<close>

definition lrStop :: "'s c2s_ops \<Rightarrow> stream_id list \<Rightarrow> string list \<Rightarrow> ('s local_router, unit) go" where
  "lrStop S ids users =
     andthen (gets (\<lambda>r. List.map_filter (lrStms r) ids @ concat (List.map_filter (lrBndRes r) users))) (\<lambda>stms.
       for_each stms (\<lambda>s. ignore (lift_stm (stmDisconnect S s (stream_E SystemShutdown)))))"

text \<open>The number of connections \<^verbatim>\<open>reportMetrics\<close> reports, from the same iteration orders.\<close>

definition lrTotalCount :: "stream_id list \<Rightarrow> string list \<Rightarrow> 's local_router \<Rightarrow> nat" where
  "lrTotalCount ids users r =
     length (List.map_filter (lrStms r) ids) + sum_list (map length (List.map_filter (lrBndRes r) users))"

section \<open>Specification\<close>

text \<open>
  What the local router promises: streams wait under their identifier until they are bound,
  and a bound stream is found under its user and resource name. The first stream bound to a
  name keeps it; unregistering frees the name of the stream.
\<close>

record lr_spec =
  spPending :: "stream_id \<rightharpoonup> nat"
  spBound :: "string \<times> string \<rightharpoonup> nat"

datatype lr_op = LRegister nat | LBind stream_id | LUnregister nat

fun lr_spec_step ::
  "(nat \<Rightarrow> stream_id) \<Rightarrow> (nat \<Rightarrow> string \<times> string) \<Rightarrow> lr_op \<Rightarrow> lr_spec \<Rightarrow> (go_error + unit) \<times> lr_spec" where
  "lr_spec_step ident name (LRegister s) a =
     (if spPending a (ident s) \<noteq> None then (Inl (errAlreadyRegistered (ident s)), a)
      else (Inr (), a\<lparr>spPending := (spPending a)(ident s \<mapsto> s)\<rparr>))"
| "lr_spec_step ident name (LBind i) a =
     (case spPending a i of
        None \<Rightarrow> (Inl (errStreamNotFound i), a)
      | Some s \<Rightarrow> (Inr (), \<lparr>spPending = (spPending a)(i := None),
          spBound = (if spBound a (name s) = None then (spBound a)(name s \<mapsto> s) else spBound a)\<rparr>))"
| "lr_spec_step ident name (LUnregister s) a =
     (Inr (), \<lparr>spPending = (spPending a)(ident s := None), spBound = (spBound a)(name s := None)\<rparr>)"

fun lr_step :: "'s c2s_ops \<Rightarrow> lr_op \<Rightarrow> ('s local_router, unit) go" where
  "lr_step S (LRegister s) = lrRegister S s"
| "lr_step S (LBind i) = andthen (lrBind S i) (\<lambda>_. ret ())"
| "lr_step S (LUnregister s) = lrUnregister S s"

definition lr_abs :: "'s c2s_ops \<Rightarrow> 's local_router \<Rightarrow> lr_spec" where
  "lr_abs S r = \<lparr>spPending = lrStms r, spBound = (\<lambda>(u, res). lrStream S u res r)\<rparr>"

definition lr_wf :: "'s c2s_ops \<Rightarrow> 's local_router \<Rightarrow> bool" where
  "lr_wf S r \<longleftrightarrow> (\<forall>u l. lrBndRes r u = Some l \<longrightarrow>
     l \<noteq> [] \<and> distinct (map (\<lambda>s. stmResource S s (lrWorld r)) l) \<and>
     (\<forall>s \<in> set l. stmUsername S s (lrWorld r) = u))"

section \<open>Lemmas\<close>

lemma resBind_stream:
  "resStream S w res (resBind S w stm l) =
     (case resStream S w res l of
        Some s \<Rightarrow> Some s | None \<Rightarrow> if stmResource S stm w = res then Some stm else None)"
  by (auto simp: resStream_def resBind_def Let_def find_first_append simp del: find_first_None
      split: option.split) force

lemma resUnbind_stream:
  "distinct (map (\<lambda>s. stmResource S s w) l) \<Longrightarrow>
   resStream S w res (resUnbind S w res' l) = (if res = res' then None else resStream S w res l)"
  by (auto simp: resStream_def resUnbind_def remove_first_key find_first_filter_neq)

lemma lr_wf_upd:
  assumes "lr_wf S r" and "l \<noteq> []" and "distinct (map (\<lambda>s. stmResource S s (lrWorld r)) l)"
    and "\<forall>s \<in> set l. stmUsername S s (lrWorld r) = u"
  shows "lr_wf S (r\<lparr>lrBndRes := (lrBndRes r)(u \<mapsto> l), lrStms := x\<rparr>)"
  using assms by (auto simp: lr_wf_def)

lemma lr_wf_bind:
  assumes "lr_wf S r" and l: "l = (case lrBndRes r u of None \<Rightarrow> [] | Some l \<Rightarrow> l)"
    and u: "u = stmUsername S stm (lrWorld r)"
  shows "lr_wf S (r\<lparr>lrBndRes := (lrBndRes r)(u \<mapsto> resBind S (lrWorld r) stm l), lrStms := x\<rparr>)"
proof -
  have d: "distinct (map (\<lambda>s. stmResource S s (lrWorld r)) l)"
    and us: "\<forall>s \<in> set l. stmUsername S s (lrWorld r) = u"
    unfolding l using assms(1) by (cases "lrBndRes r u"; auto simp: lr_wf_def)+
  let ?l = "resBind S (lrWorld r) stm l"
  have "set ?l \<subseteq> insert stm (set l)" by (auto simp: resBind_def Let_def)
  with us u have "\<forall>s \<in> set ?l. stmUsername S s (lrWorld r) = u" by blast
  moreover have "?l \<noteq> [] \<and> distinct (map (\<lambda>s. stmResource S s (lrWorld r)) ?l)"
    using d by (auto simp: resBind_def Let_def)
  ultimately show ?thesis using assms(1) by (intro lr_wf_upd) simp_all
qed

lemma lr_wf_unbind:
  assumes "lr_wf S r" and "lrBndRes r u = Some l"
  shows "resUnbind S (lrWorld r) res l \<noteq> [] \<Longrightarrow>
      lr_wf S (r\<lparr>lrBndRes := (lrBndRes r)(u \<mapsto> resUnbind S (lrWorld r) res l), lrStms := x\<rparr>)"
    and "lr_wf S (r\<lparr>lrBndRes := (lrBndRes r)(u := None), lrStms := x\<rparr>)"
proof -
  from assms have "distinct (map (\<lambda>s. stmResource S s (lrWorld r)) l)"
    "\<forall>s \<in> set l. stmUsername S s (lrWorld r) = u"
    by (auto simp: lr_wf_def)
  then show "resUnbind S (lrWorld r) res l \<noteq> [] \<Longrightarrow>
      lr_wf S (r\<lparr>lrBndRes := (lrBndRes r)(u \<mapsto> resUnbind S (lrWorld r) res l), lrStms := x\<rparr>)"
    using assms(1) by (intro lr_wf_upd) (auto simp: resUnbind_def distinct_map_remove_first
        dest: set_remove_first_subset [THEN subsetD])
  show "lr_wf S (r\<lparr>lrBndRes := (lrBndRes r)(u := None), lrStms := x\<rparr>)"
    using assms(1) by (auto simp: lr_wf_def)
qed

lemma lrStream_upd:
  "lrStream S u res (r\<lparr>lrBndRes := (lrBndRes r)(v := l), lrStms := x\<rparr>) =
     (if u = v then (case l of None \<Rightarrow> None | Some l \<Rightarrow> resStream S (lrWorld r) res l) else lrStream S u res r)"
  by (simp add: lrStream_def split: option.split)

text \<open>One step of the router is one step of the specification, with the same result.\<close>

lemma lr_step_refines:
  assumes wf: "lr_wf S r"
  shows "let (x, r') = lr_step S p r;
             w = lrWorld r;
             (y, a') = lr_spec_step (\<lambda>s. stmID S s w) (\<lambda>s. (stmUsername S s w, stmResource S s w)) p (lr_abs S r)
         in x = y \<and> lr_abs S r' = a' \<and> lr_wf S r' \<and> lrWorld r' = lrWorld r"
proof (cases p)
  case (LRegister s)
  then show ?thesis
    using wf by (auto simp: lrRegister_def lr_abs_def go_run Let_def lr_wf_def lrStream_def
        fun_eq_iff split: option.split)
next
  case (LBind i)
  show ?thesis
  proof (cases "lrStms r i")
    case None
    with LBind wf show ?thesis by (simp add: lrBind_def lr_abs_def go_run)
  next
    case (Some stm)
    let ?u = "stmUsername S stm (lrWorld r)"
    let ?l = "case lrBndRes r ?u of None \<Rightarrow> [] | Some l \<Rightarrow> l"
    let ?r = "r\<lparr>lrBndRes := (lrBndRes r)(?u \<mapsto> resBind S (lrWorld r) stm ?l), lrStms := (lrStms r)(i := None)\<rparr>"
    have l: "resStream S (lrWorld r) res ?l = lrStream S ?u res r" for res
      by (simp add: lrStream_def resStream_def split: option.split)
    have "lrStream S u res ?r =
        (if u = ?u \<and> res = stmResource S stm (lrWorld r) \<and> lrStream S u res r = None
         then Some stm else lrStream S u res r)" for u res
      unfolding lrStream_upd by (auto simp: resBind_stream l split: option.split)
    moreover have "lr_wf S ?r" by (intro lr_wf_bind wf refl)
    ultimately show ?thesis
      using LBind Some by (auto simp: lrBind_def lr_abs_def go_run Let_def fun_eq_iff)
  qed
next
  case (LUnregister s)
  let ?u = "stmUsername S s (lrWorld r)" and ?x = "(lrStms r)(stmID S s (lrWorld r) := None)"
  show ?thesis
  proof (cases "lrBndRes r ?u")
    case None
    then have "lrStream S ?u res r = None" for res by (simp add: lrStream_def)
    with LUnregister None wf show ?thesis
      by (auto simp: lrUnregister_def lr_abs_def go_run lr_wf_def lrStream_def fun_eq_iff split: option.split)
  next
    case (Some l)
    let ?l = "resUnbind S (lrWorld r) (stmResource S s (lrWorld r)) l"
    let ?v = "if ?l = [] then None else Some ?l"
    let ?r = "r\<lparr>lrBndRes := (lrBndRes r)(?u := ?v), lrStms := ?x\<rparr>"
    have "distinct (map (\<lambda>s. stmResource S s (lrWorld r)) l)" using wf Some by (simp add: lr_wf_def)
    note unb = resUnbind_stream [OF this]
    have "(case ?v of None \<Rightarrow> None | Some l \<Rightarrow> resStream S (lrWorld r) res l) = resStream S (lrWorld r) res ?l" for res
      by (simp add: resStream_def)
    then have "lrStream S u res ?r =
        (if u = ?u \<and> res = stmResource S s (lrWorld r) then None else lrStream S u res r)" for u res
      unfolding lrStream_upd by (simp add: unb lrStream_def Some)
    moreover have "lr_wf S ?r" using lr_wf_unbind [OF wf Some] by simp
    moreover have "lr_step S p r = (Inr (), ?r)"
      using LUnregister Some by (simp add: lrUnregister_def go_run Let_def)
    ultimately show ?thesis
      using LUnregister by (auto simp: lr_abs_def fun_eq_iff)
  qed
qed

lemma lr_run_refines:
  assumes "lr_wf S r" and "w = lrWorld r"
  shows "let (xs, r') = run_all (lr_step S) ps r;
             (ys, a') = run_all (lr_spec_step (\<lambda>s. stmID S s w) (\<lambda>s. (stmUsername S s w, stmResource S s w))) ps (lr_abs S r)
         in xs = ys \<and> lr_abs S r' = a' \<and> lr_wf S r' \<and> lrWorld r' = w"
  using assms
proof (induction ps arbitrary: r)
  case (Cons p ps)
  obtain x r' where r': "lr_step S p r = (x, r')" by fastforce
  let ?sp = "lr_spec_step (\<lambda>s. stmID S s w) (\<lambda>s. (stmUsername S s w, stmResource S s w))"
  have "?sp p (lr_abs S r) = (x, lr_abs S r')" and "lr_wf S r'" and "w = lrWorld r'"
    using lr_step_refines [OF Cons.prems(1), of p] Cons.prems(2) r' by (auto simp: Let_def split: prod.splits)
  with Cons.IH [of r'] r' show ?case by (auto simp: Let_def split: prod.splits)
qed simp

text \<open>Sending leaves the resource names of the streams alone.\<close>

definition send_keeps_names :: "'s c2s_ops \<Rightarrow> bool" where
  "send_keeps_names S \<longleftrightarrow> (\<forall>s t e w. stmResource S t (snd (stmSendElement S s e w)) = stmResource S t w)"

lemma resRoute_stream:
  assumes "send_keeps_names S" and "distinct (map (\<lambda>s. stmResource S s w) stms)"
  shows "resRoute S stanza res stms w =
    (case resStream S w res stms of None \<Rightarrow> ret () w | Some s \<Rightarrow> ignore (stmSendElement S s stanza) w)"
  using assms(2)
proof (induction stms)
  case Nil
  then show ?case by (simp add: resStream_def)
next
  case (Cons s stms)
  have none: "resRoute S stanza res ts v = (Inr (), v)" if "\<forall>t \<in> set ts. stmResource S t v \<noteq> res" for ts v
    using that by (induction ts) (auto simp: go_run)
  show ?case
  proof (cases "stmResource S s w = res")
    case True
    let ?w = "snd (stmSendElement S s stanza w)"
    from Cons.prems True have "\<forall>t \<in> set stms. stmResource S t w \<noteq> res" by (auto simp: image_iff)
    then have "\<forall>t \<in> set stms. stmResource S t ?w \<noteq> res"
      using assms(1) by (simp add: send_keeps_names_def)
    with True none show ?thesis by (simp add: resStream_def go_run)
  next
    case False
    with Cons show ?thesis by (simp add: resStream_def go_run)
  qed
qed

section \<open>Properties\<close>

text \<open>
  C20. Refinement of the local router: after any sequence of registrations, bindings and
  removals the streams waiting under an identifier and the stream bound to each user and
  resource name are those of the specification, every operation returned what the
  specification returns, and the streams a user has bound have distinct resource names.
\<close>

theorem local_router_refines:
  "let (xs, r) = run_all (lr_step S) ps (NewLocalRouter w);
       (ys, a) = run_all (lr_spec_step (\<lambda>s. stmID S s w) (\<lambda>s. (stmUsername S s w, stmResource S s w))) ps
                   \<lparr>spPending = Map.empty, spBound = Map.empty\<rparr>
   in xs = ys \<and> lr_abs S r = a \<and> lr_wf S r"
proof -
  have "lr_wf S (NewLocalRouter w)" and "lr_abs S (NewLocalRouter w) = \<lparr>spPending = Map.empty, spBound = Map.empty\<rparr>"
    by (auto simp: lr_wf_def lr_abs_def NewLocalRouter_def lrStream_def)
  with lr_run_refines [of S "NewLocalRouter w" w ps] show ?thesis
    by (auto simp: NewLocalRouter_def Let_def split: prod.splits)
qed

text \<open>
  Routing to a user and resource name sends the stanza once, to the stream bound to that
  name, and to no other stream; without such a stream nothing is sent. Routing never fails.
\<close>

theorem local_route_one_stream:
  assumes "send_keeps_names S" and "lr_wf S r"
  shows "lrRoute S stanza username resource r =
    (case lrStream S username resource r of
       None \<Rightarrow> (Inr (), r)
     | Some s \<Rightarrow> (Inr (), r\<lparr>lrWorld := snd (stmSendElement S s stanza (lrWorld r))\<rparr>))"
proof (cases "lrBndRes r username")
  case (Some stms)
  with assms(2) have d: "distinct (map (\<lambda>s. stmResource S s (lrWorld r)) stms)"
    by (auto simp: lr_wf_def)
  show ?thesis
    using Some by (simp add: lrRoute_def lrStream_def go_run lift_stm_def resRoute_stream [OF assms(1) d]
        split: option.split)
qed (simp add: lrRoute_def lrStream_def go_run)

text \<open>Streams whose state is the list of the stanzas sent to each of them.\<close>

definition log_stream :: "(nat \<times> element) list c2s_ops" where
  "log_stream = \<lparr>stmID = (\<lambda>s w. of_nat s), stmUsername = (\<lambda>s w. ''ortuman''),
     stmResource = (\<lambda>s w. if s = 1 then ''yard'' else ''balcony''),
     stmSendElement = (\<lambda>s e. modify (\<lambda>w. w @ [(s, e)])), stmDisconnect = (\<lambda>s e. ret ())\<rparr>"

theorem local_route_one_stream_witness:
  "lrWorld (snd (lrRoute log_stream (Element ''iq'' [] [] []) ''ortuman'' ''balcony''
     (snd (run_all (lr_step log_stream) [LRegister 1, LRegister 2, LBind 1, LBind 2] (NewLocalRouter [])))))
   = [(2, Element ''iq'' [] [] [])]"
proof -
  let ?r = "snd (run_all (lr_step log_stream) [LRegister 1, LRegister 2, LBind 1, LBind 2] (NewLocalRouter []))"
  have r: "?r = \<lparr>lrStms = Map.empty, lrBndRes = [''ortuman'' \<mapsto> [1, 2]], lrWorld = []\<rparr>"
    by (simp add: NewLocalRouter_def lrRegister_def lrBind_def resBind_def log_stream_def go_run Let_def
        fun_upd_twist)
  have "send_keeps_names log_stream" by (simp add: send_keeps_names_def log_stream_def go_run)
  moreover have "lr_wf log_stream ?r" unfolding r by (auto simp: lr_wf_def log_stream_def)
  ultimately show ?thesis
    using local_route_one_stream [of log_stream ?r "Element ''iq'' [] [] []" "''ortuman''" "''balcony''"]
    unfolding r by (simp add: lrStream_def resStream_def log_stream_def go_run)
qed

end
