(* ===== verification/Version.thy ===== *)
theory Version
  imports Prelude
begin

text \<open>
  Semantic versions (\<^verbatim>\<open>src/pkg/version/version.go\<close>), by which cluster members decide whether
  they speak the same protocol. Go's \<^verbatim>\<open>uint\<close> has 64 bits. The comparisons are shown to be the
  lexicographic linear order, which makes \<open>semver\<close> an instance of \<open>linorder\<close>.
\<close>

datatype semver = NewVersion (Major: "64 word") (Minor: "64 word") (Patch: "64 word")

definition AppVersion :: semver where "AppVersion = NewVersion 0 62 2"
definition APIVersion :: semver where "APIVersion = NewVersion 1 0 0"
definition ClusterAPIVersion :: semver where "ClusterAPIVersion = NewVersion 1 0 0"

definition VersionString :: "semver \<Rightarrow> string" where
  "VersionString v =
     ''v'' @ itoa_nat (unat (Major v)) @ ''.'' @ itoa_nat (unat (Minor v)) @ ''.'' @ itoa_nat (unat (Patch v))"

definition IsEqual :: "semver \<Rightarrow> semver \<Rightarrow> bool" where
  "IsEqual v v2 = (Major v = Major v2 \<and> Minor v = Minor v2 \<and> Patch v = Patch v2)"

definition IsLess :: "semver \<Rightarrow> semver \<Rightarrow> bool" where
  "IsLess v v2 =
     (if Major v = Major v2 then
        (if Minor v = Minor v2 then
           (if Patch v = Patch v2 then False else Patch v < Patch v2)
         else Minor v < Minor v2)
      else Major v < Major v2)"

definition IsLessOrEqual :: "semver \<Rightarrow> semver \<Rightarrow> bool" where
  "IsLessOrEqual v v2 = (IsLess v v2 \<or> IsEqual v v2)"

definition IsGreater :: "semver \<Rightarrow> semver \<Rightarrow> bool" where
  "IsGreater v v2 =
     (if Major v = Major v2 then
        (if Minor v = Minor v2 then
           (if Patch v = Patch v2 then False else Patch v > Patch v2)
         else Minor v > Minor v2)
      else Major v > Major v2)"

definition IsGreaterOrEqual :: "semver \<Rightarrow> semver \<Rightarrow> bool" where
  "IsGreaterOrEqual v v2 = (IsGreater v v2 \<or> IsEqual v v2)"

lemma IsEqual_iff [simp]: "IsEqual v u \<longleftrightarrow> v = u"
  by (cases v; cases u) (simp add: IsEqual_def)

instantiation semver :: linorder
begin

definition less_eq_semver :: "semver \<Rightarrow> semver \<Rightarrow> bool" where
  "less_eq_semver = IsLessOrEqual"

definition less_semver :: "semver \<Rightarrow> semver \<Rightarrow> bool" where
  "less_semver = IsLess"

instance
proof
  fix x y z :: semver
  show "(x < y) = (x \<le> y \<and> \<not> y \<le> x)"
    by (auto simp: less_eq_semver_def less_semver_def IsLessOrEqual_def IsLess_def)
  show "x \<le> x" by (simp add: less_eq_semver_def IsLessOrEqual_def)
  show "x \<le> y \<Longrightarrow> y \<le> z \<Longrightarrow> x \<le> z"
    by (auto simp: less_eq_semver_def IsLessOrEqual_def IsLess_def split: if_splits)
  show "x \<le> y \<Longrightarrow> y \<le> x \<Longrightarrow> x = y"
    by (auto simp: less_eq_semver_def IsLessOrEqual_def IsLess_def split: if_splits)
  show "x \<le> y \<or> y \<le> x"
    by (cases x; cases y) (auto simp: less_eq_semver_def IsLessOrEqual_def IsLess_def)
qed

end

section \<open>Reading a version\<close>

text \<open>
  \<^verbatim>\<open>fmt.Sscanf(s, "v%d.%d.%d", &major, &minor, &patch)\<close> on a string without blanks: the verbs
  read the longest run of digits, a mismatch or a number out of range stops the scan, and the
  fields it has not reached stay zero.
\<close>

definition is_digit :: "char \<Rightarrow> bool" where
  "is_digit c = (char_digit c \<noteq> None)"

definition scan_uint :: "string \<Rightarrow> (64 word \<times> string) option" where
  "scan_uint s =
     (case parse_nat (takeWhile is_digit s) of
        None \<Rightarrow> None
      | Some n \<Rightarrow> if n < 2 ^ 64 then Some (of_nat n, dropWhile is_digit s) else None)"

definition scan_lit :: "char \<Rightarrow> string \<Rightarrow> string option" where
  "scan_lit c s = (case s of [] \<Rightarrow> None | x # xs \<Rightarrow> if x = c then Some xs else None)"

fun scan_uints :: "char list \<Rightarrow> string \<Rightarrow> 64 word list" where
  "scan_uints [] s = []"
| "scan_uints (c # cs) s =
     (case scan_lit c s of
        None \<Rightarrow> []
      | Some s' \<Rightarrow> (case scan_uint s' of None \<Rightarrow> [] | Some (n, s'') \<Rightarrow> n # scan_uints cs s''))"

definition sscanf_version :: "string \<Rightarrow> semver" where
  "sscanf_version s =
     (case scan_uints ''v..'' s of
        [] \<Rightarrow> NewVersion 0 0 0
      | [a] \<Rightarrow> NewVersion a 0 0
      | [a, b] \<Rightarrow> NewVersion a b 0
      | a # b # c # _ \<Rightarrow> NewVersion a b c)"

lemma is_digit_itoa: "\<forall>c \<in> set (itoa_nat n). is_digit c"
  using set_itoa_nat [of n] by (auto simp: is_digit_def)

lemma scan_uint_itoa:
  assumes "n < 2 ^ 64" and "rest = [] \<or> \<not> is_digit (hd rest)"
  shows "scan_uint (itoa_nat n @ rest) = Some (of_nat n, rest)"
proof -
  have "takeWhile is_digit rest = []" "dropWhile is_digit rest = rest"
    using assms(2) by (cases rest; simp)+
  then have "takeWhile is_digit (itoa_nat n @ rest) = itoa_nat n"
    "dropWhile is_digit (itoa_nat n @ rest) = rest"
    using is_digit_itoa [of n] by (simp_all add: takeWhile_append2 dropWhile_append2)
  with assms(1) show ?thesis by (simp add: scan_uint_def)
qed

lemma not_digit_dot: "\<not> is_digit (CHR ''.'')"
  by (simp add: is_digit_def char_digit_def)

lemma sscanf_VersionString [simp]: "sscanf_version (VersionString v) = v"
proof -
  have b: "unat x < 2 ^ 64" for x :: "64 word"
    using unsigned_less [of x, where ?'a = nat] by simp
  have "scan_uints ''v..'' (VersionString v) = [Major v, Minor v, Patch v]"
    using scan_uint_itoa [OF b [of "Patch v"], of "[]"]
    by (simp add: VersionString_def scan_lit_def scan_uint_itoa [OF b] not_digit_dot)
  then show ?thesis by (simp add: sscanf_version_def)
qed

section \<open>Properties\<close>

text \<open>
  The version comparisons are one linear order, the lexicographic order of the three
  numbers: exactly one of less, equal and greater holds, and the remaining comparisons are
  their combinations.
\<close>

theorem semver_order:
  "(IsLess v u \<longleftrightarrow> ((unat (Major v), unat (Minor v), unat (Patch v)), (unat (Major u), unat (Minor u), unat (Patch u)))
      \<in> less_than <*lex*> less_than <*lex*> less_than) \<and>
   IsGreater v u = IsLess u v \<and> (IsEqual v u \<longleftrightarrow> \<not> IsLess v u \<and> \<not> IsGreater v u) \<and>
   IsLessOrEqual v u = (\<not> IsGreater v u) \<and> IsGreaterOrEqual v u = (\<not> IsLess v u)"
proof -
  have g: "IsGreater v u = IsLess u v" by (auto simp: IsGreater_def IsLess_def)
  have "(v < u) = (\<not> u \<le> v)" "(u < v) = (\<not> v \<le> u)" "(v = u) = (v \<le> u \<and> u \<le> v)" by auto
  then have "IsEqual v u \<longleftrightarrow> \<not> IsLess v u \<and> \<not> IsLess u v" "IsLessOrEqual v u = (\<not> IsLess u v)"
    "IsLessOrEqual u v = (\<not> IsLess v u)"
    by (auto simp: less_semver_def less_eq_semver_def)
  moreover have "IsGreaterOrEqual v u = IsLessOrEqual u v"
    by (auto simp: g IsGreaterOrEqual_def IsLessOrEqual_def)
  ultimately show ?thesis
    by (auto simp: g IsLess_def word_less_nat_alt word_unat_eq_iff)
qed

end
