(* ===== verification/Member_List.thy ===== *)
theory Member_List
  imports Resource_Manager Hooks Version
begin

text \<open>
  The members of the cluster (\<^verbatim>\<open>src/pkg/cluster/memberlist/kv_memberlist.go\<close>,
  \<^verbatim>\<open>src/pkg/model/cluster\<close>).
  \<^item> \<open>kvml\<close> is \<^verbatim>\<open>KVMemberList\<close>: the members by instance identifier, the mutex that guards them
    (\<open>mlLocked\<close>: an operation that finds it locked for good waits forever, \<open>ErrDeadlock\<close>), and
    the state the key-value store and the hook handlers act on (\<open>'w\<close>).
  \<^item> A member announces itself by a store entry; \<^verbatim>\<open>fmt.Sscanf\<close> and \<^verbatim>\<open>net.SplitHostPort\<close> are
    written out for the formats the code uses.
  The lemmas show the round trip of an announcement, that the list follows the store's
  events, and what an unreadable event does.
\<close>

section \<open>Data\<close>

record member =
  mInstanceID :: string
  mHost :: string
  mPort :: int
  mAPIVer :: semver

definition memberString :: "member \<Rightarrow> string" where
  "memberString m = mHost m @ '':'' @ itoa (mPort m)"

record member_list_info =
  mlRegistered :: "member list"
  mlUnregisteredKeys :: "string list"

record 'w kvml =
  mlMembers :: "string \<rightharpoonup> member"
  mlLocked :: bool
  mlWorld :: 'w

section \<open>Announcements\<close>

definition memberKeyPrefix :: string where
  "memberKeyPrefix = ''i://''"

definition localMemberKey :: "string \<Rightarrow> string" where
  "localMemberKey iid = memberKeyPrefix @ iid"

definition isLocalMemberKey :: "string \<Rightarrow> string \<Rightarrow> bool" where
  "isLocalMemberKey iid k = (k = localMemberKey iid)"

text \<open>\<^verbatim>\<open>fmt.Sprintf("a=%s cv=%s", lm.String(), lm.APIVer)\<close>.\<close>

definition memberValue :: "member \<Rightarrow> string" where
  "memberValue m = ''a='' @ memberString m @ '' cv='' @ VersionString (mAPIVer m)"

text \<open>
  \<^verbatim>\<open>fmt.Sscanf(val, "a=%s cv=%s", &addr, &minClusterVer)\<close>: \<open>%s\<close> skips blanks and reads up to the
  next blank; what follows a mismatch stays empty.
\<close>

definition is_blank :: "char \<Rightarrow> bool" where
  "is_blank c = (of_char c \<in> ({9, 10, 11, 12, 13, 32, 133, 160} :: nat set))"

definition is_newline :: "char \<Rightarrow> bool" where
  "is_newline c = (of_char c \<in> ({10, 13} :: nat set))"

definition skip_blanks :: "string \<Rightarrow> string" where
  "skip_blanks = dropWhile (\<lambda>c. is_blank c \<and> \<not> is_newline c)"

definition scan_word :: "string \<Rightarrow> string \<times> string" where
  "scan_word s = (let s' = skip_blanks s
     in (takeWhile (\<lambda>c. \<not> is_blank c) s', dropWhile (\<lambda>c. \<not> is_blank c) s'))"

definition sscanf_member :: "string \<Rightarrow> string \<times> string" where
  "sscanf_member val =
     (if \<not> has_prefix val ''a='' then ([], [])
      else (let (addr, rest) = scan_word (drop 2 val); rest' = skip_blanks rest
            in if \<not> has_prefix rest' ''cv='' then (addr, [])
               else (addr, fst (scan_word (drop 3 rest')))))"

text \<open>\<^verbatim>\<open>net.SplitHostPort\<close>.\<close>

definition last_index :: "'a \<Rightarrow> 'a list \<Rightarrow> nat option" where
  "last_index c s = (if c \<in> set s then Some (length s - Suc (length (takeWhile (\<lambda>x. x \<noteq> c) (rev s)))) else None)"

definition addr_error :: "string \<Rightarrow> go_error" where
  "addr_error why = ErrText (''address: '' @ why)"

definition SplitHostPort :: "string \<Rightarrow> go_error + (string \<times> string)" where
  "SplitHostPort hp =
     (case last_index (CHR '':'') hp of
        None \<Rightarrow> Inl (addr_error ''missing port in address'')
      | Some i \<Rightarrow>
          if hp ! 0 = CHR ''['' then
            (if CHR '']'' \<notin> set hp then Inl (addr_error ''missing ']' in address'')
             else let e = length (takeWhile (\<lambda>c. c \<noteq> CHR '']'') hp)
                  in if e + 1 = length hp then Inl (addr_error ''missing port in address'')
                     else if e + 1 \<noteq> i then
                       (if hp ! (e + 1) = CHR '':'' then Inl (addr_error ''too many colons in address'')
                        else Inl (addr_error ''missing port in address''))
                     else if CHR ''['' \<in> set (drop 1 hp) then Inl (addr_error ''unexpected '[' in address'')
                     else if CHR '']'' \<in> set (drop (e + 1) hp) then Inl (addr_error ''unexpected ']' in address'')
                     else Inr (take (e - 1) (drop 1 hp), drop (i + 1) hp))
          else if CHR '':'' \<in> set (take i hp) then Inl (addr_error ''too many colons in address'')
          else if CHR ''['' \<in> set hp then Inl (addr_error ''unexpected '[' in address'')
          else if CHR '']'' \<in> set hp then Inl (addr_error ''unexpected ']' in address'')
          else Inr (take i hp, drop (i + 1) hp))"

definition decodeClusterMember :: "string \<Rightarrow> string \<Rightarrow> go_error + member" where
  "decodeClusterMember key val =
     (let instanceID = trim_prefix key memberKeyPrefix;
          (addr, minClusterVer) = sscanf_member val;
          ver = sscanf_version minClusterVer
      in case SplitHostPort addr of
           Inl e \<Rightarrow> Inl e
         | Inr (h, sPort) \<Rightarrow>
             Inr \<lparr>mInstanceID = instanceID, mHost = h, mPort = fst (parse_int sPort), mAPIVer = ver\<rparr>)"

section \<open>The member list\<close>

definition NewKVMemberList :: "'w \<Rightarrow> 'w kvml" where
  "NewKVMemberList w = \<lparr>mlMembers = Map.empty, mlLocked = False, mlWorld = w\<rparr>"

definition mlLift :: "('w, 'a) go \<Rightarrow> ('w kvml, 'a) go" where
  "mlLift f = (\<lambda>m. case f (mlWorld m) of (r, w) \<Rightarrow> (r, m\<lparr>mlWorld := w\<rparr>))"

definition mlLock :: "('w kvml, unit) go" where
  "mlLock = (\<lambda>m. if mlLocked m then (Inl ErrDeadlock, m) else (Inr (), m\<lparr>mlLocked := True\<rparr>))"

definition mlUnlock :: "('w kvml, unit) go" where
  "mlUnlock = modify (\<lambda>m. m\<lparr>mlLocked := False\<rparr>)"

definition GetMember :: "string \<Rightarrow> ('w kvml, member option) go" where
  "GetMember instanceID =
     andthen mlLock (\<lambda>_. andthen (gets (\<lambda>m. mlMembers m instanceID)) (\<lambda>r. andthen mlUnlock (\<lambda>_. ret r)))"

definition GetMembers :: "('w kvml, string \<rightharpoonup> member) go" where
  "GetMembers = andthen mlLock (\<lambda>_. andthen (gets mlMembers) (\<lambda>r. andthen mlUnlock (\<lambda>_. ret r)))"

text \<open>\<open>hostIP\<close> is the result of \<^verbatim>\<open>getHostIP\<close>, which reads the machine's interfaces.\<close>

definition getLocalMember :: "string \<Rightarrow> int \<Rightarrow> go_error + string \<Rightarrow> go_error + member" where
  "getLocalMember iid localPort hostIP =
     map_sum id (\<lambda>ip. \<lparr>mInstanceID = iid, mHost = ip, mPort = localPort, mAPIVer = ClusterAPIVersion\<rparr>) hostIP"

definition mlJoin :: "'w kv_ops \<Rightarrow> string \<Rightarrow> int \<Rightarrow> go_error + string \<Rightarrow> ('w kvml, unit) go" where
  "mlJoin K iid localPort hostIP =
     (case getLocalMember iid localPort hostIP of
        Inl e \<Rightarrow> throw e
      | Inr lm \<Rightarrow> mlLift (kvPut K (localMemberKey iid) (memberValue lm)))"

definition mlRunHook :: "('w, member_list_info) hooks \<Rightarrow> member_list_info \<Rightarrow> ('w kvml, unit) go" where
  "mlRunHook hk info = andthen (mlLift (Run hk ''memberlist.updated'' info)) (\<lambda>_. ret ())"

fun decode_members :: "string \<Rightarrow> (string \<times> string) list \<Rightarrow> member list" where
  "decode_members iid [] = []"
| "decode_members iid ((k, val) # vs) =
     (if isLocalMemberKey iid k then decode_members iid vs
      else case decodeClusterMember k val of
             Inl e \<Rightarrow> decode_members iid vs
           | Inr m \<Rightarrow> m # decode_members iid vs)"

definition getMembers :: "'w kv_ops \<Rightarrow> string \<Rightarrow> ('w kvml, member list) go" where
  "getMembers K iid =
     andthen (mlLift (kvGetPrefix K memberKeyPrefix)) (\<lambda>vs. ret (decode_members iid vs))"

text \<open>
  The loop over the events, under the lock: the members put and the keys deleted. On an error
  Go returns without unlocking, and so does the model.
\<close>

fun process_events :: "string \<Rightarrow> watch_event list \<Rightarrow> member list \<Rightarrow> string list
    \<Rightarrow> ('w kvml, member list \<times> string list) go" where
  "process_events iid [] puts dels = ret (puts, dels)"
| "process_events iid (ev # evs) puts dels =
     (if isLocalMemberKey iid (evKey ev) then process_events iid evs puts dels
      else case evType ev of
        PutEvent \<Rightarrow>
          (case decodeClusterMember (evKey ev) (evVal ev) of
             Inl e \<Rightarrow> throw e
           | Inr m \<Rightarrow>
               andthen (modify (\<lambda>w. w\<lparr>mlMembers := (mlMembers w)(mInstanceID m \<mapsto> m)\<rparr>))
                 (\<lambda>_. process_events iid evs (puts @ [m]) dels))
      | DelEvent \<Rightarrow>
          (let memberKey = trim_prefix (evKey ev) memberKeyPrefix
           in andthen (modify (\<lambda>w. w\<lparr>mlMembers := (mlMembers w)(memberKey := None)\<rparr>))
                (\<lambda>_. process_events iid evs puts (dels @ [memberKey]))))"

definition mlProcessKVEvents ::
  "('w, member_list_info) hooks \<Rightarrow> string \<Rightarrow> watch_event list \<Rightarrow> ('w kvml, unit) go" where
  "mlProcessKVEvents hk iid kvEvents =
     andthen mlLock (\<lambda>_.
       andthen (process_events iid kvEvents [] []) (\<lambda>(putMembers, delMemberKeys).
         andthen mlUnlock (\<lambda>_.
           mlRunHook hk \<lparr>mlRegistered = putMembers, mlUnregisteredKeys = delMemberKeys\<rparr>)))"

text \<open>\<^verbatim>\<open>refreshMemberList\<close>: the goroutine up to \<^verbatim>\<open>close(ch)\<close>, then the watch loop on what the
  channel delivers.\<close>

definition load_members :: "'w kv_ops \<Rightarrow> ('w, member_list_info) hooks \<Rightarrow> string \<Rightarrow> ('w kvml, unit) go" where
  "load_members K hk iid =
     andthen (getMembers K iid) (\<lambda>ms.
       andthen mlLock (\<lambda>_.
         andthen (modify (\<lambda>w. w\<lparr>mlMembers := fold (\<lambda>m mm. mm(mInstanceID m \<mapsto> m)) ms (mlMembers w)\<rparr>)) (\<lambda>_.
           andthen mlUnlock (\<lambda>_. mlRunHook hk \<lparr>mlRegistered = ms, mlUnregisteredKeys = []\<rparr>))))"

definition watch_members ::
  "('w, member_list_info) hooks \<Rightarrow> string \<Rightarrow> watch_resp list \<Rightarrow> ('w kvml, unit) go" where
  "watch_members hk iid resps =
     for_each resps (\<lambda>resp. case resp of
       WatchErr e \<Rightarrow> ret ()
     | WatchEvents evs \<Rightarrow> ignore (mlProcessKVEvents hk iid evs))"

definition refreshMemberList ::
  "'w kv_ops \<Rightarrow> ('w, member_list_info) hooks \<Rightarrow> string \<Rightarrow> watch_resp list \<Rightarrow> ('w kvml, unit) go" where
  "refreshMemberList K hk iid resps =
     andthen (load_members K hk iid) (\<lambda>_. watch_members hk iid resps)"

definition mlStart ::
  "'w kv_ops \<Rightarrow> ('w, member_list_info) hooks \<Rightarrow> string \<Rightarrow> int \<Rightarrow> go_error + string \<Rightarrow> watch_resp list
   \<Rightarrow> ('w kvml, unit) go" where
  "mlStart K hk iid localPort hostIP resps =
     andthen (mlJoin K iid localPort hostIP) (\<lambda>_. refreshMemberList K hk iid resps)"

definition mlStop :: "'w kv_ops \<Rightarrow> string \<Rightarrow> ('w kvml, unit) go" where
  "mlStop K iid = mlLift (kvDel K (localMemberKey iid))"

section \<open>Lemmas\<close>

lemma last_index_append: "c \<notin> set t \<Longrightarrow> last_index c (s @ c # t) = Some (length s)"
  by (subst (2) append_Nil2 [symmetric], simp add: last_index_def)
    (subst takeWhile_append2, auto)

definition plain_host :: "string \<Rightarrow> bool" where
  "plain_host h \<longleftrightarrow> (\<forall>c \<in> set h. \<not> is_blank c \<and> c \<noteq> CHR '':'' \<and> c \<noteq> CHR ''['' \<and> c \<noteq> CHR '']'')"

lemma SplitHostPort_plain:
  assumes "plain_host h" and "plain_host p"
  shows "SplitHostPort (h @ '':'' @ p) = Inr (h, p)"
proof -
  have "last_index (CHR '':'') (h @ '':'' @ p) = Some (length h)"
    using assms(2) last_index_append [of "CHR '':''" p h] by (auto simp: plain_host_def)
  moreover have "(h @ '':'' @ p) ! 0 \<noteq> CHR ''[''"
    using assms(1) by (cases h) (auto simp: plain_host_def)
  ultimately show ?thesis
    using assms by (auto simp: SplitHostPort_def plain_host_def)
qed

lemma char_digit_plain: "char_digit c \<noteq> None \<Longrightarrow> plain_host [c]"
  by (auto simp: plain_host_def is_blank_def char_digit_def split: if_splits)

lemma plain_itoa_nat: "plain_host (itoa_nat n)"
  using is_digit_itoa [of n] char_digit_plain by (auto simp: plain_host_def is_digit_def)

lemma plain_itoa: "plain_host (itoa i)"
  using plain_itoa_nat by (simp add: itoa_def plain_host_def is_blank_def)

lemma plain_blank: "plain_host s \<Longrightarrow> \<forall>c \<in> set s. \<not> is_blank c"
  by (auto simp: plain_host_def)

lemma VersionString_blank: "\<forall>c \<in> set (VersionString v). \<not> is_blank c"
  using plain_itoa_nat [THEN plain_blank] by (auto simp: VersionString_def is_blank_def)

lemma memberString_blank: "plain_host (mHost m) \<Longrightarrow> \<forall>c \<in> set (memberString m). \<not> is_blank c"
  using plain_itoa [THEN plain_blank] plain_blank
  by (auto simp: memberString_def is_blank_def)

lemma scan_word_append:
  assumes "\<forall>c \<in> set s. \<not> is_blank c" and "s \<noteq> []" and "rest = [] \<or> is_blank (hd rest)"
  shows "scan_word (s @ rest) = (s, rest)"
proof -
  obtain x xs where x: "s = x # xs" using assms(2) by (cases s) auto
  with assms(1) have "skip_blanks (s @ rest) = s @ rest" by (simp add: skip_blanks_def)
  moreover have "takeWhile (\<lambda>c. \<not> is_blank c) rest = []" "dropWhile (\<lambda>c. \<not> is_blank c) rest = rest"
    using assms(3) by (cases rest; simp)+
  ultimately show ?thesis
    using assms(1) by (simp add: scan_word_def takeWhile_append2 dropWhile_append2)
qed

lemma sscanf_memberValue:
  assumes "plain_host (mHost m)"
  shows "sscanf_member (memberValue m) = (memberString m, VersionString (mAPIVer m))"
proof -
  let ?v = "VersionString (mAPIVer m)" and ?rest = "'' cv='' @ VersionString (mAPIVer m)"
  have b: "is_blank (CHR '' '')" "\<not> is_newline (CHR '' '')" "\<not> is_blank (CHR ''c'')"
    by (simp_all add: is_blank_def is_newline_def)
  have "scan_word (memberString m @ ?rest) = (memberString m, ?rest)"
    using memberString_blank [OF assms] b by (intro scan_word_append) (auto simp: memberString_def)
  moreover have "skip_blanks ?rest = ''cv='' @ ?v"
    using b by (simp add: skip_blanks_def)
  moreover have "scan_word ?v = (?v, [])"
    using VersionString_blank scan_word_append [of ?v "[]"] by (simp add: VersionString_def)
  ultimately show ?thesis
    by (simp add: sscanf_member_def memberValue_def has_prefix_def)
qed

lemma decode_announcement:
  assumes "plain_host (mHost m)" and "- max_int64 - 1 \<le> mPort m" and "mPort m \<le> max_int64"
  shows "decodeClusterMember (memberKeyPrefix @ mInstanceID m) (memberValue m) = Inr m"
  using SplitHostPort_plain [OF assms(1) plain_itoa] parse_int_itoa [OF assms(2,3)]
  by (simp add: decodeClusterMember_def sscanf_memberValue [OF assms(1)] memberString_def)

text \<open>The effect of one event on the abstract set of members.\<close>

definition event_member :: "string \<Rightarrow> watch_event \<Rightarrow> (string \<rightharpoonup> member) \<Rightarrow> (string \<rightharpoonup> member)" where
  "event_member iid ev mm =
     (if isLocalMemberKey iid (evKey ev) then mm
      else case evType ev of
        PutEvent \<Rightarrow> (case decodeClusterMember (evKey ev) (evVal ev) of
           Inl e \<Rightarrow> mm | Inr m \<Rightarrow> mm(mInstanceID m \<mapsto> m))
      | DelEvent \<Rightarrow> mm(trim_prefix (evKey ev) memberKeyPrefix := None))"

definition event_readable :: "string \<Rightarrow> watch_event \<Rightarrow> bool" where
  "event_readable iid ev \<longleftrightarrow> isLocalMemberKey iid (evKey ev) \<or> evType ev = DelEvent \<or>
     (\<exists>m. decodeClusterMember (evKey ev) (evVal ev) = Inr m)"

lemma process_events_ok:
  fixes w :: "'w kvml"
  assumes "\<forall>ev \<in> set evs. event_readable iid ev"
  shows "\<exists>r. process_events iid evs puts dels w = (Inr r, w\<lparr>mlMembers := fold (event_member iid) evs (mlMembers w)\<rparr>)"
  using assms
proof (induction evs arbitrary: puts dels w)
  case (Cons ev evs)
  have IH: "\<exists>r. process_events iid evs p d w =
      (Inr r, w\<lparr>mlMembers := fold (event_member iid) evs (mlMembers w)\<rparr>)" for p d and w :: "'w kvml"
    by (rule Cons.IH) (use Cons.prems in simp)
  show ?case
  proof (cases "isLocalMemberKey iid (evKey ev)")
    case True
    with IH show ?thesis by (simp add: event_member_def [of iid ev])
  next
    case False
    with Cons.prems obtain m where "evType ev = DelEvent \<or> decodeClusterMember (evKey ev) (evVal ev) = Inr m"
      by (auto simp: event_readable_def)
    then show ?thesis
      using False IH [of "puts @ [m]" dels "w\<lparr>mlMembers := (mlMembers w)(mInstanceID m \<mapsto> m)\<rparr>"]
        IH [of puts "dels @ [trim_prefix (evKey ev) memberKeyPrefix]"
          "w\<lparr>mlMembers := (mlMembers w)(trim_prefix (evKey ev) memberKeyPrefix := None)\<rparr>"]
      by (cases "evType ev") (auto simp: event_member_def [of iid ev] go_run Let_def)
  qed
qed (simp add: go_run)

section \<open>Properties\<close>

text \<open>
  A member reads another member's announcement back: decoding the key and value an instance
  writes when it joins gives that instance's identifier, address, port and protocol version.
  The host must be an IPv4 address or a name (no colon, bracket or blank), which is what
  \<^verbatim>\<open>getHostIP\<close> returns.
\<close>

theorem announcement_roundtrip:
  assumes "getLocalMember iid port (Inr ip) = Inr m"
    and "plain_host ip" and "- max_int64 - 1 \<le> port" and "port \<le> max_int64"
  shows "decodeClusterMember (localMemberKey iid) (memberValue m) = Inr m \<and>
    mInstanceID m = iid \<and> mHost m = ip \<and> mPort m = port \<and> mAPIVer m = ClusterAPIVersion"
proof -
  from assms(1) have m: "m = \<lparr>mInstanceID = iid, mHost = ip, mPort = port, mAPIVer = ClusterAPIVersion\<rparr>"
    by (simp add: getLocalMember_def)
  with assms(2-4) decode_announcement [of m] show ?thesis by (simp add: localMemberKey_def)
qed

theorem announcement_roundtrip_witness:
  "decodeClusterMember ''i://a1'' ''a=10.0.0.1:14369 cv=v1.0.0'' =
     Inr \<lparr>mInstanceID = ''a1'', mHost = ''10.0.0.1'', mPort = 14369, mAPIVer = ClusterAPIVersion\<rparr>"
proof -
  let ?m = "\<lparr>mInstanceID = ''a1'', mHost = ''10.0.0.1'', mPort = 14369, mAPIVer = ClusterAPIVersion\<rparr>"
  have "plain_host ''10.0.0.1''" by (simp add: plain_host_def is_blank_def)
  with announcement_roundtrip [of "''a1''" 14369 "''10.0.0.1''" ?m]
  have "decodeClusterMember (localMemberKey ''a1'') (memberValue ?m) = Inr ?m"
    by (simp add: getLocalMember_def max_int64_def)
  moreover have "memberValue ?m = ''a=10.0.0.1:14369 cv=v1.0.0''"
    by (simp add: memberValue_def memberString_def itoa_def VersionString_def ClusterAPIVersion_def
        itoa_nat.simps digit_char_def char_of_eq_iff)
  ultimately show ?thesis by (simp add: localMemberKey_def memberKeyPrefix_def)
qed

text \<open>
  The member list follows the store: processing a batch of readable events leaves the
  members that putting and deleting them in order leaves, ignores the events of the local
  instance, and releases the lock, whatever the hook handlers return.
\<close>

theorem member_list_follows:
  assumes "\<not> mlLocked w" and "\<forall>ev \<in> set evs. event_readable iid ev"
  shows "mlMembers (snd (mlProcessKVEvents hk iid evs w)) = fold (event_member iid) evs (mlMembers w) \<and>
    \<not> mlLocked (snd (mlProcessKVEvents hk iid evs w))"
proof -
  obtain r where "process_events iid evs [] [] (w\<lparr>mlLocked := True\<rparr>) =
      (Inr r, w\<lparr>mlLocked := True, mlMembers := fold (event_member iid) evs (mlMembers w)\<rparr>)"
    using process_events_ok [OF assms(2), of "[]" "[]" "w\<lparr>mlLocked := True\<rparr>"] by auto
  with assms(1) show ?thesis
    by (auto simp: mlProcessKVEvents_def mlLock_def mlUnlock_def mlRunHook_def mlLift_def go_run
        split: prod.splits sum.splits)
qed

theorem member_list_follows_witness:
  "mlMembers (snd (mlProcessKVEvents NewHooks ''a2''
     [\<lparr>evType = DelEvent, evKey = ''i://a1'', evVal = []\<rparr>, \<lparr>evType = PutEvent, evKey = ''i://a2'', evVal = []\<rparr>]
     ((NewKVMemberList ())\<lparr>mlMembers := [''a1'' \<mapsto> undefined]\<rparr>))) ''a1'' = None"
  by (subst member_list_follows [THEN conjunct1])
    (simp_all add: NewKVMemberList_def event_readable_def isLocalMemberKey_def localMemberKey_def
      memberKeyPrefix_def event_member_def trim_prefix_def has_prefix_def)

text \<open>
  An unreadable announcement disables the member list: processing it returns the error
  with the mutex still locked, after which looking up any member waits forever.
\<close>

theorem bad_announcement_deadlocks:
  assumes "\<not> mlLocked w" and "evType ev = PutEvent" and "\<not> isLocalMemberKey iid (evKey ev)"
    and "decodeClusterMember (evKey ev) (evVal ev) = Inl e"
  shows "\<exists>w'. mlProcessKVEvents hk iid (ev # evs) w = (Inl e, w') \<and> GetMember i w' = (Inl ErrDeadlock, w')"
  using assms by (simp add: mlProcessKVEvents_def mlLock_def GetMember_def go_run)

theorem bad_announcement_deadlocks_witness:
  "\<exists>e w'. mlProcessKVEvents NewHooks ''a1'' [\<lparr>evType = PutEvent, evKey = ''i://a2'', evVal = ''x''\<rparr>]
     (NewKVMemberList ()) = (Inl e, w') \<and> GetMember ''a2'' w' = (Inl ErrDeadlock, w')"
proof -
  have "decodeClusterMember ''i://a2'' ''x'' = Inl (addr_error ''missing port in address'')"
    by (simp add: decodeClusterMember_def sscanf_member_def has_prefix_def SplitHostPort_def last_index_def)
  then show ?thesis
    using bad_announcement_deadlocks [of "NewKVMemberList ()"
        "\<lparr>evType = PutEvent, evKey = ''i://a2'', evVal = ''x''\<rparr>" "''a1''"
        "addr_error ''missing port in address''" NewHooks "[]" "''a2''"]
    by (auto simp: NewKVMemberList_def isLocalMemberKey_def localMemberKey_def memberKeyPrefix_def)
qed

end
