(* ===== verification/Cluster_Conn.thy ===== *)
theory Cluster_Conn
  imports Member_List Local_Router
begin

text \<open>
  Connections between cluster members.
  \<^item> \<^verbatim>\<open>src/pkg/cluster/connmanager/manager.go\<close>, \<^verbatim>\<open>conn.go\<close>, \<^verbatim>\<open>localrouter.go\<close>: the table of dialed
    connections, which the member list hook maintains, and the client side of the local router
    service.
  \<^item> \<^verbatim>\<open>src/pkg/cluster/router/router.go\<close>: routing through a connection.
  \<^item> \<^verbatim>\<open>src/pkg/cluster/server/localrouterservice.go\<close>: the server side of the service.
  gRPC is reached through \<open>rpc_ops\<close>: dialing gives a connection handle, a call takes the request
  message. The state all of this acts on is \<open>'w\<close>. The lemmas show which connection a member has,
  the round trip of stream errors and what a remote call does.
\<close>

section \<open>Stream errors on the wire\<close>

datatype pb_reason =
    PB_INVALID_XML | PB_INVALID_NAMESPACE | PB_HOST_UNKNOWN | PB_CONFLICT | PB_INVALID_FROM
  | PB_POLICY_VIOLATION | PB_REMOTE_CONNECTION_FAILED | PB_CONNECTION_TIMEOUT
  | PB_UNSUPPORTED_STANZA_TYPE | PB_UNSUPPORTED_VERSION | PB_NOT_AUTHORIZED
  | PB_RESOURCE_CONSTRAINT | PB_SYSTEM_SHUTDOWN | PB_UNDEFINED_CONDITION | PB_INTERNAL_SERVER_ERROR

record pb_stream_error =
  pbReason :: pb_reason
  pbLang :: string
  pbText :: string
  pbApplicationElement :: "element option"

fun stmErrReasonMap :: "stream_reason \<Rightarrow> pb_reason" where
  "stmErrReasonMap InvalidXML = PB_INVALID_XML"
| "stmErrReasonMap InvalidNamespace = PB_INVALID_NAMESPACE"
| "stmErrReasonMap HostUnknown = PB_HOST_UNKNOWN"
| "stmErrReasonMap Conflict = PB_CONFLICT"
| "stmErrReasonMap InvalidFrom = PB_INVALID_FROM"
| "stmErrReasonMap PolicyViolation = PB_POLICY_VIOLATION"
| "stmErrReasonMap RemoteConnectionFailed = PB_REMOTE_CONNECTION_FAILED"
| "stmErrReasonMap ConnectionTimeout = PB_CONNECTION_TIMEOUT"
| "stmErrReasonMap UnsupportedStanzaType = PB_UNSUPPORTED_STANZA_TYPE"
| "stmErrReasonMap UnsupportedVersion = PB_UNSUPPORTED_VERSION"
| "stmErrReasonMap NotAuthorized = PB_NOT_AUTHORIZED"
| "stmErrReasonMap ResourceConstraint = PB_RESOURCE_CONSTRAINT"
| "stmErrReasonMap SystemShutdown = PB_SYSTEM_SHUTDOWN"
| "stmErrReasonMap UndefinedCondition = PB_UNDEFINED_CONDITION"
| "stmErrReasonMap InternalServerError = PB_INTERNAL_SERVER_ERROR"

fun errReasonMap :: "pb_reason \<Rightarrow> stream_reason" where
  "errReasonMap PB_INVALID_XML = InvalidXML"
| "errReasonMap PB_INVALID_NAMESPACE = InvalidNamespace"
| "errReasonMap PB_HOST_UNKNOWN = HostUnknown"
| "errReasonMap PB_INVALID_FROM = InvalidFrom"
| "errReasonMap PB_CONFLICT = Conflict"
| "errReasonMap PB_POLICY_VIOLATION = PolicyViolation"
| "errReasonMap PB_REMOTE_CONNECTION_FAILED = RemoteConnectionFailed"
| "errReasonMap PB_CONNECTION_TIMEOUT = ConnectionTimeout"
| "errReasonMap PB_UNSUPPORTED_STANZA_TYPE = UnsupportedStanzaType"
| "errReasonMap PB_UNSUPPORTED_VERSION = UnsupportedVersion"
| "errReasonMap PB_NOT_AUTHORIZED = NotAuthorized"
| "errReasonMap PB_RESOURCE_CONSTRAINT = ResourceConstraint"
| "errReasonMap PB_SYSTEM_SHUTDOWN = SystemShutdown"
| "errReasonMap PB_UNDEFINED_CONDITION = UndefinedCondition"
| "errReasonMap PB_INTERNAL_SERVER_ERROR = InternalServerError"

definition toProtoStreamError :: "stream_error \<Rightarrow> pb_stream_error" where
  "toProtoStreamError sErr =
     \<lparr>pbReason = stmErrReasonMap (seReason sErr), pbLang = seLang sErr, pbText = seText sErr,
      pbApplicationElement = seApplicationElement sErr\<rparr>"

definition toStreamError :: "pb_stream_error \<Rightarrow> stream_error" where
  "toStreamError p =
     \<lparr>seReason = errReasonMap (pbReason p), seLang = pbLang p, seText = pbText p,
      seApplicationElement = pbApplicationElement p\<rparr>"

section \<open>Connections\<close>

record route_request =
  rqUsername :: string
  rqResource :: string
  rqStanza :: element

record disconnect_request =
  dqUsername :: string
  dqResource :: string
  dqStreamError :: pb_stream_error

record 'w rpc_ops =
  rpcDial :: "string \<Rightarrow> ('w, nat) go"
  rpcClose :: "nat \<Rightarrow> ('w, unit) go"
  rpcRoute :: "nat \<Rightarrow> route_request \<Rightarrow> ('w, unit) go"
  rpcDisconnect :: "nat \<Rightarrow> disconnect_request \<Rightarrow> ('w, unit) go"

record cluster_conn =
  ccTarget :: string
  ccVer :: semver
  ccHandle :: nat

definition newConn :: "string \<Rightarrow> int \<Rightarrow> semver \<Rightarrow> nat \<Rightarrow> cluster_conn" where
  "newConn addr port ver handle = \<lparr>ccTarget = addr @ '':'' @ itoa port, ccVer = ver, ccHandle = handle\<rparr>"

text \<open>\<^verbatim>\<open>newConn\<close> followed by \<^verbatim>\<open>dialContext\<close>: the connection is only kept once it is dialed.\<close>

definition dialConn :: "'w rpc_ops \<Rightarrow> member \<Rightarrow> ('w, cluster_conn) go" where
  "dialConn G m =
     andthen (rpcDial G (mHost m @ '':'' @ itoa (mPort m))) (\<lambda>h. ret (newConn (mHost m) (mPort m) (mAPIVer m) h))"

definition clRoute :: "'w rpc_ops \<Rightarrow> cluster_conn \<Rightarrow> element \<Rightarrow> string \<Rightarrow> string \<Rightarrow> ('w, unit) go" where
  "clRoute G cc stanza username resource =
     rpcRoute G (ccHandle cc) \<lparr>rqUsername = username, rqResource = resource, rqStanza = stanza\<rparr>"

definition clDisconnect :: "'w rpc_ops \<Rightarrow> cluster_conn \<Rightarrow> string \<Rightarrow> string \<Rightarrow> stream_error \<Rightarrow> ('w, unit) go" where
  "clDisconnect G cc username resource streamErr =
     rpcDisconnect G (ccHandle cc)
       \<lparr>dqUsername = username, dqResource = resource, dqStreamError = toProtoStreamError streamErr\<rparr>"

section \<open>The connection manager\<close>

record 'w conn_manager =
  cmConns :: "string \<rightharpoonup> cluster_conn"
  cmWorld :: 'w

definition NewConnManager :: "'w \<Rightarrow> 'w conn_manager" where
  "NewConnManager w = \<lparr>cmConns = Map.empty, cmWorld = w\<rparr>"

definition cmLift :: "('w, 'a) go \<Rightarrow> ('w conn_manager, 'a) go" where
  "cmLift f = (\<lambda>m. case f (cmWorld m) of (r, w) \<Rightarrow> (r, m\<lparr>cmWorld := w\<rparr>))"

definition GetConnection :: "string \<Rightarrow> ('w conn_manager, cluster_conn) go" where
  "GetConnection instanceID =
     andthen (gets (\<lambda>m. cmConns m instanceID)) (\<lambda>c.
       case c of
         None \<Rightarrow> throw (ErrConnNotFound instanceID)
       | Some conn \<Rightarrow>
           if Major ClusterAPIVersion \<noteq> Major (ccVer conn) then throw ErrIncompatibleProtocol
           else ret conn)"

text \<open>Closing looks the connection up without checking that there is one: a nil receiver panics.\<close>

definition close_member :: "'w rpc_ops \<Rightarrow> string \<Rightarrow> ('w conn_manager, unit) go" where
  "close_member G instanceID =
     andthen (gets (\<lambda>m. cmConns m instanceID)) (\<lambda>c.
       case c of
         None \<Rightarrow> throw ErrPanic
       | Some cl \<Rightarrow>
           andthen (ignore (cmLift (rpcClose G (ccHandle cl)))) (\<lambda>_.
             modify (\<lambda>m. m\<lparr>cmConns := (cmConns m)(instanceID := None)\<rparr>)))"

definition dial_member :: "'w rpc_ops \<Rightarrow> member \<Rightarrow> ('w conn_manager, unit) go" where
  "dial_member G mb =
     andthen (attempt (cmLift (dialConn G mb))) (\<lambda>r.
       case r of
         Inl e \<Rightarrow> ret ()
       | Inr cl \<Rightarrow> modify (\<lambda>m. m\<lparr>cmConns := (cmConns m)(mInstanceID mb \<mapsto> cl)\<rparr>))"

definition cmOnMemberListUpdated :: "'w rpc_ops \<Rightarrow> member_list_info \<Rightarrow> ('w conn_manager, unit) go" where
  "cmOnMemberListUpdated G info =
     andthen (for_each (mlUnregisteredKeys info) (close_member G)) (\<lambda>_.
       for_each (mlRegistered info) (dial_member G))"

text \<open>\<open>order\<close> is the order in which the map of connections is iterated.\<close>

definition cmStop :: "'w rpc_ops \<Rightarrow> string list \<Rightarrow> ('w conn_manager, unit) go" where
  "cmStop G order =
     for_each order (\<lambda>instanceID.
       andthen (gets (\<lambda>m. cmConns m instanceID)) (\<lambda>c.
         case c of
           None \<Rightarrow> ret ()
         | Some cl \<Rightarrow>
             andthen (cmLift (rpcClose G (ccHandle cl))) (\<lambda>_.
               modify (\<lambda>m. m\<lparr>cmConns := (cmConns m)(instanceID := None)\<rparr>))))"

section \<open>The cluster router\<close>

definition crRoute :: "'w rpc_ops \<Rightarrow> element \<Rightarrow> string \<Rightarrow> string \<Rightarrow> string \<Rightarrow> ('w conn_manager, unit) go" where
  "crRoute G stanza username resource instanceID =
     andthen (GetConnection instanceID) (\<lambda>conn. cmLift (clRoute G conn stanza username resource))"

definition crDisconnect ::
  "'w rpc_ops \<Rightarrow> string \<Rightarrow> string \<Rightarrow> stream_error \<Rightarrow> string \<Rightarrow> ('w conn_manager, unit) go" where
  "crDisconnect G username resource streamErr instanceID =
     andthen (GetConnection instanceID) (\<lambda>conn. cmLift (clDisconnect G conn username resource streamErr))"

section \<open>The local router service\<close>

text \<open>\<open>build\<close> is the package's \<^verbatim>\<open>NewBuilderFromProto(...).BuildStanza()\<close>.\<close>

definition svcRoute ::
  "'s c2s_ops \<Rightarrow> (element \<Rightarrow> go_error + element) \<Rightarrow> route_request \<Rightarrow> ('s local_router, unit) go" where
  "svcRoute S build req =
     (case build (rqStanza req) of
        Inl e \<Rightarrow> throw (ErrText ''InvalidArgument'')
      | Inr st \<Rightarrow> ignore (lrRoute S st (rqUsername req) (rqResource req)))"

definition svcDisconnect :: "'s c2s_ops \<Rightarrow> disconnect_request \<Rightarrow> ('s local_router, unit) go" where
  "svcDisconnect S req =
     ignore (lrDisconnect S (dqUsername req) (dqResource req) (toStreamError (dqStreamError req)))"

section \<open>Lemmas\<close>

lemma errReasonMap_inverse [simp]: "errReasonMap (stmErrReasonMap r) = r"
  by (cases r) simp_all

lemma stream_error_wire [simp]: "toStreamError (toProtoStreamError e) = e"
  by (simp add: toStreamError_def toProtoStreamError_def)

text \<open>Closing the connections of some members: the world afterwards, and the table.\<close>

definition closed_world :: "'w rpc_ops \<Rightarrow> string list \<Rightarrow> (string \<rightharpoonup> cluster_conn) \<Rightarrow> 'w \<Rightarrow> 'w" where
  "closed_world G ids conns w = snd (run_all (rpcClose G) (map (\<lambda>i. ccHandle (the (conns i))) ids) w)"

lemma close_members_run:
  assumes "set ids \<subseteq> dom (cmConns m)" and "distinct ids"
  shows "for_each (ids @ rest) (close_member G) m =
    for_each rest (close_member G) \<lparr>cmConns = cmConns m |` (- set ids), cmWorld = closed_world G ids (cmConns m) (cmWorld m)\<rparr>"
  using assms
proof (induction ids arbitrary: m)
  case (Cons i ids)
  then obtain cl where cl: "cmConns m i = Some cl" by auto
  define m1 where "m1 = \<lparr>cmConns = (cmConns m)(i := None), cmWorld = snd (rpcClose G (ccHandle cl) (cmWorld m))\<rparr>"
  have step: "close_member G i m = (Inr (), m1)"
    using cl by (simp add: close_member_def cmLift_def m1_def go_run split_beta)
  have ids: "set ids \<subseteq> dom (cmConns m1)" "distinct ids" using Cons.prems by (auto simp: m1_def)
  have c: "cmConns m1 |` (- set ids) = cmConns m |` (- set (i # ids))"
    by (auto simp: restrict_map_def fun_eq_iff m1_def)
  have h: "map (\<lambda>k. ccHandle (the (cmConns m1 k))) ids = map (\<lambda>k. ccHandle (the (cmConns m k))) ids"
    using Cons.prems by (auto simp: m1_def)
  have "cmWorld m1 = snd (rpcClose G (ccHandle cl) (cmWorld m))" by (simp add: m1_def)
  then have w: "closed_world G ids (cmConns m1) (cmWorld m1) = closed_world G (i # ids) (cmConns m) (cmWorld m)"
    unfolding closed_world_def h using cl by (simp add: split_beta)
  have "for_each ((i # ids) @ rest) (close_member G) m = for_each (ids @ rest) (close_member G) m1"
    using step by (simp add: go_run)
  then show ?case unfolding Cons.IH [OF ids] c w .
next
  case Nil
  show ?case by (cases m) (simp add: closed_world_def restrict_map_def)
qed

text \<open>The connections of the members that answered when they were dialed.\<close>

definition answering :: "member list \<Rightarrow> (go_error + nat) list \<Rightarrow> (string \<times> cluster_conn) list" where
  "answering ms rs = [(mInstanceID mb, \<lparr>ccTarget = mHost mb @ '':'' @ itoa (mPort mb), ccVer = mAPIVer mb, ccHandle = h\<rparr>).
     (mb, r) \<leftarrow> zip ms rs, h \<leftarrow> (case r of Inl _ \<Rightarrow> [] | Inr h \<Rightarrow> [h])]"

lemma dial_members_run:
  assumes "run_all (\<lambda>mb. rpcDial G (mHost mb @ '':'' @ itoa (mPort mb))) ms (cmWorld m) = (rs, w')"
  shows "for_each ms (dial_member G) m = (Inr (), \<lparr>cmConns = cmConns m ++ map_of (rev (answering ms rs)), cmWorld = w'\<rparr>)"
  using assms
proof (induction ms arbitrary: m rs)
  case (Cons mb ms)
  let ?a = "mHost mb @ '':'' @ itoa (mPort mb)"
  obtain r w1 where r: "rpcDial G ?a (cmWorld m) = (r, w1)" by fastforce
  with Cons.prems obtain rs' where rs: "rs = r # rs'" "run_all (\<lambda>mb. rpcDial G (mHost mb @ '':'' @ itoa (mPort mb))) ms w1 = (rs', w')"
    by (auto split: prod.splits)
  let ?c = "case r of Inl _ \<Rightarrow> cmConns m | Inr h \<Rightarrow> (cmConns m)(mInstanceID mb \<mapsto> newConn (mHost mb) (mPort mb) (mAPIVer mb) h)"
  have "dial_member G mb m = (Inr (), \<lparr>cmConns = ?c, cmWorld = w1\<rparr>)"
    using r by (cases r) (simp_all add: dial_member_def dialConn_def cmLift_def go_run)
  moreover have "?c ++ map_of (rev (answering ms rs')) = cmConns m ++ map_of (rev (answering (mb # ms) (r # rs')))"
    by (cases r) (simp_all add: answering_def newConn_def)
  ultimately show ?case using Cons.IH [of "\<lparr>cmConns = ?c, cmWorld = w1\<rparr>" rs'] rs by (simp add: go_run)
next
  case Nil
  then show ?case by (cases m) (simp add: go_run answering_def)
qed

section \<open>Properties\<close>

text \<open>
  A stream error survives the trip to another cluster member: for every reason, text,
  language and application element, the error the remote server hands to its local router is the
  one the caller passed.
\<close>

theorem remote_disconnect_error:
  "svcDisconnect S \<lparr>dqUsername = u, dqResource = r, dqStreamError = toProtoStreamError e\<rparr> =
     ignore (lrDisconnect S u r e)"
  by (simp add: svcDisconnect_def)

text \<open>
  C27. The connections follow the member list, as long as removed members had one. An update first closes
  the connections of the removed members and then dials the added ones, in the order in which it names
  them. When every removed member had a connection, a member has one afterwards exactly when it was
  added and answered at that time, with the address, the version and the handle of the last such dial,
  or it had one before and was neither removed nor dialed again with success; a dial that fails leaves everything
  else alone. At the first removed member without a connection (its dial had failed) the handler
  panics: the connections of those before it are closed, the later ones stay, and nobody is dialed.
\<close>

theorem connections_follow_members:
  fixes m :: "'w conn_manager"
  assumes "keys = mlUnregisteredKeys info" and "dial = (\<lambda>mb. rpcDial G (mHost mb @ '':'' @ itoa (mPort mb)))"
  shows "(set keys \<subseteq> dom (cmConns m) \<and> distinct keys \<longrightarrow>
      (\<forall>rs w. run_all dial (mlRegistered info) (closed_world G keys (cmConns m) (cmWorld m)) = (rs, w) \<longrightarrow>
        cmOnMemberListUpdated G info m =
          (Inr (), \<lparr>cmConns = (cmConns m |` (- set keys)) ++ map_of (rev (answering (mlRegistered info) rs)), cmWorld = w\<rparr>))) \<and>
    (\<forall>pre i post. keys = pre @ i # post \<and> set pre \<subseteq> dom (cmConns m) \<and> distinct pre \<and> (i \<notin> dom (cmConns m) \<or> i \<in> set pre) \<longrightarrow>
        cmOnMemberListUpdated G info m =
          (Inl ErrPanic, \<lparr>cmConns = cmConns m |` (- set pre), cmWorld = closed_world G pre (cmConns m) (cmWorld m)\<rparr>))"
proof (intro conjI impI allI)
  fix rs w assume k: "set keys \<subseteq> dom (cmConns m) \<and> distinct keys"
    and d: "run_all dial (mlRegistered info) (closed_world G keys (cmConns m) (cmWorld m)) = (rs, w)"
  let ?m = "\<lparr>cmConns = cmConns m |` (- set keys), cmWorld = closed_world G keys (cmConns m) (cmWorld m)\<rparr>"
  have "for_each keys (close_member G) m = (Inr (), ?m)"
    using close_members_run [of keys m "[]" G] k by (simp add: go_run)
  moreover have "for_each (mlRegistered info) (dial_member G) ?m =
      (Inr (), \<lparr>cmConns = cmConns ?m ++ map_of (rev (answering (mlRegistered info) rs)), cmWorld = w\<rparr>)"
    by (rule dial_members_run) (use d assms(2) in simp)
  ultimately show "cmOnMemberListUpdated G info m =
      (Inr (), \<lparr>cmConns = (cmConns m |` (- set keys)) ++ map_of (rev (answering (mlRegistered info) rs)), cmWorld = w\<rparr>)"
    by (simp add: cmOnMemberListUpdated_def assms(1) go_run)
next
  fix pre i post
  assume k: "keys = pre @ i # post \<and> set pre \<subseteq> dom (cmConns m) \<and> distinct pre \<and> (i \<notin> dom (cmConns m) \<or> i \<in> set pre)"
  let ?m = "\<lparr>cmConns = cmConns m |` (- set pre), cmWorld = closed_world G pre (cmConns m) (cmWorld m)\<rparr>"
  from k have "cmConns ?m i = None" by (auto simp: restrict_map_def domIff)
  then have "for_each (i # post) (close_member G) ?m = (Inl ErrPanic, ?m)" by (simp add: close_member_def go_run)
  with close_members_run [of pre m "i # post" G] k
  have "for_each (mlUnregisteredKeys info) (close_member G) m = (Inl ErrPanic, ?m)" by (simp add: assms(1) [symmetric])
  then show "cmOnMemberListUpdated G info m = (Inl ErrPanic, ?m)" by (simp add: cmOnMemberListUpdated_def go_run)
qed

text \<open>gRPC operations for evaluation: the address of one member answers with a new handle each time, closing
  is recorded.\<close>

definition one_rpc :: "nat list rpc_ops" where
  "one_rpc = \<lparr>rpcDial = (\<lambda>t. if t = ''h:1'' then gets (\<lambda>w. length w) else throw (ErrText ''dial'')),
     rpcClose = (\<lambda>h. modify (\<lambda>w. h # w)), rpcRoute = (\<lambda>h r. ret ()), rpcDisconnect = (\<lambda>h r. ret ())\<rparr>"

definition one_member :: "string \<Rightarrow> string \<Rightarrow> member" where
  "one_member i h = \<lparr>mInstanceID = i, mHost = h, mPort = 1, mAPIVer = NewVersion 1 0 0\<rparr>"

theorem connections_follow_members_witness:
  "\<exists>w. cmOnMemberListUpdated one_rpc \<lparr>mlRegistered = [one_member ''b'' ''h'', one_member ''c'' ''x''], mlUnregisteredKeys = [''a'']\<rparr>
      \<lparr>cmConns = [''a'' \<mapsto> newConn ''h'' 1 (NewVersion 1 0 0) 7], cmWorld = []\<rparr>
    = (Inr (), \<lparr>cmConns = [''b'' \<mapsto> newConn ''h'' 1 (NewVersion 1 0 0) 1], cmWorld = w\<rparr>)"
proof -
  let ?info = "\<lparr>mlRegistered = [one_member ''b'' ''h'', one_member ''c'' ''x''], mlUnregisteredKeys = [''a'']\<rparr>"
  let ?m = "\<lparr>cmConns = [''a'' \<mapsto> newConn ''h'' 1 (NewVersion 1 0 0) 7], cmWorld = []\<rparr>"
  let ?dial = "\<lambda>mb. rpcDial one_rpc (mHost mb @ '':'' @ itoa (mPort mb))"
  have i1: "itoa 1 = ''1''" by code_simp
  have "closed_world one_rpc [''a''] (cmConns ?m) (cmWorld ?m) = [7]"
    by (simp add: closed_world_def one_rpc_def newConn_def go_run)
  then have run: "run_all ?dial (mlRegistered ?info) (closed_world one_rpc (mlUnregisteredKeys ?info) (cmConns ?m) (cmWorld ?m)) =
      ([Inr 1, Inl (ErrText ''dial'')], [7])"
    by (simp add: one_rpc_def one_member_def i1 go_run)
  have "(cmConns ?m |` (- set (mlUnregisteredKeys ?info))) ++ map_of (rev (answering (mlRegistered ?info) [Inr 1, Inl (ErrText ''dial'')])) =
      [''b'' \<mapsto> newConn ''h'' 1 (NewVersion 1 0 0) 1]"
    by (simp add: answering_def one_member_def newConn_def restrict_map_def fun_eq_iff map_add_def)
  with connections_follow_members [where info = ?info and G = one_rpc and m = ?m, OF refl refl] run show ?thesis by auto
qed

text \<open>
  Removing a member that was never dialed (its dial failed, or it was not reachable when it
  joined) panics, and the members after it in the update keep their connections.
\<close>

theorem unregister_undialed_panics:
  assumes "cmConns m i = None"
  shows "cmOnMemberListUpdated G \<lparr>mlRegistered = reg, mlUnregisteredKeys = i # is\<rparr> m = (Inl ErrPanic, m)"
  using assms by (simp add: cmOnMemberListUpdated_def close_member_def go_run)

theorem unregister_undialed_panics_witness:
  "fst (cmOnMemberListUpdated one_rpc \<lparr>mlRegistered = [], mlUnregisteredKeys = [''b'']\<rparr> (NewConnManager []))
   = Inl ErrPanic"
  using unregister_undialed_panics [of "NewConnManager []" "''b''" one_rpc "[]" "[]"]
  by (simp add: NewConnManager_def)

text \<open>
  A stanza leaves for another member only over a connection whose protocol has the same
  major version, exactly once and unchanged; otherwise nothing is sent and the caller gets the
  reason.
\<close>

theorem cluster_route_checks:
  "crRoute G stanza u r i m =
     (case cmConns m i of
        None \<Rightarrow> (Inl (ErrConnNotFound i), m)
      | Some c \<Rightarrow> if Major (ccVer c) = Major ClusterAPIVersion
                 then cmLift (rpcRoute G (ccHandle c) \<lparr>rqUsername = u, rqResource = r, rqStanza = stanza\<rparr>) m
                 else (Inl ErrIncompatibleProtocol, m))"
  by (auto simp: crRoute_def GetConnection_def clRoute_def go_run split: option.split)

end
