(* ===== verification/Routing.thy ===== *)
theory Routing
  imports Cluster_Conn
begin

text \<open>
  How a stanza finds its way.
  \<^item> \<^verbatim>\<open>src/pkg/c2s/router.go\<close>: which of a user's resources get a stanza, and whether each is
    reached on this instance or through the cluster.
  \<^item> \<^verbatim>\<open>src/pkg/s2s/router.go\<close>: stanzas for another server.
  \<^item> \<^verbatim>\<open>src/pkg/router/router.go\<close>: the choice between the two.
  The fields of the routers' structs are the fields of \<open>c2s_router\<close>, \<open>s2s_router\<close> and \<open>router\<close>; the
  state they act on is \<open>'w\<close>. The lemmas show who receives a stanza and which errors a sender sees.
\<close>

section \<open>The client router\<close>

record 'w c2s_router =
  instanceID :: string
  localRoute :: "element \<Rightarrow> string \<Rightarrow> string \<Rightarrow> ('w, unit) go"
  localDisconnect :: "string \<Rightarrow> string \<Rightarrow> stream_error \<Rightarrow> ('w, unit) go"
  localRegister :: "nat \<Rightarrow> ('w, unit) go"
  localBind :: "stream_id \<Rightarrow> ('w, nat) go"
  localUnregister :: "nat \<Rightarrow> ('w, unit) go"
  localStream :: "string \<Rightarrow> string \<Rightarrow> ('w, nat option) go"
  clusterRoute :: "element \<Rightarrow> string \<Rightarrow> string \<Rightarrow> string \<Rightarrow> ('w, unit) go"
  clusterDisconnect :: "string \<Rightarrow> string \<Rightarrow> stream_error \<Rightarrow> string \<Rightarrow> ('w, unit) go"
  resGetResources :: "string \<Rightarrow> ('w, resource_desc list) go"
  repUserExists :: "string \<Rightarrow> ('w, bool) go"

definition routeTo :: "'w c2s_router \<Rightarrow> element \<Rightarrow> resource_desc \<Rightarrow> ('w, unit) go" where
  "routeTo R stanza toRes =
     (let username = Node (rJID toRes); resource = Resource (rJID toRes)
      in if InstanceID toRes = instanceID R then localRoute R stanza username resource
         else clusterRoute R stanza username resource (InstanceID toRes))"

text \<open>The loops of \<^verbatim>\<open>route\<close>: the first resource with the given name; the leading resources of
  priority \<open>p0\<close>; all resources.\<close>

fun route_full :: "'w c2s_router \<Rightarrow> element \<Rightarrow> string \<Rightarrow> resource_desc list \<Rightarrow> ('w, jid list) go" where
  "route_full R stanza resource [] = throw ErrResourceNotFound"
| "route_full R stanza resource (res # rss) =
     (if Resource (rJID res) \<noteq> resource then route_full R stanza resource rss
      else andthen (routeTo R stanza res) (\<lambda>_. ret [rJID res]))"

fun route_prio :: "xlib \<Rightarrow> 'w c2s_router \<Rightarrow> element \<Rightarrow> int \<Rightarrow> resource_desc list \<Rightarrow> ('w, jid list) go" where
  "route_prio X R stanza p0 [] = ret []"
| "route_prio X R stanza p0 (res # rss) =
     (if rPriority X res < 0 \<or> rPriority X res \<noteq> p0 then ret []
      else andthen (routeTo R stanza res) (\<lambda>_.
             andthen (route_prio X R stanza p0 rss) (\<lambda>targets. ret (rJID res # targets))))"

fun route_all :: "'w c2s_router \<Rightarrow> element \<Rightarrow> resource_desc list \<Rightarrow> ('w, jid list) go" where
  "route_all R stanza [] = ret []"
| "route_all R stanza (res # rss) =
     andthen (routeTo R stanza res) (\<lambda>_.
       andthen (route_all R stanza rss) (\<lambda>targets. ret (rJID res # targets)))"

definition c2s_route :: "xlib \<Rightarrow> 'w c2s_router \<Rightarrow> element \<Rightarrow> resource_desc list \<Rightarrow> ('w, jid list) go" where
  "c2s_route X R stanza resources =
     (if length resources = 0 then throw ErrUserNotAvailable
      else let toJID = ToJID X stanza
           in if IsFullWithUser X toJID then route_full R stanza (Resource toJID) resources
              else if StanzaKind X stanza = MessageKind then
                (let sorted = sort_slice (\<lambda>a b. rPriority X a > rPriority X b) resources;
                     p0 = rPriority X (sorted ! 0)
                 in andthen (route_prio X R stanza p0 sorted) (\<lambda>targets.
                      if targets = [] then throw ErrUserNotAvailable else ret targets))
              else route_all R stanza resources)"

definition c2sRoute :: "xlib \<Rightarrow> 'w c2s_router \<Rightarrow> bool \<Rightarrow> element \<Rightarrow> ('w, jid list) go" where
  "c2sRoute X R checkUserExistence stanza =
     (let username = Node (ToJID X stanza);
          go_on = andthen (resGetResources R username) (c2s_route X R stanza)
      in if checkUserExistence then
           andthen (repUserExists R username) (\<lambda>exists.
             if \<not> exists then throw ErrNotExistingAccount else go_on)
         else go_on)"

definition c2sDisconnect :: "'w c2s_router \<Rightarrow> resource_desc \<Rightarrow> stream_error \<Rightarrow> ('w, unit) go" where
  "c2sDisconnect R res streamErr =
     (let username = Node (rJID res); resource = Resource (rJID res)
      in if instanceID R = InstanceID res then localDisconnect R username resource streamErr
         else clusterDisconnect R username resource streamErr (InstanceID res))"

definition c2sRegister :: "'w c2s_router \<Rightarrow> nat \<Rightarrow> ('w, unit) go" where
  "c2sRegister R stm = localRegister R stm"

definition c2sBind :: "'w c2s_router \<Rightarrow> stream_id \<Rightarrow> ('w, unit) go" where
  "c2sBind R i = andthen (localBind R i) (\<lambda>_. ret ())"

definition c2sUnregister :: "'w c2s_router \<Rightarrow> nat \<Rightarrow> ('w, unit) go" where
  "c2sUnregister R stm = localUnregister R stm"

definition c2sLocalStream :: "'w c2s_router \<Rightarrow> string \<Rightarrow> string \<Rightarrow> ('w, nat) go" where
  "c2sLocalStream R username resource =
     andthen (localStream R username resource) (\<lambda>stm.
       case stm of
         None \<Rightarrow> throw (ErrText (''c2s: local stream not found: '' @ username @ ''/'' @ resource))
       | Some s \<Rightarrow> ret s)"

section \<open>The server router\<close>

text \<open>\<open>getOut\<close> is \<^verbatim>\<open>OutProvider.GetOut\<close>, whose timeout error is \<open>ErrRemoteServerTimeout\<close> here.\<close>

record 'w s2s_router =
  getOut :: "string \<Rightarrow> string \<Rightarrow> ('w, nat) go"
  outSendElement :: "nat \<Rightarrow> element \<Rightarrow> ('w, unit) go"

definition s2sRoute :: "xlib \<Rightarrow> 'w s2s_router \<Rightarrow> element \<Rightarrow> string \<Rightarrow> ('w, unit) go" where
  "s2sRoute X R stanza senderDomain =
     andthen (attempt (getOut R senderDomain (Domain (ToJID X stanza)))) (\<lambda>r.
       case r of
         Inl e \<Rightarrow> throw (if e = ErrRemoteServerTimeout then ErrRemoteServerTimeout else ErrRemoteServerNotFound)
       | Inr stm \<Rightarrow> ignore (outSendElement R stm stanza))"

section \<open>The global router\<close>

record ('w, 'cer) router =
  rtHosts :: "'cer hosts"
  rtC2S :: "'w c2s_router"
  rtS2S :: "'w s2s_router option"

definition router_route :: "xlib \<Rightarrow> ('w, 'cer) router \<Rightarrow> bool \<Rightarrow> element \<Rightarrow> ('w, jid list) go" where
  "router_route X R routingOpts stanza =
     (let toJID = ToJID X stanza
      in if IsLocalHost (rtHosts R) (Domain toJID) then c2sRoute X (rtC2S R) routingOpts stanza
         else case rtS2S R of
                None \<Rightarrow> throw ErrRemoteServerNotFound
              | Some s2s \<Rightarrow>
                  andthen (s2sRoute X s2s stanza (DefaultHostName (rtHosts R))) (\<lambda>_. ret [toJID]))"

definition Route :: "xlib \<Rightarrow> ('w, 'cer) router \<Rightarrow> element \<Rightarrow> ('w, jid list) go" where
  "Route X R stanza = router_route X R True stanza"

section \<open>Lemmas\<close>

text \<open>Routing to a list of resources, and the resources a message for a user goes to.\<close>

definition send_each :: "'w c2s_router \<Rightarrow> element \<Rightarrow> resource_desc list \<Rightarrow> ('w, jid list) go" where
  "send_each R stanza ts = andthen (for_each ts (routeTo R stanza)) (\<lambda>_. ret (map rJID ts))"

definition best_resources :: "xlib \<Rightarrow> resource_desc list \<Rightarrow> resource_desc list" where
  "best_resources X rss =
     filter (\<lambda>r. rPriority X r \<ge> 0 \<and> (\<forall>r' \<in> set rss. rPriority X r' \<le> rPriority X r)) rss"

lemma route_all_send: "route_all R stanza rss = send_each R stanza rss"
  by (induction rss) (simp_all add: send_each_def andthen_assoc)

lemma route_full_find:
  "route_full R stanza resource rss =
     (case find_first (has_resource resource) rss of
        None \<Rightarrow> throw ErrResourceNotFound | Some r \<Rightarrow> send_each R stanza [r])"
  by (induction rss) (auto simp: send_each_def andthen_assoc)

lemma route_prio_send:
  "route_prio X R stanza p0 rss =
     send_each R stanza (takeWhile (\<lambda>r. \<not> (rPriority X r < 0 \<or> rPriority X r \<noteq> p0)) rss)"
  by (induction rss) (auto simp: send_each_def andthen_assoc)

lemma takeWhile_sorted:
  fixes key :: "'a \<Rightarrow> int"
  assumes "sorted_wrt (\<lambda>a b. key a \<ge> key b) (y # ys)"
  shows "takeWhile (\<lambda>r. \<not> (key r < 0 \<or> key r \<noteq> key y)) (y # ys) =
    filter (\<lambda>r. key r \<ge> 0 \<and> (\<forall>r' \<in> set (y # ys). key r' \<le> key r)) (y # ys)"
proof -
  have eq: "(\<not> (key r < 0 \<or> key r \<noteq> key y)) = (key r \<ge> 0 \<and> (\<forall>r' \<in> set (y # ys). key r' \<le> key r))"
    if "r \<in> set (y # ys)" for r
    using that assms by force
  have tw: "takeWhile (\<lambda>r. \<not> (key r < 0 \<or> key r \<noteq> key y)) zs = filter (\<lambda>r. \<not> (key r < 0 \<or> key r \<noteq> key y)) zs"
    if "sorted_wrt (\<lambda>a b. key a \<ge> key b) zs" "\<forall>z \<in> set zs. key z \<le> key y" for zs
    using that
  proof (induction zs)
    case (Cons a zs)
    then show ?case by (auto simp: empty_filter_conv)
  qed simp
  have "takeWhile (\<lambda>r. \<not> (key r < 0 \<or> key r \<noteq> key y)) (y # ys) =
      filter (\<lambda>r. \<not> (key r < 0 \<or> key r \<noteq> key y)) (y # ys)"
    by (rule tw [OF assms]) (use assms in simp)
  also have "\<dots> = filter (\<lambda>r. key r \<ge> 0 \<and> (\<forall>r' \<in> set (y # ys). key r' \<le> key r)) (y # ys)"
    by (rule filter_cong [OF refl eq])
  finally show ?thesis .
qed

lemma mset_best_resources:
  "mset rss = mset rss' \<Longrightarrow> mset (best_resources X rss) = mset (best_resources X rss')"
proof -
  assume m: "mset rss = mset rss'"
  then have "set rss = set rss'" by (rule mset_eq_setD)
  with m show ?thesis by (simp add: best_resources_def)
qed

lemma c2s_route_message:
  assumes "StanzaKind X stanza = MessageKind" and "\<not> IsFullWithUser X (ToJID X stanza)"
  shows "\<exists>ts. mset ts = mset (best_resources X rss) \<and>
    c2s_route X R stanza rss = (if ts = [] then throw ErrUserNotAvailable else send_each R stanza ts)"
proof (cases "rss = []")
  case True
  then show ?thesis by (intro exI [of _ "[]"]) (simp add: c2s_route_def best_resources_def)
next
  case False
  let ?s = "sort_slice (\<lambda>a b. rPriority X a > rPriority X b) rss"
  have "length ?s \<noteq> 0" using False by (simp only: length_sort_slice) simp
  then obtain y ys where y: "?s = y # ys" by (cases ?s) auto
  let ?ts = "takeWhile (\<lambda>r. \<not> (rPriority X r < 0 \<or> rPriority X r \<noteq> rPriority X y)) (y # ys)"
  have "sorted_wrt (\<lambda>a b. rPriority X a \<ge> rPriority X b) (y # ys)"
    unfolding y [symmetric] by (rule sorted_sort_slice)
  from takeWhile_sorted [OF this] have "?ts = best_resources X ?s" by (simp only: best_resources_def y)
  then have "mset ?ts = mset (best_resources X rss)"
    using mset_best_resources [of ?s rss X] by simp
  moreover have "c2s_route X R stanza rss = (if ?ts = [] then throw ErrUserNotAvailable else send_each R stanza ?ts)"
    using False assms y
    by (auto simp: c2s_route_def Let_def route_prio_send send_each_def andthen_assoc simp del: takeWhile.simps)
  ultimately show ?thesis by blast
qed

section \<open>The errors of routing\<close>

text \<open>\<open>fails_with E m\<close>: every error of the computation is in \<open>E\<close>.\<close>

definition fails_with :: "go_error set \<Rightarrow> ('w, 'a) go \<Rightarrow> bool" where
  "fails_with E m \<longleftrightarrow> (\<forall>w e w'. m w = (Inl e, w') \<longrightarrow> e \<in> E)"

lemma fails_with_ret [simp]: "fails_with E (ret x)"
  by (simp add: fails_with_def go_run)

lemma fails_with_throw [simp]: "fails_with E (throw e) \<longleftrightarrow> e \<in> E"
  by (auto simp: fails_with_def go_run)

lemma fails_with_andthen:
  "fails_with E m \<Longrightarrow> (\<And>x. fails_with E (f x)) \<Longrightarrow> fails_with E (andthen m f)"
  unfolding fails_with_def by (auto simp: go_run split: prod.splits sum.splits)

lemma fails_with_for_each: "(\<And>x. fails_with E (f x)) \<Longrightarrow> fails_with E (for_each xs f)"
  by (induction xs) (auto intro: fails_with_andthen)

lemma fails_with_send_each:
  "(\<And>r. fails_with E (routeTo R stanza r)) \<Longrightarrow> fails_with E (send_each R stanza ts)"
  unfolding send_each_def by (intro fails_with_andthen fails_with_for_each) simp_all

lemma c2s_route_fails:
  assumes "\<And>r. fails_with E (routeTo R stanza r)" and "ErrUserNotAvailable \<in> E"
    and "\<not> IsFullWithUser X (ToJID X stanza)"
  shows "fails_with E (c2s_route X R stanza rss)"
proof (cases "StanzaKind X stanza = MessageKind")
  case True
  obtain ts where "c2s_route X R stanza rss = (if ts = [] then throw ErrUserNotAvailable else send_each R stanza ts)"
    using c2s_route_message [OF True assms(3)] by blast
  with assms(2) fails_with_send_each [OF assms(1)] show ?thesis by simp
next
  case False
  with assms show ?thesis by (simp add: c2s_route_def Let_def route_all_send fails_with_send_each)
qed

text \<open>The parts of the client router do not report a missing resource themselves.\<close>

definition routing_ok :: "'w c2s_router \<Rightarrow> bool" where
  "routing_ok R \<longleftrightarrow>
     (\<forall>s u r. fails_with (- {ErrResourceNotFound}) (localRoute R s u r)) \<and>
     (\<forall>s u r i. fails_with (- {ErrResourceNotFound}) (clusterRoute R s u r i)) \<and>
     (\<forall>u. fails_with (- {ErrResourceNotFound}) (resGetResources R u)) \<and>
     (\<forall>u. fails_with (- {ErrResourceNotFound}) (repUserExists R u))"

lemma s2sRoute_fails: "fails_with {ErrRemoteServerNotFound, ErrRemoteServerTimeout} (s2sRoute X S stanza d)"
  by (auto simp: fails_with_def s2sRoute_def go_run split: sum.splits if_splits)

lemma fails_with_mono: "fails_with E m \<Longrightarrow> E \<subseteq> E' \<Longrightarrow> fails_with E' m"
  by (auto simp: fails_with_def)

lemma Route_bare:
  assumes "routing_ok (rtC2S R)" and "\<not> IsFullWithUser X (ToJID X stanza)"
  shows "fails_with (- {ErrResourceNotFound}) (Route X R stanza)"
proof -
  have "fails_with (- {ErrResourceNotFound}) (routeTo (rtC2S R) stanza r)" for r
    using assms(1) by (simp add: routing_ok_def routeTo_def Let_def)
  then have c2s: "fails_with (- {ErrResourceNotFound}) (c2s_route X (rtC2S R) stanza rss)" for rss
    by (rule c2s_route_fails) (simp_all add: assms(2))
  have s2s: "fails_with (- {ErrResourceNotFound}) (s2sRoute X S stanza d)" for S d
    by (rule fails_with_mono [OF s2sRoute_fails]) simp
  show ?thesis
    unfolding Route_def router_route_def c2sRoute_def Let_def
    using assms(1) by (auto intro!: fails_with_andthen c2s s2s simp: routing_ok_def split: option.split)
qed

section \<open>Properties\<close>

text \<open>
  C19. A message addressed to a user (not to one of his resources) is sent once to each of the
  resources whose priority is the highest one and is not negative, and to no other; their
  addresses are the targets returned. When there is no such resource the sender gets
  \<open>ErrUserNotAvailable\<close> and nothing is sent.
\<close>

theorem message_to_best_resources:
  assumes "StanzaKind X stanza = MessageKind" and "\<not> IsFullWithUser X (ToJID X stanza)"
  shows "\<exists>ts. mset ts = mset (best_resources X rss) \<and>
    c2s_route X R stanza rss =
      (if ts = [] then throw ErrUserNotAvailable
       else andthen (for_each ts (routeTo R stanza)) (\<lambda>_. ret (map rJID ts)))"
  using c2s_route_message [OF assms, of rss R] unfolding send_each_def .

text \<open>A router that records what it sends, and a user with three resources.\<close>

definition log_router :: "(string \<times> string) list c2s_router" where
  "log_router = \<lparr>instanceID = ''i1'', localRoute = (\<lambda>e u r. modify (\<lambda>w. w @ [(u, r)])),
     localDisconnect = (\<lambda>u r e. ret ()), localRegister = (\<lambda>s. ret ()), localBind = ret \<circ> unat,
     localUnregister = (\<lambda>s. ret ()), localStream = (\<lambda>u r. ret None),
     clusterRoute = (\<lambda>e u r i. modify (\<lambda>w. w @ [(i, r)])),
     clusterDisconnect = (\<lambda>u r e i. ret ()), resGetResources = (\<lambda>u. ret []), repUserExists = (\<lambda>u. ret True)\<rparr>"

definition prio_presence :: "string \<Rightarrow> element" where
  "prio_presence p = Element ''presence'' [] [] [Element ''priority'' [] p []]"

definition three_resources :: "resource_desc list" where
  "three_resources =
     [NewResourceDesc ''i1'' \<lparr>Node = ''noelia'', Domain = ''jackal.im'', Resource = ''a''\<rparr> (Some (prio_presence ''1'')) Map.empty,
      NewResourceDesc ''i2'' \<lparr>Node = ''noelia'', Domain = ''jackal.im'', Resource = ''b''\<rparr> (Some (prio_presence ''5'')) Map.empty,
      NewResourceDesc ''i1'' \<lparr>Node = ''noelia'', Domain = ''jackal.im'', Resource = ''c''\<rparr> (Some (prio_presence ''-1'')) Map.empty]"

lemma three_priorities: "map (rPriority std_lib) three_resources = [1, 5, - 1]"
  by (simp add: three_resources_def prio_presence_def NewResourceDesc_def rPriority_def std_lib_def
      parse_int_def parse_nat_def char_digit_def clamp_int64_def max_int64_def)

theorem message_to_best_resources_witness:
  "snd (c2s_route std_lib log_router (Element ''message'' [(''to'', ''noelia@jackal.im'')] [] []) three_resources [])
   = [(''i2'', ''b'')]"
proof -
  let ?m = "Element ''message'' [(''to'', ''noelia@jackal.im'')] [] []"
  have "StanzaKind std_lib ?m = MessageKind" "\<not> IsFullWithUser std_lib (ToJID std_lib ?m)"
    by (simp_all add: std_lib_def std_jid_of_def std_parse_jid_def std_attr_def)
  from message_to_best_resources [OF this, of three_resources log_router] obtain ts
    where ts: "mset ts = mset (best_resources std_lib three_resources)"
      and run: "c2s_route std_lib log_router ?m three_resources =
        (if ts = [] then throw ErrUserNotAvailable
         else andthen (for_each ts (routeTo log_router ?m)) (\<lambda>_. ret (map rJID ts)))" by blast
  have "best_resources std_lib three_resources = [three_resources ! 1]"
    using three_priorities by (simp add: best_resources_def three_resources_def)
  with ts have "ts = [three_resources ! 1]" by simp
  with run show ?thesis
    by (simp add: three_resources_def NewResourceDesc_def routeTo_def log_router_def go_run)
qed

text \<open>
  A stanza addressed to a full address goes to the resource with that name and to no other;
  without one the sender gets \<open>ErrResourceNotFound\<close>. A presence or iq addressed to a user goes
  to all his resources.
\<close>

theorem route_full_and_broadcast:
  assumes "rss \<noteq> []"
  shows "(IsFullWithUser X (ToJID X stanza) \<longrightarrow>
      c2s_route X R stanza rss =
        (case find_first (has_resource (Resource (ToJID X stanza))) rss of
           None \<Rightarrow> throw ErrResourceNotFound
         | Some r \<Rightarrow> andthen (routeTo R stanza r) (\<lambda>_. ret [rJID r]))) \<and>
    (\<not> IsFullWithUser X (ToJID X stanza) \<and> StanzaKind X stanza \<noteq> MessageKind \<longrightarrow>
      c2s_route X R stanza rss = andthen (for_each rss (routeTo R stanza)) (\<lambda>_. ret (map rJID rss)))"
  using assms
  by (auto simp: c2s_route_def Let_def route_full_find route_all_send send_each_def andthen_assoc
      simp del: find_first_None split: option.split)

theorem route_full_and_broadcast_witness:
  "snd (c2s_route std_lib log_router (Element ''presence'' [(''to'', ''noelia@jackal.im/c'')] [] []) three_resources [])
   = [(''noelia'', ''c'')]"
proof -
  let ?p = "Element ''presence'' [(''to'', ''noelia@jackal.im/c'')] [] []"
  have to: "ToJID std_lib ?p = \<lparr>Node = ''noelia'', Domain = ''jackal.im'', Resource = ''c''\<rparr>"
    by (simp add: std_lib_def std_jid_of_def std_parse_jid_def std_attr_def)
  then have "IsFullWithUser std_lib (ToJID std_lib ?p)" by (simp add: std_lib_def)
  moreover have "three_resources \<noteq> []" by (simp add: three_resources_def)
  ultimately have "c2s_route std_lib log_router ?p three_resources =
      (case find_first (has_resource (Resource (ToJID std_lib ?p))) three_resources of
         None \<Rightarrow> throw ErrResourceNotFound | Some r \<Rightarrow> andthen (routeTo log_router ?p r) (\<lambda>_. ret [rJID r]))"
    using route_full_and_broadcast [of three_resources std_lib ?p log_router] by blast
  then show ?thesis
    by (simp add: to) (simp add: three_resources_def NewResourceDesc_def routeTo_def log_router_def go_run)
qed

text \<open>
  Which router handles a stanza: the client router exactly when the domain is served here,
  otherwise the server router with the default host as the sender's domain, and
  \<open>ErrRemoteServerNotFound\<close> when the server has none. A stanza for an account that does not
  exist is refused before anything is looked up or sent.
\<close>

theorem route_dispatch:
  fixes R :: "('w, 'cer) router"
  shows "Route X R stanza =
     (let d = Domain (ToJID X stanza); u = Node (ToJID X stanza)
      in if IsLocalHost (rtHosts R) d then
           andthen (repUserExists (rtC2S R) u) (\<lambda>exists.
             if exists then andthen (resGetResources (rtC2S R) u) (c2s_route X (rtC2S R) stanza)
             else throw ErrNotExistingAccount)
         else case rtS2S R of
                None \<Rightarrow> throw ErrRemoteServerNotFound
              | Some s \<Rightarrow> andthen (s2sRoute X s stanza (DefaultHostName (rtHosts R))) (\<lambda>_. ret [ToJID X stanza]))"
proof -
  have "(\<lambda>b. if \<not> b then x else y) = (\<lambda>b. if b then y else x)" for x y :: "('w, jid list) go"
    by auto
  then show ?thesis by (simp add: Route_def router_route_def c2sRoute_def Let_def)
qed

end
