(* ===== verification/RSM.thy ===== *)
theory RSM
  imports Xmpp "HOL-Library.Signed_Division"
begin

text \<open>
  Result set management (\<^verbatim>\<open>src/pkg/module/xep0059/rsm.go\<close>): a page of a result set, by index, after
  or before an item, or the last one. Go's \<^verbatim>\<open>int\<close> has 64 bits and wraps (\<open>wrap64\<close>), its division
  truncates (\<open>sdiv\<close>, \<open>smod\<close>); dividing by zero and indexing out of range panic, which is the value
  \<open>Inl ErrPanic\<close>. The lemmas show what each kind of page holds, that paging forward visits every
  item once, and which requests panic.
\<close>

section \<open>Data\<close>

record rsm_request =
  After :: string
  Before :: string
  Index :: int
  Max :: int
  LastPage :: bool

record rsm_result =
  rsIndex :: int
  rsFirst :: string
  rsLast :: string
  rsCount :: int
  rsComplete :: bool

definition wrap64 :: "int \<Rightarrow> int" where
  "wrap64 x = (x + 2 ^ 63) mod 2 ^ 64 - 2 ^ 63"

definition RSMNamespace :: string where
  "RSMNamespace = ''http://jabber.org/protocol/rsm''"

definition empty_result :: rsm_result where
  "empty_result = \<lparr>rsIndex = 0, rsFirst = [], rsLast = [], rsCount = 0, rsComplete = False\<rparr>"

section \<open>Requests and results as elements\<close>

text \<open>\<^verbatim>\<open>strconv.Atoi\<close> of a child's text, zero when there is no such child.\<close>

definition child_int :: "xlib \<Rightarrow> element \<Rightarrow> string \<Rightarrow> go_error + int" where
  "child_int X el name =
     (case Child X el name of
        None \<Rightarrow> Inr 0
      | Some c \<Rightarrow> (case parse_int (Text c) of (v, ok) \<Rightarrow> if ok then Inr v else Inl (ErrText ''strconv.Atoi'')))"

definition NewRequestFromElement :: "xlib \<Rightarrow> element \<Rightarrow> go_error + rsm_request" where
  "NewRequestFromElement X el =
     (if Name el \<noteq> ''set'' then Inl (ErrText (''xep0059: invalid set name: '' @ Name el))
      else if Attribute X el ''xmlns'' \<noteq> RSMNamespace
        then Inl (ErrText (''xep0059: invalid set namespace: '' @ Attribute X el ''xmlns''))
      else case child_int X el ''max'' of
        Inl e \<Rightarrow> Inl e
      | Inr mx \<Rightarrow>
          (case child_int X el ''index'' of
             Inl e \<Rightarrow> Inl e
           | Inr ix \<Rightarrow>
               (let after = (case Child X el ''after'' of None \<Rightarrow> [] | Some a \<Rightarrow> Text a);
                    (before, lastPage) = (case Child X el ''before'' of
                       None \<Rightarrow> ([], False)
                     | Some b \<Rightarrow> if length (Text b) > 0 then (Text b, False) else ([], True))
                in Inr \<lparr>After = after, Before = before, Index = ix, Max = mx, LastPage = lastPage\<rparr>)))"

definition ResultElement :: "rsm_result \<Rightarrow> element" where
  "ResultElement r =
     Element ''set'' [(''xmlns'', RSMNamespace)] []
       ((if length (rsFirst r) > 0 then [Element ''first'' [(''index'', itoa (rsIndex r))] (rsFirst r) []] else []) @
        (if length (rsLast r) > 0 then [Element ''last'' [] (rsLast r) []] else []) @
        [Element ''count'' [] (itoa (rsCount r)) []])"

section \<open>Pages\<close>

text \<open>The loop that fills a page from position \<open>i\<close>: the items, and whether the last one was reached.\<close>

function page_loop :: "'a list \<Rightarrow> int \<Rightarrow> int \<Rightarrow> int \<Rightarrow> bool \<Rightarrow> go_error + ('a list \<times> bool \<times> int)" where
  "page_loop rs mx i cnt complete =
     (if i < int (length rs) \<and> cnt < mx then
        (if i < 0 then Inl ErrPanic
         else map_sum id (\<lambda>(page, c, n). (rs ! nat i # page, c, n))
                (page_loop rs mx (i + 1) (cnt + 1) (complete \<or> i \<ge> int (length rs) - 1)))
      else Inr ([], complete, cnt))"
  by pat_completeness auto
termination
  by (relation "measure (\<lambda>(rs, mx, i, cnt, complete). nat (int (length rs) - i))") auto

declare page_loop.simps [simp del]

definition page_result :: "int \<Rightarrow> 'a list \<times> bool \<times> int \<Rightarrow> 'a list \<times> rsm_result" where
  "page_result idx = (\<lambda>(page, complete, cnt).
     (page, empty_result\<lparr>rsIndex := idx, rsCount := cnt, rsComplete := complete\<rparr>))"

definition getPageByIndex :: "'a list \<Rightarrow> int \<Rightarrow> int \<Rightarrow> go_error + ('a list \<times> rsm_result)" where
  "getPageByIndex rs idx mx =
     (let i = wrap64 (idx * mx)
      in if i > int (length rs) - 1 then Inl ErrPageNotFound
         else map_sum id (page_result idx) (page_loop rs mx i 0 False))"

fun getIDIndex :: "'a list \<Rightarrow> ('a \<Rightarrow> string) \<Rightarrow> string \<Rightarrow> int" where
  "getIDIndex [] getID ident = -1"
| "getIDIndex (x # xs) getID ident =
     (if getID x = ident then 0 else let i = getIDIndex xs getID ident in if i = -1 then -1 else i + 1)"

definition page_from :: "'a list \<Rightarrow> int \<Rightarrow> int \<Rightarrow> go_error + ('a list \<times> rsm_result)" where
  "page_from rs startIdx mx =
     (case page_loop rs mx startIdx 0 False of
        Inl e \<Rightarrow> Inl e
      | Inr p \<Rightarrow> if mx = 0 then Inl ErrPanic else Inr (page_result (startIdx sdiv mx) p))"

definition getPageAfterID :: "'a list \<Rightarrow> ('a \<Rightarrow> string) \<Rightarrow> string \<Rightarrow> int \<Rightarrow> go_error + ('a list \<times> rsm_result)" where
  "getPageAfterID rs getID ident mx =
     (let idIdx = getIDIndex rs getID ident
      in if idIdx = -1 then Inl ErrPageNotFound else page_from rs (idIdx + 1) mx)"

definition getPageBeforeID :: "'a list \<Rightarrow> ('a \<Rightarrow> string) \<Rightarrow> string \<Rightarrow> int \<Rightarrow> go_error + ('a list \<times> rsm_result)" where
  "getPageBeforeID rs getID ident mx =
     (let idIdx = getIDIndex rs getID ident
      in if idIdx = -1 then Inl ErrPageNotFound
         else let startIdx = wrap64 (idIdx - mx) in page_from rs (if startIdx < 0 then 0 else startIdx) mx)"

definition lastIndex :: "int \<Rightarrow> int \<Rightarrow> go_error + int" where
  "lastIndex len mx =
     (if mx = 0 then Inl ErrPanic
      else let li = len sdiv mx - 1 in Inr (if len smod mx > 0 then li + 1 else li))"

definition GetResultSetPage ::
  "'a list \<Rightarrow> rsm_request \<Rightarrow> ('a \<Rightarrow> string) \<Rightarrow> go_error + ('a list \<times> rsm_result)" where
  "GetResultSetPage rs req getID =
     (let finish = (\<lambda>r. case r of
            Inl e \<Rightarrow> Inl e
          | Inr (page, res) \<Rightarrow>
              if page = [] then Inl ErrPanic
              else Inr (page, res\<lparr>rsFirst := getID (hd page), rsLast := getID (last page)\<rparr>))
      in if length rs = 0 \<and> Index req = 0 then Inr ([], empty_result\<lparr>rsComplete := True\<rparr>)
         else if LastPage req then
           (case lastIndex (int (length rs)) (Max req) of
              Inl e \<Rightarrow> Inl e
            | Inr li \<Rightarrow> finish (getPageByIndex rs li (Max req)))
         else if Index req > 0 then finish (getPageByIndex rs (Index req) (Max req))
         else if length (After req) > 0 then finish (getPageAfterID rs getID (After req) (Max req))
         else if length (Before req) > 0 then finish (getPageBeforeID rs getID (Before req) (Max req))
         else if Max req = 0 then Inr ([], empty_result\<lparr>rsCount := int (length rs)\<rparr>)
         else finish (getPageByIndex rs 0 (Max req)))"

section \<open>Lemmas\<close>

lemma wrap64_id: "- (2 ^ 63) \<le> x \<Longrightarrow> x < 2 ^ 63 \<Longrightarrow> wrap64 x = x"
  by (simp add: wrap64_def)

lemma wrap64_nonneg: "0 \<le> x \<Longrightarrow> x \<le> max_int64 \<Longrightarrow> wrap64 x = x"
  by (rule wrap64_id) (simp_all add: max_int64_def)

lemma page_loop_take:
  assumes "0 \<le> i" and "0 \<le> cnt" and "cnt \<le> mx"
  shows "page_loop rs mx i cnt c =
    (let page = take (nat (mx - cnt)) (drop (nat i) rs)
     in Inr (page, c \<or> (page \<noteq> [] \<and> int (length rs) \<le> i + (mx - cnt)), cnt + int (length page)))"
  using assms
proof (induction rs mx i cnt c rule: page_loop.induct)
  case (1 rs mx i cnt c)
  show ?case
  proof (cases "i < int (length rs) \<and> cnt < mx")
    case True
    then have d: "drop (nat i) rs = rs ! nat i # drop (nat (i + 1)) rs"
      using 1(2) Cons_nth_drop_Suc [of "nat i" rs, symmetric] by (simp add: nat_add_distrib nat_less_iff)
    have n: "nat (mx - cnt) = Suc (nat (mx - (cnt + 1)))" using True by linarith
    have IH: "page_loop rs mx (i + 1) (cnt + 1) (c \<or> i \<ge> int (length rs) - 1) =
      (let page = take (nat (mx - (cnt + 1))) (drop (nat (i + 1)) rs)
       in Inr (page, (c \<or> i \<ge> int (length rs) - 1) \<or> (page \<noteq> [] \<and> int (length rs) \<le> (i + 1) + (mx - (cnt + 1))),
            cnt + 1 + int (length page)))"
      using 1 True by simp
    show ?thesis
      unfolding page_loop.simps [of rs mx i cnt c] IH d n using True 1(2)
      by (auto simp: Let_def)
  next
    case False
    then show ?thesis using 1(2-4) by (auto simp: page_loop.simps [of rs mx i cnt c] Let_def)
  qed
qed

lemma page_loop_first:
  assumes "0 \<le> i" and "0 < mx" and "i < int (length rs)"
  shows "page_loop rs mx i 0 False =
    (let page = take (nat mx) (drop (nat i) rs)
     in Inr (page, int (length rs) \<le> i + mx, int (length page)))"
  using page_loop_take [of i 0 mx rs False] assms by (simp add: Let_def) linarith

lemma getPageByIndex_take:
  assumes "0 < mx" and "0 \<le> idx" and "idx * mx < int (length rs)" and "int (length rs) \<le> max_int64"
  shows "getPageByIndex rs idx mx =
    (let page = take (nat mx) (drop (nat (idx * mx)) rs)
     in Inr (page, \<lparr>rsIndex = idx, rsFirst = [], rsLast = [], rsCount = int (length page),
          rsComplete = int (length rs) \<le> idx * mx + mx\<rparr>))"
proof -
  have "0 \<le> idx * mx" "idx * mx \<le> max_int64" using assms by simp_all
  then have "wrap64 (idx * mx) = idx * mx" by (rule wrap64_nonneg)
  then show ?thesis
    using assms page_loop_first [of "idx * mx" mx rs]
    by (simp add: getPageByIndex_def Let_def page_result_def empty_result_def)
qed

lemma getIDIndex_nth:
  assumes "distinct (map getID rs)" and "n < length rs"
  shows "getIDIndex rs getID (getID (rs ! n)) = int n"
  using assms
proof (induction rs arbitrary: n)
  case (Cons x xs)
  then show ?case
  proof (cases n)
    case (Suc k)
    with Cons.prems have "getID x \<noteq> getID (xs ! k)" by (auto simp: image_iff)
    with Suc Cons show ?thesis by (simp add: Let_def)
  qed simp
qed simp

lemma page_from_take:
  assumes "0 \<le> i" and "0 < mx" and "i < int (length rs)"
  shows "page_from rs i mx =
    (let page = take (nat mx) (drop (nat i) rs)
     in Inr (page, \<lparr>rsIndex = i sdiv mx, rsFirst = [], rsLast = [], rsCount = int (length page),
          rsComplete = int (length rs) \<le> i + mx\<rparr>))"
  using page_loop_first [OF assms] assms
  by (simp add: page_from_def Let_def page_result_def empty_result_def)

lemma last_page_index:
  assumes "0 < mx" and "0 < n"
  shows "lastIndex n mx = Inr ((n - 1) div mx)"
proof -
  have s: "n sdiv mx = n div mx" "n smod mx = n mod mx"
    using assms by (simp_all add: signed_divide_int_def signed_modulo_int_def)
  show ?thesis
  proof (cases "n mod mx = 0")
    case True
    then obtain k where k: "n = mx * k" by auto
    with assms have "(n - 1) div mx = k - 1"
      by (intro int_div_pos_eq [of _ _ _ "mx - 1"]) (simp_all add: algebra_simps)
    with k s True assms show ?thesis by (simp add: lastIndex_def)
  next
    case False
    then have "n mod mx > 0" using assms by (simp add: order_less_le)
    moreover have "n mod mx < mx" "mx * (n div mx) + n mod mx = n" using assms by simp_all
    ultimately have "(n - 1) div mx = n div mx"
      by (intro int_div_pos_eq [of _ _ _ "n mod mx - 1"]) linarith+
    with \<open>n mod mx > 0\<close> show ?thesis using s assms by (simp add: lastIndex_def)
  qed
qed

lemma last_slice:
  assumes "0 \<le> p" and "p < int (length rs)" and "int (length rs) \<le> p + mx"
  shows "take (nat mx) (drop (nat p) rs) = drop (nat p) rs \<and> drop (nat p) rs \<noteq> []"
proof -
  have "length rs - nat p \<le> nat mx" "nat p < length rs" using assms by linarith+
  then show ?thesis by simp
qed

lemma getPageAfterID_take:
  assumes "distinct (map getID rs)" and "0 < mx" and "Suc n < length rs"
  shows "getPageAfterID rs getID (getID (rs ! n)) mx =
    (let page = take (nat mx) (drop (Suc n) rs)
     in Inr (page, \<lparr>rsIndex = int (Suc n) sdiv mx, rsFirst = [], rsLast = [], rsCount = int (length page),
          rsComplete = int (length rs) \<le> int (Suc n) + mx\<rparr>))"
proof -
  have "nat (1 + int n) = Suc n" by simp
  then show ?thesis
    using getIDIndex_nth [OF assms(1), of n] page_from_take [of "int n + 1" mx rs] assms(2,3)
    by (simp add: getPageAfterID_def Let_def add.commute)
qed

text \<open>A client that pages forward: the first page, then the page after the last item seen, until
  the server says that the result is complete.\<close>

fun page_forward :: "nat \<Rightarrow> 'a list \<Rightarrow> ('a \<Rightarrow> string) \<Rightarrow> int \<Rightarrow> string \<Rightarrow> 'a list option" where
  "page_forward 0 rs getID mx after = None"
| "page_forward (Suc fuel) rs getID mx after =
     (case GetResultSetPage rs \<lparr>After = after, Before = [], Index = 0, Max = mx, LastPage = False\<rparr> getID of
        Inl e \<Rightarrow> None
      | Inr (page, res) \<Rightarrow>
          if rsComplete res then Some page
          else map_option ((@) page) (page_forward fuel rs getID mx (rsLast res)))"

text \<open>The request after the first \<open>n\<close> items, and what it is answered.\<close>

definition after_id :: "'a list \<Rightarrow> ('a \<Rightarrow> string) \<Rightarrow> nat \<Rightarrow> string" where
  "after_id rs getID n = (if n = 0 then [] else getID (rs ! (n - 1)))"

lemma forward_page:
  assumes "distinct (map getID rs)" and "\<forall>x \<in> set rs. getID x \<noteq> []" and "0 < mx"
    and "n < length rs" and "int (length rs) \<le> max_int64"
  shows "\<exists>ix cnt. GetResultSetPage rs
      \<lparr>After = after_id rs getID n, Before = [], Index = 0, Max = mx, LastPage = False\<rparr> getID =
    (let page = take (nat mx) (drop n rs)
     in Inr (page, \<lparr>rsIndex = ix, rsFirst = getID (hd page), rsLast = getID (last page), rsCount = cnt,
          rsComplete = int (length rs) \<le> int n + mx\<rparr>))"
proof (cases n)
  case 0
  with assms getPageByIndex_take [of mx 0 rs] show ?thesis
    by (simp add: GetResultSetPage_def after_id_def Let_def)
next
  case (Suc k)
  then have "getID (rs ! k) \<noteq> []" "rs \<noteq> []" using assms(2,4) by auto
  with Suc assms getPageAfterID_take [of getID rs mx k] show ?thesis
    by (simp add: GetResultSetPage_def after_id_def Let_def)
qed

lemma page_forward_from:
  assumes "distinct (map getID rs)" and "\<forall>x \<in> set rs. getID x \<noteq> []" and "0 < mx"
    and "int (length rs) \<le> max_int64"
    and "n < length rs" and "length rs - n \<le> fuel"
  shows "page_forward fuel rs getID mx (after_id rs getID n) = Some (drop n rs)"
  using assms(5,6)
proof (induction fuel arbitrary: n)
  case (Suc fuel)
  let ?page = "take (nat mx) (drop n rs)"
  obtain ix cnt where page: "GetResultSetPage rs
      \<lparr>After = after_id rs getID n, Before = [], Index = 0, Max = mx, LastPage = False\<rparr> getID =
      Inr (?page, \<lparr>rsIndex = ix, rsFirst = getID (hd ?page), rsLast = getID (last ?page), rsCount = cnt,
          rsComplete = int (length rs) \<le> int n + mx\<rparr>)"
    using forward_page [OF assms(1-3) Suc.prems(1) assms(4)] by (auto simp: Let_def)
  show ?case
  proof (cases "int (length rs) \<le> int n + mx")
    case True
    then have "?page = drop n rs" by simp
    with page True show ?thesis by simp
  next
    case False
    let ?n = "n + nat mx"
    have n: "?n < length rs" "length rs - ?n \<le> fuel" "0 < nat mx" using False Suc.prems assms(3) by linarith+
    have l: "length ?page = nat mx" using n(1) by simp
    with n(3) have "?page \<noteq> []" by fastforce
    then have "last ?page = rs ! (?n - 1)"
      using l n by (simp add: last_conv_nth)
    then have "getID (last ?page) = after_id rs getID ?n" using n(3) by (simp add: after_id_def)
    moreover have "?page @ drop ?n rs = drop n rs"
      by (metis append_take_drop_id drop_drop add.commute)
    ultimately show ?thesis using page False Suc.IH [OF n(1,2)] by simp
  qed
qed simp

section \<open>Properties\<close>

text \<open>
  C25. Paging forward visits every item: a client that asks for the first page and then for the
  page after the last item it got, until the server reports the result as complete, receives
  the whole result set in order, every item once, in at most as many requests as there are
  items, for every page size.
\<close>

theorem paging_forward_complete:
  assumes "distinct (map getID rs)" and "\<forall>x \<in> set rs. getID x \<noteq> []" and "0 < mx" and "rs \<noteq> []"
    and "int (length rs) \<le> max_int64" and "length rs \<le> fuel"
  shows "page_forward fuel rs getID mx [] = Some rs"
  using page_forward_from [OF assms(1-3,5), of 0 fuel] assms(4,6) by (simp add: after_id_def)

theorem paging_forward_complete_witness:
  "page_forward 3 [''a'', ''b'', ''c''] id 2 [] = Some [''a'', ''b'', ''c'']"
  by (rule paging_forward_complete) (simp_all add: max_int64_def)

text \<open>
  Pages by index: with a positive page size, page \<open>idx\<close> of a result set is the slice from
  \<open>idx\<close> times the size, reported complete exactly when it holds the last item; past the end the
  client gets \<open>ErrPageNotFound\<close>; and asking for the last page gives the page that holds the last
  item.
\<close>

theorem page_by_index:
  assumes "0 < Max req" and "0 < Index req" and "Index req * Max req \<le> max_int64"
    and "int (length rs) \<le> max_int64" and "\<not> LastPage req"
  shows "map_sum id (\<lambda>(page, res). (page, rsIndex res, rsComplete res)) (GetResultSetPage rs req getID) =
      (if Index req * Max req < int (length rs)
       then Inr (take (nat (Max req)) (drop (nat (Index req * Max req)) rs), Index req,
                 int (length rs) \<le> Index req * Max req + Max req)
       else Inl ErrPageNotFound) \<and>
    (rs \<noteq> [] \<longrightarrow>
      map_sum id (\<lambda>(page, res). (page, rsComplete res)) (GetResultSetPage rs (req\<lparr>LastPage := True\<rparr>) getID) =
      Inr (drop (nat ((int (length rs) - 1) div Max req * Max req)) rs, True))"
proof -
  let ?i = "Index req * Max req"
  have i: "0 < ?i" using assms(1,2) by simp
  with assms(3) have w: "wrap64 ?i = ?i" by (intro wrap64_nonneg) simp_all
  have 1: "map_sum id (\<lambda>(page, res). (page, rsIndex res, rsComplete res)) (GetResultSetPage rs req getID) =
      (if ?i < int (length rs)
       then Inr (take (nat (Max req)) (drop (nat ?i) rs), Index req, int (length rs) \<le> ?i + Max req)
       else Inl ErrPageNotFound)"
  proof (cases "?i < int (length rs)")
    case True
    then have "rs \<noteq> []" "\<not> length rs \<le> nat ?i" using i by auto
    with True assms getPageByIndex_take [of "Max req" "Index req" rs] show ?thesis
      by (simp add: GetResultSetPage_def Let_def)
  next
    case False
    with assms w show ?thesis by (simp add: GetResultSetPage_def Let_def getPageByIndex_def)
  qed
  have 2: "map_sum id (\<lambda>(page, res). (page, rsComplete res)) (GetResultSetPage rs (req\<lparr>LastPage := True\<rparr>) getID) =
      Inr (drop (nat ((int (length rs) - 1) div Max req * Max req)) rs, True)" if "rs \<noteq> []"
  proof -
    let ?n = "int (length rs)" and ?q = "(int (length rs) - 1) div Max req"
    have n: "0 < ?n" using that by simp
    have "?q * Max req + (?n - 1) mod Max req = ?n - 1" by simp
    moreover have "0 \<le> (?n - 1) mod Max req" "(?n - 1) mod Max req < Max req" using assms(1) by simp_all
    ultimately have q: "?q * Max req < ?n" "?n \<le> ?q * Max req + Max req" by linarith+
    have "0 \<le> ?q" using n assms(1) by (simp add: pos_imp_zdiv_nonneg_iff)
    moreover from this assms(1) have "0 \<le> ?q * Max req" by simp
    ultimately have "take (nat (Max req)) (drop (nat (?q * Max req)) rs) = drop (nat (?q * Max req)) rs"
      "drop (nat (?q * Max req)) rs \<noteq> []"
      using q last_slice [of "?q * Max req" rs "Max req"] by blast+
    with \<open>0 \<le> ?q\<close> q assms(1,4) that last_page_index [OF assms(1) n] getPageByIndex_take [of "Max req" ?q rs]
    show ?thesis by (simp add: GetResultSetPage_def Let_def)
  qed
  from 1 2 show ?thesis by blast
qed

theorem page_by_index_witness:
  "map_sum id (\<lambda>(page, res). (page, rsIndex res, rsComplete res))
     (GetResultSetPage [''a'', ''b'', ''c''] \<lparr>After = [], Before = [], Index = 1, Max = 2, LastPage = False\<rparr> id)
   = Inr ([''c''], 1, True)"
  using page_by_index [of "\<lparr>After = [], Before = [], Index = 1, Max = 2, LastPage = False\<rparr>" "[''a'', ''b'', ''c'']" id]
  by (simp add: max_int64_def numeral_2_eq_2)

text \<open>
  The page before an item: with at least a page of items before it, the request gives exactly
  the items before it; with fewer, the page starts at the first item and runs on to the item
  itself and beyond, so it holds items that do not come before it.
\<close>

theorem page_before:
  assumes "distinct (map getID rs)" and "\<forall>x \<in> set rs. getID x \<noteq> []" and "0 < mx" and "n < length rs"
    and "mx \<le> max_int64" and "int (length rs) \<le> max_int64"
  shows "\<exists>res. GetResultSetPage rs
      \<lparr>After = [], Before = getID (rs ! n), Index = 0, Max = mx, LastPage = False\<rparr> getID =
    Inr (if mx \<le> int n then take (nat mx) (drop (n - nat mx) rs) else take (nat mx) rs, res)"
proof -
  have "getID (rs ! n) \<noteq> []" "rs \<noteq> []" using assms(2,4) by auto
  moreover have "wrap64 (int n - mx) = int n - mx"
    using assms(3-6) by (intro wrap64_id) (simp_all add: max_int64_def)
  moreover have "nat (int n - mx) = n - nat mx" using assms(3) by linarith
  ultimately show ?thesis
    using assms getIDIndex_nth [OF assms(1,4)] page_from_take [of "int n - mx" mx rs] page_from_take [of 0 mx rs]
    by (auto simp: GetResultSetPage_def getPageBeforeID_def Let_def)
qed

theorem page_before_witness:
  "\<exists>res. GetResultSetPage [''a'', ''b'', ''c'']
      \<lparr>After = [], Before = ''b'', Index = 0, Max = 2, LastPage = False\<rparr> id = Inr ([''a'', ''b''], res)"
  using page_before [of id "[''a'', ''b'', ''c'']" 2 1] by (simp add: max_int64_def numeral_2_eq_2)

text \<open>
  Requests that crash the server: on a result set that is not empty, a negative page size, a
  page size of zero with a page number, and the page after the last item all panic.
\<close>

theorem rsm_panics:
  assumes "rs \<noteq> []"
  shows "(mx < 0 \<longrightarrow> GetResultSetPage rs
        \<lparr>After = [], Before = [], Index = 0, Max = mx, LastPage = False\<rparr> getID = Inl ErrPanic) \<and>
    (0 < ix \<longrightarrow> GetResultSetPage rs
        \<lparr>After = [], Before = [], Index = ix, Max = 0, LastPage = False\<rparr> getID = Inl ErrPanic) \<and>
    (distinct (map getID rs) \<and> getID (last rs) \<noteq> [] \<longrightarrow> GetResultSetPage rs
        \<lparr>After = getID (last rs), Before = [], Index = 0, Max = mx, LastPage = False\<rparr> getID = Inl ErrPanic)"
proof -
  let ?n = "length rs"
  have none: "page_loop rs m i 0 False = Inr ([], False, 0)" if "m \<le> 0 \<or> int ?n \<le> i" for m i
    using that by (subst page_loop.simps) auto
  have neg: "GetResultSetPage rs \<lparr>After = [], Before = [], Index = 0, Max = mx, LastPage = False\<rparr> getID = Inl ErrPanic"
    if "mx < 0"
    using that assms none by (simp add: GetResultSetPage_def getPageByIndex_def page_result_def Let_def wrap64_def)
  have zero: "GetResultSetPage rs \<lparr>After = [], Before = [], Index = ix, Max = 0, LastPage = False\<rparr> getID = Inl ErrPanic"
    if "0 < ix"
    using that assms none by (simp add: GetResultSetPage_def getPageByIndex_def page_result_def Let_def wrap64_def)
  have aft: "GetResultSetPage rs
      \<lparr>After = getID (last rs), Before = [], Index = 0, Max = mx, LastPage = False\<rparr> getID = Inl ErrPanic"
    if d: "distinct (map getID rs)" and "getID (last rs) \<noteq> []"
  proof -
    have "getIDIndex rs getID (getID (last rs)) = int (?n - 1)"
      using getIDIndex_nth [OF d, of "?n - 1"] assms by (simp add: last_conv_nth)
    moreover have "int (?n - 1) + 1 = int ?n" using assms by (cases rs) simp_all
    ultimately have "getPageAfterID rs getID (getID (last rs)) mx = page_from rs (int ?n) mx"
      using assms by (simp add: getPageAfterID_def)
    then show ?thesis
      using assms that none [of mx "int ?n"] by (simp add: GetResultSetPage_def page_from_def page_result_def Let_def)
  qed
  from neg zero aft show ?thesis by blast
qed

theorem rsm_panics_witness:
  "GetResultSetPage [''a''] \<lparr>After = [], Before = [], Index = 0, Max = -1, LastPage = False\<rparr> id = Inl ErrPanic"
  using rsm_panics [of "[''a'']" "-1" id 1] by simp

end
