(* ===== verification/Shaper.thy ===== *)
theory Shaper
  imports Xmpp
begin

text \<open>
  Traffic shapers (\<^verbatim>\<open>src/pkg/shaper/shaper.go\<close>) and the matchers they use
  (\<^verbatim>\<open>src/pkg/util/stringmatcher\<close>): which limits apply to an address. Go's \<^verbatim>\<open>regexp\<close> package is the
  function carried by \<open>RegexMatcher\<close>. A method call on a nil address panics.
\<close>

datatype matcher = AnyMatcher | StringMatcher "string list" | RegexMatcher "string \<Rightarrow> bool"

fun Matches :: "matcher \<Rightarrow> string \<Rightarrow> bool" where
  "Matches AnyMatcher str = True"
| "Matches (StringMatcher strs) str = (\<exists>s \<in> set strs. s = str)"
| "Matches (RegexMatcher r) str = r str"

record shaper =
  shName :: string
  MaxSessions :: int
  rateLimit :: int
  burst :: int
  jidMatcher :: matcher

definition defaultC2SShaper :: shaper where
  "defaultC2SShaper = \<lparr>shName = [], MaxSessions = 3, rateLimit = 131072, burst = 65536, jidMatcher = AnyMatcher\<rparr>"

definition defaultS2SShaper :: shaper where
  "defaultS2SShaper = \<lparr>shName = [], MaxSessions = 0, rateLimit = 262144, burst = 131072, jidMatcher = AnyMatcher\<rparr>"

record shaper_config =
  scName :: string
  scMaxSessions :: int
  scLimit :: int
  scBurst :: int
  scIn :: "string list"
  scRegEx :: string

text \<open>\<open>compile\<close> is \<^verbatim>\<open>regexp.Compile\<close>.\<close>

definition NewShaper :: "(string \<Rightarrow> go_error + (string \<Rightarrow> bool)) \<Rightarrow> shaper_config \<Rightarrow> go_error + shaper" where
  "NewShaper compile cfg =
     (let mk = (\<lambda>m. \<lparr>shName = scName cfg, MaxSessions = scMaxSessions cfg, rateLimit = scLimit cfg,
                     burst = scBurst cfg, jidMatcher = m\<rparr>)
      in if length (scIn cfg) > 0 then Inr (mk (StringMatcher (scIn cfg)))
         else if length (scRegEx cfg) > 0 then map_sum id (\<lambda>r. mk (RegexMatcher r)) (compile (scRegEx cfg))
         else Inr (mk AnyMatcher))"

fun MatchingJID :: "xlib \<Rightarrow> shaper list \<Rightarrow> jid option \<Rightarrow> go_error + shaper" where
  "MatchingJID X [] j =
     Inr (case j of None \<Rightarrow> defaultC2SShaper
          | Some jd \<Rightarrow> if IsServer X jd then defaultS2SShaper else defaultC2SShaper)"
| "MatchingJID X (s # ss) j =
     (case j of
        None \<Rightarrow> Inl ErrPanic
      | Some jd \<Rightarrow> if Matches (jidMatcher s) (JIDString X jd) then Inr s else MatchingJID X ss j)"

text \<open>
  The first configured shaper whose matcher accepts the address decides; without one, servers
  get the default server shaper and users the default client shaper.
\<close>

theorem shaper_first_match:
  "MatchingJID X ss (Some jd) =
     Inr (case find_first (\<lambda>s. Matches (jidMatcher s) (JIDString X jd)) ss of
            Some s \<Rightarrow> s
          | None \<Rightarrow> if IsServer X jd then defaultS2SShaper else defaultC2SShaper)"
  by (induction ss) auto

end
