(* ===== verification/C2S_Stream.thy ===== *)
theory C2S_Stream
  imports Routing Shaper
begin

text \<open>
  The client stream (\<^verbatim>\<open>src/pkg/c2s/in.go\<close>, \<^verbatim>\<open>src/pkg/c2s/flags.go\<close>): from the first stream header
  through TLS, authentication and resource binding to the processing of stanzas, disconnection
  and termination.
  \<^item> \<open>in_c2s\<close> holds the fields of \<^verbatim>\<open>inC2S\<close> that change; \<open>in_env\<close> holds its collaborators (transport,
    session, authenticators, routers, modules, components, resource manager, hooks) and its
    configuration. A computation acts on a pair of the stream and \<open>'w\<close>, the state behind the
    collaborators: those that cannot reach the stream act on \<open>'w\<close> alone, those that read it
    through the \<^verbatim>\<open>stream.C2S\<close> interface get it as an argument, and hook handlers and modules act
    on the pair.
  \<^item> The tasks a stream runs on its run queue (an element received, a session error, a timeout, a
    send, a disconnection) are run one after the other: they are the events of \<open>c2s_event\<close>, and a
    run of the stream is any sequence of them.
  \<^item> Metrics, logging and request contexts are left out. A method call on a nil address, and a
    failed type assertion, panic.
\<close>

unbundle bit_operations_syntax

section \<open>Flags\<close>

type_synonym flags = "8 word"

definition fSecured :: flags where "fSecured = 1"
definition fAuthenticated :: flags where "fAuthenticated = 2"
definition fCompressed :: flags where "fCompressed = 4"
definition fBinded :: flags where "fBinded = 8"
definition fSessionStarted :: flags where "fSessionStarted = 16"

definition isSecured :: "flags \<Rightarrow> bool" where "isSecured f = (f AND fSecured > 0)"
definition setSecured :: "flags \<Rightarrow> flags" where "setSecured f = f OR fSecured"
definition isAuthenticated :: "flags \<Rightarrow> bool" where "isAuthenticated f = (f AND fAuthenticated > 0)"
definition setAuthenticated :: "flags \<Rightarrow> flags" where "setAuthenticated f = f OR fAuthenticated"
definition isCompressed :: "flags \<Rightarrow> bool" where "isCompressed f = (f AND fCompressed > 0)"
definition setCompressed :: "flags \<Rightarrow> flags" where "setCompressed f = f OR fCompressed"
definition isBinded :: "flags \<Rightarrow> bool" where "isBinded f = (f AND fBinded > 0)"
definition setBinded :: "flags \<Rightarrow> flags" where "setBinded f = f OR fBinded"
definition isSessionStarted :: "flags \<Rightarrow> bool" where "isSessionStarted f = (f AND fSessionStarted > 0)"
definition setSessionStarted :: "flags \<Rightarrow> flags" where "setSessionStarted f = f OR fSessionStarted"

section \<open>Data\<close>

datatype c2s_state =
  inConnecting | inConnected | inAuthenticating | inAuthenticated | inBinded | inDisconnected | inTerminated

datatype resource_conflict = Override | Disallow | TerminateOld

datatype disc_error = NoDiscError | DiscStreamError "stream_error option" | DiscError go_error

record c2s_info =
  ciID :: string
  ciJID :: "jid option"
  ciPresence :: "element option"
  ciElement :: "element option"
  ciTargets :: "jid list"
  ciDisconnectError :: disc_error

record in_c2s =
  isId :: stream_id
  isState :: c2s_state
  isJid :: "jid option"
  isPr :: "element option"
  isInf :: info_map
  isFlags :: flags
  isActive :: "nat option"
  isFailedTimes :: int
  isAbortTimes :: int
  isSendDisabled :: bool
  isDiscTm :: "nat option"
  isLiveTms :: "(nat \<times> stream_error) list"
  isNextTm :: nat
  isDone :: bool

record 'w authenticator =
  auMechanism :: string
  auUsesChannelBinding :: bool
  auProcessElement :: "element \<Rightarrow> ('w, element) go"
  auAuthenticated :: "'w \<Rightarrow> bool"
  auUsername :: "'w \<Rightarrow> string"
  auReset :: "'w \<Rightarrow> 'w"

record 'w in_env =
  lib :: xlib
  envInstanceID :: string
  cfgCompression :: bool
  cfgResConflict :: resource_conflict
  cfgUseTLS :: bool
  trIsSocket :: bool
  trSupportsChannelBinding :: bool
  trStartTLS :: "('w, unit) go"
  trEnableCompression :: "('w, unit) go"
  trSetReadRateLimiter :: "shaper \<Rightarrow> ('w, unit) go"
  trClose :: "('w, unit) go"
  sesSetFromJID :: "jid option \<Rightarrow> ('w, unit) go"
  sesOpenStream :: "('w, unit) go"
  sesSend :: "element \<Rightarrow> ('w, unit) go"
  sesClose :: "('w, unit) go"
  sesReset :: "('w, unit) go"
  authenticators :: "'w authenticator list"
  shapers :: "shaper list"
  newUUID :: "('w, string) go"
  rtRoute :: "element \<Rightarrow> ('w, jid list) go"
  rtRegister :: "in_c2s \<Rightarrow> ('w, unit) go"
  rtBind :: "in_c2s \<Rightarrow> ('w, unit) go"
  rtUnregister :: "in_c2s \<Rightarrow> ('w, unit) go"
  rtDisconnect :: "resource_desc \<Rightarrow> stream_error \<Rightarrow> ('w, unit) go"
  rmPutResource :: "resource_desc \<Rightarrow> ('w, unit) go"
  rmGetResources :: "string \<Rightarrow> ('w, resource_desc list) go"
  rmDelResource :: "string \<Rightarrow> string \<Rightarrow> ('w, unit) go"
  cmpIsComponentHost :: "string \<Rightarrow> 'w \<Rightarrow> bool"
  cmpProcessStanza :: "element \<Rightarrow> ('w, unit) go"
  modIsModuleIQ :: "element \<Rightarrow> bool"
  modProcessIQ :: "element \<Rightarrow> (in_c2s \<times> 'w, unit) go"
  modStreamFeatures :: "string \<Rightarrow> ('w, element list) go"
  envHooks :: "(in_c2s \<times> 'w, c2s_info) hooks"

type_synonym ('w, 'a) c2s = "(in_c2s \<times> 'w, 'a) go"

text \<open>Calls that act on the collaborators only, without and with reading the stream.\<close>

definition ext :: "('w, 'a) go \<Rightarrow> ('w, 'a) c2s" where
  "ext f = (\<lambda>(s, w). case f w of (r, w') \<Rightarrow> (r, (s, w')))"

definition ext_own :: "(in_c2s \<Rightarrow> ('w, 'a) go) \<Rightarrow> ('w, 'a) c2s" where
  "ext_own f = (\<lambda>(s, w). case f s w of (r, w') \<Rightarrow> (r, (s, w')))"

definition own :: "(in_c2s \<Rightarrow> 'a) \<Rightarrow> ('w, 'a) c2s" where
  "own f = gets (\<lambda>(s, w). f s)"

definition upd :: "(in_c2s \<Rightarrow> in_c2s) \<Rightarrow> ('w, unit) c2s" where
  "upd f = modify (\<lambda>(s, w). (f s, w))"

section \<open>Accessors\<close>

definition newInC2S :: "'w in_env \<Rightarrow> stream_id \<Rightarrow> in_c2s" where
  "newInC2S E i =
     \<lparr>isId = i, isState = inConnecting, isJid = None, isPr = None, isInf = NewInfoMap,
      isFlags = (if cfgUseTLS E then setSecured 0 else 0), isActive = None, isFailedTimes = 0,
      isAbortTimes = 0, isSendDisabled = False, isDiscTm = None, isLiveTms = [], isNextTm = 0, isDone = False\<rparr>"

definition Username :: "in_c2s \<Rightarrow> string" where
  "Username s = (case isJid s of None \<Rightarrow> [] | Some jd \<Rightarrow> Node jd)"

definition sDomain :: "in_c2s \<Rightarrow> string" where
  "sDomain s = (case isJid s of None \<Rightarrow> [] | Some jd \<Rightarrow> Domain jd)"

definition sResource :: "in_c2s \<Rightarrow> string" where
  "sResource s = (case isJid s of None \<Rightarrow> [] | Some jd \<Rightarrow> Resource jd)"

definition setState :: "c2s_state \<Rightarrow> ('w, unit) c2s" where
  "setState st = upd (\<lambda>s. s\<lparr>isState := st\<rparr>)"

definition setJID :: "jid option \<Rightarrow> ('w, unit) c2s" where
  "setJID jd = upd (\<lambda>s. s\<lparr>isJid := jd\<rparr>)"

definition setPresence :: "element option \<Rightarrow> ('w, unit) c2s" where
  "setPresence pr = upd (\<lambda>s. s\<lparr>isPr := pr\<rparr>)"

definition setFlag :: "(flags \<Rightarrow> flags) \<Rightarrow> ('w, unit) c2s" where
  "setFlag f = upd (\<lambda>s. s\<lparr>isFlags := f (isFlags s)\<rparr>)"

definition own_jid :: "('w, jid) c2s" where
  "own_jid = andthen (own isJid) (\<lambda>j. case j of None \<Rightarrow> throw ErrPanic | Some jd \<Rightarrow> ret jd)"

text \<open>\<^verbatim>\<open>getResource\<close>; the descriptions of the model always carry an address.\<close>

definition getResource :: "'w in_env \<Rightarrow> ('w, resource_desc) c2s" where
  "getResource E = andthen own_jid (\<lambda>jd. own (\<lambda>s. NewResourceDesc (envInstanceID E) jd (isPr s) (isInf s)))"

definition putResource :: "'w in_env \<Rightarrow> ('w, unit) c2s" where
  "putResource E = andthen (getResource E) (\<lambda>res. ext (rmPutResource E res))"

datatype info_val = StrVal string | BoolVal bool | IntVal int

fun set_info :: "string \<Rightarrow> info_val \<Rightarrow> info_map \<Rightarrow> info_map" where
  "set_info k (StrVal v) im = SetString k v im"
| "set_info k (BoolVal v) im = SetBool k v im"
| "set_info k (IntVal v) im = SetInt k v im"

definition SetInfoValue :: "'w in_env \<Rightarrow> string \<Rightarrow> info_val \<Rightarrow> ('w, unit) c2s" where
  "SetInfoValue E k val =
     andthen (upd (\<lambda>s. s\<lparr>isInf := set_info k val (isInf s)\<rparr>)) (\<lambda>_. putResource E)"

definition updateRateLimiter :: "'w in_env \<Rightarrow> ('w, unit) c2s" where
  "updateRateLimiter E =
     andthen (own isJid) (\<lambda>j.
       case MatchingJID (lib E) (shapers E) j of
         Inl e \<Rightarrow> throw e
       | Inr sh \<Rightarrow> ext (trSetReadRateLimiter E sh))"

definition runHook :: "'w in_env \<Rightarrow> string \<Rightarrow> c2s_info \<Rightarrow> ('w, bool \<times> c2s_info) c2s" where
  "runHook E hookName info = Run (envHooks E) hookName info"

text \<open>The hook info most calls build: identifier, address, presence and element of the stream.\<close>

definition stream_info :: "element option \<Rightarrow> ('w, c2s_info) c2s" where
  "stream_info el =
     own (\<lambda>s. \<lparr>ciID = stream_id_string (isId s), ciJID = isJid s, ciPresence = isPr s, ciElement = el,
               ciTargets = [], ciDisconnectError = NoDiscError\<rparr>)"

definition restartSession :: "'w in_env \<Rightarrow> ('w, unit) c2s" where
  "restartSession E = andthen (ignore (ext (sesReset E))) (\<lambda>_. setState inConnecting)"

definition sendElement :: "'w in_env \<Rightarrow> element \<Rightarrow> ('w, unit) c2s" where
  "sendElement E el =
     andthen (own isSendDisabled) (\<lambda>disabled.
       if disabled then ret ()
       else andthen (ignore (ext (sesSend E el))) (\<lambda>_.
         andthen (stream_info (Some el)) (\<lambda>info.
           andthen (runHook E ''c2s.stream.element_sent'' (info\<lparr>ciPresence := None\<rparr>)) (\<lambda>_. ret ()))))"

section \<open>Disconnection\<close>

definition terminate :: "'w in_env \<Rightarrow> ('w, unit) c2s" where
  "terminate E =
     andthen (ext_own (rtUnregister E)) (\<lambda>_.
       andthen (ext_own (\<lambda>s. rmDelResource E (Username s) (sResource s))) (\<lambda>_.
         andthen (ignore (ext (trClose E))) (\<lambda>_.
           andthen (stream_info None) (\<lambda>info.
             andthen (runHook E ''c2s.stream.terminated'' (info\<lparr>ciPresence := None\<rparr>)) (\<lambda>_.
               andthen (own isDone) (\<lambda>done.
                 if done then throw ErrPanic \<comment> \<open>close of a closed channel\<close>
                 else andthen (upd (\<lambda>s. s\<lparr>isDone := True\<rparr>)) (\<lambda>_. setState inTerminated)))))))"

definition stop_disc_timer :: "in_c2s \<Rightarrow> in_c2s" where
  "stop_disc_timer s =
     (case isDiscTm s of
        None \<Rightarrow> s
      | Some t \<Rightarrow> s\<lparr>isLiveTms := filter (\<lambda>x. fst x \<noteq> t) (isLiveTms s)\<rparr>)"

definition close_stream :: "'w in_env \<Rightarrow> disc_error \<Rightarrow> ('w, unit) c2s" where
  "close_stream E disconnectErr =
     andthen (own isState) (\<lambda>st.
       if st = inDisconnected then terminate E
       else if st = inTerminated then ret ()
       else andthen (setState inDisconnected) (\<lambda>_.
         andthen (upd stop_disc_timer) (\<lambda>_.
           andthen (stream_info None) (\<lambda>info.
             andthen (runHook E ''c2s.stream.disconnected'' (info\<lparr>ciDisconnectError := disconnectErr\<rparr>))
               (\<lambda>(halted, _). if halted then ret () else terminate E)))))"

definition disconnect :: "'w in_env \<Rightarrow> stream_error option \<Rightarrow> ('w, unit) c2s" where
  "disconnect E streamErr =
     andthen (own isState) (\<lambda>st.
     andthen (if st = inConnecting then ignore (ext (sesOpenStream E)) else ret ()) (\<lambda>_.
     andthen (case streamErr of
                None \<Rightarrow> ret ()
              | Some se \<Rightarrow> sendElement E (StreamErrorElement (lib E) se)) (\<lambda>_.
     andthen (ignore (ext (sesClose E))) (\<lambda>_.
     andthen (own isState) (\<lambda>st'.
       case streamErr of
         Some se \<Rightarrow>
           if st' = inBinded \<and> seReason se = ConnectionTimeout then
             upd (\<lambda>s. s\<lparr>isDiscTm := Some (isNextTm s), isLiveTms := isLiveTms s @ [(isNextTm s, se)],
                         isNextTm := Suc (isNextTm s), isSendDisabled := True\<rparr>)
           else close_stream E (DiscStreamError streamErr)
       | None \<Rightarrow> close_stream E (DiscStreamError streamErr))))))"

text \<open>The runtime fires a disconnection timer.\<close>

definition fire_disc_timer :: "'w in_env \<Rightarrow> nat \<Rightarrow> ('w, unit) c2s" where
  "fire_disc_timer E t =
     andthen (own (\<lambda>s. find_first (\<lambda>x. fst x = t) (isLiveTms s))) (\<lambda>r.
       case r of
         None \<Rightarrow> ret ()
       | Some (_, se) \<Rightarrow>
           andthen (upd (\<lambda>s. s\<lparr>isLiveTms := filter (\<lambda>x. fst x \<noteq> t) (isLiveTms s)\<rparr>)) (\<lambda>_.
             ignore (close_stream E (DiscStreamError (Some se)))))"

definition handleSessionError :: "'w in_env \<Rightarrow> go_error \<Rightarrow> ('w, unit) c2s" where
  "handleSessionError E err =
     andthen (if err = ErrStreamClosedByPeer then ignore (ext (sesClose E)) else ret ()) (\<lambda>_.
       ignore (close_stream E (DiscError err)))"

definition connTimeout :: "'w in_env \<Rightarrow> ('w, unit) c2s" where
  "connTimeout E = ignore (disconnect E (Some (stream_E ConnectionTimeout)))"

section \<open>Stream features\<close>

definition saslNamespace :: string where "saslNamespace = ''urn:ietf:params:xml:ns:xmpp-sasl''"
definition tlsNamespace :: string where "tlsNamespace = ''urn:ietf:params:xml:ns:xmpp-tls''"
definition compressNamespace :: string where "compressNamespace = ''http://jabber.org/protocol/compress''"
definition bindNamespace :: string where "bindNamespace = ''urn:ietf:params:xml:ns:xmpp-bind''"
definition sessionNamespace :: string where "sessionNamespace = ''urn:ietf:params:xml:ns:xmpp-session''"
definition streamsNamespace :: string where "streamsNamespace = ''http://etherx.jabber.org/streams''"

abbreviation ns_elem :: "string \<Rightarrow> string \<Rightarrow> element list \<Rightarrow> element" where
  "ns_elem name ns children \<equiv> Element name [(''xmlns'', ns)] [] children"

abbreviation leaf :: "string \<Rightarrow> element" where
  "leaf name \<equiv> Element name [] [] []"

definition unauthenticatedFeatures :: "'w in_env \<Rightarrow> in_c2s \<Rightarrow> element list" where
  "unauthenticatedFeatures E s =
     (let isSocketTr = trIsSocket E;
          tls = (if isSocketTr \<and> \<not> isSecured (isFlags s)
                 then [ns_elem ''starttls'' ''urn:ietf:params:xml:ns:xmpp-tls'' [leaf ''required'']] else []);
          shouldOfferSASL = (\<not> isSocketTr \<or> (isSocketTr \<and> isSecured (isFlags s)));
          offered = filter (\<lambda>a. \<not> (auUsesChannelBinding a \<and> \<not> trSupportsChannelBinding E)) (authenticators E);
          sasl = (if shouldOfferSASL \<and> length (authenticators E) > 0
                  then [ns_elem ''mechanisms'' saslNamespace
                          (map (\<lambda>a. Element ''mechanism'' [] (auMechanism a) []) offered)] else [])
      in tls @ sasl)"

definition authenticatedFeatures :: "'w in_env \<Rightarrow> ('w, element list) c2s" where
  "authenticatedFeatures E =
     andthen (own (\<lambda>s. s)) (\<lambda>s.
       let compressionAvailable = (trIsSocket E \<and> cfgCompression E);
           compression = (if \<not> isCompressed (isFlags s) \<and> compressionAvailable
             then [ns_elem ''compression'' ''http://jabber.org/features/compress'' [Element ''method'' [] ''zlib'' []]] else []);
           bind = ns_elem ''bind'' ''urn:ietf:params:xml:ns:xmpp-bind'' [leaf ''required''];
           sess = ns_elem ''session'' ''urn:ietf:params:xml:ns:xmpp-session'' []
       in andthen own_jid (\<lambda>jd.
            andthen (ext (modStreamFeatures E (Domain jd))) (\<lambda>modFeatures.
              ret (compression @ [bind, sess] @ modFeatures))))"

section \<open>TLS, authentication and compression\<close>

definition proceedStartTLS :: "'w in_env \<Rightarrow> element \<Rightarrow> ('w, unit) c2s" where
  "proceedStartTLS E el =
     andthen (own isFlags) (\<lambda>f.
       let ns = Attribute (lib E) el ''xmlns''
       in if isSecured f then disconnect E (Some (stream_E NotAuthorized))
          else if length ns > 0 \<and> ns \<noteq> tlsNamespace then disconnect E (Some (stream_E InvalidNamespace))
          else andthen (setFlag setSecured) (\<lambda>_.
            andthen (sendElement E (ns_elem ''proceed'' tlsNamespace [])) (\<lambda>_.
              andthen (ignore (ext (trStartTLS E))) (\<lambda>_. restartSession E))))"

definition active_auth :: "'w in_env \<Rightarrow> ('w, 'w authenticator) c2s" where
  "active_auth E =
     andthen (own isActive) (\<lambda>a.
       case a of
         None \<Rightarrow> throw ErrPanic
       | Some i \<Rightarrow> if i < length (authenticators E) then ret (authenticators E ! i) else throw ErrPanic)"

definition continueAuthentication :: "'w in_env \<Rightarrow> element \<Rightarrow> ('w, unit) c2s" where
  "continueAuthentication E el =
     andthen (active_auth E) (\<lambda>a.
       andthen (ext (auProcessElement a el)) (\<lambda>reply. sendElement E reply))"

definition finishAuthentication :: "'w in_env \<Rightarrow> ('w, unit) c2s" where
  "finishAuthentication E =
     andthen (active_auth E) (\<lambda>a.
     andthen (ext (gets (auUsername a))) (\<lambda>username.
     andthen (own sDomain) (\<lambda>d.
     andthen (setJID (NewJID (lib E) username d [] True)) (\<lambda>_.
     andthen (setFlag setAuthenticated) (\<lambda>_.
     andthen (updateRateLimiter E) (\<lambda>_.
     andthen (ext (modify (auReset a))) (\<lambda>_.
     andthen (upd (\<lambda>s. s\<lparr>isActive := None\<rparr>)) (\<lambda>_.
       restartSession E))))))))"

definition maxAuthFailed :: int where "maxAuthFailed = 5"
definition maxAuthAborted :: int where "maxAuthAborted = 1"

definition failAuthentication :: "'w in_env \<Rightarrow> string \<Rightarrow> ('w, unit) c2s" where
  "failAuthentication E reason =
     andthen (upd (\<lambda>s. s\<lparr>isFailedTimes := isFailedTimes s + 1\<rparr>)) (\<lambda>_.
     andthen (own isFailedTimes) (\<lambda>n.
       if n \<ge> maxAuthFailed then disconnect E (Some (stream_E PolicyViolation))
       else sendElement E (ns_elem ''failure'' saslNamespace [leaf reason])))"

definition abortAuthentication :: "'w in_env \<Rightarrow> ('w, unit) c2s" where
  "abortAuthentication E =
     andthen (upd (\<lambda>s. s\<lparr>isAbortTimes := isAbortTimes s + 1\<rparr>)) (\<lambda>_.
     andthen (own isAbortTimes) (\<lambda>n.
       if n \<ge> maxAuthAborted then disconnect E (Some (stream_E PolicyViolation))
       else andthen (active_auth E) (\<lambda>a.
              andthen (ext (modify (auReset a))) (\<lambda>_.
                andthen (upd (\<lambda>s. s\<lparr>isActive := None\<rparr>)) (\<lambda>_. setState inConnected)))))"

text \<open>What \<^verbatim>\<open>startAuthentication\<close> and \<^verbatim>\<open>handleAuthenticating\<close> share: a SASL error fails the attempt,
  other errors are returned, and a finished exchange finishes authentication.\<close>

definition auth_step :: "'w in_env \<Rightarrow> element \<Rightarrow> ('w, unit) c2s \<Rightarrow> ('w, unit) c2s" where
  "auth_step E el pending =
     andthen (attempt (continueAuthentication E el)) (\<lambda>r.
       case r of
         Inl (ErrSASL reason) \<Rightarrow> failAuthentication E reason
       | Inl e \<Rightarrow> throw e
       | Inr _ \<Rightarrow>
           andthen (active_auth E) (\<lambda>a.
             andthen (ext (gets (auAuthenticated a))) (\<lambda>ok.
               if ok then finishAuthentication E else pending)))"

fun index_of :: "('a \<Rightarrow> bool) \<Rightarrow> 'a list \<Rightarrow> nat option" where
  "index_of p [] = None"
| "index_of p (x # xs) = (if p x then Some 0 else map_option Suc (index_of p xs))"

definition startAuthentication :: "'w in_env \<Rightarrow> element \<Rightarrow> ('w, unit) c2s" where
  "startAuthentication E el =
     (if Attribute (lib E) el ''xmlns'' \<noteq> saslNamespace then disconnect E (Some (stream_E InvalidNamespace))
      else case index_of (\<lambda>a. auMechanism a = Attribute (lib E) el ''mechanism'') (authenticators E) of
             None \<Rightarrow> sendElement E (ns_elem ''failure'' saslNamespace [leaf ''invalid-mechanism''])
           | Some i \<Rightarrow>
               andthen (upd (\<lambda>s. s\<lparr>isActive := Some i\<rparr>)) (\<lambda>_. auth_step E el (setState inAuthenticating)))"

definition handleAuthenticating :: "'w in_env \<Rightarrow> element \<Rightarrow> ('w, unit) c2s" where
  "handleAuthenticating E el =
     (if Attribute (lib E) el ''xmlns'' \<noteq> saslNamespace then disconnect E (Some (stream_E InvalidNamespace))
      else if Name el = ''abort'' then abortAuthentication E
      else auth_step E el (ret ()))"

definition compress_stream :: "'w in_env \<Rightarrow> element \<Rightarrow> ('w, unit) c2s" where
  "compress_stream E el =
     andthen (own isFlags) (\<lambda>f.
       if Attribute (lib E) el ''xmlns'' \<noteq> compressNamespace \<or> isCompressed f
       then disconnect E (Some (stream_E UnsupportedStanzaType))
       else case Child (lib E) el ''method'' of
         None \<Rightarrow> sendElement E (ns_elem ''failure'' compressNamespace [leaf ''setup-failed''])
       | Some meth \<Rightarrow>
           if length (Text meth) = 0 then sendElement E (ns_elem ''failure'' compressNamespace [leaf ''setup-failed''])
           else if Text meth \<noteq> ''zlib'' then sendElement E (ns_elem ''failure'' compressNamespace [leaf ''unsupported-method''])
           else andthen (sendElement E (ns_elem ''compressed'' compressNamespace [])) (\<lambda>_.
             andthen (ignore (ext (trEnableCompression E))) (\<lambda>_.
               andthen (setFlag setCompressed) (\<lambda>_. restartSession E))))"

section \<open>Resource binding\<close>

definition bindC2S :: "'w in_env \<Rightarrow> ('w, unit) c2s" where
  "bindC2S E =
     andthen (updateRateLimiter E) (\<lambda>_.
       andthen (ext_own (rtBind E)) (\<lambda>_. putResource E))"

definition enter_binded :: "'w in_env \<Rightarrow> ('w, unit) c2s" where
  "enter_binded E =
     andthen (bindC2S E) (\<lambda>_.
     andthen (setState inBinded) (\<lambda>_.
     andthen (setFlag setBinded) (\<lambda>_.
     andthen (stream_info None) (\<lambda>info.
     andthen (runHook E ''c2s.stream.binded'' (info\<lparr>ciPresence := None\<rparr>)) (\<lambda>_. ret ())))))"

definition Resume :: "'w in_env \<Rightarrow> jid \<Rightarrow> element option \<Rightarrow> info_map \<Rightarrow> ('w, unit) c2s" where
  "Resume E jd pr info =
     andthen (upd (\<lambda>s. s\<lparr>isJid := Some jd, isPr := pr, isInf := NewInfoMapFromMap info\<rparr>)) (\<lambda>_.
       andthen (ignore (ext (sesSetFromJID E (Some jd)))) (\<lambda>_. enter_binded E))"

text \<open>The resource the client gets: \<open>None\<close> when binding is refused because of a conflict.\<close>

definition choose_resource :: "'w in_env \<Rightarrow> element \<Rightarrow> resource_desc list \<Rightarrow> ('w, string option) c2s" where
  "choose_resource E bind rss =
     (case Child (lib E) bind ''resource'' of
        None \<Rightarrow> andthen (ext (newUUID E)) (\<lambda>u. ret (Some u))
      | Some resElem \<Rightarrow>
          (case find_first (has_resource (Text resElem)) rss of
             None \<Rightarrow> ret (Some (Text resElem))
           | Some rs \<Rightarrow>
               (case cfgResConflict E of
                  Override \<Rightarrow> andthen (ext (newUUID E)) (\<lambda>u. ret (Some u))
                | TerminateOld \<Rightarrow>
                    andthen (ext (rtDisconnect E rs ((stream_E PolicyViolation)\<lparr>seApplicationElement :=
                        Some (ns_elem ''resource-conflict'' ''urn:xmpp:errors'' [])\<rparr>)))
                      (\<lambda>_. ret (Some (Text resElem)))
                | Disallow \<Rightarrow> ret None)))"

definition unavailable_presence :: "xlib \<Rightarrow> jid \<Rightarrow> element" where
  "unavailable_presence X j =
     Element ''presence'' [(''from'', JIDString X j), (''to'', JIDString X j), (''type'', ''unavailable'')] [] []"

definition bind_with :: "'w in_env \<Rightarrow> element \<Rightarrow> string \<Rightarrow> ('w, unit) c2s" where
  "bind_with E iq res =
     andthen (own (\<lambda>s. NewJID (lib E) (Username s) (sDomain s) res False)) (\<lambda>j.
       case j of
         None \<Rightarrow> sendElement E (MakeErrorStanza (lib E) iq ''bad-request'')
       | Some userJID \<Rightarrow>
           andthen (setJID (Some userJID)) (\<lambda>_.
           andthen (ignore (ext (sesSetFromJID E (Some userJID)))) (\<lambda>_.
           andthen (setPresence (Some (unavailable_presence (lib E) userJID))) (\<lambda>_.
           andthen (enter_binded E) (\<lambda>_.
           andthen own_jid (\<lambda>jd.
             sendElement E (MakeResultIQ (lib E) iq (Some (ns_elem ''bind'' bindNamespace
               [Element ''jid'' [] (JIDString (lib E) jd) []])))))))))"

definition bindResource :: "'w in_env \<Rightarrow> element \<Rightarrow> ('w, unit) c2s" where
  "bindResource E iq =
     (case ChildNamespace (lib E) iq ''bind'' bindNamespace of
        None \<Rightarrow> sendElement E (MakeErrorStanza (lib E) iq ''not-allowed'')
      | Some bind \<Rightarrow>
          if Attribute (lib E) iq ''type'' \<noteq> ''set'' then sendElement E (MakeErrorStanza (lib E) iq ''not-allowed'')
          else andthen (ext_own (\<lambda>s. rmGetResources E (Username s))) (\<lambda>rss.
               andthen (own isJid) (\<lambda>j.
                 case MatchingJID (lib E) (shapers E) j of
                   Inl e \<Rightarrow> throw e
                 | Inr sh \<Rightarrow>
                     if int (length rss) = MaxSessions sh then
                       disconnect E (Some ((stream_E PolicyViolation)\<lparr>seApplicationElement :=
                         Some (ns_elem ''reached-max-session-count'' ''urn:xmpp:errors'' [])\<rparr>))
                     else andthen (choose_resource E bind rss) (\<lambda>r.
                       case r of
                         None \<Rightarrow> sendElement E (MakeErrorStanza (lib E) iq ''conflict'')
                       | Some res \<Rightarrow> bind_with E iq res))))"

section \<open>Stanza processing\<close>

text \<open>Running a hook that may replace the stanza: the element afterwards, and whether it was halted.\<close>

definition hook_element :: "'w in_env \<Rightarrow> string \<Rightarrow> element \<Rightarrow> ('w, bool \<times> element option) c2s" where
  "hook_element E name el =
     andthen (stream_info (Some el)) (\<lambda>info.
       andthen (runHook E name info) (\<lambda>(halted, info'). ret (halted, ciElement info')))"

text \<open>Go's type assertion to one kind of stanza.\<close>

definition as_kind :: "'w in_env \<Rightarrow> stanza_kind \<Rightarrow> element option \<Rightarrow> element option" where
  "as_kind E k el =
     (case el of None \<Rightarrow> None | Some e \<Rightarrow> if StanzaKind (lib E) e = k then Some e else None)"

definition received_hook :: "'w in_env \<Rightarrow> string \<Rightarrow> stanza_kind \<Rightarrow> element \<Rightarrow> ('w, element) c2s" where
  "received_hook E name k el =
     andthen (hook_element E name el) (\<lambda>(halted, el').
       case as_kind E k el' of None \<Rightarrow> throw ErrPanic | Some e \<Rightarrow> ret e)"

definition routed_hook :: "'w in_env \<Rightarrow> string \<Rightarrow> jid list \<Rightarrow> element \<Rightarrow> ('w, bool) c2s" where
  "routed_hook E name targets el =
     andthen (stream_info (Some el)) (\<lambda>info.
       andthen (runHook E name (info\<lparr>ciTargets := targets\<rparr>)) (\<lambda>(halted, _). ret halted))"

abbreviation reply_error :: "'w in_env \<Rightarrow> element \<Rightarrow> string \<Rightarrow> ('w, unit) c2s" where
  "reply_error E stanza reason \<equiv> sendElement E (MakeErrorStanza (lib E) stanza reason)"

definition route_iq :: "'w in_env \<Rightarrow> element \<Rightarrow> ('w, unit) c2s" where
  "route_iq E iq =
     andthen (attempt (ext (rtRoute E iq))) (\<lambda>r.
       let routed = (\<lambda>targets. andthen (routed_hook E ''c2s.stream.iq_routed'' targets iq) (\<lambda>_. ret ()))
       in case r of
            Inr targets \<Rightarrow> routed targets
          | Inl e \<Rightarrow>
              if e = ErrResourceNotFound then reply_error E iq ''service-unavailable''
              else if e = ErrRemoteServerNotFound then reply_error E iq ''remote-server-not-found''
              else if e = ErrRemoteServerTimeout then reply_error E iq ''remote-server-timeout''
              else if e = ErrUserNotAvailable then routed []
              else ret ())"

definition processIQ :: "'w in_env \<Rightarrow> element \<Rightarrow> ('w, unit) c2s" where
  "processIQ E iq0 =
     andthen (received_hook E ''c2s.stream.iq_received'' IQKind iq0) (\<lambda>iq.
       if IsSet (lib E) iq \<and> ChildNamespace (lib E) iq ''session'' sessionNamespace \<noteq> None then
         andthen (own isFlags) (\<lambda>f.
           if \<not> isSessionStarted f then
             andthen (setFlag setSessionStarted) (\<lambda>_. sendElement E (ResultBuilder (lib E) iq))
           else reply_error E iq ''not-allowed'')
       else if IsResult (lib E) iq \<or> IsError (lib E) iq then ret ()
       else if modIsModuleIQ E iq then modProcessIQ E iq
       else andthen (hook_element E ''c2s.stream.will_route_element'' iq) (\<lambda>(halted, el).
         if halted then ret ()
         else case as_kind E IQKind el of
                None \<Rightarrow> ret ()
              | Some iq' \<Rightarrow> route_iq E iq'))"

definition processPresence :: "'w in_env \<Rightarrow> element \<Rightarrow> ('w, unit) c2s" where
  "processPresence E pr0 =
     andthen (received_hook E ''c2s.stream.presence_received'' PresenceKind pr0) (\<lambda>presence.
       if IsFullWithUser (lib E) (ToJID (lib E) presence) then
         andthen (hook_element E ''c2s.stream.will_route_element'' presence) (\<lambda>(halted, el).
           if halted then ret ()
           else case as_kind E PresenceKind el of
                  None \<Rightarrow> ret ()
                | Some pr \<Rightarrow>
                    andthen (attempt (ext (rtRoute E pr))) (\<lambda>r.
                      let routed = (\<lambda>targets.
                            andthen (stream_info (Some pr)) (\<lambda>info.
                              andthen (runHook E ''c2s.stream.presence_routed''
                                  (info\<lparr>ciPresence := None, ciTargets := targets\<rparr>)) (\<lambda>_. ret ())))
                      in case r of
                           Inr targets \<Rightarrow> routed targets
                         | Inl e \<Rightarrow> if e = ErrUserNotAvailable then routed [] else ret ()))
       else andthen own_jid (\<lambda>jd.
         let matchesUserJID = MatchesBare (lib E) jd (ToJID (lib E) presence)
         in andthen (if matchesUserJID \<and> (IsAvailable (lib E) presence \<or> IsUnavailable (lib E) presence)
                     then setPresence (Some presence) else ret ())
              (\<lambda>_. putResource E)))"

text \<open>The message addressed to the bare address of the original recipient.\<close>

definition to_bare :: "xlib \<Rightarrow> element \<Rightarrow> element \<Rightarrow> element" where
  "to_bare X message msg =
     WithAttribute X (WithAttribute X msg ''from'' (JIDString X (FromJID X message)))
       ''to'' (JIDString X (ToBareJID X (ToJID X message)))"

text \<open>
  One round of the loop of \<^verbatim>\<open>processMessage\<close> (label \<^verbatim>\<open>sendMsg\<close>), with \<open>again\<close> for the jump back, and
  at most \<open>fuel\<close> rounds of it.
\<close>

definition send_round ::
  "'w in_env \<Rightarrow> (element \<Rightarrow> ('w, unit) c2s) \<Rightarrow> element \<Rightarrow> element \<Rightarrow> ('w, unit) c2s" where
  "send_round E again message msg =
     andthen (hook_element E ''c2s.stream.will_route_element'' msg) (\<lambda>(halted, el).
       if halted then ret ()
       else case as_kind E MessageKind el of
         None \<Rightarrow> ret ()
       | Some msg' \<Rightarrow>
           andthen (attempt (ext (rtRoute E msg'))) (\<lambda>r.
             case r of
               Inr targets \<Rightarrow>
                 andthen (routed_hook E ''c2s.stream.message_routed'' targets msg') (\<lambda>_. ret ())
             | Inl e \<Rightarrow>
                 if e = ErrResourceNotFound then again (to_bare (lib E) message msg')
                 else if e = ErrNotExistingAccount then reply_error E message ''service-unavailable''
                 else if e = ErrRemoteServerNotFound then reply_error E message ''remote-server-not-found''
                 else if e = ErrRemoteServerTimeout then reply_error E message ''remote-server-timeout''
                 else if e = ErrUserNotAvailable then
                   andthen (attempt (routed_hook E ''c2s.stream.message_routed'' [] msg')) (\<lambda>h.
                     case h of
                       Inr True \<Rightarrow> ret ()
                     | _ \<Rightarrow> reply_error E message ''service-unavailable'')
                 else throw e))"

fun send_msg :: "'w in_env \<Rightarrow> nat \<Rightarrow> element \<Rightarrow> element \<Rightarrow> ('w, unit) c2s" where
  "send_msg E 0 message msg = throw ErrNoReturn"
| "send_msg E (Suc fuel) message msg = send_round E (send_msg E fuel message) message msg"

definition processMessage :: "'w in_env \<Rightarrow> nat \<Rightarrow> element \<Rightarrow> ('w, unit) c2s" where
  "processMessage E fuel message =
     andthen (received_hook E ''c2s.stream.message_received'' MessageKind message) (\<lambda>msg.
       send_msg E fuel message msg)"

definition processStanza :: "'w in_env \<Rightarrow> nat \<Rightarrow> element \<Rightarrow> ('w, unit) c2s" where
  "processStanza E fuel stanza =
     andthen (ext (gets (cmpIsComponentHost E (Domain (ToJID (lib E) stanza))))) (\<lambda>isComp.
       if isComp then ext (cmpProcessStanza E stanza)
       else case StanzaKind (lib E) stanza of
              IQKind \<Rightarrow> processIQ E stanza
            | PresenceKind \<Rightarrow> processPresence E stanza
            | MessageKind \<Rightarrow> processMessage E fuel stanza
            | NotStanza \<Rightarrow> disconnect E (Some (stream_E UnsupportedStanzaType)))"

section \<open>Elements received\<close>

definition handleConnecting :: "'w in_env \<Rightarrow> element option \<Rightarrow> ('w, unit) c2s" where
  "handleConnecting E el =
     andthen (own sDomain) (\<lambda>d.
     andthen (if length d = 0 then
                (case el of
                   None \<Rightarrow> throw ErrPanic
                 | Some e \<Rightarrow> setJID (NewJIDWithString (lib E) (Attribute (lib E) e ''to'') True))
              else ret ()) (\<lambda>_.
     andthen (own isJid) (\<lambda>j.
     andthen (ignore (ext (sesSetFromJID E j))) (\<lambda>_.
     andthen (own (\<lambda>s. s)) (\<lambda>s.
     andthen (if \<not> isAuthenticated (isFlags s) then
                andthen (setState inConnected) (\<lambda>_. ret (unauthenticatedFeatures E s))
              else andthen (authenticatedFeatures E) (\<lambda>fs.
                andthen (setState inAuthenticated) (\<lambda>_. ret fs))) (\<lambda>features.
     andthen (ext (sesOpenStream E)) (\<lambda>_.
       ext (sesSend E (Element ''stream:features''
         [(''xmlns:stream'', streamsNamespace), (''version'', ''1.0'')] [] features)))))))))"

definition handleConnected :: "'w in_env \<Rightarrow> element \<Rightarrow> ('w, unit) c2s" where
  "handleConnected E el =
     (if Name el = ''starttls'' then proceedStartTLS E el
      else if Name el = ''auth'' then startAuthentication E el
      else if Name el = ''iq'' \<and> ChildNamespace (lib E) el ''query'' ''jabber:iq:auth'' \<noteq> None then
        reply_error E el ''service-unavailable''
      else if Name el \<in> {''iq'', ''message'', ''presence''} then disconnect E (Some (stream_E NotAuthorized))
      else disconnect E (Some (stream_E UnsupportedStanzaType)))"

definition handleAuthenticated :: "'w in_env \<Rightarrow> element \<Rightarrow> ('w, unit) c2s" where
  "handleAuthenticated E el =
     (if Name el = ''compress'' then compress_stream E el
      else if Name el = ''iq'' then
        (if StanzaKind (lib E) el = IQKind then bindResource E el else throw ErrPanic)
      else disconnect E (Some (stream_E UnsupportedStanzaType)))"

definition handleBinded :: "'w in_env \<Rightarrow> nat \<Rightarrow> element \<Rightarrow> ('w, unit) c2s" where
  "handleBinded E fuel el =
     (if is_stanza (lib E) el then processStanza E fuel el
      else disconnect E (Some (stream_E UnsupportedStanzaType)))"

text \<open>The \<^verbatim>\<open>switch\<close> on the state; a handler may have left no element.\<close>

definition dispatch_element :: "'w in_env \<Rightarrow> nat \<Rightarrow> c2s_state \<Rightarrow> element option \<Rightarrow> ('w, unit) c2s" where
  "dispatch_element E fuel st el =
     (case (st, el) of
        (inConnecting, _) \<Rightarrow> handleConnecting E el
      | (inDisconnected, _) \<Rightarrow> ret ()
      | (inTerminated, _) \<Rightarrow> ret ()
      | (inConnected, Some e) \<Rightarrow> handleConnected E e
      | (inAuthenticating, Some e) \<Rightarrow> handleAuthenticating E e
      | (inAuthenticated, Some e) \<Rightarrow> handleAuthenticated E e
      | (inBinded, Some e) \<Rightarrow> handleBinded E fuel e
      | (inBinded, None) \<Rightarrow> disconnect E (Some (stream_E UnsupportedStanzaType))
      | (_, None) \<Rightarrow> throw ErrPanic)"

definition handleElement :: "'w in_env \<Rightarrow> nat \<Rightarrow> element \<Rightarrow> ('w, unit) c2s" where
  "handleElement E fuel el =
     andthen (hook_element E ''c2s.stream.element_received'' el) (\<lambda>(halted, el').
       if halted then ret ()
       else andthen (own isState) (\<lambda>st. dispatch_element E fuel st el'))"

section \<open>Runs\<close>

text \<open>\<^verbatim>\<open>start\<close> up to the read loop, and the tasks of the run queue.\<close>

definition start_stream :: "'w in_env \<Rightarrow> ('w, unit) c2s" where
  "start_stream E =
     andthen (ext_own (rtRegister E)) (\<lambda>_.
       andthen (stream_info None) (\<lambda>info.
         andthen (runHook E ''c2s.stream.connected'' (info\<lparr>ciJID := None, ciPresence := None\<rparr>)) (\<lambda>_.
           restartSession E)))"

datatype c2s_event =
    Received element
  | SessionError go_error
  | Timeout
  | SendRequest element
  | DisconnectRequest "stream_error option"
  | TimerFired nat

text \<open>
  The read loop ends when it finds the stream disconnected, but a reception may be under way
  when another task disconnects it: an element or an error can be received in every state.
\<close>

fun c2s_task :: "'w in_env \<Rightarrow> nat \<Rightarrow> c2s_event \<Rightarrow> ('w, unit) c2s" where
  "c2s_task E fuel (Received el) = handleElement E fuel el"
| "c2s_task E fuel (SessionError e) = handleSessionError E e"
| "c2s_task E fuel Timeout = connTimeout E"
| "c2s_task E fuel (SendRequest el) = sendElement E el"
| "c2s_task E fuel (DisconnectRequest se) = disconnect E se"
| "c2s_task E fuel (TimerFired t) = fire_disc_timer E t"

definition c2s_run :: "'w in_env \<Rightarrow> nat \<Rightarrow> c2s_event list \<Rightarrow> in_c2s \<times> 'w \<Rightarrow> in_c2s \<times> 'w" where
  "c2s_run E fuel evs st = snd (run_all (c2s_task E fuel) evs st)"

end
