(* ===== verification/C2S_Safety.thy ===== *)
theory C2S_Safety
  imports C2S_Stream
begin

text \<open>
  What holds of every run of a client stream.
  \<^item> The contract of an invariant of the stream (\<open>stream_inv\<close>): what disconnection, termination and
    the timers must keep; under it, and when hook handlers and modules keep the invariant, so does
    everything a stream does to send and disconnect.
  \<^item> The invariant of authentication and binding, and that every task of the run queue keeps it.
  \<^item> Streams that are not bound never route a stanza, and the retry loop of a message ends.
\<close>

section \<open>Flags\<close>

named_theorems flag_simps

lemma flag_bits [flag_simps]:
  "isSecured f = bit f 0" "isAuthenticated f = bit f 1" "isCompressed f = bit f 2"
  "isBinded f = bit f 3" "isSessionStarted f = bit f 4"
  using and_exp_eq_0_iff_not_bit [of f 0] and_exp_eq_0_iff_not_bit [of f 1] and_exp_eq_0_iff_not_bit [of f 2]
    and_exp_eq_0_iff_not_bit [of f 3] and_exp_eq_0_iff_not_bit [of f 4]
  by (simp_all add: isSecured_def isAuthenticated_def isCompressed_def isBinded_def isSessionStarted_def
      fSecured_def fAuthenticated_def fCompressed_def fBinded_def fSessionStarted_def word_gt_0)

lemma flag_sets [flag_simps]:
  "bit (setSecured f) n \<longleftrightarrow> bit f n \<or> n = 0" "bit (setAuthenticated f) n \<longleftrightarrow> bit f n \<or> n = 1"
  "bit (setCompressed f) n \<longleftrightarrow> bit f n \<or> n = 2" "bit (setBinded f) n \<longleftrightarrow> bit f n \<or> n = 3"
  "bit (setSessionStarted f) n \<longleftrightarrow> bit f n \<or> n = 4"
proof -
  have p: "bit (2 ^ k :: 8 word) n \<longleftrightarrow> n = k" if "k < 8" for k
    using that by (auto simp: bit_exp_iff)
  show "bit (setSecured f) n \<longleftrightarrow> bit f n \<or> n = 0" "bit (setAuthenticated f) n \<longleftrightarrow> bit f n \<or> n = 1"
    "bit (setCompressed f) n \<longleftrightarrow> bit f n \<or> n = 2" "bit (setBinded f) n \<longleftrightarrow> bit f n \<or> n = 3"
    "bit (setSessionStarted f) n \<longleftrightarrow> bit f n \<or> n = 4"
    using p [of 0] p [of 1] p [of 2] p [of 3] p [of 4]
    by (simp_all add: setSecured_def setAuthenticated_def setCompressed_def setBinded_def setSessionStarted_def
        fSecured_def fAuthenticated_def fCompressed_def fBinded_def fSessionStarted_def bit_or_iff)
qed

text \<open>
  The five flags of a stream are independent: setting one makes it true and leaves the other
  four as they were.
\<close>

theorem flags_independent:
  "isSecured (setSecured f) \<and> isAuthenticated (setAuthenticated f) \<and> isCompressed (setCompressed f) \<and>
   isBinded (setBinded f) \<and> isSessionStarted (setSessionStarted f) \<and>
   map (\<lambda>p. p (setAuthenticated f)) [isSecured, isCompressed, isBinded, isSessionStarted] =
     map (\<lambda>p. p f) [isSecured, isCompressed, isBinded, isSessionStarted] \<and>
   map (\<lambda>p. p (setBinded f)) [isSecured, isAuthenticated, isCompressed, isSessionStarted] =
     map (\<lambda>p. p f) [isSecured, isAuthenticated, isCompressed, isSessionStarted] \<and>
   map (\<lambda>p. p (setSecured f)) [isAuthenticated, isCompressed, isBinded, isSessionStarted] =
     map (\<lambda>p. p f) [isAuthenticated, isCompressed, isBinded, isSessionStarted] \<and>
   map (\<lambda>p. p (setCompressed f)) [isSecured, isAuthenticated, isBinded, isSessionStarted] =
     map (\<lambda>p. p f) [isSecured, isAuthenticated, isBinded, isSessionStarted] \<and>
   map (\<lambda>p. p (setSessionStarted f)) [isSecured, isAuthenticated, isCompressed, isBinded] =
     map (\<lambda>p. p f) [isSecured, isAuthenticated, isCompressed, isBinded]"
  by (simp add: flag_simps)

section \<open>Computations that keep a predicate of the stream\<close>

abbreviation kps :: "(in_c2s \<Rightarrow> bool) \<Rightarrow> ('w, 'a) c2s \<Rightarrow> bool" where
  "kps I m \<equiv> keeps (\<lambda>st. I (fst st)) m"

lemma kps_ext [keeps_intro]: "kps I (ext f)"
  by (simp add: keeps_def ext_def split_beta)

lemma kps_ext_own [keeps_intro]: "kps I (ext_own f)"
  by (simp add: keeps_def ext_own_def split_beta)

lemma kps_own [keeps_intro]: "kps I (own f)"
  by (simp add: own_def keeps_gets)

lemma kps_upd: "(\<And>s. I s \<Longrightarrow> I (f s)) \<Longrightarrow> kps I (upd f)"
  by (simp add: keeps_def upd_def modify_run split_beta)

lemma kps_own_jid [keeps_intro]: "kps I own_jid"
  unfolding own_jid_def by (intro keeps_intro) (auto intro: keeps_intro split: option.split)

lemma kps_stream_info [keeps_intro]: "kps I (stream_info el)"
  unfolding stream_info_def by (rule kps_own)

lemma kps_putResource [keeps_intro]: "kps I (putResource E)"
  unfolding putResource_def getResource_def by (intro keeps_intro)

lemma kps_updateRateLimiter [keeps_intro]: "kps I (updateRateLimiter E)"
  unfolding updateRateLimiter_def by (intro keeps_intro) (auto intro: keeps_intro split: sum.split)

lemma kps_active_auth [keeps_intro]: "kps I (active_auth E)"
  unfolding active_auth_def by (intro keeps_intro) (auto intro: keeps_intro split: option.split)

lemma kps_authenticatedFeatures [keeps_intro]: "kps I (authenticatedFeatures E)"
  unfolding authenticatedFeatures_def Let_def by (intro keeps_intro)

text \<open>What is asked of the code behind the hooks and the modules.\<close>

definition handlers_keep :: "'w in_env \<Rightarrow> (in_c2s \<Rightarrow> bool) \<Rightarrow> bool" where
  "handlers_keep E I \<longleftrightarrow>
     (\<forall>name h i. h \<in> set (envHooks E name) \<longrightarrow> kps I (h_fn h i)) \<and> (\<forall>iq. kps I (modProcessIQ E iq))"

lemma kps_runHook: "handlers_keep E I \<Longrightarrow> kps I (runHook E name info)"
  unfolding runHook_def by (rule keeps_Run) (simp add: handlers_keep_def)

lemma kps_sendElement: "handlers_keep E I \<Longrightarrow> kps I (sendElement E el)"
  unfolding sendElement_def by (intro keeps_intro kps_runHook)

lemma kps_hook_element: "handlers_keep E I \<Longrightarrow> kps I (hook_element E name el)"
  unfolding hook_element_def by (intro keeps_intro kps_runHook) (auto intro: keeps_intro split: prod.split)

lemma kps_received_hook: "handlers_keep E I \<Longrightarrow> kps I (received_hook E name k el)"
  unfolding received_hook_def
  by (intro keeps_intro kps_hook_element) (auto intro: keeps_intro split: prod.split option.split)

lemma kps_routed_hook: "handlers_keep E I \<Longrightarrow> kps I (routed_hook E name ts el)"
  unfolding routed_hook_def by (intro keeps_intro kps_runHook) (auto intro: keeps_intro split: prod.split)

lemmas kps_hooks = kps_runHook kps_sendElement kps_hook_element kps_received_hook kps_routed_hook

section \<open>The contract of an invariant\<close>

locale stream_inv =
  fixes I :: "in_c2s \<Rightarrow> bool"
  assumes closing: "I s \<Longrightarrow> I (s\<lparr>isState := inDisconnected\<rparr>)"
    and terminating: "I s \<Longrightarrow> I (s\<lparr>isState := inTerminated\<rparr>)"
    and closed_done: "I s \<Longrightarrow> I (s\<lparr>isDone := True\<rparr>)"
    and timers: "I s \<Longrightarrow> I (s\<lparr>isDiscTm := a, isLiveTms := b, isNextTm := c, isSendDisabled := d\<rparr>)"
begin

lemma live_timers: "I s \<Longrightarrow> I (s\<lparr>isLiveTms := b\<rparr>)"
  using timers [where a = "isDiscTm s" and c = "isNextTm s" and d = "isSendDisabled s"] by fastforce

lemma stop_timer_keeps: "I s \<Longrightarrow> I (stop_disc_timer s)"
  by (auto simp: stop_disc_timer_def live_timers split: option.split)

lemma kps_terminate:
  assumes "handlers_keep E I"
  shows "kps I (terminate E)"
  unfolding terminate_def setState_def
  by (intro keeps_intro kps_hooks [OF assms] kps_upd terminating closed_done)

lemma kps_close_stream:
  assumes "handlers_keep E I"
  shows "kps I (close_stream E err)"
  unfolding close_stream_def setState_def
  by (intro keeps_intro kps_upd kps_terminate assms kps_hooks [OF assms] closing stop_timer_keeps)
    (auto intro: keeps_intro kps_terminate assms split: prod.split)

lemma kps_disconnect:
  assumes "handlers_keep E I"
  shows "kps I (disconnect E se)"
  unfolding disconnect_def
  by (intro keeps_intro; cases se; auto intro!: keeps_intro kps_hooks [OF assms] kps_close_stream [OF assms] kps_upd timers)

lemma kps_fire_disc_timer:
  assumes "handlers_keep E I"
  shows "kps I (fire_disc_timer E t)"
  unfolding fire_disc_timer_def
  by (intro keeps_intro; auto intro!: keeps_intro kps_close_stream [OF assms] kps_upd live_timers split: option.split prod.split)

lemma kps_handleSessionError:
  assumes "handlers_keep E I"
  shows "kps I (handleSessionError E e)"
  unfolding handleSessionError_def by (intro keeps_intro kps_close_stream assms)

lemma kps_connTimeout:
  assumes "handlers_keep E I"
  shows "kps I (connTimeout E)"
  unfolding connTimeout_def by (intro keeps_intro kps_disconnect assms)

end

section \<open>Authentication and binding\<close>

text \<open>A stream offers binding only when authenticated, and processes stanzas only when bound.\<close>

definition auth_inv :: "in_c2s \<Rightarrow> bool" where
  "auth_inv s \<longleftrightarrow>
     (isState s \<in> {inAuthenticated, inBinded} \<longrightarrow> isAuthenticated (isFlags s)) \<and>
     (isState s = inBinded \<longrightarrow> isBinded (isFlags s)) \<and>
     (isBinded (isFlags s) \<longrightarrow> isAuthenticated (isFlags s))"

definition auth_done :: "in_c2s \<Rightarrow> bool" where
  "auth_done s \<longleftrightarrow> auth_inv s \<and> isAuthenticated (isFlags s)"

interpretation auth: stream_inv auth_inv
  by unfold_locales (auto simp: auth_inv_def)

named_theorems kps_auth \<comment> \<open>operations that keep the authentication invariant\<close>

lemma kps_auth_upd [kps_auth]:
  "kps auth_inv (setJID j)" "kps auth_inv (setPresence p)"
  "kps auth_inv (setFlag setSecured)" "kps auth_inv (setFlag setCompressed)"
  "kps auth_inv (setFlag setSessionStarted)" "kps auth_inv (setFlag setAuthenticated)"
  "kps auth_inv (setState inConnecting)" "kps auth_inv (setState inConnected)"
  "kps auth_inv (setState inAuthenticating)"
  "kps auth_inv (upd (\<lambda>s. s\<lparr>isActive := a\<rparr>))" "kps auth_inv (upd (\<lambda>s. s\<lparr>isFailedTimes := isFailedTimes s + 1\<rparr>))"
  "kps auth_inv (upd (\<lambda>s. s\<lparr>isAbortTimes := isAbortTimes s + 1\<rparr>))"
  unfolding setJID_def setPresence_def setFlag_def setState_def
  by (rule kps_upd; auto simp: auth_inv_def flag_simps)+

lemma kps_restartSession [kps_auth]: "kps auth_inv (restartSession E)"
  unfolding restartSession_def by (intro keeps_intro kps_auth)

lemma triple_enter_binded:
  assumes "handlers_keep E auth_inv"
  shows "triple (\<lambda>st. auth_done (fst st)) (enter_binded E) (\<lambda>_ st. auth_inv (fst st)) (\<lambda>st. auth_inv (fst st))"
proof -
  let ?I = "\<lambda>st. auth_inv (fst st)"
  have weak: "triple P m Q ?I" if "triple P m Q (\<lambda>st. auth_done (fst st))" for P Q and m :: "('w, 'b) c2s"
    by (rule triple_weaken [OF that]) (simp_all add: auth_done_def)
  have bind: "triple (\<lambda>st. auth_done (fst st)) (bindC2S E) (\<lambda>_ st. auth_done (fst st)) ?I"
    unfolding bindC2S_def by (intro weak keeps_triple keeps_intro)
  have st: "triple (\<lambda>st. auth_done (fst st)) (setState inBinded :: ('w, unit) c2s)
      (\<lambda>_ st. isState (fst st) = inBinded \<and> isAuthenticated (isFlags (fst st))) ?I"
    by (auto simp: triple_def setState_def upd_def modify_run auth_done_def)
  have fl: "triple (\<lambda>st. isState (fst st) = inBinded \<and> isAuthenticated (isFlags (fst st)))
      (setFlag setBinded :: ('w, unit) c2s) (\<lambda>_. ?I) ?I"
    by (auto simp: triple_def setFlag_def upd_def modify_run auth_inv_def flag_simps)
  have hook: "triple ?I (andthen (stream_info None) (\<lambda>info.
      andthen (runHook E ''c2s.stream.binded'' (info\<lparr>ciPresence := None\<rparr>)) (\<lambda>_. ret ()))) (\<lambda>_. ?I) ?I"
    by (intro keeps_triple keeps_intro kps_hooks [OF assms])
  show ?thesis
    unfolding enter_binded_def by (rule triple_andthen [OF bind triple_andthen [OF st triple_andthen [OF fl hook]]])
qed

lemma kps_done_upd:
  "kps auth_done (setJID j)" "kps auth_done (setPresence p)"
  unfolding setJID_def setPresence_def by (rule kps_upd; auto simp: auth_done_def auth_inv_def)+

lemma triple_done_keeps:
  assumes "kps auth_done m"
  shows "triple (\<lambda>st. auth_done (fst st)) m (\<lambda>_ st. auth_done (fst st)) (\<lambda>st. auth_inv (fst st))"
  by (rule triple_weaken [OF keeps_triple [OF assms]]) (simp_all add: auth_done_def)

lemma triple_done_inv:
  assumes "kps auth_inv m"
  shows "triple (\<lambda>st. auth_done (fst st)) m (\<lambda>_ st. auth_inv (fst st)) (\<lambda>st. auth_inv (fst st))"
  by (rule triple_weaken [OF keeps_triple [OF assms]]) (simp_all add: auth_done_def)

lemma triple_bind_with:
  assumes "handlers_keep E auth_inv"
  shows "triple (\<lambda>st. auth_done (fst st)) (bind_with E iq res) (\<lambda>_ st. auth_inv (fst st)) (\<lambda>st. auth_inv (fst st))"
  unfolding bind_with_def
  apply (rule triple_andthen [OF triple_done_keeps [OF kps_own]])
  subgoal for j
    by (cases j; simp; intro triple_done_inv kps_hooks [OF assms]
        triple_andthen [OF triple_done_keeps [OF kps_done_upd(1)]]
        triple_andthen [OF triple_done_keeps [OF keeps_ignore [OF kps_ext]]]
        triple_andthen [OF triple_done_keeps [OF kps_done_upd(2)]]
        triple_andthen [OF triple_enter_binded [OF assms]] keeps_triple keeps_intro)
  done

lemma triple_choose:
  "triple (\<lambda>st. auth_done (fst st)) (choose_resource E b rss) (\<lambda>_ st. auth_done (fst st)) (\<lambda>st. auth_inv (fst st))"
  unfolding choose_resource_def
  by (intro triple_done_keeps) (auto intro!: keeps_intro split: option.split resource_conflict.split)

lemma triple_bindResource:
  assumes "handlers_keep E auth_inv"
  shows "triple (\<lambda>st. auth_done (fst st)) (bindResource E iq) (\<lambda>_ st. auth_inv (fst st)) (\<lambda>st. auth_inv (fst st))"
proof (cases "ChildNamespace (lib E) iq ''bind'' bindNamespace")
  case None
  then show ?thesis by (simp add: bindResource_def triple_done_inv kps_hooks [OF assms])
next
  case (Some b)
  have tail: "triple (\<lambda>st. auth_done (fst st)) (andthen (choose_resource E b rss) (\<lambda>r.
      case r of None \<Rightarrow> sendElement E (MakeErrorStanza (lib E) iq ''conflict'') | Some res \<Rightarrow> bind_with E iq res))
      (\<lambda>_ st. auth_inv (fst st)) (\<lambda>st. auth_inv (fst st))" for rss
    by (rule triple_andthen [OF triple_choose])
      (auto intro!: triple_done_inv kps_hooks [OF assms] triple_bind_with assms split: option.split)
  show ?thesis
    unfolding bindResource_def Some option.case
    by (auto intro!: triple_done_inv [OF kps_sendElement [OF assms]]
        triple_andthen [OF triple_done_keeps [OF kps_ext_own]]
        triple_andthen [OF triple_done_keeps [OF kps_own]]
        triple_done_inv [OF keeps_throw] triple_done_inv [OF auth.kps_disconnect [OF assms]] tail
        split: sum.split)
qed

lemma kps_proceedStartTLS:
  assumes "handlers_keep E auth_inv"
  shows "kps auth_inv (proceedStartTLS E el)"
  unfolding proceedStartTLS_def Let_def
  by (intro keeps_intro kps_auth kps_hooks [OF assms] auth.kps_disconnect [OF assms])

lemma kps_finishAuthentication: "kps auth_inv (finishAuthentication E)"
proof -
  have "kps auth_inv (ext (modify f) :: ('w, unit) c2s)" for f by (rule kps_ext)
  then show ?thesis unfolding finishAuthentication_def by (intro keeps_intro kps_auth)
qed

lemma kps_failAuthentication:
  assumes "handlers_keep E auth_inv"
  shows "kps auth_inv (failAuthentication E r)"
  unfolding failAuthentication_def
  by (intro keeps_intro kps_auth kps_hooks [OF assms] auth.kps_disconnect [OF assms])

lemma kps_auth_step:
  assumes "handlers_keep E auth_inv" and "kps auth_inv pending"
  shows "kps auth_inv (auth_step E el pending)"
proof -
  have c: "kps auth_inv (continueAuthentication E el)"
    unfolding continueAuthentication_def by (intro keeps_intro kps_hooks [OF assms(1)])
  have "kps auth_inv (case r of Inl (ErrSASL reason) \<Rightarrow> failAuthentication E reason | Inl e \<Rightarrow> throw e
      | Inr _ \<Rightarrow> andthen (active_auth E) (\<lambda>a. andthen (ext (gets (auAuthenticated a))) (\<lambda>ok.
               if ok then finishAuthentication E else pending)))" for r :: "go_error + unit"
    by (cases r) (auto intro!: keeps_intro kps_failAuthentication assms kps_finishAuthentication split: go_error.split)
  then show ?thesis unfolding auth_step_def by (intro keeps_andthen keeps_attempt c)
qed

lemma kps_startAuthentication:
  assumes "handlers_keep E auth_inv"
  shows "kps auth_inv (startAuthentication E el)"
  unfolding startAuthentication_def
  by (auto intro!: keeps_intro kps_auth kps_hooks [OF assms] auth.kps_disconnect [OF assms]
      kps_auth_step [OF assms] split: option.split)

lemma kps_handleAuthenticating:
  assumes "handlers_keep E auth_inv"
  shows "kps auth_inv (handleAuthenticating E el)"
proof -
  have "kps auth_inv (abortAuthentication E)"
    unfolding abortAuthentication_def by (intro keeps_intro kps_auth auth.kps_disconnect [OF assms])
  then show ?thesis
    unfolding handleAuthenticating_def
    by (auto intro!: keeps_intro auth.kps_disconnect [OF assms] kps_auth_step [OF assms])
qed

lemma kps_compress_stream:
  assumes "handlers_keep E auth_inv"
  shows "kps auth_inv (compress_stream E el)"
  unfolding compress_stream_def
  by (intro keeps_intro; auto intro!: keeps_intro kps_auth kps_hooks [OF assms] auth.kps_disconnect [OF assms]
      split: option.split)

lemma kps_handleConnected:
  assumes "handlers_keep E auth_inv"
  shows "kps auth_inv (handleConnected E el)"
  unfolding handleConnected_def
  by (auto intro!: kps_proceedStartTLS kps_startAuthentication kps_hooks [OF assms] auth.kps_disconnect assms)

lemma kps_route_iq:
  assumes "handlers_keep E I"
  shows "kps I (route_iq E iq)"
  unfolding route_iq_def Let_def
  by (intro keeps_intro; auto intro!: keeps_intro kps_hooks [OF assms] split: sum.split)

lemma kps_processIQ:
  assumes "handlers_keep E auth_inv"
  shows "kps auth_inv (processIQ E iq)"
proof -
  have "kps auth_inv (modProcessIQ E i)" for i using assms by (simp add: handlers_keep_def)
  then show ?thesis
    unfolding processIQ_def
    by (intro keeps_intro kps_hooks [OF assms] kps_auth;
        auto intro!: keeps_intro kps_hooks [OF assms] kps_auth kps_route_iq assms split: prod.split option.split)
qed

lemma kps_processPresence:
  assumes "handlers_keep E auth_inv"
  shows "kps auth_inv (processPresence E pr)"
  unfolding processPresence_def Let_def
  by (intro keeps_intro kps_hooks [OF assms] kps_auth;
      auto intro!: keeps_intro kps_hooks [OF assms] kps_auth split: prod.split option.split sum.split)

lemma kps_send_msg:
  assumes "handlers_keep E I"
  shows "kps I (send_msg E fuel message msg)"
proof (induction fuel arbitrary: msg)
  case (Suc fuel)
  show ?case
    unfolding send_msg.simps send_round_def
    by (intro keeps_intro kps_hooks [OF assms];
        auto intro!: keeps_intro kps_hooks [OF assms] Suc split: prod.split option.split sum.split bool.split)
qed (simp add: keeps_throw)

lemma kps_handleBinded:
  assumes "handlers_keep E auth_inv"
  shows "kps auth_inv (handleBinded E fuel el)"
proof -
  have "kps auth_inv (processMessage E fuel m)" for m
    unfolding processMessage_def by (intro keeps_intro kps_hooks [OF assms] kps_send_msg assms)
  then have "kps auth_inv (processStanza E fuel m)" for m
    unfolding processStanza_def
    by (intro keeps_intro; auto intro!: keeps_intro kps_processIQ kps_processPresence assms auth.kps_disconnect
        split: stanza_kind.split)
  then show ?thesis
    unfolding handleBinded_def by (auto intro!: auth.kps_disconnect assms)
qed

lemma kps_handleConnecting:
  shows "kps auth_inv (handleConnecting E el)"
proof -
  let ?I = "\<lambda>st. auth_inv (fst st)"
  have feat: "triple (\<lambda>st. auth_inv (fst st) \<and> fst st = s)
      (if \<not> isAuthenticated (isFlags s) then andthen (setState inConnected) (\<lambda>_. ret (unauthenticatedFeatures E s))
       else andthen (authenticatedFeatures E) (\<lambda>fs. andthen (setState inAuthenticated) (\<lambda>_. ret fs)))
      (\<lambda>_. ?I) ?I" for s
  proof (cases "isAuthenticated (isFlags s)")
    case False
    have "kps auth_inv (andthen (setState inConnected) (\<lambda>_. ret (unauthenticatedFeatures E s)))"
      by (intro keeps_intro kps_auth)
    with False show ?thesis by (auto intro: triple_weaken [OF keeps_triple])
  next
    case True
    have "triple (\<lambda>st. auth_inv (fst st) \<and> fst st = s) (authenticatedFeatures E)
        (\<lambda>_ st. auth_inv (fst st) \<and> fst st = s) ?I"
      by (rule triple_weaken [OF keeps_triple [OF kps_authenticatedFeatures [of "\<lambda>s'. auth_inv s' \<and> s' = s"]]]) auto
    moreover have "triple (\<lambda>st. auth_inv (fst st) \<and> fst st = s)
        (andthen (setState inAuthenticated) (\<lambda>_. ret fs)) (\<lambda>_. ?I) ?I" for fs
      using True by (auto simp: triple_def setState_def upd_def go_run auth_inv_def)
    ultimately have "triple (\<lambda>st. auth_inv (fst st) \<and> fst st = s) (andthen (authenticatedFeatures E)
        (\<lambda>fs. andthen (setState inAuthenticated) (\<lambda>_. ret fs))) (\<lambda>_. ?I) ?I"
      by (rule triple_andthen)
    with True show ?thesis by simp
  qed
  have own: "triple ?I (own (\<lambda>s. s)) (\<lambda>s st. auth_inv (fst st) \<and> fst st = s) ?I"
    by (auto simp: triple_def own_def gets_run split_beta)
  have tail: "triple ?I (andthen (ext (sesOpenStream E)) (\<lambda>_. ext (sesSend E (Element ''stream:features''
         [(''xmlns:stream'', streamsNamespace), (''version'', ''1.0'')] [] fs)))) (\<lambda>_. ?I) ?I" for fs
    by (intro keeps_triple keeps_intro)
  have "kps auth_inv (andthen (own (\<lambda>s. s)) (\<lambda>s.
     andthen (if \<not> isAuthenticated (isFlags s) then
                andthen (setState inConnected) (\<lambda>_. ret (unauthenticatedFeatures E s))
              else andthen (authenticatedFeatures E) (\<lambda>fs.
                andthen (setState inAuthenticated) (\<lambda>_. ret fs))) (\<lambda>features.
     andthen (ext (sesOpenStream E)) (\<lambda>_. ext (sesSend E (Element ''stream:features''
         [(''xmlns:stream'', streamsNamespace), (''version'', ''1.0'')] [] features))))))"
    unfolding triple_keeps [symmetric]
    by (rule triple_andthen [OF own triple_andthen [OF feat tail]])
  note tail = this
  have "kps auth_inv (if length d = 0 then (case el of None \<Rightarrow> throw ErrPanic
      | Some e \<Rightarrow> setJID (NewJIDWithString (lib E) (Attribute (lib E) e ''to'') True)) else ret ())" for d :: string
    by (auto intro!: keeps_intro kps_auth split: option.split)
  then show ?thesis
    unfolding handleConnecting_def
    by (intro keeps_andthen [OF kps_own] keeps_andthen [OF keeps_ignore [OF kps_ext]] tail
        keeps_andthen [of _ "if _ then _ else _"])
qed

lemma kps_handleElement:
  assumes "handlers_keep E auth_inv"
  shows "kps auth_inv (handleElement E fuel el)"
proof -
  let ?I = "\<lambda>st. auth_inv (fst st)"
  have own: "triple ?I (own isState) (\<lambda>x st. auth_inv (fst st) \<and> isState (fst st) = x) ?I"
    by (auto simp: triple_def own_def gets_run split_beta)
  have weak: "triple (\<lambda>st. auth_inv (fst st) \<and> isState (fst st) = x) m (\<lambda>_. ?I) ?I"
    if "kps auth_inv m" for x and m :: "('w, unit) c2s"
    by (rule triple_weaken [OF keeps_triple [OF that]]) simp_all
  have "triple (\<lambda>st. auth_done (fst st)) (handleAuthenticated E e) (\<lambda>_. ?I) ?I" for e
    unfolding handleAuthenticated_def
    by (auto intro!: triple_done_inv kps_compress_stream triple_bindResource auth.kps_disconnect assms keeps_throw)
  then have authd: "triple (\<lambda>st. auth_inv (fst st) \<and> isState (fst st) = inAuthenticated)
      (handleAuthenticated E e) (\<lambda>_. ?I) ?I" for e
    by (rule triple_weaken) (simp_all add: auth_done_def, simp add: auth_inv_def)
  note rest = kps_handleConnecting kps_handleConnected [OF assms] kps_handleAuthenticating [OF assms]
    kps_handleBinded [OF assms] auth.kps_disconnect [OF assms]
  have "triple (\<lambda>st. auth_inv (fst st) \<and> isState (fst st) = x) (dispatch_element E fuel x e) (\<lambda>_. ?I) ?I" for x e
    unfolding dispatch_element_def
    by (cases x; cases e) (simp_all add: weak authd rest keeps_ret keeps_throw)
  from triple_andthen [OF own this]
  have "kps auth_inv (andthen (own isState) (\<lambda>st. dispatch_element E fuel st e))" for e
    by (simp add: triple_keeps)
  then show ?thesis
    unfolding handleElement_def
    by (intro keeps_andthen kps_hooks [OF assms]) (auto intro: keeps_ret split: prod.split)
qed

lemma kps_task:
  assumes "handlers_keep E auth_inv"
  shows "kps auth_inv (c2s_task E fuel ev)"
  by (cases ev) (simp_all add: kps_handleElement auth.kps_handleSessionError auth.kps_connTimeout
      kps_sendElement auth.kps_disconnect auth.kps_fire_disc_timer assms)

lemma keeps_run_all:
  "(\<And>x. keeps P (f x)) \<Longrightarrow> P w \<Longrightarrow> P (snd (run_all f xs w))"
proof (induction xs arbitrary: w)
  case (Cons x xs)
  have "P (snd (f x w))" using Cons.prems by (simp add: keepsD)
  from Cons.IH [OF Cons.prems(1) this] show ?case by (simp add: split_beta)
qed simp

section \<open>Properties\<close>

text \<open>
  Authentication before binding, binding before stanzas: in every state a client stream can
  reach, whatever it receives, sends and is asked to do and in whatever order, it is in the
  authenticated state only after authentication succeeded, and in the bound state, the only one in
  which stanzas are processed, only after authentication and binding; as long as the hook
  handlers and modules respect this.
\<close>

theorem c2s_auth_before_bind:
  assumes "handlers_keep E auth_inv"
    and "c2s_run E fuel evs (snd (start_stream E (newInC2S E i, w))) = (s, w')"
  shows "(isState s = inAuthenticated \<longrightarrow> isAuthenticated (isFlags s)) \<and>
    (isState s = inBinded \<longrightarrow> isAuthenticated (isFlags s) \<and> isBinded (isFlags s))"
proof -
  let ?I = "\<lambda>st. auth_inv (fst st)"
  have "\<not> bit (isFlags (newInC2S E i)) 3" by (simp add: newInC2S_def flag_simps)
  then have "?I (newInC2S E i, w)" by (simp add: auth_inv_def newInC2S_def flag_simps)
  moreover have "keeps ?I (start_stream E)"
    unfolding start_stream_def by (intro keeps_intro kps_hooks [OF assms(1)] kps_auth)
  ultimately have "?I (snd (start_stream E (newInC2S E i, w)))" by (rule keepsD [rotated])
  then have "?I (c2s_run E fuel evs (snd (start_stream E (newInC2S E i, w))))"
    unfolding c2s_run_def by (rule keeps_run_all [of ?I "c2s_task E fuel", OF kps_task [OF assms(1)]])
  then have "auth_inv s" unfolding assms(2) by simp
  then show ?thesis by (simp add: auth_inv_def)
qed

text \<open>An environment for evaluation: no hooks, one mechanism that accepts everybody, and a world
  that records the stanzas routed.\<close>

definition demo_auth :: "(nat \<times> string list) authenticator" where
  "demo_auth = \<lparr>auMechanism = ''PLAIN'', auUsesChannelBinding = False,
     auProcessElement = (\<lambda>el. ret (leaf ''success'')), auAuthenticated = (\<lambda>w. True),
     auUsername = (\<lambda>w. ''ortuman''), auReset = id\<rparr>"

definition demo_env :: "(nat \<times> string list) in_env" where
  "demo_env = \<lparr>lib = std_lib, envInstanceID = ''i1'', cfgCompression = False, cfgResConflict = Disallow,
     cfgUseTLS = True, trIsSocket = True, trSupportsChannelBinding = False, trStartTLS = ret (),
     trEnableCompression = ret (), trSetReadRateLimiter = (\<lambda>_. ret ()), trClose = ret (),
     sesSetFromJID = (\<lambda>_. ret ()), sesOpenStream = ret (), sesSend = (\<lambda>_. modify (\<lambda>(n, l). (Suc n, l))),
     sesClose = ret (), sesReset = ret (), authenticators = [demo_auth], shapers = [], newUUID = ret ''u1'',
     rtRoute = (\<lambda>el. andthen (modify (\<lambda>(n, l). (n, l @ [Name el]))) (\<lambda>_. ret [])),
     rtRegister = (\<lambda>_. ret ()), rtBind = (\<lambda>_. ret ()), rtUnregister = (\<lambda>_. ret ()),
     rtDisconnect = (\<lambda>_ _. ret ()), rmPutResource = (\<lambda>_. ret ()), rmGetResources = (\<lambda>_. ret []),
     rmDelResource = (\<lambda>_ _. ret ()), cmpIsComponentHost = (\<lambda>_ _. False), cmpProcessStanza = (\<lambda>_. ret ()),
     modIsModuleIQ = (\<lambda>_. False), modProcessIQ = (\<lambda>_. ret ()), modStreamFeatures = (\<lambda>_. ret []),
     envHooks = NewHooks\<rparr>"

definition demo_header :: c2s_event where
  "demo_header = Received (Element ''stream:stream'' [(''to'', ''jackal.im'')] [] [])"

definition demo_events :: "c2s_event list" where
  "demo_events =
     [demo_header,
      Received (Element ''auth'' [(''xmlns'', saslNamespace), (''mechanism'', ''PLAIN'')] [] []),
      demo_header,
      Received (Element ''iq'' [(''type'', ''set''), (''id'', ''b'')] []
        [ns_elem ''bind'' bindNamespace [Element ''resource'' [] ''yard'' []]])]"

lemma demo_keeps: "handlers_keep demo_env I"
  by (simp add: handlers_keep_def demo_env_def NewHooks_def keeps_ret)

lemma demo_run:
  "isState (fst (c2s_run demo_env 2 demo_events (snd (start_stream demo_env (newInC2S demo_env 1, (0, []))))))  = inBinded"
  by code_simp

theorem c2s_auth_before_bind_witness:
  "\<exists>s w. c2s_run demo_env 2 demo_events (snd (start_stream demo_env (newInC2S demo_env 1, (0, [])))) = (s, w) \<and>
     isState s = inBinded \<and> isAuthenticated (isFlags s)"
proof -
  let ?r = "c2s_run demo_env 2 demo_events (snd (start_stream demo_env (newInC2S demo_env 1, (0, []))))"
  have "?r = (fst ?r, snd ?r)" by simp
  from c2s_auth_before_bind [OF demo_keeps this] demo_run have "isAuthenticated (isFlags (fst ?r))" by blast
  with demo_run show ?thesis by (metis prod.collapse)
qed

section \<open>Streams that are not bound\<close>

text \<open>The environment with another router, other modules and components.\<close>

definition swap_routing ::
  "(element \<Rightarrow> ('w, jid list) go) \<Rightarrow> (element \<Rightarrow> (in_c2s \<times> 'w, unit) go) \<Rightarrow> (element \<Rightarrow> ('w, unit) go) \<Rightarrow> 'w in_env \<Rightarrow> 'w in_env" where
  "swap_routing r p c E = E\<lparr>rtRoute := r, modProcessIQ := p, cmpProcessStanza := c\<rparr>"

named_theorems swap \<comment> \<open>what does not depend on the router\<close>

lemma swap_sel [swap]:
  "lib (swap_routing r p c E) = lib E"
  "envInstanceID (swap_routing r p c E) = envInstanceID E"
  "cfgCompression (swap_routing r p c E) = cfgCompression E"
  "cfgResConflict (swap_routing r p c E) = cfgResConflict E"
  "trIsSocket (swap_routing r p c E) = trIsSocket E"
  "trSupportsChannelBinding (swap_routing r p c E) = trSupportsChannelBinding E"
  "trStartTLS (swap_routing r p c E) = trStartTLS E"
  "trEnableCompression (swap_routing r p c E) = trEnableCompression E"
  "trSetReadRateLimiter (swap_routing r p c E) = trSetReadRateLimiter E"
  "trClose (swap_routing r p c E) = trClose E"
  "sesSetFromJID (swap_routing r p c E) = sesSetFromJID E"
  "sesOpenStream (swap_routing r p c E) = sesOpenStream E"
  "sesSend (swap_routing r p c E) = sesSend E"
  "sesClose (swap_routing r p c E) = sesClose E"
  "sesReset (swap_routing r p c E) = sesReset E"
  "authenticators (swap_routing r p c E) = authenticators E"
  "shapers (swap_routing r p c E) = shapers E"
  "newUUID (swap_routing r p c E) = newUUID E"
  "rtRegister (swap_routing r p c E) = rtRegister E"
  "rtBind (swap_routing r p c E) = rtBind E"
  "rtUnregister (swap_routing r p c E) = rtUnregister E"
  "rtDisconnect (swap_routing r p c E) = rtDisconnect E"
  "rmPutResource (swap_routing r p c E) = rmPutResource E"
  "rmGetResources (swap_routing r p c E) = rmGetResources E"
  "rmDelResource (swap_routing r p c E) = rmDelResource E"
  "modStreamFeatures (swap_routing r p c E) = modStreamFeatures E"
  "envHooks (swap_routing r p c E) = envHooks E"
  by (simp_all add: swap_routing_def)

lemma swap_getResource [swap]: "getResource (swap_routing r p c E) = getResource E"
  by (intro HOL.ext, unfold getResource_def swap, rule refl)

lemma swap_putResource [swap]: "putResource (swap_routing r p c E) = putResource E"
  by (intro HOL.ext, unfold putResource_def swap, rule refl)

lemma swap_updateRateLimiter [swap]: "updateRateLimiter (swap_routing r p c E) = updateRateLimiter E"
  by (intro HOL.ext, unfold updateRateLimiter_def swap, rule refl)

lemma swap_runHook [swap]: "runHook (swap_routing r p c E) = runHook E"
  by (intro HOL.ext, unfold runHook_def swap, rule refl)

lemma swap_restartSession [swap]: "restartSession (swap_routing r p c E) = restartSession E"
  by (intro HOL.ext, unfold restartSession_def swap, rule refl)

lemma swap_sendElement [swap]: "sendElement (swap_routing r p c E) = sendElement E"
  by (intro HOL.ext, unfold sendElement_def swap, rule refl)

lemma swap_terminate [swap]: "terminate (swap_routing r p c E) = terminate E"
  by (intro HOL.ext, unfold terminate_def swap, rule refl)

lemma swap_close_stream [swap]: "close_stream (swap_routing r p c E) = close_stream E"
  by (intro HOL.ext, unfold close_stream_def swap, rule refl)

lemma swap_disconnect [swap]: "disconnect (swap_routing r p c E) = disconnect E"
  by (intro HOL.ext, unfold disconnect_def swap, rule refl)

lemma swap_unauthenticatedFeatures [swap]: "unauthenticatedFeatures (swap_routing r p c E) = unauthenticatedFeatures E"
  by (intro HOL.ext, unfold unauthenticatedFeatures_def swap, rule refl)

lemma swap_authenticatedFeatures [swap]: "authenticatedFeatures (swap_routing r p c E) = authenticatedFeatures E"
  by (intro HOL.ext, unfold authenticatedFeatures_def swap, rule refl)

lemma swap_proceedStartTLS [swap]: "proceedStartTLS (swap_routing r p c E) = proceedStartTLS E"
  by (intro HOL.ext, unfold proceedStartTLS_def swap, rule refl)

lemma swap_active_auth [swap]: "active_auth (swap_routing r p c E) = active_auth E"
  by (intro HOL.ext, unfold active_auth_def swap, rule refl)

lemma swap_continueAuthentication [swap]: "continueAuthentication (swap_routing r p c E) = continueAuthentication E"
  by (intro HOL.ext, unfold continueAuthentication_def swap, rule refl)

lemma swap_finishAuthentication [swap]: "finishAuthentication (swap_routing r p c E) = finishAuthentication E"
  by (intro HOL.ext, unfold finishAuthentication_def swap, rule refl)

lemma swap_failAuthentication [swap]: "failAuthentication (swap_routing r p c E) = failAuthentication E"
  by (intro HOL.ext, unfold failAuthentication_def swap, rule refl)

lemma swap_abortAuthentication [swap]: "abortAuthentication (swap_routing r p c E) = abortAuthentication E"
  by (intro HOL.ext, unfold abortAuthentication_def swap, rule refl)

lemma swap_auth_step [swap]: "auth_step (swap_routing r p c E) = auth_step E"
  by (intro HOL.ext, unfold auth_step_def swap, rule refl)

lemma swap_startAuthentication [swap]: "startAuthentication (swap_routing r p c E) = startAuthentication E"
  by (intro HOL.ext, unfold startAuthentication_def swap, rule refl)

lemma swap_handleAuthenticating [swap]: "handleAuthenticating (swap_routing r p c E) = handleAuthenticating E"
  by (intro HOL.ext, unfold handleAuthenticating_def swap, rule refl)

lemma swap_compress_stream [swap]: "compress_stream (swap_routing r p c E) = compress_stream E"
  by (intro HOL.ext, unfold compress_stream_def swap, rule refl)

lemma swap_bindC2S [swap]: "bindC2S (swap_routing r p c E) = bindC2S E"
  by (intro HOL.ext, unfold bindC2S_def swap, rule refl)

lemma swap_enter_binded [swap]: "enter_binded (swap_routing r p c E) = enter_binded E"
  by (intro HOL.ext, unfold enter_binded_def swap, rule refl)

lemma swap_choose_resource [swap]: "choose_resource (swap_routing r p c E) = choose_resource E"
  by (intro HOL.ext, unfold choose_resource_def swap, rule refl)

lemma swap_bind_with [swap]: "bind_with (swap_routing r p c E) = bind_with E"
  by (intro HOL.ext, unfold bind_with_def swap, rule refl)

lemma swap_bindResource [swap]: "bindResource (swap_routing r p c E) = bindResource E"
  by (intro HOL.ext, unfold bindResource_def swap, rule refl)

lemma swap_hook_element [swap]: "hook_element (swap_routing r p c E) = hook_element E"
  by (intro HOL.ext, unfold hook_element_def swap, rule refl)

lemma swap_handleConnecting [swap]: "handleConnecting (swap_routing r p c E) = handleConnecting E"
  by (intro HOL.ext, unfold handleConnecting_def swap, rule refl)

lemma swap_handleConnected [swap]: "handleConnected (swap_routing r p c E) = handleConnected E"
  by (intro HOL.ext, unfold handleConnected_def swap, rule refl)

lemma swap_handleAuthenticated [swap]: "handleAuthenticated (swap_routing r p c E) = handleAuthenticated E"
  by (intro HOL.ext, unfold handleAuthenticated_def swap, rule refl)

text \<open>
  C23. Only a bound stream routes: as long as the stream is not in the bound state when an element
  is handled, nothing depends on the router, the modules or the components; replacing all three
  by anything else changes neither the result nor the effect, so no stanza of the client reaches
  any of them.
\<close>

theorem unbound_never_routes:
  assumes "hook_element E ''c2s.stream.element_received'' el st = (Inr (halted, el'), (s, w))"
    and "isState s \<noteq> inBinded"
  shows "handleElement (swap_routing r p c E) fuel el st = handleElement E fuel el st"
proof -
  have "dispatch_element (swap_routing r p c E) fuel (isState s) el' = dispatch_element E fuel (isState s) el'"
    using assms(2) by (cases "isState s"; cases el') (simp_all add: dispatch_element_def swap)
  with assms(1) show ?thesis
    by (simp add: handleElement_def swap andthen_run own_def gets_run)
qed

theorem unbound_never_routes_witness:
  "handleElement (swap_routing (\<lambda>_. throw ErrPanic) (\<lambda>_. throw ErrPanic) (\<lambda>_. throw ErrPanic) demo_env) 2
      (Element ''message'' [(''to'', ''noelia@jackal.im'')] [] []) (newInC2S demo_env 1, (0, [])) =
   handleElement demo_env 2 (Element ''message'' [(''to'', ''noelia@jackal.im'')] [] []) (newInC2S demo_env 1, (0, []))"
proof -
  let ?m = "Element ''message'' [(''to'', ''noelia@jackal.im'')] [] []"
  have "hook_element demo_env ''c2s.stream.element_received'' ?m (newInC2S demo_env 1, (0, [])) =
      (Inr (False, Some ?m), (newInC2S demo_env 1, (0, [])))"
    by (simp add: hook_element_def stream_info_def own_def runHook_def Run_def demo_env_def NewHooks_def go_run)
  from unbound_never_routes [OF this] show ?thesis by (simp add: newInC2S_def)
qed

section \<open>The retry loop of a message\<close>

lemma send_round_bare:
  assumes route: "\<And>m. \<not> IsFullWithUser (lib E) (ToJID (lib E) m) \<Longrightarrow> fails_with (- {ErrResourceNotFound}) (rtRoute E m)"
    and hook: "\<And>m s el s'. \<not> IsFullWithUser (lib E) (ToJID (lib E) m) \<Longrightarrow>
      hook_element E ''c2s.stream.will_route_element'' m s = (Inr (False, Some el), s') \<Longrightarrow>
      \<not> IsFullWithUser (lib E) (ToJID (lib E) el)"
    and bare: "\<not> IsFullWithUser (lib E) (ToJID (lib E) msg)"
  shows "send_round E k message msg = send_round E k' message msg"
proof (rule HOL.ext)
  fix st :: "in_c2s \<times> 'a"
  obtain x st' where x: "hook_element E ''c2s.stream.will_route_element'' msg st = (x, st')"
    by (cases "hook_element E ''c2s.stream.will_route_element'' msg st")
  show "send_round E k message msg st = send_round E k' message msg st"
  proof (cases x)
    case (Inl e)
    with x show ?thesis by (simp add: send_round_def andthen_run)
  next
    case (Inr b)
    obtain halted el where b: "b = (halted, el)" by fastforce
    show ?thesis
    proof (cases "halted \<or> as_kind E MessageKind el = None")
      case True
      with x Inr b show ?thesis by (auto simp: send_round_def andthen_run)
    next
      case False
      then obtain m where m: "el = Some m" "as_kind E MessageKind el = Some m" "\<not> halted"
        by (auto simp: as_kind_def split: option.splits if_splits)
      with x Inr b hook [OF bare] have "\<not> IsFullWithUser (lib E) (ToJID (lib E) m)" by auto
      from route [OF this] have "fst (rtRoute E m (snd st')) \<noteq> Inl ErrResourceNotFound"
        by (auto simp: fails_with_def) (metis prod.collapse)
      then have "fst (ext (rtRoute E m) st') \<noteq> Inl ErrResourceNotFound"
        by (simp add: ext_def split_beta)
      with x Inr b m show ?thesis
        by (cases "fst (ext (rtRoute E m) st')") (simp_all add: send_round_def andthen_run attempt_run)
    qed
  qed
qed

text \<open>
  C24. Processing a message always returns: a message that finds no matching resource is sent once
  more to the bare address and the second round never asks for a third, whatever the third would
  do (\<open>k\<close>), as long as the router is the one of the server, its parts do not themselves report a
  missing resource, and the hooks leave a bare address bare.
\<close>

theorem message_loop_ends:
  assumes "rtRoute E = Route (lib E) R" and "routing_ok (rtC2S R)"
    and "\<forall>m s el s'. \<not> IsFullWithUser (lib E) (ToJID (lib E) m) \<and>
      hook_element E ''c2s.stream.will_route_element'' m s = (Inr (False, Some el), s') \<longrightarrow>
      \<not> IsFullWithUser (lib E) (ToJID (lib E) el)"
    and "\<forall>m. \<not> IsFullWithUser (lib E) (ToJID (lib E) (to_bare (lib E) message m))"
    and "2 \<le> fuel"
  shows "processMessage E fuel message =
    andthen (received_hook E ''c2s.stream.message_received'' MessageKind message)
      (send_round E (send_round E k message) message)"
proof -
  have route: "fails_with (- {ErrResourceNotFound}) (rtRoute E m)"
    if "\<not> IsFullWithUser (lib E) (ToJID (lib E) m)" for m
    unfolding assms(1) by (rule Route_bare [OF assms(2) that])
  have second: "send_round E k' message (to_bare (lib E) message m) = send_round E k message (to_bare (lib E) message m)" for k' m
    using assms(3,4) by (intro send_round_bare route) blast+
  obtain n where n: "fuel = Suc (Suc n)" using assms(5) by (cases fuel; cases "fuel - 1") auto
  have jump: "send_round E f message msg = send_round E g message msg"
    if "\<And>m. f (to_bare (lib E) message m) = g (to_bare (lib E) message m)" for f g msg
    unfolding send_round_def that by (rule refl)
  have "send_msg E fuel message msg = send_round E (send_round E k message) message msg" for msg
    unfolding n send_msg.simps(2) [of E "Suc n"] by (rule jump) (simp only: send_msg.simps, rule second)
  then show ?thesis by (simp add: processMessage_def)
qed

text \<open>A server with one local user who has one resource.\<close>

definition demo_c2s :: "(nat \<times> string list) c2s_router" where
  "demo_c2s = \<lparr>instanceID = ''i1'', localRoute = (\<lambda>e u r. modify (\<lambda>(n, l). (n, l @ [r]))),
     localDisconnect = (\<lambda>u r e. ret ()), localRegister = (\<lambda>s. ret ()), localBind = ret \<circ> unat,
     localUnregister = (\<lambda>s. ret ()), localStream = (\<lambda>u r. ret None),
     clusterRoute = (\<lambda>e u r i. ret ()), clusterDisconnect = (\<lambda>u r e i. ret ()),
     resGetResources = (\<lambda>u. ret [one_res]), repUserExists = (\<lambda>u. ret True)\<rparr>"

definition demo_router :: "(nat \<times> string list, unit) router" where
  "demo_router = \<lparr>rtHosts = \<lparr>defaultHost = ''jackal.im'', hostCerts = [''jackal.im'' \<mapsto> ()]\<rparr>, rtC2S = demo_c2s, rtS2S = None\<rparr>"

definition demo_routed :: "(nat \<times> string list) in_env" where
  "demo_routed = demo_env\<lparr>rtRoute := Route std_lib demo_router\<rparr>"

definition demo_message :: element where
  "demo_message = Element ''message'' [(''to'', ''ortuman@jackal.im/gone''), (''from'', ''noelia@jackal.im/a'')] [] []"

lemma demo_no_hooks: "hook_element demo_routed name el st = (Inr (False, Some el), st)"
  by (simp add: hook_element_def stream_info_def own_def runHook_def Run_def demo_routed_def demo_env_def
      NewHooks_def go_run split_beta)

theorem message_loop_ends_witness:
  "snd (snd (processMessage demo_routed 2 demo_message (newInC2S demo_env 1, (0, [])))) = (0, [''yard''])"
proof -
  have lib: "lib demo_routed = std_lib" by (simp add: demo_routed_def demo_env_def)
  have bare: "ToJID std_lib (to_bare std_lib demo_message m) = \<lparr>Node = ''ortuman'', Domain = ''jackal.im'', Resource = []\<rparr>" for m
    by (simp add: to_bare_def demo_message_def std_lib_def std_attr_def std_jid_of_def std_parse_jid_def std_jid_string_def)
  have eq: "processMessage demo_routed 2 demo_message =
    andthen (received_hook demo_routed ''c2s.stream.message_received'' MessageKind demo_message)
      (send_round demo_routed (send_round demo_routed (\<lambda>_. throw ErrPanic) demo_message) demo_message)"
  proof (rule message_loop_ends)
    show "rtRoute demo_routed = Route (lib demo_routed) demo_router" by (simp add: lib) (simp add: demo_routed_def)
    show "routing_ok (rtC2S demo_router)"
      by (simp add: routing_ok_def demo_router_def demo_c2s_def fails_with_def go_run)
    show "\<forall>m. \<not> IsFullWithUser (lib demo_routed) (ToJID (lib demo_routed) (to_bare (lib demo_routed) demo_message m))"
      by (simp add: lib bare) (simp add: std_lib_def)
  qed (auto simp: demo_no_hooks)
  show ?thesis unfolding eq by code_simp
qed

section \<open>Further observations\<close>

text \<open>
  Authentication does not require TLS: on a plain socket connection the server offers no
  authentication mechanism before TLS, yet it accepts the exchange, and the client can go on to
  bind a resource on a connection that was never secured.
\<close>

theorem sasl_without_tls:
  "let E = demo_env\<lparr>cfgUseTLS := False\<rparr>;
       s = fst (c2s_run E 2 demo_events (snd (start_stream E (newInC2S E 1, (0, [])))))
   in trIsSocket E \<and> isState s = inBinded \<and> \<not> isSecured (isFlags s) \<and>
      map Name (unauthenticatedFeatures E (newInC2S E 1)) = [''starttls'']"
  by code_simp

text \<open>An iq for an account that does not exist is dropped without an answer.\<close>

lemma iq_unanswered:
  assumes "rtRoute E iq w = (Inl ErrNotExistingAccount, w')"
  shows "route_iq E iq (s, w) = (Inr (), (s, w'))"
  using assms by (simp add: route_iq_def ext_def go_run)

end
