(* ===== verification/Base64.thy ===== *)
theory Base64
  imports Stream_Queue
begin

text \<open>
  \<^verbatim>\<open>base64.StdEncoding\<close> of Go's library, which the stream management module uses for its stream
  identifiers: the standard alphabet with padding; decoding skips line breaks and fails
  (\<open>None\<close>) on anything else that is not in the alphabet; and \<^verbatim>\<open>base64.RawURLEncoding\<close>, in which
  account data is kept: the alphabet for URLs, without padding.
\<close>

section \<open>Strings and bytes\<close>

definition str_bytes :: "string \<Rightarrow> byte list" where
  "str_bytes s = map of_char s"

definition bytes_str :: "byte list \<Rightarrow> string" where
  "bytes_str b = map (\<lambda>x. char_of (unat x)) b"

lemma char_byte: "char_of (unat (of_char c :: byte)) = c"
proof -
  have "(of_char c :: nat) < 256" using of_char_mod_256 [of c, where ?'a = nat] by (metis mod_less_divisor zero_less_numeral)
  then have "unat (of_nat (of_char c) :: byte) = of_char c" by (simp add: unat_of_nat take_bit_eq_mod)
  then have "unat (of_char c :: byte) = of_char c" by (simp only: of_nat_of_char)
  then show ?thesis by simp
qed

lemma bytes_str_bytes [simp]: "bytes_str (str_bytes s) = s"
  by (induction s) (simp_all add: bytes_str_def str_bytes_def char_byte)

section \<open>The standard encoding\<close>


definition b64_alphabet :: string where
  "b64_alphabet = ''ABCDEFGHIJKLMNOPQRSTUVWXYZabcdefghijklmnopqrstuvwxyz0123456789+/''"

definition b64_char :: "nat \<Rightarrow> char" where
  "b64_char n = b64_alphabet ! n"

fun pos_of :: "'a \<Rightarrow> 'a list \<Rightarrow> nat option" where
  "pos_of c [] = None"
| "pos_of c (x # xs) = (if x = c then Some 0 else map_option Suc (pos_of c xs))"

definition b64_val :: "char \<Rightarrow> nat option" where
  "b64_val c = pos_of c b64_alphabet"

fun b64_encode :: "byte list \<Rightarrow> string" where
  "b64_encode [] = []"
| "b64_encode [a] = [b64_char (unat a div 4), b64_char (unat a mod 4 * 16), CHR ''='', CHR ''='']"
| "b64_encode [a, b] =
     [b64_char (unat a div 4), b64_char (unat a mod 4 * 16 + unat b div 16),
      b64_char (unat b mod 16 * 4), CHR ''='']"
| "b64_encode (a # b # c # bs) =
     b64_char (unat a div 4) # b64_char (unat a mod 4 * 16 + unat b div 16) #
     b64_char (unat b mod 16 * 4 + unat c div 64) # b64_char (unat c mod 64) # b64_encode bs"

definition two_vals :: "nat \<Rightarrow> nat \<Rightarrow> byte" where
  "two_vals v1 v2 = of_nat (v1 * 4 + v2 div 16)"

definition mid_vals :: "nat \<Rightarrow> nat \<Rightarrow> byte" where
  "mid_vals v2 v3 = of_nat (v2 mod 16 * 16 + v3 div 4)"

fun b64_quads :: "string \<Rightarrow> byte list option" where
  "b64_quads [] = Some []"
| "b64_quads (a # b # c # d # rest) =
     (case (b64_val a, b64_val b) of
        (Some v1, Some v2) \<Rightarrow>
          if rest = [] \<and> c = CHR ''='' \<and> d = CHR ''='' then Some [two_vals v1 v2]
          else (case b64_val c of
             None \<Rightarrow> None
           | Some v3 \<Rightarrow>
               if rest = [] \<and> d = CHR ''='' then Some [two_vals v1 v2, mid_vals v2 v3]
               else (case (b64_val d, b64_quads rest) of
                  (Some v4, Some bs) \<Rightarrow> Some (two_vals v1 v2 # mid_vals v2 v3 # of_nat (v3 mod 4 * 64 + v4) # bs)
                | _ \<Rightarrow> None))
      | _ \<Rightarrow> None)"
| "b64_quads _ = None"

definition b64_decode :: "string \<Rightarrow> byte list option" where
  "b64_decode s = b64_quads (filter (\<lambda>c. of_char c \<noteq> (10::nat) \<and> of_char c \<noteq> (13::nat)) s)"

lemma b64_table:
  "list_all (\<lambda>n. b64_val (b64_char n) = Some n \<and> b64_char n \<noteq> CHR ''='' \<and>
     of_char (b64_char n) \<noteq> (10::nat) \<and> of_char (b64_char n) \<noteq> (13::nat)) [0..<64]"
  by code_simp

lemma b64_char_props:
  assumes "n < 64"
  shows "b64_val (b64_char n) = Some n" "b64_char n \<noteq> CHR ''=''"
    "of_char (b64_char n) \<noteq> (10::nat)" "of_char (b64_char n) \<noteq> (13::nat)"
  using b64_table assms by (auto simp: list_all_iff)

lemma byte_bound: "unat (a :: byte) < 256"
  using unsigned_less [of a, where ?'a = nat] by simp

lemma byte_splits:
  "unat (a :: byte) div 4 < 64" "unat a mod 4 * 16 + unat (b :: byte) div 16 < 64" "unat a mod 4 * 16 < 64"
  "unat a mod 16 * 4 + unat b div 64 < 64" "unat a mod 16 * 4 < 64" "unat a mod 64 < 64"
proof -
  have "unat a mod 4 < 4" "unat b div 16 < 16" "unat a mod 16 < 16" "unat b div 64 < 4" "unat a div 4 < 64"
    using byte_bound [of a] byte_bound [of b] by auto
  then show "unat a div 4 < 64" "unat a mod 4 * 16 + unat b div 16 < 64" "unat a mod 4 * 16 < 64"
    "unat a mod 16 * 4 + unat b div 64 < 64" "unat a mod 16 * 4 < 64" "unat a mod 64 < 64"
    by linarith+
qed

lemma byte_join:
  "two_vals (unat (a :: byte) div 4) (unat a mod 4 * 16 + unat (b :: byte) div 16) = a"
  "two_vals (unat a div 4) (unat a mod 4 * 16) = a"
  "mid_vals (unat a mod 4 * 16 + unat b div 16) (unat b mod 16 * 4 + unat (c :: byte) div 64) = b"
  "mid_vals (unat a mod 4 * 16 + unat b div 16) (unat b mod 16 * 4) = b"
  "of_nat ((unat b mod 16 * 4 + unat c div 64) mod 4 * 64 + unat c mod 64) = c"
proof -
  have b: "unat b div 16 < 16" "unat c div 64 < 4" using byte_bound [of b] byte_bound [of c] by auto
  have 1: "unat a div 4 * 4 + (unat a mod 4 * 16 + unat b div 16) div 16 = unat a"
    "unat a div 4 * 4 + (unat a mod 4 * 16) div 16 = unat a" using b by simp_all
  have 2: "(unat a mod 4 * 16 + unat b div 16) mod 16 * 16 + (unat b mod 16 * 4 + unat c div 64) div 4 = unat b"
    "(unat a mod 4 * 16 + unat b div 16) mod 16 * 16 + (unat b mod 16 * 4) div 4 = unat b" using b by simp_all
  have 3: "(unat b mod 16 * 4 + unat c div 64) mod 4 * 64 + unat c mod 64 = unat c" using b by simp
  show "two_vals (unat a div 4) (unat a mod 4 * 16 + unat b div 16) = a"
    "two_vals (unat a div 4) (unat a mod 4 * 16) = a"
    "mid_vals (unat a mod 4 * 16 + unat b div 16) (unat b mod 16 * 4 + unat c div 64) = b"
    "mid_vals (unat a mod 4 * 16 + unat b div 16) (unat b mod 16 * 4) = b"
    "of_nat ((unat b mod 16 * 4 + unat c div 64) mod 4 * 64 + unat c mod 64) = c"
    unfolding two_vals_def mid_vals_def 1 2 3 by simp_all
qed

lemma byte_low: "of_nat (unat (c :: byte) div 64 mod 4 * 64 + unat c mod 64) = c"
proof -
  have "unat c div 64 < 4" using byte_bound [of c] by auto
  then have "unat c div 64 mod 4 * 64 + unat c mod 64 = unat c" by simp
  then have "of_nat (unat c div 64 mod 4 * 64 + unat c mod 64) = (of_nat (unat c) :: byte)" by (rule arg_cong)
  then show ?thesis by (simp only: of_nat_unat ucast_id)
qed

lemma b64_quads_encode: "b64_quads (b64_encode bs) = Some bs"
proof (induction bs rule: b64_encode.induct)
  case (4 a b c bs)
  then show ?case
    by (simp add: b64_char_props byte_splits byte_join byte_low del: of_nat_add of_nat_mult)
qed (simp_all add: b64_char_props byte_splits byte_join)

lemma b64_encode_plain: "\<forall>c \<in> set (b64_encode bs). of_char c \<noteq> (10::nat) \<and> of_char c \<noteq> (13::nat)"
  by (induction bs rule: b64_encode.induct) (simp_all add: b64_char_props byte_splits)

lemma b64_roundtrip [simp]: "b64_decode (b64_encode bs) = Some bs"
  using b64_encode_plain [of bs] by (simp add: b64_decode_def b64_quads_encode filter_id_conv)

section \<open>The encoding for URLs without padding\<close>

definition b64url_alphabet :: string where
  "b64url_alphabet = ''ABCDEFGHIJKLMNOPQRSTUVWXYZabcdefghijklmnopqrstuvwxyz0123456789-_''"

fun sextets :: "byte list \<Rightarrow> nat list" where
  "sextets [] = []"
| "sextets [a] = [unat a div 4, unat a mod 4 * 16]"
| "sextets [a, b] = [unat a div 4, unat a mod 4 * 16 + unat b div 16, unat b mod 16 * 4]"
| "sextets (a # b # c # bs) =
     (unat a div 4) # (unat a mod 4 * 16 + unat b div 16) # (unat b mod 16 * 4 + unat c div 64) #
     (unat c mod 64) # sextets bs"

fun join_sextets :: "nat list \<Rightarrow> byte list option" where
  "join_sextets [] = Some []"
| "join_sextets [v1] = None"
| "join_sextets [v1, v2] = Some [two_vals v1 v2]"
| "join_sextets [v1, v2, v3] = Some [two_vals v1 v2, mid_vals v2 v3]"
| "join_sextets (v1 # v2 # v3 # v4 # vs) =
     map_option (\<lambda>bs. two_vals v1 v2 # mid_vals v2 v3 # of_nat (v3 mod 4 * 64 + v4) # bs) (join_sextets vs)"

definition rawurl_encode :: "byte list \<Rightarrow> string" where
  "rawurl_encode bs = map (\<lambda>n. b64url_alphabet ! n) (sextets bs)"

definition rawurl_decode :: "string \<Rightarrow> byte list option" where
  "rawurl_decode s =
     (let vs = map (\<lambda>c. pos_of c b64url_alphabet) (filter (\<lambda>c. of_char c \<noteq> (10::nat) \<and> of_char c \<noteq> (13::nat)) s)
      in if None \<in> set vs then None else join_sextets (map the vs))"

lemma b64url_table:
  "list_all (\<lambda>n. pos_of (b64url_alphabet ! n) b64url_alphabet = Some n \<and>
     of_char (b64url_alphabet ! n) \<noteq> (10::nat) \<and> of_char (b64url_alphabet ! n) \<noteq> (13::nat)) [0..<64]"
  by code_simp

lemma sextets_bound: "\<forall>n \<in> set (sextets bs). n < 64"
  by (induction bs rule: sextets.induct) (simp_all add: byte_splits)

lemma join_sextets [simp]: "join_sextets (sextets bs) = Some bs"
proof (induction bs rule: sextets.induct)
  case (4 a b c bs)
  then show ?case by (simp add: byte_join byte_low del: of_nat_add of_nat_mult)
qed (simp_all add: byte_join)

lemma rawurl_roundtrip [simp]: "rawurl_decode (rawurl_encode bs) = Some bs"
proof -
  have p: "pos_of (b64url_alphabet ! n) b64url_alphabet = Some n"
    "of_char (b64url_alphabet ! n) \<noteq> (10::nat)" "of_char (b64url_alphabet ! n) \<noteq> (13::nat)" if "n \<in> set (sextets bs)" for n
    using that sextets_bound [of bs] b64url_table by (simp_all add: list_all_iff)
  have "filter (\<lambda>c. of_char c \<noteq> (10::nat) \<and> of_char c \<noteq> (13::nat)) (rawurl_encode bs) = rawurl_encode bs"
    using p by (simp add: rawurl_encode_def filter_id_conv)
  moreover have "map (\<lambda>c. pos_of c b64url_alphabet) (rawurl_encode bs) = map Some (sextets bs)"
    using p by (simp add: rawurl_encode_def)
  ultimately show ?thesis by (simp add: rawurl_decode_def comp_def)
qed

text \<open>The standard encoding has neither comma nor colon.\<close>

lemma b64_without:
  assumes "list_all (\<lambda>n. b64_char n \<noteq> c) [0..<64]" and "c \<noteq> CHR ''=''"
  shows "c \<notin> set (b64_encode bs)"
proof -
  have "b64_char n \<noteq> c" if "n < 64" for n using assms(1) that by (simp add: list_all_iff)
  then show ?thesis
    using assms(2) by (induction bs rule: b64_encode.induct) (simp_all add: byte_splits del: One_nat_def, (metis byte_splits)+)
qed

lemma b64_no_comma: "CHR '','' \<notin> set (b64_encode bs)"
  by (rule b64_without) code_simp+

lemma b64_no_colon: "CHR '':'' \<notin> set (b64_encode bs)"
  by (rule b64_without) code_simp+

end
