(* ===== verification/Stream_Mgmt.thy ===== *)
theory Stream_Mgmt
  imports C2S_Stream Base64
begin

text \<open>
  The stream management module (\<^verbatim>\<open>src/pkg/module/xep0198/stream.go\<close>) and the transfer of queues
  between instances (\<^verbatim>\<open>src/pkg/cluster/server/streammanagementservice.go\<close>,
  \<^verbatim>\<open>src/pkg/cluster/connmanager/streammanagement.go\<close>).
  \<^item> Queues are shared objects: the map of queues holds addresses (\<open>smQueues\<close>) into a store
    (\<open>smHeap\<close>), because a handler may hold a queue that another one has removed from the map.
  \<^item> Streams are references, reached through \<open>sm_ops\<close>. Sending, and disconnecting without waiting,
    only queue a task of the stream and act on \<open>'w\<close>; a disconnection that is waited for and
    \<^verbatim>\<open>Resume\<close> run hooks and may call back into the module, so they act on the whole state.
  \<^item> A stanza is a pointer and its contents (\<open>stanza_ptr\<close>), since queues compare pointers.
\<close>

section \<open>Data\<close>

type_synonym stanza_ptr = "nat \<times> element"
type_synonym sm_queue = "(nat, stanza_ptr) queue"

record 'w sm =
  smQueues :: "string \<rightharpoonup> nat"
  smHeap :: "nat \<rightharpoonup> sm_queue"
  smNextQ :: nat
  smTermTms :: "string \<rightharpoonup> nat"
  smLiveTms :: "(nat \<times> nat) list"
  smNextTm :: nat
  smWorld :: 'w

record stream_queue =
  sqElements :: "stanza_ptr qelement list"
  sqNonce :: "byte list"
  sqInH :: u32
  sqOutH :: u32

record 'w sm_ops =
  smLib :: xlib
  smInstanceID :: string
  cfgRequestAckInterval :: int
  cfgWaitForAckTimeout :: int
  cfgMaxQueueSize :: int
  stIsBinded :: "nat \<Rightarrow> 'w \<Rightarrow> bool"
  stIsAuthenticated :: "nat \<Rightarrow> 'w \<Rightarrow> bool"
  stInfo :: "nat \<Rightarrow> 'w \<Rightarrow> info_map"
  stJID :: "nat \<Rightarrow> 'w \<Rightarrow> jid option"
  stSetInfoValue :: "nat \<Rightarrow> string \<Rightarrow> info_val \<Rightarrow> ('w, unit) go"
  stSendElement :: "nat \<Rightarrow> stanza_ptr \<Rightarrow> ('w, unit) go"
  stDisconnectAsync :: "nat \<Rightarrow> stream_error option \<Rightarrow> ('w, unit) go"
  stDisconnect :: "nat \<Rightarrow> stream_error option \<Rightarrow> ('w sm, unit) go"
  stResume :: "nat \<Rightarrow> jid \<Rightarrow> element option \<Rightarrow> info_map \<Rightarrow> ('w sm, unit) go"
  smGetResource :: "string \<Rightarrow> string \<Rightarrow> ('w, resource_desc option) go"
  smTransferQueue :: "string \<Rightarrow> string \<Rightarrow> ('w, stream_queue option) go"
  randIntn :: "nat \<Rightarrow> ('w, nat) go"

definition streamNamespace :: string where "streamNamespace = ''urn:xmpp:sm:3''"
definition xmppStanzaNamespace :: string where "xmppStanzaNamespace = ''urn:ietf:params:xml:ns:xmpp-stanzas''"
definition enabledInfoKey :: string where "enabledInfoKey = ''xep0198:enabled''"
definition nonceLength :: nat where "nonceLength = 24"
definition unacknowledgedStanzaCount :: nat where "unacknowledgedStanzaCount = 25"

definition errInvalidSMID :: go_error where
  "errInvalidSMID = ErrText ''xep0198: invalid stream identifier format''"

definition newSM :: "'w \<Rightarrow> 'w sm" where
  "newSM w = \<lparr>smQueues = Map.empty, smHeap = Map.empty, smNextQ = 0, smTermTms = Map.empty,
              smLiveTms = [], smNextTm = 0, smWorld = w\<rparr>"

definition sm_ext :: "('w, 'a) go \<Rightarrow> ('w sm, 'a) go" where
  "sm_ext f = (\<lambda>s. case f (smWorld s) of (r, w) \<Rightarrow> (r, s\<lparr>smWorld := w\<rparr>))"

section \<open>Queues in the store\<close>

definition q_new :: "sm_queue \<Rightarrow> ('w sm, nat) go" where
  "q_new q = (\<lambda>s. (Inr (smNextQ s), s\<lparr>smHeap := (smHeap s)(smNextQ s \<mapsto> q), smNextQ := Suc (smNextQ s)\<rparr>))"

definition q_read :: "nat \<Rightarrow> ('w sm, sm_queue) go" where
  "q_read a = (\<lambda>s. case smHeap s a of None \<Rightarrow> (Inl ErrPanic, s) | Some q \<Rightarrow> (Inr q, s))"

definition q_write :: "nat \<Rightarrow> (sm_queue \<Rightarrow> sm_queue) \<Rightarrow> ('w sm, unit) go" where
  "q_write a f = modify (\<lambda>s. s\<lparr>smHeap := (smHeap s)(a := map_option f (smHeap s a))\<rparr>)"

definition mapSet :: "string \<Rightarrow> nat \<Rightarrow> ('w sm, unit) go" where
  "mapSet k a = modify (\<lambda>s. s\<lparr>smQueues := (smQueues s)(k \<mapsto> a)\<rparr>)"

definition mapDelete :: "string \<Rightarrow> ('w sm, nat option) go" where
  "mapDelete k = (\<lambda>s. (Inr (smQueues s k), s\<lparr>smQueues := (smQueues s)(k := None)\<rparr>))"

text \<open>What a queue does to its stream.\<close>

definition ack_request :: element where
  "ack_request = Element ''r'' [(''xmlns'', ''urn:xmpp:sm:3'')] [] []"

fun perform :: "'w sm_ops \<Rightarrow> (nat, stanza_ptr) q_out \<Rightarrow> ('w sm, unit) go" where
  "perform S (SendR stm) = ignore (sm_ext (stSendElement S stm (0, ack_request)))"
| "perform S (SendStanza stm p) = ignore (sm_ext (stSendElement S stm p))"
| "perform S (DisconnectTimeout stm) = ignore (sm_ext (stDisconnectAsync S stm (Some (stream_E ConnectionTimeout))))"

definition q_RequestAck :: "'w sm_ops \<Rightarrow> nat \<Rightarrow> ('w sm, unit) go" where
  "q_RequestAck S a =
     andthen (q_read a) (\<lambda>q.
       let (q', outs) = RequestAck q
       in andthen (q_write a (\<lambda>_. q')) (\<lambda>_. for_each outs (perform S)))"

definition q_SendPending :: "'w sm_ops \<Rightarrow> nat \<Rightarrow> ('w sm, unit) go" where
  "q_SendPending S a = andthen (q_read a) (\<lambda>q. for_each (SendPending q) (perform S))"

section \<open>Stream identifiers\<close>

definition queueKey :: "xlib \<Rightarrow> jid \<Rightarrow> string" where
  "queueKey X jd = JIDString X jd"

definition encodeSMID :: "xlib \<Rightarrow> jid \<Rightarrow> byte list \<Rightarrow> string" where
  "encodeSMID X jd nonce = b64_encode (str_bytes (JIDString X jd) @ [0] @ nonce)"

definition decodeSMID :: "xlib \<Rightarrow> string \<Rightarrow> go_error + (jid \<times> byte list)" where
  "decodeSMID X smID =
     (case b64_decode smID of
        None \<Rightarrow> Inl (ErrText ''illegal base64 data'')
      | Some b \<Rightarrow>
          (case split_on 0 b of
             [j, nonce] \<Rightarrow>
               (case NewJIDWithString X (bytes_str j) False of
                  None \<Rightarrow> Inl errInvalidSMID
                | Some jd \<Rightarrow> Inr (jd, nonce))
           | _ \<Rightarrow> Inl errInvalidSMID))"

section \<open>Replies\<close>

definition failed_element :: "string \<Rightarrow> string \<Rightarrow> element" where
  "failed_element reason txt =
     Element ''failed'' [(''xmlns'', streamNamespace)] []
       (Element reason [(''xmlns'', xmppStanzaNamespace)] [] [] #
        (if length txt > 0 then [Element ''text'' [(''xmlns'', xmppStanzaNamespace)] txt []] else []))"

definition sendFailedReply :: "'w sm_ops \<Rightarrow> string \<Rightarrow> string \<Rightarrow> nat \<Rightarrow> ('w sm, unit) go" where
  "sendFailedReply S reason txt stm = ignore (sm_ext (stSendElement S stm (0, failed_element reason txt)))"

text \<open>The queue of a stream, if it has one; a stream without an address panics.\<close>

definition stream_queue_of :: "'w sm_ops \<Rightarrow> nat \<Rightarrow> ('w sm, nat option) go" where
  "stream_queue_of S stm =
     andthen (gets (\<lambda>s. stJID S stm (smWorld s))) (\<lambda>j.
       case j of
         None \<Rightarrow> throw ErrPanic
       | Some jd \<Rightarrow> gets (\<lambda>s. smQueues s (queueKey (smLib S) jd)))"

section \<open>Commands\<close>

definition smEnabled :: "'w sm_ops \<Rightarrow> nat \<Rightarrow> ('w sm, bool) go" where
  "smEnabled S stm = gets (\<lambda>s. infoBool (stInfo S stm (smWorld s)) enabledInfoKey)"

fun gen_nonce :: "'w sm_ops \<Rightarrow> nat \<Rightarrow> ('w sm, byte list) go" where
  "gen_nonce S 0 = ret []"
| "gen_nonce S (Suc n) =
     andthen (sm_ext (randIntn S 255)) (\<lambda>r.
       andthen (gen_nonce S n) (\<lambda>rest. ret (of_nat (r + 1) # rest)))"

definition handleEnable :: "'w sm_ops \<Rightarrow> nat \<Rightarrow> ('w sm, unit) go" where
  "handleEnable S stm =
     andthen (gets (\<lambda>s. stIsBinded S stm (smWorld s))) (\<lambda>binded.
     if \<not> binded then sendFailedReply S ''unexpected-request'' [] stm
     else andthen (smEnabled S stm) (\<lambda>enabled.
     if enabled then sendFailedReply S ''unexpected-request'' ''Stream management is already enabled'' stm
     else andthen (sm_ext (stSetInfoValue S stm enabledInfoKey (BoolVal True))) (\<lambda>_.
     andthen (gen_nonce S nonceLength) (\<lambda>nonce.
     andthen (q_new (newQueue stm nonce [] 0 0 (cfgRequestAckInterval S) (cfgWaitForAckTimeout S))) (\<lambda>a.
     andthen (gets (\<lambda>s. stJID S stm (smWorld s))) (\<lambda>j.
     case j of
       None \<Rightarrow> throw ErrPanic
     | Some jd \<Rightarrow>
         andthen (mapSet (queueKey (smLib S) jd) a) (\<lambda>_.
           ignore (sm_ext (stSendElement S stm (0,
             Element ''enabled'' [(''xmlns'', streamNamespace), (''id'', encodeSMID (smLib S) jd nonce),
               (''resume'', ''true'')] [] []))))))))))"

text \<open>The queue a resumption continues: the retained one of this instance, with its old stream
  disconnected and the new one set, or the one transferred from another instance.\<close>

definition resume_queue ::
  "'w sm_ops \<Rightarrow> nat \<Rightarrow> string \<Rightarrow> resource_desc \<Rightarrow> ('w sm, nat option) go" where
  "resume_queue S stm qk res =
     (if InstanceID res = smInstanceID S then
        andthen (gets (\<lambda>s. smQueues s qk)) (\<lambda>sq.
          case sq of
            None \<Rightarrow> ret None
          | Some a \<Rightarrow>
              andthen (q_read a) (\<lambda>q.
              andthen (stDisconnect S (GetStream q) (Some (stream_E Conflict))) (\<lambda>_.
              andthen (q_write a (SetStream stm)) (\<lambda>_. ret (Some a)))))
      else
        andthen (sm_ext (smTransferQueue S (InstanceID res) qk)) (\<lambda>resp.
          case resp of
            None \<Rightarrow> throw ErrPanic
          | Some r \<Rightarrow>
              andthen (q_new (newQueue stm (sqNonce r) (sqElements r) (sqInH r) (sqOutH r)
                  (cfgRequestAckInterval S) (cfgWaitForAckTimeout S))) (\<lambda>a. ret (Some a))))"

definition finish_resume ::
  "'w sm_ops \<Rightarrow> nat \<Rightarrow> u32 \<Rightarrow> string \<Rightarrow> string \<Rightarrow> resource_desc \<Rightarrow> nat \<Rightarrow> ('w sm, unit) go" where
  "finish_resume S stm h prevSMID qk res a =
     andthen (mapSet qk a) (\<lambda>_.
     andthen (stResume S stm (rJID res) (rPresence res) (rInfo res)) (\<lambda>_.
     andthen (q_read a) (\<lambda>q.
     andthen (ignore (sm_ext (stSendElement S stm (0,
         Element ''resumed'' [(''xmlns'', streamNamespace), (''h'', itoa_nat (unat (InboundH q))),
           (''previd'', prevSMID)] [] [])))) (\<lambda>_.
     andthen (q_write a (Acknowledge h)) (\<lambda>_.
     andthen (q_SendPending S a) (\<lambda>_.
       q_write a ScheduleR))))))"

definition handleResume :: "'w sm_ops \<Rightarrow> nat \<Rightarrow> u32 \<Rightarrow> string \<Rightarrow> ('w sm, unit) go" where
  "handleResume S stm h prevSMID =
     andthen (gets (\<lambda>s. stIsAuthenticated S stm (smWorld s))) (\<lambda>authd.
     if \<not> authd then sendFailedReply S ''unexpected-request'' [] stm
     else case decodeSMID (smLib S) prevSMID of
       Inl e \<Rightarrow> throw e
     | Inr (jd, nonce) \<Rightarrow>
         andthen (sm_ext (smGetResource S (Node jd) (Resource jd))) (\<lambda>r.
         case r of
           None \<Rightarrow> sendFailedReply S ''item-not-found'' [] stm
         | Some res \<Rightarrow>
             (let qk = queueKey (smLib S) jd
              in andthen (resume_queue S stm qk res) (\<lambda>sq.
                 case sq of
                   None \<Rightarrow> sendFailedReply S ''item-not-found'' [] stm
                 | Some a \<Rightarrow>
                     andthen (q_read a) (\<lambda>q.
                     andthen (gets (\<lambda>s. stJID S stm (smWorld s))) (\<lambda>sj.
                     case sj of
                       None \<Rightarrow> throw ErrPanic
                     | Some stmJID \<Rightarrow>
                         if \<not> MatchesBare (smLib S) jd stmJID \<or> Nonce q \<noteq> nonce
                         then sendFailedReply S ''item-not-found'' [] stm
                         else finish_resume S stm h prevSMID qk res a))))))"

definition handleA :: "'w sm_ops \<Rightarrow> nat \<Rightarrow> u32 \<Rightarrow> ('w sm, unit) go" where
  "handleA S stm h =
     andthen (stream_queue_of S stm) (\<lambda>sq.
       case sq of
         None \<Rightarrow> ret ()
       | Some a \<Rightarrow>
           andthen (q_write a (Acknowledge h)) (\<lambda>_.
           andthen (q_read a) (\<lambda>q.
             if Len q = 0 then ret () else q_SendPending S a)))"

definition handleR :: "'w sm_ops \<Rightarrow> nat \<Rightarrow> ('w sm, unit) go" where
  "handleR S stm =
     andthen (stream_queue_of S stm) (\<lambda>sq.
       case sq of
         None \<Rightarrow> ret ()
       | Some a \<Rightarrow>
           andthen (q_read a) (\<lambda>q.
             ignore (sm_ext (stSendElement S stm (0,
               Element ''a'' [(''xmlns'', streamNamespace), (''h'', itoa_nat (unat (InboundH q)))] [] [])))))"

text \<open>\<^verbatim>\<open>strconv.ParseUint(s, 10, 32)\<close> with its error ignored: zero on a syntax error, the largest
  value when out of range.\<close>

definition parse_u32 :: "string \<Rightarrow> u32" where
  "parse_u32 s = (case parse_nat s of None \<Rightarrow> 0 | Some n \<Rightarrow> if n < 2 ^ 32 then of_nat n else 4294967295)"

definition processCmd :: "'w sm_ops \<Rightarrow> element \<Rightarrow> nat \<Rightarrow> ('w sm, unit) go" where
  "processCmd S cmd stm =
     (if length (AllChildren cmd) > 0 then sendFailedReply S ''bad-request'' ''Malformed element'' stm
      else let h = parse_u32 (Attribute (smLib S) cmd ''h'')
           in if Name cmd = ''enable'' then handleEnable S stm
              else if Name cmd = ''resume'' then handleResume S stm h (Attribute (smLib S) cmd ''previd'')
              else if Name cmd = ''a'' then handleA S stm h
              else if Name cmd = ''r'' then handleR S stm
              else sendFailedReply S ''bad-request''
                (''Unknown tag '' @ Name cmd @ '' qualified by namespace '' @ [CHR 0x27] @ streamNamespace @ [CHR 0x27]) stm)"

section \<open>Hook handlers\<close>

definition onElementRecv :: "'w sm_ops \<Rightarrow> nat \<Rightarrow> element \<Rightarrow> ('w sm, unit) go" where
  "onElementRecv S stm el =
     (if Attribute (smLib S) el ''xmlns'' = streamNamespace then
        andthen (processCmd S el stm) (\<lambda>_. throw ErrStopped)
      else if \<not> is_stanza (smLib S) el then ret ()
      else andthen (stream_queue_of S stm) (\<lambda>sq.
        case sq of None \<Rightarrow> ret () | Some a \<Rightarrow> q_write a HandleIn))"

definition onElementSent :: "'w sm_ops \<Rightarrow> nat \<Rightarrow> stanza_ptr \<Rightarrow> ('w sm, unit) go" where
  "onElementSent S stm st =
     (if \<not> is_stanza (smLib S) (snd st) then ret ()
      else andthen (stream_queue_of S stm) (\<lambda>sq.
        case sq of
          None \<Rightarrow> ret ()
        | Some a \<Rightarrow>
            andthen (q_write a (HandleOut st)) (\<lambda>_.
            andthen (q_read a) (\<lambda>q.
              if int (Len q) \<ge> cfgMaxQueueSize S then
                ignore (sm_ext (stDisconnectAsync S (GetStream q) (Some (stream_E PolicyViolation))))
              else if Len q mod unacknowledgedStanzaCount = 0 then q_RequestAck S a
              else ret ()))))"

text \<open>\<open>ident\<close> and \<open>presence\<close> are the hook info's; a bound stream always has a presence.\<close>

definition should_hibernate :: "xlib \<Rightarrow> element \<Rightarrow> disc_error \<Rightarrow> bool" where
  "should_hibernate X presence discErr =
     (IsAvailable X presence \<and>
      (case discErr of DiscStreamError _ \<Rightarrow> False | DiscError e \<Rightarrow> e \<noteq> ErrStreamClosedByPeer | NoDiscError \<Rightarrow> True))"

definition onDisconnect :: "'w sm_ops \<Rightarrow> nat \<Rightarrow> string \<Rightarrow> element \<Rightarrow> disc_error \<Rightarrow> ('w sm, unit) go" where
  "onDisconnect S stm ident presence discErr =
     andthen (smEnabled S stm) (\<lambda>enabled.
     if \<not> enabled then ret ()
     else andthen (stream_queue_of S stm) (\<lambda>sq.
       case sq of
         None \<Rightarrow> ret ()
       | Some a \<Rightarrow>
           andthen (q_write a CancelTimers) (\<lambda>_.
             if \<not> should_hibernate (smLib S) presence discErr then ret ()
             else andthen (modify (\<lambda>s. s\<lparr>smTermTms := (smTermTms s)(ident \<mapsto> smNextTm s),
                    smLiveTms := smLiveTms s @ [(smNextTm s, stm)], smNextTm := Suc (smNextTm s)\<rparr>))
                  (\<lambda>_. throw ErrStopped))))"

definition onTerminate :: "'w sm_ops \<Rightarrow> nat \<Rightarrow> string \<Rightarrow> ('w sm, unit) go" where
  "onTerminate S stm ident =
     andthen (smEnabled S stm) (\<lambda>enabled.
     if \<not> enabled then ret ()
     else andthen (gets (\<lambda>s. stJID S stm (smWorld s))) (\<lambda>j.
       case j of
         None \<Rightarrow> throw ErrPanic
       | Some jd \<Rightarrow>
           (let qk = queueKey (smLib S) jd
            in andthen (gets (\<lambda>s. smQueues s qk)) (\<lambda>sq.
               if sq = None then ret ()
               else andthen (mapDelete qk) (\<lambda>_.
                 modify (\<lambda>s. s\<lparr>smLiveTms := (case smTermTms s ident of None \<Rightarrow> smLiveTms s
                      | Some t \<Rightarrow> filter (\<lambda>x. fst x \<noteq> t) (smLiveTms s)),
                    smTermTms := (smTermTms s)(ident := None)\<rparr>))))))"

text \<open>The runtime fires the timer that ends a hibernated stream.\<close>

definition fire_term_timer :: "'w sm_ops \<Rightarrow> nat \<Rightarrow> ('w sm, unit) go" where
  "fire_term_timer S t =
     andthen (gets (\<lambda>s. find_first (\<lambda>x. fst x = t) (smLiveTms s))) (\<lambda>r.
       case r of
         None \<Rightarrow> ret ()
       | Some (_, stm) \<Rightarrow>
           andthen (modify (\<lambda>s. s\<lparr>smLiveTms := filter (\<lambda>x. fst x \<noteq> t) (smLiveTms s)\<rparr>)) (\<lambda>_.
             ignore (sm_ext (stDisconnectAsync S stm None))))"

section \<open>Transfer of a queue\<close>

text \<open>The server side: \<open>enabled\<close> tells whether the instance runs the module at all. The client side
  rebuilds the stanzas with \<open>rebuild\<close>, the package's \<^verbatim>\<open>BuildStanza\<close>, which gives new pointers.\<close>

definition svcTransferQueue :: "'w sm_ops \<Rightarrow> bool \<Rightarrow> string \<Rightarrow> ('w sm, stream_queue option) go" where
  "svcTransferQueue S enabled ident =
     (if \<not> enabled then ret None
      else andthen (mapDelete ident) (\<lambda>sq.
        case sq of
          None \<Rightarrow> ret None
        | Some a \<Rightarrow>
            andthen (q_read a) (\<lambda>q0.
            andthen (stDisconnect S (GetStream q0) (Some (stream_E Conflict))) (\<lambda>_.
            andthen (q_read a) (\<lambda>q.
              ret (Some \<lparr>sqElements = Elements q, sqNonce = Nonce q, sqInH = InboundH q, sqOutH = OutboundH q\<rparr>))))))"

fun rebuild_elements ::
  "(stanza_ptr \<Rightarrow> go_error + stanza_ptr) \<Rightarrow> stanza_ptr qelement list \<Rightarrow> go_error + stanza_ptr qelement list" where
  "rebuild_elements rebuild [] = Inr []"
| "rebuild_elements rebuild (e # es) =
     (case rebuild (Stanza e) of
        Inl err \<Rightarrow> Inl err
      | Inr p \<Rightarrow> map_sum id ((#) \<lparr>Stanza = p, H = H e\<rparr>) (rebuild_elements rebuild es))"

definition clTransferQueue ::
  "(stanza_ptr \<Rightarrow> go_error + stanza_ptr) \<Rightarrow> stream_queue option \<Rightarrow> go_error + stream_queue option" where
  "clTransferQueue rebuild resp =
     (case resp of
        None \<Rightarrow> Inr None
      | Some r \<Rightarrow> map_sum id (\<lambda>els. Some (r\<lparr>sqElements := els\<rparr>)) (rebuild_elements rebuild (sqElements r)))"

section \<open>Lemmas\<close>

lemma decode_encode_SMID:
  assumes "CHR 0x00 \<notin> set (JIDString X jd)" and "0 \<notin> set nonce"
    and "NewJIDWithString X (JIDString X jd) False = Some jd"
  shows "decodeSMID X (encodeSMID X jd nonce) = Inr (jd, nonce)"
proof -
  have "0 \<notin> set (str_bytes (JIDString X jd))"
  proof
    assume "0 \<in> set (str_bytes (JIDString X jd))"
    then obtain c where c: "c \<in> set (JIDString X jd)" "(of_char c :: byte) = 0" by (auto simp: str_bytes_def)
    then have "c = char_of (0::nat)" using char_byte [of c] by simp
    then have "c = CHR 0x00" by (simp add: char_of_eq_iff)
    with c(1) assms(1) show False by simp
  qed
  with assms(2) have "split_on 0 (str_bytes (JIDString X jd) @ [0] @ nonce) = [str_bytes (JIDString X jd), nonce]"
    by (simp add: split_on_append split_on_no_sep)
  with assms(3) show ?thesis by (simp add: decodeSMID_def encodeSMID_def)
qed

definition rand_ok :: "'w sm_ops \<Rightarrow> bool" where
  "rand_ok S \<longleftrightarrow> (\<forall>n w r w'. randIntn S n w = (Inr r, w') \<longrightarrow> r < n)"

lemma gen_nonce_ok:
  assumes "rand_ok S" and "gen_nonce S n s = (Inr nonce, s')"
  shows "length nonce = n \<and> 0 \<notin> set nonce"
  using assms(2)
proof (induction n arbitrary: s nonce s')
  case (Suc n)
  from Suc.prems obtain r w rest s1 where r: "randIntn S 255 (smWorld s) = (Inr r, w)"
    and rest: "gen_nonce S n (s\<lparr>smWorld := w\<rparr>) = (Inr rest, s1)" and nc: "nonce = of_nat (r + 1) # rest"
    by (auto simp: go_run sm_ext_def split: prod.splits sum.splits)
  from r assms(1) have "r < 255" unfolding rand_ok_def by blast
  then have "unat (of_nat (r + 1) :: byte) = r + 1"
    by (simp only: unat_of_nat) (simp add: take_bit_eq_mod)
  then have "(of_nat (r + 1) :: byte) \<noteq> 0" by force
  with Suc.IH [OF rest] nc show ?case by simp
qed (simp add: go_run)

lemma sm_ext_frame:
  "sm_ext f s = (r, s') \<Longrightarrow> smHeap s' = smHeap s \<and> smQueues s' = smQueues s"
  by (auto simp: sm_ext_def split: prod.splits)

lemma for_each_sm_ext:
  "for_each xs (\<lambda>x. ignore (sm_ext (f x))) s = (Inr (), s\<lparr>smWorld := snd (for_each xs (\<lambda>x. ignore (f x)) (smWorld s))\<rparr>)"
  by (induction xs arbitrary: s) (simp_all add: go_run sm_ext_def split_beta)

lemma for_each_map: "for_each (map g xs) f = for_each xs (\<lambda>x. f (g x))"
  by (induction xs) simp_all

lemma SendPending_run:
  "smHeap s a = Some q \<Longrightarrow> q_SendPending S a s = (Inr (), s\<lparr>smWorld :=
     snd (for_each (map Stanza (q_elements q)) (\<lambda>p. ignore (stSendElement S (q_stm q) p)) (smWorld s))\<rparr>)"
  by (simp add: q_SendPending_def q_read_def go_run SendPending_def for_each_map for_each_sm_ext)

lemma keeps_sm_ext: "keeps P f \<Longrightarrow> keeps (\<lambda>s. P (smWorld s)) (sm_ext f)"
  by (auto simp: keeps_def sm_ext_def split: prod.splits)

lemma keeps_gen_nonce: "(\<And>n. keeps P (randIntn S n)) \<Longrightarrow> keeps (\<lambda>s. P (smWorld s)) (gen_nonce S n)"
  by (induction n) (auto intro!: keeps_intro keeps_sm_ext)

text \<open>
  A resumable stream can be found again: enabling stream management on a bound stream
  registers, under the address of the stream, an empty queue with a fresh nonce of 24 bytes, and
  the identifier sent to the client decodes to exactly that address and nonce (the nonce never
  contains the zero byte that separates the two). Assumed: the address of the stream is readable
  again by the address package, and storing the enabled mark does not change it.
\<close>

theorem enable_registers_queue:
  assumes run: "handleEnable S stm s = (Inr (), s')"
    and "stIsBinded S stm (smWorld s)" and "\<not> infoBool (stInfo S stm (smWorld s)) enabledInfoKey"
    and "rand_ok S"
    and jid: "stJID S stm (smWorld s) = Some jd" "CHR 0x00 \<notin> set (JIDString (smLib S) jd)"
      "NewJIDWithString (smLib S) (JIDString (smLib S) jd) False = Some jd"
    and set: "keeps (\<lambda>w. stJID S stm w = Some jd) (stSetInfoValue S stm enabledInfoKey (BoolVal True))"
    and rnd: "\<And>n. keeps (\<lambda>w. stJID S stm w = Some jd) (randIntn S n)"
  shows "\<exists>nonce a w. smQueues s' (queueKey (smLib S) jd) = Some a \<and>
    smHeap s' a = Some (newQueue stm nonce [] 0 0 (cfgRequestAckInterval S) (cfgWaitForAckTimeout S)) \<and>
    length nonce = nonceLength \<and>
    smWorld s' = snd (stSendElement S stm (0, Element ''enabled'' [(''xmlns'', streamNamespace),
      (''id'', encodeSMID (smLib S) jd nonce), (''resume'', ''true'')] [] []) w) \<and>
    decodeSMID (smLib S) (encodeSMID (smLib S) jd nonce) = Inr (jd, nonce)"
proof -
  let ?P = "\<lambda>s. stJID S stm (smWorld s) = Some jd"
  from run assms(2,3) obtain s1 s2 nonce
    where s1: "sm_ext (stSetInfoValue S stm enabledInfoKey (BoolVal True)) s = (Inr (), s1)"
    and nonce: "gen_nonce S nonceLength s1 = (Inr nonce, s2)"
    by (auto simp: handleEnable_def go_run smEnabled_def split: prod.splits sum.splits)
  have "?P s1" using keepsD [OF keeps_sm_ext [OF set], of s] jid(1) s1 by simp
  then have s2: "?P s2" using keepsD [OF keeps_gen_nonce [OF rnd], of s1 nonceLength] nonce by simp
  have s': "s' = s2\<lparr>smHeap := (smHeap s2)(smNextQ s2 \<mapsto>
        newQueue stm nonce [] 0 0 (cfgRequestAckInterval S) (cfgWaitForAckTimeout S)),
      smNextQ := Suc (smNextQ s2), smQueues := (smQueues s2)(queueKey (smLib S) jd \<mapsto> smNextQ s2),
      smWorld := snd (stSendElement S stm (0, Element ''enabled'' [(''xmlns'', streamNamespace),
        (''id'', encodeSMID (smLib S) jd nonce), (''resume'', ''true'')] [] []) (smWorld s2))\<rparr>"
    using run assms(2,3) s1 nonce s2
    by (simp add: handleEnable_def go_run smEnabled_def q_new_def mapSet_def sm_ext_def split_beta)
  from gen_nonce_ok [OF assms(4) nonce] jid have "length nonce = nonceLength"
    "decodeSMID (smLib S) (encodeSMID (smLib S) jd nonce) = Inr (jd, nonce)"
    by (simp_all add: decode_encode_SMID)
  with s' show ?thesis
    by (intro exI [of _ nonce] exI [of _ "smNextQ s2"] exI [of _ "smWorld s2"]) simp
qed

text \<open>What a queue carries over from one stream to the next.\<close>

definition q_content :: "sm_queue \<Rightarrow> stanza_ptr qelement list \<times> byte list \<times> u32 \<times> u32" where
  "q_content q = (Elements q, Nonce q, InboundH q, OutboundH q)"

definition resumed_element :: "u32 \<Rightarrow> string \<Rightarrow> element" where
  "resumed_element h prev =
     Element ''resumed'' [(''xmlns'', streamNamespace), (''h'', itoa_nat (unat h)), (''previd'', prev)] [] []"

lemma finish_resume_run:
  assumes res: "stResume S stm (rJID res) (rPresence res) (rInfo res)
      (s\<lparr>smQueues := (smQueues s)(qk \<mapsto> a)\<rparr>) = (Inr (), s1)"
    and q: "smHeap s1 a = Some q" and stm: "q_stm q = stm"
  shows "finish_resume S stm h prev qk res a s = (Inr (), s1\<lparr>
    smHeap := (smHeap s1)(a \<mapsto> ScheduleR (Acknowledge h q)),
    smWorld := snd (for_each ((0, resumed_element (InboundH q) prev) # map Stanza (unacked h (Elements q)))
        (\<lambda>p. ignore (stSendElement S stm p)) (smWorld s1))\<rparr>)"
  using res q stm
  by (simp add: finish_resume_def go_run mapSet_def q_read_def q_write_def sm_ext_def split_beta
      resumed_element_def SendPending_run Acknowledge_elements q_frame Elements_def)

text \<open>
  C18. Resumption continues where the old connection stopped: for an authenticated stream with the
  right identifier, the retained queue is registered again under its address with the new stream,
  the client is told the inbound count and receives, in order, exactly the stanzas it did not
  acknowledge, and those stay pending. Assumed of the streams: disconnecting the old one and
  resuming the new one may touch timers, but not the contents of the queue.
\<close>

theorem resume_continues_queue:
  assumes "stIsAuthenticated S stm (smWorld s)" and "decodeSMID (smLib S) prev = Inr (jd, nonce)"
    and "smGetResource S (Node jd) (Resource jd) (smWorld s) = (Inr (Some res), w)"
    and "InstanceID res = smInstanceID S" and "smQueues s (queueKey (smLib S) jd) = Some a"
    and "smHeap s a = Some q" and "Nonce q = nonce"
    and "stDisconnect S (GetStream q) (Some (stream_E Conflict)) (s\<lparr>smWorld := w\<rparr>) = (Inr (), s1)"
    and "smHeap s1 a = Some qd" and "q_content qd = q_content q"
    and "stJID S stm (smWorld s1) = Some sj" and "MatchesBare (smLib S) jd sj"
    and "stResume S stm (rJID res) (rPresence res) (rInfo res)
        (s1\<lparr>smHeap := (smHeap s1)(a \<mapsto> SetStream stm qd),
            smQueues := (smQueues s1)(queueKey (smLib S) jd \<mapsto> a)\<rparr>) = (Inr (), s2)"
    and "smHeap s2 a = Some qr" and "q_content qr = q_content q" and "GetStream qr = stm"
    and "smQueues s2 (queueKey (smLib S) jd) = Some a"
  shows "\<exists>s' q'. handleResume S stm h prev s = (Inr (), s') \<and>
    smQueues s' (queueKey (smLib S) jd) = Some a \<and> smHeap s' a = Some q' \<and> GetStream q' = stm \<and>
    q_content q' = (unacked h (Elements q), nonce, InboundH q, OutboundH q) \<and>
    smWorld s' = snd (for_each ((0, resumed_element (InboundH q) prev) # map Stanza (unacked h (Elements q)))
      (\<lambda>p. ignore (stSendElement S stm p)) (smWorld s2))"
proof -
  let ?qk = "queueKey (smLib S) jd"
  let ?s = "s1\<lparr>smHeap := (smHeap s1)(a \<mapsto> SetStream stm qd)\<rparr>"
  have "resume_queue S stm ?qk res (s\<lparr>smWorld := w\<rparr>) = (Inr (Some a), ?s)"
    using assms(4-6,8,9) by (simp add: resume_queue_def go_run q_read_def q_write_def)
  moreover have "finish_resume S stm h prev ?qk res a ?s = (Inr (), s2\<lparr>
    smHeap := (smHeap s2)(a \<mapsto> ScheduleR (Acknowledge h qr)),
    smWorld := snd (for_each ((0, resumed_element (InboundH qr) prev) # map Stanza (unacked h (Elements qr)))
        (\<lambda>p. ignore (stSendElement S stm p)) (smWorld s2))\<rparr>)" (is "_ = (_, ?s')")
    using assms(13,14,16) by (intro finish_resume_run) (simp_all add: GetStream_def)
  ultimately have "handleResume S stm h prev s = (Inr (), ?s')"
    using assms(1-3,7,10-12)
    by (simp add: handleResume_def go_run sm_ext_def q_read_def Let_def q_content_def SetStream_def Nonce_def)
  with assms(7,14-17) show ?thesis
    by (intro exI [of _ ?s'] exI [of _ "ScheduleR (Acknowledge h qr)"])
      (simp add: q_content_def q_frame GetStream_def Elements_def Nonce_def InboundH_def OutboundH_def
        Acknowledge_elements)
qed

text \<open>
  A refused resumption has effects: when the nonce is wrong or the address belongs to another
  user, the client is told that there is no such item, but only after the stream the identifier
  names has been disconnected and the retained queue has been given to the refused client's stream.
  Any authenticated client can so end a resumable session of which it knows the address.
\<close>

theorem refused_resume_disconnects:
  assumes "stIsAuthenticated S stm (smWorld s)" and "decodeSMID (smLib S) prev = Inr (jd, nonce)"
    and "smGetResource S (Node jd) (Resource jd) (smWorld s) = (Inr (Some res), w)"
    and "InstanceID res = smInstanceID S" and "smQueues s (queueKey (smLib S) jd) = Some a"
    and "smHeap s a = Some q"
    and "stDisconnect S (GetStream q) (Some (stream_E Conflict)) (s\<lparr>smWorld := w\<rparr>) = (Inr (), s1)"
    and "smHeap s1 a = Some qd" and "stJID S stm (smWorld s1) = Some sj"
    and "\<not> MatchesBare (smLib S) jd sj \<or> Nonce qd \<noteq> nonce"
  shows "handleResume S stm h prev s = (Inr (), s1\<lparr>smHeap := (smHeap s1)(a \<mapsto> SetStream stm qd),
    smWorld := snd (stSendElement S stm (0, failed_element ''item-not-found'' []) (smWorld s1))\<rparr>)"
proof -
  have "resume_queue S stm (queueKey (smLib S) jd) res (s\<lparr>smWorld := w\<rparr>) =
      (Inr (Some a), s1\<lparr>smHeap := (smHeap s1)(a \<mapsto> SetStream stm qd)\<rparr>)"
    using assms(4-8) by (simp add: resume_queue_def go_run q_read_def q_write_def)
  moreover have "Nonce (SetStream stm qd) = Nonce qd" by (simp add: Nonce_def SetStream_def)
  ultimately show ?thesis using assms(1-3,9,10)
    by (auto simp: handleResume_def go_run sm_ext_def q_read_def Let_def sendFailedReply_def split_beta)
qed

section \<open>An example\<close>

text \<open>Stream 1 is bound to an address and enables stream management; stream 2 resumes it. The world
  is the log of what the streams were asked to do.\<close>

datatype sm_event = EvInfo nat | EvSend nat stanza_ptr | EvDisconnect nat | EvResume nat jid

definition demo_jid :: jid where
  "demo_jid = \<lparr>Node = ''ana'', Domain = ''x'', Resource = ''b''\<rparr>"

definition log_event :: "'e \<Rightarrow> ('e list, unit) go" where
  "log_event e = modify (\<lambda>w. w @ [e])"

definition demo_resource :: resource_desc where
  "demo_resource = NewResourceDesc ''i'' demo_jid None (NewInfoMap)"

definition demo_sm :: "sm_event list sm_ops" where
  "demo_sm = \<lparr>
     smLib = std_lib, smInstanceID = ''i'', cfgRequestAckInterval = 60, cfgWaitForAckTimeout = 30,
     cfgMaxQueueSize = 250,
     stIsBinded = (\<lambda>stm w. stm = 1), stIsAuthenticated = (\<lambda>stm w. True),
     stInfo = (\<lambda>stm w. if EvInfo stm \<in> set w then SetBool enabledInfoKey True NewInfoMap else NewInfoMap),
     stJID = (\<lambda>stm w. Some (if stm = 1 then demo_jid else demo_jid\<lparr>Resource := []\<rparr>)),
     stSetInfoValue = (\<lambda>stm k v. log_event (EvInfo stm)),
     stSendElement = (\<lambda>stm p. log_event (EvSend stm p)),
     stDisconnectAsync = (\<lambda>stm e. log_event (EvDisconnect stm)),
     stDisconnect = (\<lambda>stm e. sm_ext (log_event (EvDisconnect stm))),
     stResume = (\<lambda>stm j pr inf. sm_ext (log_event (EvResume stm j))),
     smGetResource = (\<lambda>u r. ret (Some demo_resource)),
     smTransferQueue = (\<lambda>i k. ret None),
     randIntn = (\<lambda>n. if n = 0 then throw ErrPanic else ret 0)\<rparr>"

lemma demo_nonce: "\<exists>nonce. gen_nonce demo_sm n s = (Inr nonce, s)"
  by (induction n) (auto simp: go_run demo_sm_def sm_ext_def)

lemma demo_enable: "\<exists>s'. handleEnable demo_sm 1 (newSM []) = (Inr (), s')"
proof -
  obtain s1 where s1: "sm_ext (stSetInfoValue demo_sm 1 enabledInfoKey (BoolVal True)) (newSM []) = (Inr (), s1)"
    by (simp add: demo_sm_def sm_ext_def log_event_def go_run)
  from demo_nonce obtain nonce where "gen_nonce demo_sm nonceLength s1 = (Inr nonce, s1)" by blast
  moreover have "stIsBinded demo_sm 1 w" "stJID demo_sm 1 w = Some demo_jid" "stInfo demo_sm 1 [] = NewInfoMap" for w
    by (simp_all add: demo_sm_def)
  moreover have "\<not> infoBool NewInfoMap enabledInfoKey" by code_simp
  ultimately show ?thesis using s1
    by (simp add: handleEnable_def smEnabled_def go_run q_new_def mapSet_def newSM_def)
qed

theorem enable_registers_queue_witness:
  "\<exists>s' nonce a w. handleEnable demo_sm 1 (newSM []) = (Inr (), s') \<and>
    smQueues s' (queueKey std_lib demo_jid) = Some a \<and>
    smHeap s' a = Some (newQueue 1 nonce [] 0 0 60 30) \<and> length nonce = nonceLength \<and>
    smWorld s' = snd (stSendElement demo_sm 1 (0, Element ''enabled'' [(''xmlns'', streamNamespace),
      (''id'', encodeSMID std_lib demo_jid nonce), (''resume'', ''true'')] [] []) w) \<and>
    decodeSMID std_lib (encodeSMID std_lib demo_jid nonce) = Inr (demo_jid, nonce)"
proof -
  from demo_enable obtain s' where run: "handleEnable demo_sm 1 (newSM []) = (Inr (), s')" by blast
  have sel: "smLib demo_sm = std_lib" "cfgRequestAckInterval demo_sm = 60" "cfgWaitForAckTimeout demo_sm = 30"
    "stIsBinded demo_sm 1 w" "stJID demo_sm 1 w = Some demo_jid" "stInfo demo_sm 1 [] = NewInfoMap" for w
    by (simp_all add: demo_sm_def)
  have env: "\<not> infoBool NewInfoMap enabledInfoKey" "smWorld (newSM []) = []" "rand_ok demo_sm"
    by (code_simp, simp add: newSM_def, simp add: rand_ok_def demo_sm_def go_run)
  have jid: "CHR 0x00 \<notin> set (JIDString std_lib demo_jid)"
    "NewJIDWithString std_lib (JIDString std_lib demo_jid) False = Some demo_jid" by code_simp+
  have keep: "keeps (\<lambda>w. Some demo_jid = Some demo_jid) (stSetInfoValue demo_sm 1 enabledInfoKey (BoolVal True))"
    "keeps (\<lambda>w. Some demo_jid = Some demo_jid) (randIntn demo_sm n)" for n
    by (simp_all add: keeps_def)
  show ?thesis
    using enable_registers_queue [OF run, of demo_jid, unfolded sel env(2), OF sel(4) env(1,3) refl jid keep]
    run by blast
qed

definition demo_queue :: sm_queue where
  "demo_queue = HandleOut (2, Element ''message'' [] [] []) (HandleOut (1, Element ''message'' [] [] [])
     (newQueue 1 [7, 8, 9] [] 0 0 60 30))"

definition demo_retained :: "sm_event list sm" where
  "demo_retained = (newSM [])\<lparr>smQueues := [queueKey std_lib demo_jid \<mapsto> 0], smHeap := [0 \<mapsto> demo_queue], smNextQ := 1\<rparr>"

definition demo_prev :: string where
  "demo_prev = encodeSMID std_lib demo_jid [7, 8, 9]"

theorem resume_continues_queue_witness:
  "\<exists>s' q'. handleResume demo_sm 2 1 demo_prev demo_retained = (Inr (), s') \<and>
    smQueues s' (queueKey std_lib demo_jid) = Some 0 \<and> smHeap s' 0 = Some q' \<and> GetStream q' = 2 \<and>
    q_content q' = ([\<lparr>Stanza = (2, Element ''message'' [] [] []), H = 2\<rparr>], [7, 8, 9], 0, 2) \<and>
    smWorld s' = [EvDisconnect 1, EvResume 2 demo_jid, EvSend 2 (0, resumed_element 0 demo_prev),
      EvSend 2 (2, Element ''message'' [] [] [])]"
proof -
  let ?s1 = "demo_retained\<lparr>smWorld := [EvDisconnect 1]\<rparr>"
  let ?s2 = "?s1\<lparr>smHeap := [0 \<mapsto> SetStream 2 demo_queue], smQueues := [queueKey std_lib demo_jid \<mapsto> 0],
    smWorld := [EvDisconnect 1, EvResume 2 demo_jid]\<rparr>"
  have jid: "CHR 0x00 \<notin> set (JIDString std_lib demo_jid)"
    "NewJIDWithString std_lib (JIDString std_lib demo_jid) False = Some demo_jid" by code_simp+
  have prev: "decodeSMID std_lib demo_prev = Inr (demo_jid, [7, 8, 9])"
    unfolding demo_prev_def using jid by (intro decode_encode_SMID) simp_all
  have q: "Nonce demo_queue = [7, 8, 9]" "GetStream demo_queue = 1" "InboundH demo_queue = 0" "OutboundH demo_queue = 2"
    "unacked 1 (Elements demo_queue) = [\<lparr>Stanza = (2, Element ''message'' [] [] []), H = 2\<rparr>]"
    by code_simp+
  have "q_content (SetStream 2 demo_queue) = q_content demo_queue" "GetStream (SetStream 2 demo_queue) = 2"
    by (simp_all add: q_content_def SetStream_def GetStream_def Elements_def Nonce_def InboundH_def OutboundH_def)
  moreover have "MatchesBare std_lib demo_jid (demo_jid\<lparr>Resource := []\<rparr>)" by code_simp
  ultimately show ?thesis
    using resume_continues_queue [of demo_sm 2 demo_retained demo_prev demo_jid "[7, 8, 9]" demo_resource "[]" 0
        demo_queue ?s1 demo_queue "demo_jid\<lparr>Resource := []\<rparr>" ?s2 "SetStream 2 demo_queue" 1] prev q
    by (simp add: demo_sm_def demo_retained_def newSM_def go_run sm_ext_def log_event_def demo_resource_def NewResourceDesc_def)
qed

theorem refused_resume_disconnects_witness:
  "handleResume demo_sm 3 0 (encodeSMID std_lib demo_jid [1]) demo_retained =
    (Inr (), demo_retained\<lparr>smHeap := [0 \<mapsto> SetStream 3 demo_queue],
      smWorld := [EvDisconnect 1, EvSend 3 (0, failed_element ''item-not-found'' [])]\<rparr>)"
proof -
  have jid: "CHR 0x00 \<notin> set (JIDString std_lib demo_jid)"
    "NewJIDWithString std_lib (JIDString std_lib demo_jid) False = Some demo_jid" by code_simp+
  then have "decodeSMID std_lib (encodeSMID std_lib demo_jid [1]) = Inr (demo_jid, [1])"
    by (intro decode_encode_SMID) simp_all
  moreover have "Nonce demo_queue \<noteq> [1]" "GetStream demo_queue = 1" by code_simp+
  ultimately show ?thesis
    using refused_resume_disconnects [of demo_sm 3 demo_retained "encodeSMID std_lib demo_jid [1]" demo_jid "[1]"
        demo_resource "[]" 0 demo_queue "demo_retained\<lparr>smWorld := [EvDisconnect 1]\<rparr>" demo_queue
        "demo_jid\<lparr>Resource := []\<rparr>" 0]
    by (simp add: demo_sm_def demo_retained_def newSM_def go_run sm_ext_def log_event_def demo_resource_def NewResourceDesc_def)
qed

end
