(* ===== verification/C2S_Silence.thy ===== *)
theory C2S_Silence
  imports C2S_Safety Stream_Mgmt
begin

text \<open>
  A client that is never accepted by an authenticator is never heard: whatever it sends, in
  whatever order, replacing the router, the modules and the components changes nothing. The locale
  \<open>unaccepted_client\<close> collects what this rests on: the elements of the client never make a mechanism
  report success, and the hook handlers neither authenticate nor bind an unauthenticated stream. The
  latter is proved here of the only handler of the sources that binds a stream, the one of stream
  management, which resumes sessions.
\<close>

section \<open>Streams that are not authenticated\<close>

definition unaccepted :: "in_c2s \<Rightarrow> bool" where
  "unaccepted s \<longleftrightarrow> \<not> isAuthenticated (isFlags s) \<and> isState s \<notin> {inAuthenticated, inBinded}"

definition silent :: "('w \<Rightarrow> bool) \<Rightarrow> in_c2s \<times> 'w \<Rightarrow> bool" where
  "silent N = (\<lambda>(s, w). unaccepted s \<and> N w)"

lemma silent_ext: "keeps N f \<Longrightarrow> keeps (silent N) (ext f)"
  by (auto simp: keeps_def ext_def silent_def split_beta)

lemma silent_ext_own: "(\<And>s. keeps N (f s)) \<Longrightarrow> keeps (silent N) (ext_own f)"
  by (auto simp: keeps_def ext_own_def silent_def split_beta)

lemma silent_own: "(\<And>s. unaccepted s \<Longrightarrow> keeps (silent N) (k (f s))) \<Longrightarrow> keeps (silent N) (andthen (own f) k)"
  by (auto simp: keeps_def own_def silent_def go_run)

lemma silent_upd: "(\<And>s. unaccepted s \<Longrightarrow> unaccepted (f s)) \<Longrightarrow> keeps (silent N) (upd f)"
  by (auto simp: keeps_def upd_def silent_def go_run)

lemma silent_updates:
  "keeps (silent N) (setJID j)" "keeps (silent N) (setFlag setSecured)"
  "keeps (silent N) (setState inConnecting)" "keeps (silent N) (setState inConnected)"
  "keeps (silent N) (setState inAuthenticating)" "keeps (silent N) (setState inDisconnected)" "keeps (silent N) (setState inTerminated)"
  "keeps (silent N) (upd (\<lambda>s. s\<lparr>isActive := a\<rparr>))" "keeps (silent N) (upd (\<lambda>s. s\<lparr>isDone := d\<rparr>))"
  "keeps (silent N) (upd (\<lambda>s. s\<lparr>isFailedTimes := isFailedTimes s + 1\<rparr>))" "keeps (silent N) (upd (\<lambda>s. s\<lparr>isAbortTimes := isAbortTimes s + 1\<rparr>))"
  "keeps (silent N) (upd stop_disc_timer)" "keeps (silent N) (upd (\<lambda>s. s\<lparr>isLiveTms := f s\<rparr>))"
  unfolding setJID_def setFlag_def setState_def
  by (rule silent_upd; auto simp: unaccepted_def flag_simps stop_disc_timer_def split: option.split)+

section \<open>The contract\<close>

locale unaccepted_client =
  fixes E :: "'w in_env" and N :: "'w \<Rightarrow> bool" and A :: "element set"
  assumes never: "N w \<Longrightarrow> a \<in> set (authenticators E) \<Longrightarrow> \<not> auAuthenticated a w"
    and attempts: "el \<in> A \<Longrightarrow> a \<in> set (authenticators E) \<Longrightarrow> keeps N (auProcessElement a el)"
    and resets: "a \<in> set (authenticators E) \<Longrightarrow> N w \<Longrightarrow> N (auReset a w)"
    and hooks: "h \<in> set (envHooks E name) \<Longrightarrow> keeps (silent N) (h_fn h i)"
    and hooked: "el \<in> A \<Longrightarrow> hook_element E ''c2s.stream.element_received'' el st = (Inr (halted, Some el'), st') \<Longrightarrow> el' \<in> A"
    and session: "keeps N (sesSetFromJID E j)" "keeps N (sesOpenStream E)" "keeps N (sesSend E el')" "keeps N (sesClose E)" "keeps N (sesReset E)"
    and transport: "keeps N (trStartTLS E)" "keeps N (trClose E)"
    and router: "keeps N (rtRegister E s)" "keeps N (rtUnregister E s)" "keeps N (rmDelResource E name res)"
begin

abbreviation quiet :: "in_c2s \<times> 'w \<Rightarrow> bool" where "quiet \<equiv> silent N"

lemmas quiet_calls = silent_ext [OF session(1)] silent_ext [OF session(2)] silent_ext [OF session(3)] silent_ext [OF session(4)]
  silent_ext [OF session(5)] silent_ext [OF transport(1)] silent_ext [OF transport(2)]
  silent_ext_own [of N "rtRegister E", OF router(1)] silent_ext_own [of N "rtUnregister E", OF router(2)]
  silent_ext_own [of N "\<lambda>s. rmDelResource E (Username s) (sResource s)", OF router(3)]

lemma quiet_hook: "keeps quiet (runHook E name info)"
  unfolding runHook_def by (rule keeps_Run) (rule hooks)

lemma quiet_info: "keeps quiet (stream_info el)"
  by (simp add: stream_info_def own_def keeps_gets)

lemma quiet_gets: "keeps quiet (own f)"
  by (simp add: own_def keeps_gets)

lemmas quiet_steps = keeps_andthen keeps_if keeps_ret keeps_throw keeps_ignore keeps_attempt silent_updates quiet_calls
  quiet_hook quiet_info quiet_gets

lemma quiet_send: "keeps quiet (sendElement E el)"
  unfolding sendElement_def by (intro quiet_steps)

lemma quiet_terminate: "keeps quiet (terminate E)"
  unfolding terminate_def by (intro quiet_steps)

lemma quiet_close: "keeps quiet (close_stream E err)"
  unfolding close_stream_def by (intro quiet_steps quiet_terminate) (auto intro: quiet_steps quiet_terminate split: prod.split)

lemma quiet_disconnect: "keeps quiet (disconnect E se)"
proof -
  have "keeps quiet (upd (\<lambda>s. s\<lparr>isDiscTm := Some (isNextTm s), isLiveTms := isLiveTms s @ [(isNextTm s, e)],
      isNextTm := Suc (isNextTm s), isSendDisabled := True\<rparr>))" for e
    by (rule silent_upd) (simp add: unaccepted_def)
  then show ?thesis
    unfolding disconnect_def by (intro quiet_steps; cases se; auto intro!: quiet_steps quiet_send quiet_close)
qed

section \<open>Attempts to authenticate\<close>

lemma quiet_active: "(\<And>a. a \<in> set (authenticators E) \<Longrightarrow> keeps quiet (k a)) \<Longrightarrow> keeps quiet (andthen (active_auth E) k)"
  unfolding keeps_def active_auth_def own_def by (auto simp: go_run split: option.split)

lemma quiet_refused:
  assumes "a \<in> set (authenticators E)" and "keeps quiet pending"
  shows "keeps quiet (andthen (ext (gets (auAuthenticated a))) (\<lambda>ok. if ok then accepted else pending))"
  using assms never [of _ a] unfolding keeps_def by (auto simp: ext_def go_run silent_def)

lemma quiet_auth_step:
  assumes el: "el \<in> A" and pending: "keeps quiet pending"
  shows "keeps quiet (auth_step E el pending)"
proof -
  have "keeps quiet (continueAuthentication E el)"
    unfolding continueAuthentication_def by (intro quiet_active keeps_andthen silent_ext attempts el quiet_send)
  moreover have "keeps quiet (failAuthentication E r)" for r
    unfolding failAuthentication_def by (intro quiet_steps quiet_send quiet_disconnect)
  ultimately show ?thesis
    unfolding auth_step_def
    by (auto intro!: keeps_andthen keeps_attempt keeps_throw quiet_active quiet_refused pending split: sum.split go_error.split)
qed

lemma quiet_startAuthentication: "el \<in> A \<Longrightarrow> keeps quiet (startAuthentication E el)"
  unfolding startAuthentication_def
  by (auto intro!: quiet_steps quiet_disconnect quiet_send quiet_auth_step split: option.split)

lemma quiet_handleAuthenticating:
  assumes "el \<in> A"
  shows "keeps quiet (handleAuthenticating E el)"
proof -
  have "keeps quiet (ext (modify (auReset a)))" if "a \<in> set (authenticators E)" for a
    using resets [OF that] by (auto simp: keeps_def ext_def silent_def go_run)
  then have "keeps quiet (abortAuthentication E)"
    unfolding abortAuthentication_def by (intro quiet_active quiet_steps quiet_disconnect)
  then show ?thesis
    unfolding handleAuthenticating_def using assms by (auto intro!: quiet_steps quiet_disconnect quiet_auth_step)
qed

lemma quiet_handleConnected: "el \<in> A \<Longrightarrow> keeps quiet (handleConnected E el)"
  unfolding handleConnected_def proceedStartTLS_def restartSession_def Let_def
  by (auto intro!: quiet_steps quiet_disconnect quiet_send quiet_startAuthentication)

lemma quiet_handleConnecting: "keeps quiet (handleConnecting E el)"
proof -
  have "keeps quiet (if \<not> isAuthenticated (isFlags s) then andthen (setState inConnected) (\<lambda>_. ret (unauthenticatedFeatures E s))
      else m)" if "unaccepted s" for s m
    using that by (auto simp: unaccepted_def intro: quiet_steps)
  then show ?thesis
    unfolding handleConnecting_def
    by (intro keeps_andthen keeps_ignore quiet_gets quiet_calls silent_own [where f = "\<lambda>s. s"])
      (auto intro!: quiet_steps split: option.split)
qed

section \<open>Runs\<close>

lemma quiet_dispatch:
  assumes "\<And>e. el = Some e \<Longrightarrow> e \<in> A" and "st \<notin> {inAuthenticated, inBinded}"
  shows "keeps quiet (dispatch_element E fuel st el)"
  using assms by (cases st; cases el)
    (simp_all add: dispatch_element_def quiet_handleConnecting quiet_handleConnected quiet_handleAuthenticating keeps_ret keeps_throw)

lemma quiet_handleElement:
  assumes "el \<in> A"
  shows "keeps quiet (handleElement E fuel el)"
proof (rule keepsI)
  fix st assume st: "quiet st"
  let ?h = "hook_element E ''c2s.stream.element_received'' el"
  have "keeps quiet ?h" unfolding hook_element_def by (auto intro!: quiet_steps split: prod.split)
  with st have h: "quiet (snd (?h st))" by (rule keepsD [rotated])
  show "quiet (snd (handleElement E fuel el st))"
  proof (cases "\<exists>el' s w. ?h st = (Inr (False, el'), (s, w))")
    case True
    then obtain el' s w where r: "?h st = (Inr (False, el'), (s, w))" by blast
    with h have s: "quiet (s, w)" by simp
    have "keeps quiet (dispatch_element E fuel (isState s) el')"
      by (rule quiet_dispatch) (use hooked [OF assms, of st False] r s in \<open>auto simp: silent_def unaccepted_def\<close>)
    from keepsD [OF this s] r show ?thesis by (simp add: handleElement_def andthen_run own_def gets_run)
  next
    case False
    then show ?thesis using h by (cases "?h st"; cases "fst (?h st)") (auto simp: handleElement_def andthen_run go_run)
  qed
qed

lemma quiet_task:
  assumes "\<And>el. ev = Received el \<Longrightarrow> el \<in> A"
  shows "keeps quiet (c2s_task E fuel ev)"
proof (cases ev)
  case (TimerFired t)
  have "keeps quiet (case r of None \<Rightarrow> ret () | Some (_, se) \<Rightarrow>
      andthen (upd (\<lambda>s. s\<lparr>isLiveTms := filter (\<lambda>x. fst x \<noteq> t) (isLiveTms s)\<rparr>)) (\<lambda>_. ignore (close_stream E (DiscStreamError (Some se)))))" for r
    by (auto intro!: quiet_steps quiet_close split: option.split)
  then show ?thesis unfolding TimerFired c2s_task.simps fire_disc_timer_def by (intro keeps_andthen quiet_gets)
qed (use assms in \<open>auto simp: handleSessionError_def connTimeout_def
      intro!: quiet_handleElement quiet_steps quiet_send quiet_disconnect quiet_close\<close>)

end

section \<open>Other routers\<close>

lemma swap_fire_disc_timer [swap]: "fire_disc_timer (swap_routing r p c E) = fire_disc_timer E"
  by (intro HOL.ext, unfold fire_disc_timer_def swap, rule refl)

lemma swap_task:
  assumes "\<And>el. ev = Received el \<Longrightarrow> (case hook_element E ''c2s.stream.element_received'' el st of
      (Inr (False, _), (s, _)) \<Rightarrow> isState s \<noteq> inBinded | _ \<Rightarrow> True)"
  shows "c2s_task (swap_routing r p c E) fuel ev st = c2s_task E fuel ev st"
proof (cases ev)
  case (Received el)
  obtain x s w where h: "hook_element E ''c2s.stream.element_received'' el st = (x, (s, w))" by (metis prod.exhaust)
  have "dispatch_element (swap_routing r p c E) fuel (isState s) el' = dispatch_element E fuel (isState s) el'"
    if "isState s \<noteq> inBinded" for el'
    using that by (cases "isState s"; cases el') (simp_all add: dispatch_element_def swap)
  with assms [OF Received] h show ?thesis
    by (cases x) (auto simp: Received handleElement_def swap andthen_run own_def go_run split: bool.splits)
qed (simp_all add: handleSessionError_def connTimeout_def swap)

context unaccepted_client
begin

lemma quiet_swap_task:
  assumes "quiet st" and "\<And>el. ev = Received el \<Longrightarrow> el \<in> A"
  shows "c2s_task (swap_routing r p c E) fuel ev st = c2s_task E fuel ev st"
proof (rule swap_task)
  fix el
  have "keeps quiet (hook_element E ''c2s.stream.element_received'' el)"
    unfolding hook_element_def by (auto intro!: quiet_steps split: prod.split)
  from keepsD [OF this assms(1)]
  show "case hook_element E ''c2s.stream.element_received'' el st of (Inr (False, _), (s, _)) \<Rightarrow> isState s \<noteq> inBinded | _ \<Rightarrow> True"
    by (auto simp: silent_def unaccepted_def split: prod.split sum.split bool.split)
qed

lemma quiet_run:
  assumes "quiet st" and "\<And>el. Received el \<in> set evs \<Longrightarrow> el \<in> A"
  shows "quiet (c2s_run E fuel evs st) \<and> c2s_run (swap_routing r p c E) fuel evs st = c2s_run E fuel evs st"
  using assms
proof (induction evs arbitrary: st)
  case (Cons ev evs)
  have "quiet (snd (c2s_task E fuel ev st))" by (rule keepsD [OF quiet_task Cons.prems(1)]) (simp add: Cons.prems(2))
  from Cons.IH [OF this] Cons.prems quiet_swap_task [OF Cons.prems(1), of ev r p c fuel] show ?case
    by (simp add: c2s_run_def split_beta)
qed (simp add: c2s_run_def)

lemma quiet_start:
  assumes "N w"
  shows "quiet (snd (start_stream E (newInC2S E i, w)))"
proof -
  have "keeps quiet (start_stream E)" unfolding start_stream_def restartSession_def by (intro quiet_steps)
  moreover have "quiet (newInC2S E i, w)" using assms by (simp add: silent_def unaccepted_def newInC2S_def flag_simps)
  ultimately show ?thesis by (rule keepsD)
qed

end

section \<open>The handler of stream management\<close>

text \<open>Stream management binds a stream when it resumes a session, and only then. Its handler, on a stream
  that is not authenticated, keeps everything that sending, reading resources and drawing random
  numbers keep.\<close>

locale sm_guarded =
  fixes S :: "'w sm_ops" and stm :: nat and P :: "'w \<Rightarrow> bool"
  assumes guard: "P w \<Longrightarrow> \<not> stIsAuthenticated S stm w"
    and calls: "keeps P (stSetInfoValue S n k v)" "keeps P (stSendElement S n p)" "keeps P (stDisconnectAsync S n se)"
      "keeps P (randIntn S m)"
begin

abbreviation guarded :: "'w sm \<Rightarrow> bool" where "guarded m \<equiv> P (smWorld m)"

lemma guarded_ext: "keeps P f \<Longrightarrow> keeps guarded (sm_ext f)"
  by (auto simp: keeps_def sm_ext_def split_beta)

lemma guarded_own:
  "keeps guarded (q_new q)" "keeps guarded (q_read a)" "keeps guarded (q_write a f)" "keeps guarded (mapSet k a)"
  "keeps guarded (gets g)"
  by (auto simp: keeps_def q_new_def q_read_def q_write_def mapSet_def go_run split: option.split)

lemmas guarded_steps = keeps_andthen keeps_if keeps_ret keeps_throw keeps_ignore keeps_for_each guarded_own
  guarded_ext [OF calls(1)] guarded_ext [OF calls(2)] guarded_ext [OF calls(3)] guarded_ext [OF calls(4)]

lemma guarded_perform: "keeps guarded (perform S out)"
  by (cases out) (auto intro!: guarded_steps)

lemma guarded_nonce: "keeps guarded (gen_nonce S n)"
  by (induction n) (auto intro!: guarded_steps)

lemma guarded_queue: "keeps guarded (stream_queue_of S stm)"
  unfolding stream_queue_of_def by (auto intro!: guarded_steps split: option.split)

lemma guarded_enable: "keeps guarded (handleEnable S stm)"
  unfolding handleEnable_def smEnabled_def sendFailedReply_def
  by (auto intro!: guarded_steps guarded_nonce split: option.split)

lemma guarded_resume: "keeps guarded (handleResume S stm h prev)"
  using calls(2) unfolding handleResume_def sendFailedReply_def
  by (auto simp: keeps_def go_run sm_ext_def split_beta dest: guard)

lemma guarded_ack: "keeps guarded (handleA S stm h)" "keeps guarded (handleR S stm)"
  unfolding handleA_def handleR_def q_SendPending_def
  by (auto intro!: guarded_steps guarded_queue guarded_perform split: option.split)

lemma guarded_recv: "keeps guarded (onElementRecv S stm el)"
proof -
  have "keeps guarded (processCmd S el stm)"
    unfolding processCmd_def Let_def sendFailedReply_def
    by (intro guarded_steps guarded_enable guarded_resume guarded_ack)
  then show ?thesis unfolding onElementRecv_def by (auto intro!: guarded_steps guarded_queue split: option.split)
qed

end

text \<open>The handler on a stream: the module's state is the state behind the collaborators, and its streams
  are the one the hook is run for.\<close>

definition sm_pack :: "in_c2s \<times> 'v sm \<Rightarrow> (in_c2s \<times> 'v) sm" where
  "sm_pack = (\<lambda>(s, m). \<lparr>smQueues = smQueues m, smHeap = smHeap m, smNextQ = smNextQ m, smTermTms = smTermTms m,
     smLiveTms = smLiveTms m, smNextTm = smNextTm m, smWorld = (s, smWorld m)\<rparr>)"

definition sm_unpack :: "(in_c2s \<times> 'v) sm \<Rightarrow> in_c2s \<times> 'v sm" where
  "sm_unpack m = (fst (smWorld m), \<lparr>smQueues = smQueues m, smHeap = smHeap m, smNextQ = smNextQ m, smTermTms = smTermTms m,
     smLiveTms = smLiveTms m, smNextTm = smNextTm m, smWorld = snd (smWorld m)\<rparr>)"

definition sm_handler :: "(in_c2s \<times> 'v) sm_ops \<Rightarrow> (in_c2s \<times> 'v sm, c2s_info) handler" where
  "sm_handler S = \<lparr>h_ptr = 0, h_fn = (\<lambda>i st. case ciElement i of
        None \<Rightarrow> (Inl ErrPanic, st)
      | Some el \<Rightarrow> (case onElementRecv S 0 el (sm_pack st) of (r, m) \<Rightarrow> (map_sum id (\<lambda>_. i) r, sm_unpack m))),
     h_prio = 0\<rparr>"

lemma sm_handler_quiet:
  assumes "sm_guarded S 0 (silent N)"
  shows "keeps (silent (\<lambda>m. N (smWorld m))) (h_fn (sm_handler S) i)"
proof (rule keepsI)
  fix st :: "in_c2s \<times> 'a sm" assume st: "silent (\<lambda>m. N (smWorld m)) st"
  have "silent N (smWorld (snd (onElementRecv S 0 el (sm_pack st))))" for el
    by (rule keepsD [OF sm_guarded.guarded_recv [OF assms]]) (use st in \<open>simp add: sm_pack_def silent_def split_beta\<close>)
  with st show "silent (\<lambda>m. N (smWorld m)) (snd (h_fn (sm_handler S) i st))"
    by (simp add: sm_handler_def sm_unpack_def silent_def split_beta split: option.split)
qed

lemma sm_handler_element:
  assumes "h_fn (sm_handler S) i st = (Inr i', st')"
  shows "i' = i"
proof -
  obtain el where el: "ciElement i = Some el" using assms by (cases "ciElement i") (simp_all add: sm_handler_def)
  obtain r m where "onElementRecv S 0 el (sm_pack st) = (r, m)" by fastforce
  with el assms show ?thesis by (cases r) (simp_all add: sm_handler_def)
qed

lemma sm_handler_run:
  assumes "envHooks E name = [sm_handler S]" and "hook_element E name el st = (Inr (halted, el'), st')"
  shows "el' = Some el"
proof -
  let ?i = "\<lparr>ciID = stream_id_string (isId (fst st)), ciJID = isJid (fst st), ciPresence = isPr (fst st), ciElement = Some el,
     ciTargets = [], ciDisconnectError = NoDiscError\<rparr>"
  obtain r st1 where r: "h_fn (sm_handler S) ?i st = (r, st1)" by (metis prod.exhaust)
  from assms r sm_handler_element [of S ?i st _ st1] show ?thesis
    by (cases r) (auto simp: hook_element_def stream_info_def own_def runHook_def Run_def go_run split_beta split: if_splits)
qed

section \<open>An example\<close>

text \<open>A server whose only mechanism accepts the text \<^verbatim>\<open>secret\<close>, with stream management. The state behind the
  collaborators is that of stream management; with it, whether the mechanism has accepted, and
  the names of the stanzas routed.\<close>

definition guard_auth :: "(bool \<times> string list) sm authenticator" where
  "guard_auth = \<lparr>auMechanism = ''PLAIN'', auUsesChannelBinding = False,
     auProcessElement = (\<lambda>el. andthen (modify (\<lambda>m. m\<lparr>smWorld := (Text el = ''secret'', snd (smWorld m))\<rparr>)) (\<lambda>_.
       if Text el = ''secret'' then ret (leaf ''success'') else throw (ErrSASL ''not-authorized''))),
     auAuthenticated = (\<lambda>m. fst (smWorld m)), auUsername = (\<lambda>m. ''ortuman''), auReset = (\<lambda>m. m\<lparr>smWorld := (False, snd (smWorld m))\<rparr>)\<rparr>"

definition guard_sm :: "(in_c2s \<times> bool \<times> string list) sm_ops" where
  "guard_sm = \<lparr>smLib = std_lib, smInstanceID = ''i1'', cfgRequestAckInterval = 1, cfgWaitForAckTimeout = 1, cfgMaxQueueSize = 9,
     stIsBinded = (\<lambda>n (s, w). isBinded (isFlags s)), stIsAuthenticated = (\<lambda>n (s, w). isAuthenticated (isFlags s)),
     stInfo = (\<lambda>n (s, w). isInf s), stJID = (\<lambda>n (s, w). isJid s), stSetInfoValue = (\<lambda>n k v. ret ()),
     stSendElement = (\<lambda>n p. ret ()), stDisconnectAsync = (\<lambda>n se. ret ()), stDisconnect = (\<lambda>n se. ret ()),
     stResume = (\<lambda>n j p i. modify (\<lambda>m. m\<lparr>smWorld := ((fst (smWorld m))\<lparr>isState := inBinded, isJid := Some j\<rparr>, snd (smWorld m))\<rparr>)),
     smGetResource = (\<lambda>u r. ret None), smTransferQueue = (\<lambda>i k. ret None), randIntn = (\<lambda>n. ret 0)\<rparr>"

definition guard_env :: "(bool \<times> string list) sm in_env" where
  "guard_env = \<lparr>lib = std_lib, envInstanceID = ''i1'', cfgCompression = False, cfgResConflict = Disallow,
     cfgUseTLS = True, trIsSocket = True, trSupportsChannelBinding = False, trStartTLS = ret (),
     trEnableCompression = ret (), trSetReadRateLimiter = (\<lambda>_. ret ()), trClose = ret (),
     sesSetFromJID = (\<lambda>_. ret ()), sesOpenStream = ret (), sesSend = (\<lambda>_. ret ()),
     sesClose = ret (), sesReset = ret (), authenticators = [guard_auth], shapers = [], newUUID = ret ''u1'',
     rtRoute = (\<lambda>el. andthen (modify (\<lambda>m. m\<lparr>smWorld := (fst (smWorld m), snd (smWorld m) @ [Name el])\<rparr>)) (\<lambda>_. ret [])),
     rtRegister = (\<lambda>_. ret ()), rtBind = (\<lambda>_. ret ()), rtUnregister = (\<lambda>_. ret ()),
     rtDisconnect = (\<lambda>_ _. ret ()), rmPutResource = (\<lambda>_. ret ()), rmGetResources = (\<lambda>_. ret []),
     rmDelResource = (\<lambda>_ _. ret ()), cmpIsComponentHost = (\<lambda>_ _. False), cmpProcessStanza = (\<lambda>_. ret ()),
     modIsModuleIQ = (\<lambda>_. False), modProcessIQ = (\<lambda>_. ret ()), modStreamFeatures = (\<lambda>_. ret []),
     envHooks = (\<lambda>name. if name = ''c2s.stream.element_received'' then [sm_handler guard_sm] else [])\<rparr>"

interpretation guard_sm: sm_guarded guard_sm 0 "silent (\<lambda>w. \<not> fst w)"
  by unfold_locales (simp_all add: guard_sm_def silent_def unaccepted_def keeps_ret split: prod.splits)

interpretation guard_client: unaccepted_client guard_env "\<lambda>m. \<not> fst (smWorld m)" "{el. Text el \<noteq> ''secret''}"
proof (unfold_locales, goal_cases)
  case (4 h name i)
  then have "h = sm_handler guard_sm" by (simp add: guard_env_def split: if_splits)
  then show ?case using sm_handler_quiet [OF guard_sm.sm_guarded_axioms] by simp
next
  case (5 el st halted el' st')
  then show ?case using sm_handler_run [of guard_env "''c2s.stream.element_received''" guard_sm el st halted "Some el'" st']
    by (simp add: guard_env_def)
qed (simp_all add: guard_env_def guard_auth_def keeps_ret, simp_all add: keeps_def go_run)

section \<open>Properties\<close>

text \<open>
  C1. A client that is not accepted is not heard. When no element of a client makes an authenticator
  report success, then whatever the client sends and whatever else happens to the stream (errors,
  timeouts, elements sent to it, disconnections), in any order and number, the stream ends neither
  authenticated nor bound, and the whole run is the same with any other router, modules and
  components: nothing the client sent reached one of them. Assumed (\<open>unaccepted_client\<close>): a
  property of the state behind the collaborators under which no authenticator reports success is kept
  by the client's attempts and by the session, the transport and the registration of streams; hook
  handlers keep it too, hand on elements of the same kind, and neither authenticate nor bind
  the stream. The example has the handler of stream management, which satisfies this because it
  resumes sessions of authenticated streams only.
\<close>

theorem unaccepted_client_is_silent:
  assumes "unaccepted_client E N A" and "N w" and "\<And>el. Received el \<in> set evs \<Longrightarrow> el \<in> A"
  shows "c2s_run (swap_routing r p c E) fuel evs (snd (start_stream (swap_routing r p c E) (newInC2S (swap_routing r p c E) i, w))) =
      c2s_run E fuel evs (snd (start_stream E (newInC2S E i, w))) \<and>
    (\<forall>s w'. c2s_run E fuel evs (snd (start_stream E (newInC2S E i, w))) = (s, w') \<longrightarrow>
      \<not> isAuthenticated (isFlags s) \<and> isState s \<noteq> inAuthenticated \<and> isState s \<noteq> inBinded)"
proof -
  have "newInC2S (swap_routing r p c E) = newInC2S E" by (intro HOL.ext) (simp add: newInC2S_def swap_routing_def)
  moreover have "start_stream (swap_routing r p c E) = start_stream E"
    by (intro HOL.ext, unfold start_stream_def swap, rule refl)
  moreover have "silent N (c2s_run E fuel evs (snd (start_stream E (newInC2S E i, w)))) \<and>
      c2s_run (swap_routing r p c E) fuel evs (snd (start_stream E (newInC2S E i, w))) =
      c2s_run E fuel evs (snd (start_stream E (newInC2S E i, w)))"
    by (rule unaccepted_client.quiet_run [OF assms(1) unaccepted_client.quiet_start [OF assms(1,2)] assms(3)])
  ultimately show ?thesis by (auto simp: silent_def unaccepted_def)
qed

text \<open>The client tries to resume a session, to log in with a wrong password, and to send a message.\<close>

definition guard_events :: "c2s_event list" where
  "guard_events =
     [demo_header,
      Received (Element ''resume'' [(''xmlns'', streamNamespace), (''previd'', encodeSMID std_lib \<lparr>Node = ''ortuman'', Domain = ''jackal.im'', Resource = ''yard''\<rparr> [1])] [] []),
      Received (Element ''auth'' [(''xmlns'', saslNamespace), (''mechanism'', ''PLAIN'')] ''guess'' []),
      Received (Element ''message'' [(''to'', ''noelia@jackal.im'')] [] [])]"

theorem unaccepted_client_is_silent_witness:
  "c2s_run (swap_routing (\<lambda>_. throw ErrPanic) (\<lambda>_. throw ErrPanic) (\<lambda>_. throw ErrPanic) guard_env) 2 guard_events
      (snd (start_stream (swap_routing (\<lambda>_. throw ErrPanic) (\<lambda>_. throw ErrPanic) (\<lambda>_. throw ErrPanic) guard_env)
        (newInC2S (swap_routing (\<lambda>_. throw ErrPanic) (\<lambda>_. throw ErrPanic) (\<lambda>_. throw ErrPanic) guard_env) 1, newSM (False, [])))) =
    c2s_run guard_env 2 guard_events (snd (start_stream guard_env (newInC2S guard_env 1, newSM (False, [])))) \<and>
   isState (fst (c2s_run guard_env 2 guard_events (snd (start_stream guard_env (newInC2S guard_env 1, newSM (False, [])))))) = inTerminated"
proof -
  have "el \<in> {el. Text el \<noteq> ''secret''}" if "Received el \<in> set guard_events" for el
    using that by (auto simp: guard_events_def demo_header_def)
  moreover have "isState (fst (c2s_run guard_env 2 guard_events (snd (start_stream guard_env (newInC2S guard_env 1, newSM (False, [])))))) = inTerminated"
    by code_simp
  ultimately show ?thesis
    using unaccepted_client_is_silent [OF guard_client.unaccepted_client_axioms, of "newSM (False, [])" guard_events
        "\<lambda>_. throw ErrPanic" "\<lambda>_. throw ErrPanic" "\<lambda>_. throw ErrPanic" 2 1]
    by (simp add: newSM_def)
qed

end
