(* ===== verification/Bolt.thy ===== *)
theory Bolt
  imports Prelude "HOL-Library.List_Lexorder" "HOL-Library.Char_ord" "HOL-Library.AList"
begin

text \<open>
  The operations of the embedded key-value back end (\<^verbatim>\<open>src/pkg/storage/boltdb/op.go\<close>, transactions of
  \<^verbatim>\<open>repository.go\<close>). The database is a third-party package: its transaction is the state \<open>'d\<close>, its
  functions the record \<open>bolt\<close>, and what its documentation promises the locale \<open>bolt_store\<close>. A bucket
  is a map whose cursor walks the keys in byte order. \<open>mem_bolt\<close> is a small implementation that
  shows that the promises can be kept.
\<close>

section \<open>The database package\<close>

record 'd bolt =
  bxBucket :: "string \<Rightarrow> 'd \<Rightarrow> bool"
  bxGet :: "string \<Rightarrow> string \<Rightarrow> 'd \<Rightarrow> string option"
  bxCursor :: "string \<Rightarrow> 'd \<Rightarrow> (string \<times> string) list"
  bxCreate :: "string \<Rightarrow> ('d, unit) go"
  bxPut :: "string \<Rightarrow> string \<Rightarrow> string \<Rightarrow> ('d, unit) go"
  bxDelete :: "string \<Rightarrow> string \<Rightarrow> ('d, unit) go"
  bxDeleteBucket :: "string \<Rightarrow> ('d, unit) go"
  bxNextSequence :: "string \<Rightarrow> ('d, nat) go"
  bxBegin :: "('d, unit) go"
  bxCommit :: "('d, unit) go"

record 'a bcodec =
  MarshalBinary :: "'a \<Rightarrow> go_error + string"
  UnmarshalBinary :: "string \<Rightarrow> go_error + 'a"

definition lift_sum :: "go_error + 'a \<Rightarrow> ('w, 'a) go" where
  "lift_sum r = (case r of Inl e \<Rightarrow> throw e | Inr x \<Rightarrow> ret x)"

lemma lift_sum_run [go_run]: "lift_sum r w = (r, w)"
  by (cases r) (simp_all add: lift_sum_def go_run)

definition ErrBucketNotFound :: go_error where
  "ErrBucketNotFound = ErrText ''bucket not found''"

section \<open>Operations\<close>

definition upsertKeyOp :: "'d bolt \<Rightarrow> 'a bcodec \<Rightarrow> string \<Rightarrow> string \<Rightarrow> 'a \<Rightarrow> ('d, unit) go" where
  "upsertKeyOp B C bucket key obj =
     andthen (bxCreate B bucket) (\<lambda>_.
     andthen (lift_sum (MarshalBinary C obj)) (\<lambda>p.
       bxPut B bucket key p))"

definition insertSeqOp :: "'d bolt \<Rightarrow> 'a bcodec \<Rightarrow> string \<Rightarrow> 'a \<Rightarrow> ('d, unit) go" where
  "insertSeqOp B C bucket obj =
     andthen (bxCreate B bucket) (\<lambda>_.
     andthen (lift_sum (MarshalBinary C obj)) (\<lambda>p.
     andthen (bxNextSequence B bucket) (\<lambda>seq.
       bxPut B bucket (itoa_nat seq) p)))"

definition delBucketOp :: "'d bolt \<Rightarrow> string \<Rightarrow> ('d, unit) go" where
  "delBucketOp B bucket = bxDeleteBucket B bucket"

definition delKeyOp :: "'d bolt \<Rightarrow> string \<Rightarrow> string \<Rightarrow> ('d, unit) go" where
  "delKeyOp B bucket key = (\<lambda>d. if \<not> bxBucket B bucket d then (Inr (), d) else bxDelete B bucket key d)"

definition bucketExistsOp :: "'d bolt \<Rightarrow> string \<Rightarrow> ('d, bool) go" where
  "bucketExistsOp B bucket = gets (bxBucket B bucket)"

definition fetchKeyOp :: "'d bolt \<Rightarrow> 'a bcodec \<Rightarrow> string \<Rightarrow> string \<Rightarrow> ('d, 'a option) go" where
  "fetchKeyOp B C bucket key = (\<lambda>d.
     if \<not> bxBucket B bucket d then (Inr None, d)
     else case bxGet B bucket key d of
            None \<Rightarrow> (Inr None, d)
          | Some data \<Rightarrow>
              (case UnmarshalBinary C data of Inl e \<Rightarrow> (Inl e, d) | Inr obj \<Rightarrow> (Inr (Some obj), d)))"

definition countKeysOp :: "'d bolt \<Rightarrow> string \<Rightarrow> ('d, nat) go" where
  "countKeysOp B bucket = (\<lambda>d. (Inr (if \<not> bxBucket B bucket d then 0 else length (bxCursor B bucket d)), d))"

text \<open>The callback of \<^verbatim>\<open>iterKeysOp\<close> extends what its closure has collected, or fails.\<close>

fun iter_keys :: "('b \<Rightarrow> string \<Rightarrow> string \<Rightarrow> go_error + 'b) \<Rightarrow> (string \<times> string) list \<Rightarrow> 'b \<Rightarrow> go_error + 'b" where
  "iter_keys f [] acc = Inr acc"
| "iter_keys f ((k, v) # kvs) acc = (case f acc k v of Inl e \<Rightarrow> Inl e | Inr acc' \<Rightarrow> iter_keys f kvs acc')"

definition iterKeysOp ::
  "'d bolt \<Rightarrow> string \<Rightarrow> ('b \<Rightarrow> string \<Rightarrow> string \<Rightarrow> go_error + 'b) \<Rightarrow> 'b \<Rightarrow> ('d, 'b) go" where
  "iterKeysOp B bucket iterFn acc = (\<lambda>d.
     (if \<not> bxBucket B bucket d then Inr acc else iter_keys iterFn (bxCursor B bucket d) acc, d))"

text \<open>Most callbacks decode the value and append it.\<close>

definition append_decoded :: "'a bcodec \<Rightarrow> 'a list \<Rightarrow> string \<Rightarrow> string \<Rightarrow> go_error + 'a list" where
  "append_decoded C acc k v = (case UnmarshalBinary C v of Inl e \<Rightarrow> Inl e | Inr x \<Rightarrow> Inr (acc @ [x]))"

section \<open>Transactions\<close>

text \<open>The database beside the rest of the server's state. \<^verbatim>\<open>db.Update\<close> and \<^verbatim>\<open>db.View\<close> run a function
  in a transaction of its own; \<^verbatim>\<open>InTransaction\<close> runs code that also reaches the rest.\<close>

record ('d, 'r) db_world =
  dbState :: 'd
  dbRest :: 'r

definition on_db :: "('d, 'a) go \<Rightarrow> (('d, 'r) db_world, 'a) go" where
  "on_db f = (\<lambda>w. case f (dbState w) of (r, d) \<Rightarrow> (r, w\<lparr>dbState := d\<rparr>))"

definition on_rest :: "('r, 'a) go \<Rightarrow> (('d, 'r) db_world, 'a) go" where
  "on_rest f = (\<lambda>w. case f (dbRest w) of (r, x) \<Rightarrow> (r, w\<lparr>dbRest := x\<rparr>))"

definition InTransaction :: "'d bolt \<Rightarrow> (('d, 'r) db_world, 'a) go \<Rightarrow> (('d, 'r) db_world, 'a) go" where
  "InTransaction B f = (\<lambda>w.
     case bxBegin B (dbState w) of
       (Inl e, _) \<Rightarrow> (Inl e, w)
     | (Inr _, d) \<Rightarrow>
         (case f (w\<lparr>dbState := d\<rparr>) of
            (Inl e, w') \<Rightarrow> (Inl e, w'\<lparr>dbState := dbState w\<rparr>)
          | (Inr x, w') \<Rightarrow>
              (case bxCommit B (dbState w') of
                 (Inl e, _) \<Rightarrow> (Inl e, w'\<lparr>dbState := dbState w\<rparr>)
               | (Inr _, d') \<Rightarrow> (Inr x, w'\<lparr>dbState := d'\<rparr>))))"

definition db_Update :: "'d bolt \<Rightarrow> ('d, 'a) go \<Rightarrow> (('d, 'r) db_world, 'a) go" where
  "db_Update B f = InTransaction B (on_db f)"

definition db_View :: "'d bolt \<Rightarrow> ('d, 'a) go \<Rightarrow> (('d, 'r) db_world, 'a) go" where
  "db_View B f = (\<lambda>w.
     case bxBegin B (dbState w) of
       (Inl e, _) \<Rightarrow> (Inl e, w)
     | (Inr _, d) \<Rightarrow> (fst (f d), w))"

section \<open>What the package promises\<close>

type_synonym buckets = "string \<rightharpoonup> (string \<rightharpoonup> string)"

locale bolt_store =
  fixes B :: "'d bolt"
    and view :: "'d \<Rightarrow> buckets"
    and seqno :: "'d \<Rightarrow> string \<Rightarrow> nat"
  assumes bucket: "bxBucket B b d \<longleftrightarrow> view d b \<noteq> None"
    and get: "view d b = Some m \<Longrightarrow> bxGet B b k d = m k"
    and cursor: "view d b = Some m \<Longrightarrow> map_of (bxCursor B b d) = m"
    and cursor_sorted: "view d b = Some m \<Longrightarrow> sorted_wrt (<) (map fst (bxCursor B b d))"
    and create: "bxCreate B b d = (Inr u, d') \<Longrightarrow>
      view d' = (view d)(b \<mapsto> (case view d b of None \<Rightarrow> Map.empty | Some m \<Rightarrow> m)) \<and>
      seqno d' = (if view d b = None then (seqno d)(b := 0) else seqno d)"
    and put: "view d b = Some m \<Longrightarrow> bxPut B b k v d = (Inr u, d') \<Longrightarrow>
      view d' = (view d)(b \<mapsto> m(k \<mapsto> v)) \<and> seqno d' = seqno d"
    and delete: "view d b = Some m \<Longrightarrow> bxDelete B b k d = (Inr u, d') \<Longrightarrow>
      view d' = (view d)(b \<mapsto> m(k := None)) \<and> seqno d' = seqno d"
    and delete_bucket: "view d b = Some m \<Longrightarrow> bxDeleteBucket B b d = (Inr u, d') \<Longrightarrow>
      view d' = (view d)(b := None) \<and> (\<forall>b'. b' \<noteq> b \<longrightarrow> seqno d' b' = seqno d b')"
    and delete_missing: "view d b = None \<Longrightarrow> bxDeleteBucket B b d = (Inl ErrBucketNotFound, d)"
    and next_seq: "view d b = Some m \<Longrightarrow> bxNextSequence B b d = (Inr n, d') \<Longrightarrow>
      n = Suc (seqno d b) \<and> view d' = view d \<and> seqno d' = (seqno d)(b := n)"
    and begin_tx: "bxBegin B d = (Inr u, d') \<Longrightarrow> view d' = view d \<and> seqno d' = seqno d"
    and commit: "bxCommit B d = (Inr u, d') \<Longrightarrow> view d' = view d \<and> seqno d' = seqno d"

section \<open>Lemmas\<close>

definition bucket_of :: "buckets \<Rightarrow> string \<Rightarrow> (string \<rightharpoonup> string)" where
  "bucket_of bs b = (case bs b of None \<Rightarrow> Map.empty | Some m \<Rightarrow> m)"

text \<open>The typed contents of a bucket.\<close>

definition stored :: "'a bcodec \<Rightarrow> buckets \<Rightarrow> string \<Rightarrow> string \<rightharpoonup> 'a" where
  "stored C bs b k =
     (case bucket_of bs b k of
        None \<Rightarrow> None
      | Some p \<Rightarrow> (case UnmarshalBinary C p of Inl _ \<Rightarrow> None | Inr x \<Rightarrow> Some x))"

definition codec_ok :: "'a bcodec \<Rightarrow> bool" where
  "codec_ok C \<longleftrightarrow> (\<forall>x p. MarshalBinary C x = Inr p \<longrightarrow> UnmarshalBinary C p = Inr x)"

lemma stored_put:
  assumes "codec_ok C" and "MarshalBinary C x = Inr p"
  shows "stored C (bs(b \<mapsto> (bucket_of bs b)(k \<mapsto> p))) b' k' = (if b' = b \<and> k' = k then Some x else stored C bs b' k')"
  using assms by (auto simp: stored_def bucket_of_def codec_ok_def split: option.splits)

lemma stored_delete:
  "stored C (bs(b \<mapsto> (bucket_of bs b)(k := None))) b' k' = (if b' = b \<and> k' = k then None else stored C bs b' k')"
  by (auto simp: stored_def bucket_of_def split: option.splits)

lemma stored_delete_bucket: "stored C (bs(b := None)) b' k' = (if b' = b then None else stored C bs b' k')"
  by (simp add: stored_def bucket_of_def)

lemma stored_other: "b' \<noteq> b \<Longrightarrow> stored C (bs(b := x)) b' = stored C bs b'"
  by (simp add: stored_def bucket_of_def fun_eq_iff)

lemma iter_append_decoded:
  "iter_keys (append_decoded C) kvs acc = Inr xs \<Longrightarrow>
     \<exists>ys. xs = acc @ ys \<and> list_all2 (\<lambda>(k, v) y. UnmarshalBinary C v = Inr y) kvs ys"
proof (induction kvs arbitrary: acc)
  case (Cons kv kvs)
  obtain k v where kv: "kv = (k, v)" by fastforce
  with Cons.prems obtain y where y: "UnmarshalBinary C v = Inr y"
      "iter_keys (append_decoded C) kvs (acc @ [y]) = Inr xs"
    by (cases "UnmarshalBinary C v") (auto simp: append_decoded_def [of C acc])
  from Cons.IH [OF this(2)] obtain ys where "xs = (acc @ [y]) @ ys"
      "list_all2 (\<lambda>(k, v) y. UnmarshalBinary C v = Inr y) kvs ys" by blast
  with y kv show ?case by (intro exI [of _ "y # ys"]) simp
qed simp

context bolt_store
begin

lemma upsert_view:
  assumes "upsertKeyOp B C b k x d = (Inr u, d')"
  shows "\<exists>p. MarshalBinary C x = Inr p \<and> view d' = (view d)(b \<mapsto> (bucket_of (view d) b)(k \<mapsto> p))"
proof -
  from assms obtain d1 p where c: "bxCreate B b d = (Inr (), d1)" and p: "MarshalBinary C x = Inr p"
      and put1: "bxPut B b k p d1 = (Inr (), d')"
    by (auto simp: upsertKeyOp_def go_run split: prod.splits sum.splits)
  from create [OF c] have v: "view d1 = (view d)(b \<mapsto> bucket_of (view d) b)" by (simp add: bucket_of_def)
  with put [OF _ put1] have "view d' = (view d)(b \<mapsto> (bucket_of (view d) b)(k \<mapsto> p))" by simp
  with p show ?thesis by blast
qed

lemma upsert_stored:
  assumes "upsertKeyOp B C b k x d = (Inr u, d')" and "codec_ok C"
  shows "stored C (view d') b' k' = (if b' = b \<and> k' = k then Some x else stored C (view d) b' k')"
  using upsert_view [OF assms(1)] stored_put [OF assms(2)] by auto

lemma upsert_other: "upsertKeyOp B C b k x d = (Inr u, d') \<Longrightarrow> b' \<noteq> b \<Longrightarrow> stored C' (view d') b' = stored C' (view d) b'"
  using upsert_view by (fastforce simp: stored_other)

lemma fetch_stored:
  "fetchKeyOp B C b k d = (Inr r, d') \<Longrightarrow> d' = d \<and> r = stored C (view d) b k"
  by (auto simp: fetchKeyOp_def bucket get stored_def bucket_of_def split: if_splits option.splits sum.splits)

lemma delKey_view:
  "delKeyOp B b k d = (Inr u, d') \<Longrightarrow>
     view d' = (if view d b = None then view d else (view d)(b \<mapsto> (bucket_of (view d) b)(k := None)))"
  using delete by (auto simp: delKeyOp_def bucket bucket_of_def split: if_splits option.splits)

lemma delKey_stored:
  "delKeyOp B b k d = (Inr u, d') \<Longrightarrow>
     stored C (view d') b' k' = (if b' = b \<and> k' = k then None else stored C (view d) b' k')"
  using delKey_view [of b k d u d'] stored_delete [of C "view d" b k b' k']
  by (cases "view d b = None") (simp_all add: stored_def [of C "view d"] bucket_of_def [of "view d"])

lemma delBucket_view:
  assumes "delBucketOp B b d = (Inr u, d')"
  shows "view d b \<noteq> None \<and> view d' = (view d)(b := None)"
proof (cases "view d b")
  case None
  with assms delete_missing show ?thesis by (simp add: delBucketOp_def)
next
  case (Some m)
  from assms have "bxDeleteBucket B b d = (Inr u, d')" by (simp add: delBucketOp_def)
  from delete_bucket [OF Some this] Some show ?thesis by simp
qed

lemma delBucket_stored:
  "delBucketOp B b d = (Inr u, d') \<Longrightarrow> stored C (view d') b' k' = (if b' = b then None else stored C (view d) b' k')"
  using delBucket_view by (simp add: stored_delete_bucket)

text \<open>A bucket is read in the order of its keys.\<close>

lemma iter_stored:
  assumes "iterKeysOp B b (append_decoded C) [] d = (Inr xs, d')"
  shows "d' = d \<and> (\<exists>ks. sorted_wrt (<) ks \<and> set ks = dom (bucket_of (view d) b) \<and>
    list_all2 (\<lambda>k x. stored C (view d) b k = Some x) ks xs)"
proof (cases "view d b")
  case None
  with assms show ?thesis by (auto simp: iterKeysOp_def bucket bucket_of_def intro: exI [of _ "[]"])
next
  case (Some m)
  let ?kvs = "bxCursor B b d"
  from assms Some have d: "d' = d" and "iter_keys (append_decoded C) ?kvs [] = Inr xs"
    by (auto simp: iterKeysOp_def bucket)
  with iter_append_decoded [of C ?kvs "[]" xs]
  have dec: "list_all2 (\<lambda>(k, v) y. UnmarshalBinary C v = Inr y) ?kvs xs" by auto
  have sorted: "sorted_wrt (<) (map fst ?kvs)" using cursor_sorted [OF Some] .
  then have "distinct (map fst ?kvs)" using strict_sorted_iff by blast
  then have "m k = Some v" if "(k, v) \<in> set ?kvs" for k v
    using cursor [OF Some] that map_of_is_SomeI by metis
  then have "list_all2 (\<lambda>kv x. stored C (view d) b (fst kv) = Some x) ?kvs xs"
    using dec Some by (auto simp: list_all2_conv_all_nth stored_def bucket_of_def split_beta)
      (metis fst_conv nth_mem option.simps(5) snd_conv sum.simps(6) surj_pair)
  then have "list_all2 (\<lambda>k x. stored C (view d) b k = Some x) (map fst ?kvs) xs"
    by (simp add: list_all2_map1)
  moreover have "set (map fst ?kvs) = dom (bucket_of (view d) b)"
    using cursor [OF Some] Some by (simp add: bucket_of_def dom_map_of_conv_image_fst flip: cursor [OF Some])
  ultimately show ?thesis using d sorted by blast
qed

end

text \<open>A transaction that commits.\<close>

context bolt_store
begin

lemma InTransactionD:
  assumes "InTransaction B f w = (Inr x, w')"
  shows "\<exists>w0 w1. view (dbState w0) = view (dbState w) \<and> f w0 = (Inr x, w1) \<and> view (dbState w') = view (dbState w1)"
proof -
  from assms obtain d w1 d' where d: "bxBegin B (dbState w) = (Inr (), d)" "f (w\<lparr>dbState := d\<rparr>) = (Inr x, w1)"
      "bxCommit B (dbState w1) = (Inr (), d')" "w' = w1\<lparr>dbState := d'\<rparr>"
    by (auto simp: InTransaction_def split: prod.splits sum.splits)
  with begin_tx [OF d(1)] commit [OF d(3)] show ?thesis by (intro exI [of _ "w\<lparr>dbState := d\<rparr>"] exI [of _ w1]) simp
qed

lemma Update_cases:
  assumes "db_Update B f w = (r, w')"
  obtains e where "r = Inl e" "dbState w' = dbState w"
  | x d d' where "r = Inr x" "view d = view (dbState w)" "seqno d = seqno (dbState w)" "f d = (Inr x, d')"
      "view (dbState w') = view d'" "seqno (dbState w') = seqno d'"
proof -
  show thesis
  proof (cases r)
    case (Inl e)
    with assms that(1) show ?thesis
      by (auto simp: db_Update_def InTransaction_def on_db_def split: prod.splits sum.splits)
  next
    case (Inr x)
    with assms obtain d d' where d: "bxBegin B (dbState w) = (Inr (), d)" "f d = (Inr x, d')"
        "bxCommit B d' = (Inr (), dbState w')"
      by (auto simp: db_Update_def InTransaction_def on_db_def split: prod.splits sum.splits)
    with Inr that(2) begin_tx [OF d(1)] commit [OF d(3)] show ?thesis by metis
  qed
qed

lemma View_cases:
  assumes "db_View B f w = (r, w')"
  obtains "w' = w" "\<exists>e. r = Inl e"
  | d where "w' = w" "view d = view (dbState w)" "seqno d = seqno (dbState w)" "fst (f d) = r"
proof (cases "fst (bxBegin B (dbState w))")
  case (Inl e)
  with assms that(1) show ?thesis by (auto simp: db_View_def split: prod.splits)
next
  case (Inr x)
  then obtain d where d: "bxBegin B (dbState w) = (Inr (), d)" by (cases "bxBegin B (dbState w)") auto
  with assms have "w' = w" "fst (f d) = r" by (simp_all add: db_View_def)
  with that(2) begin_tx [OF d] show ?thesis by blast
qed

end

lemma on_rest_keeps: "keeps (\<lambda>w. P (dbState w)) (on_rest f)"
  by (simp add: keeps_def on_rest_def split: prod.splits)

lemma on_rest_parts: "dbState (snd (on_rest f w)) = dbState w" "fst (on_rest f w) = fst (f (dbRest w))"
    "dbRest (snd (on_rest f w)) = snd (f (dbRest w))"
  by (simp_all add: on_rest_def split: prod.split)

section \<open>A database in memory\<close>

type_synonym mem_db = "string \<rightharpoonup> (nat \<times> (string \<times> string) list)"

definition mem_bolt :: "mem_db bolt" where
  "mem_bolt = \<lparr>
     bxBucket = (\<lambda>b d. d b \<noteq> None),
     bxGet = (\<lambda>b k d. case d b of None \<Rightarrow> None | Some (n, kvs) \<Rightarrow> map_of kvs k),
     bxCursor = (\<lambda>b d. case d b of None \<Rightarrow> [] | Some (n, kvs) \<Rightarrow> sort_key fst (AList.clearjunk kvs)),
     bxCreate = (\<lambda>b d. (Inr (), case d b of None \<Rightarrow> d(b \<mapsto> (0, [])) | Some x \<Rightarrow> d)),
     bxPut = (\<lambda>b k v d. case d b of None \<Rightarrow> (Inl ErrPanic, d)
                 | Some (n, kvs) \<Rightarrow> (Inr (), d(b \<mapsto> (n, (k, v) # kvs)))),
     bxDelete = (\<lambda>b k d. case d b of None \<Rightarrow> (Inl ErrPanic, d)
                 | Some (n, kvs) \<Rightarrow> (Inr (), d(b \<mapsto> (n, AList.delete k kvs)))),
     bxDeleteBucket = (\<lambda>b d. if d b = None then (Inl ErrBucketNotFound, d) else (Inr (), d(b := None))),
     bxNextSequence = (\<lambda>b d. case d b of None \<Rightarrow> (Inl ErrPanic, d)
                 | Some (n, kvs) \<Rightarrow> (Inr (Suc n), d(b \<mapsto> (Suc n, kvs)))),
     bxBegin = ret (),
     bxCommit = ret ()\<rparr>"

definition mem_view :: "mem_db \<Rightarrow> buckets" where
  "mem_view d b = map_option (\<lambda>(n, kvs). map_of kvs) (d b)"

definition mem_seq :: "mem_db \<Rightarrow> string \<Rightarrow> nat" where
  "mem_seq d b = (case d b of None \<Rightarrow> 0 | Some (n, kvs) \<Rightarrow> n)"

lemma distinct_sort_clearjunk: "distinct (map fst (sort_key fst (AList.clearjunk kvs)))"
proof -
  have "mset (map fst (sort_key fst (AList.clearjunk kvs))) = mset (map fst (AList.clearjunk kvs))"
    by (simp only: mset_map mset_sort)
  then show ?thesis using mset_eq_imp_distinct_iff distinct_clearjunk by blast
qed

lemma map_of_sort_clearjunk: "map_of (sort_key fst (AList.clearjunk kvs)) = map_of kvs"
proof -
  have "map_of (sort_key fst (AList.clearjunk kvs)) = map_of (AList.clearjunk kvs)"
    by (subst map_of_inject_set [OF distinct_sort_clearjunk distinct_clearjunk]) simp
  then show ?thesis by (simp only: map_of_clearjunk)
qed

lemma mem_view_upd:
  "mem_view (d(b \<mapsto> (n, kvs))) = (mem_view d)(b \<mapsto> map_of kvs)" "mem_view (d(b := None)) = (mem_view d)(b := None)"
  "mem_seq (d(b \<mapsto> (n, kvs))) = (mem_seq d)(b := n)" "mem_seq (d(b := None)) = (mem_seq d)(b := 0)"
  by (simp_all add: mem_view_def mem_seq_def fun_eq_iff)

lemma mem_view_Some: "mem_view d b = Some m \<longleftrightarrow> (\<exists>n kvs. d b = Some (n, kvs) \<and> m = map_of kvs)"
  by (auto simp: mem_view_def)

lemma mem_view_None: "mem_view d b = None \<longleftrightarrow> d b = None"
  by (simp add: mem_view_def)

interpretation mem: bolt_store mem_bolt mem_view mem_seq
proof (unfold_locales, goal_cases)
  case (4 d b m)
  then obtain n kvs where d: "d b = Some (n, kvs)" by (auto simp: mem_view_Some)
  with distinct_sort_clearjunk show ?case by (simp add: mem_bolt_def strict_sorted_iff)
qed (auto simp: mem_bolt_def mem_view_Some mem_view_None mem_view_upd map_of_sort_clearjunk delete_conv' mem_seq_def go_run
      fun_upd_idem restrict_complement_singleton_eq
    split: option.splits prod.splits if_splits)

text \<open>A codec for the entities of a table: the position of the entity.\<close>

definition table_codec :: "'a list \<Rightarrow> 'a bcodec" where
  "table_codec xs = \<lparr>
     MarshalBinary = (\<lambda>x. case find_first (\<lambda>p. snd p = x) (zip [0..<length xs] xs) of
        None \<Rightarrow> Inl (ErrText ''not in the table'') | Some p \<Rightarrow> Inr (itoa_nat (fst p))),
     UnmarshalBinary = (\<lambda>s. case parse_nat s of
        Some n \<Rightarrow> if n < length xs then Inr (xs ! n) else Inl (ErrText ''no such entry'')
      | None \<Rightarrow> Inl (ErrText ''not a number''))\<rparr>"

lemma table_codec_ok: "codec_ok (table_codec xs)"
  unfolding codec_ok_def
proof (intro allI impI)
  fix x p assume "MarshalBinary (table_codec xs) x = Inr p"
  then obtain n where n: "find_first (\<lambda>p. snd p = x) (zip [0..<length xs] xs) = Some (n, x)" and p: "p = itoa_nat n"
    by (auto simp: table_codec_def dest: find_first_SomeD split: option.splits)
  from find_first_SomeD [OF n] have "n < length xs" "xs ! n = x" by (auto simp: in_set_zip)
  with p show "UnmarshalBinary (table_codec xs) p = Inr x" by (simp add: table_codec_def)
qed

end
