(* ===== verification/Roster_Store.thy ===== *)
theory Roster_Store
  imports Bolt Xmpp
begin

text \<open>
  Storage of rosters: the entities (\<^verbatim>\<open>src/pkg/model/roster\<close>), the repository interface
  (\<^verbatim>\<open>src/pkg/storage/repository/roster.go\<close>) as a record of operations, its contract as the locale
  \<open>roster_store\<close>, and the embedded back end (\<^verbatim>\<open>src/pkg/storage/boltdb/roster.go\<close>), which satisfies the
  contract on every database that keeps the promises of \<open>bolt_store\<close>.
\<close>

section \<open>Entities\<close>

definition subNone :: string where "subNone = ''none''"
definition subFrom :: string where "subFrom = ''from''"
definition subTo :: string where "subTo = ''to''"
definition subBoth :: string where "subBoth = ''both''"
definition subRemove :: string where "subRemove = ''remove''"

lemmas sub_defs = subNone_def subFrom_def subTo_def subBoth_def subRemove_def

record roster_item =
  riUsername :: string
  riJid :: string
  riName :: string
  riSubscription :: string
  riAsk :: bool
  riGroups :: "string list"

record roster_notification =
  rnContact :: string
  rnJid :: string
  rnPresence :: element

section \<open>The repository interface\<close>

record 'w roster_rep =
  TouchRosterVersion :: "string \<Rightarrow> ('w, int) go"
  FetchRosterVersion :: "string \<Rightarrow> ('w, int) go"
  UpsertRosterItem :: "roster_item \<Rightarrow> ('w, unit) go"
  DeleteRosterItem :: "string \<Rightarrow> string \<Rightarrow> ('w, unit) go"
  DeleteRosterItems :: "string \<Rightarrow> ('w, unit) go"
  FetchRosterItems :: "string \<Rightarrow> ('w, roster_item list) go"
  FetchRosterItemsInGroups :: "string \<Rightarrow> string list \<Rightarrow> ('w, roster_item list) go"
  FetchRosterItem :: "string \<Rightarrow> string \<Rightarrow> ('w, roster_item option) go"
  UpsertRosterNotification :: "roster_notification \<Rightarrow> ('w, unit) go"
  DeleteRosterNotification :: "string \<Rightarrow> string \<Rightarrow> ('w, unit) go"
  DeleteRosterNotifications :: "string \<Rightarrow> ('w, unit) go"
  FetchRosterNotification :: "string \<Rightarrow> string \<Rightarrow> ('w, roster_notification option) go"
  FetchRosterNotifications :: "string \<Rightarrow> ('w, roster_notification list) go"
  FetchRosterGroups :: "string \<Rightarrow> ('w, string list) go"

section \<open>The embedded back end\<close>

definition versionKey :: string where "versionKey = ''ver''"

definition rosterVersionBucketKey :: "string \<Rightarrow> string" where
  "rosterVersionBucketKey username = ''roster:ver:'' @ username"

definition rosterItemsBucketKey :: "string \<Rightarrow> string" where
  "rosterItemsBucketKey username = ''roster:items:'' @ username"

definition rosterNotificationsBucketKey :: "string \<Rightarrow> string" where
  "rosterNotificationsBucketKey username = ''roster:notif:'' @ username"

text \<open>Protocol buffers of the three entities; a version is a signed 32-bit number.\<close>

record roster_codecs =
  itemCodec :: "roster_item bcodec"
  notifCodec :: "roster_notification bcodec"
  verCodec :: "32 word bcodec"

definition bTouchRosterVersion :: "'d bolt \<Rightarrow> roster_codecs \<Rightarrow> string \<Rightarrow> ('d, int) go" where
  "bTouchRosterVersion B C username =
     andthen (fetchKeyOp B (verCodec C) (rosterVersionBucketKey username) versionKey) (\<lambda>obj.
       let ver = (case obj of Some v \<Rightarrow> v + 1 | None \<Rightarrow> 1)
       in andthen (upsertKeyOp B (verCodec C) (rosterVersionBucketKey username) versionKey ver) (\<lambda>_.
            ret (sint ver)))"

definition bFetchRosterVersion :: "'d bolt \<Rightarrow> roster_codecs \<Rightarrow> string \<Rightarrow> ('d, int) go" where
  "bFetchRosterVersion B C username =
     andthen (fetchKeyOp B (verCodec C) (rosterVersionBucketKey username) versionKey) (\<lambda>obj.
       ret (case obj of Some v \<Rightarrow> sint v | None \<Rightarrow> 0))"

definition bUpsertRosterItem :: "'d bolt \<Rightarrow> roster_codecs \<Rightarrow> roster_item \<Rightarrow> ('d, unit) go" where
  "bUpsertRosterItem B C ri = upsertKeyOp B (itemCodec C) (rosterItemsBucketKey (riUsername ri)) (riJid ri) ri"

definition bDeleteRosterItem :: "'d bolt \<Rightarrow> string \<Rightarrow> string \<Rightarrow> ('d, unit) go" where
  "bDeleteRosterItem B username jd = delKeyOp B (rosterItemsBucketKey username) jd"

definition bDeleteRosterItems :: "'d bolt \<Rightarrow> string \<Rightarrow> ('d, unit) go" where
  "bDeleteRosterItems B username = delBucketOp B (rosterItemsBucketKey username)"

definition bFetchRosterItems :: "'d bolt \<Rightarrow> roster_codecs \<Rightarrow> string \<Rightarrow> ('d, roster_item list) go" where
  "bFetchRosterItems B C username =
     iterKeysOp B (rosterItemsBucketKey username) (append_decoded (itemCodec C)) []"

definition bFetchRosterItemsInGroups ::
  "'d bolt \<Rightarrow> roster_codecs \<Rightarrow> string \<Rightarrow> string list \<Rightarrow> ('d, roster_item list) go" where
  "bFetchRosterItemsInGroups B C username groups =
     iterKeysOp B (rosterItemsBucketKey username)
       (\<lambda>acc k v. case UnmarshalBinary (itemCodec C) v of
           Inl e \<Rightarrow> Inl e
         | Inr itm \<Rightarrow> Inr (if \<exists>gr \<in> set (riGroups itm). gr \<in> set groups then acc @ [itm] else acc)) []"

definition bFetchRosterItem ::
  "'d bolt \<Rightarrow> roster_codecs \<Rightarrow> string \<Rightarrow> string \<Rightarrow> ('d, roster_item option) go" where
  "bFetchRosterItem B C username jd = fetchKeyOp B (itemCodec C) (rosterItemsBucketKey username) jd"

text \<open>The groups of all items, without duplicates and sorted; the order in which the Go map yields
  them does not matter then.\<close>

definition bFetchRosterGroups :: "'d bolt \<Rightarrow> roster_codecs \<Rightarrow> string \<Rightarrow> ('d, string list) go" where
  "bFetchRosterGroups B C username =
     andthen (iterKeysOp B (rosterItemsBucketKey username)
       (\<lambda>acc k v. case UnmarshalBinary (itemCodec C) v of
           Inl e \<Rightarrow> Inl e
         | Inr itm \<Rightarrow> Inr (fold List.insert (riGroups itm) acc)) [])
       (\<lambda>grs. ret (sort_slice (<) grs))"

definition bUpsertRosterNotification :: "'d bolt \<Rightarrow> roster_codecs \<Rightarrow> roster_notification \<Rightarrow> ('d, unit) go" where
  "bUpsertRosterNotification B C rn =
     upsertKeyOp B (notifCodec C) (rosterNotificationsBucketKey (rnContact rn)) (rnJid rn) rn"

definition bDeleteRosterNotification :: "'d bolt \<Rightarrow> string \<Rightarrow> string \<Rightarrow> ('d, unit) go" where
  "bDeleteRosterNotification B contact jd = delKeyOp B (rosterNotificationsBucketKey contact) jd"

definition bDeleteRosterNotifications :: "'d bolt \<Rightarrow> string \<Rightarrow> ('d, unit) go" where
  "bDeleteRosterNotifications B contact = delBucketOp B (rosterNotificationsBucketKey contact)"

definition bFetchRosterNotification ::
  "'d bolt \<Rightarrow> roster_codecs \<Rightarrow> string \<Rightarrow> string \<Rightarrow> ('d, roster_notification option) go" where
  "bFetchRosterNotification B C contact jd = fetchKeyOp B (notifCodec C) (rosterNotificationsBucketKey contact) jd"

definition bFetchRosterNotifications ::
  "'d bolt \<Rightarrow> roster_codecs \<Rightarrow> string \<Rightarrow> ('d, roster_notification list) go" where
  "bFetchRosterNotifications B C contact =
     iterKeysOp B (rosterNotificationsBucketKey contact) (append_decoded (notifCodec C)) []"

text \<open>The operations inside a transaction, and the repository's own, each in a transaction of its own.\<close>

definition newRosterRep :: "'d bolt \<Rightarrow> roster_codecs \<Rightarrow> ('d, 'r) db_world roster_rep" where
  "newRosterRep B C = \<lparr>
     TouchRosterVersion = (\<lambda>u. on_db (bTouchRosterVersion B C u)),
     FetchRosterVersion = (\<lambda>u. on_db (bFetchRosterVersion B C u)),
     UpsertRosterItem = (\<lambda>ri. on_db (bUpsertRosterItem B C ri)),
     DeleteRosterItem = (\<lambda>u j. on_db (bDeleteRosterItem B u j)),
     DeleteRosterItems = (\<lambda>u. on_db (bDeleteRosterItems B u)),
     FetchRosterItems = (\<lambda>u. on_db (bFetchRosterItems B C u)),
     FetchRosterItemsInGroups = (\<lambda>u gs. on_db (bFetchRosterItemsInGroups B C u gs)),
     FetchRosterItem = (\<lambda>u j. on_db (bFetchRosterItem B C u j)),
     UpsertRosterNotification = (\<lambda>rn. on_db (bUpsertRosterNotification B C rn)),
     DeleteRosterNotification = (\<lambda>c j. on_db (bDeleteRosterNotification B c j)),
     DeleteRosterNotifications = (\<lambda>c. on_db (bDeleteRosterNotifications B c)),
     FetchRosterNotification = (\<lambda>c j. on_db (bFetchRosterNotification B C c j)),
     FetchRosterNotifications = (\<lambda>c. on_db (bFetchRosterNotifications B C c)),
     FetchRosterGroups = (\<lambda>u. on_db (bFetchRosterGroups B C u))\<rparr>"

definition boltRosterRep :: "'d bolt \<Rightarrow> roster_codecs \<Rightarrow> ('d, 'r) db_world roster_rep" where
  "boltRosterRep B C = \<lparr>
     TouchRosterVersion = (\<lambda>u. db_Update B (bTouchRosterVersion B C u)),
     FetchRosterVersion = (\<lambda>u. db_View B (bFetchRosterVersion B C u)),
     UpsertRosterItem = (\<lambda>ri. db_Update B (bUpsertRosterItem B C ri)),
     DeleteRosterItem = (\<lambda>u j. db_Update B (bDeleteRosterItem B u j)),
     DeleteRosterItems = (\<lambda>u. db_Update B (bDeleteRosterItems B u)),
     FetchRosterItems = (\<lambda>u. db_View B (bFetchRosterItems B C u)),
     FetchRosterItemsInGroups = (\<lambda>u gs. db_View B (bFetchRosterItemsInGroups B C u gs)),
     FetchRosterItem = (\<lambda>u j. db_View B (bFetchRosterItem B C u j)),
     UpsertRosterNotification = (\<lambda>rn. db_Update B (bUpsertRosterNotification B C rn)),
     DeleteRosterNotification = (\<lambda>c j. db_Update B (bDeleteRosterNotification B c j)),
     DeleteRosterNotifications = (\<lambda>c. db_Update B (bDeleteRosterNotifications B c)),
     FetchRosterNotification = (\<lambda>c j. db_View B (bFetchRosterNotification B C c j)),
     FetchRosterNotifications = (\<lambda>c. db_View B (bFetchRosterNotifications B C c)),
     FetchRosterGroups = (\<lambda>u. db_View B (bFetchRosterGroups B C u))\<rparr>"

section \<open>The contract of a roster repository\<close>

text \<open>\<open>items w u\<close> and \<open>notifs w u\<close> are the roster and the pending requests of user \<open>u\<close>. Reads never
  change them, and return what they hold unless they fail; writes that succeed change exactly
  their entry. Nothing is promised of a write that fails.\<close>

locale roster_store =
  fixes R :: "'w roster_rep"
    and items :: "'w \<Rightarrow> string \<Rightarrow> string \<rightharpoonup> roster_item"
    and notifs :: "'w \<Rightarrow> string \<Rightarrow> string \<rightharpoonup> roster_notification"
  assumes fetch_item: "FetchRosterItem R u j w = (Inr r, w') \<Longrightarrow> r = items w u j"
    and fetch_items: "FetchRosterItems R u w = (Inr rs, w') \<Longrightarrow> set rs = ran (items w u)"
    and fetch_notif: "FetchRosterNotification R u j w = (Inr n, w') \<Longrightarrow> n = notifs w u j"
    and fetch_notifs: "FetchRosterNotifications R u w = (Inr ns, w') \<Longrightarrow> set ns = ran (notifs w u)"
    and reads_keep: "keeps (\<lambda>w. (items w, notifs w) = x) (FetchRosterItem R u j)"
      "keeps (\<lambda>w. (items w, notifs w) = x) (FetchRosterItems R u)"
      "keeps (\<lambda>w. (items w, notifs w) = x) (FetchRosterNotification R u j)"
      "keeps (\<lambda>w. (items w, notifs w) = x) (FetchRosterNotifications R u)"
      "keeps (\<lambda>w. (items w, notifs w) = x) (FetchRosterVersion R u)"
    and touch: "TouchRosterVersion R u w = (Inr v, w') \<Longrightarrow> items w' = items w \<and> notifs w' = notifs w"
    and upsert_item: "UpsertRosterItem R ri w = (Inr y, w') \<Longrightarrow> notifs w' = notifs w \<and>
      items w' = (items w)(riUsername ri := (items w (riUsername ri))(riJid ri \<mapsto> ri))"
    and delete_item: "DeleteRosterItem R u j w = (Inr y, w') \<Longrightarrow> notifs w' = notifs w \<and>
      items w' = (items w)(u := (items w u)(j := None))"
    and delete_items: "DeleteRosterItems R u w = (Inr y, w') \<Longrightarrow> notifs w' = notifs w \<and>
      items w' = (items w)(u := Map.empty)"
    and upsert_notif: "UpsertRosterNotification R rn w = (Inr y, w') \<Longrightarrow> items w' = items w \<and>
      notifs w' = (notifs w)(rnContact rn := (notifs w (rnContact rn))(rnJid rn \<mapsto> rn))"
    and delete_notif: "DeleteRosterNotification R u j w = (Inr y, w') \<Longrightarrow> items w' = items w \<and>
      notifs w' = (notifs w)(u := (notifs w u)(j := None))"
    and delete_notifs: "DeleteRosterNotifications R u w = (Inr y, w') \<Longrightarrow> items w' = items w \<and>
      notifs w' = (notifs w)(u := Map.empty)"

section \<open>The embedded back end satisfies the contract\<close>

definition bolt_items :: "roster_codecs \<Rightarrow> ('d \<Rightarrow> buckets) \<Rightarrow> 'd \<Rightarrow> string \<Rightarrow> string \<rightharpoonup> roster_item" where
  "bolt_items C view d u j = stored (itemCodec C) (view d) (rosterItemsBucketKey u) j"

definition bolt_notifs :: "roster_codecs \<Rightarrow> ('d \<Rightarrow> buckets) \<Rightarrow> 'd \<Rightarrow> string \<Rightarrow> string \<rightharpoonup> roster_notification" where
  "bolt_notifs C view d u j = stored (notifCodec C) (view d) (rosterNotificationsBucketKey u) j"

lemma bucket_keys [simp]:
  "rosterItemsBucketKey u = rosterItemsBucketKey v \<longleftrightarrow> u = v"
  "rosterNotificationsBucketKey u = rosterNotificationsBucketKey v \<longleftrightarrow> u = v"
  "rosterVersionBucketKey u = rosterVersionBucketKey v \<longleftrightarrow> u = v"
  "rosterItemsBucketKey u \<noteq> rosterNotificationsBucketKey v" "rosterNotificationsBucketKey v \<noteq> rosterItemsBucketKey u"
  "rosterItemsBucketKey u \<noteq> rosterVersionBucketKey v" "rosterVersionBucketKey u \<noteq> rosterItemsBucketKey v"
  "rosterNotificationsBucketKey u \<noteq> rosterVersionBucketKey v" "rosterVersionBucketKey u \<noteq> rosterNotificationsBucketKey v"
  by (simp_all add: rosterItemsBucketKey_def rosterNotificationsBucketKey_def rosterVersionBucketKey_def)

locale bolt_roster = bolt_store +
  fixes C :: roster_codecs
  assumes codecs: "codec_ok (itemCodec C)" "codec_ok (notifCodec C)" "codec_ok (verCodec C)"
begin

abbreviation its where "its \<equiv> bolt_items C view"
abbreviation nts where "nts \<equiv> bolt_notifs C view"

lemma view_eq: "view d' = view d \<Longrightarrow> its d' = its d \<and> nts d' = nts d"
  by (simp add: bolt_items_def [abs_def] bolt_notifs_def [abs_def])

lemma b_fetch_item: "bFetchRosterItem B C u j d = (Inr r, d') \<Longrightarrow> r = its d u j"
  by (auto simp: bFetchRosterItem_def bolt_items_def dest: fetch_stored)

lemma b_fetch_notif: "bFetchRosterNotification B C u j d = (Inr r, d') \<Longrightarrow> r = nts d u j"
  by (auto simp: bFetchRosterNotification_def bolt_notifs_def dest: fetch_stored)

lemma iter_ran:
  assumes "iterKeysOp B b (append_decoded K) [] d = (Inr xs, d')"
  shows "set xs = ran (stored K (view d) b)"
proof -
  from iter_stored [OF assms] obtain ks where ks: "set ks = dom (bucket_of (view d) b)"
      "list_all2 (\<lambda>k x. stored K (view d) b k = Some x) ks xs" by blast
  have dom: "stored K (view d) b k = Some x \<Longrightarrow> k \<in> set ks" for k x
    unfolding ks(1) by (auto simp: stored_def split: option.splits)
  show ?thesis
  proof (intro equalityI subsetI)
    fix x assume "x \<in> set xs"
    with ks(2) show "x \<in> ran (stored K (view d) b)"
      by (auto simp: list_all2_conv_all_nth in_set_conv_nth ran_def)
  next
    fix x assume "x \<in> ran (stored K (view d) b)"
    then obtain k where k: "stored K (view d) b k = Some x" by (auto simp: ran_def)
    with dom obtain i where "i < length ks" "ks ! i = k" by (metis in_set_conv_nth)
    with ks(2) k show "x \<in> set xs" by (auto simp: list_all2_conv_all_nth in_set_conv_nth)
  qed
qed

lemma b_fetch_items: "bFetchRosterItems B C u d = (Inr rs, d') \<Longrightarrow> set rs = ran (its d u)"
  unfolding bFetchRosterItems_def by (drule iter_ran) (simp add: bolt_items_def ran_def)

lemma b_fetch_notifs: "bFetchRosterNotifications B C u d = (Inr rs, d') \<Longrightarrow> set rs = ran (nts d u)"
  unfolding bFetchRosterNotifications_def by (drule iter_ran) (simp add: bolt_notifs_def ran_def)

lemma b_touch: assumes "bTouchRosterVersion B C u d = (Inr v, d')" shows "its d' = its d \<and> nts d' = nts d"
proof -
  from assms obtain r where "upsertKeyOp B (verCodec C) (rosterVersionBucketKey u) versionKey r d = (Inr (), d')"
    by (auto simp: bTouchRosterVersion_def go_run Let_def dest!: fetch_stored split: prod.splits sum.splits)
  from upsert_other [OF this, where C' = "itemCodec C"] upsert_other [OF this, where C' = "notifCodec C"]
  show ?thesis by (simp add: bolt_items_def [abs_def] bolt_notifs_def [abs_def])
qed

lemma b_upsert_item:
  assumes "bUpsertRosterItem B C ri d = (Inr y, d')"
  shows "nts d' = nts d \<and> its d' = (its d)(riUsername ri := (its d (riUsername ri))(riJid ri \<mapsto> ri))"
  using upsert_stored [OF assms [unfolded bUpsertRosterItem_def] codecs(1)]
    upsert_other [OF assms [unfolded bUpsertRosterItem_def], where C' = "notifCodec C"]
  by (auto simp: bolt_items_def bolt_notifs_def intro!: HOL.ext)

lemma b_upsert_notif:
  assumes "bUpsertRosterNotification B C rn d = (Inr y, d')"
  shows "its d' = its d \<and> nts d' = (nts d)(rnContact rn := (nts d (rnContact rn))(rnJid rn \<mapsto> rn))"
  using upsert_stored [OF assms [unfolded bUpsertRosterNotification_def] codecs(2)]
    upsert_other [OF assms [unfolded bUpsertRosterNotification_def], where C' = "itemCodec C"]
  by (auto simp: bolt_items_def bolt_notifs_def intro!: HOL.ext)

lemma b_delete:
  "bDeleteRosterItem B u j d = (Inr y, d') \<Longrightarrow> nts d' = nts d \<and> its d' = (its d)(u := (its d u)(j := None))"
  "bDeleteRosterNotification B u j d = (Inr y, d') \<Longrightarrow> its d' = its d \<and> nts d' = (nts d)(u := (nts d u)(j := None))"
  "bDeleteRosterItems B u d = (Inr y, d') \<Longrightarrow> nts d' = nts d \<and> its d' = (its d)(u := Map.empty)"
  "bDeleteRosterNotifications B u d = (Inr y, d') \<Longrightarrow> its d' = its d \<and> nts d' = (nts d)(u := Map.empty)"
  by (simp_all add: bolt_items_def bolt_notifs_def fun_eq_iff bDeleteRosterItem_def bDeleteRosterNotification_def
      bDeleteRosterItems_def bDeleteRosterNotifications_def delKey_stored delBucket_stored)

lemma b_reads:
  "snd (bFetchRosterItem B C u j d) = d" "snd (bFetchRosterItems B C u d) = d"
  "snd (bFetchRosterNotification B C u j d) = d" "snd (bFetchRosterNotifications B C u d) = d"
  "snd (bFetchRosterVersion B C u d) = d"
  by (simp_all add: bFetchRosterItem_def bFetchRosterItems_def bFetchRosterNotification_def
      bFetchRosterNotifications_def bFetchRosterVersion_def fetchKeyOp_def iterKeysOp_def go_run
      split: option.splits sum.splits)

lemma on_dbD: "on_db f w = (r, w') \<Longrightarrow> \<exists>d'. f (dbState w) = (r, d') \<and> dbState w' = d'"
  by (auto simp: on_db_def split: prod.splits)

lemma on_db_snd: "snd (on_db f w) = w\<lparr>dbState := snd (f (dbState w))\<rparr>"
  by (simp add: on_db_def split: prod.splits)

lemma db_UpdateD:
  assumes "db_Update B f w = (Inr x, w')"
  shows "\<exists>d d'. view d = view (dbState w) \<and> f d = (Inr x, d') \<and> view (dbState w') = view d'"
proof -
  from assms obtain d d' where d: "bxBegin B (dbState w) = (Inr (), d)" "f d = (Inr x, d')"
      "bxCommit B d' = (Inr (), dbState w')"
    by (auto simp: db_Update_def InTransaction_def on_db_def split: prod.splits sum.splits)
  with begin_tx [OF d(1)] commit [OF d(3)] show ?thesis by auto
qed

lemma db_ViewD:
  assumes "db_View B f w = (Inr x, w')"
  shows "\<exists>d d'. view d = view (dbState w) \<and> f d = (Inr x, d')"
proof -
  from assms obtain d where d: "bxBegin B (dbState w) = (Inr (), d)" "fst (f d) = Inr x"
    by (auto simp: db_View_def split: prod.splits sum.splits)
  with begin_tx [OF d(1)] show ?thesis by (metis prod.collapse)
qed

lemma db_View_keeps: "snd (db_View B f w) = w"
  by (simp add: db_View_def split: prod.splits sum.splits)

end

sublocale bolt_roster \<subseteq> tx: roster_store "newRosterRep B C" "\<lambda>w. bolt_items C view (dbState w)" "\<lambda>w. bolt_notifs C view (dbState w)"
  by unfold_locales
    (simp_all add: newRosterRep_def keeps_def on_db_snd b_reads,
     auto dest!: on_dbD dest: b_fetch_item b_fetch_items b_fetch_notif b_fetch_notifs
      b_touch b_upsert_item b_upsert_notif b_delete)

sublocale bolt_roster \<subseteq> rep: roster_store "boltRosterRep B C" "\<lambda>w. bolt_items C view (dbState w)" "\<lambda>w. bolt_notifs C view (dbState w)"
  by unfold_locales
    (simp_all add: boltRosterRep_def keeps_def db_View_keeps,
     auto dest!: db_UpdateD db_ViewD dest!: view_eq dest: b_fetch_item b_fetch_items b_fetch_notif b_fetch_notifs
      b_touch b_upsert_item b_upsert_notif b_delete)

end
