(* ===== verification/Roster.thy ===== *)
theory Roster
  imports Roster_Store C2S_Stream
begin

text \<open>
  The roster module (\<^verbatim>\<open>src/pkg/module/roster/roster.go\<close>): roster requests and pushes, the subscription
  handshake and the broadcast of presences. Its collaborators are the record \<open>roster_env\<close>: the
  repository outside and inside a transaction, the resource manager, the router, hooks. A Go \<^verbatim>\<open>goto\<close>
  is the continuation it jumps to.
\<close>

section \<open>Environment\<close>

record roster_info =
  rinfUsername :: string
  rinfJID :: string
  rinfSubscription :: string

record 'w roster_outside =
  rsLib :: xlib
  rsIsLocalHost :: "string \<Rightarrow> bool"
  rsGetResources :: "string \<Rightarrow> ('w, resource_desc list) go"
  rsRoute :: "element \<Rightarrow> ('w, jid list) go"
  rsLocalStream :: "string \<Rightarrow> string \<Rightarrow> ('w, nat) go"
  rsStreamInfo :: "nat \<Rightarrow> 'w \<Rightarrow> info_map"
  rsSetInfoValue :: "nat \<Rightarrow> string \<Rightarrow> info_val \<Rightarrow> ('w, unit) go"
  rsRunHook :: "string \<Rightarrow> roster_info \<Rightarrow> ('w, unit) go"
  rsNewUUID :: "('w, string) go"
  rsBuildPresence :: "element \<Rightarrow> element"

record 'w roster_env = "'w roster_outside" +
  rsRep :: "'w roster_rep"
  rsTx :: "'w roster_rep"
  rsInTransaction :: "('w, unit) go \<Rightarrow> ('w, unit) go"

definition rosterRequestedCtxKey :: string where "rosterRequestedCtxKey = ''ros:requested''"
definition rosterDidGoAvailableCtxKey :: string where "rosterDidGoAvailableCtxKey = ''ros:available''"
definition rosterNamespace :: string where "rosterNamespace = ''jabber:iq:roster''"

definition route_ignore :: "'w roster_env \<Rightarrow> element \<Rightarrow> ('w, unit) go" where
  "route_ignore E el = ignore (rsRoute E el)"

section \<open>Items as elements\<close>

definition encodeRosterItem :: "roster_item \<Rightarrow> element" where
  "encodeRosterItem ri =
     Element ''item'' [(''name'', riName ri), (''jid'', riJid ri), (''subscription'', riSubscription ri)] []
       (map (\<lambda>g. Element ''group'' [] g []) (riGroups ri))"

definition quoted :: "string \<Rightarrow> string" where
  "quoted s = CHR 0x27 # s @ [CHR 0x27]"

fun decode_groups :: "element list \<Rightarrow> go_error + string list" where
  "decode_groups [] = Inr []"
| "decode_groups (g # gs) =
     (if length (Attrs g) > 0 then Inl (ErrText ''roster: group element must not contain any attribute'')
      else map_sum id (\<lambda>rest. if length (Text g) > 0 then Text g # rest else rest) (decode_groups gs))"

definition decodeRosterItem :: "xlib \<Rightarrow> element \<Rightarrow> go_error + roster_item" where
  "decodeRosterItem X elem =
     (if Name elem \<noteq> ''item'' then Inl (ErrText (''roster: invalid item element name: '' @ Name elem))
      else if Attribute X elem ''jid'' = [] then Inl (ErrText (''roster: item '' @ quoted ''jid'' @ '' attribute is required''))
      else case NewJIDWithString X (Attribute X elem ''jid'') False of
        None \<Rightarrow> Inl (ErrText ''invalid jid'')
      | Some j \<Rightarrow>
          (let subscription = Attribute X elem ''subscription''; ask = Attribute X elem ''ask''
           in if subscription \<noteq> [] \<and> subscription \<notin> {subBoth, subFrom, subTo, subNone, subRemove}
              then Inl (ErrText (''roster: unrecognized '' @ quoted ''subscription'' @ '' enum type: '' @ subscription))
              else if ask \<noteq> [] \<and> ask \<noteq> ''subscribe''
              then Inl (ErrText (''roster: unrecognized '' @ quoted ''ask'' @ '' enum type: '' @ subscription))
              else map_sum id (\<lambda>gs. \<lparr>riUsername = [], riJid = JIDString X j, riName = Attribute X elem ''name'',
                     riSubscription = subscription, riAsk = (ask \<noteq> []), riGroups = gs\<rparr>)
                   (decode_groups (Children X elem ''group''))))"

definition parseVer :: "string \<Rightarrow> int" where
  "parseVer ver = (if length ver > 0 \<and> hd ver = CHR ''v'' then fst (parse_int (tl ver)) else 0)"

section \<open>Pushes, presences, notifications\<close>

definition rosRunHook :: "'w roster_env \<Rightarrow> string \<Rightarrow> roster_info \<Rightarrow> ('w, unit) go" where
  "rosRunHook E hookName info = rsRunHook E hookName info"

definition push_iq :: "xlib \<Rightarrow> string \<Rightarrow> resource_desc \<Rightarrow> roster_item \<Rightarrow> int \<Rightarrow> element" where
  "push_iq X uuid rs ri ver =
     Element ''iq'' [(''id'', uuid), (''type'', ''set''), (''from'', JIDString X (ToBareJID X (rJID rs))),
       (''to'', JIDString X (rJID rs))] []
       [Element ''query'' [(''xmlns'', rosterNamespace), (''ver'', itoa ver)] [] [encodeRosterItem ri]]"

definition pushItem :: "'w roster_env \<Rightarrow> roster_item \<Rightarrow> int \<Rightarrow> ('w, unit) go" where
  "pushItem E ri ver =
     andthen (rsGetResources E (riUsername ri)) (\<lambda>rss.
       for_each rss (\<lambda>rs.
         if \<not> infoBool (rInfo rs) rosterRequestedCtxKey then ret ()
         else andthen (rsNewUUID E) (\<lambda>uuid. route_ignore E (push_iq (rsLib E) uuid rs ri ver))))"

definition presence_children :: "xlib \<Rightarrow> element option \<Rightarrow> element list" where
  "presence_children X p = (case p of Some pr \<Rightarrow> if IsAvailable X pr then AllChildren pr else [] | None \<Rightarrow> [])"

definition routePresencesFrom :: "'w roster_env \<Rightarrow> string \<Rightarrow> jid \<Rightarrow> string \<Rightarrow> ('w, unit) go" where
  "routePresencesFrom E username toJID presenceType =
     andthen (rsGetResources E username) (\<lambda>rss.
       for_each rss (\<lambda>res. route_ignore E
         (MakePresence (rsLib E) (rJID res) toJID presenceType (presence_children (rsLib E) (rPresence res)))))"

definition upsertItem :: "'w roster_env \<Rightarrow> roster_item \<Rightarrow> ('w, unit) go" where
  "upsertItem E ri =
     andthen (rsInTransaction E
       (andthen (TouchRosterVersion (rsTx E) (riUsername ri)) (\<lambda>ver.
        andthen (UpsertRosterItem (rsTx E) ri) (\<lambda>_. pushItem E ri ver)))) (\<lambda>_.
     rosRunHook E ''roster.item.updated''
       \<lparr>rinfUsername = riUsername ri, rinfJID = riJid ri, rinfSubscription = riSubscription ri\<rparr>)"

definition deleteItem :: "'w roster_env \<Rightarrow> roster_item \<Rightarrow> ('w, unit) go" where
  "deleteItem E ri =
     andthen (rsInTransaction E
       (andthen (TouchRosterVersion (rsTx E) (riUsername ri)) (\<lambda>ver.
        andthen (DeleteRosterItem (rsTx E) (riUsername ri) (riJid ri)) (\<lambda>_. pushItem E ri ver)))) (\<lambda>_.
     rosRunHook E ''roster.item.updated''
       \<lparr>rinfUsername = riUsername ri, rinfJID = riJid ri, rinfSubscription = subRemove\<rparr>)"

definition upsertNotification :: "'w roster_env \<Rightarrow> string \<Rightarrow> jid \<Rightarrow> element \<Rightarrow> ('w, unit) go" where
  "upsertNotification E contact userJID presence =
     UpsertRosterNotification (rsRep E)
       \<lparr>rnContact = contact, rnJid = JIDString (rsLib E) userJID, rnPresence = presence\<rparr>"

definition deleteNotification :: "'w roster_env \<Rightarrow> string \<Rightarrow> jid \<Rightarrow> ('w, bool) go" where
  "deleteNotification E contact userJID =
     andthen (FetchRosterNotification (rsRep E) contact (JIDString (rsLib E) userJID)) (\<lambda>rn.
       if rn = None then ret False
       else andthen (DeleteRosterNotification (rsRep E) contact (JIDString (rsLib E) userJID)) (\<lambda>_. ret True))"

section \<open>Subscription presences\<close>

definition new_item :: "string \<Rightarrow> string \<Rightarrow> string \<Rightarrow> bool \<Rightarrow> roster_item" where
  "new_item username jd sub ask = \<lparr>riUsername = username, riJid = jd, riName = [], riSubscription = sub,
     riAsk = ask, riGroups = []\<rparr>"

definition processSubscribe :: "'w roster_env \<Rightarrow> element \<Rightarrow> ('w, unit) go" where
  "processSubscribe E presence =
     (let X = rsLib E;
          userJID = ToBareJID X (FromJID X presence);
          contactJID = ToBareJID X (ToJID X presence);
          p = MakePresence X userJID contactJID ''subscribe'' (AllChildren presence);
          finish = andthen (if rsIsLocalHost E (Domain contactJID)
                            then upsertNotification E (Node contactJID) userJID p else ret ())
                     (\<lambda>_. route_ignore E p)
      in if rsIsLocalHost E (Domain userJID) then
           andthen (FetchRosterItem (rsRep E) (Node userJID) (JIDString X contactJID)) (\<lambda>usrRi.
             case usrRi of
               Some ri \<Rightarrow>
                 if riSubscription ri = subTo \<or> riSubscription ri = subBoth then ret ()
                 else if riAsk ri then ret ()
                 else andthen (upsertItem E (ri\<lparr>riAsk := True\<rparr>)) (\<lambda>_. finish)
             | None \<Rightarrow> andthen (upsertItem E (new_item (Node userJID) (JIDString X contactJID) subNone True)) (\<lambda>_. finish))
         else finish)"

definition subscribed_contact :: "string \<Rightarrow> string" where
  "subscribed_contact sub = (if sub = subTo then subBoth else if sub = subNone then subFrom else sub)"

definition processSubscribed :: "'w roster_env \<Rightarrow> element \<Rightarrow> ('w, unit) go" where
  "processSubscribed E presence =
     (let X = rsLib E;
          userJID = ToBareJID X (ToJID X presence);
          contactJID = ToBareJID X (FromJID X presence);
          p = MakePresence X contactJID userJID ''subscribed'' (AllChildren presence);
          finish = andthen (route_ignore E p) (\<lambda>_. routePresencesFrom E (Node contactJID) userJID [])
      in andthen
           (if rsIsLocalHost E (Domain contactJID) then
              andthen (deleteNotification E (Node contactJID) userJID) (\<lambda>_.
              andthen (FetchRosterItem (rsRep E) (Node contactJID) (JIDString X userJID)) (\<lambda>cntRi.
                upsertItem E (case cntRi of
                  Some ri \<Rightarrow> ri\<lparr>riSubscription := subscribed_contact (riSubscription ri)\<rparr>
                | None \<Rightarrow> new_item (Node contactJID) (JIDString X userJID) subFrom False)))
            else ret ()) (\<lambda>_.
         if rsIsLocalHost E (Domain userJID) then
           andthen (FetchRosterItem (rsRep E) (Node userJID) (JIDString X contactJID)) (\<lambda>usrRi.
             case usrRi of
               None \<Rightarrow> finish
             | Some ri \<Rightarrow>
                 if riSubscription ri = subFrom then
                   andthen (upsertItem E (ri\<lparr>riSubscription := subBoth, riAsk := False\<rparr>)) (\<lambda>_. finish)
                 else if riSubscription ri = subNone then
                   andthen (upsertItem E (ri\<lparr>riSubscription := subTo, riAsk := False\<rparr>)) (\<lambda>_. finish)
                 else ret ())
         else finish))"

definition drop_to :: "string \<Rightarrow> string" where
  "drop_to sub = (if sub = subBoth then subFrom else subNone)"

definition drop_from :: "string \<Rightarrow> string" where
  "drop_from sub = (if sub = subBoth then subTo else subNone)"

definition processUnsubscribe :: "'w roster_env \<Rightarrow> element \<Rightarrow> ('w, unit) go" where
  "processUnsubscribe E presence =
     (let X = rsLib E;
          userJID = ToBareJID X (FromJID X presence);
          contactJID = ToBareJID X (ToJID X presence);
          p = MakePresence X userJID contactJID ''unsubscribe'' (AllChildren presence)
      in andthen
           (if rsIsLocalHost E (Domain userJID) then
              andthen (FetchRosterItem (rsRep E) (Node userJID) (JIDString X contactJID)) (\<lambda>usrRi.
                case usrRi of
                  None \<Rightarrow> ret subNone
                | Some ri \<Rightarrow> andthen (upsertItem E (ri\<lparr>riSubscription := drop_to (riSubscription ri)\<rparr>))
                               (\<lambda>_. ret (riSubscription ri)))
            else ret []) (\<lambda>usrSub.
         andthen
           (if rsIsLocalHost E (Domain contactJID) then
              andthen (FetchRosterItem (rsRep E) (Node contactJID) (JIDString X userJID)) (\<lambda>cntRi.
                case cntRi of
                  None \<Rightarrow> ret ()
                | Some ri \<Rightarrow> upsertItem E (ri\<lparr>riSubscription := drop_from (riSubscription ri)\<rparr>))
            else ret ()) (\<lambda>_.
         andthen (route_ignore E p) (\<lambda>_.
           if usrSub = subTo \<or> usrSub = subBoth
           then routePresencesFrom E (Node contactJID) userJID ''unavailable'' else ret ()))))"

text \<open>\<open>unsubscribed_tail\<close> is the code from the label \<^verbatim>\<open>routePresence\<close> on.\<close>

definition unsubscribed_tail :: "'w roster_env \<Rightarrow> element \<Rightarrow> string \<Rightarrow> ('w, unit) go" where
  "unsubscribed_tail E presence cntSub =
     (let X = rsLib E;
          userJID = ToBareJID X (ToJID X presence);
          contactJID = ToBareJID X (FromJID X presence);
          p = MakePresence X contactJID userJID ''unsubscribed'' (AllChildren presence)
      in andthen
           (if rsIsLocalHost E (Domain userJID) then
              andthen (FetchRosterItem (rsRep E) (Node userJID) (JIDString X contactJID)) (\<lambda>usrRi.
                case usrRi of
                  None \<Rightarrow> ret ()
                | Some ri \<Rightarrow> upsertItem E (ri\<lparr>riSubscription :=
                    (if \<not> riAsk ri then drop_to (riSubscription ri) else riSubscription ri), riAsk := False\<rparr>))
            else ret ()) (\<lambda>_.
         andthen (route_ignore E p) (\<lambda>_.
           if cntSub = subFrom \<or> cntSub = subBoth
           then routePresencesFrom E (Node contactJID) userJID ''unavailable'' else ret ())))"

definition processUnsubscribed :: "'w roster_env \<Rightarrow> element \<Rightarrow> ('w, unit) go" where
  "processUnsubscribed E presence =
     (let X = rsLib E;
          userJID = ToBareJID X (ToJID X presence);
          contactJID = ToBareJID X (FromJID X presence)
      in if rsIsLocalHost E (Domain contactJID) then
           andthen (deleteNotification E (Node contactJID) userJID) (\<lambda>deleted.
             if deleted then unsubscribed_tail E presence []
             else andthen (FetchRosterItem (rsRep E) (Node contactJID) (JIDString X userJID)) (\<lambda>cntRi.
               case cntRi of
                 None \<Rightarrow> unsubscribed_tail E presence subNone
               | Some ri \<Rightarrow> andthen (upsertItem E (ri\<lparr>riSubscription := drop_from (riSubscription ri)\<rparr>))
                              (\<lambda>_. unsubscribed_tail E presence (riSubscription ri))))
         else unsubscribed_tail E presence [])"

section \<open>Probes and availability\<close>

text \<open>A resource that has not sent a presence yet has a nil one; calling a method on it panics.\<close>

definition processProbe :: "'w roster_env \<Rightarrow> element \<Rightarrow> ('w, unit) go" where
  "processProbe E presence =
     (let X = rsLib E;
          userJID = ToBareJID X (FromJID X presence);
          contactJID = ToBareJID X (ToJID X presence)
      in if \<not> rsIsLocalHost E (Domain contactJID) then route_ignore E presence
         else andthen (FetchRosterItem (rsRep E) (Node contactJID) (JIDString X userJID)) (\<lambda>ri.
           if (case ri of None \<Rightarrow> True | Some i \<Rightarrow> riSubscription i \<noteq> subBoth \<and> riSubscription i \<noteq> subFrom) then ret ()
           else andthen (rsGetResources E (Node contactJID)) (\<lambda>rss.
             for_each rss (\<lambda>res.
               case rPresence res of
                 None \<Rightarrow> throw ErrPanic
               | Some pr \<Rightarrow>
                   if \<not> IsAvailable X pr then ret ()
                   else route_ignore E (MakePresence X (rJID res) userJID [] (AllChildren pr))))))"

text \<open>\<^verbatim>\<open>itemJID, _ := jid.NewWithString(item.Jid, true)\<close>: a nil address panics when it is used.\<close>

definition item_jid :: "'w roster_env \<Rightarrow> roster_item \<Rightarrow> ('w, jid) go" where
  "item_jid E item = (case NewJIDWithString (rsLib E) (riJid item) True of None \<Rightarrow> throw ErrPanic | Some j \<Rightarrow> ret j)"

definition broadcast_presence :: "'w roster_env \<Rightarrow> element \<Rightarrow> roster_item list \<Rightarrow> ('w, unit) go" where
  "broadcast_presence E presence items =
     for_each items (\<lambda>item.
       if riSubscription item = subFrom \<or> riSubscription item = subBoth then
         andthen (item_jid E item) (\<lambda>itemJID.
           route_ignore E (MakePresence (rsLib E) (FromJID (rsLib E) presence) itemJID
             (Attribute (rsLib E) presence ''type'') (AllChildren presence)))
       else ret ())"

definition deliver_roster_presences :: "'w roster_env \<Rightarrow> jid \<Rightarrow> roster_item list \<Rightarrow> ('w, unit) go" where
  "deliver_roster_presences E fromJID items =
     for_each items (\<lambda>item.
       if riSubscription item = subTo \<or> riSubscription item = subBoth then
         andthen (item_jid E item) (\<lambda>itemJID.
           if rsIsLocalHost E (Domain itemJID) then routePresencesFrom E (Node itemJID) fromJID []
           else route_ignore E (MakePresence (rsLib E) fromJID itemJID ''probe'' []))
       else ret ())"

definition first_available :: "'w roster_env \<Rightarrow> element \<Rightarrow> roster_item list \<Rightarrow> nat \<Rightarrow> ('w, unit) go" where
  "first_available E presence items stm =
     (let X = rsLib E; fromJID = FromJID X presence; userJID = ToBareJID X fromJID
      in andthen (rsGetResources E (Node userJID)) (\<lambda>rss.
         andthen (for_each rss (\<lambda>res.
           route_ignore E (MakePresence X fromJID (rJID res) [] (AllChildren presence)))) (\<lambda>_.
         andthen (FetchRosterNotifications (rsRep E) (Node userJID)) (\<lambda>rns.
         andthen (for_each rns (\<lambda>rn. route_ignore E (rsBuildPresence E (rnPresence rn)))) (\<lambda>_.
         andthen (deliver_roster_presences E fromJID items) (\<lambda>_.
           rsSetInfoValue E stm rosterDidGoAvailableCtxKey (BoolVal True)))))))"

definition processAvailability :: "'w roster_env \<Rightarrow> element \<Rightarrow> ('w, unit) go" where
  "processAvailability E presence =
     (let X = rsLib E; fromJID = FromJID X presence;
          userJID = ToBareJID X fromJID;
          contactJID = ToBareJID X (ToJID X presence);
          replyOnBehalf = rsIsLocalHost E (Domain userJID) \<and> MatchesBare X userJID contactJID
      in if \<not> replyOnBehalf then route_ignore E presence
         else andthen (FetchRosterItems (rsRep E) (Node userJID)) (\<lambda>items.
           andthen
             (if IsAvailable X presence then
                andthen (rsLocalStream E (Node fromJID) (Resource fromJID)) (\<lambda>stm.
                andthen (gets (rsStreamInfo E stm)) (\<lambda>info.
                  if infoBool info rosterDidGoAvailableCtxKey then ret ()
                  else first_available E presence items stm))
              else ret ()) (\<lambda>_. broadcast_presence E presence items)))"

section \<open>Roster requests\<close>

text \<open>An error of the repository is reported to the client and returned.\<close>

definition or_report :: "'w roster_env \<Rightarrow> element \<Rightarrow> ('w, 'a) go \<Rightarrow> ('w, 'a) go" where
  "or_report E iq m =
     andthen (attempt m) (\<lambda>r.
       case r of
         Inl e \<Rightarrow>
           if e = ErrPanic then throw ErrPanic
           else andthen (route_ignore E (MakeErrorStanza (rsLib E) iq ''internal-server-error'')) (\<lambda>_. throw e)
       | Inr x \<Rightarrow> ret x)"

definition mark_requested :: "'w roster_env \<Rightarrow> jid \<Rightarrow> ('w, unit) go" where
  "mark_requested E usrJID =
     andthen (rosRunHook E ''roster.requested''
       \<lparr>rinfUsername = Node usrJID, rinfJID = [], rinfSubscription = []\<rparr>) (\<lambda>_.
     andthen (rsLocalStream E (Node usrJID) (Resource usrJID)) (\<lambda>stm.
       rsSetInfoValue E stm rosterRequestedCtxKey (BoolVal True)))"

definition sendRoster :: "'w roster_env \<Rightarrow> element \<Rightarrow> ('w, unit) go" where
  "sendRoster E iq =
     (let X = rsLib E; bad = route_ignore E (MakeErrorStanza X iq ''bad-request'')
      in case ChildNamespace X iq ''query'' rosterNamespace of
           None \<Rightarrow> bad
         | Some q \<Rightarrow>
             if length (AllChildren q) > 0 then bad
             else
               (let usrJID = FromJID X iq
                in andthen (or_report E iq (FetchRosterVersion (rsRep E) (Node usrJID))) (\<lambda>ver.
                   if ver > 0 \<and> ver = parseVer (Attribute X q ''ver'') then
                     andthen (route_ignore E (MakeResultIQ X iq None)) (\<lambda>_. mark_requested E usrJID)
                   else
                     andthen (or_report E iq (FetchRosterItems (rsRep E) (Node usrJID))) (\<lambda>items.
                     andthen (route_ignore E (MakeResultIQ X iq
                       (Some (Element ''query'' [(''xmlns'', rosterNamespace)] [] (map encodeRosterItem items))))) (\<lambda>_.
                       mark_requested E usrJID)))))"

definition updateItem :: "'w roster_env \<Rightarrow> roster_item \<Rightarrow> string \<Rightarrow> ('w, unit) go" where
  "updateItem E ri username =
     andthen (FetchRosterItem (rsRep E) username (riJid ri)) (\<lambda>usrRi.
       upsertItem E (case usrRi of
         Some r \<Rightarrow> r\<lparr>riName := (if length (riName ri) > 0 then riName ri else riName r), riGroups := riGroups ri\<rparr>
       | None \<Rightarrow> \<lparr>riUsername = username, riJid = riJid ri, riName = riName ri, riSubscription = subNone,
                  riAsk = riAsk ri, riGroups = riGroups ri\<rparr>))"

text \<open>The switch of \<^verbatim>\<open>removeItem\<close> falls through: an item with subscription both is stored twice.\<close>

definition remove_contact_side :: "'w roster_env \<Rightarrow> jid \<Rightarrow> jid \<Rightarrow> ('w, unit) go" where
  "remove_contact_side E userJID contactJID =
     (if rsIsLocalHost E (Domain contactJID) then
        andthen (FetchRosterItem (rsRep E) (Node contactJID) (JIDString (rsLib E) userJID)) (\<lambda>cntRi.
          case cntRi of
            None \<Rightarrow> ret ()
          | Some ri \<Rightarrow>
              andthen (if riSubscription ri = subFrom \<or> riSubscription ri = subBoth
                       then routePresencesFrom E (Node contactJID) userJID ''unavailable'' else ret ()) (\<lambda>_.
              andthen (if riSubscription ri = subBoth then upsertItem E (ri\<lparr>riSubscription := subTo\<rparr>) else ret ()) (\<lambda>_.
                upsertItem E (ri\<lparr>riSubscription := subNone\<rparr>))))
      else ret ())"

definition removeItem :: "'w roster_env \<Rightarrow> roster_item \<Rightarrow> jid \<Rightarrow> ('w, unit) go" where
  "removeItem E ri userJID =
     (let X = rsLib E
      in andthen (FetchRosterItem (rsRep E) (Node userJID) (riJid ri)) (\<lambda>usrRi.
         case NewJIDWithString X (riJid ri) True of
           None \<Rightarrow> throw ErrPanic
         | Some contactJID \<Rightarrow>
             (let usrSub = (case usrRi of None \<Rightarrow> subNone | Some r \<Rightarrow> riSubscription r)
              in andthen
                   (case usrRi of
                      None \<Rightarrow> ret ()
                    | Some r \<Rightarrow>
                        andthen (deleteNotification E (Node contactJID) userJID) (\<lambda>_.
                          deleteItem E (r\<lparr>riSubscription := subRemove, riAsk := False\<rparr>))) (\<lambda>_.
                 andthen (remove_contact_side E userJID contactJID) (\<lambda>_.
                 andthen (if usrSub = subTo \<or> usrSub = subBoth
                          then route_ignore E (MakePresence X userJID contactJID ''unsubscribe'' []) else ret ()) (\<lambda>_.
                 andthen (if usrSub = subFrom \<or> usrSub = subBoth
                          then route_ignore E (MakePresence X userJID contactJID ''unsubscribed'' []) else ret ()) (\<lambda>_.
                   if usrSub = subFrom \<or> usrSub = subBoth
                   then routePresencesFrom E (Node userJID) contactJID ''unavailable'' else ret ())))))))"

definition updateRoster :: "'w roster_env \<Rightarrow> element \<Rightarrow> ('w, unit) go" where
  "updateRoster E iq =
     (let X = rsLib E; bad = route_ignore E (MakeErrorStanza X iq ''bad-request'')
      in case ChildNamespace X iq ''query'' rosterNamespace of
           None \<Rightarrow> bad
         | Some q \<Rightarrow>
             (case Children X q ''item'' of
                [item] \<Rightarrow>
                  (case decodeRosterItem X item of
                     Inl _ \<Rightarrow> bad
                   | Inr ri \<Rightarrow>
                       andthen (or_report E iq
                         (if riSubscription ri = subRemove then removeItem E ri (ToBareJID X (FromJID X iq))
                          else updateItem E ri (Node (FromJID X iq)))) (\<lambda>_.
                       route_ignore E (MakeResultIQ X iq None)))
              | _ \<Rightarrow> bad))"

definition rosMatchesNamespace :: "string \<Rightarrow> bool \<Rightarrow> bool" where
  "rosMatchesNamespace namespace serverTarget = (if serverTarget then False else namespace = rosterNamespace)"

definition rosProcessIQ :: "'w roster_env \<Rightarrow> element \<Rightarrow> ('w, unit) go" where
  "rosProcessIQ E iq =
     (if IsGet (rsLib E) iq then sendRoster E iq
      else if IsSet (rsLib E) iq then updateRoster E iq
      else ret ())"

section \<open>Hook handlers\<close>

definition rosProcessPresence :: "'w roster_env \<Rightarrow> element \<Rightarrow> ('w, unit) go" where
  "rosProcessPresence E pr =
     (let typ = Attribute (rsLib E) pr ''type''
      in if typ = ''subscribe'' then processSubscribe E pr
         else if typ = ''subscribed'' then processSubscribed E pr
         else if typ = ''unsubscribe'' then processUnsubscribe E pr
         else if typ = ''unsubscribed'' then processUnsubscribed E pr
         else if typ = ''probe'' then processProbe E pr
         else if typ = [] \<or> typ = ''unavailable'' then processAvailability E pr
         else ret ())"

text \<open>Errors are wrapped into one with a text; panics are not errors.\<close>

definition rosOnPresenceRecv :: "'w roster_env \<Rightarrow> element \<Rightarrow> ('w, unit) go" where
  "rosOnPresenceRecv E pr =
     (if IsFull (rsLib E) (ToJID (rsLib E) pr) then ret ()
      else andthen (attempt (rosProcessPresence E pr)) (\<lambda>r.
        case r of
          Inl e \<Rightarrow> throw (if e = ErrPanic then ErrPanic else ErrText ''roster: failed to process C2S presence'')
        | Inr _ \<Rightarrow> ret ()))"

definition rosOnUserDeleted :: "'w roster_env \<Rightarrow> string \<Rightarrow> ('w, unit) go" where
  "rosOnUserDeleted E username =
     rsInTransaction E
       (andthen (DeleteRosterNotifications (rsTx E) username) (\<lambda>_. DeleteRosterItems (rsTx E) username))"

end
