(* ===== verification/Roster_Subs.thy ===== *)
theory Roster_Subs
  imports Roster
begin

text \<open>
  What the roster module guarantees: the rosters of two local users agree about their subscriptions
  as long as clients keep to the protocol, items survive their encoding. The module's
  assumptions about its environment are the locale \<open>roster_module\<close>, which the embedded back end
  satisfies.
\<close>

section \<open>The environment\<close>

locale roster_module =
  tx: roster_store "rsTx E" items notifs + rep: roster_store "rsRep E" items notifs
  for E :: "'w roster_env"
    and items :: "'w \<Rightarrow> string \<Rightarrow> string \<rightharpoonup> roster_item"
    and notifs :: "'w \<Rightarrow> string \<Rightarrow> string \<rightharpoonup> roster_notification" +
  assumes transaction: "rsInTransaction E f w = (Inr u, w') \<Longrightarrow>
      \<exists>w0 w1 v. (items w0, notifs w0) = (items w, notifs w) \<and> f w0 = (Inr v, w1) \<and> (items w', notifs w') = (items w1, notifs w1)"
    and env_keeps: "keeps (\<lambda>w. (items w, notifs w) = x) (rsRoute E el)"
      "keeps (\<lambda>w. (items w, notifs w) = x) (rsGetResources E name)"
      "keeps (\<lambda>w. (items w, notifs w) = x) (rsRunHook E hk inf')"
      "keeps (\<lambda>w. (items w, notifs w) = x) (rsNewUUID E)"
      "keeps (\<lambda>w. (items w, notifs w) = x) (rsLocalStream E name res)"
      "keeps (\<lambda>w. (items w, notifs w) = x) (rsSetInfoValue E stm k val)"
begin

abbreviation rosters where "rosters w \<equiv> (items w, notifs w)"

lemma route_ignore_keeps: "keeps (\<lambda>w. rosters w = x) (route_ignore E el)"
  unfolding route_ignore_def by (intro keeps_ignore env_keeps)

lemma pushItem_keeps: "keeps (\<lambda>w. rosters w = x) (pushItem E ri ver)"
  unfolding pushItem_def by (intro keeps_andthen keeps_for_each keeps_if keeps_ret env_keeps route_ignore_keeps)

lemma routePresencesFrom_keeps: "keeps (\<lambda>w. rosters w = x) (routePresencesFrom E name j typ)"
  unfolding routePresencesFrom_def by (intro keeps_andthen keeps_for_each env_keeps route_ignore_keeps)

lemma rosRunHook_keeps: "keeps (\<lambda>w. rosters w = x) (rosRunHook E hk info)"
  unfolding rosRunHook_def by (rule env_keeps)

lemma keeps_run: "keeps (\<lambda>w. rosters w = x) f \<Longrightarrow> rosters w = x \<Longrightarrow> f w = (r, w') \<Longrightarrow> rosters w' = x"
  using keepsD by fastforce

lemmas run_keeps = keeps_run [OF _ refl]

lemma upsertItem_run:
  assumes "upsertItem E ri w = (Inr u, w')"
  shows "notifs w' = notifs w \<and> items w' = (items w)(riUsername ri := (items w (riUsername ri))(riJid ri \<mapsto> ri))"
proof -
  let ?f = "andthen (TouchRosterVersion (rsTx E) (riUsername ri)) (\<lambda>ver.
        andthen (UpsertRosterItem (rsTx E) ri) (\<lambda>_. pushItem E ri ver))"
  from assms obtain w1 info where t: "rsInTransaction E ?f w = (Inr (), w1)"
      and h: "rosRunHook E ''roster.item.updated'' info w1 = (Inr u, w')"
    by (auto simp: upsertItem_def go_run split: prod.splits sum.splits)
  from transaction [OF t] obtain w0 wt v where w0: "rosters w0 = rosters w" "?f w0 = (Inr v, wt)" "rosters w1 = rosters wt"
    by blast
  from w0(2) obtain ver wa wb where a: "TouchRosterVersion (rsTx E) (riUsername ri) w0 = (Inr ver, wa)"
      and b: "UpsertRosterItem (rsTx E) ri wa = (Inr (), wb)" and c: "pushItem E ri ver wb = (Inr v, wt)"
    by (auto simp: go_run split: prod.splits sum.splits)
  show ?thesis
    using w0 tx.touch [OF a] tx.upsert_item [OF b] run_keeps [OF pushItem_keeps c] run_keeps [OF rosRunHook_keeps h] by auto
qed

lemma deleteItem_run:
  assumes "deleteItem E ri w = (Inr u, w')"
  shows "notifs w' = notifs w \<and> items w' = (items w)(riUsername ri := (items w (riUsername ri))(riJid ri := None))"
proof -
  let ?f = "andthen (TouchRosterVersion (rsTx E) (riUsername ri)) (\<lambda>ver.
        andthen (DeleteRosterItem (rsTx E) (riUsername ri) (riJid ri)) (\<lambda>_. pushItem E ri ver))"
  from assms obtain w1 info where t: "rsInTransaction E ?f w = (Inr (), w1)"
      and h: "rosRunHook E ''roster.item.updated'' info w1 = (Inr u, w')"
    by (auto simp: deleteItem_def go_run split: prod.splits sum.splits)
  from transaction [OF t] obtain w0 wt v where w0: "rosters w0 = rosters w" "?f w0 = (Inr v, wt)" "rosters w1 = rosters wt"
    by blast
  from w0(2) obtain ver wa wb where a: "TouchRosterVersion (rsTx E) (riUsername ri) w0 = (Inr ver, wa)"
      and b: "DeleteRosterItem (rsTx E) (riUsername ri) (riJid ri) wa = (Inr (), wb)" and c: "pushItem E ri ver wb = (Inr v, wt)"
    by (auto simp: go_run split: prod.splits sum.splits)
  show ?thesis
    using w0 tx.touch [OF a] tx.delete_item [OF b] run_keeps [OF pushItem_keeps c] run_keeps [OF rosRunHook_keeps h] by auto
qed

lemma upsertNotification_run:
  assumes "upsertNotification E c j p w = (Inr u, w')"
  shows "items w' = items w \<and> (\<exists>rn. notifs w' = (notifs w)(c := (notifs w c)(JIDString (rsLib E) j \<mapsto> rn)))"
  using rep.upsert_notif [OF assms [unfolded upsertNotification_def]] by auto

lemma deleteNotification_run:
  assumes "deleteNotification E c j w = (Inr del, w')"
  shows "items w' = items w \<and> notifs w' = (notifs w)(c := (notifs w c)(JIDString (rsLib E) j := None)) \<and>
    del = (notifs w c (JIDString (rsLib E) j) \<noteq> None)"
proof -
  let ?k = "JIDString (rsLib E) j"
  from assms obtain rn w1 where f: "FetchRosterNotification (rsRep E) c ?k w = (Inr rn, w1)"
    by (auto simp: deleteNotification_def go_run split: prod.splits sum.splits)
  from rep.fetch_notif [OF f] run_keeps [OF rep.reads_keep(3) f]
  have rn: "rn = notifs w c ?k" and same: "items w1 = items w" "notifs w1 = notifs w" by auto
  show ?thesis
  proof (cases rn)
    case None
    with f assms have "del = False" "w' = w1" by (auto simp: deleteNotification_def go_run)
    with None rn same show ?thesis by (simp add: fun_upd_idem)
  next
    case (Some n)
    with f assms have d: "DeleteRosterNotification (rsRep E) c ?k w1 = (Inr (), w')" and "del = True"
      by (auto simp: deleteNotification_def go_run split: prod.splits sum.splits)
    with rep.delete_notif [OF d] Some rn same show ?thesis by auto
  qed
qed

lemma fetchItem_run:
  assumes "FetchRosterItem (rsRep E) u j w = (Inr r, w')"
  shows "r = items w u j \<and> items w' = items w \<and> notifs w' = notifs w"
  using rep.fetch_item [OF assms] run_keeps [OF rep.reads_keep(1) assms] by auto

end

section \<open>Agreement of two rosters\<close>

type_synonym rosters = "(string \<Rightarrow> string \<rightharpoonup> roster_item) \<times> (string \<Rightarrow> string \<rightharpoonup> roster_notification)"

lemma sub_distinct [simp]:
  "subNone \<noteq> subFrom" "subNone \<noteq> subTo" "subNone \<noteq> subBoth" "subFrom \<noteq> subTo" "subFrom \<noteq> subBoth" "subTo \<noteq> subBoth"
  "subFrom \<noteq> subNone" "subTo \<noteq> subNone" "subBoth \<noteq> subNone" "subTo \<noteq> subFrom" "subBoth \<noteq> subFrom" "subBoth \<noteq> subTo"
  by (simp_all add: sub_defs)

definition sub_of :: "roster_item option \<Rightarrow> string" where
  "sub_of a = (case a of None \<Rightarrow> subNone | Some ri \<Rightarrow> riSubscription ri)"

definition ask_of :: "roster_item option \<Rightarrow> bool" where
  "ask_of a = (case a of None \<Rightarrow> False | Some ri \<Rightarrow> riAsk ri)"

text \<open>\<open>a\<close> is what one user holds about the other, \<open>b\<close> what the other holds about him, \<open>n\<close> whether the
  other has his request pending.\<close>

definition mutual :: "string \<Rightarrow> string \<Rightarrow> bool" where
  "mutual s t \<longleftrightarrow> (s = subNone \<and> t = subNone) \<or> (s = subTo \<and> t = subFrom) \<or> (s = subFrom \<and> t = subTo) \<or> (s = subBoth \<and> t = subBoth)"

definition pair_ok :: "roster_item option \<Rightarrow> roster_item option \<Rightarrow> bool \<Rightarrow> bool" where
  "pair_ok a b n \<longleftrightarrow> mutual (sub_of a) (sub_of b) \<and> (ask_of a \<longleftrightarrow> n) \<and>
     (ask_of a \<longrightarrow> sub_of a = subNone \<or> sub_of a = subFrom)"

lemmas pair_defs = pair_ok_def mutual_def sub_of_def ask_of_def

definition valid_bare :: "xlib \<Rightarrow> jid \<Rightarrow> bool" where
  "valid_bare X j \<longleftrightarrow> Resource j = [] \<and> NewJIDWithString X (JIDString X j) True = Some j"

definition local_jid :: "string \<Rightarrow> string \<Rightarrow> jid" where
  "local_jid dm x = \<lparr>Node = x, Domain = dm, Resource = []\<rparr>"

definition items_keyed :: "(string \<Rightarrow> string \<rightharpoonup> roster_item) \<Rightarrow> bool" where
  "items_keyed i \<longleftrightarrow> (\<forall>u j ri. i u j = Some ri \<longrightarrow> riUsername ri = u \<and> riJid ri = j)"

definition roster_inv :: "xlib \<Rightarrow> string \<Rightarrow> rosters \<Rightarrow> bool" where
  "roster_inv X dm r \<longleftrightarrow> items_keyed (fst r) \<and>
     (\<forall>x y. valid_bare X (local_jid dm x) \<longrightarrow> valid_bare X (local_jid dm y) \<longrightarrow> x \<noteq> y \<longrightarrow>
        pair_ok (fst r x (JIDString X (local_jid dm y))) (fst r y (JIDString X (local_jid dm x)))
          (snd r y (JIDString X (local_jid dm x)) \<noteq> None))"

lemma valid_bare_inj: "valid_bare X j \<Longrightarrow> valid_bare X k \<Longrightarrow> JIDString X j = JIDString X k \<longleftrightarrow> j = k"
  unfolding valid_bare_def by (metis option.inject)

lemma local_jid_eq: "valid_bare X j \<Longrightarrow> local_jid dm x = j \<longleftrightarrow> Domain j = dm \<and> Node j = x"
  by (cases j) (auto simp: local_jid_def valid_bare_def)

lemma empty_rosters_inv: "roster_inv X dm (\<lambda>_. Map.empty, \<lambda>_. Map.empty)"
  by (simp add: roster_inv_def items_keyed_def pair_defs)

text \<open>A change of the entries of two addresses about each other keeps the invariant if those
  entries agree afterwards, and entries are only written for local users.\<close>

lemma roster_inv_pair:
  assumes inv: "roster_inv X dm (i, n)" and U: "valid_bare X U" and C: "valid_bare X C"
    and keyed: "items_keyed i'"
    and frame: "\<And>u j. (u, j) \<noteq> (Node U, JIDString X C) \<Longrightarrow> (u, j) \<noteq> (Node C, JIDString X U) \<Longrightarrow> i' u j = i u j \<and> n' u j = n u j"
    and remoteU: "Domain U \<noteq> dm \<Longrightarrow> Domain C = dm \<Longrightarrow> Node U \<noteq> Node C \<Longrightarrow>
      i' (Node U) (JIDString X C) = i (Node U) (JIDString X C) \<and> n' (Node U) (JIDString X C) = n (Node U) (JIDString X C)"
    and remoteC: "Domain C \<noteq> dm \<Longrightarrow> Domain U = dm \<Longrightarrow> Node U \<noteq> Node C \<Longrightarrow>
      i' (Node C) (JIDString X U) = i (Node C) (JIDString X U) \<and> n' (Node C) (JIDString X U) = n (Node C) (JIDString X U)"
    and both: "Domain U = dm \<Longrightarrow> Domain C = dm \<Longrightarrow> Node U \<noteq> Node C \<Longrightarrow>
      pair_ok (i' (Node U) (JIDString X C)) (i' (Node C) (JIDString X U)) (n' (Node C) (JIDString X U) \<noteq> None) \<and>
      pair_ok (i' (Node C) (JIDString X U)) (i' (Node U) (JIDString X C)) (n' (Node U) (JIDString X C) \<noteq> None)"
  shows "roster_inv X dm (i', n')"
proof -
  have "pair_ok (i' x (JIDString X (local_jid dm y))) (i' y (JIDString X (local_jid dm x)))
          (n' y (JIDString X (local_jid dm x)) \<noteq> None)"
    if v: "valid_bare X (local_jid dm x)" "valid_bare X (local_jid dm y)" "x \<noteq> y" for x y
  proof -
    have js: "JIDString X (local_jid dm z) = JIDString X j \<longleftrightarrow> Domain j = dm \<and> Node j = z"
      if "valid_bare X j" "valid_bare X (local_jid dm z)" for j z
      using valid_bare_inj [OF that(2,1)] local_jid_eq [OF that(1)] by simp
    have loc: "local_jid dm (Node j) = j" if "Domain j = dm" "valid_bare X j" for j
      using local_jid_eq [OF that(2)] that by simp
    consider (uc) "x = Node U" "y = Node C" "Domain U = dm" "Domain C = dm"
      | (cu) "x = Node C" "y = Node U" "Domain U = dm" "Domain C = dm"
      | (other) "\<not> (x = Node U \<and> y = Node C \<and> Domain U = dm \<and> Domain C = dm)"
          "\<not> (x = Node C \<and> y = Node U \<and> Domain U = dm \<and> Domain C = dm)" by blast
    then show ?thesis
    proof cases
      case uc
      with both v loc U C show ?thesis by simp
    next
      case cu
      with both v loc U C show ?thesis by fastforce
    next
      case other
      have same: "i' a (JIDString X (local_jid dm b)) = i a (JIDString X (local_jid dm b)) \<and>
          n' a (JIDString X (local_jid dm b)) = n a (JIDString X (local_jid dm b))"
        if ab: "valid_bare X (local_jid dm b)" "a \<noteq> b"
          "\<not> (a = Node U \<and> b = Node C \<and> Domain U = dm \<and> Domain C = dm)"
          "\<not> (a = Node C \<and> b = Node U \<and> Domain U = dm \<and> Domain C = dm)" for a b
      proof (cases "(a = Node U \<and> b = Node C \<and> Domain C = dm) \<or> (a = Node C \<and> b = Node U \<and> Domain U = dm)")
        case True
        with ab remoteU remoteC loc U C show ?thesis by auto
      next
        case False
        with ab(1) frame [of a "JIDString X (local_jid dm b)"] show ?thesis by (auto simp: js [OF U] js [OF C])
      qed
      from inv v have "pair_ok (i x (JIDString X (local_jid dm y))) (i y (JIDString X (local_jid dm x)))
          (n y (JIDString X (local_jid dm x)) \<noteq> None)" by (simp add: roster_inv_def)
      with same [of y x] same [of x y] other v show ?thesis by auto
    qed
  qed
  with keyed show ?thesis by (simp add: roster_inv_def)
qed

text \<open>Setting one entry of a table.\<close>

definition set_entry :: "('u \<Rightarrow> 'j \<rightharpoonup> 'a) \<Rightarrow> 'u \<Rightarrow> 'j \<Rightarrow> 'a option \<Rightarrow> 'u \<Rightarrow> 'j \<rightharpoonup> 'a" where
  "set_entry i u j a = i(u := (i u)(j := a))"

lemma set_entry_apply: "set_entry i u j a u' j' = (if u' = u \<and> j' = j then a else i u' j')"
  by (simp add: set_entry_def)

section \<open>Successful runs\<close>

text \<open>\<open>after f x Q\<close>: every run of \<open>f\<close> from rosters \<open>x\<close> that succeeds ends in rosters with \<open>Q\<close>.\<close>

context roster_module
begin

definition after :: "('w, 'a) go \<Rightarrow> rosters \<Rightarrow> ('a \<Rightarrow> rosters \<Rightarrow> bool) \<Rightarrow> bool" where
  "after f x Q \<longleftrightarrow> (\<forall>w a w'. rosters w = x \<longrightarrow> f w = (Inr a, w') \<longrightarrow> Q a (rosters w'))"

lemma after_ret: "Q a x \<Longrightarrow> after (ret a) x Q"
  by (auto simp: after_def go_run)

lemma after_throw: "after (throw e) x Q"
  by (simp add: after_def go_run)

lemma after_andthen:
  assumes "after f x (\<lambda>a y. after (g a) y Q)"
  shows "after (andthen f g) x Q"
  unfolding after_def
proof (intro allI impI)
  fix w a w' assume w: "rosters w = x" and "andthen f g w = (Inr a, w')"
  then obtain b w1 where "f w = (Inr b, w1)" "g b w1 = (Inr a, w')"
    by (auto simp: go_run split: prod.splits sum.splits)
  with assms w show "Q a (rosters w')" unfolding after_def by blast
qed

lemma after_if: "(b \<Longrightarrow> after f x Q) \<Longrightarrow> (\<not> b \<Longrightarrow> after g x Q) \<Longrightarrow> after (if b then f else g) x Q"
  by simp

lemma after_option:
  "(a = None \<Longrightarrow> after f x Q) \<Longrightarrow> (\<And>y. a = Some y \<Longrightarrow> after (g y) x Q) \<Longrightarrow>
     after (case a of None \<Rightarrow> f | Some y \<Rightarrow> g y) x Q"
  by (cases a) auto

lemma after_keeps:
  assumes "\<And>x. keeps (\<lambda>w. rosters w = x) f" and "\<And>a. Q a x"
  shows "after f x Q"
  unfolding after_def
proof (intro allI impI)
  fix w a w' assume "rosters w = x" and "f w = (Inr a, w')"
  then have "rosters w' = x" by (rule keeps_run [OF assms(1)])
  with assms(2) show "Q a (rosters w')" by simp
qed

lemma after_route: "Q () x \<Longrightarrow> after (route_ignore E el) x Q"
  by (rule after_keeps [OF route_ignore_keeps]) simp

lemma after_presences: "Q () x \<Longrightarrow> after (routePresencesFrom E name j typ) x Q"
  by (rule after_keeps [OF routePresencesFrom_keeps]) simp

lemma after_fetch: "Q (fst x u j) x \<Longrightarrow> after (FetchRosterItem (rsRep E) u j) x Q"
  unfolding after_def by (auto dest!: fetchItem_run)

lemma after_upsert:
  "Q () (set_entry (fst x) (riUsername ri) (riJid ri) (Some ri), snd x) \<Longrightarrow> after (upsertItem E ri) x Q"
  unfolding after_def set_entry_def by (auto dest!: upsertItem_run)

lemma after_delete:
  "Q () (set_entry (fst x) (riUsername ri) (riJid ri) None, snd x) \<Longrightarrow> after (deleteItem E ri) x Q"
  unfolding after_def set_entry_def by (auto dest!: deleteItem_run)

lemma after_upsertNotification:
  "(\<And>rn. Q () (fst x, set_entry (snd x) c (JIDString (rsLib E) j) (Some rn))) \<Longrightarrow> after (upsertNotification E c j p) x Q"
  unfolding after_def set_entry_def by (auto dest!: upsertNotification_run)

lemma after_deleteNotification:
  "Q (snd x c (JIDString (rsLib E) j) \<noteq> None) (fst x, set_entry (snd x) c (JIDString (rsLib E) j) None) \<Longrightarrow>
     after (deleteNotification E c j) x Q"
  unfolding after_def set_entry_def by (auto dest!: deleteNotification_run)

lemmas after_rules = after_andthen after_if after_option after_ret after_throw after_route after_presences
  after_fetch after_upsert after_delete after_upsertNotification after_deleteNotification

end

lemma roster_inv_get:
  assumes "roster_inv X dm (i, n)" "valid_bare X U" "valid_bare X C" "Domain U = dm" "Domain C = dm" "Node U \<noteq> Node C"
  shows "pair_ok (i (Node U) (JIDString X C)) (i (Node C) (JIDString X U)) (n (Node C) (JIDString X U) \<noteq> None)"
    "pair_ok (i (Node C) (JIDString X U)) (i (Node U) (JIDString X C)) (n (Node U) (JIDString X C) \<noteq> None)"
proof -
  have "local_jid dm (Node U) = U" "local_jid dm (Node C) = C"
    using assms local_jid_eq by auto
  moreover have "pair_ok (i x (JIDString X (local_jid dm y))) (i y (JIDString X (local_jid dm x)))
          (n y (JIDString X (local_jid dm x)) \<noteq> None)"
    if "valid_bare X (local_jid dm x)" "valid_bare X (local_jid dm y)" "x \<noteq> y" for x y
    using assms(1) that by (simp add: roster_inv_def)
  ultimately show "pair_ok (i (Node U) (JIDString X C)) (i (Node C) (JIDString X U)) (n (Node C) (JIDString X U) \<noteq> None)"
    "pair_ok (i (Node C) (JIDString X U)) (i (Node U) (JIDString X C)) (n (Node U) (JIDString X C) \<noteq> None)"
    using assms(2,3,6) by metis+
qed

lemma roster_inv_keyed: "roster_inv X dm (i, n) \<Longrightarrow> i u j = Some ri \<Longrightarrow> riUsername ri = u \<and> riJid ri = j"
  by (simp add: roster_inv_def items_keyed_def)

lemma items_keyed_set [simp]:
  "items_keyed i \<Longrightarrow> riUsername ri = u \<Longrightarrow> riJid ri = j \<Longrightarrow> items_keyed (set_entry i u j (Some ri))"
  "items_keyed i \<Longrightarrow> items_keyed (set_entry i u j None)"
  by (auto simp: items_keyed_def set_entry_def)

text \<open>The entries of two addresses about each other, and what the invariant says of them.\<close>

definition two_users ::
  "xlib \<Rightarrow> string \<Rightarrow> jid \<Rightarrow> jid \<Rightarrow> (string \<Rightarrow> string \<rightharpoonup> roster_item) \<Rightarrow> (string \<Rightarrow> string \<rightharpoonup> roster_notification) \<Rightarrow> bool" where
  "two_users X dm U C i n \<longleftrightarrow> roster_inv X dm (i, n) \<and> valid_bare X U \<and> valid_bare X C"

text \<open>Two tables with the entries of two addresses about each other replaced: \<open>a\<close> is what \<open>U\<close> holds
  about \<open>C\<close>, \<open>b\<close> what \<open>C\<close> holds about \<open>U\<close>, \<open>nc\<close> and \<open>nu\<close> the requests pending at \<open>C\<close> and at \<open>U\<close>.\<close>

definition overlay ::
  "xlib \<Rightarrow> jid \<Rightarrow> jid \<Rightarrow> rosters \<Rightarrow> roster_item option \<Rightarrow> roster_item option \<Rightarrow>
   roster_notification option \<Rightarrow> roster_notification option \<Rightarrow> rosters" where
  "overlay X U C r a b nc nu =
     (set_entry (set_entry (fst r) (Node U) (JIDString X C) a) (Node C) (JIDString X U) b,
      set_entry (set_entry (snd r) (Node C) (JIDString X U) nc) (Node U) (JIDString X C) nu)"

lemma overlay_id:
  "(i, n) = overlay X U C (i, n) (i (Node U) (JIDString X C)) (i (Node C) (JIDString X U))
     (n (Node C) (JIDString X U)) (n (Node U) (JIDString X C))"
  by (simp add: overlay_def set_entry_def fun_eq_iff)

definition item_for :: "string \<Rightarrow> string \<Rightarrow> roster_item option \<Rightarrow> bool" where
  "item_for u j a \<longleftrightarrow> (\<forall>ri. a = Some ri \<longrightarrow> riUsername ri = u \<and> riJid ri = j)"

lemma overlay_inv:
  assumes two: "two_users X dm U C i n" and ne: "JIDString X U \<noteq> JIDString X C"
    and a: "item_for (Node U) (JIDString X C) a" and b: "item_for (Node C) (JIDString X U) b"
    and U: "Domain U \<noteq> dm \<Longrightarrow> a = i (Node U) (JIDString X C) \<and> nu = n (Node U) (JIDString X C)"
    and C: "Domain C \<noteq> dm \<Longrightarrow> b = i (Node C) (JIDString X U) \<and> nc = n (Node C) (JIDString X U)"
    and both: "Domain U = dm \<Longrightarrow> Domain C = dm \<Longrightarrow> pair_ok a b (nc \<noteq> None) \<and> pair_ok b a (nu \<noteq> None)"
  shows "roster_inv X dm (overlay X U C (i, n) a b nc nu)"
proof -
  from two have inv: "roster_inv X dm (i, n)" "valid_bare X U" "valid_bare X C" by (simp_all add: two_users_def)
  then have "items_keyed i" by (simp add: roster_inv_def)
  with a b have "items_keyed (set_entry (set_entry i (Node U) (JIDString X C) a) (Node C) (JIDString X U) b)"
    by (auto simp: items_keyed_def set_entry_def item_for_def)
  then show ?thesis unfolding overlay_def fst_conv snd_conv
    by (rule roster_inv_pair [OF inv]) (use ne U C both in \<open>auto simp: set_entry_apply\<close>)
qed

lemma two_keys:
  assumes "two_users X dm U C i n"
  shows "item_for (Node U) (JIDString X C) (i (Node U) (JIDString X C))"
    "item_for (Node C) (JIDString X U) (i (Node C) (JIDString X U))"
  using assms roster_inv_keyed [of X dm i n] by (auto simp: two_users_def item_for_def)

lemma two_pair:
  assumes "two_users X dm U C i n" "JIDString X U \<noteq> JIDString X C" "Domain U = dm" "Domain C = dm"
  shows "pair_ok (i (Node U) (JIDString X C)) (i (Node C) (JIDString X U)) (n (Node C) (JIDString X U) \<noteq> None)"
    "pair_ok (i (Node C) (JIDString X U)) (i (Node U) (JIDString X C)) (n (Node U) (JIDString X C) \<noteq> None)"
proof -
  have "Node U \<noteq> Node C" using assms by (cases U; cases C) (auto simp: two_users_def valid_bare_def)
  with assms roster_inv_get [of X dm i n U C]
  show "pair_ok (i (Node U) (JIDString X C)) (i (Node C) (JIDString X U)) (n (Node C) (JIDString X U) \<noteq> None)"
    "pair_ok (i (Node C) (JIDString X U)) (i (Node U) (JIDString X C)) (n (Node U) (JIDString X C) \<noteq> None)"
    by (auto simp: two_users_def)
qed

lemma overlay_get:
  assumes "JIDString X U \<noteq> JIDString X C"
  shows "fst (overlay X U C r a b nc nu) (Node U) (JIDString X C) = a" "fst (overlay X U C r a b nc nu) (Node C) (JIDString X U) = b"
    "snd (overlay X U C r a b nc nu) (Node C) (JIDString X U) = nc"
  using assms by (simp_all add: overlay_def set_entry_apply)

lemma overlay_set:
  assumes "JIDString X U \<noteq> JIDString X C"
  shows "(set_entry (fst (overlay X U C r a b nc nu)) (Node U) (JIDString X C) a', snd (overlay X U C r a b nc nu)) = overlay X U C r a' b nc nu"
    "(set_entry (fst (overlay X U C r a b nc nu)) (Node C) (JIDString X U) b', snd (overlay X U C r a b nc nu)) = overlay X U C r a b' nc nu"
    "(fst (overlay X U C r a b nc nu), set_entry (snd (overlay X U C r a b nc nu)) (Node C) (JIDString X U) nc') = overlay X U C r a b nc' nu"
  using assms unfolding overlay_def prod.inject fst_conv snd_conv by (simp_all add: fun_eq_iff set_entry_apply)

section \<open>The specification of the handshake\<close>

text \<open>What each presence does to \<open>(a, b, q)\<close>: the item of the user about the contact, the item of the
  contact about the user, and whether the contact has the user's request pending. \<open>lu\<close> and \<open>lc\<close> tell
  which of the two is served here. In a subscribe and an unsubscribe the sender is the user, in a
  subscribed and an unsubscribed it is the contact.

  The tables below name the subscriptions and the fields of a new item by themselves; nothing of the
  module's own functions occurs in them. A side that loses a subscription it does not have is left
  with none, so that a user who cancels while only the contact is subscribed ends that subscription
  too.\<close>

type_synonym pair = "roster_item option \<times> roster_item option \<times> bool"

definition sub_table :: "(string \<times> string) list \<Rightarrow> string \<Rightarrow> string \<Rightarrow> string" where
  "sub_table rows other s = (case map_of rows s of Some t \<Rightarrow> t | None \<Rightarrow> other)"

abbreviation without_to :: "string \<Rightarrow> string" where
  "without_to \<equiv> sub_table [(''both'', ''from'')] ''none''"

abbreviation without_from :: "string \<Rightarrow> string" where
  "without_from \<equiv> sub_table [(''both'', ''to'')] ''none''"

abbreviation with_from :: "string \<Rightarrow> string" where
  "with_from s \<equiv> sub_table [(''none'', ''from''), (''to'', ''both'')] s s"

definition spec_subscribe :: "bool \<Rightarrow> bool \<Rightarrow> string \<Rightarrow> string \<Rightarrow> pair \<Rightarrow> pair" where
  "spec_subscribe lu lc u cj = (\<lambda>(a, b, q).
     if \<not> lu then (a, b, lc \<or> q)
     else case a of
       None \<Rightarrow> (Some \<lparr>riUsername = u, riJid = cj, riName = [], riSubscription = ''none'', riAsk = True, riGroups = []\<rparr>, b, lc \<or> q)
     | Some ri \<Rightarrow> if riSubscription ri \<in> {''to'', ''both''} \<or> riAsk ri then (a, b, q)
                 else (Some (ri\<lparr>riAsk := True\<rparr>), b, lc \<or> q))"

definition spec_subscribed :: "bool \<Rightarrow> bool \<Rightarrow> string \<Rightarrow> string \<Rightarrow> pair \<Rightarrow> pair" where
  "spec_subscribed lu lc c uj = (\<lambda>(a, b, q).
     (if lu then map_option (\<lambda>ri.
          if riSubscription ri = ''from'' then ri\<lparr>riSubscription := ''both'', riAsk := False\<rparr>
          else if riSubscription ri = ''none'' then ri\<lparr>riSubscription := ''to'', riAsk := False\<rparr> else ri) a
      else a,
      if lc then Some (case b of
           None \<Rightarrow> \<lparr>riUsername = c, riJid = uj, riName = [], riSubscription = ''from'', riAsk = False, riGroups = []\<rparr>
         | Some ri \<Rightarrow> ri\<lparr>riSubscription := with_from (riSubscription ri)\<rparr>)
      else b,
      q \<and> \<not> lc))"

definition spec_unsubscribe :: "bool \<Rightarrow> bool \<Rightarrow> pair \<Rightarrow> pair" where
  "spec_unsubscribe lu lc = (\<lambda>(a, b, q).
     (if lu then map_option (\<lambda>ri. ri\<lparr>riSubscription := without_to (riSubscription ri)\<rparr>) a else a,
      if lc then map_option (\<lambda>ri. ri\<lparr>riSubscription := without_from (riSubscription ri)\<rparr>) b else b, q))"

definition spec_unsubscribed :: "bool \<Rightarrow> bool \<Rightarrow> pair \<Rightarrow> pair" where
  "spec_unsubscribed lu lc = (\<lambda>(a, b, q).
     (if lu then map_option (\<lambda>ri. ri\<lparr>riSubscription :=
          (if \<not> riAsk ri then without_to (riSubscription ri) else riSubscription ri), riAsk := False\<rparr>) a else a,
      if lc \<and> \<not> q then map_option (\<lambda>ri. ri\<lparr>riSubscription := without_from (riSubscription ri)\<rparr>) b else b,
      q \<and> \<not> lc))"

definition spec_remove :: "bool \<Rightarrow> pair \<Rightarrow> pair" where
  "spec_remove lc = (\<lambda>(a, b, q).
     (None, if lc then map_option (\<lambda>ri. ri\<lparr>riSubscription := subNone\<rparr>) b else b, if a = None then q else False))"

definition update_entry :: "string \<Rightarrow> roster_item \<Rightarrow> roster_item option \<Rightarrow> roster_item" where
  "update_entry username ri usrRi = (case usrRi of
     Some r \<Rightarrow> r\<lparr>riName := (if length (riName ri) > 0 then riName ri else riName r), riGroups := riGroups ri\<rparr>
   | None \<Rightarrow> \<lparr>riUsername = username, riJid = riJid ri, riName = riName ri, riSubscription = subNone,
              riAsk = riAsk ri, riGroups = riGroups ri\<rparr>)"

text \<open>The module's functions are these tables.\<close>

lemma module_tables:
  "drop_to = without_to" "drop_from = without_from" "subscribed_contact s = with_from s"
  "new_item u j t k = \<lparr>riUsername = u, riJid = j, riName = [], riSubscription = t, riAsk = k, riGroups = []\<rparr>"
  by (simp_all add: fun_eq_iff sub_table_def drop_to_def drop_from_def subscribed_contact_def new_item_def sub_defs)

lemmas spec_defs =
  spec_subscribe_def [folded module_tables, folded sub_defs] spec_subscribed_def [folded module_tables, folded sub_defs]
  spec_unsubscribe_def [folded module_tables] spec_unsubscribed_def [folded module_tables] spec_remove_def

definition pair_post ::
  "xlib \<Rightarrow> jid \<Rightarrow> jid \<Rightarrow> rosters \<Rightarrow> roster_notification option \<Rightarrow> bool \<Rightarrow> roster_notification option \<Rightarrow> pair \<Rightarrow> rosters \<Rightarrow> bool" where
  "pair_post X U C r nc lc nu p y \<longleftrightarrow>
     (\<exists>nc'. y = overlay X U C r (fst p) (fst (snd p)) nc' nu \<and> (nc' \<noteq> None) = snd (snd p) \<and> (\<not> lc \<longrightarrow> nc' = nc))"

lemma pair_postI:
  "p = (a, b, nc' \<noteq> None) \<Longrightarrow> (\<not> lc \<Longrightarrow> nc' = nc) \<Longrightarrow> pair_post X U C r nc lc nu p (overlay X U C r a b nc' nu)"
  by (auto simp: pair_post_def)

context roster_module
begin

lemma overlay_fetch:
  assumes "JIDString X U \<noteq> JIDString X C"
  shows "Q b (overlay X U C r a b nc nu) \<Longrightarrow> after (FetchRosterItem (rsRep E) (Node C) (JIDString X U)) (overlay X U C r a b nc nu) Q"
    "Q a (overlay X U C r a b nc nu) \<Longrightarrow> after (FetchRosterItem (rsRep E) (Node U) (JIDString X C)) (overlay X U C r a b nc nu) Q"
  by (rule after_fetch, simp add: overlay_get [OF assms])+

lemma overlay_upsert:
  assumes "JIDString X U \<noteq> JIDString X C"
  shows "item_for (Node U) (JIDString X C) (Some ri) \<Longrightarrow> Q () (overlay X U C r (Some ri) b nc nu) \<Longrightarrow>
     after (upsertItem E ri) (overlay X U C r a b nc nu) Q"
  "item_for (Node C) (JIDString X U) (Some ri) \<Longrightarrow> Q () (overlay X U C r a (Some ri) nc nu) \<Longrightarrow>
     after (upsertItem E ri) (overlay X U C r a b nc nu) Q"
  "item_for (Node U) (JIDString X C) (Some ri) \<Longrightarrow> Q () (overlay X U C r None b nc nu) \<Longrightarrow>
     after (deleteItem E ri) (overlay X U C r a b nc nu) Q"
  by (rule after_upsert after_delete, simp add: item_for_def overlay_set [OF assms])+

lemma overlay_notify:
  assumes "JIDString (rsLib E) U \<noteq> JIDString (rsLib E) C" and "\<And>rn. Q () (overlay (rsLib E) U C r a b (Some rn) nu)"
  shows "after (upsertNotification E (Node C) U p) (overlay (rsLib E) U C r a b nc nu) Q"
  by (rule after_upsertNotification) (simp add: overlay_set [OF assms(1)] assms(2))

lemma overlay_unnotify:
  assumes "JIDString (rsLib E) U \<noteq> JIDString (rsLib E) C" and "Q (nc \<noteq> None) (overlay (rsLib E) U C r a b None nu)"
  shows "after (deleteNotification E (Node C) U) (overlay (rsLib E) U C r a b nc nu) Q"
  by (rule after_deleteNotification) (use assms(2) in \<open>simp add: overlay_set [OF assms(1)] overlay_get [OF assms(1)]\<close>)

lemmas overlay_steps = after_andthen after_if after_option after_ret after_throw after_route after_presences
  overlay_fetch overlay_notify overlay_unnotify

lemma unsubscribe_spec:
  assumes U: "ToBareJID (rsLib E) (FromJID (rsLib E) pr) = U" and C: "ToBareJID (rsLib E) (ToJID (rsLib E) pr) = C"
    and ne: "JIDString (rsLib E) U \<noteq> JIDString (rsLib E) C"
    and a: "item_for (Node U) (JIDString (rsLib E) C) a" and b: "item_for (Node C) (JIDString (rsLib E) U) b"
  shows "after (processUnsubscribe E pr) (overlay (rsLib E) U C r a b nc nu)
    (\<lambda>_. pair_post (rsLib E) U C r nc (rsIsLocalHost E (Domain C)) nu
       (spec_unsubscribe (rsIsLocalHost E (Domain U)) (rsIsLocalHost E (Domain C)) (a, b, nc \<noteq> None)))"
  unfolding processUnsubscribe_def Let_def U C
  by (rule overlay_steps ne
    | (rule overlay_upsert [OF ne], use a b in \<open>simp add: item_for_def; fail\<close>)
    | (rule pair_postI, simp add: spec_defs split: option.splits, simp; fail))+

lemma subscribe_spec:
  assumes U: "ToBareJID (rsLib E) (FromJID (rsLib E) pr) = U" and C: "ToBareJID (rsLib E) (ToJID (rsLib E) pr) = C"
    and ne: "JIDString (rsLib E) U \<noteq> JIDString (rsLib E) C"
    and a: "item_for (Node U) (JIDString (rsLib E) C) a"
  shows "after (processSubscribe E pr) (overlay (rsLib E) U C r a b nc nu)
    (\<lambda>_. pair_post (rsLib E) U C r nc (rsIsLocalHost E (Domain C)) nu
       (spec_subscribe (rsIsLocalHost E (Domain U)) (rsIsLocalHost E (Domain C)) (Node U) (JIDString (rsLib E) C) (a, b, nc \<noteq> None)))"
  unfolding processSubscribe_def Let_def U C
  by (rule overlay_steps ne
    | (rule overlay_upsert(1) [OF ne], use a in \<open>simp add: item_for_def new_item_def; fail\<close>)
    | (rule pair_postI, simp add: spec_defs split: option.splits, simp; fail))+

lemma subscribed_spec:
  assumes U: "ToBareJID (rsLib E) (ToJID (rsLib E) pr) = U" and C: "ToBareJID (rsLib E) (FromJID (rsLib E) pr) = C"
    and ne: "JIDString (rsLib E) U \<noteq> JIDString (rsLib E) C"
    and a: "item_for (Node U) (JIDString (rsLib E) C) a" and b: "item_for (Node C) (JIDString (rsLib E) U) b"
  shows "after (processSubscribed E pr) (overlay (rsLib E) U C r a b nc nu)
    (\<lambda>_. pair_post (rsLib E) U C r nc (rsIsLocalHost E (Domain C)) nu
       (spec_subscribed (rsIsLocalHost E (Domain U)) (rsIsLocalHost E (Domain C)) (Node C) (JIDString (rsLib E) U) (a, b, nc \<noteq> None)))"
proof -
  let ?b = "case b of Some ri \<Rightarrow> ri\<lparr>riSubscription := subscribed_contact (riSubscription ri)\<rparr>
    | None \<Rightarrow> new_item (Node C) (JIDString (rsLib E) U) subFrom False"
  have b': "item_for (Node C) (JIDString (rsLib E) U) (Some ?b)"
    using b by (cases b) (simp_all add: item_for_def new_item_def)
  show ?thesis
    unfolding processSubscribed_def Let_def U C
    by (rule overlay_steps ne overlay_upsert(2) [OF ne b']
      | (rule overlay_upsert(1) [OF ne], use a in \<open>simp add: item_for_def; fail\<close>)
      | (rule pair_postI, simp add: spec_defs, simp; fail))+
qed

lemma unsubscribed_spec:
  assumes U: "ToBareJID (rsLib E) (ToJID (rsLib E) pr) = U" and C: "ToBareJID (rsLib E) (FromJID (rsLib E) pr) = C"
    and ne: "JIDString (rsLib E) U \<noteq> JIDString (rsLib E) C"
    and a: "item_for (Node U) (JIDString (rsLib E) C) a" and b: "item_for (Node C) (JIDString (rsLib E) U) b"
  shows "after (processUnsubscribed E pr) (overlay (rsLib E) U C r a b nc nu)
    (\<lambda>_. pair_post (rsLib E) U C r nc (rsIsLocalHost E (Domain C)) nu
       (spec_unsubscribed (rsIsLocalHost E (Domain U)) (rsIsLocalHost E (Domain C)) (a, b, nc \<noteq> None)))"
  unfolding processUnsubscribed_def unsubscribed_tail_def Let_def U C
  by (rule overlay_steps ne
    | (rule overlay_upsert [OF ne], use a b in \<open>simp add: item_for_def; fail\<close>)
    | (rule pair_postI, simp add: spec_defs split: option.splits, simp; fail))+

lemma or_report_run: "or_report E iq m w = (Inr a, w') \<Longrightarrow> m w = (Inr a, w')"
  by (cases "m w") (auto simp: or_report_def go_run split: prod.splits sum.splits if_splits)

lemma after_report: "after m x Q \<Longrightarrow> after (or_report E iq m) x Q"
  unfolding after_def by (auto dest!: or_report_run)

lemma remove_spec:
  assumes C: "NewJIDWithString (rsLib E) (JIDString (rsLib E) C) True = Some C" and j: "riJid item = JIDString (rsLib E) C"
    and ne: "JIDString (rsLib E) U \<noteq> JIDString (rsLib E) C"
    and a: "item_for (Node U) (JIDString (rsLib E) C) a" and b: "item_for (Node C) (JIDString (rsLib E) U) b"
    and nc: "rsIsLocalHost E (Domain C) \<or> nc = None"
  shows "after (removeItem E item U) (overlay (rsLib E) U C r a b nc nu)
    (\<lambda>_. pair_post (rsLib E) U C r nc (rsIsLocalHost E (Domain C)) nu
       (spec_remove (rsIsLocalHost E (Domain C)) (a, b, nc \<noteq> None)))"
  unfolding removeItem_def remove_contact_side_def Let_def j C option.case
  by (rule overlay_steps ne overlay_upsert(3) [OF ne]
    | (rule overlay_upsert(2) [OF ne], use b in \<open>simp add: item_for_def; fail\<close>)
    | (use a in \<open>simp add: item_for_def; fail\<close>)
    | (rule pair_postI, simp add: spec_defs, use nc in \<open>simp; fail\<close>))+

lemma update_spec:
  assumes j: "riJid item = JIDString (rsLib E) C" and ne: "JIDString (rsLib E) U \<noteq> JIDString (rsLib E) C"
    and a: "item_for (Node U) (JIDString (rsLib E) C) a"
  shows "after (updateItem E item (Node U)) (overlay (rsLib E) U C r a b nc nu)
    (\<lambda>_. pair_post (rsLib E) U C r nc lc nu (Some (update_entry (Node U) item a), b, nc \<noteq> None))"
proof -
  have a': "item_for (Node U) (JIDString (rsLib E) C) (Some (update_entry (Node U) item a))"
    using a j by (cases a) (simp_all add: item_for_def update_entry_def)
  show ?thesis
    unfolding updateItem_def j update_entry_def [symmetric, of _ item, unfolded j]
    by (rule overlay_steps ne overlay_upsert(1) [OF ne a'] | (rule pair_postI, simp, simp; fail))+
qed

end

section \<open>The specification keeps rosters in agreement\<close>

lemmas sub_moves = drop_to_def drop_from_def subscribed_contact_def new_item_def

definition pair_good :: "bool \<Rightarrow> pair \<Rightarrow> bool" where
  "pair_good m = (\<lambda>(a, b, q). pair_ok a b q \<and> pair_ok b a m)"

lemmas pair_good_defs = pair_good_def pair_defs

lemma subscribe_keeps_pair: "pair_good m (a, b, q) \<Longrightarrow> pair_good m (spec_subscribe True True u cj (a, b, q))"
  by (cases a; cases b; simp add: pair_good_defs spec_defs new_item_def; elim conjE disjE; simp)

lemma subscribed_keeps_pair:
  "a \<noteq> None \<Longrightarrow> pair_good m (a, b, q) \<Longrightarrow> pair_good m (spec_subscribed True True c uj (a, b, q))"
  by (cases a; cases b; simp add: pair_good_defs spec_defs sub_moves; elim conjE disjE; simp)

lemma unsubscribe_keeps_pair: "pair_good m (a, b, q) \<Longrightarrow> pair_good m (spec_unsubscribe True True (a, b, q))"
  by (cases a; cases b; simp add: pair_good_defs spec_defs; elim conjE disjE; simp add: sub_moves)

lemma unsubscribed_keeps_pair: "pair_good m (a, b, q) \<Longrightarrow> pair_good m (spec_unsubscribed True True (a, b, q))"
  by (cases a; cases b; cases q; simp add: pair_good_defs spec_defs; elim conjE disjE; simp add: sub_moves)

lemma remove_keeps_pair: "pair_good m (a, b, q) \<Longrightarrow> pair_good m (spec_remove True (a, b, q))"
  by (cases a; cases b; simp add: pair_good_defs spec_defs; elim conjE disjE; simp)

lemma update_keeps_pair:
  "(a = None \<longrightarrow> \<not> riAsk item) \<Longrightarrow> pair_good m (a, b, q) \<Longrightarrow> pair_good m (Some (update_entry u item a), b, q)"
  by (cases a; cases b; simp add: pair_good_defs update_entry_def)

text \<open>A step between two addresses that follows the specification keeps the invariant.\<close>

lemma pair_post_inv:
  assumes two: "two_users X dm U C i n" and ne: "JIDString X U \<noteq> JIDString X C"
    and post: "pair_post X U C (i, n) (n (Node C) (JIDString X U)) (Domain C = dm) (n (Node U) (JIDString X C)) p y"
    and a: "item_for (Node U) (JIDString X C) (fst p)" and b: "item_for (Node C) (JIDString X U) (fst (snd p))"
    and lu: "Domain U \<noteq> dm \<Longrightarrow> fst p = i (Node U) (JIDString X C)"
    and lc: "Domain C \<noteq> dm \<Longrightarrow> fst (snd p) = i (Node C) (JIDString X U)"
    and good: "Domain U = dm \<Longrightarrow> Domain C = dm \<Longrightarrow>
      pair_good (n (Node U) (JIDString X C) \<noteq> None) (i (Node U) (JIDString X C), i (Node C) (JIDString X U), n (Node C) (JIDString X U) \<noteq> None) \<Longrightarrow>
      pair_good (n (Node U) (JIDString X C) \<noteq> None) p"
  shows "roster_inv X dm y"
proof -
  from post obtain nc' where y: "y = overlay X U C (i, n) (fst p) (fst (snd p)) nc' (n (Node U) (JIDString X C))"
    and nc: "(nc' \<noteq> None) = snd (snd p)" "Domain C \<noteq> dm \<longrightarrow> nc' = n (Node C) (JIDString X U)"
    by (auto simp: pair_post_def)
  show ?thesis unfolding y
  proof (rule overlay_inv [OF two ne a b])
    assume "Domain U = dm" "Domain C = dm"
    with good two_pair [OF two ne] have "pair_good (n (Node U) (JIDString X C) \<noteq> None) p" by (simp add: pair_good_def)
    with nc(1) show "pair_ok (fst p) (fst (snd p)) (nc' \<noteq> None) \<and>
        pair_ok (fst (snd p)) (fst p) (n (Node U) (JIDString X C) \<noteq> None)"
      by (cases p) (auto simp: pair_good_def)
  qed (use lu lc nc in auto)
qed

lemma spec_items:
  assumes "item_for u cj a" and "item_for c uj b"
  shows "item_for u cj (fst (spec_subscribe lu lc u cj (a, b, q)))" "fst (snd (spec_subscribe lu lc u cj (a, b, q))) = b"
    "item_for u cj (fst (spec_subscribed lu lc c uj (a, b, q)))" "item_for c uj (fst (snd (spec_subscribed lu lc c uj (a, b, q))))"
    "item_for u cj (fst (spec_unsubscribe lu lc (a, b, q)))" "item_for c uj (fst (snd (spec_unsubscribe lu lc (a, b, q))))"
    "item_for u cj (fst (spec_unsubscribed lu lc (a, b, q)))" "item_for c uj (fst (snd (spec_unsubscribed lu lc (a, b, q))))"
    "item_for u cj (fst (spec_remove lc (a, b, q)))" "item_for c uj (fst (snd (spec_remove lc (a, b, q))))"
    "riJid item = cj \<Longrightarrow> item_for u cj (Some (update_entry u item a))"
  using assms by (cases a; cases b; simp add: item_for_def spec_defs update_entry_def new_item_def)+

lemma spec_remote:
  "fst (spec_subscribe False lc u cj (a, b, q)) = a"
  "fst (spec_subscribed False lc c uj (a, b, q)) = a" "fst (snd (spec_subscribed lu False c uj (a, b, q))) = b"
  "fst (spec_unsubscribe False lc (a, b, q)) = a" "fst (snd (spec_unsubscribe lu False (a, b, q))) = b"
  "fst (spec_unsubscribed False lc (a, b, q)) = a" "fst (snd (spec_unsubscribed lu False (a, b, q))) = b"
  "fst (snd (spec_remove False (a, b, q))) = b"
  by (simp_all add: spec_defs)

context roster_module
begin

lemma after_mono: "after f x Q \<Longrightarrow> (\<And>a y. Q a y \<Longrightarrow> Q' a y) \<Longrightarrow> after f x Q'"
  unfolding after_def by blast

lemma subscribe_inv:
  assumes loc: "\<And>d. rsIsLocalHost E d \<longleftrightarrow> d = dm"
    and U: "ToBareJID (rsLib E) (FromJID (rsLib E) pr) = U" and C: "ToBareJID (rsLib E) (ToJID (rsLib E) pr) = C"
    and two: "two_users (rsLib E) dm U C i n" and ne: "JIDString (rsLib E) U \<noteq> JIDString (rsLib E) C"
  shows "after (processSubscribe E pr) (i, n) (\<lambda>_. roster_inv (rsLib E) dm)"
  by (subst overlay_id [of i n "rsLib E" U C], rule after_mono [OF subscribe_spec [OF U C ne two_keys(1) [OF two]]],
      erule pair_post_inv [OF two ne, folded loc])
    (simp_all add: two_keys [OF two] spec_items [OF two_keys [OF two]] spec_remote loc subscribe_keeps_pair)

lemma unsubscribe_inv:
  assumes loc: "\<And>d. rsIsLocalHost E d \<longleftrightarrow> d = dm"
    and U: "ToBareJID (rsLib E) (FromJID (rsLib E) pr) = U" and C: "ToBareJID (rsLib E) (ToJID (rsLib E) pr) = C"
    and two: "two_users (rsLib E) dm U C i n" and ne: "JIDString (rsLib E) U \<noteq> JIDString (rsLib E) C"
  shows "after (processUnsubscribe E pr) (i, n) (\<lambda>_. roster_inv (rsLib E) dm)"
  by (subst overlay_id [of i n "rsLib E" U C], rule after_mono [OF unsubscribe_spec [OF U C ne two_keys [OF two]]],
      erule pair_post_inv [OF two ne, folded loc])
    (simp_all add: spec_items [OF two_keys [OF two]] spec_remote loc unsubscribe_keeps_pair)

lemma subscribed_inv:
  assumes loc: "\<And>d. rsIsLocalHost E d \<longleftrightarrow> d = dm"
    and U: "ToBareJID (rsLib E) (ToJID (rsLib E) pr) = U" and C: "ToBareJID (rsLib E) (FromJID (rsLib E) pr) = C"
    and two: "two_users (rsLib E) dm U C i n" and ne: "JIDString (rsLib E) U \<noteq> JIDString (rsLib E) C"
    and known: "Domain U = dm \<Longrightarrow> Domain C = dm \<Longrightarrow> i (Node U) (JIDString (rsLib E) C) \<noteq> None"
  shows "after (processSubscribed E pr) (i, n) (\<lambda>_. roster_inv (rsLib E) dm)"
  by (subst overlay_id [of i n "rsLib E" U C], rule after_mono [OF subscribed_spec [OF U C ne two_keys [OF two]]],
      erule pair_post_inv [OF two ne, folded loc])
    (use known in \<open>simp_all add: spec_items [OF two_keys [OF two]] spec_remote loc subscribed_keeps_pair\<close>)

lemma unsubscribed_inv:
  assumes loc: "\<And>d. rsIsLocalHost E d \<longleftrightarrow> d = dm"
    and U: "ToBareJID (rsLib E) (ToJID (rsLib E) pr) = U" and C: "ToBareJID (rsLib E) (FromJID (rsLib E) pr) = C"
    and two: "two_users (rsLib E) dm U C i n" and ne: "JIDString (rsLib E) U \<noteq> JIDString (rsLib E) C"
  shows "after (processUnsubscribed E pr) (i, n) (\<lambda>_. roster_inv (rsLib E) dm)"
  by (subst overlay_id [of i n "rsLib E" U C], rule after_mono [OF unsubscribed_spec [OF U C ne two_keys [OF two]]],
      erule pair_post_inv [OF two ne, folded loc])
    (simp_all add: spec_items [OF two_keys [OF two]] spec_remote loc unsubscribed_keeps_pair)

lemma remove_inv:
  assumes loc: "\<And>d. rsIsLocalHost E d \<longleftrightarrow> d = dm" and j: "riJid item = JIDString (rsLib E) C"
    and two: "two_users (rsLib E) dm U C i n" and ne: "JIDString (rsLib E) U \<noteq> JIDString (rsLib E) C"
    and lu: "Domain U = dm" and nc: "Domain C = dm \<or> n (Node C) (JIDString (rsLib E) U) = None"
  shows "after (removeItem E item U) (i, n) (\<lambda>_. roster_inv (rsLib E) dm)"
proof -
  have C: "NewJIDWithString (rsLib E) (JIDString (rsLib E) C) True = Some C" using two by (simp add: two_users_def valid_bare_def)
  from nc have nc': "rsIsLocalHost E (Domain C) \<or> n (Node C) (JIDString (rsLib E) U) = None" by (simp add: loc)
  show ?thesis
    by (subst overlay_id [of i n "rsLib E" U C], rule after_mono [OF remove_spec [OF C j ne two_keys [OF two] nc']],
        erule pair_post_inv [OF two ne, folded loc])
      (simp_all add: spec_items [OF two_keys [OF two]] spec_remote loc lu remove_keeps_pair)
qed

lemma update_inv:
  assumes loc: "\<And>d. rsIsLocalHost E d \<longleftrightarrow> d = dm" and j: "riJid item = JIDString (rsLib E) C"
    and two: "two_users (rsLib E) dm U C i n" and ne: "JIDString (rsLib E) U \<noteq> JIDString (rsLib E) C"
    and lu: "Domain U = dm" and ask: "\<not> riAsk item"
  shows "after (updateItem E item (Node U)) (i, n) (\<lambda>_. roster_inv (rsLib E) dm)"
  by (subst overlay_id [of i n "rsLib E" U C], rule after_mono [OF update_spec [OF j ne two_keys(1) [OF two], where lc = "Domain C = dm"]],
      erule pair_post_inv [OF two ne])
    (use j ask in \<open>simp_all add: two_keys [OF two] spec_items [OF two_keys [OF two]] lu update_keeps_pair\<close>)

lemma keeps_option: "keeps P m \<Longrightarrow> (\<And>x. keeps P (f x)) \<Longrightarrow> keeps P (case a of None \<Rightarrow> m | Some x \<Rightarrow> f x)"
  by (cases a) simp_all

lemmas reads_rules = keeps_andthen keeps_if keeps_option keeps_for_each keeps_ret keeps_throw keeps_gets
  rep.reads_keep env_keeps route_ignore_keeps routePresencesFrom_keeps rosRunHook_keeps

lemma probe_keeps: "keeps (\<lambda>w. rosters w = x) (processProbe E pr)"
  unfolding processProbe_def Let_def by (intro reads_rules)

lemma broadcast_keeps: "keeps (\<lambda>w. rosters w = x) (broadcast_presence E pr its)"
  unfolding broadcast_presence_def item_jid_def by (intro reads_rules)

lemma first_available_keeps: "keeps (\<lambda>w. rosters w = x) (first_available E pr its stm)"
  unfolding first_available_def deliver_roster_presences_def item_jid_def Let_def by (intro reads_rules)

lemma availability_keeps: "keeps (\<lambda>w. rosters w = x) (processAvailability E pr)"
  unfolding processAvailability_def Let_def by (intro reads_rules broadcast_keeps first_available_keeps)

lemma mark_requested_keeps: "keeps (\<lambda>w. rosters w = x) (mark_requested E j)"
  unfolding mark_requested_def by (intro reads_rules)

lemma after_mark: "Q () x \<Longrightarrow> after (mark_requested E j) x Q"
  by (rule after_keeps [OF mark_requested_keeps]) simp

lemma sendRoster_keeps: "after (sendRoster E iq) x (\<lambda>_ y. y = x)"
  unfolding sendRoster_def Let_def
  by (intro after_rules after_report after_mark after_keeps [OF rep.reads_keep(2)] after_keeps [OF rep.reads_keep(5)]) simp_all

end

section \<open>Runs of the module\<close>

text \<open>The presences and roster requests of clients that keep to the protocol. Presences go between two different
  addresses; an approval answers a contact that has the sender in its roster. An item is named by
  a bare address and set without the attribute \<^verbatim>\<open>ask\<close>. An item of another server is removed only
  when no local user of the same name has a request of the sender pending.\<close>

definition presence_ok :: "'w roster_env \<Rightarrow> ('w \<Rightarrow> string \<Rightarrow> string \<rightharpoonup> roster_item) \<Rightarrow> 'w \<Rightarrow> element \<Rightarrow> bool" where
  "presence_ok E items w pr =
     (let X = rsLib E; from = ToBareJID X (FromJID X pr); to = ToBareJID X (ToJID X pr)
      in valid_bare X from \<and> valid_bare X to \<and> JIDString X from \<noteq> JIDString X to \<and>
         (Attribute X pr ''type'' = ''subscribed'' \<longrightarrow> items w (Node to) (JIDString X from) \<noteq> None))"

definition item_ok ::
  "'w roster_env \<Rightarrow> ('w \<Rightarrow> string \<Rightarrow> string \<rightharpoonup> roster_notification) \<Rightarrow> string \<Rightarrow> 'w \<Rightarrow> jid \<Rightarrow> roster_item \<Rightarrow> bool" where
  "item_ok E notifs dm w U ri =
     (case NewJIDWithString (rsLib E) (riJid ri) True of
        None \<Rightarrow> False
      | Some C \<Rightarrow> valid_bare (rsLib E) C \<and> riJid ri = JIDString (rsLib E) C \<and>
          JIDString (rsLib E) U \<noteq> JIDString (rsLib E) C \<and> \<not> riAsk ri \<and>
          (Domain C = dm \<or> notifs w (Node C) (JIDString (rsLib E) U) = None))"

definition request_ok ::
  "'w roster_env \<Rightarrow> ('w \<Rightarrow> string \<Rightarrow> string \<rightharpoonup> roster_notification) \<Rightarrow> string \<Rightarrow> 'w \<Rightarrow> element \<Rightarrow> bool" where
  "request_ok E notifs dm w iq =
     (let X = rsLib E; U = ToBareJID X (FromJID X iq)
      in valid_bare X U \<and> Domain U = dm \<and> Node U = Node (FromJID X iq) \<and>
         (case ChildNamespace X iq ''query'' rosterNamespace of
            None \<Rightarrow> True
          | Some q \<Rightarrow> list_all (\<lambda>el. case decodeRosterItem X el of Inl _ \<Rightarrow> True | Inr ri \<Rightarrow> item_ok E notifs dm w U ri)
              (Children X q ''item'')))"

inductive roster_reach ::
  "'w roster_env \<Rightarrow> ('w \<Rightarrow> string \<Rightarrow> string \<rightharpoonup> roster_item) \<Rightarrow> ('w \<Rightarrow> string \<Rightarrow> string \<rightharpoonup> roster_notification) \<Rightarrow>
   string \<Rightarrow> 'w \<Rightarrow> bool"
  for E items notifs dm where
  start: "items w = (\<lambda>_. Map.empty) \<Longrightarrow> notifs w = (\<lambda>_. Map.empty) \<Longrightarrow> roster_reach E items notifs dm w"
| presence: "roster_reach E items notifs dm w \<Longrightarrow> presence_ok E items w pr \<Longrightarrow>
    rosProcessPresence E pr w = (Inr (), w') \<Longrightarrow> roster_reach E items notifs dm w'"
| request: "roster_reach E items notifs dm w \<Longrightarrow> request_ok E notifs dm w iq \<Longrightarrow>
    rosProcessIQ E iq w = (Inr (), w') \<Longrightarrow> roster_reach E items notifs dm w'"
| other: "roster_reach E items notifs dm w \<Longrightarrow> items w' = items w \<Longrightarrow> notifs w' = notifs w \<Longrightarrow>
    roster_reach E items notifs dm w'"

text \<open>The effect of a presence of a given type from \<open>F\<close> to \<open>T\<close>.\<close>

definition presence_spec :: "'w roster_env \<Rightarrow> string \<Rightarrow> jid \<Rightarrow> jid \<Rightarrow> rosters \<Rightarrow> rosters \<Rightarrow> bool" where
  "presence_spec E typ F T r y =
     (let X = rsLib E; j = JIDString X; lf = rsIsLocalHost E (Domain F); lt = rsIsLocalHost E (Domain T);
          (i, n) = r; f = i (Node F) (j T); t = i (Node T) (j F); nf = n (Node F) (j T); nt = n (Node T) (j F)
      in if typ = ''subscribe'' then
           pair_post X F T r nt lt nf (spec_subscribe lf lt (Node F) (j T) (f, t, nt \<noteq> None)) y
         else if typ = ''subscribed'' then
           pair_post X T F r nf lf nt (spec_subscribed lt lf (Node F) (j T) (t, f, nf \<noteq> None)) y
         else if typ = ''unsubscribe'' then
           pair_post X F T r nt lt nf (spec_unsubscribe lf lt (f, t, nt \<noteq> None)) y
         else if typ = ''unsubscribed'' then
           pair_post X T F r nf lf nt (spec_unsubscribed lt lf (t, f, nf \<noteq> None)) y
         else y = r)"

context roster_module
begin

lemma afterD: "after f (items w, notifs w) (\<lambda>_. Q) \<Longrightarrow> f w = (Inr u, w') \<Longrightarrow> Q (items w', notifs w')"
  unfolding after_def by blast

lemma presence_inv:
  assumes loc: "\<And>d. rsIsLocalHost E d \<longleftrightarrow> d = dm" and inv: "roster_inv (rsLib E) dm (items w, notifs w)"
    and ok: "presence_ok E items w pr" and run: "rosProcessPresence E pr w = (Inr u, w')"
  shows "roster_inv (rsLib E) dm (items w', notifs w')"
proof -
  let ?X = "rsLib E" and ?t = "Attribute (rsLib E) pr ''type''"
  obtain F T where F: "ToBareJID ?X (FromJID ?X pr) = F" and T: "ToBareJID ?X (ToJID ?X pr) = T" by blast
  from ok have v: "valid_bare ?X F" "valid_bare ?X T" and ne: "JIDString ?X F \<noteq> JIDString ?X T"
    and known: "?t = ''subscribed'' \<Longrightarrow> items w (Node T) (JIDString ?X F) \<noteq> None"
    by (simp_all add: presence_ok_def Let_def F T)
  have ft: "two_users ?X dm F T (items w) (notifs w)" and tf: "two_users ?X dm T F (items w) (notifs w)"
    using inv v by (simp_all add: two_users_def)
  have "after (rosProcessPresence E pr) (items w, notifs w) (\<lambda>_. roster_inv ?X dm)"
    unfolding rosProcessPresence_def Let_def
    by (intro after_if subscribe_inv [OF loc F T ft ne] subscribed_inv [OF loc T F tf ne [symmetric]]
        unsubscribe_inv [OF loc F T ft ne] unsubscribed_inv [OF loc T F tf ne [symmetric]]
        after_keeps [OF probe_keeps] after_keeps [OF availability_keeps] after_ret inv known)
  from afterD [OF this run] show ?thesis .
qed

lemma request_inv:
  assumes loc: "\<And>d. rsIsLocalHost E d \<longleftrightarrow> d = dm" and inv: "roster_inv (rsLib E) dm (items w, notifs w)"
    and ok: "request_ok E notifs dm w iq" and run: "rosProcessIQ E iq w = (Inr u, w')"
  shows "roster_inv (rsLib E) dm (items w', notifs w')"
proof -
  let ?X = "rsLib E"
  obtain U where U: "ToBareJID ?X (FromJID ?X iq) = U" by blast
  from ok have v: "valid_bare ?X U" "Domain U = dm" "Node (FromJID ?X iq) = Node U"
    by (simp_all add: request_ok_def Let_def U)
  have item: "after (if riSubscription ri = subRemove then removeItem E ri U else updateItem E ri (Node U))
      (items w, notifs w) (\<lambda>_. roster_inv ?X dm)" if ri: "item_ok E notifs dm w U ri" for ri
  proof -
    from ri obtain C where C: "valid_bare ?X C" "riJid ri = JIDString ?X C" "JIDString ?X U \<noteq> JIDString ?X C" "\<not> riAsk ri"
        "Domain C = dm \<or> notifs w (Node C) (JIDString ?X U) = None"
      by (auto simp: item_ok_def split: option.splits)
    have two: "two_users ?X dm U C (items w) (notifs w)" using inv v C by (simp add: two_users_def)
    show ?thesis
      by (intro after_if remove_inv [OF loc C(2) two C(3) v(2) C(5)] update_inv [OF loc C(2) two C(3) v(2) C(4)])
  qed
  have upd: "after (updateRoster E iq) (items w, notifs w) (\<lambda>_. roster_inv ?X dm)"
  proof (cases "ChildNamespace ?X iq ''query'' rosterNamespace")
    case None
    then show ?thesis using inv by (auto simp: updateRoster_def intro!: after_route)
  next
    case (Some q)
    show ?thesis
    proof (cases "\<exists>el ri. Children ?X q ''item'' = [el] \<and> decodeRosterItem ?X el = Inr ri")
      case True
      then obtain el ri where el: "Children ?X q ''item'' = [el]" "decodeRosterItem ?X el = Inr ri" by blast
      with ok Some have "item_ok E notifs dm w U ri" by (simp add: request_ok_def Let_def U)
      note item = item [OF this]
      have "updateRoster E iq = andthen (or_report E iq
          (if riSubscription ri = subRemove then removeItem E ri U else updateItem E ri (Node U)))
          (\<lambda>_. route_ignore E (MakeResultIQ ?X iq None))" by (simp add: updateRoster_def Let_def Some el U v(3))
      with item show ?thesis by (auto intro!: after_andthen after_report after_route elim!: after_mono)
    next
      case False
      then have "updateRoster E iq = route_ignore E (MakeErrorStanza ?X iq ''bad-request'')"
        by (auto simp: updateRoster_def Let_def Some split: list.splits sum.splits)
      with inv show ?thesis by (auto intro!: after_route)
    qed
  qed
  have "after (rosProcessIQ E iq) (items w, notifs w) (\<lambda>_. roster_inv ?X dm)"
    unfolding rosProcessIQ_def
    by (intro after_if after_ret upd inv after_mono [OF sendRoster_keeps]) (simp add: inv)
  from afterD [OF this run] show ?thesis .
qed

lemma reach_inv:
  assumes loc: "\<And>d. rsIsLocalHost E d \<longleftrightarrow> d = dm" and "roster_reach E items notifs dm w"
  shows "roster_inv (rsLib E) dm (items w, notifs w)"
  using assms(2)
proof induction
  case (start w)
  then show ?case by (simp add: empty_rosters_inv)
qed (auto dest: presence_inv [OF loc] request_inv [OF loc])

end

section \<open>The module on the embedded back end\<close>

text \<open>The environment in which the repository is the embedded one; the other collaborators are those of
  \<open>G\<close> and act on the state beside the database.\<close>

definition bolt_env :: "'d bolt \<Rightarrow> roster_codecs \<Rightarrow> 'r roster_outside \<Rightarrow> ('d, 'r) db_world roster_env" where
  "bolt_env B C G = \<lparr>
     rsLib = rsLib G, rsIsLocalHost = rsIsLocalHost G,
     rsGetResources = (\<lambda>u. on_rest (rsGetResources G u)), rsRoute = (\<lambda>el. on_rest (rsRoute G el)),
     rsLocalStream = (\<lambda>u r. on_rest (rsLocalStream G u r)), rsStreamInfo = (\<lambda>s w. rsStreamInfo G s (dbRest w)),
     rsSetInfoValue = (\<lambda>s k v. on_rest (rsSetInfoValue G s k v)), rsRunHook = (\<lambda>h info. on_rest (rsRunHook G h info)),
     rsNewUUID = on_rest (rsNewUUID G), rsBuildPresence = rsBuildPresence G,
     rsRep = boltRosterRep B C, rsTx = newRosterRep B C, rsInTransaction = InTransaction B\<rparr>"

lemma bolt_env_sel:
  "rsTx (bolt_env B C G) = newRosterRep B C" "rsRep (bolt_env B C G) = boltRosterRep B C"
  "rsInTransaction (bolt_env B C G) = InTransaction B" "rsLib (bolt_env B C G) = rsLib G"
  "rsIsLocalHost (bolt_env B C G) = rsIsLocalHost G"
  by (simp_all add: bolt_env_def)

sublocale bolt_roster \<subseteq> module: roster_module "bolt_env B C G" "\<lambda>w. bolt_items C view (dbState w)" "\<lambda>w. bolt_notifs C view (dbState w)" for G
proof (rule roster_module.intro)
  show "roster_store (rsTx (bolt_env B C G)) (\<lambda>w. its (dbState w)) (\<lambda>w. nts (dbState w))"
    unfolding bolt_env_sel by (rule tx.roster_store_axioms)
  show "roster_store (rsRep (bolt_env B C G)) (\<lambda>w. its (dbState w)) (\<lambda>w. nts (dbState w))"
    unfolding bolt_env_sel by (rule rep.roster_store_axioms)
  show "roster_module_axioms (bolt_env B C G) (\<lambda>w. its (dbState w)) (\<lambda>w. nts (dbState w))"
  proof
    fix f w u w' assume "rsInTransaction (bolt_env B C G) f w = (Inr u, w')"
    from InTransactionD [OF this [unfolded bolt_env_sel]] obtain w0 w1 where
      w: "view (dbState w0) = view (dbState w)" "f w0 = (Inr u, w1)" "view (dbState w') = view (dbState w1)" by blast
    show "\<exists>w0 w1 v. (its (dbState w0), nts (dbState w0)) = (its (dbState w), nts (dbState w)) \<and> f w0 = (Inr v, w1) \<and>
      (its (dbState w'), nts (dbState w')) = (its (dbState w1), nts (dbState w1))"
      by (intro exI [of _ w0] exI [of _ w1] exI [of _ u]) (simp add: w(2) view_eq [OF w(1)] view_eq [OF w(3)])
  qed (simp_all add: bolt_env_def on_rest_keeps [where P = "\<lambda>d. (its d, nts d) = _", simplified])
qed

section \<open>An example\<close>

definition ana :: jid where "ana = \<lparr>Node = ''ana'', Domain = ''x'', Resource = []\<rparr>"
definition bob :: jid where "bob = \<lparr>Node = ''bob'', Domain = ''x'', Resource = []\<rparr>"

definition demo_presence :: "jid \<Rightarrow> jid \<Rightarrow> string \<Rightarrow> element" where
  "demo_presence f to typ = MakePresence std_lib f to typ []"

definition demo_codecs :: roster_codecs where
  "demo_codecs = \<lparr>
     itemCodec = table_codec [new_item ''ana'' ''bob@x'' subNone True, new_item ''ana'' ''bob@x'' subTo False,
       new_item ''bob'' ''ana@x'' subFrom False],
     notifCodec = table_codec [\<lparr>rnContact = ''bob'', rnJid = ''ana@x'', rnPresence = demo_presence ana bob ''subscribe''\<rparr>],
     verCodec = table_codec [1, 2]\<rparr>"

interpretation demo: bolt_roster mem_bolt mem_view mem_seq demo_codecs
  by unfold_locales (simp_all add: demo_codecs_def table_codec_ok)

definition demo_rest :: "element list roster_outside" where
  "demo_rest = \<lparr>rsLib = std_lib, rsIsLocalHost = (\<lambda>d. d = ''x''),
     rsGetResources = (\<lambda>u. ret []), rsRoute = (\<lambda>el w. (Inr [], w @ [el])),
     rsLocalStream = (\<lambda>u r. throw (ErrText ''no stream'')), rsStreamInfo = (\<lambda>s w. NewInfoMap),
     rsSetInfoValue = (\<lambda>s k v. ret ()), rsRunHook = (\<lambda>h info. ret ()), rsNewUUID = ret ''id'',
     rsBuildPresence = id\<rparr>"

definition demo_start :: "(mem_db, element list) db_world" where
  "demo_start = \<lparr>dbState = Map.empty, dbRest = []\<rparr>"

definition demo_roster :: "(mem_db, element list) db_world roster_env" where
  "demo_roster = bolt_env mem_bolt demo_codecs demo_rest"

definition demo_asked :: "(mem_db, element list) db_world" where
  "demo_asked = snd (rosProcessPresence demo_roster (demo_presence ana bob ''subscribe'') demo_start)"

definition demo_approved :: "(mem_db, element list) db_world" where
  "demo_approved = snd (rosProcessPresence demo_roster (demo_presence bob ana ''subscribed'') demo_asked)"

abbreviation demo_items :: "(mem_db, element list) db_world \<Rightarrow> string \<Rightarrow> string \<rightharpoonup> roster_item" where
  "demo_items w \<equiv> bolt_items demo_codecs mem_view (dbState w)"

abbreviation demo_notifs :: "(mem_db, element list) db_world \<Rightarrow> string \<Rightarrow> string \<rightharpoonup> roster_notification" where
  "demo_notifs w \<equiv> bolt_notifs demo_codecs mem_view (dbState w)"

lemma demo_runs:
  "rosProcessPresence demo_roster (demo_presence ana bob ''subscribe'') demo_start = (Inr (), demo_asked)"
  "rosProcessPresence demo_roster (demo_presence bob ana ''subscribed'') demo_asked = (Inr (), demo_approved)"
proof -
  have "fst (rosProcessPresence demo_roster (demo_presence ana bob ''subscribe'') demo_start) = Inr ()"
    "fst (rosProcessPresence demo_roster (demo_presence bob ana ''subscribed'') demo_asked) = Inr ()" by code_simp+
  then show "rosProcessPresence demo_roster (demo_presence ana bob ''subscribe'') demo_start = (Inr (), demo_asked)"
    "rosProcessPresence demo_roster (demo_presence bob ana ''subscribed'') demo_asked = (Inr (), demo_approved)"
    by (simp_all add: demo_asked_def demo_approved_def prod_eq_iff)
qed

lemma demo_reach:
  "roster_reach demo_roster demo_items demo_notifs ''x'' demo_asked"
  "roster_reach demo_roster demo_items demo_notifs ''x'' demo_approved"
proof -
  have "demo_items demo_start = (\<lambda>_. Map.empty)" "demo_notifs demo_start = (\<lambda>_. Map.empty)"
    by (simp_all add: demo_start_def bolt_items_def bolt_notifs_def stored_def bucket_of_def mem_view_def fun_eq_iff)
  then have start: "roster_reach demo_roster demo_items demo_notifs ''x'' demo_start" by (rule roster_reach.start)
  have ok: "presence_ok demo_roster demo_items demo_start (demo_presence ana bob ''subscribe'')"
    "presence_ok demo_roster demo_items demo_asked (demo_presence bob ana ''subscribed'')" by code_simp+
  show "roster_reach demo_roster demo_items demo_notifs ''x'' demo_asked"
    using start ok(1) demo_runs(1) by (rule roster_reach.presence)
  then show "roster_reach demo_roster demo_items demo_notifs ''x'' demo_approved"
    using ok(2) demo_runs(2) by (rule roster_reach.presence)
qed

section \<open>Properties\<close>



text \<open>
  C3. The module's steps are those of the specification: between two addresses, a subscription
  presence that is processed without an error changes the two items and the pending request as
  \<open>spec_subscribe\<close>, \<open>spec_subscribed\<close>, \<open>spec_unsubscribe\<close> and \<open>spec_unsubscribed\<close> say, and
  nothing else in any roster; every other presence changes no roster.
\<close>

theorem presence_refines_spec:
  assumes "roster_module E items notifs" and run: "rosProcessPresence E pr w = (Inr (), w')"
    and F: "ToBareJID (rsLib E) (FromJID (rsLib E) pr) = F" and T: "ToBareJID (rsLib E) (ToJID (rsLib E) pr) = T"
    and ne: "JIDString (rsLib E) F \<noteq> JIDString (rsLib E) T" and keyed: "items_keyed (items w)"
  shows "presence_spec E (Attribute (rsLib E) pr ''type'') F T (items w, notifs w) (items w', notifs w')"
proof -
  let ?X = "rsLib E"
  have k: "item_for (Node F) (JIDString ?X T) (items w (Node F) (JIDString ?X T))"
    "item_for (Node T) (JIDString ?X F) (items w (Node T) (JIDString ?X F))"
    using keyed by (simp_all add: items_keyed_def item_for_def)
  note ft = overlay_id [of "items w" "notifs w" ?X F T] and tf = overlay_id [of "items w" "notifs w" ?X T F]
  note specs = roster_module.subscribe_spec [OF assms(1) F T ne k(1)] roster_module.unsubscribe_spec [OF assms(1) F T ne k]
    roster_module.subscribed_spec [OF assms(1) T F ne [symmetric] k(2,1)]
    roster_module.unsubscribed_spec [OF assms(1) T F ne [symmetric] k(2,1)]
  note after = roster_module.after_def [OF assms(1), THEN iffD1, rule_format]
  have "roster_module.after items notifs (processProbe E pr) (items w, notifs w) (\<lambda>_ y. y = (items w, notifs w))"
    "roster_module.after items notifs (processAvailability E pr) (items w, notifs w) (\<lambda>_ y. y = (items w, notifs w))"
    using roster_module.after_keeps [OF assms(1) roster_module.probe_keeps [OF assms(1)]]
      roster_module.after_keeps [OF assms(1) roster_module.availability_keeps [OF assms(1)]] by auto
  note reads = this [THEN after, OF refl]
  show ?thesis
    using run after [OF specs(1) ft] after [OF specs(2) ft] after [OF specs(3) tf] after [OF specs(4) tf] reads
    by (simp add: rosProcessPresence_def presence_spec_def Let_def go_run split: if_splits)
qed

theorem presence_refines_spec_witness:
  "presence_spec demo_roster ''subscribed'' bob ana (demo_items demo_asked, demo_notifs demo_asked)
     (demo_items demo_approved, demo_notifs demo_approved)"
proof -
  have js: "Attribute std_lib (demo_presence bob ana ''subscribed'') ''type'' = ''subscribed''"
    "ToBareJID std_lib (FromJID std_lib (demo_presence bob ana ''subscribed'')) = bob"
    "ToBareJID std_lib (ToJID std_lib (demo_presence bob ana ''subscribed'')) = ana"
    "JIDString std_lib bob \<noteq> JIDString std_lib ana" by code_simp+
  have env: "rsLib demo_roster = std_lib" "rsIsLocalHost demo_roster d \<longleftrightarrow> d = ''x''" for d
    by (simp_all add: demo_roster_def bolt_env_def demo_rest_def)
  have "roster_inv std_lib ''x'' (demo_items demo_asked, demo_notifs demo_asked)"
    using demo.module.reach_inv [of demo_rest "''x''" demo_asked] demo_reach(1) env by (simp add: demo_roster_def)
  then have keyed: "items_keyed (demo_items demo_asked)" by (simp add: roster_inv_def)
  show ?thesis
    using presence_refines_spec [OF demo.module.roster_module_axioms [of demo_rest, folded demo_roster_def] demo_runs(2),
        unfolded env(1), OF js(2,3,4) keyed] by (simp add: js(1))
qed

text \<open>
  An approval nobody asked for breaks the agreement: when a contact sends a subscribed presence to
  a local user who does not have him in the roster, the contact's roster records that the user is
  subscribed, and the user's roster records nothing.
\<close>

theorem unsolicited_approval:
  assumes "roster_module E items notifs" and run: "rosProcessPresence E pr w = (Inr (), w')"
    and ty: "Attribute (rsLib E) pr ''type'' = ''subscribed''"
    and F: "ToBareJID (rsLib E) (FromJID (rsLib E) pr) = F" and T: "ToBareJID (rsLib E) (ToJID (rsLib E) pr) = T"
    and ne: "JIDString (rsLib E) F \<noteq> JIDString (rsLib E) T"
    and "rsIsLocalHost E (Domain F)" and "rsIsLocalHost E (Domain T)"
    and "items w (Node F) (JIDString (rsLib E) T) = None" and "items w (Node T) (JIDString (rsLib E) F) = None"
  shows "sub_of (items w' (Node F) (JIDString (rsLib E) T)) = subFrom \<and> items w' (Node T) (JIDString (rsLib E) F) = None"
proof -
  let ?X = "rsLib E"
  have k: "item_for (Node T) (JIDString ?X F) (items w (Node T) (JIDString ?X F))"
    "item_for (Node F) (JIDString ?X T) (items w (Node F) (JIDString ?X T))"
    using assms(9,10) by (simp_all add: item_for_def)
  from run ty have "processSubscribed E pr w = (Inr (), w')" by (simp add: rosProcessPresence_def Let_def)
  from roster_module.after_def [OF assms(1), THEN iffD1, rule_format,
      OF roster_module.subscribed_spec [OF assms(1) T F ne [symmetric] k] overlay_id [of "items w" "notifs w" ?X T F] this]
  show ?thesis using assms(7-10) ne
    by (auto simp: pair_post_def spec_defs overlay_def set_entry_apply new_item_def sub_of_def)
qed

theorem unsolicited_approval_witness:
  "\<exists>w'. rosProcessPresence demo_roster (demo_presence bob ana ''subscribed'') demo_start = (Inr (), w') \<and>
     sub_of (demo_items w' ''bob'' ''ana@x'') = subFrom \<and> demo_items w' ''ana'' ''bob@x'' = None"
proof -
  let ?pr = "demo_presence bob ana ''subscribed''"
  have "fst (rosProcessPresence demo_roster ?pr demo_start) = Inr ()" by code_simp
  then obtain w' where run: "rosProcessPresence demo_roster ?pr demo_start = (Inr (), w')"
    by (cases "rosProcessPresence demo_roster ?pr demo_start") simp
  have js: "Attribute std_lib ?pr ''type'' = ''subscribed''" "ToBareJID std_lib (FromJID std_lib ?pr) = bob"
    "ToBareJID std_lib (ToJID std_lib ?pr) = ana" "JIDString std_lib bob = ''bob@x''" "JIDString std_lib ana = ''ana@x''"
    "demo_items demo_start ''bob'' ''ana@x'' = None" "demo_items demo_start ''ana'' ''bob@x'' = None" by code_simp+
  have env: "rsLib demo_roster = std_lib" "rsIsLocalHost demo_roster d \<longleftrightarrow> d = ''x''" for d
    by (simp_all add: demo_roster_def bolt_env_def demo_rest_def)
  show ?thesis
    using unsolicited_approval [OF demo.module.roster_module_axioms [of demo_rest, folded demo_roster_def] run, of bob ana] run
    by (simp add: env js) (simp add: ana_def bob_def js(6,7))
qed

text \<open>
  A roster item sent to a client and sent back is the same item, except that the pending request
  is lost (the element has no \<^verbatim>\<open>ask\<close> attribute); the version of a push, sent back as it was received,
  is read as zero, so that it never matches, while the server reads it with the letter v in front.
  Assumed of the XML package: attributes and children are those the element was built with.
\<close>

theorem roster_item_roundtrip:
  assumes "\<And>e k. Attribute X e k = std_attr e k" and "\<And>e n. Children X e n = filter (\<lambda>c. Name c = n) (AllChildren e)"
    and "riJid ri \<noteq> []" and "NewJIDWithString X (riJid ri) False = Some j" and "JIDString X j = riJid ri"
    and "riSubscription ri \<in> {subBoth, subFrom, subTo, subNone, subRemove}" and "[] \<notin> set (riGroups ri)"
    and "0 < v" and "v \<le> max_int64"
  shows "decodeRosterItem X (encodeRosterItem ri) = Inr (ri\<lparr>riUsername := [], riAsk := False\<rparr>) \<and>
    parseVer (itoa v) = 0 \<and> parseVer (CHR ''v'' # itoa v) = v"
proof (intro conjI)
  have groups: "decode_groups (map (\<lambda>g. Element ''group'' [] g []) gs) = Inr gs" if "[] \<notin> set gs" for gs
    using that by (induction gs) auto
  have "filter (\<lambda>c. Name c = ''group'') (map (\<lambda>g. Element ''group'' [] g []) gs) = map (\<lambda>g. Element ''group'' [] g []) gs" for gs
    by (induction gs) auto
  then show "decodeRosterItem X (encodeRosterItem ri) = Inr (ri\<lparr>riUsername := [], riAsk := False\<rparr>)"
    using assms(3-7) groups [of "riGroups ri"]
    by (auto simp: decodeRosterItem_def encodeRosterItem_def assms(1,2) std_attr_def Let_def)
  obtain c cs where c: "itoa v = c # cs" using assms(8) by (cases "itoa_nat (nat v)") (auto simp: itoa_def)
  with assms(8) hd_itoa_nat [of "nat v"] obtain d where "d < 10" "c = digit_char d" by (auto simp: itoa_def)
  then have "char_digit c = Some d" by simp
  then have "c \<noteq> CHR ''v''" by (auto simp: char_digit_def)
  with c show "parseVer (itoa v) = 0" by (simp add: parseVer_def)
  show "parseVer (CHR ''v'' # itoa v) = v" using parse_int_itoa [of v] assms(8,9) by (simp add: parseVer_def max_int64_def)
qed

theorem roster_item_roundtrip_witness:
  "decodeRosterItem std_lib (encodeRosterItem (new_item ''ana'' ''bob@x'' subNone True)) = Inr (new_item [] ''bob@x'' subNone False) \<and>
   parseVer ''7'' = 0 \<and> parseVer ''v7'' = 7"
proof -
  have lib: "Attribute std_lib e k = std_attr e k" "Children std_lib e n = filter (\<lambda>c. Name c = n) (AllChildren e)" for e k n
    by (simp_all add: std_lib_def)
  have "NewJIDWithString std_lib ''bob@x'' False = Some bob" "JIDString std_lib bob = ''bob@x''" "itoa 7 = ''7''" by code_simp+
  then show ?thesis
    using roster_item_roundtrip [OF lib, of "new_item ''ana'' ''bob@x'' subNone True" bob 7]
    by (simp add: new_item_def max_int64_def)
qed

text \<open>
  Deleting an account can leave its roster behind: on the embedded back end, when the deleted user
  never had a pending request, removing the requests fails because their bucket does not exist, and
  the transaction is rolled back before the items are removed.
\<close>

theorem user_deleted_keeps_roster:
  assumes "bolt_store B view seqno" and "bxBegin B (dbState w) = (Inr (), d)"
    and "view (dbState w) (rosterNotificationsBucketKey u) = None"
  shows "rosOnUserDeleted (bolt_env B C G) u w = (Inl ErrBucketNotFound, w)"
proof -
  have "view d (rosterNotificationsBucketKey u) = None"
    using bolt_store.begin_tx [OF assms(1,2)] assms(3) by simp
  from bolt_store.delete_missing [OF assms(1) this] assms(2) show ?thesis
    by (simp add: rosOnUserDeleted_def bolt_env_sel newRosterRep_def bDeleteRosterNotifications_def delBucketOp_def
        InTransaction_def on_db_def go_run)
qed

theorem user_deleted_keeps_roster_witness:
  "rosOnUserDeleted demo_roster ''ana'' demo_approved = (Inl ErrBucketNotFound, demo_approved) \<and>
   demo_items demo_approved ''ana'' ''bob@x'' \<noteq> None"
proof -
  have "mem_view (dbState demo_approved) (rosterNotificationsBucketKey ''ana'') = None"
    "demo_items demo_approved ''ana'' ''bob@x'' \<noteq> None" by code_simp+
  then show ?thesis
    using user_deleted_keeps_roster [OF mem.bolt_store_axioms, of demo_approved "dbState demo_approved" "''ana''" demo_codecs demo_rest]
    by (simp add: demo_roster_def mem_bolt_def go_run)
qed

end
