(* ===== verification/Roster_Presence.thy ===== *)
theory Roster_Presence
  imports Roster_Subs
begin

text \<open>
  Who receives the presence of a user. The router is observed through a log of the elements handed to
  it: the locale \<open>presence_log\<close> extends the module's environment by such a log, \<open>emits\<close> bounds what an
  operation adds to it, and \<open>emits_list\<close> determines it. The embedded back end with a recording router
  is an instance.
\<close>

section \<open>Who is meant to receive what\<close>

text \<open>Besides the broadcast: the user's presence for his own resources, the requests kept for him,
  presences of the resources of local contacts he is subscribed to, and probes for the others.\<close>

definition resources_of :: "'w roster_env \<Rightarrow> string \<Rightarrow> resource_desc set" where
  "resources_of E u = {r. \<exists>w rss w'. rsGetResources E u w = (Inr rss, w') \<and> r \<in> set rss}"

definition subscribed_contact_jids :: "'w roster_env \<Rightarrow> rosters \<Rightarrow> string \<Rightarrow> string set \<Rightarrow> jid set" where
  "subscribed_contact_jids E x u subs =
     {j. \<exists>ri \<in> ran (fst x u). riSubscription ri \<in> subs \<and> NewJIDWithString (rsLib E) (riJid ri) True = Some j}"

definition first_elements :: "'w roster_env \<Rightarrow> rosters \<Rightarrow> element \<Rightarrow> element set" where
  "first_elements E x pr =
     (let X = rsLib E; from = FromJID X pr; u = Node (ToBareJID X from);
          contacts = subscribed_contact_jids E x u {''to'', ''both''}
      in {MakePresence X from (rJID r) [] (AllChildren pr) |r. r \<in> resources_of E u} \<union>
         {rsBuildPresence E (rnPresence rn) |rn. rn \<in> ran (snd x u)} \<union>
         {MakePresence X (rJID r) from [] (presence_children X (rPresence r)) |j r.
            j \<in> contacts \<and> rsIsLocalHost E (Domain j) \<and> r \<in> resources_of E (Node j)} \<union>
         {MakePresence X from j ''probe'' [] |j. j \<in> contacts \<and> \<not> rsIsLocalHost E (Domain j)})"

definition broadcast_list :: "'w roster_env \<Rightarrow> element \<Rightarrow> roster_item list \<Rightarrow> element list" where
  "broadcast_list E pr its = map (\<lambda>i. MakePresence (rsLib E) (FromJID (rsLib E) pr) (the (NewJIDWithString (rsLib E) (riJid i) True))
     (Attribute (rsLib E) pr ''type'') (AllChildren pr)) (filter (\<lambda>i. riSubscription i \<in> {''from'', ''both''}) its)"

section \<open>The log of the router\<close>

locale presence_log = roster_module E items notifs
  for E :: "'w roster_env" and items notifs and routed :: "'w \<Rightarrow> element list" +
  assumes route_logs: "routed (snd (rsRoute E el w)) = routed w @ [el]"
    and quiet: "keeps (\<lambda>w. routed w = l) (rsGetResources E name)"
      "keeps (\<lambda>w. routed w = l) (rsLocalStream E name res)"
      "keeps (\<lambda>w. routed w = l) (rsSetInfoValue E stm k val)"
      "keeps (\<lambda>w. routed w = l) (FetchRosterItems (rsRep E) name)"
      "keeps (\<lambda>w. routed w = l) (FetchRosterNotifications (rsRep E) name)"
begin

text \<open>\<open>emits x f A\<close>: started with the rosters \<open>x\<close>, a successful run of \<open>f\<close> leaves them alone and hands
  the router only elements of \<open>A\<close>; \<open>emits_list x f l\<close>: it hands it exactly \<open>l\<close>.\<close>

definition emits :: "rosters \<Rightarrow> ('w, 'a) go \<Rightarrow> element set \<Rightarrow> bool" where
  "emits x f A \<longleftrightarrow> (\<forall>w a w'. rosters w = x \<longrightarrow> f w = (Inr a, w') \<longrightarrow>
     rosters w' = x \<and> (\<exists>l. routed w' = routed w @ l \<and> set l \<subseteq> A))"

definition emits_list :: "rosters \<Rightarrow> ('w, 'a) go \<Rightarrow> element list \<Rightarrow> bool" where
  "emits_list x f l \<longleftrightarrow> (\<forall>w a w'. rosters w = x \<longrightarrow> f w = (Inr a, w') \<longrightarrow> rosters w' = x \<and> routed w' = routed w @ l)"

lemma emitsD: "emits x f A \<Longrightarrow> f w = (Inr a, w') \<Longrightarrow> rosters w = x \<Longrightarrow>
    rosters w' = x \<and> (\<exists>l. routed w' = routed w @ l \<and> set l \<subseteq> A)"
  unfolding emits_def by blast

lemma emits_listD: "emits_list x f l \<Longrightarrow> f w = (Inr a, w') \<Longrightarrow> rosters w = x \<Longrightarrow> rosters w' = x \<and> routed w' = routed w @ l"
  unfolding emits_list_def by blast

lemma emits_ret: "emits x (ret a) A" "emits_list x (ret a) []"
  by (simp_all add: emits_def emits_list_def go_run)

lemma emits_quiet:
  assumes "\<And>x. keeps (\<lambda>w. rosters w = x) f" and "\<And>l. keeps (\<lambda>w. routed w = l) f"
  shows "emits x f A" "emits_list x f []"
proof -
  have "rosters (snd (f w)) = rosters w \<and> routed (snd (f w)) = routed w" for w
    using assms(1) [of "rosters w"] assms(2) [of "routed w"] by (simp add: keeps_def)
  then have "f w = (Inr a, w') \<Longrightarrow> rosters w' = rosters w \<and> routed w' = routed w" for w a w' by (metis snd_conv)
  then show "emits x f A" "emits_list x f []" unfolding emits_def emits_list_def by fastforce+
qed

lemma emits_route:
  shows "el \<in> A \<Longrightarrow> emits x (route_ignore E el) A" "emits_list x (route_ignore E el) [el]"
proof -
  have "rosters w = x \<Longrightarrow> route_ignore E el w = (Inr a, w') \<Longrightarrow> rosters w' = x \<and> routed w' = routed w @ [el]" for w a w'
    using route_ignore_keeps [of "rosters w" el] route_logs [of el w] by (auto simp: keeps_def route_ignore_def go_run)
  note run = this
  show "emits_list x (route_ignore E el) [el]" unfolding emits_list_def using run by blast
  assume "el \<in> A"
  then have "set [el] \<subseteq> A" by simp
  with run show "emits x (route_ignore E el) A" unfolding emits_def by blast
qed

lemma emits_andthen:
  assumes "emits x m A" and f: "\<And>a w w1. rosters w = x \<Longrightarrow> m w = (Inr a, w1) \<Longrightarrow> emits x (f a) A"
  shows "emits x (andthen m f) A"
  unfolding emits_def
proof (intro allI impI)
  fix w a w' assume w: "rosters w = x" and run: "andthen m f w = (Inr a, w')"
  from run obtain b w1 where m: "m w = (Inr b, w1)" and fb: "f b w1 = (Inr a, w')"
    by (auto simp: go_run split: prod.splits sum.splits)
  from emitsD [OF assms(1) m w] obtain l1 where 1: "rosters w1 = x" "routed w1 = routed w @ l1" "set l1 \<subseteq> A" by blast
  from emitsD [OF f [OF w m] fb 1(1)] obtain l2 where "rosters w' = x" "routed w' = routed w1 @ l2" "set l2 \<subseteq> A" by blast
  with 1 show "rosters w' = x \<and> (\<exists>l. routed w' = routed w @ l \<and> set l \<subseteq> A)" by (intro conjI exI [of _ "l1 @ l2"]) simp_all
qed

lemma emits_if: "(b \<Longrightarrow> emits x f A) \<Longrightarrow> (\<not> b \<Longrightarrow> emits x g A) \<Longrightarrow> emits x (if b then f else g) A"
  by simp

lemma emits_for_each: "(\<And>i. i \<in> set is \<Longrightarrow> emits x (f i) A) \<Longrightarrow> emits x (for_each is f) A"
  by (induction "is") (auto intro: emits_andthen emits_ret)

lemma item_jid_run: "item_jid E i w = (Inr j, w') \<longleftrightarrow> NewJIDWithString (rsLib E) (riJid i) True = Some j \<and> w' = w"
  by (auto simp: item_jid_def go_run split: option.splits)

lemma emits_item_jid: "emits x (item_jid E i) A"
  by (simp add: emits_def item_jid_run)

section \<open>What a first available presence adds\<close>

lemmas quiet_ops = emits_quiet [OF env_keeps(2) quiet(1)] emits_quiet [OF env_keeps(5) quiet(2)]
  emits_quiet [OF env_keeps(6) quiet(3)] emits_quiet [OF rep.reads_keep(2) quiet(4)] emits_quiet [OF rep.reads_keep(4) quiet(5)]

lemma first_elementsI:
  assumes "u = Node (ToBareJID (rsLib E) (FromJID (rsLib E) pr))"
  shows "rsGetResources E u w = (Inr rss, w') \<Longrightarrow> r \<in> set rss \<Longrightarrow>
      MakePresence (rsLib E) (FromJID (rsLib E) pr) (rJID r) [] (AllChildren pr) \<in> first_elements E x pr"
    "rn \<in> ran (snd x u) \<Longrightarrow> rsBuildPresence E (rnPresence rn) \<in> first_elements E x pr"
    "j \<in> subscribed_contact_jids E x u {''to'', ''both''} \<Longrightarrow> rsIsLocalHost E (Domain j) \<Longrightarrow>
      rsGetResources E (Node j) w = (Inr rss, w') \<Longrightarrow> r \<in> set rss \<Longrightarrow>
      MakePresence (rsLib E) (rJID r) (FromJID (rsLib E) pr) [] (presence_children (rsLib E) (rPresence r)) \<in> first_elements E x pr"
    "j \<in> subscribed_contact_jids E x u {''to'', ''both''} \<Longrightarrow> \<not> rsIsLocalHost E (Domain j) \<Longrightarrow>
      MakePresence (rsLib E) (FromJID (rsLib E) pr) j ''probe'' [] \<in> first_elements E x pr"
  unfolding first_elements_def Let_def resources_of_def assms by blast+

lemma deliver_emits:
  assumes its: "set its = ran (fst x u)" and u: "u = Node (ToBareJID (rsLib E) (FromJID (rsLib E) pr))"
  shows "emits x (deliver_roster_presences E (FromJID (rsLib E) pr) its) (first_elements E x pr)"
  unfolding deliver_roster_presences_def
proof (rule emits_for_each, rule emits_if)
  fix i assume i: "i \<in> set its" "riSubscription i = subTo \<or> riSubscription i = subBoth"
  show "emits x (andthen (item_jid E i) (\<lambda>j. if rsIsLocalHost E (Domain j) then routePresencesFrom E (Node j) (FromJID (rsLib E) pr) []
      else route_ignore E (MakePresence (rsLib E) (FromJID (rsLib E) pr) j ''probe'' []))) (first_elements E x pr)"
  proof (rule emits_andthen [OF emits_item_jid])
    fix j w w1 assume "item_jid E i w = (Inr j, w1)"
    with i its have j: "j \<in> subscribed_contact_jids E x u {''to'', ''both''}"
      by (auto simp: subscribed_contact_jids_def item_jid_run sub_defs)
    show "emits x (if rsIsLocalHost E (Domain j) then routePresencesFrom E (Node j) (FromJID (rsLib E) pr) []
        else route_ignore E (MakePresence (rsLib E) (FromJID (rsLib E) pr) j ''probe'' [])) (first_elements E x pr)"
      unfolding routePresencesFrom_def
      by (intro emits_if emits_andthen quiet_ops emits_for_each emits_route)
        (erule (2) first_elementsI(3) [OF u j] | erule first_elementsI(4) [OF u j])+
  qed
qed (rule emits_ret)

lemma first_available_emits:
  assumes its: "set its = ran (fst x u)" and u: "u = Node (ToBareJID (rsLib E) (FromJID (rsLib E) pr))"
  shows "emits x (first_available E pr its stm) (first_elements E x pr)"
  unfolding first_available_def Let_def u [symmetric]
proof (intro emits_andthen emits_for_each emits_route quiet_ops deliver_emits [OF its u])
  fix rns rn w w1 assume "rosters w = x" "FetchRosterNotifications (rsRep E) u w = (Inr rns, w1)" "rn \<in> set rns"
  with rep.fetch_notifs have "rn \<in> ran (snd x u)" by (metis snd_conv)
  then show "rsBuildPresence E (rnPresence rn) \<in> first_elements E x pr" by (rule first_elementsI(2) [OF u])
qed (rule first_elementsI(1) [OF u])

section \<open>The broadcast\<close>

lemma broadcast_emits: "emits_list x (broadcast_presence E pr its) (broadcast_list E pr its)"
  unfolding emits_list_def
proof (intro allI impI)
  fix w :: 'w and a w' assume "rosters w = x" and "broadcast_presence E pr its w = (Inr a, w')"
  then show "rosters w' = x \<and> routed w' = routed w @ broadcast_list E pr its"
  proof (induction its arbitrary: w)
    case (Cons i its)
    show ?case
    proof (cases "riSubscription i \<in> {''from'', ''both''}")
      case True
      with Cons.prems(2) obtain j w1 where j: "NewJIDWithString (rsLib E) (riJid i) True = Some j"
        and r: "route_ignore E (MakePresence (rsLib E) (FromJID (rsLib E) pr) j (Attribute (rsLib E) pr ''type'') (AllChildren pr)) w = (Inr (), w1)"
        and rest: "broadcast_presence E pr its w1 = (Inr a, w')"
        by (auto simp: broadcast_presence_def go_run item_jid_run item_jid_def sub_defs split: prod.splits sum.splits option.splits)
      from emits_listD [OF emits_route(2) r Cons.prems(1)] Cons.IH [OF _ rest] True j
      show ?thesis by (simp add: broadcast_list_def)
    next
      case False
      with Cons.prems have "broadcast_presence E pr its w = (Inr a, w')" by (simp add: broadcast_presence_def go_run sub_defs)
      with Cons.IH [OF Cons.prems(1) this] False show ?thesis by (simp add: broadcast_list_def)
    qed
  qed (simp add: broadcast_presence_def broadcast_list_def go_run)
qed

lemma availability_emits:
  assumes own: "MatchesBare (rsLib E) (ToBareJID (rsLib E) (FromJID (rsLib E) pr)) (ToBareJID (rsLib E) (ToJID (rsLib E) pr))"
    and local: "rsIsLocalHost E (Domain (ToBareJID (rsLib E) (FromJID (rsLib E) pr)))"
    and u: "u = Node (ToBareJID (rsLib E) (FromJID (rsLib E) pr))"
    and run: "processAvailability E pr w = (Inr (), w')"
  obtains its w1 pre where "FetchRosterItems (rsRep E) u w = (Inr its, w1)" and "set its = ran (items w u)"
    and "routed w' = routed w @ pre @ broadcast_list E pr its" and "set pre \<subseteq> first_elements E (items w, notifs w) pr"
    and "\<not> IsAvailable (rsLib E) pr \<Longrightarrow> pre = []"
    and "\<And>stm w2. rsLocalStream E (Node (FromJID (rsLib E) pr)) (Resource (FromJID (rsLib E) pr)) w1 = (Inr stm, w2) \<Longrightarrow>
      infoBool (rsStreamInfo E stm w2) rosterDidGoAvailableCtxKey \<Longrightarrow> pre = []"
proof -
  let ?X = "rsLib E" and ?from = "FromJID (rsLib E) pr"
  let ?first = "\<lambda>its. if IsAvailable ?X pr then andthen (rsLocalStream E (Node ?from) (Resource ?from)) (\<lambda>stm.
      andthen (gets (rsStreamInfo E stm)) (\<lambda>info.
        if infoBool info rosterDidGoAvailableCtxKey then ret () else first_available E pr its stm)) else ret ()"
  from run obtain its w1 w2 where f: "FetchRosterItems (rsRep E) u w = (Inr its, w1)"
    and first: "?first its w1 = (Inr (), w2)" and b: "broadcast_presence E pr its w2 = (Inr (), w')"
    using own local unfolding processAvailability_def Let_def u [symmetric]
    by (auto simp: andthen_run split: prod.splits sum.splits)
  note its = rep.fetch_items [OF f]
  have 1: "rosters w1 = rosters w" "routed w1 = routed w" using emits_listD [OF quiet_ops(8) f refl] by simp_all
  have gets: "emits x (gets g) A" for x :: rosters and g :: "'w \<Rightarrow> 'b" and A by (simp add: emits_def go_run)
  have "emits (rosters w) (?first its) (first_elements E (rosters w) pr)"
    by (intro emits_if emits_andthen quiet_ops gets emits_ret first_available_emits [OF _ u]) (simp add: its)
  from emitsD [OF this first 1(1)] 1 obtain pre where
    2: "rosters w2 = rosters w" "routed w2 = routed w @ pre" "set pre \<subseteq> first_elements E (rosters w) pr" by auto
  have "\<not> IsAvailable ?X pr \<Longrightarrow> pre = []" using first 1 2 by (simp add: go_run)
  moreover have "pre = []" if s: "rsLocalStream E (Node ?from) (Resource ?from) w1 = (Inr stm, w3)"
      "infoBool (rsStreamInfo E stm w3) rosterDidGoAvailableCtxKey" for stm w3
  proof -
    have "routed w3 = routed w1" using emits_listD [OF quiet_ops(4) s(1) refl] by simp
    moreover have "w2 = w3 \<or> w2 = w1" using first s by (auto simp: go_run split: if_splits)
    ultimately show ?thesis using 1 2 by auto
  qed
  ultimately show thesis
    using that [OF f its _ 2(3)] emits_listD [OF broadcast_emits b 2(1)] 2(2) by simp
qed

end

section \<open>The embedded back end with a recording router\<close>

locale recording_bolt = bolt_roster B view seqno C
  for B :: "'d bolt" and view seqno C +
  fixes G :: "'r roster_outside" and log :: "'r \<Rightarrow> element list"
  assumes logs: "log (snd (rsRoute G el r)) = log r @ [el]"
    and silent: "log (snd (rsGetResources G name r)) = log r" "log (snd (rsLocalStream G name res r)) = log r"
      "log (snd (rsSetInfoValue G stm k val r)) = log r"

sublocale recording_bolt \<subseteq> presence: presence_log "bolt_env B C G" "\<lambda>w. bolt_items C view (dbState w)"
    "\<lambda>w. bolt_notifs C view (dbState w)" "\<lambda>w. log (dbRest w)"
  by unfold_locales
    (simp_all add: bolt_env_def boltRosterRep_def keeps_def db_View_def on_rest_parts logs silent split: prod.split sum.split)

definition demo_online :: "element list roster_outside" where
  "demo_online = demo_rest\<lparr>rsLocalStream := \<lambda>u r. ret 0,
     rsGetResources := \<lambda>u. ret (if u = ''bob'' then [\<lparr>InstanceID = ''i'', rJID = bob\<lparr>Resource := ''r''\<rparr>, rPresence = None, rInfo = NewInfoMap\<rparr>] else [])\<rparr>"

interpretation online: recording_bolt mem_bolt mem_view mem_seq demo_codecs demo_online id
  by unfold_locales (simp_all add: demo_online_def demo_rest_def go_run)

section \<open>Properties\<close>

text \<open>
  C4. Presence goes to the subscribed: when a local user sends an available or unavailable presence
  to his own account and it is processed without an error, the router receives, as the last thing, that
  presence once for each item of his roster with subscription from or both, in the order in which the
  roster is read, addressed to the contact, and for no other item. Before it, and only when the
  presence is available and the stream was not available before, it receives nothing but
  the presence for the user's own resources, the requests kept for him, the presences of the resources of
  local contacts he is subscribed to and probes for such contacts elsewhere. Assumed of the
  environment: the repository reads the rosters it holds, and reading resources, streams and rosters
  hands nothing to the router.
\<close>

theorem presence_recipients:
  assumes "presence_log E items notifs routed" and "X = rsLib E"
    and own: "MatchesBare X (ToBareJID X (FromJID X pr)) (ToBareJID X (ToJID X pr))"
    and local: "rsIsLocalHost E (Domain (ToBareJID X (FromJID X pr)))"
    and u: "u = Node (ToBareJID X (FromJID X pr))"
    and ty: "Attribute X pr ''type'' \<in> {'''', ''unavailable''}"
    and run: "rosProcessPresence E pr w = (Inr (), w')"
  shows "\<exists>its w1 pre. FetchRosterItems (rsRep E) u w = (Inr its, w1) \<and> set its = ran (items w u) \<and>
    routed w' = routed w @ pre @ map (\<lambda>i. MakePresence X (FromJID X pr) (the (NewJIDWithString X (riJid i) True))
        (Attribute X pr ''type'') (AllChildren pr)) (filter (\<lambda>i. riSubscription i \<in> {''from'', ''both''}) its) \<and>
    set pre \<subseteq> first_elements E (items w, notifs w) pr \<and>
    (\<not> IsAvailable X pr \<longrightarrow> pre = []) \<and>
    (\<forall>stm w2. rsLocalStream E (Node (FromJID X pr)) (Resource (FromJID X pr)) w1 = (Inr stm, w2) \<longrightarrow>
      infoBool (rsStreamInfo E stm w2) rosterDidGoAvailableCtxKey \<longrightarrow> pre = [])"
proof -
  from run ty have "processAvailability E pr w = (Inr (), w')" by (auto simp: rosProcessPresence_def Let_def assms(2))
  from presence_log.availability_emits [OF assms(1) own [unfolded assms(2)] local [unfolded assms(2)] u [unfolded assms(2)] this]
  show ?thesis unfolding assms(2) broadcast_list_def by metis
qed

theorem presence_recipients_witness:
  "\<exists>w'. rosProcessPresence (bolt_env mem_bolt demo_codecs demo_online) (demo_presence (bob\<lparr>Resource := ''r''\<rparr>) bob '''') demo_approved = (Inr (), w') \<and>
     dbRest w' = dbRest demo_approved @ [demo_presence (bob\<lparr>Resource := ''r''\<rparr>) (bob\<lparr>Resource := ''r''\<rparr>) '''', demo_presence (bob\<lparr>Resource := ''r''\<rparr>) ana '''']"
proof -
  let ?E = "bolt_env mem_bolt demo_codecs demo_online" and ?br = "bob\<lparr>Resource := ''r''\<rparr>"
  let ?pr = "demo_presence ?br bob ''''"
  have X: "std_lib = rsLib ?E" by (simp add: bolt_env_def demo_online_def demo_rest_def)
  have c: "fst (rosProcessPresence ?E ?pr demo_approved) = Inr ()"
    "MatchesBare std_lib (ToBareJID std_lib (FromJID std_lib ?pr)) (ToBareJID std_lib (ToJID std_lib ?pr))"
    "rsIsLocalHost ?E (Domain (ToBareJID std_lib (FromJID std_lib ?pr)))"
    "''bob'' = Node (ToBareJID std_lib (FromJID std_lib ?pr))" "Attribute std_lib ?pr ''type'' \<in> {'''', ''unavailable''}"
    "fst (FetchRosterItems (rsRep ?E) ''bob'' demo_approved) = Inr [new_item ''bob'' ''ana@x'' subFrom False]"
    "dbRest (snd (rosProcessPresence ?E ?pr demo_approved)) = dbRest demo_approved @ [demo_presence ?br ?br '''', demo_presence ?br ana '''']"
    by code_simp+
  obtain w' where run: "rosProcessPresence ?E ?pr demo_approved = (Inr (), w')"
    using c(1) by (cases "rosProcessPresence ?E ?pr demo_approved") simp
  show ?thesis
    using presence_recipients [OF online.presence.presence_log_axioms X c(2-5) run] run c(7) by auto
qed

end
