(* ===== verification/Offline_Store.thy ===== *)
theory Offline_Store
  imports Bolt Xmpp
begin

text \<open>
  The repository of offline messages (\<^verbatim>\<open>src/pkg/storage/repository/offline.go\<close>) and its embedded
  implementation (\<^verbatim>\<open>src/pkg/storage/boltdb/offline.go\<close>). A user's queue is a bucket whose keys are the
  decimal numerals of the bucket's sequence; the cursor reads them in byte order, which is the
  order of arrival only up to nine messages (\<open>decimal_order\<close>).
\<close>

record 'w offline_rep =
  InsertOfflineMessage :: "element \<Rightarrow> string \<Rightarrow> ('w, unit) go"
  CountOfflineMessages :: "string \<Rightarrow> ('w, nat) go"
  FetchOfflineMessages :: "string \<Rightarrow> ('w, element list) go"
  DeleteOfflineMessages :: "string \<Rightarrow> ('w, unit) go"

section \<open>The embedded back end\<close>

text \<open>The codec of a message: protocol buffers, and on reading the check that it is a message.\<close>

definition offlineBucket :: "string \<Rightarrow> string" where
  "offlineBucket username = ''offline:'' @ username"

definition bInsertOfflineMessage :: "'d bolt \<Rightarrow> element bcodec \<Rightarrow> element \<Rightarrow> string \<Rightarrow> ('d, unit) go" where
  "bInsertOfflineMessage B C message username = insertSeqOp B C (offlineBucket username) message"

definition bCountOfflineMessages :: "'d bolt \<Rightarrow> string \<Rightarrow> ('d, nat) go" where
  "bCountOfflineMessages B username = countKeysOp B (offlineBucket username)"

definition bFetchOfflineMessages :: "'d bolt \<Rightarrow> element bcodec \<Rightarrow> string \<Rightarrow> ('d, element list) go" where
  "bFetchOfflineMessages B C username = iterKeysOp B (offlineBucket username) (append_decoded C) []"

definition bDeleteOfflineMessages :: "'d bolt \<Rightarrow> string \<Rightarrow> ('d, unit) go" where
  "bDeleteOfflineMessages B username = delBucketOp B (offlineBucket username)"

definition boltOfflineRep :: "'d bolt \<Rightarrow> element bcodec \<Rightarrow> ('d, 'r) db_world offline_rep" where
  "boltOfflineRep B C = \<lparr>
     InsertOfflineMessage = (\<lambda>m u. db_Update B (bInsertOfflineMessage B C m u)),
     CountOfflineMessages = (\<lambda>u. db_View B (bCountOfflineMessages B u)),
     FetchOfflineMessages = (\<lambda>u. db_View B (bFetchOfflineMessages B C u)),
     DeleteOfflineMessages = (\<lambda>u. db_Update B (bDeleteOfflineMessages B u))\<rparr>"

section \<open>The contract\<close>

text \<open>\<open>queue w u\<close> is the queue of user \<open>u\<close> in the order of arrival, \<open>read\<close> the order in which a queue is
  read. Operations that fail change no queue.\<close>

locale offline_store =
  fixes R :: "'w offline_rep"
    and inv :: "'w \<Rightarrow> bool"
    and queue :: "'w \<Rightarrow> string \<Rightarrow> element list"
    and read :: "element list \<Rightarrow> element list"
  assumes read_perm: "mset (read ms) = mset ms"
    and count: "inv w \<Longrightarrow> CountOfflineMessages R u w = (r, w') \<Longrightarrow>
      inv w' \<and> queue w' = queue w \<and> (\<forall>n. r = Inr n \<longrightarrow> n = length (queue w u))"
    and fetch: "inv w \<Longrightarrow> FetchOfflineMessages R u w = (s, w') \<Longrightarrow>
      inv w' \<and> queue w' = queue w \<and> (\<forall>ms. s = Inr ms \<longrightarrow> ms = read (queue w u))"
    and insert: "inv w \<Longrightarrow> InsertOfflineMessage R m u w = (t, w') \<Longrightarrow>
      inv w' \<and> queue w' = (case t of Inl _ \<Rightarrow> queue w | Inr _ \<Rightarrow> (queue w)(u := queue w u @ [m]))"
    and delete: "inv w \<Longrightarrow> DeleteOfflineMessages R u w = (t, w') \<Longrightarrow>
      inv w' \<and> queue w' = (case t of Inl _ \<Rightarrow> queue w | Inr _ \<Rightarrow> (queue w)(u := []))"

section \<open>Numerals as keys\<close>

definition seq_keys :: "nat \<Rightarrow> string list" where
  "seq_keys n = map itoa_nat [1..<Suc n]"

definition decimal_order :: "'a list \<Rightarrow> 'a list" where
  "decimal_order xs = map snd (sort_key fst (zip (seq_keys (length xs)) xs))"

lemma itoa_nat_inject [simp]: "itoa_nat a = itoa_nat b \<longleftrightarrow> a = b"
  by (metis option.inject parse_nat_itoa)

lemma seq_keys_simps [simp]: "length (seq_keys n) = n" "distinct (seq_keys n)" "set (seq_keys n) = itoa_nat ` {1..n}"
  by (auto simp: seq_keys_def distinct_map inj_on_def)

lemma seq_keys_Suc: "seq_keys (Suc n) = seq_keys n @ [itoa_nat (Suc n)]"
  by (simp add: seq_keys_def)

lemma map_sort_key_map: "map (map_prod id f) (sort_key fst kvs) = sort_key fst (map (map_prod id f) kvs)"
proof (induction kvs)
  case (Cons kv kvs)
  have ins: "map (map_prod id f) (insort_key fst x xs) = insort_key fst (map_prod id f x) (map (map_prod id f) xs)" for x xs
    by (induction xs) (auto simp: map_prod_def split_beta)
  show ?case unfolding sort_key_simps list.map ins Cons ..
qed simp

text \<open>A sorted association list is determined by its map.\<close>

lemma sorted_alist_unique:
  fixes xs ys :: "('k::linorder \<times> 'v) list"
  assumes "sorted_wrt (<) (map fst xs)" "sorted_wrt (<) (map fst ys)" "map_of xs = map_of ys"
  shows "xs = ys"
proof -
  have d: "distinct (map fst xs)" "distinct (map fst ys)" using assms(1,2) by (auto simp: strict_sorted_iff)
  then have "set xs = set ys" using assms(3) by (simp add: map_of_inject_set)
  moreover have "sorted (map fst xs)" "sorted (map fst ys)" using assms(1,2) by (auto simp: strict_sorted_iff)
  ultimately show ?thesis using d
    by (intro map_sorted_distinct_set_unique [where f = fst]) (auto simp: distinct_map)
qed

lemma mset_decimal_order [simp]: "mset (decimal_order xs) = mset xs"
proof -
  have "mset (decimal_order xs) = image_mset snd (mset (zip (seq_keys (length xs)) xs))"
    by (simp only: decimal_order_def mset_map mset_sort)
  then show ?thesis by (simp flip: mset_map)
qed

lemma decimal_order_map: "decimal_order (map f xs) = map f (decimal_order xs)"
proof -
  have zip: "zip ks (map f xs) = map (map_prod id f) (zip ks xs)" for ks
    by (simp add: zip_map2 map_prod_def split_beta)
  have "decimal_order (map f xs) = map snd (map (map_prod id f) (sort_key fst (zip (seq_keys (length xs)) xs)))"
    unfolding decimal_order_def length_map zip map_sort_key_map ..
  then show ?thesis by (simp add: decimal_order_def)
qed

text \<open>Up to nine keys are in order; the tenth comes second.\<close>

lemma seq_keys_take: "n \<le> m \<Longrightarrow> seq_keys n = take n (seq_keys m)"
  unfolding seq_keys_def take_map by (simp del: upt_Suc add: take_upt)

lemma decimal_order_short:
  assumes "length xs \<le> 9"
  shows "decimal_order xs = xs"
proof -
  have "sorted (seq_keys 9)" by code_simp
  then have "sorted (seq_keys (length xs))" using seq_keys_take [OF assms] sorted_wrt_take by metis
  then have "sort_key fst (zip (seq_keys (length xs)) xs) = zip (seq_keys (length xs)) xs"
    by (intro sort_key_id_if_sorted) (simp add: map_fst_zip)
  then show ?thesis by (simp add: decimal_order_def map_snd_zip)
qed

lemma digit_char_less: "a < 10 \<Longrightarrow> b < 10 \<Longrightarrow> digit_char a \<le> digit_char b \<longleftrightarrow> a \<le> b"
  by (simp add: digit_char_def less_eq_char_def)

lemma hd_itoa_pos: "0 < n \<Longrightarrow> \<exists>d. 0 < d \<and> d < 10 \<and> hd (itoa_nat n) = digit_char d"
proof (induction n rule: itoa_nat.induct)
  case (1 n)
  then show ?case by (cases "n < 10") (auto simp: itoa_nat.simps [of n])
qed

lemma second_key:
  assumes "0 < i" and "i \<noteq> 1"
  shows "''10'' \<le> itoa_nat i"
proof -
  obtain c cs where k: "itoa_nat i = c # cs" by (cases "itoa_nat i") auto
  with hd_itoa_pos [OF assms(1)] obtain d where d: "0 < d" "d < 10" "c = digit_char d" by auto
  have one: "CHR ''1'' = digit_char 1" "CHR ''0'' = digit_char 0" "''1'' = itoa_nat 1" by code_simp+
  then have c: "CHR ''1'' \<le> c" using d digit_char_less [of 1 d] by simp
  show ?thesis
  proof (cases "c = CHR ''1''")
    case True
    then have "cs \<noteq> []" using k one(3) assms(2) by auto
    then obtain c2 cs2 where cs: "cs = c2 # cs2" by (cases cs) auto
    then have "c2 \<in> digit_char ` {..<10}" using k set_itoa_nat [of i] by auto
    then have "CHR ''0'' \<le> c2" using one(2) digit_char_less [of 0] by auto
    with True k cs show ?thesis by (auto simp: Cons_le_Cons)
  next
    case False
    with c k show ?thesis by (simp add: Cons_le_Cons)
  qed
qed

lemma decimal_order_tenth:
  assumes "10 \<le> length xs"
  shows "decimal_order xs ! 1 = xs ! 9"
proof -
  let ?ks = "seq_keys (length xs)" and ?L = "sort_key fst (zip (seq_keys (length xs)) xs)"
  have keys: "''1'' = itoa_nat 1" "''10'' = itoa_nat 10" by code_simp+
  have mem: "''1'' \<in> set ?ks" "''10'' \<in> set ?ks" unfolding keys using assms by (auto simp del: itoa_nat.simps)
  have le: "''10'' \<le> k" if "k \<in> set ?ks" "k \<noteq> ''1''" for k using that second_key unfolding keys(1) by auto
  let ?rest = "filter (\<lambda>k. k \<noteq> ''1'' \<and> k \<noteq> ''10'') ?ks"
  have "sort ?ks = ''1'' # ''10'' # sort ?rest"
  proof (rule properties_for_sort)
    have "distinct (''1'' # ''10'' # sort ?rest)" "set (''1'' # ''10'' # sort ?rest) = set ?ks"
      using mem by (auto simp del: seq_keys_simps(3))
    from set_eq_iff_mset_eq_distinct [OF this(1) seq_keys_simps(2)] this(2)
    show "mset (''1'' # ''10'' # sort ?rest) = mset ?ks" by blast
    have one: "''1'' \<le> (''10'' :: string)" by code_simp
    then have "\<forall>k \<in> set (''10'' # sort ?rest). ''1'' \<le> k"
      using order_trans [OF one le] by (auto simp del: seq_keys_simps(3))
    then show "sorted (''1'' # ''10'' # sort ?rest)" using le by (auto simp del: seq_keys_simps(3))
  qed
  moreover have "map fst ?L = sort ?ks"
  proof (rule properties_for_sort [symmetric])
    have "mset (map fst ?L) = mset (map fst (zip ?ks xs))" by (simp only: mset_map mset_sort)
    then show "mset (map fst ?L) = mset ?ks" by (simp only: map_fst_zip seq_keys_simps(1))
    show "sorted (map fst ?L)" by (rule sorted_sort_key)
  qed
  ultimately have "map fst ?L ! 1 = ''10''" by simp
  moreover have len: "1 < length ?L" using assms by simp
  ultimately have f: "fst (?L ! 1) = ''10''" by simp
  have "?L ! 1 \<in> set (zip ?ks xs)" using nth_mem [OF len] by simp
  then obtain i where i: "i < length xs" "?L ! 1 = (?ks ! i, xs ! i)" by (auto simp: in_set_zip)
  moreover have "?ks ! i = itoa_nat (Suc i)" using i(1) by (simp add: seq_keys_def del: upt_Suc)
  ultimately have "itoa_nat (Suc i) = ''10''" using f by simp
  then have "i = 9" unfolding keys(2) by simp
  with i len show ?thesis by (simp add: decimal_order_def)
qed

lemma sorted_zip_keys: "length ps = n \<Longrightarrow> sorted_wrt (<) (map fst (sort_key fst (zip (seq_keys n) ps)))"
  and map_of_sort_zip: "length ps = n \<Longrightarrow> map_of (sort_key fst (zip (seq_keys n) ps)) = map_of (zip (seq_keys n) ps)"
proof -
  assume n: "length ps = n"
  have "mset (map fst (sort_key fst (zip (seq_keys n) ps))) = mset (map fst (zip (seq_keys n) ps))"
    by (simp only: mset_map mset_sort)
  then have d: "distinct (map fst (sort_key fst (zip (seq_keys n) ps)))"
    using n mset_eq_imp_distinct_iff [of _ "map fst (zip (seq_keys n) ps)"] by (simp add: map_fst_zip)
  then show "sorted_wrt (<) (map fst (sort_key fst (zip (seq_keys n) ps)))" by (simp add: strict_sorted_iff)
  show "map_of (sort_key fst (zip (seq_keys n) ps)) = map_of (zip (seq_keys n) ps)"
    using n by (subst map_of_inject_set [OF d]) (simp_all add: map_fst_zip)
qed

lemma iter_decoded:
  "\<forall>p \<in> snd ` set kvs. \<exists>x. UnmarshalBinary C p = Inr x \<Longrightarrow>
     iter_keys (append_decoded C) kvs acc = Inr (acc @ map (\<lambda>kv. projr (UnmarshalBinary C (snd kv))) kvs)"
  by (induction "append_decoded C" kvs acc rule: iter_keys.induct) (auto simp: append_decoded_def)

section \<open>The embedded back end satisfies the contract\<close>

text \<open>The payloads of a queue, its well-formedness and its messages in the order of arrival.\<close>

definition payloads :: "element bcodec \<Rightarrow> ('d \<Rightarrow> buckets) \<Rightarrow> ('d \<Rightarrow> string \<Rightarrow> nat) \<Rightarrow> 'd \<Rightarrow> string \<Rightarrow> string list \<Rightarrow> bool" where
  "payloads C view seqno d u ps \<longleftrightarrow> seqno d (offlineBucket u) = length ps \<and>
     view d (offlineBucket u) = Some (map_of (zip (seq_keys (length ps)) ps)) \<and>
     (\<forall>p \<in> set ps. \<exists>x. UnmarshalBinary C p = Inr x)"

definition off_wf :: "element bcodec \<Rightarrow> ('d \<Rightarrow> buckets) \<Rightarrow> ('d \<Rightarrow> string \<Rightarrow> nat) \<Rightarrow> 'd \<Rightarrow> bool" where
  "off_wf C view seqno d \<longleftrightarrow> (\<forall>u. view d (offlineBucket u) = None \<or> (\<exists>ps. payloads C view seqno d u ps))"

definition off_queue :: "element bcodec \<Rightarrow> ('d \<Rightarrow> buckets) \<Rightarrow> ('d \<Rightarrow> string \<Rightarrow> nat) \<Rightarrow> 'd \<Rightarrow> string \<Rightarrow> element list" where
  "off_queue C view seqno d u = (case view d (offlineBucket u) of
       None \<Rightarrow> []
     | Some m \<Rightarrow> map (\<lambda>k. projr (UnmarshalBinary C (the (m k)))) (seq_keys (seqno d (offlineBucket u))))"

lemma offlineBucket_inject [simp]: "offlineBucket u = offlineBucket v \<longleftrightarrow> u = v"
  by (simp add: offlineBucket_def)

lemma off_queue_none: "view d (offlineBucket u) = None \<Longrightarrow> off_queue C view seqno d u = []"
  by (simp add: off_queue_def)

lemma off_queue_payloads:
  assumes "payloads C view seqno d u ps"
  shows "off_queue C view seqno d u = map (\<lambda>p. projr (UnmarshalBinary C p)) ps"
proof (rule nth_equalityI)
  show "length (off_queue C view seqno d u) = length (map (\<lambda>p. projr (UnmarshalBinary C p)) ps)"
    using assms by (simp add: off_queue_def payloads_def)
  fix i assume "i < length (off_queue C view seqno d u)"
  with assms show "off_queue C view seqno d u ! i = map (\<lambda>p. projr (UnmarshalBinary C p)) ps ! i"
    by (simp add: off_queue_def payloads_def map_of_zip_nth)
qed

text \<open>Well-formedness and queues only depend on the users' buckets and their sequences.\<close>

lemma off_cong:
  assumes "view d' (offlineBucket v) = view d (offlineBucket v)" "seqno d' (offlineBucket v) = seqno d (offlineBucket v)"
  shows "off_queue C view seqno d' v = off_queue C view seqno d v" "payloads C view seqno d' v ps = payloads C view seqno d v ps"
  using assms by (simp_all add: off_queue_def payloads_def split: option.split)

lemma map_of_snoc: "map_of xs k = None \<Longrightarrow> map_of (xs @ [(k, v)]) = (map_of xs)(k \<mapsto> v)"
  by (rule HOL.ext) (simp add: map_add_def split: option.split)

lemma payloads_snoc:
  assumes "payloads C view seqno d u ps \<or> (view d (offlineBucket u) = None \<and> ps = [])"
    and "view d' (offlineBucket u) = Some ((map_of (zip (seq_keys (length ps)) ps))(itoa_nat (Suc (length ps)) \<mapsto> p))"
    and "seqno d' (offlineBucket u) = Suc (length ps)" and "UnmarshalBinary C p = Inr x"
  shows "payloads C view seqno d' u (ps @ [p])"
proof -
  have new: "itoa_nat (Suc (length ps)) \<notin> set (seq_keys (length ps))" by auto
  have "map_of (zip (seq_keys (length ps)) ps) (itoa_nat (Suc (length ps))) = None"
    using new by (simp add: map_of_zip_is_None del: seq_keys_simps(3))
  from map_of_snoc [OF this, of p]
  have "map_of (zip (seq_keys (length (ps @ [p]))) (ps @ [p])) =
      (map_of (zip (seq_keys (length ps)) ps))(itoa_nat (Suc (length ps)) \<mapsto> p)"
    by (simp add: seq_keys_Suc)
  with assms show ?thesis by (auto simp: payloads_def)
qed

locale bolt_offline = bolt_store +
  fixes C :: "element bcodec"
  assumes codec: "codec_ok C"
begin

abbreviation wf where "wf \<equiv> off_wf C view seqno"
abbreviation que where "que \<equiv> off_queue C view seqno"

lemma same_view: "view d' = view d \<Longrightarrow> seqno d' = seqno d \<Longrightarrow> wf d' = wf d \<and> que d' = que d"
  unfolding off_wf_def payloads_def off_queue_def [abs_def] by (elim HOL.subst) (simp only: simp_thms)

lemma wf_cases:
  assumes "wf d"
  obtains "view d (offlineBucket u) = None" "que d u = []"
  | ps where "payloads C view seqno d u ps" "que d u = map (\<lambda>p. projr (UnmarshalBinary C p)) ps"
  using assms off_queue_payloads off_queue_none unfolding off_wf_def by metis

lemma cursor_payloads:
  assumes "payloads C view seqno d u ps"
  shows "bxCursor B (offlineBucket u) d = sort_key fst (zip (seq_keys (length ps)) ps)"
proof (rule sorted_alist_unique)
  have v: "view d (offlineBucket u) = Some (map_of (zip (seq_keys (length ps)) ps))" using assms by (simp add: payloads_def)
  show "sorted_wrt (<) (map fst (bxCursor B (offlineBucket u) d))" by (rule cursor_sorted [OF v])
  show "sorted_wrt (<) (map fst (sort_key fst (zip (seq_keys (length ps)) ps)))" by (rule sorted_zip_keys [OF refl])
  show "map_of (bxCursor B (offlineBucket u) d) = map_of (sort_key fst (zip (seq_keys (length ps)) ps))"
    using cursor [OF v] map_of_sort_zip [OF refl] by metis
qed

lemma b_count:
  assumes "wf d"
  shows "bCountOfflineMessages B u d = (Inr (length (que d u)), d)"
  by (rule wf_cases [OF assms, of u])
    (auto simp: bCountOfflineMessages_def countKeysOp_def bucket cursor_payloads, simp add: payloads_def)

lemma b_fetch:
  assumes "wf d"
  shows "bFetchOfflineMessages B C u d = (Inr (decimal_order (que d u)), d)"
proof (rule wf_cases [OF assms, of u])
  assume "view d (offlineBucket u) = None" "que d u = []"
  then show ?thesis by (simp add: bFetchOfflineMessages_def iterKeysOp_def bucket decimal_order_def seq_keys_def)
next
  fix ps assume p: "payloads C view seqno d u ps" and q: "que d u = map (\<lambda>p. projr (UnmarshalBinary C p)) ps"
  let ?kvs = "sort_key fst (zip (seq_keys (length ps)) ps)"
  have "\<forall>p \<in> snd ` set ?kvs. \<exists>x. UnmarshalBinary C p = Inr x"
    using p by (auto simp: payloads_def dest: set_zip_rightD)
  from iter_decoded [OF this, of "[]"] have "iter_keys (append_decoded C) ?kvs [] = Inr (decimal_order (que d u))"
    unfolding q decimal_order_map by (simp add: decimal_order_def comp_def)
  with p show ?thesis by (simp add: bFetchOfflineMessages_def iterKeysOp_def bucket cursor_payloads) (simp add: payloads_def)
qed

lemma b_insert:
  assumes "wf d" and "bInsertOfflineMessage B C m u d = (Inr y, d')"
  shows "wf d' \<and> que d' = (que d)(u := que d u @ [m])"
proof -
  let ?b = "offlineBucket u"
  from assms(2) obtain d1 d2 p n where c: "bxCreate B ?b d = (Inr (), d1)" and p: "MarshalBinary C m = Inr p"
      and s: "bxNextSequence B ?b d1 = (Inr n, d2)" and put1: "bxPut B ?b (itoa_nat n) p d2 = (Inr (), d')"
    by (auto simp: bInsertOfflineMessage_def insertSeqOp_def go_run split: prod.splits sum.splits)
  from wf_cases [OF assms(1), of u] obtain ps
    where ps: "payloads C view seqno d u ps \<or> (view d ?b = None \<and> ps = [])"
      and q: "que d u = map (\<lambda>p. projr (UnmarshalBinary C p)) ps" by (metis list.map_disc_iff)
  let ?m = "map_of (zip (seq_keys (length ps)) ps)"
  have v1: "view d1 ?b = Some ?m" "seqno d1 ?b = length ps"
    using create [OF c] ps by (auto simp: payloads_def seq_keys_def split: option.splits)
  have o1: "view d1 b = view d b" "seqno d1 b = seqno d b" if "b \<noteq> ?b" for b using create [OF c] that by auto
  from next_seq [OF v1(1) s] v1 have n: "n = Suc (length ps)" "view d2 = view d1" "seqno d2 = (seqno d1)(?b := n)" by auto
  with put [of d2 ?b ?m, OF _ put1] v1 have d': "view d' ?b = Some (?m(itoa_nat n \<mapsto> p))" "seqno d' ?b = n"
      and o2: "\<And>b. b \<noteq> ?b \<Longrightarrow> view d' b = view d1 b \<and> seqno d' b = seqno d1 b" by auto
  have x: "UnmarshalBinary C p = Inr m" using codec p by (simp add: codec_ok_def)
  have new: "payloads C view seqno d' u (ps @ [p])" using payloads_snoc [OF ps _ _ x] d' n(1) by simp
  have others: "view d' (offlineBucket v) = view d (offlineBucket v)" "seqno d' (offlineBucket v) = seqno d (offlineBucket v)"
    if "v \<noteq> u" for v using o1 [of "offlineBucket v"] o2 [of "offlineBucket v"] that by simp_all
  have "wf d'" unfolding off_wf_def
  proof
    fix v show "view d' (offlineBucket v) = None \<or> (\<exists>ps. payloads C view seqno d' v ps)"
      using new others [of v] off_cong(2) [of view d' v d seqno] assms(1) unfolding off_wf_def by (cases "v = u") auto
  qed
  moreover have "que d' = (que d)(u := que d u @ [m])"
  proof
    fix v show "que d' v = ((que d)(u := que d u @ [m])) v"
      using off_queue_payloads [OF new] q x off_cong(1) [of view d' v d seqno] others [of v] by (cases "v = u") auto
  qed
  ultimately show ?thesis ..
qed

lemma b_delete:
  assumes "wf d" and "bDeleteOfflineMessages B u d = (Inr y, d')"
  shows "wf d' \<and> que d' = (que d)(u := [])"
proof -
  let ?b = "offlineBucket u"
  from assms(2) have del: "bxDeleteBucket B ?b d = (Inr y, d')" by (simp add: bDeleteOfflineMessages_def delBucketOp_def)
  with delete_missing [of d ?b] obtain m where "view d ?b = Some m" by fastforce
  from delete_bucket [OF this del] have d': "view d' = (view d)(?b := None)" "\<And>b. b \<noteq> ?b \<Longrightarrow> seqno d' b = seqno d b" by auto
  have others: "view d' (offlineBucket v) = view d (offlineBucket v)" "seqno d' (offlineBucket v) = seqno d (offlineBucket v)"
    if "v \<noteq> u" for v using d'(1) d'(2) [of "offlineBucket v"] that by simp_all
  have "wf d'" unfolding off_wf_def
  proof
    fix v show "view d' (offlineBucket v) = None \<or> (\<exists>ps. payloads C view seqno d' v ps)"
      using d'(1) others [of v] off_cong(2) [of view d' v d seqno] assms(1) unfolding off_wf_def by (cases "v = u") auto
  qed
  moreover have "que d' = (que d)(u := [])"
  proof
    fix v show "que d' v = ((que d)(u := [])) v"
      using d'(1) off_cong(1) [of view d' v d seqno] others [of v] by (cases "v = u") (auto simp: off_queue_def)
  qed
  ultimately show ?thesis ..
qed

end

sublocale bolt_offline \<subseteq> rep: offline_store "boltOfflineRep B C" "\<lambda>w. off_wf C view seqno (dbState w)"
  "\<lambda>w. off_queue C view seqno (dbState w)" decimal_order
proof (unfold_locales, goal_cases)
  case (2 w u r w')
  from 2(2) have "db_View B (bCountOfflineMessages B u) w = (r, w')" by (simp add: boltOfflineRep_def)
  then show ?case
  proof (cases rule: View_cases)
    case (2 d)
    with same_view [of d "dbState w"] b_count [of d u] \<open>wf (dbState w)\<close> show ?thesis by auto
  qed (use 2(1) in auto)
next
  case (3 w u s w')
  from 3(2) have "db_View B (bFetchOfflineMessages B C u) w = (s, w')" by (simp add: boltOfflineRep_def)
  then show ?case
  proof (cases rule: View_cases)
    case (2 d)
    with same_view [of d "dbState w"] b_fetch [of d u] 3(1) show ?thesis by auto
  qed (use 3(1) in auto)
next
  case (4 w m u t w')
  from 4(2) have "db_Update B (bInsertOfflineMessage B C m u) w = (t, w')" by (simp add: boltOfflineRep_def)
  then show ?case
  proof (cases rule: Update_cases)
    case (2 x d d')
    with same_view [of d "dbState w"] same_view [of "dbState w'" d'] b_insert [of d m u x d'] 4(1) show ?thesis by auto
  qed (use 4(1) in auto)
next
  case (5 w u t w')
  from 5(2) have "db_Update B (bDeleteOfflineMessages B u) w = (t, w')" by (simp add: boltOfflineRep_def)
  then show ?case
  proof (cases rule: Update_cases)
    case (2 x d d')
    with same_view [of d "dbState w"] same_view [of "dbState w'" d'] b_delete [of d u x d'] 5(1) show ?thesis by auto
  qed (use 5(1) in auto)
qed simp

end
