(* ===== verification/Offline.thy ===== *)
theory Offline
  imports Offline_Store Hooks "HOL-Library.Countable"
begin

text \<open>
  The offline module (\<^verbatim>\<open>src/pkg/module/offline/offline.go\<close>): messages that reached no resource are
  queued and delivered when the user sends an available presence. The collaborators are the record
  \<open>offline_env\<close>; its locks are the repository's. \<open>offline_module\<close> is what the module's lemmas need
  of them, \<open>offline_live\<close> that they answer; both are shown for the embedded back end.
\<close>

section \<open>Environment\<close>

record 'w offline_outside =
  ofLib :: xlib
  ofIsLocalHost :: "string \<Rightarrow> bool"
  ofQueueSize :: int
  ofRoute :: "element \<Rightarrow> ('w, jid list) go"
  ofRunHook :: "string \<Rightarrow> string \<Rightarrow> element \<Rightarrow> ('w, unit) go"
  ofUsername :: "nat \<Rightarrow> 'w \<Rightarrow> string"
  ofStreamInfo :: "nat \<Rightarrow> 'w \<Rightarrow> info_map"
  ofSendElement :: "nat \<Rightarrow> element \<Rightarrow> ('w, unit) go"
  ofNow :: "('w, string) go"

record 'w offline_env = "'w offline_outside" +
  ofRep :: "'w offline_rep"
  ofLock :: "string \<Rightarrow> ('w, unit) go"
  ofUnlock :: "string \<Rightarrow> ('w, unit) go"

definition hintsNamespace :: string where "hintsNamespace = ''urn:xmpp:hints''"
definition archiveRequestedCtxKey :: string where "archiveRequestedCtxKey = ''mam:requested''"

definition IsArchiveRequested :: "info_map \<Rightarrow> bool" where
  "IsArchiveRequested info = infoBool info archiveRequestedCtxKey"

section \<open>Operations\<close>

definition offlineQueueLockID :: "string \<Rightarrow> string" where
  "offlineQueueLockID username = ''offline:lock:'' @ username"

definition isMessageArchievable :: "xlib \<Rightarrow> element \<Rightarrow> bool" where
  "isMessageArchievable X msg =
     (if ChildNamespace X msg ''no-store'' hintsNamespace \<noteq> None then False
      else if ChildNamespace X msg ''store'' hintsNamespace \<noteq> None then True
      else IsNormal X msg \<or> (IsChat X msg \<and> IsMessageWithBody X msg))"

text \<open>The lock is released when the function returns, whatever it returns; an error of the release is
  only logged.\<close>

definition releaseLock :: "'w offline_env \<Rightarrow> string \<Rightarrow> ('w, unit) go" where
  "releaseLock E lockID = ignore (ofUnlock E lockID)"

definition with_lock :: "'w offline_env \<Rightarrow> string \<Rightarrow> ('w, 'a) go \<Rightarrow> ('w, 'a) go" where
  "with_lock E lockID body =
     andthen (ofLock E lockID) (\<lambda>_ w. case body w of (r, w') \<Rightarrow> (r, snd (releaseLock E lockID w')))"

definition archiveMessage :: "'w offline_env \<Rightarrow> element \<Rightarrow> ('w, unit) go" where
  "archiveMessage E msg =
     (let toJID = ToJID (ofLib E) msg; username = Node toJID
      in with_lock E (offlineQueueLockID username)
           (andthen (CountOfflineMessages (ofRep E) username) (\<lambda>qSize.
             if int qSize = ofQueueSize E then
               andthen (ignore (ofRoute E (MakeErrorStanza (ofLib E) msg ''service-unavailable''))) (\<lambda>_. throw ErrStopped)
             else
               andthen (ofNow E) (\<lambda>now.
               let dMsg = MakeDelayMessage msg now (Domain toJID) ''Offline Storage''
               in andthen (InsertOfflineMessage (ofRep E) dMsg username) (\<lambda>_.
                  andthen (ofRunHook E ''offline.message.archieved'' username dMsg) (\<lambda>_.
                    throw ErrStopped))))))"

definition deliverOfflineMessages :: "'w offline_env \<Rightarrow> nat \<Rightarrow> ('w, unit) go" where
  "deliverOfflineMessages E stm =
     andthen (gets (ofUsername E stm)) (\<lambda>username.
       with_lock E (offlineQueueLockID username)
         (andthen (FetchOfflineMessages (ofRep E) username) (\<lambda>ms.
           if length ms = 0 then ret ()
           else andthen (DeleteOfflineMessages (ofRep E) username) (\<lambda>_.
             for_each ms (ofSendElement E stm)))))"

text \<open>The handlers. A message is an element that the XML package classifies as one.\<close>

definition onMessageRouted :: "'w offline_env \<Rightarrow> jid list \<Rightarrow> element \<Rightarrow> ('w, unit) go" where
  "onMessageRouted E targets elem =
     (if length targets > 0 then ret ()
      else if StanzaKind (ofLib E) elem \<noteq> MessageKind \<or> \<not> isMessageArchievable (ofLib E) elem then ret ()
      else if \<not> ofIsLocalHost E (Domain (ToJID (ofLib E) elem)) then ret ()
      else archiveMessage E elem)"

definition onC2SPresenceRecv :: "'w offline_env \<Rightarrow> nat \<Rightarrow> element \<Rightarrow> ('w, unit) go" where
  "onC2SPresenceRecv E stm pr =
     andthen (gets (ofStreamInfo E stm)) (\<lambda>info.
       if IsArchiveRequested info then ret ()
       else
         (let toJID = ToJID (ofLib E) pr
          in if IsFull (ofLib E) toJID \<or> \<not> ofIsLocalHost E (Domain toJID) then ret ()
             else if \<not> IsAvailable (ofLib E) pr \<or> Priority (ofLib E) pr < 0 then ret ()
             else deliverOfflineMessages E stm))"

definition ofOnUserDeleted :: "'w offline_env \<Rightarrow> string \<Rightarrow> ('w, unit) go" where
  "ofOnUserDeleted E username =
     with_lock E (offlineQueueLockID username) (DeleteOfflineMessages (ofRep E) username)"

section \<open>The module over a repository\<close>

datatype off_event = Routed "jid list" element | PresenceRecv nat element | UserDeleted string

fun off_step :: "'w offline_env \<Rightarrow> off_event \<Rightarrow> ('w, unit) go" where
  "off_step E (Routed ts el) = onMessageRouted E ts el"
| "off_step E (PresenceRecv stm pr) = onC2SPresenceRecv E stm pr"
| "off_step E (UserDeleted u) = ofOnUserDeleted E u"

text \<open>What archiving a message does to the queues, whatever it returns.\<close>

definition archived :: "'w offline_env \<Rightarrow> element \<Rightarrow> (string \<Rightarrow> element list) \<Rightarrow> (string \<Rightarrow> element list) \<Rightarrow> bool" where
  "archived E msg q q' \<longleftrightarrow>
     (let j = ToJID (ofLib E) msg
      in q' = q \<or> (int (length (q (Node j))) \<noteq> ofQueueSize E \<and>
           (\<exists>now. q' = q(Node j := q (Node j) @ [MakeDelayMessage msg now (Domain j) ''Offline Storage'']))))"

locale offline_module = offline_store "ofRep E" inv queue read
  for E :: "'w offline_env" and inv queue read +
  assumes outside_keep:
    "keeps (\<lambda>w. inv w \<and> queue w = q) (ofRoute E el)" "keeps (\<lambda>w. inv w \<and> queue w = q) (ofRunHook E h u el)"
    "keeps (\<lambda>w. inv w \<and> queue w = q) (ofNow E)" "keeps (\<lambda>w. inv w \<and> queue w = q) (ofSendElement E stm el)"
    "keeps (\<lambda>w. inv w \<and> queue w = q) (ofLock E l)" "keeps (\<lambda>w. inv w \<and> queue w = q) (ofUnlock E l)"
begin

lemma outsideD:
  "inv w \<Longrightarrow> ofRoute E el w = (r1, w') \<Longrightarrow> inv w' \<and> queue w' = queue w"
  "inv w \<Longrightarrow> ofRunHook E h u el w = (r2, w') \<Longrightarrow> inv w' \<and> queue w' = queue w"
  "inv w \<Longrightarrow> ofNow E w = (r3, w') \<Longrightarrow> inv w' \<and> queue w' = queue w"
  "inv w \<Longrightarrow> ofLock E l w = (r4, w') \<Longrightarrow> inv w' \<and> queue w' = queue w"
  "inv w \<Longrightarrow> ofUnlock E l w = (r5, w') \<Longrightarrow> inv w' \<and> queue w' = queue w"
  using outside_keep [of "queue w"] unfolding keeps_def by (metis snd_conv)+

text \<open>A function that runs under the lock keeps what its body establishes.\<close>

lemma with_lock_post:
  assumes "with_lock E l body w = (r, w')" "inv w"
    and "\<And>w0 w1. inv w0 \<Longrightarrow> queue w0 = queue w \<Longrightarrow> body w0 = (r, w1) \<Longrightarrow> inv w1 \<and> P (queue w1)"
    and "\<And>e. r = Inl e \<Longrightarrow> P (queue w)"
  shows "inv w' \<and> P (queue w')"
proof -
  obtain r0 w0 where l: "ofLock E l w = (r0, w0)" by fastforce
  note w0 = outsideD(4) [OF assms(2) l]
  show ?thesis
  proof (cases r0)
    case (Inl e)
    with assms(1) l have "r = Inl e" "w' = w0" by (auto simp: with_lock_def go_run)
    with assms(4) w0 show ?thesis by simp
  next
    case (Inr x)
    obtain r1 w1 where b: "body w0 = (r1, w1)" by fastforce
    obtain r2 w2 where u: "ofUnlock E l w1 = (r2, w2)" by fastforce
    from assms(1) l Inr b u have "r1 = r" "w' = w2" by (auto simp: with_lock_def releaseLock_def go_run)
    with assms(3) [OF _ _ b [unfolded \<open>r1 = r\<close>]] w0 outsideD(5) [OF _ u] show ?thesis by auto
  qed
qed

lemma archive_effect:
  assumes "inv w" and "archiveMessage E msg w = (r, w')"
  shows "inv w' \<and> archived E msg (queue w) (queue w')"
proof (rule with_lock_post [OF assms(2) [unfolded archiveMessage_def Let_def] assms(1)])
  show "archived E msg (queue w) (queue w)" by (simp add: archived_def)
  let ?j = "ToJID (ofLib E) msg"
  let ?dm = "\<lambda>now. MakeDelayMessage msg now (Domain ?j) ''Offline Storage''"
  fix w0 w1 assume w0: "inv w0" "queue w0 = queue w"
    and run: "andthen (CountOfflineMessages (ofRep E) (Node ?j)) (\<lambda>qSize.
       if int qSize = ofQueueSize E then
         andthen (ignore (ofRoute E (MakeErrorStanza (ofLib E) msg ''service-unavailable''))) (\<lambda>_. throw ErrStopped)
       else andthen (ofNow E) (\<lambda>now. andthen (InsertOfflineMessage (ofRep E) (?dm now) (Node ?j)) (\<lambda>_.
         andthen (ofRunHook E ''offline.message.archieved'' (Node ?j) (?dm now)) (\<lambda>_. throw ErrStopped)))) w0 = (r, w1)"
  obtain c w2 where c: "CountOfflineMessages (ofRep E) (Node ?j) w0 = (c, w2)" by fastforce
  note w2 = count [OF w0(1) c]
  show "inv w1 \<and> archived E msg (queue w) (queue w1)"
  proof (cases c)
    case (Inl e)
    with run c w0 w2 show ?thesis by (simp add: go_run archived_def)
  next
    case (Inr n)
    show ?thesis
    proof (cases "int n = ofQueueSize E")
      case True
      obtain x w3 where "ofRoute E (MakeErrorStanza (ofLib E) msg ''service-unavailable'') w2 = (x, w3)" by fastforce
      with run c Inr True w0 w2 outsideD(1) [of w2] show ?thesis by (auto simp: go_run archived_def)
    next
      case False
      obtain t w3 where t: "ofNow E w2 = (t, w3)" by fastforce
      note w3 = outsideD(3) [of w2, OF _ t]
      show ?thesis
      proof (cases t)
        case (Inl e)
        with run c Inr False t w0 w2 w3 show ?thesis by (auto simp: go_run archived_def)
      next
        case (Inr now)
        obtain y w4 where i: "InsertOfflineMessage (ofRep E) (?dm now) (Node ?j) w3 = (y, w4)" by fastforce
        note w4 = insert [of w3, OF _ i]
        obtain z w5 where h: "ofRunHook E ''offline.message.archieved'' (Node ?j) (?dm now) w4 = (z, w5)" by fastforce
        note w5 = outsideD(2) [of w4, OF _ h]
        have "inv w1 \<and> (queue w1 = queue w \<or> queue w1 = (queue w)(Node ?j := queue w (Node ?j) @ [?dm now]))"
          using run c \<open>c = Inr n\<close> False t Inr i h w0 w2 w3 w4 w5 by (cases y; cases z) (auto simp: go_run)
        then show ?thesis using False w0 w2 \<open>c = Inr n\<close> by (auto simp: archived_def Let_def)
      qed
    qed
  qed
qed

lemma routed_effect:
  assumes "inv w" and "onMessageRouted E ts el w = (r, w')"
  shows "inv w' \<and> archived E el (queue w) (queue w')"
  using assms archive_effect by (auto simp: onMessageRouted_def archived_def go_run split: if_splits)

text \<open>Delivery and the removal of an account leave a queue alone or empty it.\<close>

lemma delete_effect:
  assumes "inv w" and "DeleteOfflineMessages (ofRep E) u w = (t, w')"
  shows "inv w' \<and> (queue w' = queue w \<or> queue w' = (queue w)(u := []))"
  using delete [OF assms] by (auto split: sum.splits)

lemma deliver_effect:
  assumes "inv w" and "deliverOfflineMessages E stm w = (r, w')"
  shows "inv w' \<and> (queue w' = queue w \<or> (\<exists>u. queue w' = (queue w)(u := [])))"
proof -
  let ?u = "ofUsername E stm w"
  have body: "with_lock E (offlineQueueLockID ?u) (andthen (FetchOfflineMessages (ofRep E) ?u) (\<lambda>ms. if ms = [] then ret ()
      else andthen (DeleteOfflineMessages (ofRep E) ?u) (\<lambda>_. for_each ms (ofSendElement E stm)))) w = (r, w')"
    using assms(2) by (simp add: deliverOfflineMessages_def gets_def andthen_def [of "\<lambda>w. (Inr (ofUsername E stm w), w)"])
  show ?thesis
  proof (rule with_lock_post [OF body assms(1)])
  fix w0 w1 assume w0: "inv w0" "queue w0 = queue w"
    and run: "andthen (FetchOfflineMessages (ofRep E) ?u) (\<lambda>ms. if ms = [] then ret ()
      else andthen (DeleteOfflineMessages (ofRep E) ?u) (\<lambda>_. for_each ms (ofSendElement E stm))) w0 = (r, w1)"
  obtain f w2 where f: "FetchOfflineMessages (ofRep E) ?u w0 = (f, w2)" by fastforce
  note w2 = fetch [OF w0(1) f]
  obtain t w3 where t: "DeleteOfflineMessages (ofRep E) ?u w2 = (t, w3)" by fastforce
  note w3 = delete_effect [OF _ t]
  have s: "inv w4 \<and> queue w4 = queue w3" if "for_each ms (ofSendElement E stm) w3 = (y, w4)" "inv w3" for ms y w4
  proof -
    have "keeps (\<lambda>w. inv w \<and> queue w = queue w3) (for_each ms (ofSendElement E stm))"
      by (intro keeps_for_each outside_keep(4))
    from keepsD [OF this, of w3] that show ?thesis by simp
  qed
  have "inv w1 \<and> (queue w1 = queue w \<or> queue w1 = (queue w)(?u := []))"
    using run f t w0 w2 w3 by (cases f; cases t) (auto simp: go_run dest: s split: if_splits)
  then show "inv w1 \<and> (queue w1 = queue w \<or> (\<exists>u. queue w1 = (queue w)(u := [])))" by blast
  qed simp
qed

abbreviation within_limit where
  "within_limit w \<equiv> \<forall>u. int (length (queue w u)) \<le> ofQueueSize E"

lemma emptied_within: "within_limit w \<Longrightarrow> queue w' = queue w \<or> (\<exists>u. queue w' = (queue w)(u := [])) \<Longrightarrow> within_limit w'"
  by (metis (no_types, lifting) fun_upd_apply le0 le_trans length_0_conv of_nat_le_iff order_trans)

lemma step_within:
  assumes "inv w" and "off_step E ev w = (r, w')" and "within_limit w"
  shows "inv w' \<and> within_limit w'"
proof (cases ev)
  case (Routed ts el)
  from routed_effect [OF assms(1)] assms(2) Routed have "inv w' \<and> archived E el (queue w) (queue w')" by simp
  moreover have "int (length (queue w (Node (ToJID (ofLib E) el)))) \<le> ofQueueSize E" using assms(3) by blast
  then have "int (length (queue w (Node (ToJID (ofLib E) el)))) \<noteq> ofQueueSize E \<Longrightarrow>
      int (length (queue w (Node (ToJID (ofLib E) el)))) + 1 \<le> ofQueueSize E" by linarith
  ultimately show ?thesis using assms(3) by (auto simp: archived_def Let_def)
next
  case (PresenceRecv stm pr)
  with assms(2) have "deliverOfflineMessages E stm w = (r, w') \<or> w' = w"
    by (auto simp: onC2SPresenceRecv_def go_run Let_def split: if_splits)
  with deliver_effect [OF assms(1)] emptied_within [OF assms(3)] assms(1,3) show ?thesis by blast
next
  case (UserDeleted u)
  then have "with_lock E (offlineQueueLockID u) (DeleteOfflineMessages (ofRep E) u) w = (r, w')"
    using assms(2) by (simp add: ofOnUserDeleted_def)
  from with_lock_post [OF this assms(1), where P = "\<lambda>q. q = queue w \<or> (\<exists>u. q = (queue w)(u := []))"]
    delete_effect emptied_within [OF assms(3)] show ?thesis by metis
qed

lemma run_within:
  "inv w \<Longrightarrow> within_limit w \<Longrightarrow> run_all (off_step E) evs w = (rs, w') \<Longrightarrow> inv w' \<and> within_limit w'"
proof (induction evs arbitrary: w rs)
  case (Cons ev evs)
  obtain r w1 where s: "off_step E ev w = (r, w1)" by fastforce
  with Cons.prems(3) obtain rs' where "run_all (off_step E) evs w1 = (rs', w')" by (auto split: prod.splits)
  with Cons.IH step_within [OF Cons.prems(1) s Cons.prems(2)] show ?case by blast
qed simp

end

section \<open>A repository that answers\<close>

text \<open>Messages of one user that the module keeps.\<close>

definition to_user :: "'w offline_env \<Rightarrow> string \<Rightarrow> element \<Rightarrow> bool" where
  "to_user E u m \<longleftrightarrow> StanzaKind (ofLib E) m = MessageKind \<and> isMessageArchievable (ofLib E) m \<and>
     ofIsLocalHost E (Domain (ToJID (ofLib E) m)) \<and> Node (ToJID (ofLib E) m) = u"

definition delayed :: "'w offline_env \<Rightarrow> element \<Rightarrow> element \<Rightarrow> bool" where
  "delayed E m dm \<longleftrightarrow> (\<exists>now. dm = MakeDelayMessage m now (Domain (ToJID (ofLib E) m)) ''Offline Storage'')"

text \<open>\<open>sent w stm\<close> are the elements handed to stream \<open>stm\<close> so far.\<close>

locale offline_live = offline_module E inv queue read
  for E :: "'w offline_env" and inv queue read +
  fixes sent :: "'w \<Rightarrow> nat \<Rightarrow> element list"
  assumes answers: "inv w \<Longrightarrow> \<exists>n. fst (CountOfflineMessages (ofRep E) u w) = Inr n"
      "inv w \<Longrightarrow> \<exists>ms. fst (FetchOfflineMessages (ofRep E) u w) = Inr ms"
      "inv w \<Longrightarrow> fst (InsertOfflineMessage (ofRep E) m u w) = Inr ()"
      "inv w \<Longrightarrow> queue w u \<noteq> [] \<Longrightarrow> fst (DeleteOfflineMessages (ofRep E) u w) = Inr ()"
      "fst (ofLock E l w) = Inr ()" "fst (ofRunHook E h u el w) = Inr ()" "\<exists>now. fst (ofNow E w) = Inr now"
    and send: "ofSendElement E stm el w = (Inr (), w') \<and> inv w \<Longrightarrow> sent w' = (sent w)(stm := sent w stm @ [el])"
      "fst (ofSendElement E stm el w) = Inr ()"
    and no_send: "keeps (\<lambda>w. sent w = s) (FetchOfflineMessages (ofRep E) u)"
      "keeps (\<lambda>w. sent w = s) (DeleteOfflineMessages (ofRep E) u)"
      "keeps (\<lambda>w. sent w = s) (ofLock E l)" "keeps (\<lambda>w. sent w = s) (ofUnlock E l)"
begin

lemma no_sendD:
  "FetchOfflineMessages (ofRep E) u w = (r1, w') \<Longrightarrow> sent w' = sent w"
  "DeleteOfflineMessages (ofRep E) u w = (r2, w') \<Longrightarrow> sent w' = sent w"
  "ofLock E l w = (r3, w') \<Longrightarrow> sent w' = sent w" "ofUnlock E l w = (r4, w') \<Longrightarrow> sent w' = sent w"
  using no_send [of "sent w"] unfolding keeps_def by (metis snd_conv)+

lemma archive_ok:
  assumes "inv w" and "int (length (queue w (Node (ToJID (ofLib E) msg)))) \<noteq> ofQueueSize E"
  shows "\<exists>w' now. archiveMessage E msg w = (Inl ErrStopped, w') \<and> inv w' \<and>
    queue w' = (queue w)(Node (ToJID (ofLib E) msg) := queue w (Node (ToJID (ofLib E) msg)) @
      [MakeDelayMessage msg now (Domain (ToJID (ofLib E) msg)) ''Offline Storage''])"
proof -
  let ?j = "ToJID (ofLib E) msg" and ?l = "offlineQueueLockID (Node (ToJID (ofLib E) msg))"
  let ?dm = "\<lambda>now. MakeDelayMessage msg now (Domain ?j) ''Offline Storage''"
  obtain w0 where l: "ofLock E ?l w = (Inr (), w0)" using answers(5) by (metis prod.collapse)
  note w0 = outsideD(4) [OF assms(1) l]
  obtain n w2 where c: "CountOfflineMessages (ofRep E) (Node ?j) w0 = (Inr n, w2)"
    using answers(1) w0 by (metis prod.collapse)
  have w2: "inv w2" "queue w2 = queue w" "int n \<noteq> ofQueueSize E" using count [OF _ c] w0 assms(2) by auto
  obtain now w3 where t: "ofNow E w2 = (Inr now, w3)" using answers(7) by (metis prod.collapse)
  note w3 = outsideD(3) [OF w2(1) t]
  obtain w4 where i: "InsertOfflineMessage (ofRep E) (?dm now) (Node ?j) w3 = (Inr (), w4)"
    using answers(3) w3 by (metis prod.collapse)
  have w4: "inv w4" "queue w4 = (queue w)(Node ?j := queue w (Node ?j) @ [?dm now])" using insert [OF _ i] w3 w2 by auto
  obtain w5 where h: "ofRunHook E ''offline.message.archieved'' (Node ?j) (?dm now) w4 = (Inr (), w5)"
    using answers(6) by (metis prod.collapse)
  note w5 = outsideD(2) [OF w4(1) h]
  obtain x w6 where u: "ofUnlock E ?l w5 = (x, w6)" by fastforce
  have "archiveMessage E msg w = (Inl ErrStopped, w6)"
    using l c w2(3) t i h u by (simp add: archiveMessage_def Let_def with_lock_def releaseLock_def go_run)
  with outsideD(5) [OF _ u] w4 w5 show ?thesis by auto
qed

lemma archive_all:
  assumes "inv w" and "\<forall>m \<in> set msgs. to_user E u m" and "int (length (queue w u) + length msgs) \<le> ofQueueSize E"
  shows "\<exists>w' dms. run_all (onMessageRouted E []) msgs w = (replicate (length msgs) (Inl ErrStopped), w') \<and> inv w' \<and>
    queue w' = (queue w)(u := queue w u @ dms) \<and> list_all2 (delayed E) msgs dms"
  using assms
proof (induction msgs arbitrary: w)
  case (Cons m msgs)
  let ?j = "ToJID (ofLib E) m"
  from Cons.prems have m: "to_user E u m" and room: "int (length (queue w (Node ?j))) \<noteq> ofQueueSize E"
    by (auto simp: to_user_def)
  from archive_ok [OF Cons.prems(1) room] m obtain w1 now where a: "archiveMessage E m w = (Inl ErrStopped, w1)" "inv w1"
      "queue w1 = (queue w)(u := queue w u @ [MakeDelayMessage m now (Domain ?j) ''Offline Storage''])"
    by (auto simp: to_user_def)
  then have r: "onMessageRouted E [] m w = (Inl ErrStopped, w1)" using m by (simp add: onMessageRouted_def to_user_def)
  have "\<forall>m \<in> set msgs. to_user E u m" "int (length (queue w1 u) + length msgs) \<le> ofQueueSize E"
    using Cons.prems a(3) by auto
  from Cons.IH [OF a(2) this] obtain w' dms
    where "run_all (onMessageRouted E []) msgs w1 = (replicate (length msgs) (Inl ErrStopped), w')" "inv w'"
      "queue w' = (queue w1)(u := queue w1 u @ dms)" "list_all2 (delayed E) msgs dms" by blast
  with r a(3) show ?case
    by (intro exI [of _ w'] exI [of _ "MakeDelayMessage m now (Domain ?j) ''Offline Storage'' # dms"])
      (auto simp: delayed_def [of E m])
qed simp

lemma send_all:
  assumes "inv w"
  shows "\<exists>w'. for_each ms (ofSendElement E stm) w = (Inr (), w') \<and> inv w' \<and> queue w' = queue w \<and>
    sent w' = (sent w)(stm := sent w stm @ ms)"
  using assms
proof (induction ms arbitrary: w)
  case (Cons m ms)
  obtain w1 where s: "ofSendElement E stm m w = (Inr (), w1)" using send(2) by (metis prod.collapse)
  have w1: "inv w1" "queue w1 = queue w"
    using keepsD [OF outside_keep(4) [of "queue w" stm m], of w] s Cons.prems by auto
  from Cons.IH [OF w1(1)] obtain w' where "for_each ms (ofSendElement E stm) w1 = (Inr (), w')" "inv w'"
      "queue w' = queue w1" "sent w' = (sent w1)(stm := sent w1 stm @ ms)" by blast
  with s w1 send(1) [of stm m w w1] Cons.prems show ?case by (auto simp: go_run)
qed (simp add: go_run)

lemma deliver_ok:
  assumes "inv w" and u: "ofUsername E stm w = u"
  shows "\<exists>w'. deliverOfflineMessages E stm w = (Inr (), w') \<and> inv w' \<and> queue w' = (queue w)(u := []) \<and>
    sent w' = (sent w)(stm := sent w stm @ read (queue w u))"
proof -
  let ?l = "offlineQueueLockID u"
  obtain w0 where l: "ofLock E ?l w = (Inr (), w0)" using answers(5) by (metis prod.collapse)
  have w0: "inv w0" "queue w0 = queue w" "sent w0 = sent w"
    using outsideD(4) [OF assms(1) l] no_sendD(3) [OF l] by auto
  obtain ms w1 where f: "FetchOfflineMessages (ofRep E) u w0 = (Inr ms, w1)" using answers(2) w0 by (metis prod.collapse)
  have w1: "inv w1" "queue w1 = queue w" "ms = read (queue w u)" "sent w1 = sent w"
    using fetch [OF w0(1) f] w0 no_sendD(1) [OF f] by auto
  have len: "length ms = length (queue w u)" using w1(3) read_perm [of "queue w u"] by (metis size_mset)
  define w3 where "w3 = snd ((if length ms = 0 then ret () else andthen (DeleteOfflineMessages (ofRep E) u) (\<lambda>_.
      for_each ms (ofSendElement E stm))) w1)"
  have body: "(if length ms = 0 then ret () else andthen (DeleteOfflineMessages (ofRep E) u) (\<lambda>_.
      for_each ms (ofSendElement E stm))) w1 = (Inr (), w3) \<and>
    inv w3 \<and> queue w3 = (queue w)(u := []) \<and> sent w3 = (sent w)(stm := sent w stm @ ms)"
  proof (cases "ms = []")
    case True
    with w1 len show ?thesis by (auto simp: w3_def go_run)
  next
    case False
    then have "queue w1 u \<noteq> []" using len w1 by auto
    then obtain w2 where d: "DeleteOfflineMessages (ofRep E) u w1 = (Inr (), w2)"
      using answers(4) w1 by (metis prod.collapse)
    have w2: "inv w2" "queue w2 = (queue w)(u := [])" "sent w2 = sent w"
      using delete [OF w1(1) d] w1 no_sendD(2) [OF d] by auto
    from send_all [OF w2(1), of ms stm] w2 d False show ?thesis by (auto simp: w3_def go_run)
  qed
  obtain x w4 where un: "ofUnlock E ?l w3 = (x, w4)" by fastforce
  have w4: "inv w4" "queue w4 = queue w3" "sent w4 = sent w3"
    using outsideD(5) [OF _ un] body no_sendD(4) [OF un] by auto
  have "deliverOfflineMessages E stm w = (Inr (), w4)"
    using l f body un u by (simp add: deliverOfflineMessages_def with_lock_def releaseLock_def go_run)
  with body w4 w1 show ?thesis by auto
qed

end

section \<open>On the embedded back end\<close>

text \<open>The embedded repository's locks do nothing.\<close>

definition boltLock :: "string \<Rightarrow> ('w, unit) go" where "boltLock l = ret ()"
definition boltUnlock :: "string \<Rightarrow> ('w, unit) go" where "boltUnlock l = ret ()"

definition bolt_offline_env :: "'d bolt \<Rightarrow> element bcodec \<Rightarrow> 'r offline_outside \<Rightarrow> ('d, 'r) db_world offline_env" where
  "bolt_offline_env B C G = \<lparr>ofLib = ofLib G, ofIsLocalHost = ofIsLocalHost G, ofQueueSize = ofQueueSize G,
     ofRoute = (\<lambda>el. on_rest (ofRoute G el)), ofRunHook = (\<lambda>h u el. on_rest (ofRunHook G h u el)),
     ofUsername = (\<lambda>s w. ofUsername G s (dbRest w)), ofStreamInfo = (\<lambda>s w. ofStreamInfo G s (dbRest w)),
     ofSendElement = (\<lambda>s el. on_rest (ofSendElement G s el)), ofNow = on_rest (ofNow G),
     ofRep = boltOfflineRep B C, ofLock = boltLock, ofUnlock = boltUnlock\<rparr>"

lemmas bolt_offline_env_sel [simp] = bolt_offline_env_def [THEN arg_cong, of ofLib, simplified]
  bolt_offline_env_def [THEN arg_cong, of ofIsLocalHost, simplified] bolt_offline_env_def [THEN arg_cong, of ofQueueSize, simplified]
  bolt_offline_env_def [THEN arg_cong, of ofRoute, simplified] bolt_offline_env_def [THEN arg_cong, of ofRunHook, simplified]
  bolt_offline_env_def [THEN arg_cong, of ofUsername, simplified] bolt_offline_env_def [THEN arg_cong, of ofStreamInfo, simplified]
  bolt_offline_env_def [THEN arg_cong, of ofSendElement, simplified] bolt_offline_env_def [THEN arg_cong, of ofNow, simplified]
  bolt_offline_env_def [THEN arg_cong, of ofRep, simplified] bolt_offline_env_def [THEN arg_cong, of ofLock, simplified]
  bolt_offline_env_def [THEN arg_cong, of ofUnlock, simplified]

sublocale bolt_offline \<subseteq> module: offline_module "bolt_offline_env B C G" "\<lambda>w. off_wf C view seqno (dbState w)"
  "\<lambda>w. off_queue C view seqno (dbState w)" decimal_order for G
  by unfold_locales
    (auto simp: keeps_def on_rest_parts boltLock_def boltUnlock_def go_run dest: rep.count rep.fetch rep.insert rep.delete)

text \<open>The database accepts transactions and writes, and the collaborators answer.\<close>

locale bolt_offline_live = bolt_offline +
  fixes G :: "'r offline_outside" and sent :: "'r \<Rightarrow> nat \<Rightarrow> element list"
  assumes db_answers: "fst (bxBegin B d) = Inr ()" "fst (bxCommit B d) = Inr ()" "fst (bxCreate B b d) = Inr ()"
      "view d b \<noteq> None \<Longrightarrow> fst (bxPut B b k v d) = Inr ()" "view d b \<noteq> None \<Longrightarrow> \<exists>n. fst (bxNextSequence B b d) = Inr n"
      "view d b \<noteq> None \<Longrightarrow> fst (bxDeleteBucket B b d) = Inr ()" "\<exists>p. MarshalBinary C m = Inr p"
    and rest_answers: "fst (ofRunHook G h u el r) = Inr ()" "\<exists>now. fst (ofNow G r) = Inr now"
      "ofSendElement G stm el r = (Inr (), r') \<Longrightarrow> sent r' = (sent r)(stm := sent r stm @ [el])"
      "fst (ofSendElement G stm el r) = Inr ()"
begin

lemma tx_ok:
  assumes "\<And>d. view d = view (dbState w) \<Longrightarrow> seqno d = seqno (dbState w) \<Longrightarrow> \<exists>x. fst (f d) = Inr x"
  shows "\<exists>x. fst (db_View B f w) = Inr x" "\<exists>x. fst (db_Update B f w) = Inr x"
proof -
  obtain d where d: "bxBegin B (dbState w) = (Inr (), d)" using db_answers(1) by (metis prod.collapse)
  from begin_tx [OF d] assms [of d] obtain x d' where f: "f d = (Inr x, d')" by (metis prod.collapse)
  obtain d2 where "bxCommit B d' = (Inr (), d2)" using db_answers(2) by (metis prod.collapse)
  with d f show "\<exists>x. fst (db_View B f w) = Inr x" "\<exists>x. fst (db_Update B f w) = Inr x"
    by (auto simp: db_View_def db_Update_def InTransaction_def on_db_def)
qed

lemma b_insert_ok: "\<exists>x. fst (bInsertOfflineMessage B C m u d) = Inr x"
proof -
  let ?b = "offlineBucket u"
  obtain d1 where c: "bxCreate B ?b d = (Inr (), d1)" using db_answers(3) by (metis prod.collapse)
  obtain p where p: "MarshalBinary C m = Inr p" using db_answers(7) by blast
  from create [OF c] obtain x where v1: "view d1 ?b = Some x" by auto
  then obtain n d2 where s: "bxNextSequence B ?b d1 = (Inr n, d2)" using db_answers(5) [of d1 ?b] by (metis option.distinct(1) prod.collapse)
  from next_seq [OF v1 s] v1 have "fst (bxPut B ?b (itoa_nat n) p d2) = Inr ()" by (intro db_answers(4)) simp
  with c p s show ?thesis by (simp add: bInsertOfflineMessage_def insertSeqOp_def go_run)
qed

lemma b_delete_ok: "view d (offlineBucket u) \<noteq> None \<Longrightarrow> \<exists>x. fst (bDeleteOfflineMessages B u d) = Inr x"
  using db_answers(6) by (simp add: bDeleteOfflineMessages_def delBucketOp_def)

end

sublocale bolt_offline_live \<subseteq> live: offline_live "bolt_offline_env B C G" "\<lambda>w. off_wf C view seqno (dbState w)"
  "\<lambda>w. off_queue C view seqno (dbState w)" decimal_order "\<lambda>w. sent (dbRest w)"
proof (unfold_locales, goal_cases)
  case (1 w u)
  then have "\<exists>x. fst (bCountOfflineMessages B u d) = Inr x" if "view d = view (dbState w)" "seqno d = seqno (dbState w)" for d
    using b_count [of d u] same_view [OF that] by simp
  then show ?case using tx_ok(1) [of w "bCountOfflineMessages B u"] by (simp add: boltOfflineRep_def)
next
  case (2 w u)
  then have "\<exists>x. fst (bFetchOfflineMessages B C u d) = Inr x" if "view d = view (dbState w)" "seqno d = seqno (dbState w)" for d
    using b_fetch [of d u] same_view [OF that] by simp
  then show ?case using tx_ok(1) [of w "bFetchOfflineMessages B C u"] by (simp add: boltOfflineRep_def)
next
  case (3 w m u)
  then show ?case using tx_ok(2) [of w "bInsertOfflineMessage B C m u"] b_insert_ok by (simp add: boltOfflineRep_def)
next
  case (4 w u)
  then have "view (dbState w) (offlineBucket u) \<noteq> None" using off_queue_none by metis
  then show ?case using tx_ok(2) [of w "bDeleteOfflineMessages B u"] b_delete_ok by (simp add: boltOfflineRep_def)
next
  case (8 stm el w w')
  then show ?case using rest_answers(3) by (auto simp: on_rest_def split: prod.splits)
qed (auto simp: on_rest_parts rest_answers boltLock_def boltUnlock_def go_run keeps_def boltOfflineRep_def db_View_def db_Update_def
   InTransaction_def on_db_def split: prod.splits sum.splits)

context bolt_offline_live
begin

lemma live_module:
  "offline_live (bolt_offline_env B C G) (\<lambda>w. off_wf C view seqno (dbState w)) (\<lambda>w. off_queue C view seqno (dbState w))
     decimal_order (\<lambda>w. sent (dbRest w))"
  by (rule live.offline_live_axioms)

end

context bolt_offline
begin

lemma bolt_module:
  "offline_module (bolt_offline_env B C G) (\<lambda>w. off_wf C view seqno (dbState w)) (\<lambda>w. off_queue C view seqno (dbState w))
     decimal_order"
  by (rule module.offline_module_axioms)

end

section \<open>An instance\<close>

instance element :: countable by countable_datatype

definition count_codec :: "element bcodec" where
  "count_codec = \<lparr>MarshalBinary = (\<lambda>m. Inr (itoa_nat (to_nat m))),
     UnmarshalBinary = (\<lambda>s. case parse_nat s of None \<Rightarrow> Inl (ErrText ''invalid'') | Some n \<Rightarrow> Inr (from_nat n))\<rparr>"

text \<open>What the streams have received is the whole state beside the database.\<close>

definition offline_rest :: "(nat \<Rightarrow> element list) offline_outside" where
  "offline_rest = \<lparr>ofLib = std_lib, ofIsLocalHost = (\<lambda>d. d = ''x''), ofQueueSize = 200, ofRoute = (\<lambda>_. ret []),
     ofRunHook = (\<lambda>_ _ _. ret ()), ofUsername = (\<lambda>_ _. ''ana''), ofStreamInfo = (\<lambda>_ _. NewInfoMap),
     ofSendElement = (\<lambda>s el. modify (\<lambda>r. r(s := r s @ [el]))), ofNow = ret ''now''\<rparr>"

definition offline_start :: "(mem_db, nat \<Rightarrow> element list) db_world" where
  "offline_start = \<lparr>dbState = Map.empty, dbRest = (\<lambda>_. [])\<rparr>"

definition numbered_message :: "string \<Rightarrow> element" where
  "numbered_message i = Element ''message'' [(''to'', ''ana@x''), (''id'', i)] [] []"

interpretation demo_off: bolt_offline_live mem_bolt mem_view mem_seq count_codec offline_rest "\<lambda>r. r"
proof (unfold_locales, goal_cases)
  case 1
  then show ?case by (simp add: codec_ok_def count_codec_def)
qed (auto simp: mem_bolt_def mem_view_None count_codec_def offline_rest_def go_run split: option.splits)

section \<open>Properties\<close>

text \<open>
  C5. Every message kept for an absent user reaches him: when the queue has room, each of any number
  of messages that reached no resource is accepted, and the next available presence of the user with
  non-negative priority hands exactly the kept messages to his stream, each once and with the time it
  was kept, in the order of their decimal keys, and empties the queue.
\<close>

theorem offline_delivered:
  assumes "bolt_offline_live B view seqno C G sent" and "off_wf C view seqno (dbState w)"
    and "\<forall>m \<in> set msgs. to_user (bolt_offline_env B C G) u m"
    and "int (length (off_queue C view seqno (dbState w) u) + length msgs) \<le> ofQueueSize G"
    and run: "run_all (onMessageRouted (bolt_offline_env B C G) []) msgs w = (rs, w1)"
    and stm: "ofUsername G stm (dbRest w1) = u" "\<not> IsArchiveRequested (ofStreamInfo G stm (dbRest w1))"
    and pr: "\<not> IsFull (ofLib G) (ToJID (ofLib G) pr)" "ofIsLocalHost G (Domain (ToJID (ofLib G) pr))"
      "IsAvailable (ofLib G) pr" "0 \<le> Priority (ofLib G) pr"
  shows "rs = replicate (length msgs) (Inl ErrStopped) \<and>
    (\<exists>w2 dms. list_all2 (delayed (bolt_offline_env B C G)) msgs dms \<and>
      onC2SPresenceRecv (bolt_offline_env B C G) stm pr w1 = (Inr (), w2) \<and>
      sent (dbRest w2) stm = sent (dbRest w1) stm @ decimal_order (off_queue C view seqno (dbState w) u @ dms) \<and>
      off_queue C view seqno (dbState w2) u = [])"
proof -
  let ?E = "bolt_offline_env B C G"
  note live = bolt_offline_live.live_module [OF assms(1)]
  from offline_live.archive_all [OF live assms(2,3)] assms(4) run obtain dms
    where rs: "rs = replicate (length msgs) (Inl ErrStopped)" and w1: "off_wf C view seqno (dbState w1)"
      "off_queue C view seqno (dbState w1) = (off_queue C view seqno (dbState w))(u := off_queue C view seqno (dbState w) u @ dms)"
      and dms: "list_all2 (delayed ?E) msgs dms" by auto
  from offline_live.deliver_ok [OF live w1(1), of stm u] stm w1(2) obtain w2
    where "deliverOfflineMessages ?E stm w1 = (Inr (), w2)" "off_queue C view seqno (dbState w2) u = []"
      "sent (dbRest w2) stm = sent (dbRest w1) stm @ decimal_order (off_queue C view seqno (dbState w) u @ dms)" by auto
  with pr stm rs dms show ?thesis by (auto simp: onC2SPresenceRecv_def go_run Let_def)
qed

theorem offline_delivered_witness:
  "\<exists>w1 w2 t t'. run_all (onMessageRouted (bolt_offline_env mem_bolt count_codec offline_rest) [])
       [numbered_message ''a'', numbered_message ''b''] offline_start = ([Inl ErrStopped, Inl ErrStopped], w1) \<and>
     onC2SPresenceRecv (bolt_offline_env mem_bolt count_codec offline_rest) 1 (Element ''presence'' [(''to'', ''ana@x'')] [] []) w1 = (Inr (), w2) \<and>
     dbRest w2 1 = dbRest w1 1 @ [MakeDelayMessage (numbered_message ''a'') t ''x'' ''Offline Storage'',
       MakeDelayMessage (numbered_message ''b'') t' ''x'' ''Offline Storage'']"
proof -
  let ?E = "bolt_offline_env mem_bolt count_codec offline_rest" and ?ms = "[numbered_message ''a'', numbered_message ''b'']"
    and ?pr = "Element ''presence'' [(''to'', ''ana@x'')] [] []"
  have rest: "ofLib offline_rest = std_lib" "ofIsLocalHost offline_rest d \<longleftrightarrow> d = ''x''" "ofQueueSize offline_rest = 200"
    "ofUsername offline_rest s r = ''ana''" "\<not> IsArchiveRequested (ofStreamInfo offline_rest s r)" for d s r
    by (simp_all add: offline_rest_def IsArchiveRequested_def NewInfoMap_def infoBool_def infoString_def parse_bool_def)
  have js: "\<forall>m \<in> set ?ms. StanzaKind std_lib m = MessageKind \<and> isMessageArchievable std_lib m \<and>
      ToJID std_lib m = \<lparr>Node = ''ana'', Domain = ''x'', Resource = []\<rparr>"
    "ToJID std_lib ?pr = \<lparr>Node = ''ana'', Domain = ''x'', Resource = []\<rparr>" "IsAvailable std_lib ?pr" "0 \<le> Priority std_lib ?pr"
    "\<not> IsFull std_lib \<lparr>Node = ''ana'', Domain = ''x'', Resource = []\<rparr>" by code_simp+
  have wf: "off_wf count_codec mem_view mem_seq (dbState offline_start)" "off_queue count_codec mem_view mem_seq (dbState offline_start) ''ana'' = []"
    by (simp_all add: off_wf_def off_queue_def mem_view_def offline_start_def)
  have user: "\<forall>m \<in> set ?ms. to_user ?E ''ana'' m" using js(1) by (auto simp: to_user_def rest)
  define w1 where "w1 = snd (run_all (onMessageRouted ?E []) ?ms offline_start)"
  obtain rs where run: "run_all (onMessageRouted ?E []) ?ms offline_start = (rs, w1)" unfolding w1_def by (metis prod.collapse)
  from offline_delivered [OF demo_off.bolt_offline_live_axioms wf(1) user _ run, of 1 ?pr] wf(2)
  obtain w2 dms where d: "rs = [Inl ErrStopped, Inl ErrStopped]" "list_all2 (delayed ?E) ?ms dms"
      "onC2SPresenceRecv ?E 1 ?pr w1 = (Inr (), w2)" "dbRest w2 1 = dbRest w1 1 @ decimal_order dms"
    by (simp add: rest js) (auto simp: eval_nat_numeral)
  then obtain t t' where "dms = [MakeDelayMessage (numbered_message ''a'') t ''x'' ''Offline Storage'',
       MakeDelayMessage (numbered_message ''b'') t' ''x'' ''Offline Storage'']"
    using js(1) by (auto simp: list_all2_Cons1 delayed_def rest)
  with d run decimal_order_short [of dms] show ?thesis by auto
qed

text \<open>
  C26. The queue stays within its limit as long as the handlers do not overlap: from queues within the
  limit, any sequence of routed messages, presences and account removals, each handled before the next
  one starts, leaves every queue within it, whatever the operations of the back end return. The
  condition is needed: the lock of the embedded back end does nothing, and \<open>Offline_Overlap\<close> shows what
  two handlers do that overlap.
\<close>

theorem offline_queue_bounded:
  assumes "bolt_offline B view seqno C" and "off_wf C view seqno (dbState w)"
    and "\<forall>u. int (length (off_queue C view seqno (dbState w) u)) \<le> ofQueueSize G"
    and "run_all (off_step (bolt_offline_env B C G)) evs w = (rs, w')"
  shows "\<forall>u. int (length (off_queue C view seqno (dbState w') u)) \<le> ofQueueSize G"
  using offline_module.run_within [OF bolt_offline.bolt_module [OF assms(1)] assms(2) _ assms(4)] assms(3) by simp

theorem offline_queue_bounded_witness:
  "\<forall>u. int (length (off_queue count_codec mem_view mem_seq (dbState (snd (run_all
     (off_step (bolt_offline_env mem_bolt count_codec offline_rest)) [Routed [] (numbered_message ''a''), PresenceRecv 1 (numbered_message ''b'')]
     offline_start))) u)) \<le> 200"
proof -
  have wf: "off_wf count_codec mem_view mem_seq (dbState offline_start)" and "off_queue count_codec mem_view mem_seq (dbState offline_start) u = []" for u
    by (simp_all add: off_wf_def off_queue_def mem_view_def offline_start_def)
  then have start: "\<forall>u. int (length (off_queue count_codec mem_view mem_seq (dbState offline_start) u)) \<le> ofQueueSize offline_rest"
    by (simp add: offline_rest_def)
  have "ofQueueSize offline_rest = 200" by (simp add: offline_rest_def)
  with offline_queue_bounded [OF demo_off.bolt_offline_axioms wf start surjective_pairing,
      of "[Routed [] (numbered_message ''a''), PresenceRecv 1 (numbered_message ''b'')]"]
  show ?thesis by (simp only: simp_thms)
qed

text \<open>
  Offline messages are read in the order of their decimal keys: up to nine messages this is the
  order of arrival, but with ten or more the tenth message is delivered second.
\<close>

theorem offline_read_order:
  assumes "bolt_offline B view seqno C" and "off_wf C view seqno d" and "off_queue C view seqno d u = ms"
  shows "\<exists>xs. bFetchOfflineMessages B C u d = (Inr xs, d) \<and> mset xs = mset ms \<and>
    (length ms \<le> 9 \<longrightarrow> xs = ms) \<and> (10 \<le> length ms \<longrightarrow> xs ! 1 = ms ! 9)"
  using bolt_offline.b_fetch [OF assms(1,2), of u] assms(3) decimal_order_short [of ms] decimal_order_tenth [of ms] by auto

theorem offline_read_order_witness:
  "\<exists>d ms xs. length ms = 10 \<and> off_queue count_codec mem_view mem_seq d ''ana'' = ms \<and>
     bFetchOfflineMessages mem_bolt count_codec ''ana'' d = (Inr xs, d) \<and> xs ! 1 = ms ! 9"
proof -
  let ?E = "bolt_offline_env mem_bolt count_codec offline_rest" and ?m = "numbered_message ''a''"
  have start: "off_wf count_codec mem_view mem_seq (dbState offline_start)" "off_queue count_codec mem_view mem_seq (dbState offline_start) ''ana'' = []"
    by (simp_all add: off_wf_def off_queue_def mem_view_def offline_start_def)
  have "StanzaKind std_lib ?m = MessageKind \<and> isMessageArchievable std_lib ?m \<and>
      ToJID std_lib ?m = \<lparr>Node = ''ana'', Domain = ''x'', Resource = []\<rparr>" by code_simp
  then have user: "\<forall>m \<in> set (replicate 10 ?m). to_user ?E ''ana'' m" by (simp add: to_user_def offline_rest_def)
  have "ofQueueSize offline_rest = 200" by (simp add: offline_rest_def)
  with demo_off.live.archive_all [OF start(1) user] start(2) obtain w :: "(mem_db, nat \<Rightarrow> element list) db_world" and dms
    where wf: "off_wf count_codec mem_view mem_seq (dbState w)"
      and u: "off_queue count_codec mem_view mem_seq (dbState w) = (off_queue count_codec mem_view mem_seq (dbState offline_start))(''ana'' := dms)"
      and l: "list_all2 (delayed ?E) (replicate 10 ?m) dms"
    by auto
  from u have q: "off_queue count_codec mem_view mem_seq (dbState w) ''ana'' = dms" by simp
  from l have "length dms = 10" by (auto dest: list_all2_lengthD)
  with offline_read_order [OF demo_off.bolt_offline_axioms wf q] q show ?thesis by auto
qed

end
