(* ===== verification/Offline_Overlap.thy ===== *)
theory Offline_Overlap
  imports Offline
begin

text \<open>
  Handlers of the offline module that overlap. \<^verbatim>\<open>archiveMessage\<close> counts the messages of a queue and then
  inserts one, under a lock of the repository; the lock of the embedded repository does nothing. The
  function is split into what it does before and after the count, and two calls are run so that both
  count before either inserts.
\<close>

section \<open>The two halves of archiving\<close>

definition archive_count :: "'w offline_env \<Rightarrow> element \<Rightarrow> ('w, unit) go" where
  "archive_count E msg =
     andthen (CountOfflineMessages (ofRep E) (Node (ToJID (ofLib E) msg))) (\<lambda>qSize.
       if int qSize = ofQueueSize E then
         andthen (ignore (ofRoute E (MakeErrorStanza (ofLib E) msg ''service-unavailable''))) (\<lambda>_. throw ErrStopped)
       else ret ())"

definition archive_insert :: "'w offline_env \<Rightarrow> element \<Rightarrow> ('w, unit) go" where
  "archive_insert E msg =
     (let toJID = ToJID (ofLib E) msg; username = Node toJID
      in andthen (ofNow E) (\<lambda>now.
           let dMsg = MakeDelayMessage msg now (Domain toJID) ''Offline Storage''
           in andthen (InsertOfflineMessage (ofRep E) dMsg username) (\<lambda>_.
              andthen (ofRunHook E ''offline.message.archieved'' username dMsg) (\<lambda>_. throw ErrStopped))))"

abbreviation archive_lock :: "'w offline_env \<Rightarrow> element \<Rightarrow> string" where
  "archive_lock E msg \<equiv> offlineQueueLockID (Node (ToJID (ofLib E) msg))"

lemma andthen_guard: "andthen (if b then andthen m (\<lambda>_. throw e) else ret ()) f = (if b then andthen m (\<lambda>_. throw e) else f ())"
  by (auto simp: fun_eq_iff go_run split: prod.splits sum.splits)

lemma archive_halves:
  "archiveMessage E msg = with_lock E (archive_lock E msg) (andthen (archive_count E msg) (\<lambda>_. archive_insert E msg))"
  unfolding archiveMessage_def archive_count_def archive_insert_def Let_def by (simp add: andthen_assoc andthen_guard)

text \<open>Two calls, each in its own order: both enter, both count, both insert, both leave.\<close>

definition overlap :: "'w offline_env \<Rightarrow> element \<Rightarrow> element \<Rightarrow> ('w, unit) go" where
  "overlap E m1 m2 =
     (let rest = (\<lambda>counted m. case counted of Inl _ \<Rightarrow> ret () | Inr _ \<Rightarrow> ignore (archive_insert E m))
      in andthen (ofLock E (archive_lock E m1)) (\<lambda>_. andthen (ofLock E (archive_lock E m2)) (\<lambda>_.
         andthen (attempt (archive_count E m1)) (\<lambda>c1. andthen (attempt (archive_count E m2)) (\<lambda>c2.
         andthen (rest c1 m1) (\<lambda>_. andthen (rest c2 m2) (\<lambda>_.
         andthen (releaseLock E (archive_lock E m1)) (\<lambda>_. releaseLock E (archive_lock E m2)))))))))"

context offline_live
begin

lemma lock_ok:
  assumes "inv w"
  shows "\<exists>w'. ofLock E l w = (Inr (), w') \<and> inv w' \<and> queue w' = queue w"
  using answers(5) outsideD(4) [OF assms] by (metis prod.collapse)

lemma release_ok:
  assumes "inv w"
  shows "\<exists>w'. releaseLock E l w = (Inr (), w') \<and> inv w' \<and> queue w' = queue w"
  using outsideD(5) [OF assms, of l] by (cases "ofUnlock E l w") (auto simp: releaseLock_def go_run)

lemma count_ok:
  assumes "inv w" and "int (length (queue w (Node (ToJID (ofLib E) m)))) \<noteq> ofQueueSize E"
  shows "\<exists>w'. archive_count E m w = (Inr (), w') \<and> inv w' \<and> queue w' = queue w"
proof -
  obtain n w' where c: "CountOfflineMessages (ofRep E) (Node (ToJID (ofLib E) m)) w = (Inr n, w')"
    using answers(1) [OF assms(1)] by (metis prod.collapse)
  with count [OF assms(1) c] assms(2) show ?thesis by (auto simp: archive_count_def go_run)
qed

lemma insert_ok:
  assumes "inv w"
  shows "\<exists>w' dm. archive_insert E m w = (Inl ErrStopped, w') \<and> inv w' \<and>
    queue w' = (queue w)(Node (ToJID (ofLib E) m) := queue w (Node (ToJID (ofLib E) m)) @ [dm])"
proof -
  let ?j = "ToJID (ofLib E) m"
  obtain now w1 where n: "ofNow E w = (Inr now, w1)" using answers(7) by (metis prod.collapse)
  let ?dm = "MakeDelayMessage m now (Domain ?j) ''Offline Storage''"
  note w1 = outsideD(3) [OF assms n]
  obtain w2 where i: "InsertOfflineMessage (ofRep E) ?dm (Node ?j) w1 = (Inr (), w2)" using answers(3) w1 by (metis prod.collapse)
  have w2: "inv w2" "queue w2 = (queue w)(Node ?j := queue w (Node ?j) @ [?dm])" using insert [OF _ i] w1 by auto
  obtain w3 where h: "ofRunHook E ''offline.message.archieved'' (Node ?j) ?dm w2 = (Inr (), w3)" using answers(6) by (metis prod.collapse)
  from n i h outsideD(2) [OF w2(1) h] w2 show ?thesis
    by (intro exI [of _ w3] exI [of _ ?dm]) (simp add: archive_insert_def Let_def go_run)
qed

lemma overlap_run:
  assumes "inv w" and u: "Node (ToJID (ofLib E) m1) = u" "Node (ToJID (ofLib E) m2) = u"
    and room: "int (length (queue w u)) + 1 = ofQueueSize E"
  shows "\<exists>w'. overlap E m1 m2 w = (Inr (), w') \<and> inv w' \<and> int (length (queue w' u)) = ofQueueSize E + 1"
proof -
  let ?l = "offlineQueueLockID u"
  obtain w1 where l1: "ofLock E ?l w = (Inr (), w1)" and w1: "inv w1" "queue w1 = queue w" using lock_ok [OF assms(1)] by blast
  obtain w2 where l2: "ofLock E ?l w1 = (Inr (), w2)" and w2: "inv w2" "queue w2 = queue w" using lock_ok [OF w1(1)] w1(2) by metis
  obtain w3 where c1: "archive_count E m1 w2 = (Inr (), w3)" and w3: "inv w3" "queue w3 = queue w"
    using count_ok [OF w2(1), of m1] w2(2) u room by auto
  obtain w4 where c2: "archive_count E m2 w3 = (Inr (), w4)" and w4: "inv w4" "queue w4 = queue w"
    using count_ok [OF w3(1), of m2] w3(2) u room by auto
  obtain w5 d1 where i1: "archive_insert E m1 w4 = (Inl ErrStopped, w5)" and w5: "inv w5" "queue w5 u = queue w u @ [d1]"
    using insert_ok [OF w4(1), of m1] w4(2) u by auto
  obtain w6 d2 where i2: "archive_insert E m2 w5 = (Inl ErrStopped, w6)" and w6: "inv w6" "queue w6 u = queue w u @ [d1, d2]"
    using insert_ok [OF w5(1), of m2] w5(2) u by auto
  obtain w7 where r1: "releaseLock E ?l w6 = (Inr (), w7)" and w7: "inv w7" "queue w7 = queue w6" using release_ok [OF w6(1)] by blast
  obtain w8 where r2: "releaseLock E ?l w7 = (Inr (), w8)" and w8: "inv w8" "queue w8 = queue w6" using release_ok [OF w7(1)] w7(2) by metis
  have "overlap E m1 m2 w = (Inr (), w8)"
    by (simp add: overlap_def Let_def u andthen_run attempt_run ignore_run l1 l2 c1 c2 i1 i2 r1 r2)
  with w8 w6(2) room show ?thesis by auto
qed

lemma archive_beyond:
  assumes "inv w" and "\<forall>m \<in> set msgs. to_user E u m" and "ofQueueSize E < int (length (queue w u))"
  shows "\<exists>w'. run_all (onMessageRouted E []) msgs w = (replicate (length msgs) (Inl ErrStopped), w') \<and> inv w' \<and>
    length (queue w' u) = length (queue w u) + length msgs"
  using assms
proof (induction msgs arbitrary: w)
  case (Cons m msgs)
  from Cons.prems have m: "to_user E u m" by simp
  with Cons.prems(3) have "int (length (queue w (Node (ToJID (ofLib E) m)))) \<noteq> ofQueueSize E" by (auto simp: to_user_def)
  from archive_ok [OF Cons.prems(1) this] m obtain w1 where a: "archiveMessage E m w = (Inl ErrStopped, w1)" "inv w1"
      "length (queue w1 u) = Suc (length (queue w u))" by (auto simp: to_user_def)
  then have "onMessageRouted E [] m w = (Inl ErrStopped, w1)" using m by (simp add: onMessageRouted_def to_user_def)
  with Cons.IH [OF a(2)] Cons.prems a(3) show ?case by auto
qed simp

end

section \<open>Properties\<close>

text \<open>
  C40. The limit is lost when two handlers overlap: on the embedded back end, when the queue of a user has room
  for one message and two messages for him are handled at once, so that both handlers count before
  either inserts, both messages are kept and the queue is above its limit. From then on it counts as
  never full: every further message is kept, however many there are.
\<close>

theorem overlapping_archives_overflow:
  assumes "bolt_offline_live B view seqno C G sent" and "off_wf C view seqno (dbState w)"
    and "to_user (bolt_offline_env B C G) u m1" and "to_user (bolt_offline_env B C G) u m2"
    and "int (length (off_queue C view seqno (dbState w) u)) + 1 = ofQueueSize G"
  shows "\<exists>w1. overlap (bolt_offline_env B C G) m1 m2 w = (Inr (), w1) \<and>
    int (length (off_queue C view seqno (dbState w1) u)) = ofQueueSize G + 1 \<and>
    (\<forall>ms. (\<forall>m \<in> set ms. to_user (bolt_offline_env B C G) u m) \<longrightarrow>
      (\<exists>w2. run_all (onMessageRouted (bolt_offline_env B C G) []) ms w1 = (replicate (length ms) (Inl ErrStopped), w2) \<and>
        int (length (off_queue C view seqno (dbState w2) u)) = ofQueueSize G + 1 + int (length ms)))"
proof -
  let ?E = "bolt_offline_env B C G"
  note live = bolt_offline_live.live_module [OF assms(1)]
  from assms(3,4) have "Node (ToJID (ofLib ?E) m1) = u" "Node (ToJID (ofLib ?E) m2) = u" by (simp_all add: to_user_def)
  from offline_live.overlap_run [OF live assms(2) this] assms(5) obtain w1 where
    w1: "overlap ?E m1 m2 w = (Inr (), w1)" "off_wf C view seqno (dbState w1)"
      "int (length (off_queue C view seqno (dbState w1) u)) = ofQueueSize G + 1" by auto
  show ?thesis
    using w1(1,3) offline_live.archive_beyond [OF live w1(2), of _ u] w1(3) by (intro exI [of _ w1]) force
qed

definition small_rest :: "(nat \<Rightarrow> element list) offline_outside" where
  "small_rest = offline_rest\<lparr>ofQueueSize := 1\<rparr>"

interpretation small_off: bolt_offline_live mem_bolt mem_view mem_seq count_codec small_rest "\<lambda>r. r"
proof (unfold_locales, goal_cases)
  case 1
  then show ?case by (rule demo_off.db_answers(1))
qed (auto simp: demo_off.db_answers demo_off.rest_answers small_rest_def offline_rest_def go_run)

theorem overlapping_archives_overflow_witness:
  "\<exists>w1 w2. overlap (bolt_offline_env mem_bolt count_codec small_rest) (numbered_message ''a'') (numbered_message ''b'') offline_start = (Inr (), w1) \<and>
     run_all (onMessageRouted (bolt_offline_env mem_bolt count_codec small_rest) []) [numbered_message ''c''] w1 = ([Inl ErrStopped], w2) \<and>
     length (off_queue count_codec mem_view mem_seq (dbState w2) ''ana'') = 3"
proof -
  let ?E = "bolt_offline_env mem_bolt count_codec small_rest"
  have wf: "off_wf count_codec mem_view mem_seq (dbState offline_start)" "off_queue count_codec mem_view mem_seq (dbState offline_start) ''ana'' = []"
    by (simp_all add: off_wf_def off_queue_def mem_view_def offline_start_def)
  have "\<forall>m \<in> set (map numbered_message [''a'', ''b'', ''c'']). StanzaKind std_lib m = MessageKind \<and> isMessageArchievable std_lib m \<and>
      ToJID std_lib m = \<lparr>Node = ''ana'', Domain = ''x'', Resource = []\<rparr>" by code_simp
  then have user: "to_user ?E ''ana'' (numbered_message ''a'')" "to_user ?E ''ana'' (numbered_message ''b'')" "to_user ?E ''ana'' (numbered_message ''c'')"
    by (simp_all add: to_user_def small_rest_def offline_rest_def)
  have size: "ofQueueSize small_rest = 1" by (simp add: small_rest_def)
  then have room: "int (length (off_queue count_codec mem_view mem_seq (dbState offline_start) ''ana'')) + 1 = ofQueueSize small_rest" using wf(2) by simp
  from overlapping_archives_overflow [OF small_off.bolt_offline_live_axioms wf(1) user(1,2) room] obtain w1 where
    w1: "overlap ?E (numbered_message ''a'') (numbered_message ''b'') offline_start = (Inr (), w1)"
    and all: "\<forall>ms. (\<forall>m \<in> set ms. to_user ?E ''ana'' m) \<longrightarrow>
      (\<exists>w2. run_all (onMessageRouted ?E []) ms w1 = (replicate (length ms) (Inl ErrStopped), w2) \<and>
        int (length (off_queue count_codec mem_view mem_seq (dbState w2) ''ana'')) = ofQueueSize small_rest + 1 + int (length ms))" by blast
  from all [rule_format, of "[numbered_message ''c'']"] user(3) size obtain w2 where
    "run_all (onMessageRouted ?E []) [numbered_message ''c''] w1 = ([Inl ErrStopped], w2)"
    "int (length (off_queue count_codec mem_view mem_seq (dbState w2) ''ana'')) = 3" by auto
  with w1 show ?thesis by auto
qed

end
