(* ===== verification/Block_Store.thy ===== *)
theory Block_Store
  imports Bolt
begin

text \<open>
  The repository of block lists (\<^verbatim>\<open>src/pkg/storage/repository/blocklist.go\<close>) and its embedded
  implementation (\<^verbatim>\<open>src/pkg/storage/boltdb/blocklist.go\<close>). The contract \<open>block_store\<close> is a set of
  addresses per user.
\<close>

record block_item =
  biUsername :: string
  biJid :: string

record 'w block_rep =
  UpsertBlockListItem :: "block_item \<Rightarrow> ('w, unit) go"
  DeleteBlockListItem :: "block_item \<Rightarrow> ('w, unit) go"
  FetchBlockListItems :: "string \<Rightarrow> ('w, block_item list) go"
  DeleteBlockListItems :: "string \<Rightarrow> ('w, unit) go"

section \<open>The contract\<close>

text \<open>A repository promises what its operations do when they succeed; one that runs each of them in a
  transaction of its own (\<open>block_store_atomic\<close>) also that they do nothing when they fail.\<close>

locale block_store =
  fixes R :: "'w block_rep"
    and inv :: "'w \<Rightarrow> bool"
    and blocked :: "'w \<Rightarrow> string \<Rightarrow> string set"
  assumes fetch: "inv w \<Longrightarrow> FetchBlockListItems R u w = (r, w') \<Longrightarrow>
      inv w' \<and> blocked w' = blocked w \<and> (\<forall>rs. r = Inr rs \<longrightarrow> biJid ` set rs = blocked w u)"
    and upsert: "inv w \<Longrightarrow> UpsertBlockListItem R i w = (Inr y, w') \<Longrightarrow>
      inv w' \<and> blocked w' = (blocked w)(biUsername i := insert (biJid i) (blocked w (biUsername i)))"
    and delete: "inv w \<Longrightarrow> DeleteBlockListItem R i w = (Inr y, w') \<Longrightarrow>
      inv w' \<and> blocked w' = (blocked w)(biUsername i := blocked w (biUsername i) - {biJid i})"
    and delete_all: "inv w \<Longrightarrow> DeleteBlockListItems R u w = (Inr y, w') \<Longrightarrow>
      inv w' \<and> blocked w' = (blocked w)(u := {})"

locale block_store_atomic = block_store +
  assumes fails: "inv w \<Longrightarrow> UpsertBlockListItem R i w = (Inl e, w') \<Longrightarrow> inv w' \<and> blocked w' = blocked w"
      "inv w \<Longrightarrow> DeleteBlockListItem R i w = (Inl e, w') \<Longrightarrow> inv w' \<and> blocked w' = blocked w"
      "inv w \<Longrightarrow> DeleteBlockListItems R u w = (Inl e, w') \<Longrightarrow> inv w' \<and> blocked w' = blocked w"

section \<open>The embedded back end\<close>

definition blockListBucket :: "string \<Rightarrow> string" where
  "blockListBucket username = ''blocklist:'' @ username"

definition bUpsertBlockListItem :: "'d bolt \<Rightarrow> block_item bcodec \<Rightarrow> block_item \<Rightarrow> ('d, unit) go" where
  "bUpsertBlockListItem B C item = upsertKeyOp B C (blockListBucket (biUsername item)) (biJid item) item"

definition bDeleteBlockListItem :: "'d bolt \<Rightarrow> block_item \<Rightarrow> ('d, unit) go" where
  "bDeleteBlockListItem B item = delKeyOp B (blockListBucket (biUsername item)) (biJid item)"

definition bFetchBlockListItems :: "'d bolt \<Rightarrow> block_item bcodec \<Rightarrow> string \<Rightarrow> ('d, block_item list) go" where
  "bFetchBlockListItems B C username = iterKeysOp B (blockListBucket username) (append_decoded C) []"

definition bDeleteBlockListItems :: "'d bolt \<Rightarrow> string \<Rightarrow> ('d, unit) go" where
  "bDeleteBlockListItems B username = delBucketOp B (blockListBucket username)"

definition newBlockListRep :: "'d bolt \<Rightarrow> block_item bcodec \<Rightarrow> ('d, 'r) db_world block_rep" where
  "newBlockListRep B C = \<lparr>
     UpsertBlockListItem = (\<lambda>i. on_db (bUpsertBlockListItem B C i)),
     DeleteBlockListItem = (\<lambda>i. on_db (bDeleteBlockListItem B i)),
     FetchBlockListItems = (\<lambda>u. on_db (bFetchBlockListItems B C u)),
     DeleteBlockListItems = (\<lambda>u. on_db (bDeleteBlockListItems B u))\<rparr>"

definition boltBlockListRep :: "'d bolt \<Rightarrow> block_item bcodec \<Rightarrow> ('d, 'r) db_world block_rep" where
  "boltBlockListRep B C = \<lparr>
     UpsertBlockListItem = (\<lambda>i. db_Update B (bUpsertBlockListItem B C i)),
     DeleteBlockListItem = (\<lambda>i. db_Update B (bDeleteBlockListItem B i)),
     FetchBlockListItems = (\<lambda>u. db_View B (bFetchBlockListItems B C u)),
     DeleteBlockListItems = (\<lambda>u. db_Update B (bDeleteBlockListItems B u))\<rparr>"

section \<open>The embedded back end satisfies the contract\<close>

text \<open>Every item is stored under its address.\<close>

definition block_keyed :: "block_item bcodec \<Rightarrow> buckets \<Rightarrow> bool" where
  "block_keyed C bs \<longleftrightarrow> (\<forall>u k x. stored C bs (blockListBucket u) k = Some x \<longrightarrow> biJid x = k)"

definition block_set :: "block_item bcodec \<Rightarrow> buckets \<Rightarrow> string \<Rightarrow> string set" where
  "block_set C bs u = dom (stored C bs (blockListBucket u))"

lemma blockListBucket_inject [simp]: "blockListBucket u = blockListBucket v \<longleftrightarrow> u = v"
  by (simp add: blockListBucket_def)

lemma block_setI: "(\<And>u k. stored C bs' (blockListBucket u) k \<noteq> None \<longleftrightarrow> k \<in> f u) \<Longrightarrow> block_set C bs' = f"
  by (auto simp: block_set_def fun_eq_iff dom_def)

locale bolt_block = bolt_store +
  fixes C :: "block_item bcodec"
  assumes codec: "codec_ok C"
begin

abbreviation keyed where "keyed d \<equiv> block_keyed C (view d)"
abbreviation blk where "blk d \<equiv> block_set C (view d)"

lemma b_fetch:
  assumes "keyed d" and "bFetchBlockListItems B C u d = (Inr rs, d')"
  shows "biJid ` set rs = blk d u"
proof -
  from iter_stored [OF assms(2) [unfolded bFetchBlockListItems_def]] obtain ks
    where ks: "set ks = dom (bucket_of (view d) (blockListBucket u))"
      "list_all2 (\<lambda>k x. stored C (view d) (blockListBucket u) k = Some x) ks rs" by blast
  have "map biJid rs = ks"
    using ks(2) assms(1) by (intro nth_equalityI) (auto simp: list_all2_conv_all_nth block_keyed_def)
  moreover have "set ks = blk d u"
  proof
    show "set ks \<subseteq> blk d u" using ks(2) by (auto simp: block_set_def list_all2_conv_all_nth in_set_conv_nth)
    show "blk d u \<subseteq> set ks" unfolding ks(1) by (auto simp: block_set_def stored_def split: option.splits)
  qed
  ultimately show ?thesis by (metis set_map)
qed

lemma b_fetch_state: "snd (bFetchBlockListItems B C u d) = d"
  by (simp add: bFetchBlockListItems_def iterKeysOp_def)

lemma b_upsert:
  assumes "keyed d" and "bUpsertBlockListItem B C i d = (Inr y, d')"
  shows "keyed d' \<and> blk d' = (blk d)(biUsername i := insert (biJid i) (blk d (biUsername i)))"
  using upsert_stored [OF assms(2) [unfolded bUpsertBlockListItem_def] codec] assms(1)
  by (auto simp: block_keyed_def block_set_def intro!: block_setI split: if_splits)

lemma b_delete:
  assumes "keyed d" and "bDeleteBlockListItem B i d = (Inr y, d')"
  shows "keyed d' \<and> blk d' = (blk d)(biUsername i := blk d (biUsername i) - {biJid i})"
  using delKey_stored [OF assms(2) [unfolded bDeleteBlockListItem_def], of C] assms(1)
  by (auto simp: block_keyed_def block_set_def intro!: block_setI split: if_splits)

lemma b_delete_all:
  assumes "keyed d" and "bDeleteBlockListItems B u d = (Inr y, d')"
  shows "keyed d' \<and> blk d' = (blk d)(u := {})"
  using delBucket_stored [OF assms(2) [unfolded bDeleteBlockListItems_def], of C] assms(1)
  by (auto simp: block_keyed_def block_set_def intro!: block_setI split: if_splits)

end

sublocale bolt_block \<subseteq> tx: block_store "newBlockListRep B C" "\<lambda>w. block_keyed C (view (dbState w))" "\<lambda>w. block_set C (view (dbState w))"
proof (unfold_locales, goal_cases)
  case (1 w u r w')
  then obtain d' where "bFetchBlockListItems B C u (dbState w) = (r, d')" "dbState w' = d'"
    by (auto simp: newBlockListRep_def on_db_def split: prod.splits)
  with 1(1) b_fetch_state [of u "dbState w"] b_fetch [of "dbState w" u] show ?case by auto
qed (auto simp: newBlockListRep_def on_db_def dest: b_upsert b_delete b_delete_all split: prod.splits)

sublocale bolt_block \<subseteq> rep: block_store_atomic "boltBlockListRep B C" "\<lambda>w. block_keyed C (view (dbState w))" "\<lambda>w. block_set C (view (dbState w))"
proof (unfold_locales, goal_cases)
  case (1 w u r w')
  from 1(2) have "db_View B (bFetchBlockListItems B C u) w = (r, w')" by (simp add: boltBlockListRep_def)
  then show ?case
  proof (cases rule: View_cases)
    case (2 d)
    moreover obtain r' d' where "bFetchBlockListItems B C u d = (r', d')" by fastforce
    ultimately show ?thesis using b_fetch [of d u] 1(1) by auto
  qed (use 1(1) in auto)
next
  case (2 w i y w')
  from 2(2) have "db_Update B (bUpsertBlockListItem B C i) w = (Inr y, w')" by (simp add: boltBlockListRep_def)
  then show ?case
  proof (cases rule: Update_cases)
    case (2 x d d')
    with b_upsert [of d i x d'] \<open>keyed (dbState w)\<close> show ?thesis by simp
  qed simp
next
  case (3 w i y w')
  from 3(2) have "db_Update B (bDeleteBlockListItem B i) w = (Inr y, w')" by (simp add: boltBlockListRep_def)
  then show ?case
  proof (cases rule: Update_cases)
    case (2 x d d')
    with b_delete [of d i x d'] \<open>keyed (dbState w)\<close> show ?thesis by simp
  qed simp
next
  case (4 w u y w')
  from 4(2) have "db_Update B (bDeleteBlockListItems B u) w = (Inr y, w')" by (simp add: boltBlockListRep_def)
  then show ?case
  proof (cases rule: Update_cases)
    case (2 x d d')
    with b_delete_all [of d u x d'] \<open>keyed (dbState w)\<close> show ?thesis by simp
  qed simp
next
  case (5 w i e w')
  from 5(2) have "db_Update B (bUpsertBlockListItem B C i) w = (Inl e, w')" by (simp add: boltBlockListRep_def)
  then show ?case using 5(1) by (cases rule: Update_cases) simp_all
next
  case (6 w i e w')
  from 6(2) have "db_Update B (bDeleteBlockListItem B i) w = (Inl e, w')" by (simp add: boltBlockListRep_def)
  then show ?case using 6(1) by (cases rule: Update_cases) simp_all
next
  case (7 w u e w')
  from 7(2) have "db_Update B (bDeleteBlockListItems B u) w = (Inl e, w')" by (simp add: boltBlockListRep_def)
  then show ?case using 7(1) by (cases rule: Update_cases) simp_all
qed

end
