(* ===== verification/Blocklist.thy ===== *)
theory Blocklist
  imports Block_Store Roster_Store C2S_Stream
begin

text \<open>
  The blocking command module (\<^verbatim>\<open>src/pkg/module/xep0191/blocklist.go\<close>): requests that show and change a
  user's block list, and the handlers that stop stanzas from and to blocked addresses. An address
  of a stored item that does not parse is a nil pointer; using it panics.
\<close>

section \<open>Environment\<close>

record 'w block_outside =
  blLib :: xlib
  blIsLocalHost :: "string \<Rightarrow> bool"
  blRoute :: "element \<Rightarrow> ('w, jid list) go"
  blGetResources :: "string \<Rightarrow> ('w, resource_desc list) go"
  blLocalStream :: "string \<Rightarrow> string \<Rightarrow> ('w, nat) go"
  blSetInfoValue :: "nat \<Rightarrow> string \<Rightarrow> info_val \<Rightarrow> ('w, unit) go"
  blRunHook :: "string \<Rightarrow> string \<Rightarrow> jid list \<Rightarrow> ('w, unit) go"
  blNewUUID :: "('w, string) go"
  blFetchRosterItems :: "string \<Rightarrow> ('w, roster_item list) go"

record 'w block_env = "'w block_outside" +
  blRep :: "'w block_rep"
  blTx :: "'w block_rep"
  blInTransaction :: "('w, unit) go \<Rightarrow> ('w, unit) go"

definition blockListRequestedCtxKey :: string where "blockListRequestedCtxKey = ''blocklist:requested''"
definition blockListNamespace :: string where "blockListNamespace = ''urn:xmpp:blocking''"
definition blockListErrorsNamespace :: string where "blockListErrorsNamespace = ''urn:xmpp:blocking:errors''"

definition blockedTargetErrorText :: string where
  "blockedTargetErrorText = ''Your active block list has denied the routing of this stanza.''"

definition blRouteIgnore :: "'w block_env \<Rightarrow> element \<Rightarrow> ('w, unit) go" where
  "blRouteIgnore E el = ignore (blRoute E el)"

definition bl_reply :: "'w block_env \<Rightarrow> element \<Rightarrow> string \<Rightarrow> ('w, unit) go" where
  "bl_reply E iq reason = blRouteIgnore E (MakeErrorStanza (blLib E) iq reason)"

text \<open>An error is answered with an internal server error and returned; panics are not errors.\<close>

definition bl_or_report :: "'w block_env \<Rightarrow> element \<Rightarrow> ('w, 'a) go \<Rightarrow> ('w, 'a) go" where
  "bl_or_report E iq m =
     andthen (attempt m) (\<lambda>r.
       case r of
         Inl e \<Rightarrow> if e = ErrPanic then throw ErrPanic
                  else andthen (bl_reply E iq ''internal-server-error'') (\<lambda>_. throw e)
       | Inr x \<Rightarrow> ret x)"

section \<open>Stanzas from and to blocked addresses\<close>

text \<open>The loop over the items: whether one of them matches the address.\<close>

fun matches_item :: "xlib \<Rightarrow> jid \<Rightarrow> block_item list \<Rightarrow> ('w, bool) go" where
  "matches_item X j [] = ret False"
| "matches_item X j (itm # itms) =
     (case NewJIDWithString X (biJid itm) True of
        None \<Rightarrow> throw ErrPanic
      | Some jd \<Rightarrow> if \<not> JIDMatches X jd j then matches_item X j itms else ret True)"

definition processIncomingStanza :: "'w block_env \<Rightarrow> element \<Rightarrow> ('w, unit) go" where
  "processIncomingStanza E stanza =
     (let X = blLib E; fromJID = FromJID X stanza; toJID = ToJID X stanza;
          isLocalTo = blIsLocalHost E (Domain toJID)
      in if length (Node toJID) = 0 \<or> \<not> isLocalTo \<or> (isLocalTo \<and> MatchesBare X toJID fromJID) then ret ()
         else
           andthen (FetchBlockListItems (blRep E) (Node toJID)) (\<lambda>bli.
           andthen (matches_item X fromJID bli) (\<lambda>found.
             if \<not> found then ret ()
             else
               andthen (case StanzaKind X stanza of
                          IQKind \<Rightarrow> if IsGet X stanza \<or> IsSet X stanza
                                    then bl_reply E stanza ''service-unavailable'' else ret ()
                        | MessageKind \<Rightarrow> bl_reply E stanza ''service-unavailable''
                        | _ \<Rightarrow> ret ()) (\<lambda>_.
                 throw ErrStopped))))"

definition blocked_error :: "xlib \<Rightarrow> element \<Rightarrow> element" where
  "blocked_error X stanza =
     ErrorStanzaWith X ''not-acceptable'' stanza blockedTargetErrorText
       (Element ''blocked'' [(''xmlns'', blockListErrorsNamespace)] [] [])"

definition processOutgoingStanza :: "'w block_env \<Rightarrow> element \<Rightarrow> ('w, unit) go" where
  "processOutgoingStanza E stanza =
     (let X = blLib E; fromJID = FromJID X stanza; toJID = ToJID X stanza;
          isLocalFrom = blIsLocalHost E (Domain fromJID)
      in if \<not> isLocalFrom \<or> (isLocalFrom \<and> MatchesBare X fromJID toJID) then ret ()
         else
           andthen (FetchBlockListItems (blRep E) (Node fromJID)) (\<lambda>bli.
           andthen (matches_item X toJID bli) (\<lambda>found.
             if \<not> found then ret ()
             else andthen (blRouteIgnore E (blocked_error X stanza)) (\<lambda>_. throw ErrStopped))))"

text \<open>The handlers of the stream hooks (client and server streams alike).\<close>

definition blOnElementRecv :: "'w block_env \<Rightarrow> element \<Rightarrow> ('w, unit) go" where
  "blOnElementRecv E el = (if StanzaKind (blLib E) el = NotStanza then ret () else processIncomingStanza E el)"

definition blOnElementWillRoute :: "'w block_env \<Rightarrow> element \<Rightarrow> ('w, unit) go" where
  "blOnElementWillRoute E el = (if StanzaKind (blLib E) el = NotStanza then ret () else processOutgoingStanza E el)"

definition blOnUserDeleted :: "'w block_env \<Rightarrow> string \<Rightarrow> ('w, unit) go" where
  "blOnUserDeleted E username = DeleteBlockListItems (blRep E) username"

section \<open>Presences and pushes\<close>

fun getItemJIDs_loop :: "xlib \<Rightarrow> element list \<Rightarrow> go_error + jid list" where
  "getItemJIDs_loop X [] = Inr []"
| "getItemJIDs_loop X (itm # itms) =
     (case NewJIDWithString X (Attribute X itm ''jid'') False of
        None \<Rightarrow> Inl (ErrText ''invalid jid'')
      | Some j \<Rightarrow> map_sum id ((#) j) (getItemJIDs_loop X itms))"

definition getItemJIDs :: "xlib \<Rightarrow> element \<Rightarrow> go_error + jid list" where
  "getItemJIDs X el = getItemJIDs_loop X (Children X el ''item'')"

text \<open>The target of one blocked address and one roster item, if any.\<close>

definition presence_target :: "xlib \<Rightarrow> jid \<Rightarrow> jid \<Rightarrow> ('w, jid list) go" where
  "presence_target X bj rj =
     (if IsFullWithUser X bj \<and> MatchesBare X bj rj then ret [bj]
      else if IsFullWithServer X bj \<and> MatchesDomain X bj rj then
        (case NewJID X (Node rj) (Domain rj) (Resource bj) True of None \<Rightarrow> throw ErrPanic | Some t \<Rightarrow> ret [t])
      else if (IsBare X bj \<and> MatchesBare X bj rj) \<or> (IsServer X bj \<and> MatchesDomain X bj rj) then ret [rj]
      else ret [])"

fun targets_of :: "xlib \<Rightarrow> jid \<Rightarrow> roster_item list \<Rightarrow> ('w, jid list) go" where
  "targets_of X bj [] = ret []"
| "targets_of X bj (ri # ris) =
     (if riSubscription ri \<noteq> subFrom \<and> riSubscription ri \<noteq> subBoth then targets_of X bj ris
      else case NewJIDWithString X (riJid ri) True of
             None \<Rightarrow> throw ErrPanic
           | Some rj \<Rightarrow> andthen (presence_target X bj rj) (\<lambda>ts. andthen (targets_of X bj ris) (\<lambda>us. ret (ts @ us))))"

fun all_targets :: "xlib \<Rightarrow> jid list \<Rightarrow> roster_item list \<Rightarrow> ('w, jid list) go" where
  "all_targets X [] ris = ret []"
| "all_targets X (bj # bjs) ris =
     andthen (targets_of X bj ris) (\<lambda>ts. andthen (all_targets X bjs ris) (\<lambda>us. ret (ts @ us)))"

definition getPresenceTargets :: "'w block_env \<Rightarrow> jid list \<Rightarrow> string \<Rightarrow> ('w, jid list) go" where
  "getPresenceTargets E blockListJIDs username =
     andthen (blFetchRosterItems E username) (\<lambda>ris. all_targets (blLib E) blockListJIDs ris)"

definition sendUnavailablePresences :: "'w block_env \<Rightarrow> jid list \<Rightarrow> resource_desc list \<Rightarrow> string \<Rightarrow> ('w, unit) go" where
  "sendUnavailablePresences E blockJIDs resources username =
     andthen (getPresenceTargets E blockJIDs username) (\<lambda>targets.
       for_each resources (\<lambda>res. for_each targets (\<lambda>target.
         blRouteIgnore E (MakePresence (blLib E) (rJID res) target ''unavailable'' []))))"

text \<open>A resource that has not sent a presence yet has a nil one.\<close>

definition sendAvailablePresences :: "'w block_env \<Rightarrow> jid list \<Rightarrow> resource_desc list \<Rightarrow> string \<Rightarrow> ('w, unit) go" where
  "sendAvailablePresences E unblockJIDs resources username =
     andthen (getPresenceTargets E unblockJIDs username) (\<lambda>targets.
       for_each resources (\<lambda>res. for_each targets (\<lambda>target.
         case rPresence res of
           None \<Rightarrow> throw ErrPanic
         | Some pr \<Rightarrow> blRouteIgnore E (MakePresence (blLib E) (rJID res) target [] (AllChildren pr)))))"

definition blSendPush :: "'w block_env \<Rightarrow> element \<Rightarrow> resource_desc list \<Rightarrow> ('w, unit) go" where
  "blSendPush E pushed resources =
     for_each resources (\<lambda>res.
       if \<not> infoBool (rInfo res) blockListRequestedCtxKey then ret ()
       else andthen (blNewUUID E) (\<lambda>uuid.
         blRouteIgnore E (Element ''iq''
           [(''from'', JIDString (blLib E) (ToBareJID (blLib E) (rJID res))), (''to'', JIDString (blLib E) (rJID res)),
            (''type'', ''set''), (''id'', uuid)] [] [pushed])))"

section \<open>Requests\<close>

fun item_jids :: "xlib \<Rightarrow> bool \<Rightarrow> block_item list \<Rightarrow> ('w, jid list) go" where
  "item_jids X skip [] = ret []"
| "item_jids X skip (itm # itms) =
     (case NewJIDWithString X (biJid itm) skip of
        None \<Rightarrow> throw ErrPanic
      | Some j \<Rightarrow> andthen (item_jids X skip itms) (\<lambda>js. ret (j # js)))"

definition getBlockList :: "'w block_env \<Rightarrow> element \<Rightarrow> ('w, unit) go" where
  "getBlockList E iq =
     (let X = blLib E; fromJID = FromJID X iq
      in if ChildNamespace X iq ''blocklist'' blockListNamespace = None then bl_reply E iq ''bad-request''
         else
           andthen (bl_or_report E iq (FetchBlockListItems (blRep E) (Node fromJID))) (\<lambda>bli.
           andthen (blRouteIgnore E (MakeResultIQ X iq (Some (Element ''blocklist'' [(''xmlns'', blockListNamespace)] []
             (map (\<lambda>itm. Element ''item'' [(''jid'', biJid itm)] [] []) bli))))) (\<lambda>_.
           andthen (bl_or_report E iq (blLocalStream E (Node fromJID) (Resource fromJID))) (\<lambda>stm.
           andthen (bl_or_report E iq (blSetInfoValue E stm blockListRequestedCtxKey (BoolVal True))) (\<lambda>_.
           andthen (item_jids X False bli) (\<lambda>allJIDs.
             blRunHook E ''blocklist.items.fetched'' (Node fromJID) allJIDs))))))"

definition blockJIDs :: "'w block_env \<Rightarrow> element \<Rightarrow> element \<Rightarrow> block_item list \<Rightarrow> ('w, unit) go" where
  "blockJIDs E iq block blockList =
     (let X = blLib E; username = Node (FromJID X iq)
      in case getItemJIDs X block of
           Inl e \<Rightarrow> andthen (bl_reply E iq ''bad-request'') (\<lambda>_. throw e)
         | Inr js \<Rightarrow>
             (let bjs = filter (\<lambda>jd. \<not> (\<exists>bli \<in> set blockList. JIDString X jd = biJid bli)) js
              in andthen (bl_or_report E iq (blInTransaction E
                   (for_each bjs (\<lambda>bj. UpsertBlockListItem (blTx E) \<lparr>biUsername = username, biJid = JIDString X bj\<rparr>)))) (\<lambda>_.
                 andthen (bl_or_report E iq (blGetResources E username)) (\<lambda>rss.
                 andthen (bl_or_report E iq (sendUnavailablePresences E bjs rss username)) (\<lambda>_.
                 andthen (blRouteIgnore E (MakeResultIQ X iq None)) (\<lambda>_.
                 andthen (blSendPush E block rss) (\<lambda>_.
                   blRunHook E ''blocklist.items.blocked'' username bjs)))))))"

definition unblockJIDs :: "'w block_env \<Rightarrow> element \<Rightarrow> element \<Rightarrow> block_item list \<Rightarrow> ('w, unit) go" where
  "unblockJIDs E iq unblock blockList =
     (let X = blLib E; username = Node (FromJID X iq)
      in case getItemJIDs X unblock of
           Inl e \<Rightarrow> andthen (bl_reply E iq ''bad-request'') (\<lambda>_. throw e)
         | Inr js \<Rightarrow>
             andthen (if length js > 0 then ret (filter (\<lambda>jd. \<exists>bli \<in> set blockList. JIDString X jd = biJid bli) js)
                      else item_jids X True blockList) (\<lambda>ujs.
             andthen (bl_or_report E iq (blInTransaction E
               (for_each ujs (\<lambda>uj. DeleteBlockListItem (blTx E) \<lparr>biUsername = username, biJid = JIDString X uj\<rparr>)))) (\<lambda>_.
             andthen (bl_or_report E iq (blGetResources E username)) (\<lambda>rss.
             andthen (bl_or_report E iq (sendAvailablePresences E ujs rss username)) (\<lambda>_.
             andthen (blRouteIgnore E (MakeResultIQ X iq None)) (\<lambda>_.
             andthen (blSendPush E unblock rss) (\<lambda>_.
               blRunHook E ''blocklist.items.unblocked'' username ujs)))))))"

definition alterBlockList :: "'w block_env \<Rightarrow> element \<Rightarrow> ('w, unit) go" where
  "alterBlockList E iq =
     andthen (bl_or_report E iq (FetchBlockListItems (blRep E) (Node (FromJID (blLib E) iq)))) (\<lambda>bli.
       case ChildNamespace (blLib E) iq ''block'' blockListNamespace of
         Some block \<Rightarrow> blockJIDs E iq block bli
       | None \<Rightarrow>
           (case ChildNamespace (blLib E) iq ''unblock'' blockListNamespace of
              Some unblock \<Rightarrow> unblockJIDs E iq unblock bli
            | None \<Rightarrow> bl_reply E iq ''bad-request''))"

definition blMatchesNamespace :: "string \<Rightarrow> bool \<Rightarrow> bool" where
  "blMatchesNamespace namespace serverTarget = (if serverTarget then False else namespace = blockListNamespace)"

definition blProcessIQ :: "'w block_env \<Rightarrow> element \<Rightarrow> ('w, unit) go" where
  "blProcessIQ E iq =
     (if \<not> MatchesBare (blLib E) (FromJID (blLib E) iq) (ToJID (blLib E) iq) then bl_reply E iq ''forbidden''
      else if IsGet (blLib E) iq then getBlockList E iq
      else if IsSet (blLib E) iq then alterBlockList E iq
      else ret ())"

end
