(* ===== verification/Block_Safety.thy ===== *)
theory Block_Safety
  imports Blocklist
begin

text \<open>
  What the blocking command guarantees: a request changes a user's block list as an operation on a
  set of addresses, and stanzas from and to an address of the list are stopped. \<open>block_module\<close> is
  what the module assumes of its repository; the embedded one satisfies it.
\<close>

text \<open>What a request that sets the block list does to the sets of blocked addresses.\<close>

definition alter_spec :: "xlib \<Rightarrow> element \<Rightarrow> string \<Rightarrow> (string \<Rightarrow> string set) \<Rightarrow> (string \<Rightarrow> string set) \<Rightarrow> bool" where
  "alter_spec X iq u bs bs' \<longleftrightarrow>
     (case ChildNamespace X iq ''block'' blockListNamespace of
        Some el \<Rightarrow> (\<exists>js. getItemJIDs X el = Inr js \<and> bs' = bs(u := bs u \<union> JIDString X ` set js))
      | None \<Rightarrow>
          (case ChildNamespace X iq ''unblock'' blockListNamespace of
             Some el \<Rightarrow> (\<exists>js. getItemJIDs X el = Inr js \<and>
               bs' = bs(u := if js = [] then {} else bs u - JIDString X ` set js))
           | None \<Rightarrow> bs' = bs))"

text \<open>An address is hit by a set of addresses when one of them matches it.\<close>

definition hits :: "xlib \<Rightarrow> string set \<Rightarrow> jid \<Rightarrow> bool" where
  "hits X B j \<longleftrightarrow> (\<exists>a \<in> B. \<exists>jd. NewJIDWithString X a True = Some jd \<and> JIDMatches X jd j)"

text \<open>Stanzas that the sender is told about when they are stopped.\<close>

definition answered :: "xlib \<Rightarrow> element \<Rightarrow> bool" where
  "answered X st \<longleftrightarrow> StanzaKind X st = MessageKind \<or> StanzaKind X st = IQKind \<and> (IsGet X st \<or> IsSet X st)"

locale block_module =
  tx: block_store "blTx E" inv blocked + rep: block_store "blRep E" inv blocked
  for E :: "'w block_env" and inv :: "'w \<Rightarrow> bool" and blocked :: "'w \<Rightarrow> string \<Rightarrow> string set" +
  assumes transaction: "inv w \<Longrightarrow> blInTransaction E f w = (Inr u, w') \<Longrightarrow>
      \<exists>w0 w1. inv w0 \<and> blocked w0 = blocked w \<and> f w0 = (Inr u, w1) \<and> (inv w1 \<longrightarrow> inv w') \<and> blocked w' = blocked w1"
    and env_keeps: "keeps (\<lambda>w. inv w \<and> blocked w = x) (blRoute E el)"
      "keeps (\<lambda>w. inv w \<and> blocked w = x) (blGetResources E name)"
      "keeps (\<lambda>w. inv w \<and> blocked w = x) (blRunHook E hk name js)"
      "keeps (\<lambda>w. inv w \<and> blocked w = x) (blNewUUID E)"
      "keeps (\<lambda>w. inv w \<and> blocked w = x) (blFetchRosterItems E name)"
begin

lemma route_keeps: "keeps (\<lambda>w. inv w \<and> blocked w = x) (blRouteIgnore E el)"
  "keeps (\<lambda>w. inv w \<and> blocked w = x) (bl_reply E iq reason)"
  unfolding bl_reply_def blRouteIgnore_def by (intro keeps_ignore env_keeps)+

lemma targets_keep: "keeps P (presence_target X bj rj)" "keeps P (targets_of X bj ris)" "keeps P (all_targets X bjs ris)"
proof -
  show t: "keeps P (presence_target X bj rj)" for bj rj
    by (auto simp: presence_target_def keeps_ret keeps_throw split: option.splits)
  show "keeps P (targets_of X bj ris)" for bj
    by (induction ris) (auto intro!: keeps_andthen t keeps_ret keeps_throw split: option.split)
  then show "keeps P (all_targets X bjs ris)"
    by (induction bjs) (auto intro!: keeps_andthen keeps_ret)
qed

lemma presences_keep: "keeps (\<lambda>w. inv w \<and> blocked w = x) (sendUnavailablePresences E js rss name)"
  "keeps (\<lambda>w. inv w \<and> blocked w = x) (sendAvailablePresences E js rss name)"
  "keeps (\<lambda>w. inv w \<and> blocked w = x) (blSendPush E el rss)"
  unfolding sendUnavailablePresences_def sendAvailablePresences_def getPresenceTargets_def blSendPush_def
  by (auto intro!: keeps_andthen keeps_for_each keeps_if keeps_ret keeps_throw env_keeps route_keeps targets_keep split: option.split)

text \<open>Success of a reported operation is success of the operation.\<close>

lemma reportedD: "bl_or_report E iq m w = (Inr x, w') \<Longrightarrow> m w = (Inr x, w')"
  by (cases "m w"; cases "fst (m w)") (auto simp: bl_or_report_def go_run split: if_splits prod.splits sum.splits)

lemma keepD: "keeps (\<lambda>w. inv w \<and> blocked w = x) m \<Longrightarrow> inv w \<Longrightarrow> blocked w = x \<Longrightarrow> m w = (r, w') \<Longrightarrow> inv w' \<and> blocked w' = x"
  using keepsD by fastforce

lemma upsert_all:
  "inv w \<Longrightarrow> for_each js (\<lambda>j. UpsertBlockListItem (blTx E) \<lparr>biUsername = u, biJid = g j\<rparr>) w = (Inr y, w') \<Longrightarrow>
     inv w' \<and> blocked w' = (blocked w)(u := blocked w u \<union> g ` set js)"
proof (induction js arbitrary: w)
  case (Cons j js)
  from Cons.prems(2) obtain w1 where s: "UpsertBlockListItem (blTx E) \<lparr>biUsername = u, biJid = g j\<rparr> w = (Inr (), w1)"
      "for_each js (\<lambda>j. UpsertBlockListItem (blTx E) \<lparr>biUsername = u, biJid = g j\<rparr>) w1 = (Inr y, w')"
    by (auto simp: go_run split: prod.splits sum.splits)
  from tx.upsert [OF Cons.prems(1) s(1)] Cons.IH [OF _ s(2)] show ?case by (auto intro!: HOL.ext)
qed (simp add: go_run)

lemma delete_each:
  "inv w \<Longrightarrow> for_each js (\<lambda>j. DeleteBlockListItem (blTx E) \<lparr>biUsername = u, biJid = g j\<rparr>) w = (Inr y, w') \<Longrightarrow>
     inv w' \<and> blocked w' = (blocked w)(u := blocked w u - g ` set js)"
proof (induction js arbitrary: w)
  case (Cons j js)
  from Cons.prems(2) obtain w1 where s: "DeleteBlockListItem (blTx E) \<lparr>biUsername = u, biJid = g j\<rparr> w = (Inr (), w1)"
      "for_each js (\<lambda>j. DeleteBlockListItem (blTx E) \<lparr>biUsername = u, biJid = g j\<rparr>) w1 = (Inr y, w')"
    by (auto simp: go_run split: prod.splits sum.splits)
  from tx.delete [OF Cons.prems(1) s(1)] Cons.IH [OF _ s(2)] show ?case by (auto intro!: HOL.ext)
qed (simp add: go_run)

lemma block_run:
  assumes "inv w" and "blockJIDs E iq block bli w = (Inr (), w')" and "u = Node (FromJID (blLib E) iq)"
    and bli: "biJid ` set bli = blocked w u" and js: "getItemJIDs (blLib E) block = Inr js"
  shows "inv w' \<and> blocked w' = (blocked w)(u := blocked w u \<union> JIDString (blLib E) ` set js)"
proof -
  let ?X = "blLib E"
  define bjs where "bjs = filter (\<lambda>jd. \<not> (\<exists>b \<in> set bli. JIDString ?X jd = biJid b)) js"
  let ?f = "for_each bjs (\<lambda>bj. UpsertBlockListItem (blTx E) \<lparr>biUsername = u, biJid = JIDString ?X bj\<rparr>)"
  from assms(2) js obtain w1 w2 w3 w4 w5 rss where
      t: "bl_or_report E iq (blInTransaction E ?f) w = (Inr (), w1)"
      and r: "bl_or_report E iq (blGetResources E u) w1 = (Inr rss, w2)"
      and s: "bl_or_report E iq (sendUnavailablePresences E bjs rss u) w2 = (Inr (), w3)"
      and a: "blRouteIgnore E (MakeResultIQ ?X iq None) w3 = (Inr (), w4)"
      and p: "blSendPush E block rss w4 = (Inr (), w5)" and h: "blRunHook E ''blocklist.items.blocked'' u bjs w5 = (Inr (), w')"
    by (auto simp: blockJIDs_def Let_def bjs_def assms(3) andthen_run split: prod.splits sum.splits)
  from transaction [OF assms(1) reportedD [OF t]] obtain w0 wt where w0: "inv w0" "blocked w0 = blocked w" "?f w0 = (Inr (), wt)"
      "inv wt \<longrightarrow> inv w1" "blocked w1 = blocked wt" by blast
  from upsert_all [OF w0(1,3)] w0 have w1: "inv w1" "blocked w1 = (blocked w)(u := blocked w u \<union> JIDString ?X ` set bjs)" by auto
  have "blocked w u \<union> JIDString ?X ` set bjs = blocked w u \<union> JIDString ?X ` set js"
    using bli by (fastforce simp: bjs_def)
  with w1 have w1': "inv w1" "blocked w1 = (blocked w)(u := blocked w u \<union> JIDString ?X ` set js)" by auto
  note k2 = keepD [OF env_keeps(2) w1' reportedD [OF r]]
  note k3 = keepD [OF presences_keep(1) k2 [THEN conjunct1] k2 [THEN conjunct2] reportedD [OF s]]
  note k4 = keepD [OF route_keeps(1) k3 [THEN conjunct1] k3 [THEN conjunct2] a]
  note k5 = keepD [OF presences_keep(3) k4 [THEN conjunct1] k4 [THEN conjunct2] p]
  from keepD [OF env_keeps(3) k5 [THEN conjunct1] k5 [THEN conjunct2] h] show ?thesis .
qed

lemma item_jids_run:
  assumes "item_jids X skip bli w = (Inr js, w')"
  shows "w' = w \<and> list_all2 (\<lambda>b j. NewJIDWithString X (biJid b) skip = Some j) bli js"
  using assms
proof (induction bli arbitrary: js w')
  case (Cons b bli)
  from Cons.prems obtain j js' where j: "NewJIDWithString X (biJid b) skip = Some j" "js = j # js'"
      "item_jids X skip bli w = (Inr js', w')"
    by (auto simp: go_run split: option.splits prod.splits sum.splits)
  from Cons.IH [OF this(3)] j show ?case by simp
qed (simp add: go_run)

lemma unblock_run:
  assumes "inv w" and "unblockJIDs E iq unblock bli w = (Inr (), w')" and u: "u = Node (FromJID (blLib E) iq)"
    and bli: "biJid ` set bli = blocked w u" and js: "getItemJIDs (blLib E) unblock = Inr js"
    and canon: "\<And>s j. s \<in> blocked w u \<Longrightarrow> NewJIDWithString (blLib E) s True = Some j \<Longrightarrow> JIDString (blLib E) j = s"
  shows "inv w' \<and> blocked w' = (blocked w)(u := if js = [] then {} else blocked w u - JIDString (blLib E) ` set js)"
proof -
  let ?X = "blLib E"
  from assms(2) js obtain ujs where ujs: "(if length js > 0 then ret (filter (\<lambda>jd. \<exists>b \<in> set bli. JIDString ?X jd = biJid b) js)
      else item_jids ?X True bli) w = (Inr ujs, w)"
    by (auto simp: unblockJIDs_def Let_def u go_run dest: item_jids_run split: prod.splits sum.splits if_splits)
  let ?f = "for_each ujs (\<lambda>uj. DeleteBlockListItem (blTx E) \<lparr>biUsername = u, biJid = JIDString ?X uj\<rparr>)"
  from assms(2) js ujs obtain w1 w2 w3 w4 w5 rss where
      t: "bl_or_report E iq (blInTransaction E ?f) w = (Inr (), w1)"
      and r: "bl_or_report E iq (blGetResources E u) w1 = (Inr rss, w2)"
      and s: "bl_or_report E iq (sendAvailablePresences E ujs rss u) w2 = (Inr (), w3)"
      and a: "blRouteIgnore E (MakeResultIQ ?X iq None) w3 = (Inr (), w4)"
      and p: "blSendPush E unblock rss w4 = (Inr (), w5)" and h: "blRunHook E ''blocklist.items.unblocked'' u ujs w5 = (Inr (), w')"
    by (auto simp: unblockJIDs_def Let_def u andthen_run split: prod.splits sum.splits)
  from transaction [OF assms(1) reportedD [OF t]] obtain w0 wt where w0: "inv w0" "blocked w0 = blocked w" "?f w0 = (Inr (), wt)"
      "inv wt \<longrightarrow> inv w1" "blocked w1 = blocked wt" by blast
  have "blocked w u - JIDString ?X ` set ujs = (if js = [] then {} else blocked w u - JIDString ?X ` set js)"
  proof (cases "js = []")
    case True
    with ujs have "list_all2 (\<lambda>b j. NewJIDWithString ?X (biJid b) True = Some j) bli ujs" by (auto dest: item_jids_run)
    then have "list_all2 (\<lambda>b j. JIDString ?X j = biJid b) bli ujs"
      by (rule list.rel_mono_strong) (use canon bli in blast)
    then have "map (JIDString ?X) ujs = map biJid bli" by (induction rule: list_all2_induct) auto
    then have "JIDString ?X ` set ujs = blocked w u" using bli by (metis set_map)
    with True show ?thesis by simp
  next
    case False
    with ujs have "ujs = filter (\<lambda>jd. \<exists>b \<in> set bli. JIDString ?X jd = biJid b) js" by (auto simp: go_run)
    with False bli show ?thesis by fastforce
  qed
  with delete_each [OF w0(1,3)] w0
  have w1: "inv w1" "blocked w1 = (blocked w)(u := if js = [] then {} else blocked w u - JIDString ?X ` set js)" by auto
  note k2 = keepD [OF env_keeps(2) w1 reportedD [OF r]]
  note k3 = keepD [OF presences_keep(2) k2 [THEN conjunct1] k2 [THEN conjunct2] reportedD [OF s]]
  note k4 = keepD [OF route_keeps(1) k3 [THEN conjunct1] k3 [THEN conjunct2] a]
  note k5 = keepD [OF presences_keep(3) k4 [THEN conjunct1] k4 [THEN conjunct2] p]
  from keepD [OF env_keeps(3) k5 [THEN conjunct1] k5 [THEN conjunct2] h] show ?thesis .
qed

text \<open>A block list stops exactly what it matches.\<close>

lemma matches_item_run:
  "(\<forall>i \<in> set bli. NewJIDWithString X (biJid i) True \<noteq> None) \<Longrightarrow>
     matches_item X j bli w = (Inr (\<exists>i \<in> set bli. \<exists>jd. NewJIDWithString X (biJid i) True = Some jd \<and> JIDMatches X jd j), w)"
  by (induction bli) (auto simp: go_run split: option.splits)

lemma handlers_run:
  assumes "inv w" and f: "FetchBlockListItems (blRep E) u w = (Inr bli, w1)"
    and parse: "\<forall>a \<in> blocked w u. NewJIDWithString (blLib E) a True \<noteq> None" and st: "StanzaKind (blLib E) st \<noteq> NotStanza"
  shows "Node (ToJID (blLib E) st) = u \<Longrightarrow> u \<noteq> [] \<Longrightarrow> blIsLocalHost E (Domain (ToJID (blLib E) st)) \<Longrightarrow>
      \<not> MatchesBare (blLib E) (ToJID (blLib E) st) (FromJID (blLib E) st) \<Longrightarrow>
      blOnElementRecv E st w = (if hits (blLib E) (blocked w u) (FromJID (blLib E) st)
        then (Inl ErrStopped, if answered (blLib E) st then snd (blRoute E (MakeErrorStanza (blLib E) st ''service-unavailable'') w1) else w1)
        else (Inr (), w1))"
    and "Node (FromJID (blLib E) st) = u \<Longrightarrow> blIsLocalHost E (Domain (FromJID (blLib E) st)) \<Longrightarrow>
      \<not> MatchesBare (blLib E) (FromJID (blLib E) st) (ToJID (blLib E) st) \<Longrightarrow>
      blOnElementWillRoute E st w = (if hits (blLib E) (blocked w u) (ToJID (blLib E) st)
        then (Inl ErrStopped, snd (blRoute E (blocked_error (blLib E) st) w1)) else (Inr (), w1))"
proof -
  have bli: "biJid ` set bli = blocked w u" using rep.fetch [OF assms(1) f] by simp
  have run: "matches_item (blLib E) j bli w1 = (Inr (hits (blLib E) (biJid ` set bli) j), w1)" for j
    using matches_item_run [of bli "blLib E" j w1] parse unfolding bli [symmetric] by (auto simp: hits_def)
  show "blOnElementRecv E st w = (if hits (blLib E) (blocked w u) (FromJID (blLib E) st)
        then (Inl ErrStopped, if answered (blLib E) st then snd (blRoute E (MakeErrorStanza (blLib E) st ''service-unavailable'') w1) else w1)
        else (Inr (), w1))"
    if "Node (ToJID (blLib E) st) = u" "u \<noteq> []" "blIsLocalHost E (Domain (ToJID (blLib E) st))"
      "\<not> MatchesBare (blLib E) (ToJID (blLib E) st) (FromJID (blLib E) st)"
    using that st unfolding bli [symmetric]
    by (cases "StanzaKind (blLib E) st")
      (simp_all add: blOnElementRecv_def processIncomingStanza_def Let_def go_run f run answered_def bl_reply_def blRouteIgnore_def)
  show "blOnElementWillRoute E st w = (if hits (blLib E) (blocked w u) (ToJID (blLib E) st)
        then (Inl ErrStopped, snd (blRoute E (blocked_error (blLib E) st) w1)) else (Inr (), w1))"
    if "Node (FromJID (blLib E) st) = u" "blIsLocalHost E (Domain (FromJID (blLib E) st))"
      "\<not> MatchesBare (blLib E) (FromJID (blLib E) st) (ToJID (blLib E) st)"
    using that st unfolding bli [symmetric]
    by (simp add: blOnElementWillRoute_def processOutgoingStanza_def Let_def go_run f run blRouteIgnore_def)
qed

lemma alter_run:
  assumes "inv w" and "blProcessIQ E iq w = (Inr (), w')" and "MatchesBare (blLib E) (FromJID (blLib E) iq) (ToJID (blLib E) iq)"
    and "IsSet (blLib E) iq" "\<not> IsGet (blLib E) iq" and u: "u = Node (FromJID (blLib E) iq)"
    and canon: "\<And>s j. s \<in> blocked w u \<Longrightarrow> NewJIDWithString (blLib E) s True = Some j \<Longrightarrow> JIDString (blLib E) j = s"
  shows "inv w' \<and> alter_spec (blLib E) iq u (blocked w) (blocked w')"
proof -
  let ?X = "blLib E"
  from assms(2-5) have alter: "alterBlockList E iq w = (Inr (), w')" by (simp add: blProcessIQ_def)
  then obtain bli w1 where "bl_or_report E iq (FetchBlockListItems (blRep E) u) w = (Inr bli, w1)"
    by (auto simp: alterBlockList_def u andthen_run split: prod.splits sum.splits)
  note f = this reportedD [OF this]
  from rep.fetch [OF assms(1) f(2)] have w1: "inv w1" "blocked w1 = blocked w" "biJid ` set bli = blocked w1 u" by auto
  have js: "\<exists>js. getItemJIDs ?X el = Inr js" if "blockJIDs E iq el bli w1 = (Inr (), w') \<or> unblockJIDs E iq el bli w1 = (Inr (), w')" for el
    using that by (cases "getItemJIDs ?X el")
      (auto simp: blockJIDs_def unblockJIDs_def Let_def go_run bl_reply_def blRouteIgnore_def)
  consider (block) el where "ChildNamespace ?X iq ''block'' blockListNamespace = Some el" "blockJIDs E iq el bli w1 = (Inr (), w')"
    | (unblock) el where "ChildNamespace ?X iq ''block'' blockListNamespace = None"
        "ChildNamespace ?X iq ''unblock'' blockListNamespace = Some el" "unblockJIDs E iq el bli w1 = (Inr (), w')"
    | (none) "ChildNamespace ?X iq ''block'' blockListNamespace = None"
        "ChildNamespace ?X iq ''unblock'' blockListNamespace = None" "bl_reply E iq ''bad-request'' w1 = (Inr (), w')"
    using alter f(1) by (auto simp: alterBlockList_def u andthen_run split: option.splits)
  then show ?thesis
  proof cases
    case block
    with js obtain js where "getItemJIDs ?X el = Inr js" by blast
    with block_run [OF w1(1) block(2) u w1(3)] block(1) w1(2) show ?thesis by (simp add: alter_spec_def)
  next
    case unblock
    with js obtain js where "getItemJIDs ?X el = Inr js" by blast
    with unblock_run [OF w1(1) unblock(3) u w1(3)] unblock(1,2) w1(2) canon show ?thesis by (simp add: alter_spec_def)
  next
    case none
    with keepD [OF route_keeps(2) w1(1) refl none(3)] w1(2) show ?thesis by (simp add: alter_spec_def)
  qed
qed

end

section \<open>On the embedded back end\<close>

definition bolt_block_env ::
  "'d bolt \<Rightarrow> block_item bcodec \<Rightarrow> roster_codecs \<Rightarrow> 'r block_outside \<Rightarrow> ('d, 'r) db_world block_env" where
  "bolt_block_env B C RC G = \<lparr>blLib = blLib G, blIsLocalHost = blIsLocalHost G,
     blRoute = (\<lambda>el. on_rest (blRoute G el)), blGetResources = (\<lambda>u. on_rest (blGetResources G u)),
     blLocalStream = (\<lambda>u r. on_rest (blLocalStream G u r)), blSetInfoValue = (\<lambda>s k v. on_rest (blSetInfoValue G s k v)),
     blRunHook = (\<lambda>h u js. on_rest (blRunHook G h u js)), blNewUUID = on_rest (blNewUUID G),
     blFetchRosterItems = FetchRosterItems (boltRosterRep B RC),
     blRep = boltBlockListRep B C, blTx = newBlockListRep B C, blInTransaction = InTransaction B\<rparr>"

sublocale bolt_block \<subseteq> module: block_module "bolt_block_env B C RC G" "\<lambda>w. block_keyed C (view (dbState w))"
  "\<lambda>w. block_set C (view (dbState w))" for RC G
proof (rule block_module.intro)
  let ?E = "bolt_block_env B C RC G"
  have sel: "blTx ?E = newBlockListRep B C" "blRep ?E = boltBlockListRep B C" "blInTransaction ?E = InTransaction B"
    by (simp_all add: bolt_block_env_def)
  show "block_store (blTx ?E) (\<lambda>w. keyed (dbState w)) (\<lambda>w. blk (dbState w))" unfolding sel by (rule tx.block_store_axioms)
  show "block_store (blRep ?E) (\<lambda>w. keyed (dbState w)) (\<lambda>w. blk (dbState w))" unfolding sel by (rule rep.block_store_axioms)
  show "block_module_axioms ?E (\<lambda>w. keyed (dbState w)) (\<lambda>w. blk (dbState w))"
  proof
    fix w f u w' assume "keyed (dbState w)" "blInTransaction ?E f w = (Inr u, w')"
    from InTransactionD [OF this(2) [unfolded sel]] this(1)
    show "\<exists>w0 w1. keyed (dbState w0) \<and> blk (dbState w0) = blk (dbState w) \<and> f w0 = (Inr u, w1) \<and>
        (keyed (dbState w1) \<longrightarrow> keyed (dbState w')) \<and> blk (dbState w') = blk (dbState w1)" by metis
  qed (simp_all add: bolt_block_env_def on_rest_keeps [where P = "\<lambda>d. keyed d \<and> blk d = _"],
      simp add: boltRosterRep_def keeps_def db_View_def split: prod.split sum.split)
qed

section \<open>An example\<close>

definition spam :: jid where "spam = \<lparr>Node = ''spam'', Domain = ''y'', Resource = []\<rparr>"

definition block_request :: "string \<Rightarrow> element" where
  "block_request cmd = Element ''iq'' [(''type'', ''set''), (''from'', ''ana@x/a''), (''to'', ''ana@x'')] []
     [Element cmd [(''xmlns'', ''urn:xmpp:blocking'')] [] [Element ''item'' [(''jid'', ''spam@y'')] [] []]]"

definition spam_message :: element where
  "spam_message = Element ''message'' [(''from'', ''spam@y/z''), (''to'', ''ana@x'')] [] []"

definition pair_codec :: "block_item bcodec" where
  "pair_codec = \<lparr>MarshalBinary = (\<lambda>i. Inr (itoa_nat (length (biUsername i)) @ ''#'' @ biUsername i @ biJid i)),
     UnmarshalBinary = (\<lambda>s. case split_on (CHR ''#'') s of
        n # rest \<Rightarrow> (case parse_nat n of
            Some k \<Rightarrow> (let r = drop (Suc (length n)) s in Inr \<lparr>biUsername = take k r, biJid = drop k r\<rparr>)
          | None \<Rightarrow> Inl (ErrText ''no length''))
      | [] \<Rightarrow> Inl (ErrText ''empty''))\<rparr>"

lemma no_hash_itoa: "CHR ''#'' \<notin> set (itoa_nat n)"
proof
  assume "CHR ''#'' \<in> set (itoa_nat n)"
  with set_itoa_nat [of n] obtain d where "d < 10" "CHR ''#'' = digit_char d" by auto
  then have "char_digit (CHR ''#'') = Some d" by simp
  then show False by (simp add: char_digit_def)
qed

interpretation demo_block: bolt_block mem_bolt mem_view mem_seq pair_codec
proof
  have "split_on (CHR ''#'') (itoa_nat n @ CHR ''#'' # s) = itoa_nat n # split_on (CHR ''#'') s" for n s
    by (rule split_on_append [OF no_hash_itoa])
  then show "codec_ok pair_codec" by (auto simp: codec_ok_def pair_codec_def Let_def)
qed

definition block_rest :: "element list block_outside" where
  "block_rest = \<lparr>blLib = std_lib, blIsLocalHost = (\<lambda>d. d = ''x''), blRoute = (\<lambda>el w. (Inr [], w @ [el])),
     blGetResources = (\<lambda>u. ret []), blLocalStream = (\<lambda>u r. ret 1), blSetInfoValue = (\<lambda>s k v. ret ()),
     blRunHook = (\<lambda>h u js. ret ()), blNewUUID = ret ''id'', blFetchRosterItems = (\<lambda>u. ret [])\<rparr>"

definition empty_codecs :: roster_codecs where
  "empty_codecs = \<lparr>itemCodec = \<lparr>MarshalBinary = (\<lambda>_. Inl ErrPanic), UnmarshalBinary = (\<lambda>_. Inl ErrPanic)\<rparr>,
     notifCodec = \<lparr>MarshalBinary = (\<lambda>_. Inl ErrPanic), UnmarshalBinary = (\<lambda>_. Inl ErrPanic)\<rparr>,
     verCodec = \<lparr>MarshalBinary = (\<lambda>_. Inl ErrPanic), UnmarshalBinary = (\<lambda>_. Inl ErrPanic)\<rparr>\<rparr>"

definition block_demo :: "(mem_db, element list) db_world block_env" where
  "block_demo = bolt_block_env mem_bolt pair_codec empty_codecs block_rest"

definition block_start :: "(mem_db, element list) db_world" where
  "block_start = \<lparr>dbState = Map.empty, dbRest = []\<rparr>"

definition block_after :: "(mem_db, element list) db_world" where
  "block_after = snd (blProcessIQ block_demo (block_request ''block'') block_start)"

section \<open>Properties\<close>

text \<open>
  C16. The block list is a set of addresses: a request that succeeds adds the addresses it names to the
  user's set, removes them from it, or empties it when an unblock request names none, and no other
  user's set changes. The addresses stored are assumed to be in the form the XML package writes.
\<close>

theorem block_requests_refine_set:
  assumes "block_module E I blocked" and "I w" and "blProcessIQ E iq w = (Inr (), w')"
    and "MatchesBare (blLib E) (FromJID (blLib E) iq) (ToJID (blLib E) iq)"
    and "IsSet (blLib E) iq" and "\<not> IsGet (blLib E) iq" and "u = Node (FromJID (blLib E) iq)"
    and "\<And>s j. s \<in> blocked w u \<Longrightarrow> NewJIDWithString (blLib E) s True = Some j \<Longrightarrow> JIDString (blLib E) j = s"
  shows "I w' \<and> alter_spec (blLib E) iq u (blocked w) (blocked w')"
  by (rule block_module.alter_run [OF assms])

theorem block_requests_refine_set_witness:
  "block_keyed pair_codec (mem_view (dbState block_after)) \<and>
   alter_spec std_lib (block_request ''block'') ''ana'' (block_set pair_codec (mem_view (dbState block_start)))
     (block_set pair_codec (mem_view (dbState block_after)))"
proof -
  have run: "fst (blProcessIQ block_demo (block_request ''block'') block_start) = Inr ()" by code_simp
  have js: "MatchesBare std_lib (FromJID std_lib (block_request ''block'')) (ToJID std_lib (block_request ''block''))"
    "IsSet std_lib (block_request ''block'')" "\<not> IsGet std_lib (block_request ''block'')"
    "Node (FromJID std_lib (block_request ''block'')) = ''ana''" by code_simp+
  have lib: "blLib (bolt_block_env mem_bolt pair_codec empty_codecs block_rest) = std_lib" by (simp add: bolt_block_env_def block_rest_def)
  have start: "block_keyed pair_codec (mem_view (dbState block_start))" "block_set pair_codec (mem_view (dbState block_start)) u = {}" for u
    by (auto simp: block_start_def block_keyed_def block_set_def stored_def bucket_of_def mem_view_def)
  from run have "blProcessIQ (bolt_block_env mem_bolt pair_codec empty_codecs block_rest) (block_request ''block'') block_start = (Inr (), block_after)"
    by (simp add: block_after_def block_demo_def prod_eq_iff)
  from block_requests_refine_set [OF demo_block.module.block_module_axioms start(1) this, unfolded lib, OF js(1-3) js(4) [symmetric]] start(2)
  show ?thesis by simp
qed

text \<open>
  C15. Blocking is enforced, and nothing else is stopped. After a user has successfully blocked some
  addresses, consider the addresses he blocked before and these. A stanza for him from somebody else is stopped
  exactly when one of them matches the sender; a message and a request are then answered with
  service-unavailable, other stanzas with nothing. A stanza of his to somebody else is stopped exactly
  when one of them matches the receiver, and he is sent the error that names the blocking. Every other
  such stanza passes without effect, and so do, without a look at the list, stanzas for servers and for users
  of other servers, stanzas from users of other servers on their way out, and those a user sends
  himself. Assumed: the addresses stored can be read, as they were written by the XML package, and
  reading the list succeeds when the stanza arrives (otherwise the handler returns that error).
\<close>

theorem blocking_enforced:
  assumes "block_module E I blocked" and "I w" and run: "blProcessIQ E iq w = (Inr (), w')" and X: "X = blLib E"
    and iq: "MatchesBare X (FromJID X iq) (ToJID X iq)" "IsSet X iq" "\<not> IsGet X iq"
      "ChildNamespace X iq ''block'' ''urn:xmpp:blocking'' = Some el" "getItemJIDs X el = Inr js"
    and u: "u = Node (FromJID X iq)" "u \<noteq> []" and B: "B = blocked w u \<union> JIDString X ` set js"
    and lib: "\<And>a j. a \<in> blocked w u \<Longrightarrow> NewJIDWithString X a True = Some j \<Longrightarrow> JIDString X j = a"
      "\<And>a. a \<in> B \<Longrightarrow> NewJIDWithString X a True \<noteq> None"
    and st: "StanzaKind X st \<noteq> NotStanza" and fetch: "FetchBlockListItems (blRep E) u w' = (Inr bli, w1)"
    and f: "f = FromJID X st" and t: "t = ToJID X st"
  shows "(Node t = u \<and> blIsLocalHost E (Domain t) \<and> \<not> MatchesBare X t f \<longrightarrow>
      blOnElementRecv E st w' = (if hits X B f
        then (Inl ErrStopped, if answered X st then snd (blRoute E (MakeErrorStanza X st ''service-unavailable'') w1) else w1)
        else (Inr (), w1))) \<and>
    (Node f = u \<and> blIsLocalHost E (Domain f) \<and> \<not> MatchesBare X f t \<longrightarrow>
      blOnElementWillRoute E st w' = (if hits X B t
        then (Inl ErrStopped, snd (blRoute E (ErrorStanzaWith X ''not-acceptable'' st
          ''Your active block list has denied the routing of this stanza.''
          (Element ''blocked'' [(''xmlns'', ''urn:xmpp:blocking:errors'')] [] [])) w1))
        else (Inr (), w1))) \<and>
    (Node t = [] \<or> \<not> blIsLocalHost E (Domain t) \<or> MatchesBare X t f \<longrightarrow> blOnElementRecv E st w' = (Inr (), w')) \<and>
    (\<not> blIsLocalHost E (Domain f) \<or> MatchesBare X f t \<longrightarrow> blOnElementWillRoute E st w' = (Inr (), w'))"
proof -
  have req: "ChildNamespace X iq ''block'' blockListNamespace = Some el" using iq(4) by (simp add: blockListNamespace_def)
  have w': "I w'" "alter_spec X iq u (blocked w) (blocked w')"
    using block_module.alter_run [OF assms(1,2) run iq(1-3) [unfolded X] u(1) [unfolded X]] lib(1) by (simp_all add: X)
  with req iq(5) have set: "blocked w' u = B" by (simp add: alter_spec_def B)
  have parse: "\<forall>a \<in> blocked w' u. NewJIDWithString (blLib E) a True \<noteq> None" using lib(2) by (simp add: set X)
  note h = block_module.handlers_run [OF assms(1) w'(1) fetch parse st [unfolded X], unfolded set, folded X, folded f t]
  have "blocked_error X st = ErrorStanzaWith X ''not-acceptable'' st ''Your active block list has denied the routing of this stanza.''
      (Element ''blocked'' [(''xmlns'', ''urn:xmpp:blocking:errors'')] [] [])"
    by (simp add: blocked_error_def blockedTargetErrorText_def blockListErrorsNamespace_def)
  note h' = h(1) [OF _ u(2)] h(2) [unfolded this]
  have "Node t = [] \<or> \<not> blIsLocalHost E (Domain t) \<or> MatchesBare X t f \<longrightarrow> blOnElementRecv E st w' = (Inr (), w')"
    "\<not> blIsLocalHost E (Domain f) \<or> MatchesBare X f t \<longrightarrow> blOnElementWillRoute E st w' = (Inr (), w')"
    by (auto simp: blOnElementRecv_def processIncomingStanza_def blOnElementWillRoute_def processOutgoingStanza_def Let_def go_run X f t)
  then show ?thesis using h' by blast
qed

theorem blocking_enforced_witness:
  "\<exists>w1. blOnElementRecv block_demo spam_message block_after = (Inl ErrStopped, w1) \<and>
     dbRest w1 = dbRest block_after @ [MakeErrorStanza std_lib spam_message ''service-unavailable'']"
proof -
  let ?E = "bolt_block_env mem_bolt pair_codec empty_codecs block_rest"
  have run: "fst (blProcessIQ block_demo (block_request ''block'') block_start) = Inr ()" by code_simp
  let ?el = "Element ''block'' [(''xmlns'', ''urn:xmpp:blocking'')] [] [Element ''item'' [(''jid'', ''spam@y'')] [] []]"
  have js: "MatchesBare std_lib (FromJID std_lib (block_request ''block'')) (ToJID std_lib (block_request ''block''))"
    "IsSet std_lib (block_request ''block'')" "\<not> IsGet std_lib (block_request ''block'')"
    "ChildNamespace std_lib (block_request ''block'') ''block'' ''urn:xmpp:blocking'' = Some ?el" "getItemJIDs std_lib ?el = Inr [spam]"
    "Node (FromJID std_lib (block_request ''block'')) = ''ana''" "NewJIDWithString std_lib (JIDString std_lib spam) True = Some spam"
    "StanzaKind std_lib spam_message \<noteq> NotStanza" "Node (ToJID std_lib spam_message) = ''ana''" "Domain (ToJID std_lib spam_message) = ''x''"
    "\<not> MatchesBare std_lib (ToJID std_lib spam_message) (FromJID std_lib spam_message)"
    "JIDMatches std_lib spam (FromJID std_lib spam_message)" "answered std_lib spam_message" by code_simp+
  have "blLib ?E = std_lib" "blIsLocalHost ?E d \<longleftrightarrow> d = ''x''" for d by (simp_all add: bolt_block_env_def block_rest_def)
  note lib = this
  have start: "block_keyed pair_codec (mem_view (dbState block_start))" "block_set pair_codec (mem_view (dbState block_start)) u = {}" for u
    by (auto simp: block_start_def block_keyed_def block_set_def stored_def bucket_of_def mem_view_def)
  from run have r: "blProcessIQ ?E (block_request ''block'') block_start = (Inr (), block_after)"
    by (simp add: block_after_def block_demo_def prod_eq_iff)
  have "fst (FetchBlockListItems (blRep block_demo) ''ana'' block_after) = Inr [\<lparr>biUsername = ''ana'', biJid = ''spam@y''\<rparr>]" by code_simp
  moreover have "snd (FetchBlockListItems (blRep ?E) ''ana'' block_after) = block_after"
    by (simp add: bolt_block_env_def boltBlockListRep_def db_View_def split: prod.split sum.split)
  ultimately have f: "FetchBlockListItems (blRep ?E) ''ana'' block_after = (Inr [\<lparr>biUsername = ''ana'', biJid = ''spam@y''\<rparr>], block_after)"
    by (simp add: block_demo_def prod_eq_iff)
  have hit: "hits std_lib (block_set pair_codec (mem_view (dbState block_start)) ''ana'' \<union> JIDString std_lib ` set [spam]) (FromJID std_lib spam_message)"
    using js(7,12) by (auto simp: hits_def)
  note enforced = blocking_enforced [OF demo_block.module.block_module_axioms start(1) r lib(1) [symmetric] js(1-5) js(6) [symmetric] _ refl _ _ js(8) f refl refl]
  have ops: "dbRest (snd (blRoute ?E el w)) = dbRest w @ [el]" for el and w :: "(mem_db, element list) db_world"
    by (simp add: bolt_block_env_def block_rest_def on_rest_parts)
  have "blOnElementRecv ?E spam_message block_after =
      (Inl ErrStopped, snd (blRoute ?E (MakeErrorStanza std_lib spam_message ''service-unavailable'') block_after))"
    using enforced start(2) js(7,9-11,13) hit lib(2) by auto
  then show ?thesis using ops by (simp add: block_demo_def)
qed

end
