(* ===== verification/Cache.thy ===== *)
theory Cache
  imports Bolt
begin

text \<open>
  The cache in front of a repository (\<^verbatim>\<open>src/pkg/storage/cached/op.go\<close>): values are read through the
  cache and updates invalidate it first. The cache store (the interface \<^verbatim>\<open>Cache\<close> of \<^verbatim>\<open>cached.go\<close>) is a
  record of functions; \<open>cache_store\<close> is what it promises: it returns what was put, but may forget
  anything at any time. The lemmas carry coherence, that every cached value is the repository's,
  through the operations.
\<close>

section \<open>Operations\<close>

record 'w cache =
  cxGet :: "string \<Rightarrow> string \<Rightarrow> ('w, string option) go"
  cxPut :: "string \<Rightarrow> string \<Rightarrow> string \<Rightarrow> ('w, unit) go"
  cxDel :: "string \<Rightarrow> string list \<Rightarrow> ('w, unit) go"
  cxDelNS :: "string \<Rightarrow> ('w, unit) go"
  cxHasKey :: "string \<Rightarrow> string \<Rightarrow> ('w, bool) go"

definition existsOp :: "'w cache \<Rightarrow> string \<Rightarrow> string \<Rightarrow> ('w, bool) go \<Rightarrow> ('w, bool) go" where
  "existsOp K namespace key missFn =
     andthen (attempt (cxHasKey K namespace key)) (\<lambda>r.
       case r of Inl _ \<Rightarrow> missFn | Inr ok \<Rightarrow> if ok then ret True else missFn)"

definition invalidate :: "'w cache \<Rightarrow> string \<Rightarrow> string list \<Rightarrow> ('w, unit) go" where
  "invalidate K namespace invalidateKeys =
     (if length invalidateKeys > 0 then cxDel K namespace invalidateKeys else cxDelNS K namespace)"

definition updateOp :: "'w cache \<Rightarrow> string \<Rightarrow> string list \<Rightarrow> ('w, 'a) go \<Rightarrow> ('w, 'a) go" where
  "updateOp K namespace invalidateKeys updateFn = andthen (invalidate K namespace invalidateKeys) (\<lambda>_. updateFn)"

text \<open>\<open>None\<close> is Go's nil.\<close>

definition fetchOp :: "'w cache \<Rightarrow> 'a bcodec \<Rightarrow> string \<Rightarrow> string \<Rightarrow> ('w, 'a option) go \<Rightarrow> ('w, 'a option) go" where
  "fetchOp K C namespace key missFn =
     andthen (attempt (cxGet K namespace key)) (\<lambda>r.
       case r of
         Inl _ \<Rightarrow> missFn
       | Inr None \<Rightarrow>
           andthen missFn (\<lambda>cdc.
             case cdc of
               None \<Rightarrow> ret None
             | Some x \<Rightarrow>
                 andthen (lift_sum (MarshalBinary C x)) (\<lambda>b.
                 andthen (cxPut K namespace key b) (\<lambda>_. ret (Some x))))
       | Inr (Some b) \<Rightarrow> andthen (lift_sum (UnmarshalBinary C b)) (\<lambda>x. ret (Some x)))"

section \<open>What the cache promises\<close>

text \<open>\<open>valid s n k b\<close>: with the repository in state \<open>s\<close>, \<open>b\<close> is a right value for the key.\<close>

definition coherent ::
  "('w \<Rightarrow> string \<Rightarrow> string \<Rightarrow> string option) \<Rightarrow> ('w \<Rightarrow> 's) \<Rightarrow> ('s \<Rightarrow> string \<Rightarrow> string \<Rightarrow> string \<Rightarrow> bool) \<Rightarrow> 'w \<Rightarrow> bool" where
  "coherent cached behind valid w \<longleftrightarrow> (\<forall>n k b. cached w n k = Some b \<longrightarrow> valid (behind w) n k b)"

text \<open>A repository function that reads: it changes neither its own state nor the cache.\<close>

definition reads :: "('w \<Rightarrow> string \<Rightarrow> string \<Rightarrow> string option) \<Rightarrow> ('w \<Rightarrow> 's) \<Rightarrow> ('w, 'a) go \<Rightarrow> bool" where
  "reads cached behind m \<longleftrightarrow> (\<forall>w r w'. m w = (r, w') \<longrightarrow> behind w' = behind w \<and> cached w' = cached w)"

text \<open>\<open>cached w\<close> is what the cache holds, \<open>behind w\<close> everything a repository behind it depends on.\<close>

locale cache_store =
  fixes K :: "'w cache"
    and cached :: "'w \<Rightarrow> string \<Rightarrow> string \<Rightarrow> string option"
    and behind :: "'w \<Rightarrow> 's"
  assumes get: "cxGet K ns k w = (r, w') \<Longrightarrow> behind w' = behind w \<and>
      (\<forall>n j b. cached w' n j = Some b \<longrightarrow> cached w n j = Some b) \<and> (\<forall>b. r = Inr (Some b) \<longrightarrow> cached w ns k = Some b)"
    and put: "cxPut K ns k v w = (t, w') \<Longrightarrow> behind w' = behind w \<and>
      (\<forall>n j b. cached w' n j = Some b \<longrightarrow> cached w n j = Some b \<or> (n = ns \<and> j = k \<and> b = v))"
    and del: "cxDel K ns ks w = (t, w') \<Longrightarrow> behind w' = behind w \<and>
      (\<forall>n j b. cached w' n j = Some b \<longrightarrow> cached w n j = Some b \<and> (t = Inr () \<longrightarrow> n \<noteq> ns \<or> j \<notin> set ks))"
    and delNS: "cxDelNS K ns w = (t, w') \<Longrightarrow> behind w' = behind w \<and>
      (\<forall>n j b. cached w' n j = Some b \<longrightarrow> cached w n j = Some b \<and> (t = Inr () \<longrightarrow> n \<noteq> ns))"
    and has: "cxHasKey K ns k w = (q, w') \<Longrightarrow> behind w' = behind w \<and>
      (\<forall>n j b. cached w' n j = Some b \<longrightarrow> cached w n j = Some b) \<and> (q = Inr True \<longrightarrow> cached w ns k \<noteq> None)"
begin

lemma coherent_less:
  "coherent cached behind valid w \<Longrightarrow> behind w' = behind w \<Longrightarrow> (\<And>n j b. cached w' n j = Some b \<Longrightarrow> cached w n j = Some b) \<Longrightarrow> coherent cached behind valid w'"
  by (auto simp: coherent_def)

lemma fetch_coherent:
  assumes co: "coherent cached behind valid w" and run: "fetchOp K C ns k miss w = (r, w')" and "reads cached behind miss"
    and miss: "\<And>w x w'. miss w = (Inr x, w') \<Longrightarrow> Q (behind w) x"
    and sound: "\<And>s b. valid s ns k b \<Longrightarrow> \<exists>x. UnmarshalBinary C b = Inr x \<and> Q s (Some x)"
    and store: "\<And>s x b. Q s (Some x) \<Longrightarrow> MarshalBinary C x = Inr b \<Longrightarrow> valid s ns k b"
  shows "behind w' = behind w \<and> coherent cached behind valid w' \<and> (\<forall>x. r = Inr x \<longrightarrow> Q (behind w) x)"
proof -
  obtain g w1 where g: "cxGet K ns k w = (g, w1)" by fastforce
  note w1 = get [OF g]
  have co1: "coherent cached behind valid w1" using coherent_less [OF co] w1 by blast
  have m: "behind w2 = behind w1 \<and> coherent cached behind valid w2 \<and> (\<forall>x. y = Inr x \<longrightarrow> Q (behind w) x)" if "miss w1 = (y, w2)" for y w2
    using that assms(3) miss [of w1 _ w2] co1 w1 by (auto simp: reads_def coherent_def)
  consider e where "g = Inl e" | "g = Inr None" | b where "g = Inr (Some b)" by (cases g) auto
  then show ?thesis
  proof cases
    case 1
    with run g have "miss w1 = (r, w')" by (simp add: fetchOp_def go_run)
    with m w1 show ?thesis by auto
  next
    case 2
    obtain y w2 where y: "miss w1 = (y, w2)" by fastforce
    show ?thesis
    proof (cases "\<exists>x b. y = Inr (Some x) \<and> MarshalBinary C x = Inr b")
      case True
      then obtain x b where x: "y = Inr (Some x)" "MarshalBinary C x = Inr b" by blast
      obtain t w3 where p: "cxPut K ns k b w2 = (t, w3)" by fastforce
      have "valid (behind w2) ns k b" using m [OF y] w1 x store by auto
      with put [OF p] m [OF y] have "coherent cached behind valid w3" unfolding coherent_def by metis
      with run g 2 y x p put [OF p] m [OF y] w1 show ?thesis by (cases t) (auto simp: fetchOp_def go_run)
    next
      case False
      with run g 2 y m [OF y] w1 show ?thesis
        by (auto simp: fetchOp_def go_run split: sum.splits option.splits)
    qed
  next
    case 3
    then have "cached w ns k = Some b" using w1 by simp
    then have "valid (behind w) ns k b" using co by (simp add: coherent_def)
    from sound [OF this] obtain x where "UnmarshalBinary C b = Inr x" "Q (behind w) (Some x)" by blast
    with run g 3 w1 co1 show ?thesis by (auto simp: fetchOp_def go_run)
  qed
qed

text \<open>An update keeps the cache coherent when it changes only what its keys stand for.\<close>

lemma update_coherent:
  assumes co: "coherent cached behind valid w" and run: "updateOp K ns ks f w = (r, w')"
    and f: "\<And>w y w'. f w = (y, w') \<Longrightarrow> cached w' = cached w"
    and frame: "\<And>w y w' n k b. f w = (y, w') \<Longrightarrow> n \<noteq> ns \<or> (ks \<noteq> [] \<and> k \<notin> set ks) \<Longrightarrow> valid (behind w) n k b \<Longrightarrow> valid (behind w') n k b"
  shows "coherent cached behind valid w' \<and> (behind w' = behind w \<and> (\<exists>e. r = Inl e) \<or> (\<exists>w1. behind w1 = behind w \<and> f w1 = (r, w')))"
proof -
  obtain t w1 where i: "invalidate K ns ks w = (t, w1)" by fastforce
  have w1: "behind w1 = behind w" "\<And>n j b. cached w1 n j = Some b \<Longrightarrow> cached w n j = Some b"
    "t = Inr () \<Longrightarrow> cached w1 n j = Some b \<Longrightarrow> n \<noteq> ns \<or> (ks \<noteq> [] \<and> j \<notin> set ks)" for n j b
    using i del [of ns ks w t w1] delNS [of ns w t w1] by (auto simp: invalidate_def split: if_splits)
  have co1: "coherent cached behind valid w1" using coherent_less [OF co] w1 by blast
  show ?thesis
  proof (cases t)
    case (Inl e)
    with run i have "w' = w1" "r = Inl e" by (auto simp: updateOp_def go_run)
    with co1 w1 show ?thesis by simp
  next
    case (Inr u)
    with run i have "f w1 = (r, w')" by (simp add: updateOp_def go_run)
    moreover have "coherent cached behind valid w'"
      unfolding coherent_def
    proof (intro allI impI)
      fix n k b assume "cached w' n k = Some b"
      with f [OF \<open>f w1 = (r, w')\<close>] have c: "cached w1 n k = Some b" by simp
      with co1 have "valid (behind w1) n k b" by (simp add: coherent_def)
      with frame [OF \<open>f w1 = (r, w')\<close>] w1(3) [OF _ c] Inr show "valid (behind w') n k b" by auto
    qed
    ultimately show ?thesis using w1(1) by blast
  qed
qed

end

end
