(* ===== verification/Entity_Store.thy ===== *)
theory Entity_Store
  imports Bolt Xmpp
begin

text \<open>
  The repositories that keep one entity per key: accounts, last activity, vCards, private elements
  and entity capabilities (\<^verbatim>\<open>src/pkg/storage/repository\<close>), and their embedded implementations
  (\<^verbatim>\<open>src/pkg/storage/boltdb\<close>). Their common contract is \<open>entity_store\<close>. Capabilities are keyed by the
  concatenation of two names, which does not determine them.
\<close>

section \<open>Entities and repositories\<close>

record scram_creds =
  scSha1 :: string
  scSha256 :: string
  scSha512 :: string
  scSha3512 :: string
  scIterationCount :: int
  scSalt :: string
  scPepperId :: string

record user_model =
  usUsername :: string
  usScram :: scram_creds

record last_model =
  laUsername :: string
  laSeconds :: int
  laStatus :: string

record caps_model =
  cpNode :: string
  cpVer :: string
  cpFeatures :: "string list"

record 'w user_rep =
  UpsertUser :: "user_model \<Rightarrow> ('w, unit) go"
  DeleteUser :: "string \<Rightarrow> ('w, unit) go"
  FetchUser :: "string \<Rightarrow> ('w, user_model option) go"
  UserExists :: "string \<Rightarrow> ('w, bool) go"

record 'w last_rep =
  UpsertLast :: "last_model \<Rightarrow> ('w, unit) go"
  FetchLast :: "string \<Rightarrow> ('w, last_model option) go"
  DeleteLast :: "string \<Rightarrow> ('w, unit) go"

record 'w vcard_rep =
  UpsertVCard :: "element \<Rightarrow> string \<Rightarrow> ('w, unit) go"
  FetchVCard :: "string \<Rightarrow> ('w, element option) go"
  DeleteVCard :: "string \<Rightarrow> ('w, unit) go"

record 'w private_rep =
  FetchPrivate :: "string \<Rightarrow> string \<Rightarrow> ('w, element option) go"
  UpsertPrivate :: "element \<Rightarrow> string \<Rightarrow> string \<Rightarrow> ('w, unit) go"
  DeletePrivates :: "string \<Rightarrow> ('w, unit) go"

record 'w caps_rep =
  UpsertCapabilities :: "caps_model \<Rightarrow> ('w, unit) go"
  CapabilitiesExist :: "string \<Rightarrow> string \<Rightarrow> ('w, bool) go"
  FetchCapabilities :: "string \<Rightarrow> string \<Rightarrow> ('w, caps_model option) go"

section \<open>The embedded back end\<close>

definition userKey :: string where "userKey = ''usr''"
definition lastKey :: string where "lastKey = ''lst''"
definition vCardKey :: string where "vCardKey = ''vcard''"
definition capsKey :: string where "capsKey = ''caps''"

definition userBucketKey :: "string \<Rightarrow> string" where "userBucketKey username = ''user:'' @ username"
definition lastBucketKey :: "string \<Rightarrow> string" where "lastBucketKey username = ''last:'' @ username"
definition vCardBucketKey :: "string \<Rightarrow> string" where "vCardBucketKey username = ''vcard:'' @ username"
definition privateBucketKey :: "string \<Rightarrow> string" where "privateBucketKey username = ''prv:'' @ username"
definition capsBucketKey :: "string \<Rightarrow> string \<Rightarrow> string" where "capsBucketKey node ver = ''caps:'' @ node @ '':'' @ ver"

definition bUpsertUser :: "'d bolt \<Rightarrow> user_model bcodec \<Rightarrow> user_model \<Rightarrow> ('d, unit) go" where
  "bUpsertUser B C user = upsertKeyOp B C (userBucketKey (usUsername user)) userKey user"

definition bDeleteUser :: "'d bolt \<Rightarrow> string \<Rightarrow> ('d, unit) go" where
  "bDeleteUser B username = delBucketOp B (userBucketKey username)"

definition bFetchUser :: "'d bolt \<Rightarrow> user_model bcodec \<Rightarrow> string \<Rightarrow> ('d, user_model option) go" where
  "bFetchUser B C username = fetchKeyOp B C (userBucketKey username) userKey"

definition bUserExists :: "'d bolt \<Rightarrow> string \<Rightarrow> ('d, bool) go" where
  "bUserExists B username = bucketExistsOp B (userBucketKey username)"

definition bUpsertLast :: "'d bolt \<Rightarrow> last_model bcodec \<Rightarrow> last_model \<Rightarrow> ('d, unit) go" where
  "bUpsertLast B C la = upsertKeyOp B C (lastBucketKey (laUsername la)) lastKey la"

definition bFetchLast :: "'d bolt \<Rightarrow> last_model bcodec \<Rightarrow> string \<Rightarrow> ('d, last_model option) go" where
  "bFetchLast B C username = fetchKeyOp B C (lastBucketKey username) lastKey"

definition bDeleteLast :: "'d bolt \<Rightarrow> string \<Rightarrow> ('d, unit) go" where
  "bDeleteLast B username = delBucketOp B (lastBucketKey username)"

definition bUpsertVCard :: "'d bolt \<Rightarrow> element bcodec \<Rightarrow> element \<Rightarrow> string \<Rightarrow> ('d, unit) go" where
  "bUpsertVCard B C vCard username = upsertKeyOp B C (vCardBucketKey username) vCardKey vCard"

definition bFetchVCard :: "'d bolt \<Rightarrow> element bcodec \<Rightarrow> string \<Rightarrow> ('d, element option) go" where
  "bFetchVCard B C username = fetchKeyOp B C (vCardBucketKey username) vCardKey"

definition bDeleteVCard :: "'d bolt \<Rightarrow> string \<Rightarrow> ('d, unit) go" where
  "bDeleteVCard B username = delBucketOp B (vCardBucketKey username)"

definition bFetchPrivate :: "'d bolt \<Rightarrow> element bcodec \<Rightarrow> string \<Rightarrow> string \<Rightarrow> ('d, element option) go" where
  "bFetchPrivate B C namespace username = fetchKeyOp B C (privateBucketKey username) namespace"

definition bUpsertPrivate :: "'d bolt \<Rightarrow> element bcodec \<Rightarrow> element \<Rightarrow> string \<Rightarrow> string \<Rightarrow> ('d, unit) go" where
  "bUpsertPrivate B C private namespace username = upsertKeyOp B C (privateBucketKey username) namespace private"

definition bDeletePrivates :: "'d bolt \<Rightarrow> string \<Rightarrow> ('d, unit) go" where
  "bDeletePrivates B username = delBucketOp B (privateBucketKey username)"

definition bUpsertCapabilities :: "'d bolt \<Rightarrow> caps_model bcodec \<Rightarrow> caps_model \<Rightarrow> ('d, unit) go" where
  "bUpsertCapabilities B C caps = upsertKeyOp B C (capsBucketKey (cpNode caps) (cpVer caps)) capsKey caps"

definition bCapabilitiesExist :: "'d bolt \<Rightarrow> string \<Rightarrow> string \<Rightarrow> ('d, bool) go" where
  "bCapabilitiesExist B node ver = bucketExistsOp B (capsBucketKey node ver)"

definition bFetchCapabilities :: "'d bolt \<Rightarrow> caps_model bcodec \<Rightarrow> string \<Rightarrow> string \<Rightarrow> ('d, caps_model option) go" where
  "bFetchCapabilities B C node ver = fetchKeyOp B C (capsBucketKey node ver) capsKey"

text \<open>The repository's own operations, each in a transaction.\<close>

definition boltUserRep :: "'d bolt \<Rightarrow> user_model bcodec \<Rightarrow> ('d, 'r) db_world user_rep" where
  "boltUserRep B C = \<lparr>UpsertUser = (\<lambda>v. db_Update B (bUpsertUser B C v)), DeleteUser = (\<lambda>u. db_Update B (bDeleteUser B u)),
     FetchUser = (\<lambda>u. db_View B (bFetchUser B C u)), UserExists = (\<lambda>u. db_View B (bUserExists B u))\<rparr>"

definition boltLastRep :: "'d bolt \<Rightarrow> last_model bcodec \<Rightarrow> ('d, 'r) db_world last_rep" where
  "boltLastRep B C = \<lparr>UpsertLast = (\<lambda>v. db_Update B (bUpsertLast B C v)),
     FetchLast = (\<lambda>u. db_View B (bFetchLast B C u)), DeleteLast = (\<lambda>u. db_Update B (bDeleteLast B u))\<rparr>"

definition boltVCardRep :: "'d bolt \<Rightarrow> element bcodec \<Rightarrow> ('d, 'r) db_world vcard_rep" where
  "boltVCardRep B C = \<lparr>UpsertVCard = (\<lambda>v u. db_Update B (bUpsertVCard B C v u)),
     FetchVCard = (\<lambda>u. db_View B (bFetchVCard B C u)), DeleteVCard = (\<lambda>u. db_Update B (bDeleteVCard B u))\<rparr>"

definition boltPrivateRep :: "'d bolt \<Rightarrow> element bcodec \<Rightarrow> ('d, 'r) db_world private_rep" where
  "boltPrivateRep B C = \<lparr>FetchPrivate = (\<lambda>n u. db_View B (bFetchPrivate B C n u)),
     UpsertPrivate = (\<lambda>v n u. db_Update B (bUpsertPrivate B C v n u)), DeletePrivates = (\<lambda>u. db_Update B (bDeletePrivates B u))\<rparr>"

definition boltCapsRep :: "'d bolt \<Rightarrow> caps_model bcodec \<Rightarrow> ('d, 'r) db_world caps_rep" where
  "boltCapsRep B C = \<lparr>UpsertCapabilities = (\<lambda>v. db_Update B (bUpsertCapabilities B C v)),
     CapabilitiesExist = (\<lambda>n v. db_View B (bCapabilitiesExist B n v)), FetchCapabilities = (\<lambda>n v. db_View B (bFetchCapabilities B C n v))\<rparr>"

section \<open>The contract\<close>

text \<open>\<open>ent w k\<close> is the entity of key \<open>k\<close>; \<open>owns k v\<close> that \<open>v\<close> can be stored for \<open>k\<close>; removing a group
  \<open>g\<close> removes the entities of the keys in it. Operations that fail change nothing.\<close>

locale entity_store =
  fixes I :: "'w \<Rightarrow> bool"
    and ent :: "'w \<Rightarrow> 'k \<Rightarrow> 'v option"
    and Fetch :: "'k \<Rightarrow> ('w, 'v option) go"
    and Upsert :: "'k \<Rightarrow> 'v \<Rightarrow> ('w, unit) go"
    and Drop :: "'g \<Rightarrow> ('w, unit) go"
    and grp :: "'k \<Rightarrow> 'g"
    and owns :: "'k \<Rightarrow> 'v \<Rightarrow> bool"
  assumes fetch: "I w \<Longrightarrow> Fetch k w = (r, w') \<Longrightarrow> I w' \<and> ent w' = ent w \<and> (\<forall>x. r = Inr x \<longrightarrow> x = ent w k)"
    and upsert: "I w \<Longrightarrow> owns k v \<Longrightarrow> Upsert k v w = (t, w') \<Longrightarrow>
      I w' \<and> ent w' = (case t of Inl _ \<Rightarrow> ent w | Inr _ \<Rightarrow> (ent w)(k \<mapsto> v))"
    and remove: "I w \<Longrightarrow> Drop g w = (t, w') \<Longrightarrow>
      I w' \<and> ent w' = (case t of Inl _ \<Rightarrow> ent w | Inr _ \<Rightarrow> (\<lambda>k. if grp k = g then None else ent w k))"
begin

text \<open>What was stored is read back, until it is stored again or removed.\<close>

lemma upsert_fetch:
  assumes "I w" "owns k v" "Upsert k v w = (Inr (), w1)" "Fetch k' w1 = (Inr x, w2)"
  shows "x = (if k' = k then Some v else ent w k')"
  using upsert [OF assms(1-3)] fetch [OF _ assms(4)] by auto

end

section \<open>The embedded back end satisfies the contract\<close>

definition bolt_ent :: "'v bcodec \<Rightarrow> ('g \<Rightarrow> string) \<Rightarrow> ('k \<Rightarrow> 'g) \<Rightarrow> ('k \<Rightarrow> string) \<Rightarrow> buckets \<Rightarrow> 'k \<Rightarrow> 'v option" where
  "bolt_ent C bk grp ky bs k = stored C bs (bk (grp k)) (ky k)"

locale bolt_entity = bolt_store +
  fixes C :: "'v bcodec" and bk :: "'g \<Rightarrow> string" and grp :: "'k \<Rightarrow> 'g" and ky :: "'k \<Rightarrow> string"
  assumes codec: "codec_ok C" and bucket_inj: "bk g = bk h \<Longrightarrow> g = h"
    and key_inj: "grp k = grp j \<Longrightarrow> ky k = ky j \<Longrightarrow> k = j"
begin

abbreviation ents where "ents w \<equiv> bolt_ent C bk grp ky (view (dbState w))"

lemma ent_upsert:
  assumes "upsertKeyOp B C (bk (grp k)) (ky k) v d = (Inr y, d')"
  shows "bolt_ent C bk grp ky (view d') = (bolt_ent C bk grp ky (view d))(k \<mapsto> v)"
  using upsert_stored [OF assms codec] bucket_inj key_inj by (auto simp: bolt_ent_def intro!: HOL.ext)

lemma ent_remove:
  assumes "delBucketOp B (bk g) d = (Inr y, d')"
  shows "bolt_ent C bk grp ky (view d') = (\<lambda>k. if grp k = g then None else bolt_ent C bk grp ky (view d) k)"
  using delBucket_stored [OF assms, of C] bucket_inj by (auto simp: bolt_ent_def intro!: HOL.ext)

lemma entity: "entity_store (\<lambda>_. True) ents (\<lambda>k. db_View B (fetchKeyOp B C (bk (grp k)) (ky k)))
    (\<lambda>k v. db_Update B (upsertKeyOp B C (bk (grp k)) (ky k) v)) (\<lambda>g. db_Update B (delBucketOp B (bk g))) grp owns"
proof (unfold_locales, goal_cases)
  case (1 w k r w')
  from 1(2) show ?case
  proof (cases rule: View_cases)
    case (2 d)
    obtain y d' where "fetchKeyOp B C (bk (grp k)) (ky k) d = (y, d')" by fastforce
    with 2 fetch_stored [of C "bk (grp k)" "ky k" d] show ?thesis by (auto simp: bolt_ent_def)
  qed auto
next
  case (2 w k v t w')
  from 2(3) show ?case by (cases rule: Update_cases) (simp_all add: ent_upsert)
next
  case (3 w g t w')
  from 3(2) show ?case
  proof (cases rule: Update_cases)
    case (2 x d d')
    have "ents w' = (\<lambda>k. if grp k = g then None else ents w k)"
      unfolding 2(5) ent_remove [OF 2(4)] 2(2) ..
    with 2(1) show ?thesis by simp
  qed simp
qed

end

lemma entity_cong:
  assumes "entity_store I ent F U D grp owns" and "\<And>k v. owns k v \<Longrightarrow> U' k v = U k v"
  shows "entity_store I ent F U' D grp owns"
proof (rule entity_store.intro)
  fix w k r w' t v g
  show "I w \<Longrightarrow> F k w = (r, w') \<Longrightarrow> I w' \<and> ent w' = ent w \<and> (\<forall>x. r = Inr x \<longrightarrow> x = ent w k)"
    by (rule entity_store.fetch [OF assms(1)])
  show "I w \<Longrightarrow> owns k v \<Longrightarrow> U' k v w = (t, w') \<Longrightarrow>
      I w' \<and> ent w' = (case t of Inl _ \<Rightarrow> ent w | Inr _ \<Rightarrow> (ent w)(k \<mapsto> v))"
    using entity_store.upsert [OF assms(1), of w k v t w'] assms(2) by simp
  show "I w \<Longrightarrow> D g w = (t, w') \<Longrightarrow>
      I w' \<and> ent w' = (case t of Inl _ \<Rightarrow> ent w | Inr _ \<Rightarrow> (\<lambda>k. if grp k = g then None else ent w k))"
    by (rule entity_store.remove [OF assms(1)])
qed

locale bolt_repos = bolt_store +
  fixes UC :: "user_model bcodec" and LC :: "last_model bcodec" and VC :: "element bcodec" and PC :: "element bcodec"
  assumes codecs: "codec_ok UC" "codec_ok LC" "codec_ok VC" "codec_ok PC"

sublocale bolt_repos \<subseteq> user: bolt_entity B view seqno UC userBucketKey "\<lambda>u. u" "\<lambda>_. userKey"
  by unfold_locales (simp_all add: codecs userBucketKey_def)

sublocale bolt_repos \<subseteq> last: bolt_entity B view seqno LC lastBucketKey "\<lambda>u. u" "\<lambda>_. lastKey"
  by unfold_locales (simp_all add: codecs lastBucketKey_def)

sublocale bolt_repos \<subseteq> vcard: bolt_entity B view seqno VC vCardBucketKey "\<lambda>u. u" "\<lambda>_. vCardKey"
  by unfold_locales (simp_all add: codecs vCardBucketKey_def)

text \<open>Private elements are kept per namespace and user.\<close>

sublocale bolt_repos \<subseteq> priv: bolt_entity B view seqno PC privateBucketKey snd fst
  by unfold_locales (simp_all add: codecs privateBucketKey_def prod_eq_iff)

context bolt_repos
begin

lemma user_store: "entity_store (\<lambda>_. True) user.ents (FetchUser (boltUserRep B UC)) (\<lambda>_. UpsertUser (boltUserRep B UC))
    (DeleteUser (boltUserRep B UC)) (\<lambda>u. u) (\<lambda>u v. usUsername v = u)"
proof (rule entity_cong)
  show "entity_store (\<lambda>_. True) user.ents (FetchUser (boltUserRep B UC))
      (\<lambda>u v. db_Update B (upsertKeyOp B UC (userBucketKey u) userKey v)) (DeleteUser (boltUserRep B UC)) (\<lambda>u. u) (\<lambda>u v. usUsername v = u)"
    using user.entity [where owns = "\<lambda>u v. usUsername v = u"]
    by (simp add: boltUserRep_def bFetchUser_def [abs_def] bDeleteUser_def [abs_def])
qed (simp add: boltUserRep_def bUpsertUser_def)

lemma last_store: "entity_store (\<lambda>_. True) last.ents (FetchLast (boltLastRep B LC)) (\<lambda>_. UpsertLast (boltLastRep B LC))
    (DeleteLast (boltLastRep B LC)) (\<lambda>u. u) (\<lambda>u v. laUsername v = u)"
proof (rule entity_cong)
  show "entity_store (\<lambda>_. True) last.ents (FetchLast (boltLastRep B LC))
      (\<lambda>u v. db_Update B (upsertKeyOp B LC (lastBucketKey u) lastKey v)) (DeleteLast (boltLastRep B LC)) (\<lambda>u. u) (\<lambda>u v. laUsername v = u)"
    using last.entity [where owns = "\<lambda>u v. laUsername v = u"]
    by (simp add: boltLastRep_def bFetchLast_def [abs_def] bDeleteLast_def [abs_def])
qed (simp add: boltLastRep_def bUpsertLast_def)

lemma vcard_store: "entity_store (\<lambda>_. True) vcard.ents (FetchVCard (boltVCardRep B VC)) (\<lambda>u v. UpsertVCard (boltVCardRep B VC) v u)
    (DeleteVCard (boltVCardRep B VC)) (\<lambda>u. u) (\<lambda>_ _. True)"
  using vcard.entity [where owns = "\<lambda>_ _. True"]
  by (simp add: boltVCardRep_def bFetchVCard_def [abs_def] bDeleteVCard_def [abs_def] bUpsertVCard_def [abs_def])

lemma private_store: "entity_store (\<lambda>_. True) priv.ents (\<lambda>k. FetchPrivate (boltPrivateRep B PC) (fst k) (snd k))
    (\<lambda>k v. UpsertPrivate (boltPrivateRep B PC) v (fst k) (snd k)) (DeletePrivates (boltPrivateRep B PC)) snd (\<lambda>_ _. True)"
  using priv.entity [where owns = "\<lambda>_ _. True"]
  by (simp add: boltPrivateRep_def bFetchPrivate_def [abs_def] bDeletePrivates_def [abs_def] bUpsertPrivate_def [abs_def])

end

section \<open>Capabilities\<close>

text \<open>Two different pairs of node and version can share a bucket.\<close>

lemma caps_key_collision: "capsBucketKey n (m @ '':'' @ v) = capsBucketKey (n @ '':'' @ m) v"
  by (simp add: capsBucketKey_def)

lemma caps_key_inject:
  assumes "CHR '':'' \<notin> set v" "CHR '':'' \<notin> set v'" "capsBucketKey n v = capsBucketKey n' v'"
  shows "n = n' \<and> v = v'"
proof -
  have "n @ CHR '':'' # v = n' @ CHR '':'' # v'" using assms(3) by (simp add: capsBucketKey_def)
  from arg_cong [OF this, of rev] have r: "rev v @ CHR '':'' # rev n = rev v' @ CHR '':'' # rev n'" by simp
  from arg_cong [OF r, of "split_on (CHR '':'')"] assms(1,2) have "rev v = rev v'" by (simp add: split_on_append)
  with r show ?thesis by simp
qed

end
