(* ===== verification/Cached_Repos.thy ===== *)
theory Cached_Repos
  imports Cache Entity_Store Block_Store Roster_Store
begin

text \<open>
  The cached repositories (\<^verbatim>\<open>src/pkg/storage/cached\<close>). Each wraps a repository and reads it through the
  cache. \<open>cached_entity\<close> shows once that a repository of entities behind a coherent cache satisfies the
  contract it satisfies without; the accounts, last activity, vCards, private elements and block
  lists are its instances.
\<close>

section \<open>Accounts, last activity, vCards, private elements, capabilities\<close>

definition userNS :: "string \<Rightarrow> string" where "userNS username = ''usr:'' @ username"
definition lastNS :: "string \<Rightarrow> string" where "lastNS username = ''lst:'' @ username"
definition vCardNS :: "string \<Rightarrow> string" where "vCardNS username = ''vc:'' @ username"
definition privateNS :: "string \<Rightarrow> string" where "privateNS username = ''prv:'' @ username"
definition capsNS :: "string \<Rightarrow> string \<Rightarrow> string" where "capsNS node ver = ''caps:'' @ node @ '':'' @ ver"
definition cachedVCardKey :: string where "cachedVCardKey = ''vc''"

definition cachedUserRep :: "'w cache \<Rightarrow> user_model bcodec \<Rightarrow> 'w user_rep \<Rightarrow> 'w user_rep" where
  "cachedUserRep K C R = \<lparr>
     UpsertUser = (\<lambda>user. updateOp K (userNS (usUsername user)) [userKey] (UpsertUser R user)),
     DeleteUser = (\<lambda>u. updateOp K (userNS u) [userKey] (DeleteUser R u)),
     FetchUser = (\<lambda>u. fetchOp K C (userNS u) userKey (FetchUser R u)),
     UserExists = (\<lambda>u. existsOp K (userNS u) userKey (UserExists R u))\<rparr>"

definition cachedLastRep :: "'w cache \<Rightarrow> last_model bcodec \<Rightarrow> 'w last_rep \<Rightarrow> 'w last_rep" where
  "cachedLastRep K C R = \<lparr>
     UpsertLast = (\<lambda>la. updateOp K (lastNS (laUsername la)) [lastKey] (UpsertLast R la)),
     FetchLast = (\<lambda>u. fetchOp K C (lastNS u) lastKey (FetchLast R u)),
     DeleteLast = (\<lambda>u. updateOp K (lastNS u) [lastKey] (DeleteLast R u))\<rparr>"

definition cachedVCardRep :: "'w cache \<Rightarrow> element bcodec \<Rightarrow> 'w vcard_rep \<Rightarrow> 'w vcard_rep" where
  "cachedVCardRep K C R = \<lparr>
     UpsertVCard = (\<lambda>v u. updateOp K (vCardNS u) [cachedVCardKey] (UpsertVCard R v u)),
     FetchVCard = (\<lambda>u. fetchOp K C (vCardNS u) cachedVCardKey (FetchVCard R u)),
     DeleteVCard = (\<lambda>u. updateOp K (vCardNS u) [cachedVCardKey] (DeleteVCard R u))\<rparr>"

definition cachedPrivateRep :: "'w cache \<Rightarrow> element bcodec \<Rightarrow> 'w private_rep \<Rightarrow> 'w private_rep" where
  "cachedPrivateRep K C R = \<lparr>
     FetchPrivate = (\<lambda>n u. fetchOp K C (privateNS u) n (FetchPrivate R n u)),
     UpsertPrivate = (\<lambda>v n u. updateOp K (privateNS u) [n] (UpsertPrivate R v n u)),
     DeletePrivates = (\<lambda>u. updateOp K (privateNS u) [] (DeletePrivates R u))\<rparr>"

definition cachedCapsRep :: "'w cache \<Rightarrow> caps_model bcodec \<Rightarrow> 'w caps_rep \<Rightarrow> 'w caps_rep" where
  "cachedCapsRep K C R = \<lparr>
     UpsertCapabilities = (\<lambda>caps. updateOp K (capsNS (cpNode caps) (cpVer caps)) [capsKey] (UpsertCapabilities R caps)),
     CapabilitiesExist = (\<lambda>n v. existsOp K (capsNS n v) capsKey (CapabilitiesExist R n v)),
     FetchCapabilities = (\<lambda>n v. fetchOp K C (capsNS n v) capsKey (FetchCapabilities R n v))\<rparr>"

section \<open>Block lists\<close>

definition blockListNS :: "string \<Rightarrow> string" where "blockListNS username = ''bl:'' @ username"
definition blockListItemsKey :: string where "blockListItemsKey = ''items''"

text \<open>A list is wrapped into a message of its own for the codec; a nil message is an empty list.\<close>

definition fetch_list :: "'w cache \<Rightarrow> 'a list bcodec \<Rightarrow> string \<Rightarrow> string \<Rightarrow> ('w, 'a list) go \<Rightarrow> ('w, 'a list) go" where
  "fetch_list K C ns key missFn =
     andthen (fetchOp K C ns key (andthen missFn (\<lambda>xs. ret (Some xs)))) (\<lambda>v. ret (case v of None \<Rightarrow> [] | Some xs \<Rightarrow> xs))"

definition cachedBlockListRep :: "'w cache \<Rightarrow> block_item list bcodec \<Rightarrow> 'w block_rep \<Rightarrow> 'w block_rep" where
  "cachedBlockListRep K C R = \<lparr>
     UpsertBlockListItem = (\<lambda>i. updateOp K (blockListNS (biUsername i)) [blockListItemsKey] (UpsertBlockListItem R i)),
     DeleteBlockListItem = (\<lambda>i. updateOp K (blockListNS (biUsername i)) [blockListItemsKey] (DeleteBlockListItem R i)),
     FetchBlockListItems = (\<lambda>u. fetch_list K C (blockListNS u) blockListItemsKey (FetchBlockListItems R u)),
     DeleteBlockListItems = (\<lambda>u. updateOp K (blockListNS u) [] (DeleteBlockListItems R u))\<rparr>"

section \<open>Rosters\<close>

definition rosterVersionKey :: string where "rosterVersionKey = ''ver''"
definition rosterItemsKey :: string where "rosterItemsKey = ''items''"
definition rosterNotificationsKey :: string where "rosterNotificationsKey = ''notifications''"
definition rosterGroupsKey :: string where "rosterGroupsKey = ''groups''"
definition rosterItemsNS :: "string \<Rightarrow> string" where "rosterItemsNS username = ''ros:items:'' @ username"
definition rosterNotificationsNS :: "string \<Rightarrow> string" where "rosterNotificationsNS contact = ''ros:notif:'' @ contact"

text \<open>\<^verbatim>\<open>strings.Join\<close>.\<close>

fun join :: "string \<Rightarrow> string list \<Rightarrow> string" where
  "join sep [] = []"
| "join sep [s] = s"
| "join sep (s # t # ss) = s @ sep @ join sep (t # ss)"

definition rosterGroupsSliceKey :: "string list \<Rightarrow> string" where
  "rosterGroupsSliceKey groups = ''groups:'' @ join ''|'' (sort_slice (<) groups)"

text \<open>The version is stored in 32 bits.\<close>

definition wrap32 :: "int \<Rightarrow> int" where
  "wrap32 i = (i + 2147483648) mod 4294967296 - 2147483648"

record cached_roster_codecs =
  crItem :: "roster_item bcodec"
  crItems :: "roster_item list bcodec"
  crNotif :: "roster_notification bcodec"
  crNotifs :: "roster_notification list bcodec"
  crGroups :: "string list bcodec"
  crVer :: "int bcodec"

definition cachedRosterRep :: "'w cache \<Rightarrow> cached_roster_codecs \<Rightarrow> 'w roster_rep \<Rightarrow> 'w roster_rep" where
  "cachedRosterRep K C R = \<lparr>
     TouchRosterVersion = (\<lambda>u. updateOp K (rosterItemsNS u) [rosterVersionKey] (TouchRosterVersion R u)),
     FetchRosterVersion = (\<lambda>u. andthen (fetchOp K (crVer C) (rosterItemsNS u) rosterVersionKey
         (andthen (FetchRosterVersion R u) (\<lambda>v. ret (Some (wrap32 v))))) (\<lambda>v. ret (case v of None \<Rightarrow> 0 | Some n \<Rightarrow> n))),
     UpsertRosterItem = (\<lambda>ri. updateOp K (rosterItemsNS (riUsername ri)) [] (UpsertRosterItem R ri)),
     DeleteRosterItem = (\<lambda>u j. updateOp K (rosterItemsNS u) [] (DeleteRosterItem R u j)),
     DeleteRosterItems = (\<lambda>u. updateOp K (rosterItemsNS u) [] (DeleteRosterItems R u)),
     FetchRosterItems = (\<lambda>u. fetch_list K (crItems C) (rosterItemsNS u) rosterItemsKey (FetchRosterItems R u)),
     FetchRosterItemsInGroups = (\<lambda>u gs. fetch_list K (crItems C) (rosterItemsNS u) (rosterGroupsSliceKey gs) (FetchRosterItemsInGroups R u gs)),
     FetchRosterItem = (\<lambda>u j. fetchOp K (crItem C) (rosterItemsNS u) j (FetchRosterItem R u j)),
     UpsertRosterNotification = (\<lambda>rn. updateOp K (rosterNotificationsNS (rnContact rn)) [] (UpsertRosterNotification R rn)),
     DeleteRosterNotification = (\<lambda>c j. updateOp K (rosterNotificationsNS c) [] (DeleteRosterNotification R c j)),
     DeleteRosterNotifications = (\<lambda>c. updateOp K (rosterNotificationsNS c) [] (DeleteRosterNotifications R c)),
     FetchRosterNotification = (\<lambda>c j. fetchOp K (crNotif C) (rosterNotificationsNS c) j (FetchRosterNotification R c j)),
     FetchRosterNotifications = (\<lambda>c. fetch_list K (crNotifs C) (rosterNotificationsNS c) rosterNotificationsKey (FetchRosterNotifications R c)),
     FetchRosterGroups = (\<lambda>u. fetch_list K (crGroups C) (rosterItemsNS u) rosterGroupsKey (FetchRosterGroups R u))\<rparr>"

section \<open>Entities behind a coherent cache\<close>

text \<open>The cached bytes of a key decode to its entity.\<close>

definition ent_valid ::
  "'v bcodec \<Rightarrow> ('k \<Rightarrow> string) \<Rightarrow> ('k \<Rightarrow> string) \<Rightarrow> ('k \<Rightarrow> 'v option) \<Rightarrow> string \<Rightarrow> string \<Rightarrow> string \<Rightarrow> bool" where
  "ent_valid C ns ck s n j b \<longleftrightarrow> (\<forall>k. ns k = n \<longrightarrow> ck k = j \<longrightarrow> (\<exists>x. UnmarshalBinary C b = Inr x \<and> s k = Some x))"

locale cached_entity =
  entity_store "\<lambda>_. True" ent Fetch Upsert Drop grp owns + cache_store K cached ent
  for ent :: "'w \<Rightarrow> 'k \<Rightarrow> 'v option" and Fetch Upsert and Drop :: "'g \<Rightarrow> ('w, unit) go" and grp owns K cached +
  fixes C :: "'v bcodec" and ns :: "'k \<Rightarrow> string" and ck :: "'k \<Rightarrow> string" and gns :: "'g \<Rightarrow> string" and gkeys :: "'g \<Rightarrow> string list"
  assumes codec: "codec_ok C" and keys: "ns k = ns j \<Longrightarrow> ck k = ck j \<Longrightarrow> k = j"
    and groups: "ns k = gns (grp k) \<and> (gkeys (grp k) = [] \<or> ck k \<in> set (gkeys (grp k)))"
    and apart: "Fetch k w = (r, w') \<Longrightarrow> cached w' = cached w" "Upsert k v w = (t, w') \<Longrightarrow> cached w' = cached w"
      "Drop g w = (t, w') \<Longrightarrow> cached w' = cached w"
begin

abbreviation co where "co \<equiv> coherent cached ent (ent_valid C ns ck)"

lemma fetch_co:
  assumes "co w" and "fetchOp K C (ns k) (ck k) (Fetch k) w = (r, w')"
  shows "co w' \<and> ent w' = ent w \<and> (\<forall>x. r = Inr x \<longrightarrow> x = ent w k)"
proof -
  have "ent w' = ent w \<and> co w' \<and> (\<forall>x. r = Inr x \<longrightarrow> x = ent w k)"
  proof (rule fetch_coherent [OF assms, where Q = "\<lambda>s x. x = s k"])
    show "reads cached ent (Fetch k)" using fetch apart(1) unfolding reads_def by metis
    show "ent_valid C ns ck s (ns k) (ck k) b" if "Some x = s k" "MarshalBinary C x = Inr b" for s x b
      using that codec keys [of _ k] unfolding ent_valid_def codec_ok_def by metis
  qed (use fetch in \<open>auto simp: ent_valid_def\<close>)
  then show ?thesis by blast
qed

lemma upsert_co:
  assumes "co w" and "owns k v" and "updateOp K (ns k) [ck k] (Upsert k v) w = (t, w')"
  shows "co w' \<and> ent w' = (case t of Inl _ \<Rightarrow> ent w | Inr _ \<Rightarrow> (ent w)(k \<mapsto> v))"
proof -
  have "co w' \<and> (ent w' = ent w \<and> (\<exists>e. t = Inl e) \<or> (\<exists>w1. ent w1 = ent w \<and> Upsert k v w1 = (t, w')))"
  proof (rule update_coherent [OF assms(1,3)])
    fix u y u' n j b
    assume u: "Upsert k v u = (y, u')" and nj: "n \<noteq> ns k \<or> ([ck k] \<noteq> [] \<and> j \<notin> set [ck k])" and val: "ent_valid C ns ck (ent u) n j b"
    from upsert [OF TrueI assms(2) u] have "i \<noteq> k \<Longrightarrow> ent u' i = ent u i" for i by (auto split: sum.splits)
    with nj val show "ent_valid C ns ck (ent u') n j b" unfolding ent_valid_def by force
  qed (rule apart)
  with upsert [OF TrueI assms(2)] show ?thesis by (auto split: sum.splits)
qed

lemma remove_co:
  assumes "co w" and "updateOp K (gns g) (gkeys g) (Drop g) w = (t, w')"
  shows "co w' \<and> ent w' = (case t of Inl _ \<Rightarrow> ent w | Inr _ \<Rightarrow> (\<lambda>k. if grp k = g then None else ent w k))"
proof -
  have "co w' \<and> (ent w' = ent w \<and> (\<exists>e. t = Inl e) \<or> (\<exists>w1. ent w1 = ent w \<and> Drop g w1 = (t, w')))"
  proof (rule update_coherent [OF assms])
    fix u y u' n j b
    assume u: "Drop g u = (y, u')" and nj: "n \<noteq> gns g \<or> (gkeys g \<noteq> [] \<and> j \<notin> set (gkeys g))" and val: "ent_valid C ns ck (ent u) n j b"
    from remove [OF TrueI u] have "grp i \<noteq> g \<Longrightarrow> ent u' i = ent u i" for i by (auto split: sum.splits)
    with nj val groups show "ent_valid C ns ck (ent u') n j b" unfolding ent_valid_def by metis
  qed (rule apart)
  with remove [OF TrueI] show ?thesis by (auto split: sum.splits)
qed

lemma cached_store: "entity_store co ent (\<lambda>k. fetchOp K C (ns k) (ck k) (Fetch k))
    (\<lambda>k v. updateOp K (ns k) [ck k] (Upsert k v)) (\<lambda>g. updateOp K (gns g) (gkeys g) (Drop g)) grp owns"
  by (rule entity_store.intro) (rule fetch_co upsert_co remove_co, assumption+)+

end

section \<open>The embedded back end behind a cache\<close>

lemma db_rest: "dbRest (snd (db_View B f w)) = dbRest w" "dbRest (snd (db_Update B f w)) = dbRest w"
  by (auto simp: db_View_def db_Update_def InTransaction_def on_db_def split: prod.splits sum.splits)

lemma cache_store_less:
  assumes "cache_store K cached behind"
  shows "cache_store K cached (\<lambda>w. f (behind w))"
proof (rule cache_store.intro, goal_cases)
  case (1 ns k w r w')
  from cache_store.get [OF assms 1] show ?case by simp
next
  case (2 ns k v w t w')
  from cache_store.put [OF assms 2] show ?case by simp
next
  case (3 ns ks w t w')
  from cache_store.del [OF assms 3] show ?case by simp
next
  case (4 ns w t w')
  from cache_store.delNS [OF assms 4] show ?case by simp
next
  case (5 ns k w q w')
  from cache_store.has [OF assms 5] show ?case by simp
qed

text \<open>The cache is part of the rest of the server's state.\<close>

locale bolt_cached = bolt_repos B view seqno UC LC VC PC + cache_store K "\<lambda>w. held (dbRest w)" dbState
  for B :: "'d bolt" and view seqno UC LC VC PC and K :: "('d, 'r) db_world cache" and held

sublocale bolt_cached \<subseteq> cuser: cached_entity user.ents "FetchUser (boltUserRep B UC)" "\<lambda>_. UpsertUser (boltUserRep B UC)"
    "DeleteUser (boltUserRep B UC)" "\<lambda>u. u" "\<lambda>u v. usUsername v = u" K "\<lambda>w. held (dbRest w)" UC userNS "\<lambda>_. userKey" userNS "\<lambda>_. [userKey]"
proof (rule cached_entity.intro [OF user_store cache_store_less [OF cache_store_axioms] cached_entity_axioms.intro])
qed (use codecs in \<open>auto simp: userNS_def boltUserRep_def dest!: arg_cong [of _ _ snd] simp: db_rest\<close>)

sublocale bolt_cached \<subseteq> clast: cached_entity last.ents "FetchLast (boltLastRep B LC)" "\<lambda>_. UpsertLast (boltLastRep B LC)"
    "DeleteLast (boltLastRep B LC)" "\<lambda>u. u" "\<lambda>u v. laUsername v = u" K "\<lambda>w. held (dbRest w)" LC lastNS "\<lambda>_. lastKey" lastNS "\<lambda>_. [lastKey]"
proof (rule cached_entity.intro [OF last_store cache_store_less [OF cache_store_axioms] cached_entity_axioms.intro])
qed (use codecs in \<open>auto simp: lastNS_def boltLastRep_def dest!: arg_cong [of _ _ snd] simp: db_rest\<close>)

sublocale bolt_cached \<subseteq> cvcard: cached_entity vcard.ents "FetchVCard (boltVCardRep B VC)" "\<lambda>u v. UpsertVCard (boltVCardRep B VC) v u"
    "DeleteVCard (boltVCardRep B VC)" "\<lambda>u. u" "\<lambda>_ _. True" K "\<lambda>w. held (dbRest w)" VC vCardNS "\<lambda>_. cachedVCardKey" vCardNS "\<lambda>_. [cachedVCardKey]"
proof (rule cached_entity.intro [OF vcard_store cache_store_less [OF cache_store_axioms] cached_entity_axioms.intro])
qed (use codecs in \<open>auto simp: vCardNS_def boltVCardRep_def dest!: arg_cong [of _ _ snd] simp: db_rest\<close>)

text \<open>Removing the private elements of a user drops his whole namespace from the cache.\<close>

sublocale bolt_cached \<subseteq> cpriv: cached_entity priv.ents "\<lambda>k. FetchPrivate (boltPrivateRep B PC) (fst k) (snd k)"
    "\<lambda>k v. UpsertPrivate (boltPrivateRep B PC) v (fst k) (snd k)" "DeletePrivates (boltPrivateRep B PC)" snd "\<lambda>_ _. True"
    K "\<lambda>w. held (dbRest w)" PC "\<lambda>k. privateNS (snd k)" fst privateNS "\<lambda>_. []"
proof (rule cached_entity.intro [OF private_store cache_store_less [OF cache_store_axioms] cached_entity_axioms.intro])
qed (use codecs in \<open>auto simp: privateNS_def boltPrivateRep_def prod_eq_iff dest!: arg_cong [of _ _ snd] simp: db_rest\<close>)

section \<open>Accounts behind a cache\<close>

datatype user_op = UserUpsert user_model | UserDelete string | UserFetch string

fun user_do :: "'w user_rep \<Rightarrow> user_op \<Rightarrow> ('w, user_model option) go" where
  "user_do R (UserUpsert v) = andthen (UpsertUser R v) (\<lambda>_. ret None)"
| "user_do R (UserDelete u) = andthen (DeleteUser R u) (\<lambda>_. ret None)"
| "user_do R (UserFetch u) = FetchUser R u"

fun user_run :: "'w user_rep \<Rightarrow> user_op list \<Rightarrow> 'w \<Rightarrow> (user_op \<times> (go_error + user_model option)) list \<times> 'w" where
  "user_run R [] w = ([], w)"
| "user_run R (x # xs) w = (let (r, w1) = user_do R x w; (t, w2) = user_run R xs w1 in ((x, r) # t, w2))"

text \<open>What a sequence of operations and its results may look like, over the accounts that exist:
  an operation that fails changes nothing, and a fetch that succeeds returns the account.\<close>

fun users_spec :: "(string \<rightharpoonup> user_model) \<Rightarrow> (user_op \<times> (go_error + user_model option)) list \<Rightarrow> (string \<rightharpoonup> user_model) \<Rightarrow> bool" where
  "users_spec m [] m' \<longleftrightarrow> m' = m"
| "users_spec m ((x, Inl e) # t) m' \<longleftrightarrow> users_spec m t m'"
| "users_spec m ((UserUpsert v, Inr r) # t) m' \<longleftrightarrow> users_spec (m(usUsername v \<mapsto> v)) t m'"
| "users_spec m ((UserDelete u, Inr r) # t) m' \<longleftrightarrow> users_spec (m(u := None)) t m'"
| "users_spec m ((UserFetch u, Inr r) # t) m' \<longleftrightarrow> r = m u \<and> users_spec m t m'"

definition users_of :: "user_model bcodec \<Rightarrow> buckets \<Rightarrow> string \<rightharpoonup> user_model" where
  "users_of UC = bolt_ent UC userBucketKey (\<lambda>u. u) (\<lambda>_. userKey)"

definition users_coherent :: "('d \<Rightarrow> buckets) \<Rightarrow> user_model bcodec \<Rightarrow> ('r \<Rightarrow> string \<Rightarrow> string \<Rightarrow> string option) \<Rightarrow> ('d, 'r) db_world \<Rightarrow> bool" where
  "users_coherent view UC held = coherent (\<lambda>w. held (dbRest w)) (\<lambda>w. users_of UC (view (dbState w))) (ent_valid UC userNS (\<lambda>_. userKey))"

context bolt_cached
begin

lemma user_do_co:
  assumes co: "cuser.co w" and run: "user_do (cachedUserRep K UC (boltUserRep B UC)) x w = (r, w')"
  shows "cuser.co w' \<and> (\<forall>t m'. users_spec (user.ents w') t m' \<longrightarrow> users_spec (user.ents w) ((x, r) # t) m')"
proof (cases x)
  case (UserUpsert v)
  obtain y where y: "updateOp K (userNS (usUsername v)) [userKey] (UpsertUser (boltUserRep B UC) v) w = (y, w')"
      "r = (case y of Inl e \<Rightarrow> Inl e | Inr _ \<Rightarrow> Inr None)"
    using run UserUpsert by (auto simp: cachedUserRep_def go_run split: prod.splits sum.splits)
  have "cuser.co w' \<and> user.ents w' = (case y of Inl _ \<Rightarrow> user.ents w | Inr _ \<Rightarrow> (user.ents w)(usUsername v \<mapsto> v))"
    by (rule cuser.upsert_co [OF co _ y(1)]) simp
  with y(2) UserUpsert show ?thesis by (cases y) simp_all
next
  case (UserDelete u)
  obtain y where y: "updateOp K (userNS u) [userKey] (DeleteUser (boltUserRep B UC) u) w = (y, w')"
      "r = (case y of Inl e \<Rightarrow> Inl e | Inr _ \<Rightarrow> Inr None)"
    using run UserDelete by (auto simp: cachedUserRep_def go_run split: prod.splits sum.splits)
  have "(\<lambda>k. if k = u then None else f k) = f(u := None)" for f :: "string \<rightharpoonup> user_model" by auto
  with cuser.remove_co [OF co y(1)]
  have "cuser.co w' \<and> user.ents w' = (case y of Inl _ \<Rightarrow> user.ents w | Inr _ \<Rightarrow> (user.ents w)(u := None))"
    by (simp only:)
  with y(2) UserDelete show ?thesis by (cases y) simp_all
next
  case (UserFetch u)
  with run have "fetchOp K UC (userNS u) userKey (FetchUser (boltUserRep B UC) u) w = (r, w')"
    by (simp add: cachedUserRep_def)
  from cuser.fetch_co [OF co this] UserFetch show ?thesis by (cases r) simp_all
qed

lemma user_run_co:
  "cuser.co w \<Longrightarrow> user_run (cachedUserRep K UC (boltUserRep B UC)) xs w = (t, w') \<Longrightarrow>
     cuser.co w' \<and> users_spec (user.ents w) t (user.ents w')"
proof (induction xs arbitrary: w t)
  case (Cons x xs)
  obtain r w1 where x: "user_do (cachedUserRep K UC (boltUserRep B UC)) x w = (r, w1)" by fastforce
  obtain t1 where xs: "user_run (cachedUserRep K UC (boltUserRep B UC)) xs w1 = (t1, w')" "t = (x, r) # t1"
    using Cons.prems(2) x by (auto split: prod.splits)
  from user_do_co [OF Cons.prems(1) x] Cons.IH [OF _ xs(1)] xs(2) show ?case by blast
qed simp

end

section \<open>A cache in memory\<close>

type_synonym mem_cache = "string \<Rightarrow> string \<Rightarrow> string option"

definition demo_cache :: "(mem_db, mem_cache) db_world cache" where
  "demo_cache = \<lparr>cxGet = (\<lambda>ns k w. (Inr (dbRest w ns k), w)),
     cxPut = (\<lambda>ns k v w. (Inr (), w\<lparr>dbRest := (dbRest w)(ns := (dbRest w ns)(k \<mapsto> v))\<rparr>)),
     cxDel = (\<lambda>ns ks w. (Inr (), w\<lparr>dbRest := (dbRest w)(ns := (\<lambda>k. if k \<in> set ks then None else dbRest w ns k))\<rparr>)),
     cxDelNS = (\<lambda>ns w. (Inr (), w\<lparr>dbRest := (dbRest w)(ns := Map.empty)\<rparr>)),
     cxHasKey = (\<lambda>ns k w. (Inr (dbRest w ns k \<noteq> None), w))\<rparr>"

text \<open>A codec that stores the accounts without credentials.\<close>

definition no_creds :: scram_creds where
  "no_creds = \<lparr>scSha1 = [], scSha256 = [], scSha512 = [], scSha3512 = [], scIterationCount = 0, scSalt = [], scPepperId = []\<rparr>"

definition plain_user :: "string \<Rightarrow> string \<Rightarrow> user_model" where
  "plain_user u salt = \<lparr>usUsername = u, usScram = no_creds\<lparr>scSalt := salt\<rparr>\<rparr>"

definition user_codec :: "user_model bcodec" where
  "user_codec = \<lparr>MarshalBinary = (\<lambda>v. if v = plain_user (usUsername v) (scSalt (usScram v)) \<and> CHR ''/'' \<notin> set (usUsername v)
       then Inr (usUsername v @ ''/'' @ scSalt (usScram v)) else Inl (ErrText ''credentials'')),
     UnmarshalBinary = (\<lambda>s. Inr (plain_user (takeWhile (\<lambda>c. c \<noteq> CHR ''/'') s) (tl (dropWhile (\<lambda>c. c \<noteq> CHR ''/'') s))))\<rparr>"

definition no_codec :: "'a bcodec" where
  "no_codec = \<lparr>MarshalBinary = (\<lambda>_. Inl ErrPanic), UnmarshalBinary = (\<lambda>_. Inl ErrPanic)\<rparr>"

lemma cut_slash:
  assumes "CHR ''/'' \<notin> set n"
  shows "takeWhile (\<lambda>c. c \<noteq> CHR ''/'') (n @ CHR ''/'' # x) = n" "dropWhile (\<lambda>c. c \<noteq> CHR ''/'') (n @ CHR ''/'' # x) = CHR ''/'' # x"
  using assms by (induction n) auto

lemma user_codec_ok: "codec_ok user_codec"
  by (auto simp: codec_ok_def user_codec_def cut_slash split: if_splits)

interpretation demo_cached: bolt_cached mem_bolt mem_view mem_seq user_codec no_codec no_codec no_codec demo_cache "\<lambda>c. c"
  by unfold_locales (rule user_codec_ok | auto simp: codec_ok_def no_codec_def demo_cache_def split: if_splits)+

definition users_cached :: "(mem_db, mem_cache) db_world user_rep" where
  "users_cached = cachedUserRep demo_cache user_codec (boltUserRep mem_bolt user_codec)"

definition cold :: "(mem_db, mem_cache) db_world" where
  "cold = \<lparr>dbState = Map.empty, dbRest = (\<lambda>_. Map.empty)\<rparr>"

definition user_ops :: "user_op list" where
  "user_ops = [UserUpsert (plain_user ''ana'' ''s1''), UserFetch ''ana'', UserUpsert (plain_user ''ana'' ''s2''), UserFetch ''ana'', UserDelete ''bob'']"

text \<open>The repository of a transaction, and what \<^verbatim>\<open>newCacheTx\<close> makes of it.\<close>

definition boltTxUserRep :: "'d bolt \<Rightarrow> user_model bcodec \<Rightarrow> ('d, 'r) db_world user_rep" where
  "boltTxUserRep B C = \<lparr>UpsertUser = (\<lambda>v. on_db (bUpsertUser B C v)), DeleteUser = (\<lambda>u. on_db (bDeleteUser B u)),
     FetchUser = (\<lambda>u. on_db (bFetchUser B C u)), UserExists = (\<lambda>u. on_db (bUserExists B u))\<rparr>"

definition tx_users_cached :: "(mem_db, mem_cache) db_world user_rep" where
  "tx_users_cached = cachedUserRep demo_cache user_codec (boltTxUserRep mem_bolt user_codec)"

section \<open>Properties\<close>

text \<open>
  C17. The cache is transparent: accounts stored, deleted and read one after the other through the cached
  repository of the embedded back end behave as a table of accounts. Every fetch that succeeds, from
  the cache or not, returns the account stored last; an operation that fails leaves the accounts as
  they are; and the cache stays coherent. Nothing is assumed of the cache but that it returns what was
  put: it may forget values and its operations may fail.
\<close>

theorem cache_transparent:
  assumes "bolt_cached B view seqno UC LC VC PC K held" and "users_coherent view UC held w"
    and "user_run (cachedUserRep K UC (boltUserRep B UC)) ops w = (t, w')"
  shows "users_coherent view UC held w' \<and> users_spec (users_of UC (view (dbState w))) t (users_of UC (view (dbState w')))"
  using bolt_cached.user_run_co [OF assms(1) _ assms(3)] assms(2) unfolding users_coherent_def users_of_def by blast

theorem cache_transparent_witness:
  "users_spec Map.empty (fst (user_run users_cached user_ops cold)) (users_of user_codec (mem_view (dbState (snd (user_run users_cached user_ops cold))))) \<and>
   map snd (fst (user_run users_cached user_ops cold)) =
     [Inr None, Inr (Some (plain_user ''ana'' ''s1'')), Inr None, Inr (Some (plain_user ''ana'' ''s2'')), Inl ErrBucketNotFound]"
proof -
  have co: "users_coherent mem_view user_codec (\<lambda>c. c) cold" by (simp add: users_coherent_def coherent_def cold_def)
  have empty: "users_of user_codec (mem_view (dbState cold)) = Map.empty"
    by (auto simp: users_of_def bolt_ent_def cold_def stored_def bucket_of_def mem_view_def)
  obtain t w where run: "user_run users_cached user_ops cold = (t, w)" by fastforce
  have "users_spec Map.empty t (users_of user_codec (mem_view (dbState w)))"
    using cache_transparent [OF demo_cached.bolt_cached_axioms co run [unfolded users_cached_def]] empty by simp
  moreover have "map snd (fst (user_run users_cached user_ops cold)) =
     [Inr None, Inr (Some (plain_user ''ana'' ''s1'')), Inr None, Inr (Some (plain_user ''ana'' ''s2'')), Inl ErrBucketNotFound]"
    by code_simp
  ultimately show ?thesis using run by simp
qed

text \<open>
  The cache is invalidated before the update and not after it, and transactions read through the
  cache. A fetch of another session between the invalidation and the update leaves the old account in
  the cache, and a fetch inside a transaction that is rolled back leaves an account there that was never
  stored: later fetches return it, while the repository holds another or none.
\<close>

theorem stale_account:
  "let R = boltUserRep mem_bolt user_codec; old = plain_user ''ana'' ''s1''; new = plain_user ''ana'' ''s2'';
       raced = snd (andthen (UpsertUser users_cached old) (\<lambda>_. andthen (invalidate demo_cache (userNS ''ana'') [userKey]) (\<lambda>_.
         andthen (FetchUser users_cached ''ana'') (\<lambda>_. UpsertUser R new))) cold);
       rolled = snd (InTransaction mem_bolt (andthen (UpsertUser tx_users_cached new) (\<lambda>_.
         andthen (FetchUser tx_users_cached ''ana'') (\<lambda>_. throw (ErrText ''rolled back'')))) cold)
   in fst (FetchUser users_cached ''ana'' raced) = Inr (Some old) \<and> fst (FetchUser R ''ana'' raced) = Inr (Some new) \<and>
      fst (FetchUser users_cached ''ana'' rolled) = Inr (Some new) \<and> fst (FetchUser R ''ana'' rolled) = Inr None"
  by code_simp

section \<open>Roster keys\<close>

text \<open>The cached roster keeps items, one per contact address, in the namespace that also holds the list
  of items, its version and its groups: an item for the address \<open>items\<close> is read back as the list, and
  two lists of groups can share a key.\<close>

lemma roster_keys_collide:
  "FetchRosterItem (cachedRosterRep K C R) u ''items'' = fetchOp K (crItem C) (rosterItemsNS u) rosterItemsKey (FetchRosterItem R u ''items'')"
  "rosterGroupsSliceKey [''a'', ''b|c''] = rosterGroupsSliceKey [''a|b'', ''c'']"
proof -
  show "FetchRosterItem (cachedRosterRep K C R) u ''items'' = fetchOp K (crItem C) (rosterItemsNS u) rosterItemsKey (FetchRosterItem R u ''items'')"
    by (simp add: cachedRosterRep_def rosterItemsKey_def)
  show "rosterGroupsSliceKey [''a'', ''b|c''] = rosterGroupsSliceKey [''a|b'', ''c'']" by code_simp
qed

end
