(* ===== verification/Parser.thy ===== *)
theory Parser
  imports Xmpp
begin

text \<open>
  The stream parser (\<^verbatim>\<open>src/pkg/parser/parser.go\<close>). It turns the raw tokens of the standard library's
  XML decoder into elements, one per call, and bounds how many bytes an element may take.
  \<^item> The decoder is the list of tokens it still has to deliver, each with the input offset after
    it, and the error it reports when there are no more.
  \<^item> An element under construction is the element its builder would give.
  \<^item> An index outside the stack panics. After an unexpected end element the stack and its index
    disagree: \<open>parse_after_error_panics\<close>.
\<close>

section \<open>Tokens\<close>

datatype xname = XName (xSpace: string) (xLocal: string)

datatype xtoken =
    StartElement xname "(xname \<times> string) list"
  | EndElement xname
  | CharData string
  | OtherToken \<comment> \<open>comments, directives and processing instructions\<close>

datatype parse_error =
    ErrTooLargeStanza
  | ErrClosedByPeer
  | ErrUnexpectedEnd string
  | ErrReadLimitExceeded
  | SyntaxError string
  | NetError bool string \<comment> \<open>whether it is a timeout\<close>
  | ParserPanic
  | OtherError string

datatype parsing_mode = DefaultMode | SocketStream

record decoder =
  dTokens :: "(xtoken \<times> int) list"
  dOffset :: int
  dErr :: parse_error

section \<open>The parser\<close>

record parser =
  pMode :: parsing_mode
  pNext :: "element option"
  pStack :: "element list"
  pIndex :: int
  pInElement :: bool
  pLastOffset :: int
  pMaxStanzaSize :: int

definition rootElementIndex :: int where "rootElementIndex = - 1"
definition streamName :: string where "streamName = ''stream''"

definition newParser :: "parsing_mode \<Rightarrow> int \<Rightarrow> parser" where
  "newParser mode maxStanzaSize =
     \<lparr>pMode = mode, pNext = None, pStack = [], pIndex = rootElementIndex, pInElement = False, pLastOffset = 0,
      pMaxStanzaSize = maxStanzaSize\<rparr>"

definition xmlName :: "string \<Rightarrow> string \<Rightarrow> string" where
  "xmlName space local = (if length space > 0 then space @ '':'' @ local else local)"

abbreviation qname :: "xname \<Rightarrow> string" where
  "qname n \<equiv> xmlName (xSpace n) (xLocal n)"

definition startElement :: "xname \<Rightarrow> (xname \<times> string) list \<Rightarrow> parser \<Rightarrow> parser" where
  "startElement n as p =
     (let st = pStack p @ [Element (qname n) (map (\<lambda>(a, v). (qname a, v)) as) [] []]
      in p\<lparr>pStack := st, pIndex := int (length st) - 1, pInElement := True\<rparr>)"

text \<open>Reading and writing the stack at the index.\<close>

definition in_stack :: "parser \<Rightarrow> bool" where
  "in_stack p \<longleftrightarrow> 0 \<le> pIndex p \<and> pIndex p < int (length (pStack p))"

definition with_text :: "element \<Rightarrow> string \<Rightarrow> element" where
  "with_text e t = Element (Name e) (Attrs e) t (AllChildren e)"

definition setElementText :: "string \<Rightarrow> parser \<Rightarrow> parse_error + parser" where
  "setElementText t p =
     (if \<not> in_stack p then Inl ParserPanic
      else let i = nat (pIndex p) in Inr (p\<lparr>pStack := (pStack p)[i := with_text (pStack p ! i) t]\<rparr>))"

definition closeElement :: "string \<Rightarrow> parser \<Rightarrow> (parse_error + unit) \<times> parser" where
  "closeElement name p =
     (if pIndex p = rootElementIndex then (Inl (ErrUnexpectedEnd name), p)
      else if \<not> in_stack p then (Inl ParserPanic, p)
      else
        let i = nat (pIndex p); element = pStack p ! i; p1 = p\<lparr>pStack := take i (pStack p)\<rparr>
        in if name \<noteq> Name element then (Inl (ErrUnexpectedEnd name), p1)
           else
             let p2 = p1\<lparr>pIndex := int (length (pStack p1)) - 1\<rparr>;
                 p3 = (if pIndex p2 = rootElementIndex then p2\<lparr>pNext := Some element\<rparr>
                       else let j = nat (pIndex p2) in p2\<lparr>pStack := (pStack p2)[j := with_child (pStack p2 ! j) element]\<rparr>)
             in (Inr (), p3\<lparr>pInElement := False\<rparr>))"

definition is_stream_name :: "parser \<Rightarrow> xname \<Rightarrow> bool" where
  "is_stream_name p n \<longleftrightarrow> pMode p = SocketStream \<and> xLocal n = streamName \<and> xSpace n = streamName"

text \<open>What one token does: the loop goes on with a parser, or \<^verbatim>\<open>Parse\<close> returns.\<close>

datatype parse_step = Continue parser | Finish parser | Fail parse_error parser

definition parse_token :: "xtoken \<Rightarrow> parser \<Rightarrow> parse_step" where
  "parse_token t p =
     (case t of
        StartElement n as \<Rightarrow>
          let p1 = startElement n as p
          in if is_stream_name p n then
               (case closeElement (qname n) p1 of (Inl e, p2) \<Rightarrow> Fail e p2 | (Inr _, p2) \<Rightarrow> Finish p2)
             else Continue p1
      | CharData s \<Rightarrow>
          if pInElement p then (case setElementText s p of Inl e \<Rightarrow> Fail e p | Inr p1 \<Rightarrow> Continue p1)
          else Continue p
      | EndElement n \<Rightarrow>
          if is_stream_name p n then Fail ErrClosedByPeer p
          else (case closeElement (qname n) p of
                  (Inl e, p1) \<Rightarrow> Fail e p1
                | (Inr _, p1) \<Rightarrow> if pIndex p1 = rootElementIndex then Finish p1 else Continue p1)
      | OtherToken \<Rightarrow> Continue p)"

fun parse_tokens ::
  "(xtoken \<times> int) list \<Rightarrow> int \<Rightarrow> parse_error \<Rightarrow> parser \<Rightarrow> (parse_error + element option) \<times> parser \<times> decoder" where
  "parse_tokens [] off e p = (Inl e, p, \<lparr>dTokens = [], dOffset = off, dErr = e\<rparr>)"
| "parse_tokens ((t, o1) # ts) off e p =
     (let d = \<lparr>dTokens = ts, dOffset = o1, dErr = e\<rparr>
      in if pMaxStanzaSize p > 0 \<and> o1 - pLastOffset p > pMaxStanzaSize p then (Inl ErrTooLargeStanza, p, d)
         else case parse_token t p of
                Continue p1 \<Rightarrow> parse_tokens ts o1 e p1
              | Finish p1 \<Rightarrow> (Inr (pNext p1), p1\<lparr>pLastOffset := o1, pNext := None\<rparr>, d)
              | Fail err p1 \<Rightarrow> (Inl err, p1, d))"

definition Parse :: "parser \<times> decoder \<Rightarrow> (parse_error + element option) \<times> parser \<times> decoder" where
  "Parse = (\<lambda>(p, d). parse_tokens (dTokens d) (dOffset d) (dErr d) p)"

section \<open>The stack\<close>

definition parser_ok :: "parser \<Rightarrow> bool" where
  "parser_ok p \<longleftrightarrow> pIndex p = int (length (pStack p)) - 1 \<and> (pInElement p \<longrightarrow> pStack p \<noteq> [])"

lemma parser_ok_new [simp]: "parser_ok (newParser m n)"
  by (simp add: parser_ok_def newParser_def rootElementIndex_def)

lemma parser_ok_root: "parser_ok p \<Longrightarrow> pIndex p = rootElementIndex \<longleftrightarrow> pStack p = []"
  by (auto simp: parser_ok_def rootElementIndex_def)

lemma in_stack_iff: "parser_ok p \<Longrightarrow> in_stack p \<longleftrightarrow> pStack p \<noteq> []"
  by (auto simp: parser_ok_def in_stack_def)

lemma nat_index: "parser_ok p \<Longrightarrow> nat (pIndex p) = length (pStack p) - 1"
  by (simp add: parser_ok_def)

lemma startElement_ok: "parser_ok (startElement n as p)"
  by (simp add: parser_ok_def startElement_def Let_def)

lemma setElementText_ok:
  assumes "parser_ok p" "pInElement p"
  shows "\<exists>p'. setElementText t p = Inr p' \<and> parser_ok p'"
  using assms by (auto simp: setElementText_def in_stack_iff Let_def) (auto simp: parser_ok_def)

lemma closeElement_ok:
  assumes "parser_ok p" and "closeElement name p = (r, p')"
  shows "r \<noteq> Inl ParserPanic" and "r = Inr () \<Longrightarrow> parser_ok p'"
  using assms in_stack_iff [OF assms(1)] parser_ok_root [OF assms(1)]
  by (auto simp: closeElement_def Let_def nat_index parser_ok_def rootElementIndex_def split: if_splits)

lemma parse_token_ok:
  assumes "parser_ok p"
  shows "case parse_token t p of Continue q \<Rightarrow> parser_ok q | Finish q \<Rightarrow> parser_ok q | Fail e q \<Rightarrow> e \<noteq> ParserPanic"
proof (cases t)
  case (StartElement n as)
  then show ?thesis
    using closeElement_ok [OF startElement_ok [of n as p], of "qname n"]
    by (auto simp: parse_token_def Let_def startElement_ok split: prod.splits sum.splits)
next
  case (EndElement n)
  then show ?thesis
    using closeElement_ok [OF assms, of "qname n"] by (auto simp: parse_token_def split: prod.splits sum.splits)
next
  case (CharData s)
  then show ?thesis
    using setElementText_ok [OF assms, of s] assms by (auto simp: parse_token_def split: sum.splits)
qed (simp add: parse_token_def assms)

lemma parse_tokens_ok:
  "parser_ok p \<Longrightarrow> e \<noteq> ParserPanic \<Longrightarrow> parse_tokens ts off e p = (r, p', d) \<Longrightarrow>
     r \<noteq> Inl ParserPanic \<and> ((\<exists>x. r = Inr x) \<longrightarrow> parser_ok p')"
proof (induction ts off e p arbitrary: r p' d rule: parse_tokens.induct)
  case (2 t o1 ts off e p)
  show ?case
  proof (cases "parse_token t p")
    case (Continue q)
    with parse_token_ok [OF 2(2), of t] have "parser_ok q" by simp
    with 2(1) [OF refl _ Continue] 2(3,4) Continue show ?thesis by (auto simp: Let_def split: if_splits)
  next
    case (Finish q)
    with parse_token_ok [OF 2(2), of t] 2(4) show ?thesis by (auto simp: Let_def parser_ok_def split: if_splits)
  next
    case (Fail x q)
    with parse_token_ok [OF 2(2), of t] 2(4) show ?thesis by (auto simp: Let_def split: if_splits)
  qed
qed auto

section \<open>Parsing the tokens of an element\<close>

text \<open>The tokens that spell an element, with a way \<open>nm\<close> to write names; no element inside is the
  stream header, which ends an element on a socket.\<close>

fun spell :: "(string \<Rightarrow> xname) \<Rightarrow> element \<Rightarrow> xtoken list" where
  "spell nm (Element n as t cs) =
     StartElement (nm n) (map (\<lambda>(a, v). (nm a, v)) as) # (if t = [] then [] else [CharData t]) @
       concat (map (spell nm) cs) @ [EndElement (nm n)]"

definition open_tokens :: "(string \<Rightarrow> xname) \<Rightarrow> element \<Rightarrow> xtoken list" where
  "open_tokens nm e = StartElement (nm (Name e)) (map (\<lambda>(a, v). (nm a, v)) (Attrs e)) #
     (if Text e = [] then [] else [CharData (Text e)]) @ concat (map (spell nm) (AllChildren e))"

lemma spell_open: "spell nm e = open_tokens nm e @ [EndElement (nm (Name e))]"
  by (cases e) (simp add: open_tokens_def)

fun plain :: "(string \<Rightarrow> xname) \<Rightarrow> element \<Rightarrow> bool" where
  "plain nm (Element n as t cs) \<longleftrightarrow> nm n \<noteq> XName streamName streamName \<and> list_all (plain nm) cs"

text \<open>Tokens that do not finish an element.\<close>

fun cont :: "xtoken list \<Rightarrow> parser \<Rightarrow> parser option" where
  "cont [] p = Some p"
| "cont (t # ts) p = (case parse_token t p of Continue q \<Rightarrow> cont ts q | _ \<Rightarrow> None)"

lemma cont_append: "cont (xs @ ys) p = Option.bind (cont xs p) (cont ys)"
  by (induction xs arbitrary: p) (auto split: parse_step.split)

lemma closeElement_top:
  assumes "parser_ok p" and "pStack p = st @ [x]" and "st \<noteq> []"
  shows "closeElement (Name x) p = (Inr (), p\<lparr>pStack := butlast st @ [with_child (last st) x], pIndex := int (length st) - 1, pInElement := False\<rparr>)"
proof -
  have "st[length st - Suc 0 := y] = butlast st @ [y]" for y
    using assms(3) by (cases st rule: rev_cases) auto
  moreover have "nat (int (length st) - 1) = length st - Suc 0" by simp
  ultimately show ?thesis
    using assms by (simp add: closeElement_def parser_ok_def rootElementIndex_def in_stack_def Let_def last_conv_nth)
qed

definition write_text :: "element \<Rightarrow> string \<Rightarrow> element" where
  "write_text e t = (if t = [] then e else with_text e t)"

lemma cont_text:
  assumes "parser_ok p" and "pStack p = st @ [x]" and "pInElement p"
  shows "cont (if t = [] then [] else [CharData t]) p = Some (p\<lparr>pStack := st @ [write_text x t]\<rparr>)"
  using assms by (simp add: write_text_def parse_token_def setElementText_def parser_ok_def in_stack_def Let_def)

definition add_children :: "element \<Rightarrow> element list \<Rightarrow> element" where
  "add_children e cs = fold (\<lambda>c e. with_child e c) cs e"

lemma add_children_eq: "add_children (Element n as t xs) cs = Element n as t (xs @ cs)"
  by (induction cs arbitrary: xs) (auto simp: add_children_def with_child_def)

text \<open>Inside an open element, the tokens of a child append it.\<close>

definition appends :: "(string \<Rightarrow> xname) \<Rightarrow> element \<Rightarrow> bool" where
  "appends nm e \<longleftrightarrow> (\<forall>p st x. parser_ok p \<longrightarrow> pStack p = st @ [x] \<longrightarrow>
     cont (spell nm e) p = Some (p\<lparr>pStack := st @ [with_child x e], pInElement := False\<rparr>))"

lemma cont_children:
  assumes "list_all (appends nm) ds" and "parser_ok q" and "pStack q = sq @ [y]"
  shows "cont (concat (map (spell nm) ds)) q = Some (q\<lparr>pStack := sq @ [add_children y ds], pInElement := pInElement q \<and> ds = []\<rparr>)"
  using assms
proof (induction ds arbitrary: q y)
  case Nil
  then show ?case by (simp add: add_children_def)
next
  case (Cons d ds)
  let ?q = "q\<lparr>pStack := sq @ [with_child y d], pInElement := False\<rparr>"
  have "cont (spell nm d) q = Some ?q" using Cons.prems by (simp add: appends_def)
  moreover have "parser_ok ?q" using Cons.prems by (simp add: parser_ok_def)
  ultimately show ?case using Cons.IH [of ?q "with_child y d"] Cons.prems by (simp add: cont_append add_children_def)
qed

lemma not_stream_name: "n \<noteq> XName streamName streamName \<Longrightarrow> \<not> is_stream_name p n"
  by (cases n) (auto simp: is_stream_name_def)

text \<open>The tokens of an element up to its end token leave it on the stack.\<close>

lemma cont_open:
  assumes nm: "\<And>s. qname (nm s) = s" and no: "nm n \<noteq> XName streamName streamName" and cs: "list_all (appends nm) cs" and ok: "parser_ok p"
  shows "cont (open_tokens nm (Element n as t cs)) p =
    Some (p\<lparr>pStack := pStack p @ [Element n as t cs], pIndex := int (length (pStack p)), pInElement := cs = []\<rparr>)"
proof -
  let ?o = "Element n as [] []" and ?y = "write_text (Element n as [] []) t"
  have attrs: "map ((\<lambda>(a, v). (qname a, v)) \<circ> (\<lambda>(a, v). (nm a, v))) as = as" by (simp add: nm comp_def split_beta)
  let ?p1 = "p\<lparr>pStack := pStack p @ [?o], pIndex := int (length (pStack p)), pInElement := True\<rparr>"
  have start: "parse_token (StartElement (nm n) (map (\<lambda>(a, v). (nm a, v)) as)) p = Continue ?p1"
    using attrs by (simp add: parse_token_def Let_def startElement_def nm not_stream_name [OF no])
  let ?p2 = "?p1\<lparr>pStack := pStack p @ [?y]\<rparr>"
  have t2: "cont (if t = [] then [] else [CharData t]) ?p1 = Some ?p2"
    by (rule cont_text) (simp_all add: parser_ok_def)
  have "cont (concat (map (spell nm) cs)) ?p2 = Some (?p2\<lparr>pStack := pStack p @ [add_children ?y cs], pInElement := pInElement ?p2 \<and> cs = []\<rparr>)"
    by (rule cont_children [OF cs]) (simp_all add: parser_ok_def)
  moreover have "add_children ?y cs = Element n as t cs"
    by (simp add: write_text_def with_text_def add_children_eq)
  ultimately show ?thesis using start t2 unfolding open_tokens_def element.sel by (simp add: cont_append split del: if_split)
qed

lemma spell_appends:
  assumes nm: "\<And>s. qname (nm s) = s"
  shows "plain nm e \<Longrightarrow> appends nm e"
proof (induction e)
  case (Element n as t cs)
  from Element have cs: "list_all (appends nm) cs" and no: "nm n \<noteq> XName streamName streamName" by (auto simp: list_all_iff)
  show ?case unfolding appends_def
  proof (intro allI impI)
    fix p st x assume ok: "parser_ok p" and st: "pStack p = st @ [x]"
    let ?e = "Element n as t cs"
    let ?q = "p\<lparr>pStack := pStack p @ [?e], pIndex := int (length (pStack p)), pInElement := cs = []\<rparr>"
    have "closeElement n ?q = (Inr (), ?q\<lparr>pStack := butlast (pStack p) @ [with_child (last (pStack p)) ?e], pIndex := int (length (pStack p)) - 1, pInElement := False\<rparr>)"
      using closeElement_top [of ?q "pStack p" ?e] st by (simp add: parser_ok_def)
    then have "parse_token (EndElement (nm n)) ?q = Continue (p\<lparr>pStack := st @ [with_child x ?e], pInElement := False\<rparr>)"
      using ok st by (simp add: parse_token_def nm rootElementIndex_def parser_ok_def not_stream_name [OF no])
    with cont_open [OF nm no cs ok, of as t]
    show "cont (spell nm ?e) p = Some (p\<lparr>pStack := st @ [with_child x ?e], pInElement := False\<rparr>)"
      by (simp add: spell_open cont_append)
  qed
qed

section \<open>Offsets\<close>

lemma closeElement_same:
  "pLastOffset (snd (closeElement n p)) = pLastOffset p \<and> pMaxStanzaSize (snd (closeElement n p)) = pMaxStanzaSize p"
  by (simp add: closeElement_def Let_def)

lemma parse_token_same:
  "parse_token t p = Continue q \<Longrightarrow> pLastOffset q = pLastOffset p \<and> pMaxStanzaSize q = pMaxStanzaSize p"
proof (cases t)
  case (EndElement n)
  moreover assume "parse_token t p = Continue q"
  ultimately show ?thesis
    using closeElement_same [of "qname n" p] by (auto simp: parse_token_def split: if_splits prod.splits sum.splits)
qed (auto simp: parse_token_def startElement_def setElementText_def Let_def split: if_splits sum.splits prod.splits)

lemma parse_token_finish:
  assumes "parse_token t p = Finish q"
  shows "pMaxStanzaSize q = pMaxStanzaSize p"
proof (cases t)
  case (StartElement n as)
  with assms closeElement_same [of "qname n" "startElement n as p"] show ?thesis
    by (auto simp: parse_token_def Let_def split: if_splits prod.splits sum.splits) (simp add: startElement_def)
next
  case (EndElement n)
  with assms closeElement_same [of "qname n" p] show ?thesis
    by (auto simp: parse_token_def split: if_splits prod.splits sum.splits)
qed (use assms in \<open>auto simp: parse_token_def split: if_splits sum.splits\<close>)

lemma parse_tokens_cont:
  "cont (map fst ts) p = Some p' \<Longrightarrow> (\<And>o1. o1 \<in> snd ` set ts \<Longrightarrow> pMaxStanzaSize p > 0 \<Longrightarrow> o1 - pLastOffset p \<le> pMaxStanzaSize p) \<Longrightarrow>
     parse_tokens (ts @ rest) off e p = parse_tokens rest (if ts = [] then off else snd (last ts)) e p' \<and>
     pLastOffset p' = pLastOffset p \<and> pMaxStanzaSize p' = pMaxStanzaSize p"
proof (induction ts arbitrary: p off)
  case (Cons x ts)
  obtain t o1 where x: "x = (t, o1)" by fastforce
  with Cons.prems(1) obtain q where q: "parse_token t p = Continue q" "cont (map fst ts) q = Some p'"
    by (auto split: parse_step.splits)
  have same: "pLastOffset q = pLastOffset p" "pMaxStanzaSize q = pMaxStanzaSize p" using parse_token_same [OF q(1)] by simp_all
  have "\<not> (0 < pMaxStanzaSize p \<and> pMaxStanzaSize p < o1 - pLastOffset p)" using Cons.prems(2) [of o1] x by force
  then have "parse_tokens ((x # ts) @ rest) off e p = parse_tokens (ts @ rest) o1 e q" by (auto simp: x q(1) Let_def)
  moreover have "o2 - pLastOffset q \<le> pMaxStanzaSize q" if "o2 \<in> snd ` set ts" "pMaxStanzaSize q > 0" for o2
    using Cons.prems(2) [of o2] that same by auto
  ultimately show ?case using Cons.IH [OF q(2), of o1] same x by auto
qed auto

section \<open>Properties\<close>

lemma root_spell:
  assumes nm: "\<And>s. qname (nm s) = s" and e: "plain nm e" and ok: "parser_ok p" and root: "pStack p = []"
  shows "\<exists>q. cont (open_tokens nm e) p = Some q \<and> parse_token (EndElement (nm (Name e))) q =
    Finish (p\<lparr>pNext := Some e, pInElement := False\<rparr>)"
proof (cases e)
  case (Element n as t cs)
  with e have cs: "list_all (appends nm) cs" and no: "nm n \<noteq> XName streamName streamName"
    using spell_appends [OF nm] by (auto simp: list_all_iff)
  have "parse_token (EndElement (nm n)) (p\<lparr>pStack := pStack p @ [e], pIndex := int (length (pStack p)), pInElement := cs = []\<rparr>) =
      Finish (p\<lparr>pNext := Some e, pInElement := False\<rparr>)"
    using ok root Element
    by (simp add: parse_token_def nm not_stream_name [OF no] closeElement_def rootElementIndex_def in_stack_def Let_def parser_ok_def)
  with cont_open [OF nm no cs ok, of as t] Element show ?thesis by simp
qed

text \<open>
  C13. What is written is read back: from the tokens that spell an element, \<^verbatim>\<open>Parse\<close> returns that element,
  whatever its depth, and leaves the parser and the rest of the input ready for the next one. Names may be
  spelt with or without a prefix; the offsets must respect the size limit, and the stream header is not
  used as an element.
\<close>

theorem parse_spelled:
  assumes "\<forall>s. xmlName (xSpace (nm s)) (xLocal (nm s)) = s" and "plain nm e" and "parser_ok p" and "pStack p = []"
    and "map fst ts = spell nm e" and "\<forall>o1 \<in> snd ` set ts. pMaxStanzaSize p > 0 \<longrightarrow> o1 - pLastOffset p \<le> pMaxStanzaSize p"
  shows "Parse (p, \<lparr>dTokens = ts @ rest, dOffset = off, dErr = err\<rparr>) =
    (Inr (Some e), p\<lparr>pNext := None, pInElement := False, pLastOffset := snd (last ts)\<rparr>, \<lparr>dTokens = rest, dOffset = snd (last ts), dErr = err\<rparr>)"
proof -
  from root_spell [of nm e p] assms(1-4) obtain q where q: "cont (open_tokens nm e) p = Some q"
    "parse_token (EndElement (nm (Name e))) q = Finish (p\<lparr>pNext := Some e, pInElement := False\<rparr>)" by blast
  from assms(5) have "ts \<noteq> []" by (auto simp: spell_open)
  then obtain us t o1 where ts: "ts = us @ [(t, o1)]" by (metis append_butlast_last_id surj_pair)
  with assms(5) have us: "map fst us = open_tokens nm e" "t = EndElement (nm (Name e))" by (simp_all add: spell_open)
  have same: "parse_tokens (us @ (t, o1) # rest) off err p = parse_tokens ((t, o1) # rest) (if us = [] then off else snd (last us)) err q"
      "pLastOffset q = pLastOffset p" "pMaxStanzaSize q = pMaxStanzaSize p"
    using parse_tokens_cont [of us p q "(t, o1) # rest" off err] us(1) q(1) assms(6) ts by auto
  have "\<not> (0 < pMaxStanzaSize q \<and> pMaxStanzaSize q < o1 - pLastOffset q)" using assms(6) ts same by force
  then show ?thesis using same(1) q(2) us(2) by (auto simp: Parse_def ts Let_def)
qed

theorem parse_spelled_witness:
  "Parse (newParser SocketStream 100, \<lparr>dTokens = [(StartElement (XName [] ''iq'') [(XName [] ''id'', ''1'')], 11), (StartElement (XName [] ''ping'') [], 17),
     (CharData ''x'', 18), (EndElement (XName [] ''ping''), 25), (EndElement (XName [] ''iq''), 30), (CharData ''y'', 31)], dOffset = 0, dErr = SyntaxError ''EOF''\<rparr>) =
   (Inr (Some (Element ''iq'' [(''id'', ''1'')] [] [Element ''ping'' [] ''x'' []])), (newParser SocketStream 100)\<lparr>pLastOffset := 30\<rparr>,
    \<lparr>dTokens = [(CharData ''y'', 31)], dOffset = 30, dErr = SyntaxError ''EOF''\<rparr>)"
  using parse_spelled [of "XName []" "Element ''iq'' [(''id'', ''1'')] [] [Element ''ping'' [] ''x'' []]" "newParser SocketStream 100"
    "[(StartElement (XName [] ''iq'') [(XName [] ''id'', ''1'')], 11), (StartElement (XName [] ''ping'') [], 17),
      (CharData ''x'', 18), (EndElement (XName [] ''ping''), 25), (EndElement (XName [] ''iq''), 30)]" "[(CharData ''y'', 31)]" 0 "SyntaxError ''EOF''"]
  by (simp add: xmlName_def newParser_def streamName_def parser_ok_def rootElementIndex_def)

text \<open>
  The size limit holds: with a limit set, an element that \<^verbatim>\<open>Parse\<close> returns took at most that many bytes
  since the end of the previous one, and the next one is counted from there.
\<close>

theorem parse_within_limit:
  assumes "Parse (p, d) = (Inr x, p', d')" and "pMaxStanzaSize p > 0"
  shows "dOffset d' - pLastOffset p \<le> pMaxStanzaSize p \<and> pLastOffset p' = dOffset d' \<and> pMaxStanzaSize p' = pMaxStanzaSize p"
proof -
  have "parse_tokens ts off e p = (Inr x, p', d') \<Longrightarrow> pMaxStanzaSize p > 0 \<Longrightarrow>
     dOffset d' - pLastOffset p \<le> pMaxStanzaSize p \<and> pLastOffset p' = dOffset d' \<and> pMaxStanzaSize p' = pMaxStanzaSize p" for ts off e
  proof (induction ts off e p rule: parse_tokens.induct)
    case (2 t o1 ts off e p)
    have ok: "\<not> pMaxStanzaSize p < o1 - pLastOffset p" using 2(2,3) by (auto simp: Let_def split: if_splits)
    show ?case
    proof (cases "parse_token t p")
      case (Continue q)
      have "parse_tokens ts o1 e q = (Inr x, p', d')" using 2(2) ok Continue by (auto simp: Let_def split: if_splits)
      from 2(1) [OF refl _ Continue this] ok parse_token_same [OF Continue] 2(3) show ?thesis by auto
    next
      case (Finish q)
      moreover have "pMaxStanzaSize q = pMaxStanzaSize p"
        by (rule parse_token_finish [OF Finish])
      ultimately show ?thesis using 2(2) ok by (auto simp: Let_def split: if_splits)
    next
      case (Fail err q)
      with 2(2) show ?thesis by (auto simp: Let_def split: if_splits)
    qed
  qed simp
  with assms show ?thesis by (simp add: Parse_def)
qed

theorem parse_within_limit_witness:
  "let p = newParser SocketStream 40; d = \<lparr>dTokens = [(StartElement (XName [] ''a'') [], 30), (EndElement (XName [] ''a''), 40), (OtherToken, 90)],
         dOffset = 0, dErr = NetError True ''timeout''\<rparr>
   in fst (Parse (p, d)) = Inr (Some (Element ''a'' [] [] [])) \<and> dOffset (snd (snd (Parse (p, d)))) \<le> 40 \<and>
      fst (Parse (snd (Parse (p, d)))) = Inl ErrTooLargeStanza"
proof -
  let ?p = "newParser SocketStream 40"
  let ?d = "\<lparr>dTokens = [(StartElement (XName [] ''a'') [], 30), (EndElement (XName [] ''a''), 40), (OtherToken, 90)], dOffset = 0, dErr = NetError True ''timeout''\<rparr>"
  have run: "Parse (?p, ?d) = (Inr (Some (Element ''a'' [] [] [])), ?p\<lparr>pLastOffset := 40\<rparr>, \<lparr>dTokens = [(OtherToken, 90)], dOffset = 40, dErr = NetError True ''timeout''\<rparr>)"
    by code_simp
  have "pMaxStanzaSize ?p = 40" "pLastOffset ?p = 0" by (simp_all add: newParser_def)
  with parse_within_limit [OF run] have "dOffset (snd (snd (Parse (?p, ?d)))) \<le> 40" unfolding run by simp
  moreover have "fst (Parse (snd (Parse (?p, ?d)))) = Inl ErrTooLargeStanza" by code_simp
  ultimately show ?thesis using run by (simp add: Let_def)
qed

text \<open>
  A parser whose calls have all succeeded never panics, but one more call after an unexpected end
  element can: the stack has lost an element and the index still points at it. Character data that
  follows makes the next \<^verbatim>\<open>Parse\<close> read outside the stack. The read loops of server streams and
  components do call it again before they look at the state of the stream.
\<close>

theorem parse_after_error_panics:
  assumes "parser_ok p" and "pStack p = st @ [x]" and "pInElement p" and "pMaxStanzaSize p = 0"
    and "qname n \<noteq> Name x" and "n \<noteq> XName streamName streamName" and "e \<noteq> ParserPanic"
  shows "fst (Parse (p, \<lparr>dTokens = ts, dOffset = off, dErr = e\<rparr>)) \<noteq> Inl ParserPanic \<and>
    (let r = Parse (p, \<lparr>dTokens = (EndElement n, o1) # (CharData s, o2) # ts, dOffset = off, dErr = e\<rparr>)
     in fst r = Inl (ErrUnexpectedEnd (qname n)) \<and> fst (Parse (snd r)) = Inl ParserPanic)"
proof
  show "fst (Parse (p, \<lparr>dTokens = ts, dOffset = off, dErr = e\<rparr>)) \<noteq> Inl ParserPanic"
    using parse_tokens_ok [OF assms(1,7), of ts off] by (cases "parse_tokens ts off e p") (simp add: Parse_def)
  have close: "closeElement (qname n) p = (Inl (ErrUnexpectedEnd (qname n)), p\<lparr>pStack := st\<rparr>)"
    using assms(1,2,5) by (simp add: closeElement_def parser_ok_def rootElementIndex_def in_stack_def Let_def)
  show "let r = Parse (p, \<lparr>dTokens = (EndElement n, o1) # (CharData s, o2) # ts, dOffset = off, dErr = e\<rparr>)
     in fst r = Inl (ErrUnexpectedEnd (qname n)) \<and> fst (Parse (snd r)) = Inl ParserPanic"
    using assms(1-4) close
    by (simp add: Parse_def parse_token_def not_stream_name [OF assms(6)] setElementText_def in_stack_def parser_ok_def)
qed

theorem parse_after_error_panics_witness:
  "let r = Parse ((startElement (XName [] ''a'') [] (newParser SocketStream 0)), \<lparr>dTokens = [(EndElement (XName [] ''b''), 4), (CharData ''x'', 5)], dOffset = 0, dErr = SyntaxError ''EOF''\<rparr>)
   in fst r = Inl (ErrUnexpectedEnd ''b'') \<and> fst (Parse (snd r)) = Inl ParserPanic"
  using parse_after_error_panics [of "startElement (XName [] ''a'') [] (newParser SocketStream 0)" "[]" "Element ''a'' [] [] []" "XName [] ''b''" "SyntaxError ''EOF''" "[]" 0 4 "''x''" 5]
  by (simp add: startElement_ok) (simp add: startElement_def newParser_def xmlName_def streamName_def Let_def)

end
