(* ===== verification/Session.thy ===== *)
theory Session
  imports Parser
begin

text \<open>
  XMPP sessions (\<^verbatim>\<open>src/pkg/session/session.go\<close>): opening and closing a stream, sending, receiving, the
  checks of stream headers and of the addresses of stanzas.
  \<^item> \<open>session\<close> holds the fields of \<^verbatim>\<open>Session\<close>; \<open>ses_env\<close> its transport and parser (the interfaces
    \<^verbatim>\<open>transport.Transport\<close> and \<^verbatim>\<open>xmppParser\<close>), the local hosts and the functions of the XML package it
    uses. Computations act on the session and the state \<open>'w\<close> behind the transport.
  \<^item> \<open>stanza_lib\<close> is what the checks rely on in the XML package; under it every stanza a session
    returns carries an address of its peer.
  \<^item> Write deadlines and logging are left out.
\<close>

section \<open>Data\<close>

datatype session_type = C2SSession | S2SSession | ComponentSession

record session =
  ssTyp :: session_type
  ssIsOut :: bool
  ssMaxStanzaSize :: int
  ssStreamID :: string
  ssJd :: jid
  ssOpened :: bool
  ssStarted :: bool

record 'w ses_env =
  seLib :: xlib
  seIsStanza :: "element \<Rightarrow> bool"
  seWithoutAttribute :: "element \<Rightarrow> string \<Rightarrow> element"
  seBuildIQ :: "element \<Rightarrow> element option"
  seBuildPresence :: "element \<Rightarrow> element option"
  seBuildMessage :: "element \<Rightarrow> element option"
  seToXML :: "element \<Rightarrow> bool \<Rightarrow> string"
  seDefaultHostName :: string
  seIsLocalHost :: "string \<Rightarrow> bool"
  seIsSocket :: bool
  seWriteString :: "string \<Rightarrow> ('w, unit) go"
  seFlush :: "('w, unit) go"
  seParse :: "'w \<Rightarrow> (parse_error + element option) \<times> 'w"
  seNewParser :: "int \<Rightarrow> 'w \<Rightarrow> 'w"
  seNewUUID :: "('w, string) go"

type_synonym ('w, 'a) ses = "(session \<times> 'w, 'a) go"

text \<open>What \<^verbatim>\<open>Receive\<close> can fail with.\<close>

datatype ses_error =
    SesStream stream_error
  | SesStanza string element
  | SesParse parse_error
  | SesPanic

definition ses_get :: "(session \<Rightarrow> 'a) \<Rightarrow> ('w, 'a) ses" where
  "ses_get f = gets (\<lambda>(ss, w). f ss)"

definition ses_set :: "(session \<Rightarrow> session) \<Rightarrow> ('w, unit) ses" where
  "ses_set f = modify (\<lambda>(ss, w). (f ss, w))"

definition ses_ext :: "('w, 'a) go \<Rightarrow> ('w, 'a) ses" where
  "ses_ext f = (\<lambda>(ss, w). case f w of (r, w') \<Rightarrow> (r, (ss, w')))"

definition jabberClientNamespace :: string where "jabberClientNamespace = ''jabber:client''"
definition jabberServerNamespace :: string where "jabberServerNamespace = ''jabber:server''"
definition jabberComponentNamespace :: string where "jabberComponentNamespace = ''jabber:component:accept''"
definition sesStreamNamespace :: string where "sesStreamNamespace = ''http://etherx.jabber.org/streams''"
definition sesDialbackNamespace :: string where "sesDialbackNamespace = ''jabber:server:dialback''"

definition errAlreadyOpened :: go_error where "errAlreadyOpened = ErrText ''session: already opened''"
definition errAlreadyClosed :: go_error where "errAlreadyClosed = ErrText ''session: already closed''"
definition errInvalidSessionType :: go_error where "errInvalidSessionType = ErrText ''session: invalid session type''"
definition errUnsupportedTransport :: go_error where "errUnsupportedTransport = ErrText ''session: unsupported transport type''"

definition no_jid :: jid where "no_jid = \<lparr>Node = [], Domain = [], Resource = []\<rparr>"

definition ssNamespace :: "session_type \<Rightarrow> string" where
  "ssNamespace typ =
     (case typ of C2SSession \<Rightarrow> jabberClientNamespace | S2SSession \<Rightarrow> jabberServerNamespace
      | ComponentSession \<Rightarrow> jabberComponentNamespace)"

section \<open>Opening, closing and sending\<close>

text \<open>\<^verbatim>\<open>New\<close> draws the stream identifier of an incoming session.\<close>

definition newSession :: "'w ses_env \<Rightarrow> session_type \<Rightarrow> bool \<Rightarrow> int \<Rightarrow> ('w, session) go" where
  "newSession E typ isOut maxSize =
     andthen (modify (seNewParser E maxSize)) (\<lambda>_.
     andthen (if isOut then ret [] else seNewUUID E) (\<lambda>i.
       ret \<lparr>ssTyp = typ, ssIsOut = isOut, ssMaxStanzaSize = maxSize, ssStreamID = i, ssJd = no_jid, ssOpened = False, ssStarted = False\<rparr>))"

definition SetFromJID :: "jid option \<Rightarrow> ('w, unit) ses" where
  "SetFromJID jd = (case jd of None \<Rightarrow> throw ErrPanic | Some j \<Rightarrow> ses_set (\<lambda>ss. ss\<lparr>ssJd := j\<rparr>))"

definition sendString :: "'w ses_env \<Rightarrow> string \<Rightarrow> ('w, unit) ses" where
  "sendString E str = andthen (ses_ext (seWriteString E str)) (\<lambda>_. ses_ext (seFlush E))"

definition stream_header :: "'w ses_env \<Rightarrow> session \<Rightarrow> element" where
  "stream_header E ss =
     Element ''stream:stream''
       ([(''xmlns'', ssNamespace (ssTyp ss)), (''version'', ''1.0''), (''xmlns:stream'', sesStreamNamespace)] @
        (if ssTyp ss = S2SSession then [(''xmlns:db'', sesDialbackNamespace)] else []) @
        (if ssIsOut ss then [(''from'', seDefaultHostName E), (''to'', Domain (ssJd ss))]
         else [(''from'', Domain (ssJd ss)), (''id'', ssStreamID ss)])) [] []"

definition component_header :: "session \<Rightarrow> element" where
  "component_header ss =
     Element ''stream:stream''
       [(''xmlns'', ssNamespace (ssTyp ss)), (''xmlns:stream'', sesStreamNamespace),
        (''from'', Domain (ssJd ss)), (''id'', ssStreamID ss)] [] []"

definition open_with :: "'w ses_env \<Rightarrow> element \<Rightarrow> ('w, unit) ses" where
  "open_with E header =
     andthen (sendString E (''<?xml version='' @ [CHR 0x27] @ ''1.0'' @ [CHR 0x27] @ ''?>'' @ seToXML E header False)) (\<lambda>_.
       ses_set (\<lambda>ss. ss\<lparr>ssOpened := True\<rparr>))"

definition OpenStream :: "'w ses_env \<Rightarrow> ('w, unit) ses" where
  "OpenStream E =
     andthen (ses_get (\<lambda>ss. ss)) (\<lambda>ss.
       if ssTyp ss \<noteq> C2SSession \<and> ssTyp ss \<noteq> S2SSession then throw errInvalidSessionType
       else if ssOpened ss then throw errAlreadyOpened
       else if \<not> seIsSocket E then throw errUnsupportedTransport
       else open_with E (stream_header E ss))"

definition OpenComponent :: "'w ses_env \<Rightarrow> ('w, unit) ses" where
  "OpenComponent E =
     andthen (ses_get (\<lambda>ss. ss)) (\<lambda>ss.
       if ssTyp ss \<noteq> ComponentSession then throw errInvalidSessionType
       else if ssOpened ss then throw errAlreadyOpened
       else open_with E (component_header ss))"

definition sesCloseS :: "'w ses_env \<Rightarrow> ('w, unit) ses" where
  "sesCloseS E =
     andthen (ses_get ssOpened) (\<lambda>opened.
       if \<not> opened then throw errAlreadyClosed
       else andthen (sendString E (if seIsSocket E then ''</stream:stream>'' else [])) (\<lambda>_.
         ses_set (\<lambda>ss. ss\<lparr>ssOpened := False, ssStarted := False\<rparr>)))"

definition sesSendS :: "'w ses_env \<Rightarrow> element \<Rightarrow> ('w, unit) ses" where
  "sesSendS E el = andthen (ses_ext (seWriteString E (seToXML E el True))) (\<lambda>_. ses_ext (seFlush E))"

definition sesResetS :: "'w ses_env \<Rightarrow> ('w, unit) ses" where
  "sesResetS E =
     andthen (ses_get (\<lambda>ss. ss)) (\<lambda>ss.
     andthen (if \<not> ssIsOut ss then
                andthen (ses_ext (seNewUUID E)) (\<lambda>i. ses_set (\<lambda>ss. ss\<lparr>ssStreamID := i\<rparr>))
              else ret ()) (\<lambda>_.
     andthen (ses_ext (modify (seNewParser E (ssMaxStanzaSize ss)))) (\<lambda>_.
       ses_set (\<lambda>ss. ss\<lparr>ssOpened := False, ssStarted := False\<rparr>))))"

section \<open>Receiving\<close>

definition mapErrorToSessionError :: "parse_error \<Rightarrow> ses_error" where
  "mapErrorToSessionError err =
     (case err of
        ErrReadLimitExceeded \<Rightarrow> SesStream ((stream_E PolicyViolation)\<lparr>seApplicationElement :=
          Some (Element ''rate-limit-exceeded'' [(''xmlns'', ''urn:xmpp:errors'')] [] [])\<rparr>)
      | ErrTooLargeStanza \<Rightarrow> SesStream ((stream_E PolicyViolation)\<lparr>seApplicationElement :=
          Some (Element ''stanza-too-big'' [(''xmlns'', ''urn:xmpp:errors'')] [] [])\<rparr>)
      | SyntaxError m \<Rightarrow> SesStream (stream_E InvalidXML)
      | NetError tmo m \<Rightarrow> if \<not> tmo then SesParse err else SesStream (stream_E ConnectionTimeout)
      | _ \<Rightarrow> SesParse err)"

definition validateStreamElement :: "'w ses_env \<Rightarrow> session \<Rightarrow> element \<Rightarrow> ses_error + unit" where
  "validateStreamElement E ss el =
     (let X = seLib E in
      if seIsSocket E \<and> Name el \<noteq> ''stream:stream'' then Inl (SesStream (stream_E UnsupportedStanzaType))
      else if seIsSocket E \<and> (Attribute X el ''xmlns'' \<noteq> ssNamespace (ssTyp ss) \<or> Attribute X el ''xmlns:stream'' \<noteq> sesStreamNamespace)
        then Inl (SesStream (stream_E InvalidNamespace))
      else if ssTyp ss = ComponentSession then Inr ()
      else if ssTyp ss = C2SSession \<and> length (Attribute X el ''to'') > 0 \<and> \<not> seIsLocalHost E (Attribute X el ''to'')
        then Inl (SesStream (stream_E HostUnknown))
      else if Attribute X el ''version'' \<noteq> ''1.0'' then Inl (SesStream (stream_E UnsupportedVersion))
      else Inr ())"

definition validateNamespace :: "'w ses_env \<Rightarrow> session \<Rightarrow> element \<Rightarrow> ses_error + unit" where
  "validateNamespace E ss el =
     (let ns = Attribute (seLib E) el ''xmlns''
      in if length ns = 0 \<or> ns = ssNamespace (ssTyp ss) then Inr () else Inl (SesStream (stream_E InvalidNamespace)))"

definition isValidFrom :: "xlib \<Rightarrow> jid \<Rightarrow> string \<Rightarrow> bool" where
  "isValidFrom X jd from =
     (case NewJIDWithString X from False of
        None \<Rightarrow> False
      | Some j \<Rightarrow> Node j = Node jd \<and> Domain j = Domain jd \<and> (length (Resource j) > 0 \<longrightarrow> Resource j = Resource jd))"

definition extractAddresses :: "'w ses_env \<Rightarrow> session \<Rightarrow> element \<Rightarrow> ses_error + jid \<times> jid" where
  "extractAddresses E ss el =
     (let X = seLib E; from = Attribute X el ''from''; to = Attribute X el ''to'';
          fromJID =
            (case ssTyp ss of
               C2SSession \<Rightarrow>
                 if IsFullWithUser X (ssJd ss) \<and> length from > 0 \<and> \<not> isValidFrom X (ssJd ss) from
                 then Inl (SesStream (stream_E InvalidFrom)) else Inr (ssJd ss)
             | _ \<Rightarrow>
                 (case NewJIDWithString X from False of
                    None \<Rightarrow> Inl (SesStream (stream_E InvalidFrom))
                  | Some j \<Rightarrow> if Domain j \<noteq> Domain (ssJd ss) then Inl (SesStream (stream_E InvalidFrom)) else Inr j))
      in case fromJID of
           Inl e \<Rightarrow> Inl e
         | Inr f \<Rightarrow>
             if length to > 0 then
               (case NewJIDWithString X to False of
                  None \<Rightarrow> Inl (SesStanza ''jid-malformed'' el)
                | Some j \<Rightarrow> Inr (f, j))
             else if ssTyp ss = C2SSession then Inr (f, ToBareJID X (ssJd ss))
             else (case NewJIDWithString X (seDefaultHostName E) True of
                     None \<Rightarrow> Inl SesPanic \<comment> \<open>a method call on a nil address\<close>
                   | Some j \<Rightarrow> Inr (f, j)))"

definition buildStanza :: "'w ses_env \<Rightarrow> session \<Rightarrow> element \<Rightarrow> ses_error + element" where
  "buildStanza E ss el =
     (case validateNamespace E ss el of
        Inl e \<Rightarrow> Inl e
      | Inr _ \<Rightarrow>
          (case extractAddresses E ss el of
             Inl e \<Rightarrow> Inl e
           | Inr (fromJID, toJID) \<Rightarrow>
               let X = seLib E;
                   sb = seWithoutAttribute E (WithAttribute X (WithAttribute X el ''from'' (JIDString X fromJID)) ''to'' (JIDString X toJID)) ''xmlns'';
                   done = (\<lambda>r. case r of None \<Rightarrow> Inl (SesStanza ''bad-request'' el) | Some st \<Rightarrow> Inr st)
               in if Name el = ''iq'' then done (seBuildIQ E sb)
                  else if Name el = ''presence'' then done (seBuildPresence E sb)
                  else if Name el = ''message'' then done (seBuildMessage E sb)
                  else Inl (SesStream (stream_E UnsupportedStanzaType))))"

text \<open>\<^verbatim>\<open>Receive\<close>; \<open>None\<close> is nil: the peer's stream error, or no element.\<close>

definition Receive :: "'w ses_env \<Rightarrow> session \<times> 'w \<Rightarrow> (ses_error + element option) \<times> session \<times> 'w" where
  "Receive E = (\<lambda>(ss, w).
     case seParse E w of
       (Inl err, w') \<Rightarrow> (Inl (mapErrorToSessionError err), ss, w')
     | (Inr None, w') \<Rightarrow> (Inr None, ss, w')
     | (Inr (Some el), w') \<Rightarrow>
         if Name el = ''stream:error'' then (Inr None, ss, w')
         else if \<not> ssStarted ss then
           (case validateStreamElement E ss el of
              Inl e \<Rightarrow> (Inl e, ss, w')
            | Inr _ \<Rightarrow>
                let ss1 = (if ssIsOut ss then ss\<lparr>ssStreamID := Attribute (seLib E) el ''id''\<rparr> else ss)
                in (Inr (Some el), ss1\<lparr>ssStarted := True\<rparr>, w'))
         else if \<not> seIsStanza E el then (Inr (Some el), ss, w')
         else (case buildStanza E ss el of Inl e \<Rightarrow> (Inl e, ss, w') | Inr st \<Rightarrow> (Inr (Some st), ss, w')))"

section \<open>What the XML package promises\<close>

definition builds :: "'w ses_env \<Rightarrow> element \<Rightarrow> element \<Rightarrow> bool" where
  "builds E b st \<longleftrightarrow> seBuildIQ E b = Some st \<or> seBuildPresence E b = Some st \<or> seBuildMessage E b = Some st"

locale stanza_lib =
  fixes E :: "'w ses_env" and good :: "jid \<Rightarrow> bool"
  assumes attr_set: "Attribute (seLib E) (WithAttribute (seLib E) e k v) k' = (if k' = k then v else Attribute (seLib E) e k')"
    and attr_drop: "Attribute (seLib E) (seWithoutAttribute E e k) k' = (if k' = k then [] else Attribute (seLib E) e k')"
    and parsed: "NewJIDWithString (seLib E) s False = Some j \<Longrightarrow> good j"
    and read_back: "good j \<Longrightarrow> NewJIDWithString (seLib E) (JIDString (seLib E) j) True = Some j"
    and built: "builds E b st \<Longrightarrow> NewJIDWithString (seLib E) (Attribute (seLib E) b ''from'') True = Some j \<Longrightarrow> FromJID (seLib E) st = j"
begin

lemma extract_from:
  assumes "extractAddresses E ss el = Inr (f, t)"
  shows "(ssTyp ss = C2SSession \<longrightarrow> f = ssJd ss) \<and> (ssTyp ss \<noteq> C2SSession \<longrightarrow> good f \<and> Domain f = Domain (ssJd ss))"
  using assms parsed
  by (cases "ssTyp ss") (auto simp: extractAddresses_def Let_def split: if_splits option.splits)

lemma build_from:
  assumes "buildStanza E ss el = Inr st" and "good (ssJd ss)"
  shows "Domain (FromJID (seLib E) st) = Domain (ssJd ss) \<and> (ssTyp ss = C2SSession \<longrightarrow> FromJID (seLib E) st = ssJd ss)"
proof -
  from assms(1) obtain f t where a: "extractAddresses E ss el = Inr (f, t)"
    by (auto simp: buildStanza_def split: sum.splits)
  let ?X = "seLib E"
  let ?b = "seWithoutAttribute E (WithAttribute ?X (WithAttribute ?X el ''from'' (JIDString ?X f)) ''to'' (JIDString ?X t)) ''xmlns''"
  from assms(1) a have st: "builds E ?b st"
    by (auto simp: buildStanza_def builds_def Let_def split: sum.splits if_splits option.splits)
  have "good f" using extract_from [OF a] assms(2) by blast
  then have "NewJIDWithString ?X (Attribute ?X ?b ''from'') True = Some f" by (simp add: attr_set attr_drop read_back)
  from built [OF st this] extract_from [OF a] show ?thesis by auto
qed

end

section \<open>Properties\<close>

definition header_ok :: "'w ses_env \<Rightarrow> session \<Rightarrow> element \<Rightarrow> bool" where
  "header_ok E ss el \<longleftrightarrow>
     (seIsSocket E \<longrightarrow> Name el = ''stream:stream'' \<and> Attribute (seLib E) el ''xmlns'' = ssNamespace (ssTyp ss) \<and>
        Attribute (seLib E) el ''xmlns:stream'' = sesStreamNamespace) \<and>
     (ssTyp ss \<noteq> ComponentSession \<longrightarrow> Attribute (seLib E) el ''version'' = ''1.0'') \<and>
     (ssTyp ss = C2SSession \<longrightarrow> Attribute (seLib E) el ''to'' = [] \<or> seIsLocalHost E (Attribute (seLib E) el ''to''))"

text \<open>
  C12. What a session lets through: before the stream is started, only a stream header of the session's
  kind, of version 1.0 and, for clients, addressed to a local host; afterwards, a stanza only with the
  address of the peer: the client's own address, or an address of the peer's domain for servers and
  components. Neither the kind nor the address of the session changes by receiving.
\<close>

theorem receive_checked:
  assumes "stanza_lib E good" and "good (ssJd ss)" and "Receive E (ss, w) = (Inr (Some el), ss', w')"
  shows "ssTyp ss' = ssTyp ss \<and> ssJd ss' = ssJd ss \<and> ssStarted ss' \<and>
    (\<not> ssStarted ss \<longrightarrow> header_ok E ss el) \<and>
    (ssStarted ss \<longrightarrow> \<not> seIsStanza E el \<or> (Domain (FromJID (seLib E) el) = Domain (ssJd ss) \<and>
       (ssTyp ss = C2SSession \<longrightarrow> FromJID (seLib E) el = ssJd ss)))"
proof -
  from assms(3) obtain el0 where p: "seParse E w = (Inr (Some el0), w')" "Name el0 \<noteq> ''stream:error''"
    by (auto simp: Receive_def Let_def split: prod.splits sum.splits option.splits if_splits)
  show ?thesis
  proof (cases "ssStarted ss")
    case False
    with assms(3) p have "validateStreamElement E ss el = Inr ()"
      by (auto simp: Receive_def Let_def split: sum.splits if_splits)
    then have "header_ok E ss el"
      by (auto simp: validateStreamElement_def header_ok_def Let_def split: if_splits)
    with False assms(3) p show ?thesis by (auto simp: Receive_def Let_def split: sum.splits if_splits)
  next
    case True
    show ?thesis
    proof (cases "seIsStanza E el0")
      case True
      with assms(3) p \<open>ssStarted ss\<close> have "buildStanza E ss el0 = Inr el" "ss' = ss"
        by (auto simp: Receive_def split: sum.splits)
      with stanza_lib.build_from [OF assms(1) _ assms(2)] \<open>ssStarted ss\<close> show ?thesis by blast
    next
      case False
      with assms(3) p \<open>ssStarted ss\<close> show ?thesis by (auto simp: Receive_def)
    qed
  qed
qed

text \<open>A transport that delivers the elements of a list and records what is written.\<close>

definition std_ok :: "jid \<Rightarrow> bool" where
  "std_ok j \<longleftrightarrow> std_parse_jid (std_jid_string j) = Some j"

definition std_ses_lib :: xlib where
  "std_ses_lib = std_lib\<lparr>NewJIDWithString := (\<lambda>s skip. case std_parse_jid s of None \<Rightarrow> None | Some j \<Rightarrow> if std_ok j then Some j else None)\<rparr>"

definition std_ses :: "(element list \<times> string list) ses_env" where
  "std_ses = \<lparr>seLib = std_ses_lib, seIsStanza = (\<lambda>e. Name e \<in> {''iq'', ''presence'', ''message''}),
     seWithoutAttribute = (\<lambda>e k. Element (Name e) (filter (\<lambda>a. fst a \<noteq> k) (Attrs e)) (Text e) (AllChildren e)),
     seBuildIQ = (\<lambda>e. if std_attr e ''id'' = [] then None else Some e), seBuildPresence = Some, seBuildMessage = Some,
     seToXML = (\<lambda>e closing. Name e), seDefaultHostName = ''x'', seIsLocalHost = (\<lambda>d. d = ''x''), seIsSocket = True,
     seWriteString = (\<lambda>s. modify (\<lambda>(i, out). (i, out @ [s]))), seFlush = ret (),
     seParse = (\<lambda>(i, out). case i of [] \<Rightarrow> (Inl (NetError True ''timeout''), ([], out)) | e # es \<Rightarrow> (Inr (Some e), (es, out))),
     seNewParser = (\<lambda>_ w. w), seNewUUID = ret ''s1''\<rparr>"

lemma map_of_filter_key: "map_of (filter (\<lambda>a. fst a \<noteq> k) xs) k' = (if k' = k then None else map_of xs k')"
  by (induction xs) auto

interpretation std: stanza_lib std_ses std_ok
proof (unfold_locales, goal_cases)
  case (5 b st j)
  then have "st = b" by (auto simp: builds_def std_ses_def split: if_splits)
  with 5 show ?case by (auto simp: std_ses_def std_ses_lib_def std_lib_def std_jid_of_def split: option.splits if_splits)
qed (auto simp: std_ses_def std_ses_lib_def std_lib_def std_attr_def map_of_filter_key std_ok_def split: option.splits if_splits)

definition peer_session :: session where
  "peer_session = \<lparr>ssTyp = S2SSession, ssIsOut = False, ssMaxStanzaSize = 0, ssStreamID = ''s1'', ssJd = \<lparr>Node = [], Domain = ''peer'', Resource = []\<rparr>,
     ssOpened = True, ssStarted = True\<rparr>"

theorem receive_checked_witness:
  "let msg = (\<lambda>from. Element ''message'' [(''from'', from), (''to'', ''ana@x'')] [] []);
       run = (\<lambda>from. Receive std_ses (peer_session, ([msg from], [])))
   in (\<exists>el. fst (run ''bob@peer'') = Inr (Some el) \<and> Domain (FromJID (seLib std_ses) el) = ''peer'') \<and>
      fst (run ''bob@other'') = Inl (SesStream (stream_E InvalidFrom))"
proof -
  let ?m = "Element ''message'' [(''from'', ''bob@peer''), (''to'', ''ana@x'')] [] []"
  let ?el = "Element ''message'' [(''to'', ''ana@x''), (''from'', ''bob@peer'')] [] []"
  have run: "Receive std_ses (peer_session, ([?m], [])) = (Inr (Some ?el), peer_session, ([], []))" by code_simp
  have "std_ok (ssJd peer_session)" by code_simp
  from receive_checked [OF std.stanza_lib_axioms this run]
  have "Domain (FromJID (seLib std_ses) ?el) = ''peer''" by (simp add: peer_session_def std_ses_def)
  moreover have "fst (Receive std_ses (peer_session, ([Element ''message'' [(''from'', ''bob@other''), (''to'', ''ana@x'')] [] []], []))) =
      Inl (SesStream (stream_E InvalidFrom))" by code_simp
  ultimately show ?thesis using run by (simp add: Let_def)
qed

end
