(* ===== verification/S2S_Dialback.thy ===== *)
theory S2S_Dialback
  imports Member_List Session
begin

text \<open>
  What the streams between servers share: their flags (\<^verbatim>\<open>src/pkg/s2s/flags.go\<close>) and the keys and pending
  requests of server dialback (\<^verbatim>\<open>src/pkg/s2s/dialback.go\<close>). The hash functions are arguments, nothing is
  assumed of them; the key-value store is a record of functions with its documented laws
  (\<open>dialback_kv\<close>).
\<close>

unbundle bit_operations_syntax

section \<open>Flags\<close>

type_synonym sflags = "8 word"

definition sfSecured :: sflags where "sfSecured = 1"
definition sfAuthenticated :: sflags where "sfAuthenticated = 4"
definition sfDialbackKeyAuthorized :: sflags where "sfDialbackKeyAuthorized = 8"

definition sIsSecured :: "sflags \<Rightarrow> bool" where "sIsSecured f = (f AND sfSecured > 0)"
definition sSetSecured :: "sflags \<Rightarrow> sflags" where "sSetSecured f = f OR sfSecured"
definition sIsAuthenticated :: "sflags \<Rightarrow> bool" where "sIsAuthenticated f = (f AND sfAuthenticated > 0)"
definition sSetAuthenticated :: "sflags \<Rightarrow> sflags" where "sSetAuthenticated f = f OR sfAuthenticated"
definition isDialbackKeyAuthorized :: "sflags \<Rightarrow> bool" where "isDialbackKeyAuthorized f = (f AND sfDialbackKeyAuthorized > 0)"
definition setDialbackKeyAuthorized :: "sflags \<Rightarrow> sflags" where "setDialbackKeyAuthorized f = f OR sfDialbackKeyAuthorized"

named_theorems sflag_simps

lemma sflag_bits [sflag_simps]:
  "sIsSecured f = bit f 0" "sIsAuthenticated f = bit f 2" "isDialbackKeyAuthorized f = bit f 3"
  using and_exp_eq_0_iff_not_bit [of f 0] and_exp_eq_0_iff_not_bit [of f 2] and_exp_eq_0_iff_not_bit [of f 3]
  by (simp_all add: sIsSecured_def sIsAuthenticated_def isDialbackKeyAuthorized_def sfSecured_def sfAuthenticated_def
      sfDialbackKeyAuthorized_def word_gt_0)

lemma sflag_sets [sflag_simps]:
  "bit (sSetSecured f) n \<longleftrightarrow> bit f n \<or> n = 0" "bit (sSetAuthenticated f) n \<longleftrightarrow> bit f n \<or> n = 2"
  "bit (setDialbackKeyAuthorized f) n \<longleftrightarrow> bit f n \<or> n = 3"
proof -
  have p: "bit (2 ^ k :: 8 word) n \<longleftrightarrow> n = k" if "k < 8" for k
    using that by (auto simp: bit_exp_iff)
  show "bit (sSetSecured f) n \<longleftrightarrow> bit f n \<or> n = 0" "bit (sSetAuthenticated f) n \<longleftrightarrow> bit f n \<or> n = 2"
    "bit (setDialbackKeyAuthorized f) n \<longleftrightarrow> bit f n \<or> n = 3"
    using p [of 0] p [of 2] p [of 3]
    by (simp_all add: sSetSecured_def sSetAuthenticated_def setDialbackKeyAuthorized_def sfSecured_def sfAuthenticated_def
        sfDialbackKeyAuthorized_def bit_or_iff)
qed

section \<open>Keys and requests\<close>

record 'w db_kv =
  dkPut :: "string \<Rightarrow> string \<Rightarrow> ('w, unit) go"
  dkGet :: "string \<Rightarrow> ('w, string) go" \<comment> \<open>empty when there is no such key\<close>
  dkDel :: "string \<Rightarrow> ('w, unit) go"
  dkIsNop :: bool

record hashes =
  hexSha256 :: "string \<Rightarrow> string"
  hexHmacSha256 :: "string \<Rightarrow> string \<Rightarrow> string"

definition dbKey :: "hashes \<Rightarrow> string \<Rightarrow> string \<Rightarrow> string \<Rightarrow> string \<Rightarrow> string" where
  "dbKey H dbSecret sender target streamID =
     hexHmacSha256 H (hexSha256 H dbSecret) (target @ '' '' @ sender @ '' '' @ streamID)"

definition dbReqKey :: "string \<Rightarrow> string" where
  "dbReqKey streamID = ''db://'' @ streamID"

definition dbReqVal :: "string \<Rightarrow> string \<Rightarrow> string" where
  "dbReqVal sender target = sender @ '' '' @ target"

definition registerDbRequest :: "'w db_kv \<Rightarrow> string \<Rightarrow> string \<Rightarrow> string \<Rightarrow> ('w, unit) go" where
  "registerDbRequest kvs sender target streamID = dkPut kvs (dbReqKey streamID) (dbReqVal sender target)"

definition unregisterDbRequest :: "'w db_kv \<Rightarrow> string \<Rightarrow> ('w, unit) go" where
  "unregisterDbRequest kvs streamID = dkDel kvs (dbReqKey streamID)"

text \<open>\<^verbatim>\<open>fmt.Sscanf\<close> with \<^verbatim>\<open>%s %s\<close>.\<close>

definition sscanf_two :: "string \<Rightarrow> string \<times> string" where
  "sscanf_two val = (let (a, rest) = scan_word val in (a, fst (scan_word (skip_blanks rest))))"

definition isDbRequestOn :: "'w db_kv \<Rightarrow> string \<Rightarrow> string \<Rightarrow> string \<Rightarrow> ('w, bool) go" where
  "isDbRequestOn kvs sender target streamID =
     (if dkIsNop kvs then ret True
      else andthen (dkGet kvs (dbReqKey streamID)) (\<lambda>val.
        if length val = 0 then ret False
        else let (s0, t0) = sscanf_two val in ret (s0 = sender \<and> t0 = target)))"

section \<open>Lemmas\<close>

definition dom_name :: "string \<Rightarrow> bool" where
  "dom_name s \<longleftrightarrow> s \<noteq> [] \<and> (\<forall>c \<in> set s. \<not> is_blank c)"

lemma sscanf_dbReqVal:
  assumes "dom_name s" and "dom_name t"
  shows "sscanf_two (dbReqVal s t) = (s, t)"
proof -
  have b: "is_blank (CHR '' '')" "\<not> is_newline (CHR '' '')" by (simp_all add: is_blank_def is_newline_def)
  have w: "scan_word (s @ '' '' @ t) = (s, '' '' @ t)"
    using assms(1) b by (intro scan_word_append) (auto simp: dom_name_def)
  have "skip_blanks ('' '' @ t) = t"
    using assms(2) b by (cases t) (auto simp: skip_blanks_def dom_name_def)
  moreover have "scan_word t = (t, [])"
    using assms(2) scan_word_append [of t "[]"] by (simp add: dom_name_def)
  ultimately show ?thesis using w by (simp add: sscanf_two_def dbReqVal_def)
qed

text \<open>What the store promises; \<open>vals w\<close> is what it holds.\<close>

locale dialback_kv =
  fixes kvs :: "'w db_kv" and vals :: "'w \<Rightarrow> string \<Rightarrow> string"
  assumes put: "dkPut kvs k v w = (Inr u, w') \<Longrightarrow> vals w' = (vals w)(k := v)"
    and get: "dkGet kvs k w = (r, w') \<Longrightarrow> vals w' = vals w \<and> (\<forall>v. r = Inr v \<longrightarrow> v = vals w k)"
    and del: "dkDel kvs k w = (Inr u, w') \<Longrightarrow> vals w' = (vals w)(k := [])"
    and stores: "\<not> dkIsNop kvs"
begin

lemma request_on:
  assumes "isDbRequestOn kvs s t i w = (Inr b, w')" and "vals w (dbReqKey i) = dbReqVal s0 t0" and "dom_name s0" and "dom_name t0"
  shows "b \<longleftrightarrow> s = s0 \<and> t = t0"
  using assms get [of "dbReqKey i" w] sscanf_dbReqVal [OF assms(3,4)] stores
  by (auto simp: isDbRequestOn_def go_run dbReqVal_def split: prod.splits sum.splits if_splits)

lemma request_off:
  assumes "isDbRequestOn kvs s t i w = (Inr b, w')" and "vals w (dbReqKey i) = []"
  shows "\<not> b"
  using assms get [of "dbReqKey i" w] stores
  by (auto simp: isDbRequestOn_def go_run split: prod.splits sum.splits if_splits)

lemma on_keeps: "isDbRequestOn kvs s t i w = (r, w') \<Longrightarrow> vals w' = vals w"
  using get [of "dbReqKey i" w] stores
  by (auto simp: isDbRequestOn_def go_run split: prod.splits sum.splits if_splits)

end

end
