(* ===== verification/S2S_In.thy ===== *)
theory S2S_In
  imports S2S_Dialback Hooks Shaper
begin

text \<open>
  Streams from other servers (\<^verbatim>\<open>src/pkg/s2s/in.go\<close>, \<^verbatim>\<open>src/pkg/s2s/in_hub.go\<close>).
  \<^item> \<open>in_s2s\<close> holds the fields of \<^verbatim>\<open>inS2S\<close> that change, \<open>s2s_env\<close> its collaborators. The stream runs
    over its session, the one of \<open>Session\<close>: a computation acts on the stream, the session and the
    state \<open>'w\<close> behind the collaborators. Hook handlers and modules may act on all three.
  \<^item> The tasks of the run queue are the events of \<open>si_event\<close>: the read loop's next result, a timeout,
    a disconnection, a timer, and the answer to a dialback request.
  \<^item> Metrics, logging and request contexts are left out.
\<close>

section \<open>Data\<close>

datatype s2s_in_state = siConnecting | siConnected | siAuthorizingDialbackKey | siDisconnected

record s2s_info =
  sfID :: string
  sfSender :: string
  sfTarget :: string
  sfTargets :: "jid list"
  sfElement :: "element option"

record in_s2s =
  siId :: nat
  siState :: s2s_in_state
  siFlags :: sflags
  siJd :: "jid option"
  siTarget :: string
  siSender :: string
  siDiscTm :: "nat option"
  siLiveTms :: "nat list"
  siNextTm :: nat
  siSendDisabled :: bool
  siWaiting :: "(string \<times> string) list" \<comment> \<open>dialback answers the stream waits for\<close>
  siDone :: bool

record db_params =
  dpStreamID :: string
  dpFrom :: string
  dpTo :: string
  dpKey :: string

record 'w s2s_env =
  siSes :: "'w ses_env"
  siErrorElement :: "string \<Rightarrow> element \<Rightarrow> element" \<comment> \<open>\<^verbatim>\<open>stanzaerror.E(reason, elem).Element()\<close>\<close>
  siDirectTLS :: bool
  siPeerCertificates :: "'w \<Rightarrow> string list list" \<comment> \<open>the names of each certificate\<close>
  siStartTLS :: "('w, unit) go"
  siSetReadRateLimiter :: "shaper \<Rightarrow> ('w, unit) go"
  siTrClose :: "('w, unit) go"
  siShapers :: "shaper list"
  siRoute :: "element \<Rightarrow> ('w, jid list) go"
  siIsComponentHost :: "string \<Rightarrow> 'w \<Rightarrow> bool"
  siCompProcessStanza :: "element \<Rightarrow> ('w, unit) go"
  siIsModuleIQ :: "element \<Rightarrow> bool"
  siModProcessIQ :: "element \<Rightarrow> (in_s2s \<times> session \<times> 'w, unit) go"
  siGetDialback :: "string \<Rightarrow> string \<Rightarrow> db_params \<Rightarrow> ('w, unit) go"
  siDialbackSecret :: string
  siHashes :: hashes
  siKV :: "'w db_kv"
  siRegister :: "nat \<Rightarrow> ('w, unit) go"
  siUnregister :: "nat \<Rightarrow> ('w, unit) go"
  siHooks :: "(in_s2s \<times> session \<times> 'w, s2s_info) hooks"

type_synonym ('w, 'a) s2s = "(in_s2s \<times> session \<times> 'w, 'a) go"

abbreviation siLib :: "'w s2s_env \<Rightarrow> xlib" where
  "siLib E \<equiv> seLib (siSes E)"

definition s_ext :: "('w, 'a) go \<Rightarrow> ('w, 'a) s2s" where
  "s_ext f = (\<lambda>(s, ss, w). case f w of (r, w') \<Rightarrow> (r, (s, ss, w')))"

definition s_ses :: "('w, 'a) ses \<Rightarrow> ('w, 'a) s2s" where
  "s_ses f = (\<lambda>(s, x). case f x of (r, x') \<Rightarrow> (r, (s, x')))"

definition s_own :: "(in_s2s \<Rightarrow> 'a) \<Rightarrow> ('w, 'a) s2s" where
  "s_own f = gets (\<lambda>(s, x). f s)"

definition s_upd :: "(in_s2s \<Rightarrow> in_s2s) \<Rightarrow> ('w, unit) s2s" where
  "s_upd f = modify (\<lambda>(s, x). (f s, x))"

definition s2sTlsNamespace :: string where "s2sTlsNamespace = ''urn:ietf:params:xml:ns:xmpp-tls''"
definition s2sSaslNamespace :: string where "s2sSaslNamespace = ''urn:ietf:params:xml:ns:xmpp-sasl''"
definition s2sDialbackNamespace :: string where "s2sDialbackNamespace = ''urn:xmpp:features:dialback''"

abbreviation s_elem :: "string \<Rightarrow> string \<Rightarrow> element list \<Rightarrow> element" where
  "s_elem name ns children \<equiv> Element name [(''xmlns'', ns)] [] children"

section \<open>Helpers\<close>

definition newInS2S :: "'w s2s_env \<Rightarrow> nat \<Rightarrow> in_s2s" where
  "newInS2S E i =
     \<lparr>siId = i, siState = siConnecting, siFlags = (if siDirectTLS E then sSetSecured 0 else 0), siJd = None, siTarget = [],
      siSender = [], siDiscTm = None, siLiveTms = [], siNextTm = 0, siSendDisabled = False, siWaiting = [], siDone = False\<rparr>"

definition s2s_in_id :: "nat \<Rightarrow> string" where
  "s2s_in_id i = ''s2s:in:'' @ itoa_nat i"

definition siSetState :: "s2s_in_state \<Rightarrow> ('w, unit) s2s" where
  "siSetState st = s_upd (\<lambda>s. s\<lparr>siState := st\<rparr>)"

definition siSetFlag :: "(sflags \<Rightarrow> sflags) \<Rightarrow> ('w, unit) s2s" where
  "siSetFlag f = s_upd (\<lambda>s. s\<lparr>siFlags := f (siFlags s)\<rparr>)"

definition siRunHook :: "'w s2s_env \<Rightarrow> string \<Rightarrow> s2s_info \<Rightarrow> ('w, bool \<times> s2s_info) s2s" where
  "siRunHook E hookName info = Run (siHooks E) hookName info"

definition si_info :: "jid list \<Rightarrow> element option \<Rightarrow> ('w, s2s_info) s2s" where
  "si_info targets el =
     s_own (\<lambda>s. \<lparr>sfID = s2s_in_id (siId s), sfSender = siSender s, sfTarget = siTarget s, sfTargets = targets, sfElement = el\<rparr>)"

definition si_id_info :: "('w, s2s_info) s2s" where
  "si_id_info = s_own (\<lambda>s. \<lparr>sfID = s2s_in_id (siId s), sfSender = [], sfTarget = [], sfTargets = [], sfElement = None\<rparr>)"

definition siSendElement :: "'w s2s_env \<Rightarrow> element \<Rightarrow> ('w, unit) s2s" where
  "siSendElement E el =
     andthen (s_own siSendDisabled) (\<lambda>disabled.
       if disabled then ret () else s_ses (sesSendS (siSes E) el))"

definition siRestartSession :: "'w s2s_env \<Rightarrow> ('w, unit) s2s" where
  "siRestartSession E = andthen (ignore (s_ses (sesResetS (siSes E)))) (\<lambda>_. siSetState siConnecting)"

definition siUpdateRateLimiter :: "'w s2s_env \<Rightarrow> ('w, unit) s2s" where
  "siUpdateRateLimiter E =
     andthen (s_own siJd) (\<lambda>j.
       case MatchingJID (siLib E) (siShapers E) j of
         Inl e \<Rightarrow> throw e
       | Inr sh \<Rightarrow> s_ext (siSetReadRateLimiter E sh))"

section \<open>Disconnection\<close>

definition siClose :: "'w s2s_env \<Rightarrow> ('w, unit) s2s" where
  "siClose E =
     andthen (s_own siState) (\<lambda>st.
       if st = siDisconnected then ret ()
       else
         andthen (attempt (
           andthen (siSetState siDisconnected) (\<lambda>_.
           andthen (s_upd (\<lambda>s. case siDiscTm s of None \<Rightarrow> s | Some t \<Rightarrow> s\<lparr>siLiveTms := filter (\<lambda>x. x \<noteq> t) (siLiveTms s)\<rparr>)) (\<lambda>_.
           andthen (s_own siId) (\<lambda>i.
           andthen (s_ext (siUnregister E i)) (\<lambda>_.
           andthen si_id_info (\<lambda>info.
           andthen (siRunHook E ''s2s.in.stream.unregistered'' info) (\<lambda>_.
             ignore (s_ext (siTrClose E)))))))))) (\<lambda>r.
         andthen (s_own siDone) (\<lambda>done.
           if done then throw ErrPanic \<comment> \<open>close of a closed channel\<close>
           else andthen (s_upd (\<lambda>s. s\<lparr>siDone := True\<rparr>)) (\<lambda>_.
             case r of Inl e \<Rightarrow> throw e | Inr _ \<Rightarrow> ret ()))))"

definition siDisconnect :: "'w s2s_env \<Rightarrow> stream_error option \<Rightarrow> ('w, unit) s2s" where
  "siDisconnect E streamErr =
     andthen (s_own siState) (\<lambda>st.
     andthen (if st = siConnecting then ignore (s_ses (OpenStream (siSes E))) else ret ()) (\<lambda>_.
     andthen (case streamErr of None \<Rightarrow> ret () | Some se \<Rightarrow> siSendElement E (StreamErrorElement (siLib E) se)) (\<lambda>_.
     andthen (ignore (s_ses (sesCloseS (siSes E)))) (\<lambda>_.
     andthen (s_own siState) (\<lambda>st'.
       case streamErr of
         Some se \<Rightarrow>
           if st' \<noteq> siConnecting \<and> seReason se = ConnectionTimeout then
             s_upd (\<lambda>s. s\<lparr>siDiscTm := Some (siNextTm s), siLiveTms := siLiveTms s @ [siNextTm s],
                         siNextTm := Suc (siNextTm s), siSendDisabled := True\<rparr>)
           else siClose E
       | None \<Rightarrow> siClose E)))))"

definition siFireTimer :: "'w s2s_env \<Rightarrow> nat \<Rightarrow> ('w, unit) s2s" where
  "siFireTimer E t =
     andthen (s_own (\<lambda>s. t \<in> set (siLiveTms s))) (\<lambda>live.
       if \<not> live then ret ()
       else andthen (s_upd (\<lambda>s. s\<lparr>siLiveTms := filter (\<lambda>x. x \<noteq> t) (siLiveTms s)\<rparr>)) (\<lambda>_. ignore (siClose E)))"

definition siHandleSessionError :: "'w s2s_env \<Rightarrow> ses_error \<Rightarrow> ('w, unit) s2s" where
  "siHandleSessionError E err =
     andthen (if err = SesParse ErrClosedByPeer then ignore (s_ses (sesCloseS (siSes E))) else ret ()) (\<lambda>_.
       ignore (siClose E))"

definition siConnTimeout :: "'w s2s_env \<Rightarrow> ('w, unit) s2s" where
  "siConnTimeout E = ignore (siDisconnect E (Some (stream_E ConnectionTimeout)))"

section \<open>TLS and authentication\<close>

definition siProceedStartTLS :: "'w s2s_env \<Rightarrow> element \<Rightarrow> ('w, unit) s2s" where
  "siProceedStartTLS E el =
     (if Attribute (siLib E) el ''xmlns'' \<noteq> s2sTlsNamespace then siDisconnect E (Some (stream_E InvalidNamespace))
      else if Name el \<noteq> ''starttls'' then siDisconnect E (Some (stream_E NotAuthorized))
      else andthen (siSendElement E (s_elem ''proceed'' s2sTlsNamespace [])) (\<lambda>_.
        andthen (s_ext (siStartTLS E)) (\<lambda>_.
          andthen (siSetFlag sSetSecured) (\<lambda>_. siRestartSession E))))"

definition siFailAuthentication :: "'w s2s_env \<Rightarrow> string \<Rightarrow> string \<Rightarrow> ('w, unit) s2s" where
  "siFailAuthentication E reason txt =
     siSendElement E (s_elem ''failure'' s2sSaslNamespace
       (Element reason [] [] [] # (if length txt > 0 then [Element ''text'' [] txt []] else [])))"

definition siFinishAuthentication :: "'w s2s_env \<Rightarrow> ('w, unit) s2s" where
  "siFinishAuthentication E =
     andthen (siUpdateRateLimiter E) (\<lambda>_.
     andthen (siSetFlag sSetAuthenticated) (\<lambda>_.
     andthen (siRestartSession E) (\<lambda>_.
       siSendElement E (s_elem ''success'' s2sSaslNamespace []))))"

definition siAuthenticate :: "'w s2s_env \<Rightarrow> element \<Rightarrow> ('w, unit) s2s" where
  "siAuthenticate E el =
     (if Attribute (siLib E) el ''xmlns'' \<noteq> s2sSaslNamespace then siDisconnect E (Some (stream_E InvalidNamespace))
      else if Attribute (siLib E) el ''mechanism'' \<noteq> ''EXTERNAL'' then siFailAuthentication E ''invalid-mechanism'' []
      else andthen (s_ext (gets (siPeerCertificates E))) (\<lambda>certs.
        andthen (s_own siSender) (\<lambda>sender.
          if \<exists>names \<in> set certs. \<exists>dnsName \<in> set names. dnsName = sender then siFinishAuthentication E
          else siFailAuthentication E ''bad-protocol'' ''Failed to get peer certificate'')))"

section \<open>Dialback\<close>

definition siAuthorizeDialbackKey :: "'w s2s_env \<Rightarrow> element \<Rightarrow> ('w, unit) s2s" where
  "siAuthorizeDialbackKey E el =
     (let X = siLib E; elemFrom = Attribute X el ''from''; elemTo = Attribute X el ''to''
      in if \<not> seIsLocalHost (siSes E) elemTo then siSendElement E (siErrorElement E ''item-not-found'' el)
         else andthen (s_ses (ses_get ssStreamID)) (\<lambda>streamID.
           andthen (attempt (s_ext (siGetDialback E (seDefaultHostName (siSes E)) elemFrom
               \<lparr>dpStreamID = streamID, dpFrom = elemTo, dpTo = elemFrom, dpKey = Text el\<rparr>))) (\<lambda>r.
             case r of
               Inl _ \<Rightarrow> siSendElement E (siErrorElement E ''remote-server-timeout'' el)
             | Inr _ \<Rightarrow>
                 andthen (s_upd (\<lambda>s. s\<lparr>siWaiting := siWaiting s @ [(elemFrom, elemTo)]\<rparr>)) (\<lambda>_.
                   siSetState siAuthorizingDialbackKey))))"

definition siHandleDialbackResult :: "'w s2s_env \<Rightarrow> string \<Rightarrow> string \<Rightarrow> bool \<Rightarrow> ('w, unit) s2s" where
  "siHandleDialbackResult E from to valid =
     (let sb = (\<lambda>typ. Element ''db:result'' [(''from'', to), (''to'', from), (''type'', typ)] [] [])
      in andthen (if valid then andthen (siUpdateRateLimiter E) (\<lambda>_. siSetFlag setDialbackKeyAuthorized) else ret ()) (\<lambda>_.
         andthen (siSetState siConnected) (\<lambda>_.
           siSendElement E (sb (if valid then ''valid'' else ''invalid'')))))"

definition siVerifyDialbackKey :: "'w s2s_env \<Rightarrow> element \<Rightarrow> ('w, unit) s2s" where
  "siVerifyDialbackKey E el =
     (let X = siLib E; sender = Attribute X el ''from''; target = Attribute X el ''to''; streamID = Attribute X el ''id'';
          sb = (\<lambda>typ. Element ''db:verify'' [(''from'', target), (''to'', sender), (''id'', streamID), (''type'', typ)] [] [])
      in if \<not> seIsLocalHost (siSes E) target then siSendElement E (siErrorElement E ''item-not-found'' el)
         else andthen (s_ext (isDbRequestOn (siKV E) sender target streamID)) (\<lambda>dbReqOn.
           let expectedKey = dbKey (siHashes E) (siDialbackSecret E) sender target streamID
           in if dbReqOn \<and> expectedKey = Text el then
                andthen (s_ext (unregisterDbRequest (siKV E) streamID)) (\<lambda>_. siSendElement E (sb ''valid''))
              else siSendElement E (sb ''invalid'')))"

section \<open>Stanza processing\<close>

definition si_hook :: "'w s2s_env \<Rightarrow> string \<Rightarrow> jid list \<Rightarrow> element \<Rightarrow> ('w, bool \<times> element option) s2s" where
  "si_hook E name targets el =
     andthen (si_info targets (Some el)) (\<lambda>info.
       andthen (siRunHook E name info) (\<lambda>(halted, info'). ret (halted, sfElement info')))"

text \<open>Go's type assertion to one kind of stanza.\<close>

definition si_kind :: "xlib \<Rightarrow> stanza_kind \<Rightarrow> element option \<Rightarrow> element option" where
  "si_kind X k el = (case el of None \<Rightarrow> None | Some e \<Rightarrow> if StanzaKind X e = k then Some e else None)"

abbreviation si_reply :: "'w s2s_env \<Rightarrow> element \<Rightarrow> string \<Rightarrow> ('w, unit) s2s" where
  "si_reply E stanza reason \<equiv> siSendElement E (siErrorElement E reason stanza)"

definition siProcessIQ :: "'w s2s_env \<Rightarrow> element \<Rightarrow> ('w, unit) s2s" where
  "siProcessIQ E iq =
     andthen (si_hook E ''s2s.in.stream.iq_received'' [] iq) (\<lambda>_.
       if IsResult (siLib E) iq \<or> IsError (siLib E) iq then ret ()
       else if siIsModuleIQ E iq then siModProcessIQ E iq
       else andthen (si_hook E ''s2s.in.stream.will_route_element'' [] iq) (\<lambda>(halted, el).
         if halted then ret ()
         else case si_kind (siLib E) IQKind el of
           None \<Rightarrow> ret ()
         | Some outIQ \<Rightarrow>
             andthen (attempt (s_ext (siRoute E outIQ))) (\<lambda>r.
               let routed = (\<lambda>targets. andthen (si_hook E ''s2s.in.stream.iq_routed'' targets iq) (\<lambda>_. ret ()))
               in case r of
                    Inr targets \<Rightarrow> routed targets
                  | Inl e \<Rightarrow>
                      if e = ErrResourceNotFound then si_reply E iq ''service-unavailable''
                      else if e = ErrRemoteServerNotFound then si_reply E iq ''remote-server-not-found''
                      else if e = ErrRemoteServerTimeout then si_reply E iq ''remote-server-timeout''
                      else if e = ErrUserNotAvailable then routed []
                      else ret ())))"

definition si_to_bare :: "xlib \<Rightarrow> element \<Rightarrow> element \<Rightarrow> element" where
  "si_to_bare X message msg =
     WithAttribute X (WithAttribute X msg ''from'' (JIDString X (FromJID X message)))
       ''to'' (JIDString X (ToBareJID X (ToJID X message)))"

text \<open>One round of the loop at \<^verbatim>\<open>sendMsg\<close>; \<open>again\<close> is the jump back.\<close>

definition si_round :: "'w s2s_env \<Rightarrow> (element \<Rightarrow> ('w, unit) s2s) \<Rightarrow> element \<Rightarrow> element \<Rightarrow> ('w, unit) s2s" where
  "si_round E again message msg =
     andthen (si_hook E ''s2s.in.stream.will_route_element'' [] msg) (\<lambda>(halted, el).
       if halted then ret ()
       else case si_kind (siLib E) MessageKind el of
         None \<Rightarrow> ret ()
       | Some outMsg \<Rightarrow>
           andthen (attempt (s_ext (siRoute E outMsg))) (\<lambda>r.
             let routed = (\<lambda>targets. si_hook E ''s2s.in.stream.message_routed'' targets msg)
             in case r of
                  Inr targets \<Rightarrow> andthen (routed targets) (\<lambda>_. ret ())
                | Inl e \<Rightarrow>
                    if e = ErrResourceNotFound then again (si_to_bare (siLib E) message msg)
                    else if e = ErrNotExistingAccount then si_reply E message ''service-unavailable''
                    else if e = ErrRemoteServerNotFound then si_reply E message ''remote-server-not-found''
                    else if e = ErrRemoteServerTimeout then si_reply E message ''remote-server-timeout''
                    else if e = ErrUserNotAvailable then
                      andthen (attempt (routed [])) (\<lambda>h.
                        case h of
                          Inr (True, _) \<Rightarrow> ret ()
                        | _ \<Rightarrow> si_reply E message ''service-unavailable'')
                    else throw e))"

fun si_send_msg :: "'w s2s_env \<Rightarrow> nat \<Rightarrow> element \<Rightarrow> element \<Rightarrow> ('w, unit) s2s" where
  "si_send_msg E 0 message msg = throw ErrNoReturn"
| "si_send_msg E (Suc fuel) message msg = si_round E (si_send_msg E fuel message) message msg"

definition siProcessMessage :: "'w s2s_env \<Rightarrow> nat \<Rightarrow> element \<Rightarrow> ('w, unit) s2s" where
  "siProcessMessage E fuel message =
     andthen (si_hook E ''s2s.in.stream.message_received'' [] message) (\<lambda>_. si_send_msg E fuel message message)"

definition siProcessPresence :: "'w s2s_env \<Rightarrow> element \<Rightarrow> ('w, unit) s2s" where
  "siProcessPresence E presence =
     andthen (si_hook E ''s2s.in.stream.presence_received'' [] presence) (\<lambda>_.
       if IsFullWithUser (siLib E) (ToJID (siLib E) presence) then
         andthen (si_hook E ''s2s.in.stream.will_route_element'' [] presence) (\<lambda>(halted, el).
           if halted then ret ()
           else case si_kind (siLib E) PresenceKind el of
             None \<Rightarrow> ret ()
           | Some outPr \<Rightarrow>
               andthen (attempt (s_ext (siRoute E outPr))) (\<lambda>r.
                 let routed = (\<lambda>targets. andthen (si_hook E ''s2s.in.stream.presence_routed'' targets presence) (\<lambda>_. ret ()))
                 in case r of
                      Inr targets \<Rightarrow> routed targets
                    | Inl e \<Rightarrow> if e = ErrUserNotAvailable then routed [] else ret ()))
       else ret ())"

definition siProcessStanza :: "'w s2s_env \<Rightarrow> nat \<Rightarrow> element \<Rightarrow> ('w, unit) s2s" where
  "siProcessStanza E fuel stanza =
     andthen (s_ext (gets (siIsComponentHost E (Domain (ToJID (siLib E) stanza))))) (\<lambda>isComp.
       if isComp then s_ext (siCompProcessStanza E stanza)
       else case StanzaKind (siLib E) stanza of
              IQKind \<Rightarrow> siProcessIQ E stanza
            | PresenceKind \<Rightarrow> siProcessPresence E stanza
            | MessageKind \<Rightarrow> siProcessMessage E fuel stanza
            | NotStanza \<Rightarrow> siDisconnect E (Some (stream_E UnsupportedStanzaType)))"

section \<open>Elements received\<close>

definition si_features :: "sflags \<Rightarrow> element" where
  "si_features f =
     Element ''stream:features'' [(''xmlns:stream'', ''http://etherx.jabber.org/streams''), (''version'', ''1.0'')] []
       (if \<not> sIsSecured f then [s_elem ''starttls'' s2sTlsNamespace [Element ''required'' [] [] []]]
        else (if \<not> sIsAuthenticated f then [s_elem ''mechanisms'' s2sSaslNamespace [Element ''mechanism'' [] ''EXTERNAL'' []]] else []) @
             [s_elem ''dialback'' s2sDialbackNamespace []])"

definition siHandleConnecting :: "'w s2s_env \<Rightarrow> element \<Rightarrow> ('w, unit) s2s" where
  "siHandleConnecting E el =
     (let X = siLib E; to = Attribute X el ''to''; sender = Attribute X el ''from'';
          target = (if length to = 0 then seDefaultHostName (siSes E) else to); jd = NewJID X [] sender [] True
      in andthen (s_upd (\<lambda>s. s\<lparr>siTarget := target, siSender := sender, siJd := jd\<rparr>)) (\<lambda>_.
         andthen (s_ses (SetFromJID jd)) (\<lambda>_.
         andthen (s_own siFlags) (\<lambda>f.
         andthen (siSetState siConnected) (\<lambda>_.
         andthen (s_ses (OpenStream (siSes E))) (\<lambda>_.
           s_ses (sesSendS (siSes E) (si_features f))))))))"

definition si_authorized :: "sflags \<Rightarrow> bool" where
  "si_authorized f \<longleftrightarrow> sIsAuthenticated f \<or> isDialbackKeyAuthorized f"

definition siHandleConnected :: "'w s2s_env \<Rightarrow> nat \<Rightarrow> element \<Rightarrow> ('w, unit) s2s" where
  "siHandleConnected E fuel el =
     andthen (s_own siFlags) (\<lambda>f.
       if \<not> sIsSecured f then siProceedStartTLS E el
       else if Name el = ''auth'' \<and> \<not> sIsAuthenticated f then siAuthenticate E el
       else if Name el = ''db:result'' \<and> \<not> isDialbackKeyAuthorized f then siAuthorizeDialbackKey E el
       else if Name el = ''db:verify'' then siVerifyDialbackKey E el
       else if si_authorized f then
         andthen (si_hook E ''s2s.in.stream.stanza_received'' [] el) (\<lambda>(halted, el').
           if halted then ret ()
           else case el' of
             None \<Rightarrow> siDisconnect E (Some (stream_E UnsupportedStanzaType))
           | Some st \<Rightarrow>
               if StanzaKind (siLib E) st \<noteq> NotStanza then siProcessStanza E fuel st
               else siDisconnect E (Some (stream_E UnsupportedStanzaType)))
       else ret ())"

definition siHandleElement :: "'w s2s_env \<Rightarrow> nat \<Rightarrow> element \<Rightarrow> ('w, unit) s2s" where
  "siHandleElement E fuel el =
     andthen (s_own siState) (\<lambda>st.
       case st of
         siConnecting \<Rightarrow> siHandleConnecting E el
       | siConnected \<Rightarrow> siHandleConnected E fuel el
       | _ \<Rightarrow> ret ())"

section \<open>Runs\<close>

definition siStart :: "'w s2s_env \<Rightarrow> ('w, unit) s2s" where
  "siStart E =
     andthen (s_own siId) (\<lambda>i.
     andthen (s_ext (siRegister E i)) (\<lambda>_.
     andthen si_id_info (\<lambda>info.
     andthen (siRunHook E ''s2s.in.stream.registered'' info) (\<lambda>_. siRestartSession E))))"

datatype si_event =
    SiRead
  | SiTimeout
  | SiDisconnectRequest "stream_error option"
  | SiTimer nat
  | SiDialback nat bool

text \<open>A result of the read loop, run on the queue. A reception may be under way when another task
  closes the stream, so it is possible in every state.\<close>

definition siReadNext :: "'w s2s_env \<Rightarrow> nat \<Rightarrow> ('w, unit) s2s" where
  "siReadNext E fuel = (\<lambda>(s, x).
     case Receive (siSes E) x of
       (Inr (Some el), x') \<Rightarrow> siHandleElement E fuel el (s, x')
     | (Inr None, x') \<Rightarrow> (Inr (), (s, x'))
     | (Inl e, x') \<Rightarrow>
         if e \<in> {SesPanic, SesParse ParserPanic} then (Inl ErrPanic, (s, x')) else siHandleSessionError E e (s, x'))"

text \<open>The answer to the \<open>i\<close>-th dialback request the stream waits for.\<close>

definition siDialbackAnswer :: "'w s2s_env \<Rightarrow> nat \<Rightarrow> bool \<Rightarrow> ('w, unit) s2s" where
  "siDialbackAnswer E i valid =
     andthen (s_own siWaiting) (\<lambda>ws.
       if i < length ws then
         andthen (s_upd (\<lambda>s. s\<lparr>siWaiting := take i ws @ drop (Suc i) ws\<rparr>)) (\<lambda>_.
           siHandleDialbackResult E (fst (ws ! i)) (snd (ws ! i)) valid)
       else ret ())"

fun si_task :: "'w s2s_env \<Rightarrow> nat \<Rightarrow> si_event \<Rightarrow> ('w, unit) s2s" where
  "si_task E fuel SiRead = siReadNext E fuel"
| "si_task E fuel SiTimeout = siConnTimeout E"
| "si_task E fuel (SiDisconnectRequest se) = siDisconnect E se"
| "si_task E fuel (SiTimer t) = siFireTimer E t"
| "si_task E fuel (SiDialback i valid) = siDialbackAnswer E i valid"

definition si_run :: "'w s2s_env \<Rightarrow> nat \<Rightarrow> si_event list \<Rightarrow> in_s2s \<times> session \<times> 'w \<Rightarrow> in_s2s \<times> session \<times> 'w" where
  "si_run E fuel evs st = snd (run_all (si_task E fuel) evs st)"

section \<open>The hub\<close>

text \<open>\<^verbatim>\<open>InHub\<close>: the identifiers of the registered streams.\<close>

definition hubRegister :: "nat \<Rightarrow> nat set \<Rightarrow> nat set" where
  "hubRegister i h = insert i h"

definition hubUnregister :: "nat \<Rightarrow> nat set \<Rightarrow> nat set" where
  "hubUnregister i h = h - {i}"

end
