(* ===== verification/Srv_Resolver.thy ===== *)
theory Srv_Resolver
  imports Prelude "HOL-Library.List_Lexorder" "HOL-Library.Char_ord"
begin

text \<open>
  Service records of the domain name system (\<^verbatim>\<open>src/pkg/util/dns/srvresolver.go\<close>): the parser of record
  names and the resolver, which looks a record up time and again and reports which targets are new
  and which are gone. The look-up itself is the network's; its answers are arguments.
\<close>

section \<open>Addresses\<close>

text \<open>The fields used of \<^verbatim>\<open>net.SRV\<close>, and \<^verbatim>\<open>net.JoinHostPort\<close>.\<close>

record srv_addr =
  saTarget :: string
  saPort :: nat

definition JoinHostPort :: "string \<Rightarrow> string \<Rightarrow> string" where
  "JoinHostPort host port = (if CHR '':'' \<in> set host then ''['' @ host @ '']:'' @ port else host @ '':'' @ port)"

definition trim_dot :: "string \<Rightarrow> string" where
  "trim_dot s = (if has_suffix s ''.'' then butlast s else s)"

section \<open>The resolver\<close>

record srv_update =
  NewTargets :: "string list"
  OldTargets :: "string list"

text \<open>The targets of the last resolution and the updates that are sent and not yet received: the channel
  has room for one, and one more may wait to be sent.\<close>

record srv_resolver =
  rsTargets :: "string list"
  rsUpdates :: "srv_update list"
  rsClosed :: bool

definition newSRVResolver :: srv_resolver where
  "newSRVResolver = \<lparr>rsTargets = [], rsUpdates = [], rsClosed = False\<rparr>"

fun srv_targets :: "srv_addr list \<Rightarrow> string list" where
  "srv_targets [] = []"
| "srv_targets (addr # addrs) =
     (if saTarget addr = ''.'' then srv_targets addrs
      else JoinHostPort (trim_dot (saTarget addr)) (itoa_nat (saPort addr)) # srv_targets addrs)"

text \<open>The loop over the old targets: it deletes from the index \<open>m\<close> of resolved targets the ones it finds
  and returns the others, with what is left of the index.\<close>

fun old_targets :: "string list \<Rightarrow> string list \<Rightarrow> string list \<times> string list" where
  "old_targets [] m = ([], m)"
| "old_targets (target # targets) m =
     (if target \<notin> set m then (case old_targets targets m of (old, m') \<Rightarrow> (target # old, m'))
      else old_targets targets (removeAll target m))"

text \<open>The keys of the index are listed once each; \<open>order\<close> is the order in which Go iterates over the
  ones that are left.\<close>

definition srv_resolve :: "(string list \<Rightarrow> string list) \<Rightarrow> (go_error + srv_addr list) \<Rightarrow> (srv_resolver, srv_update) go" where
  "srv_resolve order answer = (\<lambda>r.
     case answer of
       Inl e \<Rightarrow> (Inl e, r)
     | Inr addrs \<Rightarrow>
         let srvTargets = srv_targets addrs;
             (old, m) = old_targets (rsTargets r) (remdups srvTargets)
         in (Inr \<lparr>NewTargets = order m, OldTargets = old\<rparr>, r\<lparr>rsTargets := sort_slice (<) srvTargets\<rparr>))"

text \<open>A tick of \<^verbatim>\<open>runLoop\<close>. While an update waits to be sent there is none. After \<^verbatim>\<open>Close\<close> the loop may
  still choose the tick, and sending on the closed channel panics.\<close>

definition rsv_tick :: "(string list \<Rightarrow> string list) \<Rightarrow> (go_error + srv_addr list) \<Rightarrow> (srv_resolver, unit) go" where
  "rsv_tick order answer =
     andthen (gets (\<lambda>r. length (rsUpdates r))) (\<lambda>n.
       if 1 < n then ret ()
       else
         andthen (attempt (srv_resolve order answer)) (\<lambda>res.
           case res of
             Inl _ \<Rightarrow> ret ()
           | Inr u \<Rightarrow>
               if length (NewTargets u) = 0 \<and> length (OldTargets u) = 0 then ret ()
               else andthen (gets rsClosed) (\<lambda>c.
                 if c then throw ErrPanic else modify (\<lambda>r. r\<lparr>rsUpdates := rsUpdates r @ [u]\<rparr>))))"

text \<open>\<^verbatim>\<open>Close\<close>: closing the update channel while the loop waits to send on it panics there; closing twice
  panics here.\<close>

definition rsv_close :: "(srv_resolver, unit) go" where
  "rsv_close =
     andthen (gets (\<lambda>r. rsClosed r \<or> 1 < length (rsUpdates r))) (\<lambda>p.
       if p then throw ErrPanic else modify (\<lambda>r. r\<lparr>rsClosed := True\<rparr>))"

text \<open>As long as no target is listed twice, the differences say which targets are gone and which are new,
  and applying them gives the new targets.\<close>

lemma old_targets_spec:
  "distinct ts \<Longrightarrow> old_targets ts m = (filter (\<lambda>t. t \<notin> set m) ts, filter (\<lambda>t. t \<notin> set ts) m)"
proof (induction ts arbitrary: m)
  case (Cons t ts)
  have "filter (\<lambda>x. x \<notin> set (removeAll t m)) ts = filter (\<lambda>x. x \<notin> set m) ts" using Cons.prems by (intro filter_cong) auto
  moreover have "filter (\<lambda>x. x \<notin> set ts) (removeAll t m) = filter (\<lambda>x. x \<notin> set (t # ts)) m"
    by (auto simp: removeAll_filter_not_eq intro: filter_cong)
  moreover have "filter (\<lambda>x. x \<notin> set (t # ts)) m = filter (\<lambda>x. x \<notin> set ts) m" if "t \<notin> set m" using that by (intro filter_cong) auto
  ultimately show ?case using Cons by simp
qed simp

definition apply_update :: "srv_update \<Rightarrow> string multiset \<Rightarrow> string multiset" where
  "apply_update u S = S - mset (OldTargets u) + mset (NewTargets u)"

lemma diff_mset:
  assumes "distinct a" and "distinct b"
  shows "mset a - mset (filter (\<lambda>x. x \<notin> set b) a) + mset (filter (\<lambda>x. x \<notin> set a) b) = mset b"
proof (rule multiset_eqI)
  have c: "count (mset xs) x = (if x \<in> set xs then 1 else 0)" if "distinct xs" for xs :: "'a list" and x
    using that unfolding distinct_count_atmost_1 by simp
  show "count (mset a - mset (filter (\<lambda>x. x \<notin> set b) a) + mset (filter (\<lambda>x. x \<notin> set a) b)) x = count (mset b) x" for x
    using assms by (simp add: c)
qed

lemma srv_resolve_update:
  assumes "distinct (rsTargets r)" and "distinct (srv_targets addrs)" and "\<And>xs. mset (order xs) = mset xs"
  obtains u where "srv_resolve order (Inr addrs) r = (Inr u, r\<lparr>rsTargets := sort_slice (<) (srv_targets addrs)\<rparr>)"
    and "apply_update u (mset (rsTargets r)) = mset (srv_targets addrs)" and "mset (OldTargets u) \<subseteq># mset (rsTargets r)"
proof -
  let ?u = "\<lparr>NewTargets = order (filter (\<lambda>t. t \<notin> set (rsTargets r)) (srv_targets addrs)),
    OldTargets = filter (\<lambda>t. t \<notin> set (srv_targets addrs)) (rsTargets r)\<rparr>"
  show thesis
  proof (rule that [of ?u])
    show "srv_resolve order (Inr addrs) r = (Inr ?u, r\<lparr>rsTargets := sort_slice (<) (srv_targets addrs)\<rparr>)"
      using assms(1,2) by (simp add: srv_resolve_def old_targets_spec distinct_remdups_id Let_def)
    show "apply_update ?u (mset (rsTargets r)) = mset (srv_targets addrs)"
      using diff_mset [OF assms(1,2)] assms(3) by (simp add: apply_update_def)
    show "mset (OldTargets ?u) \<subseteq># mset (rsTargets r)" by (simp add: multiset_filter_subset)
  qed
qed

section \<open>Record names\<close>

definition errBadSRVFormat :: go_error where
  "errBadSRVFormat = ErrText ''bad SRV record format''"

text \<open>One round of the loop of \<^verbatim>\<open>ParseSRVRecord\<close>: the label up to the first dot, without its underscore.\<close>

definition srv_label :: "string \<Rightarrow> go_error + string \<times> string" where
  "srv_label remaining =
     (if CHR ''.'' \<notin> set remaining then Inl errBadSRVFormat
      else
        let split = takeWhile (\<lambda>c. c \<noteq> CHR ''.'') remaining
        in if \<not> has_prefix split ''_'' then Inl errBadSRVFormat
           else Inr (drop 1 split, drop (length split + 1) remaining))"

definition ParseSRVRecord :: "string \<Rightarrow> go_error + string \<times> string \<times> string" where
  "ParseSRVRecord rec =
     (case srv_label rec of
        Inl e \<Rightarrow> Inl e
      | Inr (srv, rest) \<Rightarrow>
          (case srv_label rest of
             Inl e \<Rightarrow> Inl e
           | Inr (proto, remaining) \<Rightarrow>
               if length remaining = 0 then Inl errBadSRVFormat else Inr (srv, proto, remaining)))"

lemma takeWhile_upto: "c \<notin> set p \<Longrightarrow> takeWhile (\<lambda>x. x \<noteq> c) (p @ c # q) = p"
  by (induction p) auto

lemma srv_label_iff:
  "srv_label s = Inr (l, rest) \<longleftrightarrow> s = ''_'' @ l @ ''.'' @ rest \<and> CHR ''.'' \<notin> set l"
proof
  assume a: "srv_label s = Inr (l, rest)"
  then have dot: "CHR ''.'' \<in> set s" by (auto simp: srv_label_def split: if_splits)
  then obtain p q where s: "s = p @ CHR ''.'' # q" "CHR ''.'' \<notin> set p" by (metis split_list_first)
  have "takeWhile (\<lambda>c. c \<noteq> CHR ''.'') s = p" using s by (simp add: takeWhile_upto)
  with a dot s show "s = ''_'' @ l @ ''.'' @ rest \<and> CHR ''.'' \<notin> set l"
    by (cases p) (auto simp: srv_label_def has_prefix_def Let_def split: if_splits)
next
  assume a: "s = ''_'' @ l @ ''.'' @ rest \<and> CHR ''.'' \<notin> set l"
  then have "takeWhile (\<lambda>c. c \<noteq> CHR ''.'') s = CHR ''_'' # l" by (simp add: takeWhile_upto)
  with a show "srv_label s = Inr (l, rest)" by (simp add: srv_label_def has_prefix_def)
qed

text \<open>The parser accepts the names of the form \<^verbatim>\<open>_service._proto.name\<close>, and no others.\<close>

theorem parse_srv_record:
  "ParseSRVRecord rec = Inr (srv, proto, name) \<longleftrightarrow>
     rec = ''_'' @ srv @ ''._'' @ proto @ ''.'' @ name \<and> CHR ''.'' \<notin> set srv \<and> CHR ''.'' \<notin> set proto \<and> name \<noteq> []"
proof
  assume "ParseSRVRecord rec = Inr (srv, proto, name)"
  then obtain rest where "srv_label rec = Inr (srv, rest)" "srv_label rest = Inr (proto, name)" "name \<noteq> []"
    by (auto simp: ParseSRVRecord_def split: sum.splits prod.splits if_splits)
  then show "rec = ''_'' @ srv @ ''._'' @ proto @ ''.'' @ name \<and> CHR ''.'' \<notin> set srv \<and> CHR ''.'' \<notin> set proto \<and> name \<noteq> []"
    by (simp add: srv_label_iff)
next
  assume a: "rec = ''_'' @ srv @ ''._'' @ proto @ ''.'' @ name \<and> CHR ''.'' \<notin> set srv \<and> CHR ''.'' \<notin> set proto \<and> name \<noteq> []"
  then have "srv_label rec = Inr (srv, ''_'' @ proto @ ''.'' @ name)" "srv_label (''_'' @ proto @ ''.'' @ name) = Inr (proto, name)"
    by (simp_all only: srv_label_iff) simp_all
  with a show "ParseSRVRecord rec = Inr (srv, proto, name)" by (simp only: ParseSRVRecord_def) simp
qed

end
