(* ===== verification/S2S_Out.thy ===== *)
theory S2S_Out
  imports S2S_In Srv_Resolver
begin

text \<open>
  Streams to other servers (\<^verbatim>\<open>src/pkg/s2s/out.go\<close>), the dialer (\<^verbatim>\<open>src/pkg/s2s/dialer.go\<close>) and the provider
  that keeps one stream per pair of domains (\<^verbatim>\<open>src/pkg/s2s/out_provider.go\<close>).
  \<^item> \<open>out_s2s\<close> holds the fields of \<^verbatim>\<open>outS2S\<close>, with the result channel of a dialback stream as the list of
    results sent on it; \<open>out_env\<close> its collaborators. As for incoming streams a computation acts on
    the stream, its session and the state behind the collaborators. The session exists once the
    stream has dialed; before, using it panics.
  \<^item> The tasks of the run queue are the events of \<open>so_event\<close>.
\<close>

section \<open>The dialer\<close>

record 'w out_dialer =
  dlResolve :: "string \<Rightarrow> string \<Rightarrow> ('w, srv_addr list) go"
  dlDial :: "string \<Rightarrow> ('w, nat) go"
  dlDialTLS :: "string \<Rightarrow> ('w, nat) go"

fun dial_addrs :: "'w out_dialer \<Rightarrow> bool \<Rightarrow> srv_addr list \<Rightarrow> ('w, nat) go" where
  "dial_addrs D dialTLS [] = throw (ErrText ''s2s: failed to dial SRV'')"
| "dial_addrs D dialTLS (a # as) =
     (if saTarget a = ''.'' then dial_addrs D dialTLS as
      else
        let host = (if has_suffix (saTarget a) ''.'' then butlast (saTarget a) else saTarget a);
            address = JoinHostPort host (itoa_nat (saPort a))
        in andthen (attempt (if dialTLS then dlDialTLS D address else dlDial D address)) (\<lambda>r.
             case r of Inr conn \<Rightarrow> ret conn | Inl _ \<Rightarrow> dial_addrs D dialTLS as))"

definition dialSRV :: "'w out_dialer \<Rightarrow> string \<Rightarrow> string \<Rightarrow> bool \<Rightarrow> ('w, nat) go" where
  "dialSRV D remoteDomain service dialTLS = andthen (dlResolve D service remoteDomain) (dial_addrs D dialTLS)"

definition DialContext :: "'w out_dialer \<Rightarrow> string \<Rightarrow> ('w, nat \<times> bool) go" where
  "DialContext D remoteDomain =
     andthen (attempt (dialSRV D remoteDomain ''xmpps-server'' True)) (\<lambda>r.
       case r of
         Inr conn \<Rightarrow> ret (conn, True)
       | Inl _ \<Rightarrow>
           andthen (attempt (dialSRV D remoteDomain ''xmpp-server'' False)) (\<lambda>r'.
             case r' of
               Inr conn \<Rightarrow> ret (conn, False)
             | Inl _ \<Rightarrow> andthen (dlDial D (JoinHostPort remoteDomain ''5269'')) (\<lambda>conn. ret (conn, False))))"

section \<open>Data\<close>

datatype out_type = defaultType | dialbackType

datatype out_state =
    outConnecting | outConnected | outSecuring | outAuthenticating | outAuthenticated
  | outVerifyingDialbackKey | outAuthorizingDialbackKey | outDisconnected

record dialback_result =
  drValid :: bool
  drError :: "element option"

record out_s2s =
  soTyp :: out_type
  soSender :: string
  soTarget :: string
  soDbParams :: db_params
  soDialed :: bool
  soState :: out_state
  soFlags :: sflags
  soPending :: "element list"
  soResults :: "dialback_result list"
  soResClosed :: bool

record 'w out_env =
  soSes :: "'w ses_env"
  soDialer :: "'w out_dialer"
  soIsTimeout :: "go_error \<Rightarrow> bool"
  soNewTransport :: "nat \<Rightarrow> ('w, unit) go"
  soDefaultS2S :: shaper
  soSetReadRateLimiter :: "shaper \<Rightarrow> ('w, unit) go"
  soStartTLS :: "('w, unit) go"
  soTrClose :: "('w, unit) go"
  soMaxStanzaSize :: int
  soDbSecret :: string
  soHashes :: hashes
  soKV :: "'w db_kv"
  soEncode64 :: "string \<Rightarrow> string"
  soOnClose :: "string \<Rightarrow> string \<Rightarrow> ('w, unit) go"
  soHooks :: "(out_s2s \<times> session \<times> 'w, s2s_info) hooks"

type_synonym ('w, 'a) so = "(out_s2s \<times> session \<times> 'w, 'a) go"

abbreviation soLib :: "'w out_env \<Rightarrow> xlib" where
  "soLib E \<equiv> seLib (soSes E)"

definition o_ext :: "('w, 'a) go \<Rightarrow> ('w, 'a) so" where
  "o_ext f = (\<lambda>(s, ss, w). case f w of (r, w') \<Rightarrow> (r, (s, ss, w')))"

definition o_ses :: "('w, 'a) ses \<Rightarrow> ('w, 'a) so" where
  "o_ses f = (\<lambda>(s, x). if soDialed s then (case f x of (r, x') \<Rightarrow> (r, (s, x'))) else (Inl ErrPanic, (s, x)))"

definition o_own :: "(out_s2s \<Rightarrow> 'a) \<Rightarrow> ('w, 'a) so" where
  "o_own f = gets (\<lambda>(s, x). f s)"

definition o_upd :: "(out_s2s \<Rightarrow> out_s2s) \<Rightarrow> ('w, unit) so" where
  "o_upd f = modify (\<lambda>(s, x). (f s, x))"

definition no_params :: db_params where
  "no_params = \<lparr>dpStreamID = [], dpFrom = [], dpTo = [], dpKey = []\<rparr>"

definition newOutS2S :: "string \<Rightarrow> string \<Rightarrow> out_s2s" where
  "newOutS2S sender target =
     \<lparr>soTyp = defaultType, soSender = sender, soTarget = target, soDbParams = no_params, soDialed = False, soState = outConnecting,
      soFlags = 0, soPending = [], soResults = [], soResClosed = False\<rparr>"

definition newDialbackS2S :: "string \<Rightarrow> string \<Rightarrow> db_params \<Rightarrow> out_s2s" where
  "newDialbackS2S sender target params = (newOutS2S sender target)\<lparr>soTyp := dialbackType, soDbParams := params\<rparr>"

section \<open>Operations\<close>

definition soSetState :: "out_state \<Rightarrow> ('w, unit) so" where
  "soSetState st = o_upd (\<lambda>s. s\<lparr>soState := st\<rparr>)"

definition s2s_out_id :: "string \<Rightarrow> string \<Rightarrow> string" where
  "s2s_out_id sender target = ''s2s:out:'' @ sender @ ''-'' @ target"

definition soRunHook :: "'w out_env \<Rightarrow> string \<Rightarrow> s2s_info \<Rightarrow> ('w, unit) so" where
  "soRunHook E hookName info =
     andthen (o_own soTyp) (\<lambda>typ.
       if typ = dialbackType then ret () else andthen (Run (soHooks E) hookName info) (\<lambda>_. ret ()))"

definition so_id_info :: "('w, s2s_info) so" where
  "so_id_info = o_own (\<lambda>s. \<lparr>sfID = s2s_out_id (soSender s) (soTarget s), sfSender = [], sfTarget = [], sfTargets = [], sfElement = None\<rparr>)"

definition soSendElement :: "'w out_env \<Rightarrow> element \<Rightarrow> ('w, unit) so" where
  "soSendElement E el =
     andthen (o_ses (sesSendS (soSes E) el)) (\<lambda>_.
     andthen so_id_info (\<lambda>info.
     andthen (o_own (\<lambda>s. s)) (\<lambda>s.
       soRunHook E ''s2s.out.stream.element_sent'' (info\<lparr>sfSender := soSender s, sfTarget := soTarget s, sfElement := Some el\<rparr>))))"

definition soRestartSession :: "'w out_env \<Rightarrow> ('w, unit) so" where
  "soRestartSession E = andthen (ignore (o_ses (sesResetS (soSes E)))) (\<lambda>_. soSetState outConnecting)"

definition soClose :: "'w out_env \<Rightarrow> ('w, unit) so" where
  "soClose E =
     andthen (soSetState outDisconnected) (\<lambda>_.
     andthen (o_own (\<lambda>s. s)) (\<lambda>s.
     andthen (if soTyp s = defaultType then o_ext (soOnClose E (soSender s) (soTarget s)) else ret ()) (\<lambda>_.
     andthen (if soTyp s = dialbackType then
                (if soResClosed s then throw ErrPanic else o_upd (\<lambda>s. s\<lparr>soResClosed := True\<rparr>))
              else ret ()) (\<lambda>_.
     andthen so_id_info (\<lambda>info.
     andthen (soRunHook E ''s2s.out.stream.disconnected'' info) (\<lambda>_.
       if soDialed s then ignore (o_ext (soTrClose E)) else throw ErrPanic))))))"

definition soDisconnect :: "'w out_env \<Rightarrow> stream_error option \<Rightarrow> ('w, unit) so" where
  "soDisconnect E streamErr =
     andthen (o_own (\<lambda>s. s)) (\<lambda>s.
       if \<not> soDialed s then throw ErrPanic \<comment> \<open>a method call on a nil session\<close>
       else
         andthen (if soState s = outConnecting then ignore (o_ses (OpenStream (soSes E))) else ret ()) (\<lambda>_.
         andthen (case streamErr of None \<Rightarrow> ret () | Some se \<Rightarrow> soSendElement E (StreamErrorElement (soLib E) se)) (\<lambda>_.
         andthen (ignore (o_ses (sesCloseS (soSes E)))) (\<lambda>_. soClose E))))"

definition soFinishAuthentication :: "'w out_env \<Rightarrow> ('w, unit) so" where
  "soFinishAuthentication E =
     andthen (soSetState outAuthenticated) (\<lambda>_.
     andthen (o_own soPending) (\<lambda>q.
     andthen (for_each q (soSendElement E)) (\<lambda>_.
       o_upd (\<lambda>s. s\<lparr>soPending := []\<rparr>))))"

definition soSendOrEnqueueElement :: "'w out_env \<Rightarrow> element \<Rightarrow> ('w, unit) so" where
  "soSendOrEnqueueElement E el =
     andthen (o_own soState) (\<lambda>st.
       if st = outAuthenticated then soSendElement E el
       else o_upd (\<lambda>s. s\<lparr>soPending := soPending s @ [el]\<rparr>))"

definition soDial :: "'w out_env \<Rightarrow> ('w, unit) so" where
  "soDial E =
     andthen (o_own soTarget) (\<lambda>target.
     andthen (attempt (o_ext (DialContext (soDialer E) target))) (\<lambda>r.
       case r of
         Inl e \<Rightarrow> if soIsTimeout E e then throw (ErrText ''s2s: remote server timeout'') else throw e
       | Inr (conn, usesTLS) \<Rightarrow>
           andthen (o_ext (soNewTransport E conn)) (\<lambda>_.
           andthen (o_ext (soSetReadRateLimiter E (soDefaultS2S E))) (\<lambda>_.
           andthen (o_ext (newSession (soSes E) S2SSession True (soMaxStanzaSize E))) (\<lambda>ss.
           andthen (modify (\<lambda>(s, _, w). (s\<lparr>soDialed := True\<rparr>, ss, w))) (\<lambda>_.
           andthen (o_ses (SetFromJID (NewJID (soLib E) [] target [] True))) (\<lambda>_.
             if usesTLS then o_upd (\<lambda>s. s\<lparr>soFlags := sSetSecured (soFlags s)\<rparr>) else ret ())))))))"

definition soStart :: "'w out_env \<Rightarrow> ('w, unit) so" where
  "soStart E =
     andthen (soRestartSession E) (\<lambda>_.
     andthen (ignore (o_ses (OpenStream (soSes E)))) (\<lambda>_.
     andthen so_id_info (\<lambda>info. soRunHook E ''s2s.out.stream.connected'' info)))"

section \<open>Elements received\<close>

definition hasExternalAuthMechanism :: "xlib \<Rightarrow> element \<Rightarrow> bool" where
  "hasExternalAuthMechanism X features =
     (case ChildNamespace X features ''mechanisms'' s2sSaslNamespace of
        None \<Rightarrow> False
      | Some m \<Rightarrow> \<exists>c \<in> set (AllChildren m). Name c = ''mechanism'' \<and> Text c = ''EXTERNAL'')"

definition hasDialbackFeature :: "xlib \<Rightarrow> element \<Rightarrow> bool" where
  "hasDialbackFeature X features = (ChildNamespace X features ''dialback'' s2sDialbackNamespace \<noteq> None)"

definition soHandleConnected :: "'w out_env \<Rightarrow> element \<Rightarrow> ('w, unit) so" where
  "soHandleConnected E el =
     (let X = soLib E in
      if Name el \<noteq> ''stream:features'' then soDisconnect E (Some (stream_E UnsupportedStanzaType))
      else andthen (o_own (\<lambda>s. s)) (\<lambda>s.
        if \<not> sIsSecured (soFlags s) then
          (if ChildNamespace X el ''starttls'' s2sTlsNamespace = None then soDisconnect E (Some (stream_E PolicyViolation))
           else andthen (soSetState outSecuring) (\<lambda>_. soSendElement E (s_elem ''starttls'' s2sTlsNamespace [])))
        else if sIsAuthenticated (soFlags s) then soFinishAuthentication E
        else case soTyp s of
          defaultType \<Rightarrow>
            if hasExternalAuthMechanism X el then
              andthen (soSetState outAuthenticating) (\<lambda>_.
                soSendElement E (Element ''auth'' [(''xmlns'', s2sSaslNamespace), (''mechanism'', ''EXTERNAL'')] (soEncode64 E (soSender s)) []))
            else if hasDialbackFeature X el then
              andthen (o_ses (ses_get ssStreamID)) (\<lambda>streamID.
              andthen (o_ext (registerDbRequest (soKV E) (soTarget s) (soSender s) streamID)) (\<lambda>_.
              andthen (soSetState outVerifyingDialbackKey) (\<lambda>_.
                soSendElement E (Element ''db:result'' [(''from'', soSender s), (''to'', soTarget s)]
                  (dbKey (soHashes E) (soDbSecret E) (soTarget s) (soSender s) streamID) []))))
            else soDisconnect E (Some (stream_E RemoteConnectionFailed))
        | dialbackType \<Rightarrow>
            andthen (soSetState outAuthorizingDialbackKey) (\<lambda>_.
              soSendElement E (Element ''db:verify'' [(''id'', dpStreamID (soDbParams s)), (''from'', dpFrom (soDbParams s)),
                (''to'', dpTo (soDbParams s))] (dpKey (soDbParams s)) []))))"

definition soHandleSecuring :: "'w out_env \<Rightarrow> element \<Rightarrow> ('w, unit) so" where
  "soHandleSecuring E el =
     (if Name el \<noteq> ''proceed'' then soDisconnect E (Some (stream_E UnsupportedStanzaType))
      else if Attribute (soLib E) el ''xmlns'' \<noteq> s2sTlsNamespace then soDisconnect E (Some (stream_E InvalidNamespace))
      else andthen (o_ext (soStartTLS E)) (\<lambda>_.
        andthen (o_upd (\<lambda>s. s\<lparr>soFlags := sSetSecured (soFlags s)\<rparr>)) (\<lambda>_.
        andthen (soRestartSession E) (\<lambda>_. o_ses (OpenStream (soSes E))))))"

definition soHandleAuthenticating :: "'w out_env \<Rightarrow> element \<Rightarrow> ('w, unit) so" where
  "soHandleAuthenticating E el =
     (if Attribute (soLib E) el ''xmlns'' \<noteq> s2sSaslNamespace then soDisconnect E (Some (stream_E InvalidNamespace))
      else if Name el = ''success'' then
        andthen (o_upd (\<lambda>s. s\<lparr>soFlags := sSetAuthenticated (soFlags s)\<rparr>)) (\<lambda>_.
        andthen (soRestartSession E) (\<lambda>_. o_ses (OpenStream (soSes E))))
      else if Name el = ''failure'' then soDisconnect E (Some (stream_E RemoteConnectionFailed))
      else soDisconnect E (Some (stream_E UnsupportedStanzaType)))"

definition soHandleVerifyingDialbackKey :: "'w out_env \<Rightarrow> element \<Rightarrow> ('w, unit) so" where
  "soHandleVerifyingDialbackKey E el =
     (if Name el \<noteq> ''db:result'' then soDisconnect E (Some (stream_E UnsupportedStanzaType))
      else if Attribute (soLib E) el ''type'' = ''valid'' then soFinishAuthentication E
      else soDisconnect E (Some (stream_E RemoteConnectionFailed)))"

definition soHandleAuthorizingDialbackKey :: "'w out_env \<Rightarrow> element \<Rightarrow> ('w, unit) so" where
  "soHandleAuthorizingDialbackKey E el =
     (if Name el \<noteq> ''db:verify'' then soDisconnect E (Some (stream_E UnsupportedStanzaType))
      else andthen (o_own soResClosed) (\<lambda>closed.
        if closed then throw ErrPanic \<comment> \<open>send on a closed channel\<close>
        else andthen (o_upd (\<lambda>s. s\<lparr>soResults := soResults s @
               [\<lparr>drValid = (Attribute (soLib E) el ''type'' = ''valid''), drError = Child (soLib E) el ''error''\<rparr>]\<rparr>)) (\<lambda>_.
          soDisconnect E None)))"

definition soHandleElement :: "'w out_env \<Rightarrow> element \<Rightarrow> ('w, unit) so" where
  "soHandleElement E el =
     andthen (o_own soState) (\<lambda>st.
       case st of
         outConnecting \<Rightarrow> soSetState outConnected
       | outConnected \<Rightarrow> soHandleConnected E el
       | outSecuring \<Rightarrow> soHandleSecuring E el
       | outAuthenticating \<Rightarrow> soHandleAuthenticating E el
       | outVerifyingDialbackKey \<Rightarrow> soHandleVerifyingDialbackKey E el
       | outAuthorizingDialbackKey \<Rightarrow> soHandleAuthorizingDialbackKey E el
       | _ \<Rightarrow> ret ())"

definition soHandleSessionError :: "'w out_env \<Rightarrow> ses_error \<Rightarrow> ('w, unit) so" where
  "soHandleSessionError E err =
     andthen (if err = SesParse ErrClosedByPeer then ignore (o_ses (sesCloseS (soSes E))) else ret ()) (\<lambda>_.
       ignore (soClose E))"

section \<open>Runs\<close>

text \<open>The read loop checks the state before it hands a result to the queue.\<close>

definition soReadNext :: "'w out_env \<Rightarrow> ('w, unit) so" where
  "soReadNext E = (\<lambda>(s, x).
     if soState s = outDisconnected then (Inr (), (s, x))
     else case Receive (soSes E) x of
       (Inr (Some el), x') \<Rightarrow>
         (case soHandleElement E el (s, x') of
            (Inl e, st) \<Rightarrow> ignore (soClose E) st
          | (Inr _, st) \<Rightarrow> (Inr (), st))
     | (Inr None, x') \<Rightarrow> (Inr (), (s, x'))
     | (Inl e, x') \<Rightarrow>
         if e \<in> {SesPanic, SesParse ParserPanic} then (Inl ErrPanic, (s, x')) else soHandleSessionError E e (s, x'))"

datatype so_event = SoRead | SoSend element | SoDisconnectRequest "stream_error option"

fun so_task :: "'w out_env \<Rightarrow> so_event \<Rightarrow> ('w, unit) so" where
  "so_task E SoRead = soReadNext E"
| "so_task E (SoSend el) = soSendOrEnqueueElement E el"
| "so_task E (SoDisconnectRequest se) = soDisconnect E se"

definition so_run :: "'w out_env \<Rightarrow> so_event list \<Rightarrow> out_s2s \<times> session \<times> 'w \<Rightarrow> out_s2s \<times> session \<times> 'w" where
  "so_run E evs st = snd (run_all (so_task E) evs st)"

section \<open>The provider\<close>

text \<open>\<^verbatim>\<open>OutProvider\<close>: the registered stream of each pair of domains, by a handle; creating and dialing a
  stream are the provider's own steps, between which other callers run.\<close>

record out_provider =
  opStreams :: "string \<rightharpoonup> nat"
  opNext :: nat

definition getDomainPair :: "string \<Rightarrow> string \<Rightarrow> string" where
  "getDomainPair sender target = sender @ '':'' @ target"

text \<open>\<^verbatim>\<open>GetOut\<close> up to the dial: the stream of the pair, and whether it is new.\<close>

definition getOutBegin :: "string \<Rightarrow> string \<Rightarrow> out_provider \<Rightarrow> nat \<times> bool \<times> out_provider" where
  "getOutBegin sender target p =
     (let domainPair = getDomainPair sender target
      in case opStreams p domainPair of
           Some h \<Rightarrow> (h, False, p)
         | None \<Rightarrow> (opNext p, True, p\<lparr>opStreams := (opStreams p)(domainPair \<mapsto> opNext p), opNext := Suc (opNext p)\<rparr>))"

text \<open>The entry is dropped when dialing or starting fails, and when a stream closes.\<close>

definition opUnregister :: "string \<Rightarrow> string \<Rightarrow> out_provider \<Rightarrow> out_provider" where
  "opUnregister sender target p = p\<lparr>opStreams := (opStreams p)(getDomainPair sender target := None)\<rparr>"

end
