(* ===== verification/S2S_Safety.thy ===== *)
theory S2S_Safety
  imports S2S_Out
begin

text \<open>
  What holds of the streams between servers.
  \<^item> \<open>quiet_peer\<close>: a predicate of the state behind an incoming stream that only routing, modules and
    components may break, for a peer without certificate. Under it nothing of such a peer is
    processed unless a dialback request is answered positively. What that answer, and a certificate,
    do not guarantee: that stanzas come from the domain that was verified.
  \<^item> The key an outgoing stream hands out is the one the incoming side verifies, once.
  \<^item> The order of what an outgoing stream sends.
\<close>

section \<open>Peers that have proved nothing\<close>

abbreviation unproved :: "('w \<Rightarrow> bool) \<Rightarrow> in_s2s \<times> session \<times> 'w \<Rightarrow> bool" where
  "unproved Q \<equiv> (\<lambda>st. \<not> si_authorized (siFlags (fst st)) \<and> Q (snd (snd st)))"

lemma unproved_ext: "keeps Q f \<Longrightarrow> keeps (unproved Q) (s_ext f)"
  by (simp add: keeps_def s_ext_def split_beta)

lemma unproved_own [keeps_intro]: "keeps (unproved Q) (s_own f)"
  by (simp add: s_own_def keeps_gets)

lemma unproved_upd: "(\<And>s. siFlags (f s) = siFlags s) \<Longrightarrow> keeps (unproved Q) (s_upd f)"
  by (simp add: keeps_def s_upd_def modify_run split_beta)

lemma unproved_ses: "keeps (\<lambda>x. Q (snd x)) f \<Longrightarrow> keeps (unproved Q) (s_ses f)"
  by (simp add: keeps_def s_ses_def split_beta)

lemma ses_get_keeps [keeps_intro]: "keeps P (ses_get f)"
  by (simp add: ses_get_def keeps_gets)

lemma ses_set_keeps [keeps_intro]: "keeps (\<lambda>x. Q (snd x)) (ses_set f)"
  by (simp add: keeps_def ses_set_def modify_run split_beta)

lemma ses_ext_keeps: "keeps Q f \<Longrightarrow> keeps (\<lambda>x. Q (snd x)) (ses_ext f)"
  by (simp add: keeps_def ses_ext_def split_beta)

locale quiet_session =
  fixes S :: "'w ses_env" and Q :: "'w \<Rightarrow> bool"
  assumes writes: "keeps Q (seWriteString S str)" and flush: "keeps Q (seFlush S)" and uuid: "keeps Q (seNewUUID S)"
    and parser: "Q w \<Longrightarrow> Q (seNewParser S n w)" and parse: "Q w \<Longrightarrow> seParse S w = (r, w') \<Longrightarrow> Q w'"
begin

lemma modify_parser: "keeps Q (modify (seNewParser S n))"
  using parser by (simp add: keeps_def modify_run)

lemmas quiet_ext = ses_ext_keeps [OF writes] ses_ext_keeps [OF flush] ses_ext_keeps [OF uuid] ses_ext_keeps [OF modify_parser]

lemma quiet_send: "keeps (\<lambda>x. Q (snd x)) (sesSendS S el)"
  unfolding sesSendS_def by (intro keeps_intro quiet_ext)

lemma quiet_string: "keeps (\<lambda>x. Q (snd x)) (sendString S str)"
  unfolding sendString_def by (intro keeps_intro quiet_ext)

lemma quiet_open: "keeps (\<lambda>x. Q (snd x)) (OpenStream S)"
  unfolding OpenStream_def open_with_def by (intro keeps_intro quiet_string)

lemma quiet_close: "keeps (\<lambda>x. Q (snd x)) (sesCloseS S)"
  unfolding sesCloseS_def by (intro keeps_intro quiet_string)

lemma quiet_reset: "keeps (\<lambda>x. Q (snd x)) (sesResetS S)"
  unfolding sesResetS_def by (intro keeps_intro quiet_ext)

lemma quiet_from: "keeps (\<lambda>x. Q (snd x)) (SetFromJID j)"
  unfolding SetFromJID_def by (auto intro: keeps_intro split: option.split)

lemma quiet_receive: "Q (snd x) \<Longrightarrow> Receive S x = (r, x') \<Longrightarrow> Q (snd x')"
  using parse by (auto simp: Receive_def Let_def split: prod.splits sum.splits option.splits if_splits)

lemmas quiet_session_ops = quiet_send quiet_open quiet_close quiet_reset quiet_from

end

named_theorems up \<comment> \<open>operations that keep a peer unproved\<close>

locale quiet_peer = quiet_session "siSes E" Q for E :: "'w s2s_env" and Q +
  assumes tls: "keeps Q (siStartTLS E)" and limiter: "keeps Q (siSetReadRateLimiter E sh)" and tr_close: "keeps Q (siTrClose E)"
    and getDialback: "keeps Q (siGetDialback E a b p)"
    and kv: "keeps Q (dkGet (siKV E) k)" "keeps Q (dkDel (siKV E) k)"
    and hub: "keeps Q (siRegister E i)" "keeps Q (siUnregister E i)"
    and handlers: "h \<in> set (siHooks E name) \<Longrightarrow> keeps (unproved Q) (h_fn h info)"
    and no_cert: "Q w \<Longrightarrow> names \<in> set (siPeerCertificates E w) \<Longrightarrow> names = []"
begin

lemmas up_ext [up] = unproved_ext [OF tls] unproved_ext [OF limiter] unproved_ext [OF tr_close] unproved_ext [OF getDialback]
  unproved_ext [OF hub(1)] unproved_ext [OF hub(2)]

lemmas up_ses [up] = quiet_session_ops [THEN unproved_ses]

lemma up_get [up]: "keeps (unproved Q) (s_ses (ses_get f))"
  by (rule unproved_ses) (rule keeps_intro)

lemma up_state [up]: "keeps (unproved Q) (siSetState st)"
  unfolding siSetState_def by (rule unproved_upd) simp

lemma up_secured [up]: "keeps (unproved Q) (siSetFlag sSetSecured)"
  by (simp add: keeps_def siSetFlag_def s_upd_def modify_run split_beta si_authorized_def sflag_simps)

lemma up_hook [up]: "keeps (unproved Q) (siRunHook E name info)"
  unfolding siRunHook_def by (rule keeps_Run) (rule handlers)

lemma up_info [up]: "keeps (unproved Q) (si_info ts el)" "keeps (unproved Q) si_id_info"
  unfolding si_info_def si_id_info_def by (rule unproved_own)+

lemma up_send [up]: "keeps (unproved Q) (siSendElement E el)"
  unfolding siSendElement_def by (intro keeps_intro up)

lemma up_restart [up]: "keeps (unproved Q) (siRestartSession E)"
  unfolding siRestartSession_def by (intro keeps_intro up)

lemma up_close [up]: "keeps (unproved Q) (siClose E)"
  unfolding siClose_def
  by (intro keeps_intro up unproved_upd) (auto intro: keeps_intro split: sum.split option.split)

lemma up_disconnect [up]: "keeps (unproved Q) (siDisconnect E se)"
  unfolding siDisconnect_def
  by (cases se) (auto intro!: keeps_intro up unproved_upd)

lemma up_timer [up]: "keeps (unproved Q) (siFireTimer E t)"
  unfolding siFireTimer_def by (intro keeps_intro up unproved_upd) simp

lemma up_sessionError [up]: "keeps (unproved Q) (siHandleSessionError E e)"
  unfolding siHandleSessionError_def by (intro keeps_intro up)

lemma up_timeout [up]: "keeps (unproved Q) (siConnTimeout E)"
  unfolding siConnTimeout_def by (intro keeps_intro up)

lemma up_startTLS [up]: "keeps (unproved Q) (siProceedStartTLS E el)"
  unfolding siProceedStartTLS_def by (intro keeps_intro up)

lemma up_fail [up]: "keeps (unproved Q) (siFailAuthentication E a b)"
  unfolding siFailAuthentication_def by (rule up)

lemma up_authenticate [up]: "keeps (unproved Q) (siAuthenticate E el)"
proof (cases "Attribute (siLib E) el ''xmlns'' \<noteq> s2sSaslNamespace \<or> Attribute (siLib E) el ''mechanism'' \<noteq> ''EXTERNAL''")
  case True
  then show ?thesis unfolding siAuthenticate_def by (auto intro: up)
next
  case False
  show ?thesis
  proof (rule keepsI)
    fix st assume st: "unproved Q st"
    obtain s ss w where x: "st = (s, ss, w)" by (cases st)
    have "\<not> (\<exists>names \<in> set (siPeerCertificates E w). \<exists>d \<in> set names. d = siSender s)"
      using no_cert [of w] st x by force
    then have "siAuthenticate E el st = siFailAuthentication E ''bad-protocol'' ''Failed to get peer certificate'' st"
      using False x by (simp add: siAuthenticate_def s_ext_def s_own_def go_run)
    with keepsD [OF up_fail st] show "unproved Q (snd (siAuthenticate E el st))" by simp
  qed
qed

lemma up_authorize [up]: "keeps (unproved Q) (siAuthorizeDialbackKey E el)"
  unfolding siAuthorizeDialbackKey_def Let_def
  by (intro keeps_intro up) (auto intro!: keeps_intro up unproved_upd split: sum.split)

lemma up_request: "keeps (unproved Q) (s_ext (isDbRequestOn (siKV E) a b c))"
  by (rule unproved_ext) (auto simp: isDbRequestOn_def Let_def intro!: keeps_intro kv split: prod.split)

lemma up_unregister: "keeps (unproved Q) (s_ext (unregisterDbRequest (siKV E) c))"
  by (rule unproved_ext) (simp add: unregisterDbRequest_def kv)

lemma up_verify [up]: "keeps (unproved Q) (siVerifyDialbackKey E el)"
  unfolding siVerifyDialbackKey_def Let_def by (intro keeps_intro up up_request up_unregister)

lemma up_connecting [up]: "keeps (unproved Q) (siHandleConnecting E el)"
  unfolding siHandleConnecting_def Let_def by (intro keeps_intro up unproved_upd) simp

lemma up_connected [up]: "keeps (unproved Q) (siHandleConnected E fuel el)"
proof (rule keepsI)
  fix st assume st: "unproved Q st"
  let ?f = "siFlags (fst st)"
  have no: "\<not> si_authorized ?f" using st by simp
  let ?m = "if \<not> sIsSecured ?f then siProceedStartTLS E el
     else if Name el = ''auth'' \<and> \<not> sIsAuthenticated ?f then siAuthenticate E el
     else if Name el = ''db:result'' \<and> \<not> isDialbackKeyAuthorized ?f then siAuthorizeDialbackKey E el
     else if Name el = ''db:verify'' then siVerifyDialbackKey E el else ret ()"
  have eq: "siHandleConnected E fuel el st = ?m st"
    using no by (cases st) (simp add: siHandleConnected_def s_own_def go_run)
  have "keeps (unproved Q) ?m" by (intro keeps_intro up)
  from keepsD [OF this st] show "unproved Q (snd (siHandleConnected E fuel el st))" unfolding eq .
qed

lemma up_element [up]: "keeps (unproved Q) (siHandleElement E fuel el)"
  unfolding siHandleElement_def by (intro keeps_intro) (auto intro: keeps_intro up split: s2s_in_state.split)

lemma up_read [up]: "keeps (unproved Q) (siReadNext E fuel)"
proof (rule keepsI)
  fix st assume st: "unproved Q st"
  obtain s x where x: "st = (s, x)" by (cases st)
  obtain r x' where r: "Receive (siSes E) x = (r, x')" using prod.exhaust by blast
  have st': "unproved Q (s, x')" using st x quiet_receive [OF _ r] by simp
  consider el where "r = Inr (Some el)" | "r = Inr None" | e where "r = Inl e" by (cases r) auto
  then show "unproved Q (snd (siReadNext E fuel st))"
  proof cases
    case (1 el)
    with x r keepsD [OF up_element st'] show ?thesis by (simp add: siReadNext_def)
  next
    case 2
    with x r st' show ?thesis by (simp add: siReadNext_def)
  next
    case (3 e)
    with x r st' keepsD [OF up_sessionError st', of e] show ?thesis by (simp add: siReadNext_def)
  qed
qed

lemma up_answer: "\<not> valid \<Longrightarrow> keeps (unproved Q) (siDialbackAnswer E i valid)"
  unfolding siDialbackAnswer_def siHandleDialbackResult_def Let_def
  by (simp, intro keeps_intro up unproved_upd, simp)

lemma up_task: "\<forall>i. ev \<noteq> SiDialback i True \<Longrightarrow> keeps (unproved Q) (si_task E fuel ev)"
  by (cases ev) (auto intro: up up_answer)

lemma up_run: "unproved Q st \<Longrightarrow> \<forall>i. SiDialback i True \<notin> set evs \<Longrightarrow> unproved Q (si_run E fuel evs st)"
proof (induction evs arbitrary: st)
  case (Cons ev evs)
  have "\<forall>i. ev \<noteq> SiDialback i True" "\<forall>i. SiDialback i True \<notin> set evs" using Cons.prems(2) by auto
  with keepsD [OF up_task Cons.prems(1)] Cons.IH [of "snd (si_task E fuel ev st)"]
  show ?case by (simp add: si_run_def split_beta)
qed (simp add: si_run_def)

end

section \<open>A peer in memory\<close>

text \<open>Elements to be received, what was written, and what was routed.\<close>

type_synonym peer_world = "element list \<times> string list \<times> element list"

definition peer_ses :: "peer_world ses_env" where
  "peer_ses = \<lparr>seLib = std_ses_lib, seIsStanza = seIsStanza std_ses, seWithoutAttribute = seWithoutAttribute std_ses,
     seBuildIQ = seBuildIQ std_ses, seBuildPresence = Some, seBuildMessage = Some,
     seToXML = (\<lambda>e closing. Name e @ (case Attrs e of [] \<Rightarrow> [] | _ \<Rightarrow> '' '' @ std_attr e ''type'') @ '':'' @ Text e),
     seDefaultHostName = ''x'', seIsLocalHost = (\<lambda>d. d = ''x''), seIsSocket = True,
     seWriteString = (\<lambda>s. modify (\<lambda>(i, out, r). (i, out @ [s], r))), seFlush = ret (),
     seParse = (\<lambda>(i, out, r). case i of [] \<Rightarrow> (Inl (NetError True ''timeout''), ([], out, r)) | e # es \<Rightarrow> (Inr (Some e), (es, out, r))),
     seNewParser = (\<lambda>_ w. w), seNewUUID = ret ''s1''\<rparr>"

definition peer_env :: "string list list \<Rightarrow> peer_world s2s_env" where
  "peer_env certs = \<lparr>siSes = peer_ses, siErrorElement = ErrorStanza std_lib, siDirectTLS = True, siPeerCertificates = (\<lambda>_. certs), siStartTLS = ret (),
     siSetReadRateLimiter = (\<lambda>_. ret ()), siTrClose = ret (), siShapers = [defaultS2SShaper],
     siRoute = (\<lambda>el. andthen (modify (\<lambda>(i, out, r). (i, out, r @ [el]))) (\<lambda>_. ret [])),
     siIsComponentHost = (\<lambda>_ _. False), siCompProcessStanza = (\<lambda>_. ret ()), siIsModuleIQ = (\<lambda>_. False), siModProcessIQ = (\<lambda>_. ret ()),
     siGetDialback = (\<lambda>_ _ _. ret ()), siDialbackSecret = ''secret'', siHashes = \<lparr>hexSha256 = (\<lambda>s. s), hexHmacSha256 = (\<lambda>k s. k @ s)\<rparr>,
     siKV = \<lparr>dkPut = (\<lambda>_ _. ret ()), dkGet = (\<lambda>_. ret []), dkDel = (\<lambda>_. ret ()), dkIsNop = True\<rparr>,
     siRegister = (\<lambda>_. ret ()), siUnregister = (\<lambda>_. ret ()), siHooks = NewHooks\<rparr>"

definition peer_header :: "string \<Rightarrow> element" where
  "peer_header from = Element ''stream:stream'' [(''xmlns'', ''jabber:server''), (''xmlns:stream'', sesStreamNamespace), (''version'', ''1.0''), (''from'', from), (''to'', ''x'')] [] []"

definition peer_message :: "string \<Rightarrow> element" where
  "peer_message from = Element ''message'' [(''from'', from), (''to'', ''ana@x'')] [] []"

definition peer_start :: "string list list \<Rightarrow> element list \<Rightarrow> in_s2s \<times> session \<times> peer_world" where
  "peer_start certs els = (newInS2S (peer_env certs) 1, \<lparr>ssTyp = S2SSession, ssIsOut = False, ssMaxStanzaSize = 0, ssStreamID = ''s0'', ssJd = no_jid,
     ssOpened = False, ssStarted = False\<rparr>, (els, [], []))"

interpretation demo_peer: quiet_peer "peer_env []" "\<lambda>(i, out, r). r = []"
  by unfold_locales
    (auto simp: peer_env_def peer_ses_def keeps_def go_run NewHooks_def split: list.splits)

section \<open>Properties of incoming streams\<close>

text \<open>
  C8. A server that shows no certificate and is not confirmed by dialback cannot reach anyone: whatever it
  sends, whatever timers fire and requests arrive, and whatever negative dialback answers come in,
  nothing is handed to the router, the modules or the components (the only collaborators that may
  change \<open>Q\<close>), and the stream never counts as authorized.
\<close>

theorem unproved_peer_is_silent:
  assumes "quiet_peer E Q" and "Q w" and "\<forall>i. SiDialback i True \<notin> set evs"
  shows "Q (snd (snd (si_run E fuel evs (newInS2S E i, ss, w)))) \<and>
    \<not> si_authorized (siFlags (fst (si_run E fuel evs (newInS2S E i, ss, w))))"
proof -
  have "\<not> si_authorized (siFlags (newInS2S E i))" by (auto simp: newInS2S_def si_authorized_def sflag_simps)
  with quiet_peer.up_run [OF assms(1), of "(newInS2S E i, ss, w)" evs fuel] assms(2,3) show ?thesis by simp
qed

theorem unproved_peer_is_silent_witness:
  "snd (snd (snd (snd (si_run (peer_env []) 2 [SiRead, SiRead, SiRead, SiDialback 0 False, SiRead]
     (peer_start [] [peer_header ''evil'', peer_message ''bob@evil'', Element ''db:result'' [(''from'', ''evil''), (''to'', ''x'')] ''key'' [], peer_message ''bob@evil'']))))) = []"
  using unproved_peer_is_silent [OF demo_peer.quiet_peer_axioms, of "([peer_header ''evil'', peer_message ''bob@evil'', Element ''db:result'' [(''from'', ''evil''), (''to'', ''x'')] ''key'' [], peer_message ''bob@evil''], [], [])"
    "[SiRead, SiRead, SiRead, SiDialback 0 False, SiRead]" 2 1 "fst (snd (peer_start [] []))"]
  by (simp add: peer_start_def split_beta)

text \<open>
  Authorization is not tied to a domain. A server whose certificate names \<open>evil\<close> authenticates, opens
  the restarted stream as \<open>victim\<close>, and its stanzas from \<open>victim\<close> are routed; and a server that opened
  its stream as \<open>victim\<close> may have \<open>evil\<close> confirmed by dialback, with the same effect.
\<close>

theorem authorized_for_another_domain:
  "snd (snd (snd (snd (si_run (peer_env [[''evil'']]) 2 [SiRead, SiRead, SiRead, SiRead]
     (peer_start [[''evil'']] [peer_header ''evil'', Element ''auth'' [(''xmlns'', s2sSaslNamespace), (''mechanism'', ''EXTERNAL'')] [] [], peer_header ''victim'', peer_message ''bob@victim'']))))) =
     [Element ''message'' [(''to'', ''ana@x''), (''from'', ''bob@victim'')] [] []] \<and>
   snd (snd (snd (snd (si_run (peer_env []) 2 [SiRead, SiRead, SiDialback 0 True, SiRead]
     (peer_start [] [peer_header ''victim'', Element ''db:result'' [(''from'', ''evil''), (''to'', ''x'')] ''key'' [], peer_message ''bob@victim'']))))) =
     [Element ''message'' [(''to'', ''ana@x''), (''from'', ''bob@victim'')] [] []]"
  by code_simp

section \<open>Dialback\<close>

definition key_element :: "'w out_env \<Rightarrow> out_s2s \<Rightarrow> string \<Rightarrow> element" where
  "key_element E s streamID = Element ''db:result'' [(''from'', soSender s), (''to'', soTarget s)]
     (dbKey (soHashes E) (soDbSecret E) (soTarget s) (soSender s) streamID) []"

definition verify_reply :: "string \<Rightarrow> string \<Rightarrow> string \<Rightarrow> string \<Rightarrow> element" where
  "verify_reply sender target streamID typ = Element ''db:verify'' [(''from'', target), (''to'', sender), (''id'', streamID), (''type'', typ)] [] []"

text \<open>An outgoing stream that is offered dialback only.\<close>

definition dialback_offered :: "'w out_env \<Rightarrow> out_s2s \<Rightarrow> element \<Rightarrow> bool" where
  "dialback_offered E s el \<longleftrightarrow> Name el = ''stream:features'' \<and> sIsSecured (soFlags s) \<and> \<not> sIsAuthenticated (soFlags s) \<and>
     soTyp s = defaultType \<and> soDialed s \<and> \<not> hasExternalAuthMechanism (soLib E) el \<and> hasDialbackFeature (soLib E) el"

lemma offered_run:
  assumes "dialback_offered E s el" and "soHandleConnected E el (s, ss, w) = (Inr (), st')"
  shows "\<exists>w1. registerDbRequest (soKV E) (soTarget s) (soSender s) (ssStreamID ss) w = (Inr (), w1) \<and>
    soSendElement E (key_element E s (ssStreamID ss)) (s\<lparr>soState := outVerifyingDialbackKey\<rparr>, ss, w1) = (Inr (), st')"
proof -
  obtain t w1 where t: "registerDbRequest (soKV E) (soTarget s) (soSender s) (ssStreamID ss) w = (t, w1)" by fastforce
  from assms t show ?thesis
    by (cases t)
      (auto simp: soHandleConnected_def Let_def dialback_offered_def key_element_def o_own_def o_ses_def o_ext_def ses_get_def
        soSetState_def o_upd_def go_run)
qed

lemma verify_run:
  assumes "seIsLocalHost (siSes E) t" and "siVerifyDialbackKey E el (s, ss, w) = (Inr (), st')"
    and "f = Attribute (siLib E) el ''from''" and "t = Attribute (siLib E) el ''to''" and "i = Attribute (siLib E) el ''id''"
  defines "good on \<equiv> on \<and> dbKey (siHashes E) (siDialbackSecret E) f t i = Text el"
  shows "\<exists>on w1 w2. isDbRequestOn (siKV E) f t i w = (Inr on, w1) \<and>
    (if good on then unregisterDbRequest (siKV E) i w1 = (Inr (), w2) else w2 = w1) \<and>
    siSendElement E (verify_reply f t i (if good on then ''valid'' else ''invalid'')) (s, ss, w2) = (Inr (), st')"
proof -
  obtain q w1 where q: "isDbRequestOn (siKV E) f t i w = (q, w1)" by fastforce
  from assms q obtain on where on: "q = Inr on"
    by (cases q) (auto simp: siVerifyDialbackKey_def Let_def s_ext_def go_run)
  show ?thesis
  proof (cases "good on")
    case True
    obtain u w2 where u: "unregisterDbRequest (siKV E) i w1 = (u, w2)" by fastforce
    with True assms q on have "u = Inr ()" "siSendElement E (verify_reply f t i ''valid'') (s, ss, w2) = (Inr (), st')"
      by (cases u; auto simp: siVerifyDialbackKey_def verify_reply_def Let_def s_ext_def go_run)+
    with True q on u show ?thesis by auto
  next
    case False
    with assms q on have "siSendElement E (verify_reply f t i ''invalid'') (s, ss, w1) = (Inr (), st')"
      by (auto simp: siVerifyDialbackKey_def verify_reply_def Let_def s_ext_def go_run split: if_splits)
    with False q on show ?thesis by auto
  qed
qed

text \<open>
  C10. The dialback key makes the round trip: when an outgoing stream is offered dialback it sends a key and
  registers the request. Asked to verify a key for that stream, the server (any of its instances, they
  share the store and the secret) answers that it is valid exactly when the key is the one computed for
  the two domains named in the question and, over a store that keeps requests, these are the domains of
  the request; after a valid answer over such a store no key of that stream is valid again. With the
  no-op store, which is the one of a server without cluster, requests are not kept: the key
  alone decides, for every pair of domains and any number of times.
\<close>

theorem dialback_key_verified:
  assumes "dkIsNop kvs \<or> dialback_kv kvs vals" and "soKV O1 = kvs" and "siKV E = kvs" and "soHashes O1 = siHashes E" and "soDbSecret O1 = siDialbackSecret E"
    and "dom_name (soSender o1)" and "dom_name (soTarget o1)" and "dialback_offered O1 o1 feats"
    and "\<And>x el. keeps (\<lambda>st. vals (snd (snd st)) = x) (soSendElement O1 el)"
    and "soHandleConnected O1 feats (o1, oss, w0) = (Inr (), (o2, oss2, w))"
    and "seIsLocalHost (siSes E) (Attribute (siLib E) el ''to'')" and "Attribute (siLib E) el ''id'' = ssStreamID oss"
    and "siVerifyDialbackKey E el (s, ss, w) = (Inr (), st')"
  defines "key_for a b \<equiv> dbKey (siHashes E) (siDialbackSecret E) a b (ssStreamID oss)"
    and "f \<equiv> Attribute (siLib E) el ''from''" and "t \<equiv> Attribute (siLib E) el ''to''"
  defines "ok \<equiv> Text el = key_for f t \<and> (dkIsNop kvs \<or> f = soTarget o1 \<and> t = soSender o1)"
  shows "Text (key_element O1 o1 (ssStreamID oss)) = key_for (soTarget o1) (soSender o1) \<and>
    (\<exists>w1. siSendElement E (verify_reply f t (ssStreamID oss) (if ok then ''valid'' else ''invalid'')) (s, ss, w1) = (Inr (), st') \<and>
      (ok \<longrightarrow> \<not> dkIsNop kvs \<longrightarrow> (\<forall>a b r w2. isDbRequestOn kvs a b (ssStreamID oss) w1 = (Inr r, w2) \<longrightarrow> \<not> r)))"
proof
  let ?i = "ssStreamID oss"
  show "Text (key_element O1 o1 ?i) = key_for (soTarget o1) (soSender o1)" by (simp add: key_element_def key_for_def assms(4,5))
  obtain on v w2 where on: "isDbRequestOn kvs f t ?i w = (Inr on, v)"
    and w2: "if on \<and> key_for f t = Text el then unregisterDbRequest kvs ?i v = (Inr (), w2) else w2 = v"
    and reply: "siSendElement E (verify_reply f t ?i (if on \<and> key_for f t = Text el then ''valid'' else ''invalid'')) (s, ss, w2) = (Inr (), st')"
    using verify_run [OF assms(11,13) refl refl refl] unfolding assms(3,12) key_for_def f_def t_def by blast
  show "\<exists>w1. siSendElement E (verify_reply f t ?i (if ok then ''valid'' else ''invalid'')) (s, ss, w1) = (Inr (), st') \<and>
      (ok \<longrightarrow> \<not> dkIsNop kvs \<longrightarrow> (\<forall>a b r w2. isDbRequestOn kvs a b ?i w1 = (Inr r, w2) \<longrightarrow> \<not> r))"
  proof (cases "dkIsNop kvs")
    case True
    with on have "on" by (simp add: isDbRequestOn_def go_run)
    with True reply show ?thesis by (auto simp: ok_def eq_commute)
  next
    case False
    with assms(1) have kv: "dialback_kv kvs vals" by simp
    from offered_run [OF assms(8,10)] assms(2) obtain w1 where reg: "registerDbRequest kvs (soTarget o1) (soSender o1) ?i w0 = (Inr (), w1)"
      and sent: "soSendElement O1 (key_element O1 o1 ?i) (o1\<lparr>soState := outVerifyingDialbackKey\<rparr>, oss, w1) = (Inr (), (o2, oss2, w))" by auto
    have "vals w1 (dbReqKey ?i) = dbReqVal (soTarget o1) (soSender o1)"
      using dialback_kv.put [OF kv reg [unfolded registerDbRequest_def]] by simp
    moreover have "vals w = vals w1" using keepsD [OF assms(9) [of "vals w1" "key_element O1 o1 ?i"], of "(o1\<lparr>soState := outVerifyingDialbackKey\<rparr>, oss, w1)"] sent by simp
    ultimately have held: "vals w (dbReqKey ?i) = dbReqVal (soTarget o1) (soSender o1)" by simp
    have "on \<longleftrightarrow> f = soTarget o1 \<and> t = soSender o1" by (rule dialback_kv.request_on [OF kv on held assms(7,6)])
    then have ok: "ok \<longleftrightarrow> on \<and> key_for f t = Text el" unfolding ok_def using False by auto
    have "ok \<Longrightarrow> vals w2 (dbReqKey ?i) = []"
      using dialback_kv.del [OF kv, of "dbReqKey ?i" v "()" w2] w2 unfolding ok [symmetric] unregisterDbRequest_def by simp
    with dialback_kv.request_off [OF kv] reply show ?thesis unfolding ok [symmetric] by blast
  qed
qed

text \<open>Two streams over a store of requests.\<close>

definition fn_kv :: "(string \<Rightarrow> string) db_kv" where
  "fn_kv = \<lparr>dkPut = (\<lambda>k v. modify (\<lambda>w. w(k := v))), dkGet = (\<lambda>k. gets (\<lambda>w. w k)), dkDel = (\<lambda>k. modify (\<lambda>w. w(k := []))), dkIsNop = False\<rparr>"

interpretation fn: dialback_kv fn_kv "\<lambda>w. w"
  by unfold_locales (auto simp: fn_kv_def go_run)

definition mute_ses :: "(string \<Rightarrow> string) ses_env" where
  "mute_ses = \<lparr>seLib = std_ses_lib, seIsStanza = seIsStanza std_ses, seWithoutAttribute = seWithoutAttribute std_ses,
     seBuildIQ = seBuildIQ std_ses, seBuildPresence = Some, seBuildMessage = Some, seToXML = (\<lambda>e closing. Name e),
     seDefaultHostName = ''x'', seIsLocalHost = (\<lambda>d. d = ''x''), seIsSocket = True, seWriteString = (\<lambda>s. ret ()), seFlush = ret (),
     seParse = (\<lambda>w. (Inl (NetError True ''timeout''), w)), seNewParser = (\<lambda>_ w. w), seNewUUID = ret ''s1''\<rparr>"

definition kv_in :: "(string \<Rightarrow> string) s2s_env" where
  "kv_in = \<lparr>siSes = mute_ses, siErrorElement = ErrorStanza std_lib, siDirectTLS = True, siPeerCertificates = (\<lambda>_. []), siStartTLS = ret (),
     siSetReadRateLimiter = (\<lambda>_. ret ()), siTrClose = ret (), siShapers = [defaultS2SShaper], siRoute = (\<lambda>el. ret []),
     siIsComponentHost = (\<lambda>_ _. False), siCompProcessStanza = (\<lambda>_. ret ()), siIsModuleIQ = (\<lambda>_. False), siModProcessIQ = (\<lambda>_. ret ()),
     siGetDialback = (\<lambda>_ _ _. ret ()), siDialbackSecret = ''secret'', siHashes = siHashes (peer_env []), siKV = fn_kv,
     siRegister = (\<lambda>_. ret ()), siUnregister = (\<lambda>_. ret ()), siHooks = NewHooks\<rparr>"

definition kv_out :: "(string \<Rightarrow> string) out_env" where
  "kv_out = \<lparr>soSes = mute_ses, soDialer = \<lparr>dlResolve = (\<lambda>_ _. ret []), dlDial = (\<lambda>_. ret 1), dlDialTLS = (\<lambda>_. ret 1)\<rparr>, soIsTimeout = (\<lambda>_. False),
     soNewTransport = (\<lambda>_. ret ()), soDefaultS2S = defaultS2SShaper, soSetReadRateLimiter = (\<lambda>_. ret ()), soStartTLS = ret (), soTrClose = ret (),
     soMaxStanzaSize = 0, soDbSecret = ''secret'', soHashes = siHashes (peer_env []), soKV = fn_kv, soEncode64 = (\<lambda>s. s), soOnClose = (\<lambda>_ _. ret ()), soHooks = NewHooks\<rparr>"

definition kv_stream :: out_s2s where
  "kv_stream = (newOutS2S ''x'' ''peer'')\<lparr>soDialed := True, soFlags := sSetSecured 0, soState := outConnected\<rparr>"

definition kv_verify :: "string \<Rightarrow> element" where
  "kv_verify k = Element ''db:verify'' [(''from'', ''peer''), (''to'', ''x''), (''id'', ''s1'')] k []"

lemma kv_out_keeps: "keeps (\<lambda>st. snd (snd st) = x) (soSendElement kv_out el)"
  by (simp add: keeps_def soSendElement_def kv_out_def mute_ses_def sesSendS_def ses_ext_def o_ses_def so_id_info_def o_own_def soRunHook_def
      Run_def NewHooks_def go_run split: prod.split)

theorem dialback_key_verified_witness:
  "let ss = fst (snd (peer_start [] [])); feats = Element ''stream:features'' [] [] [s_elem ''dialback'' s2sDialbackNamespace []];
       w = snd (snd (snd (soHandleConnected kv_out feats (kv_stream, ss\<lparr>ssStreamID := ''s1''\<rparr>, \<lambda>_. []))))
   in w ''db://s1'' = ''peer x'' \<and>
      snd (snd (snd (siVerifyDialbackKey kv_in (kv_verify ''secretx peer s1'') (newInS2S kv_in 1, ss, w)))) ''db://s1'' = [] \<and>
      (\<exists>w1. siSendElement kv_in (verify_reply ''peer'' ''x'' ''s1'' ''valid'') (newInS2S kv_in 1, ss, w1) =
         siVerifyDialbackKey kv_in (kv_verify ''secretx peer s1'') (newInS2S kv_in 1, ss, w)) \<and>
      (\<exists>w1. siSendElement kv_in (verify_reply ''peer'' ''x'' ''s1'' ''invalid'') (newInS2S kv_in 1, ss, w1) =
         siVerifyDialbackKey kv_in (kv_verify ''forged'') (newInS2S kv_in 1, ss, w))"
proof -
  let ?ss = "fst (snd (peer_start [] []))" and ?f = "Element ''stream:features'' [] [] [s_elem ''dialback'' s2sDialbackNamespace []]"
  let ?r = "soHandleConnected kv_out ?f (kv_stream, ?ss\<lparr>ssStreamID := ''s1''\<rparr>, \<lambda>_. [])"
  have "fst ?r = Inr ()" by code_simp
  then obtain o2 oss2 w where r: "?r = (Inr (), (o2, oss2, w))" by (cases ?r) auto
  have w: "w ''db://s1'' = ''peer x''"
  proof -
    have "snd (snd (snd ?r)) ''db://s1'' = ''peer x''" by code_simp
    then show ?thesis by (simp only: r snd_conv)
  qed
  have names: "dom_name (soSender kv_stream)" "dom_name (soTarget kv_stream)" by code_simp+
  have offered: "dialback_offered kv_out kv_stream ?f" by code_simp
  have attrs: "seIsLocalHost (siSes kv_in) (Attribute (siLib kv_in) (kv_verify k) ''to'')" "Attribute (siLib kv_in) (kv_verify k) ''id'' = ''s1''"
      "Attribute (siLib kv_in) (kv_verify k) ''from'' = ''peer''" "Attribute (siLib kv_in) (kv_verify k) ''to'' = ''x''" for k
    by (simp_all add: kv_in_def mute_ses_def kv_verify_def std_ses_lib_def std_lib_def std_attr_def)
  have ends: "soTarget kv_stream = ''peer''" "soSender kv_stream = ''x''" "Text (key_element kv_out kv_stream ''s1'') = ''secretx peer s1''"
    by code_simp+
  have run: "\<exists>st. siVerifyDialbackKey kv_in (kv_verify k) (newInS2S kv_in 1, ?ss, w) = (Inr (), st)" for k
    by (simp add: siVerifyDialbackKey_def attrs kv_in_def mute_ses_def s_ext_def isDbRequestOn_def fn_kv_def unregisterDbRequest_def siSendElement_def
        s_own_def s_ses_def sesSendS_def ses_ext_def go_run Let_def newInS2S_def split: prod.split)
  note main = dialback_key_verified [OF disjI2 [OF fn.dialback_kv_axioms] _ _ _ _ names offered kv_out_keeps r attrs(1)]
  have eqs: "soKV kv_out = fn_kv" "siKV kv_in = fn_kv" "soHashes kv_out = siHashes kv_in" "soDbSecret kv_out = siDialbackSecret kv_in"
    by (simp_all add: kv_out_def kv_in_def)
  have reply: "\<exists>w1. siSendElement kv_in (verify_reply ''peer'' ''x'' ''s1'' (if k = ''secretx peer s1'' then ''valid'' else ''invalid'')) (newInS2S kv_in 1, ?ss, w1) =
         siVerifyDialbackKey kv_in (kv_verify k) (newInS2S kv_in 1, ?ss, w)" for k
  proof -
    obtain st where st: "siVerifyDialbackKey kv_in (kv_verify k) (newInS2S kv_in 1, ?ss, w) = (Inr (), st)" using run by blast
    have idk: "Attribute (siLib kv_in) (kv_verify k) ''id'' = ssStreamID (?ss\<lparr>ssStreamID := ''s1''\<rparr>)" by (simp add: attrs)
    have tx: "Text (kv_verify k) = k" by (simp add: kv_verify_def)
    have sid: "ssStreamID (?ss\<lparr>ssStreamID := ''s1''\<rparr>) = ''s1''" by simp
    have "dbKey (siHashes kv_in) (siDialbackSecret kv_in) ''peer'' ''x'' ''s1'' = ''secretx peer s1''" "\<not> dkIsNop fn_kv" by code_simp+
    with main [OF eqs idk st] show ?thesis unfolding attrs ends tx sid st by auto
  qed
  have "snd (snd (snd (siVerifyDialbackKey kv_in (kv_verify ''secretx peer s1'') (newInS2S kv_in 1, ?ss, snd (snd (snd ?r)))))) ''db://s1'' = []" by code_simp
  then show ?thesis using w reply [of "''secretx peer s1''"] reply [of "''forged''"] unfolding Let_def r snd_conv by simp
qed

end
