(* ===== verification/S2S_Order.thy ===== *)
theory S2S_Order
  imports S2S_Safety "HOL-Library.Sublist"
begin

text \<open>
  What an outgoing stream sends, and in which order. \<open>out_writer\<close> is what is asked of the transport and of
  the hook handlers: what is written is appended to the output, and only the elements handed to the
  stream count as payload. The invariant relates output and pending queue to the elements handed
  over so far.
\<close>

section \<open>The contract\<close>

text \<open>What a step may not change unless it sends.\<close>

definition so_key :: "('w \<Rightarrow> string list) \<Rightarrow> (string \<Rightarrow> bool) \<Rightarrow> out_s2s \<times> session \<times> 'w \<Rightarrow> out_state \<times> element list \<times> bool \<times> string list" where
  "so_key wrote payload = (\<lambda>(s, ss, w). (soState s, soPending s, soDialed s, filter payload (wrote w)))"

definition early :: "out_state \<Rightarrow> bool" where
  "early st \<longleftrightarrow> st \<notin> {outAuthenticated, outDisconnected}"

lemma early_states:
  "early outConnecting" "early outConnected" "early outSecuring" "early outAuthenticating" "early outVerifyingDialbackKey" "early outAuthorizingDialbackKey"
  by (simp_all add: early_def)

text \<open>Output and queue, when the elements \<open>acc\<close> have been handed over.\<close>

fun so_ok :: "bool \<Rightarrow> (element \<Rightarrow> string) \<Rightarrow> element list \<Rightarrow> out_state \<times> element list \<times> bool \<times> string list \<Rightarrow> bool" where
  "so_ok rel xml acc (st, q, d, out) \<longleftrightarrow> d \<and>
     (case st of
        outAuthenticated \<Rightarrow> q = [] \<and> subseq out (map xml acc) \<and> (rel \<longrightarrow> out = map xml acc)
      | outDisconnected \<Rightarrow> subseq out (map xml acc)
      | _ \<Rightarrow> out = [] \<and> q = acc)"

definition so_weak :: "(element \<Rightarrow> string) \<Rightarrow> element list \<Rightarrow> out_state \<times> element list \<times> bool \<times> string list \<Rightarrow> bool" where
  "so_weak xml acc k \<longleftrightarrow> fst (snd (snd k)) \<and> subseq (snd (snd (snd k))) (map xml acc)"

fun handed :: "so_event list \<Rightarrow> element list" where
  "handed [] = []"
| "handed (SoSend el # evs) = el # handed evs"
| "handed (_ # evs) = handed evs"

lemma tripleD: "triple P m Q I \<Longrightarrow> P w \<Longrightarrow> m w = (r, w') \<Longrightarrow> case r of Inl _ \<Rightarrow> I w' | Inr x \<Rightarrow> Q x w'"
  unfolding triple_def by (cases r) auto

lemma run_handlers_only_stop:
  assumes "\<And>h info st e. h \<in> set hs \<Longrightarrow> fst (h_fn h info st) = Inl e \<Longrightarrow> e = ErrStopped"
  shows "\<exists>x st'. run_handlers hs info st = (Inr x, st')"
  using assms
proof (induction hs arbitrary: info st)
  case (Cons h hs)
  obtain r st1 where r: "h_fn h info st = (r, st1)" using prod.exhaust by blast
  show ?case
  proof (cases r)
    case (Inl e)
    with r Cons.prems [of h info st e] show ?thesis by (auto simp: go_run intro: exI [of _ True])
  next
    case (Inr info')
    have "\<exists>x st'. run_handlers hs info' st1 = (Inr x, st')" by (rule Cons.IH) (rule Cons.prems, simp_all)
    with r Inr show ?thesis by (simp add: go_run)
  qed
qed (auto simp: go_run)

locale out_writer =
  fixes E :: "'w out_env" and wrote :: "'w \<Rightarrow> string list" and payload :: "string \<Rightarrow> bool" and reliable :: bool
  assumes written: "seWriteString (soSes E) str w = (r, w') \<Longrightarrow>
      (wrote w' = wrote w \<or> wrote w' = wrote w @ [str]) \<and> (\<forall>u. r = Inr u \<longrightarrow> wrote w' = wrote w @ [str]) \<and> (reliable \<longrightarrow> r = Inr ())"
    and flushed: "seFlush (soSes E) w = (r, w') \<Longrightarrow> wrote w' = wrote w \<and> (reliable \<longrightarrow> r = Inr ())"
    and parsers: "wrote (seNewParser (soSes E) n w) = wrote w" "seParse (soSes E) w = (p, w') \<Longrightarrow> wrote w' = wrote w"
    and uuid: "keeps (\<lambda>w. wrote w = x) (seNewUUID (soSes E))"
    and others: "keeps (\<lambda>w. wrote w = x) (soStartTLS E)" "keeps (\<lambda>w. wrote w = x) (soTrClose E)"
      "keeps (\<lambda>w. wrote w = x) (soOnClose E a b)" "keeps (\<lambda>w. wrote w = x) (dkPut (soKV E) a b)"
    and handlers: "h \<in> set (soHooks E name) \<Longrightarrow> keeps (\<lambda>st. so_key wrote payload st = y) (h_fn h info)"
    and no_error: "reliable \<Longrightarrow> h \<in> set (soHooks E name) \<Longrightarrow> fst (h_fn h info st) = Inl e \<Longrightarrow> e = ErrStopped"
    and negotiation: "Name el \<in> {''starttls'', ''auth'', ''db:result'', ''db:verify''} \<Longrightarrow> \<not> payload (seToXML (soSes E) el True)"
      "\<not> payload (seToXML (soSes E) (StreamErrorElement (soLib E) se) True)" "\<not> payload ''</stream:stream>''" "\<not> payload []"
      "\<not> payload (''<?xml version='' @ [CHR 0x27] @ ''1.0'' @ [CHR 0x27] @ ''?>'' @ hdr)"
begin

abbreviation key where "key \<equiv> so_key wrote payload"
abbreviation xml where "xml el \<equiv> seToXML (soSes E) el True"
abbreviation sent where "sent w \<equiv> filter payload (wrote w)"

abbreviation kk where "kk y m \<equiv> keeps (\<lambda>st. key st = y) m"

lemma kk_own [keeps_intro]: "kk y (o_own f)"
  by (simp add: o_own_def keeps_gets)

lemma kk_ext: "(\<And>x. keeps (\<lambda>w. wrote w = x) f) \<Longrightarrow> kk y (o_ext f)"
  by (auto simp: keeps_def o_ext_def so_key_def split_beta)

lemma kk_ses: "(\<And>x. keeps (\<lambda>p. sent (snd p) = x) f) \<Longrightarrow> kk y (o_ses f)"
  by (auto simp: keeps_def o_ses_def so_key_def split_beta)

lemma kk_upd: "(\<And>s. soState (f s) = soState s \<and> soPending (f s) = soPending s \<and> soDialed (f s) = soDialed s) \<Longrightarrow> kk y (o_upd f)"
  by (auto simp: keeps_def o_upd_def modify_run so_key_def split_beta)

lemma kk_hook: "kk y (soRunHook E name info)"
proof -
  have "kk y (Run (soHooks E) name info)" by (rule keeps_Run) (rule handlers)
  then show ?thesis unfolding soRunHook_def by (intro keeps_intro)
qed

lemma kk_info: "kk y so_id_info"
  unfolding so_id_info_def by (rule kk_own)

lemma sent_write:
  assumes "\<not> payload str"
  shows "keeps (\<lambda>p. sent (snd p) = x) (ses_ext (seWriteString (soSes E) str))"
proof (rule ses_ext_keeps, rule keepsI)
  fix w assume "sent w = x"
  with written [of str w] assms show "sent (snd (seWriteString (soSes E) str w)) = x"
    by (cases "seWriteString (soSes E) str w") auto
qed

lemma sent_flush: "keeps (\<lambda>p. sent (snd p) = x) (ses_ext (seFlush (soSes E)))"
proof (rule ses_ext_keeps, rule keepsI)
  fix w assume "sent w = x"
  with flushed [of w] show "sent (snd (seFlush (soSes E) w)) = x" by (cases "seFlush (soSes E) w") auto
qed

lemma sent_string: "\<not> payload str \<Longrightarrow> keeps (\<lambda>p. sent (snd p) = x) (sendString (soSes E) str)"
  unfolding sendString_def by (intro keeps_intro sent_write sent_flush)

lemma sent_set [keeps_intro]: "keeps (\<lambda>p. sent (snd p) = x) (ses_set f)"
  by (rule ses_set_keeps)

lemma sent_open: "keeps (\<lambda>p. sent (snd p) = x) (OpenStream (soSes E))"
  unfolding OpenStream_def open_with_def by (intro keeps_intro sent_string negotiation)

lemma sent_reset: "keeps (\<lambda>p. sent (snd p) = x) (sesResetS (soSes E))"
proof -
  have u: "keeps (\<lambda>p. sent (snd p) = x) (ses_ext (seNewUUID (soSes E)))"
    using uuid by (intro ses_ext_keeps) (auto simp: keeps_def)
  have p: "keeps (\<lambda>p. sent (snd p) = x) (ses_ext (modify (seNewParser (soSes E) n)))" for n
    by (intro ses_ext_keeps) (simp add: keeps_def modify_run parsers)
  show ?thesis unfolding sesResetS_def by (intro keeps_intro u p)
qed

lemma sent_close: "keeps (\<lambda>p. sent (snd p) = x) (sesCloseS (soSes E))"
  unfolding sesCloseS_def by (intro keeps_intro sent_string) (simp add: negotiation)

lemma kk_negotiate:
  assumes "\<not> payload (xml el)"
  shows "kk y (soSendElement E el)"
proof -
  have "keeps (\<lambda>p. sent (snd p) = x) (sesSendS (soSes E) el)" for x
    unfolding sesSendS_def by (intro keeps_intro sent_write assms sent_flush)
  then show ?thesis unfolding soSendElement_def by (intro keeps_intro kk_ses kk_info kk_hook)
qed

abbreviation ok where "ok acc st \<equiv> so_ok reliable xml acc (key st)"

lemma kk_ok: "(\<And>y. kk y m) \<Longrightarrow> keeps (ok acc) m"
  by (auto simp: keeps_def)

lemma kkD: "(\<And>y. kk y m) \<Longrightarrow> m st = (r, st') \<Longrightarrow> key st' = key st"
  using keepsD [of "\<lambda>z. key z = key st" m st] by simp

lemma set_state_run: "soSetState st (s, x) = (Inr (), (s\<lparr>soState := st\<rparr>, x))"
  by (simp add: soSetState_def o_upd_def go_run)

lemma close_key:
  assumes "soClose E st = (r, st')"
  shows "key st' = (outDisconnected, snd (key st))"
proof -
  let ?rest = "andthen (o_own (\<lambda>s. s)) (\<lambda>s.
     andthen (if soTyp s = defaultType then o_ext (soOnClose E (soSender s) (soTarget s)) else ret ()) (\<lambda>_.
     andthen (if soTyp s = dialbackType then
                (if soResClosed s then throw ErrPanic else o_upd (\<lambda>s. s\<lparr>soResClosed := True\<rparr>))
              else ret ()) (\<lambda>_.
     andthen so_id_info (\<lambda>info.
     andthen (soRunHook E ''s2s.out.stream.disconnected'' info) (\<lambda>_.
       if soDialed s then ignore (o_ext (soTrClose E)) else throw ErrPanic)))))"
  have rest: "kk y ?rest" for y
    by (intro keeps_intro kk_ext others kk_upd kk_info kk_hook) simp
  obtain s ss w where st: "st = (s, ss, w)" by (cases st)
  have "soClose E st = ?rest (s\<lparr>soState := outDisconnected\<rparr>, ss, w)"
    by (simp add: soClose_def st andthen_run [of "soSetState outDisconnected"] set_state_run)
  with assms have "?rest (s\<lparr>soState := outDisconnected\<rparr>, ss, w) = (r, st')" by simp
  from kkD [OF rest this] show ?thesis by (simp add: st so_key_def)
qed

lemma ok_closed: "ok acc st \<Longrightarrow> key st' = (outDisconnected, snd (key st)) \<Longrightarrow> ok acc st'"
  by (cases "key st") (auto split: out_state.splits)

lemma ok_close: "keeps (ok acc) (soClose E)"
proof (rule keepsI)
  fix st assume "ok acc st"
  with ok_closed close_key [of st] show "ok acc (snd (soClose E st))" by (cases "soClose E st") auto
qed

lemma ok_negotiate: "\<not> payload (xml el) \<Longrightarrow> keeps (ok acc) (soSendElement E el)"
  by (rule kk_ok) (rule kk_negotiate)

lemma ok_own [keeps_intro]: "keeps (ok acc) (o_own f)"
  by (rule kk_ok) (rule kk_own)

lemma ok_ses: "(\<And>x. keeps (\<lambda>p. sent (snd p) = x) f) \<Longrightarrow> keeps (ok acc) (o_ses f)"
  by (rule kk_ok) (rule kk_ses)

lemma ok_disconnect: "keeps (ok acc) (soDisconnect E se)"
  unfolding soDisconnect_def
  by (intro keeps_intro ok_ses sent_open sent_close ok_close; cases se; simp add: keeps_ret ok_negotiate negotiation)

lemma ok_error: "keeps (ok acc) (soHandleSessionError E e)"
  unfolding soHandleSessionError_def by (intro keeps_intro ok_ses sent_close ok_close)

text \<open>Moving between the states before authentication.\<close>

lemma ok_early: "early st \<Longrightarrow> so_ok rel xml acc (st, q, d, out) \<longleftrightarrow> d \<and> out = [] \<and> q = acc"
  by (cases st) (auto simp: early_def)

lemma send_payload:
  assumes "payload (xml el)" and "soSendElement E el st = (r, st')" and "key st = (a, p, d, out)"
  shows "\<exists>out'. key st' = (a, p, d, out') \<and> (out' = out \<or> out' = out @ [xml el]) \<and> (\<forall>u. r = Inr u \<longrightarrow> out' = out @ [xml el]) \<and>
    (reliable \<and> d \<longrightarrow> r = Inr ())"
proof -
  obtain s ss w where st: "st = (s, ss, w)" by (cases st)
  let ?tail = "\<lambda>_. andthen so_id_info (\<lambda>info. andthen (o_own (\<lambda>s. s)) (\<lambda>s.
     soRunHook E ''s2s.out.stream.element_sent'' (info\<lparr>sfSender := soSender s, sfTarget := soTarget s, sfElement := Some el\<rparr>)))"
  have tail: "kk y (?tail u)" for y and u :: unit by (intro keeps_intro kk_info kk_hook)
  have good: "\<exists>z. ?tail () z0 = (Inr (), z)" if "reliable" for z0
  proof -
    have run: "\<exists>x st'. run_handlers (soHooks E ''s2s.out.stream.element_sent'') info z0 = (Inr x, st')" for info
      by (rule run_handlers_only_stop) (rule no_error [OF that])
    obtain t y where z0: "z0 = (t, y)" by (cases z0)
    obtain x z where "run_handlers (soHooks E ''s2s.out.stream.element_sent'') (\<lparr>sfID = s2s_out_id (soSender t) (soTarget t), sfSender = [], sfTarget = [], sfTargets = [], sfElement = None\<rparr>
        \<lparr>sfSender := soSender t, sfTarget := soTarget t, sfElement := Some el\<rparr>) z0 = (Inr x, z)" using run by blast
    then show ?thesis by (cases "soTyp t"; cases z) (simp_all add: z0 so_id_info_def o_own_def soRunHook_def Run_def go_run)
  qed
  show ?thesis
  proof (cases "soDialed s")
    case False
    with assms st show ?thesis by (auto simp: soSendElement_def o_ses_def go_run so_key_def)
  next
    case True
    obtain q x1 where q: "sesSendS (soSes E) el (ss, w) = (q, x1)" using prod.exhaust by blast
    obtain r1 w1 where w1: "seWriteString (soSes E) (xml el) w = (r1, w1)" by fastforce
    obtain r2 w2 where w2: "seFlush (soSes E) w1 = (r2, w2)" by fastforce
    have x1: "sent (snd x1) = sent w \<or> sent (snd x1) = sent w @ [xml el]" "q = Inr () \<Longrightarrow> sent (snd x1) = sent w @ [xml el]" "reliable \<Longrightarrow> q = Inr ()"
      using q w1 w2 written [OF w1] flushed [OF w2] assms(1) by (cases r1; auto simp: sesSendS_def ses_ext_def go_run)+
    have eq: "soSendElement E el st = (case q of Inl e \<Rightarrow> (Inl e, (s, x1)) | Inr u \<Rightarrow> ?tail () (s, x1))"
    proof -
      have "o_ses (sesSendS (soSes E) el) (s, ss, w) = (q, (s, x1))" using q True by (simp add: o_ses_def)
      then show ?thesis unfolding st soSendElement_def andthen_run [of "o_ses (sesSendS (soSes E) el)"] by (simp split: sum.split)
    qed
    have k1: "key (s, x1) = (a, p, d, sent (snd x1))" "out = sent w" "d" using assms(3) st True by (cases x1; simp add: so_key_def)+
    show ?thesis
    proof (cases q)
      case (Inl e)
      with eq assms(2) have "st' = (s, x1)" "r = Inl e" by simp_all
      with k1 x1 Inl show ?thesis by auto
    next
      case (Inr u)
      with eq assms(2) have t: "?tail () (s, x1) = (r, st')" by simp
      from kkD [OF tail t] k1 x1 Inr have "key st' = (a, p, d, out @ [xml el])" by auto
      moreover have "reliable \<Longrightarrow> r = Inr ()" using good [of "(s, x1)"] t by auto
      ultimately show ?thesis by simp
    qed
  qed
qed

lemma flush_run:
  assumes "\<forall>e \<in> set q. payload (xml e)" and "for_each q (soSendElement E) st = (r, st')" and "key st = (a, p, d, out)"
  shows "\<exists>out'. key st' = (a, p, d, out @ out') \<and> subseq out' (map xml q) \<and> (\<forall>u. r = Inr u \<longrightarrow> out' = map xml q) \<and> (reliable \<and> d \<longrightarrow> r = Inr ())"
  using assms
proof (induction q arbitrary: st out)
  case Nil
  then show ?case by (simp add: go_run)
next
  case (Cons e q)
  obtain r1 st1 where r1: "soSendElement E e st = (r1, st1)" using prod.exhaust by blast
  obtain o1 where o1: "key st1 = (a, p, d, o1)" "o1 = out \<or> o1 = out @ [xml e]" "\<forall>u. r1 = Inr u \<longrightarrow> o1 = out @ [xml e]" "reliable \<and> d \<longrightarrow> r1 = Inr ()"
    using send_payload [OF _ r1 Cons.prems(3)] Cons.prems(1) by auto
  show ?case
  proof (cases r1)
    case (Inl x)
    with Cons.prems(2) r1 have "st' = st1" "r = Inl x" by (auto simp: go_run)
    with o1 Inl show ?thesis by (auto intro: subseq_Cons2)
  next
    case (Inr u)
    with Cons.prems(2) r1 have "for_each q (soSendElement E) st1 = (r, st')" by (simp add: go_run)
    from Cons.IH [OF _ this o1(1)] Cons.prems(1) obtain out' where "key st' = (a, p, d, o1 @ out')" "subseq out' (map xml q)"
      "\<forall>u. r = Inr u \<longrightarrow> out' = map xml q" "reliable \<and> d \<longrightarrow> r = Inr ()" by auto
    with o1(3) Inr show ?thesis by auto
  qed
qed

abbreviation eok where "eok acc st \<equiv> ok acc st \<and> early (fst (key st))"
abbreviation weak where "weak acc st \<equiv> so_weak xml acc (key st)"
abbreviation handles where "handles acc m \<equiv> triple (eok acc) m (\<lambda>_. ok acc) (weak acc)"

lemma ok_weak: "ok acc st \<Longrightarrow> weak acc st"
  by (cases "key st") (auto simp: so_weak_def split: out_state.splits)

lemma handles_keeps:
  assumes "keeps (ok acc) m"
  shows "handles acc m"
  by (rule triple_weaken [OF keeps_triple [OF assms]]) (auto intro: ok_weak)

lemma eok_first:
  assumes "keeps (eok acc) m" and "\<And>x. handles acc (f x)"
  shows "handles acc (andthen m f)"
proof (rule triple_andthen)
  show "triple (eok acc) m (\<lambda>_. eok acc) (weak acc)"
    by (rule triple_weaken [OF keeps_triple [OF assms(1)]]) (auto intro: ok_weak)
qed (rule assms(2))

lemma kk_eok: "(\<And>y. kk y m) \<Longrightarrow> keeps (eok acc) m"
  by (auto simp: keeps_def)

lemma eok_state:
  assumes "early st"
  shows "keeps (eok acc) (soSetState st)"
proof (rule keepsI)
  fix z assume z: "eok acc z"
  obtain s ss w where eq: "z = (s, ss, w)" by (cases z)
  have "so_ok reliable xml acc (soState s, soPending s, soDialed s, sent w)" "early (soState s)" using z eq by (simp_all add: so_key_def)
  then have "soDialed s" "sent w = []" "soPending s = acc" by (simp_all only: ok_early)
  then have "so_ok reliable xml acc (st, soPending s, soDialed s, sent w)" by (simp only: ok_early [OF assms])
  with assms show "eok acc (snd (soSetState st z))" by (simp add: eq set_state_run so_key_def)
qed

lemma eok_restart: "keeps (eok acc) (soRestartSession E)"
  unfolding soRestartSession_def
  by (intro keeps_intro eok_state kk_eok kk_ses sent_reset) (simp add: early_def)

lemma eok_ok:
  assumes "keeps (eok acc) m"
  shows "handles acc m"
  by (rule triple_weaken [OF keeps_triple [OF assms]]) (auto intro: ok_weak)

lemma finish_handles:
  assumes "\<forall>e \<in> set acc. payload (xml e)"
  shows "handles acc (soFinishAuthentication E)"
  unfolding triple_def
proof (intro allI impI conjI)
  fix st assume st: "eok acc st"
  obtain s ss w where st_eq: "st = (s, ss, w)" by (cases st)
  let ?x = "(ss, w)"
  have x: "st = (s, ?x)" by (simp add: st_eq)
  have "so_ok reliable xml acc (soState s, soPending s, soDialed s, sent w)" "early (soState s)" using st st_eq by (simp_all add: so_key_def)
  then have base: "sent w = []" "soPending s = acc" "soDialed s" by (simp_all only: ok_early)
  have k: "key (s\<lparr>soState := outAuthenticated\<rparr>, ?x) = (outAuthenticated, acc, soDialed s, [])" and q: "soPending s = acc"
    using base by (simp_all add: so_key_def)
  obtain r1 st1 where r1: "for_each acc (soSendElement E) (s\<lparr>soState := outAuthenticated\<rparr>, ?x) = (r1, st1)" using prod.exhaust by blast
  from flush_run [OF assms r1 k] obtain out' where out: "key st1 = (outAuthenticated, acc, soDialed s, out')" "subseq out' (map xml acc)" "\<forall>u. r1 = Inr u \<longrightarrow> out' = map xml acc"
    by auto
  have eq: "soFinishAuthentication E st = (case r1 of Inl e \<Rightarrow> (Inl e, st1) | Inr u \<Rightarrow> o_upd (\<lambda>s. s\<lparr>soPending := []\<rparr>) st1)"
    using r1 x q by (simp add: soFinishAuthentication_def set_state_run o_own_def go_run split: sum.split)
  show "ok acc st'" if "soFinishAuthentication E st = (Inr u, st')" for u st'
  proof -
    from that eq obtain v where "r1 = Inr v" and "o_upd (\<lambda>s. s\<lparr>soPending := []\<rparr>) st1 = (Inr u, st')" by (cases r1) auto
    with out base show ?thesis by (cases st1) (auto simp: o_upd_def go_run so_key_def)
  qed
  show "weak acc st'" if "soFinishAuthentication E st = (Inl e, st')" for e st'
    using that eq out base by (cases r1) (auto simp: o_upd_def go_run so_weak_def)
qed

lemma neg_send: "Name el \<in> {''starttls'', ''auth'', ''db:result'', ''db:verify''} \<Longrightarrow> handles acc (soSendElement E el)"
  by (rule handles_keeps) (rule ok_negotiate, rule negotiation)

lemma handles_disconnect: "handles acc (soDisconnect E se)"
  by (rule handles_keeps) (rule ok_disconnect)

lemma eok_own: "keeps (eok acc) (o_own f)"
  by (rule kk_eok) (rule kk_own)

lemma open_handles: "handles acc (o_ses (OpenStream (soSes E)))"
  by (rule handles_keeps) (rule ok_ses, rule sent_open)

lemma register_eok: "keeps (eok acc) (o_ext (registerDbRequest (soKV E) a b c))"
  by (rule kk_eok) (rule kk_ext, simp add: registerDbRequest_def others)

lemma id_eok: "keeps (eok acc) (o_ses (ses_get f))"
  by (rule kk_eok) (rule kk_ses, rule ses_get_keeps)

lemma upd_eok:
  "(\<And>s. soState (f s) = soState s \<and> soPending (f s) = soPending s \<and> soDialed (f s) = soDialed s) \<Longrightarrow> keeps (eok acc) (o_upd f)"
  by (rule kk_eok) (rule kk_upd)

lemma handles_if: "handles acc m \<Longrightarrow> handles acc m' \<Longrightarrow> handles acc (if b then m else m')"
  by simp

lemmas handles_intros = handles_if handles_disconnect eok_first eok_own neg_send open_handles eok_state register_eok id_eok eok_restart

lemma connected_handles:
  assumes "\<forall>e \<in> set acc. payload (xml e)"
  shows "handles acc (soHandleConnected E el)"
  unfolding soHandleConnected_def Let_def
  by (intro handles_intros finish_handles assms)
    (auto intro!: handles_intros finish_handles assms early_states split: out_type.split)

lemma securing_handles: "handles acc (soHandleSecuring E el)"
  unfolding soHandleSecuring_def
  by (intro handles_intros upd_eok kk_eok kk_ext others) simp

lemma authenticating_handles: "handles acc (soHandleAuthenticating E el)"
  unfolding soHandleAuthenticating_def by (intro handles_intros upd_eok) simp

lemma verifying_handles: "\<forall>e \<in> set acc. payload (xml e) \<Longrightarrow> handles acc (soHandleVerifyingDialbackKey E el)"
  unfolding soHandleVerifyingDialbackKey_def by (intro handles_intros finish_handles)

lemma panic_handles: "handles acc (throw e)"
  by (rule handles_keeps) (rule keeps_throw)

lemma authorizing_handles: "handles acc (soHandleAuthorizingDialbackKey E el)"
  unfolding soHandleAuthorizingDialbackKey_def by (intro handles_intros upd_eok panic_handles) simp

lemma element_run:
  assumes "\<forall>e \<in> set acc. payload (xml e)" and st: "ok acc st" and run: "soHandleElement E el st = (r, st')"
  shows "case r of Inl _ \<Rightarrow> weak acc st' | Inr _ \<Rightarrow> ok acc st'"
proof -
  obtain s ss w where eq: "st = (s, ss, w)" by (cases st)
  have key: "fst (key st) = soState s" by (simp add: eq so_key_def)
  let ?m = "\<lambda>x. case x of outConnecting \<Rightarrow> soSetState outConnected | outConnected \<Rightarrow> soHandleConnected E el
     | outSecuring \<Rightarrow> soHandleSecuring E el | outAuthenticating \<Rightarrow> soHandleAuthenticating E el
     | outVerifyingDialbackKey \<Rightarrow> soHandleVerifyingDialbackKey E el
     | outAuthorizingDialbackKey \<Rightarrow> soHandleAuthorizingDialbackKey E el | _ \<Rightarrow> ret ()"
  have r: "?m (soState s) st = (r, st')" using run by (simp add: soHandleElement_def eq o_own_def go_run)
  show ?thesis
  proof (cases "early (soState s)")
    case True
    have h: "handles acc (?m (soState s))"
      using True connected_handles [OF assms(1)] securing_handles authenticating_handles verifying_handles [OF assms(1)] authorizing_handles
        eok_ok [OF eok_state, of outConnected]
      by (cases "soState s") (simp_all add: early_def)
    from tripleD [OF h _ r] st True key show ?thesis by simp
  next
    case False
    then have "?m (soState s) = ret ()" by (cases "soState s") (simp_all add: early_def)
    with r st show ?thesis by (auto simp: ret_run)
  qed
qed

lemma receive_sent: "Receive (soSes E) (ss, w) = (r, ss', w') \<Longrightarrow> sent w' = sent w"
  using parsers(2) [of w] by (auto simp: Receive_def Let_def split: prod.splits sum.splits option.splits if_splits)

lemma closed_weak:
  assumes "weak acc st" and "soClose E st = (r, st')"
  shows "ok acc st'"
  using close_key [OF assms(2)] assms(1) by (cases "key st") (simp add: so_weak_def)

lemma read_ok:
  assumes acc: "\<forall>e \<in> set acc. payload (xml e)" and st: "ok acc st"
  shows "ok acc (snd (soReadNext E st))"
proof -
  obtain s ss w where eq: "st = (s, ss, w)" by (cases st)
  obtain r ss' w' where r: "Receive (soSes E) (ss, w) = (r, ss', w')" using prod_cases3 by blast
  have st': "ok acc (s, ss', w')" using st receive_sent [OF r] by (simp add: eq so_key_def)
  show ?thesis
  proof (cases "soState s = outDisconnected")
    case True
    with st show ?thesis by (simp add: soReadNext_def eq)
  next
    case False
    consider el where "r = Inr (Some el)" | "r = Inr None" | e where "r = Inl e" by (cases r) auto
    then show ?thesis
    proof cases
      case (1 el)
      obtain q st1 where q: "soHandleElement E el (s, ss', w') = (q, st1)" using prod.exhaust by blast
      obtain u st2 where u: "soClose E st1 = (u, st2)" using prod.exhaust by blast
      show ?thesis
        using element_run [OF acc st' q] closed_weak [OF _ u, of acc] 1 r q u False
        by (cases q) (simp_all add: soReadNext_def eq ignore_run)
    next
      case 2
      with r st' False show ?thesis by (simp add: soReadNext_def eq)
    next
      case (3 e)
      with r st' False keepsD [OF ok_error st', of e] show ?thesis by (simp add: soReadNext_def eq)
    qed
  qed
qed

lemma send_ok:
  assumes el: "payload (xml el)" and st: "ok acc st"
  shows "ok (acc @ [el]) (snd (soSendOrEnqueueElement E el st))"
proof -
  obtain s ss w where eq: "st = (s, ss, w)" by (cases st)
  have key: "key st = (soState s, soPending s, soDialed s, sent w)" by (simp add: eq so_key_def)
  show ?thesis
  proof (cases "soState s = outAuthenticated")
    case True
    obtain r st' where r: "soSendElement E el st = (r, st')" using prod.exhaust by blast
    from send_payload [OF el r key] obtain out' where out: "key st' = (soState s, soPending s, soDialed s, out')"
      "out' = sent w \<or> out' = sent w @ [xml el]" "\<forall>u. r = Inr u \<longrightarrow> out' = sent w @ [xml el]" "reliable \<and> soDialed s \<longrightarrow> r = Inr ()" by blast
    have "soSendOrEnqueueElement E el st = (r, st')" using r True by (simp add: soSendOrEnqueueElement_def eq o_own_def go_run)
    then show ?thesis using out st key True eq by (auto intro: subseq_append' list_emb_append2)
  next
    case False
    then have "soSendOrEnqueueElement E el st = (Inr (), (s\<lparr>soPending := soPending s @ [el]\<rparr>, ss, w))"
      by (simp add: soSendOrEnqueueElement_def eq o_own_def o_upd_def go_run)
    then show ?thesis using st key False by (cases "soState s") (auto simp: so_key_def intro: list_emb_append2)
  qed
qed

lemma task_ok:
  assumes "\<forall>e \<in> set acc. payload (xml e)" and "ok acc st" and "\<forall>el. ev = SoSend el \<longrightarrow> payload (xml el)"
  shows "ok (acc @ handed [ev]) (snd (so_task E ev st))"
proof (cases ev)
  case SoRead
  with read_ok [OF assms(1,2)] show ?thesis by simp
next
  case (SoSend el)
  with send_ok [OF _ assms(2), of el] assms(3) show ?thesis by simp
next
  case (SoDisconnectRequest se)
  with keepsD [OF ok_disconnect assms(2)] show ?thesis by simp
qed

lemma run_ok:
  "\<forall>e \<in> set (acc @ handed evs). payload (xml e) \<Longrightarrow> ok acc st \<Longrightarrow> ok (acc @ handed evs) (so_run E evs st)"
proof (induction evs arbitrary: acc st)
  case (Cons ev evs)
  have split: "acc @ handed (ev # evs) = (acc @ handed [ev]) @ handed evs" by (cases ev) simp_all
  have "ok (acc @ handed [ev]) (snd (so_task E ev st))"
    by (rule task_ok [OF _ Cons.prems(2)]) (use Cons.prems(1) in \<open>auto simp: split\<close>)
  from Cons.IH [OF _ this] Cons.prems(1) show ?case unfolding split by (simp add: so_run_def split_beta)
qed (simp add: so_run_def)

end

section \<open>A stream in memory\<close>

definition mem_out :: "peer_world out_env" where
  "mem_out = \<lparr>soSes = peer_ses, soDialer = \<lparr>dlResolve = (\<lambda>_ _. ret []), dlDial = (\<lambda>_. ret 1), dlDialTLS = (\<lambda>_. ret 1)\<rparr>, soIsTimeout = (\<lambda>_. False),
     soNewTransport = (\<lambda>_. ret ()), soDefaultS2S = defaultS2SShaper, soSetReadRateLimiter = (\<lambda>_. ret ()), soStartTLS = ret (), soTrClose = ret (),
     soMaxStanzaSize = 0, soDbSecret = ''secret'', soHashes = siHashes (peer_env []),
     soKV = \<lparr>dkPut = (\<lambda>_ _. ret ()), dkGet = (\<lambda>_. ret []), dkDel = (\<lambda>_. ret ()), dkIsNop = True\<rparr>, soEncode64 = (\<lambda>s. s), soOnClose = (\<lambda>_ _. ret ()), soHooks = NewHooks\<rparr>"

definition is_message_text :: "string \<Rightarrow> bool" where
  "is_message_text s \<longleftrightarrow> take 7 s = ''message''"

definition mem_wrote :: "peer_world \<Rightarrow> string list" where
  "mem_wrote w = fst (snd w)"

definition numbered :: "string \<Rightarrow> element" where
  "numbered n = Element ''message'' [] n []"

definition mem_events :: "so_event list" where
  "mem_events = [SoSend (numbered ''1''), SoRead, SoRead, SoSend (numbered ''2''), SoRead, SoSend (numbered ''3'')]"

definition mem_input :: peer_world where
  "mem_input = ([peer_header ''peer'', Element ''stream:features'' [] [] [s_elem ''dialback'' s2sDialbackNamespace []], Element ''db:result'' [(''type'', ''valid'')] [] []], [], [])"

definition mem_session :: session where
  "mem_session = \<lparr>ssTyp = S2SSession, ssIsOut = True, ssMaxStanzaSize = 0, ssStreamID = [], ssJd = no_jid, ssOpened = False, ssStarted = False\<rparr>"

interpretation mem_out: out_writer mem_out mem_wrote is_message_text True
  by unfold_locales
    (auto simp: mem_out_def peer_ses_def mem_wrote_def keeps_def go_run NewHooks_def is_message_text_def std_ses_lib_def std_lib_def split: list.splits)

section \<open>The property\<close>

text \<open>
  C9. A stream to another server sends the stanzas it is handed in order, each at most once, and none before
  it is authenticated: until then they wait in the queue, completely and in order. Once it is
  authenticated the queue is empty, and if writing and the hooks do not fail, everything handed over so
  far has been sent. The stanzas of a stream that closes before may be lost.
\<close>

theorem out_stream_order:
  assumes "out_writer E wrote payload reliable" and "\<forall>e \<in> set (handed evs). payload (seToXML (soSes E) e True)"
    and "filter payload (wrote w) = []"
    and "so_run E evs ((newOutS2S sender target)\<lparr>soDialed := True, soFlags := f\<rparr>, ss, w) = (s', ss', w')"
  shows "subseq (filter payload (wrote w')) (map (\<lambda>e. seToXML (soSes E) e True) (handed evs)) \<and>
    (soState s' \<notin> {outAuthenticated, outDisconnected} \<longrightarrow> filter payload (wrote w') = [] \<and> soPending s' = handed evs) \<and>
    (soState s' = outAuthenticated \<longrightarrow> soPending s' = [] \<and>
       (reliable \<longrightarrow> filter payload (wrote w') = map (\<lambda>e. seToXML (soSes E) e True) (handed evs)))"
proof -
  have "so_ok reliable (\<lambda>e. seToXML (soSes E) e True) [] (so_key wrote payload ((newOutS2S sender target)\<lparr>soDialed := True, soFlags := f\<rparr>, ss, w))"
    using assms(3) by (simp add: so_key_def newOutS2S_def)
  from out_writer.run_ok [OF assms(1) _ this, of evs] assms(2,4)
  have "so_ok reliable (\<lambda>e. seToXML (soSes E) e True) (handed evs) (soState s', soPending s', soDialed s', filter payload (wrote w'))"
    by (simp add: so_key_def)
  then show ?thesis by (cases "soState s'") auto
qed

theorem out_stream_order_witness:
  "let r = so_run mem_out mem_events ((newOutS2S ''x'' ''peer'')\<lparr>soDialed := True, soFlags := 1\<rparr>, mem_session, mem_input)
   in soState (fst r) = outAuthenticated \<and> filter is_message_text (mem_wrote (snd (snd r))) = map (\<lambda>e. seToXML peer_ses e True) (map numbered [''1'', ''2'', ''3''])"
proof -
  let ?r = "so_run mem_out mem_events ((newOutS2S ''x'' ''peer'')\<lparr>soDialed := True, soFlags := 1\<rparr>, mem_session, mem_input)"
  obtain s ss w where r: "?r = (s, ss, w)" by (cases ?r)
  have "soState (fst ?r) = outAuthenticated" by code_simp
  then have state: "soState s = outAuthenticated" by (simp only: r fst_conv)
  have evs: "handed mem_events = map numbered [''1'', ''2'', ''3'']" by (simp add: mem_events_def)
  have ses: "soSes mem_out = peer_ses" by (simp add: mem_out_def)
  have "\<forall>e \<in> set (handed mem_events). is_message_text (seToXML (soSes mem_out) e True)"
    unfolding evs ses by code_simp
  moreover have "filter is_message_text (mem_wrote mem_input) = []" by (simp add: mem_input_def mem_wrote_def)
  ultimately have "filter is_message_text (mem_wrote w) = map (\<lambda>e. seToXML (soSes mem_out) e True) (handed mem_events)"
    using out_stream_order [OF mem_out.out_writer_axioms _ _ r] state by blast
  with state show ?thesis unfolding r Let_def evs ses by simp
qed

end
