(* ===== verification/Auth.thy ===== *)
theory Auth
  imports Entity_Store C2S_Stream Base64
begin

text \<open>
  Authentication of clients.
  \<^item> \<^verbatim>\<open>src/pkg/auth\<close>: the errors of SASL, the SCRAM authenticator (\<open>scram\<close>) with its exchange of
    challenge and response, the authenticator that asks an external service (\<open>external\<close>);
    \<^verbatim>\<open>pepper/keys.go\<close>: the keys mixed into salts.
  \<^item> \<open>getAuthenticators\<close> (\<^verbatim>\<open>src/pkg/c2s/socket_listener.go\<close>): the authenticators of a stream. Each
    stream has its own SCRAM objects; the external authenticator is one object of the listener.
  \<^item> \<^verbatim>\<open>src/pkg/admin/server/service.go\<close>: accounts are created, changed and deleted (\<open>users_service\<close>).
  Strings are byte strings. The hash functions are parameters (\<open>hash_fn\<close>), HMAC over them is as in
  \<^verbatim>\<open>crypto/hmac\<close>; \<^verbatim>\<open>pbkdf2.Key\<close>, random identifiers, the bytes of channel binding, the external
  service and the account store are parameters too. An account always has its SCRAM data.
\<close>

section \<open>Errors\<close>

datatype sasl_reason = IncorrectEncoding | MalformedRequest | SASLNotAuthorized | TemporaryAuthFailure

fun sasl_String :: "sasl_reason \<Rightarrow> string" where
  "sasl_String IncorrectEncoding = ''incorrect-encoding''"
| "sasl_String MalformedRequest = ''malformed-request''"
| "sasl_String SASLNotAuthorized = ''not-authorized''"
| "sasl_String TemporaryAuthFailure = ''temporary-auth-failure''"

definition newSASLError :: "sasl_reason \<Rightarrow> go_error" where
  "newSASLError reason = ErrSASL (sasl_String reason)"

text \<open>An error of a call becomes a SASL error with the given reason.\<close>

definition sasl_err :: "sasl_reason \<Rightarrow> ('w, 'a) go \<Rightarrow> ('w, 'a) go" where
  "sasl_err reason m =
     andthen (attempt m) (\<lambda>r. case r of Inl _ \<Rightarrow> throw (newSASLError reason) | Inr x \<Rightarrow> ret x)"

section \<open>Pepper keys\<close>

definition noneID :: string where "noneID = ''none''"
definition minKeyLength :: nat where "minKeyLength = 24"

record pepper_keys =
  pkKs :: "(string \<times> string) list"
  pkUseID :: string

definition NewKeys :: "(string \<times> string) list \<Rightarrow> string \<Rightarrow> go_error + pepper_keys" where
  "NewKeys keys useID =
     (if keys = [] then Inr \<lparr>pkKs = [], pkUseID = noneID\<rparr>
      else if useID = [] then Inl (ErrText ''pepper: no active key defined'')
      else if \<exists>kv \<in> set keys. length (snd kv) < minKeyLength then Inl (ErrText ''pepper: key must be at least 24 characters'')
      else if map_of keys useID = None then Inl (ErrText ''pepper: active key not found'')
      else Inr \<lparr>pkKs = keys, pkUseID = useID\<rparr>)"

definition GetKey :: "pepper_keys \<Rightarrow> string \<Rightarrow> string" where
  "GetKey k pepperID =
     (if pkUseID k = noneID then [] else case map_of (pkKs k) pepperID of None \<Rightarrow> [] | Some v \<Rightarrow> v)"

definition GetActiveKey :: "pepper_keys \<Rightarrow> string" where
  "GetActiveKey k = GetKey k (pkUseID k)"

definition GetActiveID :: "pepper_keys \<Rightarrow> string" where
  "GetActiveID k = pkUseID k"

section \<open>Hashes\<close>

record hash_fn =
  hSize :: nat
  hBlockSize :: nat
  hSum :: "byte list \<Rightarrow> byte list"

text \<open>The two arguments have the same length, the size of the hash.\<close>

definition xor_bytes :: "byte list \<Rightarrow> byte list \<Rightarrow> byte list" where
  "xor_bytes a b = map2 xor a b"

definition hmac_pad :: "hash_fn \<Rightarrow> byte list \<Rightarrow> byte \<Rightarrow> byte list" where
  "hmac_pad h key c =
     (let k = (if length key > hBlockSize h then hSum h key else key)
      in map (xor c) (k @ replicate (hBlockSize h - length k) 0))"

definition hmac_sum :: "hash_fn \<Rightarrow> byte list \<Rightarrow> byte list \<Rightarrow> byte list" where
  "hmac_sum h b key = hSum h (hmac_pad h key 0x5c @ hSum h (hmac_pad h key 0x36 @ b))"

section \<open>SCRAM\<close>

datatype scram_type = ScramSHA1 | ScramSHA256 | ScramSHA512 | ScramSHA3512

datatype scram_state = startScramState | challengedScramState

record scram_params =
  spGs2Header :: string
  spCbMechanism :: string
  spAuthzID :: string
  spParams :: "(string \<times> string) list"

fun getParameter :: "(string \<times> string) list \<Rightarrow> string \<Rightarrow> string" where
  "getParameter [] key = []"
| "getParameter ((k, v) # ps) key = (if k = key then v else getParameter ps key)"

fun params_String :: "(string \<times> string) list \<Rightarrow> string" where
  "params_String [] = []"
| "params_String [(k, v)] = k @ ''='' @ v"
| "params_String ((k, v) # ps) = k @ ''='' @ v @ '','' @ params_String ps"

text \<open>\<^verbatim>\<open>Scram\<close>: the fields that change, and those that are set when it is made.\<close>

record scram =
  scState :: scram_state
  scParams :: "scram_params option"
  scUser :: "user_model option"
  scSrvNonce :: string
  scFirstMessage :: string
  scAuthenticated :: bool

record 'w scram_env =
  scTp :: scram_type
  scUsesCb :: bool
  scRep :: "'w user_rep"
  scPeppers :: pepper_keys
  scHash :: "scram_type \<Rightarrow> hash_fn"
  scChannelBindingBytes :: "string \<Rightarrow> byte list"
  scUUID :: "('w, string) go"

definition newScram :: scram where
  "newScram = \<lparr>scState = startScramState, scParams = None, scUser = None, scSrvNonce = [], scFirstMessage = [],
     scAuthenticated = False\<rparr>"

definition scram_hash :: "'w scram_env \<Rightarrow> byte list \<Rightarrow> byte list" where
  "scram_hash E b = hSum (scHash E (scTp E)) b"

definition scram_hmac :: "'w scram_env \<Rightarrow> byte list \<Rightarrow> byte list \<Rightarrow> byte list" where
  "scram_hmac E b key = hmac_sum (scHash E (scTp E)) b key"

fun mechanism_name :: "scram_type \<Rightarrow> bool \<Rightarrow> string" where
  "mechanism_name ScramSHA1 cb = (if cb then ''SCRAM-SHA-1-PLUS'' else ''SCRAM-SHA-1'')"
| "mechanism_name ScramSHA256 cb = (if cb then ''SCRAM-SHA-256-PLUS'' else ''SCRAM-SHA-256'')"
| "mechanism_name ScramSHA512 cb = (if cb then ''SCRAM-SHA-512-PLUS'' else ''SCRAM-SHA-512'')"
| "mechanism_name ScramSHA3512 cb = (if cb then ''SCRAM-SHA3-512-PLUS'' else ''SCRAM-SHA3-512'')"

definition scUsername :: "scram \<Rightarrow> string" where
  "scUsername s = (if scAuthenticated s then case scUser s of None \<Rightarrow> [] | Some u \<Rightarrow> usUsername u else [])"

text \<open>\<^verbatim>\<open>stringsutil.SplitKeyAndValue\<close>: both parts are empty when there is no separator.\<close>

fun SplitKeyAndValue :: "string \<Rightarrow> char \<Rightarrow> string \<times> string" where
  "SplitKeyAndValue str sep =
     (if sep \<in> set str then (takeWhile (\<lambda>c. c \<noteq> sep) str, tl (dropWhile (\<lambda>c. c \<noteq> sep) str)) else ([], []))"

definition getElementPayload :: "element \<Rightarrow> go_error + string" where
  "getElementPayload el =
     (if Text el = [] then Inl (newSASLError IncorrectEncoding)
      else case b64_decode (Text el) of
             None \<Rightarrow> Inl (newSASLError IncorrectEncoding)
           | Some b \<Rightarrow> Inr (bytes_str b))"

text \<open>The switch on the channel binding flag: the error it returns, or the name of the binding.\<close>

definition gs2_flag :: "bool \<Rightarrow> string \<Rightarrow> sasl_reason + string" where
  "gs2_flag usesCb flag =
     (if flag = ''p'' then (if \<not> usesCb then Inl SASLNotAuthorized else Inr [])
      else if flag = ''n'' \<or> flag = ''y'' then Inr []
      else if \<not> has_prefix flag ''p='' then Inl MalformedRequest
      else if \<not> usesCb then Inl SASLNotAuthorized
      else Inr (drop 2 flag))"

definition parseParameters :: "bool \<Rightarrow> string \<Rightarrow> go_error + scram_params" where
  "parseParameters usesCb str =
     (case split_on (CHR '','') str of
        gs2BindFlag # authzID # rest \<Rightarrow>
          (case gs2_flag usesCb gs2BindFlag of
             Inl reason \<Rightarrow> Inl (newSASLError reason)
           | Inr mech \<Rightarrow>
               let p = \<lparr>spGs2Header = gs2BindFlag @ '','' @ authzID @ '','', spCbMechanism = mech, spAuthzID = [],
                        spParams = map (\<lambda>q. SplitKeyAndValue q (CHR ''='')) rest\<rparr>
               in if authzID = [] then Inr p
                  else case SplitKeyAndValue authzID (CHR ''='') of
                         (key, val) \<Rightarrow> if key \<noteq> ''a'' then Inl (newSASLError MalformedRequest)
                                       else Inr (p\<lparr>spAuthzID := val\<rparr>))
      | _ \<Rightarrow> Inl (newSASLError IncorrectEncoding))"

definition getCBindInputString :: "'w scram_env \<Rightarrow> scram_params \<Rightarrow> string" where
  "getCBindInputString E p =
     b64_encode (str_bytes (spGs2Header p) @
       (if scUsesCb E \<and> (spCbMechanism p = ''tls-unique'' \<or> spCbMechanism p = ''tls-exporter'')
        then scChannelBindingBytes E (spCbMechanism p) else []))"

fun scram_pass :: "scram_type \<Rightarrow> scram_creds \<Rightarrow> string" where
  "scram_pass ScramSHA1 c = scSha1 c"
| "scram_pass ScramSHA256 c = scSha256 c"
| "scram_pass ScramSHA512 c = scSha512 c"
| "scram_pass ScramSHA3512 c = scSha3512 c"

definition getScramPassword :: "'w scram_env \<Rightarrow> user_model \<Rightarrow> byte list option" where
  "getScramPassword E u = rawurl_decode (scram_pass (scTp E) (usScram u))"

text \<open>Operations of an authenticator work on its own state and on the world of the server.\<close>

type_synonym ('w, 'a) sasl = "(scram \<times> 'w, 'a) go"

definition sc_own :: "(scram \<Rightarrow> scram) \<Rightarrow> ('w, unit) sasl" where
  "sc_own f = modify (\<lambda>(s, w). (f s, w))"

definition sc_ext :: "('w, 'a) go \<Rightarrow> ('w, 'a) sasl" where
  "sc_ext m = (\<lambda>(s, w). case m w of (r, w') \<Rightarrow> (r, (s, w')))"

definition of_sum :: "go_error + 'a \<Rightarrow> ('w, 'a) go" where
  "of_sum r = (\<lambda>w. (r, w))"

definition first_message :: "string \<Rightarrow> byte list \<Rightarrow> int \<Rightarrow> string" where
  "first_message srvNonce salt iterations = ''r='' @ srvNonce @ '',s='' @ b64_encode salt @ '',i='' @ itoa iterations"

definition handleStart :: "'w scram_env \<Rightarrow> element \<Rightarrow> ('w, element) sasl" where
  "handleStart E el =
     andthen (of_sum (getElementPayload el)) (\<lambda>p.
     andthen (of_sum (parseParameters (scUsesCb E) p)) (\<lambda>params.
     andthen (sc_own (\<lambda>s. s\<lparr>scParams := Some params\<rparr>)) (\<lambda>_.
       let username = getParameter (spParams params) ''n''; cNonce = getParameter (spParams params) ''r''
       in if username = [] \<or> cNonce = [] then throw (newSASLError MalformedRequest)
          else andthen (sasl_err TemporaryAuthFailure (sc_ext (FetchUser (scRep E) username))) (\<lambda>user.
            case user of
              None \<Rightarrow> throw (newSASLError SASLNotAuthorized)
            | Some u \<Rightarrow>
                andthen (sc_own (\<lambda>s. s\<lparr>scUser := Some u\<rparr>)) (\<lambda>_.
                case rawurl_decode (scSalt (usScram u)) of
                  None \<Rightarrow> throw (newSASLError TemporaryAuthFailure)
                | Some saltBytes \<Rightarrow>
                    andthen (sc_ext (scUUID E)) (\<lambda>uuid.
                      let pepperedSalt = saltBytes @ str_bytes (GetKey (scPeppers E) (scPepperId (usScram u)));
                          srvNonce = cNonce @ ''-'' @ uuid;
                          firstMessage = first_message srvNonce pepperedSalt (scIterationCount (usScram u))
                      in andthen (sc_own (\<lambda>s. s\<lparr>scSrvNonce := srvNonce, scFirstMessage := firstMessage,
                                              scState := challengedScramState\<rparr>)) (\<lambda>_.
                           ret (Element ''challenge'' [(''xmlns'', saslNamespace)]
                                  (b64_encode (str_bytes firstMessage)) []))))))))"

text \<open>The messages and keys of the second step: what the client must send and what is answered.\<close>

definition final_bare :: "'w scram_env \<Rightarrow> scram_params \<Rightarrow> string \<Rightarrow> string" where
  "final_bare E p srvNonce = ''c='' @ getCBindInputString E p @ '',r='' @ srvNonce"

definition auth_message :: "scram_params \<Rightarrow> string \<Rightarrow> string \<Rightarrow> byte list" where
  "auth_message p firstMessage finalBare =
     str_bytes (params_String (spParams p) @ '','' @ firstMessage @ '','' @ finalBare)"

definition client_proof :: "'w scram_env \<Rightarrow> byte list \<Rightarrow> byte list \<Rightarrow> byte list" where
  "client_proof E scramPassword authMessage =
     (let clientKey = scram_hmac E (str_bytes ''Client Key'') scramPassword;
          storedKey = scram_hash E clientKey
      in xor_bytes clientKey (scram_hmac E authMessage storedKey))"

definition server_signature :: "'w scram_env \<Rightarrow> byte list \<Rightarrow> byte list \<Rightarrow> byte list" where
  "server_signature E scramPassword authMessage =
     scram_hmac E authMessage (scram_hmac E (str_bytes ''Server Key'') scramPassword)"

definition handleChallenged :: "'w scram_env \<Rightarrow> element \<Rightarrow> ('w, element) sasl" where
  "handleChallenged E el =
     andthen (of_sum (getElementPayload el)) (\<lambda>p.
     andthen (gets fst) (\<lambda>s.
       case (scParams s, scUser s) of
         (Some params, Some u) \<Rightarrow>
           (let clientFinalMessageBare = final_bare E params (scSrvNonce s);
                authMessage = auth_message params (scFirstMessage s) clientFinalMessageBare
            in case getScramPassword E u of
                 None \<Rightarrow> throw (newSASLError TemporaryAuthFailure)
               | Some pw \<Rightarrow>
                   if clientFinalMessageBare @ '',p='' @ b64_encode (client_proof E pw authMessage) \<noteq> p
                   then throw (newSASLError SASLNotAuthorized)
                   else andthen (sc_own (\<lambda>s. s\<lparr>scAuthenticated := True\<rparr>)) (\<lambda>_.
                          ret (Element ''success'' [(''xmlns'', saslNamespace)]
                                 (b64_encode (str_bytes (''v='' @ b64_encode (server_signature E pw authMessage)))) [])))
       | _ \<Rightarrow> throw ErrPanic))"

definition scProcessElement :: "'w scram_env \<Rightarrow> element \<Rightarrow> ('w, element) sasl" where
  "scProcessElement E el =
     andthen (gets fst) (\<lambda>s.
       if Name el = ''auth'' \<and> scState s = startScramState then handleStart E el
       else if Name el = ''response'' \<and> scState s = challengedScramState then handleChallenged E el
       else throw (newSASLError SASLNotAuthorized))"

definition scReset :: "scram \<Rightarrow> scram" where
  "scReset s = s\<lparr>scAuthenticated := False, scState := startScramState, scParams := None, scUser := None,
     scSrvNonce := [], scFirstMessage := []\<rparr>"

section \<open>The external authenticator\<close>

record external =
  exUsername :: string
  exAuthenticated :: bool

definition newExternal :: external where
  "newExternal = \<lparr>exUsername = [], exAuthenticated = False\<rparr>"

text \<open>\<open>auth\<close> is the call of the service, which answers whether the password is right.\<close>

definition exProcessElement :: "(string \<Rightarrow> string \<Rightarrow> ('w, bool) go) \<Rightarrow> element \<Rightarrow> (external \<times> 'w, element) go" where
  "exProcessElement auth el =
     (if Text el = [] then throw (newSASLError MalformedRequest)
      else case b64_decode (Text el) of
             None \<Rightarrow> throw (newSASLError IncorrectEncoding)
           | Some b \<Rightarrow>
               (case split_on 0 b of
                  [_, user, pass] \<Rightarrow>
                    andthen (sasl_err TemporaryAuthFailure
                               (\<lambda>(x, w). case auth (bytes_str user) (bytes_str pass) w of (r, w') \<Rightarrow> (r, (x, w')))) (\<lambda>ok.
                      if \<not> ok then throw (newSASLError SASLNotAuthorized)
                      else andthen (modify (\<lambda>(x, w). (x\<lparr>exUsername := bytes_str user, exAuthenticated := True\<rparr>, w))) (\<lambda>_.
                             ret (Element ''success'' [(''xmlns'', saslNamespace)] [] [])))
                | _ \<Rightarrow> throw (newSASLError IncorrectEncoding)))"

definition exUsernameOf :: "external \<Rightarrow> string" where
  "exUsernameOf x = (if exAuthenticated x then exUsername x else [])"

definition exReset :: "external \<Rightarrow> external" where
  "exReset x = x\<lparr>exUsername := [], exAuthenticated := False\<rparr>"

section \<open>The authenticators of a stream\<close>

text \<open>The world of the streams: their SCRAM objects, numbered, and the one external authenticator.\<close>

record 'w auth_world =
  awScrams :: "nat \<Rightarrow> scram"
  awExternal :: external
  awRest :: 'w

definition in_scram :: "nat \<Rightarrow> ('w, 'a) sasl \<Rightarrow> ('w auth_world, 'a) go" where
  "in_scram i m = (\<lambda>a. case m (awScrams a i, awRest a) of
     (r, (s, w)) \<Rightarrow> (r, a\<lparr>awScrams := (awScrams a)(i := s), awRest := w\<rparr>))"

definition in_external :: "(external \<times> 'w, 'a) go \<Rightarrow> ('w auth_world, 'a) go" where
  "in_external m = (\<lambda>a. case m (awExternal a, awRest a) of (r, (x, w)) \<Rightarrow> (r, a\<lparr>awExternal := x, awRest := w\<rparr>))"

definition NewScram :: "nat \<Rightarrow> 'w scram_env \<Rightarrow> 'w auth_world authenticator" where
  "NewScram i E = \<lparr>auMechanism = mechanism_name (scTp E) (scUsesCb E), auUsesChannelBinding = scUsesCb E,
     auProcessElement = (\<lambda>el. in_scram i (scProcessElement E el)),
     auAuthenticated = (\<lambda>a. scAuthenticated (awScrams a i)), auUsername = (\<lambda>a. scUsername (awScrams a i)),
     auReset = (\<lambda>a. a\<lparr>awScrams := (awScrams a)(i := scReset (awScrams a i))\<rparr>)\<rparr>"

definition NewExternal :: "(string \<Rightarrow> string \<Rightarrow> ('w, bool) go) \<Rightarrow> 'w auth_world authenticator" where
  "NewExternal auth = \<lparr>auMechanism = ''PLAIN'', auUsesChannelBinding = False,
     auProcessElement = (\<lambda>el. in_external (exProcessElement auth el)),
     auAuthenticated = (\<lambda>a. exAuthenticated (awExternal a)), auUsername = (\<lambda>a. exUsernameOf (awExternal a)),
     auReset = (\<lambda>a. a\<lparr>awExternal := exReset (awExternal a)\<rparr>)\<rparr>"

definition mechanism_type :: "string \<Rightarrow> scram_type option" where
  "mechanism_type m =
     (if m = ''scram_sha_1'' then Some ScramSHA1 else if m = ''scram_sha_256'' then Some ScramSHA256
      else if m = ''scram_sha_512'' then Some ScramSHA512 else if m = ''scram_sha3_512'' then Some ScramSHA3512 else None)"

text \<open>\<open>base\<close> is the number of the stream's first SCRAM object.\<close>

fun scram_authenticators :: "nat \<Rightarrow> 'w scram_env \<Rightarrow> string list \<Rightarrow> 'w auth_world authenticator list" where
  "scram_authenticators base E [] = []"
| "scram_authenticators base E (m # ms) =
     (case mechanism_type m of
        None \<Rightarrow> scram_authenticators base E ms
      | Some t \<Rightarrow> NewScram base (E\<lparr>scTp := t, scUsesCb := False\<rparr>) # NewScram (Suc base) (E\<lparr>scTp := t, scUsesCb := True\<rparr>) #
                  scram_authenticators (base + 2) E ms)"

definition getAuthenticators ::
  "(string \<Rightarrow> string \<Rightarrow> ('w, bool) go) option \<Rightarrow> string list \<Rightarrow> nat \<Rightarrow> 'w scram_env \<Rightarrow> 'w auth_world authenticator list" where
  "getAuthenticators extAuth mechanisms base E =
     (case extAuth of None \<Rightarrow> [] | Some auth \<Rightarrow> [NewExternal auth]) @ scram_authenticators base E mechanisms"

section \<open>Administration of accounts\<close>

record 'w users_service =
  uvRep :: "'w user_rep"
  uvPeppers :: pepper_keys
  uvHash :: "scram_type \<Rightarrow> hash_fn"
  uvPbkdf2 :: "byte list \<Rightarrow> byte list \<Rightarrow> int \<Rightarrow> nat \<Rightarrow> hash_fn \<Rightarrow> byte list"
  uvRandRead :: "nat \<Rightarrow> ('w, byte list) go"
  uvRunHook :: "string \<Rightarrow> string \<Rightarrow> ('w, unit) go"

definition iterationCount :: int where "iterationCount = 15000"

definition internal_err :: "('w, 'a) go \<Rightarrow> ('w, 'a) go" where
  "internal_err m = andthen (attempt m) (\<lambda>r. case r of Inl _ \<Rightarrow> throw (ErrText ''internal'') | Inr x \<Rightarrow> ret x)"

definition ensureUserNotFound :: "'w users_service \<Rightarrow> string \<Rightarrow> ('w, unit) go" where
  "ensureUserNotFound S username =
     andthen (internal_err (UserExists (uvRep S) username)) (\<lambda>exists.
       if exists then throw (ErrText ''already exists'') else ret ())"

definition ensureUserAlreadyExists :: "'w users_service \<Rightarrow> string \<Rightarrow> ('w, unit) go" where
  "ensureUserAlreadyExists S username =
     andthen (internal_err (UserExists (uvRep S) username)) (\<lambda>exists.
       if \<not> exists then throw (ErrText ''not found'') else ret ())"

text \<open>The keys of SHA3-512 are made with the size of SHA-512.\<close>

definition hashPassword :: "'w users_service \<Rightarrow> string \<Rightarrow> byte list \<Rightarrow> scram_type \<Rightarrow> scram_type \<Rightarrow> byte list" where
  "hashPassword S password salt size_of t =
     uvPbkdf2 S (str_bytes password) salt iterationCount (hSize (uvHash S size_of)) (uvHash S t)"

definition upsertUser :: "'w users_service \<Rightarrow> string \<Rightarrow> string \<Rightarrow> ('w, unit) go" where
  "upsertUser S username password =
     andthen (internal_err (uvRandRead S 32)) (\<lambda>salt.
       let pepperedSalt = salt @ str_bytes (GetActiveKey (uvPeppers S));
           usr = \<lparr>usUsername = username, usScram = \<lparr>
             scSha1 = rawurl_encode (hashPassword S password pepperedSalt ScramSHA1 ScramSHA1),
             scSha256 = rawurl_encode (hashPassword S password pepperedSalt ScramSHA256 ScramSHA256),
             scSha512 = rawurl_encode (hashPassword S password pepperedSalt ScramSHA512 ScramSHA512),
             scSha3512 = rawurl_encode (hashPassword S password pepperedSalt ScramSHA512 ScramSHA3512),
             scIterationCount = iterationCount, scSalt = rawurl_encode salt,
             scPepperId = GetActiveID (uvPeppers S)\<rparr>\<rparr>
       in internal_err (UpsertUser (uvRep S) usr))"

definition CreateUser :: "'w users_service \<Rightarrow> string \<Rightarrow> string \<Rightarrow> ('w, unit) go" where
  "CreateUser S username password =
     andthen (ensureUserNotFound S username) (\<lambda>_.
     andthen (upsertUser S username password) (\<lambda>_.
       uvRunHook S ''user.created'' username))"

definition ChangeUserPassword :: "'w users_service \<Rightarrow> string \<Rightarrow> string \<Rightarrow> ('w, unit) go" where
  "ChangeUserPassword S username newPassword =
     andthen (ensureUserAlreadyExists S username) (\<lambda>_. upsertUser S username newPassword)"

definition adDeleteUser :: "'w users_service \<Rightarrow> string \<Rightarrow> ('w, unit) go" where
  "adDeleteUser S username =
     andthen (ensureUserAlreadyExists S username) (\<lambda>_.
     andthen (internal_err (DeleteUser (uvRep S) username)) (\<lambda>_.
       uvRunHook S ''user.deleted'' username))"

end
