(* ===== verification/Auth_Safety.thy ===== *)
theory Auth_Safety
  imports Auth
begin

text \<open>
  What authentication establishes.
  \<^item> \<open>client_final\<close> is a client as RFC 5802 describes it, \<open>rfc_verify\<close> the check of a proof as the RFC
    states it for servers; the code computes the proof and compares strings.
  \<^item> Whoever knows the password an account was created with can log in (\<open>scram_login\<close>); in every run of
    elements and resets an authenticator that says yes has seen a proof that verifies (\<open>scram_sound\<close>),
    made for this exchange (\<open>scram_no_replay\<close>).
  \<^item> Streams that share the external authenticator can take over each other's name
    (\<open>external_takeover\<close>).
\<close>

unbundle bit_operations_syntax

section \<open>Parameters of the client's first message\<close>

lemma SplitKeyAndValue_join:
  assumes "CHR ''='' \<notin> set k" shows "SplitKeyAndValue (k @ CHR ''='' # v) (CHR ''='') = (k, v)"
  using assms by (simp add: takeWhile_append dropWhile_append)

declare SplitKeyAndValue.simps [simp del]

lemma split_on_pieces: "\<forall>p \<in> set (split_on c xs). c \<notin> set p"
  by (induction xs) (auto split: list.splits)

lemma SplitKeyAndValue_subset: "set (snd (SplitKeyAndValue q c)) \<subseteq> set q"
proof (cases "c \<in> set q")
  case True
  have "set (tl xs) \<subseteq> set xs" for xs :: string by (cases xs) auto
  then show ?thesis using True set_dropWhileD [of _ "\<lambda>x. x \<noteq> c" q] by (fastforce simp: SplitKeyAndValue.simps)
qed (simp add: SplitKeyAndValue.simps)

lemma getParameter_member: "getParameter ps k \<noteq> [] \<Longrightarrow> (k, getParameter ps k) \<in> set ps"
  by (induction ps k rule: getParameter.induct) auto

text \<open>No parameter of a parsed message has a comma.\<close>

lemma parsed_no_comma:
  assumes "parseParameters cb str = Inr p"
  shows "CHR '','' \<notin> set (getParameter (spParams p) k)"
proof
  define g where "g = getParameter (spParams p) k"
  assume "CHR '','' \<in> set (getParameter (spParams p) k)"
  then have c: "CHR '','' \<in> set g" by (simp add: g_def)
  then have "(k, g) \<in> set (spParams p)" unfolding g_def by (intro getParameter_member) auto
  moreover obtain rest where "spParams p = map (\<lambda>q. SplitKeyAndValue q (CHR ''='')) rest" "set rest \<subseteq> set (split_on (CHR '','') str)"
    using assms by (force simp: parseParameters_def Let_def split: list.splits sum.splits if_splits prod.splits)
  ultimately obtain q where "q \<in> set (split_on (CHR '','') str)" "SplitKeyAndValue q (CHR ''='') = (k, g)"
    by auto
  with c split_on_pieces [of "CHR '',''" str] SplitKeyAndValue_subset [of q "CHR ''=''"] show False by auto
qed

section \<open>Proofs as the RFC checks them\<close>

definition rfc_verify :: "hash_fn \<Rightarrow> byte list \<Rightarrow> byte list \<Rightarrow> byte list \<Rightarrow> bool" where
  "rfc_verify h storedKey authMessage proof \<longleftrightarrow>
     length proof = hSize h \<and> hSum h (xor_bytes proof (hmac_sum h authMessage storedKey)) = storedKey"

definition stored_key :: "hash_fn \<Rightarrow> byte list \<Rightarrow> byte list" where
  "stored_key h saltedPassword = hSum h (hmac_sum h (str_bytes ''Client Key'') saltedPassword)"

definition hash_ok :: "hash_fn \<Rightarrow> bool" where
  "hash_ok h \<longleftrightarrow> (\<forall>b. length (hSum h b) = hSize h)"

lemma xor_bytes_twice: "length a = length b \<Longrightarrow> xor_bytes (xor_bytes a b) b = a"
  by (induction a b rule: list_induct2) (simp_all add: xor_bytes_def xor.assoc)

lemma client_proof_verifies:
  assumes "hash_ok (scHash E (scTp E))"
  shows "rfc_verify (scHash E (scTp E)) (stored_key (scHash E (scTp E)) pw) am (client_proof E pw am)"
proof -
  let ?h = "scHash E (scTp E)"
  have l: "length (hmac_sum ?h b k) = hSize ?h" for b k using assms by (simp add: hash_ok_def hmac_sum_def)
  show ?thesis
    by (simp add: rfc_verify_def client_proof_def stored_key_def scram_hmac_def scram_hash_def Let_def xor_bytes_twice l)
      (simp add: xor_bytes_def l)
qed

section \<open>Runs of an authenticator\<close>

datatype sasl_event = SElem element | SReset

fun sasl_do :: "'w scram_env \<Rightarrow> sasl_event \<Rightarrow> scram \<times> 'w \<Rightarrow> scram \<times> 'w" where
  "sasl_do E (SElem el) st = snd (scProcessElement E el st)"
| "sasl_do E SReset st = (scReset (fst st), snd st)"

definition sasl_run :: "'w scram_env \<Rightarrow> sasl_event list \<Rightarrow> scram \<times> 'w \<Rightarrow> scram \<times> 'w" where
  "sasl_run E evs st = fold (sasl_do E) evs st"

text \<open>\<open>opened\<close>: the element names a user of the store and gives the client's half of the nonce; the
  server adds a fresh identifier.\<close>

definition opened :: "'w scram_env \<Rightarrow> element \<Rightarrow> scram_params \<Rightarrow> user_model \<Rightarrow> string \<Rightarrow> bool" where
  "opened E el p u uuid \<longleftrightarrow> Name el = ''auth'' \<and>
     (\<exists>str. getElementPayload el = Inr str \<and> parseParameters (scUsesCb E) str = Inr p) \<and>
     (\<exists>w w'. FetchUser (scRep E) (getParameter (spParams p) ''n'') w = (Inr (Some u), w')) \<and>
     (\<exists>w w'. scUUID E w = (Inr uuid, w'))"

definition srv_nonce :: "scram_params \<Rightarrow> string \<Rightarrow> string" where
  "srv_nonce p uuid = getParameter (spParams p) ''r'' @ ''-'' @ uuid"

definition srv_first :: "'w scram_env \<Rightarrow> scram_params \<Rightarrow> user_model \<Rightarrow> string \<Rightarrow> string" where
  "srv_first E p u uuid =
     first_message (srv_nonce p uuid)
       (the (rawurl_decode (scSalt (usScram u))) @ str_bytes (GetKey (scPeppers E) (scPepperId (usScram u))))
       (scIterationCount (usScram u))"

definition srv_auth_message :: "'w scram_env \<Rightarrow> scram_params \<Rightarrow> user_model \<Rightarrow> string \<Rightarrow> byte list" where
  "srv_auth_message E p u uuid = auth_message p (srv_first E p u uuid) (final_bare E p (srv_nonce p uuid))"

text \<open>\<open>proved\<close>: the element carries the messages of this exchange and a proof that verifies.\<close>

definition proved :: "'w scram_env \<Rightarrow> element \<Rightarrow> scram_params \<Rightarrow> user_model \<Rightarrow> string \<Rightarrow> bool" where
  "proved E el p u uuid \<longleftrightarrow> Name el = ''response'' \<and>
     (\<exists>pw proof. getScramPassword E u = Some pw \<and>
        getElementPayload el = Inr (final_bare E p (srv_nonce p uuid) @ '',p='' @ b64_encode proof) \<and>
        rfc_verify (scHash E (scTp E)) (stored_key (scHash E (scTp E)) pw) (srv_auth_message E p u uuid) proof)"

definition exchange :: "'w scram_env \<Rightarrow> scram \<Rightarrow> element \<Rightarrow> scram_params \<Rightarrow> user_model \<Rightarrow> string \<Rightarrow> bool" where
  "exchange E s el p u uuid \<longleftrightarrow> opened E el p u uuid \<and> scState s = challengedScramState \<and> scParams s = Some p \<and>
     scUser s = Some u \<and> scSrvNonce s = srv_nonce p uuid \<and> scFirstMessage s = srv_first E p u uuid"

lemmas sasl_simps = of_sum_def sc_own_def sc_ext_def sasl_err_def go_run

lemma start_step:
  assumes "handleStart E el (s, w) = (r, (s', w'))" and "Name el = ''auth''"
  shows "(\<exists>p u uuid. exchange E s' el p u uuid \<and> scAuthenticated s' = scAuthenticated s) \<or>
    (scState s' = scState s \<and> scAuthenticated s' = scAuthenticated s)"
  using assms
  by (auto simp: handleStart_def sasl_simps Let_def exchange_def opened_def srv_nonce_def srv_first_def
      split: sum.splits option.splits prod.splits if_splits)

lemma challenged_step:
  assumes "handleChallenged E el (s, w) = (r, (s', w'))" and "exchange E s a p u uuid" and "Name el = ''response''"
    and "hash_ok (scHash E (scTp E))"
  shows "s' = s \<or> (s' = s\<lparr>scAuthenticated := True\<rparr> \<and> proved E el p u uuid)"
proof -
  note v = client_proof_verifies [OF assms(4)]
  from assms(1-3) show ?thesis
    by (auto simp: handleChallenged_def sasl_simps Let_def exchange_def proved_def srv_auth_message_def
        intro!: v split: sum.splits option.splits prod.splits if_splits)
qed

definition sasl_inv :: "'w scram_env \<Rightarrow> sasl_event list \<Rightarrow> scram \<Rightarrow> bool" where
  "sasl_inv E evs s \<longleftrightarrow>
     (if scState s = startScramState then \<not> scAuthenticated s
      else \<exists>pre a mid p u uuid. evs = pre @ SElem a # mid \<and> SReset \<notin> set mid \<and> exchange E s a p u uuid \<and>
        (scAuthenticated s \<longrightarrow> (\<exists>b. SElem b \<in> set mid \<and> proved E b p u uuid)))"

lemma sasl_invI:
  assumes "exchange E s a p u uuid" and "evs = pre @ SElem a # mid" and "SReset \<notin> set mid"
    and "scAuthenticated s \<Longrightarrow> \<exists>b. SElem b \<in> set mid \<and> proved E b p u uuid"
  shows "sasl_inv E evs s"
proof -
  from assms(1) have "scState s \<noteq> startScramState" by (simp add: exchange_def)
  moreover have "\<exists>pre a mid p u uuid. evs = pre @ SElem a # mid \<and> SReset \<notin> set mid \<and> exchange E s a p u uuid \<and>
      (scAuthenticated s \<longrightarrow> (\<exists>b. SElem b \<in> set mid \<and> proved E b p u uuid))"
    using assms by blast
  ultimately show ?thesis unfolding sasl_inv_def by simp
qed

lemma sasl_inv_step:
  assumes "sasl_inv E evs s" and "sasl_do E ev (s, w) = (s', w')" and h: "hash_ok (scHash E (scTp E))"
  shows "sasl_inv E (evs @ [ev]) s'"
proof (cases "s' = s")
  case True
  show ?thesis
  proof (cases "ev = SReset")
    case False
    have "pre @ SElem a # mid @ [ev] = (pre @ SElem a # mid) @ [ev]" for pre a mid by simp
    with True False assms(1) show ?thesis
      unfolding sasl_inv_def by (cases "scState s = startScramState") (simp, fastforce)
  qed (use assms(2) in \<open>simp add: sasl_inv_def scReset_def\<close>, force)
next
  case False
  show ?thesis
  proof (cases ev)
    case (SElem el)
    obtain r where run: "scProcessElement E el (s, w) = (r, (s', w'))"
      using assms(2) SElem by (cases "scProcessElement E el (s, w)") simp
    show ?thesis
    proof (cases "scState s")
      case startScramState
      with run False have "handleStart E el (s, w) = (r, (s', w'))" and n: "Name el = ''auth''"
        by (auto simp: scProcessElement_def go_run split: if_splits)
      from start_step [OF this] show ?thesis
      proof
        assume "\<exists>p u uuid. exchange E s' el p u uuid \<and> scAuthenticated s' = scAuthenticated s"
        then obtain p u uuid where "exchange E s' el p u uuid" "scAuthenticated s' = scAuthenticated s" by blast
        with assms(1) startScramState SElem show ?thesis
          by (intro sasl_invI [where pre = evs and a = el and mid = "[]"]) (auto simp: sasl_inv_def)
      qed (use assms(1) startScramState in \<open>simp add: sasl_inv_def\<close>)
    next
      case challengedScramState
      with run False have c: "handleChallenged E el (s, w) = (r, (s', w'))" and n: "Name el = ''response''"
        by (auto simp: scProcessElement_def go_run split: if_splits)
      from assms(1) challengedScramState obtain pre a mid p u uuid where
        m: "evs = pre @ SElem a # mid" "SReset \<notin> set mid" "exchange E s a p u uuid"
        unfolding sasl_inv_def by auto
      from challenged_step [OF c m(3) n h] False have "s' = s\<lparr>scAuthenticated := True\<rparr>" "proved E el p u uuid" by auto
      moreover from this(1) m(3) have "exchange E s' a p u uuid" by (simp add: exchange_def)
      ultimately show ?thesis
        using SElem m(1,2) by (intro sasl_invI [where pre = pre and a = a and mid = "mid @ [ev]"]) auto
    qed
  next
    case SReset
    with assms(2) show ?thesis by (auto simp: sasl_inv_def scReset_def)
  qed
qed

lemma sasl_inv_run:
  assumes "hash_ok (scHash E (scTp E))"
  shows "sasl_run E evs (newScram, w) = (s, w') \<Longrightarrow> sasl_inv E evs s"
proof (induction evs arbitrary: s w' rule: rev_induct)
  case Nil
  then show ?case by (auto simp: sasl_run_def sasl_inv_def newScram_def)
next
  case (snoc ev evs)
  obtain s1 w1 where 1: "sasl_run E evs (newScram, w) = (s1, w1)" by fastforce
  with snoc.prems have "sasl_do E ev (s1, w1) = (s, w')" by (simp add: sasl_run_def)
  with sasl_inv_step [OF snoc.IH [OF 1] _ assms] show ?case by blast
qed

text \<open>
  C6. In every run of elements and resets from a new SCRAM authenticator: if it reports the client as
  authenticated, then since the last reset it has received a first message that names an account of
  the store, and after it a response that repeats the nonce of this exchange and the channel binding
  and carries a proof which verifies, as RFC 5802 defines it, against the stored key of that account;
  the name reported is the name of that account.
\<close>

theorem scram_sound:
  assumes "hash_ok (scHash E (scTp E))"
    and "sasl_run E evs (newScram, w) = (s, w')" and "scAuthenticated s"
  shows "\<exists>pre a mid b post p u uuid.
    evs = pre @ SElem a # mid @ SElem b # post \<and> SReset \<notin> set (mid @ post) \<and>
    opened E a p u uuid \<and> proved E b p u uuid \<and> scUsername s = usUsername u"
proof -
  from sasl_inv_run [OF assms(1,2)] assms(3) obtain pre a mid p u uuid b where
    "evs = pre @ SElem a # mid" "SReset \<notin> set mid" "exchange E s a p u uuid" "SElem b \<in> set mid" "proved E b p u uuid"
    unfolding sasl_inv_def by (auto split: if_splits)
  moreover from this(4) obtain mid' post where "mid = mid' @ SElem b # post" by (meson split_list)
  ultimately show ?thesis using assms(3)
    by (intro exI [of _ pre] exI [of _ a] exI [of _ mid'] exI [of _ b] exI [of _ post] exI [of _ p] exI [of _ u] exI [of _ uuid])
      (auto simp: exchange_def scUsername_def)
qed

section \<open>Replays\<close>

text \<open>Identifiers of one length that differ give nonces that differ.\<close>

lemma srv_nonce_inject: "srv_nonce p i = srv_nonce q j \<Longrightarrow> length i = length j \<Longrightarrow> i = j"
  by (simp add: srv_nonce_def)

definition uuid_ok :: "'w scram_env \<Rightarrow> bool" where
  "uuid_ok E \<longleftrightarrow> (\<forall>w i w'. scUUID E w = (Inr i, w') \<longrightarrow> CHR '','' \<notin> set i)"

lemma final_nonce:
  assumes "final_bare E p n @ '',p='' @ x = final_bare E' p' n' @ '',p='' @ x'"
    and "CHR '','' \<notin> set n" "CHR '','' \<notin> set n'"
  shows "n = n'"
proof -
  have f: "split_on (CHR '','') (final_bare E p n @ '',p='' @ x) ! 1 = ''r='' @ n" if "CHR '','' \<notin> set n"
    for E :: "'x scram_env" and p n x
  proof -
    let ?c = "''c='' @ getCBindInputString E p" and ?r = "''r='' @ n"
    have "CHR '','' \<notin> set ?c" by (simp add: getCBindInputString_def b64_no_comma)
    moreover have "CHR '','' \<notin> set ?r" using that by simp
    moreover have "final_bare E p n @ '',p='' @ x = ?c @ CHR '','' # ?r @ CHR '','' # ''p='' @ x" by (simp add: final_bare_def)
    ultimately show ?thesis by (simp only: split_on_append nth_Cons_Suc One_nat_def nth_Cons_0 not_False_eq_True)
  qed
  from f [OF assms(2), of E p x] f [OF assms(3), of E' p' x'] assms(1) show ?thesis by simp
qed

lemma accepted_payload:
  assumes "scProcessElement E el (s, w) = (Inr ok, st)" and "exchange E s a p u uuid"
  shows "\<exists>x. getElementPayload el = Inr (final_bare E p (scSrvNonce s) @ '',p='' @ x)"
  using assms
  by (auto simp: scProcessElement_def handleChallenged_def sasl_simps exchange_def Let_def
      split: sum.splits option.splits prod.splits if_splits)

lemma run_exchange:
  assumes "hash_ok (scHash E (scTp E))" and "sasl_run E evs (newScram, w) = (s, w')" and "scState s = challengedScramState"
    and "uuid_ok E"
  shows "\<exists>a p u uuid. exchange E s a p u uuid \<and> CHR '','' \<notin> set (scSrvNonce s)"
proof -
  from sasl_inv_run [OF assms(1,2)] assms(3) obtain a p u uuid where e: "exchange E s a p u uuid"
    unfolding sasl_inv_def by (auto split: if_splits)
  then have "CHR '','' \<notin> set (srv_nonce p uuid)"
    using assms(4) parsed_no_comma unfolding exchange_def opened_def srv_nonce_def uuid_ok_def by fastforce
  with e show ?thesis by (auto simp: exchange_def)
qed

text \<open>
  C11. A response is good for one exchange: if two authenticators that have sent their challenges
  chose different nonces, a response that one of them accepts is refused by the other. This is so
  whatever mechanism, account and channel binding they use.
\<close>

theorem scram_no_replay:
  assumes "hash_ok (scHash E (scTp E))" "sasl_run E evs (newScram, w) = (s, w1)" "scState s = challengedScramState"
    and "hash_ok (scHash E' (scTp E'))" "sasl_run E' evs' (newScram, w') = (s', w1')" "scState s' = challengedScramState"
    and "uuid_ok E" "uuid_ok E'"
    and "scSrvNonce s \<noteq> scSrvNonce s'"
    and accepted: "scProcessElement E el (s, w1) = (Inr ok, st)"
  shows "\<exists>e. fst (scProcessElement E' el (s', w1')) = Inl e"
proof -
  from run_exchange [OF assms(1-3,7)] obtain a p u i where
    e: "exchange E s a p u i" "CHR '','' \<notin> set (scSrvNonce s)" by blast
  from run_exchange [OF assms(4-6,8)] obtain a' p' u' i' where
    e': "exchange E' s' a' p' u' i'" "CHR '','' \<notin> set (scSrvNonce s')" by blast
  from accepted_payload [OF accepted e(1)] obtain x where
    x: "getElementPayload el = Inr (final_bare E p (scSrvNonce s) @ '',p='' @ x)" by blast
  obtain r st' where run: "scProcessElement E' el (s', w1') = (r, st')" using prod.exhaust by blast
  show ?thesis
  proof (cases r)
    case (Inr ok')
    with run have "scProcessElement E' el (s', w1') = (Inr ok', st')" by simp
    from accepted_payload [OF this e'(1)] obtain y where
      "getElementPayload el = Inr (final_bare E' p' (scSrvNonce s') @ '',p='' @ y)" by blast
    with x have "final_bare E p (scSrvNonce s) @ '',p='' @ x = final_bare E' p' (scSrvNonce s') @ '',p='' @ y" by simp
    from final_nonce [OF this e(2) e'(2)] assms(9) show ?thesis by simp
  qed (use run in simp)
qed

section \<open>Logging in\<close>

text \<open>A client of RFC 5802: from the challenge it computes its final message and the signature it
  expects from the server. \<open>gs2\<close> and \<open>bare\<close> are the two halves of its first message, \<open>cb\<close> the
  channel binding bytes it sees.\<close>

definition client_final ::
  "hash_fn \<Rightarrow> (byte list \<Rightarrow> byte list \<Rightarrow> int \<Rightarrow> nat \<Rightarrow> hash_fn \<Rightarrow> byte list) \<Rightarrow> string \<Rightarrow> string \<Rightarrow> byte list \<Rightarrow>
     string \<Rightarrow> string \<Rightarrow> string \<times> byte list" where
  "client_final h pbkdf2 password gs2 cb bare challenge =
     (let ps = map (\<lambda>q. SplitKeyAndValue q (CHR ''='')) (split_on (CHR '','') challenge);
          nonce = getParameter ps ''r'';
          salt = the (b64_decode (getParameter ps ''s''));
          salted = pbkdf2 (str_bytes password) salt (int (the (parse_nat (getParameter ps ''i'')))) (hSize h) h;
          bareFinal = ''c='' @ b64_encode (str_bytes gs2 @ cb) @ '',r='' @ nonce;
          message = str_bytes (bare @ '','' @ challenge @ '','' @ bareFinal);
          clientKey = hmac_sum h (str_bytes ''Client Key'') salted;
          proof = xor_bytes clientKey (hmac_sum h message (hSum h clientKey))
      in (bareFinal @ '',p='' @ b64_encode proof, hmac_sum h message (hmac_sum h (str_bytes ''Server Key'') salted)))"

definition sasl_elem :: "string \<Rightarrow> string \<Rightarrow> element" where
  "sasl_elem name payload = Element name [(''xmlns'', saslNamespace)] (b64_encode (str_bytes payload)) []"

lemma b64_encode_ne [simp]: "b64_encode bs = [] \<longleftrightarrow> bs = []"
  by (cases bs rule: b64_encode.cases) simp_all

lemma payload_sasl_elem: "payload \<noteq> [] \<Longrightarrow> getElementPayload (sasl_elem name payload) = Inr payload"
  by (simp add: getElementPayload_def sasl_elem_def) (simp add: str_bytes_def)

text \<open>The header a client sends when it does not bind, and when it binds.\<close>

definition gs2_of :: "string option \<Rightarrow> string" where
  "gs2_of binding = (case binding of None \<Rightarrow> ''n,,'' | Some m \<Rightarrow> ''p='' @ m @ '',,'')"

definition bind_bytes :: "'w scram_env \<Rightarrow> string option \<Rightarrow> byte list" where
  "bind_bytes E binding = (case binding of None \<Rightarrow> [] | Some m \<Rightarrow> scChannelBindingBytes E m)"

definition binding_ok :: "bool \<Rightarrow> string option \<Rightarrow> bool" where
  "binding_ok usesCb binding \<longleftrightarrow> (case binding of None \<Rightarrow> \<not> usesCb
     | Some m \<Rightarrow> usesCb \<and> (m = ''tls-unique'' \<or> m = ''tls-exporter''))"

text \<open>The client's part of the first message: the name as it is, and as RFC 5802 has it, prepared and with
  commas and equals signs escaped.\<close>

definition bare_of :: "string \<Rightarrow> string \<Rightarrow> string" where
  "bare_of name cn = ''n='' @ name @ '',r='' @ cn"

definition saslname :: "string \<Rightarrow> string" where
  "saslname name = concat (map (\<lambda>c. if c = CHR ''='' then ''=3D'' else if c = CHR '','' then ''=2C'' else [c]) name)"

definition client_bare :: "(string \<Rightarrow> string) \<Rightarrow> string \<Rightarrow> string \<Rightarrow> string" where
  "client_bare prep name cn = ''n='' @ saslname (prep name) @ '',r='' @ cn"

lemma saslname_plain: "CHR ''='' \<notin> set name \<Longrightarrow> CHR '','' \<notin> set name \<Longrightarrow> saslname name = name"
  by (induction name) (auto simp: saslname_def)

lemma client_bare_plain:
  "prep name = name \<Longrightarrow> CHR ''='' \<notin> set name \<Longrightarrow> CHR '','' \<notin> set name \<Longrightarrow> client_bare prep name cn = bare_of name cn"
  by (simp add: client_bare_def bare_of_def saslname_plain)

lemma split_message:
  assumes "CHR '','' \<notin> set a" "CHR '','' \<notin> set b" "CHR '','' \<notin> set c"
  shows "split_on (CHR '','') (a @ '','' @ b @ '','' @ c) = [a, b, c]"
  using assms by (simp add: split_on_append split_on_no_sep)

lemma parse_client_first:
  assumes b: "binding_ok usesCb binding" and n: "CHR '','' \<notin> set name" "CHR '','' \<notin> set cn"
  shows "parseParameters usesCb (gs2_of binding @ bare_of name cn) =
    Inr \<lparr>spGs2Header = gs2_of binding, spCbMechanism = (case binding of None \<Rightarrow> [] | Some m \<Rightarrow> m), spAuthzID = [],
         spParams = [(''n'', name), (''r'', cn)]\<rparr>"
proof -
  define flag where "flag = (case binding of None \<Rightarrow> ''n'' | Some m \<Rightarrow> ''p='' @ m)"
  have f: "CHR '','' \<notin> set flag" "gs2_of binding = flag @ '',,''"
    using b by (auto simp: flag_def gs2_of_def binding_ok_def split: option.splits)
  have "gs2_flag usesCb flag = Inr (case binding of None \<Rightarrow> [] | Some m \<Rightarrow> m)"
    using b by (auto simp: flag_def gs2_flag_def binding_ok_def has_prefix_def split: option.splits)
  moreover have "split_on (CHR '','') (bare_of name cn) = [''n='' @ name, ''r='' @ cn]"
    using n split_on_append [of "CHR '',''" "''n='' @ name" "''r='' @ cn"] split_on_no_sep [of "CHR '',''" "''r='' @ cn"]
    by (simp add: bare_of_def)
  then have "split_on (CHR '','') (flag @ '',,'' @ bare_of name cn) = [flag, [], ''n='' @ name, ''r='' @ cn]"
    using f(1) by (simp add: split_on_append)
  ultimately show ?thesis
    using SplitKeyAndValue_join [of "''n''" name] SplitKeyAndValue_join [of "''r''" cn]
    by (simp add: parseParameters_def f(2) Let_def)
qed

lemma itoa_iterations: "itoa iterationCount = ''15000''" "parse_nat ''15000'' = Some 15000"
  by (simp_all add: itoa_def iterationCount_def itoa_nat.simps digit_char_def parse_nat_def char_digit_def char_of_def bit_0)

lemma client_reads_challenge:
  assumes "CHR '','' \<notin> set nonce"
  shows "map (\<lambda>q. SplitKeyAndValue q (CHR ''='')) (split_on (CHR '','') (first_message nonce salt iterationCount)) =
    [(''r'', nonce), (''s'', b64_encode salt), (''i'', ''15000'')]"
proof -
  have "first_message nonce salt iterationCount = (''r='' @ nonce) @ '','' @ (''s='' @ b64_encode salt) @ '','' @ ''i=15000''"
    by (simp add: first_message_def itoa_iterations)
  moreover have "split_on (CHR '','') ((''r='' @ nonce) @ '','' @ (''s='' @ b64_encode salt) @ '','' @ ''i=15000'') =
      [''r='' @ nonce, ''s='' @ b64_encode salt, ''i=15000'']"
    using assms b64_no_comma by (intro split_message) simp_all
  ultimately show ?thesis
    using SplitKeyAndValue_join [of "''r''" nonce] SplitKeyAndValue_join [of "''s''" "b64_encode salt"]
      SplitKeyAndValue_join [of "''i''" "''15000''"]
    by simp
qed

text \<open>The parameters of the server after the first message, and the account that \<open>upsertUser\<close> stores.\<close>

abbreviation client_params :: "string option \<Rightarrow> string \<Rightarrow> string \<Rightarrow> scram_params" where
  "client_params binding name cn \<equiv>
     \<lparr>spGs2Header = gs2_of binding, spCbMechanism = (case binding of None \<Rightarrow> [] | Some m \<Rightarrow> m), spAuthzID = [],
      spParams = [(''n'', name), (''r'', cn)]\<rparr>"

lemma cbind_of_client:
  assumes "binding_ok (scUsesCb E) binding"
  shows "getCBindInputString E (client_params binding name cn) = b64_encode (str_bytes (gs2_of binding) @ bind_bytes E binding)"
  using assms by (auto simp: getCBindInputString_def bind_bytes_def binding_ok_def split: option.splits)

lemma client_final_expected:
  fixes name cn :: string
  assumes b: "binding_ok (scUsesCb E) binding" and n: "CHR '','' \<notin> set nonce"
    and pw: "pw = pbkdf2 (str_bytes password) salt iterationCount (hSize (scHash E (scTp E))) (scHash E (scTp E))"
  defines "p \<equiv> client_params binding name cn" and "m \<equiv> first_message nonce salt iterationCount"
  shows "client_final (scHash E (scTp E)) pbkdf2 password (gs2_of binding) (bind_bytes E binding) (bare_of name cn) m =
    (final_bare E p nonce @ '',p='' @ b64_encode (client_proof E pw (auth_message p m (final_bare E p nonce))),
     server_signature E pw (auth_message p m (final_bare E p nonce)))"
proof -
  have "int (the (parse_nat ''15000'')) = iterationCount" by (simp add: itoa_iterations iterationCount_def)
  then show ?thesis
    unfolding client_final_def m_def client_reads_challenge [OF n]
    by (simp add: Let_def pw p_def final_bare_def cbind_of_client [OF b] auth_message_def bare_of_def client_proof_def
        server_signature_def scram_hmac_def scram_hash_def)
qed

lemma upsert_stores:
  assumes store: "entity_store I ent (FetchUser (uvRep S)) (\<lambda>_. UpsertUser (uvRep S)) (DeleteUser (uvRep S)) (\<lambda>u. u)
      (\<lambda>u v. usUsername v = u)"
    and rand: "keeps I (uvRandRead S 32)"
    and "I w" and run: "upsertUser S name password w = (Inr (), w')"
  shows "I w' \<and> (\<exists>salt u. ent w' name = Some u \<and> usUsername u = name \<and> rawurl_decode (scSalt (usScram u)) = Some salt \<and>
      scIterationCount (usScram u) = iterationCount \<and> scPepperId (usScram u) = GetActiveID (uvPeppers S) \<and>
      (\<forall>t. rawurl_decode (scram_pass t (usScram u)) =
         Some (hashPassword S password (salt @ str_bytes (GetActiveKey (uvPeppers S))) (if t = ScramSHA3512 then ScramSHA512 else t) t)))"
proof -
  obtain salt w1 u where r: "uvRandRead S 32 w = (Inr salt, w1)" and up: "UpsertUser (uvRep S) u w1 = (Inr (), w')"
    and u: "usUsername u = name" "rawurl_decode (scSalt (usScram u)) = Some salt"
      "scIterationCount (usScram u) = iterationCount" "scPepperId (usScram u) = GetActiveID (uvPeppers S)"
      "\<And>t. rawurl_decode (scram_pass t (usScram u)) =
         Some (hashPassword S password (salt @ str_bytes (GetActiveKey (uvPeppers S))) (if t = ScramSHA3512 then ScramSHA512 else t) t)"
  proof -
    obtain r w1 where r: "uvRandRead S 32 w = (r, w1)" by fastforce
    then obtain salt where s: "r = Inr salt" using run
      by (cases r) (simp_all add: upsertUser_def internal_err_def go_run)
    let ?h = "\<lambda>k t. rawurl_encode (hashPassword S password (salt @ str_bytes (GetActiveKey (uvPeppers S))) k t)"
    define u where "u = \<lparr>usUsername = name, usScram = \<lparr>scSha1 = ?h ScramSHA1 ScramSHA1, scSha256 = ?h ScramSHA256 ScramSHA256,
        scSha512 = ?h ScramSHA512 ScramSHA512, scSha3512 = ?h ScramSHA512 ScramSHA3512, scIterationCount = iterationCount,
        scSalt = rawurl_encode salt, scPepperId = GetActiveID (uvPeppers S)\<rparr>\<rparr>"
    obtain r2 w2 where up: "UpsertUser (uvRep S) u w1 = (r2, w2)" by fastforce
    with run r s have "r2 = Inr ()" "w2 = w'"
      by (auto simp: upsertUser_def internal_err_def go_run Let_def u_def split: sum.splits)
    moreover have "rawurl_decode (scram_pass t (usScram u)) =
         Some (hashPassword S password (salt @ str_bytes (GetActiveKey (uvPeppers S))) (if t = ScramSHA3512 then ScramSHA512 else t) t)" for t
      by (cases t) (simp_all add: u_def)
    ultimately show thesis using that [of salt w1 u] r s up by (simp add: u_def)
  qed
  from keepsD [OF rand assms(3)] r have "I w1" by simp
  from entity_store.upsert [OF store this u(1) up] u show ?thesis by auto
qed

lemma created_account:
  assumes store: "entity_store I ent (FetchUser (uvRep S)) (\<lambda>_. UpsertUser (uvRep S)) (DeleteUser (uvRep S)) (\<lambda>u. u)
      (\<lambda>u v. usUsername v = u)"
    and rand: "keeps I (uvRandRead S 32)" and exst: "keeps I (UserExists (uvRep S) name)"
    and hook: "\<And>A. keeps (\<lambda>w. I w \<and> ent w name = A) (uvRunHook S ''user.created'' name)"
    and "I w" and run: "CreateUser S name password w = (Inr (), w') \<or> ChangeUserPassword S name password w = (Inr (), w')"
  shows "\<exists>w0 w1. I w0 \<and> upsertUser S name password w0 = (Inr (), w1) \<and> (I w1 \<longrightarrow> I w' \<and> ent w' name = ent w1 name)"
proof -
  obtain b w0 where e: "UserExists (uvRep S) name w = (b, w0)" by fastforce
  then have w0: "I w0" using keepsD [OF exst \<open>I w\<close>] by simp
  obtain r w1 where up: "upsertUser S name password w0 = (r, w1)" by fastforce
  from run show ?thesis
  proof
    assume c: "CreateUser S name password w = (Inr (), w')"
    with e up have "r = Inr ()" "uvRunHook S ''user.created'' name w1 = (Inr (), w')"
      by (auto simp: CreateUser_def ensureUserNotFound_def internal_err_def go_run split: sum.splits if_splits)
    with keepsD [OF hook, of w1 "ent w1 name"] w0 up show ?thesis by auto
  next
    assume "ChangeUserPassword S name password w = (Inr (), w')"
    with e up have "r = Inr ()" "w1 = w'"
      by (auto simp: ChangeUserPassword_def ensureUserAlreadyExists_def internal_err_def go_run split: sum.splits if_splits)
    with w0 up show ?thesis by auto
  qed
qed

lemma start_client:
  assumes b: "binding_ok (scUsesCb E) binding" and n: "CHR '','' \<notin> set name" "CHR '','' \<notin> set cn" "name \<noteq> []" "cn \<noteq> []"
    and f: "FetchUser (scRep E) name w2 = (Inr (Some u), w3)" and i: "scUUID E w3 = (Inr uuid, w4)"
    and salt: "rawurl_decode (scSalt (usScram u)) = Some salt"
  shows "scProcessElement E (sasl_elem ''auth'' (gs2_of binding @ bare_of name cn)) (newScram, w2) =
    (let nonce = cn @ ''-'' @ uuid;
         m = first_message nonce (salt @ str_bytes (GetKey (scPeppers E) (scPepperId (usScram u)))) (scIterationCount (usScram u))
     in (Inr (sasl_elem ''challenge'' m),
         (newScram\<lparr>scParams := Some (client_params binding name cn), scUser := Some u, scSrvNonce := nonce, scFirstMessage := m,
            scState := challengedScramState\<rparr>, w4)))"
proof -
  have "gs2_of binding @ bare_of name cn \<noteq> []" by (simp add: bare_of_def)
  note pl = payload_sasl_elem [OF this, of "''auth''"]
  have g: "getParameter (spParams (client_params binding name cn)) ''n'' = name"
    "getParameter (spParams (client_params binding name cn)) ''r'' = cn" by simp_all
  have "handleStart E (sasl_elem ''auth'' (gs2_of binding @ bare_of name cn)) (newScram, w2) =
    (let nonce = cn @ ''-'' @ uuid;
         m = first_message nonce (salt @ str_bytes (GetKey (scPeppers E) (scPepperId (usScram u)))) (scIterationCount (usScram u))
     in (Inr (sasl_elem ''challenge'' m),
         (newScram\<lparr>scParams := Some (client_params binding name cn), scUser := Some u, scSrvNonce := nonce, scFirstMessage := m,
            scState := challengedScramState\<rparr>, w4)))"
    unfolding handleStart_def pl
    by (simp add: of_sum_def sc_own_def sc_ext_def sasl_err_def go_run parse_client_first [OF b n(1,2)] n f i salt Let_def sasl_elem_def)
  then show ?thesis by (simp add: scProcessElement_def go_run newScram_def sasl_elem_def)
qed

lemma challenged_client:
  assumes "scState s = challengedScramState" "scParams s = Some p" "scUser s = Some u" "getScramPassword E u = Some pw"
  defines "am \<equiv> auth_message p (scFirstMessage s) (final_bare E p (scSrvNonce s))"
  shows "scProcessElement E (sasl_elem ''response'' (final_bare E p (scSrvNonce s) @ '',p='' @ b64_encode (client_proof E pw am))) (s, w) =
    (Inr (sasl_elem ''success'' (''v='' @ b64_encode (server_signature E pw am))), (s\<lparr>scAuthenticated := True\<rparr>, w))"
proof -
  let ?f = "final_bare E p (scSrvNonce s) @ '',p='' @ b64_encode (client_proof E pw am)"
  have "?f \<noteq> []" by (simp add: final_bare_def)
  note pl = payload_sasl_elem [OF this, of "''response''"]
  have "handleChallenged E (sasl_elem ''response'' ?f) (s, w) =
    (Inr (sasl_elem ''success'' (''v='' @ b64_encode (server_signature E pw am))), (s\<lparr>scAuthenticated := True\<rparr>, w))"
    unfolding handleChallenged_def pl by (simp add: of_sum_def sc_own_def go_run assms sasl_elem_def Let_def)
  then show ?thesis using assms(1) by (simp add: scProcessElement_def go_run sasl_elem_def)
qed

text \<open>
  C7. Whoever knows the password can log in: after an account was created, or its password changed,
  through the administration service, a client that follows RFC 5802, with any of the mechanisms and
  with or without channel binding, is challenged, its response is accepted, and the answer carries
  the signature by which it recognizes the server. The name of the account contains neither comma nor
  equals sign, which such a client escapes and the server does not decode; name and password
  are such that the client's preparation (\<open>prep\<close>, SASLprep) leaves them alone, as the server does not
  prepare them; the client's nonce and the server's identifier contain no comma.
\<close>

theorem scram_login:
  assumes store: "entity_store I ent (FetchUser (uvRep S)) (\<lambda>_. UpsertUser (uvRep S)) (DeleteUser (uvRep S)) (\<lambda>u. u)
      (\<lambda>u v. usUsername v = u)"
    and "keeps I (uvRandRead S 32)" "keeps I (UserExists (uvRep S) name)"
    and "\<And>A. keeps (\<lambda>w. I w \<and> ent w name = A) (uvRunHook S ''user.created'' name)"
    and "I w" "CreateUser S name password w = (Inr (), w1) \<or> ChangeUserPassword S name password w = (Inr (), w1)"
    and same: "scRep E = uvRep S" "scPeppers E = uvPeppers S" "scHash E = uvHash S"
    and sha3: "hSize (uvHash S ScramSHA3512) = hSize (uvHash S ScramSHA512)"
    and later: "I w2" "ent w2 name = ent w1 name" "FetchUser (scRep E) name w2 = (Inr x, w3)"
    and uuid: "scUUID E w3 = (Inr uuid, w4)"
    and b: "binding_ok (scUsesCb E) binding"
    and prep: "prep name = name" "prep password = password" and eq: "CHR ''='' \<notin> set name"
    and n: "CHR '','' \<notin> set name" "CHR '','' \<notin> set cn" "CHR '','' \<notin> set uuid" "name \<noteq> []" "cn \<noteq> []"
  shows "\<exists>m s. scProcessElement E (sasl_elem ''auth'' (gs2_of binding @ client_bare prep name cn)) (newScram, w2) =
      (Inr (sasl_elem ''challenge'' m), (s, w4)) \<and>
    (case client_final (scHash E (scTp E)) (uvPbkdf2 S) (prep password) (gs2_of binding) (bind_bytes E binding) (client_bare prep name cn) m of
       (final, sig) \<Rightarrow> \<exists>s'. scProcessElement E (sasl_elem ''response'' final) (s, w5) =
           (Inr (sasl_elem ''success'' (''v='' @ b64_encode sig)), (s', w5)) \<and>
         scAuthenticated s' \<and> scUsername s' = name)"
proof -
  from created_account [OF store assms(2-6)] obtain w0 wu where
    a: "I w0" "upsertUser S name password w0 = (Inr (), wu)" "I wu \<longrightarrow> I w1 \<and> ent w1 name = ent wu name" by blast
  from upsert_stores [OF store assms(2) a(1,2)] a(3) obtain salt u where
    u: "ent w1 name = Some u" "usUsername u = name" "rawurl_decode (scSalt (usScram u)) = Some salt"
      "scIterationCount (usScram u) = iterationCount" "scPepperId (usScram u) = GetActiveID (uvPeppers S)"
      "\<And>t. rawurl_decode (scram_pass t (usScram u)) =
         Some (hashPassword S password (salt @ str_bytes (GetActiveKey (uvPeppers S))) (if t = ScramSHA3512 then ScramSHA512 else t) t)"
    by auto
  have f: "FetchUser (scRep E) name w2 = (Inr (Some u), w3)"
    using entity_store.fetch [OF store later(1)] later(2,3) u(1) same(1) by auto
  define nonce where "nonce = cn @ ''-'' @ uuid"
  define psalt where "psalt = salt @ str_bytes (GetActiveKey (uvPeppers S))"
  define m where "m = first_message nonce psalt iterationCount"
  define p where "p = client_params binding name cn"
  define s where "s = newScram\<lparr>scParams := Some p, scUser := Some u, scSrvNonce := nonce, scFirstMessage := m,
      scState := challengedScramState\<rparr>"
  define pw where "pw = uvPbkdf2 S (str_bytes password) psalt iterationCount (hSize (scHash E (scTp E))) (scHash E (scTp E))"
  have k: "GetKey (scPeppers E) (scPepperId (usScram u)) = GetActiveKey (uvPeppers S)"
    by (simp add: same u(5) GetActiveKey_def GetActiveID_def)
  have start: "scProcessElement E (sasl_elem ''auth'' (gs2_of binding @ bare_of name cn)) (newScram, w2) =
      (Inr (sasl_elem ''challenge'' m), (s, w4))"
    unfolding start_client [OF b n(1,2,4,5) f uuid u(3)] k u(4) Let_def m_def s_def p_def psalt_def nonce_def by simp
  have "getScramPassword E u = Some pw"
    unfolding getScramPassword_def u(6) using sha3 by (simp add: hashPassword_def pw_def psalt_def same)
  then have resp: "scProcessElement E (sasl_elem ''response'' (final_bare E p nonce @ '',p='' @
        b64_encode (client_proof E pw (auth_message p m (final_bare E p nonce))))) (s, w5) =
      (Inr (sasl_elem ''success'' (''v='' @ b64_encode (server_signature E pw (auth_message p m (final_bare E p nonce))))),
       (s\<lparr>scAuthenticated := True\<rparr>, w5))"
    using challenged_client [of s p u E pw w5] by (simp add: s_def)
  have "CHR '','' \<notin> set nonce" using n by (simp add: nonce_def)
  note fin = client_final_expected [OF b this, of pw "uvPbkdf2 S" password psalt name cn, OF pw_def, folded m_def p_def]
  have "scAuthenticated (s\<lparr>scAuthenticated := True\<rparr>) \<and> scUsername (s\<lparr>scAuthenticated := True\<rparr>) = name"
    using u(2) by (simp add: s_def scUsername_def)
  with resp have "case client_final (scHash E (scTp E)) (uvPbkdf2 S) password (gs2_of binding) (bind_bytes E binding) (bare_of name cn) m of
       (final, sig) \<Rightarrow> \<exists>s'. scProcessElement E (sasl_elem ''response'' final) (s, w5) =
           (Inr (sasl_elem ''success'' (''v='' @ b64_encode sig)), (s', w5)) \<and>
         scAuthenticated s' \<and> scUsername s' = name"
    unfolding fin prod.case by blast
  with start show ?thesis unfolding client_bare_plain [of prep name, OF prep(1) eq n(1)] prep(2) by (intro exI [of _ m] exI [of _ s] conjI)
qed

section \<open>The shared external authenticator\<close>

definition plain_auth :: "string \<Rightarrow> string \<Rightarrow> element" where
  "plain_auth name password =
     Element ''auth'' [(''xmlns'', saslNamespace), (''mechanism'', ''PLAIN'')]
       (b64_encode (0 # str_bytes name @ 0 # str_bytes password)) []"

lemma no_nul: "CHR 0x00 \<notin> set s \<Longrightarrow> (0 :: byte) \<notin> set (str_bytes s)"
proof
  assume "CHR 0x00 \<notin> set s" "(0 :: byte) \<in> set (str_bytes s)"
  then obtain c where c: "c \<in> set s" "(of_char c :: byte) = 0" by (auto simp: str_bytes_def)
  from c(2) char_byte [of c] have "c = CHR 0x00" by (simp add: char_of_def)
  with c(1) \<open>CHR 0x00 \<notin> set s\<close> show False by simp
qed

lemma external_accepts:
  assumes "CHR 0x00 \<notin> set name" "CHR 0x00 \<notin> set password" and "auth name password (awRest a) = (Inr True, w)"
  shows "auProcessElement (NewExternal auth) (plain_auth name password) a =
    (Inr (Element ''success'' [(''xmlns'', saslNamespace)] [] []),
     a\<lparr>awExternal := \<lparr>exUsername = name, exAuthenticated = True\<rparr>, awRest := w\<rparr>)"
proof -
  have "split_on (0 :: byte) (0 # str_bytes name @ 0 # str_bytes password) = [[], str_bytes name, str_bytes password]"
    using assms(1,2) by (simp add: split_on_append split_on_no_sep no_nul)
  then show ?thesis
    using assms(3) by (simp add: NewExternal_def in_external_def exProcessElement_def plain_auth_def sasl_err_def go_run)
qed

lemma restart_keeps: "keeps (\<lambda>st. isJid (fst st) = j \<and> isAuthenticated (isFlags (fst st))) (restartSession E)"
  by (auto simp: keeps_def restartSession_def setState_def upd_def ext_def go_run split: prod.splits)

lemma finish_name:
  assumes "isActive s = Some i" "i < length (authenticators E)"
  shows "let st = snd (finishAuthentication E (s, w))
    in isJid (fst st) = NewJID (lib E) (auUsername (authenticators E ! i) w) (sDomain s) [] True \<and>
       isAuthenticated (isFlags (fst st))"
proof -
  let ?j = "NewJID (lib E) (auUsername (authenticators E ! i) w) (sDomain s) [] True"
  let ?P = "\<lambda>st :: in_c2s \<times> 'a. isJid (fst st) = ?j \<and> isAuthenticated (isFlags (fst st))"
  have u: "keeps ?P (updateRateLimiter E)"
    by (auto simp: keeps_def updateRateLimiter_def own_def ext_def go_run split: sum.splits prod.splits)
  have p: "keeps ?P (upd (\<lambda>s. s\<lparr>isActive := None\<rparr>))" by (auto simp: keeps_def upd_def go_run)
  have m: "keeps ?P (ext (modify f))" for f by (auto simp: keeps_def ext_def go_run)
  let ?rest = "andthen (updateRateLimiter E) (\<lambda>_.
     andthen (ext (modify (auReset (authenticators E ! i)))) (\<lambda>_.
     andthen (upd (\<lambda>s. s\<lparr>isActive := None\<rparr>)) (\<lambda>_. restartSession E)))"
  have k: "keeps ?P ?rest" by (intro keeps_andthen u m p restart_keeps)
  have "finishAuthentication E (s, w) = ?rest (s\<lparr>isJid := ?j, isFlags := setAuthenticated (isFlags s)\<rparr>, w)"
    using assms by (simp add: finishAuthentication_def active_auth_def own_def ext_def setJID_def setFlag_def upd_def go_run)
  moreover have "isAuthenticated (setAuthenticated f)" for f
    by (simp add: isAuthenticated_def setAuthenticated_def fAuthenticated_def word_gt_0 word_bw_comms(1) word_ao_absorbs)
  ultimately show ?thesis using keepsD [OF k, of "(s\<lparr>isJid := ?j, isFlags := setAuthenticated (isFlags s)\<rparr>, w)"]
    by (simp add: Let_def)
qed

text \<open>
  The external authenticator is one object for all streams of a listener, and keeps the name of
  whoever it accepted last: when a second stream sends accepted credentials between the acceptance
  of the first stream's and the end of its authentication, the first stream is authenticated under
  the name of the second user.
\<close>

theorem external_takeover:
  assumes "isActive s = Some i" "i < length (authenticators E)" "authenticators E ! i = NewExternal auth"
    and "CHR 0x00 \<notin> set ana" "CHR 0x00 \<notin> set pa" "auth ana pa (awRest a) = (Inr True, w1)"
    and "CHR 0x00 \<notin> set bob" "CHR 0x00 \<notin> set pb" "auth bob pb w1 = (Inr True, w2)"
  shows "\<exists>ok a1 a2. auProcessElement (authenticators E ! i) (plain_auth ana pa) a = (Inr ok, a1) \<and>
    auProcessElement (NewExternal auth) (plain_auth bob pb) a1 = (Inr ok, a2) \<and>
    (let st = snd (finishAuthentication E (s, a2))
     in isJid (fst st) = NewJID (lib E) bob (sDomain s) [] True \<and> isAuthenticated (isFlags (fst st)))"
proof -
  define a1 where "a1 = a\<lparr>awExternal := \<lparr>exUsername = ana, exAuthenticated = True\<rparr>, awRest := w1\<rparr>"
  define a2 where "a2 = a1\<lparr>awExternal := \<lparr>exUsername = bob, exAuthenticated = True\<rparr>, awRest := w2\<rparr>"
  let ?ok = "Element ''success'' [(''xmlns'', saslNamespace)] [] []"
  have "auProcessElement (authenticators E ! i) (plain_auth ana pa) a = (Inr ?ok, a1)"
    unfolding assms(3) a1_def by (rule external_accepts [where auth = auth, OF assms(4-6)])
  moreover have "auProcessElement (NewExternal auth) (plain_auth bob pb) a1 = (Inr ?ok, a2)"
    unfolding a2_def using assms(9) by (intro external_accepts [OF assms(7,8)]) (simp add: a1_def)
  moreover have "auUsername (authenticators E ! i) a2 = bob"
    by (simp add: assms(3) NewExternal_def a2_def exUsernameOf_def)
  with finish_name [OF assms(1,2), of a2] have "let st = snd (finishAuthentication E (s, a2))
     in isJid (fst st) = NewJID (lib E) bob (sDomain s) [] True \<and> isAuthenticated (isFlags (fst st))" by simp
  ultimately show ?thesis by blast
qed

section \<open>A small server\<close>

text \<open>Accounts in a map, a toy hash of two bytes, a counter that gives identifiers.\<close>

type_synonym toy_world = "(string \<Rightarrow> user_model option) \<times> nat"

definition toy_hash :: hash_fn where
  "toy_hash = \<lparr>hSize = 2, hBlockSize = 2, hSum = (\<lambda>b. [foldr (+) b 7, foldr (\<lambda>x y. x + 3 * y) b 1])\<rparr>"

definition toy_users :: "toy_world user_rep" where
  "toy_users = \<lparr>UpsertUser = (\<lambda>u w. (Inr (), ((fst w)(usUsername u \<mapsto> u), snd w))),
     DeleteUser = (\<lambda>n w. (Inr (), ((fst w)(n := None), snd w))),
     FetchUser = (\<lambda>n w. (Inr (fst w n), w)), UserExists = (\<lambda>n w. (Inr (fst w n \<noteq> None), w))\<rparr>"

definition toy_keys :: pepper_keys where
  "toy_keys = \<lparr>pkKs = [(''k1'', ''pepper'')], pkUseID = ''k1''\<rparr>"

definition toy_service :: "toy_world users_service" where
  "toy_service = \<lparr>uvRep = toy_users, uvPeppers = toy_keys, uvHash = (\<lambda>_. toy_hash),
     uvPbkdf2 = (\<lambda>p s i n h. hSum h (p @ s)), uvRandRead = (\<lambda>n. ret (replicate n 9)), uvRunHook = (\<lambda>_ _. ret ())\<rparr>"

definition toy_scram :: "toy_world scram_env" where
  "toy_scram = \<lparr>scTp = ScramSHA256, scUsesCb = False, scRep = toy_users, scPeppers = toy_keys, scHash = (\<lambda>_. toy_hash),
     scChannelBindingBytes = (\<lambda>_. []), scUUID = (\<lambda>w. (Inr (itoa_nat (snd w)), (fst w, Suc (snd w))))\<rparr>"

interpretation toy_store: entity_store "\<lambda>_. True" fst "FetchUser toy_users" "\<lambda>_. UpsertUser toy_users" "DeleteUser toy_users"
    "\<lambda>u. u" "\<lambda>u v. usUsername v = u"
  by unfold_locales (auto simp: toy_users_def)

definition toy_created :: toy_world where
  "toy_created = snd (CreateUser toy_service ''ana'' ''secret'' (Map.empty, 0))"

lemma toy_create: "CreateUser toy_service ''ana'' ''secret'' (Map.empty, 0) = (Inr (), toy_created)" "snd toy_created = 0"
  by (simp_all add: toy_created_def CreateUser_def ensureUserNotFound_def upsertUser_def internal_err_def toy_service_def toy_users_def go_run Let_def)

lemma itoa_no_comma: "CHR '','' \<notin> set (itoa_nat n)"
proof
  assume "CHR '','' \<in> set (itoa_nat n)"
  with set_itoa_nat [of n] obtain d where d: "CHR '','' = digit_char d" "d < 10" by blast
  have "char_digit (CHR '','') = None" by (simp add: char_digit_def)
  then show False unfolding d(1) using d(2) by simp
qed

lemma toy_hash_ok: "hash_ok (scHash toy_scram (scTp toy_scram))"
  by (simp add: hash_ok_def toy_scram_def toy_hash_def)

theorem scram_login_witness:
  "\<exists>m s. scProcessElement toy_scram (sasl_elem ''auth'' (gs2_of None @ client_bare id ''ana'' ''xyz'')) (newScram, toy_created) =
      (Inr (sasl_elem ''challenge'' m), (s, (fst toy_created, 1))) \<and>
    (case client_final toy_hash (uvPbkdf2 toy_service) (id ''secret'') (gs2_of None) [] (client_bare id ''ana'' ''xyz'') m of
       (final, sig) \<Rightarrow> \<exists>s'. scProcessElement toy_scram (sasl_elem ''response'' final) (s, (Map.empty, 0)) =
           (Inr (sasl_elem ''success'' (''v='' @ b64_encode sig)), (s', (Map.empty, 0))) \<and>
         scAuthenticated s' \<and> scUsername s' = ''ana'')"
proof -
  have c: "binding_ok (scUsesCb toy_scram) None" "scRep toy_scram = uvRep toy_service" "scPeppers toy_scram = uvPeppers toy_service"
    "scHash toy_scram = uvHash toy_service" "bind_bytes toy_scram None = []" "uvRep toy_service = toy_users"
    "hSize (uvHash toy_service ScramSHA3512) = hSize (uvHash toy_service ScramSHA512)"
    by (simp_all add: binding_ok_def toy_scram_def toy_service_def bind_bytes_def)
  have h: "scHash toy_scram (scTp toy_scram) = toy_hash" by (simp add: toy_scram_def)
  have k: "keeps P (uvRandRead toy_service n)" "keeps P (UserExists (uvRep toy_service) x)" "keeps P (uvRunHook toy_service h x)"
    for P n x h by (auto simp: keeps_def toy_service_def toy_users_def go_run)
  have f: "FetchUser (scRep toy_scram) ''ana'' toy_created = (Inr (fst toy_created ''ana''), toy_created)"
    "scUUID toy_scram toy_created = (Inr (itoa_nat 0), (fst toy_created, 1))"
    by (simp_all add: toy_scram_def toy_users_def toy_create)
  have p: "id ''ana'' = ''ana''" "id ''secret'' = ''secret''" "CHR ''='' \<notin> set ''ana''" by simp_all
  have n: "CHR '','' \<notin> set ''ana''" "CHR '','' \<notin> set ''xyz''" "''ana'' \<noteq> []" "''xyz'' \<noteq> []" by simp_all
  show ?thesis
    by (rule scram_login [OF toy_store.entity_store_axioms [folded c(6)] k(1,2,3) TrueI disjI1 [OF toy_create(1)] c(2,3,4,7) TrueI refl f
          c(1) p n(1,2) itoa_no_comma n(3,4), unfolded h c(5)])
qed

text \<open>An account made by hand, the exchange with identifier \<open>n\<close>, and the response that fits it.\<close>

definition toy_account :: user_model where
  "toy_account = \<lparr>usUsername = ''ana'', usScram = \<lparr>scSha1 = [], scSha256 = rawurl_encode [1, 2], scSha512 = [], scSha3512 = [],
     scIterationCount = 1, scSalt = rawurl_encode [5], scPepperId = ''k1''\<rparr>\<rparr>"

definition toy_at :: "nat \<Rightarrow> toy_world" where
  "toy_at n = ([''ana'' \<mapsto> toy_account], n)"

definition toy_auth :: element where
  "toy_auth = sasl_elem ''auth'' (gs2_of None @ bare_of ''ana'' ''xyz'')"

definition toy_exchange :: "nat \<Rightarrow> scram" where
  "toy_exchange n = fst (snd (scProcessElement toy_scram toy_auth (newScram, toy_at n)))"

definition toy_response :: "nat \<Rightarrow> element" where
  "toy_response n =
     (let s = toy_exchange n; p = the (scParams s); f = final_bare toy_scram p (scSrvNonce s)
      in sasl_elem ''response'' (f @ '',p='' @ b64_encode (client_proof toy_scram [1, 2] (auth_message p (scFirstMessage s) f))))"

lemma toy_start:
  "snd (scProcessElement toy_scram toy_auth (newScram, toy_at n)) = (toy_exchange n, toy_at (Suc n))"
  "scState (toy_exchange n) = challengedScramState" "scSrvNonce (toy_exchange n) = ''xyz-'' @ itoa_nat n"
  "scUser (toy_exchange n) = Some toy_account" "\<exists>p. scParams (toy_exchange n) = Some p"
proof -
  have s: "rawurl_decode (scSalt (usScram toy_account)) = Some [5]" by (simp add: toy_account_def)
  have f: "FetchUser (scRep toy_scram) ''ana'' (toy_at n) = (Inr (Some toy_account), toy_at n)"
    "scUUID toy_scram (toy_at n) = (Inr (itoa_nat n), toy_at (Suc n))" "binding_ok (scUsesCb toy_scram) None"
    by (simp_all add: toy_scram_def toy_users_def toy_at_def binding_ok_def)
  note st = start_client [OF f(3) _ _ _ _ f(1,2) s, of "''xyz''", folded toy_auth_def]
  show "snd (scProcessElement toy_scram toy_auth (newScram, toy_at n)) = (toy_exchange n, toy_at (Suc n))"
    "scState (toy_exchange n) = challengedScramState" "scSrvNonce (toy_exchange n) = ''xyz-'' @ itoa_nat n"
    "scUser (toy_exchange n) = Some toy_account" "\<exists>p. scParams (toy_exchange n) = Some p"
    by (simp_all add: toy_exchange_def st Let_def)
qed

lemma toy_accepts:
  "\<exists>ok. scProcessElement toy_scram (toy_response n) (toy_exchange n, w) = (Inr ok, ((toy_exchange n)\<lparr>scAuthenticated := True\<rparr>, w))"
proof -
  obtain p where p: "scParams (toy_exchange n) = Some p" using toy_start(5) by blast
  have "getScramPassword toy_scram toy_account = Some [1, 2]" by (simp add: getScramPassword_def toy_scram_def toy_account_def)
  from challenged_client [OF toy_start(2) p toy_start(4) this] show ?thesis by (auto simp: toy_response_def Let_def p)
qed

lemma toy_run: "sasl_run toy_scram [SElem toy_auth] (newScram, toy_at n) = (toy_exchange n, toy_at (Suc n))"
  using toy_start(1) [of n] by (simp add: sasl_run_def)

theorem scram_sound_witness:
  "\<exists>pre a mid b post p u uuid.
    [SElem toy_auth, SElem (toy_response 0)] = pre @ SElem a # mid @ SElem b # post \<and> SReset \<notin> set (mid @ post) \<and>
    opened toy_scram a p u uuid \<and> proved toy_scram b p u uuid \<and>
    scUsername ((toy_exchange 0)\<lparr>scAuthenticated := True\<rparr>) = usUsername u"
proof -
  obtain ok where ok: "scProcessElement toy_scram (toy_response 0) (toy_exchange 0, toy_at 1) =
      (Inr ok, ((toy_exchange 0)\<lparr>scAuthenticated := True\<rparr>, toy_at 1))" using toy_accepts by blast
  have "sasl_run toy_scram [SElem toy_auth, SElem (toy_response 0)] (newScram, toy_at 0) =
      ((toy_exchange 0)\<lparr>scAuthenticated := True\<rparr>, toy_at 1)"
    using toy_run [of 0] ok by (simp add: sasl_run_def)
  from scram_sound [OF toy_hash_ok this] show ?thesis by simp
qed

theorem scram_no_replay_witness:
  "\<exists>e. fst (scProcessElement toy_scram (toy_response 0) (toy_exchange 1, toy_at 2)) = Inl e"
proof -
  obtain ok st where ok: "scProcessElement toy_scram (toy_response 0) (toy_exchange 0, toy_at (Suc 0)) = (Inr ok, st)"
    using toy_accepts by blast
  have u: "uuid_ok toy_scram" by (auto simp: uuid_ok_def toy_scram_def itoa_no_comma)
  have "scSrvNonce (toy_exchange 0) \<noteq> scSrvNonce (toy_exchange 1)"
    by (simp add: toy_start itoa_nat.simps digit_char_def)
  from scram_no_replay [OF toy_hash_ok toy_run toy_start(2) toy_hash_ok toy_run toy_start(2) u u this ok] show ?thesis
    by (simp add: numeral_2_eq_2)
qed

text \<open>A listener whose external service accepts a password that repeats the name.\<close>

definition toy_service_auth :: "string \<Rightarrow> string \<Rightarrow> (toy_world, bool) go" where
  "toy_service_auth name password = ret (name = password)"

definition toy_listener :: "toy_world auth_world in_env" where
  "toy_listener = \<lparr>lib = std_lib, envInstanceID = ''i1'', cfgCompression = False, cfgResConflict = Disallow,
     cfgUseTLS = True, trIsSocket = True, trSupportsChannelBinding = False, trStartTLS = ret (),
     trEnableCompression = ret (), trSetReadRateLimiter = (\<lambda>_. ret ()), trClose = ret (),
     sesSetFromJID = (\<lambda>_. ret ()), sesOpenStream = ret (), sesSend = (\<lambda>_. ret ()), sesClose = ret (), sesReset = ret (),
     authenticators = getAuthenticators (Some toy_service_auth) [''scram_sha_256''] 0 toy_scram, shapers = [], newUUID = ret ''u1'',
     rtRoute = (\<lambda>_. ret []), rtRegister = (\<lambda>_. ret ()), rtBind = (\<lambda>_. ret ()), rtUnregister = (\<lambda>_. ret ()),
     rtDisconnect = (\<lambda>_ _. ret ()), rmPutResource = (\<lambda>_. ret ()), rmGetResources = (\<lambda>_. ret []),
     rmDelResource = (\<lambda>_ _. ret ()), cmpIsComponentHost = (\<lambda>_ _. False), cmpProcessStanza = (\<lambda>_. ret ()),
     modIsModuleIQ = (\<lambda>_. False), modProcessIQ = (\<lambda>_. ret ()), modStreamFeatures = (\<lambda>_. ret []),
     envHooks = NewHooks\<rparr>"

definition toy_stream :: in_c2s where
  "toy_stream = (newInC2S toy_listener 1)\<lparr>isActive := Some 0, isJid := Some \<lparr>Node = [], Domain = ''jackal.im'', Resource = []\<rparr>\<rparr>"

definition toy_streams :: "toy_world auth_world" where
  "toy_streams = \<lparr>awScrams = (\<lambda>_. newScram), awExternal = newExternal, awRest = (Map.empty, 0)\<rparr>"

theorem external_takeover_witness:
  "\<exists>ok a1 a2. auProcessElement (authenticators toy_listener ! 0) (plain_auth ''ana'' ''ana'') toy_streams = (Inr ok, a1) \<and>
    auProcessElement (NewExternal toy_service_auth) (plain_auth ''bob'' ''bob'') a1 = (Inr ok, a2) \<and>
    (let st = snd (finishAuthentication toy_listener (toy_stream, a2))
     in isJid (fst st) = NewJID (lib toy_listener) ''bob'' (sDomain toy_stream) [] True \<and> isAuthenticated (isFlags (fst st)))"
  by (rule external_takeover [where ?w1.0 = "(Map.empty, 0)" and ?w2.0 = "(Map.empty, 0)"])
    (simp_all add: toy_stream_def toy_listener_def getAuthenticators_def toy_streams_def toy_service_auth_def go_run)

end
