(* ===== verification/Components.thy ===== *)
theory Components
  imports Cluster_Conn Local_Router
begin

text \<open>
  The registries of modules and components, and the components that are connected to other
  instances.
  \<^item> \<^verbatim>\<open>src/pkg/module/module.go\<close>: the modules of the server; an iq is handed to the first one that
    takes its namespace.
  \<^item> \<^verbatim>\<open>src/pkg/component/component.go\<close>: the table of components by host. \<open>comp_ops\<close> is the interface
    \<^verbatim>\<open>Component\<close>.
  \<^item> \<^verbatim>\<open>src/pkg/component/extcomponentmanager\<close>: the hosts of external components are announced in
    the key-value store; components of other instances are registered as objects (\<open>ext_component\<close>)
    in a heap, because the code registers pointers. \<^verbatim>\<open>GetConnection\<close> and the remote call are parameters.
\<close>

section \<open>Modules\<close>

record 'w iq_processor =
  ipMatchesNamespace :: "string \<Rightarrow> bool \<Rightarrow> bool"
  ipProcessIQ :: "element \<Rightarrow> ('w, unit) go"

text \<open>A module, and what it does with iqs when it is an \<^verbatim>\<open>IQProcessor\<close>.\<close>

record 'w server_module =
  smName :: string
  smStreamFeature :: "string \<Rightarrow> ('w, element option) go"
  smServerFeatures :: "('w, string list) go"
  smAccountFeatures :: "('w, string list) go"
  smStart :: "('w, unit) go"
  smStop :: "('w, unit) go"
  smIQ :: "'w iq_processor option"

record 'w modules =
  mdMods :: "'w server_module list"
  mdIqProcessors :: "'w iq_processor list"

definition setupModules :: "'w server_module list \<Rightarrow> 'w iq_processor list" where
  "setupModules mods = concat (map (\<lambda>m. case smIQ m of None \<Rightarrow> [] | Some p \<Rightarrow> [p]) mods)"

definition NewModules :: "'w server_module list \<Rightarrow> 'w modules" where
  "NewModules mods = \<lparr>mdMods = mods, mdIqProcessors = setupModules mods\<rparr>"

fun start_modules :: "('w server_module \<Rightarrow> ('w, unit) go) \<Rightarrow> 'w server_module list \<Rightarrow> ('w, string list) go" where
  "start_modules f [] = ret []"
| "start_modules f (m # ms) =
     andthen (f m) (\<lambda>_. andthen (start_modules f ms) (\<lambda>ns. ret (smName m # ns)))"

text \<open>\<open>hook\<close> runs a hook with the names of the modules.\<close>

definition mdStart :: "(string \<Rightarrow> string list \<Rightarrow> ('w, unit) go) \<Rightarrow> 'w modules \<Rightarrow> ('w, unit) go" where
  "mdStart hook M = andthen (start_modules smStart (mdMods M)) (\<lambda>names. hook ''modules.started'' names)"

definition mdStop :: "(string \<Rightarrow> string list \<Rightarrow> ('w, unit) go) \<Rightarrow> 'w modules \<Rightarrow> ('w, unit) go" where
  "mdStop hook M = andthen (start_modules smStop (mdMods M)) (\<lambda>names. hook ''modules.stopped'' names)"

definition IsModuleIQ :: "xlib \<Rightarrow> (string \<Rightarrow> bool) \<Rightarrow> element \<Rightarrow> bool" where
  "IsModuleIQ X isLocalHost iq =
     (let toJID = ToJID X iq; replyOnBehalf = IsServer X toJID \<or> IsBare X toJID
      in isLocalHost (Domain toJID) \<and> replyOnBehalf \<and> (IsGet X iq \<or> IsSet X iq))"

fun dispatch_iq :: "'w iq_processor list \<Rightarrow> string \<Rightarrow> bool \<Rightarrow> element \<Rightarrow> ('w, unit) go \<Rightarrow> ('w, unit) go" where
  "dispatch_iq [] ns serverTarget iq otherwise = otherwise"
| "dispatch_iq (p # ps) ns serverTarget iq otherwise =
     (if \<not> ipMatchesNamespace p ns serverTarget then dispatch_iq ps ns serverTarget iq otherwise else ipProcessIQ p iq)"

text \<open>An iq without children makes \<^verbatim>\<open>AllChildren()[0]\<close> panic.\<close>

definition mdProcessIQ :: "xlib \<Rightarrow> (element \<Rightarrow> ('w, jid list) go) \<Rightarrow> 'w modules \<Rightarrow> element \<Rightarrow> ('w, unit) go" where
  "mdProcessIQ X route M iq =
     (case AllChildren iq of
        [] \<Rightarrow> throw ErrPanic
      | c # _ \<Rightarrow>
          dispatch_iq (mdIqProcessors M) (Attribute X c ''xmlns'') (IsServer X (ToJID X iq)) iq
            (ignore (route (ErrorStanza X ''service-unavailable'' iq))))"

fun mdStreamFeatures :: "'w server_module list \<Rightarrow> string \<Rightarrow> ('w, element list) go" where
  "mdStreamFeatures [] domain = ret []"
| "mdStreamFeatures (m # ms) domain =
     andthen (smStreamFeature m domain) (\<lambda>sf.
       andthen (mdStreamFeatures ms domain) (\<lambda>sfs. ret (case sf of None \<Rightarrow> sfs | Some e \<Rightarrow> e # sfs)))"

definition IsEnabled :: "'w modules \<Rightarrow> string \<Rightarrow> bool" where
  "IsEnabled M moduleName = list_ex (\<lambda>m. smName m = moduleName) (mdMods M)"

lemma dispatch_iq_first:
  "dispatch_iq ps ns srv iq other =
     (case find_first (\<lambda>p. ipMatchesNamespace p ns srv) ps of None \<Rightarrow> other | Some p \<Rightarrow> ipProcessIQ p iq)"
  by (induction ps) auto

section \<open>Components\<close>

record ('c, 'w) comp_ops =
  coHost :: "'c \<Rightarrow> 'w \<Rightarrow> string"
  coProcessStanza :: "'c \<Rightarrow> element \<Rightarrow> ('w, unit) go"
  coStart :: "'c \<Rightarrow> ('w, unit) go"
  coStop :: "'c \<Rightarrow> ('w, unit) go"

text \<open>The table and the state of the components.\<close>

type_synonym ('c, 'w) comp_world = "(string \<rightharpoonup> 'c) \<times> 'w"

definition co_ext :: "('w, 'a) go \<Rightarrow> (('c, 'w) comp_world, 'a) go" where
  "co_ext m = (\<lambda>(t, w). case m w of (r, w') \<Rightarrow> (r, (t, w')))"

definition NewComponents :: "('c, 'w) comp_ops \<Rightarrow> 'c list \<Rightarrow> 'w \<Rightarrow> ('c, 'w) comp_world" where
  "NewComponents C comps w = (fold (\<lambda>c t. t(coHost C c w \<mapsto> c)) comps Map.empty, w)"

definition RegisterComponent :: "('c, 'w) comp_ops \<Rightarrow> 'c \<Rightarrow> (('c, 'w) comp_world, unit) go" where
  "RegisterComponent C cmp =
     andthen (co_ext (coStart C cmp)) (\<lambda>_.
       modify (\<lambda>(t, w). (t(coHost C cmp w \<mapsto> cmp), w)))"

definition UnregisterComponent :: "('c, 'w) comp_ops \<Rightarrow> string \<Rightarrow> (('c, 'w) comp_world, unit) go" where
  "UnregisterComponent C cHost =
     andthen (gets (\<lambda>(t, w). t cHost)) (\<lambda>cmp.
       case cmp of
         None \<Rightarrow> throw (ErrComponentNotFound cHost)
       | Some c \<Rightarrow> andthen (co_ext (coStop C c)) (\<lambda>_. modify (\<lambda>(t, w). (t(cHost := None), w))))"

definition Component :: "string \<Rightarrow> ('c, 'w) comp_world \<Rightarrow> 'c option" where
  "Component cHost tw = fst tw cHost"

definition IsComponentHost :: "string \<Rightarrow> ('c, 'w) comp_world \<Rightarrow> bool" where
  "IsComponentHost cHost tw = (fst tw cHost \<noteq> None)"

definition coProcess :: "xlib \<Rightarrow> ('c, 'w) comp_ops \<Rightarrow> element \<Rightarrow> (('c, 'w) comp_world, unit) go" where
  "coProcess X C stanza =
     (let cHost = Domain (ToJID X stanza)
      in andthen (gets (\<lambda>(t, w). t cHost)) (\<lambda>cmp.
           case cmp of
             None \<Rightarrow> throw (ErrComponentNotFound cHost)
           | Some c \<Rightarrow> co_ext (coProcessStanza C c stanza)))"

text \<open>\<open>comps\<close> is the order in which the map is walked.\<close>

fun each_component :: "('c, 'w) comp_ops \<Rightarrow> ('c \<Rightarrow> ('w, unit) go) \<Rightarrow> 'c list \<Rightarrow> (('c, 'w) comp_world, string list) go" where
  "each_component C f [] = ret []"
| "each_component C f (c # cs) =
     andthen (co_ext (f c)) (\<lambda>_.
     andthen (gets (\<lambda>(t, w). coHost C c w)) (\<lambda>h.
     andthen (each_component C f cs) (\<lambda>hs. ret (h # hs))))"

definition coStartAll :: "('c, 'w) comp_ops \<Rightarrow> (string \<Rightarrow> string list \<Rightarrow> ('w, unit) go) \<Rightarrow> 'c list \<Rightarrow> (('c, 'w) comp_world, unit) go" where
  "coStartAll C hook comps =
     andthen (each_component C (coStart C) comps) (\<lambda>hosts. co_ext (hook ''components.started'' hosts))"

definition coStopAll :: "('c, 'w) comp_ops \<Rightarrow> (string \<Rightarrow> string list \<Rightarrow> ('w, unit) go) \<Rightarrow> 'c list \<Rightarrow> (('c, 'w) comp_world, unit) go" where
  "coStopAll C hook comps =
     andthen (each_component C (coStop C) comps) (\<lambda>hosts. co_ext (hook ''components.stopped'' hosts))"

section \<open>Components of other instances\<close>

record ext_component =
  ecHost :: string
  ecConn :: nat

text \<open>What is registered: a component of the server, the stream of a connected component, or a
  pointer to an \<open>ext_component\<close>.\<close>

datatype cmp = ServerComp nat | StreamComp nat | ExtComp nat

record 'w em_world =
  emHeap :: "nat \<Rightarrow> ext_component"
  emNext :: nat
  emRest :: 'w

record 'w em_env =
  emInstanceID :: string
  emGetConnection :: "string \<Rightarrow> 'w \<Rightarrow> go_error + nat"
  emCompRoute :: "nat \<Rightarrow> element \<Rightarrow> ('w, unit) go"
  emKVPut :: "string \<Rightarrow> string \<Rightarrow> ('w, unit) go"
  emKVDel :: "string \<Rightarrow> ('w, unit) go"
  emKVGetPrefix :: "string \<Rightarrow> ('w, (string \<times> string) list) go"
  emLocalHost :: "cmp \<Rightarrow> 'w \<Rightarrow> string" \<comment> \<open>hosts of server and stream components\<close>
  emLocalProcess :: "cmp \<Rightarrow> element \<Rightarrow> ('w, unit) go"

definition em_ext :: "('w, 'a) go \<Rightarrow> ('w em_world, 'a) go" where
  "em_ext m = (\<lambda>e. case m (emRest e) of (r, w) \<Rightarrow> (r, e\<lparr>emRest := w\<rparr>))"

definition ecProcessStanza :: "'w em_env \<Rightarrow> nat \<Rightarrow> element \<Rightarrow> ('w em_world, unit) go" where
  "ecProcessStanza E p stanza = andthen (gets (\<lambda>e. ecConn (emHeap e p))) (\<lambda>conn. em_ext (emCompRoute E conn stanza))"

definition em_ops :: "'w em_env \<Rightarrow> (cmp, 'w em_world) comp_ops" where
  "em_ops E = \<lparr>
     coHost = (\<lambda>c e. case c of ExtComp p \<Rightarrow> ecHost (emHeap e p) | _ \<Rightarrow> emLocalHost E c (emRest e)),
     coProcessStanza = (\<lambda>c st. case c of ExtComp p \<Rightarrow> ecProcessStanza E p st | _ \<Rightarrow> em_ext (emLocalProcess E c st)),
     coStart = (\<lambda>_. ret ()), coStop = (\<lambda>_. ret ())\<rparr>"

definition extComponentKeyPrefix :: string where "extComponentKeyPrefix = ''ec://''"

definition kvComponentHostKey :: "string \<Rightarrow> string" where
  "kvComponentHostKey cHost = extComponentKeyPrefix @ cHost"

definition isLocalExtComponent :: "'w em_env \<Rightarrow> string \<Rightarrow> bool" where
  "isLocalExtComponent E v \<longleftrightarrow> trim_prefix v ''i='' = emInstanceID E"

definition RegisterComponentHost :: "'w em_env \<Rightarrow> string \<Rightarrow> ('w, unit) go" where
  "RegisterComponentHost E cHost = emKVPut E (kvComponentHostKey cHost) (''i='' @ emInstanceID E)"

definition UnregisterComponentHost :: "'w em_env \<Rightarrow> string \<Rightarrow> ('w, unit) go" where
  "UnregisterComponentHost E cHost = emKVDel E (kvComponentHostKey cHost)"

text \<open>\<^verbatim>\<open>fmt.Sscanf(val, "i=%s", ...)\<close>: the name up to the next blank, empty when the format does not match.\<close>

definition is_blank :: "char \<Rightarrow> bool" where
  "is_blank c \<longleftrightarrow> c = CHR '' '' \<or> c = CHR 0x09 \<or> c = CHR 0x0A \<or> c = CHR 0x0D"

definition scan_instance :: "string \<Rightarrow> string" where
  "scan_instance val =
     (if has_prefix val ''i='' then takeWhile (\<lambda>c. \<not> is_blank c) (dropWhile (\<lambda>c. c = CHR '' '') (drop 2 val)) else [])"

definition decodeExtComponent :: "'w em_env \<Rightarrow> string \<Rightarrow> string \<Rightarrow> 'w \<Rightarrow> go_error + ext_component" where
  "decodeExtComponent E k val w =
     (case emGetConnection E (scan_instance val) w of
        Inl e \<Rightarrow> Inl e
      | Inr conn \<Rightarrow> Inr \<lparr>ecHost = trim_prefix k extComponentKeyPrefix, ecConn = conn\<rparr>)"

definition new_ext :: "ext_component \<Rightarrow> ('w em_world, nat) go" where
  "new_ext ec = (\<lambda>e. (Inr (emNext e), e\<lparr>emHeap := (emHeap e)(emNext e := ec), emNext := Suc (emNext e)\<rparr>))"

type_synonym 'w em_state = "(cmp, 'w em_world) comp_world"

fun emProcessKVEvents :: "'w em_env \<Rightarrow> watch_event list \<Rightarrow> ('w em_state, unit) go" where
  "emProcessKVEvents E [] = ret ()"
| "emProcessKVEvents E (ev # evs) =
     (if isLocalExtComponent E (evVal ev) then emProcessKVEvents E evs
      else case evType ev of
             PutEvent \<Rightarrow>
               andthen (co_ext (\<lambda>e. (decodeExtComponent E (evKey ev) (evVal ev) (emRest e), e))) (\<lambda>ec.
               andthen (co_ext (new_ext ec)) (\<lambda>p.
               andthen (RegisterComponent (em_ops E) (ExtComp p)) (\<lambda>_. emProcessKVEvents E evs)))
           | DelEvent \<Rightarrow>
               andthen (UnregisterComponent (em_ops E) (trim_prefix (evKey ev) extComponentKeyPrefix)) (\<lambda>_.
                 emProcessKVEvents E evs))"

text \<open>Entries that are local or cannot be decoded are skipped.\<close>

definition getExtComponents :: "'w em_env \<Rightarrow> ('w, ext_component list) go" where
  "getExtComponents E =
     andthen (emKVGetPrefix E extComponentKeyPrefix) (\<lambda>vs w.
       (Inr (concat (map (\<lambda>(k, val). if isLocalExtComponent E val then []
                            else case decodeExtComponent E k val w of Inl _ \<Rightarrow> [] | Inr ec \<Rightarrow> [ec]) vs)), w))"

text \<open>The first part of \<^verbatim>\<open>refreshExternalComponents\<close>. The loop variable is one object, to which every
  registration gets a pointer (the module is compiled for a Go version before 1.22).\<close>

definition register_var :: "'w em_env \<Rightarrow> nat \<Rightarrow> ext_component \<Rightarrow> ('w em_state, unit) go" where
  "register_var E p ec =
     andthen (modify (\<lambda>(t, e). (t, e\<lparr>emHeap := (emHeap e)(p := ec)\<rparr>))) (\<lambda>_.
       ignore (RegisterComponent (em_ops E) (ExtComp p)))"

definition refresh_register :: "'w em_env \<Rightarrow> ext_component list \<Rightarrow> ('w em_state, unit) go" where
  "refresh_register E ecs =
     (case ecs of [] \<Rightarrow> ret ()
      | ec0 # _ \<Rightarrow> andthen (co_ext (new_ext ec0)) (\<lambda>p. for_each ecs (register_var E p)))"

definition refreshExternalComponents :: "'w em_env \<Rightarrow> ('w em_state, unit) go" where
  "refreshExternalComponents E =
     andthen (co_ext (em_ext (getExtComponents E))) (\<lambda>ecs. refresh_register E ecs)"

section \<open>What the table says\<close>

text \<open>The remote component registered for a host, pointers followed.\<close>

definition remote_of :: "'w em_state \<Rightarrow> string \<Rightarrow> ext_component option" where
  "remote_of st h = (case fst st h of Some (ExtComp p) \<Rightarrow> Some (emHeap (snd st) p) | _ \<Rightarrow> None)"

definition pointers_ok :: "'w em_state \<Rightarrow> bool" where
  "pointers_ok st \<longleftrightarrow> (\<forall>h p. fst st h = Some (ExtComp p) \<longrightarrow> p < emNext (snd st))"

text \<open>What the other instances say: a host is connected to an instance, or not connected any more. The store
  reports the key of the host, with the name of the instance or with nothing.\<close>

datatype announcement = Up string string | Down string

fun kv_event :: "announcement \<Rightarrow> watch_event" where
  "kv_event (Up i h) = \<lparr>evType = PutEvent, evKey = ''ec://'' @ h, evVal = ''i='' @ i\<rparr>"
| "kv_event (Down h) = \<lparr>evType = DelEvent, evKey = ''ec://'' @ h, evVal = []\<rparr>"

text \<open>The last word of other instances than \<open>own\<close> about each host, if there is one.\<close>

fun hear :: "string \<Rightarrow> announcement \<Rightarrow> (string \<rightharpoonup> string option) \<Rightarrow> (string \<rightharpoonup> string option)" where
  "hear own (Up i h) m = (if i = own then m else m(h \<mapsto> Some i))"
| "hear own (Down h) m = m(h \<mapsto> None)"

fun clean :: "announcement \<Rightarrow> bool" where
  "clean (Up i h) \<longleftrightarrow> (\<forall>c \<in> set i. \<not> is_blank c)"
| "clean (Down h) \<longleftrightarrow> True"

text \<open>The table is as the last words \<open>m\<close> say, and unchanged for all other hosts.\<close>

definition follows :: "'w em_env \<Rightarrow> 'w em_state \<Rightarrow> (string \<rightharpoonup> string option) \<Rightarrow> 'w em_state \<Rightarrow> bool" where
  "follows E st0 m st \<longleftrightarrow> pointers_ok st \<and> emRest (snd st) = emRest (snd st0) \<and>
     (\<forall>h. case m h of
        None \<Rightarrow> fst st h = fst st0 h \<and> remote_of st h = remote_of st0 h
      | Some None \<Rightarrow> fst st h = None
      | Some (Some i) \<Rightarrow> (\<exists>conn. emGetConnection E i (emRest (snd st0)) = Inr conn \<and> remote_of st h = Some \<lparr>ecHost = h, ecConn = conn\<rparr>))"

lemma scan_clean: "\<forall>c \<in> set i. \<not> is_blank c \<Longrightarrow> scan_instance (''i='' @ i) = i"
  by (cases i) (auto simp: scan_instance_def has_prefix_def is_blank_def takeWhile_eq_all_conv)

lemma trim_key: "trim_prefix (''ec://'' @ h) extComponentKeyPrefix = h"
  by (simp add: trim_prefix_def has_prefix_def extComponentKeyPrefix_def)

lemma local_event: "isLocalExtComponent E (''i='' @ i) \<longleftrightarrow> i = emInstanceID E"
  by (simp add: isLocalExtComponent_def trim_prefix_def has_prefix_def)

lemma register_ext:
  "RegisterComponent (em_ops E) (ExtComp p) (t, e) = (Inr (), (t(ecHost (emHeap e p) \<mapsto> ExtComp p), e))"
  by (simp add: RegisterComponent_def em_ops_def co_ext_def go_run)

lemma follows_upd:
  assumes "follows E st0 m st" and "pointers_ok st1" and "emRest (snd st1) = emRest (snd st)"
    and "\<And>k. k \<noteq> h \<Longrightarrow> fst st1 k = fst st k \<and> remote_of st1 k = remote_of st k"
    and "case x of None \<Rightarrow> fst st1 h = None
      | Some i \<Rightarrow> (\<exists>conn. emGetConnection E i (emRest (snd st0)) = Inr conn \<and> remote_of st1 h = Some \<lparr>ecHost = h, ecConn = conn\<rparr>)"
  shows "follows E st0 (m(h \<mapsto> x)) st1"
  unfolding follows_def
proof (intro conjI allI)
  show "pointers_ok st1" "emRest (snd st1) = emRest (snd st0)" using assms(1-3) by (simp_all add: follows_def)
  fix k
  show "case (m(h \<mapsto> x)) k of
      None \<Rightarrow> fst st1 k = fst st0 k \<and> remote_of st1 k = remote_of st0 k
    | Some None \<Rightarrow> fst st1 k = None
    | Some (Some i) \<Rightarrow> (\<exists>conn. emGetConnection E i (emRest (snd st0)) = Inr conn \<and> remote_of st1 k = Some \<lparr>ecHost = k, ecConn = conn\<rparr>)"
  proof (cases "k = h")
    case True
    with assms(5) show ?thesis by (cases x) simp_all
  next
    case False
    from assms(1) have "case m k of None \<Rightarrow> fst st k = fst st0 k \<and> remote_of st k = remote_of st0 k
      | Some None \<Rightarrow> fst st k = None
      | Some (Some i) \<Rightarrow> (\<exists>conn. emGetConnection E i (emRest (snd st0)) = Inr conn \<and> remote_of st k = Some \<lparr>ecHost = k, ecConn = conn\<rparr>)"
      unfolding follows_def by blast
    with assms(4) [OF False] have "case m k of None \<Rightarrow> fst st1 k = fst st0 k \<and> remote_of st1 k = remote_of st0 k
      | Some None \<Rightarrow> fst st1 k = None
      | Some (Some i) \<Rightarrow> (\<exists>conn. emGetConnection E i (emRest (snd st0)) = Inr conn \<and> remote_of st1 k = Some \<lparr>ecHost = k, ecConn = conn\<rparr>)"
      by (simp only:)
    with False show ?thesis by simp
  qed
qed

lemma event_up:
  assumes "follows E st0 m st" and "i \<noteq> emInstanceID E" and "\<forall>c \<in> set i. \<not> is_blank c"
    and "emProcessKVEvents E (kv_event (Up i h) # evs) st = (Inr (), st')"
  obtains st1 where "follows E st0 (m(h \<mapsto> Some i)) st1" and "emProcessKVEvents E evs st1 = (Inr (), st')"
proof -
  obtain t e where st: "st = (t, e)" by fastforce
  obtain conn where c: "emGetConnection E i (emRest e) = Inr conn"
    using assms(2-4) by (cases "emGetConnection E i (emRest e)")
      (auto simp: st local_event [simplified] scan_clean [simplified] co_ext_def go_run decodeExtComponent_def)
  let ?ec = "\<lparr>ecHost = h, ecConn = conn\<rparr>" and ?p = "emNext e"
  let ?st = "(t(h \<mapsto> ExtComp ?p), e\<lparr>emHeap := (emHeap e)(?p := \<lparr>ecHost = h, ecConn = conn\<rparr>), emNext := Suc ?p\<rparr>)"
  have "decodeExtComponent E (''ec://'' @ h) (''i='' @ i) (emRest e) = Inr ?ec"
    unfolding decodeExtComponent_def scan_clean [OF assms(3)] trim_key by (simp add: c)
  with assms(2,4) have run: "emProcessKVEvents E evs ?st = (Inr (), st')"
    by (simp add: st local_event [simplified] co_ext_def new_ext_def go_run register_ext)
  have ok: "pointers_ok st" using assms(1) by (simp add: follows_def)
  have "remote_of ?st = (remote_of st)(h \<mapsto> ?ec)"
    using ok by (auto simp: remote_of_def st fun_eq_iff pointers_ok_def split: option.splits cmp.splits)
  moreover have "pointers_ok ?st" using ok by (auto simp: pointers_ok_def st less_Suc_eq)
  ultimately have "follows E st0 (m(h \<mapsto> Some i)) ?st"
    using assms(1) c by (intro follows_upd [OF assms(1)]) (simp_all add: st follows_def)
  with run that show thesis by blast
qed

lemma event_down:
  assumes "follows E st0 m st" and "emInstanceID E \<noteq> []" and "emProcessKVEvents E (kv_event (Down h) # evs) st = (Inr (), st')"
  obtains st1 where "follows E st0 (m(h \<mapsto> None)) st1" and "emProcessKVEvents E evs st1 = (Inr (), st')"
proof -
  obtain t e where st: "st = (t, e)" by fastforce
  have "\<not> isLocalExtComponent E []" using assms(2) by (simp add: isLocalExtComponent_def trim_prefix_def has_prefix_def)
  with assms(3) have run: "emProcessKVEvents E evs (t(h := None), e) = (Inr (), st')"
    by (auto simp: st UnregisterComponent_def em_ops_def co_ext_def go_run trim_key [simplified] split: option.splits)
  have "follows E st0 (m(h \<mapsto> None)) (t(h := None), e)"
    using assms(1) by (intro follows_upd [OF assms(1)]) (auto simp: st remote_of_def pointers_ok_def follows_def split: option.split cmp.split)
  with run that show thesis by blast
qed

lemma events_follow:
  "follows E st0 m st \<Longrightarrow> emInstanceID E \<noteq> [] \<Longrightarrow> \<forall>a \<in> set anns. clean a \<Longrightarrow> emProcessKVEvents E (map kv_event anns) st = (Inr (), st') \<Longrightarrow>
     follows E st0 (fold (hear (emInstanceID E)) anns m) st'"
proof (induction anns arbitrary: m st)
  case (Cons a anns)
  show ?case
  proof (cases a)
    case (Up i h)
    show ?thesis
    proof (cases "i = emInstanceID E")
      case True
      with Up Cons show ?thesis by (simp add: local_event [simplified])
    next
      case False
      with event_up [OF Cons.prems(1) False, of h "map kv_event anns" st'] Up Cons show ?thesis by auto
    qed
  next
    case (Down h)
    with event_down [OF Cons.prems(1,2), of h "map kv_event anns" st'] Cons show ?thesis by auto
  qed
qed (simp add: go_run)

lemma process_remote:
  assumes "remote_of st (Domain (ToJID X stanza)) = Some ec"
  shows "coProcess X (em_ops E) stanza st = co_ext (em_ext (emCompRoute E (ecConn ec) stanza)) st"
  using assms
  by (auto simp: coProcess_def Let_def remote_of_def em_ops_def ecProcessStanza_def co_ext_def em_ext_def go_run
      split: option.splits cmp.splits prod.splits)

text \<open>
  C39. Components of other instances follow what these instances say. After a batch of events of the
  key-value store has been processed without an error, a stanza for a host that another
  instance was the last to announce goes out on the connection to that instance; for a host that was withdrawn last
  there is no component; and all hosts about which the events say nothing, or only this instance itself
  does, keep their component. The events are those that registering and withdrawing a host causes, the names of instances
  hold no blank, and the connections do not change while the events are processed. The table that is
  filled when the manager starts is not covered: \<open>refresh_shares_component\<close> shows what happens there.
\<close>

theorem remote_components_follow:
  assumes "pointers_ok st" and "emInstanceID E \<noteq> []" and "\<forall>a \<in> set anns. clean a"
    and "emProcessKVEvents E (map kv_event anns) st = (Inr (), st')"
  shows "pointers_ok st' \<and>
    (case fold (hear (emInstanceID E)) anns Map.empty h of
       None \<Rightarrow> fst st' h = fst st h \<and> remote_of st' h = remote_of st h
     | Some None \<Rightarrow> (\<forall>X stanza. Domain (ToJID X stanza) = h \<longrightarrow> coProcess X (em_ops E) stanza st' = (Inl (ErrComponentNotFound h), st'))
     | Some (Some i) \<Rightarrow> (\<exists>conn. emGetConnection E i (emRest (snd st)) = Inr conn \<and>
         (\<forall>X stanza. Domain (ToJID X stanza) = h \<longrightarrow> coProcess X (em_ops E) stanza st' = co_ext (em_ext (emCompRoute E conn stanza)) st'))) \<and>
    (\<forall>i. RegisterComponentHost (E\<lparr>emInstanceID := i\<rparr>) h = emKVPut E (evKey (kv_event (Up i h))) (evVal (kv_event (Up i h)))) \<and>
    UnregisterComponentHost E h = emKVDel E (evKey (kv_event (Down h)))"
proof -
  have "follows E st Map.empty st" using assms(1) by (simp add: follows_def)
  from events_follow [OF this assms(2-4)] have f: "follows E st (fold (hear (emInstanceID E)) anns Map.empty) st'" .
  have gone: "coProcess X (em_ops E) stanza st' = (Inl (ErrComponentNotFound (Domain (ToJID X stanza))), st')"
    if "fst st' (Domain (ToJID X stanza)) = None" for X stanza
    using that by (simp add: coProcess_def Let_def go_run split_beta)
  let ?m = "fold (hear (emInstanceID E)) anns Map.empty"
  from f have word: "case ?m h of
       None \<Rightarrow> fst st' h = fst st h \<and> remote_of st' h = remote_of st h
     | Some None \<Rightarrow> fst st' h = None
     | Some (Some i) \<Rightarrow> (\<exists>conn. emGetConnection E i (emRest (snd st)) = Inr conn \<and> remote_of st' h = Some \<lparr>ecHost = h, ecConn = conn\<rparr>)"
    unfolding follows_def by blast
  have sent: "case ?m h of
       None \<Rightarrow> fst st' h = fst st h \<and> remote_of st' h = remote_of st h
     | Some None \<Rightarrow> (\<forall>X stanza. Domain (ToJID X stanza) = h \<longrightarrow> coProcess X (em_ops E) stanza st' = (Inl (ErrComponentNotFound h), st'))
     | Some (Some i) \<Rightarrow> (\<exists>conn. emGetConnection E i (emRest (snd st)) = Inr conn \<and>
         (\<forall>X stanza. Domain (ToJID X stanza) = h \<longrightarrow> coProcess X (em_ops E) stanza st' = co_ext (em_ext (emCompRoute E conn stanza)) st'))"
  proof (cases "?m h")
    case (Some x)
    with word show ?thesis by (cases x) (auto simp: gone dest!: process_remote [where E = E])
  qed (use word in simp)
  have "pointers_ok st'" using f by (simp add: follows_def)
  moreover have "RegisterComponentHost (E\<lparr>emInstanceID := i\<rparr>) h = emKVPut E (evKey (kv_event (Up i h))) (evVal (kv_event (Up i h)))" for i
    by (simp add: RegisterComponentHost_def kvComponentHostKey_def extComponentKeyPrefix_def)
  moreover have "UnregisterComponentHost E h = emKVDel E (evKey (kv_event (Down h)))"
    by (simp add: UnregisterComponentHost_def kvComponentHostKey_def extComponentKeyPrefix_def)
  ultimately show ?thesis using sent by blast
qed

section \<open>The first fill of the table\<close>

lemma register_loop:
  "for_each ecs (register_var E p) (t, e) =
   (Inr (), (fold (\<lambda>ec t. t(ecHost ec \<mapsto> ExtComp p)) ecs t,
             if ecs = [] then e else e\<lparr>emHeap := (emHeap e)(p := last ecs)\<rparr>))"
proof (induction ecs arbitrary: t e)
  case (Cons ec ecs)
  have "register_var E p ec (t, e) = (Inr (), (t(ecHost ec \<mapsto> ExtComp p), e\<lparr>emHeap := (emHeap e)(p := ec)\<rparr>))"
    by (simp add: register_var_def go_run register_ext)
  then show ?case by (simp add: andthen_run Cons.IH)
qed (simp add: go_run)

lemma fold_hosts:
  "ec \<in> set ecs \<or> t (ecHost ec) = Some c \<Longrightarrow> fold (\<lambda>ec t. t(ecHost ec \<mapsto> c)) ecs t (ecHost ec) = Some c"
  by (induction ecs arbitrary: t) (auto simp del: fun_upd_apply, (simp_all add: fun_upd_apply)+)

text \<open>
  When the manager starts, it registers every component announced by another instance under its
  host, but with a pointer to one and the same object, which at the end is the last component read:
  a stanza for any of these hosts is sent to the instance of the last one.
\<close>

theorem refresh_shares_component:
  assumes "getExtComponents E (emRest (snd st)) = (Inr ecs, w)" and "ec \<in> set ecs"
  shows "\<exists>st'. refreshExternalComponents E st = (Inr (), st') \<and> remote_of st' (ecHost ec) = Some (last ecs) \<and>
    (\<forall>X stanza. Domain (ToJID X stanza) = ecHost ec \<longrightarrow>
       coProcess X (em_ops E) stanza st' = co_ext (em_ext (emCompRoute E (ecConn (last ecs)) stanza)) st')"
proof -
  obtain t e where st: "st = (t, e)" by fastforce
  from assms(2) obtain ec0 rest where ecs: "ecs = ec0 # rest" by (cases ecs) auto
  let ?e = "e\<lparr>emRest := w\<rparr>" and ?p = "emNext e"
  let ?e2 = "?e\<lparr>emHeap := (emHeap e)(?p := ec0), emNext := Suc ?p\<rparr>"
  let ?st = "(fold (\<lambda>ec t. t(ecHost ec \<mapsto> ExtComp ?p)) ecs t, ?e2\<lparr>emHeap := (emHeap ?e2)(?p := last ecs)\<rparr>)"
  have "refreshExternalComponents E st = refresh_register E ecs (t, ?e)"
    using assms(1) by (simp add: refreshExternalComponents_def st co_ext_def em_ext_def go_run)
  also have "\<dots> = for_each ecs (register_var E ?p) (t, ?e2)"
    by (simp add: refresh_register_def ecs co_ext_def new_ext_def andthen_run)
  also have "\<dots> = (Inr (), ?st)" unfolding register_loop using ecs by simp
  finally have run: "refreshExternalComponents E st = (Inr (), ?st)" .
  have r: "remote_of ?st (ecHost ec) = Some (last ecs)" by (simp add: remote_of_def fold_hosts assms(2))
  from process_remote [of ?st _ _ "last ecs" E] r run show ?thesis by (intro exI [of _ ?st]) auto
qed

section \<open>A small cluster\<close>

definition duo_env :: "(string \<times> nat) list em_env" where
  "duo_env = \<lparr>emInstanceID = ''a'', emGetConnection = (\<lambda>i w. if i = ''b'' then Inr 2 else if i = ''c'' then Inr 3 else Inl (ErrConnNotFound i)),
     emCompRoute = (\<lambda>c st. modify (\<lambda>l. l @ [(Name st, c)])), emKVPut = (\<lambda>_ _. ret ()), emKVDel = (\<lambda>_. ret ()),
     emKVGetPrefix = (\<lambda>_. ret [(''ec://muc.x'', ''i=b''), (''ec://own.x'', ''i=a''), (''ec://pubsub.x'', ''i=c'')]),
     emLocalHost = (\<lambda>_ _. []), emLocalProcess = (\<lambda>_ _. ret ())\<rparr>"

definition duo_start :: "(string \<times> nat) list em_state" where
  "duo_start = (Map.empty, \<lparr>emHeap = (\<lambda>_. \<lparr>ecHost = [], ecConn = 0\<rparr>), emNext = 0, emRest = []\<rparr>)"

definition duo_said :: "announcement list" where
  "duo_said = [Up ''b'' ''muc.x'', Up ''a'' ''own.x'', Up ''b'' ''pubsub.x'', Down ''muc.x'', Up ''c'' ''pubsub.x'']"

theorem remote_components_follow_witness:
  "\<exists>st'. emProcessKVEvents duo_env (map kv_event duo_said) duo_start = (Inr (), st') \<and>
     (\<forall>X stanza. Domain (ToJID X stanza) = ''pubsub.x'' \<longrightarrow> coProcess X (em_ops duo_env) stanza st' = co_ext (em_ext (emCompRoute duo_env 3 stanza)) st') \<and>
     (\<forall>X stanza. Domain (ToJID X stanza) = ''muc.x'' \<longrightarrow> coProcess X (em_ops duo_env) stanza st' = (Inl (ErrComponentNotFound ''muc.x''), st')) \<and>
     fst st' ''own.x'' = None"
proof -
  obtain r st' where run: "emProcessKVEvents duo_env (map kv_event duo_said) duo_start = (r, st')" using prod.exhaust by blast
  have "fst (emProcessKVEvents duo_env (map kv_event duo_said) duo_start) = Inr ()" by code_simp
  with run have run': "emProcessKVEvents duo_env (map kv_event duo_said) duo_start = (Inr (), st')" by simp
  have ok: "pointers_ok duo_start" "emInstanceID duo_env \<noteq> []" "\<forall>a \<in> set duo_said. clean a"
    by (simp_all add: pointers_ok_def duo_start_def duo_env_def duo_said_def is_blank_def)
  have said: "fold (hear (emInstanceID duo_env)) duo_said Map.empty ''pubsub.x'' = Some (Some ''c'')"
    "fold (hear (emInstanceID duo_env)) duo_said Map.empty ''muc.x'' = Some None"
    "fold (hear (emInstanceID duo_env)) duo_said Map.empty ''own.x'' = None" "fst duo_start ''own.x'' = None"
    "emGetConnection duo_env ''c'' [] = Inr 3" "emRest (snd duo_start) = []"
    by code_simp+
  note follow = remote_components_follow [OF ok run']
  show ?thesis
    using follow [of "''pubsub.x''"] follow [of "''muc.x''"] follow [of "''own.x''"] run' said by (intro exI [of _ st']) auto
qed

theorem refresh_shares_component_witness:
  "\<exists>st'. refreshExternalComponents duo_env duo_start = (Inr (), st') \<and>
     remote_of st' ''muc.x'' = Some \<lparr>ecHost = ''pubsub.x'', ecConn = 3\<rparr>"
proof -
  let ?ecs = "[\<lparr>ecHost = ''muc.x'', ecConn = 2\<rparr>, \<lparr>ecHost = ''pubsub.x'', ecConn = 3\<rparr>]"
  have "getExtComponents duo_env (emRest (snd duo_start)) = (Inr ?ecs, [])" by code_simp
  from refresh_shares_component [OF this, of "hd ?ecs"] show ?thesis by auto
qed

end
