(* ===== verification/Ext_Component.thy ===== *)
theory Ext_Component
  imports Components Shaper
begin

text \<open>
  Streams of external components (\<^verbatim>\<open>src/pkg/component/xep0114\<close>, XEP-0114).
  \<^item> \<open>in_component\<close> holds the fields of \<^verbatim>\<open>inComponent\<close> that change, \<open>cp_env\<close> its collaborators: session,
    transport, registries, router, hooks. A computation acts on the stream and on the state \<open>'w\<close>
    behind them.
  \<^item> The tasks of the run queue are the events of \<open>cp_event\<close>; results of \<^verbatim>\<open>session.Receive\<close> are part of
    the event.
  \<^item> SHA-1 in hexadecimal is a parameter. Metrics, logging and request contexts are left out.
\<close>

section \<open>Data\<close>

datatype cp_state = cpConnecting | cpHandshaking | cpAuthenticated | cpDisconnected

record cp_info =
  cfID :: string
  cfHost :: string
  cfElement :: "element option"

record in_component =
  icId :: nat
  icState :: cp_state
  icJd :: jid
  icDiscTm :: bool \<comment> \<open>a timer that closes the stream is running\<close>
  icSendDisabled :: bool
  icDone :: bool

record 'w cp_env =
  cpLib :: xlib
  cpSecret :: string
  cpStreamID :: string
  cpHexSha1 :: "string \<Rightarrow> string"
  cpShapers :: "shaper list"
  cpSetReadRateLimiter :: "shaper \<Rightarrow> ('w, unit) go"
  cpTrClose :: "('w, unit) go"
  cpSesReset :: "('w, unit) go"
  cpSesSetFromJID :: "jid \<Rightarrow> ('w, unit) go"
  cpSesOpenComponent :: "('w, unit) go"
  cpSesSend :: "element \<Rightarrow> ('w, unit) go"
  cpSesClose :: "('w, unit) go"
  cpIsComponentHost :: "string \<Rightarrow> 'w \<Rightarrow> bool"
  cpRegister :: "nat \<Rightarrow> string \<Rightarrow> ('w, unit) go"
  cpUnregister :: "string \<Rightarrow> ('w, unit) go"
  cpRegisterHost :: "string \<Rightarrow> ('w, unit) go"
  cpUnregisterHost :: "string \<Rightarrow> ('w, unit) go"
  cpRoute :: "element \<Rightarrow> ('w, jid list) go"
  cpHubRegister :: "nat \<Rightarrow> ('w, unit) go"
  cpHubUnregister :: "nat \<Rightarrow> ('w, unit) go"
  cpHooks :: "(in_component \<times> 'w, cp_info) hooks"

type_synonym ('w, 'a) cps = "(in_component \<times> 'w, 'a) go"

definition cp_ext :: "('w, 'a) go \<Rightarrow> ('w, 'a) cps" where
  "cp_ext m = (\<lambda>(s, w). case m w of (r, w') \<Rightarrow> (r, (s, w')))"

definition cp_own :: "(in_component \<Rightarrow> 'a) \<Rightarrow> ('w, 'a) cps" where
  "cp_own f = gets (\<lambda>(s, w). f s)"

definition cp_upd :: "(in_component \<Rightarrow> in_component) \<Rightarrow> ('w, unit) cps" where
  "cp_upd f = modify (\<lambda>(s, w). (f s, w))"

definition inComponentID :: "nat \<Rightarrow> string" where
  "inComponentID i = ''ext_comp:'' @ itoa_nat i"

definition newInComponent :: "nat \<Rightarrow> in_component" where
  "newInComponent i =
     \<lparr>icId = i, icState = cpConnecting, icJd = \<lparr>Node = [], Domain = [], Resource = []\<rparr>, icDiscTm = False,
      icSendDisabled = False, icDone = False\<rparr>"

section \<open>Operations\<close>

definition cpSetState :: "cp_state \<Rightarrow> ('w, unit) cps" where
  "cpSetState st = cp_upd (\<lambda>s. s\<lparr>icState := st\<rparr>)"

definition cpRunHook :: "'w cp_env \<Rightarrow> string \<Rightarrow> cp_info \<Rightarrow> ('w, bool \<times> cp_info) cps" where
  "cpRunHook E hookName inf_val = Run (cpHooks E) hookName inf_val"

definition cpSendElement :: "'w cp_env \<Rightarrow> element \<Rightarrow> ('w, unit) cps" where
  "cpSendElement E el = andthen (cp_own icSendDisabled) (\<lambda>disabled. if disabled then ret () else cp_ext (cpSesSend E el))"

definition cpRestartSession :: "'w cp_env \<Rightarrow> ('w, unit) cps" where
  "cpRestartSession E = andthen (ignore (cp_ext (cpSesReset E))) (\<lambda>_. cpSetState cpConnecting)"

definition registerComponent :: "'w cp_env \<Rightarrow> ('w, unit) cps" where
  "registerComponent E =
     andthen (cp_own (\<lambda>s. (icId s, Domain (icJd s)))) (\<lambda>(i, cHost).
     andthen (cp_ext (cpRegister E i cHost)) (\<lambda>_. cp_ext (cpRegisterHost E cHost)))"

definition unregisterComponent :: "'w cp_env \<Rightarrow> ('w, unit) cps" where
  "unregisterComponent E =
     andthen (cp_own (\<lambda>s. Domain (icJd s))) (\<lambda>cHost.
     andthen (cp_ext (cpUnregister E cHost)) (\<lambda>_. cp_ext (cpUnregisterHost E cHost)))"

definition updateTransportRateLimiter :: "'w cp_env \<Rightarrow> ('w, unit) cps" where
  "updateTransportRateLimiter E =
     andthen (cp_own icJd) (\<lambda>j.
       case MatchingJID (cpLib E) (cpShapers E) (Some j) of
         Inl e \<Rightarrow> throw e
       | Inr sh \<Rightarrow> cp_ext (cpSetReadRateLimiter E sh))"

text \<open>\<^verbatim>\<open>close\<close>; the channel is closed by a \<^verbatim>\<open>defer\<close>, on every way out.\<close>

definition cpClose :: "'w cp_env \<Rightarrow> ('w, unit) cps" where
  "cpClose E =
     andthen (cp_own icState) (\<lambda>st.
       if st = cpDisconnected then ret ()
       else
         andthen (attempt (
           andthen (cpSetState cpDisconnected) (\<lambda>_.
           andthen (cp_own icState) (\<lambda>st'.
           andthen (if st' = cpAuthenticated
                    then andthen (unregisterComponent E) (\<lambda>_. cp_own (\<lambda>s. JIDString (cpLib E) (icJd s)))
                    else ret []) (\<lambda>cHost.
           andthen (cp_own icId) (\<lambda>i.
           andthen (cp_ext (cpHubUnregister E i)) (\<lambda>_.
           andthen (cpRunHook E ''ext_component.stream.unregistered'' \<lparr>cfID = inComponentID i, cfHost = cHost, cfElement = None\<rparr>) (\<lambda>_.
             ignore (cp_ext (cpTrClose E)))))))))) (\<lambda>r.
         andthen (cp_upd (\<lambda>s. s\<lparr>icDone := True\<rparr>)) (\<lambda>_.
           case r of Inl e \<Rightarrow> throw e | Inr _ \<Rightarrow> ret ())))"

definition cpDisconnect :: "'w cp_env \<Rightarrow> stream_error option \<Rightarrow> ('w, unit) cps" where
  "cpDisconnect E streamErr =
     andthen (cp_own icState) (\<lambda>st.
     andthen (if st = cpConnecting then ignore (cp_ext (cpSesOpenComponent E)) else ret ()) (\<lambda>_.
     andthen (case streamErr of None \<Rightarrow> ret () | Some se \<Rightarrow> cpSendElement E (StreamErrorElement (cpLib E) se)) (\<lambda>_.
     andthen (ignore (cp_ext (cpSesClose E))) (\<lambda>_.
     andthen (cp_own icState) (\<lambda>st'.
       if st' \<noteq> cpConnecting \<and> (case streamErr of None \<Rightarrow> False | Some se \<Rightarrow> seReason se = ConnectionTimeout)
       then cp_upd (\<lambda>s. s\<lparr>icDiscTm := True, icSendDisabled := True\<rparr>)
       else cpClose E)))))"

definition cpHandleConnecting :: "'w cp_env \<Rightarrow> element \<Rightarrow> ('w, unit) cps" where
  "cpHandleConnecting E el =
     (let cHost = Attribute (cpLib E) el ''to''
      in if cHost = [] then cpDisconnect E (Some (stream_E HostUnknown))
         else andthen (cp_ext (gets (cpIsComponentHost E cHost))) (\<lambda>used.
           if used then cpDisconnect E (Some (stream_E Conflict))
           else case NewJID (cpLib E) [] cHost [] True of
                  None \<Rightarrow> throw ErrPanic
                | Some j \<Rightarrow>
                    andthen (cp_upd (\<lambda>s. s\<lparr>icJd := j\<rparr>)) (\<lambda>_.
                    andthen (cp_ext (cpSesSetFromJID E j)) (\<lambda>_.
                    andthen (updateTransportRateLimiter E) (\<lambda>_.
                    andthen (cpSetState cpHandshaking) (\<lambda>_.
                      ignore (cp_ext (cpSesOpenComponent E))))))))"

definition handshake_of :: "'w cp_env \<Rightarrow> string" where
  "handshake_of E = cpHexSha1 E (cpStreamID E @ cpSecret E)"

definition handleHandshaking :: "'w cp_env \<Rightarrow> element \<Rightarrow> ('w, unit) cps" where
  "handleHandshaking E el =
     (if Name el \<noteq> ''handshake'' then cpDisconnect E (Some (stream_E UnsupportedStanzaType))
      else if Text el \<noteq> handshake_of E then cpDisconnect E (Some (stream_E NotAuthorized))
      else andthen (registerComponent E) (\<lambda>_.
           andthen (cpSetState cpAuthenticated) (\<lambda>_.
             cpSendElement E (Element ''handshake'' [] [] []))))"

definition cpHandleAuthenticated :: "'w cp_env \<Rightarrow> element \<Rightarrow> ('w, unit) cps" where
  "cpHandleAuthenticated E el =
     (if is_stanza (cpLib E) el then ignore (cp_ext (cpRoute E el))
      else cpDisconnect E (Some (stream_E UnsupportedStanzaType)))"

text \<open>The element a handler of the hook may have replaced; an absent one makes the handlers panic.\<close>

definition cpHandleElement :: "'w cp_env \<Rightarrow> element \<Rightarrow> ('w, unit) cps" where
  "cpHandleElement E el =
     andthen (cp_own (\<lambda>s. \<lparr>cfID = inComponentID (icId s), cfHost = Domain (icJd s), cfElement = Some el\<rparr>)) (\<lambda>i0.
     andthen (cpRunHook E ''ext_component.stream.element_received'' i0) (\<lambda>(halted, i1).
       if halted then ret ()
       else andthen (cp_own icState) (\<lambda>st.
         case (st, cfElement i1) of
           (cpDisconnected, _) \<Rightarrow> ret ()
         | (_, None) \<Rightarrow> throw ErrPanic
         | (cpConnecting, Some e) \<Rightarrow> cpHandleConnecting E e
         | (cpHandshaking, Some e) \<Rightarrow> handleHandshaking E e
         | (cpAuthenticated, Some e) \<Rightarrow> cpHandleAuthenticated E e)))"

definition cpHandleSessionError :: "'w cp_env \<Rightarrow> go_error \<Rightarrow> ('w, unit) cps" where
  "cpHandleSessionError E err =
     andthen (if err = ErrStreamClosedByPeer then ignore (cp_ext (cpSesClose E)) else ret ()) (\<lambda>_.
       ignore (cpClose E))"

definition cpStart :: "'w cp_env \<Rightarrow> ('w, unit) cps" where
  "cpStart E =
     andthen (cp_own icId) (\<lambda>i.
     andthen (cp_ext (cpHubRegister E i)) (\<lambda>_.
     andthen (cpRunHook E ''ext_component.stream.registered'' \<lparr>cfID = inComponentID i, cfHost = [], cfElement = None\<rparr>) (\<lambda>_.
       cpRestartSession E)))"

section \<open>Tasks\<close>

datatype cp_event =
    CpReceived "go_error + element option" \<comment> \<open>a result of \<^verbatim>\<open>session.Receive\<close>\<close>
  | CpTimeout | CpShutdown | CpTimer
  | CpStanza element \<comment> \<open>a stanza for the component\<close>

fun cp_task :: "'w cp_env \<Rightarrow> cp_event \<Rightarrow> ('w, unit) cps" where
  "cp_task E (CpReceived r) =
     andthen (cp_own icState) (\<lambda>st.
       if st = cpDisconnected then ret ()
       else case r of Inl e \<Rightarrow> cpHandleSessionError E e | Inr None \<Rightarrow> ret () | Inr (Some el) \<Rightarrow> cpHandleElement E el)"
| "cp_task E CpTimeout = cpDisconnect E (Some (stream_E ConnectionTimeout))"
| "cp_task E CpShutdown = cpDisconnect E (Some (stream_E SystemShutdown))"
| "cp_task E CpTimer = andthen (cp_own icDiscTm) (\<lambda>on. if on then cpClose E else ret ())"
| "cp_task E (CpStanza el) = cpSendElement E el"

definition cp_run :: "'w cp_env \<Rightarrow> cp_event list \<Rightarrow> in_component \<times> 'w \<Rightarrow> in_component \<times> 'w" where
  "cp_run E evs st = fold (\<lambda>ev st. snd (cp_task E ev st)) evs st"

section \<open>Closing\<close>

definition swap_unreg :: "(string \<Rightarrow> ('w, unit) go) \<Rightarrow> (string \<Rightarrow> ('w, unit) go) \<Rightarrow> 'w cp_env \<Rightarrow> 'w cp_env" where
  "swap_unreg u v E = E\<lparr>cpUnregister := u, cpUnregisterHost := v\<rparr>"

named_theorems cp_swap \<comment> \<open>what does not depend on the replaced operations\<close>

lemma swap_unreg_sel [cp_swap]:
  "cpLib (swap_unreg u v E) = cpLib E" "cpSecret (swap_unreg u v E) = cpSecret E" "cpStreamID (swap_unreg u v E) = cpStreamID E"
  "cpHexSha1 (swap_unreg u v E) = cpHexSha1 E" "cpShapers (swap_unreg u v E) = cpShapers E"
  "cpSetReadRateLimiter (swap_unreg u v E) = cpSetReadRateLimiter E" "cpTrClose (swap_unreg u v E) = cpTrClose E"
  "cpSesReset (swap_unreg u v E) = cpSesReset E" "cpSesSetFromJID (swap_unreg u v E) = cpSesSetFromJID E"
  "cpSesOpenComponent (swap_unreg u v E) = cpSesOpenComponent E" "cpSesSend (swap_unreg u v E) = cpSesSend E"
  "cpSesClose (swap_unreg u v E) = cpSesClose E" "cpIsComponentHost (swap_unreg u v E) = cpIsComponentHost E"
  "cpRegister (swap_unreg u v E) = cpRegister E" "cpRegisterHost (swap_unreg u v E) = cpRegisterHost E"
  "cpRoute (swap_unreg u v E) = cpRoute E" "cpHubRegister (swap_unreg u v E) = cpHubRegister E"
  "cpHubUnregister (swap_unreg u v E) = cpHubUnregister E" "cpHooks (swap_unreg u v E) = cpHooks E"
  by (simp_all add: swap_unreg_def)

lemma swap_unreg_ops [cp_swap]:
  "cpRunHook (swap_unreg u v E) = cpRunHook E" "cpSendElement (swap_unreg u v E) = cpSendElement E"
  "updateTransportRateLimiter (swap_unreg u v E) = updateTransportRateLimiter E"
  "registerComponent (swap_unreg u v E) = registerComponent E" "handshake_of (swap_unreg u v E) = handshake_of E"
  unfolding cpRunHook_def cpSendElement_def updateTransportRateLimiter_def registerComponent_def handshake_of_def cp_swap by (rule refl)+

text \<open>After the state is set, nothing is left of the test for it.\<close>

lemma disconnected_first:
  "andthen (cpSetState cpDisconnected) (\<lambda>_. andthen (cp_own icState) (\<lambda>st. andthen (if st = cpAuthenticated then a else b) f)) =
   andthen (cpSetState cpDisconnected) (\<lambda>_. andthen b f)"
  by (auto simp: fun_eq_iff cpSetState_def cp_upd_def cp_own_def go_run split: prod.splits)

lemma swap_unreg_close [cp_swap]: "cpClose (swap_unreg u v E) = cpClose E"
  unfolding cpClose_def disconnected_first cp_swap ..

lemma swap_unreg_handlers [cp_swap]:
  "cpDisconnect (swap_unreg u v E) = cpDisconnect E" "cpHandleSessionError (swap_unreg u v E) = cpHandleSessionError E"
  unfolding cpDisconnect_def cpHandleSessionError_def cp_swap by (rule refl)+

lemma swap_unreg_elements [cp_swap]:
  "cpHandleConnecting (swap_unreg u v E) = cpHandleConnecting E" "handleHandshaking (swap_unreg u v E) = handleHandshaking E"
  "cpHandleAuthenticated (swap_unreg u v E) = cpHandleAuthenticated E"
  unfolding cpHandleConnecting_def handleHandshaking_def cpHandleAuthenticated_def cp_swap by (rule refl)+

lemma swap_unreg_element [cp_swap]: "cpHandleElement (swap_unreg u v E) = cpHandleElement E"
  unfolding cpHandleElement_def cp_swap ..

lemma swap_unreg_task [cp_swap]: "cp_task (swap_unreg u v E) ev = cp_task E ev"
  by (cases ev; hypsubst; unfold cp_task.simps cp_swap; rule refl)

text \<open>
  No run of a component stream ever unregisters the component: \<^verbatim>\<open>close\<close> marks the stream as
  disconnected before it asks whether it was authenticated. What the operations that remove the
  component from the registry and its host from the key-value store do makes no difference to any
  run, and a stream that asks for a registered host is turned away with a conflict.
\<close>

theorem component_never_unregistered:
  "cp_run (E\<lparr>cpUnregister := u, cpUnregisterHost := v\<rparr>) evs st = cp_run E evs st \<and>
   (icState s = cpConnecting \<and> Attribute (cpLib E) el ''to'' = h \<and> h \<noteq> [] \<and> cpIsComponentHost E h w \<longrightarrow>
      cpHandleConnecting E el (s, w) = cpDisconnect E (Some (stream_E Conflict)) (s, w))"
proof
  show "cp_run (E\<lparr>cpUnregister := u, cpUnregisterHost := v\<rparr>) evs st = cp_run E evs st"
    unfolding cp_run_def swap_unreg_def [symmetric] by (simp add: cp_swap)
qed (simp add: cpHandleConnecting_def cp_ext_def go_run)

section \<open>The handshake\<close>

definition swap_reach ::
  "(nat \<Rightarrow> string \<Rightarrow> ('w, unit) go) \<Rightarrow> (string \<Rightarrow> ('w, unit) go) \<Rightarrow> (element \<Rightarrow> ('w, jid list) go) \<Rightarrow> 'w cp_env \<Rightarrow> 'w cp_env" where
  "swap_reach g h r E = E\<lparr>cpRegister := g, cpRegisterHost := h, cpRoute := r\<rparr>"

lemma swap_reach_sel [cp_swap]:
  "cpLib (swap_reach g h r E) = cpLib E" "cpSecret (swap_reach g h r E) = cpSecret E" "cpStreamID (swap_reach g h r E) = cpStreamID E"
  "cpHexSha1 (swap_reach g h r E) = cpHexSha1 E" "cpShapers (swap_reach g h r E) = cpShapers E"
  "cpSetReadRateLimiter (swap_reach g h r E) = cpSetReadRateLimiter E" "cpTrClose (swap_reach g h r E) = cpTrClose E"
  "cpSesReset (swap_reach g h r E) = cpSesReset E" "cpSesSetFromJID (swap_reach g h r E) = cpSesSetFromJID E"
  "cpSesOpenComponent (swap_reach g h r E) = cpSesOpenComponent E" "cpSesSend (swap_reach g h r E) = cpSesSend E"
  "cpSesClose (swap_reach g h r E) = cpSesClose E" "cpIsComponentHost (swap_reach g h r E) = cpIsComponentHost E"
  "cpUnregister (swap_reach g h r E) = cpUnregister E" "cpUnregisterHost (swap_reach g h r E) = cpUnregisterHost E"
  "cpHubRegister (swap_reach g h r E) = cpHubRegister E" "cpHubUnregister (swap_reach g h r E) = cpHubUnregister E"
  "cpHooks (swap_reach g h r E) = cpHooks E"
  by (simp_all add: swap_reach_def)

lemma swap_reach_ops [cp_swap]:
  "cpRunHook (swap_reach g h r E) = cpRunHook E" "cpSendElement (swap_reach g h r E) = cpSendElement E"
  "updateTransportRateLimiter (swap_reach g h r E) = updateTransportRateLimiter E"
  "unregisterComponent (swap_reach g h r E) = unregisterComponent E" "handshake_of (swap_reach g h r E) = handshake_of E"
  unfolding cpRunHook_def cpSendElement_def updateTransportRateLimiter_def unregisterComponent_def handshake_of_def cp_swap by (rule refl)+

lemma swap_reach_handlers [cp_swap]:
  "cpClose (swap_reach g h r E) = cpClose E" "cpDisconnect (swap_reach g h r E) = cpDisconnect E"
  "cpHandleSessionError (swap_reach g h r E) = cpHandleSessionError E"
  "cpHandleConnecting (swap_reach g h r E) = cpHandleConnecting E"
  unfolding cpClose_def cpDisconnect_def cpHandleSessionError_def cpHandleConnecting_def cp_swap by (rule refl)+

text \<open>Handlers of hooks neither authenticate the stream nor replace the element.\<close>

definition not_auth :: "in_component \<times> 'w \<Rightarrow> bool" where
  "not_auth st \<longleftrightarrow> icState (fst st) \<noteq> cpAuthenticated"

definition cp_hooks_ok :: "'w cp_env \<Rightarrow> bool" where
  "cp_hooks_ok E \<longleftrightarrow> (\<forall>name. \<forall>h \<in> set (cpHooks E name). \<forall>i. keeps not_auth (h_fn h i) \<and>
     (\<forall>st i' st'. h_fn h i st = (Inr i', st') \<longrightarrow> cfElement i' = cfElement i))"

lemma hook_not_auth: "cp_hooks_ok E \<Longrightarrow> keeps not_auth (cpRunHook E name i)"
  unfolding cpRunHook_def by (rule keeps_Run) (auto simp: cp_hooks_ok_def)

lemma handlers_element:
  assumes "\<forall>h \<in> set hs. \<forall>i st i' st'. h_fn h i st = (Inr i', st') \<longrightarrow> cfElement i' = cfElement i"
    and "run_handlers hs i st = (Inr (halted, i'), st')"
  shows "cfElement i' = cfElement i"
  using assms
proof (induction hs arbitrary: i st)
  case (Cons h hs)
  obtain r st1 where r: "h_fn h i st = (r, st1)" by fastforce
  show ?case
  proof (cases r)
    case (Inl e)
    with Cons.prems(2) r show ?thesis by (auto simp: go_run split: if_splits)
  next
    case (Inr i1)
    with r Cons.prems have "run_handlers hs i1 st1 = (Inr (halted, i'), st')" by (simp add: go_run)
    with Cons.IH [of i1 st1] Cons.prems(1) r Inr show ?thesis by auto
  qed
qed (simp add: go_run)

lemma hook_element:
  "cp_hooks_ok E \<Longrightarrow> cpRunHook E name i st = (Inr (halted, i'), st') \<Longrightarrow> cfElement i' = cfElement i"
  unfolding cpRunHook_def Run_def by (rule handlers_element) (auto simp: cp_hooks_ok_def)

named_theorems cp_keeps \<comment> \<open>what does not authenticate\<close>

lemma cp_basic [cp_keeps]:
  "keeps not_auth (cp_ext m)" "keeps not_auth (cp_own f)" "st \<noteq> cpAuthenticated \<Longrightarrow> keeps not_auth (cpSetState st)"
  "keeps not_auth (cp_upd (\<lambda>s. s\<lparr>icDone := d\<rparr>))" "keeps not_auth (cp_upd (\<lambda>s. s\<lparr>icJd := j\<rparr>))"
  "keeps not_auth (cp_upd (\<lambda>s. s\<lparr>icDiscTm := d, icSendDisabled := b\<rparr>))"
  by (auto simp: keeps_def not_auth_def cp_ext_def cp_own_def cp_upd_def cpSetState_def go_run split: prod.splits)

lemma cp_send_keeps [cp_keeps]: "keeps not_auth (cpSendElement E el)"
  unfolding cpSendElement_def by (intro keeps_intro cp_keeps)

lemma cp_close_keeps [cp_keeps]: "cp_hooks_ok E \<Longrightarrow> keeps not_auth (cpClose E)"
  unfolding cpClose_def disconnected_first
  by (intro keeps_intro cp_keeps hook_not_auth | simp split: sum.split add: keeps_ret keeps_throw)+

lemma cp_disconnect_keeps [cp_keeps]: "cp_hooks_ok E \<Longrightarrow> keeps not_auth (cpDisconnect E se)"
  unfolding cpDisconnect_def by (cases se) (auto intro!: keeps_intro cp_keeps)

lemma cp_connecting_keeps [cp_keeps]: "cp_hooks_ok E \<Longrightarrow> keeps not_auth (cpHandleConnecting E el)"
proof -
  assume h: "cp_hooks_ok E"
  have r: "keeps not_auth (updateTransportRateLimiter E)"
    by (auto simp: keeps_def not_auth_def updateTransportRateLimiter_def cp_own_def cp_ext_def go_run split: sum.splits prod.splits)
  show ?thesis
    unfolding cpHandleConnecting_def Let_def
    by (cases "NewJID (cpLib E) [] (Attribute (cpLib E) el ''to'') [] True")
      (auto intro!: keeps_intro cp_keeps h r)
qed

lemma cp_error_keeps [cp_keeps]: "cp_hooks_ok E \<Longrightarrow> keeps not_auth (cpHandleSessionError E e)"
  unfolding cpHandleSessionError_def by (intro keeps_intro cp_keeps)

lemma handshake_wrong:
  "Name el \<noteq> ''handshake'' \<or> Text el \<noteq> handshake_of E \<Longrightarrow>
     handleHandshaking E el = cpDisconnect E (Some (stream_E (if Name el \<noteq> ''handshake'' then UnsupportedStanzaType else NotAuthorized)))"
  by (auto simp: handleHandshaking_def)

definition no_handshake :: "'w cp_env \<Rightarrow> cp_event \<Rightarrow> bool" where
  "no_handshake E ev \<longleftrightarrow> (\<forall>el. ev = CpReceived (Inr (Some el)) \<longrightarrow> Name el \<noteq> ''handshake'' \<or> Text el \<noteq> handshake_of E)"

lemma element_silent:
  assumes h: "cp_hooks_ok E" and w: "Name el \<noteq> ''handshake'' \<or> Text el \<noteq> handshake_of E" and s: "not_auth st"
  shows "cpHandleElement (swap_reach g h' r E) el st = cpHandleElement E el st \<and> not_auth (snd (cpHandleElement E el st))"
proof -
  obtain s0 w0 where st: "st = (s0, w0)" by fastforce
  let ?i = "\<lparr>cfID = inComponentID (icId s0), cfHost = Domain (icJd s0), cfElement = Some el\<rparr>"
  obtain x s1 w1 where x: "cpRunHook E ''ext_component.stream.element_received'' ?i (s0, w0) = (x, (s1, w1))"
    using prod.exhaust by metis
  have na: "not_auth (s1, w1)" using keepsD [OF hook_not_auth [OF h] s [unfolded st], of "''ext_component.stream.element_received''" ?i] x by simp
  show ?thesis
  proof (cases x)
    case (Inl e)
    with x na show ?thesis by (simp add: st cpHandleElement_def cp_swap cp_own_def go_run)
  next
    case (Inr y)
    obtain halted i1 where y: "y = (halted, i1)" by fastforce
    with hook_element [OF h] x Inr have e: "cfElement i1 = Some el" by fastforce
    have d: "cpHandleElement F el st =
        (if halted then (Inr (), (s1, w1)) else (case icState s1 of cpDisconnected \<Rightarrow> ret () | cpConnecting \<Rightarrow> cpHandleConnecting F el
           | cpHandshaking \<Rightarrow> handleHandshaking F el | cpAuthenticated \<Rightarrow> cpHandleAuthenticated F el) (s1, w1))"
      if "cpRunHook F = cpRunHook E" for F
      using x Inr y e unfolding cpHandleElement_def that
      by (cases "icState s1") (simp_all add: st cp_own_def go_run)
    have "handleHandshaking (swap_reach g h' r E) el = handleHandshaking E el"
      using w by (simp add: handshake_wrong cp_swap)
    moreover have "keeps not_auth (handleHandshaking E el)" unfolding handshake_wrong [OF w] by (intro cp_keeps h)
    ultimately show ?thesis
      using na keepsD [OF cp_connecting_keeps [OF h] na, of el] keepsD [of not_auth "handleHandshaking E el", OF _ na]
      unfolding d [OF refl] d [OF swap_reach_ops(1)]
      by (cases "icState s1") (simp_all add: cp_swap not_auth_def go_run)
  qed
qed

lemma task_silent:
  assumes h: "cp_hooks_ok E" and w: "no_handshake E ev" and s: "not_auth st"
  shows "cp_task (swap_reach g h' r E) ev st = cp_task E ev st \<and> not_auth (snd (cp_task E ev st))"
proof (cases ev)
  case (CpReceived x)
  obtain s0 w0 where st: "st = (s0, w0)" by fastforce
  note k = keepsD [OF cp_error_keeps [OF h] s]
  show ?thesis
  proof (cases x)
    case (Inr y)
    with w CpReceived s element_silent [OF h _ s, of _ g h' r] show ?thesis
      by (cases y) (auto simp: no_handshake_def cp_own_def st go_run)
  qed (use CpReceived s k st in \<open>auto simp: cp_own_def cp_swap go_run\<close>)
next
  case CpTimer
  have "keeps not_auth (cp_task E CpTimer)" by (simp, intro keeps_intro cp_keeps h)
  from keepsD [OF this s] show ?thesis unfolding CpTimer cp_task.simps cp_swap by simp
qed (use keepsD [OF cp_disconnect_keeps [OF h] s] keepsD [OF cp_send_keeps s] in \<open>simp_all add: cp_swap\<close>)

text \<open>
  C14. A component reaches nobody before its handshake: in every run in which no received element is
  a handshake with the digest of the stream identifier and the secret, the stream is never
  authenticated, and neither the registry of components nor the announcement of hosts nor the
  router is called.
\<close>

theorem component_needs_handshake:
  assumes "cp_hooks_ok E" and "\<forall>ev \<in> set evs. no_handshake E ev" and "icState (fst st) \<noteq> cpAuthenticated"
  shows "cp_run (E\<lparr>cpRegister := g, cpRegisterHost := h, cpRoute := r\<rparr>) evs st = cp_run E evs st \<and>
    icState (fst (cp_run E evs st)) \<noteq> cpAuthenticated"
proof -
  have "not_auth st \<Longrightarrow> \<forall>ev \<in> set evs. no_handshake E ev \<Longrightarrow>
      cp_run (swap_reach g h r E) evs st = cp_run E evs st \<and> not_auth (cp_run E evs st)"
  proof (induction evs arbitrary: st)
    case (Cons ev evs)
    from task_silent [OF assms(1) _ Cons.prems(1), of ev g h r] Cons.prems(2)
    have t: "cp_task (swap_reach g h r E) ev st = cp_task E ev st" "not_auth (snd (cp_task E ev st))" by auto
    from Cons.IH [OF t(2)] Cons.prems(2) show ?case by (simp add: cp_run_def t(1))
  qed (simp add: cp_run_def)
  with assms show ?thesis by (simp add: not_auth_def swap_reach_def)
qed

section \<open>A component\<close>

text \<open>The world of the example: the registered hosts, the routed elements and what was sent.\<close>

type_synonym toy_comp = "string list \<times> string list \<times> string list"

definition toy_comp_env :: "toy_comp cp_env" where
  "toy_comp_env = \<lparr>cpLib = std_lib, cpSecret = ''s3cret'', cpStreamID = ''id1'', cpHexSha1 = rev, cpShapers = [],
     cpSetReadRateLimiter = (\<lambda>_. ret ()), cpTrClose = ret (), cpSesReset = ret (), cpSesSetFromJID = (\<lambda>_. ret ()),
     cpSesOpenComponent = ret (), cpSesSend = (\<lambda>el. modify (\<lambda>(c, r, o'). (c, r, o' @ [Name el]))), cpSesClose = ret (),
     cpIsComponentHost = (\<lambda>h (c, _). h \<in> set c), cpRegister = (\<lambda>_ h. modify (\<lambda>(c, x). (h # c, x))),
     cpUnregister = (\<lambda>h. modify (\<lambda>(c, x). (removeAll h c, x))), cpRegisterHost = (\<lambda>_. ret ()), cpUnregisterHost = (\<lambda>_. ret ()),
     cpRoute = (\<lambda>el. andthen (modify (\<lambda>(c, r, o'). (c, r @ [Name el], o'))) (\<lambda>_. ret [])),
     cpHubRegister = (\<lambda>_. ret ()), cpHubUnregister = (\<lambda>_. ret ()), cpHooks = NewHooks\<rparr>"

definition toy_comp_events :: "string \<Rightarrow> cp_event list" where
  "toy_comp_events digest =
     [CpReceived (Inr (Some (Element ''stream:stream'' [(''to'', ''muc.x'')] [] []))),
      CpReceived (Inr (Some (Element ''handshake'' [] digest []))),
      CpReceived (Inr (Some (Element ''message'' [(''from'', ''room@muc.x''), (''to'', ''ana@x'')] [] []))),
      CpReceived (Inl ErrStreamClosedByPeer)]"

text \<open>With the right digest the component is registered, routes, and stays registered after it closes;
  with a wrong one it is refused.\<close>

lemma toy_comp_runs:
  "snd (cp_run toy_comp_env (toy_comp_events (handshake_of toy_comp_env)) (newInComponent 1, ([], [], []))) =
     ([''muc.x''], [''message''], [''handshake''])"
  "icState (fst (cp_run toy_comp_env (toy_comp_events (handshake_of toy_comp_env)) (newInComponent 1, ([], [], [])))) = cpDisconnected"
  by code_simp+

theorem component_needs_handshake_witness:
  "cp_run (toy_comp_env\<lparr>cpRegister := (\<lambda>_ _. throw ErrPanic), cpRegisterHost := (\<lambda>_. throw ErrPanic), cpRoute := (\<lambda>_. throw ErrPanic)\<rparr>)
     (toy_comp_events ''guess'') (newInComponent 1, ([], [], [])) = cp_run toy_comp_env (toy_comp_events ''guess'') (newInComponent 1, ([], [], [])) \<and>
   icState (fst (cp_run toy_comp_env (toy_comp_events ''guess'') (newInComponent 1, ([], [], [])))) \<noteq> cpAuthenticated"
proof (rule component_needs_handshake)
  show "cp_hooks_ok toy_comp_env" by (simp add: cp_hooks_ok_def toy_comp_env_def NewHooks_def)
  have "handshake_of toy_comp_env \<noteq> ''guess''" by code_simp
  then show "\<forall>ev \<in> set (toy_comp_events ''guess''). no_handshake toy_comp_env ev"
    by (auto simp: toy_comp_events_def no_handshake_def)
qed (simp add: newInComponent_def)

theorem component_never_unregistered_witness:
  "cp_run (toy_comp_env\<lparr>cpUnregister := (\<lambda>_. throw ErrPanic), cpUnregisterHost := (\<lambda>_. throw ErrPanic)\<rparr>)
     (toy_comp_events (handshake_of toy_comp_env)) (newInComponent 1, ([], [], [])) =
   cp_run toy_comp_env (toy_comp_events (handshake_of toy_comp_env)) (newInComponent 1, ([], [], [])) \<and>
   cpHandleConnecting toy_comp_env (Element ''stream:stream'' [(''to'', ''muc.x'')] [] []) (newInComponent 2, ([''muc.x''], [], [])) =
   cpDisconnect toy_comp_env (Some (stream_E Conflict)) (newInComponent 2, ([''muc.x''], [], []))"
  using component_never_unregistered [where E = toy_comp_env and u = "\<lambda>_. throw ErrPanic" and v = "\<lambda>_. throw ErrPanic"
      and evs = "toy_comp_events (handshake_of toy_comp_env)" and st = "(newInComponent 1, ([], [], []))" and s = "newInComponent 2"
      and el = "Element ''stream:stream'' [(''to'', ''muc.x'')] [] []" and h = "''muc.x''" and w = "([''muc.x''], [], [])"]
  by (simp add: newInComponent_def toy_comp_env_def std_lib_def std_attr_def)

end
