(* ===== verification/Archive_Store.thy ===== *)
theory Archive_Store
  imports Bolt Xmpp
begin

text \<open>
  The message archive (\<^verbatim>\<open>src/pkg/storage/repository/archive.go\<close>) and its embedded implementation
  (\<^verbatim>\<open>src/pkg/storage/boltdb/archive.go\<close>): insertion, trimming, metadata and the filters of a query.
  A time is a number of nanoseconds; its format is a parameter.
\<close>

section \<open>Data\<close>

record archive_message =
  amArchiveId :: string
  amId :: string
  amFromJid :: string
  amToJid :: string
  amMessage :: element
  amStamp :: int

record archive_metadata =
  atStartId :: string
  atStartTimestamp :: string
  atEndId :: string
  atEndTimestamp :: string

record archive_filters =
  afStart :: "int option"
  afEnd :: "int option"
  afWith :: string
  afBeforeId :: string
  afAfterId :: string
  afIds :: "string list"

definition no_filters :: archive_filters where
  "no_filters = \<lparr>afStart = None, afEnd = None, afWith = [], afBeforeId = [], afAfterId = [], afIds = []\<rparr>"

record 'w archive_rep =
  InsertArchiveMessage :: "archive_message \<Rightarrow> ('w, unit) go"
  FetchArchiveMetadata :: "string \<Rightarrow> ('w, archive_metadata option) go"
  FetchArchiveMessages :: "archive_filters \<Rightarrow> string \<Rightarrow> ('w, archive_message list) go"
  DeleteArchiveOldestMessages :: "string \<Rightarrow> int \<Rightarrow> ('w, unit) go"
  DeleteArchive :: "string \<Rightarrow> ('w, unit) go"

section \<open>Filters\<close>

text \<open>The address filter. An archived address that cannot be parsed is a nil pointer.\<close>

definition matches_with :: "xlib \<Rightarrow> jid \<Rightarrow> archive_message \<Rightarrow> go_error + bool" where
  "matches_with X jd msg =
     (if IsFull X jd then Inr (amFromJid msg = JIDString X jd \<or> amToJid msg = JIDString X jd)
      else case NewJIDWithString X (amFromJid msg) True of
             None \<Rightarrow> Inl ErrPanic
           | Some f \<Rightarrow>
               if MatchesBare X f jd then Inr True
               else case NewJIDWithString X (amToJid msg) True of
                      None \<Rightarrow> Inl ErrPanic
                    | Some t \<Rightarrow> Inr (MatchesBare X t jd))"

fun filter_with :: "xlib \<Rightarrow> jid \<Rightarrow> archive_message list \<Rightarrow> go_error + archive_message list" where
  "filter_with X jd [] = Inr []"
| "filter_with X jd (m # ms) =
     (case matches_with X jd m of
        Inl e \<Rightarrow> Inl e
      | Inr b \<Rightarrow> (case filter_with X jd ms of Inl e \<Rightarrow> Inl e | Inr xs \<Rightarrow> Inr (if b then m # xs else xs)))"

text \<open>The loops that cut the list at the first message with a property; without one it stays as it is.\<close>

definition cut_before :: "(archive_message \<Rightarrow> bool) \<Rightarrow> archive_message list \<Rightarrow> archive_message list" where
  "cut_before p ms = takeWhile (\<lambda>m. \<not> p m) ms"

definition cut_after :: "(archive_message \<Rightarrow> bool) \<Rightarrow> archive_message list \<Rightarrow> archive_message list" where
  "cut_after p ms = (case dropWhile (\<lambda>m. \<not> p m) ms of [] \<Rightarrow> ms | _ # rest \<Rightarrow> rest)"

definition cut_from :: "(archive_message \<Rightarrow> bool) \<Rightarrow> archive_message list \<Rightarrow> archive_message list" where
  "cut_from p ms = (case dropWhile (\<lambda>m. \<not> p m) ms of [] \<Rightarrow> ms | m # rest \<Rightarrow> m # rest)"

definition filter_ids :: "archive_filters \<Rightarrow> archive_message list \<Rightarrow> archive_message list" where
  "filter_ids f ms =
     (if afIds f \<noteq> [] then filter (\<lambda>m. amId m \<in> set (afIds f)) ms
      else let ms1 = (if afBeforeId f = [] then ms else cut_before (\<lambda>m. amId m = afBeforeId f) ms)
           in if afAfterId f = [] then ms1 else cut_after (\<lambda>m. amId m = afAfterId f) ms1)"

definition filter_times :: "archive_filters \<Rightarrow> archive_message list \<Rightarrow> archive_message list" where
  "filter_times f ms =
     (let ms1 = (case afStart f of None \<Rightarrow> ms | Some start \<Rightarrow> cut_from (\<lambda>m. amStamp m > start) ms)
      in case afEnd f of None \<Rightarrow> ms1 | Some e \<Rightarrow> cut_before (\<lambda>m. \<not> amStamp m < e) ms1)"

definition applyFilters :: "xlib \<Rightarrow> archive_filters \<Rightarrow> archive_message list \<Rightarrow> go_error + archive_message list" where
  "applyFilters X f ms =
     (case (if afWith f = [] then Inr ms
            else case NewJIDWithString X (afWith f) False of
                   None \<Rightarrow> Inl (ErrText ''jid'')
                 | Some jd \<Rightarrow> filter_with X jd ms) of
        Inl e \<Rightarrow> Inl e
      | Inr ms1 \<Rightarrow> Inr (filter_times f (filter_ids f ms1)))"

section \<open>The embedded back end\<close>

definition archiveBucket :: "string \<Rightarrow> string" where
  "archiveBucket archiveID = ''archive:'' @ archiveID"

definition bInsertArchiveMessage :: "'d bolt \<Rightarrow> archive_message bcodec \<Rightarrow> archive_message \<Rightarrow> ('d, unit) go" where
  "bInsertArchiveMessage B C m = insertSeqOp B C (archiveBucket (amArchiveId m)) m"

text \<open>The first and last entry of a cursor; an empty bucket gives no bytes, which decode to a message
  without contents.\<close>

definition bFetchArchiveMetadata ::
  "'d bolt \<Rightarrow> archive_message bcodec \<Rightarrow> (int \<Rightarrow> string) \<Rightarrow> string \<Rightarrow> ('d, archive_metadata option) go" where
  "bFetchArchiveMetadata B C format archiveID = (\<lambda>d.
     (if \<not> bxBucket B (archiveBucket archiveID) d then Inr None
      else let kvs = bxCursor B (archiveBucket archiveID) d;
               at = (\<lambda>sel. if kvs = [] then [] else snd (sel kvs))
           in case UnmarshalBinary C (at hd) of
                Inl e \<Rightarrow> Inl e
              | Inr m1 \<Rightarrow>
                  (case UnmarshalBinary C (at last) of
                     Inl e \<Rightarrow> Inl e
                   | Inr m2 \<Rightarrow> Inr (Some \<lparr>atStartId = amId m1, atStartTimestamp = format (amStamp m1),
                                     atEndId = amId m2, atEndTimestamp = format (amStamp m2)\<rparr>)), d))"

definition bFetchArchiveMessages ::
  "'d bolt \<Rightarrow> archive_message bcodec \<Rightarrow> xlib \<Rightarrow> archive_filters \<Rightarrow> string \<Rightarrow> ('d, archive_message list) go" where
  "bFetchArchiveMessages B C X f archiveID =
     andthen (iterKeysOp B (archiveBucket archiveID) (append_decoded C) []) (\<lambda>ms. lift_sum (applyFilters X f ms))"

definition old_keys :: "int \<Rightarrow> string list \<Rightarrow> string list" where
  "old_keys maxElements ks = take (nat (int (length ks) - maxElements)) ks"

definition bDeleteArchiveOldestMessages :: "'d bolt \<Rightarrow> string \<Rightarrow> int \<Rightarrow> ('d, unit) go" where
  "bDeleteArchiveOldestMessages B archiveID maxElements = (\<lambda>d.
     let b = archiveBucket archiveID; ks = map fst (bxCursor B b d)
     in if \<not> bxBucket B b d \<or> int (length ks) < maxElements then (Inr (), d)
        else for_each (old_keys maxElements ks) (bxDelete B b) d)"

definition bDeleteArchive :: "'d bolt \<Rightarrow> string \<Rightarrow> ('d, unit) go" where
  "bDeleteArchive B archiveID = delBucketOp B (archiveBucket archiveID)"

definition boltArchiveRep ::
  "'d bolt \<Rightarrow> archive_message bcodec \<Rightarrow> xlib \<Rightarrow> (int \<Rightarrow> string) \<Rightarrow> ('d, 'r) db_world archive_rep" where
  "boltArchiveRep B C X format = \<lparr>
     InsertArchiveMessage = (\<lambda>m. db_Update B (bInsertArchiveMessage B C m)),
     FetchArchiveMetadata = (\<lambda>a. db_View B (bFetchArchiveMetadata B C format a)),
     FetchArchiveMessages = (\<lambda>f a. db_View B (bFetchArchiveMessages B C X f a)),
     DeleteArchiveOldestMessages = (\<lambda>a n. db_Update B (bDeleteArchiveOldestMessages B a n)),
     DeleteArchive = (\<lambda>a. db_Update B (bDeleteArchive B a))\<rparr>"

text \<open>The repository inside a transaction.\<close>

definition boltTxArchiveRep ::
  "'d bolt \<Rightarrow> archive_message bcodec \<Rightarrow> xlib \<Rightarrow> (int \<Rightarrow> string) \<Rightarrow> ('d, 'r) db_world archive_rep" where
  "boltTxArchiveRep B C X format = \<lparr>
     InsertArchiveMessage = (\<lambda>m. on_db (bInsertArchiveMessage B C m)),
     FetchArchiveMetadata = (\<lambda>a. on_db (bFetchArchiveMetadata B C format a)),
     FetchArchiveMessages = (\<lambda>f a. on_db (bFetchArchiveMessages B C X f a)),
     DeleteArchiveOldestMessages = (\<lambda>a n. on_db (bDeleteArchiveOldestMessages B a n)),
     DeleteArchive = (\<lambda>a. on_db (bDeleteArchive B a))\<rparr>"

section \<open>Filters by time\<close>

text \<open>
  On an archive in the order of time, the filters of a query select the messages strictly after
  the start and strictly before the end, except that a start which no message follows selects
  everything instead of nothing.
\<close>

theorem time_filters:
  assumes "sorted_wrt (\<lambda>a b. amStamp a \<le> amStamp b) ms"
  shows "filter_times f ms =
    (let after = (\<lambda>m. case afStart f of None \<Rightarrow> True | Some s \<Rightarrow> amStamp m > s);
         before = (\<lambda>m. case afEnd f of None \<Rightarrow> True | Some e \<Rightarrow> amStamp m < e)
     in filter before (if \<forall>m \<in> set ms. \<not> after m then ms else filter after ms))"
proof -
  have dw: "sorted_wrt (\<lambda>a b. amStamp a \<le> amStamp b) xs \<Longrightarrow> dropWhile (\<lambda>m. \<not> amStamp m > s) xs = filter (\<lambda>m. amStamp m > s) xs"
    for s xs by (induction xs) (auto intro!: filter_True [symmetric])
  have tw: "sorted_wrt (\<lambda>a b. amStamp a \<le> amStamp b) xs \<Longrightarrow> takeWhile (\<lambda>m. amStamp m < e) xs = filter (\<lambda>m. amStamp m < e) xs"
    for e xs by (induction xs) (auto intro!: filter_False [symmetric])
  have cf: "cut_from (\<lambda>m. amStamp m > s) ms = (if \<forall>m \<in> set ms. \<not> amStamp m > s then ms else filter (\<lambda>m. amStamp m > s) ms)" for s
    using dw [OF assms, of s] by (auto simp: cut_from_def filter_empty_conv split: list.splits)
  have "sorted_wrt (\<lambda>a b. amStamp a \<le> amStamp b) (filter P ms)" for P using assms by (rule sorted_wrt_filter)
  then show ?thesis
    using assms by (auto simp: filter_times_def Let_def cf cut_before_def tw split: option.splits)
qed

section \<open>Trimming\<close>

text \<open>The keys of an archive.\<close>

definition archive_keys :: "buckets \<Rightarrow> string \<Rightarrow> string set" where
  "archive_keys bs a = dom (bucket_of bs (archiveBucket a))"

lemma archiveBucket_inject [simp]: "archiveBucket a = archiveBucket b \<longleftrightarrow> a = b"
  by (simp add: archiveBucket_def)

context bolt_store
begin

lemma delete_loop:
  "view d b = Some m \<Longrightarrow> for_each ks (bxDelete B b) d = (Inr (), d') \<Longrightarrow> view d' = (view d)(b \<mapsto> m |` (- set ks)) \<and> seqno d' = seqno d"
proof (induction ks arbitrary: d m)
  case (Cons k ks)
  from Cons.prems(2) obtain d1 where d1: "bxDelete B b k d = (Inr (), d1)" "for_each ks (bxDelete B b) d1 = (Inr (), d')"
    by (auto simp: go_run split: sum.splits prod.splits)
  from delete [OF Cons.prems(1) d1(1)] have v: "view d1 = (view d)(b \<mapsto> m(k := None))" "seqno d1 = seqno d" by auto
  have "m(k := None) |` (- set ks) = m |` (- set (k # ks))" by (auto simp: restrict_map_def fun_eq_iff)
  moreover have "view d' = (view d1)(b \<mapsto> m(k := None) |` (- set ks)) \<and> seqno d' = seqno d1"
    by (rule Cons.IH [OF _ d1(2)]) (simp only: v fun_upd_same)
  ultimately show ?case unfolding v by simp
qed (auto simp: go_run fun_upd_idem restrict_map_def)

lemma cursor_keys:
  assumes "view d b = Some m"
  shows "set (map fst (bxCursor B b d)) = dom m" "distinct (map fst (bxCursor B b d))"
    "card (dom m) = length (bxCursor B b d)" "finite (dom m)"
proof -
  show s: "set (map fst (bxCursor B b d)) = dom m" using cursor [OF assms] by (simp add: dom_map_of_conv_image_fst flip: cursor [OF assms])
  show d: "distinct (map fst (bxCursor B b d))" using cursor_sorted [OF assms] strict_sorted_iff by blast
  from s show "finite (dom m)" using finite_set by metis
  from distinct_card [OF d] s show "card (dom m) = length (bxCursor B b d)" by simp
qed

text \<open>Trimming keeps at most the given number of messages: it removes the first keys of the cursor.\<close>

lemma trim_keys:
  assumes "bDeleteArchiveOldestMessages B a n d = (Inr (), d')" and "0 \<le> n"
  shows "(\<forall>b. b \<noteq> archiveBucket a \<longrightarrow> view d' b = view d b) \<and> archive_keys (view d') a \<subseteq> archive_keys (view d) a \<and>
    card (archive_keys (view d') a) = min (card (archive_keys (view d) a)) (nat n)"
proof (cases "view d (archiveBucket a)")
  case None
  with assms show ?thesis by (auto simp: bDeleteArchiveOldestMessages_def bucket archive_keys_def bucket_of_def)
next
  case (Some m)
  let ?b = "archiveBucket a" and ?ks = "map fst (bxCursor B (archiveBucket a) d)"
  note k = cursor_keys [OF Some]
  show ?thesis
  proof (cases "int (length ?ks) < n")
    case True
    with assms Some have "d' = d" by (auto simp: bDeleteArchiveOldestMessages_def bucket)
    with True k(3) Some show ?thesis by (auto simp: archive_keys_def bucket_of_def min_def)
  next
    case False
    with assms(1) Some have "for_each (old_keys n ?ks) (bxDelete B ?b) d = (Inr (), d')"
      by (simp add: bDeleteArchiveOldestMessages_def bucket Let_def)
    from delete_loop [OF Some this] have v: "view d' = (view d)(?b \<mapsto> m |` (- set (old_keys n ?ks)))" by simp
    have sub: "set (old_keys n ?ks) \<subseteq> dom m" using k(1) set_take_subset unfolding old_keys_def by fastforce
    have "card (set (old_keys n ?ks)) = length (old_keys n ?ks)" unfolding old_keys_def by (intro distinct_card distinct_take k(2))
    also have "\<dots> = length ?ks - nat n" using False assms(2) by (simp add: old_keys_def nat_diff_distrib)
    finally have "card (dom m - set (old_keys n ?ks)) = min (card (dom m)) (nat n)"
      using False k(3) sub by (simp add: card_Diff_subset)
    moreover have "dom (m |` (- set (old_keys n ?ks))) = dom m - set (old_keys n ?ks)" by (auto simp: dom_def restrict_map_def)
    ultimately show ?thesis using v Some by (auto simp: archive_keys_def bucket_of_def)
  qed
qed

lemma insert_keys:
  assumes "bInsertArchiveMessage B C msg d = (Inr (), d')"
  shows "(\<forall>b. b \<noteq> archiveBucket (amArchiveId msg) \<longrightarrow> view d' b = view d b) \<and>
    (\<exists>k. archive_keys (view d') (amArchiveId msg) = insert k (archive_keys (view d) (amArchiveId msg))) \<and>
    (finite (archive_keys (view d) (amArchiveId msg)))"
proof -
  let ?b = "archiveBucket (amArchiveId msg)"
  from assms obtain d1 d2 p n where c: "bxCreate B ?b d = (Inr (), d1)" and p: "MarshalBinary C msg = Inr p"
      and s: "bxNextSequence B ?b d1 = (Inr n, d2)" and put1: "bxPut B ?b (itoa_nat n) p d2 = (Inr (), d')"
    by (auto simp: bInsertArchiveMessage_def insertSeqOp_def go_run split: prod.splits sum.splits)
  from create [OF c] have v1: "view d1 = (view d)(?b \<mapsto> bucket_of (view d) ?b)" by (simp add: bucket_of_def)
  with next_seq [OF _ s] have v2: "view d2 = (view d)(?b \<mapsto> bucket_of (view d) ?b)" by simp
  with put [OF _ put1] have v3: "view d' = (view d)(?b \<mapsto> (bucket_of (view d) ?b)(itoa_nat n \<mapsto> p))" by simp
  have "finite (dom (bucket_of (view d) ?b))"
    by (cases "view d ?b") (simp_all add: bucket_of_def cursor_keys)
  with v3 show ?thesis by (auto simp: archive_keys_def bucket_of_def)
qed

end

end
