(* ===== verification/Forms.thy ===== *)
theory Forms
  imports Xmpp
begin

text \<open>
  Data forms (\<^verbatim>\<open>src/pkg/module/xep0004\<close>, XEP-0004): forms, fields and validations, their XML
  representation and the reading of it. \<open>element_lib\<close> is what the reading relies on in the XML package:
  attributes and children are found as they were built. Reading the representation of a form gives
  the form back.
\<close>

section \<open>Data\<close>

datatype validator =
    OpenValidator | BasicValidator
  | RangeValidator string string \<comment> \<open>minimum and maximum\<close>
  | RegExValidator string

record validate =
  vaDataType :: string
  vaValidator :: "validator option"

record form_option =
  opLabel :: string
  opValue :: string

record field =
  fdVar :: string
  fdRequired :: bool
  fdType :: string
  fdLabel :: string
  fdDescription :: string
  fdValues :: "string list"
  fdOptions :: "form_option list"
  fdValidate :: "validate option"

record data_form =
  fmType :: string
  fmTitle :: string
  fmInstructions :: string
  fmFields :: "field list"
  fmReported :: "field list"
  fmItems :: "field list list"

definition FormNamespace :: string where "FormNamespace = ''jabber:x:data''"
definition formValidateNamespace :: string where "formValidateNamespace = ''http://jabber.org/protocol/xdata-validate''"
definition FormTypeVar :: string where "FormTypeVar = ''FORM_TYPE''"

definition isValidFormType :: "string \<Rightarrow> bool" where
  "isValidFormType typ \<longleftrightarrow> typ \<in> {''form'', ''submit'', ''cancel'', ''result''}"

definition isValidFieldType :: "string \<Rightarrow> bool" where
  "isValidFieldType typ \<longleftrightarrow> typ \<in> {''boolean'', ''fixed'', ''hidden'', ''jid-multi'', ''jid-single'', ''list-multi'',
     ''list-single'', ''text-multi'', ''text-private'', ''text-single''}"

section \<open>Representation\<close>

text \<open>An attribute that is only written when it is not empty.\<close>

definition opt_attr :: "string \<Rightarrow> string \<Rightarrow> (string \<times> string) list" where
  "opt_attr k v = (if v = [] then [] else [(k, v)])"

abbreviation text_elem :: "string \<Rightarrow> string \<Rightarrow> element" where
  "text_elem name t \<equiv> Element name [] t []"

fun validator_Element :: "validator \<Rightarrow> element" where
  "validator_Element OpenValidator = text_elem ''open'' []"
| "validator_Element BasicValidator = text_elem ''basic'' []"
| "validator_Element (RangeValidator mn mx) = Element ''range'' (opt_attr ''min'' mn @ opt_attr ''max'' mx) [] []"
| "validator_Element (RegExValidator r) = text_elem ''regex'' r"

definition validate_Element :: "validate \<Rightarrow> element" where
  "validate_Element v = Element ''validate'' [(''xmlns'', formValidateNamespace), (''datatype'', vaDataType v)] []
     (case vaValidator v of None \<Rightarrow> [] | Some x \<Rightarrow> [validator_Element x])"

definition option_Element :: "form_option \<Rightarrow> element" where
  "option_Element p = Element ''option'' (opt_attr ''label'' (opLabel p)) [] [text_elem ''value'' (opValue p)]"

definition field_Element :: "field \<Rightarrow> element" where
  "field_Element f = Element ''field''
     (opt_attr ''type'' (fdType f) @ opt_attr ''label'' (fdLabel f) @ opt_attr ''var'' (fdVar f)) []
     ((if fdRequired f then [text_elem ''required'' []] else []) @
      (if fdDescription f = [] then [] else [text_elem ''desc'' (fdDescription f)]) @
      map (text_elem ''value'') (fdValues f) @ map option_Element (fdOptions f) @
      (case fdValidate f of None \<Rightarrow> [] | Some v \<Rightarrow> [validate_Element v]))"

definition form_Element :: "data_form \<Rightarrow> element" where
  "form_Element f = Element ''x'' ((''xmlns'', FormNamespace) # opt_attr ''type'' (fmType f)) []
     ((if fmTitle f = [] then [] else [text_elem ''title'' (fmTitle f)]) @
      (if fmInstructions f = [] then [] else [text_elem ''instructions'' (fmInstructions f)]) @
      (if fmReported f = [] then [] else [Element ''reported'' [] [] (map field_Element (fmReported f))]) @
      map (\<lambda>item. Element ''item'' [] [] (map field_Element item)) (fmItems f) @
      map field_Element (fmFields f))"

section \<open>Reading\<close>

definition child_text :: "xlib \<Rightarrow> element \<Rightarrow> string \<Rightarrow> string" where
  "child_text X e n = (case Child X e n of None \<Rightarrow> [] | Some c \<Rightarrow> Text c)"

definition read_validator :: "xlib \<Rightarrow> element \<Rightarrow> validator option" where
  "read_validator X e =
     (if Child X e ''open'' \<noteq> None then Some OpenValidator
      else if Child X e ''basic'' \<noteq> None then Some BasicValidator
      else case Child X e ''range'' of
             Some rng \<Rightarrow> Some (RangeValidator (Attribute X rng ''min'') (Attribute X rng ''max''))
           | None \<Rightarrow> (case Child X e ''regex'' of Some rgx \<Rightarrow> Some (RegExValidator (Text rgx)) | None \<Rightarrow> None))"

definition NewFieldFromElement :: "xlib \<Rightarrow> element \<Rightarrow> go_error + field" where
  "NewFieldFromElement X e =
     (if Name e \<noteq> ''field'' then Inl (ErrText (''xep0004: invalid field name: '' @ Name e))
      else let typ = Attribute X e ''type''
      in if typ \<noteq> [] \<and> \<not> isValidFieldType typ then Inl (ErrText (''xep0004: invalid field type: '' @ typ))
         else Inr \<lparr>fdVar = Attribute X e ''var'', fdRequired = (Child X e ''required'' \<noteq> None), fdType = typ,
                   fdLabel = Attribute X e ''label'', fdDescription = child_text X e ''desc'',
                   fdValues = map Text (Children X e ''value''),
                   fdOptions = map (\<lambda>p. \<lparr>opLabel = Attribute X p ''label'', opValue = child_text X p ''value''\<rparr>) (Children X e ''option''),
                   fdValidate = map_option (\<lambda>v. \<lparr>vaDataType = Attribute X v ''datatype'', vaValidator = read_validator X v\<rparr>)
                     (ChildNamespace X e ''validate'' formValidateNamespace)\<rparr>)"

fun read_fields :: "xlib \<Rightarrow> element list \<Rightarrow> go_error + field list" where
  "read_fields X [] = Inr []"
| "read_fields X (e # es) =
     (case NewFieldFromElement X e of
        Inl err \<Rightarrow> Inl err
      | Inr f \<Rightarrow> (case read_fields X es of Inl err \<Rightarrow> Inl err | Inr fs \<Rightarrow> Inr (f # fs)))"

definition fieldsFromElement :: "xlib \<Rightarrow> element \<Rightarrow> go_error + field list" where
  "fieldsFromElement X e = read_fields X (Children X e ''field'')"

fun read_items :: "xlib \<Rightarrow> element list \<Rightarrow> go_error + field list list" where
  "read_items X [] = Inr []"
| "read_items X (e # es) =
     (case fieldsFromElement X e of
        Inl err \<Rightarrow> Inl err
      | Inr fs \<Rightarrow> (case read_items X es of Inl err \<Rightarrow> Inl err | Inr fss \<Rightarrow> Inr (fs # fss)))"

definition NewFormFromElement :: "xlib \<Rightarrow> element \<Rightarrow> go_error + data_form" where
  "NewFormFromElement X e =
     (if Name e \<noteq> ''x'' then Inl (ErrText (''xep0004: invalid form name: '' @ Name e))
      else if Attribute X e ''xmlns'' \<noteq> FormNamespace then Inl (ErrText (''xep0004: invalid form namespace: '' @ Attribute X e ''xmlns''))
      else if \<not> isValidFormType (Attribute X e ''type'') then Inl (ErrText (''xep0004: invalid form type: '' @ Attribute X e ''type''))
      else case (case Child X e ''reported'' of None \<Rightarrow> Inr [] | Some r \<Rightarrow> fieldsFromElement X r) of
             Inl err \<Rightarrow> Inl err
           | Inr reported \<Rightarrow>
               (case read_items X (Children X e ''item'') of
                  Inl err \<Rightarrow> Inl err
                | Inr items \<Rightarrow>
                    (case fieldsFromElement X e of
                       Inl err \<Rightarrow> Inl err
                     | Inr own_fields \<Rightarrow> Inr \<lparr>fmType = Attribute X e ''type'', fmTitle = child_text X e ''title'',
                         fmInstructions = child_text X e ''instructions'', fmFields = own_fields, fmReported = reported,
                         fmItems = items\<rparr>)))"

section \<open>Values of fields\<close>

definition field_matches :: "string \<Rightarrow> string \<Rightarrow> field \<Rightarrow> bool" where
  "field_matches fieldName typ f \<longleftrightarrow> fdVar f = fieldName \<and> fdType f = typ \<and> fdValues f \<noteq> []"

definition ValueForFieldOfType :: "field list \<Rightarrow> string \<Rightarrow> string \<Rightarrow> string" where
  "ValueForFieldOfType fs fieldName typ =
     (case find_first (field_matches fieldName typ) fs of None \<Rightarrow> [] | Some f \<Rightarrow> hd (fdValues f))"

definition ValuesForFieldOfType :: "field list \<Rightarrow> string \<Rightarrow> string \<Rightarrow> string list" where
  "ValuesForFieldOfType fs fieldName typ = concat (map fdValues (filter (field_matches fieldName typ) fs))"

definition ValueForField :: "field list \<Rightarrow> string \<Rightarrow> string" where
  "ValueForField fs fieldName = ValueForFieldOfType fs fieldName []"

definition ValuesForField :: "field list \<Rightarrow> string \<Rightarrow> string list" where
  "ValuesForField fs fieldName = ValuesForFieldOfType fs fieldName []"

section \<open>Round trip\<close>

locale element_lib =
  fixes X :: xlib
  assumes attr: "Attribute X e k = (case map_of (Attrs e) k of None \<Rightarrow> [] | Some v \<Rightarrow> v)"
    and child: "Child X e n = find_first (\<lambda>c. Name c = n) (AllChildren e)"
    and child_ns: "ChildNamespace X e n ns = find_first (\<lambda>c. Name c = n \<and> Attribute X c ''xmlns'' = ns) (AllChildren e)"
    and children: "Children X e n = filter (\<lambda>c. Name c = n) (AllChildren e)"
begin

lemma find_map: "find_first P (map f xs) = map_option f (find_first (\<lambda>x. P (f x)) xs)"
  by (induction xs) auto

lemma find_const: "find_first (\<lambda>x. b) xs = (if b \<and> xs \<noteq> [] then Some (hd xs) else None)"
  by (cases xs) auto

lemmas reading = attr child child_ns children child_text_def find_first_append opt_attr_def find_map

lemma validator_roundtrip:
  "read_validator X (validate_Element v) = vaValidator v"
  by (cases "vaValidator v"; cases "the (vaValidator v)")
    (auto simp: read_validator_def validate_Element_def reading)

lemma option_roundtrip:
  "\<lparr>opLabel = Attribute X (option_Element p) ''label'', opValue = child_text X (option_Element p) ''value''\<rparr> = p"
  by (simp add: option_Element_def reading)

lemma name_elems [simp]: "Name (option_Element p) = ''option''" "Name (validate_Element v) = ''validate''" "Name (field_Element f) = ''field''"
  by (simp_all add: option_Element_def validate_Element_def field_Element_def)

lemma field_children:
  "map Text (Children X (field_Element f) ''value'') = fdValues f"
  "Children X (field_Element f) ''option'' = map option_Element (fdOptions f)"
  "child_text X (field_Element f) ''desc'' = fdDescription f"
  "Child X (field_Element f) ''required'' \<noteq> None \<longleftrightarrow> fdRequired f"
  "ChildNamespace X (field_Element f) ''validate'' formValidateNamespace = map_option validate_Element (fdValidate f)"
  by (simp_all add: field_Element_def reading filter_empty_conv comp_def find_const split: option.split)
    (auto simp: validate_Element_def attr comp_def)

lemma field_roundtrip:
  assumes "fdType f = [] \<or> isValidFieldType (fdType f)"
  shows "NewFieldFromElement X (field_Element f) = Inr f"
proof -
  have a: "Attribute X (field_Element f) ''type'' = fdType f" "Attribute X (field_Element f) ''var'' = fdVar f"
    "Attribute X (field_Element f) ''label'' = fdLabel f" by (simp_all add: field_Element_def reading)
  have v: "map_option (\<lambda>v. \<lparr>vaDataType = Attribute X v ''datatype'', vaValidator = read_validator X v\<rparr>) (map_option validate_Element (fdValidate f)) =
      fdValidate f"
    by (cases "fdValidate f") (simp_all add: validator_roundtrip, simp add: validate_Element_def reading)
  have o': "map (\<lambda>p. \<lparr>opLabel = Attribute X p ''label'', opValue = child_text X p ''value''\<rparr>) (map option_Element (fdOptions f)) = fdOptions f"
    by (simp add: option_roundtrip comp_def)
  show ?thesis
    using assms unfolding NewFieldFromElement_def Let_def a field_children v o' by auto
qed

lemma fields_roundtrip:
  "\<forall>f \<in> set fs. fdType f = [] \<or> isValidFieldType (fdType f) \<Longrightarrow> read_fields X (map field_Element fs) = Inr fs"
  by (induction fs) (simp_all add: field_roundtrip)

lemma all_fields: "filter (\<lambda>c. Name c = ''field'') (map field_Element fs) = map field_Element fs"
  by (simp add: filter_id_conv)

lemma items_roundtrip:
  "\<forall>fs \<in> set fss. \<forall>f \<in> set fs. fdType f = [] \<or> isValidFieldType (fdType f) \<Longrightarrow>
     read_items X (map (\<lambda>item. Element ''item'' [] [] (map field_Element item)) fss) = Inr fss"
  by (induction fss) (simp_all add: fieldsFromElement_def children all_fields fields_roundtrip)

lemma form_children:
  "Children X (form_Element f) ''item'' = map (\<lambda>item. Element ''item'' [] [] (map field_Element item)) (fmItems f)"
  "Children X (form_Element f) ''field'' = map field_Element (fmFields f)"
  "Child X (form_Element f) ''reported'' =
     (if fmReported f = [] then None else Some (Element ''reported'' [] [] (map field_Element (fmReported f))))"
  "child_text X (form_Element f) ''title'' = fmTitle f" "child_text X (form_Element f) ''instructions'' = fmInstructions f"
  by (simp_all add: form_Element_def reading filter_empty_conv filter_id_conv comp_def find_const)

lemma form_roundtrip_lib:
  assumes "isValidFormType (fmType f)"
    and "\<forall>fd \<in> set (fmFields f @ fmReported f @ concat (fmItems f)). fdType fd = [] \<or> isValidFieldType (fdType fd)"
  shows "NewFormFromElement X (form_Element f) = Inr f"
proof -
  have a: "Attribute X (form_Element f) ''xmlns'' = FormNamespace" "Attribute X (form_Element f) ''type'' = fmType f"
    "Name (form_Element f) = ''x''" by (simp_all add: form_Element_def reading)
  have items: "read_items X (map (\<lambda>item. Element ''item'' [] [] (map field_Element item)) (fmItems f)) = Inr (fmItems f)"
    using assms(2) by (intro items_roundtrip) auto
  have own: "read_fields X (map field_Element (fmFields f)) = Inr (fmFields f)"
    and rep: "read_fields X (map field_Element (fmReported f)) = Inr (fmReported f)"
    using assms(2) by (auto intro!: fields_roundtrip)
  have r: "fieldsFromElement X (Element ''reported'' [] [] (map field_Element (fmReported f))) = Inr (fmReported f)"
    by (simp add: fieldsFromElement_def children all_fields rep)
  show ?thesis
    using assms(1) by (simp add: NewFormFromElement_def a form_children items own r fieldsFromElement_def [of X "form_Element f"])
qed

end

interpretation std_forms: element_lib std_lib
  by unfold_locales (simp_all add: std_lib_def std_attr_def)

text \<open>
  C30. A form that is written as XML and read again is the same form: type, title, instructions, all
  fields with their options and validations, the reported fields and the items. The form has one of
  the four types, and every field one of the known types or none.
\<close>

theorem form_roundtrip:
  assumes "element_lib X" and "isValidFormType (fmType f)"
    and "\<forall>fd \<in> set (fmFields f @ fmReported f @ concat (fmItems f)). fdType fd = [] \<or> isValidFieldType (fdType fd)"
  shows "NewFormFromElement X (form_Element f) = Inr f"
  using element_lib.form_roundtrip_lib [OF assms] .

definition demo_field :: field where
  "demo_field = \<lparr>fdVar = ''ids'', fdRequired = True, fdType = ''list-multi'', fdLabel = [], fdDescription = ''which'', fdValues = [''a'', ''b''],
     fdOptions = [\<lparr>opLabel = ''A'', opValue = ''a''\<rparr>], fdValidate = Some \<lparr>vaDataType = ''xs:string'', vaValidator = Some (RangeValidator ''1'' [])\<rparr>\<rparr>"

definition demo_form :: data_form where
  "demo_form = \<lparr>fmType = ''result'', fmTitle = ''t'', fmInstructions = [], fmFields = [demo_field], fmReported = [demo_field],
     fmItems = [[demo_field], []]\<rparr>"

theorem form_roundtrip_witness: "NewFormFromElement std_lib (form_Element demo_form) = Inr demo_form"
  by (rule form_roundtrip [OF std_forms.element_lib_axioms])
    (simp_all add: demo_form_def demo_field_def isValidFormType_def isValidFieldType_def)

end
