(* ===== verification/Mam.thy ===== *)
theory Mam
  imports Archive_Store Forms RSM Hooks C2S_Stream
begin

text \<open>
  Message archives (\<^verbatim>\<open>src/pkg/module/xep0313/mam.go\<close>, XEP-0313): routed messages are stored in the
  archives of sender and recipient, and a client queries its archive with filters and pages. The
  collaborators are the record \<open>mam_env\<close>. \<open>mam_module\<close> is what the limit on the size of an archive
  needs of them; it is shown for the embedded back end.
\<close>

section \<open>Environment\<close>

record mam_info =
  miArchiveID :: string
  miMessage :: "archive_message option"
  miFilters :: "archive_filters option"

record 'w mam_outside =
  maLib :: xlib
  maQueueSize :: int
  maIsLocalHost :: "string \<Rightarrow> bool"
  maRoute :: "element \<Rightarrow> ('w, jid list) go"
  maLocalStream :: "string \<Rightarrow> string \<Rightarrow> ('w, nat) go"
  maSetInfoValue :: "nat \<Rightarrow> string \<Rightarrow> info_val \<Rightarrow> ('w, unit) go"
  maRunHook :: "string \<Rightarrow> mam_info \<Rightarrow> ('w, unit) go"
  maNewUUID :: "('w, string) go"
  maNow :: "('w, int) go"
  maFormatTime :: "int \<Rightarrow> string" \<comment> \<open>\<^verbatim>\<open>time.Format\<close>\<close>
  maParseTime :: "string \<Rightarrow> go_error + int" \<comment> \<open>\<^verbatim>\<open>time.Parse\<close>\<close>

record 'w mam_env = "'w mam_outside" +
  maRep :: "'w archive_rep"
  maTx :: "'w archive_rep" \<comment> \<open>the repository inside a transaction\<close>
  maInTransaction :: "('w, unit) go \<Rightarrow> ('w, unit) go"

text \<open>What the module stores in the context of a hook run.\<close>

record mam_ctx =
  cxSentArchiveID :: string
  cxReceivedArchiveID :: string

definition no_mam_ctx :: mam_ctx where
  "no_mam_ctx = \<lparr>cxSentArchiveID = [], cxReceivedArchiveID = []\<rparr>"

definition mamNamespace :: string where "mamNamespace = ''urn:xmpp:mam:2''"
definition mamRequestedCtxKey :: string where "mamRequestedCtxKey = ''mam:requested''"
definition defaultPageSize :: int where "defaultPageSize = 50"
definition maxPageSize :: int where "maxPageSize = 250"

definition mamMatchesNamespace :: "string \<Rightarrow> bool \<Rightarrow> bool" where
  "mamMatchesNamespace namespace serverTarget \<longleftrightarrow> \<not> serverTarget \<and> namespace = mamNamespace"

definition maRouteIgnore :: "'w mam_env \<Rightarrow> element \<Rightarrow> ('w, unit) go" where
  "maRouteIgnore E el = ignore (maRoute E el)"

definition ma_reply :: "'w mam_env \<Rightarrow> element \<Rightarrow> string \<Rightarrow> ('w, unit) go" where
  "ma_reply E iq reason = maRouteIgnore E (MakeErrorStanza (maLib E) iq reason)"

text \<open>An error is answered with the given stanza error and returned; panics are not errors.\<close>

definition ma_or_report :: "'w mam_env \<Rightarrow> element \<Rightarrow> string \<Rightarrow> ('w, 'a) go \<Rightarrow> ('w, 'a) go" where
  "ma_or_report E iq reason m =
     andthen (attempt m) (\<lambda>r.
       case r of
         Inl e \<Rightarrow> if e = ErrPanic then throw ErrPanic else andthen (ma_reply E iq reason) (\<lambda>_. throw e)
       | Inr x \<Rightarrow> ret x)"

section \<open>Filters of a query\<close>

definition parse_bound :: "(string \<Rightarrow> go_error + int) \<Rightarrow> string \<Rightarrow> go_error + int option" where
  "parse_bound parse s = (if s = [] then Inr None else map_sum id Some (parse s))"

definition formToFilters :: "(string \<Rightarrow> go_error + int) \<Rightarrow> data_form \<Rightarrow> go_error + archive_filters" where
  "formToFilters parse fm =
     (let fs = fmFields fm
      in if fmType fm \<noteq> ''submit'' \<or> ValueForFieldOfType fs FormTypeVar ''hidden'' \<noteq> mamNamespace
         then Inl (ErrText ''unexpected form type value'')
         else case parse_bound parse (ValueForField fs ''start'') of
                Inl e \<Rightarrow> Inl e
              | Inr start \<Rightarrow>
                  (case parse_bound parse (ValueForField fs ''end'') of
                     Inl e \<Rightarrow> Inl e
                   | Inr stop \<Rightarrow> Inr \<lparr>afStart = start, afEnd = stop, afWith = ValueForField fs ''with'',
                       afBeforeId = ValueForField fs ''before-id'', afAfterId = ValueForField fs ''after-id'',
                       afIds = ValuesForField fs ''ids''\<rparr>))"

definition query_filters :: "'w mam_env \<Rightarrow> element \<Rightarrow> go_error + archive_filters" where
  "query_filters E qChild =
     (case ChildNamespace (maLib E) qChild ''x'' FormNamespace of
        None \<Rightarrow> Inr no_filters
      | Some x \<Rightarrow> (case NewFormFromElement (maLib E) x of
                    Inl e \<Rightarrow> Inl e
                  | Inr form \<Rightarrow> formToFilters (maParseTime E) form))"

section \<open>Requests\<close>

definition end_Element :: "string \<Rightarrow> (string \<times> string) option \<Rightarrow> element" where
  "end_Element name at = Element name (case at of None \<Rightarrow> [] | Some (i, t) \<Rightarrow> [(''id'', i), (''timestamp'', t)]) [] []"

definition sendArchiveMetadata :: "'w mam_env \<Rightarrow> element \<Rightarrow> ('w, unit) go" where
  "sendArchiveMetadata E iq =
     andthen (ma_or_report E iq ''internal-server-error'' (FetchArchiveMetadata (maRep E) (Node (FromJID (maLib E) iq)))) (\<lambda>metadata.
       maRouteIgnore E (MakeResultIQ (maLib E) iq (Some
         (Element ''metadata'' [(''xmlns'', mamNamespace)] []
           [end_Element ''start'' (map_option (\<lambda>m. (atStartId m, atStartTimestamp m)) metadata),
            end_Element ''end'' (map_option (\<lambda>m. (atEndId m, atEndTimestamp m)) metadata)]))))"

definition plain_field :: "string \<Rightarrow> string \<Rightarrow> field" where
  "plain_field typ var = \<lparr>fdVar = var, fdRequired = False, fdType = typ, fdLabel = [], fdDescription = [], fdValues = [],
     fdOptions = [], fdValidate = None\<rparr>"

definition query_form :: data_form where
  "query_form = \<lparr>fmType = ''form'', fmTitle = [], fmInstructions = [], fmFields =
     [(plain_field ''hidden'' FormTypeVar)\<lparr>fdValues := [mamNamespace]\<rparr>,
      plain_field ''jid-single'' ''with'', plain_field ''text-single'' ''start'', plain_field ''text-single'' ''end'',
      plain_field ''text-single'' ''before-id'', plain_field ''text-single'' ''after-id'',
      (plain_field ''list-multi'' ''ids'')\<lparr>fdValidate := Some \<lparr>vaDataType = ''xs:string'', vaValidator = Some OpenValidator\<rparr>\<rparr>],
     fmReported = [], fmItems = []\<rparr>"

definition sendFormFields :: "'w mam_env \<Rightarrow> element \<Rightarrow> ('w, unit) go" where
  "sendFormFields E iq =
     maRouteIgnore E (MakeResultIQ (maLib E) iq (Some
       (Element ''query'' [(''xmlns'', mamNamespace)] [] [form_Element query_form])))"

text \<open>The page of a query: the request of the client with its limit, or the default one.\<close>

definition page_request :: "xlib \<Rightarrow> element \<Rightarrow> go_error + rsm_request" where
  "page_request X qChild =
     (case ChildNamespace X qChild ''set'' RSMNamespace of
        None \<Rightarrow> Inr \<lparr>After = [], Before = [], Index = 0, Max = defaultPageSize, LastPage = False\<rparr>
      | Some st \<Rightarrow> (case NewRequestFromElement X st of
                      Inl e \<Rightarrow> Inl e
                    | Inr req \<Rightarrow> Inr (if Max req > maxPageSize then req\<lparr>Max := maxPageSize\<rparr> else req)))"

definition flip_page :: "xlib \<Rightarrow> element \<Rightarrow> archive_message list \<times> rsm_result \<Rightarrow> archive_message list \<times> rsm_result" where
  "flip_page X qChild = (\<lambda>(ms, res).
     if Child X qChild ''flip-page'' \<noteq> None then (rev ms, res\<lparr>rsLast := rsFirst res, rsFirst := rsLast res\<rparr>) else (ms, res))"

definition not_all_found :: "archive_filters \<Rightarrow> archive_message list \<Rightarrow> bool" where
  "not_all_found f ms \<longleftrightarrow> (length (afIds f) > 0 \<and> length ms \<noteq> length (afIds f)) \<or>
     ((length (afAfterId f) > 0 \<or> length (afBeforeId f) > 0) \<and> length ms = 0)"

definition result_message :: "'w mam_env \<Rightarrow> element \<Rightarrow> element \<Rightarrow> archive_message \<Rightarrow> ('w, unit) go" where
  "result_message E iq qChild msg =
     (let X = maLib E
      in andthen (maNewUUID E) (\<lambda>resultID. andthen (maNewUUID E) (\<lambda>msgID.
           maRouteIgnore E (Element ''message''
             [(''from'', JIDString X (ToJID X iq)), (''to'', JIDString X (FromJID X iq)), (''id'', msgID)] []
             [Element ''result'' [(''xmlns'', mamNamespace), (''queryid'', Attribute X qChild ''queryid''), (''id'', resultID)] []
               [MakeForwardedStanza X (amMessage msg) (Some (maFormatTime E (amStamp msg)))]]))))"

definition fin_Element :: "rsm_result \<Rightarrow> element" where
  "fin_Element res = Element ''fin'' ((''xmlns'', mamNamespace) # (if rsComplete res then [(''complete'', ''true'')] else [])) []
     [ResultElement res]"

text \<open>The last part of a query: the page is cut out and sent, one message after the other.\<close>

definition send_page :: "'w mam_env \<Rightarrow> element \<Rightarrow> element \<Rightarrow> nat \<Rightarrow> archive_message list \<Rightarrow> ('w, unit) go" where
  "send_page E iq qChild stm messages =
     andthen (ma_or_report E iq ''bad-request'' (lift_sum (page_request (maLib E) qChild))) (\<lambda>req.
       case GetResultSetPage messages req amId of
         Inl e \<Rightarrow>
           if e = ErrPanic then throw ErrPanic
           else if e = ErrPageNotFound then ma_reply E iq ''item-not-found''
           else andthen (ma_reply E iq ''internal-server-error'') (\<lambda>_. throw e)
       | Inr page \<Rightarrow>
           (let (ms, res) = flip_page (maLib E) qChild page
            in andthen (for_each ms (result_message E iq qChild)) (\<lambda>_.
               andthen (maRouteIgnore E (MakeResultIQ (maLib E) iq (Some (fin_Element res)))) (\<lambda>_.
                 maSetInfoValue E stm mamRequestedCtxKey (BoolVal True)))))"

definition sendArchiveMessages :: "'w mam_env \<Rightarrow> element \<Rightarrow> element \<Rightarrow> ('w, unit) go" where
  "sendArchiveMessages E iq qChild =
     (let fromJID = FromJID (maLib E) iq; archiveID = Node fromJID
      in andthen (maLocalStream E (Node fromJID) (Resource fromJID)) (\<lambda>stm.
         andthen (lift_sum (query_filters E qChild)) (\<lambda>filters.
         andthen (ma_or_report E iq ''internal-server-error'' (FetchArchiveMessages (maRep E) filters archiveID)) (\<lambda>messages.
         andthen (maRunHook E ''mam.message.queried''
             \<lparr>miArchiveID = archiveID, miMessage = None, miFilters = Some filters\<rparr>) (\<lambda>_.
           if not_all_found filters messages then ma_reply E iq ''item-not-found''
           else send_page E iq qChild stm messages)))))"

definition mamProcessIQ :: "'w mam_env \<Rightarrow> element \<Rightarrow> ('w, unit) go" where
  "mamProcessIQ E iq =
     (let X = maLib E; metadata = ChildNamespace X iq ''metadata'' mamNamespace; query = ChildNamespace X iq ''query'' mamNamespace
      in if \<not> MatchesBare X (FromJID X iq) (ToJID X iq) then ma_reply E iq ''forbidden''
         else if IsGet X iq \<and> metadata \<noteq> None then sendArchiveMetadata E iq
         else if IsGet X iq \<and> query \<noteq> None then sendFormFields E iq
         else case query of
                Some qChild \<Rightarrow> if IsSet X iq then sendArchiveMessages E iq qChild else ret ()
              | None \<Rightarrow> ret ())"

section \<open>Archiving\<close>

definition mamMessageArchievable :: "xlib \<Rightarrow> element \<Rightarrow> bool" where
  "mamMessageArchievable X msg \<longleftrightarrow> (IsNormal X msg \<or> IsChat X msg) \<and> IsMessageWithBody X msg"

definition mamArchiveMessage :: "'w mam_env \<Rightarrow> element \<Rightarrow> string \<Rightarrow> string \<Rightarrow> ('w, unit) go" where
  "mamArchiveMessage E message archiveID ident =
     (let X = maLib E
      in andthen (maNow E) (\<lambda>now.
         let archiveMsg = \<lparr>amArchiveId = archiveID, amId = ident, amFromJid = JIDString X (FromJID X message),
               amToJid = JIDString X (ToJID X message), amMessage = message, amStamp = now\<rparr>
         in andthen (maInTransaction E
              (andthen (InsertArchiveMessage (maTx E) archiveMsg) (\<lambda>_.
                 DeleteArchiveOldestMessages (maTx E) archiveID (maQueueSize E)))) (\<lambda>_.
            maRunHook E ''mam.message.archieved'' \<lparr>miArchiveID = archiveID, miMessage = Some archiveMsg, miFilters = None\<rparr>)))"

definition addRecipientStanzaID :: "'w mam_env \<Rightarrow> element \<Rightarrow> ('w, element) go" where
  "addRecipientStanzaID E originalMsg =
     (let X = maLib E; toJID = ToJID X originalMsg
      in if \<not> maIsLocalHost E (Domain toJID) then ret originalMsg
         else andthen (maNewUUID E) (\<lambda>archiveID.
           ret (MakeStanzaIDMessage originalMsg archiveID (JIDString X (ToBareJID X toJID)))))"

text \<open>The handler of received messages gives the element of the hook's information its new value.\<close>

definition mamOnMessageReceived :: "'w mam_env \<Rightarrow> element \<Rightarrow> ('w, element) go" where
  "mamOnMessageReceived E msg = addRecipientStanzaID E msg"

text \<open>A routed message: the context of the hook run is part of the state.\<close>

definition in_ctx :: "('w, 'a) go \<Rightarrow> (mam_ctx \<times> 'w, 'a) go" where
  "in_ctx m = (\<lambda>(c, w). case m w of (r, w') \<Rightarrow> (r, (c, w')))"

definition set_ctx :: "(mam_ctx \<Rightarrow> mam_ctx) \<Rightarrow> (mam_ctx \<times> 'w, unit) go" where
  "set_ctx f = modify (\<lambda>(c, w). (f c, w))"

definition archive_sent :: "'w mam_env \<Rightarrow> element \<Rightarrow> (mam_ctx \<times> 'w, unit) go" where
  "archive_sent E msg =
     (let X = maLib E; fromJID = FromJID X msg
      in if \<not> maIsLocalHost E (Domain fromJID) then ret ()
         else andthen (in_ctx (maNewUUID E)) (\<lambda>sentArchiveID.
           andthen (in_ctx (mamArchiveMessage E
               (MakeStanzaIDMessage msg sentArchiveID (JIDString X (ToBareJID X fromJID))) (Node fromJID) sentArchiveID)) (\<lambda>_.
             set_ctx (\<lambda>c. c\<lparr>cxSentArchiveID := sentArchiveID\<rparr>))))"

definition archive_received :: "'w mam_env \<Rightarrow> element \<Rightarrow> (mam_ctx \<times> 'w, unit) go" where
  "archive_received E msg =
     (let X = maLib E; toJID = ToJID X msg; receivedArchiveID = MessageStanzaID X msg
      in if \<not> maIsLocalHost E (Domain toJID) then ret ()
         else andthen (in_ctx (mamArchiveMessage E msg (Node toJID) receivedArchiveID)) (\<lambda>_.
           set_ctx (\<lambda>c. c\<lparr>cxReceivedArchiveID := receivedArchiveID\<rparr>)))"

definition handleRoutedMessage :: "'w mam_env \<Rightarrow> element \<Rightarrow> (mam_ctx \<times> 'w, unit) go" where
  "handleRoutedMessage E elem =
     (if StanzaKind (maLib E) elem \<noteq> MessageKind \<or> \<not> mamMessageArchievable (maLib E) elem then ret ()
      else andthen (archive_sent E elem) (\<lambda>_. archive_received E elem))"

definition mamOnUserDeleted :: "'w mam_env \<Rightarrow> string \<Rightarrow> ('w, unit) go" where
  "mamOnUserDeleted E username = DeleteArchive (maRep E) username"

definition ExtractSentArchiveID :: "mam_ctx \<Rightarrow> string" where
  "ExtractSentArchiveID c = cxSentArchiveID c"

definition ExtractReceivedArchiveID :: "mam_ctx \<Rightarrow> string" where
  "ExtractReceivedArchiveID c = cxReceivedArchiveID c"

section \<open>Runs of the module\<close>

datatype mam_event = MamIQ element | MamReceived element | MamRouted element | MamUserDeleted string

fun mam_step :: "'w mam_env \<Rightarrow> mam_event \<Rightarrow> ('w, unit) go" where
  "mam_step E (MamIQ iq) = mamProcessIQ E iq"
| "mam_step E (MamReceived msg) = ignore (mamOnMessageReceived E msg)"
| "mam_step E (MamRouted msg) = (\<lambda>w. case handleRoutedMessage E msg (no_mam_ctx, w) of (r, c, w') \<Rightarrow> (r, w'))"
| "mam_step E (MamUserDeleted u) = mamOnUserDeleted E u"

section \<open>The size of the archives\<close>

text \<open>\<open>held w a\<close> is the number of messages in the archive \<open>a\<close>.\<close>

locale mam_module =
  fixes E :: "'w mam_env" and held :: "'w \<Rightarrow> string \<Rightarrow> nat"
  assumes insert_tx: "InsertArchiveMessage (maTx E) m w = (Inr u, w') \<Longrightarrow> a \<noteq> amArchiveId m \<Longrightarrow> held w' a = held w a"
    and trim_tx: "DeleteArchiveOldestMessages (maTx E) a n w = (Inr u, w') \<Longrightarrow> 0 \<le> n \<Longrightarrow>
      held w' = (held w)(a := min (held w a) (nat n))"
    and transaction_ok: "maInTransaction E f w = (Inr u, w') \<Longrightarrow>
      \<exists>w0 w1. held w0 = held w \<and> f w0 = (Inr u, w1) \<and> held w' = held w1"
    and transaction_fail: "maInTransaction E f w = (Inl e, w') \<Longrightarrow> held w' = held w"
    and drop_archive: "DeleteArchive (maRep E) a w = (r, w') \<Longrightarrow> held w' = held w \<or> held w' = (held w)(a := 0)"
    and outside: "keeps (\<lambda>w. held w = h) (FetchArchiveMetadata (maRep E) b)" "keeps (\<lambda>w. held w = h) (FetchArchiveMessages (maRep E) flt b)"
      "keeps (\<lambda>w. held w = h) (maRoute E el)" "keeps (\<lambda>w. held w = h) (maLocalStream E usr rsc)"
      "keeps (\<lambda>w. held w = h) (maSetInfoValue E stm k v)" "keeps (\<lambda>w. held w = h) (maRunHook E hk info)"
      "keeps (\<lambda>w. held w = h) (maNewUUID E)" "keeps (\<lambda>w. held w = h) (maNow E)"
    and queue_size: "0 \<le> maQueueSize E"
begin

definition within :: "'w \<Rightarrow> bool" where
  "within w \<longleftrightarrow> (\<forall>a. held w a \<le> nat (maQueueSize E))"

lemma keeps_within: "(\<And>h. keeps (\<lambda>w. held w = h) m) \<Longrightarrow> keeps within m"
  by (simp add: keeps_def within_def)

lemmas within_outside [keeps_intro] = outside [THEN keeps_within]

lemma within_lift [keeps_intro]: "keeps within (lift_sum x)"
  by (simp add: lift_sum_def keeps_intro split: sum.split)

lemma within_report [keeps_intro]: "keeps within m \<Longrightarrow> keeps within (ma_or_report E iq reason m)"
  by (auto simp: ma_or_report_def ma_reply_def maRouteIgnore_def intro!: keeps_intro split: sum.split)

lemma within_query: "keeps within (mamProcessIQ E iq)"
  by (auto simp: mamProcessIQ_def sendArchiveMetadata_def sendFormFields_def sendArchiveMessages_def send_page_def
      result_message_def ma_reply_def maRouteIgnore_def Let_def intro!: keeps_intro split: option.split sum.split prod.split)

text \<open>The transaction that stores a message leaves its archive with at most the configured number of
  messages, whatever it held before.\<close>

lemma store_within: "keeps within (mamArchiveMessage E msg a ident)"
proof -
  have "keeps within (maInTransaction E (andthen (InsertArchiveMessage (maTx E) m) (\<lambda>_. DeleteArchiveOldestMessages (maTx E) a (maQueueSize E))))"
    if m: "amArchiveId m = a" for m
  proof (rule keepsI)
    fix w assume w: "within w"
    let ?f = "andthen (InsertArchiveMessage (maTx E) m) (\<lambda>_. DeleteArchiveOldestMessages (maTx E) a (maQueueSize E))"
    obtain r w' where run: "maInTransaction E ?f w = (r, w')" by fastforce
    have "within w'"
    proof (cases r)
      case (Inl e)
      with transaction_fail run w show ?thesis by (auto simp: within_def)
    next
      case (Inr u)
      with transaction_ok run obtain w0 w1 where t: "held w0 = held w" "?f w0 = (Inr u, w1)" "held w' = held w1" by blast
      then obtain x w2 where i: "InsertArchiveMessage (maTx E) m w0 = (Inr x, w2)"
        "DeleteArchiveOldestMessages (maTx E) a (maQueueSize E) w2 = (Inr u, w1)"
        by (auto simp: go_run split: prod.splits sum.splits)
      from trim_tx [OF i(2) queue_size] insert_tx [OF i(1)] m t w show ?thesis by (auto simp: within_def)
    qed
    with run show "within (snd (maInTransaction E ?f w))" by simp
  qed
  then show ?thesis by (auto simp: mamArchiveMessage_def Let_def intro!: keeps_intro)
qed

lemma within_ctx: "keeps within m \<Longrightarrow> keeps (\<lambda>cw. within (snd cw)) (in_ctx m)"
  by (auto simp: keeps_def in_ctx_def split: prod.split)

lemma within_set: "keeps (\<lambda>cw. within (snd cw)) (set_ctx f)"
  by (auto simp: keeps_def set_ctx_def modify_def)

lemma step_within: "keeps within (mam_step E ev)"
proof (cases ev)
  case (MamIQ iq)
  then show ?thesis by (simp add: within_query)
next
  case (MamReceived msg)
  then show ?thesis
    by (auto simp: mamOnMessageReceived_def addRecipientStanzaID_def Let_def intro!: keeps_intro)
next
  case (MamRouted msg)
  have "keeps (\<lambda>cw. within (snd cw)) (handleRoutedMessage E msg)"
    by (auto simp: handleRoutedMessage_def archive_sent_def archive_received_def Let_def
        intro!: keeps_intro within_ctx within_set store_within)
  then show ?thesis using MamRouted by (auto simp: keeps_def split: prod.split) (metis snd_conv)
next
  case (MamUserDeleted u)
  show ?thesis
  proof (rule keepsI)
    fix w assume "within w"
    moreover obtain r w' where "DeleteArchive (maRep E) u w = (r, w')" by fastforce
    ultimately show "within (snd (mam_step E ev w))"
      using drop_archive [of u w r w'] MamUserDeleted by (auto simp: mamOnUserDeleted_def within_def)
  qed
qed

lemma run_within: "within w \<Longrightarrow> within (snd (run_all (mam_step E) evs w))"
  by (induction evs arbitrary: w) (auto simp: keepsD [OF step_within] split: prod.split, metis keepsD step_within snd_conv)

end

section \<open>On the embedded back end\<close>

definition bolt_mam_env ::
  "'d bolt \<Rightarrow> archive_message bcodec \<Rightarrow> 'r mam_outside \<Rightarrow> ('d, 'r) db_world mam_env" where
  "bolt_mam_env B C G = \<lparr>maLib = maLib G, maQueueSize = maQueueSize G, maIsLocalHost = maIsLocalHost G,
     maRoute = (\<lambda>el. on_rest (maRoute G el)), maLocalStream = (\<lambda>u r. on_rest (maLocalStream G u r)),
     maSetInfoValue = (\<lambda>s k v. on_rest (maSetInfoValue G s k v)), maRunHook = (\<lambda>h i. on_rest (maRunHook G h i)),
     maNewUUID = on_rest (maNewUUID G), maNow = on_rest (maNow G), maFormatTime = maFormatTime G,
     maParseTime = maParseTime G, maRep = boltArchiveRep B C (maLib G) (maFormatTime G),
     maTx = boltTxArchiveRep B C (maLib G) (maFormatTime G), maInTransaction = InTransaction B\<rparr>"

definition archive_size :: "('d \<Rightarrow> buckets) \<Rightarrow> ('d, 'r) db_world \<Rightarrow> string \<Rightarrow> nat" where
  "archive_size view w a = card (archive_keys (view (dbState w)) a)"

context bolt_store
begin

lemma bolt_transaction_fail: "InTransaction B f w = (Inl e, w') \<Longrightarrow> dbState w' = dbState w"
  by (auto simp: InTransaction_def split: prod.splits sum.splits)

lemma drop_keys:
  assumes "bDeleteArchive B a d = (Inr u, d')"
  shows "view d' = (view d)(archiveBucket a := None)"
  using assms delete_missing [of d "archiveBucket a"] delete_bucket [of d "archiveBucket a" _ u d']
  by (cases "view d (archiveBucket a)") (auto simp: bDeleteArchive_def delBucketOp_def)

lemma mam_on_bolt:
  assumes "0 \<le> maQueueSize G"
  shows "mam_module (bolt_mam_env B C G) (archive_size view)"
proof
  let ?E = "bolt_mam_env B C G"
  note sel = bolt_mam_env_def boltArchiveRep_def boltTxArchiveRep_def
  show "0 \<le> maQueueSize ?E" using assms by (simp add: bolt_mam_env_def)
  show "archive_size view w' a = archive_size view w a"
    if "InsertArchiveMessage (maTx ?E) m w = (Inr u, w')" "a \<noteq> amArchiveId m" for m w u w' a
  proof -
    from that(1) obtain d' where "bInsertArchiveMessage B C m (dbState w) = (Inr (), d')" "dbState w' = d'"
      by (auto simp: sel on_db_def split: prod.splits)
    with insert_keys that(2) show ?thesis by (auto simp: archive_size_def archive_keys_def bucket_of_def)
  qed
  show "archive_size view w' = (archive_size view w)(a := min (archive_size view w a) (nat n))"
    if "DeleteArchiveOldestMessages (maTx ?E) a n w = (Inr u, w')" "0 \<le> n" for a n w u w'
  proof -
    from that(1) obtain d' where "bDeleteArchiveOldestMessages B a n (dbState w) = (Inr (), d')" "dbState w' = d'"
      by (auto simp: sel on_db_def split: prod.splits)
    with trim_keys [OF _ that(2)] show ?thesis by (auto simp: fun_eq_iff archive_size_def archive_keys_def bucket_of_def)
  qed
  show "\<exists>w0 w1. archive_size view w0 = archive_size view w \<and> f w0 = (Inr u, w1) \<and> archive_size view w' = archive_size view w1"
    if "maInTransaction ?E f w = (Inr u, w')" for f w u w'
  proof -
    from that have "InTransaction B f w = (Inr u, w')" by (simp add: bolt_mam_env_def)
    from InTransactionD [OF this] show ?thesis unfolding archive_size_def [abs_def] by metis
  qed
  show "archive_size view w' = archive_size view w" if "maInTransaction ?E f w = (Inl e, w')" for f w e w'
    using that bolt_transaction_fail [of f w e w'] by (simp add: bolt_mam_env_def archive_size_def fun_eq_iff)
  show "archive_size view w' = archive_size view w \<or> archive_size view w' = (archive_size view w)(a := 0)"
    if "DeleteArchive (maRep ?E) a w = (r, w')" for a w r w'
  proof -
    from that have "db_Update B (bDeleteArchive B a) w = (r, w')" by (simp add: sel)
    then show ?thesis
    proof (cases rule: Update_cases)
      case (2 x d d')
      with drop_keys [OF 2(4)] show ?thesis
        by (auto simp: fun_eq_iff archive_size_def archive_keys_def bucket_of_def)
    qed (simp add: archive_size_def fun_eq_iff)
  qed
qed (simp_all add: bolt_mam_env_def boltArchiveRep_def on_rest_keeps [where P = "\<lambda>d. (\<lambda>a. card (archive_keys (view d) a)) = _"]
      archive_size_def [abs_def], auto simp: keeps_def db_View_def split: prod.split sum.split)

end

text \<open>
  C28. The archives are bounded: whatever requests, messages and user deletions the module handles, and
  whatever they return, an archive never holds more than the configured number of messages.
\<close>

theorem archives_bounded:
  assumes "bolt_store B view seqno" and "0 \<le> maQueueSize G"
    and "\<And>a. int (archive_size view w a) \<le> maQueueSize G"
    and "run_all (mam_step (bolt_mam_env B C G)) events w = (results, w')"
  shows "int (archive_size view w' a) \<le> maQueueSize G"
proof -
  from assms(1,2) have m: "mam_module (bolt_mam_env B C G) (archive_size view)" by (rule bolt_store.mam_on_bolt)
  have q: "maQueueSize (bolt_mam_env B C G) = maQueueSize G" by (simp add: bolt_mam_env_def)
  have "mam_module.within (bolt_mam_env B C G) (archive_size view) w"
    using assms(2,3) by (simp add: mam_module.within_def [OF m] q nat_le_iff le_nat_iff)
  from mam_module.run_within [OF m this, of events] assms(2,4) show ?thesis
    by (simp add: mam_module.within_def [OF m] q le_nat_iff)
qed

section \<open>An example\<close>

text \<open>The rest of the server is a counter that gives the identifiers; a message is stored by its
  identifier.\<close>

definition mam_rest :: "nat mam_outside" where
  "mam_rest = \<lparr>maLib = std_lib, maQueueSize = 8, maIsLocalHost = (\<lambda>d. d = ''x''), maRoute = (\<lambda>el. ret []),
     maLocalStream = (\<lambda>u r. ret 1), maSetInfoValue = (\<lambda>s k v. ret ()), maRunHook = (\<lambda>h i. ret ()),
     maNewUUID = (\<lambda>n. (Inr (itoa_nat (Suc n)), Suc n)), maNow = (\<lambda>n. (Inr (int n), n)),
     maFormatTime = itoa, maParseTime = (\<lambda>s. Inl ErrPanic)\<rparr>"

definition id_codec :: "archive_message bcodec" where
  "id_codec = \<lparr>MarshalBinary = (\<lambda>m. Inr (amId m)),
     UnmarshalBinary = (\<lambda>s. Inr \<lparr>amArchiveId = [], amId = s, amFromJid = [], amToJid = [], amMessage = text_elem [] [], amStamp = 0\<rparr>)\<rparr>"

definition mam_demo :: "(mem_db, nat) db_world mam_env" where
  "mam_demo = bolt_mam_env mem_bolt id_codec mam_rest"

definition mam_start :: "(mem_db, nat) db_world" where
  "mam_start = \<lparr>dbState = Map.empty, dbRest = 0\<rparr>"

definition chat_message :: element where
  "chat_message = Element ''message'' [(''from'', ''ana@x/a''), (''to'', ''bob@y''), (''type'', ''chat'')] [] [text_elem ''body'' ''hi'']"

definition sent_messages :: "nat \<Rightarrow> (mem_db, nat) db_world" where
  "sent_messages n = snd (run_all (mam_step mam_demo) (replicate n (MamRouted chat_message)) mam_start)"

interpretation demo_mam: mam_module mam_demo "archive_size mem_view"
  unfolding mam_demo_def by (rule mem.mam_on_bolt) (simp add: mam_rest_def)

theorem archives_bounded_witness:
  "int (archive_size mem_view (sent_messages 10) ''ana'') \<le> 8"
proof -
  obtain results where run: "run_all (mam_step (bolt_mam_env mem_bolt id_codec mam_rest)) (replicate 10 (MamRouted chat_message)) mam_start =
      (results, sent_messages 10)" unfolding sent_messages_def mam_demo_def by (metis prod.collapse)
  have start: "int (archive_size mem_view mam_start b) \<le> maQueueSize mam_rest" for b
    by (simp add: archive_size_def mam_start_def archive_keys_def bucket_of_def mem_view_def mam_rest_def)
  have "0 \<le> maQueueSize mam_rest" by (simp add: mam_rest_def)
  from archives_bounded [OF mem.bolt_store_axioms this start run] show ?thesis by (simp add: mam_rest_def)
qed

text \<open>
  The keys of an archive are decimal numbers that the database orders as strings, so the messages
  that are purged are not the oldest: with room for eight messages, the tenth message that is sent is
  purged as soon as it is stored, and the archive keeps the second to the ninth.
\<close>

theorem archive_drops_new:
  "map_sum id (map amId) (fst (FetchArchiveMessages (maRep mam_demo) no_filters ''ana'' (sent_messages 10))) =
     Inr [''2'', ''3'', ''4'', ''5'', ''6'', ''7'', ''8'', ''9'']"
  by code_simp

end
