(* ===== verification/Carbons.thy ===== *)
theory Carbons
  imports Mam
begin

text \<open>
  Message carbons (\<^verbatim>\<open>src/pkg/module/xep0280/carbons.go\<close>, XEP-0280): the other resources of sender and
  recipient that asked for it receive copies of a message. The collaborators are the record
  \<open>carbons_env\<close>; \<open>carbons_world\<close> is a resource manager that answers and a router that records what it
  is given. The lemmas give the exact copies of a message, and what becomes of private messages.
\<close>

section \<open>Environment\<close>

record 'w carbons_env =
  cbLib :: xlib
  cbWithoutChildrenNamespace :: "element \<Rightarrow> string \<Rightarrow> string \<Rightarrow> element" \<comment> \<open>of the element builder\<close>
  cbIsLocalHost :: "string \<Rightarrow> bool"
  cbRoute :: "element \<Rightarrow> ('w, jid list) go"
  cbLocalStream :: "string \<Rightarrow> string \<Rightarrow> ('w, nat) go"
  cbSetInfoValue :: "nat \<Rightarrow> string \<Rightarrow> info_val \<Rightarrow> ('w, unit) go"
  cbGetResources :: "string \<Rightarrow> ('w, resource_desc list) go"

definition carbonsEnabledCtxKey :: string where "carbonsEnabledCtxKey = ''carbons:enabled''"
definition carbonsNamespace :: string where "carbonsNamespace = ''urn:xmpp:carbons:2''"
definition deliveryReceiptsNamespace :: string where "deliveryReceiptsNamespace = ''urn:xmpp:receipts''"
definition chatStatesNamespace :: string where "chatStatesNamespace = ''http://jabber.org/protocol/chatstates''"
definition cbHintsNamespace :: string where "cbHintsNamespace = ''urn:xmpp:hints''"

definition cbMatchesNamespace :: "string \<Rightarrow> bool \<Rightarrow> bool" where
  "cbMatchesNamespace namespace serverTarget \<longleftrightarrow> \<not> serverTarget \<and> namespace = carbonsNamespace"

definition cbRouteIgnore :: "'w carbons_env \<Rightarrow> element \<Rightarrow> ('w, unit) go" where
  "cbRouteIgnore E el = ignore (cbRoute E el)"

section \<open>Which messages are copied\<close>

definition isEligibleMessage :: "xlib \<Rightarrow> element \<Rightarrow> bool" where
  "isEligibleMessage X msg \<longleftrightarrow>
     Attribute X msg ''type'' = ''chat'' \<or>
     (Attribute X msg ''type'' = ''normal'' \<and> IsMessageWithBody X msg) \<or>
     list_ex (\<lambda>ch. Attribute X ch ''xmlns'' = deliveryReceiptsNamespace \<or> Attribute X ch ''xmlns'' = chatStatesNamespace)
       (AllChildren msg)"

definition stripMessagePrivate :: "'w carbons_env \<Rightarrow> element \<Rightarrow> element" where
  "stripMessagePrivate E msg =
     (if ChildNamespace (cbLib E) msg ''private'' carbonsNamespace = None then msg
      else cbWithoutChildrenNamespace E msg ''private'' carbonsNamespace)"

definition isPrivateMessage :: "xlib \<Rightarrow> element \<Rightarrow> bool" where
  "isPrivateMessage X msg \<longleftrightarrow>
     ChildNamespace X msg ''private'' carbonsNamespace \<noteq> None \<and> ChildNamespace X msg ''no-copy'' cbHintsNamespace \<noteq> None"

definition isCCMessage :: "xlib \<Rightarrow> element \<Rightarrow> bool" where
  "isCCMessage X msg \<longleftrightarrow>
     ChildNamespace X msg ''sent'' carbonsNamespace \<noteq> None \<or> ChildNamespace X msg ''received'' carbonsNamespace \<noteq> None"

section \<open>Copies\<close>

definition msg_cc :: "xlib \<Rightarrow> string \<Rightarrow> string \<Rightarrow> element \<Rightarrow> jid \<Rightarrow> element" where
  "msg_cc X direction archiveID originalMsg dest =
     (let msg = (if length archiveID > 0
                 then MakeStanzaIDMessage originalMsg archiveID (JIDString X (ToBareJID X dest)) else originalMsg)
      in Element ''message''
           [(''from'', JIDString X (ToBareJID X dest)), (''to'', JIDString X dest), (''type'', Attribute X msg ''type'')] []
           [Element direction [(''xmlns'', carbonsNamespace)] [] [MakeForwardedStanza X msg None]])"

definition sentMsgCC :: "xlib \<Rightarrow> mam_ctx \<Rightarrow> element \<Rightarrow> jid \<Rightarrow> element" where
  "sentMsgCC X cx originalMsg dest = msg_cc X ''sent'' (ExtractSentArchiveID cx) originalMsg dest"

definition receivedMsgCC :: "xlib \<Rightarrow> mam_ctx \<Rightarrow> element \<Rightarrow> jid \<Rightarrow> element" where
  "receivedMsgCC X cx originalMsg dest = msg_cc X ''received'' (ExtractReceivedArchiveID cx) originalMsg dest"

definition cbFilteredResources :: "'w carbons_env \<Rightarrow> string \<Rightarrow> jid list \<Rightarrow> ('w, resource_desc list) go" where
  "cbFilteredResources E username ignoringJIDs =
     andthen (cbGetResources E username) (\<lambda>rs.
       ret (filter (\<lambda>res. JIDString (cbLib E) (rJID res) \<notin> JIDString (cbLib E) ` set ignoringJIDs) rs))"

definition route_copies :: "'w carbons_env \<Rightarrow> (jid \<Rightarrow> element) \<Rightarrow> resource_desc list \<Rightarrow> ('w, unit) go" where
  "route_copies E copy rss =
     for_each rss (\<lambda>res.
       if \<not> infoBool (rInfo res) carbonsEnabledCtxKey then ret () else cbRouteIgnore E (copy (rJID res)))"

definition routeSentCC :: "'w carbons_env \<Rightarrow> mam_ctx \<Rightarrow> element \<Rightarrow> string \<Rightarrow> ('w, unit) go" where
  "routeSentCC E cx msg username =
     andthen (cbFilteredResources E username [FromJID (cbLib E) msg]) (route_copies E (sentMsgCC (cbLib E) cx msg))"

definition routeReceivedCC :: "'w carbons_env \<Rightarrow> mam_ctx \<Rightarrow> element \<Rightarrow> string \<Rightarrow> jid list \<Rightarrow> ('w, unit) go" where
  "routeReceivedCC E cx msg username ignoringTargets =
     andthen (cbFilteredResources E username ignoringTargets) (route_copies E (receivedMsgCC (cbLib E) cx msg))"

definition cbProcessMessage :: "'w carbons_env \<Rightarrow> mam_ctx \<Rightarrow> element \<Rightarrow> jid list \<Rightarrow> ('w, unit) go" where
  "cbProcessMessage E cx msg ignoringTargets =
     (let X = cbLib E; fromJID = FromJID X msg; toJID = ToJID X msg
      in if \<not> isEligibleMessage X msg \<or> isPrivateMessage X msg \<or> isCCMessage X msg then ret ()
         else andthen (if IsFullWithUser X fromJID \<and> cbIsLocalHost E (Domain fromJID)
                       then routeSentCC E cx msg (Node fromJID) else ret ()) (\<lambda>_.
              if \<not> IsServer X toJID \<and> cbIsLocalHost E (Domain toJID)
              then routeReceivedCC E cx msg (Node toJID) ignoringTargets else ret ()))"

section \<open>Handlers\<close>

text \<open>Before an element is routed, the hook gives it its new value; after, copies are sent. The
  handlers for client streams and for streams of other servers are the same.\<close>

definition onElementWillRoute :: "'w carbons_env \<Rightarrow> element \<Rightarrow> element" where
  "onElementWillRoute E el = (if StanzaKind (cbLib E) el \<noteq> MessageKind then el else stripMessagePrivate E el)"

definition cbOnMessageRouted :: "'w carbons_env \<Rightarrow> mam_ctx \<Rightarrow> element \<Rightarrow> jid list \<Rightarrow> ('w, unit) go" where
  "cbOnMessageRouted E cx el targets =
     (if StanzaKind (cbLib E) el \<noteq> MessageKind then ret () else cbProcessMessage E cx el targets)"

definition setCarbonsEnabled :: "'w carbons_env \<Rightarrow> string \<Rightarrow> string \<Rightarrow> bool \<Rightarrow> ('w, unit) go" where
  "setCarbonsEnabled E username resource enabled =
     andthen (cbLocalStream E username resource) (\<lambda>stm. cbSetInfoValue E stm carbonsEnabledCtxKey (BoolVal enabled))"

definition cb_processIQ :: "'w carbons_env \<Rightarrow> element \<Rightarrow> ('w, unit) go" where
  "cb_processIQ E iq =
     (let X = cbLib E; fromJID = FromJID X iq;
          switch = (\<lambda>on. andthen (setCarbonsEnabled E (Node fromJID) (Resource fromJID) on) (\<lambda>_.
                           cbRouteIgnore E (MakeResultIQ X iq None)))
      in if \<not> cbIsLocalHost E (Domain fromJID) then cbRouteIgnore E (MakeErrorStanza X iq ''not-allowed'')
         else if ChildNamespace X iq ''enable'' carbonsNamespace \<noteq> None then switch True
         else if ChildNamespace X iq ''disable'' carbonsNamespace \<noteq> None then switch False
         else cbRouteIgnore E (MakeErrorStanza X iq ''bad-request''))"

definition cbProcessIQ :: "'w carbons_env \<Rightarrow> element \<Rightarrow> ('w, unit) go" where
  "cbProcessIQ E iq =
     (if IsSet (cbLib E) iq then cb_processIQ E iq
      else cbRouteIgnore E (MakeErrorStanza (cbLib E) iq ''bad-request''))"

section \<open>The copies of a message\<close>

text \<open>Which messages are copied, what a copy is and who receives one. Nothing of the module's functions
  is used: names are written out.\<close>

definition carbon_worthy :: "xlib \<Rightarrow> element \<Rightarrow> bool" where
  "carbon_worthy X msg \<longleftrightarrow>
     (Attribute X msg ''type'' = ''chat'' \<or> Attribute X msg ''type'' = ''normal'' \<and> IsMessageWithBody X msg \<or>
      (\<exists>ch \<in> set (AllChildren msg). Attribute X ch ''xmlns'' \<in> {''urn:xmpp:receipts'', ''http://jabber.org/protocol/chatstates''})) \<and>
     (ChildNamespace X msg ''private'' ''urn:xmpp:carbons:2'' = None \<or> ChildNamespace X msg ''no-copy'' ''urn:xmpp:hints'' = None) \<and>
     ChildNamespace X msg ''sent'' ''urn:xmpp:carbons:2'' = None \<and> ChildNamespace X msg ''received'' ''urn:xmpp:carbons:2'' = None"

definition carbon :: "xlib \<Rightarrow> string \<Rightarrow> string \<Rightarrow> element \<Rightarrow> jid \<Rightarrow> element" where
  "carbon X direction archiveID msg dest =
     (let bare = JIDString X (ToBareJID X dest);
          m = (if archiveID = [] then msg else MakeStanzaIDMessage msg archiveID bare)
      in Element ''message'' [(''from'', bare), (''to'', JIDString X dest), (''type'', Attribute X m ''type'')] []
           [Element direction [(''xmlns'', ''urn:xmpp:carbons:2'')] [] [MakeForwardedStanza X m None]])"

definition carbon_list :: "xlib \<Rightarrow> (jid \<Rightarrow> element) \<Rightarrow> resource_desc list \<Rightarrow> jid list \<Rightarrow> element list" where
  "carbon_list X copy rss without =
     [copy (rJID r). r \<leftarrow> rss, infoBool (rInfo r) ''carbons:enabled'' \<and> (\<forall>j \<in> set without. JIDString X (rJID r) \<noteq> JIDString X j)]"

definition all_carbons :: "'w carbons_env \<Rightarrow> (string \<Rightarrow> resource_desc list) \<Rightarrow> mam_ctx \<Rightarrow> element \<Rightarrow> jid list \<Rightarrow> element list" where
  "all_carbons E resources cx msg targets =
     (let X = cbLib E; sender = FromJID X msg; recipient = ToJID X msg
      in (if IsFullWithUser X sender \<and> cbIsLocalHost E (Domain sender)
          then carbon_list X (carbon X ''sent'' (ExtractSentArchiveID cx) msg) (resources (Node sender)) [sender] else []) @
         (if \<not> IsServer X recipient \<and> cbIsLocalHost E (Domain recipient)
          then carbon_list X (carbon X ''received'' (ExtractReceivedArchiveID cx) msg) (resources (Node recipient)) targets else []))"

lemma worthy_code: "carbon_worthy X msg \<longleftrightarrow> isEligibleMessage X msg \<and> \<not> isPrivateMessage X msg \<and> \<not> isCCMessage X msg"
  by (auto simp: carbon_worthy_def isEligibleMessage_def isPrivateMessage_def isCCMessage_def list_ex_iff
      deliveryReceiptsNamespace_def chatStatesNamespace_def carbonsNamespace_def cbHintsNamespace_def)

lemma carbon_code:
  "sentMsgCC X cx msg = carbon X ''sent'' (ExtractSentArchiveID cx) msg"
  "receivedMsgCC X cx msg = carbon X ''received'' (ExtractReceivedArchiveID cx) msg"
  by (simp_all add: fun_eq_iff sentMsgCC_def receivedMsgCC_def msg_cc_def carbon_def Let_def carbonsNamespace_def)

locale carbons_world =
  fixes E :: "'w carbons_env" and resources :: "string \<Rightarrow> resource_desc list" and log :: "'w \<Rightarrow> element list"
  assumes get_resources: "cbGetResources E u w = (Inr (resources u), w)"
    and route: "log (snd (cbRoute E el w)) = log w @ [el]"
    and strip: "ChildNamespace (cbLib E) (cbWithoutChildrenNamespace E el n ns) n ns = None"
begin

lemma route_copies_run:
  "fst (route_copies E copy rss w) = Inr () \<and>
   log (snd (route_copies E copy rss w)) = log w @ [copy (rJID r). r \<leftarrow> rss, infoBool (rInfo r) carbonsEnabledCtxKey]"
proof (induction rss arbitrary: w)
  case (Cons r rss)
  then show ?case by (simp add: route_copies_def cbRouteIgnore_def go_run route)
qed (simp add: route_copies_def go_run)

lemma filtered_run:
  "cbFilteredResources E u js w =
     (Inr (filter (\<lambda>r. JIDString (cbLib E) (rJID r) \<notin> JIDString (cbLib E) ` set js) (resources u)), w)"
  by (simp add: cbFilteredResources_def go_run get_resources)

lemma copies_run:
  "log w @ [copy (rJID r). r \<leftarrow> filter (\<lambda>r. JIDString (cbLib E) (rJID r) \<notin> JIDString (cbLib E) ` set js) rss,
     infoBool (rInfo r) carbonsEnabledCtxKey] = log w @ carbon_list (cbLib E) copy rss js"
  by (induction rss) (auto simp: carbon_list_def carbonsEnabledCtxKey_def)

lemma sent_run: "fst (routeSentCC E cx msg u w) = Inr () \<and>
    log (snd (routeSentCC E cx msg u w)) = log w @ carbon_list (cbLib E) (sentMsgCC (cbLib E) cx msg) (resources u) [FromJID (cbLib E) msg]"
  using copies_run [of w "sentMsgCC (cbLib E) cx msg" "[FromJID (cbLib E) msg]"]
  by (simp add: routeSentCC_def go_run filtered_run route_copies_run)

lemma received_run: "fst (routeReceivedCC E cx msg u js w) = Inr () \<and>
    log (snd (routeReceivedCC E cx msg u js w)) = log w @ carbon_list (cbLib E) (receivedMsgCC (cbLib E) cx msg) (resources u) js"
  using copies_run [of w "receivedMsgCC (cbLib E) cx msg" js]
  by (simp add: routeReceivedCC_def go_run filtered_run route_copies_run)

lemma process_run:
  assumes "cbProcessMessage E cx msg targets w = (r, w')"
  shows "r = Inr () \<and> log w' = log w @ (if carbon_worthy (cbLib E) msg then all_carbons E resources cx msg targets else [])"
proof -
  obtain r1 w1 where s: "routeSentCC E cx msg (Node (FromJID (cbLib E) msg)) w = (r1, w1)" by fastforce
  with sent_run [of cx msg _ w] have s': "r1 = Inr ()" "log w1 = log w @ carbon_list (cbLib E) (sentMsgCC (cbLib E) cx msg)
      (resources (Node (FromJID (cbLib E) msg))) [FromJID (cbLib E) msg]" by (metis fst_conv, metis snd_conv)
  have rcv: "routeReceivedCC E cx msg u js v = (r2, v') \<Longrightarrow> r2 = Inr () \<and>
      log v' = log v @ carbon_list (cbLib E) (receivedMsgCC (cbLib E) cx msg) (resources u) js" for u js v r2 v'
    using received_run [of cx msg u js v] by simp
  show ?thesis
    using assms s s' rcv
    by (auto simp: cbProcessMessage_def all_carbons_def worthy_code carbon_code [symmetric] Let_def go_run split: if_splits)
qed

lemma strip_public: "\<not> isPrivateMessage (cbLib E) (stripMessagePrivate E msg)"
  by (simp add: isPrivateMessage_def stripMessagePrivate_def strip)

end

section \<open>Properties\<close>

text \<open>
  C29. After a message was routed, the router receives exactly these copies. When the sender is a resource
  of a local account, a copy marked as sent for each resource of that account that asked for copies,
  except the sending one (also for one that the message itself is addressed to); then, when the
  recipient is a local account, a copy marked as received for each resource of it that asked
  for copies, except those the message was delivered to. This happens to messages of type chat, to
  those of type normal with a body, and to those with a receipt or a chat state, unless they are
  copies themselves or still carry both the private and the no-copy mark; others are not copied. (The private mark
  of a message that passed the server's own handler is gone by then: \<open>private_messages_copied\<close>
  below.) The resource manager is assumed to answer, with the same resources throughout.
\<close>

theorem carbons_recipients:
  assumes "carbons_world E resources log" and "X = cbLib E" and "StanzaKind X msg = MessageKind"
    and "cbOnMessageRouted E cx msg targets w = (r, w')"
  shows "r = Inr () \<and> log w' = log w @ (if carbon_worthy X msg then
      (if IsFullWithUser X (FromJID X msg) \<and> cbIsLocalHost E (Domain (FromJID X msg))
       then carbon_list X (carbon X ''sent'' (ExtractSentArchiveID cx) msg) (resources (Node (FromJID X msg))) [FromJID X msg] else []) @
      (if \<not> IsServer X (ToJID X msg) \<and> cbIsLocalHost E (Domain (ToJID X msg))
       then carbon_list X (carbon X ''received'' (ExtractReceivedArchiveID cx) msg) (resources (Node (ToJID X msg))) targets else [])
    else [])"
  using carbons_world.process_run [OF assms(1), of cx msg targets w r w'] assms(2-4)
  by (simp add: cbOnMessageRouted_def all_carbons_def Let_def)

text \<open>
  Private messages are copied like all others: the mark is removed before the message is routed, and
  it is looked for after the message was routed.
\<close>

theorem private_messages_copied:
  assumes "carbons_world E resources log"
    and "stripped = onElementWillRoute E msg" and "StanzaKind (cbLib E) stripped = MessageKind" and "StanzaKind (cbLib E) msg = MessageKind"
    and "isEligibleMessage (cbLib E) stripped" and "\<not> isCCMessage (cbLib E) stripped"
    and "cbOnMessageRouted E cx stripped targets w = (r, w')"
  shows "log w' = log w @ all_carbons E resources cx stripped targets"
proof -
  have "\<not> isPrivateMessage (cbLib E) stripped"
    using carbons_world.strip_public [OF assms(1)] assms(2,4) by (simp add: onElementWillRoute_def)
  with carbons_world.process_run [OF assms(1), of cx stripped targets w r w'] assms show ?thesis
    by (simp add: cbOnMessageRouted_def worthy_code)
qed

section \<open>An example\<close>

definition cb_resource :: "string \<Rightarrow> bool \<Rightarrow> resource_desc" where
  "cb_resource res on = \<lparr>InstanceID = ''i'', rJID = \<lparr>Node = ''ana'', Domain = ''x'', Resource = res\<rparr>, rPresence = None,
     rInfo = SetBool carbonsEnabledCtxKey on Map.empty\<rparr>"

definition cb_resources :: "string \<Rightarrow> resource_desc list" where
  "cb_resources u = (if u = ''ana'' then [cb_resource ''a'' True, cb_resource ''b'' True, cb_resource ''c'' False] else [])"

definition cb_demo :: "element list carbons_env" where
  "cb_demo = \<lparr>cbLib = std_lib,
     cbWithoutChildrenNamespace = (\<lambda>e n ns. Element (Name e) (Attrs e) (Text e)
       (filter (\<lambda>c. \<not> (Name c = n \<and> std_attr c ''xmlns'' = ns)) (AllChildren e))),
     cbIsLocalHost = (\<lambda>d. d = ''x''), cbRoute = (\<lambda>el w. (Inr [], w @ [el])), cbLocalStream = (\<lambda>u r. ret 1),
     cbSetInfoValue = (\<lambda>s k v. ret ()), cbGetResources = (\<lambda>u. ret (cb_resources u))\<rparr>"

interpretation demo_carbons: carbons_world cb_demo cb_resources id
  by unfold_locales (simp_all add: cb_demo_def go_run std_lib_def find_first_None)

definition private_message :: element where
  "private_message = Element ''message'' [(''from'', ''ana@x/a''), (''to'', ''bob@y''), (''type'', ''chat'')] []
     [text_elem ''body'' ''hi'', Element ''private'' [(''xmlns'', ''urn:xmpp:carbons:2'')] [] [],
      Element ''no-copy'' [(''xmlns'', ''urn:xmpp:hints'')] [] []]"

definition cb_after :: "element \<Rightarrow> element list" where
  "cb_after msg = snd (cbOnMessageRouted cb_demo no_mam_ctx msg [] [])"

text \<open>The sending resource a receives no copy, b asked for copies, c did not.\<close>

theorem carbons_recipients_witness:
  "cb_after chat_message = [carbon std_lib ''sent'' [] chat_message \<lparr>Node = ''ana'', Domain = ''x'', Resource = ''b''\<rparr>] \<and>
   cb_after private_message = []"
proof -
  have X: "std_lib = cbLib cb_demo" by (simp add: cb_demo_def)
  have kind: "StanzaKind std_lib chat_message = MessageKind" "StanzaKind std_lib private_message = MessageKind" by code_simp+
  note cr = carbons_recipients [OF demo_carbons.carbons_world_axioms X _ prod.collapse [symmetric]]
  have c: "carbon_worthy std_lib chat_message" "\<not> carbon_worthy std_lib private_message"
    "IsFullWithUser std_lib (FromJID std_lib chat_message) \<and> cbIsLocalHost cb_demo (Domain (FromJID std_lib chat_message))"
    "\<not> cbIsLocalHost cb_demo (Domain (ToJID std_lib chat_message))"
    "carbon_list std_lib (carbon std_lib ''sent'' (ExtractSentArchiveID no_mam_ctx) chat_message) (cb_resources (Node (FromJID std_lib chat_message)))
      [FromJID std_lib chat_message] = [carbon std_lib ''sent'' [] chat_message \<lparr>Node = ''ana'', Domain = ''x'', Resource = ''b''\<rparr>]" by code_simp+
  show ?thesis using cr [OF kind(1), of no_mam_ctx "[]" "[]"] cr [OF kind(2), of no_mam_ctx "[]" "[]"] c by (simp add: cb_after_def)
qed

theorem private_messages_copied_witness:
  "isPrivateMessage std_lib private_message \<and>
   cb_after (onElementWillRoute cb_demo private_message) =
     [sentMsgCC std_lib no_mam_ctx (onElementWillRoute cb_demo private_message) \<lparr>Node = ''ana'', Domain = ''x'', Resource = ''b''\<rparr>]"
proof -
  let ?m = "onElementWillRoute cb_demo private_message"
  have h: "StanzaKind (cbLib cb_demo) ?m = MessageKind" "StanzaKind (cbLib cb_demo) private_message = MessageKind"
    "isEligibleMessage (cbLib cb_demo) ?m" "\<not> isCCMessage (cbLib cb_demo) ?m" "isPrivateMessage std_lib private_message" by code_simp+
  have c: "all_carbons cb_demo cb_resources no_mam_ctx ?m [] =
      [sentMsgCC std_lib no_mam_ctx ?m \<lparr>Node = ''ana'', Domain = ''x'', Resource = ''b''\<rparr>]" by code_simp
  show ?thesis
    using private_messages_copied [OF demo_carbons.carbons_world_axioms refl h(1,2,3,4) prod.collapse [symmetric], of no_mam_ctx "[]" "[]"] h(5)
    by (simp add: cb_after_def c)
qed

end
