(* ===== verification/Disco.thy ===== *)
theory Disco
  imports Components Forms Roster_Store
begin

text \<open>
  Service discovery (\<^verbatim>\<open>src/pkg/module/xep0030\<close>, XEP-0030): the providers of information about the server
  and about accounts, and the answers to requests. A provider is the record \<open>info_provider\<close>, the Go
  interface; the module holds one for the server and one for the accounts once the modules have
  started. What an answer says can be read back from it, and who gets an answer about an account.
\<close>

section \<open>Data\<close>

record identity =
  idCategory :: string
  idName :: string
  idType :: string
  idLang :: string

record disco_item =
  itJid :: string
  itName :: string
  itNode :: string

record 'w info_provider =
  Identities :: "jid \<Rightarrow> jid \<Rightarrow> string \<Rightarrow> ('w, identity list) go"
  Items :: "jid \<Rightarrow> jid \<Rightarrow> string \<Rightarrow> ('w, disco_item list) go"
  Features :: "jid \<Rightarrow> jid \<Rightarrow> string \<Rightarrow> ('w, string list) go"
  Forms :: "jid \<Rightarrow> jid \<Rightarrow> string \<Rightarrow> ('w, data_form list) go"

record 'w disco_env =
  diLib :: xlib
  diRoute :: "element \<Rightarrow> ('w, jid list) go"
  diAllComponents :: "('w, (string \<times> string) list) go" \<comment> \<open>hosts and names, in some order\<close>
  diFetchRosterItem :: "string \<Rightarrow> string \<Rightarrow> ('w, roster_item option) go"
  diGetResources :: "string \<Rightarrow> ('w, resource_desc list) go"
  diProvidersStarted :: "('w, unit) go" \<comment> \<open>the hook that runs when the providers are set\<close>

record 'w disco =
  dcSrvProv :: "'w info_provider option"
  dcAccProv :: "'w info_provider option"

definition discoInfoNamespace :: string where "discoInfoNamespace = ''http://jabber.org/protocol/disco#info''"
definition discoItemsNamespace :: string where "discoItemsNamespace = ''http://jabber.org/protocol/disco#items''"

text \<open>The code adds the addresses to the text of this error and recognizes it by \<^verbatim>\<open>errors.Is\<close>.\<close>

definition errSubscriptionRequired :: go_error where
  "errSubscriptionRequired = ErrText ''xep0030: subscription required''"

section \<open>Providers\<close>

fun all_features :: "('w server_module \<Rightarrow> ('w, string list) go) \<Rightarrow> 'w server_module list \<Rightarrow> ('w, string list) go" where
  "all_features f [] = ret []"
| "all_features f (m # ms) = andthen (f m) (\<lambda>fs. andthen (all_features f ms) (\<lambda>rest. ret (fs @ rest)))"

definition sorted_items :: "disco_item list \<Rightarrow> disco_item list" where
  "sorted_items = sort_slice (\<lambda>a b. itJid a < itJid b)"

definition newServerProvider :: "'w disco_env \<Rightarrow> 'w server_module list \<Rightarrow> 'w info_provider" where
  "newServerProvider E mods = \<lparr>
     Identities = (\<lambda>toJID fromJID node. ret [\<lparr>idCategory = ''server'', idName = ''jackal'', idType = ''im'', idLang = []\<rparr>]),
     Items = (\<lambda>toJID fromJID node. andthen (diAllComponents E) (\<lambda>comps.
       ret (sorted_items (map (\<lambda>(host, name). \<lparr>itJid = host, itName = name, itNode = []\<rparr>) comps)))),
     Features = (\<lambda>toJID fromJID node. andthen (all_features smServerFeatures mods) (\<lambda>fs. ret (sort_slice (<) fs))),
     Forms = (\<lambda>toJID fromJID node. ret [])\<rparr>"

definition diIsSubscribedTo :: "'w disco_env \<Rightarrow> jid \<Rightarrow> jid \<Rightarrow> ('w, bool) go" where
  "diIsSubscribedTo E contact userJID =
     (if MatchesBare (diLib E) contact userJID then ret True
      else andthen (diFetchRosterItem E (Node userJID) (JIDString (diLib E) (ToBareJID (diLib E) contact))) (\<lambda>ri.
        ret (case ri of None \<Rightarrow> False | Some ri \<Rightarrow> riSubscription ri = ''to'' \<or> riSubscription ri = ''both'')))"

definition checkIfSubscribedTo :: "'w disco_env \<Rightarrow> jid \<Rightarrow> jid \<Rightarrow> ('w, unit) go" where
  "checkIfSubscribedTo E toJID fromJID =
     andthen (diIsSubscribedTo E toJID fromJID) (\<lambda>isSubscribed.
       if \<not> isSubscribed then throw errSubscriptionRequired else ret ())"

definition newAccountProvider :: "'w disco_env \<Rightarrow> 'w server_module list \<Rightarrow> 'w info_provider" where
  "newAccountProvider E mods = \<lparr>
     Identities = (\<lambda>toJID fromJID node. ret [\<lparr>idCategory = ''account'', idName = [], idType = ''registered'', idLang = []\<rparr>]),
     Items = (\<lambda>toJID fromJID node. andthen (checkIfSubscribedTo E toJID fromJID) (\<lambda>_.
       andthen (diGetResources E (Node toJID)) (\<lambda>rss.
         ret (sorted_items (map (\<lambda>res. \<lparr>itJid = JIDString (diLib E) (rJID res), itName = Node (rJID res), itNode = []\<rparr>) rss))))),
     Features = (\<lambda>toJID fromJID node. andthen (checkIfSubscribedTo E toJID fromJID) (\<lambda>_.
       andthen (all_features smAccountFeatures mods) (\<lambda>fs. ret (sort_slice (<) fs)))),
     Forms = (\<lambda>toJID fromJID node. ret [])\<rparr>"

section \<open>Answers\<close>

definition diRouteIgnore :: "'w disco_env \<Rightarrow> element \<Rightarrow> ('w, unit) go" where
  "diRouteIgnore E el = ignore (diRoute E el)"

definition di_reply :: "'w disco_env \<Rightarrow> element \<Rightarrow> string \<Rightarrow> ('w, unit) go" where
  "di_reply E iq reason = diRouteIgnore E (MakeErrorStanza (diLib E) iq reason)"

definition identity_Element :: "identity \<Rightarrow> element" where
  "identity_Element i = Element ''identity''
     ((''category'', idCategory i) # opt_attr ''type'' (idType i) @ opt_attr ''name'' (idName i) @ opt_attr ''xml:lang'' (idLang i)) [] []"

definition feature_Element :: "string \<Rightarrow> element" where
  "feature_Element feature = Element ''feature'' [(''var'', feature)] [] []"

definition info_Element :: "identity list \<Rightarrow> string list \<Rightarrow> data_form list \<Rightarrow> element" where
  "info_Element identities features forms = Element ''query'' [(''xmlns'', discoInfoNamespace)] []
     (map identity_Element identities @ map feature_Element features @ map form_Element forms)"

definition item_Element :: "disco_item \<Rightarrow> element" where
  "item_Element i = Element ''item'' ((''jid'', itJid i) # opt_attr ''name'' (itName i) @ opt_attr ''node'' (itNode i)) [] []"

text \<open>A provider that refuses is answered as such; its other errors are reported and returned, and
  panics are neither.\<close>

definition provided :: "'w disco_env \<Rightarrow> element \<Rightarrow> ('w, 'a) go \<Rightarrow> ('a \<Rightarrow> ('w, unit) go) \<Rightarrow> ('w, unit) go" where
  "provided E iq m k =
     andthen (attempt m) (\<lambda>r.
       case r of
         Inr x \<Rightarrow> k x
       | Inl e \<Rightarrow>
           if e = ErrPanic then throw ErrPanic
           else if e = errSubscriptionRequired then di_reply E iq ''subscription-required''
           else andthen (di_reply E iq ''internal-server-error'') (\<lambda>_. throw e))"

definition sendDiscoInfo :: "'w disco_env \<Rightarrow> 'w info_provider \<Rightarrow> jid \<Rightarrow> jid \<Rightarrow> string \<Rightarrow> element \<Rightarrow> ('w, unit) go" where
  "sendDiscoInfo E prov toJID fromJID node iq =
     provided E iq (Features prov toJID fromJID node) (\<lambda>features.
       andthen (Identities prov toJID fromJID node) (\<lambda>identities.
       andthen (Disco.Forms prov toJID fromJID node) (\<lambda>forms.
         diRouteIgnore E (MakeResultIQ (diLib E) iq (Some (info_Element identities features forms))))))"

definition sendDiscoItems :: "'w disco_env \<Rightarrow> 'w info_provider \<Rightarrow> jid \<Rightarrow> jid \<Rightarrow> string \<Rightarrow> element \<Rightarrow> ('w, unit) go" where
  "sendDiscoItems E prov toJID fromJID node iq =
     provided E iq (Items prov toJID fromJID node) (\<lambda>items.
       diRouteIgnore E (MakeResultIQ (diLib E) iq (Some
         (Element ''query'' [(''xmlns'', discoItemsNamespace)] [] (map item_Element items)))))"

definition getDiscoInfo :: "'w disco_env \<Rightarrow> 'w disco \<Rightarrow> element \<Rightarrow> ('w, unit) go" where
  "getDiscoInfo E m iq =
     (let X = diLib E; toJID = ToJID X iq; fromJID = FromJID X iq
      in case Child X iq ''query'' of
           None \<Rightarrow> di_reply E iq ''bad-request''
         | Some q \<Rightarrow>
             (case (if IsServer X toJID then dcSrvProv m else dcAccProv m) of
                None \<Rightarrow> ret ()
              | Some prov \<Rightarrow>
                  (let node = Attribute X q ''node''; ns = Attribute X q ''xmlns''
                   in if ns = discoInfoNamespace then sendDiscoInfo E prov toJID fromJID node iq
                      else if ns = discoItemsNamespace then sendDiscoItems E prov toJID fromJID node iq
                      else di_reply E iq ''bad-request'')))"

definition discoMatchesNamespace :: "string \<Rightarrow> bool \<Rightarrow> bool" where
  "discoMatchesNamespace namespace serverTarget \<longleftrightarrow> namespace = discoInfoNamespace \<or> namespace = discoItemsNamespace"

definition discoProcessIQ :: "'w disco_env \<Rightarrow> 'w disco \<Rightarrow> element \<Rightarrow> ('w, unit) go" where
  "discoProcessIQ E m iq =
     (if IsGet (diLib E) iq then getDiscoInfo E m iq
      else if IsSet (diLib E) iq then di_reply E iq ''forbidden''
      else ret ())"

definition onModulesStarted :: "'w disco_env \<Rightarrow> 'w server_module list \<Rightarrow> ('w disco \<times> 'w, unit) go" where
  "onModulesStarted E mods = (\<lambda>(m, w).
     let m' = \<lparr>dcSrvProv = Some (newServerProvider E mods), dcAccProv = Some (newAccountProvider E mods)\<rparr>
     in case diProvidersStarted E w of (r, w') \<Rightarrow> (r, m', w'))"

section \<open>Reading an answer\<close>

definition read_identity :: "xlib \<Rightarrow> element \<Rightarrow> identity" where
  "read_identity X el = \<lparr>idCategory = Attribute X el ''category'', idName = Attribute X el ''name'',
     idType = Attribute X el ''type'', idLang = Attribute X el ''xml:lang''\<rparr>"

context element_lib
begin

lemma name_info [simp]: "Name (identity_Element i) = ''identity''" "Name (feature_Element f) = ''feature''" "Name (form_Element g) = ''x''"
  by (simp_all add: identity_Element_def feature_Element_def form_Element_def)

lemma identity_roundtrip: "read_identity X (identity_Element i) = i"
  by (cases i) (simp add: read_identity_def identity_Element_def attr opt_attr_def)

lemma info_children:
  "map (read_identity X) (Children X (info_Element ids fs forms) ''identity'') = ids"
  "map (\<lambda>el. Attribute X el ''var'') (Children X (info_Element ids fs forms) ''feature'') = fs"
  "Children X (info_Element ids fs forms) ''x'' = map form_Element forms"
  by (simp_all add: info_Element_def children filter_empty_conv filter_id_conv comp_def identity_roundtrip)
    (simp add: feature_Element_def attr)

end

section \<open>Who is answered\<close>

text \<open>An account is visible to itself, and to the owners of rosters that say that they are subscribed to it.\<close>

definition visible :: "(string \<Rightarrow> string \<rightharpoonup> roster_item) \<Rightarrow> jid \<Rightarrow> string \<Rightarrow> bool" where
  "visible roster account user \<longleftrightarrow>
     (\<exists>ri. roster user (Node account @ ''@'' @ Domain account) = Some ri \<and> riSubscription ri \<in> {''to'', ''both''})"

definition resource_items :: "(jid \<Rightarrow> string) \<Rightarrow> resource_desc list \<Rightarrow> disco_item list" where
  "resource_items jid_text rss = map (\<lambda>res. \<lparr>itJid = jid_text (rJID res), itName = Node (rJID res), itNode = []\<rparr>) rss"

text \<open>The rosters and resources that the provider reads; reading can fail, but not with the error of the
  provider itself, which is private to its package.\<close>

locale disco_world =
  fixes E :: "'w disco_env" and roster :: "'w \<Rightarrow> string \<Rightarrow> string \<rightharpoonup> roster_item"
    and resources :: "'w \<Rightarrow> string \<Rightarrow> resource_desc list" and log :: "'w \<Rightarrow> element list"
  assumes fetch: "diFetchRosterItem E u j w = (Inr ri, w') \<Longrightarrow> ri = roster w u j"
    and get: "diGetResources E u w = (Inr rss, w') \<Longrightarrow> rss = resources w u"
    and own_error: "fst (diFetchRosterItem E u j w) \<noteq> Inl errSubscriptionRequired" "fst (diGetResources E u w) \<noteq> Inl errSubscriptionRequired"
    and read: "resources (snd (diFetchRosterItem E u j w)) = resources w" "log (snd (diFetchRosterItem E u j w)) = log w"
      "log (snd (diGetResources E u w)) = log w"
    and route: "log (snd (diRoute E el w)) = log w @ [el]"
    and addresses: "MatchesBare (diLib E) a b \<longleftrightarrow> Node a = Node b \<and> Domain a = Domain b" "IsServer (diLib E) a \<longleftrightarrow> Node a = []"
      "Node a \<noteq> [] \<Longrightarrow> JIDString (diLib E) (ToBareJID (diLib E) a) = Node a @ ''@'' @ Domain a"
begin

abbreviation decided where
  "decided account user w \<equiv> Node account = Node user \<and> Domain account = Domain user \<or> visible (roster w) account (Node user)"

lemma check_cases [consumes 1]:
  assumes "Node account \<noteq> []"
  obtains (yes) w1 where "decided account user w" "checkIfSubscribedTo E account user w = (Inr (), w1)"
      "log w1 = log w" "resources w1 = resources w"
  | (no) w1 where "\<not> decided account user w" "checkIfSubscribedTo E account user w = (Inl errSubscriptionRequired, w1)" "log w1 = log w"
  | (failed) e w1 where "checkIfSubscribedTo E account user w = (Inl e, w1)" "e \<noteq> errSubscriptionRequired" "log w1 = log w"
proof (cases "Node account = Node user \<and> Domain account = Domain user")
  case True
  then show ?thesis by (intro yes [of w]) (simp_all add: checkIfSubscribedTo_def diIsSubscribedTo_def go_run addresses)
next
  case False
  let ?f = "diFetchRosterItem E (Node user) (Node account @ ''@'' @ Domain account) w"
  obtain res w1 where f: "?f = (res, w1)" by fastforce
  have kept: "log w1 = log w" "resources w1 = resources w" using read(1,2) [of "Node user"] f by (metis snd_conv)+
  show ?thesis
  proof (cases res)
    case (Inl e)
    with False f show ?thesis using own_error(1) [of "Node user" "Node account @ ''@'' @ Domain account" w] kept
      by (intro failed [of e w1]) (simp_all add: checkIfSubscribedTo_def diIsSubscribedTo_def go_run addresses assms)
  next
    case (Inr ri)
    with fetch f have ri: "ri = roster w (Node user) (Node account @ ''@'' @ Domain account)" by blast
    from False f Inr have run: "checkIfSubscribedTo E account user w = (if visible (roster w) account (Node user) then Inr () else Inl errSubscriptionRequired, w1)"
      by (auto simp: checkIfSubscribedTo_def diIsSubscribedTo_def go_run addresses assms visible_def ri split: option.split)
    with False kept show ?thesis by (cases "visible (roster w) account (Node user)") (use yes no in simp_all)
  qed
qed

lemma provided_ok:
  assumes "provided E iq m k w = (Inr (), w')" and "m w = (res, w1)"
  shows "(\<exists>x. res = Inr x \<and> k x w1 = (Inr (), w')) \<or>
    res = Inl errSubscriptionRequired \<and> di_reply E iq ''subscription-required'' w1 = (Inr (), w')"
  using assms by (auto simp: provided_def go_run di_reply_def diRouteIgnore_def split: sum.splits if_splits)

lemma reply_log: "log (snd (diRouteIgnore E el w)) = log w @ [el]"
  by (simp add: diRouteIgnore_def go_run route)

text \<open>The answer of the provider of accounts about resources, and its refusals.\<close>

lemma refused:
  assumes "\<not> decided account user w" and "Node account \<noteq> []" and "m = andthen (checkIfSubscribedTo E account user) k"
    and "provided E iq m k' w = (Inr (), w')"
  shows "log w' = log w @ [MakeErrorStanza (diLib E) iq ''subscription-required'']"
using assms(2)
proof (cases rule: check_cases [where user = user and w = w])
  case (no w1)
  with assms(3) have "m w = (Inl errSubscriptionRequired, w1)" by (simp add: go_run)
  from provided_ok [OF assms(4) this] no(3) reply_log show ?thesis by (metis Inl_Inr_False di_reply_def snd_conv)
next
  case (failed e w1)
  with assms(3) have "m w = (Inl e, w1)" by (simp add: go_run)
  from provided_ok [OF assms(4) this] failed(2) show ?thesis by simp
qed (use assms(1) in simp)

lemma listed:
  assumes "decided account user w" and "Node account \<noteq> []"
    and "sendDiscoItems E (newAccountProvider E mods) account user node iq w = (Inr (), w')"
  shows "\<exists>its. mset its = mset (resource_items (JIDString (diLib E)) (resources w (Node account))) \<and>
    log w' = log w @ [MakeResultIQ (diLib E) iq (Some (Element ''query'' [(''xmlns'', discoItemsNamespace)] [] (map item_Element its)))]"
using assms(2)
proof (cases rule: check_cases [where user = user and w = w])
  case (yes w1)
  obtain res w2 where g: "diGetResources E (Node account) w1 = (res, w2)" by fastforce
  with yes read(3) [of "Node account" w1] have kept: "log w2 = log w" by simp
  have items: "Items (newAccountProvider E mods) account user node w = (case res of Inl e \<Rightarrow> Inl e
      | Inr rss \<Rightarrow> Inr (sorted_items (resource_items (JIDString (diLib E)) rss)), w2)"
    using yes(2) g by (simp add: newAccountProvider_def go_run resource_items_def split: sum.split)
  from provided_ok [OF assms(3) [unfolded sendDiscoItems_def] items] g own_error(2) [of "Node account" w1]
  obtain rss where "res = Inr rss" and "diRouteIgnore E (MakeResultIQ (diLib E) iq (Some (Element ''query'' [(''xmlns'', discoItemsNamespace)] []
      (map item_Element (sorted_items (resource_items (JIDString (diLib E)) rss)))))) w2 = (Inr (), w')"
    by (auto split: sum.splits)
  moreover from this g get yes(4) have "rss = resources w (Node account)" by metis
  moreover have "mset (sorted_items its) = mset its" for its by (simp add: sorted_items_def)
  ultimately show ?thesis using reply_log kept by (metis snd_conv)
next
  case (failed e w1)
  then have "Items (newAccountProvider E mods) account user node w = (Inl e, w1)" by (simp add: newAccountProvider_def go_run)
  from provided_ok [OF assms(3) [unfolded sendDiscoItems_def] this] failed(2) show ?thesis by simp
qed (use assms(1) in simp)

lemma request_run:
  assumes "IsGet (diLib E) iq" and "Node (ToJID (diLib E) iq) \<noteq> []" and "Child (diLib E) iq ''query'' = Some q"
    and "Attribute (diLib E) q ''xmlns'' = ns" and "ns \<in> {discoInfoNamespace, discoItemsNamespace}"
  shows "discoProcessIQ E \<lparr>dcSrvProv = Some S, dcAccProv = Some A\<rparr> iq =
    (if ns = discoInfoNamespace then sendDiscoInfo else sendDiscoItems) E A (ToJID (diLib E) iq) (FromJID (diLib E) iq) (Attribute (diLib E) q ''node'') iq"
  using assms by (auto simp: discoProcessIQ_def getDiscoInfo_def Let_def addresses discoInfoNamespace_def discoItemsNamespace_def)

lemma request_refused:
  assumes "\<not> decided (ToJID (diLib E) iq) (FromJID (diLib E) iq) w"
    and "discoProcessIQ E \<lparr>dcSrvProv = Some S, dcAccProv = Some (newAccountProvider E mods)\<rparr> iq w = (Inr (), w')"
    and "IsGet (diLib E) iq" and "Node (ToJID (diLib E) iq) \<noteq> []" and "Child (diLib E) iq ''query'' = Some q"
    and "Attribute (diLib E) q ''xmlns'' \<in> {discoInfoNamespace, discoItemsNamespace}"
  shows "log w' = log w @ [MakeErrorStanza (diLib E) iq ''subscription-required'']"
  using assms(2) unfolding request_run [OF assms(3-5) refl assms(6)]
  by (auto simp: sendDiscoInfo_def sendDiscoItems_def newAccountProvider_def split: if_splits intro: refused [OF assms(1,4) refl])

lemma request_listed:
  assumes "decided (ToJID (diLib E) iq) (FromJID (diLib E) iq) w"
    and "discoProcessIQ E \<lparr>dcSrvProv = Some S, dcAccProv = Some (newAccountProvider E mods)\<rparr> iq w = (Inr (), w')"
    and "IsGet (diLib E) iq" and "Node (ToJID (diLib E) iq) \<noteq> []" and "Child (diLib E) iq ''query'' = Some q"
    and "Attribute (diLib E) q ''xmlns'' = discoItemsNamespace"
  shows "\<exists>its. mset its = mset (resource_items (JIDString (diLib E)) (resources w (Node (ToJID (diLib E) iq)))) \<and>
    log w' = log w @ [MakeResultIQ (diLib E) iq (Some (Element ''query'' [(''xmlns'', discoItemsNamespace)] [] (map item_Element its)))]"
proof (rule listed [OF assms(1,4)])
  have "discoItemsNamespace \<noteq> discoInfoNamespace" by (simp add: discoInfoNamespace_def discoItemsNamespace_def)
  with assms(2) show "sendDiscoItems E (newAccountProvider E mods) (ToJID (diLib E) iq) (FromJID (diLib E) iq) (Attribute (diLib E) q ''node'') iq w = (Inr (), w')"
    by (simp add: request_run [OF assms(3-6)])
qed

end

section \<open>Rosters in the embedded back end\<close>

definition bolt_disco :: "'d bolt \<Rightarrow> roster_codecs \<Rightarrow> 'r disco_env \<Rightarrow> ('d, 'r) db_world disco_env" where
  "bolt_disco B C G = \<lparr>diLib = diLib G, diRoute = (\<lambda>el. on_rest (diRoute G el)), diAllComponents = on_rest (diAllComponents G),
     diFetchRosterItem = FetchRosterItem (boltRosterRep B C), diGetResources = (\<lambda>u. on_rest (diGetResources G u)),
     diProvidersStarted = on_rest (diProvidersStarted G)\<rparr>"

locale bolt_disco_world = bolt_roster B view seqno C
  for B :: "'d bolt" and view seqno C +
  fixes G :: "'r disco_env" and online :: "'r \<Rightarrow> string \<Rightarrow> resource_desc list" and sent :: "'r \<Rightarrow> element list"
  assumes online: "diGetResources G u r = (Inr rss, r') \<Longrightarrow> rss = online r u"
    and reads: "sent (snd (diGetResources G u r)) = sent r"
    and routes: "sent (snd (diRoute G el r)) = sent r @ [el]"
    and secret: "fst (FetchRosterItem (boltRosterRep B C) u j (w :: ('d, 'r) db_world)) \<noteq> Inl errSubscriptionRequired"
      "fst (diGetResources G u r) \<noteq> Inl errSubscriptionRequired"
    and jids: "MatchesBare (diLib G) a b \<longleftrightarrow> Node a = Node b \<and> Domain a = Domain b" "IsServer (diLib G) a \<longleftrightarrow> Node a = []"
      "Node a \<noteq> [] \<Longrightarrow> JIDString (diLib G) (ToBareJID (diLib G) a) = Node a @ ''@'' @ Domain a"

sublocale bolt_disco_world \<subseteq> disco: disco_world "bolt_disco B C G" "\<lambda>w. bolt_items C view (dbState w)"
    "\<lambda>w. online (dbRest w)" "\<lambda>w. sent (dbRest w)"
proof unfold_locales
  fix u j w ri w'
  show "diFetchRosterItem (bolt_disco B C G) u j w = (Inr ri, w') \<Longrightarrow> ri = bolt_items C view (dbState w) u j"
    by (auto simp: bolt_disco_def dest: rep.fetch_item)
  show "fst (diFetchRosterItem (bolt_disco B C G) u j w) \<noteq> Inl errSubscriptionRequired"
    using secret(1) [of u j w] by (simp add: bolt_disco_def)
  show "online (dbRest (snd (diFetchRosterItem (bolt_disco B C G) u j w))) = online (dbRest w)"
    "sent (dbRest (snd (diFetchRosterItem (bolt_disco B C G) u j w))) = sent (dbRest w)"
    by (simp_all add: bolt_disco_def boltRosterRep_def db_View_keeps)
  fix el
  show "fst (diGetResources (bolt_disco B C G) u w) \<noteq> Inl errSubscriptionRequired"
    using secret(2) [of u "dbRest w"] by (simp add: bolt_disco_def on_rest_parts)
  show "sent (dbRest (snd (diGetResources (bolt_disco B C G) u w))) = sent (dbRest w)"
    "sent (dbRest (snd (diRoute (bolt_disco B C G) el w))) = sent (dbRest w) @ [el]"
    using reads [of u "dbRest w"] routes [of el "dbRest w"] by (simp_all add: bolt_disco_def on_rest_def split_beta)
qed (auto simp: bolt_disco_def on_rest_def online jids split: prod.splits)

section \<open>Properties\<close>

text \<open>
  C34. Information about an account goes to the account itself and to the users subscribed to it. When a user of
  the domain of an account asks about the account and is answered without an error, there is one
  answer: if he is the account or his roster holds the account with subscription to or both, and he asks for
  the connected resources, exactly these; if neither is the case a refusal, whether he asks
  for features or for resources. The roster of the asking user is found by his node, so that this is stated for
  users of the domain of the account; \<open>disco_ignores_domain\<close> is the case of the others.
\<close>

theorem disco_account_access:
  assumes "disco_world E roster resources log" and "Domain (FromJID (diLib E) iq) = Domain (ToJID (diLib E) iq)"
    and "discoProcessIQ E \<lparr>dcSrvProv = Some (newServerProvider E mods), dcAccProv = Some (newAccountProvider E mods)\<rparr> iq w = (Inr (), w')"
    and "IsGet (diLib E) iq" and "Node (ToJID (diLib E) iq) \<noteq> []" and "Child (diLib E) iq ''query'' = Some q"
    and "Attribute (diLib E) q ''xmlns'' \<in> {discoInfoNamespace, discoItemsNamespace}"
  shows "if Node (FromJID (diLib E) iq) = Node (ToJID (diLib E) iq) \<or>
       (\<exists>ri. roster w (Node (FromJID (diLib E) iq)) (Node (ToJID (diLib E) iq) @ ''@'' @ Domain (ToJID (diLib E) iq)) = Some ri \<and>
         riSubscription ri \<in> {''to'', ''both''})
     then Attribute (diLib E) q ''xmlns'' = discoItemsNamespace \<longrightarrow>
       (\<exists>its. mset its = mset (resource_items (JIDString (diLib E)) (resources w (Node (ToJID (diLib E) iq)))) \<and>
          log w' = log w @ [MakeResultIQ (diLib E) iq (Some (Element ''query'' [(''xmlns'', discoItemsNamespace)] [] (map item_Element its)))])
     else log w' = log w @ [MakeErrorStanza (diLib E) iq ''subscription-required'']"
  using disco_world.request_listed [OF assms(1) _ assms(3-6)] disco_world.request_refused [OF assms(1) _ assms(3-7)] assms(2)
  unfolding visible_def by metis

text \<open>
  The roster that decides about a request is the one of the local user with the node of the asking
  address, whatever the domain of that address is: a user of another server with the name of a
  local user who is subscribed to an account gets the list of its connected resources, as that user would,
  although no roster says that the address itself is subscribed.
\<close>

theorem disco_ignores_domain:
  assumes "disco_world E roster resources log" and "Domain (FromJID (diLib E) iq) \<noteq> Domain (ToJID (diLib E) iq)"
    and "roster w (Node (FromJID (diLib E) iq)) (Node (ToJID (diLib E) iq) @ ''@'' @ Domain (ToJID (diLib E) iq)) = Some ri"
    and "riSubscription ri \<in> {''to'', ''both''}"
    and "discoProcessIQ E \<lparr>dcSrvProv = Some (newServerProvider E mods), dcAccProv = Some (newAccountProvider E mods)\<rparr> iq w = (Inr (), w')"
    and "IsGet (diLib E) iq" and "Node (ToJID (diLib E) iq) \<noteq> []" and "Child (diLib E) iq ''query'' = Some q"
    and "Attribute (diLib E) q ''xmlns'' = discoItemsNamespace"
  shows "\<exists>its. mset its = mset (resource_items (JIDString (diLib E)) (resources w (Node (ToJID (diLib E) iq)))) \<and>
    log w' = log w @ [MakeResultIQ (diLib E) iq (Some (Element ''query'' [(''xmlns'', discoItemsNamespace)] [] (map item_Element its)))]"
  by (rule disco_world.request_listed [OF assms(1) _ assms(5-9)]) (use assms(3,4) in \<open>auto simp: visible_def\<close>)

section \<open>An example\<close>

text \<open>Two resources of \<open>ana\<close> are connected, and \<open>bob\<close> is subscribed to her.\<close>

definition disco_item_bob :: roster_item where
  "disco_item_bob = \<lparr>riUsername = ''bob'', riJid = ''ana@x'', riName = [], riSubscription = ''to'', riAsk = False, riGroups = []\<rparr>"

definition disco_codecs :: roster_codecs where
  "disco_codecs = \<lparr>itemCodec = table_codec [disco_item_bob], notifCodec = table_codec [], verCodec = table_codec [1]\<rparr>"

definition disco_online :: "string \<Rightarrow> resource_desc list" where
  "disco_online u = (if u = ''ana'' then map (\<lambda>r. \<lparr>InstanceID = ''i'', rJID = \<lparr>Node = ''ana'', Domain = ''x'', Resource = r\<rparr>,
     rPresence = None, rInfo = NewInfoMap\<rparr>) [''b'', ''a''] else [])"

definition disco_demo :: "element list disco_env" where
  "disco_demo = \<lparr>diLib = std_lib, diRoute = (\<lambda>el w. (Inr [], w @ [el])), diAllComponents = ret [],
     diFetchRosterItem = (\<lambda>u j. ret None), diGetResources = (\<lambda>u. ret (disco_online u)), diProvidersStarted = ret ()\<rparr>"

definition disco_server :: "(mem_db, element list) db_world disco_env" where
  "disco_server = bolt_disco mem_bolt disco_codecs disco_demo"

definition disco_state :: "(mem_db, element list) db_world" where
  "disco_state = snd (UpsertRosterItem (boltRosterRep mem_bolt disco_codecs) disco_item_bob \<lparr>dbState = Map.empty, dbRest = []\<rparr>)"

interpretation demo_disco: bolt_disco_world mem_bolt mem_view mem_seq disco_codecs disco_demo "\<lambda>r. disco_online" id
proof unfold_locales
  fix u j and w :: "(mem_db, element list) db_world"
  show "fst (FetchRosterItem (boltRosterRep mem_bolt disco_codecs) u j w) \<noteq> Inl errSubscriptionRequired"
    by (auto simp: boltRosterRep_def db_View_def mem_bolt_def bFetchRosterItem_def fetchKeyOp_def go_run disco_codecs_def table_codec_def
        errSubscriptionRequired_def split: option.split sum.split)
qed (auto simp: disco_codecs_def table_codec_ok disco_demo_def go_run std_lib_def std_jid_string_def errSubscriptionRequired_def)

definition disco_request :: "string \<Rightarrow> element" where
  "disco_request sender = Element ''iq'' [(''type'', ''get''), (''from'', sender), (''to'', ''ana@x'')] []
     [Element ''query'' [(''xmlns'', ''http://jabber.org/protocol/disco#items'')] [] []]"

abbreviation disco_started :: "(mem_db, element list) db_world disco" where
  "disco_started \<equiv> \<lparr>dcSrvProv = Some (newServerProvider disco_server []), dcAccProv = Some (newAccountProvider disco_server [])\<rparr>"

definition disco_roster :: "(mem_db, element list) db_world \<Rightarrow> string \<Rightarrow> string \<rightharpoonup> roster_item" where
  "disco_roster w = bolt_items disco_codecs mem_view (dbState w)"

lemma disco_demo_world: "disco_world disco_server disco_roster (\<lambda>w. disco_online) dbRest"
  using demo_disco.disco.disco_world_axioms unfolding disco_server_def disco_roster_def by simp

lemma disco_lib: "diLib disco_server = std_lib"
  by (simp add: disco_server_def bolt_disco_def disco_demo_def)

lemma disco_query: "Child std_lib (disco_request u) ''query'' = Some (Element ''query'' [(''xmlns'', discoItemsNamespace)] [] [])"
  "Attribute std_lib (Element ''query'' [(''xmlns'', discoItemsNamespace)] [] []) ''xmlns'' = discoItemsNamespace"
  "IsGet std_lib (disco_request u)" "ToJID std_lib (disco_request u) = \<lparr>Node = ''ana'', Domain = ''x'', Resource = []\<rparr>"
  by (simp_all add: std_lib_def disco_request_def discoItemsNamespace_def std_attr_def) code_simp

theorem disco_account_access_witness:
  "dbRest (snd (discoProcessIQ disco_server disco_started (disco_request ''eve@x/e'') disco_state)) =
     [MakeErrorStanza std_lib (disco_request ''eve@x/e'') ''subscription-required'']"
proof -
  let ?iq = "disco_request ''eve@x/e''"
  have h: "FromJID std_lib ?iq = \<lparr>Node = ''eve'', Domain = ''x'', Resource = ''e''\<rparr>"
    "fst (discoProcessIQ disco_server disco_started ?iq disco_state) = Inr ()"
    "disco_roster disco_state ''eve'' (''ana'' @ ''@'' @ ''x'') = None" "dbRest disco_state = []" by code_simp+
  obtain w' where run: "discoProcessIQ disco_server disco_started ?iq disco_state = (Inr (), w')" using h(2) prod.collapse by metis
  show ?thesis
    using disco_account_access [OF disco_demo_world _ run, unfolded disco_lib, OF _ disco_query(3) _ disco_query(1)] h(3,4)
    by (simp add: h(1) disco_query run)
qed

theorem disco_ignores_domain_witness:
  "\<exists>its. mset its = mset (resource_items std_jid_string (disco_online ''ana'')) \<and>
     dbRest (snd (discoProcessIQ disco_server disco_started (disco_request ''bob@evil'') disco_state)) =
       [MakeResultIQ std_lib (disco_request ''bob@evil'') (Some (Element ''query'' [(''xmlns'', discoItemsNamespace)] [] (map item_Element its)))]"
proof -
  let ?iq = "disco_request ''bob@evil''"
  have h: "FromJID std_lib ?iq = \<lparr>Node = ''bob'', Domain = ''evil'', Resource = []\<rparr>"
    "fst (discoProcessIQ disco_server disco_started ?iq disco_state) = Inr ()"
    "disco_roster disco_state ''bob'' (''ana'' @ ''@'' @ ''x'') = Some disco_item_bob" "dbRest disco_state = []"
    "JIDString std_lib = std_jid_string" by (code_simp, code_simp, code_simp, code_simp, simp add: std_lib_def)
  obtain w' where run: "discoProcessIQ disco_server disco_started ?iq disco_state = (Inr (), w')" using h(2) prod.collapse by metis
  show ?thesis
    using disco_ignores_domain [OF disco_demo_world _ _ _ run, unfolded disco_lib, OF _ _ _ disco_query(3) _ disco_query(1,2)] h(3,4)
    by (simp add: h(1,5) disco_query run disco_item_bob_def)
qed

end
