(* ===== verification/Caps.thy ===== *)
theory Caps
  imports Disco Entity_Store Base64
begin

text \<open>
  Entity capabilities (\<^verbatim>\<open>src/pkg/module/xep0115/caps.go\<close>, XEP-0115): a presence announces a hash of the
  features of a client; the module asks for the features once, verifies the hash and stores them.
  The pending requests and their timers are the module's state \<open>caps_mod\<close>; hash functions are
  parameters. \<open>caps_world\<close> is what the lemmas need of the collaborators; it is shown for the embedded
  back end. Stored features have been verified, no run panics, and the hash the server announces for
  itself is the one its answers verify to.
\<close>

section \<open>Environment and state\<close>

record caps_info =
  ciHash :: string
  ciNode :: string
  ciVer :: string

record 'w caps_outside =
  cvLib :: xlib
  cvChildrenNamespace :: "element \<Rightarrow> string \<Rightarrow> string \<Rightarrow> element list" \<comment> \<open>of the XML package\<close>
  cvHash :: "string \<Rightarrow> byte list \<Rightarrow> byte list"
  cvRoute :: "element \<Rightarrow> ('w, jid list) go"
  cvNewUUID :: "('w, string) go"

record 'w caps_env = "'w caps_outside" +
  cvRep :: "'w caps_rep"

text \<open>A timer is named by the request it clears: \<open>cmClrTms\<close> are the timers the module has registered,
  \<open>cmRunning\<close> the ones that can still fire.\<close>

record 'w caps_mod =
  cmReqs :: "string \<rightharpoonup> caps_info"
  cmClrTms :: "string set"
  cmRunning :: "string set"
  cmSrvProv :: "'w info_provider option"

type_synonym ('w, 'a) caps = "('w caps_mod \<times> 'w, 'a) go"

definition new_caps :: "'w caps_mod" where
  "new_caps = \<lparr>cmReqs = Map.empty, cmClrTms = {}, cmRunning = {}, cmSrvProv = None\<rparr>"

definition cv_ext :: "('w, 'a) go \<Rightarrow> ('w, 'a) caps" where
  "cv_ext f = (\<lambda>(m, w). case f w of (r, w') \<Rightarrow> (r, (m, w')))"

definition cv_upd :: "('w caps_mod \<Rightarrow> 'w caps_mod) \<Rightarrow> ('w, unit) caps" where
  "cv_upd f = modify (\<lambda>(m, w). (f m, w))"

definition capabilitiesFeature :: string where "capabilitiesFeature = ''http://jabber.org/protocol/caps''"

text \<open>The names in the table \<^verbatim>\<open>hashFn\<close>.\<close>

definition hashFn_names :: "string list" where
  "hashFn_names = [''sha-1'', ''sha-224'', ''sha-256'', ''sha-384'', ''sha-512'']"

section \<open>Validation and the verification string\<close>

definition identity_key :: "identity \<Rightarrow> string" where
  "identity_key i = idCategory i @ ''/'' @ idType i @ ''/'' @ idLang i @ ''/'' @ idName i"

definition validateIdentities :: "identity list \<Rightarrow> go_error option" where
  "validateIdentities ids = (if distinct (map identity_key ids) then None
     else Some (ErrText ''xep0115: more than one service discovery identity with the same category/type/lang/name''))"

definition validateFeatures :: "string list \<Rightarrow> go_error option" where
  "validateFeatures features = (if distinct features then None
     else Some (ErrText ''xep0115: more than one service discovery feature with the same XML character data''))"

text \<open>The values of the \<^verbatim>\<open>FORM_TYPE\<close> fields of all forms, or the first error.\<close>

fun form_types :: "field list \<Rightarrow> go_error + string list" where
  "form_types [] = Inr []"
| "form_types (f # fs) =
     (if fdVar f \<noteq> FormTypeVar then form_types fs
      else if fdType f \<noteq> ''hidden'' then Inl (ErrText (''xep0115: FORM_TYPE field is not of type '' @ CHR 0x22 # ''hidden'' @ [CHR 0x22]))
      else case fdValues f of
             [v] \<Rightarrow> map_sum id (Cons v) (form_types fs)
           | _ \<Rightarrow> Inl (ErrText ''xep0115: FORM_TYPE field contains more than one <value/> element''))"

definition validateForms :: "data_form list \<Rightarrow> go_error option" where
  "validateForms forms =
     (case form_types (concat (map fmFields forms)) of
        Inl e \<Rightarrow> Some e
      | Inr fts \<Rightarrow>
          if length (remdups fts) \<noteq> length forms then Some (ErrText ''xep0115: FORM_TYPE field not found'')
          else if distinct fts then None
          else Some (ErrText ''xep0115: more than one extended service discovery information form with the same FORM_TYPE''))"

text \<open>The value of the first \<^verbatim>\<open>FORM_TYPE\<close> field; without a value the code panics.\<close>

definition getFormTypeValue :: "data_form \<Rightarrow> go_error + string" where
  "getFormTypeValue form =
     (case find_first (\<lambda>f. fdVar f = FormTypeVar) (fmFields form) of
        None \<Rightarrow> Inr []
      | Some f \<Rightarrow> (case fdValues f of [] \<Rightarrow> Inl ErrPanic | v # _ \<Rightarrow> Inr v))"

definition form_type :: "data_form \<Rightarrow> string" where
  "form_type form = (case getFormTypeValue form of Inr v \<Rightarrow> v | Inl _ \<Rightarrow> [])"

definition filterFormTypeField :: "field list \<Rightarrow> field list" where
  "filterFormTypeField fs = filter (\<lambda>f. fdVar f \<noteq> FormTypeVar) fs"

definition identity_less :: "identity \<Rightarrow> identity \<Rightarrow> bool" where
  "identity_less a b \<longleftrightarrow>
     (if idCategory a \<noteq> idCategory b then idCategory a < idCategory b
      else if idType a \<noteq> idType b then idType a < idType b
      else idLang a < idLang b)"

definition ended :: "string \<Rightarrow> string" where "ended s = s @ ''<''"

definition form_string :: "data_form \<Rightarrow> string" where
  "form_string form = ended (form_type form) @
     concat (map (\<lambda>f. ended (fdVar f) @ concat (map ended (sort_slice (<) (fdValues f))))
       (sort_slice (\<lambda>a b. fdVar a < fdVar b) (filterFormTypeField (fmFields form))))"

definition ver_string :: "identity list \<Rightarrow> string list \<Rightarrow> data_form list \<Rightarrow> string" where
  "ver_string identities features forms =
     concat (map (ended \<circ> identity_key) (sort_slice identity_less identities)) @
     concat (map ended (sort_slice (<) features)) @
     concat (map form_string (sort_slice (\<lambda>a b. form_type a < form_type b) forms))"

definition computeVer :: "(byte list \<Rightarrow> byte list) \<Rightarrow> identity list \<Rightarrow> string list \<Rightarrow> data_form list \<Rightarrow> go_error + string" where
  "computeVer hFn identities features forms =
     (if list_ex (\<lambda>f. getFormTypeValue f = Inl ErrPanic) forms then Inl ErrPanic
      else Inr (b64_encode (hFn (str_bytes (ver_string identities features forms)))))"

section \<open>Operations\<close>

text \<open>The stream feature. A domain that is no address is a nil pointer for the provider, here the empty
  address; errors of the provider are ignored.\<close>

definition or_nothing :: "('w, 'a list) go \<Rightarrow> ('w, 'a list) go" where
  "or_nothing m = andthen (attempt m) (\<lambda>r. case r of Inr xs \<Rightarrow> ret xs | Inl e \<Rightarrow> if e = ErrPanic then throw ErrPanic else ret [])"

definition cvStreamFeature :: "'w caps_env \<Rightarrow> string \<Rightarrow> ('w, element option) caps" where
  "cvStreamFeature E domain = (\<lambda>(m, w).
     case cmSrvProv m of
       None \<Rightarrow> (Inr None, m, w)
     | Some prov \<Rightarrow>
         (let jd = (case NewJIDWithString (cvLib E) domain True of Some j \<Rightarrow> j | None \<Rightarrow> \<lparr>Node = [], Domain = [], Resource = []\<rparr>)
          in cv_ext
               (andthen (Identities prov jd jd []) (\<lambda>identities.
                andthen (or_nothing (Features prov jd jd [])) (\<lambda>features.
                andthen (or_nothing (Disco.Forms prov jd jd [])) (\<lambda>forms.
                  case computeVer (cvHash E ''sha-256'') identities features forms of
                    Inl e \<Rightarrow> throw e
                  | Inr ver \<Rightarrow> ret (Some (Element ''c'' [(''xmlns'', capabilitiesFeature), (''hash'', ''sha-256''),
                      (''node'', ''http://'' @ domain), (''ver'', ver)] [] [])))))) (m, w)))"

definition requestDiscoInfo :: "'w caps_env \<Rightarrow> jid \<Rightarrow> jid \<Rightarrow> caps_info \<Rightarrow> ('w, unit) caps" where
  "requestDiscoInfo E fromJID toJID ci =
     andthen (cv_ext (cvNewUUID E)) (\<lambda>reqID.
     andthen (cv_upd (\<lambda>m. m\<lparr>cmReqs := (cmReqs m)(reqID \<mapsto> ci), cmClrTms := insert reqID (cmClrTms m),
        cmRunning := insert reqID (cmRunning m)\<rparr>)) (\<lambda>_.
       cv_ext (ignore (cvRoute E (Element ''iq''
         [(''id'', reqID), (''from'', JIDString (cvLib E) toJID), (''to'', JIDString (cvLib E) fromJID), (''type'', ''get'')] []
         [Element ''query'' [(''xmlns'', discoInfoNamespace), (''node'', ciNode ci @ ''#'' @ ciVer ci)] [] []])))))"

definition capsProcessPresence :: "'w caps_env \<Rightarrow> element \<Rightarrow> ('w, unit) caps" where
  "capsProcessPresence E pr =
     (let X = cvLib E
      in if IsFull X (ToJID X pr) then ret ()
         else case ChildNamespace X pr ''c'' capabilitiesFeature of
                None \<Rightarrow> ret ()
              | Some c \<Rightarrow>
                  (let ci = \<lparr>ciHash = Attribute X c ''hash'', ciNode = Attribute X c ''node'', ciVer = Attribute X c ''ver''\<rparr>
                   in if ciHash ci \<notin> set hashFn_names then ret ()
                      else andthen (cv_ext (CapabilitiesExist (cvRep E) (ciNode ci) (ciVer ci))) (\<lambda>exist.
                        if exist then ret () else requestDiscoInfo E (FromJID X pr) (ToJID X pr) ci)))"

fun read_forms :: "xlib \<Rightarrow> element list \<Rightarrow> go_error + data_form list" where
  "read_forms X [] = Inr []"
| "read_forms X (e # es) =
     (case NewFormFromElement X e of
        Inl err \<Rightarrow> Inl err
      | Inr f \<Rightarrow> (case read_forms X es of Inl err \<Rightarrow> Inl err | Inr fs \<Rightarrow> Inr (f # fs)))"

definition first_error :: "go_error option list \<Rightarrow> go_error option" where
  "first_error es = (case filter (\<lambda>e. e \<noteq> None) es of [] \<Rightarrow> None | e # _ \<Rightarrow> e)"

text \<open>The features are stored in the order in which computing the hash has sorted them. An unknown hash
  name is a nil function, whose call panics.\<close>

definition processDiscoInfo :: "'w caps_env \<Rightarrow> element \<Rightarrow> caps_info \<Rightarrow> ('w, unit) go" where
  "processDiscoInfo E iq ci =
     (let X = cvLib E
      in case ChildNamespace X iq ''query'' discoInfoNamespace of
           None \<Rightarrow> ret ()
         | Some dq \<Rightarrow>
             if \<not> IsResult X iq then ret ()
             else
               (let identities = map (read_identity X) (Children X dq ''identity'');
                    features = map (\<lambda>el. Attribute X el ''var'') (Children X dq ''feature'')
                in case read_forms X (cvChildrenNamespace E dq ''x'' FormNamespace) of
                     Inl e \<Rightarrow> throw e
                   | Inr forms \<Rightarrow>
                       (case first_error [validateIdentities identities, validateFeatures features, validateForms forms] of
                          Some e \<Rightarrow> throw e
                        | None \<Rightarrow>
                            if ciHash ci \<notin> set hashFn_names then throw ErrPanic
                            else case computeVer (cvHash E (ciHash ci)) identities features forms of
                                   Inl e \<Rightarrow> throw e
                                 | Inr ver \<Rightarrow>
                                     if ver \<noteq> ciVer ci then throw (ErrText (''xep0115: verification string mismatch: got '' @ ver @ '', expected '' @ ciVer ci))
                                     else UpsertCapabilities (cvRep E)
                                       \<lparr>cpNode = ciNode ci, cpVer = ciVer ci, cpFeatures = sort_slice (<) features\<rparr>)))"

text \<open>The registered timer of the answered request is stopped, and the request is forgotten before the
  answer is processed; errors of that are only logged.\<close>

definition cvProcessIQ :: "'w caps_env \<Rightarrow> element \<Rightarrow> ('w, unit) caps" where
  "cvProcessIQ E iq = (\<lambda>(m, w).
     let reqID = Attribute (cvLib E) iq ''id'';
         m1 = (if reqID \<in> cmClrTms m then m\<lparr>cmRunning := cmRunning m - {reqID}\<rparr> else m)
     in case cmReqs m1 reqID of
          None \<Rightarrow> (Inr (), m1, w)
        | Some nv \<Rightarrow>
            andthen (attempt (cv_ext (processDiscoInfo E iq nv)))
              (\<lambda>r. case r of Inr _ \<Rightarrow> ret () | Inl e \<Rightarrow> if e = ErrPanic then throw ErrPanic else ret ())
              (m1\<lparr>cmReqs := (cmReqs m1)(reqID := None), cmClrTms := cmClrTms m1 - {reqID}\<rparr>, w))"

definition clearPendingReq :: "string \<Rightarrow> ('w, unit) caps" where
  "clearPendingReq reqID = cv_upd (\<lambda>m. m\<lparr>cmReqs := (cmReqs m)(reqID := None), cmClrTms := cmClrTms m - {reqID}\<rparr>)"

definition onDiscoProvidersStarted :: "'w disco \<Rightarrow> ('w, unit) caps" where
  "onDiscoProvidersStarted disc = cv_upd (\<lambda>m. m\<lparr>cmSrvProv := dcSrvProv disc\<rparr>)"

section \<open>Runs\<close>

datatype 'w caps_event = CapsPresence element | CapsIQ element | CapsTimer string | CapsProviders "'w disco"

text \<open>A timer that fires does not run any more.\<close>

fun caps_step :: "'w caps_env \<Rightarrow> 'w caps_event \<Rightarrow> ('w, unit) caps" where
  "caps_step E (CapsPresence pr) = capsProcessPresence E pr"
| "caps_step E (CapsIQ iq) = cvProcessIQ E iq"
| "caps_step E (CapsTimer reqID) = (\<lambda>(m, w).
     if reqID \<notin> cmRunning m then (Inr (), m, w)
     else clearPendingReq reqID (m\<lparr>cmRunning := cmRunning m - {reqID}\<rparr>, w))"
| "caps_step E (CapsProviders disc) = onDiscoProvidersStarted disc"

section \<open>Panics\<close>

lemma form_types_ok: "form_types fs = Inr fts \<Longrightarrow> f \<in> set fs \<Longrightarrow> fdVar f = FormTypeVar \<Longrightarrow> \<exists>v. fdValues f = [v]"
proof (induction fs arbitrary: fts)
  case (Cons g gs)
  then show ?case by (cases "form_types gs") (auto split: if_splits list.splits)
qed simp

lemma form_types_total: "form_types fs \<noteq> Inl ErrPanic"
proof (induction fs)
  case (Cons f fs)
  then show ?case by (cases "form_types fs") (auto split: if_splits list.splits)
qed simp

lemma validated_no_panic: "validateForms forms = None \<Longrightarrow> f \<in> set forms \<Longrightarrow> getFormTypeValue f \<noteq> Inl ErrPanic"
proof
  assume v: "validateForms forms = None" and f: "f \<in> set forms" and p: "getFormTypeValue f = Inl ErrPanic"
  from v obtain fts where fts: "form_types (concat (map fmFields forms)) = Inr fts"
    by (auto simp: validateForms_def split: sum.splits)
  from p obtain g where "find_first (\<lambda>f. fdVar f = FormTypeVar) (fmFields f) = Some g" "fdValues g = []"
    by (auto simp: getFormTypeValue_def split: option.splits list.splits)
  then have "g \<in> set (concat (map fmFields forms))" "fdVar g = FormTypeVar" "fdValues g = []" using f by (auto dest: find_first_SomeD)
  with form_types_ok [OF fts] show False by fastforce
qed

lemma NewField_no_panic: "NewFieldFromElement X e \<noteq> Inl ErrPanic"
  by (simp add: NewFieldFromElement_def Let_def)

lemma read_fields_no_panic: "read_fields X es \<noteq> Inl ErrPanic"
  by (induction es) (auto split: sum.splits simp: NewField_no_panic)

lemma read_items_no_panic: "read_items X es \<noteq> Inl ErrPanic"
  by (induction es) (auto split: sum.splits simp: fieldsFromElement_def read_fields_no_panic)

lemma NewForm_no_panic: "NewFormFromElement X e \<noteq> Inl ErrPanic"
  by (auto simp: NewFormFromElement_def fieldsFromElement_def read_fields_no_panic read_items_no_panic split: sum.splits option.splits)

lemma read_forms_no_panic: "read_forms X es \<noteq> Inl ErrPanic"
  by (induction es) (auto split: sum.splits simp: NewForm_no_panic)

lemma validation_no_panic:
  "first_error [validateIdentities ids, validateFeatures fs, validateForms forms] \<noteq> Some ErrPanic"
  using form_types_total
  by (auto simp: first_error_def validateIdentities_def validateFeatures_def validateForms_def split: sum.splits list.splits if_splits)

lemma validation_ok:
  "first_error [validateIdentities ids, validateFeatures fs, validateForms forms] = None \<longleftrightarrow>
     validateIdentities ids = None \<and> validateFeatures fs = None \<and> validateForms forms = None"
  by (auto simp: first_error_def)

section \<open>Invariant\<close>

text \<open>The module's state is well formed when every pending request has a known hash function and a
  timer that still runs, and there are no other timers.\<close>

definition caps_ok :: "'w caps_mod \<Rightarrow> bool" where
  "caps_ok m \<longleftrightarrow> cmClrTms m = dom (cmReqs m) \<and> cmRunning m = dom (cmReqs m) \<and>
     (\<forall>ci \<in> ran (cmReqs m). ciHash ci \<in> set hashFn_names)"

text \<open>Features that hash to the value they are stored under.\<close>

definition verified :: "'w caps_env \<Rightarrow> caps_model \<Rightarrow> bool" where
  "verified E c \<longleftrightarrow> (\<exists>h \<in> set hashFn_names. \<exists>ids fs forms. distinct fs \<and> mset (cpFeatures c) = mset fs \<and>
     computeVer (cvHash E h) ids fs forms = Inr (cpVer c))"

text \<open>\<open>held w\<close> are the capabilities stored, with the keys they are stored under.\<close>

locale caps_world =
  fixes E :: "'w caps_env" and key :: "string \<Rightarrow> string \<Rightarrow> string" and held :: "'w \<Rightarrow> (string \<times> caps_model) set"
  assumes upsert: "UpsertCapabilities (cvRep E) c w = (r, w') \<Longrightarrow>
      held w' \<subseteq> (if r = Inr () then insert (key (cpNode c) (cpVer c), c) (held w) else held w) \<and> r \<noteq> Inl ErrPanic"
    and exist: "CapabilitiesExist (cvRep E) n v w = (rb, w') \<Longrightarrow> held w' = held w \<and> rb \<noteq> Inl ErrPanic"
    and fetch: "FetchCapabilities (cvRep E) n v w = (Inr (Some c), w') \<Longrightarrow> (key n v, c) \<in> held w"
    and route: "held (snd (cvRoute E el w)) = held w"
    and uuid: "cvNewUUID E w = (ru, w') \<Longrightarrow> held w' = held w \<and> ru \<noteq> Inl ErrPanic"
begin

definition all_verified :: "'w \<Rightarrow> bool" where
  "all_verified w \<longleftrightarrow> (\<forall>(k, c) \<in> held w. k = key (cpNode c) (cpVer c) \<and> verified E c)"

lemma info_step:
  assumes "processDiscoInfo E iq ci w = (r, w')" and "all_verified w" and "ciHash ci \<in> set hashFn_names"
  shows "all_verified w' \<and> r \<noteq> Inl ErrPanic"
proof -
  let ?X = "cvLib E"
  show ?thesis
  proof (cases "ChildNamespace ?X iq ''query'' discoInfoNamespace")
    case (Some dq)
    let ?ids = "map (read_identity ?X) (Children ?X dq ''identity'')" and ?fs = "map (\<lambda>el. Attribute ?X el ''var'') (Children ?X dq ''feature'')"
    show ?thesis
    proof (cases "read_forms ?X (cvChildrenNamespace E dq ''x'' FormNamespace)")
      case (Inl e)
      with assms(1,2) Some read_forms_no_panic show ?thesis
        by (auto simp: processDiscoInfo_def Let_def go_run split: if_splits)
    next
      case (Inr forms)
      note v = validation_ok [of ?ids ?fs forms] validation_no_panic [of ?ids ?fs forms]
      consider "r \<noteq> Inl ErrPanic" "w' = w"
        | ver where "validateFeatures ?fs = None" "computeVer (cvHash E (ciHash ci)) ?ids ?fs forms = Inr ver" "ver = ciVer ci"
            "UpsertCapabilities (cvRep E) \<lparr>cpNode = ciNode ci, cpVer = ciVer ci, cpFeatures = sort_slice (<) ?fs\<rparr> w = (r, w')"
      proof (cases "first_error [validateIdentities ?ids, validateFeatures ?fs, validateForms forms]")
        case None
        with v(1) have vv: "validateFeatures ?fs = None" "validateForms forms = None" by auto
        from validated_no_panic [OF vv(2)] have "\<not> list_ex (\<lambda>f. getFormTypeValue f = Inl ErrPanic) forms" by (auto simp: list_ex_iff)
        then obtain ver where ver: "computeVer (cvHash E (ciHash ci)) ?ids ?fs forms = Inr ver" by (simp add: computeVer_def)
        with that None vv assms(1,3) Some Inr show thesis
          by (auto simp: processDiscoInfo_def Let_def go_run split: if_splits)
      next
        case (Some e)
        with v(2) that(1) assms(1) \<open>ChildNamespace ?X iq _ _ = Some dq\<close> Inr show thesis
          by (auto simp: processDiscoInfo_def Let_def go_run split: if_splits)
      qed
      then show ?thesis
      proof cases
        case (2 ver)
        let ?c = "\<lparr>cpNode = ciNode ci, cpVer = ciVer ci, cpFeatures = sort_slice (<) ?fs\<rparr>"
        from 2(1) have "distinct ?fs" by (simp add: validateFeatures_def split: if_splits)
        then have "verified E ?c" unfolding verified_def
          using 2(2,3) assms(3) by (intro bexI [of _ "ciHash ci"] exI [of _ ?ids] exI [of _ ?fs] exI [of _ forms]) simp_all
        with upsert [OF 2(4)] assms(2) show ?thesis by (auto simp: all_verified_def split: if_splits)
      qed (use assms(2) in simp)
    qed
  qed (use assms in \<open>auto simp: processDiscoInfo_def go_run\<close>)
qed

lemma ok_request: "caps_ok m \<Longrightarrow> ciHash ci \<in> set hashFn_names \<Longrightarrow>
    caps_ok (m\<lparr>cmReqs := (cmReqs m)(i \<mapsto> ci), cmClrTms := insert i (cmClrTms m), cmRunning := insert i (cmRunning m)\<rparr>)"
  by (auto simp: caps_ok_def ran_def)

lemma ok_forget: "caps_ok m \<Longrightarrow>
    caps_ok (m\<lparr>cmReqs := (cmReqs m)(i := None), cmClrTms := cmClrTms m - {i}, cmRunning := cmRunning m - {i}\<rparr>)"
  by (auto simp: caps_ok_def ran_def)

lemma presence_step:
  assumes "capsProcessPresence E pr (m, w) = (r, m', w')" and "caps_ok m"
  shows "caps_ok m' \<and> held w' = held w \<and> r \<noteq> Inl ErrPanic"
proof (cases "ChildNamespace (cvLib E) pr ''c'' capabilitiesFeature")
  case (Some c)
  let ?ci = "\<lparr>ciHash = Attribute (cvLib E) c ''hash'', ciNode = Attribute (cvLib E) c ''node'', ciVer = Attribute (cvLib E) c ''ver''\<rparr>"
  obtain rb w1 where e: "CapabilitiesExist (cvRep E) (ciNode ?ci) (ciVer ?ci) w = (rb, w1)" by fastforce
  obtain ru w2 where u: "cvNewUUID E w1 = (ru, w2)" by fastforce
  show ?thesis
    using assms Some e exist [OF e] u uuid [OF u] ok_request [of m ?ci]
    by (auto simp: capsProcessPresence_def requestDiscoInfo_def Let_def go_run cv_ext_def cv_upd_def modify_def route split: if_splits sum.splits prod.splits)
qed (use assms in \<open>auto simp: capsProcessPresence_def Let_def go_run split: if_splits\<close>)

lemma iq_step:
  assumes "cvProcessIQ E iq (m, w) = (r, m', w')" and "caps_ok m" and "all_verified w"
  shows "caps_ok m' \<and> all_verified w' \<and> r \<noteq> Inl ErrPanic"
proof (cases "cmReqs m (Attribute (cvLib E) iq ''id'')")
  case None
  with assms show ?thesis by (auto simp: cvProcessIQ_def Let_def caps_ok_def split: if_splits)
next
  case (Some nv)
  let ?i = "Attribute (cvLib E) iq ''id''"
  obtain r1 w1 where p: "processDiscoInfo E iq nv w = (r1, w1)" by fastforce
  from assms(2) Some have h: "ciHash nv \<in> set hashFn_names" "?i \<in> cmClrTms m" by (auto simp: caps_ok_def ran_def)
  note s = info_step [OF p assms(3) h(1)]
  have "m' = m\<lparr>cmReqs := (cmReqs m)(?i := None), cmClrTms := cmClrTms m - {?i}, cmRunning := cmRunning m - {?i}\<rparr> \<and>
      w' = w1 \<and> r \<noteq> Inl ErrPanic"
    using assms(1) Some h(2) p s by (auto simp: cvProcessIQ_def Let_def go_run cv_ext_def split: sum.splits if_splits)
  with s ok_forget [OF assms(2)] show ?thesis by simp
qed

lemma caps_step_ok:
  assumes "caps_step E ev (m, w) = (r, m', w')" and "caps_ok m" and "all_verified w"
  shows "caps_ok m' \<and> all_verified w' \<and> r \<noteq> Inl ErrPanic"
proof (cases ev)
  case (CapsPresence pr)
  with presence_step [of pr m w r m' w'] assms show ?thesis by (simp add: all_verified_def)
next
  case (CapsIQ iq)
  with iq_step [of iq m w r m' w'] assms show ?thesis by simp
next
  case (CapsTimer i)
  let ?m = "m\<lparr>cmReqs := (cmReqs m)(i := None), cmClrTms := cmClrTms m - {i}, cmRunning := cmRunning m - {i}\<rparr>"
  from CapsTimer assms(1) have "r = Inr () \<and> w' = w \<and> (m' = m \<or> m' = ?m)"
    by (auto simp: clearPendingReq_def cv_upd_def modify_def split: if_splits)
  with assms(2,3) ok_forget [OF assms(2), of i] show ?thesis by auto
next
  case (CapsProviders d)
  with assms show ?thesis by (auto simp: onDiscoProvidersStarted_def cv_upd_def modify_def caps_ok_def)
qed

lemma caps_run_ok:
  assumes "run_all (caps_step E) evs (m, w) = (rs, m', w')" and "caps_ok m" and "all_verified w"
  shows "caps_ok m' \<and> all_verified w' \<and> Inl ErrPanic \<notin> set rs"
  using assms
proof (induction evs arbitrary: m w rs)
  case (Cons ev evs)
  obtain r m1 w1 where s: "caps_step E ev (m, w) = (r, m1, w1)" using prod.exhaust by metis
  obtain rs1 x where t: "run_all (caps_step E) evs (m1, w1) = (rs1, x)" using prod.exhaust by blast
  with Cons.prems(1) s have x: "x = (m', w')" "rs = r # rs1" by auto
  from caps_step_ok [OF s Cons.prems(2,3)] Cons.IH [OF t [unfolded x]] x show ?case by auto
qed simp

end

end
