(* ===== verification/Caps_Safety.thy ===== *)
theory Caps_Safety
  imports Caps
begin

text \<open>
  The properties of entity capabilities: on the embedded back end only verified features are stored
  and no run panics; the verification string does not depend on the order in which a client lists
  its features; and the answer of the server's own discovery verifies to the hash that the server
  announces in its stream features.
\<close>

section \<open>On the embedded back end\<close>

definition bolt_caps_env ::
  "'d bolt \<Rightarrow> caps_model bcodec \<Rightarrow> 'r caps_outside \<Rightarrow> ('d, 'r) db_world caps_env" where
  "bolt_caps_env B C G = \<lparr>cvLib = cvLib G, cvChildrenNamespace = cvChildrenNamespace G, cvHash = cvHash G,
     cvRoute = (\<lambda>el. on_rest (cvRoute G el)), cvNewUUID = on_rest (cvNewUUID G), cvRep = boltCapsRep B C\<rparr>"

definition bolt_held :: "caps_model bcodec \<Rightarrow> buckets \<Rightarrow> (string \<times> caps_model) set" where
  "bolt_held C bs = {(k, c). (\<exists>l. k = ''caps:'' @ l) \<and> stored C bs k capsKey = Some c}"

text \<open>The collaborators return errors, but do not panic.\<close>

definition caps_quiet :: "'w caps_env \<Rightarrow> bool" where
  "caps_quiet E \<longleftrightarrow> (\<forall>c w. fst (UpsertCapabilities (cvRep E) c w) \<noteq> Inl ErrPanic) \<and>
     (\<forall>n v w. fst (CapabilitiesExist (cvRep E) n v w) \<noteq> Inl ErrPanic) \<and> (\<forall>w. fst (cvNewUUID E w) \<noteq> Inl ErrPanic)"

context bolt_store
begin

lemma caps_on_bolt:
  assumes "codec_ok C" and "caps_quiet (bolt_caps_env B C G)"
  shows "caps_world (bolt_caps_env B C G) capsBucketKey (\<lambda>w. bolt_held C (view (dbState w)))"
proof
  let ?E = "bolt_caps_env B C G" and ?held = "\<lambda>w. bolt_held C (view (dbState w))"
  note sel = bolt_caps_env_def boltCapsRep_def
  note q = assms(2) [unfolded caps_quiet_def]
  show "?held w' \<subseteq> (if r = Inr () then insert (capsBucketKey (cpNode c) (cpVer c), c) (?held w) else ?held w) \<and> r \<noteq> Inl ErrPanic"
    if u: "UpsertCapabilities (cvRep ?E) c w = (r, w')" for c w r w'
  proof -
    from u have "db_Update B (bUpsertCapabilities B C c) w = (r, w')" by (simp add: sel)
    then have "?held w' \<subseteq> (if r = Inr () then insert (capsBucketKey (cpNode c) (cpVer c), c) (?held w) else ?held w)"
    proof (cases rule: Update_cases)
      case (2 x d d')
      from upsert_stored [OF 2(4) [unfolded bUpsertCapabilities_def] assms(1)] 2 show ?thesis
        by (auto simp: bolt_held_def split: if_splits)
    qed simp
    with u q show ?thesis by (metis fst_conv)
  qed
  show "?held w' = ?held w \<and> rb \<noteq> Inl ErrPanic" if "CapabilitiesExist (cvRep ?E) n v w = (rb, w')" for n v w rb w'
  proof -
    from that have "w' = w" by (auto simp: sel db_View_def split: prod.splits sum.splits)
    with that q show ?thesis by (metis fst_conv)
  qed
  show "(capsBucketKey n v, c) \<in> ?held w" if "FetchCapabilities (cvRep ?E) n v w = (Inr (Some c), w')" for n v w c w'
  proof -
    from that have "db_View B (bFetchCapabilities B C n v) w = (Inr (Some c), w')" by (simp add: sel)
    then obtain d where d: "view d = view (dbState w)" "fst (bFetchCapabilities B C n v d) = Inr (Some c)"
      by (cases rule: View_cases) auto
    then obtain d' where "fetchKeyOp B C (capsBucketKey n v) capsKey d = (Inr (Some c), d')"
      by (cases "bFetchCapabilities B C n v d") (simp add: bFetchCapabilities_def)
    from fetch_stored [OF this] d(1) show ?thesis by (auto simp: bolt_held_def capsBucketKey_def)
  qed
  show "?held (snd (cvRoute ?E el w)) = ?held w" for el w by (simp add: sel on_rest_parts)
  show "?held w' = ?held w \<and> ru \<noteq> Inl ErrPanic" if "cvNewUUID ?E w = (ru, w')" for w ru w'
  proof -
    have "dbState w' = dbState w" using that on_rest_parts(1) [of "cvNewUUID G" w] by (simp add: sel)
    with that q show ?thesis by (metis fst_conv)
  qed
qed

end

section \<open>Order\<close>

lemma sort_slice_unique:
  fixes key :: "'a \<Rightarrow> 'k::linorder"
  assumes "mset xs = mset ys" and "inj_on key (set xs)"
  shows "sort_slice (\<lambda>a b. key a < key b) xs = sort_slice (\<lambda>a b. key a < key b) ys"
proof -
  let ?s = "sort_slice (\<lambda>a b. key a < key b)"
  have w: "weak_order (\<lambda>a b. key a < key b)" by (auto simp: weak_order_def)
  have "sorted (map key (?s zs))" for zs
    using sorted_sort_slice_wrt [OF w, of zs] by (simp add: sorted_wrt_map not_less)
  moreover have "mset (map key (?s xs)) = mset (map key (?s ys))" using assms(1) by simp
  ultimately have "map key (?s xs) = map key (?s ys)" by (metis properties_for_sort)
  moreover have "set ys = set xs" using assms(1) by (metis set_mset_mset)
  ultimately show ?thesis using assms(2) by (auto dest!: inj_on_map_eq_map [THEN iffD1, rotated])
qed

definition identity_sort_key :: "identity \<Rightarrow> string list" where
  "identity_sort_key i = [idCategory i, idType i, idLang i]"

lemma identity_less_key: "identity_less = (\<lambda>a b. identity_sort_key a < identity_sort_key b)"
  by (auto simp: identity_less_def identity_sort_key_def fun_eq_iff)

text \<open>
  C38. The verification string depends on what a client lists and not on the order of it: identities
  with different categories, types or languages, features, and forms with different types.
\<close>

theorem ver_order_independent:
  assumes "mset ids' = mset ids" and "mset fs' = mset fs" and "mset forms' = mset forms"
    and "inj_on (\<lambda>i. (idCategory i, idType i, idLang i)) (set ids)" and "inj_on form_type (set forms)"
  shows "computeVer h ids' fs' forms' = computeVer h ids fs forms"
proof -
  have i: "inj_on identity_sort_key (set ids)" using assms(4) by (auto simp: inj_on_def identity_sort_key_def)
  have s: "set ids' = set ids" "set forms' = set forms" using assms(1,3) by (metis set_mset_mset)+
  have "sort_slice identity_less ids' = sort_slice identity_less ids"
    unfolding identity_less_key using assms(1) i s by (intro sort_slice_unique) simp_all
  moreover have "sort_slice (<) fs' = sort_slice (<) fs" using sort_slice_unique [of fs' fs "\<lambda>x. x"] assms(2) by simp
  moreover have "sort_slice (\<lambda>a b. form_type a < form_type b) forms' = sort_slice (\<lambda>a b. form_type a < form_type b) forms"
    using assms(3,5) s by (intro sort_slice_unique) simp_all
  ultimately show ?thesis by (simp add: computeVer_def ver_string_def list_ex_iff s)
qed

section \<open>The server's own capabilities\<close>

text \<open>What reading an answer needs of the XML package: elements are found as they were built, and a result
  is built from a request without children.\<close>

locale caps_lib = element_lib "cvLib E" for E :: "'w caps_env" +
  assumes children_ns: "cvChildrenNamespace E e n ns = filter (\<lambda>c. Name c = n \<and> Attribute (cvLib E) c ''xmlns'' = ns) (AllChildren e)"
    and result: "AllChildren (ResultBuilder (cvLib E) iq) = []" "IsResult (cvLib E) (with_child (ResultBuilder (cvLib E) iq) q)"
begin

lemma read_forms_roundtrip:
  assumes "\<forall>f \<in> set forms. NewFormFromElement (cvLib E) (form_Element f) = Inr f"
  shows "read_forms (cvLib E) (map form_Element forms) = Inr forms"
  using assms by (induction forms) auto

lemma forms_found: "cvChildrenNamespace E (info_Element ids fs forms) ''x'' FormNamespace = map form_Element forms"
proof -
  have "Attribute (cvLib E) (form_Element f) ''xmlns'' = FormNamespace" for f by (simp add: form_Element_def attr)
  then have "filter (\<lambda>c. Name c = ''x'' \<and> Attribute (cvLib E) c ''xmlns'' = FormNamespace) (map form_Element forms) = map form_Element forms"
    by (auto simp: filter_id_conv)
  moreover have "filter (\<lambda>c. Name c = ''x'' \<and> Attribute (cvLib E) c ''xmlns'' = FormNamespace) (map identity_Element ids @ map feature_Element fs) = []"
    by (auto simp: filter_empty_conv)
  ultimately show ?thesis by (simp add: children_ns info_Element_def)
qed

text \<open>An answer that lists valid information is stored when it hashes to the announced value.\<close>

lemma answer_stored:
  assumes "\<forall>f \<in> set forms. NewFormFromElement (cvLib E) (form_Element f) = Inr f"
    and "validateIdentities ids = None" "validateFeatures fs = None" "validateForms forms = None"
    and "ciHash ci \<in> set hashFn_names" and "computeVer (cvHash E (ciHash ci)) ids fs forms = Inr (ciVer ci)"
  shows "processDiscoInfo E (MakeResultIQ (cvLib E) iq (Some (info_Element ids fs forms))) ci =
    UpsertCapabilities (cvRep E) \<lparr>cpNode = ciNode ci, cpVer = ciVer ci, cpFeatures = sort_slice (<) fs\<rparr>"
proof -
  let ?q = "info_Element ids fs forms"
  have "ChildNamespace (cvLib E) (with_child (ResultBuilder (cvLib E) iq) ?q) ''query'' discoInfoNamespace = Some ?q"
    by (simp add: child_ns with_child_def result(1) info_Element_def attr)
  then show ?thesis
    using assms(2-6) by (simp add: processDiscoInfo_def MakeResultIQ_def result(2) info_children forms_found
        read_forms_roundtrip [OF assms(1)] first_error_def)
qed

end

lemma all_features_run:
  assumes "\<And>m w. m \<in> set mods \<Longrightarrow> f m w = (Inr (feat m), w)"
  shows "all_features f mods w = (Inr (concat (map feat mods)), w)"
  using assms by (induction mods) (simp_all add: go_run)

text \<open>
  C32. A server verifies what another one announces: when the features of the modules are different from
  each other, the answer of the server's discovery is accepted and stored under the hash of its own
  stream feature, by every server with the same hash function.
\<close>

theorem own_caps_verified:
  assumes "caps_lib E'" and "cvLib E' = diLib D" and "cvHash E' ''sha-256'' = cvHash E ''sha-256''"
    and "\<And>m w. m \<in> set mods \<Longrightarrow> smServerFeatures m w = (Inr (feat m), w)" and "distinct (concat (map feat mods))"
    and "cmSrvProv st = Some (newServerProvider D mods)" and "diLib D = cvLib E"
    and "\<And>el. log (snd (diRoute D el w)) = log w @ [el]"
  shows "\<exists>c resp. cvStreamFeature E domain (st, w) = (Inr (Some c), st, w) \<and> Attribute (cvLib E) c ''hash'' = ''sha-256'' \<and>
    log (snd (sendDiscoInfo D (newServerProvider D mods) toJID fromJID node iq w)) = log w @ [resp] \<and>
    processDiscoInfo E' resp \<lparr>ciHash = ''sha-256'', ciNode = Attribute (cvLib E) c ''node'', ciVer = Attribute (cvLib E) c ''ver''\<rparr> =
      UpsertCapabilities (cvRep E') \<lparr>cpNode = ''http://'' @ domain, cpVer = Attribute (cvLib E) c ''ver'',
        cpFeatures = sort_slice (<) (sort_slice (<) (concat (map feat mods)))\<rparr>"
proof -
  let ?ids = "[\<lparr>idCategory = ''server'', idName = ''jackal'', idType = ''im'', idLang = []\<rparr>]"
  let ?fs = "sort_slice (<) (concat (map feat mods))"
  have prov: "Features (newServerProvider D mods) a b n w = (Inr ?fs, w)" "Identities (newServerProvider D mods) a b n w = (Inr ?ids, w)"
    "Disco.Forms (newServerProvider D mods) a b n w = (Inr [], w)" for a b n
    using all_features_run [of mods smServerFeatures feat w] assms(4) by (simp_all add: newServerProvider_def go_run)
  define ver where "ver = b64_encode (cvHash E ''sha-256'' (str_bytes (ver_string ?ids ?fs [])))"
  have ver: "computeVer (cvHash E ''sha-256'') ?ids ?fs [] = Inr ver" by (simp add: computeVer_def ver_def)
  let ?c = "Element ''c'' [(''xmlns'', capabilitiesFeature), (''hash'', ''sha-256''), (''node'', ''http://'' @ domain), (''ver'', ver)] [] []"
  let ?resp = "MakeResultIQ (diLib D) iq (Some (info_Element ?ids ?fs []))"
  have lib: "element_lib (cvLib E)" using assms(1,2,7) caps_lib.axioms(1) by metis
  have at: "Attribute (cvLib E) ?c ''hash'' = ''sha-256''" "Attribute (cvLib E) ?c ''node'' = ''http://'' @ domain" "Attribute (cvLib E) ?c ''ver'' = ver"
    by (simp_all add: element_lib.attr [OF lib])
  have sf: "cvStreamFeature E domain (st, w) = (Inr (Some ?c), st, w)"
    by (simp add: cvStreamFeature_def assms(6) or_nothing_def go_run cv_ext_def prov ver Let_def)
  have "mset ?fs = mset (concat (map feat mods))" by (simp only: mset_sort_slice)
  with assms(5) have "distinct ?fs" using mset_eq_imp_distinct_iff by blast
  then have pd: "processDiscoInfo E' ?resp \<lparr>ciHash = ''sha-256'', ciNode = ''http://'' @ domain, ciVer = ver\<rparr> =
      UpsertCapabilities (cvRep E') \<lparr>cpNode = ''http://'' @ domain, cpVer = ver, cpFeatures = sort_slice (<) ?fs\<rparr>"
    using caps_lib.answer_stored [OF assms(1), of "[]" ?ids ?fs "\<lparr>ciHash = ''sha-256'', ciNode = ''http://'' @ domain, ciVer = ver\<rparr>" iq] ver
    by (simp add: assms(2,3) validateIdentities_def validateFeatures_def validateForms_def hashFn_names_def)
  have "log (snd (sendDiscoInfo D (newServerProvider D mods) toJID fromJID node iq w)) = log w @ [?resp]"
    by (simp add: sendDiscoInfo_def provided_def go_run prov diRouteIgnore_def assms(8))
  with sf at pd show ?thesis by (intro exI [of _ ?c] exI [of _ ?resp]) (simp only: simp_thms)
qed

section \<open>Runs on the embedded back end\<close>

lemma caps_ok_new: "caps_ok new_caps"
  by (simp add: caps_ok_def new_caps_def)

lemma computeVer_no_colon:
  assumes "computeVer h ids fs forms = Inr ver"
  shows "CHR '':'' \<notin> set ver"
  using assms b64_no_colon by (auto simp: computeVer_def split: if_splits)

text \<open>
  C31. The stored capabilities can be trusted: after any sequence of presences, answers, timeouts and
  starts from an empty store, what is fetched for a node and an announced hash was stored for this node
  and this hash, and it consists of different features that, with some identities and forms, do hash to
  it under one of the known hash functions. The hash asked for is assumed to have no colon, as a hash
  in base64 has none; with a colon the store would mix up nodes and hashes (\<open>caps_key_collision\<close>).
\<close>

theorem caps_store_verified:
  assumes "bolt_store B view seqno" and "codec_ok C" and "caps_quiet (bolt_caps_env B C G)"
    and "bolt_held C (view (dbState w)) = {}"
    and "run_all (caps_step (bolt_caps_env B C G)) events (new_caps, w) = (results, m', w')"
    and "FetchCapabilities (boltCapsRep B C) node ver w' = (Inr (Some c), w'')" and "CHR '':'' \<notin> set ver"
  shows "cpNode c = node \<and> cpVer c = ver \<and>
    (\<exists>h \<in> {''sha-1'', ''sha-224'', ''sha-256'', ''sha-384'', ''sha-512''}. \<exists>ids fs forms.
      distinct fs \<and> mset (cpFeatures c) = mset fs \<and> computeVer (cvHash G h) ids fs forms = Inr ver)"
proof -
  note W = bolt_store.caps_on_bolt [OF assms(1-3)]
  let ?held = "\<lambda>w. bolt_held C (view (dbState w))"
  have av: "caps_world.all_verified (bolt_caps_env B C G) capsBucketKey ?held w"
    using assms(4) by (simp add: caps_world.all_verified_def [OF W])
  have "(capsBucketKey node ver, c) \<in> ?held w'"
    by (rule caps_world.fetch [OF W]) (use assms(6) in \<open>simp add: bolt_caps_env_def\<close>)
  then have v: "capsBucketKey node ver = capsBucketKey (cpNode c) (cpVer c)" "verified (bolt_caps_env B C G) c"
    using caps_world.caps_run_ok [OF W assms(5) caps_ok_new av] by (auto simp: caps_world.all_verified_def [OF W])
  then obtain h ids fs forms where h: "h \<in> set hashFn_names" "distinct fs" "mset (cpFeatures c) = mset fs"
      "computeVer (cvHash G h) ids fs forms = Inr (cpVer c)"
    by (auto simp: verified_def bolt_caps_env_def)
  from caps_key_inject [OF assms(7) computeVer_no_colon [OF h(4)] v(1)] h show ?thesis by (auto simp: hashFn_names_def)
qed

text \<open>
  C33. The state of the module stays well formed: every pending request has a known hash function and a
  running timer that will clear it, there are no other timers, and so no step panics, whatever a
  client answers.
\<close>

theorem caps_well_formed:
  assumes "bolt_store B view seqno" and "codec_ok C" and "caps_quiet (bolt_caps_env B C G)"
    and "bolt_held C (view (dbState w)) = {}"
    and "run_all (caps_step (bolt_caps_env B C G)) events (new_caps, w) = (results, m', w')"
  shows "caps_ok m' \<and> Inl ErrPanic \<notin> set results"
proof -
  note W = bolt_store.caps_on_bolt [OF assms(1-3)]
  have av: "caps_world.all_verified (bolt_caps_env B C G) capsBucketKey (\<lambda>w. bolt_held C (view (dbState w))) w"
    using assms(4) by (simp add: caps_world.all_verified_def [OF W])
  then show ?thesis using caps_world.caps_run_ok [OF W assms(5) caps_ok_new] by blast
qed

section \<open>An example\<close>

text \<open>The toy hash keeps three bytes, and one set of capabilities can be stored.\<close>

definition caps_rest :: "element list caps_outside" where
  "caps_rest = \<lparr>cvLib = std_lib, cvChildrenNamespace = (\<lambda>e n ns. filter (\<lambda>c. Name c = n \<and> std_attr c ''xmlns'' = ns) (AllChildren e)),
     cvHash = (\<lambda>h b. take 3 b), cvRoute = (\<lambda>el w. (Inr [], w @ [el])), cvNewUUID = ret ''id1''\<rparr>"

definition demo_caps :: caps_model where
  "demo_caps = \<lparr>cpNode = ''n'', cpVer = ''YTxi'', cpFeatures = [''a'', ''b'']\<rparr>"

definition caps_codec :: "caps_model bcodec" where
  "caps_codec = \<lparr>MarshalBinary = (\<lambda>c. if c = demo_caps then Inr ''x'' else Inl (ErrText ''encode'')), UnmarshalBinary = (\<lambda>s. Inr demo_caps)\<rparr>"

definition caps_demo :: "(mem_db, element list) db_world caps_env" where
  "caps_demo = bolt_caps_env mem_bolt caps_codec caps_rest"

definition caps_events :: "(mem_db, element list) db_world caps_event list" where
  "caps_events =
     [CapsPresence (Element ''presence'' [(''from'', ''bob@y/r''), (''to'', ''ana@x'')] []
        [Element ''c'' [(''xmlns'', ''http://jabber.org/protocol/caps''), (''hash'', ''sha-1''), (''node'', ''n''), (''ver'', ''YTxi'')] [] []]),
      CapsIQ (Element ''iq'' [(''id'', ''id1''), (''type'', ''result'')] [] [info_Element [] [''b'', ''a''] []])]"

definition caps_end :: "(go_error + unit) list \<times> (mem_db, element list) db_world caps_mod \<times> (mem_db, element list) db_world" where
  "caps_end = run_all (caps_step caps_demo) caps_events (new_caps, \<lparr>dbState = Map.empty, dbRest = []\<rparr>)"

lemma caps_demo_codec: "codec_ok caps_codec"
  by (simp add: codec_ok_def caps_codec_def)

lemma caps_demo_quiet: "caps_quiet (bolt_caps_env mem_bolt caps_codec caps_rest)"
  by (auto simp: caps_quiet_def bolt_caps_env_def boltCapsRep_def db_Update_def db_View_def InTransaction_def on_db_def on_rest_def
      bUpsertCapabilities_def bCapabilitiesExist_def bucketExistsOp_def upsertKeyOp_def lift_sum_def mem_bolt_def caps_codec_def caps_rest_def go_run
      split: option.splits sum.splits prod.splits if_splits)

interpretation demo_caps: caps_world caps_demo capsBucketKey "\<lambda>w. bolt_held caps_codec (mem_view (dbState w))"
  unfolding caps_demo_def by (rule mem.caps_on_bolt [OF caps_demo_codec caps_demo_quiet])

interpretation demo_caps_lib: caps_lib caps_demo
proof -
  have lib: "cvLib caps_demo = std_lib" by (simp add: caps_demo_def bolt_caps_env_def caps_rest_def)
  show "caps_lib caps_demo"
    by (intro caps_lib.intro caps_lib_axioms.intro; unfold lib)
      (rule std_forms.element_lib_axioms, simp_all add: caps_demo_def bolt_caps_env_def caps_rest_def std_lib_def std_attr_def with_child_def)
qed

lemma caps_demo_run: "run_all (caps_step (bolt_caps_env mem_bolt caps_codec caps_rest)) caps_events (new_caps, \<lparr>dbState = Map.empty, dbRest = []\<rparr>) =
    (fst caps_end, fst (snd caps_end), snd (snd caps_end))"
  by (simp add: caps_end_def caps_demo_def)

lemma caps_demo_empty: "bolt_held caps_codec (mem_view (dbState \<lparr>dbState = Map.empty, dbRest = r\<rparr>)) = {}"
  by (simp add: bolt_held_def stored_def bucket_of_def mem_view_def)

theorem caps_store_verified_witness:
  "FetchCapabilities (boltCapsRep mem_bolt caps_codec) ''n'' ''YTxi'' (snd (snd caps_end)) = (Inr (Some demo_caps), snd (snd caps_end)) \<and>
   (\<exists>h ids fs forms. distinct fs \<and> mset [''a'', ''b''] = mset fs \<and> computeVer (cvHash caps_rest h) ids fs forms = Inr ''YTxi'')"
proof -
  have f: "fst (FetchCapabilities (boltCapsRep mem_bolt caps_codec) ''n'' ''YTxi'' (snd (snd caps_end))) = Inr (Some demo_caps)" by code_simp
  then have f: "FetchCapabilities (boltCapsRep mem_bolt caps_codec) ''n'' ''YTxi'' (snd (snd caps_end)) = (Inr (Some demo_caps), snd (snd caps_end))"
    by (simp add: prod_eq_iff boltCapsRep_def db_View_def mem_bolt_def go_run)
  have "CHR '':'' \<notin> set ''YTxi''" by simp
  from caps_store_verified [OF mem.bolt_store_axioms caps_demo_codec caps_demo_quiet caps_demo_empty caps_demo_run f this] f
  show ?thesis by (auto simp: demo_caps_def)
qed

theorem caps_well_formed_witness: "caps_ok (fst (snd caps_end)) \<and> Inl ErrPanic \<notin> set (fst caps_end)"
  by (rule caps_well_formed [OF mem.bolt_store_axioms caps_demo_codec caps_demo_quiet caps_demo_empty caps_demo_run])

theorem ver_order_independent_witness:
  "computeVer (take 3) [] [''b'', ''a''] [] = computeVer (take 3) [] [''a'', ''b''] []"
  by (rule ver_order_independent) (simp_all add: add_mset_commute)

definition own_env :: "element list caps_env" where
  "own_env = \<lparr>cvLib = std_lib, cvChildrenNamespace = cvChildrenNamespace caps_rest, cvHash = cvHash caps_rest, cvRoute = cvRoute caps_rest,
     cvNewUUID = cvNewUUID caps_rest, cvRep = \<lparr>UpsertCapabilities = (\<lambda>c. ret ()), CapabilitiesExist = (\<lambda>n v. ret False),
       FetchCapabilities = (\<lambda>n v. ret None)\<rparr>\<rparr>"

definition own_module :: "element list server_module" where
  "own_module = \<lparr>smName = ''m'', smStreamFeature = (\<lambda>d. ret None), smServerFeatures = ret [''b'', ''a''], smAccountFeatures = ret [],
     smStart = ret (), smStop = ret (), smIQ = None\<rparr>"

theorem own_caps_verified_witness:
  "\<exists>c resp. cvStreamFeature own_env ''x'' (new_caps\<lparr>cmSrvProv := Some (newServerProvider disco_demo [own_module])\<rparr>, []) =
      (Inr (Some c), new_caps\<lparr>cmSrvProv := Some (newServerProvider disco_demo [own_module])\<rparr>, []) \<and> Attribute std_lib c ''hash'' = ''sha-256'' \<and>
    snd (sendDiscoInfo disco_demo (newServerProvider disco_demo [own_module]) (std_jid_of ''x'') (std_jid_of ''eve@y/e'') [] (disco_request ''eve@y/e'') []) = [resp] \<and>
    processDiscoInfo caps_demo resp \<lparr>ciHash = ''sha-256'', ciNode = Attribute std_lib c ''node'', ciVer = Attribute std_lib c ''ver''\<rparr> =
      UpsertCapabilities (cvRep caps_demo) \<lparr>cpNode = ''http://x'', cpVer = Attribute std_lib c ''ver'', cpFeatures = [''a'', ''b'']\<rparr>"
proof -
  let ?st = "new_caps\<lparr>cmSrvProv := Some (newServerProvider disco_demo [own_module])\<rparr>"
  have lib: "diLib disco_demo = std_lib" "cvLib own_env = std_lib" "cvLib caps_demo = std_lib"
    by (simp_all add: disco_demo_def own_env_def caps_demo_def bolt_caps_env_def caps_rest_def)
  have h: "cvHash caps_demo ''sha-256'' = cvHash own_env ''sha-256''" by (simp add: caps_demo_def bolt_caps_env_def own_env_def)
  have f: "smServerFeatures m w = (Inr [''b'', ''a''], w)" if "m \<in> set [own_module]" for m w
    using that by (simp add: own_module_def go_run)
  have p: "cmSrvProv ?st = Some (newServerProvider disco_demo [own_module])" by simp
  have r: "id (snd (diRoute disco_demo el ([] :: element list))) = id [] @ [el]" for el by (simp add: disco_demo_def)
  have s: "sort_slice (<) (sort_slice (<) (concat (map (\<lambda>m. [''b'', ''a'']) [own_module]))) = [''a'', ''b'']" by code_simp
  from own_caps_verified [OF demo_caps_lib.caps_lib_axioms _ h f _ p _ r, where domain = "''x''" and toJID = "std_jid_of ''x''" and fromJID = "std_jid_of ''eve@y/e''"
      and node = "[]" and iq = "disco_request ''eve@y/e''"]
  show ?thesis unfolding s lib by simp
qed

end
