(* ===== verification/User_Data.thy ===== *)
theory User_Data
  imports Entity_Store
begin

text \<open>
  Private elements (\<^verbatim>\<open>src/pkg/module/xep0049/private.go\<close>, XEP-0049) and vCards
  (\<^verbatim>\<open>src/pkg/module/xep0054/vcard.go\<close>, XEP-0054), over any repositories with the contract
  \<open>entity_store\<close>. \<open>private_module\<close> and \<open>vcard_module\<close> are the modules with collaborators that leave the
  repository alone; both are shown for the embedded back end. What a user stores is what he reads,
  and who can replace a vCard.
\<close>

section \<open>Environment\<close>

record 'w data_outside =
  udLib :: xlib
  udRoute :: "element \<Rightarrow> ('w, jid list) go"
  udRunHook :: "string \<Rightarrow> string \<Rightarrow> element option \<Rightarrow> ('w, unit) go" \<comment> \<open>hook, user and element\<close>

record 'w data_env = "'w data_outside" +
  udPrivate :: "'w private_rep"
  udVCard :: "'w vcard_rep"

definition privateNamespace :: string where "privateNamespace = ''jabber:iq:private''"
definition vCardNamespace :: string where "vCardNamespace = ''vcard-temp''"

definition udRouteIgnore :: "'w data_env \<Rightarrow> element \<Rightarrow> ('w, unit) go" where
  "udRouteIgnore E el = ignore (udRoute E el)"

definition ud_reply :: "'w data_env \<Rightarrow> element \<Rightarrow> string \<Rightarrow> ('w, unit) go" where
  "ud_reply E iq reason = udRouteIgnore E (MakeErrorStanza (udLib E) iq reason)"

text \<open>An error is answered with an internal server error and returned; panics are not errors.\<close>

definition ud_or_report :: "'w data_env \<Rightarrow> element \<Rightarrow> ('w, 'a) go \<Rightarrow> ('w, 'a) go" where
  "ud_or_report E iq m =
     andthen (attempt m) (\<lambda>r.
       case r of
         Inl e \<Rightarrow> if e = ErrPanic then throw ErrPanic else andthen (ud_reply E iq ''internal-server-error'') (\<lambda>_. throw e)
       | Inr x \<Rightarrow> ret x)"

section \<open>Private elements\<close>

definition isValidNamespace :: "string \<Rightarrow> bool" where
  "isValidNamespace ns \<longleftrightarrow> length ns > 0 \<and> \<not> has_prefix ns ''jabber:'' \<and> \<not> has_prefix ns ''http://jabber.org/'' \<and> ns \<noteq> ''vcard-temp''"

definition private_Element :: "element \<Rightarrow> string \<Rightarrow> element option \<Rightarrow> element" where
  "private_Element prv ns stored_elem = Element ''query'' [(''xmlns'', privateNamespace)] []
     [Element (Name prv) [(''xmlns'', ns)] [] (case stored_elem of None \<Rightarrow> [] | Some e \<Rightarrow> AllChildren e)]"

definition getPrivate :: "'w data_env \<Rightarrow> element \<Rightarrow> element \<Rightarrow> ('w, unit) go" where
  "getPrivate E iq q =
     (let X = udLib E; username = Node (FromJID X iq)
      in case AllChildren q of
           [prv] \<Rightarrow>
             (let ns = Attribute X prv ''xmlns''
              in if length (AllChildren prv) > 0 \<or> \<not> isValidNamespace ns then ud_reply E iq ''not-acceptable''
                 else andthen (ud_or_report E iq (FetchPrivate (udPrivate E) ns username)) (\<lambda>prvElem.
                      andthen (udRouteIgnore E (MakeResultIQ X iq (Some (private_Element prv ns prvElem)))) (\<lambda>_.
                        udRunHook E ''private.fetched'' username prvElem)))
         | _ \<Rightarrow> ud_reply E iq ''not-acceptable'')"

text \<open>The loop over the elements; \<open>finish\<close> is what follows it.\<close>

fun set_privates :: "'w data_env \<Rightarrow> element \<Rightarrow> string \<Rightarrow> element list \<Rightarrow> ('w, unit) go" where
  "set_privates E iq username [] = udRouteIgnore E (MakeResultIQ (udLib E) iq None)"
| "set_privates E iq username (prv # prvs) =
     (let ns = Attribute (udLib E) prv ''xmlns''
      in if \<not> isValidNamespace ns then ud_reply E iq ''not-acceptable''
         else andthen (ud_or_report E iq (UpsertPrivate (udPrivate E) prv ns username)) (\<lambda>_.
              andthen (udRunHook E ''private.updated'' username (Some prv)) (\<lambda>_.
                set_privates E iq username prvs)))"

definition setPrivate :: "'w data_env \<Rightarrow> element \<Rightarrow> element \<Rightarrow> ('w, unit) go" where
  "setPrivate E iq q =
     (if length (AllChildren q) = 0 then ud_reply E iq ''not-acceptable''
      else set_privates E iq (Node (FromJID (udLib E) iq)) (AllChildren q))"

definition privateProcessIQ :: "'w data_env \<Rightarrow> element \<Rightarrow> ('w, unit) go" where
  "privateProcessIQ E iq =
     (let X = udLib E
      in if \<not> MatchesBare X (FromJID X iq) (ToJID X iq) then ud_reply E iq ''forbidden''
         else case ChildNamespace X iq ''query'' privateNamespace of
                Some q \<Rightarrow> if IsGet X iq then getPrivate E iq q
                          else if IsSet X iq then setPrivate E iq q
                          else ud_reply E iq ''bad-request''
              | None \<Rightarrow> ud_reply E iq ''bad-request'')"

definition privateMatchesNamespace :: "string \<Rightarrow> bool \<Rightarrow> bool" where
  "privateMatchesNamespace namespace serverTarget \<longleftrightarrow> \<not> serverTarget \<and> namespace = privateNamespace"

definition privateOnUserDeleted :: "'w data_env \<Rightarrow> string \<Rightarrow> ('w, unit) go" where
  "privateOnUserDeleted E username = DeletePrivates (udPrivate E) username"

section \<open>vCards\<close>

definition getVCard :: "'w data_env \<Rightarrow> element \<Rightarrow> ('w, unit) go" where
  "getVCard E iq =
     (let X = udLib E; username = Node (ToJID X iq)
      in case ChildNamespace X iq ''vCard'' vCardNamespace of
           None \<Rightarrow> ud_reply E iq ''bad-request''
         | Some vc \<Rightarrow>
             if length (AllChildren vc) > 0 then ud_reply E iq ''bad-request''
             else andthen (ud_or_report E iq (FetchVCard (udVCard E) username)) (\<lambda>vCard.
                  andthen (udRouteIgnore E (MakeResultIQ X iq (Some
                    (case vCard of Some v \<Rightarrow> v | None \<Rightarrow> Element ''vCard'' [(''xmlns'', vCardNamespace)] [] [])))) (\<lambda>_.
                    udRunHook E ''vcard.fetched'' username vCard)))"

definition setVCard :: "'w data_env \<Rightarrow> element \<Rightarrow> ('w, unit) go" where
  "setVCard E iq =
     (let X = udLib E; fromJID = FromJID X iq; toJID = ToJID X iq
      in case ChildNamespace X iq ''vCard'' vCardNamespace of
           None \<Rightarrow> ud_reply E iq ''bad-request''
         | Some vCard \<Rightarrow>
             if \<not> (IsServer X toJID \<or> Node toJID = Node fromJID) then ud_reply E iq ''forbidden''
             else andthen (ud_or_report E iq (UpsertVCard (udVCard E) vCard (Node toJID))) (\<lambda>_.
                  andthen (udRouteIgnore E (MakeResultIQ X iq None)) (\<lambda>_.
                    udRunHook E ''vcard.updated'' (Node toJID) (Some vCard))))"

definition vcardProcessIQ :: "'w data_env \<Rightarrow> element \<Rightarrow> ('w, unit) go" where
  "vcardProcessIQ E iq =
     (if IsGet (udLib E) iq then getVCard E iq else if IsSet (udLib E) iq then setVCard E iq else ret ())"

definition vcardMatchesNamespace :: "string \<Rightarrow> bool \<Rightarrow> bool" where
  "vcardMatchesNamespace namespace serverTarget \<longleftrightarrow> namespace = vCardNamespace"

definition vcardOnUserDeleted :: "'w data_env \<Rightarrow> string \<Rightarrow> ('w, unit) go" where
  "vcardOnUserDeleted E username = DeleteVCard (udVCard E) username"

section \<open>Private elements over a repository\<close>

text \<open>The elements of a request, stored one after the other.\<close>

definition put_all :: "xlib \<Rightarrow> string \<Rightarrow> element list \<Rightarrow> (string \<times> string \<Rightarrow> element option) \<Rightarrow> string \<times> string \<Rightarrow> element option" where
  "put_all X u prvs e = fold (\<lambda>p e. e((Attribute X p ''xmlns'', u) \<mapsto> p)) prvs e"

lemma put_all_simps: "put_all X u [] e = e" "put_all X u (p # ps) e = put_all X u ps (e((Attribute X p ''xmlns'', u) \<mapsto> p))"
  by (simp_all add: put_all_def del: fun_upd_apply)

lemma put_all_last:
  "put_all X u prvs e (ns, v) =
     (if v = u \<and> (\<exists>p \<in> set prvs. Attribute X p ''xmlns'' = ns) then Some (last (filter (\<lambda>p. Attribute X p ''xmlns'' = ns) prvs)) else e (ns, v))"
  by (induction prvs arbitrary: e) (auto simp: put_all_simps filter_empty_conv)

locale private_module = entity_store I ents "\<lambda>k. FetchPrivate (udPrivate E) (fst k) (snd k)"
    "\<lambda>k v. UpsertPrivate (udPrivate E) v (fst k) (snd k)" "DeletePrivates (udPrivate E)" snd "\<lambda>_ _. True"
  for I and ents :: "'w \<Rightarrow> string \<times> string \<Rightarrow> element option" and E :: "'w data_env" +
  fixes log :: "'w \<Rightarrow> element list"
  assumes outside: "keeps (\<lambda>w. I w \<and> ents w = e) (udRoute E el)" "keeps (\<lambda>w. I w \<and> ents w = e) (udRunHook E h u x)"
    and route: "log (snd (udRoute E el w)) = log w @ [el]"
    and quiet: "keeps (\<lambda>w. log w = l) (udRunHook E h u x)" "keeps (\<lambda>w. log w = l) (FetchPrivate (udPrivate E) n u)"
begin

lemma report_ok: "ud_or_report E iq m w = (Inr x, w') \<Longrightarrow> m w = (Inr x, w')"
  by (cases "m w"; cases "fst (m w)") (auto simp: ud_or_report_def go_run split: if_splits prod.splits sum.splits)

lemma report_run: "m w = (Inr x, w') \<Longrightarrow> ud_or_report E iq m w = (Inr x, w')"
  by (simp add: ud_or_report_def go_run)

lemma set_privates_run:
  assumes "set_privates E iq u prvs w = (Inr (), w')" and "I w" and "\<forall>p \<in> set prvs. isValidNamespace (Attribute (udLib E) p ''xmlns'')"
  shows "I w' \<and> ents w' = put_all (udLib E) u prvs (ents w)"
  using assms
proof (induction prvs arbitrary: w)
  case Nil
  then have "w' = snd (udRoute E (MakeResultIQ (udLib E) iq None) w)" by (simp add: udRouteIgnore_def go_run)
  with keepsD [OF outside(1) [of "ents w"]] Nil.prems(2) show ?case by (simp add: put_all_simps del: fun_upd_apply)
next
  case (Cons p ps)
  let ?ns = "Attribute (udLib E) p ''xmlns''"
  from Cons.prems obtain w1 w2 where u: "UpsertPrivate (udPrivate E) p ?ns u w = (Inr (), w1)"
      and h: "udRunHook E ''private.updated'' u (Some p) w1 = (Inr (), w2)" and rest: "set_privates E iq u ps w2 = (Inr (), w')"
    by (auto simp: go_run Let_def dest!: report_ok split: prod.splits sum.splits)
  have w1: "I w1" "ents w1 = (ents w)((?ns, u) \<mapsto> p)" using upsert [OF Cons.prems(2), where k = "(?ns, u)" and v = p and t = "Inr ()" and w' = w1] u by auto
  have "I w2 \<and> ents w2 = ents w1" using keepsD [OF outside(2), of w1 "ents w1" "''private.updated''" u "Some p"] w1(1) h by simp
  with Cons.IH [OF rest] Cons.prems(3) w1 show ?case by (simp add: put_all_simps del: fun_upd_apply)
qed

lemma set_run:
  assumes "privateProcessIQ E iq w = (Inr (), w')" and "I w" and "MatchesBare (udLib E) (FromJID (udLib E) iq) (ToJID (udLib E) iq)"
    and "IsSet (udLib E) iq" and "\<not> IsGet (udLib E) iq" and "ChildNamespace (udLib E) iq ''query'' privateNamespace = Some q"
    and "AllChildren q \<noteq> []" and "\<forall>p \<in> set (AllChildren q). isValidNamespace (Attribute (udLib E) p ''xmlns'')"
  shows "I w' \<and> ents w' = put_all (udLib E) (Node (FromJID (udLib E) iq)) (AllChildren q) (ents w)"
  by (rule set_privates_run [OF _ assms(2,8)]) (use assms in \<open>simp add: privateProcessIQ_def setPrivate_def\<close>)

lemma get_run:
  assumes "privateProcessIQ E iq w = (Inr (), w')" and "I w" and "MatchesBare (udLib E) (FromJID (udLib E) iq) (ToJID (udLib E) iq)"
    and "IsGet (udLib E) iq" and "ChildNamespace (udLib E) iq ''query'' privateNamespace = Some q"
    and "AllChildren q = [prv]" and "AllChildren prv = []" and "isValidNamespace (Attribute (udLib E) prv ''xmlns'')"
  shows "log w' = log w @ [MakeResultIQ (udLib E) iq (Some (private_Element prv (Attribute (udLib E) prv ''xmlns'')
     (ents w (Attribute (udLib E) prv ''xmlns'', Node (FromJID (udLib E) iq)))))]"
proof -
  let ?ns = "Attribute (udLib E) prv ''xmlns''" and ?u = "Node (FromJID (udLib E) iq)"
  from assms obtain x w1 where f: "FetchPrivate (udPrivate E) ?ns ?u w = (Inr x, w1)"
      and rest: "w' = snd (udRunHook E ''private.fetched'' ?u x
        (snd (udRoute E (MakeResultIQ (udLib E) iq (Some (private_Element prv ?ns x))) w1)))"
    by (auto simp: privateProcessIQ_def getPrivate_def Let_def udRouteIgnore_def go_run dest!: report_ok split: prod.splits sum.splits)
  from fetch [OF assms(2), where k = "(?ns, ?u)" and r = "Inr x" and w' = w1] f have "x = ents w (?ns, ?u)" by simp
  moreover have "log w1 = log w" using keepsD [OF quiet(2), of w "log w" ?ns ?u] f by simp
  moreover have "log (snd (udRunHook E h u y v)) = log v" for h u y v using keepsD [OF quiet(1), of v "log v" h u y] by simp
  ultimately show ?thesis using rest by (simp add: route)
qed

end

section \<open>vCards over a repository\<close>

locale vcard_module = entity_store I ents "FetchVCard (udVCard E)" "\<lambda>u v. UpsertVCard (udVCard E) v u" "DeleteVCard (udVCard E)" "\<lambda>u. u" "\<lambda>_ _. True"
  for I and ents :: "'w \<Rightarrow> string \<Rightarrow> element option" and E :: "'w data_env" +
  assumes outside: "keeps (\<lambda>w. I w \<and> ents w = e) (udRoute E el)" "keeps (\<lambda>w. I w \<and> ents w = e) (udRunHook E h u x)"
begin

lemma vcard_report_ok: "ud_or_report E iq m w = (Inr x, w') \<Longrightarrow> m w = (Inr x, w')"
  by (cases "m w"; cases "fst (m w)") (auto simp: ud_or_report_def go_run split: if_splits prod.splits sum.splits)

lemma set_vcard_run:
  assumes "vcardProcessIQ E iq w = (Inr (), w')" and "I w" and "IsSet (udLib E) iq" and "\<not> IsGet (udLib E) iq"
    and "ChildNamespace (udLib E) iq ''vCard'' vCardNamespace = Some vc"
    and "Node (ToJID (udLib E) iq) = Node (FromJID (udLib E) iq) \<or> IsServer (udLib E) (ToJID (udLib E) iq)"
  shows "I w' \<and> ents w' = (ents w)(Node (ToJID (udLib E) iq) \<mapsto> vc)"
proof -
  let ?u = "Node (ToJID (udLib E) iq)"
  from assms(1,3-6) obtain w1 where u: "UpsertVCard (udVCard E) vc ?u w = (Inr (), w1)"
      and rest: "w' = snd (udRunHook E ''vcard.updated'' ?u (Some vc) (snd (udRoute E (MakeResultIQ (udLib E) iq None) w1)))"
    by (auto simp: vcardProcessIQ_def setVCard_def Let_def udRouteIgnore_def go_run dest!: vcard_report_ok split: prod.splits sum.splits if_splits)
  let ?e = "(ents w)(?u \<mapsto> vc)"
  from upsert [OF assms(2), where k = ?u and v = vc and t = "Inr ()" and w' = w1] u have "I w1 \<and> ents w1 = ?e" by simp
  then have "I (snd (udRoute E (MakeResultIQ (udLib E) iq None) w1)) \<and> ents (snd (udRoute E (MakeResultIQ (udLib E) iq None) w1)) = ?e"
    by (rule keepsD [OF outside(1)])
  then show ?thesis unfolding rest by (rule keepsD [OF outside(2)])
qed

end

section \<open>On the embedded back end\<close>

definition bolt_data_env ::
  "'d bolt \<Rightarrow> element bcodec \<Rightarrow> element bcodec \<Rightarrow> 'r data_outside \<Rightarrow> ('d, 'r) db_world data_env" where
  "bolt_data_env B VC PC G = \<lparr>udLib = udLib G, udRoute = (\<lambda>el. on_rest (udRoute G el)),
     udRunHook = (\<lambda>h u x. on_rest (udRunHook G h u x)), udPrivate = boltPrivateRep B PC, udVCard = boltVCardRep B VC\<rparr>"

context bolt_repos
begin

lemma private_on_bolt:
  assumes "\<And>el r. log (snd (udRoute G el r)) = log r @ [el]" and "\<And>h u x r. log (snd (udRunHook G h u x r)) = log r"
  shows "private_module (\<lambda>_. True) priv.ents (bolt_data_env B VC PC G) (\<lambda>w. log (dbRest w))"
proof (rule private_module.intro)
  let ?E = "bolt_data_env B VC PC G"
  show "entity_store (\<lambda>_. True) priv.ents (\<lambda>k. FetchPrivate (udPrivate ?E) (fst k) (snd k))
      (\<lambda>k v. UpsertPrivate (udPrivate ?E) v (fst k) (snd k)) (DeletePrivates (udPrivate ?E)) snd (\<lambda>_ _. True)"
    using private_store by (simp add: bolt_data_env_def)
  show "private_module_axioms (\<lambda>_. True) priv.ents ?E (\<lambda>w. log (dbRest w))"
  proof
    fix l n u
    show "keeps (\<lambda>w. log (dbRest w) = l) (FetchPrivate (udPrivate ?E) n u)"
      by (simp add: bolt_data_env_def boltPrivateRep_def keeps_def db_View_def split: prod.split sum.split)
  qed (simp_all add: bolt_data_env_def keeps_def on_rest_parts assms)
qed

lemma vcard_on_bolt: "vcard_module (\<lambda>_. True) vcard.ents (bolt_data_env B VC PC G)"
proof (rule vcard_module.intro)
  let ?E = "bolt_data_env B VC PC G"
  show "entity_store (\<lambda>_. True) vcard.ents (FetchVCard (udVCard ?E)) (\<lambda>u v. UpsertVCard (udVCard ?E) v u) (DeleteVCard (udVCard ?E)) (\<lambda>u. u) (\<lambda>_ _. True)"
    using vcard_store by (simp add: bolt_data_env_def)
  show "vcard_module_axioms (\<lambda>_. True) vcard.ents ?E" by unfold_locales (simp_all add: bolt_data_env_def keeps_def on_rest_parts)
qed

end

section \<open>Properties\<close>

text \<open>
  What a user stores he reads back: after a request that stores elements, a request for one of their
  namespaces is answered with the children of the last element of that namespace, and a request
  for another namespace with what was stored before.
\<close>

theorem private_roundtrip:
  assumes "private_module I ents E log" and "I w"
    and "privateProcessIQ E set_iq w = (Inr (), w1)" and "privateProcessIQ E get_iq w1 = (Inr (), w2)"
    and "\<forall>iq \<in> {set_iq, get_iq}. MatchesBare (udLib E) (FromJID (udLib E) iq) (ToJID (udLib E) iq) \<and> Node (FromJID (udLib E) iq) = u"
    and "IsSet (udLib E) set_iq" and "\<not> IsGet (udLib E) set_iq" and "IsGet (udLib E) get_iq"
    and "ChildNamespace (udLib E) set_iq ''query'' privateNamespace = Some q" and "AllChildren q = prvs" and "prvs \<noteq> []"
    and "\<forall>p \<in> set prvs. isValidNamespace (Attribute (udLib E) p ''xmlns'')"
    and "ChildNamespace (udLib E) get_iq ''query'' privateNamespace = Some q'" and "AllChildren q' = [prv]"
    and "AllChildren prv = []" and "ns = Attribute (udLib E) prv ''xmlns''" and "isValidNamespace ns"
  shows "log w2 = log w1 @ [MakeResultIQ (udLib E) get_iq (Some (private_Element prv ns
     (if \<exists>p \<in> set prvs. Attribute (udLib E) p ''xmlns'' = ns
      then Some (last (filter (\<lambda>p. Attribute (udLib E) p ''xmlns'' = ns) prvs)) else ents w (ns, u))))]"
proof -
  have "I w1 \<and> ents w1 = put_all (udLib E) u prvs (ents w)"
    using private_module.set_run [OF assms(1) assms(3) assms(2) _ assms(6,7,9)] assms(5,10,11,12) by simp
  then show ?thesis
    using private_module.get_run [OF assms(1) assms(4) _ _ assms(8,13,14,15)] assms(5,16,17) by (simp add: put_all_last)
qed

text \<open>
  The right to replace a vCard depends on the node of the addresses only: a request from another
  server whose sender is called like a local user replaces the vCard of that user.
\<close>

theorem vcard_replaced_by_stranger:
  assumes "vcard_module I ents E" and "I w" and "vcardProcessIQ E iq w = (Inr (), w')"
    and "IsSet (udLib E) iq" and "\<not> IsGet (udLib E) iq" and "ChildNamespace (udLib E) iq ''vCard'' vCardNamespace = Some vc"
    and "Node (FromJID (udLib E) iq) = Node (ToJID (udLib E) iq)" and "Domain (FromJID (udLib E) iq) \<noteq> Domain (ToJID (udLib E) iq)"
  shows "ents w' = (ents w)(Node (ToJID (udLib E) iq) \<mapsto> vc)"
  using vcard_module.set_vcard_run [OF assms(1,3,2,4,5,6)] assms(7) by simp

section \<open>An example\<close>

definition data_rest :: "element list data_outside" where
  "data_rest = \<lparr>udLib = std_lib, udRoute = (\<lambda>el w. (Inr [], w @ [el])), udRunHook = (\<lambda>h u x. ret ())\<rparr>"

definition prefs :: element where
  "prefs = Element ''exodus'' [(''xmlns'', ''exodus:prefs'')] [] [Element ''nick'' [] ''ana'' []]"

definition prefs_codec :: "element bcodec" where
  "prefs_codec = \<lparr>MarshalBinary = (\<lambda>e. if e = prefs then Inr ''p'' else Inl (ErrText ''encode'')), UnmarshalBinary = (\<lambda>s. Inr prefs)\<rparr>"

definition forged_card :: element where
  "forged_card = Element ''vCard'' [(''xmlns'', ''vcard-temp'')] [] [Element ''FN'' [] ''nobody'' []]"

definition card_codec :: "element bcodec" where
  "card_codec = \<lparr>MarshalBinary = (\<lambda>e. if e = forged_card then Inr ''c'' else Inl (ErrText ''encode'')), UnmarshalBinary = (\<lambda>s. Inr forged_card)\<rparr>"

definition no_bytes :: "'a bcodec" where
  "no_bytes = \<lparr>MarshalBinary = (\<lambda>e. Inl (ErrText ''encode'')), UnmarshalBinary = (\<lambda>s. Inl (ErrText ''decode''))\<rparr>"

interpretation demo_repos: bolt_repos mem_bolt mem_view mem_seq no_bytes no_bytes card_codec prefs_codec
  by unfold_locales (simp_all add: codec_ok_def prefs_codec_def card_codec_def no_bytes_def)

definition data_demo :: "(mem_db, element list) db_world data_env" where
  "data_demo = bolt_data_env mem_bolt card_codec prefs_codec data_rest"

interpretation demo_private: private_module "\<lambda>_. True" demo_repos.priv.ents data_demo dbRest
  unfolding data_demo_def by (rule demo_repos.private_on_bolt [where log = "\<lambda>r. r"]) (simp_all add: data_rest_def go_run)

interpretation demo_vcard: vcard_module "\<lambda>_. True" demo_repos.vcard.ents data_demo
  unfolding data_demo_def by (rule demo_repos.vcard_on_bolt)

definition private_iq :: "string \<Rightarrow> element \<Rightarrow> element" where
  "private_iq typ el = Element ''iq'' [(''type'', typ), (''from'', ''ana@x/a''), (''to'', ''ana@x'')] []
     [Element ''query'' [(''xmlns'', ''jabber:iq:private'')] [] [el]]"

definition data_start :: "(mem_db, element list) db_world" where
  "data_start = \<lparr>dbState = Map.empty, dbRest = []\<rparr>"

definition data_stored :: "(mem_db, element list) db_world" where
  "data_stored = snd (privateProcessIQ data_demo (private_iq ''set'' prefs) data_start)"

definition data_read :: "(mem_db, element list) db_world" where
  "data_read = snd (privateProcessIQ data_demo (private_iq ''get'' (Element ''exodus'' [(''xmlns'', ''exodus:prefs'')] [] [])) data_stored)"

theorem private_roundtrip_witness:
  "dbRest data_read = dbRest data_stored @ [MakeResultIQ std_lib (private_iq ''get'' (Element ''exodus'' [(''xmlns'', ''exodus:prefs'')] [] []))
     (Some (Element ''query'' [(''xmlns'', ''jabber:iq:private'')] [] [Element ''exodus'' [(''xmlns'', ''exodus:prefs'')] [] [Element ''nick'' [] ''ana'' []]]))]"
proof -
  let ?g = "Element ''exodus'' [(''xmlns'', ''exodus:prefs'')] [] []"
  have lib: "udLib data_demo = std_lib" by (simp add: data_demo_def bolt_data_env_def data_rest_def)
  have r: "fst (privateProcessIQ data_demo (private_iq ''set'' prefs) data_start) = Inr ()"
    "fst (privateProcessIQ data_demo (private_iq ''get'' ?g) data_stored) = Inr ()" by code_simp+
  have run: "privateProcessIQ data_demo (private_iq ''set'' prefs) data_start = (Inr (), data_stored)"
    "privateProcessIQ data_demo (private_iq ''get'' ?g) data_stored = (Inr (), data_read)"
    using r by (simp_all add: prod_eq_iff data_stored_def data_read_def)
  have h: "\<forall>iq \<in> {private_iq ''set'' prefs, private_iq ''get'' ?g}. MatchesBare std_lib (FromJID std_lib iq) (ToJID std_lib iq) \<and> Node (FromJID std_lib iq) = ''ana''"
    "IsSet std_lib (private_iq ''set'' prefs)" "\<not> IsGet std_lib (private_iq ''set'' prefs)" "IsGet std_lib (private_iq ''get'' ?g)"
    "ChildNamespace std_lib (private_iq ''set'' prefs) ''query'' privateNamespace = Some (hd (AllChildren (private_iq ''set'' prefs)))"
    "AllChildren (hd (AllChildren (private_iq ''set'' prefs))) = [prefs]" "[prefs] \<noteq> []"
    "\<forall>p \<in> set [prefs]. isValidNamespace (Attribute std_lib p ''xmlns'')"
    "ChildNamespace std_lib (private_iq ''get'' ?g) ''query'' privateNamespace = Some (hd (AllChildren (private_iq ''get'' ?g)))"
    "AllChildren (hd (AllChildren (private_iq ''get'' ?g))) = [?g]" "AllChildren ?g = []" "''exodus:prefs'' = Attribute std_lib ?g ''xmlns''"
    "isValidNamespace ''exodus:prefs''" by code_simp+
  have p: "Attribute std_lib prefs ''xmlns'' = ''exodus:prefs''" by code_simp
  from private_roundtrip [OF demo_private.private_module_axioms TrueI run h [folded lib]] p show ?thesis
    by (simp add: lib private_Element_def prefs_def privateNamespace_def)
qed

definition forged_iq :: element where
  "forged_iq = Element ''iq'' [(''type'', ''set''), (''from'', ''ana@evil/a''), (''to'', ''ana@x'')] [] [forged_card]"

definition data_forged :: "(mem_db, element list) db_world" where
  "data_forged = snd (vcardProcessIQ data_demo forged_iq data_start)"

theorem vcard_replaced_by_stranger_witness: "demo_repos.vcard.ents data_forged ''ana'' = Some forged_card"
proof -
  have lib: "udLib data_demo = std_lib" by (simp add: data_demo_def bolt_data_env_def data_rest_def)
  have "fst (vcardProcessIQ data_demo forged_iq data_start) = Inr ()" by code_simp
  then have run: "vcardProcessIQ data_demo forged_iq data_start = (Inr (), data_forged)" by (simp add: prod_eq_iff data_forged_def)
  have h: "IsSet std_lib forged_iq" "\<not> IsGet std_lib forged_iq" "ChildNamespace std_lib forged_iq ''vCard'' vCardNamespace = Some forged_card"
    "Node (FromJID std_lib forged_iq) = Node (ToJID std_lib forged_iq)" "Domain (FromJID std_lib forged_iq) \<noteq> Domain (ToJID std_lib forged_iq)"
    by code_simp+
  have n: "Node (ToJID std_lib forged_iq) = ''ana''" by code_simp
  from vcard_replaced_by_stranger [OF demo_vcard.vcard_module_axioms TrueI run h [folded lib]] n show ?thesis by (simp add: lib)
qed

end
