(* ===== verification/Last_Activity.thy ===== *)
theory Last_Activity
  imports Entity_Store Roster_Store
begin

text \<open>
  Last activity (\<^verbatim>\<open>src/pkg/module/xep0012/last.go\<close>, XEP-0012): when a user was last seen, for those his
  roster allows to know. \<open>last_module\<close> are collaborators that answer; the lemmas give the answer to
  every request and what an unavailable presence stores.
\<close>

section \<open>Environment\<close>

record 'w last_outside =
  lsLib :: xlib
  lsStatus :: "element \<Rightarrow> string" \<comment> \<open>the status of a presence, of the XML package\<close>
  lsIsLocalHost :: "string \<Rightarrow> bool"
  lsRoute :: "element \<Rightarrow> ('w, jid list) go"
  lsGetResources :: "string \<Rightarrow> ('w, resource_desc list) go"
  lsRunHook :: "string \<Rightarrow> string \<Rightarrow> jid \<Rightarrow> ('w, unit) go"
  lsNow :: "('w, int) go" \<comment> \<open>seconds\<close>
  lsStartedAt :: int

record 'w last_env = "'w last_outside" +
  lsRep :: "'w last_rep"
  lsFetchRosterItem :: "string \<Rightarrow> string \<Rightarrow> ('w, roster_item option) go"

definition lastActivityNamespace :: string where "lastActivityNamespace = ''jabber:iq:last''"

definition lsRouteIgnore :: "'w last_env \<Rightarrow> element \<Rightarrow> ('w, unit) go" where
  "lsRouteIgnore E el = ignore (lsRoute E el)"

section \<open>Operations\<close>

definition last_Element :: "int \<Rightarrow> string \<Rightarrow> element" where
  "last_Element seconds status = Element ''query'' [(''xmlns'', lastActivityNamespace), (''seconds'', itoa seconds)] status []"

definition sendReply :: "'w last_env \<Rightarrow> element \<Rightarrow> int \<Rightarrow> string \<Rightarrow> ('w, unit) go" where
  "sendReply E iq seconds status = lsRouteIgnore E (MakeResultIQ (lsLib E) iq (Some (last_Element seconds status)))"

definition lsIsSubscribedTo :: "'w last_env \<Rightarrow> jid \<Rightarrow> jid \<Rightarrow> ('w, bool) go" where
  "lsIsSubscribedTo E contactJID userJID =
     (if MatchesBare (lsLib E) contactJID userJID then ret True
      else andthen (lsFetchRosterItem E (Node contactJID) (JIDString (lsLib E) (ToBareJID (lsLib E) userJID))) (\<lambda>ri.
        ret (case ri of None \<Rightarrow> False | Some ri \<Rightarrow> riSubscription ri = ''from'' \<or> riSubscription ri = ''both'')))"

definition getServerLastActivity :: "'w last_env \<Rightarrow> element \<Rightarrow> ('w, unit) go" where
  "getServerLastActivity E iq =
     andthen (lsNow E) (\<lambda>now.
     andthen (sendReply E iq (now - lsStartedAt E) []) (\<lambda>_.
       lsRunHook E ''last.fetched'' (Node (FromJID (lsLib E) iq)) (ToJID (lsLib E) iq)))"

definition getAccountLastActivity :: "'w last_env \<Rightarrow> element \<Rightarrow> ('w, unit) go" where
  "getAccountLastActivity E iq =
     (let fromJID = FromJID (lsLib E) iq; toJID = ToJID (lsLib E) iq
      in andthen (lsIsSubscribedTo E toJID fromJID) (\<lambda>ok.
           if \<not> ok then lsRouteIgnore E (MakeErrorStanza (lsLib E) iq ''forbidden'')
           else andthen (lsGetResources E (Node toJID)) (\<lambda>rss.
             if length rss > 0 then sendReply E iq 0 []
             else andthen (FetchLast (lsRep E) (Node toJID)) (\<lambda>lst.
               case lst of
                 None \<Rightarrow> lsRouteIgnore E (MakeErrorStanza (lsLib E) iq ''item-not-found'')
               | Some l \<Rightarrow>
                   andthen (lsNow E) (\<lambda>now.
                   andthen (sendReply E iq (now - laSeconds l) (laStatus l)) (\<lambda>_.
                     lsRunHook E ''last.fetched'' (Node fromJID) toJID))))))"

definition getLastActivity :: "'w last_env \<Rightarrow> element \<Rightarrow> ('w, unit) go" where
  "getLastActivity E iq = (if IsServer (lsLib E) (ToJID (lsLib E) iq) then getServerLastActivity E iq else getAccountLastActivity E iq)"

definition lastProcessIQ :: "'w last_env \<Rightarrow> element \<Rightarrow> ('w, unit) go" where
  "lastProcessIQ E iq =
     (if IsGet (lsLib E) iq \<and> ChildNamespace (lsLib E) iq ''query'' lastActivityNamespace \<noteq> None then getLastActivity E iq
      else lsRouteIgnore E (MakeErrorStanza (lsLib E) iq ''bad-request''))"

definition lastMatchesNamespace :: "string \<Rightarrow> bool \<Rightarrow> bool" where
  "lastMatchesNamespace namespace serverTarget \<longleftrightarrow> namespace = lastActivityNamespace"

text \<open>Requests to connected resources pass through only for subscribed users.\<close>

definition processIncomingIQ :: "'w last_env \<Rightarrow> element \<Rightarrow> ('w, unit) go" where
  "processIncomingIQ E iq =
     (let X = lsLib E; toJID = ToJID X iq
      in if \<not> lsIsLocalHost E (Domain toJID) \<or> \<not> IsFullWithUser X toJID \<or> ChildNamespace X iq ''query'' lastActivityNamespace = None
         then ret ()
         else andthen (lsIsSubscribedTo E toJID (FromJID X iq)) (\<lambda>ok.
           if \<not> ok then andthen (lsRouteIgnore E (MakeErrorStanza X iq ''forbidden'')) (\<lambda>_. throw ErrStopped)
           else ret ()))"

definition lastOnElementRecv :: "'w last_env \<Rightarrow> element \<Rightarrow> ('w, unit) go" where
  "lastOnElementRecv E el = (if StanzaKind (lsLib E) el \<noteq> IQKind then ret () else processIncomingIQ E el)"

definition processC2SPresence :: "'w last_env \<Rightarrow> element \<Rightarrow> ('w, unit) go" where
  "processC2SPresence E pr =
     (let X = lsLib E; fromJID = FromJID X pr; toJID = ToJID X pr
      in if \<not> IsUnavailable X pr \<or> \<not> IsBare X toJID \<or> Node fromJID \<noteq> Node toJID then ret ()
         else andthen (lsNow E) (\<lambda>now.
           UpsertLast (lsRep E) \<lparr>laUsername = Node fromJID, laSeconds = now, laStatus = lsStatus E pr\<rparr>))"

definition lastOnUserDeleted :: "'w last_env \<Rightarrow> string \<Rightarrow> ('w, unit) go" where
  "lastOnUserDeleted E username = DeleteLast (lsRep E) username"

section \<open>Answers\<close>

definition last_allowed :: "xlib \<Rightarrow> (string \<Rightarrow> string \<Rightarrow> roster_item option) \<Rightarrow> jid \<Rightarrow> jid \<Rightarrow> bool" where
  "last_allowed X roster contact user \<longleftrightarrow> MatchesBare X contact user \<or>
     (case roster (Node contact) (JIDString X (ToBareJID X user)) of
        None \<Rightarrow> False | Some ri \<Rightarrow> riSubscription ri = ''from'' \<or> riSubscription ri = ''both'')"

definition last_answer ::
  "xlib \<Rightarrow> (string \<Rightarrow> string \<Rightarrow> roster_item option) \<Rightarrow> (string \<Rightarrow> resource_desc list) \<Rightarrow> (string \<Rightarrow> last_model option) \<Rightarrow> int \<Rightarrow> element \<Rightarrow> element" where
  "last_answer X roster resources ents now iq =
     (let u = Node (ToJID X iq)
      in if \<not> last_allowed X roster (ToJID X iq) (FromJID X iq) then MakeErrorStanza X iq ''forbidden''
         else if resources u \<noteq> [] then MakeResultIQ X iq (Some (last_Element 0 []))
         else case ents u of
                None \<Rightarrow> MakeErrorStanza X iq ''item-not-found''
              | Some l \<Rightarrow> MakeResultIQ X iq (Some (last_Element (now - laSeconds l) (laStatus l))))"

locale last_module = entity_store I ents "FetchLast (lsRep E)" "\<lambda>_. UpsertLast (lsRep E)" "DeleteLast (lsRep E)" "\<lambda>u. u" "\<lambda>u v. laUsername v = u"
  for I and ents :: "'w \<Rightarrow> string \<Rightarrow> last_model option" and E :: "'w last_env" +
  fixes roster :: "'w \<Rightarrow> string \<Rightarrow> string \<Rightarrow> roster_item option" and resources :: "'w \<Rightarrow> string \<Rightarrow> resource_desc list"
    and clock :: "'w \<Rightarrow> int" and log :: "'w \<Rightarrow> element list"
  assumes item: "lsFetchRosterItem E u j w = (Inr (roster w u j), w)"
    and ress: "lsGetResources E u w = (Inr (resources w u), w)"
    and now: "lsNow E w = (Inr (clock w), w)"
    and route: "log (snd (lsRoute E el w)) = log w @ [el]"
    and hook: "log (snd (lsRunHook E h u jd w)) = log w"
    and fetched: "FetchLast (lsRep E) u w = (rf, w') \<Longrightarrow> log w' = log w \<and> clock w' = clock w"
begin

lemma allowed_run: "lsIsSubscribedTo E contact user w = (Inr (last_allowed (lsLib E) (roster w) contact user), w)"
  by (auto simp: lsIsSubscribedTo_def last_allowed_def go_run item split: option.split)

lemma account_run:
  assumes "getAccountLastActivity E iq w = (Inr (), w')" and "I w"
  shows "log w' = log w @ [last_answer (lsLib E) (roster w) (resources w) (ents w) (clock w) iq]"
proof -
  let ?u = "Node (ToJID (lsLib E) iq)"
  obtain rf w1 where f: "FetchLast (lsRep E) ?u w = (rf, w1)" by fastforce
  note l = fetched [OF f]
  have x: "x = ents w ?u" if "rf = Inr x" for x using fetch [OF assms(2) f] that by simp
  have r: "(snd (lsRunHook E h u j (snd (lsRoute E el v)))) = w' \<Longrightarrow> log w' = log v @ [el]" for h u j el v by (auto simp: hook route)
  show ?thesis
  proof (cases "last_allowed (lsLib E) (roster w) (ToJID (lsLib E) iq) (FromJID (lsLib E) iq) \<and> resources w ?u = []")
    case False
    with assms show ?thesis
      by (auto simp: getAccountLastActivity_def Let_def last_answer_def go_run allowed_run ress sendReply_def lsRouteIgnore_def route split: if_splits)
  next
    case True
    with assms(1) f have run: "(case rf of Inl e \<Rightarrow> (Inl e, w1) | Inr lst \<Rightarrow> (case lst of
         None \<Rightarrow> lsRouteIgnore E (MakeErrorStanza (lsLib E) iq ''item-not-found'')
       | Some l \<Rightarrow> andthen (lsNow E) (\<lambda>now. andthen (sendReply E iq (now - laSeconds l) (laStatus l)) (\<lambda>_.
           lsRunHook E ''last.fetched'' (Node (FromJID (lsLib E) iq)) (ToJID (lsLib E) iq)))) w1) = (Inr (), w')"
      by (auto simp: getAccountLastActivity_def Let_def go_run allowed_run ress split: sum.splits)
    then obtain lst where lst: "rf = Inr lst" by (cases rf) auto
    show ?thesis
    proof (cases lst)
      case None
      with run lst True x [OF lst] l show ?thesis by (auto simp: last_answer_def Let_def lsRouteIgnore_def go_run route)
    next
      case (Some a)
      with run lst have "snd (lsRunHook E ''last.fetched'' (Node (FromJID (lsLib E) iq)) (ToJID (lsLib E) iq)
          (snd (lsRoute E (MakeResultIQ (lsLib E) iq (Some (last_Element (clock w1 - laSeconds a) (laStatus a)))) w1))) = w'"
        by (simp add: go_run now sendReply_def lsRouteIgnore_def)
      from r [OF this] Some lst True x [OF lst] l show ?thesis by (simp add: last_answer_def Let_def)
    qed
  qed
qed

lemma presence_run:
  assumes "processC2SPresence E pr w = (Inr (), w')" and "I w"
    and "IsUnavailable (lsLib E) pr" and "IsBare (lsLib E) (ToJID (lsLib E) pr)" and "u = Node (FromJID (lsLib E) pr)" and "Node (ToJID (lsLib E) pr) = u"
  shows "ents w' = (ents w)(u \<mapsto> \<lparr>laUsername = u, laSeconds = clock w, laStatus = lsStatus E pr\<rparr>)"
proof -
  let ?l = "\<lparr>laUsername = u, laSeconds = clock w, laStatus = lsStatus E pr\<rparr>"
  from assms have "UpsertLast (lsRep E) ?l w = (Inr (), w')" by (simp add: processC2SPresence_def go_run now)
  from upsert [OF assms(2) _ this, of u] show ?thesis by simp
qed

end

section \<open>On the embedded back end\<close>

definition bolt_last_env ::
  "'d bolt \<Rightarrow> last_model bcodec \<Rightarrow> (string \<Rightarrow> string \<Rightarrow> (('d, 'r) db_world, roster_item option) go) \<Rightarrow> 'r last_outside \<Rightarrow> ('d, 'r) db_world last_env" where
  "bolt_last_env B LC fetch_item G = \<lparr>lsLib = lsLib G, lsStatus = lsStatus G, lsIsLocalHost = lsIsLocalHost G,
     lsRoute = (\<lambda>el. on_rest (lsRoute G el)), lsGetResources = (\<lambda>u. on_rest (lsGetResources G u)),
     lsRunHook = (\<lambda>h u j. on_rest (lsRunHook G h u j)), lsNow = on_rest (lsNow G), lsStartedAt = lsStartedAt G,
     lsRep = boltLastRep B LC, lsFetchRosterItem = fetch_item\<rparr>"

context bolt_repos
begin

lemma last_on_bolt:
  assumes "\<And>u j w. fetch_item u j w = (Inr (roster w u j), w)" and "\<And>u r. lsGetResources G u r = (Inr (resources r u), r)"
    and "\<And>r. lsNow G r = (Inr (clock r), r)" and "\<And>el r. log (snd (lsRoute G el r)) = log r @ [el]"
    and "\<And>h u j r. log (snd (lsRunHook G h u j r)) = log r"
  shows "last_module (\<lambda>_. True) last.ents (bolt_last_env B LC fetch_item G) roster (\<lambda>w. resources (dbRest w))
    (\<lambda>w. clock (dbRest w)) (\<lambda>w. log (dbRest w))"
proof (rule last_module.intro)
  let ?E = "bolt_last_env B LC fetch_item G"
  show "entity_store (\<lambda>_. True) last.ents (FetchLast (lsRep ?E)) (\<lambda>_. UpsertLast (lsRep ?E)) (DeleteLast (lsRep ?E)) (\<lambda>u. u) (\<lambda>u v. laUsername v = u)"
    using last_store by (simp add: bolt_last_env_def)
  show "last_module_axioms ?E roster (\<lambda>w. resources (dbRest w)) (\<lambda>w. clock (dbRest w)) (\<lambda>w. log (dbRest w))"
  proof
    fix u w rf w' assume "FetchLast (lsRep ?E) u w = (rf, w')"
    then have "w' = w" by (auto simp: bolt_last_env_def boltLastRep_def db_View_def split: prod.splits sum.splits)
    then show "log (dbRest w') = log (dbRest w) \<and> clock (dbRest w') = clock (dbRest w)" by simp
  next
    show "log (dbRest (snd (lsRoute ?E el w))) = log (dbRest w) @ [el]" for el w by (simp add: bolt_last_env_def on_rest_parts assms)
    show "log (dbRest (snd (lsRunHook ?E h u jd w))) = log (dbRest w)" for h u jd w by (simp add: bolt_last_env_def on_rest_parts assms)
  qed (simp_all add: bolt_last_env_def on_rest_def assms)
qed

end

section \<open>Properties\<close>

text \<open>
  A request for the last activity of an account is answered exactly as it should: forbidden unless it
  comes from the account itself or from someone the account's roster grants a subscription, zero
  seconds while the user is connected, then the time since the presence with which he left, with its
  status, and not found if he was never seen. The collaborators are assumed to answer.
\<close>

theorem last_activity_answered:
  assumes "last_module I ents E roster resources clock log" and "I w" and "lastProcessIQ E iq w = (Inr (), w')"
    and "IsGet (lsLib E) iq" and "ChildNamespace (lsLib E) iq ''query'' lastActivityNamespace \<noteq> None"
    and "\<not> IsServer (lsLib E) (ToJID (lsLib E) iq)"
  shows "log w' = log w @ [last_answer (lsLib E) (roster w) (resources w) (ents w) (clock w) iq]"
  by (rule last_module.account_run [OF assms(1) _ assms(2)])
    (use assms(3-6) in \<open>simp add: lastProcessIQ_def getLastActivity_def\<close>)

section \<open>An example\<close>

definition last_rest :: "(int \<times> element list) last_outside" where
  "last_rest = \<lparr>lsLib = std_lib, lsStatus = (\<lambda>p. Text p), lsIsLocalHost = (\<lambda>d. d = ''x''), lsRoute = (\<lambda>el (t, l). (Inr [], (t + 5, l @ [el]))),
     lsGetResources = (\<lambda>u. ret []), lsRunHook = (\<lambda>h u j. ret ()), lsNow = (\<lambda>(t, l). (Inr t, (t, l))), lsStartedAt = 0\<rparr>"

definition seen_codec :: "last_model bcodec" where
  "seen_codec = \<lparr>MarshalBinary = (\<lambda>m. if laUsername m = ''ana'' \<and> laStatus m = [] \<and> laSeconds m = 7 then Inr ''s'' else Inl (ErrText ''encode'')),
     UnmarshalBinary = (\<lambda>s. Inr \<lparr>laUsername = ''ana'', laSeconds = 7, laStatus = []\<rparr>)\<rparr>"

definition none_codec :: "'a bcodec" where
  "none_codec = \<lparr>MarshalBinary = (\<lambda>e. Inl (ErrText ''encode'')), UnmarshalBinary = (\<lambda>s. Inl (ErrText ''decode''))\<rparr>"

definition last_roster :: "'w \<Rightarrow> string \<Rightarrow> string \<Rightarrow> roster_item option" where
  "last_roster w u j = (if u = ''ana'' \<and> j = ''bob@y'' then Some \<lparr>riUsername = u, riJid = j, riName = [],
     riSubscription = ''both'', riAsk = False, riGroups = []\<rparr> else None)"

definition last_demo :: "(mem_db, int \<times> element list) db_world last_env" where
  "last_demo = bolt_last_env mem_bolt seen_codec (\<lambda>u j w. (Inr (last_roster w u j), w)) last_rest"

interpretation demo_last_repos: bolt_repos mem_bolt mem_view mem_seq none_codec seen_codec none_codec none_codec
  by unfold_locales (auto simp: codec_ok_def seen_codec_def none_codec_def)

interpretation demo_last: last_module "\<lambda>_. True" demo_last_repos.last.ents last_demo last_roster "\<lambda>w u. []" "\<lambda>w. fst (dbRest w)" "\<lambda>w. snd (dbRest w)"
  unfolding last_demo_def
  by (rule demo_last_repos.last_on_bolt [where resources = "\<lambda>r u. []" and clock = fst and log = snd]) (auto simp: last_rest_def go_run)

definition last_left :: "(mem_db, int \<times> element list) db_world" where
  "last_left = snd (processC2SPresence last_demo
     (Element ''presence'' [(''from'', ''ana@x/a''), (''to'', ''ana@x''), (''type'', ''unavailable'')] [] []) \<lparr>dbState = Map.empty, dbRest = (7, [])\<rparr>)"

definition last_later :: "(mem_db, int \<times> element list) db_world" where
  "last_later = last_left\<lparr>dbRest := (19, [])\<rparr>"

definition last_request :: element where
  "last_request = Element ''iq'' [(''type'', ''get''), (''from'', ''bob@y/b''), (''to'', ''ana@x'')] []
     [Element ''query'' [(''xmlns'', ''jabber:iq:last'')] [] []]"

theorem last_activity_answered_witness:
  "snd (dbRest (snd (lastProcessIQ last_demo last_request last_later))) = [MakeResultIQ std_lib last_request (Some (last_Element 12 []))]"
proof -
  have lib: "lsLib last_demo = std_lib" by (simp add: last_demo_def bolt_last_env_def last_rest_def)
  have "fst (lastProcessIQ last_demo last_request last_later) = Inr ()" by code_simp
  then have run: "lastProcessIQ last_demo last_request last_later = (Inr (), snd (lastProcessIQ last_demo last_request last_later))"
    by (simp add: prod_eq_iff)
  have h: "IsGet std_lib last_request" "ChildNamespace std_lib last_request ''query'' lastActivityNamespace \<noteq> None"
    "\<not> IsServer std_lib (ToJID std_lib last_request)" by code_simp+
  have e: "demo_last_repos.last.ents last_later ''ana'' = Some \<lparr>laUsername = ''ana'', laSeconds = 7, laStatus = []\<rparr>" by code_simp
  have a: "last_allowed std_lib (last_roster last_later) (ToJID std_lib last_request) (FromJID std_lib last_request)"
    "Node (ToJID std_lib last_request) = ''ana''" "dbRest last_later = (19, [])" by (code_simp, code_simp, simp add: last_later_def)
  from last_activity_answered [OF demo_last.last_module_axioms TrueI run h [folded lib]] show ?thesis
    by (simp add: lib last_answer_def Let_def a e)
qed

end
