(* ===== verification/Ping.thy ===== *)
theory Ping
  imports Xmpp
begin

text \<open>
  Pings (\<^verbatim>\<open>src/pkg/module/xep0199/ping.go\<close>, XEP-0199), the software version
  (\<^verbatim>\<open>src/pkg/module/xep0092/version.go\<close>, XEP-0092) and the time of the server
  (\<^verbatim>\<open>src/pkg/module/xep0202/time.go\<close>, XEP-0202).

  The ping module keeps two tables of timers by address. A timer is an object with a number; the
  timers that have neither fired nor been stopped are in \<open>pgRunning\<close>, and any of them can fire. The
  function of a ping timer first sends the ping and then, after taking the lock, sets the timer for
  the answer; between the two the address is in \<open>pgSending\<close> and every other event can happen.
  \<open>ping_run\<close> are the states of such runs, of which one address is followed: \<open>undisturbed\<close> says what is
  required of the events of that address, and nothing is required of the others.
\<close>

section \<open>State\<close>

datatype ping_timer = PingTimer jid | AckTimer jid

record ping_mod =
  pgPingTimers :: "string \<rightharpoonup> nat"
  pgAckTimers :: "string \<rightharpoonup> nat"
  pgRunning :: "nat \<rightharpoonup> ping_timer"
  pgNext :: nat
  pgSending :: "jid list"

record 'w ping_env =
  pgLib :: xlib
  pgTimeoutAction :: string
  pgRoute :: "element \<Rightarrow> ('w, jid list) go"
  pgLocalStream :: "string \<Rightarrow> string \<Rightarrow> ('w, nat) go"
  pgDisconnect :: "nat \<Rightarrow> stream_error \<Rightarrow> ('w, unit) go"
  pgNewUUID :: "('w, string) go"

type_synonym ('w, 'a) ping = "(ping_mod \<times> 'w, 'a) go"

definition new_ping :: ping_mod where
  "new_ping = \<lparr>pgPingTimers = Map.empty, pgAckTimers = Map.empty, pgRunning = Map.empty, pgNext = 0, pgSending = []\<rparr>"

definition pg_ext :: "('w, 'a) go \<Rightarrow> ('w, 'a) ping" where
  "pg_ext f = (\<lambda>(m, w). case f w of (r, w') \<Rightarrow> (r, (m, w')))"

definition pg_upd :: "(ping_mod \<Rightarrow> ping_mod) \<Rightarrow> ('w, unit) ping" where
  "pg_upd f = modify (\<lambda>(m, w). (f m, w))"

definition pingNamespace :: string where "pingNamespace = ''urn:xmpp:ping''"

section \<open>Requests\<close>

definition isPingIQ :: "xlib \<Rightarrow> element \<Rightarrow> bool" where
  "isPingIQ X iq \<longleftrightarrow> IsGet X iq \<and> ChildNamespace X iq ''ping'' pingNamespace \<noteq> None"

definition sendPongReply :: "'w ping_env \<Rightarrow> element \<Rightarrow> ('w, unit) go" where
  "sendPongReply E pingIQ = ignore (pgRoute E (MakeResultIQ (pgLib E) pingIQ None))"

definition pingProcessIQ :: "'w ping_env \<Rightarrow> element \<Rightarrow> ('w, unit) go" where
  "pingProcessIQ E iq =
     (if isPingIQ (pgLib E) iq then sendPongReply E iq else ignore (pgRoute E (MakeErrorStanza (pgLib E) iq ''bad-request'')))"

definition pingMatchesNamespace :: "string \<Rightarrow> bool \<Rightarrow> bool" where
  "pingMatchesNamespace namespace serverTarget \<longleftrightarrow> namespace = pingNamespace"

section \<open>Timers\<close>

definition set_timer :: "ping_timer \<Rightarrow> ping_mod \<Rightarrow> ping_mod" where
  "set_timer t m = m\<lparr>pgRunning := (pgRunning m)(pgNext m \<mapsto> t), pgNext := Suc (pgNext m)\<rparr>"

definition schedule_ping :: "xlib \<Rightarrow> jid \<Rightarrow> ping_mod \<Rightarrow> ping_mod" where
  "schedule_ping X jd m = (set_timer (PingTimer jd) m)\<lparr>pgPingTimers := (pgPingTimers m)(JIDString X jd \<mapsto> pgNext m)\<rparr>"

definition schedulePing :: "'w ping_env \<Rightarrow> jid \<Rightarrow> ('w, unit) ping" where
  "schedulePing E jd = pg_upd (schedule_ping (pgLib E) jd)"

text \<open>The two parts of \<^verbatim>\<open>sendPing\<close>.\<close>

definition send_ping :: "'w ping_env \<Rightarrow> jid \<Rightarrow> ('w, unit) ping" where
  "send_ping E jd =
     andthen (pg_ext (pgNewUUID E)) (\<lambda>ident.
       pg_ext (ignore (pgRoute E (Element ''iq'' [(''id'', ident), (''type'', ''get''), (''from'', Domain jd), (''to'', JIDString (pgLib E) jd)] []
         [Element ''ping'' [(''xmlns'', ''urn:xmpp:ping'')] [] []]))))"

definition arm_ack :: "xlib \<Rightarrow> jid \<Rightarrow> ping_mod \<Rightarrow> ping_mod" where
  "arm_ack X jd m = (set_timer (AckTimer jd) m)\<lparr>pgAckTimers := (pgAckTimers m)(JIDString X jd \<mapsto> pgNext m)\<rparr>"

definition sendPing :: "'w ping_env \<Rightarrow> jid \<Rightarrow> ('w, unit) ping" where
  "sendPing E jd = andthen (send_ping E jd) (\<lambda>_. pg_upd (arm_ack (pgLib E) jd))"

definition ping_timeout :: "'w ping_env \<Rightarrow> jid \<Rightarrow> ('w, unit) go" where
  "ping_timeout E jd =
     (if pgTimeoutAction E = ''kill'' then
        andthen (attempt (pgLocalStream E (Node jd) (Resource jd))) (\<lambda>r.
          case r of Inl _ \<Rightarrow> ret () | Inr stm \<Rightarrow> ignore (pgDisconnect E stm (stream_E ConnectionTimeout)))
      else ret ())"

definition stop_ping_timer :: "nat option \<Rightarrow> (nat \<rightharpoonup> ping_timer) \<Rightarrow> nat \<rightharpoonup> ping_timer" where
  "stop_ping_timer tm ts = (case tm of None \<Rightarrow> ts | Some n \<Rightarrow> ts(n := None))"

definition cancel_timers :: "xlib \<Rightarrow> jid \<Rightarrow> ping_mod \<Rightarrow> ping_mod" where
  "cancel_timers X jd m =
     (let jk = JIDString X jd
      in m\<lparr>pgRunning := stop_ping_timer (pgAckTimers m jk) (stop_ping_timer (pgPingTimers m jk) (pgRunning m)),
           pgPingTimers := (pgPingTimers m)(jk := None), pgAckTimers := (pgAckTimers m)(jk := None)\<rparr>)"

definition cancelTimers :: "'w ping_env \<Rightarrow> jid \<Rightarrow> ('w, unit) ping" where
  "cancelTimers E jd = pg_upd (cancel_timers (pgLib E) jd)"

section \<open>Handlers\<close>

definition pingOnBinded :: "'w ping_env \<Rightarrow> jid \<Rightarrow> ('w, unit) ping" where
  "pingOnBinded E jd = schedulePing E jd"

definition onRecvElement :: "'w ping_env \<Rightarrow> bool \<Rightarrow> jid \<Rightarrow> ('w, unit) ping" where
  "onRecvElement E isBinded jd =
     (if \<not> isBinded then ret () else andthen (cancelTimers E jd) (\<lambda>_. schedulePing E jd))"

definition pingOnDisconnect :: "'w ping_env \<Rightarrow> jid option \<Rightarrow> ('w, unit) ping" where
  "pingOnDisconnect E jd = (case jd of None \<Rightarrow> ret () | Some j \<Rightarrow> cancelTimers E j)"

datatype ping_event = PgBound jid | PgRecv bool jid | PgDisconnected "jid option" | PgFire nat | PgArm jid

text \<open>A timer that fires does not run any more. The second part of \<^verbatim>\<open>sendPing\<close> is a step of its own.\<close>

fun ping_step :: "'w ping_env \<Rightarrow> ping_event \<Rightarrow> ('w, unit) ping" where
  "ping_step E (PgBound jd) = pingOnBinded E jd"
| "ping_step E (PgRecv bound jd) = onRecvElement E bound jd"
| "ping_step E (PgDisconnected jd) = pingOnDisconnect E jd"
| "ping_step E (PgFire n) = (\<lambda>(m, w).
     let m1 = m\<lparr>pgRunning := (pgRunning m)(n := None)\<rparr>
     in case pgRunning m n of
          None \<Rightarrow> (Inr (), m, w)
        | Some (PingTimer jd) \<Rightarrow> send_ping E jd (m1\<lparr>pgSending := jd # pgSending m\<rparr>, w)
        | Some (AckTimer jd) \<Rightarrow> pg_ext (ping_timeout E jd) (m1, w))"
| "ping_step E (PgArm jd) = (\<lambda>(m, w).
     if jd \<notin> set (pgSending m) then (Inr (), m, w)
     else (Inr (), arm_ack (pgLib E) jd (m\<lparr>pgSending := remove1 jd (pgSending m)\<rparr>), w))"

fun timer_jid :: "ping_timer \<Rightarrow> jid" where
  "timer_jid (PingTimer jd) = jd" | "timer_jid (AckTimer jd) = jd"

definition in_flight :: "xlib \<Rightarrow> string \<Rightarrow> ping_mod \<Rightarrow> nat" where
  "in_flight X jk m = length (filter (\<lambda>j. JIDString X j = jk) (pgSending m))"

definition timed :: "xlib \<Rightarrow> string \<Rightarrow> ping_mod \<Rightarrow> bool" where
  "timed X jk m \<longleftrightarrow> (\<exists>n<pgNext m. case pgRunning m n of None \<Rightarrow> False | Some t \<Rightarrow> JIDString X (timer_jid t) = jk)"

text \<open>The stream of the address \<open>jk\<close> is not handled while a ping to it is on its way, and it is bound
  when no timer of the address runs.\<close>

fun undisturbed :: "xlib \<Rightarrow> string \<Rightarrow> ping_mod \<Rightarrow> ping_event \<Rightarrow> bool" where
  "undisturbed X jk m (PgBound jd) \<longleftrightarrow> JIDString X jd = jk \<longrightarrow> in_flight X jk m = 0 \<and> \<not> timed X jk m"
| "undisturbed X jk m (PgRecv bound jd) \<longleftrightarrow> bound \<longrightarrow> JIDString X jd = jk \<longrightarrow> in_flight X jk m = 0"
| "undisturbed X jk m (PgDisconnected (Some jd)) \<longleftrightarrow> JIDString X jd = jk \<longrightarrow> in_flight X jk m = 0"
| "undisturbed X jk m _ \<longleftrightarrow> True"

inductive ping_run :: "'w ping_env \<Rightarrow> string \<Rightarrow> ping_mod \<times> 'w \<Rightarrow> bool" for E jk where
  start: "ping_run E jk (new_ping, w)"
| step: "ping_run E jk (m, w) \<Longrightarrow> undisturbed (pgLib E) jk m ev \<Longrightarrow> ping_step E ev (m, w) = (r, s) \<Longrightarrow> ping_run E jk s"

section \<open>Version and time\<close>

definition versionNamespace :: string where "versionNamespace = ''jabber:iq:version''"
definition timeNamespace :: string where "timeNamespace = ''urn:xmpp:time''"

record 'w info_env =
  svLib :: xlib
  svRoute :: "element \<Rightarrow> ('w, jid list) go"
  svShowOS :: bool
  svOSInfo :: string
  svVersion :: string \<comment> \<open>the version of the server as a string\<close>
  svTime :: "('w, string \<times> string) go" \<comment> \<open>offset and UTC time, formatted\<close>

definition getVersion :: "'w info_env \<Rightarrow> element \<Rightarrow> ('w, unit) go" where
  "getVersion E iq =
     (let X = svLib E; refuse = ignore (svRoute E (MakeErrorStanza X iq ''bad-request''))
      in case ChildNamespace X iq ''query'' versionNamespace of
           None \<Rightarrow> refuse
         | Some q \<Rightarrow>
             if length (AllChildren q) > 0 then refuse
             else ignore (svRoute E (MakeResultIQ X iq (Some (Element ''query'' [(''xmlns'', versionNamespace)] []
               ([Element ''name'' [] ''jackal'' [], Element ''version'' [] (trim_prefix (svVersion E) ''v'') []] @
                (if svShowOS E then [Element ''os'' [] (svOSInfo E) []] else [])))))))"

definition versionProcessIQ :: "'w info_env \<Rightarrow> element \<Rightarrow> ('w, unit) go" where
  "versionProcessIQ E iq =
     (if IsGet (svLib E) iq then getVersion E iq
      else if IsSet (svLib E) iq then ignore (svRoute E (MakeErrorStanza (svLib E) iq ''forbidden''))
      else ret ())"

definition versionMatchesNamespace :: "string \<Rightarrow> bool \<Rightarrow> bool" where
  "versionMatchesNamespace namespace serverTarget \<longleftrightarrow> serverTarget \<and> namespace = versionNamespace"

definition reportServerTime :: "'w info_env \<Rightarrow> element \<Rightarrow> ('w, unit) go" where
  "reportServerTime E iq =
     andthen (svTime E) (\<lambda>(tzo, utc).
       ignore (svRoute E (MakeResultIQ (svLib E) iq (Some (Element ''time'' [(''xmlns'', timeNamespace)] []
         [Element ''tzo'' [] tzo [], Element ''utc'' [] utc []])))))"

definition timeProcessIQ :: "'w info_env \<Rightarrow> element \<Rightarrow> ('w, unit) go" where
  "timeProcessIQ E iq =
     (if IsGet (svLib E) iq \<and> ChildNamespace (svLib E) iq ''time'' timeNamespace \<noteq> None then reportServerTime E iq
      else ignore (svRoute E (MakeErrorStanza (svLib E) iq ''bad-request'')))"

definition timeMatchesNamespace :: "string \<Rightarrow> bool \<Rightarrow> bool" where
  "timeMatchesNamespace namespace serverTarget \<longleftrightarrow> serverTarget \<and> namespace = timeNamespace"

section \<open>Timers are registered\<close>

text \<open>The timers of the address \<open>jk\<close> that run are in the tables, and there is at most one of them or
  one ping that is on its way.\<close>

definition timers_ok :: "xlib \<Rightarrow> string \<Rightarrow> ping_mod \<Rightarrow> bool" where
  "timers_ok X jk m \<longleftrightarrow>
     (\<forall>n t. pgRunning m n = Some t \<longrightarrow> n < pgNext m) \<and> in_flight X jk m \<le> 1 \<and>
     (\<forall>n jd. pgRunning m n = Some (PingTimer jd) \<longrightarrow> JIDString X jd = jk \<longrightarrow> pgPingTimers m jk = Some n) \<and>
     (\<forall>n jd. pgRunning m n = Some (AckTimer jd) \<longrightarrow> JIDString X jd = jk \<longrightarrow> pgAckTimers m jk = Some n) \<and>
     (\<forall>n t. pgRunning m n = Some t \<longrightarrow> JIDString X (timer_jid t) = jk \<longrightarrow> in_flight X jk m = 0 \<and>
       (\<forall>n' t'. pgRunning m n' = Some t' \<longrightarrow> JIDString X (timer_jid t') = jk \<longrightarrow> n = n'))"

lemma in_flight_simps [simp]:
  "in_flight X jk (schedule_ping X' jd m) = in_flight X jk m" "in_flight X jk (cancel_timers X' jd m) = in_flight X jk m"
  "in_flight X jk (arm_ack X' jd m) = in_flight X jk m" "in_flight X jk (m\<lparr>pgRunning := ts\<rparr>) = in_flight X jk m"
  by (simp_all add: in_flight_def schedule_ping_def cancel_timers_def arm_ack_def set_timer_def Let_def)

lemma cancel_simps [simp]:
  "pgNext (cancel_timers X jd m) = pgNext m"
  "pgPingTimers (cancel_timers X jd m) = (pgPingTimers m)(JIDString X jd := None)"
  "pgAckTimers (cancel_timers X jd m) = (pgAckTimers m)(JIDString X jd := None)"
  by (simp_all add: cancel_timers_def Let_def)

lemma not_timed: "timers_ok X jk m \<Longrightarrow> \<not> timed X jk m \<Longrightarrow> pgRunning m n = Some t \<Longrightarrow> JIDString X (timer_jid t) \<noteq> jk"
  unfolding timers_ok_def timed_def by force

lemma timers_stop: "timers_ok X jk m \<Longrightarrow> timers_ok X jk (m\<lparr>pgRunning := (pgRunning m)(n := None)\<rparr>)"
  unfolding timers_ok_def by simp

lemma registered:
  assumes "timers_ok X jk m" and "pgRunning m n = Some t" and "JIDString X (timer_jid t) = jk"
  shows "pgPingTimers m jk = Some n \<or> pgAckTimers m jk = Some n"
  using assms unfolding timers_ok_def by (cases t) auto

text \<open>Cancelling stops every timer of the address.\<close>

lemma cancel_sub: "pgRunning (cancel_timers X jd m) n = Some t \<Longrightarrow> pgRunning m n = Some t"
  by (auto simp: cancel_timers_def stop_ping_timer_def Let_def split: option.splits if_splits)

lemma cancelled:
  assumes "timers_ok X (JIDString X jd) m" and "pgRunning (cancel_timers X jd m) n = Some t"
  shows "JIDString X (timer_jid t) \<noteq> JIDString X jd"
  using registered [OF assms(1) cancel_sub [OF assms(2)]] assms(2)
  by (auto simp: cancel_timers_def stop_ping_timer_def Let_def split: option.splits if_splits)

lemma timers_cancel:
  assumes "timers_ok X jk m"
  shows "timers_ok X jk (cancel_timers X jd m)"
proof (cases "JIDString X jd = jk")
  case True
  then have "JIDString X (timer_jid t) \<noteq> jk" "pgRunning m n = Some t" if "pgRunning (cancel_timers X jd m) n = Some t" for n t
    using cancelled [of X jd m n t] cancel_sub [OF that] that assms by simp_all
  with assms True show ?thesis unfolding timers_ok_def by fastforce
next
  case False
  with assms show ?thesis unfolding timers_ok_def by (auto dest!: cancel_sub)
qed

text \<open>A timer can be set for the address when it has none and no ping is on its way to it, and for every other address.\<close>

lemma timers_schedule:
  assumes "timers_ok X jk m"
    and "JIDString X jd = jk \<Longrightarrow> in_flight X jk m = 0 \<and> (\<forall>n t. pgRunning m n = Some t \<longrightarrow> JIDString X (timer_jid t) \<noteq> jk)"
  shows "timers_ok X jk (schedule_ping X jd m)" and "timers_ok X jk (arm_ack X jd m)"
proof -
  have fresh: "pgRunning m n = Some t \<Longrightarrow> n \<noteq> pgNext m" for n t using assms(1) unfolding timers_ok_def by blast
  have none: "JIDString X j \<noteq> jk" if "JIDString X jd = jk" "pgRunning m n = Some (PingTimer j) \<or> pgRunning m n = Some (AckTimer j)" for n j
    using assms(2) [OF that(1)] that(2) by (metis timer_jid.simps)
  show "timers_ok X jk (schedule_ping X jd m)"
    using assms fresh none unfolding timers_ok_def in_flight_simps unfolding schedule_ping_def set_timer_def
    by (cases "JIDString X jd = jk") (auto simp: less_Suc_eq split: if_splits)
  show "timers_ok X jk (arm_ack X jd m)"
    using assms fresh none unfolding timers_ok_def in_flight_simps unfolding arm_ack_def set_timer_def
    by (cases "JIDString X jd = jk") (auto simp: less_Suc_eq split: if_splits)
qed

text \<open>A ping that leaves takes the place of its timer, and the timer of the answer takes the place of the ping.\<close>

lemma timers_send:
  assumes "timers_ok X jk m" and "pgRunning m n = Some (PingTimer jd)"
  shows "timers_ok X jk (m\<lparr>pgRunning := (pgRunning m)(n := None), pgSending := jd # pgSending m\<rparr>)"
proof (cases "JIDString X jd = jk")
  case True
  with assms have "in_flight X jk m = 0" "\<And>k t. pgRunning m k = Some t \<Longrightarrow> JIDString X (timer_jid t) = jk \<Longrightarrow> k = n"
    unfolding timers_ok_def by (metis timer_jid.simps(1))+
  with assms True show ?thesis unfolding timers_ok_def by (auto simp: in_flight_def)
next
  case False
  with assms show ?thesis unfolding timers_ok_def by (simp add: in_flight_def)
qed

lemma timers_arm:
  assumes "timers_ok X jk m" and "jd \<in> set (pgSending m)"
  shows "timers_ok X jk (arm_ack X jd (m\<lparr>pgSending := remove1 jd (pgSending m)\<rparr>))"
proof -
  let ?m = "m\<lparr>pgSending := remove1 jd (pgSending m)\<rparr>"
  have one: "in_flight X jk m = (if JIDString X jd = jk then Suc (in_flight X jk ?m) else in_flight X jk ?m)"
    using assms(2) length_pos_if_in_set [of jd "filter (\<lambda>j. JIDString X j = jk) (pgSending m)"]
    by (simp add: in_flight_def filter_remove1 length_remove1)
  then have "timers_ok X jk ?m" using assms(1) unfolding timers_ok_def by (auto split: if_splits)
  moreover have "in_flight X jk ?m = 0 \<and> (\<forall>n t. pgRunning ?m n = Some t \<longrightarrow> JIDString X (timer_jid t) \<noteq> jk)" if "JIDString X jd = jk"
    using assms(1) one that unfolding timers_ok_def by auto
  ultimately show ?thesis by (rule timers_schedule(2))
qed

lemma pg_upd_run: "pg_upd f (m, w) = (Inr (), f m, w)"
  by (simp add: pg_upd_def modify_def)

lemma recv_run: "onRecvElement E True jd (m, w) = (Inr (), schedule_ping (pgLib E) jd (cancel_timers (pgLib E) jd m), w)"
  by (simp add: onRecvElement_def cancelTimers_def schedulePing_def go_run pg_upd_run)

lemma send_ping_state: "fst (snd (send_ping E jd (m, w))) = m"
  by (auto simp: send_ping_def go_run pg_ext_def split: sum.split prod.split)

lemma step_timers:
  assumes "timers_ok (pgLib E) jk m" and "undisturbed (pgLib E) jk m ev"
  shows "timers_ok (pgLib E) jk (fst (snd (ping_step E ev (m, w))))"
proof (cases ev)
  case (PgBound jd)
  with assms show ?thesis
    by (auto simp: pingOnBinded_def schedulePing_def pg_upd_run intro!: timers_schedule dest: not_timed)
next
  case (PgRecv bound jd)
  have "timers_ok (pgLib E) jk (schedule_ping (pgLib E) jd (cancel_timers (pgLib E) jd m))" if bound
    using assms that PgRecv by (intro timers_schedule(1) timers_cancel) (auto dest: cancelled)
  with assms PgRecv show ?thesis by (cases bound) (simp_all add: recv_run, simp add: onRecvElement_def go_run)
next
  case (PgDisconnected jd)
  with assms show ?thesis
    by (cases jd) (simp_all add: pingOnDisconnect_def cancelTimers_def pg_upd_run go_run timers_cancel)
next
  case (PgFire n)
  with assms show ?thesis
    by (auto simp: Let_def send_ping_state pg_ext_def timers_stop timers_send split: option.split ping_timer.split prod.split)
next
  case (PgArm jd)
  with assms show ?thesis by (simp add: timers_arm)
qed

lemma run_timers: "ping_run E jk s \<Longrightarrow> timers_ok (pgLib E) jk (fst s)"
proof (induction rule: ping_run.induct)
  case (start w)
  then show ?case by (simp add: timers_ok_def new_ping_def in_flight_def)
next
  case (step m w ev r s)
  from step_timers [of E jk m ev w] step show ?case by simp
qed

text \<open>
  C35. A client that sends something is not disconnected for its silence before it: after an element of
  a bound stream, no timer of its address waits for an answer any more and no ping to it is on its way,
  and exactly one timer runs that will send the next ping. The pings and elements of all other addresses
  interleave with the run in every way, between a ping and its timer too. Of the followed address it is
  required that its stream is not handled after a ping left and before the timer of the answer is set,
  which \<open>ping_answer_race\<close> shows to be necessary, and that it is bound when no timer of an earlier
  stream of the same address runs.
\<close>

theorem ping_answer_disarms:
  assumes "ping_run E (JIDString (pgLib E) jd) (m, w)" and "in_flight (pgLib E) (JIDString (pgLib E) jd) m = 0"
    and "onRecvElement E True jd (m, w) = (r, m', w')"
  shows "(\<forall>n j. pgRunning m' n = Some (AckTimer j) \<longrightarrow> JIDString (pgLib E) j \<noteq> JIDString (pgLib E) jd) \<and>
    in_flight (pgLib E) (JIDString (pgLib E) jd) m' = 0 \<and>
    (\<exists>!n. \<exists>j. pgRunning m' n = Some (PingTimer j) \<and> JIDString (pgLib E) j = JIDString (pgLib E) jd)"
proof -
  from run_timers [OF assms(1)] have ok: "timers_ok (pgLib E) (JIDString (pgLib E) jd) m" by simp
  let ?c = "cancel_timers (pgLib E) jd m"
  from assms(3) have m': "pgRunning m' = (pgRunning ?c)(pgNext ?c \<mapsto> PingTimer jd)"
    by (auto simp: recv_run schedule_ping_def set_timer_def)
  have other: "pgRunning ?c n = Some t \<Longrightarrow> JIDString (pgLib E) (timer_jid t) \<noteq> JIDString (pgLib E) jd" for n t
    by (rule cancelled [OF ok])
  have "JIDString (pgLib E) j \<noteq> JIDString (pgLib E) jd" if "pgRunning m' n = Some (AckTimer j)" for n j
    using that other [of n "AckTimer j"] by (auto simp: m' split: if_splits)
  moreover have "n = pgNext ?c" if "pgRunning m' n = Some (PingTimer j)" "JIDString (pgLib E) j = JIDString (pgLib E) jd" for n j
    using that other [of n "PingTimer j"] by (auto simp: m' split: if_splits)
  moreover have "pgRunning m' (pgNext ?c) = Some (PingTimer jd)" by (simp add: m')
  moreover have "in_flight (pgLib E) (JIDString (pgLib E) jd) m' = 0" using assms(2,3) by (auto simp: recv_run)
  ultimately show ?thesis by blast
qed

section \<open>An example\<close>

text \<open>The rest of the server is the list of streams that were disconnected.\<close>

definition ping_demo :: "nat list ping_env" where
  "ping_demo = \<lparr>pgLib = std_lib, pgTimeoutAction = ''kill'', pgRoute = (\<lambda>el. ret []), pgLocalStream = (\<lambda>u r. ret 7),
     pgDisconnect = (\<lambda>s e w. (Inr (), w @ [s])), pgNewUUID = ret ''i''\<rparr>"

definition ping_ana :: jid where "ping_ana = \<lparr>Node = ''ana'', Domain = ''x'', Resource = ''a''\<rparr>"

text \<open>Two clients are bound, the second one is pinged, and while that ping is on its way the first one is pinged.\<close>

definition ping_bob :: jid where "ping_bob = \<lparr>Node = ''bob'', Domain = ''x'', Resource = ''b''\<rparr>"

definition ping_events :: "ping_event list" where
  "ping_events = [PgBound ping_ana, PgBound ping_bob, PgFire 1, PgFire 0, PgArm ping_ana]"

definition pinged :: "ping_mod \<times> nat list" where
  "pinged = snd (run_all (ping_step ping_demo) ping_events (new_ping, []))"

fun calm :: "'w ping_env \<Rightarrow> string \<Rightarrow> ping_event list \<Rightarrow> ping_mod \<times> 'w \<Rightarrow> bool" where
  "calm E jk [] s \<longleftrightarrow> True"
| "calm E jk (ev # evs) s \<longleftrightarrow> undisturbed (pgLib E) jk (fst s) ev \<and> calm E jk evs (snd (ping_step E ev s))"

lemma calm_run: "ping_run E jk s \<Longrightarrow> calm E jk evs s \<Longrightarrow> ping_run E jk (snd (run_all (ping_step E) evs s))"
proof (induction evs arbitrary: s)
  case Nil
  then show ?case by simp
next
  case (Cons ev evs)
  have "ping_run E jk (snd (ping_step E ev s))"
    using ping_run.step [of E jk "fst s" "snd s" ev, unfolded prod.collapse] Cons.prems prod.collapse by (metis calm.simps(2))
  from Cons.IH [OF this] Cons.prems show ?case by (simp add: split_beta)
qed

theorem ping_answer_disarms_witness:
  "\<not> (\<exists>n j. pgRunning (fst (snd (onRecvElement ping_demo True ping_ana pinged))) n = Some (AckTimer j) \<and> JIDString std_lib j = JIDString std_lib ping_ana) \<and>
   (\<exists>n. pgRunning (fst pinged) n = Some (AckTimer ping_ana)) \<and> pgSending (fst pinged) = [ping_bob]"
proof -
  let ?k = "JIDString std_lib ping_ana"
  have lib: "pgLib ping_demo = std_lib" by (simp add: ping_demo_def)
  have "calm ping_demo ?k ping_events (new_ping, [])" by code_simp
  from calm_run [OF ping_run.start this] have p: "ping_run ping_demo ?k (fst pinged, snd pinged)" by (simp add: pinged_def)
  have a: "pgRunning (fst pinged) 2 = Some (AckTimer ping_ana)" "in_flight std_lib ?k (fst pinged) = 0" "pgSending (fst pinged) = [ping_bob]"
    by code_simp+
  obtain r m' w' where recv: "onRecvElement ping_demo True ping_ana (fst pinged, snd pinged) = (r, m', w')" using prod.exhaust by metis
  from ping_answer_disarms [OF p [folded lib] a(2) [folded lib] recv] recv a show ?thesis by (auto simp: lib)
qed

text \<open>
  The answer to a ping can be too early: when it is handled after the ping was sent and before the
  timer for the answer is set, the timer is set nevertheless, and if the client then says nothing for
  as long as an answer may take, it is disconnected although it answered.
\<close>

theorem ping_answer_race:
  "snd (snd (run_all (ping_step ping_demo) [PgBound ping_ana, PgFire 0, PgRecv True ping_ana, PgArm ping_ana, PgFire 2] (new_ping, []))) = [7] \<and>
   snd (snd (run_all (ping_step ping_demo) [PgBound ping_ana, PgFire 0, PgArm ping_ana, PgRecv True ping_ana, PgFire 1] (new_ping, []))) = []"
  by code_simp

end
