(* ===== verification/Jump_Hash.thy ===== *)
theory Jump_Hash
  imports Cached_Repos "HOL-Library.Word" "HOL-Library.Log_Nat"
begin

text \<open>
  The consistent hash that spreads the namespaces of the cache over the Redis servers
  (\<^verbatim>\<open>src/pkg/storage/cached/redis/jumphash.go\<close>). The loop computes with 64 bit floating point numbers;
  they are rationals here, rounded after every operation to 53 significant bits, ties to even. The
  loop is a partial function: that it ends, within the buckets, is a lemma, and so is what makes the
  hash consistent, that all numbers of buckets walk the same sequence of jumps.
\<close>

section \<open>Floating point\<close>

text \<open>Rounding to the nearest integer, ties to even.\<close>

definition round_even :: "rat \<Rightarrow> int" where
  "round_even x =
     (let n = \<lfloor>x\<rfloor>; d = x - of_int n
      in if d < 1 / 2 then n else if 1 / 2 < d then n + 1 else if even n then n else n + 1)"

text \<open>The number of type \<^verbatim>\<open>float64\<close> nearest to a rational that is at least one and not too large.\<close>

definition float64 :: "rat \<Rightarrow> rat" where
  "float64 x =
     (let e = bitlen \<lfloor>x\<rfloor> - 53
      in if 0 \<le> e then of_int (round_even (x / 2 ^ nat e)) * 2 ^ nat e
         else of_int (round_even (x * 2 ^ nat (- e))) / 2 ^ nat (- e))"

section \<open>The hash\<close>

text \<open>One jump: \<^verbatim>\<open>int64(float64(b+1) * (float64(int64(1)<<31) / float64((key>>33)+1)))\<close>. All numbers
  are positive, so that the conversion to an integer rounds down.\<close>

definition jump_key :: "64 word \<Rightarrow> 64 word" where
  "jump_key key = key * 2862933555777941757 + 1"

definition jump :: "int \<Rightarrow> 64 word \<Rightarrow> int" where
  "jump b key = \<lfloor>float64 (float64 (of_int (b + 1)) * float64 (float64 (of_int (2 ^ 31)) / float64 (of_int (uint (drop_bit 33 key + 1)))))\<rfloor>"

partial_function (option) jump_loop :: "64 word \<Rightarrow> int \<Rightarrow> int \<Rightarrow> int \<Rightarrow> int option" where
  "jump_loop key numBuckets b j =
     (if j < numBuckets then jump_loop (jump_key key) numBuckets j (jump j (jump_key key)) else Some b)"

declare jump_loop.simps [code]

text \<open>\<open>None\<close> stands for a loop that does not end. The index is returned in 32 bits.\<close>

definition jumpHash :: "64 word \<Rightarrow> int \<Rightarrow> int option" where
  "jumpHash key numBuckets = map_option wrap32 (jump_loop key numBuckets (-1) 0)"

section \<open>Rounding\<close>

lemma round_even_ge: "of_int m \<le> x \<Longrightarrow> m \<le> round_even x"
  using le_floor_iff [of m x] by (auto simp: round_even_def Let_def)

lemma round_even_le: "x \<le> of_int m \<Longrightarrow> round_even x \<le> m"
proof -
  assume "x \<le> of_int m"
  moreover from floor_mono [OF this] have "\<lfloor>x\<rfloor> \<le> m" by simp
  ultimately show ?thesis by (cases "\<lfloor>x\<rfloor> = m") (simp_all add: round_even_def Let_def)
qed

lemma round_even_int [simp]: "round_even (of_int m) = m"
  by (simp add: round_even_def)

text \<open>Rounding never crosses an integer that is representable.\<close>

lemma float64_ge:
  assumes "of_int n \<le> x" and "1 \<le> n" and "n \<le> 2 ^ 53"
  shows "of_int n \<le> float64 x"
proof -
  define e where "e = bitlen \<lfloor>x\<rfloor> - 53"
  have x: "n \<le> \<lfloor>x\<rfloor>" "0 < \<lfloor>x\<rfloor>" using assms(1,2) by (auto simp: le_floor_iff)
  show ?thesis
  proof (cases "0 \<le> e")
    case False
    define p :: int where "p = 2 ^ nat (- e)"
    have "of_int (n * p) \<le> x * of_int p" using assms(1) by (simp add: p_def mult_right_mono)
    from round_even_ge [OF this] have "of_int (n * p) \<le> (of_int (round_even (x * of_int p)) :: rat)" by (simp only: of_int_le_iff)
    then have "of_int n \<le> of_int (round_even (x * of_int p)) / (of_int p :: rat)" by (simp add: p_def field_simps)
    with False show ?thesis by (simp add: float64_def Let_def e_def [symmetric] p_def)
  next
    case True
    have "2 ^ nat (bitlen \<lfloor>x\<rfloor> - 1) \<le> \<lfloor>x\<rfloor>" using bitlen_bounds [OF x(2)] by simp
    moreover have "nat (bitlen \<lfloor>x\<rfloor> - 1) = 52 + nat e" using True by (simp add: e_def nat_add_distrib [symmetric])
    ultimately have "of_int (2 ^ 52 * 2 ^ nat e) \<le> x" by (simp add: power_add le_floor_iff)
    then have "of_int (2 ^ 52) \<le> x / 2 ^ nat e" by (simp add: field_simps)
    from round_even_ge [OF this] have r: "2 ^ 52 \<le> round_even (x / 2 ^ nat e)" .
    show ?thesis
    proof (cases "e = 0")
      case True
      with assms(1) round_even_ge [of n x] show ?thesis by (simp add: float64_def Let_def e_def [symmetric])
    next
      case False
      with True have "(2 :: int) ^ 1 \<le> 2 ^ nat e" by (intro power_increasing) auto
      with r have "2 ^ 52 * 2 \<le> round_even (x / 2 ^ nat e) * 2 ^ nat e" by (intro mult_mono) auto
      with assms(3) have "of_int n \<le> (of_int (round_even (x / 2 ^ nat e) * 2 ^ nat e) :: rat)" by (simp only: of_int_le_iff) simp
      with True show ?thesis by (simp add: float64_def Let_def e_def [symmetric])
    qed
  qed
qed

lemma float64_exact:
  assumes "1 \<le> n" and "n < 2 ^ 53"
  shows "float64 (of_int n) = of_int n"
proof -
  define e where "e = bitlen n - 53"
  have "\<not> 0 < e"
  proof
    assume "0 < e"
    then have "(2 :: int) ^ 53 \<le> 2 ^ nat (bitlen n - 1)" by (intro power_increasing) (auto simp: e_def)
    with bitlen_bounds [of n] assms show False by linarith
  qed
  have "of_int n * 2 ^ k = (of_int (n * 2 ^ k) :: rat)" for k by simp
  then have r: "round_even (of_int n * 2 ^ k) = n * 2 ^ k" for k by (simp only: round_even_int)
  show ?thesis
  proof (cases "e = 0")
    case True
    with round_even_int [of n] show ?thesis by (simp add: float64_def Let_def e_def [symmetric])
  next
    case False
    with \<open>\<not> 0 < e\<close> show ?thesis by (simp add: float64_def Let_def e_def [symmetric] r)
  qed
qed

lemma float64_le:
  assumes "1 \<le> x" and "x \<le> 2 ^ m"
  shows "float64 x \<le> 2 ^ m"
proof -
  define e where "e = bitlen \<lfloor>x\<rfloor> - 53"
  have p: "(2 :: rat) ^ k = of_int (2 ^ k)" for k by simp
  show ?thesis
  proof (cases "0 \<le> e")
    case False
    from assms(2) have "x * 2 ^ nat (- e) \<le> of_int (2 ^ (m + nat (- e)))" by (simp add: power_add mult_right_mono)
    from round_even_le [OF this] have "of_int (round_even (x * 2 ^ nat (- e))) \<le> (2 ^ (m + nat (- e)) :: rat)"
      unfolding p by (simp only: of_int_le_iff)
    with False show ?thesis by (simp add: float64_def Let_def e_def [symmetric] field_simps power_add)
  next
    case True
    have "\<lfloor>x\<rfloor> \<le> 2 ^ m" using floor_mono [OF assms(2)] by simp
    moreover have "0 < \<lfloor>x\<rfloor>" using assms(1) by simp
    ultimately have "(2 :: int) ^ nat (bitlen \<lfloor>x\<rfloor> - 1) \<le> 2 ^ m" using bitlen_bounds [of "\<lfloor>x\<rfloor>"] by linarith
    then have "nat (bitlen \<lfloor>x\<rfloor> - 1) \<le> m" by simp
    then have em: "m = (m - nat e) + nat e" by (simp add: e_def)
    have "x \<le> 2 ^ (m - nat e) * 2 ^ nat e" using assms(2) em by (simp add: power_add [symmetric])
    then have "x / 2 ^ nat e \<le> of_int (2 ^ (m - nat e))" by (simp add: field_simps)
    from round_even_le [OF this] have "of_int (round_even (x / 2 ^ nat e)) \<le> (2 ^ (m - nat e) :: rat)"
      unfolding p by (simp only: of_int_le_iff)
    then have "of_int (round_even (x / 2 ^ nat e)) * 2 ^ nat e \<le> (2 ^ (m - nat e) * 2 ^ nat e :: rat)" by (rule mult_right_mono) simp
    with True em show ?thesis by (simp add: float64_def Let_def e_def [symmetric] power_add [symmetric])
  qed
qed

section \<open>The jumps go forward\<close>

lemma jump_divisor: "1 \<le> uint (drop_bit 33 (key :: 64 word) + 1)" "uint (drop_bit 33 key + 1) \<le> 2 ^ 31"
proof -
  have "uint (drop_bit 33 key) = uint key div 2 ^ 33" by (simp add: drop_bit_eq_div uint_div_distrib)
  moreover have "0 \<le> uint key" "uint key < 2 ^ 64" using unsigned_less [of key, where 'a = int] by simp_all
  ultimately have b: "0 \<le> uint (drop_bit 33 key)" "uint (drop_bit 33 key) < 2 ^ 31"
    using div_int_pos_iff [of "uint key" "2 ^ 33"] by simp_all
  then have "uint (drop_bit 33 key + 1) = uint (drop_bit 33 key) + 1" by (simp add: uint_word_ariths)
  with b show "1 \<le> uint (drop_bit 33 key + 1)" "uint (drop_bit 33 key + 1) \<le> 2 ^ 31" by linarith+
qed

lemma jump_quotient:
  obtains q where "1 \<le> q" and "q \<le> 2 ^ 31" and "\<And>b. 0 \<le> b \<Longrightarrow> b < 2 ^ 52 \<Longrightarrow> jump b key = \<lfloor>float64 (of_int (b + 1) * q)\<rfloor>"
proof -
  define d where "d = uint (drop_bit 33 key + 1)"
  have d: "1 \<le> d" "d \<le> 2 ^ 31" using jump_divisor [of key] by (simp_all add: d_def)
  define x :: rat where "x = float64 (of_int (2 ^ 31)) / float64 (of_int d)"
  have "float64 (of_int (2 ^ 31)) = of_int (2 ^ 31)" by (rule float64_exact) simp_all
  moreover have "float64 (of_int d) = of_int d" using d by (intro float64_exact) simp_all
  ultimately have "x = of_int (2 ^ 31) / of_int d" by (simp only: x_def)
  moreover have "(of_int d :: rat) \<le> of_int (2 ^ 31)" "1 \<le> (of_int d :: rat)" using d by (simp_all only: of_int_le_iff of_int_1_le_iff)
  ultimately have x: "1 \<le> x" "x \<le> 2 ^ 31"
    using le_divide_eq [of 1 "of_int (2 ^ 31)" "of_int d :: rat"] divide_le_eq [of "of_int (2 ^ 31)" "of_int d" "2 ^ 31 :: rat"] by simp_all
  show thesis
  proof (rule that [of "float64 x"])
    show "1 \<le> float64 x" using float64_ge [of 1 x] x(1) by simp
    show "float64 x \<le> 2 ^ 31" by (rule float64_le [OF x])
    show "jump b key = \<lfloor>float64 (of_int (b + 1) * float64 x)\<rfloor>" if "0 \<le> b" "b < 2 ^ 52" for b
    proof -
      have "float64 (of_int (b + 1)) = of_int (b + 1)" using that by (intro float64_exact) simp_all
      then show ?thesis by (simp only: jump_def x_def d_def)
    qed
  qed
qed

lemma jump_forward:
  assumes "0 \<le> b" and "b < 2 ^ 52"
  shows "b < jump b key"
proof -
  obtain q where q: "1 \<le> q" "jump b key = \<lfloor>float64 (of_int (b + 1) * q)\<rfloor>" using jump_quotient assms by metis
  have "of_int (b + 1) * 1 \<le> of_int (b + 1) * q" using q(1) assms(1) by (intro mult_left_mono) simp_all
  then have "of_int (b + 1) \<le> float64 (of_int (b + 1) * q)" using assms by (intro float64_ge) simp_all
  then have "b + 1 \<le> jump b key" unfolding q(2) by (simp only: le_floor_iff)
  then show ?thesis by simp
qed

text \<open>Up to as many buckets as an index of 32 bits has, the conversion to \<^verbatim>\<open>int64\<close> is in range.\<close>

lemma jump_in_range:
  assumes "0 \<le> b" and "b < 2 ^ 31"
  shows "jump b key \<le> 2 ^ 62"
proof -
  obtain q where q: "1 \<le> q" "q \<le> 2 ^ 31" "jump b key = \<lfloor>float64 (of_int (b + 1) * q)\<rfloor>" 
    using assms by (rule_tac key = key in jump_quotient) simp
  have b: "(of_int (b + 1) :: rat) \<le> of_int (2 ^ 31)" "(of_int 1 :: rat) \<le> of_int (b + 1)" using assms unfolding of_int_le_iff by simp_all
  have "of_int (b + 1) * q \<le> of_int (2 ^ 31) * 2 ^ 31" using q b by (intro mult_mono) simp_all
  moreover have "of_int 1 * 1 \<le> of_int (b + 1) * q" using q b by (intro mult_mono) simp_all
  ultimately have "float64 (of_int (b + 1) * q) \<le> 2 ^ 62" using float64_le [of "of_int (b + 1) * q" 62] by simp
  then have "of_int (jump b key) \<le> (of_int (2 ^ 62) :: rat)" unfolding q(3) using of_int_floor_le [of "float64 (of_int (b + 1) * q)"] by simp
  then show ?thesis by (simp only: of_int_le_iff)
qed

section \<open>The loop\<close>

text \<open>Every number of buckets walks the same jumps: with one bucket more the loop stops at the same
  bucket or at the new one.\<close>

lemma jump_loop_step:
  assumes "-1 \<le> b" and "b < j" and "b < n" and "1 \<le> n" and "n < 2 ^ 52"
  shows "\<exists>c. jump_loop key n b j = Some c \<and> (c = b \<or> j \<le> c) \<and> c < n \<and> (jump_loop key (n + 1) b j = Some c \<or> jump_loop key (n + 1) b j = Some n)"
  using assms(1-3)
proof (induction "nat (n - j)" arbitrary: key b j rule: less_induct)
  case less
  show ?case
  proof (cases "j < n")
    case True
    have f: "j < jump j (jump_key key)" using less.prems True assms(5) by (intro jump_forward) simp_all
    have "\<exists>c. jump_loop (jump_key key) n j (jump j (jump_key key)) = Some c \<and> (c = j \<or> jump j (jump_key key) \<le> c) \<and> c < n \<and>
        (jump_loop (jump_key key) (n + 1) j (jump j (jump_key key)) = Some c \<or> jump_loop (jump_key key) (n + 1) j (jump j (jump_key key)) = Some n)"
      using less.prems f True by (intro less.hyps) simp_all
    then obtain c where "jump_loop (jump_key key) n j (jump j (jump_key key)) = Some c" "j \<le> c" "c < n"
        "jump_loop (jump_key key) (n + 1) j (jump j (jump_key key)) \<in> {Some c, Some n}"
      using f by fastforce
    with True show ?thesis by (auto simp: jump_loop.simps [of key])
  next
    case False
    show ?thesis
    proof (cases "j = n")
      case True
      have "n < jump n (jump_key key)" using assms(4,5) by (intro jump_forward) simp_all
      with True have "jump_loop (jump_key key) (n + 1) n (jump n (jump_key key)) = Some n" by (simp add: jump_loop.simps)
      with True less.prems show ?thesis by (simp add: jump_loop.simps [of key])
    next
      case False
      with \<open>\<not> j < n\<close> less.prems show ?thesis by (simp add: jump_loop.simps)
    qed
  qed
qed

lemma wrap32_id: "0 \<le> i \<Longrightarrow> i < 2 ^ 31 \<Longrightarrow> wrap32 i = i"
  by (simp add: wrap32_def)

lemma jumpHash_bounds:
  assumes "1 \<le> n" and "n < 2 ^ 31"
  shows "\<exists>c. jumpHash key n = Some c \<and> 0 \<le> c \<and> c < n \<and> jumpHash key (n + 1) \<in> {Some c, Some n}"
proof -
  have f: "0 < jump 0 (jump_key key)" by (intro jump_forward) simp_all
  obtain c where c: "jump_loop (jump_key key) n 0 (jump 0 (jump_key key)) = Some c" "0 \<le> c" "c < n"
      "jump_loop (jump_key key) (n + 1) 0 (jump 0 (jump_key key)) \<in> {Some c, Some n}"
    using jump_loop_step [of 0 "jump 0 (jump_key key)" n "jump_key key"] f assms by fastforce
  have "jump_loop key n (-1) 0 = Some c" "jump_loop key (n + 1) (-1) 0 \<in> {Some c, Some n}"
    using c(1,4) assms by (simp_all add: jump_loop.simps [of key])
  with c assms show ?thesis by (auto simp: jumpHash_def wrap32_id)
qed

lemma jumpHash_no_buckets: "jumpHash key 0 = Some (-1)"
  by (simp add: jumpHash_def jump_loop.simps wrap32_def)

section \<open>Properties\<close>

text \<open>
  C37. The hash is consistent: for every number of buckets from one up to the indices of 32 bits the loop
  ends with one of the buckets, and with one bucket more the key stays in its bucket or moves to the
  new one. No key moves between the buckets that were there.
\<close>

theorem jump_hash_consistent:
  assumes "1 \<le> n" and "n < 2 ^ 31"
  shows "\<exists>c. jumpHash key n = Some c \<and> 0 \<le> c \<and> c < n \<and> jumpHash key (n + 1) \<in> {Some c, Some n}"
  using assms by (rule jumpHash_bounds)

theorem jump_hash_consistent_witness:
  "(\<exists>c. jumpHash 42 57 = Some c \<and> 0 \<le> c \<and> c < 57 \<and> jumpHash 42 (57 + 1) \<in> {Some c, Some 57}) \<and> jumpHash 42 57 = Some 43"
proof -
  have "jumpHash 42 57 = Some 43" by code_simp
  with jump_hash_consistent [of 57 42] show ?thesis by simp
qed

end
