(* ===== verification/Redis_Pool.thy ===== *)
theory Redis_Pool
  imports Jump_Hash Srv_Resolver
begin

text \<open>
  The Redis cache (\<^verbatim>\<open>src/pkg/storage/cached/redis\<close>): the pools of clients, one over a fixed list of servers
  and one that follows a service record, and the cache store over them. The client library is a
  record of functions over the state behind it; the checksum \<^verbatim>\<open>xxhash\<close> is a function argument. The
  lemmas show that a pool with a client finds one for every namespace, and that the pool follows the targets of
  its record while the updates it applies succeed (\<open>all_applied\<close>).
\<close>

section \<open>Data\<close>

record redis_config =
  rcSRV :: string
  rcAddresses :: "string list"
  rcUsername :: string
  rcPassword :: string
  rcDB :: int
  rcDialTimeout :: int
  rcReadTimeout :: int
  rcWriteTimeout :: int
  rcTTL :: int

record redis_options =
  roAddr :: string
  roUsername :: string
  roPassword :: string
  roDB :: int
  roDialTimeout :: int
  roReadTimeout :: int
  roWriteTimeout :: int

text \<open>The client library.\<close>

record ('c, 'r) redis =
  rdNewClient :: "redis_options \<Rightarrow> 'r \<Rightarrow> 'c \<times> 'r"
  rdPing :: "'c \<Rightarrow> ('r, unit) go"
  rdClose :: "'c \<Rightarrow> ('r, unit) go"
  rdHGet :: "'c \<Rightarrow> string \<Rightarrow> string \<Rightarrow> ('r, string) go"
  rdHSet :: "'c \<Rightarrow> string \<Rightarrow> string \<Rightarrow> string \<Rightarrow> ('r, unit) go"
  rdExpire :: "'c \<Rightarrow> string \<Rightarrow> int \<Rightarrow> ('r, unit) go"
  rdHDel :: "'c \<Rightarrow> string \<Rightarrow> string list \<Rightarrow> ('r, unit) go"
  rdDel :: "'c \<Rightarrow> string \<Rightarrow> ('r, unit) go"
  rdHExists :: "'c \<Rightarrow> string \<Rightarrow> string \<Rightarrow> ('r, bool) go"

definition redisNil :: go_error where
  "redisNil = ErrText ''redis: nil''"

record 'c client_entry =
  ceAddr :: string
  ceClient :: 'c

datatype pool_kind = staticServicePool | srvServicePool

text \<open>The cache with its pool: which of the two \<^verbatim>\<open>sp\<close> points at (\<open>None\<close> is nil), and the fields of both.\<close>

record ('c, 'r) redis_world =
  rwPool :: "pool_kind option"
  stClients :: "'c list"
  svRsv :: "srv_resolver option"
  svEntries :: "'c client_entry list"
  rwRest :: 'r

definition on_redis :: "('r, 'a) go \<Rightarrow> (('c, 'r) redis_world, 'a) go" where
  "on_redis m = (\<lambda>w. case m (rwRest w) of (r, x) \<Rightarrow> (r, w\<lparr>rwRest := x\<rparr>))"

definition on_rsv :: "(srv_resolver, 'a) go \<Rightarrow> (('c, 'r) redis_world, 'a) go" where
  "on_rsv m = (\<lambda>w. case svRsv w of
     None \<Rightarrow> (Inl ErrPanic, w)
   | Some s \<Rightarrow> (case m s of (r, s') \<Rightarrow> (r, w\<lparr>svRsv := Some s'\<rparr>)))"

definition newClient :: "('c, 'r) redis \<Rightarrow> redis_config \<Rightarrow> string \<Rightarrow> (('c, 'r) redis_world, 'c) go" where
  "newClient L cfg addr = on_redis (\<lambda>r. case rdNewClient L \<lparr>roAddr = addr, roUsername = rcUsername cfg, roPassword = rcPassword cfg, roDB = rcDB cfg,
       roDialTimeout = rcDialTimeout cfg, roReadTimeout = rcReadTimeout cfg, roWriteTimeout = rcWriteTimeout cfg\<rparr> r of (c, r') \<Rightarrow> (Inr c, r'))"

section \<open>The pool over fixed servers\<close>

text \<open>Indexing a slice outside its bounds panics.\<close>

definition choose_client :: "(string \<Rightarrow> 64 word) \<Rightarrow> 'c list \<Rightarrow> string \<Rightarrow> go_error + 'c" where
  "choose_client sum64 clients s =
     (if length clients = 1 then Inr (clients ! 0)
      else case jumpHash (sum64 s) (int (length clients)) of
             None \<Rightarrow> Inl ErrNoReturn
           | Some idx \<Rightarrow> if 0 \<le> idx \<and> idx < int (length clients) then Inr (clients ! nat idx) else Inl ErrPanic)"

definition staticGetClient :: "(string \<Rightarrow> 64 word) \<Rightarrow> ('c, 'r) redis_world \<Rightarrow> string \<Rightarrow> go_error + 'c" where
  "staticGetClient sum64 w s = choose_client sum64 (stClients w) s"

definition staticStart :: "('c, 'r) redis \<Rightarrow> redis_config \<Rightarrow> (('c, 'r) redis_world, unit) go" where
  "staticStart L cfg = for_each (rcAddresses cfg) (\<lambda>addr.
     andthen (newClient L cfg addr) (\<lambda>client.
     andthen (on_redis (rdPing L client)) (\<lambda>_.
       modify (\<lambda>w. w\<lparr>stClients := stClients w @ [client]\<rparr>))))"

definition staticStop :: "('c, 'r) redis \<Rightarrow> (('c, 'r) redis_world, unit) go" where
  "staticStop L = andthen (gets stClients) (\<lambda>cs. for_each cs (\<lambda>client. ignore (on_redis (rdClose L client))))"

section \<open>The pool over a service record\<close>

definition srvGetClient :: "(string \<Rightarrow> 64 word) \<Rightarrow> ('c, 'r) redis_world \<Rightarrow> string \<Rightarrow> go_error + 'c" where
  "srvGetClient sum64 w s = choose_client sum64 (map ceClient (svEntries w)) s"

text \<open>The two loops of \<^verbatim>\<open>syncClients\<close> on its copy of the entries.\<close>

fun drop_old :: "('c, 'r) redis \<Rightarrow> string list \<Rightarrow> 'c client_entry list \<Rightarrow> (('c, 'r) redis_world, 'c client_entry list) go" where
  "drop_old L [] ents = ret ents"
| "drop_old L (oldTarget # oldTargets) ents =
     (case find_first (\<lambda>e. ceAddr e = oldTarget) ents of
        None \<Rightarrow> drop_old L oldTargets ents
      | Some ent \<Rightarrow>
          andthen (ignore (on_redis (rdClose L (ceClient ent)))) (\<lambda>_.
            drop_old L oldTargets (remove_first (\<lambda>e. ceAddr e = oldTarget) ents)))"

fun add_new :: "('c, 'r) redis \<Rightarrow> redis_config \<Rightarrow> string list \<Rightarrow> 'c client_entry list \<Rightarrow> (('c, 'r) redis_world, 'c client_entry list) go" where
  "add_new L cfg [] ents = ret ents"
| "add_new L cfg (newTarget # newTargets) ents =
     andthen (newClient L cfg newTarget) (\<lambda>client.
     andthen (on_redis (rdPing L client)) (\<lambda>_.
       add_new L cfg newTargets (ents @ [\<lparr>ceAddr = newTarget, ceClient = client\<rparr>])))"

definition syncClients :: "('c, 'r) redis \<Rightarrow> redis_config \<Rightarrow> string list \<Rightarrow> string list \<Rightarrow> (('c, 'r) redis_world, unit) go" where
  "syncClients L cfg newTargets oldTargets =
     andthen (gets svEntries) (\<lambda>ents.
     andthen (drop_old L oldTargets ents) (\<lambda>ents1.
     andthen (add_new L cfg newTargets ents1) (\<lambda>ents2.
       modify (\<lambda>w. w\<lparr>svEntries := sort_slice (\<lambda>a b. ceAddr a < ceAddr b) ents2\<rparr>))))"

text \<open>\<open>lookUp\<close> answers the first look-up, with the service, the protocol and the name of the record.\<close>

definition srvStart :: "('c, 'r) redis \<Rightarrow> redis_config \<Rightarrow> (string list \<Rightarrow> string list) \<Rightarrow> (string \<Rightarrow> string \<Rightarrow> string \<Rightarrow> go_error + srv_addr list)
    \<Rightarrow> (('c, 'r) redis_world, unit) go" where
  "srvStart L cfg order lookUp =
     (case ParseSRVRecord (rcSRV cfg) of
        Inl e \<Rightarrow> throw e
      | Inr (srv, proto, name) \<Rightarrow>
          andthen (modify (\<lambda>w. w\<lparr>svRsv := Some newSRVResolver\<rparr>)) (\<lambda>_.
          andthen (on_rsv (srv_resolve order (lookUp srv proto name))) (\<lambda>_.
          andthen (on_rsv (gets rsTargets)) (\<lambda>targets.
            syncClients L cfg targets []))))"

definition srvStop :: "('c, 'r) redis \<Rightarrow> (('c, 'r) redis_world, unit) go" where
  "srvStop L =
     andthen (on_rsv rsv_close) (\<lambda>_.
     andthen (gets svEntries) (\<lambda>ents.
       for_each ents (\<lambda>ent. ignore (on_redis (rdClose L (ceClient ent))))))"

text \<open>One round of \<^verbatim>\<open>runUpdate\<close>: the next update, if there is one, is applied; an error is only logged.\<close>

definition runUpdate :: "('c, 'r) redis \<Rightarrow> redis_config \<Rightarrow> (('c, 'r) redis_world, unit) go" where
  "runUpdate L cfg =
     andthen (on_rsv (gets rsUpdates)) (\<lambda>us.
       case us of
         [] \<Rightarrow> ret ()
       | upd # rest \<Rightarrow>
           andthen (on_rsv (modify (\<lambda>r. r\<lparr>rsUpdates := rest\<rparr>))) (\<lambda>_.
             ignore (syncClients L cfg (NewTargets upd) (OldTargets upd))))"

text \<open>What happens while the pool runs: a tick of the resolver, with the answer of the look-up, or a round
  of \<^verbatim>\<open>runUpdate\<close>.\<close>

datatype pool_event = Tick "string list \<Rightarrow> string list" "go_error + srv_addr list" | Sync

fun pool_do :: "('c, 'r) redis \<Rightarrow> redis_config \<Rightarrow> pool_event \<Rightarrow> (('c, 'r) redis_world, unit) go" where
  "pool_do L cfg (Tick order answer) = on_rsv (rsv_tick order answer)"
| "pool_do L cfg Sync = runUpdate L cfg"

section \<open>The cache store\<close>

definition getClient :: "(string \<Rightarrow> 64 word) \<Rightarrow> string \<Rightarrow> (('c, 'r) redis_world, 'c) go" where
  "getClient sum64 s = (\<lambda>w. (case rwPool w of
       None \<Rightarrow> Inl ErrPanic
     | Some staticServicePool \<Rightarrow> staticGetClient sum64 w s
     | Some srvServicePool \<Rightarrow> srvGetClient sum64 w s, w))"

definition redisCache :: "('c, 'r) redis \<Rightarrow> (string \<Rightarrow> 64 word) \<Rightarrow> redis_config \<Rightarrow> ('c, 'r) redis_world cache" where
  "redisCache L sum64 cfg = \<lparr>
     cxGet = (\<lambda>ns key. andthen (getClient sum64 ns) (\<lambda>cl.
       andthen (attempt (on_redis (rdHGet L cl ns key))) (\<lambda>res.
         case res of
           Inl e \<Rightarrow> if e = redisNil then ret None else throw e
         | Inr val \<Rightarrow> ret (Some val)))),
     cxPut = (\<lambda>ns key val. andthen (getClient sum64 ns) (\<lambda>cl.
       andthen (on_redis (rdHSet L cl ns key val)) (\<lambda>_. on_redis (rdExpire L cl ns (rcTTL cfg))))),
     cxDel = (\<lambda>ns ks. andthen (getClient sum64 ns) (\<lambda>cl. on_redis (rdHDel L cl ns ks))),
     cxDelNS = (\<lambda>ns. andthen (getClient sum64 ns) (\<lambda>cl. on_redis (rdDel L cl ns))),
     cxHasKey = (\<lambda>ns key. andthen (getClient sum64 ns) (\<lambda>cl. on_redis (rdHExists L cl ns key)))\<rparr>"

definition redisStart :: "('c, 'r) redis \<Rightarrow> redis_config \<Rightarrow> (string list \<Rightarrow> string list) \<Rightarrow> (string \<Rightarrow> string \<Rightarrow> string \<Rightarrow> go_error + srv_addr list)
    \<Rightarrow> (('c, 'r) redis_world, unit) go" where
  "redisStart L cfg order lookUp =
     (if length (rcSRV cfg) > 0
      then andthen (modify (\<lambda>w. w\<lparr>rwPool := Some srvServicePool, svRsv := None, svEntries := []\<rparr>)) (\<lambda>_. srvStart L cfg order lookUp)
      else andthen (modify (\<lambda>w. w\<lparr>rwPool := Some staticServicePool, stClients := []\<rparr>)) (\<lambda>_. staticStart L cfg))"

definition redisStop :: "('c, 'r) redis \<Rightarrow> (('c, 'r) redis_world, unit) go" where
  "redisStop L = andthen (gets rwPool) (\<lambda>p. case p of
     None \<Rightarrow> throw ErrPanic
   | Some staticServicePool \<Rightarrow> staticStop L
   | Some srvServicePool \<Rightarrow> srvStop L)"

section \<open>Choosing a client\<close>

text \<open>A pool with a client finds one of its clients for every namespace; an empty pool panics.\<close>

lemma choose_client_ok:
  assumes "cs \<noteq> []" and "length cs < 2 ^ 31"
  shows "\<exists>c \<in> set cs. choose_client sum64 cs s = Inr c"
proof (cases "length cs = 1")
  case True
  with assms(1) show ?thesis by (auto simp: choose_client_def)
next
  case False
  have "1 \<le> int (length cs)" using assms(1) by (cases cs) simp_all
  moreover have "int (length cs) < 2 ^ 31" using assms(2) by simp
  ultimately obtain i where "jumpHash (sum64 s) (int (length cs)) = Some i" "0 \<le> i" "i < int (length cs)" using jumpHash_bounds by blast
  with False show ?thesis by (intro bexI [of _ "cs ! nat i"]) (simp_all add: choose_client_def)
qed

lemma choose_client_empty: "choose_client sum64 [] s = Inl ErrPanic"
  by (simp add: choose_client_def jumpHash_no_buckets)

text \<open>A client appended to a pool takes over namespaces, and no namespace moves between the others.\<close>

lemma choose_client_append:
  assumes "cs \<noteq> []" and "length cs < 2 ^ 31"
  shows "choose_client sum64 (cs @ [c]) s = choose_client sum64 cs s \<or> choose_client sum64 (cs @ [c]) s = Inr c"
proof -
  have n: "1 \<le> int (length cs)" "int (length cs) < 2 ^ 31" using assms by (cases cs; simp)+
  obtain i where i: "jumpHash (sum64 s) (int (length cs)) = Some i" "0 \<le> i" "i < int (length cs)"
      "jumpHash (sum64 s) (int (length cs) + 1) \<in> {Some i, Some (int (length cs))}" using jumpHash_bounds [OF n] by blast
  have "jumpHash (sum64 s) (1 + int (length cs)) \<in> {Some i, Some (int (length cs))}" using i(4) by (simp only: add.commute)
  with i n assms(1) show ?thesis unfolding choose_client_def by (auto simp: nth_append)
qed

section \<open>The pool follows the record\<close>

text \<open>The client of every entry is one for the address of the entry; \<open>server\<close> is the address a client was
  made for.\<close>

definition pool_ok :: "('c \<Rightarrow> string) \<Rightarrow> ('c, 'r) redis_world \<Rightarrow> bool" where
  "pool_ok server w \<longleftrightarrow> (\<exists>r. svRsv w = Some r \<and> \<not> rsClosed r \<and> length (rsUpdates r) \<le> 2 \<and> distinct (rsTargets r) \<and> sorted (rsTargets r) \<and>
     sorted (map ceAddr (svEntries w)) \<and> (\<forall>e \<in> set (svEntries w). server (ceClient e) = ceAddr e) \<and>
     fold apply_update (rsUpdates r) (mset (map ceAddr (svEntries w))) = mset (rsTargets r))"

text \<open>Events whose look-ups answer every target once.\<close>

fun event_ok :: "pool_event \<Rightarrow> bool" where
  "event_ok (Tick order answer) \<longleftrightarrow> (\<forall>xs. mset (order xs) = mset xs) \<and> (\<forall>addrs. answer = Inr addrs \<longrightarrow> distinct (srv_targets addrs))"
| "event_ok Sync \<longleftrightarrow> True"

text \<open>The next update, if there is one, can be applied: every new client answers its ping.\<close>

definition applied :: "('c, 'r) redis \<Rightarrow> redis_config \<Rightarrow> ('c, 'r) redis_world \<Rightarrow> bool" where
  "applied L cfg w \<longleftrightarrow> (case svRsv w of None \<Rightarrow> True | Some r \<Rightarrow>
     (case rsUpdates r of
        [] \<Rightarrow> True
      | u # us \<Rightarrow> fst (syncClients L cfg (NewTargets u) (OldTargets u) (w\<lparr>svRsv := Some (r\<lparr>rsUpdates := us\<rparr>)\<rparr>)) = Inr ()))"

fun all_applied :: "('c, 'r) redis \<Rightarrow> redis_config \<Rightarrow> pool_event list \<Rightarrow> ('c, 'r) redis_world \<Rightarrow> bool" where
  "all_applied L cfg [] w \<longleftrightarrow> True"
| "all_applied L cfg (e # es) w \<longleftrightarrow> (case e of Sync \<Rightarrow> applied L cfg w | _ \<Rightarrow> True) \<and> all_applied L cfg es (snd (pool_do L cfg e w))"

lemma run_all_append: "snd (run_all f (xs @ ys) w) = snd (run_all f ys (snd (run_all f xs w)))"
  by (induction xs arbitrary: w) (simp_all add: split_beta)

lemma all_applied_append: "all_applied L cfg (es @ fs) w \<longleftrightarrow> all_applied L cfg es w \<and> all_applied L cfg fs (snd (run_all (pool_do L cfg) es w))"
  by (induction es arbitrary: w) (simp_all add: split_beta)

lemma sorted_entries:
  fixes es :: "'a client_entry list"
  shows "sorted (map ceAddr (sort_slice (\<lambda>a b. ceAddr a < ceAddr b) es))"
proof -
  have "weak_order (\<lambda>a b :: 'a client_entry. ceAddr a < ceAddr b)" by (auto simp: weak_order_def)
  from sorted_sort_slice_wrt [OF this] show ?thesis by (simp add: sorted_wrt_map not_less)
qed

lemma drop_old_run:
  "\<exists>es r'. drop_old L old ents w = (Inr es, w\<lparr>rwRest := r'\<rparr>) \<and> mset (map ceAddr es) = mset (map ceAddr ents) - mset old \<and> set es \<subseteq> set ents"
proof (induction old arbitrary: ents w)
  case Nil
  show ?case by (intro exI [of _ ents] exI [of _ "rwRest w"]) (simp add: go_run)
next
  case (Cons t old)
  show ?case
  proof (cases "find_first (\<lambda>e. ceAddr e = t) ents")
    case None
    then have run: "drop_old L (t # old) ents = drop_old L old ents" by (simp only: drop_old.simps option.case)
    have "t \<notin># mset (map ceAddr ents)" using None by auto
    with Cons.IH [of ents w] show ?thesis unfolding run by (simp add: diff_single_trivial)
  next
    case (Some e)
    let ?es = "remove_first (\<lambda>e. ceAddr e = t) ents" and ?w = "w\<lparr>rwRest := snd (rdClose L (ceClient e) (rwRest w))\<rparr>"
    have m: "mset (map ceAddr ?es) = mset (map ceAddr ents) - {#t#}"
      using mset_remove_first [OF Some] find_first_SomeD [OF Some] by (simp add: image_mset_Diff)
    have run: "drop_old L (t # old) ents w = drop_old L old ?es ?w"
      using Some by (simp add: go_run on_redis_def split: prod.splits)
    from Cons.IH [of ?es ?w] m set_remove_first_subset [of "\<lambda>e. ceAddr e = t" ents] show ?thesis unfolding run by fastforce
  qed
qed

locale redis_client =
  fixes L :: "('c, 'r) redis" and server :: "'c \<Rightarrow> string"
  assumes new_client: "server (fst (rdNewClient L opts r)) = roAddr opts"
begin

lemma add_new_run:
  "\<forall>e \<in> set ents. server (ceClient e) = ceAddr e \<Longrightarrow> add_new L cfg new ents w = (Inr es, w') \<Longrightarrow>
     (\<exists>r'. w' = w\<lparr>rwRest := r'\<rparr>) \<and> mset (map ceAddr es) = mset (map ceAddr ents) + mset new \<and> (\<forall>e \<in> set es. server (ceClient e) = ceAddr e)"
proof (induction new arbitrary: ents w)
  case Nil
  then show ?case by (auto simp: go_run intro: exI [of _ "rwRest w"])
next
  case (Cons t new)
  let ?o = "\<lparr>roAddr = t, roUsername = rcUsername cfg, roPassword = rcPassword cfg, roDB = rcDB cfg,
      roDialTimeout = rcDialTimeout cfg, roReadTimeout = rcReadTimeout cfg, roWriteTimeout = rcWriteTimeout cfg\<rparr>"
  obtain c w1 where n: "rdNewClient L ?o (rwRest w) = (c, w1)" by fastforce
  have c: "newClient L cfg t w = (Inr c, w\<lparr>rwRest := w1\<rparr>)" "server c = t"
    using n new_client [of ?o "rwRest w"] by (simp_all add: newClient_def on_redis_def)
  obtain x w2 where x: "rdPing L c w1 = (x, w2)" by fastforce
  with Cons.prems(2) c(1) have w2: "rdPing L c w1 = (Inr (), w2)"
    by (cases x) (simp_all add: go_run on_redis_def)
  let ?es = "ents @ [\<lparr>ceAddr = t, ceClient = c\<rparr>]"
  have "add_new L cfg (t # new) ents w = add_new L cfg new ?es (w\<lparr>rwRest := w2\<rparr>)"
    using c w2 by (simp add: go_run on_redis_def)
  with Cons.IH [of ?es "w\<lparr>rwRest := w2\<rparr>"] Cons.prems c(2) show ?case by auto
qed

lemma syncClients_run:
  assumes "\<forall>e \<in> set (svEntries w). server (ceClient e) = ceAddr e" and "fst (syncClients L cfg new old w) = Inr ()"
  obtains es r' where "syncClients L cfg new old w = (Inr (), w\<lparr>rwRest := r', svEntries := es\<rparr>)"
    and "mset (map ceAddr es) = mset (map ceAddr (svEntries w)) - mset old + mset new" and "sorted (map ceAddr es)"
    and "\<forall>e \<in> set es. server (ceClient e) = ceAddr e"
proof -
  obtain e1 r1 where 1: "drop_old L old (svEntries w) w = (Inr e1, w\<lparr>rwRest := r1\<rparr>)"
      "mset (map ceAddr e1) = mset (map ceAddr (svEntries w)) - mset old" "set e1 \<subseteq> set (svEntries w)"
    using drop_old_run [of L old "svEntries w" w] by blast
  obtain x w2 where x: "add_new L cfg new e1 (w\<lparr>rwRest := r1\<rparr>) = (x, w2)" by fastforce
  with assms(2) 1(1) obtain e2 where e2: "x = Inr e2" by (cases x) (simp_all add: syncClients_def go_run)
  obtain r2 where 2: "w2 = w\<lparr>rwRest := r2\<rparr>" "mset (map ceAddr e2) = mset (map ceAddr e1) + mset new"
      "\<forall>e \<in> set e2. server (ceClient e) = ceAddr e"
    using add_new_run [OF _ x [unfolded e2]] assms(1) 1(3) by auto
  show thesis
    by (rule that [of "sort_slice (\<lambda>a b. ceAddr a < ceAddr b) e2" r2]) (use 1 2 x e2 sorted_entries in \<open>simp_all add: syncClients_def go_run\<close>)
qed

lemma tick_ok:
  assumes "pool_ok server w" and "event_ok (Tick order answer)" and "svRsv w = Some r"
  shows "\<exists>r'. on_rsv (rsv_tick order answer) w = (Inr (), w\<lparr>svRsv := Some r'\<rparr>) \<and> pool_ok server (w\<lparr>svRsv := Some r'\<rparr>) \<and>
    (\<forall>addrs. rsUpdates r = [] \<longrightarrow> answer = Inr addrs \<longrightarrow> rsTargets r' = sort_slice (<) (srv_targets addrs) \<and> length (rsUpdates r') \<le> 1)"
proof -
  have r: "\<not> rsClosed r" "distinct (rsTargets r)" "length (rsUpdates r) \<le> 2"
    and f: "fold apply_update (rsUpdates r) (mset (map ceAddr (svEntries w))) = mset (rsTargets r)"
    using assms(1,3) unfolding pool_ok_def by auto
  show ?thesis
  proof (cases "1 < length (rsUpdates r) \<or> (\<exists>e. answer = Inl e)")
    case True
    with r assms(3) have "on_rsv (rsv_tick order answer) w = (Inr (), w\<lparr>svRsv := Some r\<rparr>)"
      by (auto simp: on_rsv_def rsv_tick_def srv_resolve_def go_run)
    with assms(1,3) True show ?thesis by (auto simp: pool_ok_def)
  next
    case False
    then obtain addrs where a: "answer = Inr addrs" by (cases answer) auto
    with assms(2) have ts: "distinct (srv_targets addrs)" "\<And>xs. mset (order xs) = mset xs" by auto
    let ?r = "r\<lparr>rsTargets := sort_slice (<) (srv_targets addrs)\<rparr>"
    obtain u where u: "srv_resolve order (Inr addrs) r = (Inr u, ?r)" "apply_update u (mset (rsTargets r)) = mset (srv_targets addrs)"
      using srv_resolve_update [OF r(2) ts] by metis
    define r' where "r' = (if NewTargets u = [] \<and> OldTargets u = [] then ?r else ?r\<lparr>rsUpdates := rsUpdates r @ [u]\<rparr>)"
    have "on_rsv (rsv_tick order answer) w = (Inr (), w\<lparr>svRsv := Some r'\<rparr>)"
      using False r(1) assms(3) a u(1) by (auto simp: on_rsv_def rsv_tick_def go_run r'_def)
    moreover have "distinct (sort_slice (<) (srv_targets addrs))" using ts(1) by (metis mset_sort_slice mset_eq_imp_distinct_iff)
    moreover have "fold apply_update (rsUpdates r') (mset (map ceAddr (svEntries w))) = mset (srv_targets addrs)"
      using f u(2) by (auto simp: r'_def apply_update_def)
    ultimately show ?thesis using assms(1,3) r a False sorted_sort_slice_asc [of "srv_targets addrs"] by (auto simp: pool_ok_def r'_def)
  qed
qed

lemma sync_ok:
  assumes "pool_ok server w" and "applied L cfg w" and "svRsv w = Some r"
  shows "\<exists>w1 r1. runUpdate L cfg w = (Inr (), w1) \<and> pool_ok server w1 \<and> svRsv w1 = Some r1 \<and>
    rsUpdates r1 = tl (rsUpdates r) \<and> rsTargets r1 = rsTargets r"
proof -
  have ents: "\<forall>e \<in> set (svEntries w). server (ceClient e) = ceAddr e" using assms(1) unfolding pool_ok_def by blast
  show ?thesis
  proof (cases "rsUpdates r")
    case Nil
    with assms(1,3) show ?thesis by (simp add: runUpdate_def go_run on_rsv_def pool_ok_def)
  next
    case (Cons u us)
    let ?w = "w\<lparr>svRsv := Some (r\<lparr>rsUpdates := us\<rparr>)\<rparr>"
    have "fst (syncClients L cfg (NewTargets u) (OldTargets u) ?w) = Inr ()" using assms(2,3) Cons by (simp add: applied_def)
    then obtain es r' where s: "syncClients L cfg (NewTargets u) (OldTargets u) ?w = (Inr (), ?w\<lparr>rwRest := r', svEntries := es\<rparr>)"
        "mset (map ceAddr es) = mset (map ceAddr (svEntries w)) - mset (OldTargets u) + mset (NewTargets u)" "sorted (map ceAddr es)"
        "\<forall>e \<in> set es. server (ceClient e) = ceAddr e"
      using syncClients_run [of ?w cfg "NewTargets u" "OldTargets u"] ents by auto
    have "runUpdate L cfg w = (Inr (), ?w\<lparr>rwRest := r', svEntries := es\<rparr>)"
      using assms(3) Cons s(1) by (simp add: runUpdate_def go_run on_rsv_def)
    with assms(1,3) Cons s show ?thesis by (auto simp: pool_ok_def apply_update_def simp del: mset_map)
  qed
qed

lemma run_ok:
  "pool_ok server w \<Longrightarrow> \<forall>e \<in> set es. event_ok e \<Longrightarrow> all_applied L cfg es w \<Longrightarrow> run_all (pool_do L cfg) es w = (rs, w') \<Longrightarrow>
     pool_ok server w' \<and> (\<forall>x \<in> set rs. x = Inr ())"
proof (induction es arbitrary: w rs)
  case (Cons e es)
  obtain r where r: "svRsv w = Some r" using Cons.prems(1) unfolding pool_ok_def by blast
  obtain x w1 where x: "pool_do L cfg e w = (x, w1)" by fastforce
  have "x = Inr () \<and> pool_ok server w1"
    using Cons.prems(1-3) tick_ok [OF Cons.prems(1) _ r] sync_ok [OF Cons.prems(1) _ r, of cfg] x by (cases e) fastforce+
  with Cons x show ?case by (auto split: prod.splits)
qed simp

lemma start_ok:
  assumes "rcSRV cfg \<noteq> []" and "redisStart L cfg order lookUp w = (Inr (), w')"
    and "\<And>srv proto name addrs. lookUp srv proto name = Inr addrs \<Longrightarrow> distinct (srv_targets addrs)"
  shows "pool_ok server w'"
proof -
  obtain srv proto name where p: "ParseSRVRecord (rcSRV cfg) = Inr (srv, proto, name)"
    using assms(1,2) by (cases "ParseSRVRecord (rcSRV cfg)") (auto simp: redisStart_def srvStart_def go_run)
  obtain addrs where l: "lookUp srv proto name = Inr addrs"
    using assms(1,2) p by (cases "lookUp srv proto name") (auto simp: redisStart_def srvStart_def go_run on_rsv_def srv_resolve_def)
  let ?r = "newSRVResolver\<lparr>rsTargets := sort_slice (<) (srv_targets addrs)\<rparr>"
  let ?w = "w\<lparr>rwPool := Some srvServicePool, svEntries := [], svRsv := Some ?r\<rparr>"
  have "fst (srv_resolve order (Inr addrs) newSRVResolver) = Inr \<lparr>NewTargets = order (remdups (srv_targets addrs)), OldTargets = []\<rparr>"
      "snd (srv_resolve order (Inr addrs) newSRVResolver) = ?r"
    by (simp_all add: srv_resolve_def newSRVResolver_def Let_def)
  then have run: "redisStart L cfg order lookUp w = syncClients L cfg (rsTargets ?r) [] ?w"
    using assms(1) p l by (simp add: redisStart_def srvStart_def go_run on_rsv_def case_prod_beta)
  with assms(2) have "fst (syncClients L cfg (rsTargets ?r) [] ?w) = Inr ()" by simp
  then obtain es r' where s: "syncClients L cfg (rsTargets ?r) [] ?w = (Inr (), ?w\<lparr>rwRest := r', svEntries := es\<rparr>)"
      "mset (map ceAddr es) = mset (rsTargets ?r)" "sorted (map ceAddr es)" "\<forall>e \<in> set es. server (ceClient e) = ceAddr e"
    using syncClients_run [of ?w cfg "rsTargets ?r" "[]"] by auto
  have "distinct (sort_slice (<) (srv_targets addrs))" using assms(3) [OF l] by (metis mset_sort_slice mset_eq_imp_distinct_iff)
  with s assms(2) run show ?thesis by (auto simp: pool_ok_def newSRVResolver_def sorted_sort_slice_asc)
qed

lemma pool_ok_settled:
  assumes "pool_ok server w"
  obtains r where "svRsv w = Some r" and "rsUpdates r = [] \<Longrightarrow> map ceAddr (svEntries w) = rsTargets r"
proof -
  obtain r where r: "svRsv w = Some r" "sorted (rsTargets r)" "sorted (map ceAddr (svEntries w))"
      "fold apply_update (rsUpdates r) (mset (map ceAddr (svEntries w))) = mset (rsTargets r)"
    using assms unfolding pool_ok_def by blast
  have "map ceAddr (svEntries w) = rsTargets r" if "rsUpdates r = []"
    using r(2-4) that by (metis fold_simps(1) properties_for_sort)
  with r(1) that show thesis by blast
qed

text \<open>When the pending updates have been applied and the record is looked up once more.\<close>

lemma caught_up:
  assumes "pool_ok server w" and "event_ok (Tick order (Inr addrs))"
    and "all_applied L cfg [Sync, Sync, Tick order (Inr addrs), Sync] w"
    and "run_all (pool_do L cfg) [Sync, Sync, Tick order (Inr addrs), Sync] w = (rs, w')"
  shows "map ceAddr (svEntries w') = sort (srv_targets addrs) \<and> pool_ok server w'"
proof -
  obtain r where r: "svRsv w = Some r" "length (rsUpdates r) \<le> 2" using assms(1) unfolding pool_ok_def by blast
  obtain w1 r1 where 1: "runUpdate L cfg w = (Inr (), w1)" "pool_ok server w1" "svRsv w1 = Some r1" "rsUpdates r1 = tl (rsUpdates r)"
    using sync_ok [OF assms(1) _ r(1), of cfg] assms(3) by auto
  obtain w2 r2 where 2: "runUpdate L cfg w1 = (Inr (), w2)" "pool_ok server w2" "svRsv w2 = Some r2" "rsUpdates r2 = tl (rsUpdates r1)"
    using sync_ok [OF 1(2) _ 1(3), of cfg] assms(3) 1(1) by auto
  have "rsUpdates r2 = []" using r(2) 1(4) 2(4) by (cases "rsUpdates r"; cases "tl (rsUpdates r)") simp_all
  with tick_ok [OF 2(2) assms(2) 2(3)] obtain r3 where 3: "on_rsv (rsv_tick order (Inr addrs)) w2 = (Inr (), w2\<lparr>svRsv := Some r3\<rparr>)"
      "pool_ok server (w2\<lparr>svRsv := Some r3\<rparr>)" "rsTargets r3 = sort_slice (<) (srv_targets addrs)" "length (rsUpdates r3) \<le> 1" by auto
  have "applied L cfg (w2\<lparr>svRsv := Some r3\<rparr>)" using assms(3) 1(1) 2(1) 3(1) by simp
  then obtain w4 r4 where 4: "runUpdate L cfg (w2\<lparr>svRsv := Some r3\<rparr>) = (Inr (), w4)" "pool_ok server w4" "svRsv w4 = Some r4"
      "rsUpdates r4 = tl (rsUpdates r3)" "rsTargets r4 = rsTargets r3"
    using sync_ok [OF 3(2), of cfg r3] by auto
  have "rsUpdates r4 = []" using 3(4) 4(4) by (cases "rsUpdates r3") simp_all
  with pool_ok_settled [OF 4(2)] 4(3) have "map ceAddr (svEntries w4) = rsTargets r4" by fastforce
  moreover have "sort_slice (<) (srv_targets addrs) = sort (srv_targets addrs)"
    by (rule properties_for_sort [symmetric]) (simp_all add: sorted_sort_slice_asc)
  moreover have "w' = w4" using assms(4) 1(1) 2(1) 3(1) 4(1) by simp
  ultimately show ?thesis using 3(3) 4(2,5) by simp
qed

end

end
