(* ===== verification/Redis_Cache.thy ===== *)
theory Redis_Cache
  imports Redis_Pool
begin

text \<open>
  The Redis cache as a cache store. \<open>redis_servers\<close> is what the client library documents of its commands; it
  gives the contract of a cache store, whatever the pool, as long as the pool does not change, so that
  accounts behind the Redis cache behave as a table. The theorems at the end show what happens when the
  pool changes.
\<close>

section \<open>A cache store\<close>

text \<open>What the library documents of its commands, where \<open>held\<close> is what the servers hold, by address: a
  command answers from the server of its client and changes only the keys it names, and servers may
  drop keys at any time.\<close>

definition fewer :: "('a \<Rightarrow> 'n \<Rightarrow> 'k \<Rightarrow> 'v option) \<Rightarrow> ('a \<Rightarrow> 'n \<Rightarrow> 'k \<Rightarrow> 'v option) \<Rightarrow> bool" where
  "fewer h h' \<longleftrightarrow> (\<forall>a n k v. h a n k = Some v \<longrightarrow> h' a n k = Some v)"

locale redis_servers =
  fixes L :: "('c, 'r) redis" and server :: "'c \<Rightarrow> string" and held :: "'r \<Rightarrow> string \<Rightarrow> string \<Rightarrow> string \<Rightarrow> string option"
  assumes hget: "rdHGet L c ns k r = (v, r') \<Longrightarrow> fewer (held r') (held r) \<and> (\<forall>b. v = Inr b \<longrightarrow> held r (server c) ns k = Some b)"
    and hset: "rdHSet L c ns k b r = (t, r') \<Longrightarrow> held r' a n j = Some x \<Longrightarrow> held r a n j = Some x \<or> (a = server c \<and> n = ns \<and> j = k \<and> x = b)"
    and expire: "rdExpire L c ns ttl r = (t, r') \<Longrightarrow> fewer (held r') (held r)"
    and hdel: "rdHDel L c ns ks r = (t, r') \<Longrightarrow> fewer (held r') (held r) \<and> (t = Inr () \<longrightarrow> (\<forall>k \<in> set ks. held r' (server c) ns k = None))"
    and del: "rdDel L c ns r = (t, r') \<Longrightarrow> fewer (held r') (held r) \<and> (t = Inr () \<longrightarrow> (\<forall>k. held r' (server c) ns k = None))"
    and hexists: "rdHExists L c ns k r = (q, r') \<Longrightarrow> fewer (held r') (held r) \<and> (q = Inr True \<longrightarrow> held r (server c) ns k \<noteq> None)"

text \<open>What the cache holds: for every namespace what the server of its client holds.\<close>

definition redis_held :: "(string \<Rightarrow> 64 word) \<Rightarrow> ('c \<Rightarrow> string) \<Rightarrow> ('r \<Rightarrow> string \<Rightarrow> string \<Rightarrow> string \<Rightarrow> string option)
    \<Rightarrow> ('c, 'r) redis_world \<Rightarrow> string \<Rightarrow> string \<Rightarrow> string option" where
  "redis_held sum64 server held w ns k = (case fst (getClient sum64 ns w) of Inl _ \<Rightarrow> None | Inr c \<Rightarrow> held (rwRest w) (server c) ns k)"

lemma getClient_keeps [simp]: "snd (getClient sum64 ns w) = w" "fst (getClient sum64 n (w\<lparr>rwRest := r\<rparr>)) = fst (getClient sum64 n w)"
  by (simp_all add: getClient_def staticGetClient_def srvGetClient_def split: option.split pool_kind.split)

lemma redis_held_fewer: "fewer (held r) (held (rwRest w)) \<Longrightarrow> redis_held sum64 server held (w\<lparr>rwRest := r\<rparr>) n k = Some b \<Longrightarrow> redis_held sum64 server held w n k = Some b"
  by (auto simp: redis_held_def fewer_def split: sum.splits)

lemma with_client:
  assumes "andthen (getClient sum64 ns) f w = (x, w')"
  obtains e where "fst (getClient sum64 ns w) = Inl e" and "x = Inl e" and "w' = w"
  | c where "fst (getClient sum64 ns w) = Inr c" and "f c w = (x, w')"
  using assms by (cases "fst (getClient sum64 ns w)") (auto simp: andthen_run split: prod.splits sum.splits dest: sym [of _ "getClient sum64 ns w"] simp: prod_eq_iff)

context redis_servers
begin

lemma get:
  assumes "cxGet (redisCache L sum64 cfg) ns k w = (r, w')"
  shows "(\<forall>n j b. redis_held sum64 server held w' n j = Some b \<longrightarrow> redis_held sum64 server held w n j = Some b) \<and>
    (\<forall>b. r = Inr (Some b) \<longrightarrow> redis_held sum64 server held w ns k = Some b)"
proof -
  have "andthen (getClient sum64 ns) (\<lambda>cl. andthen (attempt (on_redis (rdHGet L cl ns k)))
      (\<lambda>res. case res of Inl e \<Rightarrow> if e = redisNil then ret None else throw e | Inr val \<Rightarrow> ret (Some val))) w = (r, w')"
    using assms by (simp add: redisCache_def)
  then show ?thesis
  proof (cases rule: with_client)
    case (2 c)
    obtain v r1 where g: "rdHGet L c ns k (rwRest w) = (v, r1)" by fastforce
    with 2(2) have "w' = w\<lparr>rwRest := r1\<rparr>" "\<And>b. r = Inr (Some b) \<Longrightarrow> v = Inr b"
      by (auto simp: go_run on_redis_def split: sum.splits if_splits)
    with 2(1) hget [OF g] redis_held_fewer show ?thesis by (auto simp: redis_held_def [of _ _ _ w ns])
  qed simp
qed

lemma put:
  assumes "cxPut (redisCache L sum64 cfg) ns k v w = (t, w')" and "redis_held sum64 server held w' n j = Some b"
  shows "redis_held sum64 server held w n j = Some b \<or> (n = ns \<and> j = k \<and> b = v)"
proof -
  have "andthen (getClient sum64 ns) (\<lambda>cl. andthen (on_redis (rdHSet L cl ns k v)) (\<lambda>_. on_redis (rdExpire L cl ns (rcTTL cfg)))) w = (t, w')"
    using assms(1) by (simp add: redisCache_def)
  then show ?thesis
  proof (cases rule: with_client)
    case (2 c)
    obtain x r1 y r2 where g: "rdHSet L c ns k v (rwRest w) = (x, r1)" "rdExpire L c ns (rcTTL cfg) r1 = (y, r2)" by fastforce
    then obtain r3 where w': "w' = w\<lparr>rwRest := r3\<rparr>" "r3 = r1 \<or> r3 = r2"
      using 2(2) by (cases x) (auto simp: go_run on_redis_def)
    have "fewer (held r3) (held r1)" using w'(2) expire [OF g(2)] by (auto simp: fewer_def)
    then have "held r3 a n j = Some b \<Longrightarrow> held (rwRest w) a n j = Some b \<or> (a = server c \<and> n = ns \<and> j = k \<and> b = v)" for a n j b
      using hset [OF g(1)] unfolding fewer_def by blast
    with assms(2) show ?thesis unfolding w'(1) by (auto simp: redis_held_def split: sum.splits)
  qed (use assms(2) in simp)
qed

lemma cache: "cache_store (redisCache L sum64 cfg) (redis_held sum64 server held) (\<lambda>_. ())"
proof (rule cache_store.intro, goal_cases)
  case (1 ns k w r w')
  from get [OF this] show ?case by blast
next
  case (2 ns k v w t w')
  from put [OF this] show ?case by blast
next
  case (3 ns ks w t w')
  then have "andthen (getClient sum64 ns) (\<lambda>cl. on_redis (rdHDel L cl ns ks)) w = (t, w')" by (simp add: redisCache_def)
  then show ?case
  proof (cases rule: with_client)
    case (2 c)
    obtain x r1 where g: "rdHDel L c ns ks (rwRest w) = (x, r1)" by fastforce
    with 2(2) have "w' = w\<lparr>rwRest := r1\<rparr>" "t = x" by (auto simp: on_redis_def)
    with 2(1) hdel [OF g] redis_held_fewer show ?thesis by (fastforce simp: redis_held_def [of _ _ _ "w\<lparr>rwRest := r1\<rparr>"])
  qed simp
next
  case (4 ns w t w')
  then have "andthen (getClient sum64 ns) (\<lambda>cl. on_redis (rdDel L cl ns)) w = (t, w')" by (simp add: redisCache_def)
  then show ?case
  proof (cases rule: with_client)
    case (2 c)
    obtain x r1 where g: "rdDel L c ns (rwRest w) = (x, r1)" by fastforce
    with 2(2) have "w' = w\<lparr>rwRest := r1\<rparr>" "t = x" by (auto simp: on_redis_def)
    with 2(1) del [OF g] redis_held_fewer show ?thesis by (fastforce simp: redis_held_def [of _ _ _ "w\<lparr>rwRest := r1\<rparr>"])
  qed simp
next
  case (5 ns k w q w')
  then have "andthen (getClient sum64 ns) (\<lambda>cl. on_redis (rdHExists L cl ns k)) w = (q, w')" by (simp add: redisCache_def)
  then show ?case
  proof (cases rule: with_client)
    case (2 c)
    obtain x r1 where g: "rdHExists L c ns k (rwRest w) = (x, r1)" by fastforce
    with 2(2) have "w' = w\<lparr>rwRest := r1\<rparr>" "q = x" by (auto simp: on_redis_def)
    with 2(1) hexists [OF g] redis_held_fewer show ?thesis by (auto simp: redis_held_def [of _ _ _ w ns])
  qed simp
qed

end

section \<open>Behind a back end\<close>

text \<open>A cache that is part of the rest of the server's state.\<close>

definition rest_cache :: "'r cache \<Rightarrow> ('d, 'r) db_world cache" where
  "rest_cache K = \<lparr>cxGet = (\<lambda>ns k. on_rest (cxGet K ns k)), cxPut = (\<lambda>ns k v. on_rest (cxPut K ns k v)),
     cxDel = (\<lambda>ns ks. on_rest (cxDel K ns ks)), cxDelNS = (\<lambda>ns. on_rest (cxDelNS K ns)), cxHasKey = (\<lambda>ns k. on_rest (cxHasKey K ns k))\<rparr>"

lemma on_restD: "on_rest f w = (r, w') \<Longrightarrow> f (dbRest w) = (r, dbRest w') \<and> dbState w' = dbState w"
  by (auto simp: on_rest_def split: prod.splits)

lemma rest_cache_store:
  assumes "cache_store K cached behind"
  shows "cache_store (rest_cache K) (\<lambda>w. cached (dbRest w)) dbState"
proof (rule cache_store.intro, goal_cases)
  case (1 ns k w r w')
  then have "on_rest (cxGet K ns k) w = (r, w')" by (simp add: rest_cache_def)
  from on_restD [OF this] cache_store.get [OF assms] show ?case by blast
next
  case (2 ns k v w t w')
  then have "on_rest (cxPut K ns k v) w = (t, w')" by (simp add: rest_cache_def)
  from on_restD [OF this] cache_store.put [OF assms] show ?case by blast
next
  case (3 ns ks w t w')
  then have "on_rest (cxDel K ns ks) w = (t, w')" by (simp add: rest_cache_def)
  from on_restD [OF this] cache_store.del [OF assms] show ?case by blast
next
  case (4 ns w t w')
  then have "on_rest (cxDelNS K ns) w = (t, w')" by (simp add: rest_cache_def)
  from on_restD [OF this] cache_store.delNS [OF assms] show ?case by blast
next
  case (5 ns k w q w')
  then have "on_rest (cxHasKey K ns k) w = (q, w')" by (simp add: rest_cache_def)
  from on_restD [OF this] cache_store.has [OF assms] show ?case by blast
qed

section \<open>Servers in memory\<close>

text \<open>A client is the address of its server and a number; closed clients fail. The servers of the addresses
  \<open>down\<close> do not answer.\<close>

record mem_redis =
  mrStore :: "string \<Rightarrow> string \<Rightarrow> string \<Rightarrow> string option"
  mrClosed :: "nat list"
  mrNext :: nat

definition if_open :: "string list \<Rightarrow> string \<times> nat \<Rightarrow> (mem_redis, 'a) go \<Rightarrow> (mem_redis, 'a) go" where
  "if_open down c m = (\<lambda>r. if snd c \<in> set (mrClosed r) then (Inl (ErrText ''redis: client is closed''), r)
     else if fst c \<in> set down then (Inl (ErrText ''connection refused''), r) else m r)"

definition set_ns :: "string \<Rightarrow> string \<Rightarrow> (string \<Rightarrow> string option) \<Rightarrow> mem_redis \<Rightarrow> mem_redis" where
  "set_ns a ns m r = r\<lparr>mrStore := (mrStore r)(a := (mrStore r a)(ns := m))\<rparr>"

definition mem_redis :: "string list \<Rightarrow> (string \<times> nat, mem_redis) redis" where
  "mem_redis down = \<lparr>
     rdNewClient = (\<lambda>opts r. ((roAddr opts, mrNext r), r\<lparr>mrNext := Suc (mrNext r), mrClosed := removeAll (mrNext r) (mrClosed r)\<rparr>)),
     rdPing = (\<lambda>c. if_open down c (ret ())),
     rdClose = (\<lambda>c. modify (\<lambda>r. r\<lparr>mrClosed := snd c # mrClosed r\<rparr>)),
     rdHGet = (\<lambda>c ns k. if_open down c (\<lambda>r. (case mrStore r (fst c) ns k of None \<Rightarrow> Inl redisNil | Some v \<Rightarrow> Inr v, r))),
     rdHSet = (\<lambda>c ns k v. if_open down c (modify (\<lambda>r. set_ns (fst c) ns ((mrStore r (fst c) ns)(k \<mapsto> v)) r))),
     rdExpire = (\<lambda>c _ _. if_open down c (ret ())),
     rdHDel = (\<lambda>c ns ks. if_open down c (modify (\<lambda>r. set_ns (fst c) ns (\<lambda>k. if k \<in> set ks then None else mrStore r (fst c) ns k) r))),
     rdDel = (\<lambda>c ns. if_open down c (modify (\<lambda>r. set_ns (fst c) ns Map.empty r))),
     rdHExists = (\<lambda>c ns k. if_open down c (\<lambda>r. (Inr (mrStore r (fst c) ns k \<noteq> None), r)))\<rparr>"

interpretation mem_client: redis_client "mem_redis down" fst
  by unfold_locales (simp add: mem_redis_def)

interpretation mem_servers: redis_servers "mem_redis down" fst mrStore
  by unfold_locales (auto simp: mem_redis_def if_open_def set_ns_def fewer_def go_run split: if_splits option.splits)

definition srv_cfg :: redis_config where
  "srv_cfg = \<lparr>rcSRV = ''_redis._tcp.cache'', rcAddresses = [], rcUsername = [], rcPassword = [], rcDB = 0, rcDialTimeout = 3,
     rcReadTimeout = 5, rcWriteTimeout = 5, rcTTL = 24\<rparr>"

definition no_pool :: "(string \<times> nat, mem_redis) redis_world" where
  "no_pool = \<lparr>rwPool = None, stClients = [], svRsv = None, svEntries = [], rwRest = \<lparr>mrStore = (\<lambda>_ _ _. None), mrClosed = [], mrNext = 0\<rparr>\<rparr>"

definition at_hosts :: "string list \<Rightarrow> srv_addr list" where
  "at_hosts = map (\<lambda>h. \<lparr>saTarget = h, saPort = 1\<rparr>)"

definition started :: "string list \<Rightarrow> (string \<times> nat, mem_redis) redis_world" where
  "started hs = snd (redisStart (mem_redis []) srv_cfg id (\<lambda>_ _ _. Inr (at_hosts hs)) no_pool)"

definition becomes :: "string list \<Rightarrow> string list \<Rightarrow> (string \<times> nat, mem_redis) redis_world \<Rightarrow> (string \<times> nat, mem_redis) redis_world" where
  "becomes down hs w = snd (run_all (pool_do (mem_redis down) srv_cfg) [Tick id (Inr (at_hosts hs)), Sync] w)"

definition zero_sum :: "string \<Rightarrow> 64 word" where
  "zero_sum s = 0"

abbreviation mem_cached :: "(string \<times> nat, mem_redis) redis_world cache" where
  "mem_cached \<equiv> redisCache (mem_redis []) zero_sum srv_cfg"

interpretation redis_cached: bolt_cached mem_bolt mem_view mem_seq user_codec no_codec no_codec no_codec "rest_cache mem_cached" "redis_held zero_sum fst mrStore"
  by (rule bolt_cached.intro [OF demo_cached.bolt_repos_axioms rest_cache_store [OF mem_servers.cache]])

definition users_redis :: "(mem_db, (string \<times> nat, mem_redis) redis_world) db_world user_rep" where
  "users_redis = cachedUserRep (rest_cache mem_cached) user_codec (boltUserRep mem_bolt user_codec)"

section \<open>Properties\<close>

text \<open>
  C36. The pool follows its service record as long as its updates succeed. The cache has started on a service
  record, then look-ups that answer or fail and the applications of their updates follow each other in any order, no look-up
  lists a target twice, and each update that is applied succeeds, which means that the new clients answer
  their first ping. Then no event fails, and when the pending updates have been applied, the record is
  looked up once more and that update is applied, the pool holds exactly one client for each target of the last answer,
  in their order, each made for its address. \<open>duplicate_targets_drain_pool\<close> and
  \<open>failed_sync_is_lost\<close> show that both conditions are needed.
\<close>

theorem redis_pool_follows:
  assumes "redis_client L server" and "rcSRV cfg \<noteq> []" and "redisStart L cfg order lookUp w = (Inr (), w1)"
    and "\<forall>srv proto name addrs. lookUp srv proto name = Inr addrs \<longrightarrow> distinct (srv_targets addrs)"
    and "\<forall>xs. mset (order' xs) = mset xs" and "distinct (srv_targets addrs)" and "\<forall>e \<in> set es. event_ok e"
    and "all_applied L cfg (es @ [Sync, Sync, Tick order' (Inr addrs), Sync]) w1"
    and "run_all (pool_do L cfg) (es @ [Sync, Sync, Tick order' (Inr addrs), Sync]) w1 = (rs, w')"
  shows "(\<forall>x \<in> set rs. x = Inr ()) \<and> map ceAddr (svEntries w') = sort (srv_targets addrs) \<and>
    (\<forall>e \<in> set (svEntries w'). server (ceClient e) = ceAddr e)"
proof -
  let ?last = "[Sync, Sync, Tick order' (Inr addrs), Sync]"
  have start: "pool_ok server w1" using redis_client.start_ok [OF assms(1-3)] assms(4) by blast
  obtain rs2 w2 where two: "run_all (pool_do L cfg) es w1 = (rs2, w2)" by fastforce
  have app: "all_applied L cfg es w1" "all_applied L cfg ?last w2" using assms(8) two unfolding all_applied_append by simp_all
  from redis_client.run_ok [OF assms(1) start assms(7) app(1) two] have mid: "pool_ok server w2" by blast
  obtain rs3 w3 where last: "run_all (pool_do L cfg) ?last w2 = (rs3, w3)" by fastforce
  have "w3 = w'" using assms(9) two last by (metis run_all_append snd_conv)
  with redis_client.caught_up [OF assms(1) mid _ app(2) last] assms(5,6) have "map ceAddr (svEntries w') = sort (srv_targets addrs)" "pool_ok server w'"
    by auto
  moreover have "\<forall>e \<in> set (es @ ?last). event_ok e" using assms(5-7) by auto
  ultimately show ?thesis using redis_client.run_ok [OF assms(1) start _ assms(8,9)] by (auto simp: pool_ok_def)
qed

definition pool_events :: "pool_event list" where
  "pool_events = [Tick rev (Inr (at_hosts [''c'', ''a'', ''b''])), Tick id (Inl (ErrText ''timeout''))]"

theorem redis_pool_follows_witness:
  "(let (rs, w) = run_all (pool_do (mem_redis []) srv_cfg) (pool_events @ [Sync, Sync, Tick id (Inr (at_hosts [''d'', ''b''])), Sync]) (started [''a''])
    in (\<forall>x \<in> set rs. x = Inr ()) \<and> map ceAddr (svEntries w) = [''b:1'', ''d:1''] \<and> (\<forall>e \<in> set (svEntries w). fst (ceClient e) = ceAddr e))"
proof -
  let ?es = "pool_events @ [Sync, Sync, Tick id (Inr (at_hosts [''d'', ''b''])), Sync]" and ?L = "mem_redis []" and ?look = "\<lambda>_ _ _. Inr (at_hosts [''a''])"
  obtain rs w where run: "run_all (pool_do ?L srv_cfg) ?es (started [''a'']) = (rs, w)" by fastforce
  have ok: "\<forall>e \<in> set pool_events. event_ok e" by (simp add: pool_events_def at_hosts_def JoinHostPort_def trim_dot_def has_suffix_def)
  have start: "redisStart ?L srv_cfg id ?look no_pool = (Inr (), started [''a''])"
    unfolding started_def prod_eq_iff by (simp, code_simp)
  have h: "distinct (srv_targets (at_hosts [''a'']))" "distinct (srv_targets (at_hosts [''d'', ''b'']))" "rcSRV srv_cfg \<noteq> []"
    "sort (srv_targets (at_hosts [''d'', ''b''])) = [''b:1'', ''d:1'']" "all_applied ?L srv_cfg ?es (started [''a''])" by code_simp+
  from redis_pool_follows [OF mem_client.redis_client_axioms h(3) start _ _ h(2) ok h(5) run] h(1,4) run show ?thesis by auto
qed

text \<open>
  Accounts behind the Redis cache behave as a table of accounts, whatever the pool, as long as it does not
  change: the pool, the cache store and the embedded back end together.
\<close>

theorem redis_cache_transparent:
  assumes "bolt_repos B view seqno UC LC VC PC" and "redis_servers L server held" and "users_coherent view UC (redis_held sum64 server held) w"
    and "user_run (cachedUserRep (rest_cache (redisCache L sum64 cfg)) UC (boltUserRep B UC)) ops w = (t, w')"
  shows "users_coherent view UC (redis_held sum64 server held) w' \<and> users_spec (users_of UC (view (dbState w))) t (users_of UC (view (dbState w')))"
proof -
  have "bolt_cached B view seqno UC LC VC PC (rest_cache (redisCache L sum64 cfg)) (redis_held sum64 server held)"
    by (rule bolt_cached.intro [OF assms(1) rest_cache_store [OF redis_servers.cache [OF assms(2)]]])
  from bolt_cached.user_run_co [OF this _ assms(4)] assms(3) show ?thesis unfolding users_coherent_def users_of_def by blast
qed

section \<open>When the pool changes\<close>

text \<open>A server that joins the pool can take over namespaces from one that stays; when it leaves again, the
  values left at the first server are found again, although they were replaced in between.\<close>

theorem stale_after_pool_change:
  "let old = plain_user ''ana'' ''s1''; new = plain_user ''ana'' ''s2''; R = boltUserRep mem_bolt user_codec;
       w1 = snd (andthen (UpsertUser users_redis old) (\<lambda>_. FetchUser users_redis ''ana'') \<lparr>dbState = Map.empty, dbRest = started [''b'']\<rparr>);
       w2 = snd (UpsertUser users_redis new (w1\<lparr>dbRest := becomes [] [''a'', ''b''] (dbRest w1)\<rparr>));
       w3 = w2\<lparr>dbRest := becomes [] [''b''] (dbRest w2)\<rparr>
   in fst (FetchUser users_redis ''ana'' w3) = Inr (Some old) \<and> fst (FetchUser R ''ana'' w3) = Inr (Some new)"
  by code_simp

text \<open>A record that lists a target twice is taken to have lost it every time it is resolved again: the pool
  loses its clients one by one, and the next request panics.\<close>

theorem duplicate_targets_drain_pool:
  "let w = becomes [] [''a'', ''a''] (becomes [] [''a'', ''a''] (started [''a'', ''a'']))
   in map ceAddr (svEntries (started [''a'', ''a''])) = [''a:1'', ''a:1''] \<and> svEntries w = [] \<and> fst (cxGet mem_cached ns k w) = Inl ErrPanic"
proof -
  have "map ceAddr (svEntries (started [''a'', ''a''])) = [''a:1'', ''a:1'']" by code_simp
  moreover have "svEntries (becomes [] [''a'', ''a''] (becomes [] [''a'', ''a''] (started [''a'', ''a'']))) = []"
      "rwPool (becomes [] [''a'', ''a''] (becomes [] [''a'', ''a''] (started [''a'', ''a'']))) = Some srvServicePool" by code_simp+
  ultimately show ?thesis by (simp add: Let_def redisCache_def go_run getClient_def srvGetClient_def choose_client_empty)
qed

text \<open>When a new server does not answer the update is dropped, after the clients of the servers that are gone
  were closed: the pool keeps the closed clients, and since the resolver has recorded the new targets,
  later look-ups report no change.\<close>

theorem failed_sync_is_lost:
  "let w = becomes [] [''b''] (becomes [''b:1''] [''b''] (started [''a'']))
   in map ceAddr (svEntries w) = [''a:1''] \<and> map_option rsTargets (svRsv w) = Some [''b:1''] \<and>
      fst (cxGet mem_cached ''ns'' ''k'' w) = Inl (ErrText ''redis: client is closed'')"
  by code_simp

text \<open>Stopping the cache closes the channel of the updates while the resolver may still send on it.\<close>

theorem tick_after_stop_panics:
  "let w = snd (redisStop (mem_redis []) (started [''a'']))
   in fst (pool_do (mem_redis []) srv_cfg (Tick id (Inr (at_hosts [''b'']))) w) = Inl ErrPanic"
  by code_simp

end
