(* ===== verification/Etcd_Kv.thy ===== *)
theory Etcd_Kv
  imports Resource_Manager
begin

text \<open>
  The key-value store of the cluster over etcd (\<^verbatim>\<open>src/pkg/cluster/kv/etcd/kv.go\<close>): its operations, the
  conversion of watch responses, start with the health check and the lease, the loop that keeps the
  lease alive, and stop. The etcd client is a record of functions over the state behind it;
  \<open>etcd_server\<close> is what etcd documents of keys and leases.
\<close>

section \<open>Data\<close>

text \<open>The client; a channel of keep-alive responses is a number.\<close>

record 'e etcd_client =
  ecPut :: "string \<Rightarrow> string \<Rightarrow> int \<Rightarrow> ('e, unit) go"
  ecGet :: "string \<Rightarrow> ('e, (string \<times> string) list) go"
  ecGetPrefix :: "string \<Rightarrow> ('e, (string \<times> string) list) go"
  ecDelete :: "string \<Rightarrow> ('e, unit) go"
  ecGrant :: "int \<Rightarrow> ('e, int) go"
  ecKeepAlive :: "int \<Rightarrow> ('e, nat) go"
  ecRevoke :: "int \<Rightarrow> ('e, unit) go"
  ecClose :: "('e, unit) go"

text \<open>\<open>ekCli\<close> says whether the client is set; using it before panics.\<close>

record 'e etcd_kv =
  ekCli :: bool
  ekLease :: int
  ekKaCh :: "nat option"
  ekCancelled :: bool
  ekDone :: bool
  ekState :: 'e

definition NewEtcdKV :: "'e \<Rightarrow> 'e etcd_kv" where
  "NewEtcdKV s = \<lparr>ekCli = False, ekLease = 0, ekKaCh = None, ekCancelled = False, ekDone = False, ekState = s\<rparr>"

definition on_cli :: "('e, 'a) go \<Rightarrow> ('e etcd_kv, 'a) go" where
  "on_cli m = (\<lambda>k. if ekCli k then case m (ekState k) of (r, s) \<Rightarrow> (r, k\<lparr>ekState := s\<rparr>) else (Inl ErrPanic, k))"

definition leaseTTLInSeconds :: int where
  "leaseTTLInSeconds = 10"

section \<open>Operations\<close>

definition ekPut :: "'e etcd_client \<Rightarrow> string \<Rightarrow> string \<Rightarrow> ('e etcd_kv, unit) go" where
  "ekPut E key value = andthen (gets ekLease) (\<lambda>l. on_cli (ecPut E key value l))"

definition ekGet :: "'e etcd_client \<Rightarrow> string \<Rightarrow> ('e etcd_kv, string option) go" where
  "ekGet E key = andthen (on_cli (ecGet E key)) (\<lambda>kvs. ret (if length kvs = 0 then None else Some (snd (kvs ! 0))))"

text \<open>The map is filled in the order of the answer.\<close>

definition ekGetPrefix :: "'e etcd_client \<Rightarrow> string \<Rightarrow> ('e etcd_kv, string \<rightharpoonup> string) go" where
  "ekGetPrefix E p = andthen (on_cli (ecGetPrefix E p)) (\<lambda>kvs. ret (fold (\<lambda>(k, v) m. m(k \<mapsto> v)) kvs Map.empty))"

definition ekDel :: "'e etcd_client \<Rightarrow> string \<Rightarrow> ('e etcd_kv, unit) go" where
  "ekDel E key = on_cli (ecDelete E key)"

section \<open>Watching\<close>

datatype etcd_event_type = EventTypePut | EventTypeDelete | EventTypeOther int

record etcd_event =
  eeType :: etcd_event_type
  eeKey :: string
  eeVal :: string
  eePrev :: "string option"

record etcd_watch_response =
  ewEvents :: "etcd_event list"
  ewErr :: "go_error option"

record kv_event = watch_event +
  evPrevVal :: string

record kv_watch_resp =
  wrEvents :: "kv_event list"
  wrErr :: "go_error option"

text \<open>Bytes that are nil and bytes that are empty are the empty string.\<close>

fun to_events :: "etcd_event list \<Rightarrow> kv_event list" where
  "to_events [] = []"
| "to_events (ev # evs) =
     (case (case eeType ev of EventTypePut \<Rightarrow> Some PutEvent | EventTypeDelete \<Rightarrow> Some DelEvent | EventTypeOther _ \<Rightarrow> None) of
        None \<Rightarrow> to_events evs
      | Some t \<Rightarrow> \<lparr>evType = t, evKey = eeKey ev, evVal = eeVal ev, evPrevVal = (case eePrev ev of None \<Rightarrow> [] | Some v \<Rightarrow> v)\<rparr> # to_events evs)"

definition toWatchResp :: "etcd_watch_response \<Rightarrow> kv_watch_resp" where
  "toWatchResp wResp = \<lparr>wrEvents = to_events (ewEvents wResp), wrErr = ewErr wResp\<rparr>"

text \<open>What the goroutine of \<^verbatim>\<open>Watch\<close> sends, as its readers take it: they look at the error first and at
  no previous value.\<close>

definition ekWatch :: "etcd_watch_response list \<Rightarrow> watch_resp list" where
  "ekWatch resps = map (\<lambda>r. let w = toWatchResp r in case wrErr w of Some e \<Rightarrow> WatchErr e | None \<Rightarrow> WatchEvents (map watch_event.truncate (wrEvents w))) resps"

section \<open>Start and stop\<close>

datatype health_answer = GetFailed string | DecodeFailed string | Health string

definition errHealthCheckFailedFn :: "string \<Rightarrow> go_error" where
  "errHealthCheckFailedFn err = ErrText (''etcd health check failed: '' @ err)"

fun checkHealth :: "(string \<Rightarrow> health_answer) \<Rightarrow> string list \<Rightarrow> go_error + unit" where
  "checkHealth http [] = Inr ()"
| "checkHealth http (endpoint # endpoints) =
     (case http (endpoint @ ''/health'') of
        GetFailed err \<Rightarrow> Inl (errHealthCheckFailedFn err)
      | DecodeFailed err \<Rightarrow> Inl (errHealthCheckFailedFn err)
      | Health h \<Rightarrow>
          if parse_bool h = Some True then checkHealth http endpoints
          else Inl (errHealthCheckFailedFn (''health = false, for endpoint '' @ endpoint)))"

definition ekStart :: "'e etcd_client \<Rightarrow> (string \<Rightarrow> health_answer) \<Rightarrow> string list \<Rightarrow> ('e, unit) go \<Rightarrow> ('e etcd_kv, unit) go" where
  "ekStart E http endpoints dial =
     (case checkHealth http endpoints of
        Inl e \<Rightarrow> throw e
      | Inr _ \<Rightarrow>
          andthen (\<lambda>k. case dial (ekState k) of (r, s) \<Rightarrow> (r, k\<lparr>ekState := s\<rparr>)) (\<lambda>_.
          andthen (modify (\<lambda>k. k\<lparr>ekCli := True\<rparr>)) (\<lambda>_.
          andthen (on_cli (ecGrant E leaseTTLInSeconds)) (\<lambda>lease.
          andthen (modify (\<lambda>k. k\<lparr>ekLease := lease\<rparr>)) (\<lambda>_.
          andthen (on_cli (ecKeepAlive E lease)) (\<lambda>ch.
            modify (\<lambda>k. k\<lparr>ekKaCh := Some ch\<rparr>)))))))"

definition ekStop :: "'e etcd_client \<Rightarrow> ('e etcd_kv, unit) go" where
  "ekStop E =
     andthen (modify (\<lambda>k. k\<lparr>ekDone := True, ekCancelled := True\<rparr>)) (\<lambda>_.
     andthen (gets ekLease) (\<lambda>l.
     andthen (on_cli (ecRevoke E l)) (\<lambda>_. on_cli (ecClose E))))"

section \<open>Keeping the lease alive\<close>

definition maxKeepAliveRetries :: nat where
  "maxKeepAliveRetries = 10"

text \<open>How the loop ends: the channel is closed, the store is stopped, or the process is interrupted.\<close>

datatype ka_end = KaClosed | KaStopped | KaShutdown

text \<open>The loop ranges over the channel it starts with, whatever \<^verbatim>\<open>kaCh\<close> becomes; \<open>resps\<close> is what that channel
  delivers until it is closed: whether the store is being stopped by then, and whether the response is nil.\<close>

fun keepAliveLease :: "'e etcd_client \<Rightarrow> nat \<Rightarrow> (bool \<times> bool) list \<Rightarrow> ('e etcd_kv, ka_end) go" where
  "keepAliveLease E retries [] = ret KaClosed"
| "keepAliveLease E retries ((stopping, isNil) # resps) =
     (if stopping then ret KaStopped
      else if isNil then
        andthen (gets ekLease) (\<lambda>l.
        andthen (attempt (on_cli (ecKeepAlive E l))) (\<lambda>res.
          case res of
            Inr ch \<Rightarrow> andthen (modify (\<lambda>k. k\<lparr>ekKaCh := Some ch\<rparr>)) (\<lambda>_. keepAliveLease E 0 resps)
          | Inl _ \<Rightarrow>
              andthen (modify (\<lambda>k. k\<lparr>ekKaCh := None\<rparr>)) (\<lambda>_.
                if retries + 1 = maxKeepAliveRetries then ret KaShutdown
                else keepAliveLease E (retries + 1) resps)))
      else keepAliveLease E retries resps)"

text \<open>The operations the resource manager and the member list use. They range over the map of \<^verbatim>\<open>GetPrefix\<close>, whose
  keys are those of the answer, each once.\<close>

definition etcdOps :: "'e etcd_client \<Rightarrow> 'e etcd_kv kv_ops" where
  "etcdOps E = \<lparr>kvPut = ekPut E, kvDel = ekDel E, kvGetPrefix = (\<lambda>p. on_cli (ecGetPrefix E p))\<rparr>"

datatype kv_op = KPut string string | KDel string | KGet string

fun kv_do :: "'e etcd_client \<Rightarrow> kv_op \<Rightarrow> ('e etcd_kv, string option) go" where
  "kv_do E (KPut k v) = andthen (ekPut E k v) (\<lambda>_. ret None)"
| "kv_do E (KDel k) = andthen (ekDel E k) (\<lambda>_. ret None)"
| "kv_do E (KGet k) = ekGet E k"

text \<open>While the store runs, a key is attached to its lease, is gone, or is as it was.\<close>

definition own_or_old :: "('e \<Rightarrow> string \<rightharpoonup> string \<times> int) \<Rightarrow> int \<Rightarrow> (string \<rightharpoonup> string \<times> int) \<Rightarrow> 'e etcd_kv \<Rightarrow> bool" where
  "own_or_old held l h w \<longleftrightarrow> ekLease w = l \<and> (\<forall>k. held (ekState w) k = None \<or> held (ekState w) k = h k \<or> (\<exists>v. held (ekState w) k = Some (v, l)))"

section \<open>What etcd promises\<close>

text \<open>\<open>held s\<close> is what the server holds: for a key its value and the lease it is attached to. A request that
  fails may have been carried out.\<close>

locale etcd_server =
  fixes E :: "'e etcd_client" and held :: "'e \<Rightarrow> string \<rightharpoonup> string \<times> int"
  assumes put: "ecPut E k v l s = (r, s') \<Longrightarrow> held s' = (held s)(k \<mapsto> (v, l)) \<or> (r \<noteq> Inr () \<and> held s' = held s)"
    and get: "ecGet E k s = (g, s') \<Longrightarrow> held s' = held s \<and> (\<forall>kvs. g = Inr kvs \<longrightarrow> kvs = (case held s k of None \<Rightarrow> [] | Some (v, _) \<Rightarrow> [(k, v)]))"
    and delete: "ecDelete E k s = (r, s') \<Longrightarrow> held s' = (held s)(k := None) \<or> (r \<noteq> Inr () \<and> held s' = held s)"
    and grant: "ecGrant E ttl s = (t, s') \<Longrightarrow> held s' = held s \<and> (\<forall>l k v. t = Inr l \<longrightarrow> held s k \<noteq> Some (v, l))"
    and keep_alive: "ecKeepAlive E l s = (c, s') \<Longrightarrow> held s' = held s"
    and revoke: "ecRevoke E l s = (r, s') \<Longrightarrow> r = Inr () \<Longrightarrow> held s' k = (case held s k of Some (v, l') \<Rightarrow> if l' = l then None else Some (v, l') | None \<Rightarrow> None)"
    and close: "ecClose E s = (r, s') \<Longrightarrow> held s' = held s"
begin

lemma ekPut_held:
  "ekPut E k v w = (r, w') \<Longrightarrow> ekLease w' = ekLease w \<and> ekCli w' = ekCli w \<and>
     (held (ekState w') = (held (ekState w))(k \<mapsto> (v, ekLease w)) \<or> (r \<noteq> Inr () \<and> held (ekState w') = held (ekState w)))"
  using put [of k v "ekLease w" "ekState w"] by (auto simp: ekPut_def on_cli_def go_run split: if_splits prod.splits)

lemma ekDel_held:
  "ekDel E k w = (r, w') \<Longrightarrow> ekLease w' = ekLease w \<and> ekCli w' = ekCli w \<and>
     (held (ekState w') = (held (ekState w))(k := None) \<or> (r \<noteq> Inr () \<and> held (ekState w') = held (ekState w)))"
  using delete [of k "ekState w"] by (auto simp: ekDel_def on_cli_def go_run split: if_splits prod.splits)

lemma ekGet_held:
  "ekGet E k w = (r, w') \<Longrightarrow> ekLease w' = ekLease w \<and> ekCli w' = ekCli w \<and> held (ekState w') = held (ekState w) \<and>
     (\<forall>x. r = Inr x \<longrightarrow> x = map_option fst (held (ekState w) k))"
  using get [of k "ekState w"]
  by (auto simp: ekGet_def on_cli_def go_run split: if_splits prod.splits sum.splits option.splits)

lemma own_step:
  assumes "own_or_old held l h w" and "ekLease w' = ekLease w"
    and "\<And>k. held (ekState w') k = held (ekState w) k \<or> held (ekState w') k = None \<or> (\<exists>v. held (ekState w') k = Some (v, l))"
  shows "own_or_old held l h w'"
  using assms unfolding own_or_old_def by metis

lemma kv_do_own: "own_or_old held l h w \<Longrightarrow> kv_do E x w = (r, w') \<Longrightarrow> own_or_old held l h w'"
proof (cases x)
  case (KPut k v)
  assume o: "own_or_old held l h w" and "kv_do E x w = (r, w')"
  with KPut obtain y where "ekPut E k v w = (y, w')" by (auto simp: go_run split: prod.splits sum.splits)
  from ekPut_held [OF this] o show ?thesis by (intro own_step [OF o]) (auto simp: own_or_old_def)
next
  case (KDel k)
  assume o: "own_or_old held l h w" and "kv_do E x w = (r, w')"
  with KDel obtain y where "ekDel E k w = (y, w')" by (auto simp: go_run split: prod.splits sum.splits)
  from ekDel_held [OF this] show ?thesis by (intro own_step [OF o]) auto
next
  case (KGet k)
  assume o: "own_or_old held l h w" and "kv_do E x w = (r, w')"
  with KGet ekGet_held [of k w r w'] show ?thesis by (intro own_step [OF o]) auto
qed

lemma run_own: "own_or_old held l h w \<Longrightarrow> run_all (kv_do E) xs w = (rs, w') \<Longrightarrow> own_or_old held l h w'"
proof (induction xs arbitrary: w rs)
  case (Cons x xs)
  then show ?case using kv_do_own [of l h w x] by (fastforce split: prod.splits)
qed simp

lemma start_own:
  assumes "ekStart E http endpoints (ret ()) w = (Inr (), w')"
  shows "own_or_old held (ekLease w') (held (ekState w)) w' \<and> (\<forall>k v. held (ekState w) k \<noteq> Some (v, ekLease w'))"
proof -
  obtain l s1 where g: "ecGrant E leaseTTLInSeconds (ekState w) = (Inr l, s1)"
    using assms by (auto simp: ekStart_def on_cli_def go_run split: sum.splits prod.splits)
  obtain c s2 where c: "ecKeepAlive E l s1 = (Inr c, s2)"
    using assms g by (auto simp: ekStart_def on_cli_def go_run split: sum.splits prod.splits)
  have "ekLease w' = l" "ekState w' = s2"
    using assms g c by (auto simp: ekStart_def on_cli_def go_run split: sum.splits)
  with grant [OF g] keep_alive [OF c] show ?thesis by (auto simp: own_or_old_def)
qed

lemma stop_clean:
  assumes "own_or_old held l h w" and "ekStop E w = (Inr (), w')"
  shows "held (ekState w') k = None \<or> held (ekState w') k = h k"
proof -
  obtain s1 s2 where r: "ecRevoke E l (ekState w) = (Inr (), s1)" and c: "ecClose E s1 = (Inr (), s2)" and s: "ekState w' = s2"
    using assms by (auto simp: own_or_old_def ekStop_def on_cli_def go_run split: sum.splits prod.splits if_splits)
  have "held (ekState w') k = (case held (ekState w) k of Some (v, l') \<Rightarrow> if l' = l then None else Some (v, l') | None \<Rightarrow> None)"
    using revoke [OF r refl, of k] close [OF c] s by simp
  moreover have "held (ekState w) k = None \<or> held (ekState w) k = h k \<or> (\<exists>v. held (ekState w) k = Some (v, l))"
    using assms(1) unfolding own_or_old_def by blast
  ultimately show ?thesis by (auto split: option.splits if_splits)
qed

end

section \<open>A server in memory\<close>

text \<open>Every lease gets a number of its own, larger than the leases in use.\<close>

type_synonym mem_etcd = "(string \<times> string \<times> int) list \<times> int"

definition mem_held :: "mem_etcd \<Rightarrow> string \<rightharpoonup> string \<times> int" where
  "mem_held s = map_of (fst s)"

definition fresh_lease :: "mem_etcd \<Rightarrow> int" where
  "fresh_lease s = fold max (map (\<lambda>(_, _, l). l) (fst s)) (snd s) + 1"

definition mem_etcd :: "mem_etcd etcd_client" where
  "mem_etcd = \<lparr>
     ecPut = (\<lambda>k v l. modify (\<lambda>(kvs, n). ((k, v, l) # filter (\<lambda>e. fst e \<noteq> k) kvs, n))),
     ecGet = (\<lambda>k s. (Inr (case mem_held s k of None \<Rightarrow> [] | Some (v, _) \<Rightarrow> [(k, v)]), s)),
     ecGetPrefix = (\<lambda>p s. (Inr (map (\<lambda>(k, v, _). (k, v)) (filter (\<lambda>e. has_prefix (fst e) p) (fst s))), s)),
     ecDelete = (\<lambda>k. modify (\<lambda>(kvs, n). (filter (\<lambda>e. fst e \<noteq> k) kvs, n))),
     ecGrant = (\<lambda>_ s. (Inr (fresh_lease s), (fst s, fresh_lease s))),
     ecKeepAlive = (\<lambda>_. ret 0),
     ecRevoke = (\<lambda>l. modify (\<lambda>(kvs, n). (filter (\<lambda>e. map_of kvs (fst e) = Some (snd e) \<and> snd (snd e) \<noteq> l) kvs, n))),
     ecClose = ret ()\<rparr>"

lemma map_of_drop_key: "map_of (filter (\<lambda>e. fst e \<noteq> k) kvs) = (map_of kvs)(k := None)"
  by (induction kvs) (auto simp: fun_eq_iff)

lemma map_of_filter_first: "map_of (filter (\<lambda>e. m (fst e) = Some (snd e) \<and> P (snd e)) kvs) k =
    (case m k of None \<Rightarrow> None | Some x \<Rightarrow> if P x \<and> (k, x) \<in> set kvs then Some x else None)"
  by (induction kvs) (auto split: option.splits)

lemma fold_max_ge: "x \<in> set xs \<or> x = n \<Longrightarrow> x \<le> fold max xs (n :: int)"
proof (induction xs arbitrary: n x)
  case (Cons y ys)
  have "max y n \<le> fold max ys (max y n)" by (rule Cons.IH) simp
  with Cons show ?case by fastforce
qed simp

lemma mem_lease_fresh: "mem_held s k = Some (v, l) \<Longrightarrow> l < fresh_lease s"
  using fold_max_ge [of l "map (\<lambda>(_, _, l). l) (fst s)" "snd s"] by (force simp: mem_held_def fresh_lease_def dest: map_of_SomeD)

interpretation mem_etcd_server: etcd_server mem_etcd mem_held
proof (unfold_locales, goal_cases)
  case (4 ttl s t s')
  then show ?case using mem_lease_fresh [of s] by (auto simp: mem_etcd_def mem_held_def)
next
  case (6 l s r s' k)
  then show ?case
    by (auto simp: mem_etcd_def mem_held_def go_run case_prod_beta map_of_filter_first [where P = "\<lambda>p. snd p \<noteq> l"] split: option.splits dest: map_of_SomeD)
qed (auto simp: mem_etcd_def mem_held_def go_run case_prod_beta map_of_drop_key)

section \<open>Theorems\<close>

text \<open>Stopping the store removes what it announced: once the lease is revoked every key is as it was before
  the start, or gone.\<close>

theorem stop_removes_announcements:
  assumes "etcd_server E held" and "ekStart E http endpoints (ret ()) w0 = (Inr (), w1)" and "run_all (kv_do E) ops w1 = (rs, w2)"
    and "ekStop E w2 = (Inr (), w3)"
  shows "held (ekState w3) k = None \<or> held (ekState w3) k = held (ekState w0) k"
  using etcd_server.stop_clean [OF assms(1) etcd_server.run_own [OF assms(1) _ assms(3)] assms(4)] etcd_server.start_own [OF assms(1,2)] by blast

text \<open>The watchers of the store see every update: the events that etcd sends for the updates of a resource
  manager are the events its peers process.\<close>

fun etcd_event_of :: "codec \<Rightarrow> string \<Rightarrow> res_op \<Rightarrow> etcd_event list" where
  "etcd_event_of C iid (RPut res) = (case resourceVal C res of
     Inl e \<Rightarrow> []
   | Inr b \<Rightarrow> [\<lparr>eeType = EventTypePut, eeKey = resourceKey iid (Node (rJID res)) (Resource (rJID res)), eeVal = b, eePrev = None\<rparr>])"
| "etcd_event_of C iid (RDel u r) = [\<lparr>eeType = EventTypeDelete, eeKey = resourceKey iid u r, eeVal = [], eePrev = None\<rparr>]"

lemma to_events_append: "to_events (xs @ ys) = to_events xs @ to_events ys"
  by (induction xs) (auto split: option.splits)

theorem watch_replicates:
  "ekWatch [\<lparr>ewEvents = concat (map (etcd_event_of C iid) ops), ewErr = None\<rparr>] = [WatchEvents (concat (map (res_event C iid) ops))]"
proof -
  have one: "map watch_event.truncate (to_events (etcd_event_of C iid x)) = res_event C iid x" for x
    by (cases x) (auto simp: watch_event.truncate_def split: sum.splits)
  have "map watch_event.truncate (to_events (concat (map (etcd_event_of C iid) ops))) = concat (map (res_event C iid) ops)"
    by (induction ops) (simp_all add: to_events_append one)
  then show ?thesis by (simp add: ekWatch_def toWatchResp_def)
qed

text \<open>The loop that should interrupt the process when the lease is lost does so only for responses that are
  nil. The client sends none: it closes the channel when the lease expires, and the loop ends silently,
  without a retry.\<close>

theorem lost_lease_unnoticed:
  "\<forall>(stopping, isNil) \<in> set resps. \<not> stopping \<and> \<not> isNil \<Longrightarrow> keepAliveLease E retries resps w = (Inr KaClosed, w)"
  by (induction resps) (auto simp: go_run)

text \<open>Ten failures in a row interrupt the process; a success in between starts the count again.\<close>

theorem lease_retries:
  assumes "\<And>l s. \<exists>e. ecKeepAlive E l s = (Inl e, s)"
  shows "fst (keepAliveLease E 0 (replicate n (False, True)) w) = Inr (if n < 10 then KaClosed else KaShutdown)"
proof -
  have "fst (keepAliveLease E r (replicate n (False, True)) w) = Inr (if r + n < 10 then KaClosed else KaShutdown)" if "r < 10" for r n w
    using that
  proof (induction n arbitrary: r w)
    case (Suc n)
    have "\<exists>e. on_cli (ecKeepAlive E (ekLease w)) w = (Inl e, w)" using assms [of "ekLease w" "ekState w"] by (auto simp: on_cli_def)
    with Suc show ?case by (auto simp: go_run maxKeepAliveRetries_def)
  qed (simp add: go_run)
  from this [of 0 n w] show ?thesis by simp
qed

end
