(* ===== verification/Spec2Isabelle.thy ===== *)
theory Spec2Isabelle
  imports Stream_Queue Xmpp Hooks Resource_Manager Local_Router Version Member_List Cluster_Conn
    Routing RSM Shaper C2S_Stream C2S_Safety Stream_Mgmt C2S_Silence Roster_Presence Offline_Overlap Block_Safety Cached_Repos
    S2S_Order Auth_Safety Ext_Component Carbons
    Caps_Safety User_Data Last_Activity Ping Redis_Cache Etcd_Kv
begin

text \<open>
  A verification library for jackal, an XMPP server written in Go (\<^verbatim>\<open>src/\<close>).

  \<^bold>\<open>The program.\<close> A client connects over a socket; \<^verbatim>\<open>pkg/c2s\<close> runs its stream: TLS, SASL
  authentication, resource binding, then stanzas. A stanza is handed to the global router
  (\<^verbatim>\<open>pkg/router\<close>), which delivers it to streams of the addressed user on this instance or, through
  the cluster packages (\<^verbatim>\<open>pkg/cluster\<close>), on another one, or to another server (\<^verbatim>\<open>pkg/s2s\<close>). Which
  resources a user has connected is kept by the resource manager in a key-value store that all
  instances watch. Modules (\<^verbatim>\<open>pkg/module\<close>) extend the server through hooks (\<^verbatim>\<open>pkg/hook\<close>): stream
  management keeps a queue of unacknowledged stanzas per stream, result set management pages
  through archives.

  \<^bold>\<open>The theories\<close>, in the order of their imports:
  \<^item> \<open>Prelude\<close>: errors as values, the monad of fallible state-changing functions with its rules for
    invariants (\<open>keeps\<close>, \<open>triple\<close>), loops over slices, the string and number functions of Go's
    library, sorting.
  \<^item> \<open>Stream_Queue\<close>: \<^verbatim>\<open>pkg/module/xep0198/queue\<close>. The queue, its counters at 32 bits and its timers;
    the queue implements a counting specification of acknowledgements, h values are consecutive,
    and which timers can run.
  \<^item> \<open>Xmpp\<close>: addresses, elements, the functions of the third-party XML package as a record (\<open>xlib\<close>)
    that every definition using them takes as an argument, stanza constructors
    (\<^verbatim>\<open>pkg/util/xmpp\<close>), info sets and resource descriptions (\<^verbatim>\<open>pkg/model/c2s\<close>).
  \<^item> \<open>Hooks\<close>: \<^verbatim>\<open>pkg/hook\<close>. Order of handlers, how a run stops, and that a run keeps what its
    handlers keep.
  \<^item> \<open>Resource_Manager\<close>: \<^verbatim>\<open>pkg/cluster/resourcemanager\<close>. The contract of a table of resources
    (\<open>resource_store\<close>), interpreted on the code's table; the key format; replication between
    instances by watch events.
  \<^item> \<open>Local_Router\<close>: \<^verbatim>\<open>pkg/host\<close>, \<^verbatim>\<open>pkg/c2s/resources.go\<close>, \<^verbatim>\<open>pkg/c2s/local_router.go\<close>. Refinement of a
    map from names to streams; routing reaches exactly the stream of the name.
  \<^item> \<open>Version\<close>, \<open>Member_List\<close>, \<open>Cluster_Conn\<close>: \<^verbatim>\<open>pkg/version\<close>, \<^verbatim>\<open>pkg/cluster/memberlist\<close>,
    \<^verbatim>\<open>pkg/cluster/connmanager\<close>, \<^verbatim>\<open>pkg/cluster/router\<close>, \<^verbatim>\<open>pkg/cluster/server\<close>. The order of versions,
    announcements of members and their round trip, the member list with its mutex, connections
    that follow it, remote delivery.
  \<^item> \<open>Routing\<close>: \<^verbatim>\<open>pkg/c2s/router.go\<close>, \<^verbatim>\<open>pkg/s2s/router.go\<close>, \<^verbatim>\<open>pkg/router\<close>. Who receives a stanza and
    which errors a sender can see.
  \<^item> \<open>RSM\<close>: \<^verbatim>\<open>pkg/module/xep0059\<close>. Pages of a result set with 64-bit arithmetic and panics.
  \<^item> \<open>Shaper\<close>: \<^verbatim>\<open>pkg/shaper\<close>, \<^verbatim>\<open>pkg/util/stringmatcher\<close>.
  \<^item> \<open>C2S_Stream\<close>, \<open>C2S_Safety\<close>: \<^verbatim>\<open>pkg/c2s/in.go\<close> and \<^verbatim>\<open>flags.go\<close>. Every handler of a client stream as a
    computation on the stream's fields and the state behind its collaborators; runs are arbitrary
    sequences of the tasks of its run queue. The contract of an invariant (\<open>stream_inv\<close>) is
    interpreted for authentication and binding; unbound streams never route; the retry loop of
    message processing ends.
  \<^item> \<open>Base64\<close>, \<open>Stream_Mgmt\<close>: the encoding of Go's library, and \<^verbatim>\<open>pkg/module/xep0198/stream.go\<close> with the
    transfer of queues (\<^verbatim>\<open>pkg/cluster/server\<close>, \<^verbatim>\<open>pkg/cluster/connmanager\<close>). Queues are objects in a
    store; identifiers lead back to their queue, a resumption continues it, and what a refused
    one does.
  \<^item> \<open>C2S_Silence\<close>: a client that no authenticator accepts is neither authenticated nor bound and reaches nobody
    (\<open>unaccepted_client\<close>), with the handler of stream management among the hooks (\<open>sm_guarded\<close>).
  \<^item> \<open>Bolt\<close>, \<open>Roster_Store\<close>: \<^verbatim>\<open>pkg/storage/boltdb\<close>. The database package is the record \<open>bolt\<close> with its
    documented laws (\<open>bolt_store\<close>, interpreted on a small database in memory); on them the bucket
    operations and the roster repository, inside a transaction and outside, satisfy the contract
    of a roster repository (\<open>roster_store\<close>).
  \<^item> \<open>Roster\<close>, \<open>Roster_Subs\<close>, \<open>Roster_Presence\<close>: \<^verbatim>\<open>pkg/module/roster\<close>. The module over any repository that satisfies the
    contract: subscription presences refine a specification on pairs of items with a table of its own,
    the rosters of two users agree as long as clients keep to the protocol (\<open>roster_reach\<close>), what the router
    receives when a user's presence is processed (\<open>presence_log\<close>), and where the agreement or the
    removal of an account fails.
  \<^item> \<open>Offline_Store\<close>, \<open>Offline\<close>, \<open>Offline_Overlap\<close>: the repository of offline messages and \<^verbatim>\<open>pkg/module/offline\<close>. Kept
    messages are delivered (\<open>offline_live\<close> is that the collaborators answer), queues stay within
    their limit when handlers do not overlap and exceed it when they do, and the order in which the embedded
    back end reads them.
  \<^item> \<open>Block_Store\<close>, \<open>Blocklist\<close>, \<open>Block_Safety\<close>: the repository of block lists and
    \<^verbatim>\<open>pkg/module/xep0191\<close>. Requests refine a set of addresses per user; exactly what blocked addresses
    send, and what is sent to them, is stopped.
  \<^item> \<open>Entity_Store\<close>: the repositories of accounts, last activity, vCards, private elements and
    capabilities, with their common contract (\<open>entity_store\<close>).
  \<^item> \<open>Cache\<close>, \<open>Cached_Repos\<close>: \<^verbatim>\<open>pkg/storage/cached\<close>. A repository behind a coherent cache satisfies the
    contract it satisfies without (\<open>cached_entity\<close>); how a wrong value can stay in the cache.
  \<^item> \<open>Srv_Resolver\<close>, \<open>Jump_Hash\<close>, \<open>Redis_Pool\<close>, \<open>Redis_Cache\<close>: \<^verbatim>\<open>pkg/util/dns\<close>, \<^verbatim>\<open>pkg/storage/cached/redis\<close>. The
    consistent hash with its floating point arithmetic; the pool of clients follows its service record
    while its updates succeed (\<open>redis_client\<close>, \<open>all_applied\<close>); the Redis cache is a cache store (\<open>redis_servers\<close>), so that the cached repositories
    rest on it; what a change of the pool breaks.
  \<^item> \<open>Etcd_Kv\<close>: \<^verbatim>\<open>pkg/cluster/kv/etcd\<close>. Stopping removes what was announced (\<open>etcd_server\<close>), watchers see every
    update, and when the lease is lost nobody notices.
  \<^item> \<open>Parser\<close>, \<open>Session\<close>: \<^verbatim>\<open>pkg/parser\<close>, \<^verbatim>\<open>pkg/session\<close>. Elements from the tokens of the standard library's
    decoder, their size limit, and what a call after an error can do; which headers and addresses a
    session lets through (\<open>stanza_lib\<close> is what it needs of the XML package).
  \<^item> \<open>S2S_Dialback\<close>, \<open>S2S_In\<close>, \<open>S2S_Out\<close>, \<open>S2S_Safety\<close>, \<open>S2S_Order\<close>: \<^verbatim>\<open>pkg/s2s\<close>. Streams from and to other
    servers over sessions; runs are sequences of the tasks of their run queues. Peers that have proved
    nothing reach nobody (\<open>quiet_peer\<close>), what authorization does not tie together, the round trip of
    dialback keys, over a store that keeps requests (\<open>dialback_kv\<close>) and over the empty one, and the order of what is sent (\<open>out_writer\<close>).
  \<^item> \<open>Auth\<close>, \<open>Auth_Safety\<close>: \<^verbatim>\<open>pkg/auth\<close> and the service that administers accounts (\<^verbatim>\<open>pkg/admin/server\<close>). The
    SCRAM exchange against a client and a check of proofs written after RFC 5802: created accounts can
    log in unless their name is one that the client escapes, only proofs made for this exchange are accepted; what sharing the external authenticator does.
  \<^item> \<open>Components\<close>, \<open>Ext_Component\<close>: the registries (\<^verbatim>\<open>pkg/module/module.go\<close>, \<^verbatim>\<open>pkg/component\<close>) and external
    components. Components of other instances follow what these instances announce and withdraw, except for the first
    fill of the table; a component stream reaches nobody before its handshake, and is never unregistered.
  \<^item> \<open>Forms\<close>: \<^verbatim>\<open>pkg/module/xep0004\<close>. The round trip of data forms (\<open>element_lib\<close> is what it needs of the XML
    package).
  \<^item> \<open>Archive_Store\<close>, \<open>Mam\<close>: the repository of archived messages and \<^verbatim>\<open>pkg/module/xep0313\<close>. Which messages
    the filters select, that archives stay within their limit (\<open>mam_module\<close>), and which messages are
    purged for that.
  \<^item> \<open>Carbons\<close>: \<^verbatim>\<open>pkg/module/xep0280\<close>. The exact copies of a message (\<open>carbons_world\<close>), and that private
    messages are copied too.
  \<^item> \<open>Disco\<close>, \<open>Caps\<close>, \<open>Caps_Safety\<close>: \<^verbatim>\<open>pkg/module/xep0030\<close>, \<^verbatim>\<open>pkg/module/xep0115\<close>. Who is told about an account
    (\<open>disco_world\<close>, over the embedded back end \<open>bolt_disco_world\<close>); stored capabilities have been verified and no run panics (\<open>caps_world\<close>), and the
    server's own answers verify to the hash it announces (\<open>caps_lib\<close>).
  \<^item> \<open>User_Data\<close>, \<open>Last_Activity\<close>: \<^verbatim>\<open>pkg/module/xep0049\<close>, \<^verbatim>\<open>xep0054\<close>, \<^verbatim>\<open>xep0012\<close>. Private elements, vCards and
    last activity over repositories with the contract \<open>entity_store\<close> (\<open>private_module\<close>, \<open>vcard_module\<close>,
    \<open>last_module\<close>).
  \<^item> \<open>Ping\<close>: \<^verbatim>\<open>pkg/module/xep0199\<close>, \<^verbatim>\<open>xep0092\<close>, \<^verbatim>\<open>xep0202\<close>. The timers of pings, where sending a ping and setting the
    timer of its answer are two steps; clients that answer are not disconnected, except in a race
    between the two.

  \<^bold>\<open>Conventions.\<close> Go's \<^verbatim>\<open>(T, error)\<close> is \<open>go_error + 'a\<close>; a panic is the error \<open>ErrPanic\<close>, waiting for a
  lock that is never released \<open>ErrDeadlock\<close>. Code outside the repository is an argument: the XML
  package, the key-value store, gRPC, protocol buffers, hash functions and the transport as seen by
  a stream. What a theorem needs of it is a named predicate among its hypotheses
  (\<open>codec_roundtrip\<close>, \<open>newjid_parts\<close>, \<open>send_keeps_names\<close>, \<open>routing_ok\<close>, \<open>handlers_keep\<close>) or a locale.
  Iteration over a Go map takes the order as an argument. Mutexes make operations atomic; they are
  modelled as such where they are always released, and explicitly in \<open>Member_List\<close>, where one is
  not; the lock of the embedded repository is none, and \<open>Offline_Overlap\<close> shows what follows. Where the code
  drops the result of a call, the model drops a panic of that call too (\<open>ignore\<close>). A hook run that a
  handler stops reports the information from before that handler. \<^verbatim>\<open>sort.Slice\<close> is an insertion
  sort: what it does with elements that compare equal is not specified by Go, and no theorem depends on it
  without saying so.

  \<^bold>\<open>Fuel.\<close> The one loop without an evident bound is the retry of \<^verbatim>\<open>processMessage\<close>, which client
  streams and incoming server streams both have; it takes fuel. For client streams
  \<open>message_loop_ends\<close> shows that two rounds are enough and what is needed for that; the properties of
  server streams hold for every fuel. The loop of the consistent hash is a partial function that is shown to
  end (\<open>jump_hash_consistent\<close>). All other loops are structural or have a termination proof.

  \<^bold>\<open>Not modelled.\<close> Metrics, logging, contexts and their timeouts, floating-point info values, the
  goroutines that wait for streams to stop, and the packages listed as such in the manifest:
  the PostgreSQL back end (SQL text), transports, the command line and start-up.
\<close>

end
